(* ===== verification/Prelude.thy ===== *)
theory Prelude
  imports Main "HOL-Library.Word"
begin

text \<open>
  Shared vocabulary of the development: the C integer widths, the UEFI status codes the
  modelled code returns, and the generic list, option and word lemmas that the component
  theories share.  Status codes are a datatype with one constructor for each code the
  sources name; \<open>EFI_OTHER\<close> stands for any further code that an external service can hand
  to the code (the code only tests it with \<open>EFI_ERROR\<close> and passes it on).
\<close>

unbundle bit_operations_syntax

type_synonym u8 = "8 word"
type_synonym u16 = "16 word"
type_synonym u32 = "32 word"
type_synonym u64 = "64 word"

text \<open>UEFI task priority levels, pool addresses and event handles are plain numbers.\<close>

type_synonym efi_tpl = nat
type_synonym ptr = nat
type_synonym efi_event = nat

definition TPL_CALLBACK :: efi_tpl where "TPL_CALLBACK = 8"
definition TPL_NOTIFY :: efi_tpl where "TPL_NOTIFY = 16"

datatype efi_status =
    EFI_SUCCESS
  | EFI_LOAD_ERROR
  | EFI_INVALID_PARAMETER
  | EFI_UNSUPPORTED
  | EFI_BAD_BUFFER_SIZE
  | EFI_BUFFER_TOO_SMALL
  | EFI_NOT_READY
  | EFI_DEVICE_ERROR
  | EFI_OUT_OF_RESOURCES
  | EFI_NOT_FOUND
  | EFI_TIMEOUT
  | EFI_ALREADY_STARTED
  | EFI_NOT_STARTED
  | EFI_ABORTED
  | EFI_NO_MEDIA
  | EFI_OTHER nat

definition EFI_ERROR :: "efi_status \<Rightarrow> bool" where
  "EFI_ERROR st \<longleftrightarrow> st \<noteq> EFI_SUCCESS"

named_theorems status_simps \<open>rewriting of status tests\<close>
named_theorems frame_simps \<open>fields an operation leaves alone\<close>

lemma EFI_ERROR_SUCCESS [simp, status_simps]: "\<not> EFI_ERROR EFI_SUCCESS"
  by (simp add: EFI_ERROR_def)

lemma EFI_ERROR_iff [status_simps]: "EFI_ERROR st \<longleftrightarrow> st \<noteq> EFI_SUCCESS"
  by (simp add: EFI_ERROR_def)

lemma not_EFI_ERRORD [dest]: "\<not> EFI_ERROR st \<Longrightarrow> st = EFI_SUCCESS"
  by (simp add: EFI_ERROR_def)

section \<open>Lists\<close>

definition take_last :: "nat \<Rightarrow> 'a list \<Rightarrow> 'a list" where
  "take_last n xs = drop (length xs - n) xs"

lemma take_last_short [simp]: "length xs \<le> n \<Longrightarrow> take_last n xs = xs"
  by (simp add: take_last_def)

lemma length_take_last [simp]: "length (take_last n xs) = min (length xs) n"
  by (auto simp: take_last_def)

lemma take_last_snoc:
  "0 < n \<Longrightarrow> take_last n (take_last n xs @ [x]) = take_last n (xs @ [x])"
  by (cases "n \<le> length xs") (auto simp: take_last_def Suc_diff_le)

lemma take_last_append_tl:
  "length xs = n \<Longrightarrow> 0 < n \<Longrightarrow> take_last n (xs @ [x]) = tl xs @ [x]"
  by (auto simp: take_last_def drop_Suc Suc_diff_le)

lemma set_take_last: "set (take_last n xs) \<subseteq> set xs"
  by (simp add: take_last_def set_drop_subset)

lemma nth_tl_shift: "i < length xs - 1 \<Longrightarrow> tl xs ! i = xs ! Suc i"
  by (cases xs) simp_all

lemma replicate_two: "replicate 2 x = [x, x]"
  by (simp add: numeral_2_eq_2)

section \<open>Arithmetic of circular buffers\<close>

text \<open>The number of slots from \<open>h\<close> up to \<open>t\<close> in a ring of \<open>n\<close> slots.\<close>

definition ring_dist :: "nat \<Rightarrow> nat \<Rightarrow> nat \<Rightarrow> nat" where
  "ring_dist n h t = (if h \<le> t then t - h else n + t - h)"

lemma ring_dist_bound: "h < n \<Longrightarrow> t < n \<Longrightarrow> ring_dist n h t < n"
  by (auto simp: ring_dist_def)

lemma ring_dist_zero: "h < n \<Longrightarrow> t < n \<Longrightarrow> ring_dist n h t = 0 \<longleftrightarrow> h = t"
  by (auto simp: ring_dist_def)

lemma Suc_mod_ring: "h < n \<Longrightarrow> Suc h mod n = (if Suc h = n then 0 else Suc h)"
  by auto

lemma ring_dist_Suc_tail:
  "h < n \<Longrightarrow> t < n \<Longrightarrow> Suc t mod n \<noteq> h \<Longrightarrow> ring_dist n h (Suc t mod n) = Suc (ring_dist n h t)"
  by (auto simp: ring_dist_def Suc_mod_ring split: if_splits)

lemma ring_dist_Suc_head:
  "h < n \<Longrightarrow> t < n \<Longrightarrow> h \<noteq> t \<Longrightarrow> ring_dist n (Suc h mod n) t = ring_dist n h t - 1"
  by (auto simp: ring_dist_def Suc_mod_ring split: if_splits)

lemma ring_dist_full:
  "h < n \<Longrightarrow> t < n \<Longrightarrow> Suc t mod n = h \<longleftrightarrow> ring_dist n h t = n - 1"
  by (auto simp: ring_dist_def Suc_mod_ring split: if_splits)

lemma ring_index_tail:
  "h < n \<Longrightarrow> t < n \<Longrightarrow> (h + ring_dist n h t) mod n = t"
  by (auto simp: ring_dist_def)

lemma ring_index_inj:
  assumes "h < n" "i < n" "j < n" "(h + i) mod n = (h + j) mod n"
  shows "i = (j :: nat)"
proof -
  have "(h + k) mod n = (if h + k < n then h + k else h + k - n)" if "k < n" for k
    using that assms(1) by (auto simp: mod_if)
  then show ?thesis
    using assms by (auto split: if_splits)
qed

section \<open>Words\<close>

text \<open>Testing a single-bit mask is testing the bit.\<close>

lemma word_and_exp_eq:
  assumes "n < LENGTH('a)"
  shows "(b AND 2 ^ n = (2 ^ n :: 'a :: len word)) = bit b n"
proof
  assume "b AND 2 ^ n = (2 ^ n :: 'a word)"
  then have "bit (b AND 2 ^ n) n" using assms by (simp add: bit_exp_iff)
  then show "bit b n" by (simp add: bit_and_iff)
qed (auto intro!: bit_word_eqI simp: bit_simps)

end
