(* ===== verification/KeyQueue.thy ===== *)
theory KeyQueue
  imports Prelude
begin

text \<open>
  The EFI key buffer of the keypad driver (\<open>Drivers/KeypadDxe/Keypad.h\<close>,
  \<open>KeypadTextIn.c\<close>): a ring of 256 slots with a head and a tail index, its three
  operations, and the contract they implement, stated as the locale \<open>bounded_fifo\<close>:
  a queue that holds at most \<open>cap\<close> elements and drops the oldest one when a push finds
  it full.
\<close>

section \<open>Key data\<close>

text \<open>\<open>EFI_KEY_DATA\<close> and its parts are the records of the UEFI specification.\<close>

record EFI_INPUT_KEY =
  ScanCode :: u16
  UnicodeChar :: u16

record EFI_KEY_STATE =
  KeyShiftState :: u32
  KeyToggleState :: u8

record EFI_KEY_DATA =
  Key :: EFI_INPUT_KEY
  KeyState :: EFI_KEY_STATE

definition SCAN_NULL :: u16 where "SCAN_NULL = 0"
definition CHAR_NULL :: u16 where "CHAR_NULL = 0"

definition null_key :: EFI_KEY_DATA where
  "null_key = \<lparr>Key = \<lparr>ScanCode = 0, UnicodeChar = 0\<rparr>,
               KeyState = \<lparr>KeyShiftState = 0, KeyToggleState = 0\<rparr>\<rparr>"

text \<open>The test \<open>ScanCode == SCAN_NULL && UnicodeChar == CHAR_NULL\<close> the driver repeats.\<close>

definition is_null_key :: "EFI_KEY_DATA \<Rightarrow> bool" where
  "is_null_key k \<longleftrightarrow> ScanCode (Key k) = SCAN_NULL \<and> UnicodeChar (Key k) = CHAR_NULL"

section \<open>The ring buffer\<close>

definition KEYPAD_EFI_KEY_MAX_COUNT :: nat where
  "KEYPAD_EFI_KEY_MAX_COUNT = 256"

record EFI_KEY_QUEUE =
  Buffer :: "EFI_KEY_DATA list"
  Head :: nat
  Tail :: nat

definition IsEfikeyBufEmpty :: "EFI_KEY_QUEUE \<Rightarrow> bool" where
  "IsEfikeyBufEmpty Queue \<longleftrightarrow> Head Queue = Tail Queue"

text \<open>
  \<open>PopEfikeyBufHead\<close> writes through \<open>KeyData\<close> only when it is not NULL and the queue is
  not empty; the model returns the key it copied, which a caller that passed NULL drops.
\<close>

definition PopEfikeyBufHead ::
  "EFI_KEY_QUEUE \<Rightarrow> efi_status \<times> EFI_KEY_DATA option \<times> EFI_KEY_QUEUE" where
  "PopEfikeyBufHead Queue =
     (if IsEfikeyBufEmpty Queue then (EFI_NOT_READY, None, Queue)
      else (EFI_SUCCESS, Some (Buffer Queue ! Head Queue),
            Queue\<lparr>Head := (Head Queue + 1) mod KEYPAD_EFI_KEY_MAX_COUNT\<rparr>))"

definition PushEfikeyBufTail :: "EFI_KEY_QUEUE \<Rightarrow> EFI_KEY_DATA \<Rightarrow> EFI_KEY_QUEUE" where
  "PushEfikeyBufTail Queue KeyData =
     (let Q = (if (Tail Queue + 1) mod KEYPAD_EFI_KEY_MAX_COUNT = Head Queue
               then snd (snd (PopEfikeyBufHead Queue)) else Queue)
      in Q\<lparr>Buffer := (Buffer Q)[Tail Q := KeyData],
           Tail := (Tail Q + 1) mod KEYPAD_EFI_KEY_MAX_COUNT\<rparr>)"

text \<open>\<open>IsKeyRegistered\<close>: a zero shift or toggle state in the registration matches any.\<close>

definition IsKeyRegistered :: "EFI_KEY_DATA \<Rightarrow> EFI_KEY_DATA \<Rightarrow> bool" where
  "IsKeyRegistered RegsiteredData InputData =
     (if ScanCode (Key RegsiteredData) \<noteq> ScanCode (Key InputData)
         \<or> UnicodeChar (Key RegsiteredData) \<noteq> UnicodeChar (Key InputData) then False
      else if KeyShiftState (KeyState RegsiteredData) \<noteq> 0
         \<and> KeyShiftState (KeyState RegsiteredData) \<noteq> KeyShiftState (KeyState InputData) then False
      else if KeyToggleState (KeyState RegsiteredData) \<noteq> 0
         \<and> KeyToggleState (KeyState RegsiteredData) \<noteq> KeyToggleState (KeyState InputData) then False
      else True)"

section \<open>The contract: a bounded queue that drops its oldest element\<close>

locale bounded_fifo =
  fixes empty_p :: "'q \<Rightarrow> bool"
    and pop :: "'q \<Rightarrow> efi_status \<times> 'a option \<times> 'q"
    and push :: "'q \<Rightarrow> 'a \<Rightarrow> 'q"
    and elems :: "'q \<Rightarrow> 'a list"
    and inv :: "'q \<Rightarrow> bool"
    and cap :: nat
  assumes cap_pos: "0 < cap"
    and bounded: "inv q \<Longrightarrow> length (elems q) \<le> cap"
    and empty_iff: "inv q \<Longrightarrow> empty_p q \<longleftrightarrow> elems q = []"
    and pop_empty: "inv q \<Longrightarrow> elems q = [] \<Longrightarrow> pop q = (EFI_NOT_READY, None, q)"
    and pop_cons: "inv q \<Longrightarrow> elems q = x # xs \<Longrightarrow>
      \<exists>q'. pop q = (EFI_SUCCESS, Some x, q') \<and> inv q' \<and> elems q' = xs"
    and push_inv: "inv q \<Longrightarrow> inv (push q x)"
    and push_elems: "inv q \<Longrightarrow> elems (push q x) = take_last cap (elems q @ [x])"
begin

lemma pop_inv: "inv q \<Longrightarrow> inv (snd (snd (pop q)))"
  by (cases "elems q") (use pop_empty pop_cons in fastforce)+

lemma pop_elems: "inv q \<Longrightarrow> elems (snd (snd (pop q))) = tl (elems q)"
  by (cases "elems q") (use pop_empty pop_cons in fastforce)+

lemma pop_status: "inv q \<Longrightarrow> fst (pop q) = (if elems q = [] then EFI_NOT_READY else EFI_SUCCESS)"
  by (cases "elems q") (use pop_empty pop_cons in fastforce)+

lemma pop_value: "inv q \<Longrightarrow> fst (snd (pop q)) = (if elems q = [] then None else Some (hd (elems q)))"
  by (cases "elems q") (use pop_empty pop_cons in fastforce)+

lemma pop_shorter: "inv q \<Longrightarrow> \<not> empty_p q \<Longrightarrow>
    length (elems (snd (snd (pop q)))) < length (elems q)"
  by (cases "elems q") (auto simp: empty_iff pop_elems)

lemma pop_set: "inv q \<Longrightarrow> set (elems (snd (snd (pop q)))) \<subseteq> set (elems q)"
  by (cases "elems q") (auto simp: pop_elems)

lemma push_set: "inv q \<Longrightarrow> set (elems (push q x)) \<subseteq> insert x (set (elems q))"
  using set_take_last [of cap "elems q @ [x]"] by (auto simp: push_elems)

lemma push_all_inv: "inv q \<Longrightarrow> inv (foldl push q xs)"
  by (induction xs arbitrary: q) (auto simp: push_inv)

text \<open>A run of pushes keeps the newest \<open>cap\<close> elements, in order.\<close>

lemma push_all_elems: "inv q \<Longrightarrow> elems (foldl push q xs) = take_last cap (elems q @ xs)"
proof (induction xs rule: rev_induct)
  case Nil
  then show ?case by (simp add: bounded)
next
  case (snoc x xs)
  then have "elems (foldl push q (xs @ [x])) = take_last cap (take_last cap (elems q @ xs) @ [x])"
    by (simp add: push_elems push_all_inv)
  then show ?case using take_last_snoc [OF cap_pos, of "elems q @ xs" x] by simp
qed

end

section \<open>The ring buffer implements the contract\<close>

definition key_queue_inv :: "EFI_KEY_QUEUE \<Rightarrow> bool" where
  "key_queue_inv q \<longleftrightarrow> length (Buffer q) = KEYPAD_EFI_KEY_MAX_COUNT
     \<and> Head q < KEYPAD_EFI_KEY_MAX_COUNT \<and> Tail q < KEYPAD_EFI_KEY_MAX_COUNT"

text \<open>The ring always keeps one slot free.\<close>

definition queue_cap :: nat where
  "queue_cap = KEYPAD_EFI_KEY_MAX_COUNT - 1"

definition key_queue_keys :: "EFI_KEY_QUEUE \<Rightarrow> EFI_KEY_DATA list" where
  "key_queue_keys q =
     map (\<lambda>i. Buffer q ! ((Head q + i) mod KEYPAD_EFI_KEY_MAX_COUNT))
         [0..<ring_dist KEYPAD_EFI_KEY_MAX_COUNT (Head q) (Tail q)]"

lemma MAX_COUNT_pos [simp]: "0 < KEYPAD_EFI_KEY_MAX_COUNT" "Suc 0 < KEYPAD_EFI_KEY_MAX_COUNT"
  by (simp_all add: KEYPAD_EFI_KEY_MAX_COUNT_def)

lemma length_key_queue_keys:
  "length (key_queue_keys q) = ring_dist KEYPAD_EFI_KEY_MAX_COUNT (Head q) (Tail q)"
  by (simp add: key_queue_keys_def)

lemma pop_keys:
  assumes "key_queue_inv q" and "\<not> IsEfikeyBufEmpty q"
  shows "key_queue_keys q = Buffer q ! Head q
           # key_queue_keys (q\<lparr>Head := (Head q + 1) mod KEYPAD_EFI_KEY_MAX_COUNT\<rparr>)"
proof -
  let ?n = KEYPAD_EFI_KEY_MAX_COUNT
  let ?d = "ring_dist ?n (Head q) (Tail q)"
  have h: "Head q < ?n" "Tail q < ?n" "Head q \<noteq> Tail q"
    using assms by (auto simp: key_queue_inv_def IsEfikeyBufEmpty_def)
  then have d: "?d > 0" using ring_dist_zero by fastforce
  have step: "ring_dist ?n (Suc (Head q) mod ?n) (Tail q) = ?d - 1"
    using h by (rule ring_dist_Suc_head)
  have "[0..<?d] = 0 # map Suc [0..<?d - 1]"
    using d by (simp add: map_Suc_upt upt_conv_Cons)
  then show ?thesis
    using h step by (simp add: key_queue_keys_def mod_simps comp_def)
qed

lemma push_room_keys:
  assumes "key_queue_inv q" and "(Tail q + 1) mod KEYPAD_EFI_KEY_MAX_COUNT \<noteq> Head q"
  shows "key_queue_keys (q\<lparr>Buffer := (Buffer q)[Tail q := k],
           Tail := (Tail q + 1) mod KEYPAD_EFI_KEY_MAX_COUNT\<rparr>) = key_queue_keys q @ [k]"
proof -
  let ?n = KEYPAD_EFI_KEY_MAX_COUNT
  let ?d = "ring_dist ?n (Head q) (Tail q)"
  have h: "Head q < ?n" "Tail q < ?n" "length (Buffer q) = ?n"
    using assms by (auto simp: key_queue_inv_def)
  have step: "ring_dist ?n (Head q) (Suc (Tail q) mod ?n) = Suc ?d"
    using ring_dist_Suc_tail h assms(2) by simp
  have at: "(Head q + ?d) mod ?n = Tail q"
    using h ring_index_tail by simp
  have other: "Tail q \<noteq> (Head q + i) mod ?n" if "i < ?d" for i
    using ring_index_inj [of "Head q" ?n i ?d] that h at ring_dist_bound [of "Head q" ?n "Tail q"]
    by auto
  show ?thesis
    using h step at other by (simp add: key_queue_keys_def)
qed

lemma key_queue_full_iff:
  "key_queue_inv q \<Longrightarrow> (Tail q + 1) mod KEYPAD_EFI_KEY_MAX_COUNT = Head q \<longleftrightarrow>
     length (key_queue_keys q) = KEYPAD_EFI_KEY_MAX_COUNT - 1"
  using ring_dist_full [of "Head q" KEYPAD_EFI_KEY_MAX_COUNT "Tail q"]
  by (simp add: key_queue_inv_def length_key_queue_keys)

lemma key_queue_push_keys:
  assumes inv: "key_queue_inv q"
  shows "key_queue_inv (PushEfikeyBufTail q k) \<and> key_queue_keys (PushEfikeyBufTail q k)
           = take_last (KEYPAD_EFI_KEY_MAX_COUNT - 1) (key_queue_keys q @ [k])"
proof (cases "(Tail q + 1) mod KEYPAD_EFI_KEY_MAX_COUNT = Head q")
  case False
  then have "length (key_queue_keys q) < KEYPAD_EFI_KEY_MAX_COUNT - 1"
    using key_queue_full_iff [OF inv] ring_dist_bound [of "Head q" KEYPAD_EFI_KEY_MAX_COUNT "Tail q"] inv
    by (auto simp: length_key_queue_keys key_queue_inv_def)
  with False inv show ?thesis
    using push_room_keys [OF inv, of k]
    by (simp add: PushEfikeyBufTail_def key_queue_inv_def)
next
  case True
  let ?q = "q\<lparr>Head := (Head q + 1) mod KEYPAD_EFI_KEY_MAX_COUNT\<rparr>"
  have full: "length (key_queue_keys q) = KEYPAD_EFI_KEY_MAX_COUNT - 1"
    using True key_queue_full_iff [OF inv] by simp
  have ne: "\<not> IsEfikeyBufEmpty q"
    using full inv ring_dist_zero [of "Head q" KEYPAD_EFI_KEY_MAX_COUNT "Tail q"]
    by (auto simp: IsEfikeyBufEmpty_def length_key_queue_keys key_queue_inv_def
        KEYPAD_EFI_KEY_MAX_COUNT_def)
  have keys: "key_queue_keys q = Buffer q ! Head q # key_queue_keys ?q"
    by (rule pop_keys [OF inv ne])
  have inv': "key_queue_inv ?q" using inv by (simp add: key_queue_inv_def)
  have dropped: "take_last (KEYPAD_EFI_KEY_MAX_COUNT - 1) (key_queue_keys q @ [k]) =
      tl (key_queue_keys q) @ [k]"
    by (rule take_last_append_tl [OF full]) (simp add: KEYPAD_EFI_KEY_MAX_COUNT_def)
  have room: "(Tail ?q + 1) mod KEYPAD_EFI_KEY_MAX_COUNT \<noteq> Head ?q"
    using key_queue_full_iff [OF inv'] full keys by auto
  have "PushEfikeyBufTail q k = ?q\<lparr>Buffer := (Buffer q)[Tail q := k],
           Tail := (Tail q + 1) mod KEYPAD_EFI_KEY_MAX_COUNT\<rparr>"
    using True ne by (simp add: PushEfikeyBufTail_def PopEfikeyBufHead_def)
  then show ?thesis
    using push_room_keys [OF inv' room, of k] keys dropped inv
    by (simp add: key_queue_inv_def)
qed

interpretation kq: bounded_fifo IsEfikeyBufEmpty PopEfikeyBufHead PushEfikeyBufTail
    key_queue_keys key_queue_inv queue_cap
proof (unfold_locales, goal_cases)
  case 1
  show ?case by (simp add: queue_cap_def KEYPAD_EFI_KEY_MAX_COUNT_def)
next
  case (2 q)
  then show ?case
    using ring_dist_bound [of "Head q" KEYPAD_EFI_KEY_MAX_COUNT "Tail q"]
    by (simp add: length_key_queue_keys key_queue_inv_def queue_cap_def)
next
  case (3 q)
  then show ?case
    using ring_dist_zero [of "Head q" KEYPAD_EFI_KEY_MAX_COUNT "Tail q"]
    by (simp add: IsEfikeyBufEmpty_def key_queue_inv_def flip: length_0_conv length_key_queue_keys)
next
  case (4 q)
  then show ?case
    using ring_dist_zero [of "Head q" KEYPAD_EFI_KEY_MAX_COUNT "Tail q"]
    by (simp add: PopEfikeyBufHead_def IsEfikeyBufEmpty_def key_queue_inv_def
        flip: length_0_conv length_key_queue_keys)
next
  case (5 q x xs)
  then have "\<not> IsEfikeyBufEmpty q"
    by (auto simp: IsEfikeyBufEmpty_def key_queue_keys_def ring_dist_def)
  with 5 show ?case
    using pop_keys [of q] by (auto simp: PopEfikeyBufHead_def key_queue_inv_def)
next
  case (6 q x)
  then show ?case using key_queue_push_keys by blast
next
  case (7 q x)
  then show ?case using key_queue_push_keys [of q x] by (simp add: queue_cap_def)
qed

end
