(* ===== verification/KeypadDevice.thy ===== *)
theory KeypadDevice
  imports KeyQueue
begin

text \<open>
  The keypad device behind the keypad driver: \<open>Library/KeypadDeviceImplLib\<close>, which polls
  three GPIO buttons (volume down, volume up, power) and turns presses, long presses and
  chords into EFI keys, and \<open>Drivers/GenericKeypadDeviceDxe\<close>, which publishes it as a
  \<open>KEYPAD_DEVICE_PROTOCOL\<close>.  The contract the driver relies on is the locale
  \<open>keypad_device\<close>, interpreted at the end on the published protocol.

  The bitmap operations (\<open>BitmapLib\<close>, not part of this repository) are the parameter
  \<open>BitmapLib\<close>; MMIO reads and the driver's callback act on an abstract driver state \<open>'s\<close>,
  which the library never inspects.
\<close>

section \<open>State\<close>

definition SCAN_UP :: u16 where "SCAN_UP = 0x01"
definition SCAN_DOWN :: u16 where "SCAN_DOWN = 0x02"
definition SCAN_RIGHT :: u16 where "SCAN_RIGHT = 0x03"
definition SCAN_LEFT :: u16 where "SCAN_LEFT = 0x04"
definition SCAN_ESC :: u16 where "SCAN_ESC = 0x17"
definition CHAR_CARRIAGE_RETURN :: u16 where "CHAR_CARRIAGE_RETURN = 0x0d"

lemmas scan_defs = SCAN_NULL_def CHAR_NULL_def SCAN_UP_def SCAN_DOWN_def SCAN_RIGHT_def
  SCAN_LEFT_def SCAN_ESC_def CHAR_CARRIAGE_RETURN_def

record 'b BitmapLib =
  BitmapSet :: "'b \<Rightarrow> u16 \<Rightarrow> 'b"
  BitmapClear :: "'b \<Rightarrow> u16 \<Rightarrow> 'b"
  BitmapTest :: "'b \<Rightarrow> u16 \<Rightarrow> bool"

text \<open>What the bitmap library documents: setting and clearing affect the named bit only.\<close>

definition bitmap_laws :: "'b BitmapLib \<Rightarrow> bool" where
  "bitmap_laws bl \<longleftrightarrow>
     (\<forall>b i j. BitmapTest bl (BitmapSet bl b i) j = (i = j \<or> BitmapTest bl b j)) \<and>
     (\<forall>b i j. BitmapTest bl (BitmapClear bl b i) j = (i \<noteq> j \<and> BitmapTest bl b j))"

datatype key_state = KEYSTATE_RELEASED | KEYSTATE_PRESSED | KEYSTATE_LONGPRESS_RELEASE

record KEY_CONTEXT =
  KeyData :: EFI_KEY_DATA
  Time :: u64
  State :: key_state
  Repeat :: bool
  Longpress :: bool

record KEY_CONTEXT_PRIVATE =
  EfiKeyContext :: KEY_CONTEXT
  PinctrlBase :: u32
  BankOffset :: u32
  PinNum :: u32
  Pmic_key :: u32

record 'b key_bitmaps =
  gBitmapScanCodes :: 'b
  gBitmapUnicodeChars :: 'b

record 'b keypad_lib =
  bitmaps :: "'b key_bitmaps"
  KeyContextPower :: KEY_CONTEXT_PRIVATE
  KeyContextVolumeUp :: KEY_CONTEXT_PRIVATE
  KeyContextVolumeDown :: KEY_CONTEXT_PRIVATE

definition scan_key :: "u16 \<Rightarrow> EFI_KEY_DATA" where
  "scan_key sc = null_key\<lparr>Key := \<lparr>ScanCode = sc, UnicodeChar = 0\<rparr>\<rparr>"

definition gKeyDataPowerDown :: EFI_KEY_DATA where "gKeyDataPowerDown = scan_key SCAN_RIGHT"
definition gKeyDataPowerUp :: EFI_KEY_DATA where "gKeyDataPowerUp = scan_key SCAN_LEFT"
definition gKeyDataPowerLongpress :: EFI_KEY_DATA where "gKeyDataPowerLongpress = scan_key SCAN_ESC"

definition MS2NS :: "u64 \<Rightarrow> u64" where
  "MS2NS ms = ms * 1000000"

section \<open>The pressed-keys bitmaps\<close>

text \<open>Both branches index the bitmaps with \<open>ScanCode\<close>, as the source does.\<close>

definition KeySetState ::
  "'b BitmapLib \<Rightarrow> u16 \<Rightarrow> u16 \<Rightarrow> bool \<Rightarrow> 'b key_bitmaps \<Rightarrow> 'b key_bitmaps" where
  "KeySetState bl sc uc v bm =
     (let bm1 = (if sc \<noteq> 0 \<and> sc < 0x18
                 then bm\<lparr>gBitmapScanCodes :=
                        (if v then BitmapSet bl (gBitmapScanCodes bm) sc
                         else BitmapClear bl (gBitmapScanCodes bm) sc)\<rparr>
                 else bm)
      in if uc \<noteq> 0 \<and> uc < 0x7f
         then bm1\<lparr>gBitmapUnicodeChars :=
                (if v then BitmapSet bl (gBitmapUnicodeChars bm1) sc
                 else BitmapClear bl (gBitmapUnicodeChars bm1) sc)\<rparr>
         else bm1)"

definition KeyGetState :: "'b BitmapLib \<Rightarrow> u16 \<Rightarrow> u16 \<Rightarrow> 'b key_bitmaps \<Rightarrow> bool" where
  "KeyGetState bl sc uc bm =
     (if sc \<noteq> 0 \<and> sc < 0x18 \<and> \<not> BitmapTest bl (gBitmapScanCodes bm) sc then False
      else if uc \<noteq> 0 \<and> uc < 0x7f \<and> \<not> BitmapTest bl (gBitmapUnicodeChars bm) sc then False
      else True)"

section \<open>One key\<close>

definition LibKeyInitializeKeyContext :: "KEY_CONTEXT \<Rightarrow> KEY_CONTEXT" where
  "LibKeyInitializeKeyContext Context =
     Context\<lparr>KeyData := null_key, Time := 0, State := KEYSTATE_RELEASED,
             Repeat := False, Longpress := False\<rparr>"

definition key_released :: "KEY_CONTEXT \<Rightarrow> KEY_CONTEXT" where
  "key_released c = c\<lparr>Time := 0, Repeat := False, Longpress := False, State := KEYSTATE_RELEASED\<rparr>"

definition LibKeyUpdateKeyStatus ::
  "'b BitmapLib \<Rightarrow> (EFI_KEY_DATA \<Rightarrow> 's \<Rightarrow> 's) \<Rightarrow> bool \<Rightarrow> u64 \<Rightarrow>
   KEY_CONTEXT \<times> 'b key_bitmaps \<times> 's \<Rightarrow> KEY_CONTEXT \<times> 'b key_bitmaps \<times> 's" where
  "LibKeyUpdateKeyStatus bl push IsPressed Delta = (\<lambda>(c0, bm0, s).
     let bm = KeySetState bl (ScanCode (Key (KeyData c0))) (UnicodeChar (Key (KeyData c0))) IsPressed bm0;
         c = c0\<lparr>Time := Time c0 + Delta\<rparr>
     in case State c of
          KEYSTATE_RELEASED \<Rightarrow>
            if IsPressed then (c\<lparr>Time := 0, State := KEYSTATE_PRESSED\<rparr>, bm, s) else (c, bm, s)
        | KEYSTATE_PRESSED \<Rightarrow>
            if IsPressed then
              if Repeat c \<and> MS2NS 100 \<le> Time c then
                (c\<lparr>Time := 0, Repeat := True\<rparr>, bm, push (KeyData c) s)
              else if \<not> Longpress c \<and> MS2NS 500 \<le> Time c then
                if UnicodeChar (Key (KeyData c)) = CHAR_CARRIAGE_RETURN then
                  if KeyGetState bl SCAN_DOWN 0 bm then
                    (c\<lparr>Longpress := True\<rparr>, bm, push gKeyDataPowerDown s)
                  else if KeyGetState bl SCAN_UP 0 bm then
                    (c\<lparr>Longpress := True\<rparr>, bm, push gKeyDataPowerUp s)
                  else (c\<lparr>Longpress := True\<rparr>, bm, push gKeyDataPowerLongpress s)
                else if \<not> KeyGetState bl 0 CHAR_CARRIAGE_RETURN bm then
                  (c\<lparr>Time := 0, Repeat := True, Longpress := True\<rparr>, bm, push (KeyData c) s)
                else (c\<lparr>Longpress := True\<rparr>, bm, s)
              else (c, bm, s)
            else if \<not> Longpress c then
              (c\<lparr>State := KEYSTATE_LONGPRESS_RELEASE\<rparr>, bm, push (KeyData c) s)
            else if MS2NS 10 \<le> Time c then (key_released c, bm, s)
            else (c, bm, s)
        | KEYSTATE_LONGPRESS_RELEASE \<Rightarrow> (key_released c, bm, s))"

section \<open>The three buttons\<close>

datatype key_id = KVolumeDown | KVolumeUp | KPower

definition KeyList :: "key_id list" where
  "KeyList = [KVolumeDown, KVolumeUp, KPower]"

fun key_context :: "key_id \<Rightarrow> 'b keypad_lib \<Rightarrow> KEY_CONTEXT_PRIVATE" where
  "key_context KVolumeDown d = KeyContextVolumeDown d"
| "key_context KVolumeUp d = KeyContextVolumeUp d"
| "key_context KPower d = KeyContextPower d"

fun set_key_context :: "key_id \<Rightarrow> KEY_CONTEXT_PRIVATE \<Rightarrow> 'b keypad_lib \<Rightarrow> 'b keypad_lib" where
  "set_key_context KVolumeDown c d = d\<lparr>KeyContextVolumeDown := c\<rparr>"
| "set_key_context KVolumeUp c d = d\<lparr>KeyContextVolumeUp := c\<rparr>"
| "set_key_context KPower c d = d\<lparr>KeyContextPower := c\<rparr>"

definition KeypadInitializeKeyContextPrivate :: "KEY_CONTEXT_PRIVATE \<Rightarrow> KEY_CONTEXT_PRIVATE" where
  "KeypadInitializeKeyContextPrivate c =
     c\<lparr>PinctrlBase := 0, BankOffset := 0, PinNum := 0, Pmic_key := 0\<rparr>"

definition KeypadKeyCodeToKeyContext :: "u32 \<Rightarrow> key_id option" where
  "KeypadKeyCodeToKeyContext KeyCode =
     (if KeyCode = 114 then Some KVolumeDown
      else if KeyCode = 115 then Some KVolumeUp
      else if KeyCode = 116 then Some KPower
      else None)"

text \<open>The platform's configuration values (PCDs) are a parameter.\<close>

record button_pcds =
  PcdButtonsPinctrlBase :: u32
  PcdVolumeDownButtonBankOffset :: u32
  PcdVolumeDownButtonGpaPin :: u32
  PcdVolumeUpButtonBankOffset :: u32
  PcdVolumeUpButtonGpaPin :: u32
  PcdPowerButtonBankOffset :: u32
  PcdPowerButtonGpaPin :: u32

definition update_key_context ::
  "u32 \<Rightarrow> (KEY_CONTEXT_PRIVATE \<Rightarrow> KEY_CONTEXT_PRIVATE) \<Rightarrow> 'b keypad_lib \<Rightarrow> 'b keypad_lib" where
  "update_key_context code f d =
     (case KeypadKeyCodeToKeyContext code of
        None \<Rightarrow> d | Some k \<Rightarrow> set_key_context k (f (key_context k d)) d)"

definition KeypadDeviceImplConstructor ::
  "button_pcds \<Rightarrow> 'b keypad_lib \<Rightarrow> efi_status \<times> 'b keypad_lib" where
  "KeypadDeviceImplConstructor pcd d0 =
     (let d1 = fold (\<lambda>k d. set_key_context k (KeypadInitializeKeyContextPrivate (key_context k d)) d)
                    KeyList d0;
          d2 = update_key_context 114
                 (\<lambda>c. c\<lparr>PinctrlBase := PcdButtonsPinctrlBase pcd,
                        BankOffset := PcdVolumeDownButtonBankOffset pcd,
                        PinNum := PcdVolumeDownButtonGpaPin pcd\<rparr>) d1;
          d3 = update_key_context 115
                 (\<lambda>c. c\<lparr>PinctrlBase := PcdButtonsPinctrlBase pcd,
                        BankOffset := PcdVolumeUpButtonBankOffset pcd,
                        PinNum := PcdVolumeUpButtonGpaPin pcd\<rparr>) d2;
          d4 = update_key_context 116
                 (\<lambda>c. c\<lparr>Pmic_key := 1,
                        PinctrlBase := PcdButtonsPinctrlBase pcd,
                        BankOffset := PcdPowerButtonBankOffset pcd,
                        PinNum := PcdPowerButtonGpaPin pcd\<rparr>) d3
      in (EFI_SUCCESS, d4))"

definition reset_key :: "(EFI_INPUT_KEY \<Rightarrow> EFI_INPUT_KEY) \<Rightarrow> KEY_CONTEXT_PRIVATE \<Rightarrow> KEY_CONTEXT_PRIVATE" where
  "reset_key f p =
     (let c = LibKeyInitializeKeyContext (EfiKeyContext p)
      in p\<lparr>EfiKeyContext := c\<lparr>KeyData := (KeyData c)\<lparr>Key := f (Key (KeyData c))\<rparr>\<rparr>\<rparr>)"

definition KeypadDeviceImplReset :: "'b keypad_lib \<Rightarrow> efi_status \<times> 'b keypad_lib" where
  "KeypadDeviceImplReset d0 =
     (let d1 = d0\<lparr>KeyContextVolumeDown :=
                  reset_key (\<lambda>k. k\<lparr>ScanCode := SCAN_DOWN\<rparr>) (KeyContextVolumeDown d0)\<rparr>;
          d2 = d1\<lparr>KeyContextVolumeUp :=
                  reset_key (\<lambda>k. k\<lparr>ScanCode := SCAN_UP\<rparr>) (KeyContextVolumeUp d1)\<rparr>;
          d3 = d2\<lparr>KeyContextPower :=
                  reset_key (\<lambda>k. k\<lparr>UnicodeChar := 0x0d\<rparr>) (KeyContextPower d2)\<rparr>
      in (EFI_SUCCESS, d3))"

text \<open>One turn of the polling loop: the pin reads low when the button is pressed.\<close>

definition poll_key ::
  "'b BitmapLib \<Rightarrow> (u32 \<Rightarrow> 's \<Rightarrow> u32 \<times> 's) \<Rightarrow> (EFI_KEY_DATA \<Rightarrow> 's \<Rightarrow> 's) \<Rightarrow> u64 \<Rightarrow>
   key_id \<Rightarrow> 'b keypad_lib \<times> 's \<Rightarrow> 'b keypad_lib \<times> 's" where
  "poll_key bl rd push Delta k = (\<lambda>(d, s).
     let Context = key_context k d;
         PinAddr = (PinctrlBase Context + BankOffset Context) + 0x4;
         (PinState, s1) = rd PinAddr s;
         IsPressed = (PinState AND push_bit (unat (PinNum Context)) 1 = 0);
         (c, bm, s2) = LibKeyUpdateKeyStatus bl push IsPressed Delta
                         (EfiKeyContext Context, bitmaps d, s1)
     in (set_key_context k (Context\<lparr>EfiKeyContext := c\<rparr>) (d\<lparr>bitmaps := bm\<rparr>), s2))"

definition KeypadDeviceImplGetKeys ::
  "'b BitmapLib \<Rightarrow> (u32 \<Rightarrow> 's \<Rightarrow> u32 \<times> 's) \<Rightarrow> (EFI_KEY_DATA \<Rightarrow> 's \<Rightarrow> 's) \<Rightarrow> u64 \<Rightarrow>
   'b keypad_lib \<times> 's \<Rightarrow> efi_status \<times> 'b keypad_lib \<times> 's" where
  "KeypadDeviceImplGetKeys bl rd push Delta ds =
     (EFI_SUCCESS, fold (poll_key bl rd push Delta) KeyList ds)"

section \<open>The protocol and its contract\<close>

record ('d, 's) KEYPAD_DEVICE_PROTOCOL =
  Reset :: "'d \<Rightarrow> efi_status \<times> 'd"
  GetKeys :: "(u32 \<Rightarrow> 's \<Rightarrow> u32 \<times> 's) \<Rightarrow> (EFI_KEY_DATA \<Rightarrow> 's \<Rightarrow> 's) \<Rightarrow> u64 \<Rightarrow> 'd \<times> 's \<Rightarrow>
    efi_status \<times> 'd \<times> 's"

definition mInternalKeypadDevice :: "'b BitmapLib \<Rightarrow> ('b keypad_lib, 's) KEYPAD_DEVICE_PROTOCOL" where
  "mInternalKeypadDevice bl = \<lparr>Reset = KeypadDeviceImplReset, GetKeys = KeypadDeviceImplGetKeys bl\<rparr>"

text \<open>
  What the keypad driver may assume of a device: polling touches the driver only through
  pin reads and pushes of keys, so it keeps whatever those keep; a device that has been
  reset pushes real keys only.
\<close>

locale keypad_device =
  fixes P :: "('d, 's) KEYPAD_DEVICE_PROTOCOL"
    and ready :: "'d \<Rightarrow> bool"
  assumes reset_ready: "ready (snd (Reset P d))"
    and get_keys_ready: "ready d \<Longrightarrow> ready (fst (snd (GetKeys P rd push Delta (d, s))))"
    and get_keys_keeps: "\<lbrakk>\<And>a s. I s \<Longrightarrow> I (snd (rd a s)); \<And>k s. I s \<Longrightarrow> I (push k s); I s\<rbrakk>
      \<Longrightarrow> I (snd (snd (GetKeys P rd push Delta (d, s))))"
    and get_keys_keeps_ready: "\<lbrakk>ready d; \<And>a s. I s \<Longrightarrow> I (snd (rd a s));
      \<And>k s. \<not> is_null_key k \<Longrightarrow> I s \<Longrightarrow> I (push k s); I s\<rbrakk>
      \<Longrightarrow> I (snd (snd (GetKeys P rd push Delta (d, s))))"

definition keys_ready :: "'b keypad_lib \<Rightarrow> bool" where
  "keys_ready d \<longleftrightarrow> (\<forall>k. \<not> is_null_key (KeyData (EfiKeyContext (key_context k d))))"

lemma special_keys_not_null [simp]:
  "\<not> is_null_key gKeyDataPowerDown" "\<not> is_null_key gKeyDataPowerUp" "\<not> is_null_key gKeyDataPowerLongpress"
  by (simp_all add: is_null_key_def gKeyDataPowerDown_def gKeyDataPowerUp_def
      gKeyDataPowerLongpress_def scan_key_def scan_defs)

lemma update_key_data:
  "LibKeyUpdateKeyStatus bl push pr Delta (c, bm, s) = (c', bm', s') \<Longrightarrow> KeyData c' = KeyData c"
  by (auto simp: LibKeyUpdateKeyStatus_def Let_def key_released_def split: key_state.splits if_splits)

lemma update_keeps:
  assumes "LibKeyUpdateKeyStatus bl push pr Delta (c, bm, s) = (c', bm', s')"
    and "\<And>k s. k \<in> {KeyData c, gKeyDataPowerDown, gKeyDataPowerUp, gKeyDataPowerLongpress} \<Longrightarrow>
      I s \<Longrightarrow> I (push k s)" and "I s"
  shows "I s'"
  using assms
  by (auto simp: LibKeyUpdateKeyStatus_def Let_def split: key_state.splits if_splits)

lemma poll_key_context:
  "key_context j (fst (poll_key bl rd push Delta k (d, s)))
     = (if j = k then (key_context k d)\<lparr>EfiKeyContext := EfiKeyContext (key_context k (fst (poll_key bl rd push Delta k (d, s))))\<rparr>
        else key_context j d)"
  by (cases j; cases k) (simp_all add: poll_key_def Let_def split_beta)

lemma poll_key_data:
  "KeyData (EfiKeyContext (key_context j (fst (poll_key bl rd push Delta k (d, s)))))
     = KeyData (EfiKeyContext (key_context j d))"
proof -
  have "KeyData (fst (LibKeyUpdateKeyStatus bl push pr Delta (c, bm, t))) = KeyData c" for pr c bm t
    by (metis update_key_data prod.collapse)
  then show ?thesis
    by (cases j; cases k) (simp_all add: poll_key_def Let_def split_beta)
qed

lemma poll_key_ready: "keys_ready d \<Longrightarrow> keys_ready (fst (poll_key bl rd push Delta k (d, s)))"
  by (simp add: keys_ready_def poll_key_data)

lemma poll_key_keeps:
  assumes rd: "\<And>a s. I s \<Longrightarrow> I (snd (rd a s))"
    and push: "\<And>x s. (keys_ready d \<longrightarrow> \<not> is_null_key x) \<Longrightarrow> I s \<Longrightarrow> I (push x s)" and s: "I s"
  shows "I (snd (poll_key bl rd push Delta k (d, s)))"
proof -
  let ?ctx = "key_context k d"
  let ?r = "rd (PinctrlBase ?ctx + BankOffset ?ctx + 4) s"
  let ?pr = "fst ?r AND push_bit (unat (PinNum ?ctx)) 1 = 0"
  obtain c bm t where u: "LibKeyUpdateKeyStatus bl push ?pr Delta (EfiKeyContext ?ctx, bitmaps d, snd ?r) = (c, bm, t)"
    by (cases "LibKeyUpdateKeyStatus bl push ?pr Delta (EfiKeyContext ?ctx, bitmaps d, snd ?r)") auto
  have "I t"
    by (rule update_keeps [OF u]) (auto intro!: push rd s simp: keys_ready_def)
  with u show ?thesis by (simp add: poll_key_def Let_def split_beta)
qed

text \<open>The device sees the driver only through the two callbacks: when \<open>h\<close> turns one pair of them into another, it turns
  what a poll does with the one into what it does with the other.\<close>

lemma update_natural:
  assumes "\<And>k s. h (push k s) = push' k (h s)"
  shows "LibKeyUpdateKeyStatus bl push' pr Delta (c, bm, h s) =
    (let (c', bm', s') = LibKeyUpdateKeyStatus bl push pr Delta (c, bm, s) in (c', bm', h s'))"
  by (auto simp: LibKeyUpdateKeyStatus_def Let_def assms split: key_state.split)

lemma poll_key_natural:
  assumes "\<And>k s. h (push k s) = push' k (h s)" and "\<And>a s. rd' a (h s) = (fst (rd a s), h (snd (rd a s)))"
  shows "poll_key bl rd' push' Delta k (d, h s) = apsnd h (poll_key bl rd push Delta k (d, s))"
  by (simp add: poll_key_def Let_def split_beta assms(2) update_natural [where h = h and push = push and push' = push', OF assms(1)])

lemma fold_poll_natural:
  assumes "\<And>k s. h (push k s) = push' k (h s)" and "\<And>a s. rd' a (h s) = (fst (rd a s), h (snd (rd a s)))"
  shows "fold (poll_key bl rd' push' Delta) ks (apsnd h ds) = apsnd h (fold (poll_key bl rd push Delta) ks ds)"
proof (induction ks arbitrary: ds)
  case (Cons k ks)
  obtain d s where "ds = (d, s)" by (cases ds)
  then show ?case using Cons.IH [of "poll_key bl rd push Delta k ds"]
    by (simp add: poll_key_natural [where h = h and push = push and push' = push' and rd = rd and rd' = rd', OF assms])
qed simp

lemma fold_poll_ready:
  "keys_ready (fst ds) \<Longrightarrow> keys_ready (fst (fold (poll_key bl rd push Delta) ks ds))"
  by (induction ks arbitrary: ds) (simp_all, metis poll_key_ready prod.collapse)

lemma fold_poll_keeps:
  assumes "\<And>a s. I s \<Longrightarrow> I (snd (rd a s))" and "\<And>x s. (r \<longrightarrow> \<not> is_null_key x) \<Longrightarrow> I s \<Longrightarrow> I (push x s)"
  shows "(r \<longrightarrow> keys_ready (fst ds)) \<Longrightarrow> I (snd ds) \<Longrightarrow>
    I (snd (fold (poll_key bl rd push Delta) ks ds))"
proof (induction ks arbitrary: ds)
  case Nil
  then show ?case by simp
next
  case (Cons k ks)
  obtain d s where ds: "ds = (d, s)" by (cases ds)
  have "r \<longrightarrow> keys_ready (fst (poll_key bl rd push Delta k ds))"
    using Cons.prems(1) ds by (auto simp: poll_key_ready)
  moreover have "I (snd (poll_key bl rd push Delta k ds))"
    using poll_key_keeps [of I rd d push s bl Delta k] assms Cons.prems ds by auto
  ultimately show ?case using Cons.IH by simp
qed

lemma reset_keys_ready: "keys_ready (snd (KeypadDeviceImplReset d))"
proof -
  have "\<not> is_null_key (KeyData (EfiKeyContext (key_context k (snd (KeypadDeviceImplReset d)))))" for k
    by (cases k) (simp_all add: KeypadDeviceImplReset_def reset_key_def
        LibKeyInitializeKeyContext_def is_null_key_def null_key_def scan_defs Let_def)
  then show ?thesis by (simp add: keys_ready_def)
qed

interpretation kdev: keypad_device "mInternalKeypadDevice bl" keys_ready
  for bl :: "'b BitmapLib"
proof (unfold_locales, goal_cases)
  case (1 d)
  show ?case by (simp add: mInternalKeypadDevice_def reset_keys_ready)
next
  case (2 d rd push Delta s)
  then show ?case
    by (simp add: mInternalKeypadDevice_def KeypadDeviceImplGetKeys_def fold_poll_ready)
next
  case (3 I rd push s Delta d)
  then show ?case
    using fold_poll_keeps [where r = False and I = I and rd = rd and push = push and ds = "(d, s)"]
    by (simp add: mInternalKeypadDevice_def KeypadDeviceImplGetKeys_def)
next
  case (4 d I rd push s Delta)
  then show ?case
    using fold_poll_keeps [where r = True and I = I and rd = rd and push = push and ds = "(d, s)"]
    by (simp add: mInternalKeypadDevice_def KeypadDeviceImplGetKeys_def)
qed

text \<open>Bitmaps as sets of bit numbers, for the witnesses.\<close>

definition ex_bitmaps :: "(u16 \<Rightarrow> bool) BitmapLib" where
  "ex_bitmaps = \<lparr>BitmapSet = (\<lambda>b i. b(i := True)), BitmapClear = (\<lambda>b i. b(i := False)), BitmapTest = (\<lambda>b i. b i)\<rparr>"

definition ex_no_keys :: "(u16 \<Rightarrow> bool) key_bitmaps" where
  "ex_no_keys = \<lparr>gBitmapScanCodes = (\<lambda>_. False), gBitmapUnicodeChars = (\<lambda>_. False)\<rparr>"

lemma ex_bitmaps_laws [simp]: "bitmap_laws ex_bitmaps"
  by (auto simp: bitmap_laws_def ex_bitmaps_def)

section \<open>What a sequence of polls emits\<close>

text \<open>Polling one key with the pushes collected in a list.\<close>

definition record_push :: "EFI_KEY_DATA \<Rightarrow> EFI_KEY_DATA list \<Rightarrow> EFI_KEY_DATA list" where
  "record_push k ks = ks @ [k]"

definition poll_key_run ::
  "'b BitmapLib \<Rightarrow> (bool \<times> u64) list \<Rightarrow> KEY_CONTEXT \<times> 'b key_bitmaps \<times> EFI_KEY_DATA list \<Rightarrow>
   KEY_CONTEXT \<times> 'b key_bitmaps \<times> EFI_KEY_DATA list" where
  "poll_key_run bl ps st = fold (\<lambda>(pressed, Delta). LibKeyUpdateKeyStatus bl record_push pressed Delta) ps st"

lemma poll_key_run_simps [simp]:
  "poll_key_run bl [] st = st"
  "poll_key_run bl ((pressed, Delta) # ps) st =
     poll_key_run bl ps (LibKeyUpdateKeyStatus bl record_push pressed Delta st)"
  "poll_key_run bl (ps @ qs) st = poll_key_run bl qs (poll_key_run bl ps st)"
  by (simp_all add: poll_key_run_def)

lemma MS2NS_values: "MS2NS 10 = 10000000" "MS2NS 100 = 100000000" "MS2NS 500 = 500000000"
  by (simp_all add: MS2NS_def)

lemma unat_add_small:
  "unat a + unat b < 2 ^ LENGTH('a) \<Longrightarrow> unat (a + b :: 'a :: len word) = unat a + unat b"
  by (simp add: unat_word_ariths)

text \<open>Holding a fresh key for less than half a second emits nothing.\<close>

lemma held_short:
  assumes "State c = KEYSTATE_PRESSED" and "\<not> Repeat c" and "\<not> Longpress c"
    and "unat (Time c) + sum_list (map unat ds) < 500000000"
  shows "\<exists>t bm'. poll_key_run bl (map (Pair True) ds) (c, bm, ks) = (c\<lparr>Time := t\<rparr>, bm', ks)"
  using assms
proof (induction ds arbitrary: c bm)
  case Nil
  have "c = c\<lparr>Time := Time c\<rparr>" by simp
  then show ?case by (metis list.map(1) poll_key_run_simps(1))
next
  case (Cons d ds)
  have t: "unat (Time c + d) = unat (Time c) + unat d"
    using Cons.prems by (intro unat_add_small) simp
  then have short: "\<not> MS2NS 500 \<le> Time c + d"
    using Cons.prems by (simp add: MS2NS_values word_le_nat_alt)
  obtain bm1 where one: "LibKeyUpdateKeyStatus bl record_push True d (c, bm, ks) = (c\<lparr>Time := Time c + d\<rparr>, bm1, ks)"
    using Cons.prems short by (simp add: LibKeyUpdateKeyStatus_def Let_def)
  obtain u bm2 where "poll_key_run bl (map (Pair True) ds) (c\<lparr>Time := Time c + d\<rparr>, bm1, ks)
      = ((c\<lparr>Time := Time c + d\<rparr>)\<lparr>Time := u\<rparr>, bm2, ks)"
    using Cons.IH [of "c\<lparr>Time := Time c + d\<rparr>" bm1] Cons.prems t by auto
  then show ?case using one by (intro exI [of _ u] exI [of _ bm2]) simp
qed

text \<open>C40: a tap, that is a press held for less than 500 ms, emits nothing while the key is held; the poll that finds
  the key released emits it exactly once, and the poll after that emits nothing and leaves the key ready for the next press.\<close>

theorem tap_emits_once:
  assumes "State c = KEYSTATE_RELEASED" and "\<not> Repeat c" and "\<not> Longpress c"
    and "sum_list (map unat ds) < 500000000"
  shows "let held = poll_key_run bl ((True, d0) # map (Pair True) ds) (c, bm, []);
             up = LibKeyUpdateKeyStatus bl record_push False d1 held;
             after = LibKeyUpdateKeyStatus bl record_push p d2 up
         in snd (snd held) = [] \<and> snd (snd up) = [KeyData c] \<and> snd (snd after) = [KeyData c] \<and>
            State (fst after) = KEYSTATE_RELEASED \<and> \<not> Repeat (fst after) \<and> \<not> Longpress (fst after)"
proof -
  obtain bm1 where press: "LibKeyUpdateKeyStatus bl record_push True d0 (c, bm, []) =
      (c\<lparr>Time := 0, State := KEYSTATE_PRESSED\<rparr>, bm1, [])"
    using assms by (simp add: LibKeyUpdateKeyStatus_def Let_def)
  obtain t bm2 where hold: "poll_key_run bl (map (Pair True) ds) (c\<lparr>Time := 0, State := KEYSTATE_PRESSED\<rparr>, bm1, []) =
      (c\<lparr>State := KEYSTATE_PRESSED, Time := t\<rparr>, bm2, [])"
    using held_short [of "c\<lparr>Time := 0, State := KEYSTATE_PRESSED\<rparr>" ds bl bm1 "[]"] assms by auto
  show ?thesis
    using press hold assms
    by (simp add: LibKeyUpdateKeyStatus_def Let_def record_push_def key_released_def)
qed

theorem tap_emits_once_witness:
  "let held = poll_key_run ex_bitmaps [(True, 7), (True, 100000000), (True, 200000000)]
         (\<lparr>KeyData = scan_key SCAN_UP, Time = 0, State = KEYSTATE_RELEASED, Repeat = False, Longpress = False\<rparr>, ex_no_keys, []);
       up = LibKeyUpdateKeyStatus ex_bitmaps record_push False 1 held;
       after = LibKeyUpdateKeyStatus ex_bitmaps record_push False 1 up
   in snd (snd held) = [] \<and> snd (snd up) = [scan_key SCAN_UP] \<and> snd (snd after) = [scan_key SCAN_UP] \<and> State (fst after) = KEYSTATE_RELEASED"
  using tap_emits_once [of "\<lparr>KeyData = scan_key SCAN_UP, Time = 0, State = KEYSTATE_RELEASED, Repeat = False,
      Longpress = False\<rparr>" "[100000000, 200000000]" ex_bitmaps 7 ex_no_keys 1 False 1]
  by (simp add: Let_def del: poll_key_run_simps)

text \<open>A key that has gone into repeat is emitted once by every poll that is at least
  100 ms after the previous one, for as long as it is held.\<close>

theorem held_key_repeats:
  assumes "State c = KEYSTATE_PRESSED" and "Repeat c" and "Time c = 0"
    and "\<forall>d \<in> set ds. 100000000 \<le> unat d"
  shows "\<exists>c' bm'. poll_key_run bl (map (Pair True) ds) (c, bm, ks) = (c', bm', ks @ replicate (length ds) (KeyData c))
     \<and> State c' = KEYSTATE_PRESSED \<and> Repeat c'"
  using assms
proof (induction ds arbitrary: c bm ks)
  case (Cons d ds)
  then have "MS2NS 100 \<le> d" by (simp add: MS2NS_values word_le_nat_alt)
  then obtain bm1 where one: "LibKeyUpdateKeyStatus bl record_push True d (c, bm, ks) =
      (c\<lparr>Time := 0, Repeat := True\<rparr>, bm1, ks @ [KeyData c])"
    using Cons.prems by (simp add: LibKeyUpdateKeyStatus_def Let_def record_push_def)
  then show ?case
    using Cons.IH [of "c\<lparr>Time := 0, Repeat := True\<rparr>" bm1 "ks @ [KeyData c]"] Cons.prems by auto
qed simp

theorem held_key_repeats_witness:
  "\<exists>c' bm'. poll_key_run ex_bitmaps (map (Pair True) [100000000, 300000000])
     (\<lparr>KeyData = scan_key SCAN_UP, Time = 0, State = KEYSTATE_PRESSED, Repeat = True, Longpress = True\<rparr>, ex_no_keys, [])
     = (c', bm', [scan_key SCAN_UP, scan_key SCAN_UP]) \<and> State c' = KEYSTATE_PRESSED \<and> Repeat c'"
  using held_key_repeats [of "\<lparr>KeyData = scan_key SCAN_UP, Time = 0, State = KEYSTATE_PRESSED, Repeat = True,
      Longpress = True\<rparr>" "[100000000, 300000000]" ex_bitmaps ex_no_keys "[]"]
  by (simp add: replicate_two del: poll_key_run_simps)

section \<open>Chords and the bitmaps\<close>

lemma update_bitmaps:
  "fst (snd (LibKeyUpdateKeyStatus bl push pr Delta (c, bm, s))) =
     KeySetState bl (ScanCode (Key (KeyData c))) (UnicodeChar (Key (KeyData c))) pr bm"
  by (simp add: LibKeyUpdateKeyStatus_def Let_def split: key_state.split)

lemma KeyGet_after_set:
  assumes "bitmap_laws bl"
  shows "KeyGetState bl SCAN_DOWN 0 (KeySetState bl SCAN_DOWN 0 True bm)"
    and "sc \<noteq> SCAN_DOWN \<Longrightarrow> KeyGetState bl SCAN_DOWN 0 (KeySetState bl sc uc v bm) = KeyGetState bl SCAN_DOWN 0 bm"
  using assms by (auto simp: KeyGetState_def KeySetState_def bitmap_laws_def Let_def scan_defs)

text \<open>The pin that \<open>poll_key\<close> reads, for pins that answer from their address alone.\<close>

definition pin_low :: "(u32 \<Rightarrow> u32) \<Rightarrow> KEY_CONTEXT_PRIVATE \<Rightarrow> bool" where
  "pin_low pins c \<longleftrightarrow> pins (PinctrlBase c + BankOffset c + 4) AND push_bit (unat (PinNum c)) 1 = 0"

definition pin_reader :: "(u32 \<Rightarrow> u32) \<Rightarrow> u32 \<Rightarrow> 's \<Rightarrow> u32 \<times> 's" where
  "pin_reader pins a s = (pins a, s)"

lemma poll_key_pins:
  "poll_key bl (pin_reader pins) push Delta k (d, s) =
     (let r = LibKeyUpdateKeyStatus bl push (pin_low pins (key_context k d)) Delta
                (EfiKeyContext (key_context k d), bitmaps d, s)
      in (set_key_context k ((key_context k d)\<lparr>EfiKeyContext := fst r\<rparr>) (d\<lparr>bitmaps := fst (snd r)\<rparr>), snd (snd r)))"
  by (simp add: poll_key_def pin_reader_def pin_low_def Let_def split_beta)

text \<open>Holding power for half a second while volume down is pressed ends the poll with
  the right-arrow key, whatever the other button does.\<close>

theorem power_chord_volume_down:
  assumes "bitmap_laws bl"
    and "KeyData (EfiKeyContext (KeyContextVolumeDown d)) = scan_key SCAN_DOWN"
    and "KeyData (EfiKeyContext (KeyContextVolumeUp d)) = scan_key SCAN_UP"
    and "UnicodeChar (Key (KeyData (EfiKeyContext (KeyContextPower d)))) = CHAR_CARRIAGE_RETURN"
    and "ScanCode (Key (KeyData (EfiKeyContext (KeyContextPower d)))) = SCAN_NULL"
    and "pin_low pins (KeyContextVolumeDown d)" and "pin_low pins (KeyContextPower d)"
    and "State (EfiKeyContext (KeyContextPower d)) = KEYSTATE_PRESSED"
    and "\<not> Repeat (EfiKeyContext (KeyContextPower d))" and "\<not> Longpress (EfiKeyContext (KeyContextPower d))"
    and "MS2NS 500 \<le> Time (EfiKeyContext (KeyContextPower d)) + Delta"
  shows "\<exists>ks d'. KeypadDeviceImplGetKeys bl (pin_reader pins) record_push Delta (d, []) =
     (EFI_SUCCESS, d', ks @ [scan_key SCAN_RIGHT]) \<and> Longpress (EfiKeyContext (KeyContextPower d'))"
proof -
  let ?poll = "poll_key bl (pin_reader pins) record_push Delta"
  define s1 where "s1 = ?poll KVolumeDown (d, [])"
  define s2 where "s2 = ?poll KVolumeUp s1"
  have b1: "bitmaps (fst s1) = KeySetState bl SCAN_DOWN 0 True (bitmaps d)"
    using assms(2,6) by (simp add: s1_def poll_key_pins Let_def update_bitmaps scan_key_def)
  have up1: "KeyContextVolumeUp (fst s1) = KeyContextVolumeUp d" and pw1: "KeyContextPower (fst s1) = KeyContextPower d"
    by (simp_all add: s1_def poll_key_pins Let_def)
  have b2: "bitmaps (fst s2) = KeySetState bl SCAN_UP 0 (pin_low pins (KeyContextVolumeUp d)) (bitmaps (fst s1))"
    using up1 assms(3)
    by (simp add: s2_def poll_key_pins [of bl pins record_push Delta KVolumeUp "fst s1" "snd s1", simplified] Let_def
        update_bitmaps scan_key_def)
  have pw2: "KeyContextPower (fst s2) = KeyContextPower d"
    using pw1 by (simp add: s2_def poll_key_pins [of bl pins record_push Delta KVolumeUp "fst s1" "snd s1", simplified] Let_def)
  have held: "KeyGetState bl SCAN_DOWN 0 (KeySetState bl SCAN_NULL CHAR_CARRIAGE_RETURN True (bitmaps (fst s2)))"
    using KeyGet_after_set [OF assms(1)] by (simp add: b2 b1 scan_defs)
  obtain t2 where s2: "s2 = (fst s2, t2)" by (cases s2) simp
  have "?poll KPower s2 = (let c = EfiKeyContext (KeyContextPower d) in
      ((fst s2)\<lparr>bitmaps := KeySetState bl SCAN_NULL CHAR_CARRIAGE_RETURN True (bitmaps (fst s2)),
        KeyContextPower := (KeyContextPower d)\<lparr>EfiKeyContext := c\<lparr>Time := Time c + Delta, Longpress := True\<rparr>\<rparr>\<rparr>,
       t2 @ [gKeyDataPowerDown]))"
    using held assms(4-11) pw2
    by (subst s2) (simp add: poll_key_pins LibKeyUpdateKeyStatus_def Let_def record_push_def MS2NS_values scan_defs)
  then show ?thesis
    by (simp add: KeypadDeviceImplGetKeys_def KeyList_def s1_def s2_def gKeyDataPowerDown_def Let_def)
qed

definition ex_chord :: "(u16 \<Rightarrow> bool) keypad_lib" where
  "ex_chord =
     (let c = (\<lambda>k st. \<lparr>EfiKeyContext = \<lparr>KeyData = k, Time = 0, State = st, Repeat = False, Longpress = False\<rparr>,
                        PinctrlBase = 0, BankOffset = 0, PinNum = 0, Pmic_key = 0\<rparr>)
      in \<lparr>bitmaps = ex_no_keys,
          KeyContextPower = c (null_key\<lparr>Key := \<lparr>ScanCode = 0, UnicodeChar = 0x0d\<rparr>\<rparr>) KEYSTATE_PRESSED,
          KeyContextVolumeUp = c (scan_key SCAN_UP) KEYSTATE_RELEASED,
          KeyContextVolumeDown = c (scan_key SCAN_DOWN) KEYSTATE_PRESSED\<rparr>)"

theorem power_chord_volume_down_witness:
  "\<exists>ks d'. KeypadDeviceImplGetKeys ex_bitmaps (pin_reader (\<lambda>_. 0)) record_push 500000000 (ex_chord, []) =
     (EFI_SUCCESS, d', ks @ [scan_key SCAN_RIGHT]) \<and> Longpress (EfiKeyContext (KeyContextPower d'))"
  by (rule power_chord_volume_down) (simp_all add: ex_chord_def Let_def pin_low_def scan_defs MS2NS_values)

text \<open>The Unicode bitmap is indexed with the scan code, so all keys that have only a
  character share one bit: pressing one of them makes every other one read as pressed.\<close>

theorem unicode_keys_share_a_bit:
  assumes "bitmap_laws bl" and "0 < uc" and "uc < 0x7f"
  shows "KeyGetState bl SCAN_NULL uc' (KeySetState bl SCAN_NULL uc True bm)"
  using assms by (auto simp: KeyGetState_def KeySetState_def bitmap_laws_def Let_def scan_defs)

theorem unicode_keys_share_a_bit_witness:
  "KeyGetState ex_bitmaps SCAN_NULL 0x62 (KeySetState ex_bitmaps SCAN_NULL 0x61 True ex_no_keys)"
  by (rule unicode_keys_share_a_bit) simp_all

end
