(* ===== verification/Keypad.thy ===== *)
theory Keypad
  imports KeypadDevice
begin

text \<open>
  The keypad driver (\<open>Drivers/KeypadDxe\<close>): its console device with two key queues, a list
  of key notifications and the toggle states, and the handlers of the two text input
  protocols, the timer and the notification event.

  Boot services, the performance counter and MMIO are not part of the repository.  Every
  call to them is recorded in the log of the driver's world, and their answers come from
  the environment record \<open>kp_env\<close>, whose fields are functions of the log so far: the
  environment may answer each call differently.  A registered notification function is
  client code; calling it is recorded, and it is taken not to re-enter the driver.
  DEBUG output is left out.
\<close>

section \<open>The world of the driver\<close>

type_synonym notify_fn = nat

datatype guid = gExynosKeypadDeviceProtocolGuid | gEfiSimpleTextInProtocolGuid
  | gEfiSimpleTextInputExProtocolGuid

datatype open_attr = OPEN_BY_DRIVER | OPEN_GET_PROTOCOL | OPEN_TEST_PROTOCOL

datatype kp_handler = KeypadWaitForKeyH | KeypadWaitForKeyExH | KeypadTimerHandlerH
  | KeyNotifyProcessHandlerH

datatype kp_call =
    cRaiseTPL efi_tpl efi_tpl  \<comment> \<open>new level, level returned\<close>
  | cRestoreTPL efi_tpl
  | cPerformanceCounter u64
  | cMmioRead32 u32 u32
  | cSignalEvent "efi_event option"
  | cCallNotify notify_fn EFI_KEY_DATA
  | cAllocateZeroPool "ptr option"
  | cFreePool ptr
  | cOpenProtocol guid open_attr efi_status
  | cCloseProtocol guid
  | cCreateEvent kp_handler efi_status efi_event
  | cSetTimer "efi_event option" efi_status
  | cCloseEvent efi_event
  | cInstallProtocols efi_status
  | cUninstallProtocols efi_status
  | cAddUnicodeStrings
  | cFreeUnicodeStringTable

type_synonym kp_log = "kp_call list"

record kp_env =
  eRaiseTPL :: "kp_log \<Rightarrow> efi_tpl"
  ePerformanceCounter :: "kp_log \<Rightarrow> u64"
  eTimeInNanoSecond :: "u64 \<Rightarrow> u64"
  eMmioRead32 :: "kp_log \<Rightarrow> u32 \<Rightarrow> u32"
  eAllocateZeroPool :: "kp_log \<Rightarrow> ptr option"
  eOpenProtocol :: "kp_log \<Rightarrow> guid \<Rightarrow> open_attr \<Rightarrow> efi_status"
  eCreateEvent :: "kp_log \<Rightarrow> kp_handler \<Rightarrow> efi_status \<times> efi_event"
  eSetTimer :: "kp_log \<Rightarrow> efi_status"
  eInstallProtocols :: "kp_log \<Rightarrow> efi_status"
  eUninstallProtocols :: "kp_log \<Rightarrow> efi_status"
  eAddUnicodeStrings :: "kp_log \<Rightarrow> bool"  \<comment> \<open>whether a name table exists afterwards\<close>

text \<open>A notification node is known by its pool address, which is also its handle.\<close>

record KEYPAD_CONSOLE_IN_EX_NOTIFY =
  NodeAddress :: ptr
  NotifyKeyData :: EFI_KEY_DATA
  KeyNotificationFn :: notify_fn

record KEYPAD_CONSOLE_IN_DEV =
  ConIn_WaitForKey :: "efi_event option"
  ConInEx_WaitForKeyEx :: "efi_event option"
  TimerEvent :: "efi_event option"
  Last :: u64
  LeftCtrl :: bool
  RightCtrl :: bool
  LeftAlt :: bool
  RightAlt :: bool
  LeftShift :: bool
  RightShift :: bool
  LeftLogo :: bool
  RightLogo :: bool
  Menu :: bool
  SysReq :: bool
  CapsLock :: bool
  NumLock :: bool
  ScrollLock :: bool
  IsSupportPartialKey :: bool
  EfiKeyQueue :: EFI_KEY_QUEUE
  EfiKeyQueueForNotify :: EFI_KEY_QUEUE
  KeypadErr :: bool
  ControllerNameTable :: bool  \<comment> \<open>whether the table pointer is not NULL\<close>
  NotifyList :: "KEYPAD_CONSOLE_IN_EX_NOTIFY list"
  KeyNotifyProcessEvent :: "efi_event option"

record kp_world =
  con :: KEYPAD_CONSOLE_IN_DEV
  log :: kp_log

type_synonym 'd kp_device = "('d, kp_world) KEYPAD_DEVICE_PROTOCOL"

definition emit :: "kp_call \<Rightarrow> kp_world \<Rightarrow> kp_world" where
  "emit c w = w\<lparr>log := log w @ [c]\<rparr>"

definition upd_con :: "(KEYPAD_CONSOLE_IN_DEV \<Rightarrow> KEYPAD_CONSOLE_IN_DEV) \<Rightarrow> kp_world \<Rightarrow> kp_world" where
  "upd_con f w = w\<lparr>con := f (con w)\<rparr>"

definition RaiseTPL :: "kp_env \<Rightarrow> efi_tpl \<Rightarrow> kp_world \<Rightarrow> efi_tpl \<times> kp_world" where
  "RaiseTPL E new w = (let old = eRaiseTPL E (log w) in (old, emit (cRaiseTPL new old) w))"

definition GetPerformanceCounter :: "kp_env \<Rightarrow> kp_world \<Rightarrow> u64 \<times> kp_world" where
  "GetPerformanceCounter E w =
     (let v = ePerformanceCounter E (log w) in (v, emit (cPerformanceCounter v) w))"

definition MmioRead32 :: "kp_env \<Rightarrow> u32 \<Rightarrow> kp_world \<Rightarrow> u32 \<times> kp_world" where
  "MmioRead32 E a w = (let v = eMmioRead32 E (log w) a in (v, emit (cMmioRead32 a v) w))"

lemma emit_simps [simp]:
  "con (emit c w) = con w" "log (emit c w) = log w @ [c]"
  "con (upd_con f w) = f (con w)" "log (upd_con f w) = log w"
  by (simp_all add: emit_def upd_con_def)

section \<open>Keys coming in from the device\<close>

text \<open>\<open>KeypadReturnApiPushEfikeyBufTail\<close>: one push and one signal for every registration
  that the key matches.\<close>

definition notify_matches :: "EFI_KEY_DATA \<Rightarrow> KEYPAD_CONSOLE_IN_EX_NOTIFY \<Rightarrow> bool" where
  "notify_matches k n = IsKeyRegistered (NotifyKeyData n) k"

fun push_notifications ::
  "EFI_KEY_DATA \<Rightarrow> KEYPAD_CONSOLE_IN_EX_NOTIFY list \<Rightarrow> kp_world \<Rightarrow> kp_world" where
  "push_notifications k [] w = w"
| "push_notifications k (n # ns) w =
     push_notifications k ns
       (if notify_matches k n
        then emit (cSignalEvent (KeyNotifyProcessEvent (con w)))
               (upd_con (\<lambda>c. c\<lparr>EfiKeyQueueForNotify := PushEfikeyBufTail (EfiKeyQueueForNotify c) k\<rparr>) w)
        else w)"

definition KeypadReturnApiPushEfikeyBufTail :: "EFI_KEY_DATA \<Rightarrow> kp_world \<Rightarrow> kp_world" where
  "KeypadReturnApiPushEfikeyBufTail Key_Data w =
     (if is_null_key Key_Data \<and> \<not> IsSupportPartialKey (con w) then w
      else let w1 = push_notifications Key_Data (NotifyList (con w)) w
           in upd_con (\<lambda>c. c\<lparr>EfiKeyQueue := PushEfikeyBufTail (EfiKeyQueue c) Key_Data\<rparr>) w1)"

definition KeypadTimerHandler ::
  "kp_env \<Rightarrow> 'd kp_device \<Rightarrow> 'd \<times> kp_world \<Rightarrow> 'd \<times> kp_world" where
  "KeypadTimerHandler E P = (\<lambda>(d, w0).
     let (OldTpl, w1) = RaiseTPL E TPL_NOTIFY w0
     in if KeypadErr (con w1) then (d, emit (cRestoreTPL OldTpl) w1)
        else let (CurrentCounterValue, w2) = GetPerformanceCounter E w1;
                 DeltaCounter = CurrentCounterValue - Last (con w2);
                 w3 = upd_con (\<lambda>c. c\<lparr>Last := CurrentCounterValue\<rparr>) w2;
                 (_, d', w4) = GetKeys P (MmioRead32 E) KeypadReturnApiPushEfikeyBufTail
                                 (eTimeInNanoSecond E DeltaCounter) (d, w3)
             in (d', emit (cRestoreTPL OldTpl) w4))"

section \<open>Reset\<close>

definition InitKeypad :: "'d kp_device \<Rightarrow> bool \<Rightarrow> 'd \<times> kp_world \<Rightarrow> efi_status \<times> 'd \<times> kp_world" where
  "InitKeypad P ExtendedVerification = (\<lambda>(d, w).
     let (_, d') = Reset P d
     in (EFI_SUCCESS, d', upd_con (\<lambda>c. c\<lparr>
          EfiKeyQueue := (EfiKeyQueue c)\<lparr>Head := 0, Tail := 0\<rparr>,
          EfiKeyQueueForNotify := (EfiKeyQueueForNotify c)\<lparr>Head := 0, Tail := 0\<rparr>,
          CapsLock := False, NumLock := False, ScrollLock := False,
          LeftCtrl := False, RightCtrl := False, LeftAlt := False, RightAlt := False,
          LeftShift := False, RightShift := False, LeftLogo := False, RightLogo := False,
          Menu := False, SysReq := False, IsSupportPartialKey := False\<rparr>) w))"

definition KeypadEfiReset ::
  "kp_env \<Rightarrow> 'd kp_device \<Rightarrow> bool \<Rightarrow> 'd \<times> kp_world \<Rightarrow> efi_status \<times> 'd \<times> kp_world" where
  "KeypadEfiReset E P ExtendedVerification = (\<lambda>(d, w).
     if KeypadErr (con w) then (EFI_DEVICE_ERROR, d, w)
     else let (OldTpl, w1) = RaiseTPL E TPL_NOTIFY w;
              (Status, d', w2) = InitKeypad P ExtendedVerification (d, w1);
              w3 = emit (cRestoreTPL OldTpl) w2
          in if EFI_ERROR Status then (EFI_DEVICE_ERROR, d', w3) else (EFI_SUCCESS, d', w3))"

definition KeypadEfiResetEx ::
  "kp_env \<Rightarrow> 'd kp_device \<Rightarrow> bool \<Rightarrow> 'd \<times> kp_world \<Rightarrow> efi_status \<times> 'd \<times> kp_world" where
  "KeypadEfiResetEx E P ExtendedVerification s = KeypadEfiReset E P ExtendedVerification s"

text \<open>\<open>KeypadError\<close> ignores its message.\<close>

definition KeypadError :: "kp_world \<Rightarrow> kp_world" where
  "KeypadError w = upd_con (\<lambda>c. c\<lparr>KeypadErr := True\<rparr>) w"

section \<open>Reading keys\<close>

text \<open>The output buffer is \<open>Some k\<close> exactly when the code wrote it; \<open>KeyDataNull\<close> says that
  the caller passed a NULL buffer.\<close>

definition KeypadReadKeyStrokeWorker ::
  "kp_env \<Rightarrow> 'd kp_device \<Rightarrow> bool \<Rightarrow> 'd \<times> kp_world \<Rightarrow>
   efi_status \<times> EFI_KEY_DATA option \<times> 'd \<times> kp_world" where
  "KeypadReadKeyStrokeWorker E P KeyDataNull = (\<lambda>(d, w).
     if KeyDataNull then (EFI_INVALID_PARAMETER, None, d, w)
     else let (OldTpl, w1) = RaiseTPL E TPL_NOTIFY w;
              (d', w2) = KeypadTimerHandler E P (d, w1)
          in if KeypadErr (con w2) then (EFI_DEVICE_ERROR, None, d', emit (cRestoreTPL OldTpl) w2)
             else let (Status, ko, q) = PopEfikeyBufHead (EfiKeyQueue (con w2));
                      w3 = upd_con (\<lambda>c. c\<lparr>EfiKeyQueue := q\<rparr>) w2
                  in (Status, ko, d', emit (cRestoreTPL OldTpl) w3))"

definition KeypadReadKeyStrokeEx ::
  "kp_env \<Rightarrow> 'd kp_device \<Rightarrow> bool \<Rightarrow> 'd \<times> kp_world \<Rightarrow>
   efi_status \<times> EFI_KEY_DATA option \<times> 'd \<times> kp_world" where
  "KeypadReadKeyStrokeEx E P KeyDataNull s =
     (if KeyDataNull then (EFI_INVALID_PARAMETER, None, s)
      else KeypadReadKeyStrokeWorker E P KeyDataNull s)"

definition EFI_RIGHT_CONTROL_PRESSED :: u32 where "EFI_RIGHT_CONTROL_PRESSED = 0x04"
definition EFI_LEFT_CONTROL_PRESSED :: u32 where "EFI_LEFT_CONTROL_PRESSED = 0x08"

text \<open>With Ctrl held, a letter becomes the control character 1 to 26.\<close>

definition ctrl_key :: "EFI_KEY_DATA \<Rightarrow> EFI_INPUT_KEY" where
  "ctrl_key k =
     (if KeyShiftState (KeyState k) AND (EFI_LEFT_CONTROL_PRESSED OR EFI_RIGHT_CONTROL_PRESSED) \<noteq> 0 then
        if 0x61 \<le> UnicodeChar (Key k) \<and> UnicodeChar (Key k) \<le> 0x7a
        then (Key k)\<lparr>UnicodeChar := UnicodeChar (Key k) - 0x61 + 1\<rparr>
        else if 0x41 \<le> UnicodeChar (Key k) \<and> UnicodeChar (Key k) \<le> 0x5a
        then (Key k)\<lparr>UnicodeChar := UnicodeChar (Key k) - 0x41 + 1\<rparr>
        else Key k
      else Key k)"

text \<open>The loop of \<open>KeypadReadKeyStroke\<close> polls the device in every turn, so it ends only when
  a turn finds an error, an empty queue or a real key: \<open>None\<close> is a loop that never returns.\<close>

partial_function (option) KeypadReadKeyStroke ::
  "kp_env \<Rightarrow> 'd kp_device \<Rightarrow> 'd \<times> kp_world \<Rightarrow>
   (efi_status \<times> EFI_INPUT_KEY option \<times> 'd \<times> kp_world) option" where
  "KeypadReadKeyStroke E P s =
     (case KeypadReadKeyStrokeWorker E P False s of (Status, ko, s') \<Rightarrow>
        if EFI_ERROR Status then Some (Status, None, s')
        else if is_null_key (the ko) then KeypadReadKeyStroke E P s'
        else Some (EFI_SUCCESS, Some (ctrl_key (the ko)), s'))"

text \<open>The loop of \<open>KeypadWaitForKey\<close>: drop null keys; the result says whether a key is left.\<close>

partial_function (option) drop_null_keys :: "EFI_KEY_QUEUE \<Rightarrow> (bool \<times> EFI_KEY_QUEUE) option" where
  "drop_null_keys q =
     (if IsEfikeyBufEmpty q then Some (False, q)
      else if is_null_key (Buffer q ! Head q) then drop_null_keys (snd (snd (PopEfikeyBufHead q)))
      else Some (True, q))"

definition KeypadWaitForKey ::
  "kp_env \<Rightarrow> 'd kp_device \<Rightarrow> efi_event \<Rightarrow> 'd \<times> kp_world \<Rightarrow> ('d \<times> kp_world) option" where
  "KeypadWaitForKey E P Event = (\<lambda>(d, w).
     let (OldTpl, w1) = RaiseTPL E TPL_NOTIFY w;
         (d', w2) = KeypadTimerHandler E P (d, w1)
     in if KeypadErr (con w2) then Some (d', emit (cRestoreTPL OldTpl) w2)
        else case drop_null_keys (EfiKeyQueue (con w2)) of
               None \<Rightarrow> None
             | Some (found, q) \<Rightarrow>
                 let w3 = upd_con (\<lambda>c. c\<lparr>EfiKeyQueue := q\<rparr>) w2;
                     w4 = (if found then emit (cSignalEvent (Some Event)) w3 else w3)
                 in Some (d', emit (cRestoreTPL OldTpl) w4))"

definition KeypadWaitForKeyEx ::
  "kp_env \<Rightarrow> 'd kp_device \<Rightarrow> efi_event \<Rightarrow> 'd \<times> kp_world \<Rightarrow> ('d \<times> kp_world) option" where
  "KeypadWaitForKeyEx E P Event s = KeypadWaitForKey E P Event s"

section \<open>Toggle state\<close>

definition EFI_SCROLL_LOCK_ACTIVE :: u8 where "EFI_SCROLL_LOCK_ACTIVE = 0x01"
definition EFI_NUM_LOCK_ACTIVE :: u8 where "EFI_NUM_LOCK_ACTIVE = 0x02"
definition EFI_CAPS_LOCK_ACTIVE :: u8 where "EFI_CAPS_LOCK_ACTIVE = 0x04"
definition EFI_KEY_STATE_EXPOSED :: u8 where "EFI_KEY_STATE_EXPOSED = 0x40"
definition EFI_TOGGLE_STATE_VALID :: u8 where "EFI_TOGGLE_STATE_VALID = 0x80"

lemmas toggle_defs = EFI_SCROLL_LOCK_ACTIVE_def EFI_NUM_LOCK_ACTIVE_def EFI_CAPS_LOCK_ACTIVE_def
  EFI_KEY_STATE_EXPOSED_def EFI_TOGGLE_STATE_VALID_def

definition KeypadSetState :: "kp_env \<Rightarrow> u8 option \<Rightarrow> kp_world \<Rightarrow> efi_status \<times> kp_world" where
  "KeypadSetState E ToggleState w =
     (case ToggleState of None \<Rightarrow> (EFI_INVALID_PARAMETER, w)
      | Some t \<Rightarrow>
          let (OldTpl, w1) = RaiseTPL E TPL_NOTIFY w
          in if KeypadErr (con w1) then (EFI_DEVICE_ERROR, emit (cRestoreTPL OldTpl) w1)
             else if t AND EFI_TOGGLE_STATE_VALID \<noteq> EFI_TOGGLE_STATE_VALID
             then (EFI_UNSUPPORTED, emit (cRestoreTPL OldTpl) w1)
             else let w2 = upd_con (\<lambda>c. c\<lparr>ScrollLock := False, NumLock := False, CapsLock := False,
                                           IsSupportPartialKey := False\<rparr>) w1;
                      w3 = upd_con (\<lambda>c.
                        if t AND EFI_SCROLL_LOCK_ACTIVE = EFI_SCROLL_LOCK_ACTIVE then c\<lparr>ScrollLock := True\<rparr>
                        else if t AND EFI_NUM_LOCK_ACTIVE = EFI_NUM_LOCK_ACTIVE then c\<lparr>NumLock := True\<rparr>
                        else if t AND EFI_CAPS_LOCK_ACTIVE = EFI_CAPS_LOCK_ACTIVE then c\<lparr>CapsLock := True\<rparr>
                        else if t AND EFI_KEY_STATE_EXPOSED = EFI_KEY_STATE_EXPOSED then c\<lparr>IsSupportPartialKey := True\<rparr>
                        else c) w2
                  in (EFI_SUCCESS, emit (cRestoreTPL OldTpl) w3))"

section \<open>Key notifications\<close>

definition find_registered ::
  "EFI_KEY_DATA \<Rightarrow> notify_fn \<Rightarrow> KEYPAD_CONSOLE_IN_EX_NOTIFY list \<Rightarrow> KEYPAD_CONSOLE_IN_EX_NOTIFY option" where
  "find_registered k f ns = List.find (\<lambda>n. notify_matches k n \<and> KeyNotificationFn n = f) ns"

text \<open>NULL arguments are \<open>None\<close>; \<open>HandleNull\<close> says that \<open>NotifyHandle\<close> is NULL.  The second
  component of the result is what is written through \<open>NotifyHandle\<close>.\<close>

definition KeypadRegisterKeyNotify ::
  "kp_env \<Rightarrow> EFI_KEY_DATA option \<Rightarrow> notify_fn option \<Rightarrow> bool \<Rightarrow> kp_world \<Rightarrow>
   efi_status \<times> ptr option \<times> kp_world" where
  "KeypadRegisterKeyNotify E KeyDataP Fn HandleNull w =
     (case (KeyDataP, Fn) of
        (Some k, Some f) \<Rightarrow>
          if HandleNull then (EFI_INVALID_PARAMETER, None, w)
          else let (OldTpl, w1) = RaiseTPL E TPL_NOTIFY w
               in (case find_registered k f (NotifyList (con w1)) of
                     Some n \<Rightarrow> (EFI_SUCCESS, Some (NodeAddress n), emit (cRestoreTPL OldTpl) w1)
                   | None \<Rightarrow>
                       let p = eAllocateZeroPool E (log w1);
                           w2 = emit (cAllocateZeroPool p) w1
                       in (case p of
                             None \<Rightarrow> (EFI_OUT_OF_RESOURCES, None, emit (cRestoreTPL OldTpl) w2)
                           | Some a \<Rightarrow>
                               let w3 = upd_con (\<lambda>c. c\<lparr>NotifyList := NotifyList c @
                                          [\<lparr>NodeAddress = a, NotifyKeyData = k, KeyNotificationFn = f\<rparr>]\<rparr>) w2
                               in (EFI_SUCCESS, Some a, emit (cRestoreTPL OldTpl) w3)))
      | _ \<Rightarrow> (EFI_INVALID_PARAMETER, None, w))"

fun remove_node ::
  "ptr \<Rightarrow> KEYPAD_CONSOLE_IN_EX_NOTIFY list \<Rightarrow> KEYPAD_CONSOLE_IN_EX_NOTIFY list option" where
  "remove_node h [] = None"
| "remove_node h (n # ns) =
     (if NodeAddress n = h then Some ns else map_option (Cons n) (remove_node h ns))"

definition KeypadUnregisterKeyNotify ::
  "kp_env \<Rightarrow> ptr option \<Rightarrow> kp_world \<Rightarrow> efi_status \<times> kp_world" where
  "KeypadUnregisterKeyNotify E NotificationHandle w =
     (case NotificationHandle of None \<Rightarrow> (EFI_INVALID_PARAMETER, w)
      | Some h \<Rightarrow>
          let (OldTpl, w1) = RaiseTPL E TPL_NOTIFY w
          in (case remove_node h (NotifyList (con w1)) of
                None \<Rightarrow> (EFI_INVALID_PARAMETER, emit (cRestoreTPL OldTpl) w1)
              | Some ns \<Rightarrow>
                  let w2 = upd_con (\<lambda>c. c\<lparr>NotifyList := ns\<rparr>) w1;
                      w3 = emit (cFreePool h) w2
                  in (EFI_SUCCESS, emit (cRestoreTPL OldTpl) w3)))"

fun call_notifications :: "EFI_KEY_DATA \<Rightarrow> KEYPAD_CONSOLE_IN_EX_NOTIFY list \<Rightarrow> kp_world \<Rightarrow> kp_world" where
  "call_notifications k [] w = w"
| "call_notifications k (n # ns) w =
     call_notifications k ns (if notify_matches k n then emit (cCallNotify (KeyNotificationFn n) k) w else w)"

partial_function (option) KeyNotifyProcessHandler :: "kp_env \<Rightarrow> kp_world \<Rightarrow> kp_world option" where
  "KeyNotifyProcessHandler E w =
     (case RaiseTPL E TPL_NOTIFY w of (OldTpl, w1) \<Rightarrow>
      case PopEfikeyBufHead (EfiKeyQueueForNotify (con w1)) of (Status, ko, q) \<Rightarrow>
        if EFI_ERROR Status
        then Some (emit (cRestoreTPL OldTpl) (upd_con (\<lambda>c. c\<lparr>EfiKeyQueueForNotify := q\<rparr>) w1))
        else KeyNotifyProcessHandler E
               (call_notifications (the ko) (NotifyList (con w1))
                 (emit (cRestoreTPL OldTpl) (upd_con (\<lambda>c. c\<lparr>EfiKeyQueueForNotify := q\<rparr>) w1))))"

section \<open>The queue invariant and the task priority level\<close>

definition kp_inv :: "kp_world \<Rightarrow> bool" where
  "kp_inv w \<longleftrightarrow> key_queue_inv (EfiKeyQueue (con w)) \<and> key_queue_inv (EfiKeyQueueForNotify (con w))"

abbreviation queued :: "kp_world \<Rightarrow> EFI_KEY_DATA list" where
  "queued w \<equiv> key_queue_keys (EfiKeyQueue (con w))"

abbreviation queued_notify :: "kp_world \<Rightarrow> EFI_KEY_DATA list" where
  "queued_notify w \<equiv> key_queue_keys (EfiKeyQueueForNotify (con w))"

text \<open>
  The level a log ends at: a raise must be answered with the current level and must not
  lower it, a restore must not raise it.  \<open>tpl_env\<close> is the documented answer of
  \<open>RaiseTPL\<close>, the level in force.
\<close>

fun tpl_run :: "efi_tpl \<Rightarrow> kp_log \<Rightarrow> efi_tpl option" where
  "tpl_run t [] = Some t"
| "tpl_run t (c # cs) =
     (case c of
        cRaiseTPL new old \<Rightarrow> if old = t \<and> t \<le> new then tpl_run new cs else None
      | cRestoreTPL old \<Rightarrow> if old \<le> t then tpl_run old cs else None
      | _ \<Rightarrow> tpl_run t cs)"

definition tpl_env :: "efi_tpl \<Rightarrow> kp_env \<Rightarrow> bool" where
  "tpl_env t0 E \<longleftrightarrow> (\<forall>l t. tpl_run t0 l = Some t \<longrightarrow> eRaiseTPL E l = t)"

lemma tpl_run_append: "tpl_run t (xs @ ys) = Option.bind (tpl_run t xs) (\<lambda>u. tpl_run u ys)"
  by (induction xs arbitrary: t) (auto split: kp_call.splits)

text \<open>The level in force in a world, when the log so far is well formed.\<close>

definition at_tpl :: "efi_tpl \<Rightarrow> kp_world \<Rightarrow> efi_tpl \<Rightarrow> bool" where
  "at_tpl t0 w t \<longleftrightarrow> tpl_run t0 (log w) = Some t"

definition plain_call :: "kp_call \<Rightarrow> bool" where
  "plain_call c \<longleftrightarrow> (case c of cRaiseTPL _ _ \<Rightarrow> False | cRestoreTPL _ \<Rightarrow> False | _ \<Rightarrow> True)"

lemma at_tpl_emit [simp]: "plain_call c \<Longrightarrow> at_tpl t0 (emit c w) t \<longleftrightarrow> at_tpl t0 w t"
  by (cases "tpl_run t0 (log w)"; cases c) (auto simp: at_tpl_def tpl_run_append plain_call_def)

lemma plain_calls [simp]:
  "plain_call (cPerformanceCounter v)" "plain_call (cMmioRead32 a u)" "plain_call (cSignalEvent e)"
  "plain_call (cCallNotify f k)" "plain_call (cAllocateZeroPool p)" "plain_call (cFreePool q)"
  by (simp_all add: plain_call_def)

lemma at_tpl_upd_con [simp]: "at_tpl t0 (upd_con f w) t \<longleftrightarrow> at_tpl t0 w t"
  by (simp add: at_tpl_def)

lemma at_tpl_raise:
  "tpl_env t0 E \<Longrightarrow> at_tpl t0 w t \<Longrightarrow> t \<le> new \<Longrightarrow> RaiseTPL E new w = (t, emit (cRaiseTPL new t) w) \<and>
     at_tpl t0 (emit (cRaiseTPL new t) w) new"
  by (auto simp: tpl_env_def at_tpl_def RaiseTPL_def tpl_run_append Let_def)

lemma at_tpl_restore: "at_tpl t0 w u \<Longrightarrow> t \<le> u \<Longrightarrow> at_tpl t0 (emit (cRestoreTPL t) w) t"
  by (simp add: at_tpl_def tpl_run_append)

lemma raise_con [simp]: "con (snd (RaiseTPL E t w)) = con w"
  by (simp add: RaiseTPL_def Let_def)

lemma mmio_con [simp]: "con (snd (MmioRead32 E a w)) = con w"
  by (simp add: MmioRead32_def Let_def)

lemma mmio_tpl [simp]: "at_tpl t0 (snd (MmioRead32 E a w)) t \<longleftrightarrow> at_tpl t0 w t"
  by (simp add: MmioRead32_def Let_def)

section \<open>What a push does\<close>

lemma push_notifications_con:
  "con (push_notifications k ns w) =
     (con w)\<lparr>EfiKeyQueueForNotify :=
        foldl PushEfikeyBufTail (EfiKeyQueueForNotify (con w))
          (replicate (length (filter (notify_matches k) ns)) k)\<rparr>"
  by (induction ns arbitrary: w) simp_all

lemma push_notifications_tpl [simp]: "at_tpl t0 (push_notifications k ns w) t \<longleftrightarrow> at_tpl t0 w t"
  by (induction ns arbitrary: w) simp_all

lemma push_key_con:
  "con (KeypadReturnApiPushEfikeyBufTail k w) =
     (if is_null_key k \<and> \<not> IsSupportPartialKey (con w) then con w
      else (con w)\<lparr>EfiKeyQueueForNotify := foldl PushEfikeyBufTail (EfiKeyQueueForNotify (con w))
                     (replicate (length (filter (notify_matches k) (NotifyList (con w)))) k),
                   EfiKeyQueue := PushEfikeyBufTail (EfiKeyQueue (con w)) k\<rparr>)"
  by (simp add: KeypadReturnApiPushEfikeyBufTail_def push_notifications_con Let_def)

lemma push_key_tpl [simp]:
  "at_tpl t0 (KeypadReturnApiPushEfikeyBufTail k w) t \<longleftrightarrow> at_tpl t0 w t"
  by (simp add: KeypadReturnApiPushEfikeyBufTail_def Let_def)

text \<open>Everything but the two queues and the counter is the same in both console devices.\<close>

definition same_but_queues :: "KEYPAD_CONSOLE_IN_DEV \<Rightarrow> KEYPAD_CONSOLE_IN_DEV \<Rightarrow> bool" where
  "same_but_queues c c' \<longleftrightarrow>
     (\<exists>l q n. c' = c\<lparr>Last := l, EfiKeyQueue := q, EfiKeyQueueForNotify := n\<rparr>)"

lemma same_but_queues_fields:
  "same_but_queues c c' \<Longrightarrow> KeypadErr c' = KeypadErr c \<and> NotifyList c' = NotifyList c
     \<and> IsSupportPartialKey c' = IsSupportPartialKey c \<and> CapsLock c' = CapsLock c
     \<and> NumLock c' = NumLock c \<and> ScrollLock c' = ScrollLock c"
  by (auto simp: same_but_queues_def)

lemma same_but_queues_refl [simp]: "same_but_queues c c"
proof -
  have "c = c\<lparr>Last := Last c, EfiKeyQueue := EfiKeyQueue c, EfiKeyQueueForNotify := EfiKeyQueueForNotify c\<rparr>"
    by simp
  then show ?thesis unfolding same_but_queues_def by blast
qed

lemma same_but_queues_updI:
  assumes "same_but_queues c c'"
  shows "same_but_queues c (c'\<lparr>EfiKeyQueue := q\<rparr>)"
    and "same_but_queues c (c'\<lparr>EfiKeyQueueForNotify := q\<rparr>)"
    and "same_but_queues c (c'\<lparr>Last := l\<rparr>)"
proof -
  obtain l0 q0 n0 where c': "c' = c\<lparr>Last := l0, EfiKeyQueue := q0, EfiKeyQueueForNotify := n0\<rparr>"
    using assms by (auto simp: same_but_queues_def)
  have "c'\<lparr>EfiKeyQueue := q\<rparr> = c\<lparr>Last := l0, EfiKeyQueue := q, EfiKeyQueueForNotify := n0\<rparr>"
    and "c'\<lparr>EfiKeyQueueForNotify := q\<rparr> = c\<lparr>Last := l0, EfiKeyQueue := q0, EfiKeyQueueForNotify := q\<rparr>"
    and "c'\<lparr>Last := l\<rparr> = c\<lparr>Last := l, EfiKeyQueue := q0, EfiKeyQueueForNotify := n0\<rparr>"
    by (simp_all add: c')
  then show "same_but_queues c (c'\<lparr>EfiKeyQueue := q\<rparr>)"
    and "same_but_queues c (c'\<lparr>EfiKeyQueueForNotify := q\<rparr>)"
    and "same_but_queues c (c'\<lparr>Last := l\<rparr>)"
    unfolding same_but_queues_def by blast+
qed

text \<open>
  What one poll of the device does to the driver's world: it keeps everything but the
  queues, and the keys it adds are real ones once the device is ready.
\<close>

definition polled :: "bool \<Rightarrow> kp_world \<Rightarrow> kp_world \<Rightarrow> bool" where
  "polled real w w' \<longleftrightarrow> same_but_queues (con w) (con w') \<and> (kp_inv w \<longrightarrow> kp_inv w' \<and>
     (\<exists>ks. queued w' = take_last queue_cap (queued w @ ks) \<and> (real \<longrightarrow> (\<forall>k \<in> set ks. \<not> is_null_key k))))"

lemma polled_same_con: "con w' = con w \<Longrightarrow> polled r w w'"
  by (auto simp: polled_def kp_inv_def kq.bounded intro!: exI [of _ "[]"])

lemma polled_push:
  assumes "polled r w w'" and "r \<longrightarrow> \<not> is_null_key k"
  shows "polled r w (KeypadReturnApiPushEfikeyBufTail k w')"
proof (cases "is_null_key k \<and> \<not> IsSupportPartialKey (con w')")
  case True
  then show ?thesis using assms by (simp add: polled_def kp_inv_def push_key_con)
next
  case False
  let ?w = "KeypadReturnApiPushEfikeyBufTail k w'"
  have "same_but_queues (con w) (con ?w)"
    using assms False by (auto simp: polled_def push_key_con intro!: same_but_queues_updI)
  moreover have "kp_inv ?w \<and> (\<exists>ks. queued ?w = take_last queue_cap (queued w @ ks)
      \<and> (r \<longrightarrow> (\<forall>k \<in> set ks. \<not> is_null_key k)))" if inv: "kp_inv w"
  proof -
    obtain ks where i: "kp_inv w'" and q: "queued w' = take_last queue_cap (queued w @ ks)"
        and n: "r \<longrightarrow> (\<forall>k \<in> set ks. \<not> is_null_key k)"
      using assms inv by (auto simp: polled_def)
    have "queued ?w = take_last queue_cap (take_last queue_cap (queued w @ ks) @ [k])"
      using False i q by (auto simp: push_key_con kp_inv_def kq.push_elems)
    then have "queued ?w = take_last queue_cap (queued w @ (ks @ [k]))"
      using take_last_snoc [OF kq.cap_pos, of "queued w @ ks" k] by simp
    moreover have "kp_inv ?w"
      using False i by (auto simp: push_key_con kp_inv_def kq.push_inv kq.push_all_inv)
    ultimately show ?thesis
      using n assms(2) by (intro conjI exI [of _ "ks @ [k]"]) auto
  qed
  ultimately show ?thesis by (simp add: polled_def)
qed

lemma polled_trans_con: "polled r w w' \<Longrightarrow> con w'' = con w' \<Longrightarrow> polled r w w''"
  by (auto simp: polled_def kp_inv_def)

lemma polled_last: "polled r w w' \<Longrightarrow> polled r w (upd_con (\<lambda>c. c\<lparr>Last := v\<rparr>) w')"
  by (auto simp: polled_def kp_inv_def intro: same_but_queues_updI)

lemma polled_emit [simp]: "polled r w (emit c w') \<longleftrightarrow> polled r w w'"
  by (simp add: polled_def kp_inv_def)

lemma polled_mmio: "polled r w w' \<Longrightarrow> polled r w (snd (MmioRead32 E a w'))"
  by (rule polled_trans_con) simp_all

lemma counter_con [simp]: "con (snd (GetPerformanceCounter E w)) = con w"
  by (simp add: GetPerformanceCounter_def Let_def)

lemma counter_tpl [simp]: "at_tpl t0 (snd (GetPerformanceCounter E w)) t \<longleftrightarrow> at_tpl t0 w t"
  by (simp add: GetPerformanceCounter_def Let_def)

text \<open>An operation returns at the level it was called at.\<close>

definition keeps_tpl :: "kp_env \<Rightarrow> kp_world \<Rightarrow> kp_world \<Rightarrow> bool" where
  "keeps_tpl E w w' \<longleftrightarrow>
     (\<forall>t0 t. tpl_env t0 E \<longrightarrow> t \<le> TPL_NOTIFY \<longrightarrow> at_tpl t0 w t \<longrightarrow> at_tpl t0 w' t)"

lemma keeps_tpl_trans: "keeps_tpl E w w' \<Longrightarrow> keeps_tpl E w' w'' \<Longrightarrow> keeps_tpl E w w''"
  by (simp add: keeps_tpl_def)

text \<open>Calls that neither allocate nor free, and extensions of a log by such calls.\<close>

definition quiet :: "kp_call \<Rightarrow> bool" where
  "quiet c \<longleftrightarrow> (case c of cRaiseTPL _ _ \<Rightarrow> True | cRestoreTPL _ \<Rightarrow> True | cPerformanceCounter _ \<Rightarrow> True
     | cMmioRead32 _ _ \<Rightarrow> True | cSignalEvent _ \<Rightarrow> True | cCallNotify _ _ \<Rightarrow> True | _ \<Rightarrow> False)"

lemma quiet_simps [simp]:
  "quiet (cRaiseTPL a b)" "quiet (cRestoreTPL a)" "quiet (cPerformanceCounter v)"
  "quiet (cMmioRead32 r u)" "quiet (cSignalEvent e)" "quiet (cCallNotify f k)"
  by (simp_all add: quiet_def)

definition quiet_ext :: "kp_world \<Rightarrow> kp_world \<Rightarrow> bool" where
  "quiet_ext w w' \<longleftrightarrow> (\<exists>cs. log w' = log w @ cs \<and> list_all quiet cs)"

lemma quiet_ext_refl [simp]: "quiet_ext w w"
  by (simp add: quiet_ext_def)

lemma quiet_ext_trans: "quiet_ext w w' \<Longrightarrow> quiet_ext w' w'' \<Longrightarrow> quiet_ext w w''"
  by (auto simp: quiet_ext_def)

lemma quiet_ext_emit [simp]: "quiet c \<Longrightarrow> quiet_ext w w' \<Longrightarrow> quiet_ext w (emit c w')"
  by (auto simp: quiet_ext_def)

lemma quiet_ext_upd [simp]: "quiet_ext w (upd_con f w') \<longleftrightarrow> quiet_ext w w'"
  by (simp add: quiet_ext_def)

lemma quiet_ext_services [simp]:
  "quiet_ext w w' \<Longrightarrow> quiet_ext w (snd (RaiseTPL E t w'))"
  "quiet_ext w w' \<Longrightarrow> quiet_ext w (snd (GetPerformanceCounter E w'))"
  "quiet_ext w w' \<Longrightarrow> quiet_ext w (snd (MmioRead32 E a w'))"
  by (simp_all add: RaiseTPL_def GetPerformanceCounter_def MmioRead32_def Let_def)

lemma quiet_ext_push [simp]: "quiet_ext w w' \<Longrightarrow> quiet_ext w (KeypadReturnApiPushEfikeyBufTail k w')"
proof -
  have "quiet_ext w w' \<Longrightarrow> quiet_ext w (push_notifications k ns w')" for ns w'
    by (induction ns arbitrary: w') simp_all
  then show "quiet_ext w w' \<Longrightarrow> ?thesis" by (simp add: KeypadReturnApiPushEfikeyBufTail_def Let_def)
qed

text \<open>What a read may return: an error code and no key, or a key made from a real one.\<close>

definition read_result_ok :: "kp_world \<Rightarrow> efi_status \<Rightarrow> EFI_INPUT_KEY option \<Rightarrow> bool" where
  "read_result_ok w st ko \<longleftrightarrow>
     (case ko of None \<Rightarrow> st = (if KeypadErr (con w) then EFI_DEVICE_ERROR else EFI_NOT_READY)
      | Some ik \<Rightarrow> st = EFI_SUCCESS \<and> (\<exists>k. \<not> is_null_key k \<and> ik = ctrl_key k))"

section \<open>The driver over any keypad device\<close>

locale keypad_driver = keypad_device P ready
  for P :: "'d kp_device" and ready :: "'d \<Rightarrow> bool" +
  fixes E :: kp_env
begin

text \<open>A poll that reaches the device, as one equation.\<close>

lemma timer_run:
  "\<not> KeypadErr (con w) \<Longrightarrow> \<exists>v Delta. KeypadTimerHandler E P (d, w) =
     (let r = GetKeys P (MmioRead32 E) KeypadReturnApiPushEfikeyBufTail Delta
                (d, upd_con (\<lambda>c. c\<lparr>Last := v\<rparr>) (snd (GetPerformanceCounter E (snd (RaiseTPL E TPL_NOTIFY w)))))
      in (fst (snd r), emit (cRestoreTPL (fst (RaiseTPL E TPL_NOTIFY w))) (snd (snd r))))"
  by (auto simp: KeypadTimerHandler_def Let_def split_beta)

lemma timer_error:
  "KeypadErr (con w) \<Longrightarrow> KeypadTimerHandler E P (d, w) =
     (d, emit (cRestoreTPL (fst (RaiseTPL E TPL_NOTIFY w))) (snd (RaiseTPL E TPL_NOTIFY w)))"
  by (simp add: KeypadTimerHandler_def Let_def split_beta)

lemma timer_polled: "polled False w (snd (KeypadTimerHandler E P (d, w)))"
proof (cases "KeypadErr (con w)")
  case False
  have "polled False w (upd_con (\<lambda>c. c\<lparr>Last := v\<rparr>) (snd (GetPerformanceCounter E (snd (RaiseTPL E TPL_NOTIFY w)))))" for v
    by (intro polled_last polled_same_con) simp
  then have "polled False w (snd (snd (GetKeys P (MmioRead32 E) KeypadReturnApiPushEfikeyBufTail Delta
      (d, upd_con (\<lambda>c. c\<lparr>Last := v\<rparr>) (snd (GetPerformanceCounter E (snd (RaiseTPL E TPL_NOTIFY w))))))))" for v Delta
    by (rule get_keys_keeps [where I = "polled False w", rotated -1]) (auto intro: polled_push polled_mmio)
  then show ?thesis using timer_run [OF False, of d] by (auto simp: Let_def)
qed (simp add: timer_error polled_same_con)

lemma timer_polled_ready:
  assumes "ready d"
  shows "polled True w (snd (KeypadTimerHandler E P (d, w))) \<and> ready (fst (KeypadTimerHandler E P (d, w)))"
proof (cases "KeypadErr (con w)")
  case False
  have "polled True w (upd_con (\<lambda>c. c\<lparr>Last := v\<rparr>) (snd (GetPerformanceCounter E (snd (RaiseTPL E TPL_NOTIFY w)))))" for v
    by (intro polled_last polled_same_con) simp
  then have "polled True w (snd (snd (GetKeys P (MmioRead32 E) KeypadReturnApiPushEfikeyBufTail Delta
      (d, upd_con (\<lambda>c. c\<lparr>Last := v\<rparr>) (snd (GetPerformanceCounter E (snd (RaiseTPL E TPL_NOTIFY w))))))))" for v Delta
    by (rule get_keys_keeps_ready [where I = "polled True w", OF assms, rotated -1])
      (auto intro: polled_push polled_mmio)
  then show ?thesis using timer_run [OF False, of d] get_keys_ready [OF assms] by (auto simp: Let_def)
qed (simp add: timer_error polled_same_con assms)

lemma timer_tpl:
  assumes "tpl_env t0 E" "at_tpl t0 w t" "t \<le> TPL_NOTIFY"
  shows "at_tpl t0 (snd (KeypadTimerHandler E P (d, w))) t"
proof (cases "KeypadErr (con w)")
  case True
  then show ?thesis
    using at_tpl_raise [OF assms] assms(3) by (auto simp: timer_error intro: at_tpl_restore)
next
  case False
  note raise = at_tpl_raise [OF assms]
  have "at_tpl t0 (upd_con (\<lambda>c. c\<lparr>Last := v\<rparr>) (snd (GetPerformanceCounter E (snd (RaiseTPL E TPL_NOTIFY w))))) TPL_NOTIFY" for v
    using raise by simp
  then have "at_tpl t0 (snd (snd (GetKeys P (MmioRead32 E) KeypadReturnApiPushEfikeyBufTail Delta
      (d, upd_con (\<lambda>c. c\<lparr>Last := v\<rparr>) (snd (GetPerformanceCounter E (snd (RaiseTPL E TPL_NOTIFY w)))))))) TPL_NOTIFY" for v Delta
    by (rule get_keys_keeps [where I = "\<lambda>s. at_tpl t0 s TPL_NOTIFY", rotated -1]) simp_all
  then show ?thesis
    using timer_run [OF False, of d] raise assms(3) by (auto simp: Let_def intro!: at_tpl_restore)
qed

lemma timer_quiet: "quiet_ext w (snd (KeypadTimerHandler E P (d, w)))"
proof (cases "KeypadErr (con w)")
  case False
  have "quiet_ext w (snd (snd (GetKeys P (MmioRead32 E) KeypadReturnApiPushEfikeyBufTail Delta
      (d, upd_con (\<lambda>c. c\<lparr>Last := v\<rparr>) (snd (GetPerformanceCounter E (snd (RaiseTPL E TPL_NOTIFY w))))))))" for v Delta
    by (rule get_keys_keeps [where I = "quiet_ext w"]) simp_all
  then show ?thesis using timer_run [OF False, of d] by (auto simp: Let_def)
qed (simp add: timer_error)

text \<open>The worker behind both read operations: poll, then take the oldest key.\<close>

lemma worker_error:
  "KeypadErr (con w) \<Longrightarrow> \<exists>w'. KeypadReadKeyStrokeWorker E P False (d, w) = (EFI_DEVICE_ERROR, None, d, w')
     \<and> con w' = con w"
  by (simp add: KeypadReadKeyStrokeWorker_def Let_def split_beta timer_error)

lemma worker_spec:
  assumes inv: "kp_inv w" and ok: "\<not> KeypadErr (con w)"
  obtains ks d' w' where
    "KeypadReadKeyStrokeWorker E P False (d, w) =
       (let all = take_last queue_cap (queued w @ ks)
        in (if all = [] then EFI_NOT_READY else EFI_SUCCESS,
            if all = [] then None else Some (hd all), d', w'))"
    and "kp_inv w'" and "same_but_queues (con w) (con w')"
    and "queued w' = tl (take_last queue_cap (queued w @ ks))"
    and "ready d \<Longrightarrow> ready d' \<and> (\<forall>k \<in> set ks. \<not> is_null_key k)"
    and "take_last queue_cap (queued w @ ks) = queued (snd (KeypadTimerHandler E P (d, snd (RaiseTPL E TPL_NOTIFY w))))"
proof -
  define w1 where "w1 = snd (RaiseTPL E TPL_NOTIFY w)"
  define dw where "dw = KeypadTimerHandler E P (d, w1)"
  have w1: "con w1 = con w" by (simp add: w1_def)
  have p: "polled False w1 (snd dw)" and pr: "ready d \<Longrightarrow> polled True w1 (snd dw) \<and> ready (fst dw)"
    using timer_polled timer_polled_ready by (simp_all add: dw_def)
  have i1: "kp_inv w1" using inv w1 by (simp add: kp_inv_def)
  obtain ks where q: "queued (snd dw) = take_last queue_cap (queued w @ ks)" and i2: "kp_inv (snd dw)"
      and real: "ready d \<Longrightarrow> \<forall>k \<in> set ks. \<not> is_null_key k"
  proof (cases "ready d")
    case True
    then show ?thesis using pr i1 w1 that by (auto simp: polled_def)
  next
    case False
    then show ?thesis using p i1 w1 that by (auto simp: polled_def)
  qed
  have same: "same_but_queues (con w) (con (snd dw))" using p w1 by (simp add: polled_def)
  have err: "\<not> KeypadErr (con (snd dw))" using same_but_queues_fields [OF same] ok by simp
  define w' where "w' = emit (cRestoreTPL (fst (RaiseTPL E TPL_NOTIFY w)))
      (upd_con (\<lambda>c. c\<lparr>EfiKeyQueue := snd (snd (PopEfikeyBufHead (EfiKeyQueue (con (snd dw)))))\<rparr>) (snd dw))"
  have qi: "key_queue_inv (EfiKeyQueue (con (snd dw)))" using i2 by (simp add: kp_inv_def)
  have run: "KeypadReadKeyStrokeWorker E P False (d, w) =
      (fst (PopEfikeyBufHead (EfiKeyQueue (con (snd dw)))),
       fst (snd (PopEfikeyBufHead (EfiKeyQueue (con (snd dw))))), fst dw, w')"
    using err by (simp add: KeypadReadKeyStrokeWorker_def Let_def split_beta dw_def w1_def w'_def)
  show ?thesis
  proof (rule that [of ks "fst dw" w'])
    show "KeypadReadKeyStrokeWorker E P False (d, w) =
       (let all = take_last queue_cap (queued w @ ks)
        in (if all = [] then EFI_NOT_READY else EFI_SUCCESS,
            if all = [] then None else Some (hd all), fst dw, w'))"
      using run kq.pop_status [OF qi] kq.pop_value [OF qi] by (simp add: q Let_def)
    show "kp_inv w'" using i2 kq.pop_inv [OF qi] by (simp add: kp_inv_def w'_def)
    show "same_but_queues (con w) (con w')" using same by (simp add: w'_def same_but_queues_updI)
    show "queued w' = tl (take_last queue_cap (queued w @ ks))"
      using kq.pop_elems [OF qi] q by (simp add: w'_def)
    show "ready (fst dw) \<and> (\<forall>k \<in> set ks. \<not> is_null_key k)" if "ready d"
      using real pr that by blast
    show "take_last queue_cap (queued w @ ks) = queued (snd (KeypadTimerHandler E P (d, snd (RaiseTPL E TPL_NOTIFY w))))"
      using q by (simp add: dw_def w1_def)
  qed
qed

lemma worker_tpl:
  "keeps_tpl E w (snd (snd (snd (KeypadReadKeyStrokeWorker E P kn (d, w)))))"
  unfolding keeps_tpl_def
proof (intro allI impI)
  fix t0 t
  assume a: "tpl_env t0 E" "t \<le> TPL_NOTIFY" "at_tpl t0 w t"
  show "at_tpl t0 (snd (snd (snd (KeypadReadKeyStrokeWorker E P kn (d, w))))) t"
    using at_tpl_raise [OF a(1,3,2)] timer_tpl [OF a(1) _ order_refl, of "snd (RaiseTPL E TPL_NOTIFY w)" d] a
    by (auto simp: KeypadReadKeyStrokeWorker_def Let_def split_beta intro!: at_tpl_restore)
qed

lemma worker_quiet: "quiet_ext w (snd (snd (snd (KeypadReadKeyStrokeWorker E P kn (d, w)))))"
  using quiet_ext_trans [OF _ timer_quiet, of w "snd (RaiseTPL E TPL_NOTIFY w)" d]
  by (simp add: KeypadReadKeyStrokeWorker_def Let_def split_beta)

text \<open>Each turn of the read loop takes one null key out of the queue or ends the loop.\<close>

lemma null_count_decreases:
  assumes "\<forall>k \<in> set ks. \<not> is_null_key k" and "take_last n (xs @ ks) = k # rest" and "is_null_key k"
  shows "length (filter is_null_key rest) < length (filter is_null_key xs)"
proof -
  define pre where "pre = take (length (xs @ ks) - n) (xs @ ks)"
  have "xs @ ks = pre @ k # rest"
    using assms(2) unfolding take_last_def pre_def by (metis append_take_drop_id)
  then have "filter is_null_key xs @ filter is_null_key ks = filter is_null_key pre @ k # filter is_null_key rest"
    using assms(3) by (metis filter.simps(2) filter_append)
  moreover have "filter is_null_key ks = []" using assms(1) by simp
  ultimately have "length (filter is_null_key xs) = length (filter is_null_key pre @ k # filter is_null_key rest)"
    by simp
  then show ?thesis by simp
qed

lemma read_key_total:
  "kp_inv w \<Longrightarrow> ready d \<Longrightarrow> \<exists>st ko d' w'. KeypadReadKeyStroke E P (d, w) = Some (st, ko, d', w')
     \<and> kp_inv w' \<and> ready d' \<and> keeps_tpl E w w' \<and> quiet_ext w w' \<and> NotifyList (con w') = NotifyList (con w)
     \<and> read_result_ok w st ko"
proof (induction "length (filter is_null_key (queued w))" arbitrary: w d rule: less_induct)
  case less
  note ind = less.hyps and inv = less.prems(1) and rdy = less.prems(2)
  show ?case
  proof (cases "KeypadErr (con w)")
    case True
    then show ?thesis
      using worker_error [OF True, of d] worker_tpl [of w False d] worker_quiet [of w False d] inv rdy
      by (auto simp: KeypadReadKeyStroke.simps [of E P "(d, w)"] kp_inv_def EFI_ERROR_def read_result_ok_def)
  next
    case False
    obtain ks d' w' where run: "KeypadReadKeyStrokeWorker E P False (d, w) =
         (let all = take_last queue_cap (queued w @ ks)
          in (if all = [] then EFI_NOT_READY else EFI_SUCCESS,
              if all = [] then None else Some (hd all), d', w'))"
      and inv': "kp_inv w'" and same: "same_but_queues (con w) (con w')"
      and q: "queued w' = tl (take_last queue_cap (queued w @ ks))"
      and rdy': "ready d'" and real: "\<forall>k \<in> set ks. \<not> is_null_key k"
      using worker_spec [OF inv False, of d] rdy by (metis (no_types, lifting))
    have w': "w' = snd (snd (snd (KeypadReadKeyStrokeWorker E P False (d, w))))" using run by (simp add: Let_def)
    have tpl: "keeps_tpl E w w'" and qt: "quiet_ext w w'"
      unfolding w' by (rule worker_tpl worker_quiet)+
    have nl: "NotifyList (con w') = NotifyList (con w)" using same_but_queues_fields [OF same] by simp
    show ?thesis
    proof (cases "take_last queue_cap (queued w @ ks)")
      case Nil
      then show ?thesis
        using run inv' rdy' False tpl qt nl
        by (auto simp: KeypadReadKeyStroke.simps [of E P "(d, w)"] EFI_ERROR_def read_result_ok_def)
    next
      case (Cons k rest)
      show ?thesis
      proof (cases "is_null_key k")
        case True
        then have "length (filter is_null_key (queued w')) < length (filter is_null_key (queued w))"
          using null_count_decreases [OF real Cons] q Cons by simp
        note next_turn = ind [OF this inv' rdy']
        have "KeypadReadKeyStroke E P (d, w) = KeypadReadKeyStroke E P (d', w')"
          using run Cons True by (simp add: KeypadReadKeyStroke.simps [of E P "(d, w)"])
        moreover have "read_result_ok w' = read_result_ok w"
          using same_but_queues_fields [OF same] by (simp add: read_result_ok_def fun_eq_iff)
        moreover obtain st ko d2 w2 where "KeypadReadKeyStroke E P (d', w') = Some (st, ko, d2, w2)"
          "kp_inv w2" "ready d2" "keeps_tpl E w' w2" "quiet_ext w' w2" "NotifyList (con w2) = NotifyList (con w')"
          "read_result_ok w' st ko"
          using next_turn by blast
        ultimately show ?thesis
          using keeps_tpl_trans [OF tpl] quiet_ext_trans [OF qt] nl by simp
      next
        case False
        then show ?thesis
          using run Cons inv' rdy' tpl qt nl
          by (auto simp: KeypadReadKeyStroke.simps [of E P "(d, w)"] read_result_ok_def)
      qed
    qed
  qed
qed

end

section \<open>Waiting and notifying\<close>

lemma drop_null_keys_spec:
  "key_queue_inv q \<Longrightarrow> \<exists>q'. drop_null_keys q = Some (\<exists>k \<in> set (key_queue_keys q). \<not> is_null_key k, q')
     \<and> key_queue_inv q' \<and> key_queue_keys q' = dropWhile is_null_key (key_queue_keys q)"
proof (induction "length (key_queue_keys q)" arbitrary: q rule: less_induct)
  case less
  show ?case
  proof (cases "key_queue_keys q")
    case Nil
    then show ?thesis
      using less.prems kq.empty_iff [OF less.prems] by (simp add: drop_null_keys.simps)
  next
    case (Cons k ks)
    obtain q' where pop: "PopEfikeyBufHead q = (EFI_SUCCESS, Some k, q')" "key_queue_inv q'" "key_queue_keys q' = ks"
      using kq.pop_cons [OF less.prems Cons] by blast
    have ne: "\<not> IsEfikeyBufEmpty q" using kq.empty_iff [OF less.prems] Cons by simp
    have head: "Buffer q ! Head q = k" using pop(1) ne by (simp add: PopEfikeyBufHead_def)
    show ?thesis
    proof (cases "is_null_key k")
      case True
      then show ?thesis
        using less.hyps [of q'] pop ne head Cons by (simp add: drop_null_keys.simps [of q])
    next
      case False
      then show ?thesis
        using ne head Cons less.prems by (simp add: drop_null_keys.simps [of q])
    qed
  qed
qed

text \<open>The calls a notification event makes for one key.\<close>

definition notify_calls :: "KEYPAD_CONSOLE_IN_EX_NOTIFY list \<Rightarrow> EFI_KEY_DATA \<Rightarrow> kp_call list" where
  "notify_calls ns k = map (\<lambda>n. cCallNotify (KeyNotificationFn n) k) (filter (notify_matches k) ns)"

lemma call_notifications_eq:
  "call_notifications k ns w = w\<lparr>log := log w @ notify_calls ns k\<rparr>"
  by (induction ns arbitrary: w) (simp_all add: notify_calls_def emit_def)

definition is_call_notify :: "kp_call \<Rightarrow> bool" where
  "is_call_notify c \<longleftrightarrow> (case c of cCallNotify _ _ \<Rightarrow> True | _ \<Rightarrow> False)"

lemma filter_notify_calls [simp]: "filter is_call_notify (notify_calls ns k) = notify_calls ns k"
  by (auto simp: notify_calls_def is_call_notify_def filter_map comp_def)

lemma notify_handler_total:
  "key_queue_inv (EfiKeyQueueForNotify (con w)) \<Longrightarrow>
   \<exists>w'. KeyNotifyProcessHandler E w = Some w' \<and> key_queue_inv (EfiKeyQueueForNotify (con w'))
     \<and> queued_notify w' = [] \<and> EfiKeyQueue (con w') = EfiKeyQueue (con w)
     \<and> NotifyList (con w') = NotifyList (con w) \<and> KeypadErr (con w') = KeypadErr (con w)
     \<and> filter is_call_notify (log w') =
         filter is_call_notify (log w) @ concat (map (notify_calls (NotifyList (con w))) (queued_notify w))"
proof (induction "length (queued_notify w)" arbitrary: w rule: less_induct)
  case less
  let ?w1 = "snd (RaiseTPL E TPL_NOTIFY w)"
  have logs: "filter is_call_notify (log ?w1) = filter is_call_notify (log w)"
    by (simp add: RaiseTPL_def Let_def is_call_notify_def)
  show ?case
  proof (cases "queued_notify w")
    case Nil
    then show ?thesis
      using kq.pop_empty [OF less.prems] less.prems logs
      by (auto simp: KeyNotifyProcessHandler.simps [of E w] split_beta EFI_ERROR_def is_call_notify_def)
  next
    case (Cons k ks)
    obtain q' where pop: "PopEfikeyBufHead (EfiKeyQueueForNotify (con w)) = (EFI_SUCCESS, Some k, q')"
        "key_queue_inv q'" "key_queue_keys q' = ks"
      using kq.pop_cons [OF less.prems Cons] by blast
    define w2 where "w2 = call_notifications k (NotifyList (con w))
        (emit (cRestoreTPL (fst (RaiseTPL E TPL_NOTIFY w))) (upd_con (\<lambda>c. c\<lparr>EfiKeyQueueForNotify := q'\<rparr>) ?w1))"
    have run: "KeyNotifyProcessHandler E w = KeyNotifyProcessHandler E w2"
      using pop by (simp add: KeyNotifyProcessHandler.simps [of E w] split_beta w2_def)
    have w2: "con w2 = (con w)\<lparr>EfiKeyQueueForNotify := q'\<rparr>"
      "filter is_call_notify (log w2) = filter is_call_notify (log w) @ notify_calls (NotifyList (con w)) k"
      using logs by (simp_all add: w2_def call_notifications_eq is_call_notify_def)
    show ?thesis
      using less.hyps [of w2] pop(2,3) Cons run by (simp add: w2)
  qed
qed

lemma handler_at_tpl:
  "tpl_env t0 E \<Longrightarrow> key_queue_inv (EfiKeyQueueForNotify (con w)) \<Longrightarrow> at_tpl t0 w t \<Longrightarrow> t \<le> TPL_NOTIFY \<Longrightarrow>
   KeyNotifyProcessHandler E w = Some w' \<Longrightarrow> at_tpl t0 w' t"
proof (induction "length (queued_notify w)" arbitrary: w rule: less_induct)
  case less
  let ?w1 = "snd (RaiseTPL E TPL_NOTIFY w)"
  note raise = at_tpl_raise [OF less.prems(1,3,4)]
  show ?case
  proof (cases "queued_notify w")
    case Nil
    then show ?thesis
      using kq.pop_empty [OF less.prems(2)] less.prems raise
      by (auto simp: KeyNotifyProcessHandler.simps [of E w] split_beta EFI_ERROR_def intro!: at_tpl_restore)
  next
    case (Cons k ks)
    obtain q' where pop: "PopEfikeyBufHead (EfiKeyQueueForNotify (con w)) = (EFI_SUCCESS, Some k, q')"
        "key_queue_inv q'" "key_queue_keys q' = ks"
      using kq.pop_cons [OF less.prems(2) Cons] by blast
    let ?u = "emit (cRestoreTPL (fst (RaiseTPL E TPL_NOTIFY w))) (upd_con (\<lambda>c. c\<lparr>EfiKeyQueueForNotify := q'\<rparr>) ?w1)"
    have u: "at_tpl t0 ?u t" using raise less.prems(4) by (auto intro!: at_tpl_restore)
    have calls: "at_tpl t0 (call_notifications k ns v) t \<longleftrightarrow> at_tpl t0 v t" for ns v
      by (induction ns arbitrary: v) simp_all
    have call_con: "con (call_notifications k ns v) = con v" for ns v
      by (simp add: call_notifications_eq)
    have "KeyNotifyProcessHandler E (call_notifications k (NotifyList (con w)) ?u) = Some w'"
      using less.prems(5) pop by (simp add: KeyNotifyProcessHandler.simps [of E w] split_beta)
    then show ?thesis
      by (rule less.hyps [rotated -1])
        (use less.prems u pop Cons in \<open>simp_all add: calls call_con\<close>)
  qed
qed

lemma handler_quiet:
  "key_queue_inv (EfiKeyQueueForNotify (con w)) \<Longrightarrow> KeyNotifyProcessHandler E w = Some w' \<Longrightarrow> quiet_ext w w'"
proof (induction "length (queued_notify w)" arbitrary: w rule: less_induct)
  case less
  let ?w1 = "snd (RaiseTPL E TPL_NOTIFY w)"
  show ?case
  proof (cases "queued_notify w")
    case Nil
    then show ?thesis
      using kq.pop_empty [OF less.prems(1)] less.prems
      by (auto simp: KeyNotifyProcessHandler.simps [of E w] split_beta EFI_ERROR_def)
  next
    case (Cons k ks)
    obtain q' where pop: "PopEfikeyBufHead (EfiKeyQueueForNotify (con w)) = (EFI_SUCCESS, Some k, q')"
        "key_queue_inv q'" "key_queue_keys q' = ks"
      using kq.pop_cons [OF less.prems(1) Cons] by blast
    let ?u = "call_notifications k (NotifyList (con w))
        (emit (cRestoreTPL (fst (RaiseTPL E TPL_NOTIFY w))) (upd_con (\<lambda>c. c\<lparr>EfiKeyQueueForNotify := q'\<rparr>) ?w1))"
    have calls: "quiet_ext w v \<Longrightarrow> quiet_ext w (call_notifications k ns v)" for ns v
      by (induction ns arbitrary: v) simp_all
    have con: "con ?u = (con w)\<lparr>EfiKeyQueueForNotify := q'\<rparr>" by (simp add: call_notifications_eq)
    have run: "KeyNotifyProcessHandler E ?u = Some w'"
      using less.prems(2) pop by (simp add: KeyNotifyProcessHandler.simps [of E w] split_beta)
    have "quiet_ext ?u w'"
      using less.hyps [of ?u] run pop Cons con by simp
    moreover have "quiet_ext w ?u" by (rule calls) simp
    ultimately show ?thesis using quiet_ext_trans by blast
  qed
qed

end
