(* ===== verification/KeypadCorrect.thy ===== *)
theory KeypadCorrect
  imports Keypad
begin

text \<open>
  Correctness of the keypad driver on the repository's own keypad device: the
  interpretation of the driver's locale on \<open>mInternalKeypadDevice\<close>, the reachable states
  of its handlers with their invariants, and the functional behaviour of the reads, the
  notification list and the toggle state.
\<close>

interpretation kpd: keypad_driver "mInternalKeypadDevice bl" keys_ready E
  for bl :: "'b BitmapLib" and E :: kp_env
  by unfold_locales

section \<open>Pool use\<close>

text \<open>The notification nodes a log leaves allocated, and the documented pool: an address
  that is handed out is not in use.\<close>

definition live_step :: "kp_call \<Rightarrow> ptr set \<Rightarrow> ptr set" where
  "live_step c S = (case c of cAllocateZeroPool (Some p) \<Rightarrow> insert p S | cFreePool p \<Rightarrow> S - {p} | _ \<Rightarrow> S)"

definition live_pool :: "kp_log \<Rightarrow> ptr set" where
  "live_pool l = fold live_step l {}"

definition pool_env :: "kp_env \<Rightarrow> bool" where
  "pool_env E \<longleftrightarrow> (\<forall>l p. eAllocateZeroPool E l = Some p \<longrightarrow> p \<notin> live_pool l)"

lemma live_pool_append [simp]: "live_pool (l @ cs) = fold live_step cs (live_pool l)"
  by (simp add: live_pool_def)

lemma live_quiet: "quiet_ext w w' \<Longrightarrow> live_pool (log w') = live_pool (log w)"
proof -
  have "list_all quiet cs \<Longrightarrow> fold live_step cs S = S" for cs S
    by (induction cs arbitrary: S) (auto simp: live_step_def quiet_def split: kp_call.splits)
  then show "quiet_ext w w' \<Longrightarrow> ?thesis" by (auto simp: quiet_ext_def live_pool_def)
qed

definition nodes_ok :: "kp_world \<Rightarrow> bool" where
  "nodes_ok w \<longleftrightarrow> distinct (map NodeAddress (NotifyList (con w)))
     \<and> NodeAddress ` set (NotifyList (con w)) = live_pool (log w)"

lemma nodes_ok_quiet:
  "quiet_ext w w' \<Longrightarrow> NotifyList (con w') = NotifyList (con w) \<Longrightarrow> nodes_ok w \<Longrightarrow> nodes_ok w'"
  by (simp add: nodes_ok_def live_quiet)

section \<open>The handlers as a step relation\<close>

inductive kp_step ::
  "'b BitmapLib \<Rightarrow> kp_env \<Rightarrow> 'b keypad_lib \<times> kp_world \<Rightarrow> 'b keypad_lib \<times> kp_world \<Rightarrow> bool"
  for bl E where
  timer: "kp_step bl E s (KeypadTimerHandler E (mInternalKeypadDevice bl) s)"
| reset: "KeypadEfiReset E (mInternalKeypadDevice bl) ext s = (st, s') \<Longrightarrow> kp_step bl E s s'"
| read_key: "KeypadReadKeyStroke E (mInternalKeypadDevice bl) s = Some (st, ko, s') \<Longrightarrow> kp_step bl E s s'"
| read_key_ex: "KeypadReadKeyStrokeEx E (mInternalKeypadDevice bl) kn s = (st, ko', s') \<Longrightarrow> kp_step bl E s s'"
| wait_key: "KeypadWaitForKey E (mInternalKeypadDevice bl) ev s = Some s' \<Longrightarrow> kp_step bl E s s'"
| set_state: "KeypadSetState E t w = (st, w') \<Longrightarrow> kp_step bl E (d, w) (d, w')"
| register: "KeypadRegisterKeyNotify E k f hn w = (st, h, w') \<Longrightarrow> kp_step bl E (d, w) (d, w')"
| unregister: "KeypadUnregisterKeyNotify E h w = (st, w') \<Longrightarrow> kp_step bl E (d, w) (d, w')"
| notify: "KeyNotifyProcessHandler E w = Some w' \<Longrightarrow> kp_step bl E (d, w) (d, w')"
| hw_error: "kp_step bl E (d, w) (d, KeypadError w)"

text \<open>A run starts from a driver with empty, well-formed queues, no registration and a
  device that has been reset, which is the state the driver's start leaves.\<close>

definition kp_started :: "'b keypad_lib \<times> kp_world \<Rightarrow> bool" where
  "kp_started s \<longleftrightarrow> (case s of (d, w) \<Rightarrow>
     keys_ready d \<and> kp_inv w \<and> queued w = [] \<and> queued_notify w = [] \<and> NotifyList (con w) = [] \<and> log w = [])"

inductive kp_reachable ::
  "'b BitmapLib \<Rightarrow> kp_env \<Rightarrow> 'b keypad_lib \<times> kp_world \<Rightarrow> bool" for bl E where
  started: "kp_started s \<Longrightarrow> kp_reachable bl E s"
| step: "kp_reachable bl E s \<Longrightarrow> kp_step bl E s s' \<Longrightarrow> kp_reachable bl E s'"

definition kp_good :: "kp_env \<Rightarrow> efi_tpl \<Rightarrow> 'b keypad_lib \<times> kp_world \<Rightarrow> bool" where
  "kp_good E t0 s \<longleftrightarrow> (case s of (d, w) \<Rightarrow>
     keys_ready d \<and> kp_inv w \<and> at_tpl t0 w t0 \<and> nodes_ok w)"

lemma keeps_tplD:
  "keeps_tpl E w w' \<Longrightarrow> tpl_env t0 E \<Longrightarrow> t0 \<le> TPL_NOTIFY \<Longrightarrow> at_tpl t0 w t0 \<Longrightarrow> at_tpl t0 w' t0"
  by (simp add: keeps_tpl_def)

text \<open>A handler that raises, works at \<open>TPL_NOTIFY\<close> without touching the level, and restores.\<close>

lemma raise_work_restore:
  assumes "\<And>t0. at_tpl t0 (snd (RaiseTPL E TPL_NOTIFY w)) TPL_NOTIFY \<Longrightarrow> at_tpl t0 v TPL_NOTIFY"
  shows "keeps_tpl E w (emit (cRestoreTPL (fst (RaiseTPL E TPL_NOTIFY w))) v)"
  using at_tpl_raise [where E = E and w = w and new = TPL_NOTIFY] assms
  by (auto simp: keeps_tpl_def intro!: at_tpl_restore)

lemma keeps_tpl_refl [simp]: "keeps_tpl E w w"
  by (simp add: keeps_tpl_def)

lemma keeps_tpl_upd [simp]: "keeps_tpl E w (upd_con f w') \<longleftrightarrow> keeps_tpl E w w'"
  by (simp add: keeps_tpl_def)

lemma same_queues_inv:
  "EfiKeyQueue (con w') = EfiKeyQueue (con w) \<Longrightarrow> EfiKeyQueueForNotify (con w') = EfiKeyQueueForNotify (con w)
   \<Longrightarrow> kp_inv w' = kp_inv w"
  by (simp add: kp_inv_def)

lemma reset_good:
  assumes "KeypadEfiReset E (mInternalKeypadDevice bl) ext (d, w) = (st, d', w')" and "keys_ready d" and "kp_inv w"
  shows "keys_ready d' \<and> kp_inv w' \<and> keeps_tpl E w w' \<and> quiet_ext w w' \<and> NotifyList (con w') = NotifyList (con w)"
  using assms kdev.reset_ready
  by (auto simp: KeypadEfiReset_def InitKeypad_def Let_def split_beta kp_inv_def key_queue_inv_def
      intro!: raise_work_restore split: if_splits)

lemma set_state_good:
  assumes "KeypadSetState E t w = (st, w')"
  shows "EfiKeyQueue (con w') = EfiKeyQueue (con w) \<and> EfiKeyQueueForNotify (con w') = EfiKeyQueueForNotify (con w)
     \<and> keeps_tpl E w w' \<and> quiet_ext w w' \<and> NotifyList (con w') = NotifyList (con w)"
  using assms
  by (auto simp: KeypadSetState_def Let_def split_beta intro!: raise_work_restore split: if_splits option.splits)

lemma wait_good:
  assumes "KeypadWaitForKey E (mInternalKeypadDevice bl) ev (d, w) = Some (d', w')" and "keys_ready d" and "kp_inv w"
  shows "keys_ready d' \<and> kp_inv w' \<and> keeps_tpl E w w' \<and> quiet_ext w w' \<and> NotifyList (con w') = NotifyList (con w)"
proof -
  let ?w1 = "snd (RaiseTPL E TPL_NOTIFY w)"
  let ?r = "KeypadTimerHandler E (mInternalKeypadDevice bl) (d, ?w1)"
  have p: "polled True ?w1 (snd ?r)" "keys_ready (fst ?r)"
    using kpd.timer_polled_ready [OF assms(2)] by auto
  have inv: "kp_inv (snd ?r)" and nl: "NotifyList (con (snd ?r)) = NotifyList (con w)"
    using p assms(3) same_but_queues_fields by (auto simp: polled_def kp_inv_def)
  have q: "key_queue_inv (EfiKeyQueue (con (snd ?r)))" using inv by (simp add: kp_inv_def)
  have quiet: "quiet_ext w (snd ?r)" using quiet_ext_trans [OF _ kpd.timer_quiet, of w ?w1] by simp
  have tpl: "keeps_tpl E w (emit (cRestoreTPL (fst (RaiseTPL E TPL_NOTIFY w))) v)"
    if "\<And>t0. at_tpl t0 (snd ?r) TPL_NOTIFY \<Longrightarrow> at_tpl t0 v TPL_NOTIFY" for v
    unfolding keeps_tpl_def
    using at_tpl_raise [where E = E and w = w and new = TPL_NOTIFY]
      kpd.timer_tpl [where w = ?w1 and d = d and E = E and bl = bl and t = TPL_NOTIFY] that
    by (auto intro!: at_tpl_restore)
  show ?thesis
    using assms(1) p(2) inv nl quiet drop_null_keys_spec [OF q]
    by (auto simp: KeypadWaitForKey_def Let_def split_beta kp_inv_def intro!: tpl split: if_splits option.splits)
qed

lemma register_good:
  assumes "KeypadRegisterKeyNotify E k f hn w = (st, h, w')" and "pool_env E" and "nodes_ok w"
  shows "EfiKeyQueue (con w') = EfiKeyQueue (con w) \<and> EfiKeyQueueForNotify (con w') = EfiKeyQueueForNotify (con w)
     \<and> keeps_tpl E w w' \<and> nodes_ok w'"
proof -
  let ?w1 = "snd (RaiseTPL E TPL_NOTIFY w)"
  have live: "live_pool (log ?w1) = live_pool (log w)" using live_quiet [of w ?w1] by simp
  have fresh: "eAllocateZeroPool E (log ?w1) = Some a \<Longrightarrow> a \<notin> live_pool (log w)" for a
    using assms(2) live unfolding pool_env_def by metis
  have mem: "n \<in> set (NotifyList (con w)) \<Longrightarrow> NodeAddress n \<in> live_pool (log w)" for n
    using assms(3) by (auto simp: nodes_ok_def)
  show ?thesis
    using assms(1,3) fresh live mem
    by (auto simp: KeypadRegisterKeyNotify_def Let_def split_beta nodes_ok_def live_step_def
        intro!: raise_work_restore split: if_splits option.splits)
qed

lemma remove_node_spec:
  "distinct (map NodeAddress ns) \<Longrightarrow> remove_node h ns =
     (if h \<in> NodeAddress ` set ns then Some (filter (\<lambda>n. NodeAddress n \<noteq> h) ns) else None)"
proof (induction ns)
  case (Cons n ns)
  have "NodeAddress n = h \<Longrightarrow> filter (\<lambda>n. NodeAddress n \<noteq> h) ns = ns"
    using Cons.prems by (auto simp: filter_id_conv rev_image_eqI)
  with Cons show ?case by auto
qed simp

lemma image_filter_neq: "f ` {x \<in> S. f x \<noteq> h} = f ` S - {h}"
  by auto

lemma unregister_good:
  assumes "KeypadUnregisterKeyNotify E h w = (st, w')" and "nodes_ok w"
  shows "EfiKeyQueue (con w') = EfiKeyQueue (con w) \<and> EfiKeyQueueForNotify (con w') = EfiKeyQueueForNotify (con w)
     \<and> keeps_tpl E w w' \<and> nodes_ok w'"
proof -
  have live: "live_pool (log (snd (RaiseTPL E TPL_NOTIFY w))) = live_pool (log w)"
    by (rule live_quiet) simp
  show ?thesis
    using assms live
    by (auto simp: KeypadUnregisterKeyNotify_def Let_def split_beta nodes_ok_def live_step_def remove_node_spec
        image_filter_neq distinct_map_filter intro!: raise_work_restore split: if_splits option.splits)
qed

lemma timer_good:
  assumes "keys_ready d" and "kp_inv w"
  shows "keys_ready (fst (KeypadTimerHandler E (mInternalKeypadDevice bl) (d, w)))
     \<and> kp_inv (snd (KeypadTimerHandler E (mInternalKeypadDevice bl) (d, w)))
     \<and> keeps_tpl E w (snd (KeypadTimerHandler E (mInternalKeypadDevice bl) (d, w)))
     \<and> quiet_ext w (snd (KeypadTimerHandler E (mInternalKeypadDevice bl) (d, w)))
     \<and> NotifyList (con (snd (KeypadTimerHandler E (mInternalKeypadDevice bl) (d, w)))) = NotifyList (con w)"
  using kpd.timer_polled_ready [OF assms(1), of w E bl] kpd.timer_tpl [of _ E w _ bl d]
    kpd.timer_quiet [of w E bl d] same_but_queues_fields assms(2)
  by (auto simp: polled_def keeps_tpl_def)

lemma worker_good:
  assumes "KeypadReadKeyStrokeEx E (mInternalKeypadDevice bl) kn (d, w) = (st, ko, d', w')"
    and "keys_ready d" and "kp_inv w"
  shows "keys_ready d' \<and> kp_inv w' \<and> keeps_tpl E w w' \<and> quiet_ext w w' \<and> NotifyList (con w') = NotifyList (con w)"
proof (cases kn)
  case True
  then show ?thesis using assms by (simp add: KeypadReadKeyStrokeEx_def)
next
  case False
  then have run: "KeypadReadKeyStrokeWorker E (mInternalKeypadDevice bl) False (d, w) = (st, ko, d', w')"
    using assms(1) by (simp add: KeypadReadKeyStrokeEx_def)
  have more: "keeps_tpl E w w'" "quiet_ext w w'"
    using kpd.worker_tpl [of E w bl False d] kpd.worker_quiet [of w E bl False d] run by simp_all
  show ?thesis
  proof (cases "KeypadErr (con w)")
    case True
    then show ?thesis using kpd.worker_error [OF True, of E bl d] run more assms by (auto simp: kp_inv_def)
  next
    case False
    show ?thesis
      by (rule kpd.worker_spec [OF assms(3) False, of E bl d])
        (use run more assms(2) same_but_queues_fields in \<open>auto simp: Let_def split: if_splits\<close>)
  qed
qed

lemma kp_step_good:
  assumes "kp_step bl E s s'" and "kp_good E t0 s" and "tpl_env t0 E" and "t0 \<le> TPL_NOTIFY" and "pool_env E"
  shows "kp_good E t0 s'"
  using assms(1,2)
proof cases
  case timer
  then show ?thesis
    using timer_good [of "fst s" "snd s" E bl] assms(2-4)
    by (auto simp: kp_good_def split_beta keeps_tplD nodes_ok_quiet)
next
  case (reset ext st)
  then show ?thesis
    using reset_good [of E bl ext "fst s" "snd s" st "fst s'" "snd s'"] assms(2-4)
    by (auto simp: kp_good_def split_beta keeps_tplD nodes_ok_quiet)
next
  case (read_key st ko)
  then show ?thesis
    using kpd.read_key_total [of "snd s" "fst s" E bl] assms(2-4)
    by (auto simp: kp_good_def split_beta keeps_tplD nodes_ok_quiet)
next
  case (read_key_ex kn st ko')
  then show ?thesis
    using worker_good [of E bl kn "fst s" "snd s" st ko' "fst s'" "snd s'"] assms(2-4)
    by (auto simp: kp_good_def split_beta keeps_tplD nodes_ok_quiet)
next
  case (wait_key ev)
  then show ?thesis
    using wait_good [of E bl ev "fst s" "snd s" "fst s'" "snd s'"] assms(2-4)
    by (auto simp: kp_good_def split_beta keeps_tplD nodes_ok_quiet)
next
  case (set_state t w st w' d)
  then show ?thesis
    using set_state_good [of E t w st w'] same_queues_inv [of w' w] assms(2-4)
    by (auto simp: kp_good_def keeps_tplD nodes_ok_quiet)
next
  case (register k f hn w st h w' d)
  then show ?thesis
    using register_good [of E k f hn w st h w'] same_queues_inv [of w' w] assms(2-5)
    by (auto simp: kp_good_def keeps_tplD)
next
  case (unregister h w st w' d)
  then show ?thesis
    using unregister_good [of E h w st w'] same_queues_inv [of w' w] assms(2-4)
    by (auto simp: kp_good_def keeps_tplD)
next
  case (notify w w' d)
  then have q: "key_queue_inv (EfiKeyQueueForNotify (con w))" and t: "at_tpl t0 w t0" and g: "kp_good E t0 (d, w)"
    using assms(2) by (auto simp: kp_good_def kp_inv_def)
  have "at_tpl t0 w' t0" using handler_at_tpl [OF assms(3) q t assms(4)] notify by blast
  moreover have "live_pool (log w') = live_pool (log w)"
    using notify handler_quiet [OF q] live_quiet by blast
  ultimately show ?thesis
    using notify g notify_handler_total [OF q, of E] by (auto simp: kp_good_def kp_inv_def nodes_ok_def)
next
  case (hw_error d w)
  then show ?thesis
    using assms(2) by (simp add: kp_good_def KeypadError_def kp_inv_def nodes_ok_def)
qed

section \<open>A concrete environment and device\<close>

text \<open>
  The witnesses run the driver in an environment that keeps its documented promises: it
  answers \<open>RaiseTPL\<close> with the level in force, hands out addresses above all earlier ones,
  and reads every pin as high.  Bitmaps are sets of bit numbers.
\<close>

definition next_address :: "kp_log \<Rightarrow> ptr" where
  "next_address l = Suc (sum_list (map (\<lambda>c. case c of cAllocateZeroPool (Some p) \<Rightarrow> p | _ \<Rightarrow> 0) l))"

definition ex_env :: kp_env where
  "ex_env = \<lparr>eRaiseTPL = (\<lambda>l. case tpl_run 4 l of Some t \<Rightarrow> t | None \<Rightarrow> 4),
     ePerformanceCounter = (\<lambda>l. of_nat (length l)), eTimeInNanoSecond = (\<lambda>d. d),
     eMmioRead32 = (\<lambda>l a. 0xffffffff), eAllocateZeroPool = (\<lambda>l. Some (next_address l)),
     eOpenProtocol = (\<lambda>l g a. EFI_SUCCESS), eCreateEvent = (\<lambda>l h. (EFI_SUCCESS, length l)),
     eSetTimer = (\<lambda>l. EFI_SUCCESS), eInstallProtocols = (\<lambda>l. EFI_SUCCESS),
     eUninstallProtocols = (\<lambda>l. EFI_SUCCESS), eAddUnicodeStrings = (\<lambda>l. True)\<rparr>"

definition ex_queue :: EFI_KEY_QUEUE where
  "ex_queue = \<lparr>Buffer = replicate KEYPAD_EFI_KEY_MAX_COUNT null_key, Head = 0, Tail = 0\<rparr>"

definition ex_con :: KEYPAD_CONSOLE_IN_DEV where
  "ex_con = \<lparr>ConIn_WaitForKey = Some 1, ConInEx_WaitForKeyEx = Some 2, TimerEvent = Some 3, Last = 0,
     LeftCtrl = False, RightCtrl = False, LeftAlt = False, RightAlt = False, LeftShift = False,
     RightShift = False, LeftLogo = False, RightLogo = False, Menu = False, SysReq = False,
     CapsLock = False, NumLock = False, ScrollLock = False, IsSupportPartialKey = False,
     EfiKeyQueue = ex_queue, EfiKeyQueueForNotify = ex_queue, KeypadErr = False,
     ControllerNameTable = True, NotifyList = [], KeyNotifyProcessEvent = Some 4\<rparr>"

definition ex_world :: kp_world where
  "ex_world = \<lparr>con = ex_con, log = []\<rparr>"

definition ex_device :: "(u16 \<Rightarrow> bool) keypad_lib" where
  "ex_device = (let c = \<lparr>EfiKeyContext = \<lparr>KeyData = null_key, Time = 0, State = KEYSTATE_RELEASED,
                           Repeat = False, Longpress = False\<rparr>,
                         PinctrlBase = 0, BankOffset = 0, PinNum = 0, Pmic_key = 0\<rparr>
     in snd (KeypadDeviceImplReset \<lparr>bitmaps = \<lparr>gBitmapScanCodes = (\<lambda>_. False), gBitmapUnicodeChars = (\<lambda>_. False)\<rparr>,
          KeyContextPower = c, KeyContextVolumeUp = c, KeyContextVolumeDown = c\<rparr>))"

lemma ex_queue_facts [simp]: "key_queue_inv ex_queue" "key_queue_keys ex_queue = []"
  by (simp_all add: key_queue_inv_def key_queue_keys_def ex_queue_def ring_dist_def KEYPAD_EFI_KEY_MAX_COUNT_def)

lemma ex_world_facts [simp]: "kp_inv ex_world" "log ex_world = []" "con ex_world = ex_con" "nodes_ok ex_world"
    "EfiKeyQueue ex_con = ex_queue" "EfiKeyQueueForNotify ex_con = ex_queue" "NotifyList ex_con = []"
    "\<not> KeypadErr ex_con"
  by (simp_all add: kp_inv_def nodes_ok_def live_pool_def ex_world_def ex_con_def)

lemma ex_device_ready [simp]: "keys_ready ex_device"
  by (simp add: ex_device_def reset_keys_ready Let_def)

lemma ex_tpl_env [simp]: "tpl_env 4 ex_env"
  by (simp add: tpl_env_def ex_env_def)

lemma live_pool_below: "p \<in> live_pool l \<Longrightarrow> p < next_address l"
proof (induction l rule: rev_induct)
  case (snoc c l)
  then show ?case
    by (auto simp: live_step_def next_address_def split: kp_call.splits option.splits if_splits)
qed (simp add: live_pool_def)

lemma ex_pool_env [simp]: "pool_env ex_env"
  using live_pool_below by (fastforce simp: pool_env_def ex_env_def)

lemma ex_started: "kp_started (ex_device, ex_world)"
  by (simp add: kp_started_def)

section \<open>Properties\<close>

text \<open>C1: in every state the handlers can reach, both key queues are well-formed rings, the
  task priority level is the one the run started at, and the notification nodes are
  distinct and exactly the ones the pool has handed out and not got back (no leak and no
  use after free).\<close>

theorem keypad_reachable_good:
  assumes "tpl_env t0 E" and "t0 \<le> TPL_NOTIFY" and "pool_env E" and "kp_reachable bl E s"
  shows "case s of (d, w) \<Rightarrow> keys_ready d \<and> kp_inv w \<and> length (queued w) \<le> 255
    \<and> tpl_run t0 (log w) = Some t0
    \<and> distinct (map NodeAddress (NotifyList (con w)))
    \<and> NodeAddress ` set (NotifyList (con w)) = live_pool (log w)"
proof -
  from assms(4) have "kp_good E t0 s"
  proof (induction rule: kp_reachable.induct)
    case (started s)
    then show ?case by (auto simp: kp_started_def kp_good_def at_tpl_def nodes_ok_def live_pool_def)
  next
    case (step s s')
    then show ?case using kp_step_good assms(1-3) by blast
  qed
  then show ?thesis
    using kq.bounded by (auto simp: kp_good_def at_tpl_def nodes_ok_def kp_inv_def queue_cap_def
        KEYPAD_EFI_KEY_MAX_COUNT_def)
qed

theorem keypad_reachable_good_witness:
  "kp_reachable ex_bitmaps ex_env (KeypadTimerHandler ex_env (mInternalKeypadDevice ex_bitmaps) (ex_device, ex_world))
   \<and> tpl_run 4 (log (snd (KeypadTimerHandler ex_env (mInternalKeypadDevice ex_bitmaps) (ex_device, ex_world)))) = Some 4"
proof -
  have r: "kp_reachable ex_bitmaps ex_env (KeypadTimerHandler ex_env (mInternalKeypadDevice ex_bitmaps) (ex_device, ex_world))"
    by (rule kp_reachable.step [OF kp_reachable.started [OF ex_started] kp_step.timer])
  show ?thesis
    using keypad_reachable_good [OF ex_tpl_env _ ex_pool_env r] r
    by (simp add: TPL_NOTIFY_def split_beta)
qed

text \<open>C20: reading a key returns.  Whatever the pins and the counter do, the read loop ends
  with the error status, with no key, or with a key made from a real key press.\<close>

theorem keypad_read_terminates:
  assumes "kp_inv w" and "keys_ready d"
  shows "\<exists>st ko d' w'. KeypadReadKeyStroke E (mInternalKeypadDevice bl) (d, w) = Some (st, ko, d', w')
     \<and> kp_inv w' \<and> keys_ready d'
     \<and> (case ko of None \<Rightarrow> st = (if KeypadErr (con w) then EFI_DEVICE_ERROR else EFI_NOT_READY)
        | Some ik \<Rightarrow> st = EFI_SUCCESS \<and> (\<exists>k. \<not> is_null_key k \<and> ik = ctrl_key k))"
  using kpd.read_key_total [OF assms, of E bl] unfolding read_result_ok_def by blast

theorem keypad_read_terminates_witness:
  "\<exists>st ko d' w'. KeypadReadKeyStroke ex_env (mInternalKeypadDevice ex_bitmaps) (ex_device, ex_world) = Some (st, ko, d', w')
     \<and> kp_inv w'"
proof -
  have "kp_inv ex_world" "keys_ready ex_device" by simp_all
  from keypad_read_terminates [OF this, of ex_env ex_bitmaps] show ?thesis by blast
qed

text \<open>The keys that one poll of the device hands to the driver: the device runs in the driver's world, and its callback notes
  each key beside handing it on.\<close>

definition note_key :: "EFI_KEY_DATA \<Rightarrow> kp_world \<times> EFI_KEY_DATA list \<Rightarrow> kp_world \<times> EFI_KEY_DATA list" where
  "note_key k = (\<lambda>(w, ks). (KeypadReturnApiPushEfikeyBufTail k w, ks @ [k]))"

definition note_pin :: "kp_env \<Rightarrow> u32 \<Rightarrow> kp_world \<times> EFI_KEY_DATA list \<Rightarrow> u32 \<times> kp_world \<times> EFI_KEY_DATA list" where
  "note_pin E a = (\<lambda>(w, ks). let (v, w') = MmioRead32 E a w in (v, w', ks))"

definition keys_polled :: "kp_env \<Rightarrow> 'b BitmapLib \<Rightarrow> 'b keypad_lib \<Rightarrow> kp_world \<Rightarrow> EFI_KEY_DATA list" where
  "keys_polled E bl d w =
     (let (v, w1) = GetPerformanceCounter E (snd (RaiseTPL E TPL_NOTIFY w));
          w2 = upd_con (\<lambda>c. c\<lparr>Last := v\<rparr>) w1
      in snd (snd (snd (KeypadDeviceImplGetKeys bl (note_pin E) note_key (eTimeInNanoSecond E (v - Last (con w1))) (d, w2, [])))))"

text \<open>The driver takes a null key only when a client has asked for partial keys.\<close>

definition takes_key :: "KEYPAD_CONSOLE_IN_DEV \<Rightarrow> EFI_KEY_DATA \<Rightarrow> bool" where
  "takes_key c k \<longleftrightarrow> \<not> is_null_key k \<or> IsSupportPartialKey c"

definition noted :: "kp_world \<Rightarrow> kp_world \<times> EFI_KEY_DATA list \<Rightarrow> bool" where
  "noted w0 = (\<lambda>(w, ks). kp_inv w \<and> IsSupportPartialKey (con w) = IsSupportPartialKey (con w0) \<and>
     queued w = take_last queue_cap (queued w0 @ filter (takes_key (con w0)) ks))"

lemma noted_key:
  assumes "noted w0 s"
  shows "noted w0 (note_key k s)"
proof -
  obtain w ks where s: "s = (w, ks)" by (cases s)
  note n = assms [unfolded s noted_def prod.case]
  show ?thesis
  proof (cases "takes_key (con w0) k")
    case True
    then have take: "\<not> (is_null_key k \<and> \<not> IsSupportPartialKey (con w))" using n by (auto simp: takes_key_def)
    then have "kp_inv (KeypadReturnApiPushEfikeyBufTail k w)"
      "queued (KeypadReturnApiPushEfikeyBufTail k w) = take_last queue_cap (queued w @ [k])"
      using n by (auto simp: push_key_con kp_inv_def kq.push_inv kq.push_all_inv kq.push_elems)
    then show ?thesis
      using n True take take_last_snoc [OF kq.cap_pos, of "queued w0 @ filter (takes_key (con w0)) ks" k]
      by (auto simp: s noted_def note_key_def push_key_con)
  next
    case False
    then show ?thesis using n by (auto simp: s noted_def note_key_def takes_key_def push_key_con kp_inv_def)
  qed
qed

lemma noted_pin: "noted w0 s \<Longrightarrow> noted w0 (snd (note_pin E a s))"
  by (cases s) (simp add: noted_def note_pin_def MmioRead32_def Let_def kp_inv_def)

text \<open>One poll appends exactly the keys that the device hands over and the driver takes.\<close>

lemma timer_queues:
  assumes "kp_inv w" and "\<not> KeypadErr (con w)"
  shows "queued (snd (KeypadTimerHandler E (mInternalKeypadDevice bl) (d, w))) =
    take_last queue_cap (queued w @ filter (takes_key (con w)) (keys_polled E bl d w))"
proof -
  let ?v = "fst (GetPerformanceCounter E (snd (RaiseTPL E TPL_NOTIFY w)))" and ?w1 = "snd (GetPerformanceCounter E (snd (RaiseTPL E TPL_NOTIFY w)))"
  let ?w2 = "upd_con (\<lambda>c. c\<lparr>Last := ?v\<rparr>) ?w1" and ?D = "eTimeInNanoSecond E (?v - Last (con ?w1))"
  let ?poll = "fold (poll_key bl (note_pin E) note_key ?D) KeyList (d, ?w2, [])"
  have keys: "keys_polled E bl d w = snd (snd ?poll)"
    by (simp add: keys_polled_def KeypadDeviceImplGetKeys_def Let_def split_beta)
  have "noted w (?w2, [])"
    using assms(1) by (simp add: noted_def kp_inv_def kq.bounded)
  then have "noted w (snd ?poll)"
    using fold_poll_keeps [where r = False and I = "noted w" and rd = "note_pin E" and push = note_key and ds = "(d, ?w2, [])"]
      noted_key noted_pin by simp
  then have q: "queued (fst (snd ?poll)) = take_last queue_cap (queued w @ filter (takes_key (con w)) (keys_polled E bl d w))"
    unfolding keys by (simp add: noted_def split_beta)
  have both: "fst (note_key k s) = KeypadReturnApiPushEfikeyBufTail k (fst s)"
    "MmioRead32 E a (fst s) = (fst (note_pin E a s), fst (snd (note_pin E a s)))" for k a s
    by (simp_all add: note_key_def note_pin_def Let_def split_beta)
  have "fold (poll_key bl (MmioRead32 E) KeypadReturnApiPushEfikeyBufTail ?D) KeyList (apsnd fst (d, ?w2, [] :: EFI_KEY_DATA list)) = apsnd fst ?poll"
    by (rule fold_poll_natural) (rule both)+
  then have "snd (KeypadTimerHandler E (mInternalKeypadDevice bl) (d, w)) = emit (cRestoreTPL (fst (RaiseTPL E TPL_NOTIFY w))) (fst (snd ?poll))"
    using assms(2) by (simp add: KeypadTimerHandler_def mInternalKeypadDevice_def KeypadDeviceImplGetKeys_def Let_def split_beta)
  then show ?thesis using q by simp
qed

text \<open>C18: the extended read polls the device: every key the device hands over (a null key only when partial keys are
  supported) is appended to the queue, in order, and the oldest keys beyond 255 are dropped; the read then hands out the oldest key,
  and reports an empty queue as not ready.\<close>

theorem keypad_read_ex_fifo:
  assumes "kp_inv w" and "\<not> KeypadErr (con w)"
  shows "let ks = filter (takes_key (con w)) (keys_polled E bl d (snd (RaiseTPL E TPL_NOTIFY w)));
             all = take_last 255 (queued w @ ks)
         in \<exists>d' w'. KeypadReadKeyStrokeEx E (mInternalKeypadDevice bl) False (d, w) =
              (if all = [] then EFI_NOT_READY else EFI_SUCCESS, if all = [] then None else Some (hd all), d', w') \<and>
            queued w' = tl all \<and> kp_inv w'"
proof (rule kpd.worker_spec [OF assms, of E bl d])
  fix ks d' w'
  let ?w1 = "snd (RaiseTPL E TPL_NOTIFY w)"
  assume run: "KeypadReadKeyStrokeWorker E (mInternalKeypadDevice bl) False (d, w) =
      (let all = take_last queue_cap (queued w @ ks)
       in (if all = [] then EFI_NOT_READY else EFI_SUCCESS, if all = [] then None else Some (hd all), d', w'))"
    and w': "kp_inv w'" "queued w' = tl (take_last queue_cap (queued w @ ks))"
    and q: "take_last queue_cap (queued w @ ks) = queued (snd (KeypadTimerHandler E (mInternalKeypadDevice bl) (d, ?w1)))"
  have "queued (snd (KeypadTimerHandler E (mInternalKeypadDevice bl) (d, ?w1))) =
      take_last queue_cap (queued w @ filter (takes_key (con w)) (keys_polled E bl d ?w1))"
    using timer_queues [of ?w1 E bl d] assms by (simp add: kp_inv_def)
  then show ?thesis
    using run w' unfolding q Let_def
    by (intro exI [of _ d'] exI [of _ w']) (simp add: KeypadReadKeyStrokeEx_def queue_cap_def KEYPAD_EFI_KEY_MAX_COUNT_def)
qed

text \<open>The volume-up key is down in the device and its pin now reads as released.\<close>

definition ex_pressed :: "(u16 \<Rightarrow> bool) keypad_lib" where
  "ex_pressed = ex_device\<lparr>KeyContextVolumeUp := (KeyContextVolumeUp ex_device)\<lparr>EfiKeyContext :=
     (EfiKeyContext (KeyContextVolumeUp ex_device))\<lparr>State := KEYSTATE_PRESSED\<rparr>\<rparr>\<rparr>"

theorem keypad_read_ex_fifo_witness:
  "\<exists>d' w'. KeypadReadKeyStrokeEx ex_env (mInternalKeypadDevice ex_bitmaps) False (ex_pressed, ex_world) =
     (EFI_SUCCESS, Some (scan_key SCAN_UP), d', w') \<and> queued w' = [] \<and> kp_inv w'"
proof -
  have "keys_polled ex_env ex_bitmaps ex_pressed (snd (RaiseTPL ex_env TPL_NOTIFY ex_world)) = [scan_key SCAN_UP]"
    by (simp add: keys_polled_def KeypadDeviceImplGetKeys_def KeyList_def poll_key_def LibKeyUpdateKeyStatus_def note_pin_def note_key_def
        MmioRead32_def ex_env_def ex_pressed_def ex_device_def KeypadDeviceImplReset_def reset_key_def LibKeyInitializeKeyContext_def
        scan_key_def Let_def split_beta) (simp add: null_key_def)
  then show ?thesis using keypad_read_ex_fifo [of ex_world ex_env ex_bitmaps ex_pressed]
    by (simp add: takes_key_def is_null_key_def scan_key_def scan_defs take_last_short)
qed

text \<open>Waiting for a key returns, and it signals the event exactly when the poll leaves a
  real key in the queue; leading null keys are dropped, the rest is kept.\<close>

theorem keypad_wait_signals:
  assumes "kp_inv w" and "\<not> KeypadErr (con w)"
  shows "\<exists>ks d' w'. let all = take_last 255 (queued w @ ks) in
     KeypadWaitForKey E (mInternalKeypadDevice bl) ev (d, w) = Some (d', w')
     \<and> queued w' = dropWhile is_null_key all \<and> kp_inv w'
     \<and> (\<exists>k \<in> set all. \<not> is_null_key k) = (last (butlast (log w')) = cSignalEvent (Some ev) \<and> queued w' \<noteq> [])"
proof -
  let ?w1 = "snd (RaiseTPL E TPL_NOTIFY w)"
  let ?r = "KeypadTimerHandler E (mInternalKeypadDevice bl) (d, ?w1)"
  have p: "polled False ?w1 (snd ?r)" by (rule kpd.timer_polled)
  have inv: "kp_inv (snd ?r)" and err: "\<not> KeypadErr (con (snd ?r))"
    using p assms same_but_queues_fields by (auto simp: polled_def kp_inv_def)
  obtain ks where ks: "queued (snd ?r) = take_last 255 (queued w @ ks)"
    using p assms(1) by (auto simp: polled_def kp_inv_def queue_cap_def KEYPAD_EFI_KEY_MAX_COUNT_def)
  have q: "key_queue_inv (EfiKeyQueue (con (snd ?r)))" using inv by (simp add: kp_inv_def)
  obtain q' where q': "drop_null_keys (EfiKeyQueue (con (snd ?r))) = Some (\<exists>k \<in> set (queued (snd ?r)). \<not> is_null_key k, q')"
    "key_queue_inv q'" "key_queue_keys q' = dropWhile is_null_key (queued (snd ?r))"
    using drop_null_keys_spec [OF q] by blast
  have left: "(\<exists>k \<in> set (queued (snd ?r)). \<not> is_null_key k) \<longleftrightarrow> dropWhile is_null_key (queued (snd ?r)) \<noteq> []"
    by (auto simp: dropWhile_eq_Nil_conv)
  let ?v = "upd_con (\<lambda>c. c\<lparr>EfiKeyQueue := q'\<rparr>) (snd ?r)"
  let ?x = "if \<exists>k \<in> set (queued (snd ?r)). \<not> is_null_key k then emit (cSignalEvent (Some ev)) ?v else ?v"
  let ?w' = "emit (cRestoreTPL (fst (RaiseTPL E TPL_NOTIFY w))) ?x"
  have run: "KeypadWaitForKey E (mInternalKeypadDevice bl) ev (d, w) = Some (fst ?r, ?w')"
    using err q'(1) by (simp add: KeypadWaitForKey_def Let_def split_beta)
  have state: "queued ?w' = dropWhile is_null_key (take_last 255 (queued w @ ks))" "kp_inv ?w'"
    using q' inv ks by (simp_all add: kp_inv_def)
  have signal: "(\<exists>k \<in> set (queued (snd ?r)). \<not> is_null_key k)
      = (last (butlast (log ?w')) = cSignalEvent (Some ev) \<and> queued ?w' \<noteq> [])"
    using left q'(3) by (simp add: butlast_append)
  show ?thesis
    using run state signal unfolding Let_def ks by blast
qed

theorem keypad_wait_signals_witness:
  "\<exists>ks d' w'. let all = take_last 255 (queued ex_world @ ks) in
     KeypadWaitForKey ex_env (mInternalKeypadDevice ex_bitmaps) 1 (ex_device, ex_world) = Some (d', w')
     \<and> queued w' = dropWhile is_null_key all \<and> kp_inv w'
     \<and> (\<exists>k \<in> set all. \<not> is_null_key k) = (last (butlast (log w')) = cSignalEvent (Some 1) \<and> queued w' \<noteq> [])"
  by (rule keypad_wait_signals) simp_all

lemma length_notify_calls [simp]:
  "length (notify_calls ns k) = length (filter (notify_matches k) ns)"
  by (simp add: notify_calls_def)

lemma push_key_log_calls:
  "filter is_call_notify (log (KeypadReturnApiPushEfikeyBufTail k w)) = filter is_call_notify (log w)"
proof -
  have "filter is_call_notify (log (push_notifications k ns w)) = filter is_call_notify (log w)" for ns
    by (induction ns arbitrary: w) (simp_all add: is_call_notify_def)
  then show ?thesis by (simp add: KeypadReturnApiPushEfikeyBufTail_def Let_def)
qed

text \<open>The notification event makes one round of callbacks for every queue entry, and a
  key is queued once for every registration it matches: with m matching registrations
  (and room in the queue) one key press makes m * m callbacks, not m.\<close>

theorem keypad_notify_squares:
  assumes "kp_inv w" and "queued_notify w = []" and "\<not> is_null_key k"
    and "m = length (filter (notify_matches k) (NotifyList (con w)))" and "m \<le> 255"
  shows "\<exists>w'. KeyNotifyProcessHandler E (KeypadReturnApiPushEfikeyBufTail k w) = Some w'
     \<and> queued_notify w' = []
     \<and> length (filter is_call_notify (log w')) = length (filter is_call_notify (log w)) + m * m"
proof -
  let ?w1 = "KeypadReturnApiPushEfikeyBufTail k w"
  let ?ns = "NotifyList (con w)"
  have q: "EfiKeyQueueForNotify (con ?w1) = foldl PushEfikeyBufTail (EfiKeyQueueForNotify (con w)) (replicate m k)"
    and ns: "NotifyList (con ?w1) = ?ns"
    using assms(3,4) by (simp_all add: push_key_con)
  have inv: "key_queue_inv (EfiKeyQueueForNotify (con w))" using assms(1) by (simp add: kp_inv_def)
  have inv1: "key_queue_inv (EfiKeyQueueForNotify (con ?w1))" unfolding q by (rule kq.push_all_inv [OF inv])
  have keys: "queued_notify ?w1 = replicate m k"
    using kq.push_all_elems [OF inv, of "replicate m k"] assms(2,5) unfolding q
    by (simp add: queue_cap_def KEYPAD_EFI_KEY_MAX_COUNT_def)
  have "length (concat (map g (replicate n k))) = n * length (g k)" for n and g :: "EFI_KEY_DATA \<Rightarrow> kp_call list"
    by (induction n) simp_all
  then have "length (concat (map (notify_calls ?ns) (replicate m k))) = m * m"
    using assms(4) by simp
  then show ?thesis
    using notify_handler_total [OF inv1, of E] keys ns push_key_log_calls [of k w] by auto
qed

theorem keypad_notify_squares_witness:
  "\<exists>w'. KeyNotifyProcessHandler ex_env (KeypadReturnApiPushEfikeyBufTail (scan_key SCAN_UP)
       (upd_con (\<lambda>c. c\<lparr>NotifyList := [\<lparr>NodeAddress = 1, NotifyKeyData = scan_key SCAN_UP, KeyNotificationFn = 7\<rparr>,
                                        \<lparr>NodeAddress = 2, NotifyKeyData = scan_key SCAN_UP, KeyNotificationFn = 8\<rparr>]\<rparr>) ex_world)) = Some w'
     \<and> queued_notify w' = [] \<and> length (filter is_call_notify (log w')) = 4"
  using keypad_notify_squares [of "upd_con (\<lambda>c. c\<lparr>NotifyList := [\<lparr>NodeAddress = 1, NotifyKeyData = scan_key SCAN_UP, KeyNotificationFn = 7\<rparr>,
        \<lparr>NodeAddress = 2, NotifyKeyData = scan_key SCAN_UP, KeyNotificationFn = 8\<rparr>]\<rparr>) ex_world" "scan_key SCAN_UP" 2 ex_env]
  by (simp add: kp_inv_def is_null_key_def scan_key_def scan_defs notify_matches_def IsKeyRegistered_def null_key_def)

text \<open>C38: registering a pair that is not yet registered and then unregistering the returned
  handle restores the notification list and the pool.\<close>

theorem keypad_register_unregister:
  assumes "pool_env E" and "nodes_ok w" and "find_registered k f (NotifyList (con w)) = None"
    and "KeypadRegisterKeyNotify E (Some k) (Some f) False w = (EFI_SUCCESS, h, w1)"
  shows "\<exists>w2. KeypadUnregisterKeyNotify E h w1 = (EFI_SUCCESS, w2)
     \<and> NotifyList (con w2) = NotifyList (con w) \<and> live_pool (log w2) = live_pool (log w)"
proof -
  let ?v = "snd (RaiseTPL E TPL_NOTIFY w)"
  obtain a where a: "eAllocateZeroPool E (log ?v) = Some a" "h = Some a"
      "NotifyList (con w1) = NotifyList (con w) @ [\<lparr>NodeAddress = a, NotifyKeyData = k, KeyNotificationFn = f\<rparr>]"
    using assms(3,4) by (auto simp: KeypadRegisterKeyNotify_def Let_def split_beta split: option.splits)
  have ok: "nodes_ok w1" using register_good [OF assms(4,1,2)] by simp
  have dist: "distinct (map NodeAddress (NotifyList (con w1)))"
    and live: "live_pool (log w1) = NodeAddress ` set (NotifyList (con w1))"
    using ok by (auto simp: nodes_ok_def)
  have new: "a \<notin> NodeAddress ` set (NotifyList (con w))" using dist a(3) by simp
  then have rest: "filter (\<lambda>n. NodeAddress n \<noteq> a) (NotifyList (con w)) = NotifyList (con w)"
    by (auto simp: filter_id_conv rev_image_eqI)
  have live1: "live_pool (log (snd (RaiseTPL E TPL_NOTIFY w1))) = live_pool (log w1)"
    by (rule live_quiet) simp
  have "live_pool (log w1) - {a} = live_pool (log w)"
    using live a(3) new assms(2) by (auto simp: nodes_ok_def)
  then show ?thesis
    using a rest dist live1
    by (simp add: KeypadUnregisterKeyNotify_def Let_def split_beta remove_node_spec live_step_def)
qed

theorem keypad_register_unregister_witness:
  "\<exists>h w1 w2. KeypadRegisterKeyNotify ex_env (Some (scan_key SCAN_UP)) (Some 7) False ex_world = (EFI_SUCCESS, h, w1)
     \<and> KeypadUnregisterKeyNotify ex_env h w1 = (EFI_SUCCESS, w2) \<and> NotifyList (con w2) = []"
proof -
  have none: "find_registered (scan_key SCAN_UP) 7 (NotifyList (con ex_world)) = None"
    by (simp add: find_registered_def)
  obtain h w1 where r: "KeypadRegisterKeyNotify ex_env (Some (scan_key SCAN_UP)) (Some 7) False ex_world = (EFI_SUCCESS, h, w1)"
    by (simp add: KeypadRegisterKeyNotify_def find_registered_def Let_def split_beta ex_env_def)
  from keypad_register_unregister [OF ex_pool_env _ none r] r show ?thesis by auto
qed

text \<open>Setting the toggle state, on every branch.  The locks form an else-if chain, so of
  the requested bits only the first of scroll, num, caps and exposed takes effect.\<close>

theorem keypad_set_state_cases:
  "fst (KeypadSetState E t w) = (case t of None \<Rightarrow> EFI_INVALID_PARAMETER
       | Some b \<Rightarrow> if KeypadErr (con w) then EFI_DEVICE_ERROR
                   else if bit b 7 then EFI_SUCCESS else EFI_UNSUPPORTED)
   \<and> con (snd (KeypadSetState E t w)) = (case t of None \<Rightarrow> con w
       | Some b \<Rightarrow> if KeypadErr (con w) then con w else if \<not> bit b 7 then con w
                   else (con w)\<lparr>ScrollLock := bit b 0, NumLock := \<not> bit b 0 \<and> bit b 1,
                                 CapsLock := \<not> bit b 0 \<and> \<not> bit b 1 \<and> bit b 2,
                                 IsSupportPartialKey := \<not> bit b 0 \<and> \<not> bit b 1 \<and> \<not> bit b 2 \<and> bit b 6\<rparr>)"
proof -
  have bits: "(b AND EFI_TOGGLE_STATE_VALID = EFI_TOGGLE_STATE_VALID) = bit b 7"
     "(b AND EFI_SCROLL_LOCK_ACTIVE = EFI_SCROLL_LOCK_ACTIVE) = bit b 0"
     "(b AND EFI_NUM_LOCK_ACTIVE = EFI_NUM_LOCK_ACTIVE) = bit b 1"
     "(b AND EFI_CAPS_LOCK_ACTIVE = EFI_CAPS_LOCK_ACTIVE) = bit b 2"
     "(b AND EFI_KEY_STATE_EXPOSED = EFI_KEY_STATE_EXPOSED) = bit b 6" for b :: u8
    using word_and_exp_eq [of 7 b] word_and_exp_eq [of 0 b] word_and_exp_eq [of 1 b]
      word_and_exp_eq [of 2 b] word_and_exp_eq [of 6 b]
    by (simp_all add: toggle_defs)
  show ?thesis
    by (cases t) (simp_all add: KeypadSetState_def Let_def split_beta bits)
qed

end
