(* ===== verification/KeypadBinding.thy ===== *)
theory KeypadBinding
  imports KeypadCorrect
begin

text \<open>
  The driver binding of the keypad driver (\<open>Drivers/KeypadDxe/Keypad.c\<close>): testing, starting
  and stopping the driver on a controller.  A start that would dereference the NULL device
  pointer is the value \<open>Inl NullDereference\<close>.  The answers of the boot services come from
  the environment; an event whose creation failed stays NULL, as the zeroed pool left it.
\<close>

datatype kp_fault = NullDereference

definition call_OpenProtocol :: "kp_env \<Rightarrow> guid \<Rightarrow> open_attr \<Rightarrow> kp_world \<Rightarrow> efi_status \<times> kp_world" where
  "call_OpenProtocol E g a w = (let st = eOpenProtocol E (log w) g a in (st, emit (cOpenProtocol g a st) w))"

definition KeypadControllerDriverSupported :: "kp_env \<Rightarrow> kp_world \<Rightarrow> efi_status \<times> kp_world" where
  "KeypadControllerDriverSupported E w =
     (let (Status, w1) = call_OpenProtocol E gExynosKeypadDeviceProtocolGuid OPEN_BY_DRIVER w
      in if EFI_ERROR Status then (Status, w1)
         else (Status, emit (cCloseProtocol gExynosKeypadDeviceProtocolGuid) w1))"

text \<open>\<open>KbdFreeNotifyList\<close> on a list head that is not NULL: unlink and free every node.\<close>

fun free_nodes :: "KEYPAD_CONSOLE_IN_EX_NOTIFY list \<Rightarrow> kp_world \<Rightarrow> kp_world" where
  "free_nodes [] w = w"
| "free_nodes (n # ns) w = free_nodes ns (emit (cFreePool (NodeAddress n)) (upd_con (\<lambda>c. c\<lparr>NotifyList := ns\<rparr>) w))"

definition KbdFreeNotifyList :: "kp_world \<Rightarrow> efi_status \<times> kp_world" where
  "KbdFreeNotifyList w = (EFI_SUCCESS, free_nodes (NotifyList (con w)) w)"

text \<open>The zeroed device structure after the field assignments of the start routine.\<close>

definition zero_queue :: EFI_KEY_QUEUE where
  "zero_queue = \<lparr>Buffer = replicate KEYPAD_EFI_KEY_MAX_COUNT null_key, Head = 0, Tail = 0\<rparr>"

definition fresh_console :: KEYPAD_CONSOLE_IN_DEV where
  "fresh_console = \<lparr>ConIn_WaitForKey = None, ConInEx_WaitForKeyEx = None, TimerEvent = None, Last = - 1,
     LeftCtrl = False, RightCtrl = False, LeftAlt = False, RightAlt = False, LeftShift = False,
     RightShift = False, LeftLogo = False, RightLogo = False, Menu = False, SysReq = False,
     CapsLock = False, NumLock = False, ScrollLock = False, IsSupportPartialKey = False,
     EfiKeyQueue = zero_queue, EfiKeyQueueForNotify = zero_queue, KeypadErr = False,
     ControllerNameTable = False, NotifyList = [], KeyNotifyProcessEvent = None\<rparr>"

text \<open>\<open>CreateEvent\<close>, storing the handle in the device on success.\<close>

definition call_CreateEvent ::
  "kp_env \<Rightarrow> kp_handler \<Rightarrow> (efi_event option \<Rightarrow> KEYPAD_CONSOLE_IN_DEV \<Rightarrow> KEYPAD_CONSOLE_IN_DEV) \<Rightarrow>
   kp_world \<Rightarrow> efi_status \<times> kp_world" where
  "call_CreateEvent E h store w =
     (let (st, ev) = eCreateEvent E (log w) h;
          w1 = emit (cCreateEvent h st ev) w
      in (st, if EFI_ERROR st then w1 else upd_con (store (Some ev)) w1))"

definition call_SetTimer :: "kp_env \<Rightarrow> kp_world \<Rightarrow> efi_status \<times> kp_world" where
  "call_SetTimer E w = (let st = eSetTimer E (log w) in (st, emit (cSetTimer (TimerEvent (con w)) st) w))"

definition close_event :: "efi_event option \<Rightarrow> kp_world \<Rightarrow> kp_world" where
  "close_event e w = (case e of None \<Rightarrow> w | Some ev \<Rightarrow> emit (cCloseEvent ev) w)"

text \<open>The \<open>exit\<close> label of the start routine: an else-if chain closes at most one event, and
  the device is freed only when there is no name table.\<close>

definition start_exit ::
  "ptr option \<Rightarrow> efi_status \<Rightarrow> 'd \<times> kp_world \<Rightarrow> kp_fault + (efi_status \<times> 'd \<times> kp_world)" where
  "start_exit ConsoleIn Status = (\<lambda>(d, w).
     case ConsoleIn of
       None \<Rightarrow> Inl NullDereference
     | Some p \<Rightarrow>
         let w1 = (if ConIn_WaitForKey (con w) \<noteq> None then close_event (ConIn_WaitForKey (con w)) w
                   else if TimerEvent (con w) \<noteq> None then close_event (TimerEvent (con w)) w
                   else if ConInEx_WaitForKeyEx (con w) \<noteq> None then close_event (ConInEx_WaitForKeyEx (con w)) w
                   else if KeyNotifyProcessEvent (con w) \<noteq> None then close_event (KeyNotifyProcessEvent (con w)) w
                   else w);
             (_, w2) = KbdFreeNotifyList w1;
             w3 = (if ControllerNameTable (con w2) then emit cFreeUnicodeStringTable w2
                   else emit (cFreePool p) w2);
             w4 = emit (cCloseProtocol gExynosKeypadDeviceProtocolGuid) w3
         in Inr (Status, d, w4))"

definition KeypadControllerDriverStart ::
  "kp_env \<Rightarrow> 'd kp_device \<Rightarrow> 'd \<times> kp_world \<Rightarrow> kp_fault + (efi_status \<times> 'd \<times> kp_world)" where
  "KeypadControllerDriverStart E P = (\<lambda>(d, w).
     let (Status, w1) = call_OpenProtocol E gExynosKeypadDeviceProtocolGuid OPEN_BY_DRIVER w
     in if EFI_ERROR Status then Inr (Status, d, w1)
     else let ConsoleIn = eAllocateZeroPool E (log w1);
              w2 = emit (cAllocateZeroPool ConsoleIn) w1
     in if ConsoleIn = None then start_exit ConsoleIn EFI_OUT_OF_RESOURCES (d, w2)
     else let w3 = upd_con (\<lambda>_. fresh_console) w2;
              (Status, w4) = call_CreateEvent E KeypadWaitForKeyH (\<lambda>e c. c\<lparr>ConIn_WaitForKey := e\<rparr>) w3
     in if EFI_ERROR Status then start_exit ConsoleIn EFI_OUT_OF_RESOURCES (d, w4)
     else let (Status, w5) = call_CreateEvent E KeypadWaitForKeyExH (\<lambda>e c. c\<lparr>ConInEx_WaitForKeyEx := e\<rparr>) w4
     in if EFI_ERROR Status then start_exit ConsoleIn EFI_OUT_OF_RESOURCES (d, w5)
     else let (Status, w6) = call_CreateEvent E KeypadTimerHandlerH (\<lambda>e c. c\<lparr>TimerEvent := e\<rparr>) w5
     in if EFI_ERROR Status then start_exit ConsoleIn EFI_OUT_OF_RESOURCES (d, w6)
     else let (Status, w7) = call_SetTimer E w6
     in if EFI_ERROR Status then start_exit ConsoleIn EFI_OUT_OF_RESOURCES (d, w7)
     else let (Status, w8) = call_CreateEvent E KeyNotifyProcessHandlerH (\<lambda>e c. c\<lparr>KeyNotifyProcessEvent := e\<rparr>) w7
     in if EFI_ERROR Status then start_exit ConsoleIn EFI_OUT_OF_RESOURCES (d, w8)
     else let (Status, d', w9) = KeypadEfiResetEx E P False (d, w8)
     in if EFI_ERROR Status then start_exit ConsoleIn EFI_DEVICE_ERROR (d', w9)
     else let w10 = upd_con (\<lambda>c. c\<lparr>ControllerNameTable := eAddUnicodeStrings E (log w9)\<rparr>) (emit cAddUnicodeStrings w9);
              Status = eInstallProtocols E (log w10);
              w11 = emit (cInstallProtocols Status) w10
     in if EFI_ERROR Status then start_exit ConsoleIn Status (d', w11)
     else Inr (Status, d', w11))"

text \<open>Stopping: the device structure at address \<open>p\<close> is freed last, so its fields are gone.\<close>

definition KeypadControllerDriverStop :: "kp_env \<Rightarrow> ptr \<Rightarrow> kp_world \<Rightarrow> efi_status \<times> kp_world" where
  "KeypadControllerDriverStop E p w =
     (let (Status, w1) = call_OpenProtocol E gEfiSimpleTextInProtocolGuid OPEN_GET_PROTOCOL w
      in if EFI_ERROR Status then (Status, w1)
      else let (Status, w2) = call_OpenProtocol E gEfiSimpleTextInputExProtocolGuid OPEN_TEST_PROTOCOL w1
      in if EFI_ERROR Status then (Status, w2)
      else let w3 = (if TimerEvent (con w2) \<noteq> None
                     then upd_con (\<lambda>c. c\<lparr>TimerEvent := None\<rparr>) (close_event (TimerEvent (con w2)) w2) else w2);
               Status = eUninstallProtocols E (log w3);
               w4 = emit (cUninstallProtocols Status) w3
      in if EFI_ERROR Status then (Status, w4)
      else let w5 = emit (cCloseProtocol gExynosKeypadDeviceProtocolGuid) w4;
               w6 = (if ConIn_WaitForKey (con w5) \<noteq> None
                     then upd_con (\<lambda>c. c\<lparr>ConIn_WaitForKey := None\<rparr>) (close_event (ConIn_WaitForKey (con w5)) w5)
                     else if ConInEx_WaitForKeyEx (con w5) \<noteq> None
                     then upd_con (\<lambda>c. c\<lparr>ConInEx_WaitForKeyEx := None\<rparr>) (close_event (ConInEx_WaitForKeyEx (con w5)) w5)
                     else if KeyNotifyProcessEvent (con w5) \<noteq> None
                     then upd_con (\<lambda>c. c\<lparr>KeyNotifyProcessEvent := None\<rparr>) (close_event (KeyNotifyProcessEvent (con w5)) w5)
                     else w5);
               (_, w7) = KbdFreeNotifyList w6;
               w8 = emit cFreeUnicodeStringTable w7;
               w9 = emit (cFreePool p) w8
      in (EFI_SUCCESS, w9))"

section \<open>Facts about the pieces\<close>

lemma free_nodes_eq:
  "free_nodes ns w = (if ns = [] then w
     else w\<lparr>con := (con w)\<lparr>NotifyList := []\<rparr>, log := log w @ map (\<lambda>n. cFreePool (NodeAddress n)) ns\<rparr>)"
  by (induction ns arbitrary: w) (auto simp: emit_def upd_con_def)

lemma create_event_cases:
  obtains st ev where "eCreateEvent E (log w) h = (st, ev)"
    "call_CreateEvent E h store w =
       (st, if EFI_ERROR st then emit (cCreateEvent h st ev) w
            else upd_con (store (Some ev)) (emit (cCreateEvent h st ev) w))"
  by (cases "eCreateEvent E (log w) h") (simp add: call_CreateEvent_def)

lemma zero_queue_facts [simp]: "key_queue_inv zero_queue" "key_queue_keys zero_queue = []"
  by (simp_all add: key_queue_inv_def key_queue_keys_def zero_queue_def ring_dist_def KEYPAD_EFI_KEY_MAX_COUNT_def)

lemma start_exit_some:
  "start_exit (Some p) st (d, w) = Inr (st', d', w') \<Longrightarrow>
   st' = st \<and> d' = d \<and> last (log w') = cCloseProtocol gExynosKeypadDeviceProtocolGuid"
  by (auto simp: start_exit_def Let_def split_beta)

lemma start_exit_not_success:
  "start_exit p st s = Inr (st', s') \<Longrightarrow> st' = st"
  by (cases s; cases p) (auto simp: start_exit_def Let_def split_beta)

lemma create_event_con:
  "\<not> EFI_ERROR (fst (call_CreateEvent E h store w)) \<Longrightarrow>
   \<exists>ev. con (snd (call_CreateEvent E h store w)) = store (Some ev) (con w)"
  by (rule create_event_cases [of E w h store]) auto

lemma set_timer_con [simp]: "con (snd (call_SetTimer E w)) = con w"
  by (simp add: call_SetTimer_def Let_def)

lemma open_con [simp]: "con (snd (call_OpenProtocol E g a w)) = con w"
  by (simp add: call_OpenProtocol_def Let_def)

section \<open>Properties\<close>

text \<open>C39: a start that succeeds leaves the driver ready to run: the device has been reset, all
  four events exist, both queues are empty rings, nothing is registered and no error is
  pending.\<close>

theorem keypad_start_ready:
  assumes "KeypadControllerDriverStart E (mInternalKeypadDevice bl) (d, w) = Inr (EFI_SUCCESS, d', w')"
  shows "keys_ready d' \<and> kp_inv w' \<and> queued w' = [] \<and> queued_notify w' = [] \<and> NotifyList (con w') = []
    \<and> \<not> KeypadErr (con w') \<and> ConIn_WaitForKey (con w') \<noteq> None \<and> ConInEx_WaitForKeyEx (con w') \<noteq> None
    \<and> TimerEvent (con w') \<noteq> None \<and> KeyNotifyProcessEvent (con w') \<noteq> None"
proof -
  let ?P = "mInternalKeypadDevice bl"
  define w1 where "w1 = snd (call_OpenProtocol E gExynosKeypadDeviceProtocolGuid OPEN_BY_DRIVER w)"
  define w3 where "w3 = upd_con (\<lambda>_. fresh_console) (emit (cAllocateZeroPool (eAllocateZeroPool E (log w1))) w1)"
  define r4 where "r4 = call_CreateEvent E KeypadWaitForKeyH (\<lambda>e c. c\<lparr>ConIn_WaitForKey := e\<rparr>) w3"
  define r5 where "r5 = call_CreateEvent E KeypadWaitForKeyExH (\<lambda>e c. c\<lparr>ConInEx_WaitForKeyEx := e\<rparr>) (snd r4)"
  define r6 where "r6 = call_CreateEvent E KeypadTimerHandlerH (\<lambda>e c. c\<lparr>TimerEvent := e\<rparr>) (snd r5)"
  define r7 where "r7 = call_SetTimer E (snd r6)"
  define r8 where "r8 = call_CreateEvent E KeyNotifyProcessHandlerH (\<lambda>e c. c\<lparr>KeyNotifyProcessEvent := e\<rparr>) (snd r7)"
  define r9 where "r9 = KeypadEfiResetEx E ?P False (d, snd r8)"
  note defs = w1_def [symmetric] w3_def [symmetric] r4_def [symmetric] r5_def [symmetric] r6_def [symmetric]
    r7_def [symmetric] r8_def [symmetric] r9_def [symmetric]
  have ok: "\<not> EFI_ERROR (fst r4)" "\<not> EFI_ERROR (fst r5)" "\<not> EFI_ERROR (fst r6)" "\<not> EFI_ERROR (fst r8)"
    "\<not> EFI_ERROR (fst r9)" and d': "d' = fst (snd r9)"
    and w': "\<exists>f. con w' = ControllerNameTable_update f (con (snd (snd r9)))"
    using assms unfolding KeypadControllerDriverStart_def Let_def
    by (auto simp: split_beta defs EFI_ERROR_def split: if_splits dest!: start_exit_not_success intro!: exI)
  obtain e4 where c4: "con (snd r4) = fresh_console\<lparr>ConIn_WaitForKey := Some e4\<rparr>"
    using create_event_con [OF ok(1) [unfolded r4_def]] by (auto simp: r4_def w3_def)
  obtain e5 where c5: "con (snd r5) = (con (snd r4))\<lparr>ConInEx_WaitForKeyEx := Some e5\<rparr>"
    using create_event_con [OF ok(2) [unfolded r5_def]] by (auto simp: r5_def)
  obtain e6 where c6: "con (snd r6) = (con (snd r5))\<lparr>TimerEvent := Some e6\<rparr>"
    using create_event_con [OF ok(3) [unfolded r6_def]] by (auto simp: r6_def)
  obtain e8 where c8: "con (snd r8) = (con (snd r6))\<lparr>KeyNotifyProcessEvent := Some e8\<rparr>"
    using create_event_con [OF ok(4) [unfolded r8_def]] by (auto simp: r8_def r7_def)
  have con8: "con (snd r8) = fresh_console\<lparr>ConIn_WaitForKey := Some e4, ConInEx_WaitForKeyEx := Some e5,
      TimerEvent := Some e6, KeyNotifyProcessEvent := Some e8\<rparr>"
    by (simp add: c8 c6 c5 c4)
  have "kp_inv (snd r8)" "\<not> KeypadErr (con (snd r8))" by (simp_all add: con8 kp_inv_def fresh_console_def)
  then have "keys_ready (fst (snd r9)) \<and> kp_inv (snd (snd r9)) \<and> queued (snd (snd r9)) = []
      \<and> queued_notify (snd (snd r9)) = [] \<and> NotifyList (con (snd (snd r9))) = [] \<and> \<not> KeypadErr (con (snd (snd r9)))
      \<and> ConIn_WaitForKey (con (snd (snd r9))) = Some e4 \<and> ConInEx_WaitForKeyEx (con (snd (snd r9))) = Some e5
      \<and> TimerEvent (con (snd (snd r9))) = Some e6 \<and> KeyNotifyProcessEvent (con (snd (snd r9))) = Some e8"
    using kdev.reset_ready
    by (simp add: r9_def KeypadEfiResetEx_def KeypadEfiReset_def InitKeypad_def Let_def split_beta con8 kp_inv_def
        fresh_console_def key_queue_inv_def key_queue_keys_def ring_dist_def)
  then show ?thesis using d' w' by (auto simp: kp_inv_def)
qed

theorem keypad_start_ready_witness:
  "\<exists>d' w'. KeypadControllerDriverStart ex_env (mInternalKeypadDevice ex_bitmaps) (ex_device, ex_world) = Inr (EFI_SUCCESS, d', w')
     \<and> keys_ready d' \<and> kp_inv w' \<and> queued w' = []"
proof -
  have "\<exists>d' w'. KeypadControllerDriverStart ex_env (mInternalKeypadDevice ex_bitmaps) (ex_device, ex_world) = Inr (EFI_SUCCESS, d', w')"
    by (simp add: KeypadControllerDriverStart_def Let_def split_beta call_OpenProtocol_def call_CreateEvent_def
        call_SetTimer_def ex_env_def KeypadEfiResetEx_def KeypadEfiReset_def InitKeypad_def fresh_console_def)
  then show ?thesis using keypad_start_ready by blast
qed

text \<open>When the device structure cannot be allocated, the start routine jumps to its exit
  label with a NULL device and takes the address of its notification list there.\<close>

theorem keypad_start_null_dereference:
  assumes "\<And>l. eOpenProtocol E l gExynosKeypadDeviceProtocolGuid OPEN_BY_DRIVER = EFI_SUCCESS"
    and "\<And>l. eAllocateZeroPool E l = None"
  shows "KeypadControllerDriverStart E P (d, w) = Inl NullDereference"
  by (simp add: KeypadControllerDriverStart_def call_OpenProtocol_def assms Let_def start_exit_def)

theorem keypad_start_null_dereference_witness:
  "KeypadControllerDriverStart (ex_env\<lparr>eAllocateZeroPool := \<lambda>_. None\<rparr>) (mInternalKeypadDevice ex_bitmaps) (ex_device, ex_world)
     = Inl NullDereference"
  by (rule keypad_start_null_dereference) (simp_all add: ex_env_def)

text \<open>When creating the notification event fails, the start routine frees the device
  structure but leaves the periodic timer armed on it: its event is never closed.\<close>

theorem keypad_start_leaves_timer:
  assumes "\<And>l. eOpenProtocol E l gExynosKeypadDeviceProtocolGuid OPEN_BY_DRIVER = EFI_SUCCESS"
    and "\<And>l. eAllocateZeroPool E l = Some p" and "\<And>l. eSetTimer E l = EFI_SUCCESS"
    and "\<And>l. eCreateEvent E l KeypadWaitForKeyH = (EFI_SUCCESS, e1)"
    and "\<And>l. eCreateEvent E l KeypadWaitForKeyExH = (EFI_SUCCESS, e2)"
    and "\<And>l. eCreateEvent E l KeypadTimerHandlerH = (EFI_SUCCESS, e3)"
    and "\<And>l. eCreateEvent E l KeyNotifyProcessHandlerH = (EFI_OUT_OF_RESOURCES, e4)"
    and "e1 \<noteq> e3" and "cCloseEvent e3 \<notin> set (log w)"
  shows "\<exists>w'. KeypadControllerDriverStart E P (d, w) = Inr (EFI_OUT_OF_RESOURCES, d, w')
     \<and> cSetTimer (Some e3) EFI_SUCCESS \<in> set (log w') \<and> cFreePool p \<in> set (log w')
     \<and> cCloseEvent e3 \<notin> set (log w')"
  using assms(8,9)
  by (simp add: KeypadControllerDriverStart_def call_OpenProtocol_def call_CreateEvent_def call_SetTimer_def
      assms(1-7) EFI_ERROR_def Let_def start_exit_def fresh_console_def close_event_def KbdFreeNotifyList_def)

theorem keypad_start_leaves_timer_witness:
  "\<exists>w'. KeypadControllerDriverStart (ex_env\<lparr>eAllocateZeroPool := \<lambda>_. Some 64,
         eCreateEvent := \<lambda>_ h. case h of KeypadWaitForKeyH \<Rightarrow> (EFI_SUCCESS, 1) | KeypadWaitForKeyExH \<Rightarrow> (EFI_SUCCESS, 2)
           | KeypadTimerHandlerH \<Rightarrow> (EFI_SUCCESS, 3) | KeyNotifyProcessHandlerH \<Rightarrow> (EFI_OUT_OF_RESOURCES, 0)\<rparr>)
       (mInternalKeypadDevice ex_bitmaps) (ex_device, ex_world) = Inr (EFI_OUT_OF_RESOURCES, ex_device, w')
     \<and> cSetTimer (Some 3) EFI_SUCCESS \<in> set (log w') \<and> cFreePool 64 \<in> set (log w')
     \<and> cCloseEvent 3 \<notin> set (log w')"
  by (rule keypad_start_leaves_timer [of _ 64 1 2 3 0]) (simp_all add: ex_env_def)

text \<open>A start that fails after opening the keypad protocol ends by closing it again.\<close>

theorem keypad_start_failure_closes:
  assumes "KeypadControllerDriverStart E P (d, w) = Inr (st, d', w')" and "EFI_ERROR st"
    and "eOpenProtocol E (log w) gExynosKeypadDeviceProtocolGuid OPEN_BY_DRIVER = EFI_SUCCESS"
  shows "last (log w') = cCloseProtocol gExynosKeypadDeviceProtocolGuid"
proof -
  have exit: "start_exit p s0 s = Inr (st, d', w') \<Longrightarrow> last (log w') = cCloseProtocol gExynosKeypadDeviceProtocolGuid"
    for p s0 and s :: "'a \<times> kp_world"
    by (cases p; cases s) (auto simp: start_exit_some start_exit_def [of None])
  show ?thesis
    using assms
    by (auto simp: KeypadControllerDriverStart_def call_OpenProtocol_def Let_def split_beta
        split: if_splits dest!: exit)
qed

theorem keypad_start_failure_closes_witness:
  "\<exists>st d' w'. KeypadControllerDriverStart (ex_env\<lparr>eSetTimer := \<lambda>_. EFI_UNSUPPORTED\<rparr>) (mInternalKeypadDevice ex_bitmaps) (ex_device, ex_world)
      = Inr (st, d', w') \<and> last (log w') = cCloseProtocol gExynosKeypadDeviceProtocolGuid"
proof -
  have o: "eOpenProtocol (ex_env\<lparr>eSetTimer := \<lambda>_. EFI_UNSUPPORTED\<rparr>) (log ex_world) gExynosKeypadDeviceProtocolGuid OPEN_BY_DRIVER = EFI_SUCCESS"
    by (simp add: ex_env_def)
  have "\<exists>w'. KeypadControllerDriverStart (ex_env\<lparr>eSetTimer := \<lambda>_. EFI_UNSUPPORTED\<rparr>) (mInternalKeypadDevice ex_bitmaps) (ex_device, ex_world)
      = Inr (EFI_OUT_OF_RESOURCES, ex_device, w')"
    by (simp add: KeypadControllerDriverStart_def Let_def split_beta call_OpenProtocol_def call_CreateEvent_def
        call_SetTimer_def ex_env_def EFI_ERROR_def start_exit_def)
  then show ?thesis
    using keypad_start_failure_closes [OF _ _ o] by (metis EFI_ERROR_iff efi_status.distinct(15))
qed

text \<open>Stopping closes the timer and one of the three remaining events, then frees the
  device; with all events present the extended wait event and the notification event,
  whose context is the freed device, stay open.\<close>

theorem keypad_stop_leaves_events:
  assumes "\<And>l g a. eOpenProtocol E l g a = EFI_SUCCESS" and "\<And>l. eUninstallProtocols E l = EFI_SUCCESS"
    and "TimerEvent (con w) = Some t" and "ConIn_WaitForKey (con w) = Some e1"
    and "ConInEx_WaitForKeyEx (con w) = Some e2" and "KeyNotifyProcessEvent (con w) = Some e3"
    and "distinct [t, e1, e2, e3]" and "NotifyList (con w) = []"
  shows "\<exists>w' cs. KeypadControllerDriverStop E p w = (EFI_SUCCESS, w') \<and> log w' = log w @ cs
     \<and> cCloseEvent t \<in> set cs \<and> cCloseEvent e1 \<in> set cs \<and> last cs = cFreePool p
     \<and> cCloseEvent e2 \<notin> set cs \<and> cCloseEvent e3 \<notin> set cs"
  using assms(3-)
  by (simp add: KeypadControllerDriverStop_def call_OpenProtocol_def assms(1,2) Let_def close_event_def
      KbdFreeNotifyList_def)

theorem keypad_stop_leaves_events_witness:
  "\<exists>w' cs. KeypadControllerDriverStop ex_env 64 ex_world = (EFI_SUCCESS, w') \<and> log w' = log ex_world @ cs
     \<and> cCloseEvent 3 \<in> set cs \<and> cCloseEvent 1 \<in> set cs \<and> last cs = cFreePool 64
     \<and> cCloseEvent 2 \<notin> set cs \<and> cCloseEvent 4 \<notin> set cs"
  by (rule keypad_stop_leaves_events) (simp_all add: ex_env_def ex_con_def)

end
