(* ===== verification/Memory.thy ===== *)
theory Memory
  imports Prelude
begin

text \<open>
  Byte-addressed memory for the drivers that move pixels and characters: a map from
  addresses to bytes, the block operations of the UEFI base memory library (\<open>CopyMem\<close>,
  which allows overlap, and the \<open>SetMem\<close> family), and little-endian 32-bit accesses.
  Addresses and \<open>UINTN\<close> values are natural numbers; \<open>wrap\<close> writes out the 64-bit
  wrap-around of an arithmetic expression.
\<close>

type_synonym mem = "nat \<Rightarrow> u8"

definition wrap :: "nat \<Rightarrow> nat" where
  "wrap x = x mod 2 ^ 64"

definition wrap32 :: "nat \<Rightarrow> nat" where
  "wrap32 x = x mod 2 ^ 32"

lemma wrap_small [simp]: "x < 2 ^ 64 \<Longrightarrow> wrap x = x"
  by (simp add: wrap_def)

lemma wrap32_small [simp]: "x < 2 ^ 32 \<Longrightarrow> wrap32 x = x"
  by (simp add: wrap32_def)

lemma wrap_bound [simp]: "wrap x < 2 ^ 64"
  by (simp add: wrap_def)

section \<open>Block operations\<close>

definition CopyMem :: "nat \<Rightarrow> nat \<Rightarrow> nat \<Rightarrow> mem \<Rightarrow> mem" where
  "CopyMem d s n m = (\<lambda>a. if d \<le> a \<and> a < d + n then m (s + (a - d)) else m a)"

definition SetMem :: "nat \<Rightarrow> nat \<Rightarrow> u8 \<Rightarrow> mem \<Rightarrow> mem" where
  "SetMem d n v m = (\<lambda>a. if d \<le> a \<and> a < d + n then v else m a)"

text \<open>\<open>SetMem32\<close> and \<open>SetMem64\<close> write a repeated pattern, here a list of 4 or 8 bytes; the
  length is a multiple of the pattern's.\<close>

definition SetMemPattern :: "nat \<Rightarrow> nat \<Rightarrow> u8 list \<Rightarrow> mem \<Rightarrow> mem" where
  "SetMemPattern d n p m = (\<lambda>a. if d \<le> a \<and> a < d + n then p ! ((a - d) mod length p) else m a)"

text \<open>Storing a list of bytes.\<close>

definition store_bytes :: "nat \<Rightarrow> u8 list \<Rightarrow> mem \<Rightarrow> mem" where
  "store_bytes d bs m = (\<lambda>a. if d \<le> a \<and> a < d + length bs then bs ! (a - d) else m a)"

named_theorems mem_simps \<open>reading memory after a block operation\<close>

lemma CopyMem_at [mem_simps]:
  "CopyMem d s n m a = (if d \<le> a \<and> a < d + n then m (s + (a - d)) else m a)"
  by (simp add: CopyMem_def)

lemma SetMem_at [mem_simps]: "SetMem d n v m a = (if d \<le> a \<and> a < d + n then v else m a)"
  by (simp add: SetMem_def)

lemma SetMemPattern_at [mem_simps]:
  "SetMemPattern d n p m a = (if d \<le> a \<and> a < d + n then p ! ((a - d) mod length p) else m a)"
  by (simp add: SetMemPattern_def)

lemma store_bytes_at [mem_simps]:
  "store_bytes d bs m a = (if d \<le> a \<and> a < d + length bs then bs ! (a - d) else m a)"
  by (simp add: store_bytes_def)

lemma CopyMem_0 [simp]: "CopyMem d s 0 m = m"
  by (rule ext) (auto simp: CopyMem_def)

section \<open>Little-endian words\<close>

definition byte_of :: "u32 \<Rightarrow> nat \<Rightarrow> u8" where
  "byte_of v k = ucast (drop_bit (8 * k) v)"

definition bytes32 :: "u32 \<Rightarrow> u8 list" where
  "bytes32 v = map (byte_of v) [0..<4]"

definition read32 :: "mem \<Rightarrow> nat \<Rightarrow> u32" where
  "read32 m a = ucast (m a) OR push_bit 8 (ucast (m (a + 1))) OR push_bit 16 (ucast (m (a + 2)))
                OR push_bit 24 (ucast (m (a + 3)))"

definition write32 :: "nat \<Rightarrow> u32 \<Rightarrow> mem \<Rightarrow> mem" where
  "write32 a v m = store_bytes a (bytes32 v) m"

lemma length_bytes32 [simp]: "length (bytes32 v) = 4"
  by (simp add: bytes32_def)

lemma nth_bytes32 [simp]: "k < 4 \<Longrightarrow> bytes32 v ! k = byte_of v k"
  by (simp add: bytes32_def)

lemma bit_byte_of: "bit (byte_of v k) j \<longleftrightarrow> j < 8 \<and> bit v (8 * k + j)"
  by (auto simp: byte_of_def bit_simps)

lemma write32_at [mem_simps]:
  "write32 d v m a = (if d \<le> a \<and> a < d + 4 then byte_of v (a - d) else m a)"
  by (auto simp: write32_def store_bytes_at)

lemma bit_read32:
  "bit (read32 m a) n \<longleftrightarrow> n < 32 \<and> bit (m (a + n div 8)) (n mod 8)"
proof (cases "n < 32")
  case True
  then consider "n < 8" | "8 \<le> n" "n < 16" | "16 \<le> n" "n < 24" | "24 \<le> n" "n < 32" by linarith
  then show ?thesis
  proof cases
    case 1
    then show ?thesis by (auto simp: read32_def bit_simps dest: bit_imp_le_length)
  next
    case 2
    then have "n div 8 = 1" "n mod 8 = n - 8" by presburger+
    then show ?thesis using 2 by (auto simp: read32_def bit_simps dest: bit_imp_le_length)
  next
    case 3
    then have "n div 8 = 2" "n mod 8 = n - 16" by presburger+
    then show ?thesis using 3 by (auto simp: read32_def bit_simps dest: bit_imp_le_length)
  next
    case 4
    then have "n div 8 = 3" "n mod 8 = n - 24" by presburger+
    then show ?thesis using 4 by (auto simp: read32_def bit_simps dest: bit_imp_le_length)
  qed
qed (auto dest: bit_imp_le_length)

lemma read32_eqI: "(\<And>k. k < 4 \<Longrightarrow> m (a + k) = byte_of v k) \<Longrightarrow> read32 m a = v"
  by (rule bit_word_eqI) (simp add: bit_read32 bit_byte_of less_mult_imp_div_less)

lemma read32_write32 [simp]: "read32 (write32 a v m) a = v"
  by (rule read32_eqI) (simp add: write32_at)

lemma byte_of_read32: "k < 4 \<Longrightarrow> byte_of (read32 m a) k = m (a + k)"
proof (rule bit_word_eqI)
  fix j assume k: "k < 4" and j: "j < LENGTH(8)"
  then have "(8 * k + j) div 8 = k" "(8 * k + j) mod 8 = j" by auto
  then show "bit (byte_of (read32 m a) k) j = bit (m (a + k)) j"
    using k j by (simp add: bit_byte_of bit_read32)
qed

end
