(* ===== verification/GraphicsMode.thy ===== *)
theory GraphicsMode
  imports Memory
begin

text \<open>
  The structures of the graphics output protocol (EDK2's \<open>GraphicsOutput.h\<close>), which the block transfer
  library, the frame buffer driver and the console splitter share.
\<close>

datatype EFI_GRAPHICS_PIXEL_FORMAT =
    PixelRedGreenBlueReserved8BitPerColor
  | PixelBlueGreenRedReserved8BitPerColor
  | PixelBitMask
  | PixelBltOnly
  | PixelFormatMax

record EFI_PIXEL_BITMASK =
  RedMask :: u32
  GreenMask :: u32
  BlueMask :: u32
  ReservedMask :: u32

record EFI_GRAPHICS_OUTPUT_MODE_INFORMATION =
  InfoVersion :: nat
  HorizontalResolution :: nat
  VerticalResolution :: nat
  InfoPixelFormat :: EFI_GRAPHICS_PIXEL_FORMAT
  PixelInformation :: EFI_PIXEL_BITMASK
  InfoPixelsPerScanLine :: nat

text \<open>A null \<open>Info\<close> pointer is \<open>None\<close>.\<close>

record EFI_GRAPHICS_OUTPUT_PROTOCOL_MODE =
  DisplayMaxMode :: nat
  DisplayMode :: nat
  ModeInfo :: "EFI_GRAPHICS_OUTPUT_MODE_INFORMATION option"
  SizeOfInfo :: nat
  FrameBufferBase :: nat
  FrameBufferSize :: nat

definition sizeof_MODE_INFORMATION :: nat where
  "sizeof_MODE_INFORMATION = 36"

end
