(* ===== verification/FrameBufferBlt.thy ===== *)
theory FrameBufferBlt
  imports GraphicsMode
begin

text \<open>
  The frame buffer block transfer library (\<open>Library/FrameBufferBltLib\<close>): deriving the pixel
  layout from a graphics mode, and the four transfers (fill, screen to buffer, buffer to
  screen, screen to screen) over a byte memory that holds the frame buffer, the caller's
  buffer and the one-line buffer behind the configuration structure.

  \<open>UINT32\<close> and \<open>UINTN\<close> values are natural numbers with the wrap-around of \<open>UINTN\<close>
  arithmetic written out (\<open>wrap\<close>); 32-bit pixels are words.  ASSERT and DEBUG are left
  out, as in a release build.
\<close>

section \<open>Data\<close>

record FRAME_BUFFER_CONFIGURE =
  PixelsPerScanLine :: nat
  BytesPerPixel :: nat
  Width :: nat
  Height :: nat
  FrameBuffer :: nat
  PixelFormat :: EFI_GRAPHICS_PIXEL_FORMAT
  PixelMasks :: EFI_PIXEL_BITMASK
  PixelShl :: "nat list"
  PixelShr :: "nat list"
  LineBuffer :: nat

text \<open>The size of the structure on AArch64, without the trailing line buffer.\<close>

definition sizeof_FRAME_BUFFER_CONFIGURE :: nat where
  "sizeof_FRAME_BUFFER_CONFIGURE = 56"

definition mRgbPixelMasks :: EFI_PIXEL_BITMASK where
  "mRgbPixelMasks = \<lparr>RedMask = 0x000000ff, GreenMask = 0x0000ff00, BlueMask = 0x00ff0000, ReservedMask = 0xff000000\<rparr>"

definition mBgrPixelMasks :: EFI_PIXEL_BITMASK where
  "mBgrPixelMasks = \<lparr>RedMask = 0x00ff0000, GreenMask = 0x0000ff00, BlueMask = 0x000000ff, ReservedMask = 0xff000000\<rparr>"

section \<open>Deriving the pixel layout\<close>

text \<open>\<open>HighBitSet32\<close> of the base library: the index of the highest set bit, -1 for zero.\<close>

definition HighBitSet32 :: "u32 \<Rightarrow> int" where
  "HighBitSet32 v = (case filter (bit v) (rev [0..<32]) of [] \<Rightarrow> - 1 | n # _ \<Rightarrow> int n)"

definition pixel_shl :: "nat \<Rightarrow> u32 \<Rightarrow> int" where
  "pixel_shl Index Mask = HighBitSet32 Mask - 23 + int Index * 8"

definition FrameBufferBltLibConfigurePixelFormat ::
  "EFI_PIXEL_BITMASK \<Rightarrow> nat \<times> nat list \<times> nat list" where
  "FrameBufferBltLibConfigurePixelFormat BitMask =
     (let Masks = [RedMask BitMask, GreenMask BitMask, BlueMask BitMask];
          raw = map (\<lambda>Index. pixel_shl Index (Masks ! Index)) [0..<3];
          Shl = map (\<lambda>v. if v < 0 then 0 else nat v) raw;
          Shr = map (\<lambda>v. if v < 0 then nat (- v) else 0) raw;
          MergedMasks = RedMask BitMask OR GreenMask BitMask OR BlueMask BitMask OR ReservedMask BitMask
      in (nat ((HighBitSet32 MergedMasks + 7) div 8), Shl, Shr))"

text \<open>NULL pointers are \<open>None\<close>.  \<open>Configure\<close> is the structure the caller allocated (it gives
  the address of its line buffer); the result carries the new configuration and size.\<close>

definition FrameBufferBltConfigure ::
  "nat \<Rightarrow> EFI_GRAPHICS_OUTPUT_MODE_INFORMATION \<Rightarrow> FRAME_BUFFER_CONFIGURE option \<Rightarrow> nat option \<Rightarrow>
   efi_status \<times> FRAME_BUFFER_CONFIGURE option \<times> nat option" where
  "FrameBufferBltConfigure FrameBufferP Info Configure ConfigureSize =
     (case ConfigureSize of None \<Rightarrow> (EFI_INVALID_PARAMETER, Configure, None)
      | Some sz \<Rightarrow>
       (let bad = (\<lambda>st. (st, Configure, ConfigureSize));
            go = (\<lambda>BitMask.
              if InfoPixelsPerScanLine Info < HorizontalResolution Info then bad EFI_UNSUPPORTED
              else let (Bpp, Shl, Shr) = FrameBufferBltLibConfigurePixelFormat BitMask;
                       need = sizeof_FRAME_BUFFER_CONFIGURE + wrap32 (HorizontalResolution Info * Bpp)
                   in if sz < need then (EFI_BUFFER_TOO_SMALL, Configure, Some need)
                      else case Configure of None \<Rightarrow> bad EFI_INVALID_PARAMETER
                           | Some c \<Rightarrow>
                               (EFI_SUCCESS,
                                Some (c\<lparr>PixelMasks := BitMask, PixelShl := Shl, PixelShr := Shr,
                                        BytesPerPixel := Bpp, PixelFormat := InfoPixelFormat Info,
                                        FrameBuffer := FrameBufferP, Width := HorizontalResolution Info,
                                        Height := VerticalResolution Info,
                                        PixelsPerScanLine := InfoPixelsPerScanLine Info\<rparr>), Some sz))
        in case InfoPixelFormat Info of
             PixelRedGreenBlueReserved8BitPerColor \<Rightarrow> go mRgbPixelMasks
           | PixelBlueGreenRedReserved8BitPerColor \<Rightarrow> go mBgrPixelMasks
           | PixelBitMask \<Rightarrow> go (PixelInformation Info)
           | PixelBltOnly \<Rightarrow> bad EFI_UNSUPPORTED
           | PixelFormatMax \<Rightarrow> bad EFI_INVALID_PARAMETER))"

section \<open>Pixel conversion\<close>

text \<open>From the caller's blue-green-red pixel to the screen's layout and back.\<close>

definition blt_to_video :: "FRAME_BUFFER_CONFIGURE \<Rightarrow> u32 \<Rightarrow> u32" where
  "blt_to_video Configure v =
     (drop_bit (PixelShr Configure ! 0) (push_bit (PixelShl Configure ! 0) v) AND RedMask (PixelMasks Configure)) OR
     (drop_bit (PixelShr Configure ! 1) (push_bit (PixelShl Configure ! 1) v) AND GreenMask (PixelMasks Configure)) OR
     (drop_bit (PixelShr Configure ! 2) (push_bit (PixelShl Configure ! 2) v) AND BlueMask (PixelMasks Configure))"

definition video_to_blt :: "FRAME_BUFFER_CONFIGURE \<Rightarrow> u32 \<Rightarrow> u32" where
  "video_to_blt Configure v =
     push_bit (PixelShr Configure ! 0) (drop_bit (PixelShl Configure ! 0) (v AND RedMask (PixelMasks Configure))) OR
     push_bit (PixelShr Configure ! 1) (drop_bit (PixelShl Configure ! 1) (v AND GreenMask (PixelMasks Configure))) OR
     push_bit (PixelShr Configure ! 2) (drop_bit (PixelShl Configure ! 2) (v AND BlueMask (PixelMasks Configure)))"

section \<open>Fill\<close>

text \<open>The eight bytes of \<open>WideFill\<close>, and whether the pixel's bytes repeat in them.\<close>

definition wide_bytes :: "u32 \<Rightarrow> u8 list" where
  "wide_bytes v = bytes32 v @ replicate 4 0"

definition make_wide_fill :: "nat \<Rightarrow> u32 \<Rightarrow> bool \<times> u8 list" where
  "make_wide_fill Bpp v =
     (if 8 mod Bpp = 0
      then (True, fold (\<lambda>i w. w[i := w ! (i mod Bpp)]) [Bpp..<8] (wide_bytes v))
      else let w = wide_bytes v;
               same = list_all (\<lambda>i. w ! i = w ! 0) [1..<Bpp]
           in (same, if same then replicate 8 (w ! 0) else w))"

text \<open>The line buffer is filled by doubling; \<open>i\<close> is \<open>IndexX - 1\<close>, since \<open>IndexX\<close> starts at 1.\<close>

function fill_line :: "nat \<Rightarrow> nat \<Rightarrow> nat \<Rightarrow> nat \<Rightarrow> mem \<Rightarrow> mem" where
  "fill_line Bpp lb W i m =
     (let IndexX = Suc i in
      if IndexX < W
      then fill_line Bpp lb W (i + min IndexX (W - IndexX))
             (CopyMem (lb + IndexX * Bpp) lb (min IndexX (W - IndexX) * Bpp) m)
      else m)"
  by pat_completeness auto
termination
  by (relation "measure (\<lambda>(Bpp, lb, W, i, m). W - i)") auto

declare fill_line.simps [simp del]

definition pixel_offset :: "FRAME_BUFFER_CONFIGURE \<Rightarrow> nat \<Rightarrow> nat \<Rightarrow> nat" where
  "pixel_offset Configure x y = wrap (BytesPerPixel Configure * wrap (y * PixelsPerScanLine Configure + x))"

definition pixel_address :: "FRAME_BUFFER_CONFIGURE \<Rightarrow> nat \<Rightarrow> nat \<Rightarrow> nat" where
  "pixel_address Configure x y = wrap (FrameBuffer Configure + pixel_offset Configure x y)"

definition fill_one_shot :: "nat \<Rightarrow> nat \<Rightarrow> u8 list \<Rightarrow> mem \<Rightarrow> mem" where
  "fill_one_shot Destination SizeInBytes w m =
     (if 8 \<le> SizeInBytes
      then let n = SizeInBytes - SizeInBytes mod 4;
               m1 = SetMemPattern Destination n (take 4 w) m
           in if 0 < SizeInBytes mod 4 then SetMem (Destination + n) (SizeInBytes mod 4) (w ! 0) m1 else m1
      else if 0 < SizeInBytes then SetMem Destination SizeInBytes (w ! 0) m else m)"

definition fill_wide_line :: "nat \<Rightarrow> nat \<Rightarrow> u8 list \<Rightarrow> mem \<Rightarrow> mem" where
  "fill_wide_line Destination SizeInBytes w m =
     (let n = (if 8 \<le> SizeInBytes then SizeInBytes - SizeInBytes mod 8 else 0);
          m1 = (if 8 \<le> SizeInBytes then SetMemPattern Destination n w m else m);
          rest = SizeInBytes - n
      in if 0 < rest then store_bytes (Destination + n) (take rest w) m1 else m1)"

definition fill_row ::
  "FRAME_BUFFER_CONFIGURE \<Rightarrow> bool \<Rightarrow> u8 list \<Rightarrow> nat \<Rightarrow> nat \<Rightarrow> nat \<Rightarrow> bool \<times> mem \<Rightarrow> bool \<times> mem" where
  "fill_row Configure UseWideFill w DestinationX W IndexY = (\<lambda>(LineBufferReady, m).
     let Destination = pixel_address Configure DestinationX IndexY;
         WidthInBytes = wrap (W * BytesPerPixel Configure)
     in if UseWideFill \<and> Destination mod 8 = 0
        then (LineBufferReady, fill_wide_line Destination WidthInBytes w m)
        else let m1 = (if \<not> LineBufferReady
                       then fill_line (BytesPerPixel Configure) (LineBuffer Configure) W 0
                              (store_bytes (LineBuffer Configure) (take (BytesPerPixel Configure) w) m)
                       else m)
             in (True, CopyMem Destination (LineBuffer Configure) WidthInBytes m1))"

definition FrameBufferBltLibVideoFill ::
  "FRAME_BUFFER_CONFIGURE \<Rightarrow> nat \<Rightarrow> nat \<Rightarrow> nat \<Rightarrow> nat \<Rightarrow> nat \<Rightarrow> mem \<Rightarrow> efi_status \<times> mem" where
  "FrameBufferBltLibVideoFill Configure Color DestinationX DestinationY W H m =
     (if Height Configure < wrap (DestinationY + H) then (EFI_INVALID_PARAMETER, m)
      else if Width Configure < wrap (DestinationX + W) then (EFI_INVALID_PARAMETER, m)
      else if W = 0 \<or> H = 0 then (EFI_INVALID_PARAMETER, m)
      else let (UseWideFill, w) = make_wide_fill (BytesPerPixel Configure) (blt_to_video Configure (read32 m Color))
           in if UseWideFill \<and> DestinationX = 0 \<and> W = PixelsPerScanLine Configure
              then (EFI_SUCCESS, fill_one_shot (pixel_address Configure 0 DestinationY)
                      (wrap (wrap (W * BytesPerPixel Configure) * H)) w m)
              else (EFI_SUCCESS, snd (fold (fill_row Configure UseWideFill w DestinationX W)
                      [DestinationY..<wrap (H + DestinationY)] (False, m))))"

section \<open>Transfers\<close>

text \<open>\<open>Delta\<close> 0 stands for a buffer that is exactly \<open>W\<close> pixels wide.\<close>

definition real_delta :: "nat \<Rightarrow> nat \<Rightarrow> nat" where
  "real_delta Delta W = (if Delta = 0 then wrap (W * 4) else Delta)"

definition blt_address :: "nat \<Rightarrow> nat \<Rightarrow> nat \<Rightarrow> nat \<Rightarrow> nat" where
  "blt_address BltBuffer Delta x y = wrap (BltBuffer + y * Delta + x * 4)"

definition read_row ::
  "FRAME_BUFFER_CONFIGURE \<Rightarrow> nat \<Rightarrow> nat \<Rightarrow> nat \<Rightarrow> nat \<Rightarrow> nat \<Rightarrow> nat \<times> nat \<Rightarrow> mem \<Rightarrow> mem" where
  "read_row Configure BltBuffer SourceX DestinationX W Delta = (\<lambda>(SrcY, DstY) m.
     let Source = pixel_address Configure SourceX SrcY;
         WidthInBytes = wrap (W * BytesPerPixel Configure)
     in if PixelFormat Configure = PixelBlueGreenRedReserved8BitPerColor
        then CopyMem (blt_address BltBuffer Delta DestinationX DstY) Source WidthInBytes m
        else fold (\<lambda>IndexX m. write32 (blt_address BltBuffer Delta (DestinationX + IndexX) DstY)
                     (video_to_blt Configure (read32 m (LineBuffer Configure + IndexX * BytesPerPixel Configure))) m)
               [0..<W] (CopyMem (LineBuffer Configure) Source WidthInBytes m))"

definition FrameBufferBltLibVideoToBltBuffer ::
  "FRAME_BUFFER_CONFIGURE \<Rightarrow> nat \<Rightarrow> nat \<Rightarrow> nat \<Rightarrow> nat \<Rightarrow> nat \<Rightarrow> nat \<Rightarrow> nat \<Rightarrow> nat \<Rightarrow> mem \<Rightarrow> efi_status \<times> mem" where
  "FrameBufferBltLibVideoToBltBuffer Configure BltBuffer SourceX SourceY DestinationX DestinationY W H Delta m =
     (if Height Configure < wrap (SourceY + H) then (EFI_INVALID_PARAMETER, m)
      else if Width Configure < wrap (SourceX + W) then (EFI_INVALID_PARAMETER, m)
      else if W = 0 \<or> H = 0 then (EFI_INVALID_PARAMETER, m)
      else (EFI_SUCCESS,
            fold (\<lambda>i. read_row Configure BltBuffer SourceX DestinationX W (real_delta Delta W)
                        (wrap (SourceY + i), DestinationY + i))
              [0..<wrap (H + DestinationY) - DestinationY] m))"

definition write_row ::
  "FRAME_BUFFER_CONFIGURE \<Rightarrow> nat \<Rightarrow> nat \<Rightarrow> nat \<Rightarrow> nat \<Rightarrow> nat \<Rightarrow> nat \<times> nat \<Rightarrow> mem \<Rightarrow> mem" where
  "write_row Configure BltBuffer SourceX DestinationX W Delta = (\<lambda>(SrcY, DstY) m.
     let Destination = pixel_address Configure DestinationX DstY;
         WidthInBytes = wrap (W * BytesPerPixel Configure)
     in if PixelFormat Configure = PixelBlueGreenRedReserved8BitPerColor
        then CopyMem Destination (blt_address BltBuffer Delta 0 SrcY) WidthInBytes m
        else CopyMem Destination (LineBuffer Configure) WidthInBytes
               (fold (\<lambda>IndexX m. write32 (LineBuffer Configure + IndexX * BytesPerPixel Configure)
                        (blt_to_video Configure (read32 m (blt_address BltBuffer Delta (SourceX + IndexX) SrcY))) m)
                  [0..<W] m))"

definition FrameBufferBltLibBufferToVideo ::
  "FRAME_BUFFER_CONFIGURE \<Rightarrow> nat \<Rightarrow> nat \<Rightarrow> nat \<Rightarrow> nat \<Rightarrow> nat \<Rightarrow> nat \<Rightarrow> nat \<Rightarrow> nat \<Rightarrow> mem \<Rightarrow> efi_status \<times> mem" where
  "FrameBufferBltLibBufferToVideo Configure BltBuffer SourceX SourceY DestinationX DestinationY W H Delta m =
     (if Height Configure < wrap (DestinationY + H) then (EFI_INVALID_PARAMETER, m)
      else if Width Configure < wrap (DestinationX + W) then (EFI_INVALID_PARAMETER, m)
      else if W = 0 \<or> H = 0 then (EFI_INVALID_PARAMETER, m)
      else (EFI_SUCCESS,
            fold (\<lambda>i. write_row Configure BltBuffer SourceX DestinationX W (real_delta Delta W)
                        (SourceY + i, wrap (DestinationY + i)))
              [0..<wrap (H + SourceY) - SourceY] m))"

text \<open>The screen-to-screen loop steps both pointers by one line, forwards or backwards.\<close>

fun copy_lines_up :: "nat \<Rightarrow> nat \<Rightarrow> nat \<Rightarrow> nat \<Rightarrow> nat \<Rightarrow> mem \<Rightarrow> mem" where
  "copy_lines_up d s n stride 0 m = m"
| "copy_lines_up d s n stride (Suc h) m =
     copy_lines_up (wrap (d + stride)) (wrap (s + stride)) n stride h (CopyMem d s n m)"

fun copy_lines_down :: "nat \<Rightarrow> nat \<Rightarrow> nat \<Rightarrow> nat \<Rightarrow> nat \<Rightarrow> mem \<Rightarrow> mem" where
  "copy_lines_down d s n stride 0 m = m"
| "copy_lines_down d s n stride (Suc h) m =
     copy_lines_down (wrap (d + 2 ^ 64 - stride)) (wrap (s + 2 ^ 64 - stride)) n stride h (CopyMem d s n m)"

definition FrameBufferBltLibVideoToVideo ::
  "FRAME_BUFFER_CONFIGURE \<Rightarrow> nat \<Rightarrow> nat \<Rightarrow> nat \<Rightarrow> nat \<Rightarrow> nat \<Rightarrow> nat \<Rightarrow> mem \<Rightarrow> efi_status \<times> mem" where
  "FrameBufferBltLibVideoToVideo Configure SourceX SourceY DestinationX DestinationY W H m =
     (if Height Configure < wrap (SourceY + H) then (EFI_INVALID_PARAMETER, m)
      else if Width Configure < wrap (SourceX + W) then (EFI_INVALID_PARAMETER, m)
      else if Height Configure < wrap (DestinationY + H) then (EFI_INVALID_PARAMETER, m)
      else if Width Configure < wrap (DestinationX + W) then (EFI_INVALID_PARAMETER, m)
      else if W = 0 \<or> H = 0 then (EFI_INVALID_PARAMETER, m)
      else let WidthInBytes = wrap (W * BytesPerPixel Configure);
               Source = pixel_address Configure SourceX SourceY;
               Destination = pixel_address Configure DestinationX DestinationY;
               LineStride = wrap32 (BytesPerPixel Configure * PixelsPerScanLine Configure)
           in (EFI_SUCCESS,
               if Source < Destination
               then copy_lines_down (wrap (Destination + H * LineStride)) (wrap (Source + H * LineStride))
                      WidthInBytes LineStride H m
               else copy_lines_up Destination Source WidthInBytes LineStride H m))"

datatype EFI_GRAPHICS_OUTPUT_BLT_OPERATION =
    EfiBltVideoFill
  | EfiBltVideoToBltBuffer
  | EfiBltBufferToVideo
  | EfiBltVideoToVideo
  | EfiGraphicsOutputBltOperationMax

definition FrameBufferBlt ::
  "FRAME_BUFFER_CONFIGURE option \<Rightarrow> nat \<Rightarrow> EFI_GRAPHICS_OUTPUT_BLT_OPERATION \<Rightarrow>
   nat \<Rightarrow> nat \<Rightarrow> nat \<Rightarrow> nat \<Rightarrow> nat \<Rightarrow> nat \<Rightarrow> nat \<Rightarrow> mem \<Rightarrow> efi_status \<times> mem" where
  "FrameBufferBlt Configure BltBuffer BltOperation SourceX SourceY DestinationX DestinationY W H Delta m =
     (case Configure of None \<Rightarrow> (EFI_INVALID_PARAMETER, m)
      | Some c \<Rightarrow>
         (case BltOperation of
            EfiBltVideoToBltBuffer \<Rightarrow>
              FrameBufferBltLibVideoToBltBuffer c BltBuffer SourceX SourceY DestinationX DestinationY W H Delta m
          | EfiBltVideoToVideo \<Rightarrow>
              FrameBufferBltLibVideoToVideo c SourceX SourceY DestinationX DestinationY W H m
          | EfiBltVideoFill \<Rightarrow>
              FrameBufferBltLibVideoFill c BltBuffer DestinationX DestinationY W H m
          | EfiBltBufferToVideo \<Rightarrow>
              FrameBufferBltLibBufferToVideo c BltBuffer SourceX SourceY DestinationX DestinationY W H Delta m
          | EfiGraphicsOutputBltOperationMax \<Rightarrow> (EFI_INVALID_PARAMETER, m)))"

end
