(* ===== verification/FrameBufferBltCorrect.thy ===== *)
theory FrameBufferBltCorrect
  imports FrameBufferBlt
begin

text \<open>
  What the block transfers guarantee: the fill writes exactly its rectangle whichever of its
  three strategies it takes, the pixel conversions are inverse on the two standard layouts,
  the size negotiation of the configuration call, and the screen-to-screen copy in both
  directions.
\<close>

section \<open>The line buffer\<close>

text \<open>A stretch of memory that repeats the first \<open>Bpp\<close> bytes of a pixel.\<close>

definition tiled :: "nat \<Rightarrow> u32 \<Rightarrow> nat \<Rightarrow> nat \<Rightarrow> mem \<Rightarrow> bool" where
  "tiled Bpp v d n m \<longleftrightarrow> (\<forall>j<n. m (d + j) = byte_of v (j mod Bpp))"

lemma tiledD: "tiled Bpp v d n m \<Longrightarrow> j < n \<Longrightarrow> m (d + j) = byte_of v (j mod Bpp)"
  by (simp add: tiled_def)

lemma tiled_extend:
  assumes "tiled Bpp v d (k * Bpp) m" "l \<le> k"
  shows "tiled Bpp v d ((k + l) * Bpp) (CopyMem (d + k * Bpp) d (l * Bpp) m)"
  unfolding tiled_def
proof (intro allI impI)
  fix j assume j: "j < (k + l) * Bpp"
  show "CopyMem (d + k * Bpp) d (l * Bpp) m (d + j) = byte_of v (j mod Bpp)"
  proof (cases "j < k * Bpp")
    case True
    then show ?thesis using tiledD[OF assms(1)] by (simp add: CopyMem_at)
  next
    case False
    then obtain i where i: "j = k * Bpp + i" by (metis le_add_diff_inverse not_less)
    with j have "i < l * Bpp" by (simp add: add_mult_distrib)
    moreover have "l * Bpp \<le> k * Bpp" using assms(2) by simp
    ultimately have "i < k * Bpp" by linarith
    then show ?thesis using tiledD[OF assms(1), of i] i \<open>i < l * Bpp\<close> by (simp add: CopyMem_at)
  qed
qed

lemma fill_line_tiled:
  "tiled Bpp v lb (Suc i * Bpp) m \<Longrightarrow> i < W \<Longrightarrow> tiled Bpp v lb (W * Bpp) (fill_line Bpp lb W i m)"
proof (induction Bpp lb W i m rule: fill_line.induct)
  case (1 Bpp lb W i m)
  show ?case
  proof (cases "Suc i < W")
    case True
    let ?l = "min (Suc i) (W - Suc i)"
    have "tiled Bpp v lb ((Suc i + ?l) * Bpp) (CopyMem (lb + Suc i * Bpp) lb (?l * Bpp) m)"
      using 1(2) by (rule tiled_extend) simp
    then have "tiled Bpp v lb (W * Bpp) (fill_line Bpp lb W (i + ?l) (CopyMem (lb + Suc i * Bpp) lb (?l * Bpp) m))"
      using True by (intro 1(1)) simp_all
    then show ?thesis using True by (subst fill_line.simps) (simp add: Let_def)
  next
    case False
    with 1(3) have "W = Suc i" by simp
    then show ?thesis using 1(2) False by (subst fill_line.simps) (simp add: Let_def)
  qed
qed

lemma fill_line_frame:
  "a < lb \<or> lb + W * Bpp \<le> a \<Longrightarrow> fill_line Bpp lb W i m a = m a"
proof (induction Bpp lb W i m rule: fill_line.induct)
  case (1 Bpp lb W i m)
  show ?case
  proof (cases "Suc i < W")
    case True
    let ?l = "min (Suc i) (W - Suc i)"
    have "(Suc i + ?l) * Bpp \<le> W * Bpp" using True by (intro mult_le_mono1) simp
    then have "CopyMem (lb + Suc i * Bpp) lb (?l * Bpp) m a = m a"
      using 1(2) by (auto simp: CopyMem_at add_mult_distrib)
    moreover have "fill_line Bpp lb W (i + ?l) (CopyMem (lb + Suc i * Bpp) lb (?l * Bpp) m) a
        = CopyMem (lb + Suc i * Bpp) lb (?l * Bpp) m a"
      using 1(2) True by (intro 1(1)) simp_all
    ultimately show ?thesis using True by (subst fill_line.simps) (simp add: Let_def)
  next
    case False
    then show ?thesis by (subst fill_line.simps) (simp add: Let_def)
  qed
qed

section \<open>The repeated eight bytes\<close>

lemma nth_wide_bytes: "j < 4 \<Longrightarrow> wide_bytes v ! j = byte_of v j"
  by (simp add: wide_bytes_def nth_append)

lemma length_wide_bytes [simp]: "length (wide_bytes v) = 8"
  by (simp add: wide_bytes_def)

lemma wide_bytes_fold:
  fixes v :: u32
  assumes "0 < Bpp" "Bpp \<le> 4" "Bpp \<le> n" "n \<le> 8"
  defines "w \<equiv> fold (\<lambda>i w. w[i := w ! (i mod Bpp)]) [Bpp..<n] (wide_bytes v)"
  shows "length w = 8 \<and> (\<forall>j<n. w ! j = byte_of v (j mod Bpp))"
  using assms(3,4) unfolding w_def
proof (induction n rule: dec_induct)
  case base
  then show ?case using assms(2) by (auto simp: nth_wide_bytes)
next
  case (step n)
  have "n mod Bpp < n" using step assms(1) by (meson le_trans mod_less_divisor not_less order_less_le_trans)
  then show ?case using step by (auto simp: nth_list_update less_Suc_eq)
qed

text \<open>\<open>wide_ok\<close>: the eight bytes repeat the pixel as often as they are read.\<close>

definition wide_ok :: "nat \<Rightarrow> u32 \<Rightarrow> bool \<Rightarrow> u8 list \<Rightarrow> bool" where
  "wide_ok Bpp v u w \<longleftrightarrow> length w = 8 \<and> (\<forall>j<Bpp. w ! j = byte_of v j)
     \<and> (if u then \<forall>k. w ! (k mod 8) = byte_of v (k mod Bpp) else True)"

lemma eight_mod: "(8 :: nat) mod Bpp = 0 \<Longrightarrow> k mod 8 mod Bpp = k mod Bpp"
  by (simp add: mod_mod_cancel mod_eq_0_iff_dvd)

lemma make_wide_ok:
  assumes "0 < Bpp" "Bpp \<le> 4" "make_wide_fill Bpp v = (u, w)"
  shows "wide_ok Bpp v u w"
proof (cases "8 mod Bpp = 0")
  case True
  then have "u" and w: "w = fold (\<lambda>i w. w[i := w ! (i mod Bpp)]) [Bpp..<8] (wide_bytes v)"
    using assms(3) by (auto simp: make_wide_fill_def)
  have "length w = 8" and *: "\<And>j. j < 8 \<Longrightarrow> w ! j = byte_of v (j mod Bpp)"
    using wide_bytes_fold[of Bpp 8 v] assms(1,2) by (auto simp: w)
  moreover have "w ! (k mod 8) = byte_of v (k mod Bpp)" for k
    using *[of "k mod 8"] eight_mod[OF True] by simp
  moreover have "w ! j = byte_of v j" if "j < Bpp" for j using *[of j] that assms(2) by simp
  ultimately show ?thesis by (simp add: wide_ok_def)
next
  case False
  define same where "same = (\<forall>i\<in>{1..<Bpp}. wide_bytes v ! i = wide_bytes v ! 0)"
  have "make_wide_fill Bpp v = (same, if same then replicate 8 (wide_bytes v ! 0) else wide_bytes v)"
    using False by (simp add: make_wide_fill_def Let_def list_all_iff same_def)
  then have u: "u = same" and w: "w = (if u then replicate 8 (wide_bytes v ! 0) else wide_bytes v)"
    using assms(3) by simp_all
  show ?thesis
  proof (cases u)
    case True
    have *: "byte_of v j = byte_of v 0" if "j < Bpp" for j
      using True that assms(2) u by (cases "j = 0") (auto simp: nth_wide_bytes same_def)
    have w8: "w = replicate 8 (byte_of v 0)" using w True by (simp add: nth_wide_bytes)
    have 1: "w ! (k mod 8) = byte_of v (k mod Bpp)" for k
      using *[of "k mod Bpp"] assms(1) by (simp add: w8)
    have 2: "w ! j = byte_of v j" if "j < Bpp" for j
      using *[OF that] that assms(2) by (simp add: w8)
    show ?thesis using 1 2 by (simp add: wide_ok_def w8)
  next
    case False
    then show ?thesis using w assms(2) by (simp add: wide_ok_def nth_wide_bytes)
  qed
qed

section \<open>One row of the fill\<close>

lemma store_pixel_tiled:
  assumes "wide_ok Bpp v u w" "Bpp \<le> 4"
  shows "tiled Bpp v lb (1 * Bpp) (store_bytes lb (take Bpp w) m)"
  using assms by (auto simp: tiled_def wide_ok_def store_bytes_at)

lemma line_buffer_ready:
  assumes "wide_ok Bpp v u w" "Bpp \<le> 4" "0 < W"
  shows "tiled Bpp v lb (W * Bpp) (fill_line Bpp lb W 0 (store_bytes lb (take Bpp w) m))"
  using fill_line_tiled[of Bpp v lb 0 _ W] store_pixel_tiled[OF assms(1,2)] assms(3) by simp

lemma line_buffer_frame:
  assumes "a < lb \<or> lb + W * Bpp \<le> a" "0 < W" "length w = 8"
  shows "fill_line Bpp lb W 0 (store_bytes lb (take Bpp w) m) a = m a"
proof -
  have "Bpp \<le> W * Bpp" using assms(2) by simp
  then have "min 8 Bpp \<le> W * Bpp" by linarith
  then show ?thesis using assms by (auto simp: fill_line_frame store_bytes_at)
qed

text \<open>Bytes of a wide line.\<close>

lemma fill_wide_line_at:
  assumes "wide_ok Bpp v True w"
  shows "fill_wide_line d n w m a = (if d \<le> a \<and> a < d + n then byte_of v ((a - d) mod Bpp) else m a)"
proof -
  have len: "length w = 8" and w: "\<And>k. w ! (k mod 8) = byte_of v (k mod Bpp)"
    using assms by (auto simp: wide_ok_def)
  define q where "q = n - n mod 8"
  have n: "n = q + n mod 8" "n mod 8 < 8" "q mod 8 = 0" "n < 8 \<Longrightarrow> q = 0" by (auto simp: q_def) 
  have tail: "take (n mod 8) w ! i = byte_of v ((q + i) mod Bpp)" if "i < n mod 8" for i
  proof -
    have "(q + i) mod 8 = i" using that n by (simp add: mod_add_eq[symmetric])
    then show ?thesis using w[of "q + i"] that by simp
  qed
  have "fill_wide_line d n w m = 
    (let m1 = (if 8 \<le> n then SetMemPattern d q w m else m) in
     if 0 < n mod 8 then store_bytes (d + q) (take (n mod 8) w) m1 else m1)"
    by (auto simp: fill_wide_line_def Let_def q_def)
  moreover have "w ! ((a - d) mod 8) = byte_of v ((a - d) mod Bpp)" by (rule w)
  moreover have "take (n mod 8) w ! (a - (d + q)) = byte_of v ((a - d) mod Bpp)" if "d + q \<le> a" "a < d + n"
    using tail[of "a - (d + q)"] that n(1) by (simp add: algebra_simps)
  ultimately show ?thesis
    using n len by (auto simp: Let_def SetMemPattern_at store_bytes_at split: if_splits)
qed

section \<open>The screen\<close>

text \<open>A usable surface: one to four bytes per pixel, no visible line longer than the scan
  line, the frame buffer below the top of the address space and apart from the line buffer.\<close>

definition surface :: "FRAME_BUFFER_CONFIGURE \<Rightarrow> bool" where
  "surface c \<longleftrightarrow> 0 < BytesPerPixel c \<and> BytesPerPixel c \<le> 4 \<and> Width c \<le> PixelsPerScanLine c
     \<and> FrameBuffer c + BytesPerPixel c * (Height c * PixelsPerScanLine c) < 2 ^ 64
     \<and> (LineBuffer c + Width c * BytesPerPixel c \<le> FrameBuffer c
        \<or> FrameBuffer c + BytesPerPixel c * (Height c * PixelsPerScanLine c) \<le> LineBuffer c)"

definition row_base :: "FRAME_BUFFER_CONFIGURE \<Rightarrow> nat \<Rightarrow> nat \<Rightarrow> nat" where
  "row_base c x y = FrameBuffer c + BytesPerPixel c * (y * PixelsPerScanLine c + x)"

definition in_row :: "FRAME_BUFFER_CONFIGURE \<Rightarrow> nat \<Rightarrow> nat \<Rightarrow> nat \<Rightarrow> nat \<Rightarrow> bool" where
  "in_row c x W y a \<longleftrightarrow> row_base c x y \<le> a \<and> a < row_base c x y + W * BytesPerPixel c"

definition in_line_buffer :: "FRAME_BUFFER_CONFIGURE \<Rightarrow> nat \<Rightarrow> nat \<Rightarrow> bool" where
  "in_line_buffer c W a \<longleftrightarrow> LineBuffer c \<le> a \<and> a < LineBuffer c + W * BytesPerPixel c"

text \<open>The bytes of a rectangle, by the coordinates of the pixel a byte belongs to.\<close>

definition in_rect :: "FRAME_BUFFER_CONFIGURE \<Rightarrow> nat \<Rightarrow> nat \<Rightarrow> nat \<Rightarrow> nat \<Rightarrow> nat \<Rightarrow> bool" where
  "in_rect c x y W H a \<longleftrightarrow> FrameBuffer c \<le> a \<and>
     (let p = (a - FrameBuffer c) div BytesPerPixel c in
      y \<le> p div PixelsPerScanLine c \<and> p div PixelsPerScanLine c < y + H \<and>
      x \<le> p mod PixelsPerScanLine c \<and> p mod PixelsPerScanLine c < x + W)"

lemma in_row_iff:
  assumes "0 < BytesPerPixel c" "x + W \<le> PixelsPerScanLine c"
  shows "in_row c x W y a \<longleftrightarrow> FrameBuffer c \<le> a \<and>
    (let p = (a - FrameBuffer c) div BytesPerPixel c in
      p div PixelsPerScanLine c = y \<and> x \<le> p mod PixelsPerScanLine c \<and> p mod PixelsPerScanLine c < x + W)"
proof -
  let ?B = "BytesPerPixel c" and ?P = "PixelsPerScanLine c"
  define o' where "o' = a - FrameBuffer c"
  define p where "p = o' div ?B"
  have o': "o' = ?B * p + o' mod ?B" "o' mod ?B < ?B" using assms(1) by (simp_all add: p_def)
  have 1: "?B * k \<le> o' \<longleftrightarrow> k \<le> p" for k
    using assms(1) by (simp add: p_def less_eq_div_iff_mult_less_eq mult.commute)
  have 2: "o' < ?B * k \<longleftrightarrow> p < k" for k
    using 1[of k] by linarith
  have 3: "y * ?P + x \<le> p \<and> p < y * ?P + x + W \<longleftrightarrow> p div ?P = y \<and> x \<le> p mod ?P \<and> p mod ?P < x + W"
  proof
    assume A: "y * ?P + x \<le> p \<and> p < y * ?P + x + W"
    define j where "j = p - y * ?P"
    have j: "p = y * ?P + j" "x \<le> j" "j < x + W" "j < ?P" using A assms(2) by (auto simp: j_def)
    then have "p div ?P = y" "p mod ?P = j" by simp_all
    then show "p div ?P = y \<and> x \<le> p mod ?P \<and> p mod ?P < x + W" using j by simp
  next
    assume "p div ?P = y \<and> x \<le> p mod ?P \<and> p mod ?P < x + W"
    then show "y * ?P + x \<le> p \<and> p < y * ?P + x + W"
      using div_mult_mod_eq[of p ?P] by auto
  qed
  have "in_row c x W y a \<longleftrightarrow> FrameBuffer c \<le> a \<and> ?B * (y * ?P + x) \<le> o' \<and> o' < ?B * (y * ?P + x + W)"
    by (auto simp: in_row_def row_base_def o'_def algebra_simps)
  then show ?thesis unfolding 1 2 using 3 by (simp add: Let_def p_def o'_def)
qed

lemma in_rect_rows:
  assumes "0 < BytesPerPixel c" "x + W \<le> PixelsPerScanLine c"
  shows "in_rect c x y W H a \<longleftrightarrow> (\<exists>i. y \<le> i \<and> i < y + H \<and> in_row c x W i a)"
  by (auto simp: in_row_iff[OF assms] in_rect_def Let_def)

lemma row_phase:
  "row_base c x y \<le> a \<Longrightarrow> (a - row_base c x y) mod BytesPerPixel c = (a - FrameBuffer c) mod BytesPerPixel c"
proof -
  assume "row_base c x y \<le> a"
  then have "a - FrameBuffer c = (a - row_base c x y) + BytesPerPixel c * (y * PixelsPerScanLine c + x)"
    by (simp add: row_base_def)
  then show ?thesis by simp
qed

lemma surface_bounds:
  assumes "surface c" "x + W \<le> Width c" "y < Height c"
  shows "BytesPerPixel c * (y * PixelsPerScanLine c + x) + W * BytesPerPixel c
           \<le> BytesPerPixel c * (Height c * PixelsPerScanLine c)"
proof -
  have "y * PixelsPerScanLine c + x + W \<le> Suc y * PixelsPerScanLine c"
    using assms by (simp add: surface_def)
  also have "\<dots> \<le> Height c * PixelsPerScanLine c" using assms(3) by (intro mult_le_mono1) simp
  finally have "BytesPerPixel c * (y * PixelsPerScanLine c + x + W) \<le> BytesPerPixel c * (Height c * PixelsPerScanLine c)"
    by (rule mult_le_mono2)
  then show ?thesis by (simp add: algebra_simps)
qed

lemma le_mult_pos: "0 < b \<Longrightarrow> k \<le> b * (k :: nat)"
  by (cases b) simp_all

lemma surface_row:
  assumes "surface c" "x + W \<le> Width c" "y < Height c"
  shows "pixel_address c x y = row_base c x y" "wrap (W * BytesPerPixel c) = W * BytesPerPixel c"
    and "in_row c x W y a \<Longrightarrow> \<not> in_line_buffer c W a"
proof -
  note b = surface_bounds[OF assms]
  have B: "0 < BytesPerPixel c" and top: "FrameBuffer c + BytesPerPixel c * (Height c * PixelsPerScanLine c) < 2 ^ 64"
    using assms(1) by (auto simp: surface_def)
  have "y * PixelsPerScanLine c + x \<le> BytesPerPixel c * (y * PixelsPerScanLine c + x)"
    using B by (rule le_mult_pos)
  then have "y * PixelsPerScanLine c + x < 2 ^ 64" using b top by linarith
  moreover have "BytesPerPixel c * (y * PixelsPerScanLine c + x) < 2 ^ 64" using b top by linarith
  moreover have "FrameBuffer c + BytesPerPixel c * (y * PixelsPerScanLine c + x) < 2 ^ 64" using b top by linarith
  ultimately show "pixel_address c x y = row_base c x y"
    by (simp add: pixel_address_def pixel_offset_def row_base_def)
  have "W * BytesPerPixel c < 2 ^ 64" using b top by linarith
  then show "wrap (W * BytesPerPixel c) = W * BytesPerPixel c" by simp
  have "W * BytesPerPixel c \<le> Width c * BytesPerPixel c" using assms(2) by (intro mult_le_mono1) simp
  then show "in_row c x W y a \<Longrightarrow> \<not> in_line_buffer c W a"
    using assms(1) b unfolding in_row_def row_base_def in_line_buffer_def surface_def
    by (elim conjE disjE) linarith+
qed

section \<open>The fill\<close>

definition fill_state ::
  "FRAME_BUFFER_CONFIGURE \<Rightarrow> u32 \<Rightarrow> nat \<Rightarrow> nat \<Rightarrow> nat \<Rightarrow> nat \<Rightarrow> mem \<Rightarrow> bool \<times> mem \<Rightarrow> bool" where
  "fill_state c v x W y H m = (\<lambda>(r, m').
     (if r then tiled (BytesPerPixel c) v (LineBuffer c) (W * BytesPerPixel c) m' else True) \<and>
     (\<forall>a. \<not> in_line_buffer c W a \<longrightarrow>
        m' a = (if \<exists>i. y \<le> i \<and> i < y + H \<and> in_row c x W i a
                then byte_of v ((a - FrameBuffer c) mod BytesPerPixel c) else m a)))"

lemma fill_row_effect:
  assumes c: "surface c" "x + W \<le> Width c" "i < Height c" "0 < W"
    and w: "wide_ok (BytesPerPixel c) v u w"
    and r: "r \<Longrightarrow> tiled (BytesPerPixel c) v (LineBuffer c) (W * BytesPerPixel c) m"
    and res: "fill_row c u w x W i (r, m) = (r', m')"
  shows "r' \<Longrightarrow> tiled (BytesPerPixel c) v (LineBuffer c) (W * BytesPerPixel c) m'"
    and "\<not> in_line_buffer c W a \<Longrightarrow>
      m' a = (if in_row c x W i a then byte_of v ((a - FrameBuffer c) mod BytesPerPixel c) else m a)"
proof -
  let ?d = "row_base c x i" and ?B = "BytesPerPixel c" and ?L = "LineBuffer c"
  note sr = surface_row[OF c(1-3)]
  have B4: "?B \<le> 4" and len: "length w = 8" using c(1) w by (auto simp: surface_def wide_ok_def)
  define wide where "wide = (u \<and> ?d mod 8 = 0)"
  define m1 where "m1 = (if \<not> r then fill_line ?B ?L W 0 (store_bytes ?L (take ?B w) m) else m)"
  have res': "r' = (if wide then r else True)"
    "m' = (if wide then fill_wide_line ?d (W * ?B) w m else CopyMem ?d ?L (W * ?B) m1)"
    using res by (auto simp: fill_row_def Let_def sr wide_def m1_def split: if_splits)
  have m1: "tiled ?B v ?L (W * ?B) m1"
    using r line_buffer_ready[OF w B4 c(4)] by (auto simp: m1_def)
  have keep: "in_line_buffer c W b \<Longrightarrow> b < ?d \<or> ?d + W * ?B \<le> b" for b
    by (meson in_row_def not_le sr(3))
  have wl: "wide \<Longrightarrow> fill_wide_line ?d (W * ?B) w m b = (if in_row c x W i b then byte_of v ((b - ?d) mod ?B) else m b)" for b
    using fill_wide_line_at[of ?B v w] w by (auto simp: wide_def in_row_def)
  show "tiled ?B v ?L (W * ?B) m'" if r'
    unfolding tiled_def
  proof (intro allI impI)
    fix j assume j: "j < W * ?B"
    then have L: "in_line_buffer c W (?L + j)" by (simp add: in_line_buffer_def)
    then have "m' (?L + j) = (if wide then m else m1) (?L + j)"
      using keep[OF L] sr(3)[of "?L + j"] by (auto simp: res'(2) wl CopyMem_at)
    then show "m' (?L + j) = byte_of v (j mod ?B)"
      using tiledD[OF m1 j] r that j tiledD by (auto simp: res'(1) split: if_splits)
  qed
  assume a: "\<not> in_line_buffer c W a"
  have out: "m1 a = m a"
    using a line_buffer_frame[of a ?L W ?B w m] c(4) len by (auto simp: m1_def in_line_buffer_def)
  show "m' a = (if in_row c x W i a then byte_of v ((a - FrameBuffer c) mod ?B) else m a)"
  proof (cases "in_row c x W i a")
    case True
    then have "?d \<le> a" "a - ?d < W * ?B" "a < ?d + W * ?B" by (auto simp: in_row_def)
    then show ?thesis using True wl[of a] row_phase[OF \<open>?d \<le> a\<close>] tiledD[OF m1, of "a - ?d"]
      by (simp add: res'(2) CopyMem_at)
  next
    case False
    then have "CopyMem ?d ?L (W * ?B) m1 a = m1 a" by (auto simp: in_row_def CopyMem_at)
    then show ?thesis using False wl[of a] out by (simp add: res'(2))
  qed
qed


lemma fill_rows_state:
  assumes c: "surface c" "x + W \<le> Width c" "0 < W" and w: "wide_ok (BytesPerPixel c) v u w"
  shows "y + H \<le> Height c \<Longrightarrow> fill_state c v x W y H m (fold (fill_row c u w x W) [y..<y + H] (False, m))"
proof (induction H)
  case 0
  then show ?case by (auto simp: fill_state_def)
next
  case (Suc H)
  obtain r1 m1 where 1: "fold (fill_row c u w x W) [y..<y + H] (False, m) = (r1, m1)" by force
  obtain r2 m2 where 2: "fill_row c u w x W (y + H) (r1, m1) = (r2, m2)" by force
  have st: "fill_state c v x W y H m (r1, m1)" using Suc 1 by simp
  then have t1: "r1 \<Longrightarrow> tiled (BytesPerPixel c) v (LineBuffer c) (W * BytesPerPixel c) m1"
    by (simp add: fill_state_def)
  have lt: "y + H < Height c" using Suc(2) by simp
  have split: "(\<exists>i. y \<le> i \<and> i < Suc (y + H) \<and> in_row c x W i a)
      \<longleftrightarrow> (\<exists>i. y \<le> i \<and> i < y + H \<and> in_row c x W i a) \<or> in_row c x W (y + H) a" for a
    by (metis le_add1 less_Suc_eq)
  have m2: "m2 a = (if in_row c x W (y + H) a then byte_of v ((a - FrameBuffer c) mod BytesPerPixel c) else m1 a)"
    if "\<not> in_line_buffer c W a" for a
    using fill_row_effect(2)[OF c(1,2) lt c(3) w t1 2 that] .
  have "fill_state c v x W y (Suc H) m (r2, m2)"
    using fill_row_effect(1)[OF c(1,2) lt c(3) w t1 2] st m2
    by (auto simp: fill_state_def split)
  then show ?case using 1 2 by simp
qed

lemma wide_ok_uniform:
  assumes w: "wide_ok B v True w" and B: "B = 1 \<or> B = 3"
  shows "byte_of v (k mod B) = w ! 0"
proof -
  have e: "\<And>k. w ! (k mod 8) = byte_of v (k mod B)" using w by (simp add: wide_ok_def)
  show ?thesis
  proof (cases "B = 1")
    case True
    then show ?thesis using e[of 0] by simp
  next
    case False
    with B have B3: "B = 3" by simp
    have 0: "w ! 0 = byte_of v 0" "w ! 0 = byte_of v 2" "w ! 1 = byte_of v 1" "w ! 1 = byte_of v 0"
      using e[of 0] e[of 8] e[of 1] e[of 9] B3 by simp_all
    have "k mod 3 = 0 \<or> k mod 3 = 1 \<or> k mod 3 = 2" by presburger
    then show ?thesis using 0 B3 by auto
  qed
qed

lemma wide_ok_four:
  assumes w: "wide_ok B v True w" and B: "0 < B" "B \<le> 4"
  shows "take 4 w ! (k mod 4) = byte_of v (k mod B)"
proof -
  have e: "\<And>k. w ! (k mod 8) = byte_of v (k mod B)" using w by (simp add: wide_ok_def)
  have "w ! (k mod 4) = byte_of v (k mod 4 mod B)" using e[of "k mod 4"] by simp
  moreover have "byte_of v (k mod 4 mod B) = byte_of v (k mod B)"
  proof (cases "B = 3")
    case True
    then show ?thesis using wide_ok_uniform[OF w, of "k mod 4"] wide_ok_uniform[OF w, of k] by simp
  next
    case False
    then have "B = 1 \<or> B = 2 \<or> B = 4" using B by linarith
    then have "B dvd 4" by auto
    then show ?thesis by (simp add: mod_mod_cancel)
  qed
  ultimately show ?thesis by simp
qed

text \<open>\<open>whole_words\<close>: the one-shot fill covers a region with no odd tail, or all bytes agree.\<close>

definition whole_words :: "nat \<Rightarrow> nat \<Rightarrow> bool" where
  "whole_words B n \<longleftrightarrow> B = 1 \<or> B = 3 \<or> 8 \<le> n \<and> n mod 4 = 0"

lemma fill_one_shot_at:
  assumes w: "wide_ok B v True w" and B: "0 < B" "B \<le> 4" and n: "whole_words B n"
  shows "fill_one_shot d n w m a = (if d \<le> a \<and> a < d + n then byte_of v ((a - d) mod B) else m a)"
proof -
  have len: "length (take 4 w) = 4" using w by (simp add: wide_ok_def)
  note f = wide_ok_four[OF w B, of "a - d"]
  show ?thesis
  proof (cases "8 \<le> n \<and> n mod 4 = 0")
    case True
    then show ?thesis using f len by (simp add: fill_one_shot_def SetMemPattern_at)
  next
    case False
    then have "w ! 0 = byte_of v ((a - d) mod B)" using n wide_ok_uniform[OF w] by (auto simp: whole_words_def)
    moreover have "n - n mod 4 \<le> n" "n - (n - n mod 4) = n mod 4" by auto
    ultimately show ?thesis using f len
      by (auto simp: fill_one_shot_def Let_def SetMemPattern_at SetMem_at)
  qed
qed

lemma rows_region:
  assumes P: "P = PixelsPerScanLine c" "0 < P" "0 < BytesPerPixel c"
  shows "in_rect c 0 y P H a \<longleftrightarrow> row_base c 0 y \<le> a \<and> a < row_base c 0 y + P * BytesPerPixel c * H"
proof -
  let ?B = "BytesPerPixel c"
  define o' where "o' = a - FrameBuffer c"
  define p where "p = o' div ?B"
  have 1: "?B * k \<le> o' \<longleftrightarrow> k \<le> p" for k
    using P(3) by (simp add: p_def less_eq_div_iff_mult_less_eq mult.commute)
  have 3: "k \<le> p div P \<longleftrightarrow> k * P \<le> p" for k
    using P(2) by (simp add: less_eq_div_iff_mult_less_eq)
  have 2: "o' < ?B * ((y + H) * P) \<longleftrightarrow> p div P < y + H"
    using 1[of "(y + H) * P"] 3[of "y + H"] by linarith
  have "row_base c 0 y \<le> a \<and> a < row_base c 0 y + P * ?B * H
      \<longleftrightarrow> FrameBuffer c \<le> a \<and> ?B * (y * P) \<le> o' \<and> o' < ?B * ((y + H) * P)"
    by (auto simp: row_base_def P(1)[symmetric] o'_def algebra_simps)
  also have "\<dots> \<longleftrightarrow> FrameBuffer c \<le> a \<and> y \<le> p div P \<and> p div P < y + H"
    unfolding 2 using 1[of "y * P"] 3[of y] by simp
  also have "\<dots> \<longleftrightarrow> in_rect c 0 y P H a"
    using P(1,2) by (simp add: in_rect_def Let_def p_def o'_def)
  finally show ?thesis ..
qed

lemma fill_guards:
  assumes "surface c" "x + W \<le> Width c" "y + H \<le> Height c" "0 < W" "0 < H"
  shows "\<not> Height c < wrap (y + H)" "\<not> Width c < wrap (x + W)" "wrap (H + y) = y + H"
proof -
  have le: "wrap n \<le> n" for n by (simp add: wrap_def)
  show "\<not> Height c < wrap (y + H)" "\<not> Width c < wrap (x + W)"
    using le[of "y + H"] le[of "x + W"] assms(2,3) by linarith+
  have P: "0 < PixelsPerScanLine c" "0 < BytesPerPixel c" using assms by (auto simp: surface_def)
  have "Height c \<le> Height c * PixelsPerScanLine c" using P(1) by (simp)
  also have "\<dots> \<le> BytesPerPixel c * (Height c * PixelsPerScanLine c)" by (rule le_mult_pos[OF P(2)])
  finally have "Height c \<le> BytesPerPixel c * (Height c * PixelsPerScanLine c)" .
  moreover have "FrameBuffer c + BytesPerPixel c * (Height c * PixelsPerScanLine c) < 2 ^ 64"
    using assms(1) by (simp add: surface_def)
  ultimately have "Height c < 2 ^ 64" by linarith
  then show "wrap (H + y) = y + H" using assms(3) by simp
qed

lemma fill_exact:
  assumes c: "surface c" and x: "x + W \<le> Width c" and y: "y + H \<le> Height c" and n: "0 < W" "0 < H"
    and tail: "W = PixelsPerScanLine c \<Longrightarrow> whole_words (BytesPerPixel c) (W * BytesPerPixel c * H)"
  shows "\<exists>m'. FrameBufferBltLibVideoFill c Color x y W H m = (EFI_SUCCESS, m') \<and>
    (\<forall>a. \<not> in_line_buffer c W a \<longrightarrow>
       m' a = (if in_rect c x y W H a
               then byte_of (blt_to_video c (read32 m Color)) ((a - FrameBuffer c) mod BytesPerPixel c)
               else m a))"
proof -
  let ?v = "blt_to_video c (read32 m Color)"
  note g = fill_guards[OF c x y n]
  have B: "0 < BytesPerPixel c" "BytesPerPixel c \<le> 4" "x + W \<le> PixelsPerScanLine c" "y < Height c"
    using c x y n by (auto simp: surface_def)
  obtain u w where uw: "make_wide_fill (BytesPerPixel c) ?v = (u, w)" by force
  note w = make_wide_ok[OF B(1,2) uw]
  show ?thesis
  proof (cases "u \<and> x = 0 \<and> W = PixelsPerScanLine c")
    case True
    have sz: "W * BytesPerPixel c * H \<le> BytesPerPixel c * (Height c * PixelsPerScanLine c)"
      using True y by (simp add: algebra_simps)
    moreover have "FrameBuffer c + BytesPerPixel c * (Height c * PixelsPerScanLine c) < 2 ^ 64"
      using c by (simp add: surface_def)
    ultimately have "W * BytesPerPixel c * H < 2 ^ 64" by linarith
    then have "wrap (wrap (W * BytesPerPixel c) * H) = W * BytesPerPixel c * H"
      using surface_row(2)[OF c x B(4)] by simp
    then show ?thesis
      using True g uw n surface_row(1)[OF c x B(4)] fill_one_shot_at[of "BytesPerPixel c" ?v w] w B tail
        rows_region[of W c y H] row_phase[of c 0 y]
      by (auto simp: FrameBufferBltLibVideoFill_def)
  next
    case False
    then show ?thesis
      using g uw n fill_rows_state[OF c x n(1) w y, of m] in_rect_rows[OF B(1,3)]
      by (auto simp: FrameBufferBltLibVideoFill_def fill_state_def split: prod.splits)
  qed
qed

text \<open>C4: A fill writes every byte of its rectangle with the converted colour and leaves every
  byte outside the rectangle and the line buffer as it was, whether it runs as one block, in
  aligned eight-byte stores or from the doubled line buffer, for every pixel size and
  alignment; only a one-block fill with an odd tail of a two- or four-byte pixel is excluded.\<close>

theorem blt_fill_exact:
  assumes c: "surface c" and x: "x + W \<le> Width c" and y: "y + H \<le> Height c" and n: "0 < W" "0 < H"
    and tail: "W = PixelsPerScanLine c \<Longrightarrow> whole_words (BytesPerPixel c) (W * BytesPerPixel c * H)"
  shows "\<exists>m'. FrameBufferBltLibVideoFill c Color x y W H m = (EFI_SUCCESS, m') \<and>
    (\<forall>a. \<not> in_line_buffer c W a \<longrightarrow>
       m' a = (if in_rect c x y W H a
               then byte_of (blt_to_video c (read32 m Color)) ((a - FrameBuffer c) mod BytesPerPixel c)
               else m a))"
  by (rule fill_exact [OF assms])


definition ex_surface :: FRAME_BUFFER_CONFIGURE where
  "ex_surface = \<lparr>PixelsPerScanLine = 1080, BytesPerPixel = 4, Width = 1080, Height = 2220,
     FrameBuffer = 0xcc000000, PixelFormat = PixelBlueGreenRedReserved8BitPerColor,
     PixelMasks = mBgrPixelMasks, PixelShl = [0, 0, 0], PixelShr = [0, 0, 0], LineBuffer = 0x90000034\<rparr>"

lemma ex_surface_ok: "surface ex_surface"
  by (simp add: surface_def ex_surface_def)

theorem blt_fill_exact_witness:
  "\<exists>m'. FrameBufferBltLibVideoFill ex_surface 16 0 10 1080 20 (\<lambda>_. 7) = (EFI_SUCCESS, m') \<and>
    (\<forall>a. \<not> in_line_buffer ex_surface 1080 a \<longrightarrow>
       m' a = (if in_rect ex_surface 0 10 1080 20 a
               then byte_of (blt_to_video ex_surface (read32 (\<lambda>_. 7) 16)) ((a - FrameBuffer ex_surface) mod BytesPerPixel ex_surface)
               else 7))"
  by (rule blt_fill_exact[OF ex_surface_ok]) (simp_all add: ex_surface_def whole_words_def)

text \<open>A one-block fill of a 16-bit surface with an odd number of pixels (at least five)
  ends in a byte-wise tail, which writes the low byte of the colour twice: the last pixel
  gets its low byte in both halves.\<close>

theorem blt_fill_odd_tail:
  fixes m :: mem and Color :: nat
  assumes c: "surface c" "BytesPerPixel c = 2" and W: "W = PixelsPerScanLine c" "W \<le> Width c"
    and y: "y + H \<le> Height c" and n: "odd (W * H)" "5 \<le> W * H"
  defines "v \<equiv> blt_to_video c (read32 m Color)"
  defines "last_pixel \<equiv> row_base c 0 y + 2 * (W * H - 1)"
  shows "\<exists>m'. FrameBufferBltLibVideoFill c Color 0 y W H m = (EFI_SUCCESS, m') \<and>
    m' last_pixel = byte_of v 0 \<and> m' (last_pixel + 1) = byte_of v 0"
proof -
  have n0: "0 < W" "0 < H" using n(1) by (auto simp: odd_pos)
  note g = fill_guards[OF c(1) _ y n0, of 0]
  obtain u w where uw: "make_wide_fill 2 v = (u, w)" by force
  have u: u using uw by (simp add: make_wide_fill_def)
  have w: "wide_ok 2 v True w" using make_wide_ok[OF _ _ uw] u by simp
  have w0: "w ! 0 = byte_of v 0" using w by (simp add: wide_ok_def)
  have yH: "y < Height c" using y n0 by simp
  have "W * 2 * H \<le> BytesPerPixel c * (Height c * PixelsPerScanLine c)"
    using c(2) W y by (simp add: algebra_simps)
  moreover have "FrameBuffer c + BytesPerPixel c * (Height c * PixelsPerScanLine c) < 2 ^ 64"
    using c by (simp add: surface_def)
  ultimately have "W * 2 * H < 2 ^ 64" by linarith
  then have sz: "wrap (wrap (W * BytesPerPixel c) * H) = 2 * (W * H)"
    using surface_row(2)[OF c(1) _ yH, of 0 W] W(2) c(2) by (simp add: ac_simps)
  obtain q where q: "W * H = 2 * q + 1" using n(1) by (elim oddE)
  then have q2: "2 \<le> q" using n(2) by simp
  have res: "FrameBufferBltLibVideoFill c Color 0 y W H m
      = (EFI_SUCCESS, fill_one_shot (row_base c 0 y) (2 * (W * H)) w m)"
    using g u uw n0 W sz surface_row(1)[OF c(1) _ yH, of 0 W] c(2)
    by (simp add: FrameBufferBltLibVideoFill_def v_def)
  define n where "n = 2 * (W * H)"
  have n': "n mod 4 = 2" "n - 2 = 4 * q" "8 \<le> n" "row_base c 0 y + n - 2 = row_base c 0 y + 4 * q"
    using q2 q by (simp_all add: n_def) presburger
  have "fill_one_shot (row_base c 0 y) n w m
      = SetMem (row_base c 0 y + 4 * q) 2 (byte_of v 0) (SetMemPattern (row_base c 0 y) (4 * q) (take 4 w) m)"
    using n' w0 by (simp add: fill_one_shot_def Let_def)
  with res have "FrameBufferBltLibVideoFill c Color 0 y W H m = (EFI_SUCCESS,
      SetMem (row_base c 0 y + 4 * q) 2 (byte_of v 0) (SetMemPattern (row_base c 0 y) (4 * q) (take 4 w) m))"
    by (simp only: n_def)
  then show ?thesis by (simp add: last_pixel_def q SetMem_at)
qed

theorem blt_fill_odd_tail_witness:
  "\<exists>m'. FrameBufferBltLibVideoFill (ex_surface\<lparr>BytesPerPixel := 2, PixelsPerScanLine := 5, Width := 5\<rparr>) 16 0 0 5 1 (\<lambda>_. 7) = (EFI_SUCCESS, m') \<and>
    m' (row_base (ex_surface\<lparr>BytesPerPixel := 2, PixelsPerScanLine := 5, Width := 5\<rparr>) 0 0 + 2 * (5 * 1 - 1))
      = byte_of (blt_to_video (ex_surface\<lparr>BytesPerPixel := 2, PixelsPerScanLine := 5, Width := 5\<rparr>) (read32 (\<lambda>_. 7) 16)) 0 \<and>
    m' (row_base (ex_surface\<lparr>BytesPerPixel := 2, PixelsPerScanLine := 5, Width := 5\<rparr>) 0 0 + 2 * (5 * 1 - 1) + 1)
      = byte_of (blt_to_video (ex_surface\<lparr>BytesPerPixel := 2, PixelsPerScanLine := 5, Width := 5\<rparr>) (read32 (\<lambda>_. 7) 16)) 0"
  by (rule blt_fill_odd_tail) (simp_all add: surface_def ex_surface_def)

text \<open>The range check adds coordinates with the wrap-around of UINTN: a one-pixel fill at
  column 2^64 - 1 passes it and writes the pixel before the first one of the frame
  buffer, outside the screen.\<close>

theorem blt_fill_check_wraps:
  assumes c: "surface c" and H: "0 < Height c" and FB: "BytesPerPixel c \<le> FrameBuffer c"
    and k: "k < BytesPerPixel c"
  shows "\<exists>m'. FrameBufferBltLibVideoFill c Color (2 ^ 64 - 1) 0 1 1 m = (EFI_SUCCESS, m') \<and>
    m' (FrameBuffer c - BytesPerPixel c + k) = byte_of (blt_to_video c (read32 m Color)) k"
proof -
  let ?v = "blt_to_video c (read32 m Color)" and ?B = "BytesPerPixel c"
  have B: "0 < ?B" "?B \<le> 4" and top: "FrameBuffer c < 2 ^ 64" using c by (auto simp: surface_def)
  obtain u w where uw: "make_wide_fill ?B ?v = (u, w)" by force
  note w = make_wide_ok[OF B uw]
  have "?B * (2 ^ 64 - 1) = (?B - 1) * 2 ^ 64 + (2 ^ 64 - ?B)" using B by (cases ?B) simp_all
  moreover have "((?B - 1) * 2 ^ 64 + (2 ^ 64 - ?B)) mod 2 ^ 64 = (2 ^ 64 - ?B) mod 2 ^ 64"
    by (rule mod_mult_self3)
  ultimately have "wrap (?B * (2 ^ 64 - 1)) = 2 ^ 64 - ?B" using B(1) by (simp add: wrap_def)
  then have "pixel_offset c (2 ^ 64 - 1) 0 = 2 ^ 64 - ?B" by (simp add: pixel_offset_def)
  moreover have "FrameBuffer c + (2 ^ 64 - ?B) = (FrameBuffer c - ?B) + 2 ^ 64" using FB B by simp
  ultimately have d: "pixel_address c (2 ^ 64 - 1) 0 = FrameBuffer c - ?B"
    using top FB unfolding pixel_address_def wrap_def by (metis mod_add_self2 less_imp_diff_less mod_less)
  have res: "FrameBufferBltLibVideoFill c Color (2 ^ 64 - 1) 0 1 1 m
      = (EFI_SUCCESS, snd (fill_row c u w (2 ^ 64 - 1) 1 0 (False, m)))"
    using H uw by (simp add: FrameBufferBltLibVideoFill_def wrap_def)
  have "snd (fill_row c u w X 1 0 (False, m)) (p + k) = byte_of ?v k"
    if d: "pixel_address c X 0 = p" for X p
    using k B w fill_wide_line_at[of ?B ?v w] tiledD[OF line_buffer_ready[OF w B(2), of 1], of k]
    by (auto simp: fill_row_def Let_def d CopyMem_at)
  from this[OF d] show ?thesis using res by simp
qed

theorem blt_fill_check_wraps_witness:
  "\<exists>m'. FrameBufferBltLibVideoFill ex_surface 16 (2 ^ 64 - 1) 0 1 1 (\<lambda>_. 7) = (EFI_SUCCESS, m') \<and>
    m' (FrameBuffer ex_surface - BytesPerPixel ex_surface + 2) = byte_of (blt_to_video ex_surface (read32 (\<lambda>_. 7) 16)) 2"
  by (rule blt_fill_check_wraps[OF ex_surface_ok]) (simp_all add: ex_surface_def)

section \<open>Pixel layouts\<close>

lemma HighBitSet32_eq:
  assumes "bit v n" "\<And>k. n < k \<Longrightarrow> \<not> bit v k"
  shows "HighBitSet32 v = int n"
proof -
  have n: "n < 32" using bit_imp_le_length[OF assms(1)] by simp
  have "[0..<32] = [0..<n] @ [n] @ [Suc n..<32]"
    using upt_add_eq_append[of 0 n "32 - n"] upt_conv_Cons[OF n] n by simp
  then have "filter (bit v) (rev [0..<32]) = n # filter (bit v) (rev [0..<n])"
    using assms by (simp add: rev_filter[symmetric]) 
  then show ?thesis by (simp add: HighBitSet32_def)
qed


lemma HighBitSet32_bounds: "- 1 \<le> HighBitSet32 v" "HighBitSet32 v < 32"
proof -
  have *: "n < 32" if "filter (bit v) (rev [0..<32]) = n # ns" for n ns
    using arg_cong[OF that, of set] by auto
  show "- 1 \<le> HighBitSet32 v" "HighBitSet32 v < 32"
    using * by (auto simp: HighBitSet32_def split: list.split)
qed

definition byte_mask :: "nat \<Rightarrow> u32" where
  "byte_mask i = push_bit (8 * i) 0xff"

lemma bit_byte_mask: "bit (byte_mask i) n \<longleftrightarrow> 8 * i \<le> n \<and> n < 8 * i + 8 \<and> n < 32"
proof -
  have m: "(0xff :: u32) = mask 8" by (simp add: mask_eq_exp_minus_1)
  show ?thesis unfolding byte_mask_def m bit_push_bit_iff bit_mask_iff by auto
qed

lemma byte_masks: "(0xff :: u32) = byte_mask 0" "(0xff00 :: u32) = byte_mask 1"
  "(0xff0000 :: u32) = byte_mask 2" "(0xff000000 :: u32) = byte_mask 3"
  by (simp_all add: byte_mask_def push_bit_eq_mult)

lemma HighBitSet32_byte_mask: "i < 4 \<Longrightarrow> HighBitSet32 (byte_mask i) = int (8 * i + 7)"
  by (rule HighBitSet32_eq) (auto simp: bit_byte_mask)

lemma HighBitSet32_all: "HighBitSet32 (byte_mask i OR byte_mask j OR byte_mask k OR byte_mask 3) = 31"
  using HighBitSet32_eq[of "byte_mask i OR byte_mask j OR byte_mask k OR byte_mask 3" 31]
  by (simp add: bit_simps bit_byte_mask)

lemma configure_rgb: "FrameBufferBltLibConfigurePixelFormat mRgbPixelMasks = (4, [0, 0, 16], [16, 0, 0])"
  using HighBitSet32_all[of 0 1 2]
  by (simp add: FrameBufferBltLibConfigurePixelFormat_def mRgbPixelMasks_def byte_masks pixel_shl_def
      HighBitSet32_byte_mask upt_rec)

lemma configure_bgr: "FrameBufferBltLibConfigurePixelFormat mBgrPixelMasks = (4, [0, 0, 0], [0, 0, 0])"
  using HighBitSet32_all[of 2 1 0]
  by (simp add: FrameBufferBltLibConfigurePixelFormat_def mBgrPixelMasks_def byte_masks pixel_shl_def
      HighBitSet32_byte_mask upt_rec)

lemma byte_masks_low: "(0xffffff :: u32) = byte_mask 0 OR byte_mask 1 OR byte_mask 2"
  by (simp add: byte_mask_def push_bit_eq_mult)

lemma byte_mask_disjoint:
  "i < 4 \<Longrightarrow> j < 4 \<Longrightarrow> byte_mask i AND byte_mask j = (if i = j then byte_mask i else 0)"
  by (rule bit_word_eqI) (auto simp: bit_byte_mask bit_and_iff)

lemma byte_mask_select:
  assumes "i < 4" "j < 4" "k < 4" "distinct [i, j, k]"
  shows "(x AND byte_mask i OR y AND byte_mask j OR z AND byte_mask k) AND byte_mask i = x AND byte_mask i"
    "(x AND byte_mask i OR y AND byte_mask j OR z AND byte_mask k) AND byte_mask j = y AND byte_mask j"
    "(x AND byte_mask i OR y AND byte_mask j OR z AND byte_mask k) AND byte_mask k = z AND byte_mask k"
  using assms by (simp_all add: bit.conj_disj_distrib2 and.assoc byte_mask_disjoint)

lemma byte_mask_shift: "i \<le> j \<Longrightarrow> j < 4 \<Longrightarrow>
    push_bit (8 * (j - i)) (drop_bit (8 * (j - i)) p AND byte_mask i) = p AND byte_mask j"
  "i \<le> j \<Longrightarrow> j < 4 \<Longrightarrow>
    drop_bit (8 * (j - i)) (push_bit (8 * (j - i)) p AND byte_mask j) = p AND byte_mask i"
  by (rule bit_word_eqI; auto simp: bit_byte_mask bit_and_iff bit_push_bit_iff bit_drop_bit_eq)+

lemma low_bytes: "p AND 0xffffff = p AND byte_mask 0 OR p AND byte_mask 1 OR p AND byte_mask 2"
  by (simp only: byte_masks_low bit.conj_disj_distrib)

lemma pixel_roundtrip_rgb:
  assumes c: "PixelMasks c = mRgbPixelMasks" "PixelShl c = [0, 0, 16]" "PixelShr c = [16, 0, 0]"
  shows "video_to_blt c (blt_to_video c p) = p AND 0xffffff"
proof -
  let ?V = "drop_bit 16 p AND byte_mask 0 OR p AND byte_mask 1 OR push_bit 16 p AND byte_mask 2"
  have "blt_to_video c p = ?V"
    using c by (simp add: blt_to_video_def mRgbPixelMasks_def byte_masks)
  then have "video_to_blt c (blt_to_video c p)
      = push_bit 16 (?V AND byte_mask 0) OR ?V AND byte_mask 1 OR drop_bit 16 (?V AND byte_mask 2)"
    using c by (simp add: video_to_blt_def mRgbPixelMasks_def byte_masks)
  also have "\<dots> = push_bit 16 (drop_bit 16 p AND byte_mask 0) OR p AND byte_mask 1
      OR drop_bit 16 (push_bit 16 p AND byte_mask 2)"
    by (subst byte_mask_select, simp, simp, simp, simp)+ (rule refl)
  also have "\<dots> = p AND 0xffffff"
    using byte_mask_shift[of 0 2 p] by (simp add: low_bytes or.commute or.left_commute)
  finally show ?thesis .
qed

lemma pixel_roundtrip_bgr:
  assumes c: "PixelMasks c = mBgrPixelMasks" "PixelShl c = [0, 0, 0]" "PixelShr c = [0, 0, 0]"
  shows "video_to_blt c (blt_to_video c p) = p AND 0xffffff"
proof -
  let ?V = "p AND byte_mask 2 OR p AND byte_mask 1 OR p AND byte_mask 0"
  have "blt_to_video c p = ?V"
    using c by (simp add: blt_to_video_def mBgrPixelMasks_def byte_masks)
  then have "video_to_blt c (blt_to_video c p)
      = ?V AND byte_mask 2 OR ?V AND byte_mask 1 OR ?V AND byte_mask 0"
    using c by (simp add: video_to_blt_def mBgrPixelMasks_def byte_masks)
  also have "\<dots> = ?V"
    by (subst byte_mask_select, simp, simp, simp, simp)+ (rule refl)
  also have "\<dots> = p AND 0xffffff" by (simp add: low_bytes or.commute or.left_commute)
  finally show ?thesis .
qed

section \<open>Screen to screen\<close>

lemma copy_lines_up_at:
  "d \<le> s \<Longrightarrow> n \<le> stride \<Longrightarrow> s + (h - 1) * stride < 2 ^ 64 \<Longrightarrow>
   copy_lines_up d s n stride h m a =
     (if \<exists>r<h. d + r * stride \<le> a \<and> a < d + r * stride + n then m (s + (a - d)) else m a)"
proof (induction h arbitrary: d s m)
  case (Suc h)
  show ?case
  proof (cases "h = 0")
    case True
    then show ?thesis by (auto simp: CopyMem_at)
  next
    case False
    let ?m1 = "CopyMem d s n m"
    have eq: "s + (h - 1) * stride + stride = s + h * stride" using False by (cases h) simp_all
    have "s + stride \<le> s + h * stride" using False by simp
    moreover have "s + h * stride < 2 ^ 64" using Suc.prems(3) by simp
    ultimately have "s + stride < 2 ^ 64" by linarith
    then have w: "wrap (d + stride) = d + stride" "wrap (s + stride) = s + stride"
      using Suc.prems(1) by simp_all
    have IH: "copy_lines_up d s n stride (Suc h) m a =
        (if \<exists>r<h. d + stride + r * stride \<le> a \<and> a < d + stride + r * stride + n
         then ?m1 (s + stride + (a - (d + stride))) else ?m1 a)"
      using Suc.prems eq by (simp add: w Suc.IH)
    have ex: "(\<exists>r<Suc h. d + r * stride \<le> a \<and> a < d + r * stride + n) \<longleftrightarrow>
        (d \<le> a \<and> a < d + n) \<or> (\<exists>r<h. d + stride + r * stride \<le> a \<and> a < d + stride + r * stride + n)"
      by (simp add: Ex_less_Suc2 add.assoc)
    show ?thesis
    proof (cases "\<exists>r<h. d + stride + r * stride \<le> a \<and> a < d + stride + r * stride + n")
      case True
      then have ge: "d + stride \<le> a" by auto
      then have e: "s + stride + (a - (d + stride)) = s + (a - d)" "\<not> s + (a - d) < d + n"
        using Suc.prems by auto
      then have "?m1 (s + stride + (a - (d + stride))) = m (s + (a - d))"
        by (simp only: e CopyMem_at) simp
      then show ?thesis using True unfolding IH ex by simp
    next
      case False
      then show ?thesis unfolding IH ex by (auto simp: CopyMem_at)
    qed
  qed
qed simp

text \<open>Backwards, starting at \<open>d\<close> and \<open>s\<close>: rows \<open>d\<close>, \<open>d - stride\<close>, and so on.\<close>

lemma copy_lines_down_at:
  "s \<le> d \<Longrightarrow> n \<le> stride \<Longrightarrow> d + h * stride < 2 ^ 64 \<Longrightarrow>
   copy_lines_down (d + h * stride) (s + h * stride) n stride h m a =
     (if \<exists>r. 1 \<le> r \<and> r \<le> h \<and> d + r * stride \<le> a \<and> a < d + r * stride + n then m (a - (d - s)) else m a)"
proof (induction h arbitrary: m)
  case (Suc h)
  let ?D = "d + Suc h * stride" and ?S = "s + Suc h * stride"
  let ?m1 = "CopyMem ?D ?S n m"
  have lt: "d + h * stride < 2 ^ 64" "s + h * stride < 2 ^ 64" using Suc.prems by simp_all
  have "?D + 2 ^ 64 - stride = d + h * stride + 2 ^ 64" "?S + 2 ^ 64 - stride = s + h * stride + 2 ^ 64"
    by simp_all
  then have w: "wrap (?D + 2 ^ 64 - stride) = d + h * stride" "wrap (?S + 2 ^ 64 - stride) = s + h * stride"
    using lt by (simp_all only: wrap_def mod_add_self2 mod_less)
  have IH: "copy_lines_down ?D ?S n stride (Suc h) m a =
    (if \<exists>r. 1 \<le> r \<and> r \<le> h \<and> d + r * stride \<le> a \<and> a < d + r * stride + n then ?m1 (a - (d - s)) else ?m1 a)"
    using Suc.IH[OF Suc.prems(1,2) lt(1), of ?m1] by (simp only: copy_lines_down.simps w)
  have ex: "(\<exists>r. 1 \<le> r \<and> r \<le> Suc h \<and> d + r * stride \<le> a \<and> a < d + r * stride + n) \<longleftrightarrow>
      (?D \<le> a \<and> a < ?D + n) \<or> (\<exists>r. 1 \<le> r \<and> r \<le> h \<and> d + r * stride \<le> a \<and> a < d + r * stride + n)"
    by (auto simp: le_Suc_eq)
  show ?case
  proof (cases "\<exists>r. 1 \<le> r \<and> r \<le> h \<and> d + r * stride \<le> a \<and> a < d + r * stride + n")
    case True
    then obtain r where r: "r \<le> h" "d + r * stride \<le> a" "a < d + r * stride + n" by blast
    have "r * stride \<le> h * stride" using r by simp
    moreover have "?D = d + stride + h * stride" by simp
    ultimately have "a < ?D" using r Suc.prems(2) by linarith
    then have "a - (d - s) < ?D" by simp
    then show ?thesis using True unfolding IH ex by (simp add: CopyMem_at)
  next
    case False
    have "?D \<le> a \<Longrightarrow> ?S + (a - ?D) = a - (d - s)" using Suc.prems by auto
    then show ?thesis using False unfolding IH ex by (auto simp: CopyMem_at)
  qed
qed auto


lemma row_base_step: "row_base c x y + r * (BytesPerPixel c * PixelsPerScanLine c) = row_base c x (y + r)"
  by (simp add: row_base_def algebra_simps)

lemma video_to_video_eq:
  assumes c: "surface c" "BytesPerPixel c * PixelsPerScanLine c < 2 ^ 32"
    and src: "sx + W \<le> Width c" "sy + H \<le> Height c" and dst: "dx + W \<le> Width c" "dy + H \<le> Height c"
    and n: "0 < W" "0 < H"
  shows "FrameBufferBltLibVideoToVideo c sx sy dx dy W H m = (EFI_SUCCESS,
    if row_base c sx sy < row_base c dx dy
    then copy_lines_down (wrap (row_base c dx (dy + H))) (wrap (row_base c sx (sy + H))) (W * BytesPerPixel c)
           (BytesPerPixel c * PixelsPerScanLine c) H m
    else copy_lines_up (row_base c dx dy) (row_base c sx sy) (W * BytesPerPixel c)
           (BytesPerPixel c * PixelsPerScanLine c) H m)"
proof -
  have y: "sy < Height c" "dy < Height c" using src dst n by simp_all
  note s = surface_row[OF c(1) src(1) y(1)] and d = surface_row[OF c(1) dst(1) y(2)]
  show ?thesis
    using fill_guards[OF c(1) src n] fill_guards[OF c(1) dst n] n c(2)
    by (simp add: FrameBufferBltLibVideoToVideo_def Let_def s(1,2) d(1) row_base_step)
qed

lemma scroll_up_exact:
  assumes c: "surface c" "BytesPerPixel c * PixelsPerScanLine c < 2 ^ 32"
    and src: "sx + W \<le> Width c" "sy + H \<le> Height c" and dst: "dx + W \<le> Width c" "dy + H \<le> Height c"
    and n: "0 < W" "0 < H" and le: "row_base c dx dy \<le> row_base c sx sy"
  shows "\<exists>m'. FrameBufferBltLibVideoToVideo c sx sy dx dy W H m = (EFI_SUCCESS, m') \<and>
    (\<forall>a. m' a = (if in_rect c dx dy W H a then m (row_base c sx sy + (a - row_base c dx dy)) else m a))"
proof -
  let ?S = "BytesPerPixel c * PixelsPerScanLine c"
  have B: "0 < BytesPerPixel c" "dx + W \<le> PixelsPerScanLine c" using c dst by (auto simp: surface_def)
  have stride: "W * BytesPerPixel c \<le> ?S" using B(2) by simp
  have "sy + H - 1 < Height c" using src n by simp
  note surface_bounds[OF c(1) src(1) this]
  moreover have "FrameBuffer c + BytesPerPixel c * (Height c * PixelsPerScanLine c) < 2 ^ 64"
    using c by (simp add: surface_def)
  moreover have "row_base c sx sy + (H - 1) * ?S = row_base c sx (sy + H - 1)"
    using n by (simp add: row_base_step)
  ultimately have top: "row_base c sx sy + (H - 1) * ?S < 2 ^ 64" by (simp add: row_base_def)
  have ex: "(\<exists>r<H. row_base c dx dy + r * ?S \<le> a \<and> a < row_base c dx dy + r * ?S + W * BytesPerPixel c)
      \<longleftrightarrow> in_rect c dx dy W H a" for a
    unfolding in_rect_rows[OF B] row_base_step in_row_def
    by (metis add_less_cancel_left le_add1 le_add_diff_inverse)
  show ?thesis
    using le copy_lines_up_at[OF le stride top, of m]
    by (simp add: video_to_video_eq[OF c src dst n] ex)
qed

text \<open>C35: Copying a rectangle to a place not after it in the frame buffer (a scroll up, or
  sideways to the left) moves every byte exactly, even when the two rectangles overlap, and
  leaves everything outside the destination as it was.\<close>

theorem blt_scroll_up_exact:
  assumes c: "surface c" "BytesPerPixel c * PixelsPerScanLine c < 2 ^ 32"
    and src: "sx + W \<le> Width c" "sy + H \<le> Height c" and dst: "dx + W \<le> Width c" "dy + H \<le> Height c"
    and n: "0 < W" "0 < H" and le: "row_base c dx dy \<le> row_base c sx sy"
  shows "\<exists>m'. FrameBufferBltLibVideoToVideo c sx sy dx dy W H m = (EFI_SUCCESS, m') \<and>
    (\<forall>a. m' a = (if in_rect c dx dy W H a then m (row_base c sx sy + (a - row_base c dx dy)) else m a))"
  by (rule scroll_up_exact [OF assms])

theorem blt_scroll_up_exact_witness:
  "\<exists>m'. FrameBufferBltLibVideoToVideo ex_surface 0 12 0 0 1080 2208 (\<lambda>a. of_nat a) = (EFI_SUCCESS, m') \<and>
    (\<forall>a. m' a = (if in_rect ex_surface 0 0 1080 2208 a
        then of_nat (row_base ex_surface 0 12 + (a - row_base ex_surface 0 0)) else of_nat a))"
  by (rule blt_scroll_up_exact[OF ex_surface_ok]) (simp_all add: ex_surface_def row_base_def)

text \<open>Copying a rectangle to a later place starts one line too far in both rectangles: the
  first destination line is never written and the line after the last one is overwritten, so
  the whole destination is off by one scan line.\<close>

theorem blt_scroll_down_shifted:
  assumes c: "surface c" "BytesPerPixel c * PixelsPerScanLine c < 2 ^ 32"
    and src: "sx + W \<le> Width c" "sy + H \<le> Height c" and dst: "dx + W \<le> Width c" "dy + H \<le> Height c"
    and n: "0 < W" "0 < H" and le: "row_base c sx sy < row_base c dx dy"
    and slack: "FrameBuffer c + BytesPerPixel c * (Suc (Height c) * PixelsPerScanLine c) < 2 ^ 64"
  shows "\<exists>m'. FrameBufferBltLibVideoToVideo c sx sy dx dy W H m = (EFI_SUCCESS, m') \<and>
    (\<forall>a. m' a = (if in_rect c dx (dy + 1) W H a then m (a - (row_base c dx dy - row_base c sx sy)) else m a))"
proof -
  let ?S = "BytesPerPixel c * PixelsPerScanLine c"
  have B: "0 < BytesPerPixel c" "dx + W \<le> PixelsPerScanLine c" using c dst by (auto simp: surface_def)
  have stride: "W * BytesPerPixel c \<le> ?S" using B(2) by simp
  have "(dy + H) * PixelsPerScanLine c \<le> Height c * PixelsPerScanLine c" using dst by (intro mult_le_mono1)
  then have "(dy + H) * PixelsPerScanLine c + dx \<le> Suc (Height c) * PixelsPerScanLine c"
    using B(2) unfolding mult_Suc by linarith
  then have "BytesPerPixel c * ((dy + H) * PixelsPerScanLine c + dx)
      \<le> BytesPerPixel c * (Suc (Height c) * PixelsPerScanLine c)" by (rule mult_le_mono2)
  then have top: "row_base c dx (dy + H) < 2 ^ 64" using slack by (simp only: row_base_def)
  have eqs: "row_base c dx (dy + H) = row_base c dx dy + H * ?S" "row_base c sx (sy + H) = row_base c sx sy + H * ?S"
    by (simp_all add: row_base_step)
  have ex: "(\<exists>r. 1 \<le> r \<and> r \<le> H \<and> row_base c dx dy + r * ?S \<le> a \<and> a < row_base c dx dy + r * ?S + W * BytesPerPixel c)
      \<longleftrightarrow> in_rect c dx (dy + 1) W H a" for a
  proof
    assume "\<exists>r. 1 \<le> r \<and> r \<le> H \<and> row_base c dx dy + r * ?S \<le> a \<and> a < row_base c dx dy + r * ?S + W * BytesPerPixel c"
    then obtain r where "1 \<le> r" "r \<le> H" "in_row c dx W (dy + r) a"
      unfolding row_base_step in_row_def by blast
    then show "in_rect c dx (dy + 1) W H a"
      unfolding in_rect_rows[OF B] by (intro exI[of _ "dy + r"]) simp
  next
    assume "in_rect c dx (dy + 1) W H a"
    then obtain i where "dy + 1 \<le> i" "i < dy + 1 + H" "in_row c dx W i a"
      unfolding in_rect_rows[OF B] by blast
    then show "\<exists>r. 1 \<le> r \<and> r \<le> H \<and> row_base c dx dy + r * ?S \<le> a \<and> a < row_base c dx dy + r * ?S + W * BytesPerPixel c"
      unfolding row_base_step by (intro exI[of _ "i - dy"]) (auto simp: in_row_def)
  qed
  have "wrap (row_base c dx (dy + H)) = row_base c dx dy + H * ?S"
    "wrap (row_base c sx (sy + H)) = row_base c sx sy + H * ?S"
    using top le eqs by simp_all
  moreover have "copy_lines_down (row_base c dx dy + H * ?S) (row_base c sx sy + H * ?S) (W * BytesPerPixel c) ?S H m a
      = (if in_rect c dx (dy + 1) W H a then m (a - (row_base c dx dy - row_base c sx sy)) else m a)" for a
    using copy_lines_down_at[OF less_imp_le[OF le] stride top[unfolded eqs]] by (simp only: ex)
  ultimately show ?thesis using le by (simp add: video_to_video_eq[OF c src dst n])
qed


theorem blt_scroll_down_shifted_witness:
  "\<exists>m'. FrameBufferBltLibVideoToVideo ex_surface 0 0 0 12 1080 2208 (\<lambda>a. of_nat a) = (EFI_SUCCESS, m') \<and>
    (\<forall>a. m' a = (if in_rect ex_surface 0 (12 + 1) 1080 2208 a
        then of_nat (a - (row_base ex_surface 0 12 - row_base ex_surface 0 0)) else of_nat a))"
  by (rule blt_scroll_down_shifted[OF ex_surface_ok]) (simp_all add: ex_surface_def row_base_def)

section \<open>Configuration\<close>

text \<open>C36: The two standard layouts negotiate their size: a call with too small a size answers
  the exact size needed, a call with that size (or more) succeeds, keeps the caller's line
  buffer and yields pixel conversions that are inverse to each other on the 24 colour bits.\<close>

theorem blt_configure_roundtrip:
  assumes std: "case InfoPixelFormat Info of PixelRedGreenBlueReserved8BitPerColor \<Rightarrow> True
      | PixelBlueGreenRedReserved8BitPerColor \<Rightarrow> True | _ \<Rightarrow> False"
    and res: "HorizontalResolution Info \<le> InfoPixelsPerScanLine Info" "HorizontalResolution Info * 4 < 2 ^ 32"
  shows "FrameBufferBltConfigure FB Info cfg (Some 0)
      = (EFI_BUFFER_TOO_SMALL, cfg, Some (sizeof_FRAME_BUFFER_CONFIGURE + HorizontalResolution Info * 4)) \<and>
    (\<exists>c'. FrameBufferBltConfigure FB Info (Some c) (Some (sizeof_FRAME_BUFFER_CONFIGURE + HorizontalResolution Info * 4 + k))
        = (EFI_SUCCESS, Some c', Some (sizeof_FRAME_BUFFER_CONFIGURE + HorizontalResolution Info * 4 + k)) \<and>
      LineBuffer c' = LineBuffer c \<and> BytesPerPixel c' = 4 \<and> Width c' = HorizontalResolution Info \<and>
      Height c' = VerticalResolution Info \<and> FrameBuffer c' = FB \<and> Width c' \<le> PixelsPerScanLine c' \<and>
      (\<forall>p. video_to_blt c' (blt_to_video c' p) = p AND 0xffffff))"
  using assms
  by (cases "InfoPixelFormat Info")
    (simp_all add: FrameBufferBltConfigure_def Let_def configure_rgb configure_bgr sizeof_FRAME_BUFFER_CONFIGURE_def
      pixel_roundtrip_rgb pixel_roundtrip_bgr)

definition ex_mode :: EFI_GRAPHICS_OUTPUT_MODE_INFORMATION where
  "ex_mode = \<lparr>InfoVersion = 0, HorizontalResolution = 1080, VerticalResolution = 2220,
     InfoPixelFormat = PixelBlueGreenRedReserved8BitPerColor,
     PixelInformation = mBgrPixelMasks, InfoPixelsPerScanLine = 1080\<rparr>"

theorem blt_configure_roundtrip_witness:
  "FrameBufferBltConfigure 0xcc000000 ex_mode None (Some 0)
      = (EFI_BUFFER_TOO_SMALL, None, Some (sizeof_FRAME_BUFFER_CONFIGURE + HorizontalResolution ex_mode * 4)) \<and>
    (\<exists>c'. FrameBufferBltConfigure 0xcc000000 ex_mode (Some ex_surface) (Some (sizeof_FRAME_BUFFER_CONFIGURE + HorizontalResolution ex_mode * 4 + 0))
        = (EFI_SUCCESS, Some c', Some (sizeof_FRAME_BUFFER_CONFIGURE + HorizontalResolution ex_mode * 4 + 0)) \<and>
      LineBuffer c' = LineBuffer ex_surface \<and> BytesPerPixel c' = 4 \<and> Width c' = HorizontalResolution ex_mode \<and>
      Height c' = VerticalResolution ex_mode \<and> FrameBuffer c' = 0xcc000000 \<and> Width c' \<le> PixelsPerScanLine c' \<and>
      (\<forall>p. video_to_blt c' (blt_to_video c' p) = p AND 0xffffff))"
  by (rule blt_configure_roundtrip) (simp_all add: ex_mode_def)

text \<open>The number of bytes per pixel derived from a bit mask holds all its bits exactly when
  the index of the highest one is not a multiple of eight; otherwise it is one too small.\<close>

theorem blt_pixel_bytes:
  assumes "bit (RedMask k OR GreenMask k OR BlueMask k OR ReservedMask k) n"
    and "\<And>j. n < j \<Longrightarrow> \<not> bit (RedMask k OR GreenMask k OR BlueMask k OR ReservedMask k) j"
  shows "n < 8 * fst (FrameBufferBltLibConfigurePixelFormat k) \<longleftrightarrow> n mod 8 \<noteq> 0"
proof -
  have "fst (FrameBufferBltLibConfigurePixelFormat k) = (n + 7) div 8"
    using HighBitSet32_eq[OF assms]
    by (simp add: FrameBufferBltLibConfigurePixelFormat_def Let_def nat_div_distrib nat_add_distrib)
  then show ?thesis by presburger
qed

theorem blt_pixel_bytes_witness:
  "(16 :: nat) < 8 * fst (FrameBufferBltLibConfigurePixelFormat
      \<lparr>RedMask = 0x1f800, GreenMask = 0x7e0, BlueMask = 0x1f, ReservedMask = 0\<rparr>) \<longleftrightarrow> (16 :: nat) mod 8 \<noteq> 0"
proof (rule blt_pixel_bytes, goal_cases)
  case (2 j)
  have m: "(0x1f800 OR 0x7e0 OR 0x1f OR 0 :: u32) = mask 17" by (simp add: mask_eq_exp_minus_1)
  show ?case using 2 by (simp only: EFI_PIXEL_BITMASK.simps m bit_mask_iff) simp
qed simp

section \<open>Buffer to screen\<close>

lemma in_rect_Suc:
  assumes "0 < BytesPerPixel c" "x + W \<le> PixelsPerScanLine c"
  shows "in_rect c x y W (Suc H) a \<longleftrightarrow> in_rect c x y W H a \<or> in_row c x W (y + H) a"
  unfolding in_rect_rows[OF assms] by (metis add_Suc_right le_add1 less_Suc_eq)

lemma in_rect_screen:
  assumes c: "surface c" "x + W \<le> Width c" "y + H \<le> Height c" and a: "in_rect c x y W H a"
  shows "FrameBuffer c \<le> a" "a < FrameBuffer c + BytesPerPixel c * (Height c * PixelsPerScanLine c)"
proof -
  have B: "0 < BytesPerPixel c" "x + W \<le> PixelsPerScanLine c" using c by (auto simp: surface_def)
  obtain i where "i < y + H" "in_row c x W i a" using a by (auto simp: in_rect_rows[OF B])
  then have i: "i < Height c" "row_base c x i \<le> a" "a < row_base c x i + W * BytesPerPixel c"
    using c by (auto simp: in_row_def)
  then show "FrameBuffer c \<le> a" "a < FrameBuffer c + BytesPerPixel c * (Height c * PixelsPerScanLine c)"
    using surface_bounds[OF c(1,2) i(1)] unfolding row_base_def by linarith+
qed

definition byte_row :: "FRAME_BUFFER_CONFIGURE \<Rightarrow> nat \<Rightarrow> nat" where
  "byte_row c a = (a - FrameBuffer c) div BytesPerPixel c div PixelsPerScanLine c"

lemma write_rows_at:
  assumes c: "surface c" "PixelFormat c = PixelBlueGreenRedReserved8BitPerColor" "BytesPerPixel c = 4"
    and dst: "dx + W \<le> Width c" "0 < W" and D: "W * 4 \<le> D"
  shows "dy + H \<le> Height c \<Longrightarrow> Blt + (sy + H) * D < 2 ^ 64 \<Longrightarrow>
    Blt + (sy + H) * D \<le> FrameBuffer c
      \<or> FrameBuffer c + BytesPerPixel c * (Height c * PixelsPerScanLine c) \<le> Blt \<Longrightarrow>
    fold (\<lambda>i. write_row c Blt sx dx W D (sy + i, wrap (dy + i))) [0..<H] m a =
    (if in_rect c dx dy W H a
     then m (Blt + (sy + (byte_row c a - dy)) * D + (a - row_base c dx (byte_row c a))) else m a)"
proof (induction H arbitrary: a)
  case 0
  then show ?case by (auto simp: in_rect_def Let_def)
next
  case (Suc H)
  have B: "0 < BytesPerPixel c" "dx + W \<le> PixelsPerScanLine c" using c dst by (auto simp: surface_def)
  let ?m1 = "fold (\<lambda>i. write_row c Blt sx dx W D (sy + i, wrap (dy + i))) [0..<H] m"
  have bound: "Blt + (sy + Suc H) * D = Blt + (sy + H) * D + D" by simp
  have IH: "?m1 b = (if in_rect c dx dy W H b
     then m (Blt + (sy + (byte_row c b - dy)) * D + (b - row_base c dx (byte_row c b))) else m b)" for b
    using Suc.prems bound by (intro Suc.IH) auto
  have lt: "dy + H < Height c" using Suc.prems by simp
  note s = surface_row[OF c(1) dst(1) lt]
  have "Height c < 2 ^ 64" using fill_guards(3)[OF c(1) dst(1) _ dst(2), of 0 "Height c"] lt wrap_bound[of "Height c"] by simp
  then have "wrap (dy + H) = dy + H" using lt by simp
  moreover have "blt_address Blt D 0 (sy + H) = Blt + (sy + H) * D"
    using Suc.prems(2) bound by (simp add: blt_address_def)
  ultimately have "write_row c Blt sx dx W D (sy + H, wrap (dy + H)) ?m1
      = CopyMem (row_base c dx (dy + H)) (Blt + (sy + H) * D) (W * 4) ?m1"
    using s(1,2) c(2,3) by (simp add: write_row_def Let_def)
  then have step: "fold (\<lambda>i. write_row c Blt sx dx W D (sy + i, wrap (dy + i))) [0..<Suc H] m a
      = (if in_row c dx W (dy + H) a then ?m1 (Blt + (sy + H) * D + (a - row_base c dx (dy + H))) else ?m1 a)"
    using c(3) by (simp add: CopyMem_at in_row_def)
  show ?case
  proof (cases "in_row c dx W (dy + H) a")
    case True
    then have row: "byte_row c a = dy + H" by (simp add: in_row_iff[OF B] byte_row_def Let_def)
    let ?b = "Blt + (sy + H) * D + (a - row_base c dx (dy + H))"
    have "a - row_base c dx (dy + H) < W * 4" using True c(3) by (auto simp: in_row_def)
    then have "?b < Blt + (sy + Suc H) * D" "Blt \<le> ?b" using D bound by linarith+
    then have "\<not> in_rect c dx dy W H ?b"
      using in_rect_screen[OF c(1) dst(1), of dy H ?b] Suc.prems(3) lt by fastforce
    then show ?thesis unfolding step using True row by (simp add: IH in_rect_Suc[OF B])
  next
    case False
    then show ?thesis unfolding step by (simp add: IH in_rect_Suc[OF B])
  qed
qed

lemma buffer_to_video_bgr:
  assumes c: "surface c" "PixelFormat c = PixelBlueGreenRedReserved8BitPerColor" "BytesPerPixel c = 4"
    and dst: "dx + W \<le> Width c" "dy + H \<le> Height c" and n: "0 < W" "0 < H"
    and D: "W * 4 \<le> real_delta Delta W"
    and top: "Blt + (sy + H) * real_delta Delta W < 2 ^ 64" "sy + H < 2 ^ 64"
    and apart: "if FrameBuffer c + BytesPerPixel c * (Height c * PixelsPerScanLine c) \<le> Blt then True
      else Blt + (sy + H) * real_delta Delta W \<le> FrameBuffer c"
  shows "\<exists>m'. FrameBufferBltLibBufferToVideo c Blt sx sy dx dy W H Delta m = (EFI_SUCCESS, m') \<and>
    (\<forall>a. m' a = (if in_rect c dx dy W H a
      then m (Blt + (sy + (byte_row c a - dy)) * real_delta Delta W + (a - row_base c dx (byte_row c a)))
      else m a))"
proof -
  note g = fill_guards[OF c(1) dst n]
  have "wrap (H + sy) - sy = H" using top by (simp add: add.commute)
  then show ?thesis
    using g n write_rows_at[OF c dst(1) n(1) D dst(2) top(1)] apart
    by (simp add: FrameBufferBltLibBufferToVideo_def split: if_splits)
qed

text \<open>On a blue-green-red surface a transfer from a buffer copies the buffer's lines from
  SourceY on, but always from the start of each line: SourceX has no effect.\<close>

theorem blt_buffer_to_video_bgr:
  assumes c: "surface c" "PixelFormat c = PixelBlueGreenRedReserved8BitPerColor" "BytesPerPixel c = 4"
    and dst: "dx + W \<le> Width c" "dy + H \<le> Height c" and n: "0 < W" "0 < H"
    and D: "W * 4 \<le> real_delta Delta W"
    and top: "Blt + (sy + H) * real_delta Delta W < 2 ^ 64" "sy + H < 2 ^ 64"
    and apart: "if FrameBuffer c + BytesPerPixel c * (Height c * PixelsPerScanLine c) \<le> Blt then True
      else Blt + (sy + H) * real_delta Delta W \<le> FrameBuffer c"
  shows "\<exists>m'. FrameBufferBltLibBufferToVideo c Blt sx sy dx dy W H Delta m = (EFI_SUCCESS, m') \<and>
    (\<forall>a. m' a = (if in_rect c dx dy W H a
      then m (Blt + (sy + (byte_row c a - dy)) * real_delta Delta W + (a - row_base c dx (byte_row c a)))
      else m a))"
  by (rule buffer_to_video_bgr [OF assms])

theorem blt_buffer_to_video_bgr_witness:
  "\<exists>m'. FrameBufferBltLibBufferToVideo ex_surface 0x1000 3 0 0 0 100 10 0 (\<lambda>a. of_nat a) = (EFI_SUCCESS, m') \<and>
    (\<forall>a. m' a = (if in_rect ex_surface 0 0 100 10 a
      then of_nat (0x1000 + (0 + (byte_row ex_surface a - 0)) * real_delta 0 100 + (a - row_base ex_surface 0 (byte_row ex_surface a)))
      else of_nat a))"
  by (rule blt_buffer_to_video_bgr[OF ex_surface_ok]) (simp_all add: ex_surface_def real_delta_def)

end
