(* ===== verification/FbConsole.thy ===== *)
theory FbConsole
  imports Memory
begin

text \<open>
  The frame buffer console that serves as serial port (\<open>Library/FrameBufferSerialPortLib\<close>):
  the cursor, drawing a glyph of the 5x12 font byte by byte, the paint/newline loop of
  \<open>FbConPutCharWithFactor\<close> and the serial port entry points.

  The module's statics are the record \<open>fbcon\<close>, together with the interrupt mask, the memory and
  the number of cache flushes of the frame buffer; the fixed PCDs are the record \<open>fb_pcd\<close>.
  \<open>intstate\<close> of \<open>FbConPutCharWithFactor\<close> is declared after the labels it is used at: a
  newline reads it before it is set.  That indeterminate value is an argument.
\<close>

section \<open>Font and colours\<close>

text \<open>Two words per character from the space on, six rows of five bits in each.\<close>

definition font5x12 :: "u32 list" where
  "font5x12 =
    [0x0, 0x0, 0x8421080, 0x20084, 0x52940, 0x0, 0x15f52800, 0x295f, 0x1c52f880, 0x23e94,
     0x8855640, 0x4d542, 0x4528800, 0xb2725, 0x21080, 0x0, 0x4211088, 0x821042, 0x10841082,
     0x221108, 0x9575480, 0x0, 0x3e420000, 0x84, 0x0, 0x223000, 0x3e000000, 0x0, 0x0, 0x471000,
     0x8844200, 0x8442, 0x2318a880, 0x22a31, 0x8429880, 0xf9084, 0x1108c5c0, 0xf8444,
     0x1c4443e0, 0x74610, 0x14a62100, 0x423e9, 0x26d087e0, 0x74610, 0x1e10c5c0, 0x74631,
     0x88443e0, 0x10844, 0x1d18c5c0, 0x74631, 0x3d18c5c0, 0x74610, 0x8e20000, 0x471000,
     0x8e20000, 0x223000, 0x2222200, 0x82082, 0x1f00000, 0x3e0, 0x20820820, 0x8888, 0x1108c5c0,
     0x20084, 0x2b98c5c0, 0xf05b5, 0x2318a880, 0x8c63f, 0x1d2949e0, 0x7ca52, 0x210c5c0, 0x74421,
     0x252949e0, 0x7ca52, 0x1e1087e0, 0xf8421, 0x1e1087e0, 0x8421, 0x210c5c0, 0x74639,
     0x3f18c620, 0x8c631, 0x84211c0, 0x71084, 0x10842380, 0x32508, 0x654c620, 0x8c525,
     0x2108420, 0xf8421, 0x2b5dc620, 0x8c631, 0x2b59ce20, 0x8c739, 0x2318c5c0, 0x74631,
     0x1f18c5e0, 0x8421, 0x2318c5c0, 0x1075631, 0x1f18c5e0, 0x8c525, 0x1c10c5c0, 0x74610,
     0x84213e0, 0x21084, 0x2318c620, 0x74631, 0x1518c620, 0x2114a, 0x2b18c620, 0x556b5,
     0x8a54620, 0x8c54a, 0x8a54620, 0x21084, 0x88443e0, 0xf8442, 0x421084e, 0xe10842, 0x8210420,
     0x84108, 0x1084210e, 0xe42108, 0x8a880, 0x0, 0x0, 0x1f00000, 0x104, 0x0, 0x20e00000,
     0xb663e, 0x22f08420, 0x7c631, 0x22e00000, 0x74421, 0x23e84200, 0xf4631, 0x22e00000,
     0x7443f, 0x1e214980, 0x10842, 0x22e00000, 0x1d187a31, 0x26d08420, 0x8c631, 0x8601000,
     0x71084, 0x10c02000, 0xc94a108, 0xa908420, 0x8a4a3, 0x84210c0, 0x71084, 0x2ab00000,
     0x8d6b5, 0x26d00000, 0x8c631, 0x22e00000, 0x74631, 0x22f00000, 0x210be31, 0x23e00000,
     0x21087a31, 0x26d00000, 0x8421, 0x22e00000, 0x74506, 0x4f10800, 0x64842, 0x23100000,
     0xb6631, 0x23100000, 0x22951, 0x23100000, 0x556b5, 0x15100000, 0x8a884, 0x23100000,
     0x1d185b31, 0x11f00000, 0xf8444, 0x6421098, 0x1821084, 0x8421080, 0x21084, 0x30421083,
     0x321084, 0x4d640, 0x0, 0x0, 0x0]"

definition FB_BGRA8888_BLACK :: u64 where "FB_BGRA8888_BLACK = 0xff000000"
definition FB_BGRA8888_WHITE :: u64 where "FB_BGRA8888_WHITE = 0xffffffff"
definition FB_BGRA8888_YELLOW :: u64 where "FB_BGRA8888_YELLOW = 0xffffff00"

definition FONT_WIDTH :: nat where "FONT_WIDTH = 5"
definition FONT_HEIGHT :: nat where "FONT_HEIGHT = 12"
definition SCALE_FACTOR :: nat where "SCALE_FACTOR = 1"

datatype FbConMsgType =
    FBCON_COMMON_MSG
  | FBCON_UNLOCK_TITLE_MSG
  | FBCON_TITLE_MSG
  | FBCON_SUBTITLE_MSG
  | FBCON_YELLOW_MSG
  | FBCON_ORANGE_MSG
  | FBCON_RED_MSG
  | FBCON_GREEN_MSG
  | FBCON_SELECT_MSG_BG_COLOR

section \<open>State\<close>

record fb_pcd =
  FbAddress :: nat
  gWidth :: nat
  gHeight :: nat
  gBpp :: nat

record fbcon =
  PosX :: int
  PosY :: int
  MaxX :: int
  MaxY :: int
  Foreground :: u64
  Background :: u64
  m_Initialized :: bool
  Interrupts :: bool
  FbMem :: mem
  Flushes :: nat

section \<open>Pixels\<close>

text \<open>The innermost loop of all drawing: the low byte of the colour, then the next one.\<close>

fun put_bytes :: "nat \<Rightarrow> 'a :: len word \<Rightarrow> nat \<times> mem \<Rightarrow> nat \<times> mem" where
  "put_bytes 0 c (p, m) = (p, m)"
| "put_bytes (Suc k) c (p, m) = put_bytes k (drop_bit 8 c) (Suc p, m(p := ucast c))"

definition ResetFb :: "fb_pcd \<Rightarrow> fbcon \<Rightarrow> fbcon" where
  "ResetFb P s = s\<lparr>FbMem := snd (((put_bytes (gBpp P div 8) FB_BGRA8888_BLACK ^^ gHeight P) ^^ gWidth P)
                                  (FbAddress P, FbMem s))\<rparr>"

definition FbConReset :: "fb_pcd \<Rightarrow> fbcon \<Rightarrow> fbcon" where
  "FbConReset P s = s\<lparr>PosX := 0, PosY := 0,
     MaxX := int (gWidth P div (FONT_WIDTH + 1)),
     MaxY := int (wrap (gHeight P + 2 ^ 64 - 1) div FONT_HEIGHT),
     Foreground := FB_BGRA8888_WHITE, Background := FB_BGRA8888_BLACK\<rparr>"

text \<open>The cache maintenance of the whole frame buffer is only counted.\<close>

definition FbConFlush :: "fbcon \<Rightarrow> fbcon" where
  "FbConFlush s = s\<lparr>Flushes := Suc (Flushes s)\<rparr>"

text \<open>\<open>stride\<close> is what is left of a line after the glyph, as an \<open>unsigned\<close>.\<close>

definition glyph_skip :: "nat \<Rightarrow> nat \<Rightarrow> nat \<Rightarrow> nat" where
  "glyph_skip stride bpp scale_factor =
     wrap32 (wrap32 (stride + 2 ^ 32 - FONT_WIDTH * scale_factor) * bpp)"

definition draw_background_row :: "nat \<Rightarrow> nat \<Rightarrow> u32 \<Rightarrow> nat \<Rightarrow> nat \<times> mem \<Rightarrow> nat \<times> mem" where
  "draw_background_row skip bpp bg_color scale_factor st =
     (let (p, m) = ((put_bytes bpp bg_color ^^ scale_factor) ^^ FONT_WIDTH) st in (p + skip, m))"

definition draw_dot :: "nat \<Rightarrow> u32 \<Rightarrow> nat \<Rightarrow> u32 \<times> nat \<times> mem \<Rightarrow> u32 \<times> nat \<times> mem" where
  "draw_dot bpp fg_color scale_factor = (\<lambda>(data, p, m).
     (drop_bit 1 data,
      if bit data 0 then (put_bytes bpp fg_color ^^ scale_factor) (p, m) else (p + scale_factor * bpp, m)))"

text \<open>A row of a glyph is drawn \<open>scale_factor\<close> times from the same bits (\<open>temp\<close>).\<close>

definition draw_glyph_row :: "nat \<Rightarrow> nat \<Rightarrow> u32 \<Rightarrow> nat \<Rightarrow> u32 \<times> nat \<times> mem \<Rightarrow> u32 \<times> nat \<times> mem" where
  "draw_glyph_row skip bpp fg_color scale_factor = (\<lambda>(temp, st).
     ((\<lambda>(data, st). let (data', p', m') = (draw_dot bpp fg_color scale_factor ^^ FONT_WIDTH) (temp, st)
                     in (data', p' + skip, m')) ^^ scale_factor) (temp, st))"

definition FbConDrawglyph :: "nat \<Rightarrow> nat \<Rightarrow> nat \<Rightarrow> u32 \<times> u32 \<Rightarrow> nat \<Rightarrow> fbcon \<Rightarrow> fbcon" where
  "FbConDrawglyph pixels stride bpp glyph scale_factor s =
     (let fg_color = ucast (Foreground s) :: u32;
          bg_color = ucast (Background s) :: u32;
          skip = glyph_skip stride bpp scale_factor;
          background = (draw_background_row skip bpp bg_color scale_factor ^^ scale_factor) ^^ (FONT_HEIGHT div 2);
          (_, m0) = background (background (pixels, FbMem s));
          (_, p1, m1) = (draw_glyph_row skip bpp fg_color scale_factor ^^ (FONT_HEIGHT div 2)) (fst glyph, pixels, m0);
          (_, p2, m2) = (draw_glyph_row skip bpp fg_color scale_factor ^^ (FONT_HEIGHT div 2)) (snd glyph, p1, m1)
      in s\<lparr>FbMem := m2\<rparr>)"

definition glyph_of :: "u8 \<Rightarrow> u32 \<times> u32" where
  "glyph_of c = (font5x12 ! ((unat c - 32) * 2), font5x12 ! ((unat c - 32) * 2 + 1))"

text \<open>\<open>FbConScrollUp\<close> moves lines in 16-bit units, one per pixel.\<close>

fun copy_units :: "nat \<Rightarrow> nat \<Rightarrow> nat \<Rightarrow> mem \<Rightarrow> nat \<times> mem" where
  "copy_units 0 dst src m = (dst, m)"
| "copy_units (Suc n) dst src m = copy_units n (dst + 2) (src + 2) (m(dst := m src, Suc dst := m (Suc src)))"

definition FbConScrollUp :: "fb_pcd \<Rightarrow> fbcon \<Rightarrow> fbcon" where
  "FbConScrollUp P s =
     (let dst = FbAddress P;
          src = dst + 2 * (gWidth P * FONT_HEIGHT);
          (dst1, m1) = copy_units (wrap32 (gWidth P * (gHeight P + 2 ^ 64 - FONT_HEIGHT))) dst src (FbMem s);
          (_, m2) = (put_bytes 2 (Background s) ^^ wrap32 (gWidth P * FONT_HEIGHT)) (dst1, m1)
      in FbConFlush (s\<lparr>FbMem := m2\<rparr>))"

section \<open>Characters\<close>

text \<open>\<open>restore\<close> is \<open>if (intstate) ArmEnableInterrupts ()\<close>.\<close>

definition restore :: "bool \<Rightarrow> fbcon \<Rightarrow> fbcon" where
  "restore intstate s = (if intstate then s\<lparr>Interrupts := True\<rparr> else s)"

definition glyph_address :: "fb_pcd \<Rightarrow> nat \<Rightarrow> fbcon \<Rightarrow> nat" where
  "glyph_address P scale_factor s =
     FbAddress P + nat (PosY s) * ((gBpp P div 8) * FONT_HEIGHT * gWidth P)
       + nat (PosX s) * scale_factor * ((gBpp P div 8) * (FONT_WIDTH + 1))"

text \<open>From the label \<open>paint\<close>: either the function returns (\<open>Inl\<close>), or it goes to \<open>newline\<close> with
  the value that \<open>intstate\<close> then has (\<open>Inr\<close>).\<close>

definition paint :: "fb_pcd \<Rightarrow> u8 \<Rightarrow> FbConMsgType \<Rightarrow> nat \<Rightarrow> bool \<Rightarrow> fbcon \<Rightarrow> fbcon + bool \<times> fbcon" where
  "paint P c ty scale_factor intstate s =
     (if 127 < c then Inl s
      else if c < 32 then
        (if c = 10 then Inr (intstate, s)
         else if c = 13 then Inl (s\<lparr>PosX := 0\<rparr>)
         else Inl s)
      else if PosX s = 0 \<and> c = 32 \<and> ty \<noteq> FBCON_SUBTITLE_MSG \<and> ty \<noteq> FBCON_TITLE_MSG then Inl s
      else let intstate' = Interrupts s;
               s1 = FbConDrawglyph (glyph_address P scale_factor s) (gWidth P) (gBpp P div 8) (glyph_of c) scale_factor
                      (s\<lparr>Interrupts := False\<rparr>);
               s2 = s1\<lparr>PosX := PosX s1 + 1\<rparr>
           in if MaxX s2 div int scale_factor \<le> PosX s2 then Inr (intstate', s2)
              else Inl (restore intstate' s2))"

text \<open>From the label \<open>newline\<close>: the flag tells whether the function goes back to \<open>paint\<close>.\<close>

definition newline :: "fb_pcd \<Rightarrow> nat \<Rightarrow> bool \<Rightarrow> fbcon \<Rightarrow> bool \<times> fbcon" where
  "newline P scale_factor intstate s =
     (let s1 = s\<lparr>PosY := PosY s + int scale_factor, PosX := 0\<rparr>
      in if MaxY s1 - int scale_factor \<le> PosY s1
         then (True, restore intstate ((FbConFlush (ResetFb P s1))\<lparr>PosY := 0\<rparr>))
         else (False, restore intstate (FbConFlush s1)))"

partial_function (option) paint_loop ::
  "fb_pcd \<Rightarrow> u8 \<Rightarrow> FbConMsgType \<Rightarrow> nat \<Rightarrow> bool \<Rightarrow> fbcon \<Rightarrow> fbcon option" where
  "paint_loop P c ty scale_factor intstate s =
     (case paint P c ty scale_factor intstate s of
        Inl s' \<Rightarrow> Some s'
      | Inr (i, s1) \<Rightarrow>
          (case newline P scale_factor i s1 of (again, s2) \<Rightarrow>
             if again then paint_loop P c ty scale_factor i s2 else Some s2))"

text \<open>\<open>junk\<close> is the value \<open>intstate\<close> holds before it is set.\<close>

definition FbConPutCharWithFactor ::
  "fb_pcd \<Rightarrow> bool \<Rightarrow> u8 \<Rightarrow> FbConMsgType \<Rightarrow> nat \<Rightarrow> fbcon \<Rightarrow> fbcon option" where
  "FbConPutCharWithFactor P junk c ty scale_factor s =
     (if \<not> m_Initialized s then Some s else paint_loop P c ty scale_factor junk s)"

section \<open>The serial port interface\<close>

definition SerialPortInitialize_Fb :: "fb_pcd \<Rightarrow> fbcon \<Rightarrow> efi_status \<times> fbcon" where
  "SerialPortInitialize_Fb P s =
     (if m_Initialized s then (EFI_SUCCESS, s)
      else let InterruptState = Interrupts s;
               s1 = FbConReset P (s\<lparr>Interrupts := False\<rparr>)
           in (EFI_SUCCESS, restore InterruptState (s1\<lparr>m_Initialized := True\<rparr>)))"

text \<open>Each character comes with the indeterminate value its call finds.\<close>

fun put_chars :: "fb_pcd \<Rightarrow> (bool \<times> u8) list \<Rightarrow> fbcon \<Rightarrow> fbcon option" where
  "put_chars P [] s = Some s"
| "put_chars P ((junk, c) # cs) s =
     (case FbConPutCharWithFactor P junk c FBCON_COMMON_MSG SCALE_FACTOR s of
        None \<Rightarrow> None
      | Some s' \<Rightarrow> put_chars P cs s')"

definition SerialPortWrite_Fb :: "fb_pcd \<Rightarrow> (bool \<times> u8) list \<Rightarrow> fbcon \<Rightarrow> (nat \<times> fbcon) option" where
  "SerialPortWrite_Fb P Buffer s =
     (case put_chars P Buffer (s\<lparr>Interrupts := False\<rparr>) of
        None \<Rightarrow> None
      | Some s' \<Rightarrow> Some (length Buffer, restore (Interrupts s) s'))"

definition SerialPortWriteCritical :: "fb_pcd \<Rightarrow> (bool \<times> u8) list \<Rightarrow> fbcon \<Rightarrow> (nat \<times> fbcon) option" where
  "SerialPortWriteCritical P Buffer s =
     (case put_chars P Buffer (s\<lparr>Interrupts := False, Foreground := FB_BGRA8888_YELLOW\<rparr>) of
        None \<Rightarrow> None
      | Some s' \<Rightarrow> Some (length Buffer, restore (Interrupts s) (s'\<lparr>Foreground := Foreground s\<rparr>)))"

definition SerialPortRead_Fb :: "nat \<Rightarrow> nat" where "SerialPortRead_Fb NumberOfBytes = 0"
definition SerialPortPoll_Fb :: bool where "SerialPortPoll_Fb = False"
definition SerialPortSetControl_Fb :: "u32 \<Rightarrow> efi_status" where "SerialPortSetControl_Fb Control = EFI_UNSUPPORTED"
definition SerialPortGetControl_Fb :: efi_status where "SerialPortGetControl_Fb = EFI_UNSUPPORTED"
definition SerialPortSetAttributes_Fb :: efi_status where "SerialPortSetAttributes_Fb = EFI_UNSUPPORTED"
definition SerialPortFlush :: nat where "SerialPortFlush = 0"

end
