(* ===== verification/SerialPort.thy ===== *)
theory SerialPort
  imports Memory
begin

text \<open>
  The serial port interface both serial libraries implement, as a locale: a write always
  returns the number of bytes it was given, keeps the device usable, touches no memory
  outside the device's region, and writing two buffers one after the other is writing their
  concatenation, as far as \<open>shown\<close> tells.  What a client that sends a list of messages gets
  is proved once here.
\<close>

text \<open>A client: messages written one after the other.\<close>

fun send_messages :: "('c list \<Rightarrow> 's \<Rightarrow> (nat \<times> 's) option) \<Rightarrow> 'c list list \<Rightarrow> 's \<Rightarrow> 's option" where
  "send_messages port_write [] s = Some s"
| "send_messages port_write (cs # css) s =
     (case port_write cs s of None \<Rightarrow> None | Some (n, s') \<Rightarrow> send_messages port_write css s')"

locale serial_port =
  fixes port_write :: "'c list \<Rightarrow> 's \<Rightarrow> (nat \<times> 's) option"
    and usable :: "'s \<Rightarrow> bool"
    and shown :: "'s \<Rightarrow> 's"
    and port_mem :: "'s \<Rightarrow> mem"
    and region :: "nat \<Rightarrow> bool"
  assumes write_total: "usable s \<Longrightarrow> \<exists>s'. port_write cs s = Some (length cs, s') \<and> usable s'"
    and write_region: "usable s \<Longrightarrow> port_write cs s = Some (n, s') \<Longrightarrow> \<not> region a \<Longrightarrow> port_mem s' a = port_mem s a"
    and write_nothing: "usable s \<Longrightarrow> port_write [] s = Some (0, s)"
    and write_append: "usable s \<Longrightarrow> port_write cs s = Some (n, s1) \<Longrightarrow> port_write ds s1 = Some (k, s2) \<Longrightarrow>
      \<exists>s3. port_write (cs @ ds) s = Some (n + k, s3) \<and> shown s3 = shown s2"
begin

lemma write_cases:
  assumes "usable s"
  obtains s' where "port_write cs s = Some (length cs, s')" "usable s'"
  using write_total[OF assms] by blast

lemma send_all_total:
  "usable s \<Longrightarrow>
   \<exists>s'. send_messages port_write css s = Some s' \<and> usable s' \<and> (\<forall>a. \<not> region a \<longrightarrow> port_mem s' a = port_mem s a)"
proof (induction css arbitrary: s)
  case (Cons cs css)
  obtain s1 where s1: "port_write cs s = Some (length cs, s1)" "usable s1"
    using Cons.prems by (rule write_cases)
  then show ?case using Cons write_region[OF Cons.prems(1) s1(1)] by fastforce
qed simp

lemma send_all_concat:
  "usable s \<Longrightarrow> send_messages port_write css s = Some s' \<Longrightarrow>
   \<exists>t. port_write (concat css) s = Some (length (concat css), t) \<and> shown t = shown s'"
proof (induction css arbitrary: s)
  case Nil
  then show ?case using write_nothing by auto
next
  case (Cons cs css)
  obtain s1 where s1: "port_write cs s = Some (length cs, s1)" "usable s1"
    using Cons.prems(1) by (rule write_cases)
  then obtain t where t: "port_write (concat css) s1 = Some (length (concat css), t)" "shown t = shown s'"
    using Cons by fastforce
  show ?case using write_append[OF Cons.prems(1) s1(1) t(1)] t(2) by auto
qed

end

end
