(* ===== verification/FbConsoleCorrect.thy ===== *)
theory FbConsoleCorrect
  imports FbConsole SerialPort
begin

text \<open>
  The frame buffer console: what a glyph looks like in memory, that no write leaves the
  frame buffer, that every character is finished after at most two rounds of the
  paint/newline loop on a screen of three lines or more, and what goes wrong around a newline.
\<close>

section \<open>Runs of pixels\<close>

text \<open>\<open>pixel_byte c k\<close> is byte \<open>k\<close> of a colour.\<close>

definition pixel_byte :: "'a :: len word \<Rightarrow> nat \<Rightarrow> u8" where
  "pixel_byte c k = ucast (drop_bit (8 * k) c)"

lemma put_bytes_eq:
  "put_bytes k c (p, m) = (p + k, \<lambda>a. if p \<le> a \<and> a < p + k then pixel_byte c (a - p) else m a)"
proof (induction k arbitrary: c p m)
  case (Suc k)
  have "8 * (a - p) = 8 * (a - Suc p) + 8" if "Suc p \<le> a" for a using that by simp
  then have "pixel_byte (drop_bit 8 c) (a - Suc p) = pixel_byte c (a - p)" if "Suc p \<le> a" for a
    using that by (simp add: pixel_byte_def)
  then show ?case by (auto simp: Suc fun_eq_iff pixel_byte_def)
qed (auto simp: fun_eq_iff)

lemma in_nth_row:
  assumes "w \<le> L" "0 < w"
  shows "p + n * L \<le> a \<and> a < p + n * L + w \<longleftrightarrow> p \<le> a \<and> (a - p) div L = n \<and> (a - p) mod L < (w :: nat)"
proof
  assume A: "p + n * L \<le> a \<and> a < p + n * L + w"
  then obtain k where k: "a = p + n * L + k" by (metis le_Suc_ex)
  then have "k < L" "k < w" using A assms by auto
  then show "p \<le> a \<and> (a - p) div L = n \<and> (a - p) mod L < w" using k by simp
next
  assume A: "p \<le> a \<and> (a - p) div L = n \<and> (a - p) mod L < w"
  then have "a = p + (n * L + (a - p) mod L)" using div_mult_mod_eq[of "a - p" L] by simp
  then show "p + n * L \<le> a \<and> a < p + n * L + w" using A by linarith
qed

lemma in_nth_row_conj:
  assumes "w \<le> L" "0 < w"
  shows "p + n * L \<le> a \<and> a < p + n * L + w \<and> X \<longleftrightarrow> (p \<le> a \<and> (a - p) div L = n \<and> (a - p) mod L < (w :: nat)) \<and> X"
  using in_nth_row[OF assms] by blast

lemma row_offset: "(a - p) div L = n \<Longrightarrow> a - (p + n * L) = (a - p) mod (L :: nat)"
  using div_mult_mod_eq[of "a - p" L] by simp

lemma in_rows: "0 < b \<Longrightarrow> p \<le> a \<and> (a - p) div b < n \<longleftrightarrow> p \<le> a \<and> a < p + n * (b :: nat)"
  by (auto simp: div_less_iff_less_mult)

lemma in_rows_conj: "0 < b \<Longrightarrow> p \<le> a \<and> (a - p) div b < n \<and> X \<longleftrightarrow> p \<le> a \<and> a < p + n * (b :: nat) \<and> X"
  using in_rows[of b p a n] by blast

lemma put_pixels_eq:
  "0 < b \<Longrightarrow> (put_bytes b c ^^ n) (p, m) =
    (p + n * b, \<lambda>a. if p \<le> a \<and> (a - p) div b < n then pixel_byte c ((a - p) mod b) else m a)"
proof (induction n)
  case (Suc n)
  then show ?case
    by (auto simp: put_bytes_eq in_nth_row[of b b p n] row_offset fun_eq_iff less_Suc_eq)
qed (simp add: fun_eq_iff)

section \<open>Rows of a glyph\<close>

lemma background_row:
  assumes b: "0 < b" and L: "L = 5 * b + skip"
  shows "draw_background_row skip b c (Suc 0) (q, m) =
      (q + L, \<lambda>a. if q \<le> a \<and> a < q + 5 * b then pixel_byte c ((a - q) mod b) else m a)"
  using put_pixels_eq[OF b, where c = c and n = 5 and p = q and m = m, unfolded in_rows[OF b]]
  by (simp add: draw_background_row_def FONT_WIDTH_def L)

lemma background_rows:
  assumes b: "0 < b" and L: "L = 5 * b + skip"
  shows "(draw_background_row skip b c (Suc 0) ^^ n) (p, m) =
    (p + n * L, \<lambda>a. if p \<le> a \<and> (a - p) div L < n \<and> (a - p) mod L < 5 * b
                     then pixel_byte c ((a - p) mod L mod b) else m a)"
proof (induction n)
  case (Suc n)
  have "5 * b \<le> L" "0 < 5 * b" using b L by simp_all
  note rw = in_nth_row[OF this, of p n]
  show ?case using Suc by (auto simp: background_row[OF b L] rw row_offset fun_eq_iff less_Suc_eq)
qed (simp add: fun_eq_iff)

lemma dots_eq:
  assumes b: "0 < b"
  shows "(draw_dot b c (Suc 0) ^^ n) (d, p, m) =
    (drop_bit n d, p + n * b,
     \<lambda>a. if p \<le> a \<and> (a - p) div b < n \<and> bit d ((a - p) div b) then pixel_byte c ((a - p) mod b) else m a)"
proof (induction n)
  case (Suc n)
  have bit0: "bit (drop_bit n d) 0 = bit d n" by (simp add: bit_drop_bit_eq)
  show ?case using Suc
    by (auto simp: draw_dot_def put_bytes_eq bit0 in_nth_row[of b b p n] b row_offset fun_eq_iff less_Suc_eq)
qed (simp add: fun_eq_iff)

lemma glyph_row:
  assumes b: "0 < b" and L: "L = 5 * b + skip"
  shows "draw_glyph_row skip b c (Suc 0) (e, q, m) =
      (drop_bit 5 e, q + L,
       \<lambda>a. if q \<le> a \<and> a < q + 5 * b \<and> bit e ((a - q) div b) then pixel_byte c ((a - q) mod b) else m a)"
  using dots_eq[OF b, where c = c and n = 5 and d = e and p = q and m = m, unfolded in_rows_conj[OF b]]
  by (simp add: draw_glyph_row_def FONT_WIDTH_def L)

lemma glyph_rows:
  assumes b: "0 < b" and L: "L = 5 * b + skip"
  shows "(draw_glyph_row skip b c (Suc 0) ^^ n) (d, p, m) =
    (drop_bit (5 * n) d, p + n * L,
     \<lambda>a. if p \<le> a \<and> (a - p) div L < n \<and> (a - p) mod L < 5 * b \<and> bit d (5 * ((a - p) div L) + (a - p) mod L div b)
         then pixel_byte c ((a - p) mod L mod b) else m a)"
proof (induction n)
  case (Suc n)
  have "5 * b \<le> L" "0 < 5 * b" using b L by simp_all
  note rw = in_nth_row_conj[OF this, of p n]
  show ?case using Suc
    by (auto simp: glyph_row[OF b L] rw row_offset fun_eq_iff less_Suc_eq bit_drop_bit_eq add.commute)
qed (simp add: fun_eq_iff)


section \<open>A glyph\<close>

text \<open>The bit of a glyph at row \<open>r\<close> and column \<open>x\<close>.\<close>

definition glyph_bit :: "u32 \<times> u32 \<Rightarrow> nat \<Rightarrow> nat \<Rightarrow> bool" where
  "glyph_bit g r x = (if r < 6 then bit (fst g) (5 * r + x) else bit (snd g) (5 * (r - 6) + x))"

lemma funpow_twelve: "(f ^^ 6) ((f ^^ 6) x) = (f ^^ 12) x"
  by (simp add: funpow_add[symmetric, THEN fun_cong, unfolded comp_def])

lemma draw_glyph_memory:
  assumes b: "0 < b" and W: "5 \<le> W" "W * b < 2 ^ 32"
  shows "FbMem (FbConDrawglyph p W b g (Suc 0) s) =
    (\<lambda>a. if p \<le> a \<and> (a - p) div (W * b) < 12 \<and> (a - p) mod (W * b) < 5 * b
         then pixel_byte (if glyph_bit g ((a - p) div (W * b)) ((a - p) mod (W * b) div b)
                          then ucast (Foreground s) else ucast (Background s) :: u32)
                ((a - p) mod (W * b) mod b)
         else FbMem s a)"
proof -
  define skip where "skip = glyph_skip W b (Suc 0)"
  define L where "L = W * b"
  have "W \<le> W * b" using b by simp
  then have W32: "W < 2 ^ 32" using W by linarith
  then have "wrap32 (W + 2 ^ 32 - FONT_WIDTH * Suc 0) = W - 5"
    using W(1) by (simp add: wrap32_def FONT_WIDTH_def mod_if)
  then have "skip = wrap32 ((W - 5) * b)" by (simp add: skip_def glyph_skip_def)
  moreover have "(W - 5) * b < 2 ^ 32" using W(2) mult_le_mono1[of "W - 5" W b] by linarith
  ultimately have "skip = (W - 5) * b" by simp
  then have L: "L = 5 * b + skip" using W(1) by (simp add: L_def algebra_simps flip: add_mult_distrib)
  have skip': "glyph_skip W b (Suc 0) = skip" by (simp add: skip_def)
  note rows = background_rows[OF b L] glyph_rows[OF b L]
  have shift: "p + 6 * L \<le> a \<longleftrightarrow> p \<le> a \<and> 6 \<le> (a - p) div L"
    "p + 6 * L \<le> a \<Longrightarrow> (a - (p + 6 * L)) div L = (a - p) div L - 6"
    "p + 6 * L \<le> a \<Longrightarrow> (a - (p + 6 * L)) mod L = (a - p) mod L" for a
  proof -
    have Lp: "0 < L" using L b by simp
    show 1: "p + 6 * L \<le> a \<longleftrightarrow> p \<le> a \<and> 6 \<le> (a - p) div L"
      using Lp by (auto simp: less_eq_div_iff_mult_less_eq)
    assume "p + 6 * L \<le> a"
    then obtain k where k: "a = p + 6 * L + k" by (metis le_Suc_ex)
    have e: "a - (p + 6 * L) = k" "a - p = k + 6 * L" using k by simp_all
    show "(a - (p + 6 * L)) div L = (a - p) div L - 6" "(a - (p + 6 * L)) mod L = (a - p) mod L"
      unfolding e using Lp by simp_all
  qed
  let ?bg = "ucast (Background s) :: u32" and ?fg = "ucast (Foreground s) :: u32"
  let ?R = "\<lambda>a. (a - p) div L" and ?C = "\<lambda>a. (a - p) mod L"
  define M0 where "M0 = (\<lambda>a. if p \<le> a \<and> ?R a < 12 \<and> ?C a < 5 * b then pixel_byte ?bg (?C a mod b) else FbMem s a)"
  define M1 where "M1 = (\<lambda>a. if p \<le> a \<and> ?R a < 6 \<and> ?C a < 5 * b \<and> bit (fst g) (5 * ?R a + ?C a div b)
    then pixel_byte ?fg (?C a mod b) else M0 a)"
  define M2 where "M2 = (\<lambda>a. if p + 6 * L \<le> a \<and> (a - (p + 6 * L)) div L < 6 \<and> (a - (p + 6 * L)) mod L < 5 * b
      \<and> bit (snd g) (5 * ((a - (p + 6 * L)) div L) + (a - (p + 6 * L)) mod L div b)
    then pixel_byte ?fg ((a - (p + 6 * L)) mod L mod b) else M1 a)"
  have bg: "(draw_background_row skip b ?bg (Suc 0) ^^ 6) ((draw_background_row skip b ?bg (Suc 0) ^^ 6) (p, FbMem s)) = (p + 12 * L, M0)"
    unfolding funpow_twelve M0_def by (rule rows(1))
  have g1: "(draw_glyph_row skip b ?fg (Suc 0) ^^ 6) (fst g, p, M0) = (drop_bit (5 * 6) (fst g), p + 6 * L, M1)"
    unfolding M1_def by (rule rows(2))
  have g2: "(draw_glyph_row skip b ?fg (Suc 0) ^^ 6) (snd g, p + 6 * L, M1) = (drop_bit (5 * 6) (snd g), p + 6 * L + 6 * L, M2)"
    unfolding M2_def by (rule rows(2))
  have "FbMem (FbConDrawglyph p W b g (Suc 0) s) = M2"
    by (simp add: FbConDrawglyph_def Let_def FONT_HEIGHT_def bg g1 g2 skip')
  moreover have "M2 a = (if p \<le> a \<and> ?R a < 12 \<and> ?C a < 5 * b
      then pixel_byte (if glyph_bit g (?R a) (?C a div b) then ?fg else ?bg) (?C a mod b) else FbMem s a)" for a
  proof (cases "p + 6 * L \<le> a")
    case True
    then show ?thesis using shift[of a]
      by (simp add: M2_def M1_def M0_def glyph_bit_def less_diff_conv2)
  next
    case False
    then show ?thesis using shift(1)[of a] by (auto simp: M2_def M1_def M0_def glyph_bit_def)
  qed
  ultimately show ?thesis by (auto simp: L_def fun_eq_iff)
qed


lemma draw_glyph_frame [frame_simps]:
  "PosX (FbConDrawglyph p W b g k s) = PosX s" "PosY (FbConDrawglyph p W b g k s) = PosY s"
  "MaxX (FbConDrawglyph p W b g k s) = MaxX s" "MaxY (FbConDrawglyph p W b g k s) = MaxY s"
  "Foreground (FbConDrawglyph p W b g k s) = Foreground s" "Background (FbConDrawglyph p W b g k s) = Background s"
  "m_Initialized (FbConDrawglyph p W b g k s) = m_Initialized s" "Interrupts (FbConDrawglyph p W b g k s) = Interrupts s"
  "Flushes (FbConDrawglyph p W b g k s) = Flushes s"
  by (simp_all add: FbConDrawglyph_def Let_def split: prod.split)

section \<open>The screen\<close>

text \<open>A screen the console can use: at least two columns and three lines of characters.\<close>

definition fb_ok :: "fb_pcd \<Rightarrow> bool" where
  "fb_ok P \<longleftrightarrow> 8 \<le> gBpp P \<and> 12 \<le> gWidth P \<and> gWidth P * (gBpp P div 8) < 2 ^ 32
     \<and> 37 \<le> gHeight P \<and> gHeight P < 2 ^ 64"

definition in_fb :: "fb_pcd \<Rightarrow> nat \<Rightarrow> bool" where
  "in_fb P a \<longleftrightarrow> FbAddress P \<le> a \<and> a < FbAddress P + gHeight P * gWidth P * (gBpp P div 8)"

definition fb_good :: "fb_pcd \<Rightarrow> fbcon \<Rightarrow> bool" where
  "fb_good P s \<longleftrightarrow> fb_ok P \<and> m_Initialized s
     \<and> MaxX s = int (gWidth P div 6) \<and> MaxY s = int ((gHeight P - 1) div 12)
     \<and> 0 \<le> PosX s \<and> PosX s < MaxX s \<and> 0 \<le> PosY s \<and> PosY s < MaxY s - 1"

lemma fb_okD:
  assumes "fb_ok P"
  shows "0 < gBpp P div 8" "2 \<le> gWidth P div 6" "3 \<le> (gHeight P - 1) div 12"
    "wrap (gHeight P + 2 ^ 64 - 1) = gHeight P - 1"
proof -
  show "0 < gBpp P div 8" "2 \<le> gWidth P div 6" "3 \<le> (gHeight P - 1) div 12"
    using assms by (auto simp: fb_ok_def div_greater_zero_iff less_eq_div_iff_mult_less_eq)
  have "gHeight P + 2 ^ 64 - 1 = (gHeight P - 1) + 2 ^ 64" using assms by (simp add: fb_ok_def)
  then show "wrap (gHeight P + 2 ^ 64 - 1) = gHeight P - 1"
    using assms unfolding wrap_def by (simp only: mod_add_self2) (auto simp: fb_ok_def)
qed

lemma ResetFb_mem:
  assumes "fb_ok P"
  shows "FbMem (ResetFb P s) = (\<lambda>a. if in_fb P a
    then pixel_byte FB_BGRA8888_BLACK ((a - FbAddress P) mod (gBpp P div 8)) else FbMem s a)"
  using put_pixels_eq[OF fb_okD(1)[OF assms], where n = "gHeight P * gWidth P" and p = "FbAddress P" and m = "FbMem s"
      and c = FB_BGRA8888_BLACK, unfolded in_rows[OF fb_okD(1)[OF assms]]]
  by (simp add: ResetFb_def in_fb_def flip: funpow_mult)

text \<open>The cell under the cursor lies in the frame buffer.\<close>

lemma glyph_cell_in_fb:
  assumes s: "fb_good P s" and L: "L = gWidth P * (gBpp P div 8)"
    and a: "glyph_address P (Suc 0) s \<le> a" "(a - glyph_address P (Suc 0) s) div L < 12"
      "(a - glyph_address P (Suc 0) s) mod L < 5 * (gBpp P div 8)"
  shows "in_fb P a"
proof -
  let ?b = "gBpp P div 8" and ?p = "glyph_address P (Suc 0) s"
  define x where "x = nat (PosX s)"
  define y where "y = nat (PosY s)"
  define r where "r = (a - ?p) div L"
  define k where "k = (a - ?p) mod L"
  have xy: "x < gWidth P div 6" "y < (gHeight P - 1) div 12"
    using s by (auto simp: fb_good_def x_def y_def nat_less_iff)
  have p: "?p = FbAddress P + y * 12 * L + x * 6 * ?b"
    by (simp add: glyph_address_def x_def y_def L FONT_HEIGHT_def FONT_WIDTH_def)
  have "a - ?p = r * L + k" by (simp add: r_def k_def)
  then have a': "a = FbAddress P + (y * 12 + r) * L + (x * 6 * ?b + k)"
    using a(1) p by (simp add: algebra_simps)
  have "6 * x + 6 \<le> gWidth P" using xy(1) less_eq_div_iff_mult_less_eq[of 6 "Suc x" "gWidth P"] by simp
  then have "(6 * x + 6) * ?b \<le> L" unfolding L by (rule mult_le_mono1)
  then have col: "x * 6 * ?b + k < L" using a(3) by (simp add: k_def algebra_simps)
  have "12 * y + 12 \<le> gHeight P - 1" using xy(2) less_eq_div_iff_mult_less_eq[of 12 "Suc y" "gHeight P - 1"] by simp
  then have "Suc (y * 12 + r) \<le> gHeight P" using a(2) by (simp add: r_def)
  then have "Suc (y * 12 + r) * L \<le> gHeight P * L" by (rule mult_le_mono1)
  then show ?thesis using a' col by (simp add: in_fb_def L algebra_simps)
qed


section \<open>One character\<close>

text \<open>What every step keeps: a good cursor, the colours and the memory outside the screen.\<close>

definition fb_keeps :: "fb_pcd \<Rightarrow> fbcon \<Rightarrow> fbcon \<Rightarrow> bool" where
  "fb_keeps P s s' \<longleftrightarrow> fb_good P s' \<and> Foreground s' = Foreground s \<and> Background s' = Background s
     \<and> (\<forall>a. \<not> in_fb P a \<longrightarrow> FbMem s' a = FbMem s a)"

lemma fb_keeps_refl: "fb_good P s \<Longrightarrow> fb_keeps P s s"
  by (simp add: fb_keeps_def)

lemma fb_keeps_trans: "fb_keeps P s t \<Longrightarrow> fb_keeps P t u \<Longrightarrow> fb_keeps P s u"
  by (fastforce simp: fb_keeps_def)

lemma fb_good_update [simp]:
  "fb_good P (s\<lparr>Interrupts := i\<rparr>) = fb_good P s" "fb_good P (s\<lparr>Flushes := n\<rparr>) = fb_good P s"
  "fb_good P (s\<lparr>FbMem := m\<rparr>) = fb_good P s" "fb_good P (s\<lparr>Foreground := c\<rparr>) = fb_good P s"
  by (simp_all add: fb_good_def)

lemma restore_simps [simp]:
  "fb_good P (restore i s) = fb_good P s" "FbMem (restore i s) = FbMem s" "PosX (restore i s) = PosX s"
  "PosY (restore i s) = PosY s" "Foreground (restore i s) = Foreground s" "Background (restore i s) = Background s"
  "MaxX (restore i s) = MaxX s" "MaxY (restore i s) = MaxY s" "m_Initialized (restore i s) = m_Initialized s"
  "Flushes (restore i s) = Flushes s" "Interrupts (restore i s) = (i \<or> Interrupts s)"
  by (simp_all add: restore_def)

lemma glyph_keeps:
  assumes "fb_good P s" "\<not> in_fb P a"
  shows "FbMem (FbConDrawglyph (glyph_address P (Suc 0) s) (gWidth P) (gBpp P div 8) g (Suc 0) t) a = FbMem t a"
proof -
  have ok: "fb_ok P" using assms(1) by (simp add: fb_good_def)
  then have W: "5 \<le> gWidth P" "gWidth P * (gBpp P div 8) < 2 ^ 32" by (simp_all add: fb_ok_def)
  show ?thesis using glyph_cell_in_fb[OF assms(1) refl] assms(2)
    by (auto simp: draw_glyph_memory[OF fb_okD(1)[OF ok] W])
qed

lemma paint_returns:
  assumes s: "fb_good P s" and res: "paint P c ty (Suc 0) i s = Inl s'"
  shows "fb_keeps P s s'"
  using res glyph_keeps[OF s, of _ "glyph_of c" "s\<lparr>Interrupts := False\<rparr>"] s
  by (auto simp: paint_def Let_def fb_keeps_def fb_good_def frame_simps split: if_splits)

lemma paint_goes_on:
  assumes s: "fb_good P s" and res: "paint P c ty (Suc 0) i s = Inr (j, t)"
  shows "PosY t = PosY s" "MaxX t = MaxX s" "MaxY t = MaxY s" "m_Initialized t" "Foreground t = Foreground s"
    "Background t = Background s" "\<not> in_fb P a \<Longrightarrow> FbMem t a = FbMem s a"
  using res glyph_keeps[OF s, of _ "glyph_of c" "s\<lparr>Interrupts := False\<rparr>"] s
  by (auto simp: paint_def Let_def fb_good_def frame_simps split: if_splits)

lemma newline_keeps:
  assumes s: "fb_good P s" and t: "paint P c ty (Suc 0) i s = Inr (j, t)" and u: "newline P (Suc 0) j t = (again, u)"
  shows "fb_keeps P s u" "again \<longleftrightarrow> MaxY s - 1 \<le> PosY s + 1" "again \<Longrightarrow> PosX u = 0 \<and> PosY u = 0"
proof -
  note t' = paint_goes_on[OF s t]
  have ok: "fb_ok P" using s by (simp add: fb_good_def)
  have big: "0 < MaxX s" "3 \<le> MaxY s" using s fb_okD[OF ok] by (auto simp: fb_good_def)
  show "again \<longleftrightarrow> MaxY s - 1 \<le> PosY s + 1" using u t' by (auto simp: newline_def Let_def split: if_splits)
  show "again \<Longrightarrow> PosX u = 0 \<and> PosY u = 0" using u
    by (auto simp: newline_def Let_def FbConFlush_def ResetFb_def split: if_splits)
  have mem: "\<not> in_fb P a \<Longrightarrow> FbMem u a = FbMem t a" for a
    using u by (auto simp: newline_def Let_def FbConFlush_def ResetFb_mem[OF ok] split: if_splits)
  have rest: "fb_good P u \<and> Foreground u = Foreground s \<and> Background u = Background s"
    using u t' s big by (auto simp: newline_def Let_def FbConFlush_def ResetFb_def fb_good_def split: if_splits)
  show "fb_keeps P s u"
    using rest mem t'(7) by (simp add: fb_keeps_def)
qed

text \<open>The second round always ends: the cursor is at the top.\<close>

lemma paint_loop_top:
  assumes s: "fb_good P s" and y: "PosY s = 0"
  shows "\<exists>s'. paint_loop P c ty (Suc 0) i s = Some s' \<and> fb_keeps P s s'"
proof (cases "paint P c ty (Suc 0) i s")
  case (Inl s')
  then show ?thesis using paint_returns[OF s Inl] by (subst paint_loop.simps) simp
next
  case (Inr r)
  obtain j t where r: "r = (j, t)" by force
  obtain again u where u: "newline P (Suc 0) j t = (again, u)" by force
  note n = newline_keeps[OF s Inr[unfolded r] u]
  have "3 \<le> MaxY s" using s fb_okD[of P] by (auto simp: fb_good_def)
  then have "\<not> again" using n(2) y by simp
  then show ?thesis using n(1) Inr r u by (subst paint_loop.simps) simp
qed

lemma paint_loop_total:
  assumes s: "fb_good P s"
  shows "\<exists>s'. paint_loop P c ty (Suc 0) i s = Some s' \<and> fb_keeps P s s'"
proof (cases "paint P c ty (Suc 0) i s")
  case (Inl s')
  then show ?thesis using paint_returns[OF s Inl] by (subst paint_loop.simps) simp
next
  case (Inr r)
  obtain j t where r: "r = (j, t)" by force
  obtain again u where u: "newline P (Suc 0) j t = (again, u)" by force
  note n = newline_keeps[OF s Inr[unfolded r] u]
  show ?thesis
  proof (cases again)
    case True
    have "fb_good P u" using n(1) by (simp add: fb_keeps_def)
    then obtain s' where s': "paint_loop P c ty (Suc 0) j u = Some s'" "fb_keeps P u s'"
      using paint_loop_top n(3)[OF True] by blast
    then show ?thesis using n(1) Inr r u True fb_keeps_trans by (subst paint_loop.simps) auto
  next
    case False
    then show ?thesis using n(1) Inr r u by (subst paint_loop.simps) simp
  qed
qed

text \<open>The interrupt flag: only a newline that finds a set \<open>intstate\<close> switches interrupts on,
  and nothing switches them off.\<close>

lemma paint_interrupts:
  "paint P c ty k i s = Inl s' \<Longrightarrow> Interrupts s' = Interrupts s \<and> c \<noteq> 10"
  "paint P c ty k i s = Inr (j, t) \<Longrightarrow> (c = 10 \<and> j = i \<and> t = s) \<or> (c \<noteq> 10 \<and> j = Interrupts s \<and> \<not> Interrupts t)"
  by (simp_all add: paint_def Let_def frame_simps split: if_split_asm) (force simp: frame_simps)+

lemma newline_interrupts: "newline P k j t = (again, u) \<Longrightarrow> Interrupts u = (j \<or> Interrupts t)"
  by (auto simp: newline_def Let_def FbConFlush_def ResetFb_def split: if_splits)

definition calm :: "bool \<times> u8 \<Rightarrow> bool" where
  "calm = (\<lambda>(junk, c). junk = False \<or> c \<noteq> 10)"

lemmas paint_loop_result_induct = paint_loop.raw_induct[split_format (complete)]

lemma paint_loop_interrupts:
  "paint_loop P c ty k i s = Some s' \<Longrightarrow> Interrupts s' = (Interrupts s \<or> \<not> calm (i, c))"
proof (rule paint_loop_result_induct[where Pa = "\<lambda>P c ty k i s s'. Interrupts s' = (Interrupts s \<or> \<not> calm (i, c))"], goal_cases)
  case (1 loop P c ty k i s s')
  show ?case
  proof (cases "paint P c ty k i s")
    case (Inl t)
    then show ?thesis using 1(3) paint_interrupts(1)[OF Inl] by (simp add: calm_def)
  next
    case (Inr r)
    obtain j t where r: "r = (j, t)" by force
    obtain again u where u: "newline P k j t = (again, u)" by force
    show ?thesis
      using 1(3) Inr r u paint_interrupts(2)[OF Inr[unfolded r]] newline_interrupts[OF u] 1(2)[of P c ty k j u s']
      by (auto simp: calm_def split: if_splits)
  qed
qed

text \<open>\<open>masked\<close> is the state but for the interrupt flag.  The flag and the indeterminate
  \<open>intstate\<close> influence nothing else.\<close>

definition masked :: "fbcon \<Rightarrow> fbcon" where
  "masked s = s\<lparr>Interrupts := False\<rparr>"

lemma masked_simps [simp]:
  "masked (restore i s) = masked s" "masked (s\<lparr>Interrupts := i\<rparr>) = masked s" "masked (masked s) = masked s"
  by (simp_all add: masked_def restore_def)

lemma masked_eq: "masked s = masked s2 \<Longrightarrow> s2 = s\<lparr>Interrupts := Interrupts s2\<rparr>"
  by (cases s; cases s2) (simp add: masked_def)

lemma masked_fields: "masked s = masked s2 \<Longrightarrow> m_Initialized s2 = m_Initialized s \<and> MaxY s2 = MaxY s \<and> PosY s2 = PosY s"
  by (cases s; cases s2) (simp add: masked_def)

lemma draw_glyph_masked:
  "FbConDrawglyph p W b g k (s\<lparr>Interrupts := i\<rparr>) = FbConDrawglyph p W b g k s\<lparr>Interrupts := i\<rparr>"
  by (simp add: FbConDrawglyph_def Let_def split: prod.split)

lemma paint_masked:
  "map_sum masked (\<lambda>(j, t). masked t) (paint P c ty k i2 (s\<lparr>Interrupts := b\<rparr>)) =
   map_sum masked (\<lambda>(j, t). masked t) (paint P c ty k i s)"
  by (simp add: paint_def Let_def glyph_address_def draw_glyph_masked frame_simps)
    (simp add: masked_def)

lemma newline_masked:
  "map_prod id masked (newline P k i2 (s\<lparr>Interrupts := b\<rparr>)) = map_prod id masked (newline P k i s)"
  by (simp add: newline_def Let_def ResetFb_def FbConFlush_def) (simp add: masked_def)

lemma paint_loop_masked:
  "paint_loop P c ty k i s = Some s' \<Longrightarrow>
   \<forall>i2 s2. masked s = masked s2 \<longrightarrow> (\<exists>s2'. paint_loop P c ty k i2 s2 = Some s2' \<and> masked s2' = masked s')"
proof (rule paint_loop_result_induct[where Pa = "\<lambda>P c ty k i s s'.
    \<forall>i2 s2. masked s = masked s2 \<longrightarrow> (\<exists>s2'. paint_loop P c ty k i2 s2 = Some s2' \<and> masked s2' = masked s')"], goal_cases)
  case (1 loop P c ty k i s s')
  show ?case
  proof (intro allI impI)
    fix i2 s2 assume "masked s = masked s2"
    then have s2: "s2 = s\<lparr>Interrupts := Interrupts s2\<rparr>" by (rule masked_eq)
    note p = paint_masked[where P = P and c = c and ty = ty and k = k and ?i2.0 = i2 and s = s and b = "Interrupts s2" and i = i, unfolded s2[symmetric]]
    show "\<exists>s2'. paint_loop P c ty k i2 s2 = Some s2' \<and> masked s2' = masked s'"
    proof (cases "paint P c ty k i s")
      case (Inl t)
      then obtain t2 where t2: "paint P c ty k i2 s2 = Inl t2" "masked t2 = masked t"
        using p by (cases "paint P c ty k i2 s2") auto
      then show ?thesis using 1(3) Inl by (subst paint_loop.simps) simp
    next
      case (Inr r)
      obtain j t where r: "r = (j, t)" by force
      obtain j2 t2 where t2: "paint P c ty k i2 s2 = Inr (j2, t2)" "masked t = masked t2"
        using p Inr r by (cases "paint P c ty k i2 s2") auto
      obtain again u where u: "newline P k j t = (again, u)" by force
      obtain u2 where u2: "newline P k j2 t2 = (again, u2)" "masked u = masked u2"
        using newline_masked[where P = P and k = k and ?i2.0 = j2 and s = t and b = "Interrupts t2" and i = j, unfolded masked_eq[OF t2(2), symmetric]] u
        by (cases "newline P k j2 t2") auto
      show ?thesis
      proof (cases again)
        case True
        then have "loop P c ty k j u = Some s'" using 1(3) Inr r u by simp
        from 1(2)[OF this] u2(2) obtain s2' where "paint_loop P c ty k j2 u2 = Some s2'" "masked s2' = masked s'" by blast
        then show ?thesis using t2 u2 True by (subst paint_loop.simps) simp
      next
        case False
        then have "s' = u" using 1(3) Inr r u by simp
        then show ?thesis using t2 u2 False by (subst paint_loop.simps) simp
      qed
    qed
  qed
qed


section \<open>Writing\<close>

lemma put_char_total:
  assumes "fb_good P s"
  shows "\<exists>s'. FbConPutCharWithFactor P junk c ty SCALE_FACTOR s = Some s' \<and> fb_keeps P s s'"
  using assms paint_loop_total[OF assms] by (simp add: FbConPutCharWithFactor_def SCALE_FACTOR_def fb_good_def)

lemma put_chars_total:
  "fb_good P s \<Longrightarrow> \<exists>s'. put_chars P cs s = Some s' \<and> fb_keeps P s s'"
proof (induction cs arbitrary: s)
  case Nil
  then show ?case by (simp add: fb_keeps_refl)
next
  case (Cons x cs)
  obtain junk c where x: "x = (junk, c)" by force
  obtain t where t: "FbConPutCharWithFactor P junk c FBCON_COMMON_MSG SCALE_FACTOR s = Some t" "fb_keeps P s t"
    using put_char_total[OF Cons.prems] by blast
  then have "fb_good P t" by (simp add: fb_keeps_def)
  from Cons.IH[OF this] show ?case using x t fb_keeps_trans by fastforce
qed

lemma put_chars_interrupts:
  "put_chars P cs s = Some s' \<Longrightarrow> m_Initialized s \<Longrightarrow> fb_good P s \<Longrightarrow> Interrupts s' = (Interrupts s \<or> \<not> list_all calm cs)"
proof (induction cs arbitrary: s)
  case (Cons x cs)
  obtain junk c where x: "x = (junk, c)" by force
  obtain t where t: "FbConPutCharWithFactor P junk c FBCON_COMMON_MSG SCALE_FACTOR s = Some t" "put_chars P cs t = Some s'"
    using Cons.prems(1) x by (auto split: option.splits)
  have "fb_good P t" using put_char_total[OF Cons.prems(3), of junk c FBCON_COMMON_MSG] t(1) by (auto simp: fb_keeps_def)
  moreover have "Interrupts t = (Interrupts s \<or> \<not> calm x)"
    using t(1) Cons.prems x paint_loop_interrupts by (auto simp: FbConPutCharWithFactor_def)
  ultimately show ?case using Cons.IH[OF t(2)] by (auto simp: fb_good_def)
qed simp

lemma put_chars_masked:
  "put_chars P cs s = Some s' \<Longrightarrow> masked s = masked s2 \<Longrightarrow> \<exists>s2'. put_chars P cs s2 = Some s2' \<and> masked s2' = masked s'"
proof (induction cs arbitrary: s s2)
  case (Cons x cs)
  obtain junk c where x: "x = (junk, c)" by force
  obtain t where t: "FbConPutCharWithFactor P junk c FBCON_COMMON_MSG SCALE_FACTOR s = Some t" "put_chars P cs t = Some s'"
    using Cons.prems(1) x by (auto split: option.splits)
  obtain t2 where t2: "FbConPutCharWithFactor P junk c FBCON_COMMON_MSG SCALE_FACTOR s2 = Some t2" "masked t2 = masked t"
    using t(1) Cons.prems(2) masked_fields[OF Cons.prems(2)] paint_loop_masked
    by (fastforce simp: FbConPutCharWithFactor_def split: if_splits)
  show ?case using Cons.IH[OF t(2) t2(2)[symmetric]] t2(1) x by simp
qed simp

lemma put_chars_append:
  "put_chars P (cs @ ds) s = (case put_chars P cs s of None \<Rightarrow> None | Some t \<Rightarrow> put_chars P ds t)"
  by (induction cs arbitrary: s) (auto split: option.splits)

lemma write_fb:
  assumes s: "fb_good P s"
  obtains t where "put_chars P cs (s\<lparr>Interrupts := False\<rparr>) = Some t" "fb_keeps P s t"
    "SerialPortWrite_Fb P cs s = Some (length cs, restore (Interrupts s) t)"
    "Interrupts t \<longleftrightarrow> \<not> list_all calm cs"
proof -
  have s0: "fb_good P (s\<lparr>Interrupts := False\<rparr>)" "m_Initialized s" using s by (simp_all add: fb_good_def)
  from put_chars_total[OF s0(1), of cs] obtain t
    where t: "put_chars P cs (s\<lparr>Interrupts := False\<rparr>) = Some t" "fb_keeps P (s\<lparr>Interrupts := False\<rparr>) t" by blast
  have "fb_keeps P s t" using t(2) by (simp add: fb_keeps_def)
  then show ?thesis using that t put_chars_interrupts[OF t(1) _ s0(1)] s0(2) by (simp add: SerialPortWrite_Fb_def)
qed

interpretation fbport: serial_port "SerialPortWrite_Fb P" "fb_good P" masked FbMem "in_fb P" for P
proof unfold_locales
  fix s s1 s2 :: fbcon and cs ds :: "(bool \<times> u8) list" and n k a :: nat
  assume s: "fb_good P s"
  obtain t where t: "put_chars P cs (s\<lparr>Interrupts := False\<rparr>) = Some t" "fb_keeps P s t"
    "SerialPortWrite_Fb P cs s = Some (length cs, restore (Interrupts s) t)"
    using write_fb[OF s] by metis
  have good: "fb_good P t" using t(2) by (simp add: fb_keeps_def)
  show "\<exists>s'. SerialPortWrite_Fb P cs s = Some (length cs, s') \<and> fb_good P s'"
    using t good by simp
  show "SerialPortWrite_Fb P cs s = Some (n, s1) \<Longrightarrow> \<not> in_fb P a \<Longrightarrow> FbMem s1 a = FbMem s a"
    using t by (auto simp: fb_keeps_def)
  show "SerialPortWrite_Fb P [] s = Some (0, s)"
    by (cases s) (simp add: SerialPortWrite_Fb_def restore_def)
  assume 1: "SerialPortWrite_Fb P cs s = Some (n, s1)" and 2: "SerialPortWrite_Fb P ds s1 = Some (k, s2)"
  have s1: "s1 = restore (Interrupts s) t" "n = length cs" using 1 t(3) by simp_all
  obtain u where u: "put_chars P ds (s1\<lparr>Interrupts := False\<rparr>) = Some u" "s2 = restore (Interrupts s1) u" "k = length ds"
    using 2 by (auto simp: SerialPortWrite_Fb_def split: option.splits)
  obtain v where "put_chars P ds t = Some v" "masked v = masked u"
    using put_chars_masked[OF u(1), of t] s1 by auto
  then show "\<exists>s3. SerialPortWrite_Fb P (cs @ ds) s = Some (n + k, s3) \<and> masked s3 = masked s2"
    using t(1) s1(2) u by (simp add: SerialPortWrite_Fb_def put_chars_append)
qed

lemma send_interrupts:
  "fb_good P s \<Longrightarrow> send_messages (SerialPortWrite_Fb P) css s = Some s' \<Longrightarrow>
   Interrupts s' \<longleftrightarrow> Interrupts s \<or> \<not> list_all (list_all calm) css"
proof (induction css arbitrary: s)
  case (Cons cs css)
  obtain t where t: "fb_keeps P s t" "SerialPortWrite_Fb P cs s = Some (length cs, restore (Interrupts s) t)"
    "Interrupts t \<longleftrightarrow> \<not> list_all calm cs"
    using write_fb[OF Cons.prems(1)] by metis
  have "fb_good P (restore (Interrupts s) t)" using t(1) by (simp add: fb_keeps_def)
  from Cons.IH[OF this] show ?case using Cons.prems(2) t(2,3) by auto
qed simp


section \<open>Properties\<close>

lemma initialize_good:
  "fb_ok P \<Longrightarrow> \<not> m_Initialized s \<Longrightarrow> fb_good P (snd (SerialPortInitialize_Fb P s))
    \<and> FbMem (snd (SerialPortInitialize_Fb P s)) = FbMem s \<and> Interrupts (snd (SerialPortInitialize_Fb P s)) = Interrupts s"
  using fb_okD[of P]
  by (auto simp: SerialPortInitialize_Fb_def Let_def FbConReset_def fb_good_def FONT_WIDTH_def FONT_HEIGHT_def)

text \<open>The newline path alone.\<close>

lemma paint_newline: "paint P 10 ty k i s = Inr (i, s)"
  by (simp add: paint_def)

lemma paint_loop_short:
  "paint_loop P c ty k i s = Some s' \<Longrightarrow> c = 10 \<longrightarrow> k = 1 \<longrightarrow> MaxY s \<le> 2 \<longrightarrow> PosY s < 0"
proof (rule paint_loop_result_induct[where Pa = "\<lambda>P c ty k i s s'. c = 10 \<longrightarrow> k = 1 \<longrightarrow> MaxY s \<le> 2 \<longrightarrow> PosY s < 0"], goal_cases)
  case (1 loop P c ty k i s s')
  show ?case
  proof (intro impI, rule ccontr)
    assume c: "c = 10" "k = 1" "MaxY s \<le> 2" "\<not> PosY s < 0"
    then obtain u where u: "newline P 1 i s = (True, u)" "PosY u = 0" "MaxY u \<le> 2"
      by (simp add: newline_def Let_def FbConFlush_def ResetFb_def)
    then show False using 1(3) 1(2)[of P c ty k i u s'] c by (simp add: paint_newline)
  qed
qed

text \<open>C16: From the initialisation on, any sequence of messages (the empty one included, and
  whatever the variable intstate, which a newline reads before it is set, holds at each
  character) is written completely, every call returns, the console stays usable and no byte
  outside the frame buffer changes, on every screen of at least two columns and three lines.
  One write of the concatenation of all messages leaves the same state, the interrupt flag
  apart.  That flag is kept unless a newline finds a nonzero intstate: exactly then interrupts
  are left enabled.\<close>

theorem fb_console_safe:
  assumes P: "fb_ok P" and s: "\<not> m_Initialized s"
  shows "\<exists>s'. send_messages (SerialPortWrite_Fb P) css (snd (SerialPortInitialize_Fb P s)) = Some s' \<and> fb_good P s' \<and>
    (\<forall>a. \<not> in_fb P a \<longrightarrow> FbMem s' a = FbMem s a) \<and>
    (Interrupts s' \<longleftrightarrow> Interrupts s \<or> \<not> list_all (list_all calm) css) \<and>
    (\<exists>t. SerialPortWrite_Fb P (concat css) (snd (SerialPortInitialize_Fb P s)) = Some (length (concat css), t) \<and>
         masked t = masked s')"
proof -
  note i = initialize_good[OF P s]
  obtain s' where s': "send_messages (SerialPortWrite_Fb P) css (snd (SerialPortInitialize_Fb P s)) = Some s'" "fb_good P s'"
    "\<forall>a. \<not> in_fb P a \<longrightarrow> FbMem s' a = FbMem (snd (SerialPortInitialize_Fb P s)) a"
    using fbport.send_all_total[OF conjunct1[OF i]] by blast
  then show ?thesis
    using i fbport.send_all_concat[OF conjunct1[OF i] s'(1)] send_interrupts[OF conjunct1[OF i] s'(1)] by auto
qed

definition ex_pcd :: fb_pcd where
  "ex_pcd = \<lparr>FbAddress = 0x67000000, gWidth = 720, gHeight = 1280, gBpp = 32\<rparr>"

definition ex_fbcon :: fbcon where
  "ex_fbcon = \<lparr>PosX = 0, PosY = 0, MaxX = 120, MaxY = 106, Foreground = FB_BGRA8888_WHITE,
     Background = FB_BGRA8888_BLACK, m_Initialized = True, Interrupts = False, FbMem = (\<lambda>_. 0), Flushes = 0\<rparr>"

lemma ex_pcd_ok: "fb_ok ex_pcd"
  by (simp add: fb_ok_def ex_pcd_def)

lemma ex_fbcon_good: "fb_good ex_pcd ex_fbcon"
  by (simp add: fb_good_def ex_pcd_ok) (simp add: ex_pcd_def ex_fbcon_def)

theorem fb_console_safe_witness:
  "\<exists>s'. send_messages (SerialPortWrite_Fb ex_pcd) [[(False, 72), (True, 105)], [], [(True, 10), (False, 65)]]
      (snd (SerialPortInitialize_Fb ex_pcd (ex_fbcon\<lparr>m_Initialized := False\<rparr>))) = Some s' \<and> fb_good ex_pcd s' \<and>
    (\<forall>a. \<not> in_fb ex_pcd a \<longrightarrow> FbMem s' a = FbMem ex_fbcon a) \<and> Interrupts s' \<and> \<not> Interrupts ex_fbcon"
  using fb_console_safe[OF ex_pcd_ok, of "ex_fbcon\<lparr>m_Initialized := False\<rparr>"
      "[[(False, 72), (True, 105)], [], [(True, 10), (False, 65)]]"]
  by (auto simp: calm_def ex_fbcon_def)

text \<open>C25: A visible character before the last column paints exactly the 12 by 5 pixels of its
  cell, each in the foreground colour where the font has a bit and in the background colour
  elsewhere, changes no other byte and moves the cursor one column on.\<close>

theorem fb_glyph_exact:
  assumes s: "fb_good P s" and c: "32 < c" "c \<le> 127" and x: "PosX s + 1 < MaxX s"
  defines "L \<equiv> gWidth P * (gBpp P div 8)" and "p \<equiv> glyph_address P SCALE_FACTOR s"
  shows "\<exists>s'. FbConPutCharWithFactor P junk c ty SCALE_FACTOR s = Some s' \<and>
    PosX s' = PosX s + 1 \<and> PosY s' = PosY s \<and> Interrupts s' = Interrupts s \<and>
    FbMem s' = (\<lambda>a. if p \<le> a \<and> (a - p) div L < 12 \<and> (a - p) mod L < 5 * (gBpp P div 8)
      then pixel_byte (if glyph_bit (glyph_of c) ((a - p) div L) ((a - p) mod L div (gBpp P div 8))
                       then ucast (Foreground s) else ucast (Background s) :: u32)
             ((a - p) mod L mod (gBpp P div 8))
      else FbMem s a)"
proof -
  have ok: "fb_ok P" using s by (simp add: fb_good_def)
  then have W: "5 \<le> gWidth P" "gWidth P * (gBpp P div 8) < 2 ^ 32" by (simp_all add: fb_ok_def)
  have c': "\<not> 127 < c" "\<not> c < 32" "c \<noteq> 32" using c by auto
  let ?t = "FbConDrawglyph (glyph_address P SCALE_FACTOR s) (gWidth P) (gBpp P div 8) (glyph_of c) SCALE_FACTOR
      (s\<lparr>Interrupts := False\<rparr>)"
  have "paint P c ty SCALE_FACTOR junk s = Inl (restore (Interrupts s) (?t\<lparr>PosX := PosX s + 1\<rparr>))"
    using c' x by (simp add: paint_def Let_def frame_simps SCALE_FACTOR_def)
  then have "FbConPutCharWithFactor P junk c ty SCALE_FACTOR s = Some (restore (Interrupts s) (?t\<lparr>PosX := PosX s + 1\<rparr>))"
    using s by (simp add: FbConPutCharWithFactor_def paint_loop.simps fb_good_def)
  then show ?thesis
    by (simp add: frame_simps draw_glyph_memory[OF fb_okD(1)[OF ok] W] SCALE_FACTOR_def L_def p_def cong: if_cong)
qed

theorem fb_glyph_exact_witness:
  "\<exists>s'. FbConPutCharWithFactor ex_pcd True 65 FBCON_COMMON_MSG SCALE_FACTOR ex_fbcon = Some s' \<and>
    PosX s' = PosX ex_fbcon + 1 \<and> PosY s' = PosY ex_fbcon \<and> Interrupts s' = Interrupts ex_fbcon \<and>
    FbMem s' = (\<lambda>a. if glyph_address ex_pcd SCALE_FACTOR ex_fbcon \<le> a
        \<and> (a - glyph_address ex_pcd SCALE_FACTOR ex_fbcon) div (gWidth ex_pcd * (gBpp ex_pcd div 8)) < 12
        \<and> (a - glyph_address ex_pcd SCALE_FACTOR ex_fbcon) mod (gWidth ex_pcd * (gBpp ex_pcd div 8)) < 5 * (gBpp ex_pcd div 8)
      then pixel_byte (if glyph_bit (glyph_of 65) ((a - glyph_address ex_pcd SCALE_FACTOR ex_fbcon) div (gWidth ex_pcd * (gBpp ex_pcd div 8)))
              ((a - glyph_address ex_pcd SCALE_FACTOR ex_fbcon) mod (gWidth ex_pcd * (gBpp ex_pcd div 8)) div (gBpp ex_pcd div 8))
            then ucast (Foreground ex_fbcon) else ucast (Background ex_fbcon) :: u32)
          ((a - glyph_address ex_pcd SCALE_FACTOR ex_fbcon) mod (gWidth ex_pcd * (gBpp ex_pcd div 8)) mod (gBpp ex_pcd div 8))
      else FbMem ex_fbcon a)"
  by (rule fb_glyph_exact[OF ex_fbcon_good]) (simp_all add: ex_fbcon_def)

text \<open>A newline on the last line clears the whole screen to black, but then goes through the
  newline code a second time, so that the cursor lands on line 1 and line 0 stays empty.\<close>

theorem fb_newline_skips_first_line:
  assumes s: "fb_good P s" and y: "MaxY s - 1 \<le> PosY s + 1"
  shows "\<exists>s'. FbConPutCharWithFactor P junk 10 ty SCALE_FACTOR s = Some s' \<and>
    PosX s' = 0 \<and> PosY s' = 1 \<and> Flushes s' = Flushes s + 2 \<and>
    FbMem s' = (\<lambda>a. if in_fb P a then pixel_byte FB_BGRA8888_BLACK ((a - FbAddress P) mod (gBpp P div 8)) else FbMem s a)"
proof -
  have ok: "fb_ok P" using s by (simp add: fb_good_def)
  have big: "3 \<le> MaxY s" using s fb_okD[OF ok] by (simp add: fb_good_def)
  have paint: "paint P 10 ty 1 junk t = Inr (junk, t)" for t by (simp add: paint_def)
  obtain t where t: "newline P 1 junk s = (True, t)" "PosX t = 0" "PosY t = 0" "MaxY t = MaxY s"
    "Flushes t = Flushes s + 1" "FbMem t = FbMem (ResetFb P s)"
    using y by (simp add: newline_def Let_def FbConFlush_def ResetFb_def)
  obtain u where u: "newline P 1 junk t = (False, u)" "PosX u = 0" "PosY u = 1" "Flushes u = Flushes s + 2"
      "FbMem u = FbMem (ResetFb P s)"
    using t big by (simp add: newline_def Let_def FbConFlush_def)
  have "paint_loop P 10 ty 1 junk s = Some u"
    using paint t(1) u(1) by (subst paint_loop.simps, simp, subst paint_loop.simps, simp)
  then show ?thesis using s u ResetFb_mem[OF ok]
    by (simp add: FbConPutCharWithFactor_def SCALE_FACTOR_def fb_good_def)
qed

theorem fb_newline_skips_first_line_witness:
  "\<exists>s'. FbConPutCharWithFactor ex_pcd False 10 FBCON_COMMON_MSG SCALE_FACTOR (ex_fbcon\<lparr>PosY := 104\<rparr>) = Some s' \<and>
    PosX s' = 0 \<and> PosY s' = 1 \<and> Flushes s' = Flushes (ex_fbcon\<lparr>PosY := 104\<rparr>) + 2 \<and>
    FbMem s' = (\<lambda>a. if in_fb ex_pcd a then pixel_byte FB_BGRA8888_BLACK ((a - FbAddress ex_pcd) mod (gBpp ex_pcd div 8))
      else FbMem (ex_fbcon\<lparr>PosY := 104\<rparr>) a)"
proof (rule fb_newline_skips_first_line)
  show "fb_good ex_pcd (ex_fbcon\<lparr>PosY := 104\<rparr>)"
    using ex_fbcon_good by (simp add: fb_good_def) (simp add: ex_fbcon_def)
qed (simp add: ex_fbcon_def)

text \<open>A newline reads intstate before it is set: when that indeterminate value is nonzero, a
  write that runs with interrupts disabled returns with interrupts enabled.\<close>

theorem fb_newline_enables_interrupts:
  assumes s: "fb_good P s" and off: "\<not> Interrupts s"
  shows "\<exists>s'. SerialPortWrite_Fb P [(True, 10)] s = Some (1, s') \<and> Interrupts s'"
  using write_fb[OF s, of "[(True, 10)]"] by (fastforce simp: calm_def)

theorem fb_newline_enables_interrupts_witness:
  "\<exists>s'. SerialPortWrite_Fb ex_pcd [(True, 10)] ex_fbcon = Some (1, s') \<and> Interrupts s'"
  by (rule fb_newline_enables_interrupts[OF ex_fbcon_good]) (simp add: ex_fbcon_def)

text \<open>On a screen with room for at most two lines of characters a newline never returns: the
  line after the wrap-around is again past the end.\<close>

theorem fb_short_screen_hangs:
  assumes "m_Initialized s" "0 \<le> PosY s" "MaxY s \<le> 2"
  shows "FbConPutCharWithFactor P junk 10 ty SCALE_FACTOR s = None"
proof -
  have "paint_loop P 10 ty 1 junk s \<noteq> Some s'" for s'
    using paint_loop_short[of P 10 ty 1 junk s s'] assms(2,3) by auto
  then show ?thesis using assms(1) by (auto simp: FbConPutCharWithFactor_def SCALE_FACTOR_def)
qed

theorem fb_short_screen_hangs_witness:
  "FbConPutCharWithFactor (ex_pcd\<lparr>gHeight := 36\<rparr>) True 10 FBCON_COMMON_MSG SCALE_FACTOR
     (snd (SerialPortInitialize_Fb (ex_pcd\<lparr>gHeight := 36\<rparr>) (ex_fbcon\<lparr>m_Initialized := False\<rparr>))) = None"
  by (rule fb_short_screen_hangs)
    (simp_all add: SerialPortInitialize_Fb_def Let_def FbConReset_def ex_pcd_def wrap_def FONT_HEIGHT_def)

end
