(* ===== verification/InMemSerial.thy ===== *)
theory InMemSerial
  imports SerialPort
begin

text \<open>
  The in-memory serial port (\<open>Library/InMemorySerialPortLib\<close>): a ring of two megabytes at a
  fixed address that keeps the newest characters, zeroed by the initialisation.  The static
  \<open>offset\<close> of \<open>mem_putchar\<close> and the memory are the state.
\<close>

record mem_serial =
  ms_offset :: nat
  ms_mem :: mem

definition serial_base :: nat where "serial_base = 0x8d100000"
definition serial_size :: nat where "serial_size = 0x200000"

definition SerialPortInitialize_Mem :: "mem_serial \<Rightarrow> efi_status \<times> mem_serial" where
  "SerialPortInitialize_Mem s =
     (EFI_SUCCESS, s\<lparr>ms_mem := fold (\<lambda>i m. m(serial_base + i := 0)) [0..<serial_size] (ms_mem s)\<rparr>)"

definition mem_putchar :: "u8 \<Rightarrow> mem_serial \<Rightarrow> mem_serial" where
  "mem_putchar c s =
     (let m = (ms_mem s)(serial_base + ms_offset s := c); n = ms_offset s + 1
      in s\<lparr>ms_mem := m, ms_offset := if serial_size \<le> n then 0 else n\<rparr>)"

definition SerialPortWrite_Mem :: "u8 list \<Rightarrow> mem_serial \<Rightarrow> (nat \<times> mem_serial) option" where
  "SerialPortWrite_Mem Buffer s = Some (length Buffer, fold mem_putchar Buffer s)"

definition SerialPortRead_Mem :: "nat \<Rightarrow> nat" where "SerialPortRead_Mem NumberOfBytes = 0"
definition SerialPortPoll_Mem :: bool where "SerialPortPoll_Mem = False"
definition SerialPortSetControl_Mem :: "u32 \<Rightarrow> efi_status" where "SerialPortSetControl_Mem Control = EFI_UNSUPPORTED"
definition SerialPortGetControl_Mem :: efi_status where "SerialPortGetControl_Mem = EFI_UNSUPPORTED"
definition SerialPortSetAttributes_Mem :: efi_status where "SerialPortSetAttributes_Mem = EFI_UNSUPPORTED"

section \<open>The ring\<close>

definition in_serial :: "nat \<Rightarrow> bool" where
  "in_serial a \<longleftrightarrow> serial_base \<le> a \<and> a < serial_base + serial_size"

lemma serial_size_pos [simp]: "0 < serial_size"
  by (simp add: serial_size_def)

lemma mem_putchar_offset:
  "ms_offset s < serial_size \<Longrightarrow> ms_offset (mem_putchar c s) = Suc (ms_offset s) mod serial_size"
  using Suc_mod_ring[of "ms_offset s" serial_size] by (auto simp: mem_putchar_def Let_def not_le)

lemma mem_putchar_mem: "ms_mem (mem_putchar c s) = (ms_mem s)(serial_base + ms_offset s := c)"
  by (simp add: mem_putchar_def Let_def)

lemma fold_putchar_offset:
  "ms_offset s < serial_size \<Longrightarrow> ms_offset (fold mem_putchar cs s) = (ms_offset s + length cs) mod serial_size"
proof (induction cs arbitrary: s)
  case (Cons c cs)
  have "ms_offset (mem_putchar c s) < serial_size" using Cons by (simp add: mem_putchar_offset)
  from Cons.IH[OF this] show ?case using Cons.prems by (simp add: mem_putchar_offset mod_simps)
qed simp

lemma fold_putchar_frame:
  "ms_offset s < serial_size \<Longrightarrow> \<not> in_serial a \<Longrightarrow> ms_mem (fold mem_putchar cs s) a = ms_mem s a"
proof (induction cs arbitrary: s)
  case (Cons c cs)
  have "ms_offset (mem_putchar c s) < serial_size" using Cons by (simp add: mem_putchar_offset)
  from Cons.IH[OF this Cons.prems(2)] show ?case
    using Cons.prems by (auto simp: mem_putchar_mem in_serial_def)
qed simp

interpretation memport: serial_port SerialPortWrite_Mem "\<lambda>s. ms_offset s < serial_size" "\<lambda>s. s" ms_mem in_serial
proof unfold_locales
  fix s :: mem_serial and cs ds :: "u8 list" and n k :: nat and s1 s2 :: mem_serial and a :: nat
  assume ok: "ms_offset s < serial_size"
  show "\<exists>s'. SerialPortWrite_Mem cs s = Some (length cs, s') \<and> ms_offset s' < serial_size"
    using fold_putchar_offset[OF ok, of cs] by (simp add: SerialPortWrite_Mem_def)
  show "SerialPortWrite_Mem cs s = Some (n, s1) \<Longrightarrow> \<not> in_serial a \<Longrightarrow> ms_mem s1 a = ms_mem s a"
    using fold_putchar_frame[OF ok] by (auto simp: SerialPortWrite_Mem_def)
  show "SerialPortWrite_Mem cs s = Some (n, s1) \<Longrightarrow> SerialPortWrite_Mem ds s1 = Some (k, s2) \<Longrightarrow>
      \<exists>s3. SerialPortWrite_Mem (cs @ ds) s = Some (n + k, s3) \<and> s3 = s2"
    by (auto simp: SerialPortWrite_Mem_def)
  show "SerialPortWrite_Mem [] s = Some (0, s)"
    by (simp add: SerialPortWrite_Mem_def)
qed

text \<open>The byte at position \<open>j\<close> after \<open>cs\<close>, started at offset 0: the newest character whose
  index is congruent to \<open>j\<close>.\<close>

definition ring_byte :: "u8 list \<Rightarrow> nat \<Rightarrow> u8 \<Rightarrow> u8" where
  "ring_byte cs j old =
     (if length cs \<le> j then old
      else cs ! (j + serial_size * ((length cs - 1 - j) div serial_size)))"

lemma ring_byte_snoc:
  assumes "j < serial_size"
  shows "ring_byte (cs @ [c]) j old = (if j = length cs mod serial_size then c else ring_byte cs j old)"
proof -
  let ?n = "length cs" and ?N = serial_size
  consider "?n < j" | "j = ?n" | "j < ?n" by linarith
  then show ?thesis
  proof cases
    case 1
    then have "?n mod ?N = ?n" using assms by simp
    then show ?thesis using 1 by (simp add: ring_byte_def)
  next
    case 2
    then show ?thesis using assms by (simp add: ring_byte_def nth_append)
  next
    case 3
    define q where "q = ?n - j"
    have n: "?n = j + q" "0 < q" using 3 by (auto simp: q_def)
    have new: "ring_byte (cs @ [c]) j old = (cs @ [c]) ! (j + ?N * (q div ?N))"
      using n by (simp add: ring_byte_def)
    have old: "ring_byte cs j old = cs ! (j + ?N * ((q - 1) div ?N))"
      using n by (simp add: ring_byte_def)
    show ?thesis
    proof (cases "q mod ?N = 0")
      case True
      then have "?N * (q div ?N) = q" by auto
      moreover have "?n mod ?N = j" using True n assms by (metis add.right_neutral mod_add_right_eq mod_less)
      ultimately show ?thesis using new n by (simp add: nth_append)
    next
      case False
      have "?n mod ?N \<noteq> j"
      proof
        assume "?n mod ?N = j"
        then have "(j + q) mod ?N = (j + 0) mod ?N" using n assms by simp
        moreover have "q mod ?N < ?N" by simp
        ultimately have "q mod ?N = 0"
          using ring_index_inj[of j ?N "q mod ?N" 0] assms by (simp add: mod_add_right_eq)
        with False show False by simp
      qed
      moreover have "(q - 1) div ?N = q div ?N"
      proof -
        have "q = ?N * (q div ?N) + q mod ?N" by simp
        then have "q - 1 = ?N * (q div ?N) + (q mod ?N - 1)" using False by linarith
        then show ?thesis using False
          by (metis add.right_neutral div_less div_mult_self4 less_imp_diff_less mod_less_divisor mult.commute not_gr_zero serial_size_pos add.commute)
      qed
      moreover have "?N * (q div ?N) < q" using False by (metis div_mult_mod_eq less_add_same_cancel1 mult.commute not_gr_zero)
      ultimately show ?thesis using new old n by (simp add: nth_append)
    qed
  qed
qed


lemma init_zero:
  "fold (\<lambda>i m. m(b + i := 0)) [0..<n] m a = (if b \<le> a \<and> a < b + n then 0 else (m a :: u8))"
  by (induction n) auto

lemma fold_putchar_ring:
  assumes "ms_offset s = 0" "j < serial_size"
  shows "ms_mem (fold mem_putchar cs s) (serial_base + j) = ring_byte cs j (ms_mem s (serial_base + j))"
proof (induction cs rule: rev_induct)
  case Nil
  show ?case by (simp add: ring_byte_def)
next
  case (snoc c cs)
  have "ms_offset (fold mem_putchar cs s) = length cs mod serial_size"
    using fold_putchar_offset[of s cs] assms(1) by simp
  then show ?case using snoc ring_byte_snoc[OF assms(2)] by (simp add: mem_putchar_mem)
qed

text \<open>After initialisation and any sequence of messages the ring holds, at every position,
  the newest character written there (zero where none was), the offset points behind the
  last character, and no byte outside the two megabytes has changed.\<close>

theorem mem_serial_keeps_newest:
  assumes "ms_offset s = 0" "css \<noteq> []"
  shows "\<exists>s'. send_messages SerialPortWrite_Mem css (snd (SerialPortInitialize_Mem s)) = Some s' \<and>
    ms_offset s' = length (concat css) mod serial_size \<and>
    (\<forall>a. ms_mem s' a = (if in_serial a then ring_byte (concat css) (a - serial_base) 0 else ms_mem s a))"
proof -
  define s0 where "s0 = snd (SerialPortInitialize_Mem s)"
  have s0: "ms_offset s0 = 0" "ms_mem s0 = (\<lambda>a. if in_serial a then 0 else ms_mem s a)"
    using assms(1) by (auto simp: s0_def SerialPortInitialize_Mem_def init_zero in_serial_def fun_eq_iff)
  obtain s' where s': "send_messages SerialPortWrite_Mem css s0 = Some s'"
    using memport.send_all_total[of s0 css] s0(1) by auto
  have "SerialPortWrite_Mem (concat css) s0 = Some (length (concat css), s')"
    using memport.send_all_concat[OF _ s'] s0(1) by auto
  then have eq: "s' = fold mem_putchar (concat css) s0" by (simp add: SerialPortWrite_Mem_def)
  have "ms_mem s' a = ring_byte (concat css) (a - serial_base) 0" if "in_serial a" for a
    using fold_putchar_ring[OF s0(1), of "a - serial_base" "concat css"] that
    by (auto simp: eq s0(2) in_serial_def)
  moreover have "ms_mem s' a = ms_mem s a" if "\<not> in_serial a" for a
    using fold_putchar_frame[of s0 a] s0 that by (simp add: eq)
  ultimately show ?thesis
    using s' fold_putchar_offset[of s0 "concat css"] s0(1) by (auto simp: eq s0_def)
qed

theorem mem_serial_keeps_newest_witness:
  "\<exists>s'. send_messages SerialPortWrite_Mem [[72, 105], [10]] (snd (SerialPortInitialize_Mem \<lparr>ms_offset = 0, ms_mem = (\<lambda>_. 9)\<rparr>)) = Some s' \<and>
    ms_offset s' = length (concat [[72, 105], [10 :: u8]]) mod serial_size \<and>
    (\<forall>a. ms_mem s' a = (if in_serial a then ring_byte (concat [[72, 105], [10]]) (a - serial_base) 0
      else ms_mem \<lparr>ms_offset = 0, ms_mem = (\<lambda>_. 9)\<rparr> a))"
  by (rule mem_serial_keeps_newest) simp_all

end
