(* ===== verification/SplitterBase.thy ===== *)
theory SplitterBase
  imports Memory
begin

text \<open>
  What both halves of the console splitter (\<open>Drivers/ConSplitterDxe\<close>) share: the growth of
  its pool buffers, array copies, and the removal of a device from a device list.  An array
  is the list of its allocated entries.
\<close>

definition CONSOLE_SPLITTER_ALLOC_UNIT :: nat where
  "CONSOLE_SPLITTER_ALLOC_UNIT = 32"

text \<open>\<open>CopyMem\<close> within or between arrays.\<close>

definition array_slice :: "nat \<Rightarrow> nat \<Rightarrow> 'a list \<Rightarrow> 'a list" where
  "array_slice i n xs = take n (drop i xs)"

definition array_put :: "nat \<Rightarrow> 'a list \<Rightarrow> 'a list \<Rightarrow> 'a list" where
  "array_put i ys xs = take i xs @ ys @ drop (i + length ys) xs"

text \<open>\<open>ReallocatePool\<close> keeps the \<open>Count\<close> old entries; what the new ones hold is the
  parameter \<open>junk\<close>.  Whether the allocation succeeds is the parameter \<open>ok\<close>.\<close>

definition ConSplitterGrowBuffer :: "bool \<Rightarrow> 'a \<Rightarrow> nat \<Rightarrow> 'a list \<Rightarrow> efi_status \<times> nat \<times> 'a list" where
  "ConSplitterGrowBuffer ok junk Count Buffer =
     (if ok
      then (EFI_SUCCESS, Count + CONSOLE_SPLITTER_ALLOC_UNIT,
            take Count Buffer @ replicate CONSOLE_SPLITTER_ALLOC_UNIT junk)
      else (EFI_OUT_OF_RESOURCES, Count, Buffer))"

lemma length_array_slice [simp]: "i + n \<le> length xs \<Longrightarrow> length (array_slice i n xs) = n"
  by (simp add: array_slice_def)

lemma nth_array_slice [simp]: "i + n \<le> length xs \<Longrightarrow> j < n \<Longrightarrow> array_slice i n xs ! j = xs ! (i + j)"
  by (simp add: array_slice_def)

lemma length_array_put [simp]: "i + length ys \<le> length xs \<Longrightarrow> length (array_put i ys xs) = length xs"
  by (simp add: array_put_def)

lemma nth_array_put:
  "i + length ys \<le> length xs \<Longrightarrow> array_put i ys xs ! a =
    (if i \<le> a \<and> a < i + length ys then ys ! (a - i) else xs ! a)"
  by (auto simp: array_put_def nth_append)

lemma nth_move_slice:
  "i + n \<le> length xs \<Longrightarrow> j + n \<le> length xs \<Longrightarrow> array_put i (array_slice j n xs) xs ! a =
    (if i \<le> a \<and> a < i + n then xs ! (j + (a - i)) else xs ! a)"
  by (auto simp: nth_array_put)

section \<open>Device lists\<close>

text \<open>The loops of the four \<open>DeleteDevice\<close> functions of the input half: the first entry that
  is the device, and the entries behind it moved down by one.\<close>

definition delete_entry :: "nat \<Rightarrow> nat \<Rightarrow> nat list \<Rightarrow> nat list option" where
  "delete_entry dev n xs =
     map_option (\<lambda>i. array_put i (array_slice (i + 1) (n - 1 - i) xs) xs) (List.find (\<lambda>i. xs ! i = dev) [0..<n])"

lemma find_first:
  "List.find P [0..<n] = Some i \<longleftrightarrow> i < n \<and> P i \<and> (\<forall>j<i. \<not> P j)"
  by (auto simp: find_Some_iff)

lemma remove1_split: "x \<notin> set ys \<Longrightarrow> remove1 x (ys @ x # zs) = ys @ zs"
  by (simp add: remove1_append)

lemma delete_entry_some:
  assumes "n \<le> length xs" and "delete_entry dev n xs = Some ys"
  shows "dev \<in> set (take n xs) \<and> length ys = length xs \<and> take (n - 1) ys = remove1 dev (take n xs)"
proof -
  obtain i where i: "i < n" "xs ! i = dev" "\<And>j. j < i \<Longrightarrow> xs ! j \<noteq> dev"
      "ys = array_put i (array_slice (i + 1) (n - 1 - i) xs) xs"
    using assms(2) by (auto simp: delete_entry_def find_first)
  have len: "length ys = length xs" using i assms(1) by simp
  have split: "take n xs = take i xs @ dev # take (n - 1 - i) (drop (i + 1) xs)"
  proof -
    have "take n xs = take i xs @ take (n - i) (drop i xs)"
      using i(1) by (metis le_add_diff_inverse less_imp_le_nat take_add)
    moreover have "take (n - i) (drop i xs) = dev # take (n - 1 - i) (drop (i + 1) xs)"
    proof -
      have "n - i = Suc (n - 1 - i)" using i(1) by simp
      moreover have "drop i xs = dev # drop (i + 1) xs"
        using i(1,2) assms(1) by (simp add: Cons_nth_drop_Suc [symmetric])
      ultimately show ?thesis by simp
    qed
    ultimately show ?thesis by simp
  qed
  have "dev \<notin> set (take i xs)"
    using i(1,3) assms(1) by (auto simp: in_set_conv_nth)
  then have "remove1 dev (take n xs) = take i xs @ take (n - 1 - i) (drop (i + 1) xs)"
    using split remove1_split by metis
  moreover have "take (n - 1) ys = take i xs @ take (n - 1 - i) (drop (i + 1) xs)"
    using i(1) assms(1) by (simp add: i(4) array_put_def array_slice_def)
  ultimately show ?thesis using len split by simp
qed

lemma delete_entry_none: "n \<le> length xs \<Longrightarrow> delete_entry dev n xs = None \<longleftrightarrow> dev \<notin> set (take n xs)"
  by (auto simp: delete_entry_def find_None_iff in_set_conv_nth)

text \<open>What every list of attached devices promises its clients.\<close>

locale device_list =
  fixes add :: "nat \<Rightarrow> 's \<Rightarrow> efi_status \<times> 's"
    and del :: "nat \<Rightarrow> 's \<Rightarrow> efi_status \<times> 's"
    and devs :: "'s \<Rightarrow> nat list"
    and inv :: "'s \<Rightarrow> bool"
  assumes add_inv: "inv s \<Longrightarrow> inv (snd (add d s))"
    and add_devs: "inv s \<Longrightarrow> devs (snd (add d s)) = (if EFI_ERROR (fst (add d s)) then devs s else devs s @ [d])"
    and del_inv: "inv s \<Longrightarrow> inv (snd (del d s))"
    and del_devs: "inv s \<Longrightarrow> devs (snd (del d s)) = remove1 d (devs s)"
    and del_status: "inv s \<Longrightarrow> fst (del d s) = (if d \<in> set (devs s) then EFI_SUCCESS else EFI_NOT_FOUND)"
begin

lemma add_del: "inv s \<Longrightarrow> d \<notin> set (devs s) \<Longrightarrow> fst (add d s) = EFI_SUCCESS \<Longrightarrow>
    fst (del d (snd (add d s))) = EFI_SUCCESS \<and> devs (snd (del d (snd (add d s)))) = devs s"
  by (simp add: add_inv add_devs del_devs del_status remove1_append)

lemma del_del: "inv s \<Longrightarrow> distinct (devs s) \<Longrightarrow> fst (del d (snd (del d s))) = EFI_NOT_FOUND"
  by (simp add: del_inv del_devs del_status)

lemma add_distinct: "inv s \<Longrightarrow> distinct (devs s) \<Longrightarrow> d \<notin> set (devs s) \<Longrightarrow> distinct (devs (snd (add d s)))"
  by (simp add: add_devs)

lemma add_all_inv: "inv s \<Longrightarrow> inv (fold (\<lambda>d s. snd (add d s)) ds s)"
  by (induction ds arbitrary: s) (auto simp: add_inv)

lemma del_all: "inv s \<Longrightarrow> devs (fold (\<lambda>d s. snd (del d s)) ds s) = fold remove1 ds (devs s)"
  by (induction ds arbitrary: s) (auto simp: del_inv del_devs)

end

end
