(* ===== verification/TextOut.thy ===== *)
theory TextOut
  imports Memory
begin

text \<open>
  What every implementation of the UEFI simple text output protocol shares: the mode record
  that its clients see, the control characters, and the conversions between the C integer types
  in which columns, rows and modes are passed around.
\<close>

record EFI_SIMPLE_TEXT_OUTPUT_MODE =
  MaxMode :: int
  CurMode :: int
  Attribute :: int
  CursorColumn :: int
  CursorRow :: int
  CursorVisible :: bool

section \<open>C integers\<close>

definition uintn :: "int \<Rightarrow> nat" where
  "uintn i = nat (i mod 2 ^ 64)"

definition int32 :: "nat \<Rightarrow> int" where
  "int32 n = sint (word_of_nat n :: 32 word)"

section \<open>Characters and attributes\<close>

definition CHAR_BACKSPACE :: u16 where "CHAR_BACKSPACE = 8"
definition CHAR_LINEFEED :: u16 where "CHAR_LINEFEED = 10"
definition CHAR_CARRIAGE_RETURN :: u16 where "CHAR_CARRIAGE_RETURN = 13"
definition NARROW_CHAR :: u16 where "NARROW_CHAR = 0xfff0"
definition WIDE_CHAR :: u16 where "WIDE_CHAR = 0xfff1"

definition EFI_WIDE_ATTRIBUTE :: int where "EFI_WIDE_ATTRIBUTE = 0x80"

lemma int32_small: "n < 2 ^ 31 \<Longrightarrow> int32 n = int n"
  by (simp add: int32_def signed_of_nat signed_take_bit_int_eq_self)

lemma wrap_pred: "0 < n \<Longrightarrow> n < 2 ^ 31 \<Longrightarrow> int32 (wrap (n + 2 ^ 64 - 1)) = int n - 1"
proof -
  assume n: "0 < n" "n < 2 ^ 31"
  then have "n + 2 ^ 64 - 1 = (n - 1) + 2 ^ 64" by simp
  then have "wrap (n + 2 ^ 64 - 1) = n - 1" using n unfolding wrap_def by (simp only: mod_add_self2) simp
  then show ?thesis using n by (simp add: int32_small)
qed

lemma uintn_nonneg: "0 \<le> i \<Longrightarrow> i < 2 ^ 64 \<Longrightarrow> uintn i = nat i"
  by (simp add: uintn_def)

lemma uintn_int [simp]: "n < 2 ^ 64 \<Longrightarrow> uintn (int n) = n"
  by (simp add: uintn_def)

end
