(* ===== verification/SplitterOut.thy ===== *)
theory SplitterOut
  imports SplitterBase TextOut GraphicsMode
begin

text \<open>
  The text output half of the console splitter (\<open>Drivers/ConSplitterDxe\<close>): the virtual console
  that forwards every operation to the attached consoles, and the table of the text modes that
  all of them support.

  Attached consoles are drivers of their own.  What they answer comes from an environment
  record, which sees the calls made so far; the calls are logged in the state.  The two
  splitters \<open>mConOut\<close> and \<open>mStdErr\<close> are the two components of the state.  Arrays (the console
  list, the query data and the mode map with its rows of \<open>TextOutListCount\<close> entries) are
  lists of their allocated length.
\<close>

section \<open>Data\<close>

record TEXT_OUT_SPLITTER_QUERY_DATA =
  QColumns :: nat
  QRows :: nat

record TEXT_OUT_AND_GOP_DATA =
  GopDevice :: "nat option"
  UgaDevice :: "nat option"
  TextOutDevice :: nat

record TEXT_OUT_SPLITTER_PRIVATE_DATA =
  TextOutMode :: EFI_SIMPLE_TEXT_OUTPUT_MODE
  UgaHorizontalResolution :: nat
  UgaVerticalResolution :: nat
  UgaColorDepth :: nat
  UgaRefreshRate :: nat
  GraphicsOutputMode :: "EFI_GRAPHICS_OUTPUT_PROTOCOL_MODE option"
  GraphicsOutputModeBuffer :: "EFI_GRAPHICS_OUTPUT_MODE_INFORMATION list"
  CurrentNumberOfGraphicsOutput :: nat
  CurrentNumberOfUgaDraw :: nat
  CurrentNumberOfConsoles :: nat
  TextOutList :: "TEXT_OUT_AND_GOP_DATA list"
  TextOutListCount :: nat
  TextOutQueryData :: "TEXT_OUT_SPLITTER_QUERY_DATA list"
  TextOutQueryDataCount :: nat
  TextOutModeMap :: "int list option"
  AddingConOutDevice :: bool

text \<open>Calls into an attached console, its graphics output or UGA draw protocol, and into the boot services (whether the
  graphics output and the UGA draw protocol are installed or uninstalled).\<close>

datatype to_call =
    CReset bool
  | COutputString "u16 list"
  | CTestString "u16 list"
  | CSetMode int
  | CSetAttribute nat
  | CClearScreen
  | CSetCursorPosition nat nat
  | CEnableCursor bool
  | CUninstallGraphics bool bool
  | CInstallGraphics bool bool
  | GSetMode nat
  | GBlt nat "nat list"
  | USetMode nat nat nat nat
  | UBlt nat "nat list"

type_synonym to_log = "(nat \<times> to_call) list"

record to_env =
  to_status :: "to_log \<Rightarrow> nat \<Rightarrow> to_call \<Rightarrow> efi_status"
  to_mode :: "to_log \<Rightarrow> nat \<Rightarrow> EFI_SIMPLE_TEXT_OUTPUT_MODE"
  to_query :: "to_log \<Rightarrow> nat \<Rightarrow> int \<Rightarrow> efi_status \<times> TEXT_OUT_SPLITTER_QUERY_DATA"
  alloc_ok :: "nat \<Rightarrow> bool"
  junk_query :: TEXT_OUT_SPLITTER_QUERY_DATA
  junk_console :: TEXT_OUT_AND_GOP_DATA
  PcdConOutGopSupport :: bool
  PcdConOutUgaSupport :: bool
  PcdUgaConsumeSupport :: bool
  gop_mode :: "to_log \<Rightarrow> nat \<Rightarrow> EFI_GRAPHICS_OUTPUT_PROTOCOL_MODE"
  gop_info :: "to_log \<Rightarrow> nat \<Rightarrow> EFI_GRAPHICS_OUTPUT_MODE_INFORMATION"
  gop_query :: "to_log \<Rightarrow> nat \<Rightarrow> nat \<Rightarrow> efi_status \<times> EFI_GRAPHICS_OUTPUT_MODE_INFORMATION"
  uga_get_mode :: "to_log \<Rightarrow> nat \<Rightarrow> efi_status \<times> nat \<times> nat \<times> nat \<times> nat"
  junk_info :: EFI_GRAPHICS_OUTPUT_MODE_INFORMATION

datatype splitter = ConOut | StdErr

record splitter_state =
  mConOut :: TEXT_OUT_SPLITTER_PRIVATE_DATA
  mStdErr :: TEXT_OUT_SPLITTER_PRIVATE_DATA
  to_calls :: to_log
  to_allocs :: nat
  pcdConOutColumn :: nat
  pcdConOutRow :: nat

definition priv :: "splitter \<Rightarrow> splitter_state \<Rightarrow> TEXT_OUT_SPLITTER_PRIVATE_DATA" where
  "priv k s = (case k of ConOut \<Rightarrow> mConOut s | StdErr \<Rightarrow> mStdErr s)"

definition set_priv :: "splitter \<Rightarrow> TEXT_OUT_SPLITTER_PRIVATE_DATA \<Rightarrow> splitter_state \<Rightarrow> splitter_state" where
  "set_priv k P s = (case k of ConOut \<Rightarrow> s\<lparr>mConOut := P\<rparr> | StdErr \<Rightarrow> s\<lparr>mStdErr := P\<rparr>)"

definition set_mode_data ::
  "splitter \<Rightarrow> (EFI_SIMPLE_TEXT_OUTPUT_MODE \<Rightarrow> EFI_SIMPLE_TEXT_OUTPUT_MODE) \<Rightarrow> splitter_state \<Rightarrow> splitter_state" where
  "set_mode_data k f s = set_priv k ((priv k s)\<lparr>TextOutMode := f (TextOutMode (priv k s))\<rparr>) s"

section \<open>Growing the tables\<close>

definition ConSplitterGrowMapTable :: "to_env \<Rightarrow> splitter \<Rightarrow> splitter_state \<Rightarrow> efi_status \<times> splitter_state" where
  "ConSplitterGrowMapTable env k s =
     (let P = priv k s;
          NewStepSize = TextOutListCount P;
          s1 = s\<lparr>to_allocs := Suc (to_allocs s)\<rparr>;
          fresh = replicate (NewStepSize * TextOutQueryDataCount P) (- 1);
          OldStepSize = NewStepSize - CONSOLE_SPLITTER_ALLOC_UNIT;
          copy = (\<lambda>old Index new. array_put (Index * NewStepSize)
                    (array_slice (Index * OldStepSize) (CurrentNumberOfConsoles P) old) new)
      in if \<not> alloc_ok env (to_allocs s) then (EFI_OUT_OF_RESOURCES, s1)
         else (EFI_SUCCESS, set_priv k (P\<lparr>TextOutModeMap := Some (case TextOutModeMap P of
                 None \<Rightarrow> fresh
               | Some old \<Rightarrow> fold (copy old) [0..<nat (MaxMode (TextOutMode P))] fresh)\<rparr>) s1))"

text \<open>The query data grows until it holds \<open>MaxMode\<close> entries.\<close>

function grow_query_data :: "to_env \<Rightarrow> splitter \<Rightarrow> int \<Rightarrow> splitter_state \<Rightarrow> efi_status \<times> splitter_state" where
  "grow_query_data env k NewMax s =
     (let P = priv k s in
      if int (TextOutQueryDataCount P) < NewMax
      then (case ConSplitterGrowBuffer (alloc_ok env (to_allocs s)) (junk_query env) (TextOutQueryDataCount P) (TextOutQueryData P) of
              (st, n, buf) \<Rightarrow>
                let s' = s\<lparr>to_allocs := Suc (to_allocs s)\<rparr> in
                if EFI_ERROR st then (EFI_OUT_OF_RESOURCES, s')
                else grow_query_data env k NewMax
                       (set_priv k ((priv k s')\<lparr>TextOutQueryDataCount := n, TextOutQueryData := buf\<rparr>) s'))
      else (EFI_SUCCESS, s))"
  by pat_completeness auto
termination
  by (relation "measure (\<lambda>(env, k, NewMax, s). nat (NewMax - int (TextOutQueryDataCount (priv k s))))")
    (auto simp: ConSplitterGrowBuffer_def CONSOLE_SPLITTER_ALLOC_UNIT_def priv_def set_priv_def Let_def
      split: splitter.splits if_splits)

declare grow_query_data.simps [simp del]

section \<open>The mode table\<close>

text \<open>The first console defines the modes: one row per mode.\<close>

definition add_mode :: "to_env \<Rightarrow> splitter \<Rightarrow> nat \<Rightarrow> nat \<Rightarrow> splitter_state \<Rightarrow> splitter_state" where
  "add_mode env k dev Mode s =
     (let P = priv k s;
          (Status, q) = to_query env (to_calls s) dev (int Mode);
          q' = (if EFI_ERROR Status \<and> Mode = 1 then \<lparr>QColumns = 0, QRows = 0\<rparr> else q)
      in set_priv k (P\<lparr>TextOutQueryData := (TextOutQueryData P)[Mode := q'],
           TextOutModeMap := map_option (\<lambda>m. m[Mode * TextOutListCount P := int Mode]) (TextOutModeMap P)\<rparr>) s)"

definition ConSplitterAddOutputMode :: "to_env \<Rightarrow> splitter \<Rightarrow> nat \<Rightarrow> splitter_state \<Rightarrow> efi_status \<times> splitter_state" where
  "ConSplitterAddOutputMode env k dev s =
     (let NewMax = MaxMode (to_mode env (to_calls s) dev);
          s1 = set_mode_data k (\<lambda>t. t\<lparr>MaxMode := NewMax\<rparr>) s;
          (st, s2) = grow_query_data env k NewMax s1
      in if EFI_ERROR st then (EFI_OUT_OF_RESOURCES, s2)
         else let (st, s3) = ConSplitterGrowMapTable env k s2
              in if EFI_ERROR st then (EFI_OUT_OF_RESOURCES, s3)
                 else (EFI_SUCCESS, fold (add_mode env k dev) [0..<nat NewMax] s3))"

text \<open>The column of a newly added console is in the mode map itself, at an offset; the two
  splitters are compared through a separate array with one entry per row.\<close>

datatype map_column = InMap nat | OwnArray "int list"

definition column_entry :: "map_column \<Rightarrow> int list \<Rightarrow> nat \<Rightarrow> int" where
  "column_entry col m i = (case col of InMap off \<Rightarrow> m ! (off + i) | OwnArray a \<Rightarrow> a ! i)"

text \<open>The loop of \<open>ConSplitterGetIntersection\<close>: \<open>n\<close> rounds from row \<open>Index\<close> on, the next kept row
  goes to offset \<open>Next\<close>.\<close>

fun intersect_rows ::
  "map_column \<Rightarrow> nat \<Rightarrow> nat \<Rightarrow> int \<Rightarrow> nat \<Rightarrow> nat \<Rightarrow> nat \<Rightarrow> int list \<times> int \<times> int \<Rightarrow> int list \<times> int \<times> int" where
  "intersect_rows col Step NewStep CurrentMode 0 Index Next st = st"
| "intersect_rows col Step NewStep CurrentMode (Suc n) Index Next (m, NewMax, Mode) =
     (if column_entry col m (Index * NewStep) = - 1
      then intersect_rows col Step NewStep CurrentMode n (Suc Index) Next
             (m, NewMax - 1,
              if int Index = CurrentMode then - 1
              else if int Index < CurrentMode then Mode - 1 else Mode)
      else intersect_rows col Step NewStep CurrentMode n (Suc Index) (Next + Step)
             (if Index * Step \<noteq> Next then array_put Next (array_slice (Index * Step) Step m) m else m, NewMax, Mode))"

definition ConSplitterGetIntersection ::
  "int list \<Rightarrow> map_column \<Rightarrow> nat \<Rightarrow> nat \<Rightarrow> int \<Rightarrow> int \<Rightarrow> int list \<times> int \<times> int" where
  "ConSplitterGetIntersection m col MapStepSize NewMapStepSize NewMax Mode =
     intersect_rows col MapStepSize NewMapStepSize Mode (nat (NewMax - 2)) 2 (2 * MapStepSize) (m, NewMax, Mode)"

text \<open>A further console: its column gets the mode of its own with the size of each row, then
  the rows it does not support are dropped.\<close>

definition find_row :: "TEXT_OUT_SPLITTER_PRIVATE_DATA \<Rightarrow> int list \<Rightarrow> nat \<Rightarrow> TEXT_OUT_SPLITTER_QUERY_DATA \<Rightarrow> nat option" where
  "find_row P m n q =
     List.find (\<lambda>i. let d = TextOutQueryData P ! nat (m ! (i * TextOutListCount P)) in QRows d = QRows q \<and> QColumns d = QColumns q)
       [0..<n]"

definition sync_mode :: "to_env \<Rightarrow> to_log \<Rightarrow> nat \<Rightarrow> nat \<Rightarrow> nat \<Rightarrow> TEXT_OUT_SPLITTER_PRIVATE_DATA \<Rightarrow> TEXT_OUT_SPLITTER_PRIVATE_DATA" where
  "sync_mode env log dev CurrentMaxMode Mode P =
     (let m = the (TextOutModeMap P); Step = TextOutListCount P; off = CurrentNumberOfConsoles P;
          (Status, q) = to_query env log dev (int Mode)
      in if EFI_ERROR Status
         then (if Mode = 1
               then P\<lparr>TextOutModeMap := Some (m[off + Step := int Mode]),
                      TextOutQueryData := (TextOutQueryData P)[Mode := \<lparr>QColumns = 0, QRows = 0\<rparr>]\<rparr>
               else P)
         else case find_row P m CurrentMaxMode q of
                None \<Rightarrow> P
              | Some i \<Rightarrow> P\<lparr>TextOutModeMap := Some (m[off + i * Step := int Mode])\<rparr>)"

definition ConSplitterSyncOutputMode :: "to_env \<Rightarrow> splitter \<Rightarrow> nat \<Rightarrow> splitter_state \<Rightarrow> splitter_state" where
  "ConSplitterSyncOutputMode env k dev s =
     (let P = priv k s;
          P1 = fold (sync_mode env (to_calls s) dev (nat (MaxMode (TextOutMode P))))
                 [0..<nat (MaxMode (to_mode env (to_calls s) dev))] P;
          Step = TextOutListCount P;
          (m, NewMax, Mode) = ConSplitterGetIntersection (the (TextOutModeMap P1)) (InMap (CurrentNumberOfConsoles P))
             Step Step (MaxMode (TextOutMode P1)) (CurMode (TextOutMode P1))
      in set_priv k (P1\<lparr>TextOutModeMap := Some m, TextOutMode := (TextOutMode P1)\<lparr>MaxMode := NewMax, CurMode := Mode\<rparr>\<rparr>) s)"

section \<open>Operations on all consoles\<close>

definition call_console :: "to_env \<Rightarrow> nat \<Rightarrow> to_call \<Rightarrow> splitter_state \<Rightarrow> efi_status \<times> splitter_state" where
  "call_console env dev c s = (to_status env (to_calls s) dev c, s\<lparr>to_calls := to_calls s @ [(dev, c)]\<rparr>)"

definition console :: "splitter \<Rightarrow> nat \<Rightarrow> splitter_state \<Rightarrow> nat" where
  "console k Index s = TextOutDevice (TextOutList (priv k s) ! Index)"

text \<open>\<open>for_consoles\<close> is the loop all operations share: the call for a console (or none), and the
  last error as the result.\<close>

definition for_consoles ::
  "to_env \<Rightarrow> splitter \<Rightarrow> (nat \<Rightarrow> splitter_state \<Rightarrow> to_call option) \<Rightarrow> splitter_state \<Rightarrow> efi_status \<times> splitter_state" where
  "for_consoles env k f s =
     fold (\<lambda>Index (ReturnStatus, s). case f Index s of
              None \<Rightarrow> (ReturnStatus, s)
            | Some c \<Rightarrow> (let (Status, s') = call_console env (console k Index s) c s
                         in (if EFI_ERROR Status then Status else ReturnStatus, s')))
       [0..<CurrentNumberOfConsoles (priv k s)] (EFI_SUCCESS, s)"

definition TextOutSetMode :: "splitter \<Rightarrow> nat \<Rightarrow> splitter_state \<Rightarrow> splitter_state" where
  "TextOutSetMode k ModeNumber =
     set_mode_data k (\<lambda>t. t\<lparr>CurMode := int32 ModeNumber, CursorColumn := 0, CursorRow := 0, CursorVisible := True\<rparr>)"

text \<open>\<open>None\<close> in the second component: the two outputs are not written.\<close>

definition ConSplitterTextOutQueryMode ::
  "splitter \<Rightarrow> nat \<Rightarrow> splitter_state \<Rightarrow> efi_status \<times> TEXT_OUT_SPLITTER_QUERY_DATA option" where
  "ConSplitterTextOutQueryMode k ModeNumber s =
     (let P = priv k s in
      if 0x7fffffff < ModeNumber then (EFI_UNSUPPORTED, None)
      else if MaxMode (TextOutMode P) \<le> int32 ModeNumber then (EFI_UNSUPPORTED, None)
      else let q = (case TextOutModeMap P of
                      Some m \<Rightarrow> TextOutQueryData P ! uintn (m ! (TextOutListCount P * ModeNumber))
                    | None \<Rightarrow> TextOutQueryData P ! ModeNumber)
           in (if QColumns q \<le> 0 \<and> QRows q \<le> 0 then EFI_UNSUPPORTED else EFI_SUCCESS, Some q))"

definition ConSplitterTextOutClearScreen :: "to_env \<Rightarrow> splitter \<Rightarrow> splitter_state \<Rightarrow> efi_status \<times> splitter_state" where
  "ConSplitterTextOutClearScreen env k s =
     (let (ReturnStatus, s1) = for_consoles env k (\<lambda>_ _. Some CClearScreen) s
      in (ReturnStatus, set_mode_data k (\<lambda>t. t\<lparr>CursorColumn := 0, CursorRow := 0, CursorVisible := True\<rparr>) s1))"

definition ConSplitterTextOutSetMode :: "to_env \<Rightarrow> splitter \<Rightarrow> nat \<Rightarrow> splitter_state \<Rightarrow> efi_status \<times> splitter_state" where
  "ConSplitterTextOutSetMode env k ModeNumber s =
     (let P = priv k s in
      if 0x7fffffff < ModeNumber then (EFI_UNSUPPORTED, s)
      else if MaxMode (TextOutMode P) \<le> int32 ModeNumber then (EFI_UNSUPPORTED, s)
      else if CurMode (TextOutMode P) = int32 ModeNumber then ConSplitterTextOutClearScreen env k s
      else let entry = (\<lambda>Index. the (TextOutModeMap P) ! (TextOutListCount P * ModeNumber + Index));
               (ReturnStatus, s1) = for_consoles env k
                 (\<lambda>Index s. if \<not> AddingConOutDevice P \<or> entry Index \<noteq> CurMode (to_mode env (to_calls s) (console k Index s))
                            then Some (CSetMode (entry Index)) else None) s
           in (ReturnStatus, TextOutSetMode k ModeNumber s1))"

definition ConSplitterTextOutSetAttribute :: "to_env \<Rightarrow> splitter \<Rightarrow> nat \<Rightarrow> splitter_state \<Rightarrow> efi_status \<times> splitter_state" where
  "ConSplitterTextOutSetAttribute env k Attr s =
     (if Attr OR 0x7f \<noteq> 0x7f then (EFI_UNSUPPORTED, s)
      else let (ReturnStatus, s1) = for_consoles env k (\<lambda>_ _. Some (CSetAttribute Attr)) s
           in (ReturnStatus, set_mode_data k (\<lambda>t. t\<lparr>Attribute := int32 Attr\<rparr>) s1))"

definition ConSplitterTextOutReset :: "to_env \<Rightarrow> splitter \<Rightarrow> bool \<Rightarrow> splitter_state \<Rightarrow> efi_status \<times> splitter_state" where
  "ConSplitterTextOutReset env k ExtendedVerification s =
     (let (ReturnStatus, s1) = for_consoles env k (\<lambda>_ _. Some (CReset ExtendedVerification)) s;
          (_, s2) = ConSplitterTextOutSetAttribute env k (uintn (Attribute (TextOutMode (priv k s1)) AND 0x0f)) s1
      in (ReturnStatus, TextOutSetMode k 0 s2))"

text \<open>Without consoles the cursor is moved as a console would move it.\<close>

definition move_cursor :: "nat \<Rightarrow> nat \<Rightarrow> u16 \<Rightarrow> EFI_SIMPLE_TEXT_OUTPUT_MODE \<Rightarrow> EFI_SIMPLE_TEXT_OUTPUT_MODE" where
  "move_cursor MaxColumn MaxRow c t =
     (let last_column = int32 (wrap (MaxColumn + 2 ^ 64 - 1)); last_row = int32 (wrap (MaxRow + 2 ^ 64 - 1)) in
      if c = CHAR_BACKSPACE then
        (if CursorColumn t = 0 \<and> 0 < CursorRow t
         then t\<lparr>CursorRow := CursorRow t - 1, CursorColumn := last_column\<rparr>
         else if 0 < CursorColumn t then t\<lparr>CursorColumn := CursorColumn t - 1\<rparr> else t)
      else if c = CHAR_LINEFEED then
        (if CursorRow t < last_row then t\<lparr>CursorRow := CursorRow t + 1\<rparr> else t)
      else if c = CHAR_CARRIAGE_RETURN then t\<lparr>CursorColumn := 0\<rparr>
      else if CursorColumn t < last_column then t\<lparr>CursorColumn := CursorColumn t + 1\<rparr>
      else (if CursorRow t < last_row then t\<lparr>CursorColumn := 0, CursorRow := CursorRow t + 1\<rparr>
            else t\<lparr>CursorColumn := 0\<rparr>))"

definition ConSplitterTextOutOutputString :: "to_env \<Rightarrow> splitter \<Rightarrow> u16 list \<Rightarrow> splitter_state \<Rightarrow> efi_status \<times> splitter_state" where
  "ConSplitterTextOutOutputString env k WString s =
     (let (_, s0) = ConSplitterTextOutSetAttribute env k (uintn (Attribute (TextOutMode (priv k s)))) s;
          (ReturnStatus, s1) = for_consoles env k (\<lambda>_ _. Some (COutputString WString)) s0;
          P = priv k s1
      in if 0 < CurrentNumberOfConsoles P
         then let t = to_mode env (to_calls s1) (console k 0 s1)
              in (ReturnStatus, set_mode_data k (\<lambda>v. v\<lparr>CursorColumn := CursorColumn t, CursorRow := CursorRow t\<rparr>) s1)
         else let q = (case snd (ConSplitterTextOutQueryMode k (uintn (CurMode (TextOutMode P))) s1) of
                         Some q \<Rightarrow> q | None \<Rightarrow> junk_query env)
              in (ReturnStatus, set_mode_data k (fold (move_cursor (QColumns q) (QRows q)) WString) s1))"

definition ConSplitterTextOutTestString :: "to_env \<Rightarrow> splitter \<Rightarrow> u16 list \<Rightarrow> splitter_state \<Rightarrow> efi_status \<times> splitter_state" where
  "ConSplitterTextOutTestString env k WString = for_consoles env k (\<lambda>_ _. Some (CTestString WString))"

text \<open>The result is \<open>None\<close> when the current mode is negative: the code then reads the mode map
  before its first entry (or the query data, without a map).\<close>

definition ConSplitterTextOutSetCursorPosition ::
  "to_env \<Rightarrow> splitter \<Rightarrow> nat \<Rightarrow> nat \<Rightarrow> splitter_state \<Rightarrow> (efi_status \<times> splitter_state) option" where
  "ConSplitterTextOutSetCursorPosition env k Column Row s =
     (let P = priv k s; ModeNumber = CurMode (TextOutMode P) in
      if ModeNumber < 0 then None
      else let q = (case TextOutModeMap P of
                      Some m \<Rightarrow> TextOutQueryData P ! nat (m ! (TextOutListCount P * nat ModeNumber))
                    | None \<Rightarrow> TextOutQueryData P ! nat ModeNumber)
           in if QColumns q \<le> Column \<or> QRows q \<le> Row then Some (EFI_UNSUPPORTED, s)
              else let (ReturnStatus, s1) = for_consoles env k (\<lambda>_ _. Some (CSetCursorPosition Column Row)) s
                   in Some (ReturnStatus, set_mode_data k (\<lambda>t. t\<lparr>CursorColumn := int32 Column, CursorRow := int32 Row\<rparr>) s1))"

definition ConSplitterTextOutEnableCursor :: "to_env \<Rightarrow> splitter \<Rightarrow> bool \<Rightarrow> splitter_state \<Rightarrow> efi_status \<times> splitter_state" where
  "ConSplitterTextOutEnableCursor env k Visible s =
     (let (ReturnStatus, s1) = for_consoles env k (\<lambda>_ _. Some (CEnableCursor Visible)) s
      in (ReturnStatus, set_mode_data k (\<lambda>t. t\<lparr>CursorVisible := Visible\<rparr>) s1))"


section \<open>The two splitters together\<close>

text \<open>The search for a console that both splitters have: the pointer into the list of the second
  one is not moved back for the next console of the first.\<close>

definition find_common :: "splitter_state \<Rightarrow> bool" where
  "find_common s =
     (let C = mConOut s; E = mStdErr s; n = CurrentNumberOfConsoles E in
      list_ex (\<lambda>i. list_ex (\<lambda>j. TextOutDevice (TextOutList C ! i) = TextOutDevice (TextOutList E ! (i * n + j))) [0..<n])
        [0..<CurrentNumberOfConsoles C])"

definition row_size :: "TEXT_OUT_SPLITTER_PRIVATE_DATA \<Rightarrow> nat \<Rightarrow> TEXT_OUT_SPLITTER_QUERY_DATA" where
  "row_size P Mode = TextOutQueryData P ! nat (the (TextOutModeMap P) ! (Mode * TextOutListCount P))"

definition same_size :: "TEXT_OUT_SPLITTER_QUERY_DATA \<Rightarrow> TEXT_OUT_SPLITTER_QUERY_DATA \<Rightarrow> bool" where
  "same_size p q \<longleftrightarrow> QRows p = QRows q \<and> QColumns p = QColumns q"

definition match_row ::
  "TEXT_OUT_SPLITTER_PRIVATE_DATA \<Rightarrow> TEXT_OUT_SPLITTER_PRIVATE_DATA \<Rightarrow> nat \<Rightarrow> int list \<times> int list \<Rightarrow> int list \<times> int list" where
  "match_row C E Mode = (\<lambda>(cm, em).
     case List.find (\<lambda>Index. same_size (row_size E Index) (row_size C Mode)) [0..<nat (MaxMode (TextOutMode E))] of
       None \<Rightarrow> (cm, em)
     | Some Index \<Rightarrow> (cm[Mode := 1], em[Index := 1]))"

definition intersect_splitter :: "to_env \<Rightarrow> splitter \<Rightarrow> int list \<Rightarrow> splitter_state \<Rightarrow> splitter_state" where
  "intersect_splitter env k col s =
     (let P = priv k s;
          (m, NewMax, Mode) = ConSplitterGetIntersection (the (TextOutModeMap P)) (OwnArray col) (TextOutListCount P) 1
             (MaxMode (TextOutMode P)) (CurMode (TextOutMode P));
          s1 = set_priv k (P\<lparr>TextOutModeMap := Some m, TextOutMode := (TextOutMode P)\<lparr>MaxMode := NewMax, CurMode := Mode\<rparr>\<rparr>) s
      in if Mode < 0 then snd (ConSplitterTextOutSetMode env k 0 s1) else s1)"

definition ConSplitterGetIntersectionBetweenConOutAndStrErr :: "to_env \<Rightarrow> splitter_state \<Rightarrow> efi_status \<times> splitter_state" where
  "ConSplitterGetIntersectionBetweenConOutAndStrErr env s =
     (if \<not> find_common s then (EFI_SUCCESS, s)
      else let C = mConOut s; E = mStdErr s;
               s1 = s\<lparr>to_allocs := Suc (to_allocs s)\<rparr>; s2 = s\<lparr>to_allocs := Suc (Suc (to_allocs s))\<rparr>;
               (cm, em) = fold (match_row C E) [0..<nat (MaxMode (TextOutMode C))]
                 (replicate (nat (MaxMode (TextOutMode C))) (- 1), replicate (nat (MaxMode (TextOutMode E))) (- 1))
           in if \<not> alloc_ok env (to_allocs s) then (EFI_OUT_OF_RESOURCES, s1)
              else if \<not> alloc_ok env (to_allocs s1) then (EFI_OUT_OF_RESOURCES, s2)
              else (EFI_SUCCESS, intersect_splitter env StdErr em (intersect_splitter env ConOut cm s2)))"

section \<open>Choosing a mode and removing a console\<close>

definition prefer_mode ::
  "splitter \<Rightarrow> splitter_state \<Rightarrow> nat \<Rightarrow> nat \<times> nat \<times> nat \<times> nat \<Rightarrow> nat \<times> nat \<times> nat \<times> nat" where
  "prefer_mode k s Mode = (\<lambda>(PreferMode, BaseMode, MaxCol, MaxRow).
     case ConSplitterTextOutQueryMode k Mode s of
       (EFI_SUCCESS, Some q) \<Rightarrow>
         (let (PreferMode, MaxCol, MaxRow) =
                (if pcdConOutColumn s \<noteq> 0 \<and> pcdConOutRow s \<noteq> 0
                 then (if QColumns q = pcdConOutColumn s \<and> QRows q = pcdConOutRow s then Mode else PreferMode, MaxCol, MaxRow)
                 else if MaxCol \<le> QColumns q \<and> MaxRow \<le> QRows q then (Mode, QColumns q, QRows q)
                 else (PreferMode, MaxCol, MaxRow))
          in (PreferMode, if QColumns q = 90 \<and> QRows q = 80 then Mode else BaseMode, MaxCol, MaxRow))
     | _ \<Rightarrow> (PreferMode, BaseMode, MaxCol, MaxRow))"

definition ConsplitterSetConsoleOutMode :: "to_env \<Rightarrow> splitter \<Rightarrow> splitter_state \<Rightarrow> splitter_state" where
  "ConsplitterSetConsoleOutMode env k s =
     (let (PreferMode, BaseMode, _, _) =
            fold (prefer_mode k s) [0..<uintn (MaxMode (TextOutMode (priv k s)))] (0xff, 0xff, 0, 0);
          (Status, s1) = ConSplitterTextOutSetMode env k PreferMode s
      in if EFI_ERROR Status
         then (snd (ConSplitterTextOutSetMode env k BaseMode s1))\<lparr>pcdConOutColumn := 90, pcdConOutRow := 80\<rparr>
         else s1)"

text \<open>A counter of type \<open>UINTN\<close> that is decremented.\<close>

definition pred64 :: "nat \<Rightarrow> nat" where
  "pred64 n = wrap (n + 2 ^ 64 - 1)"

text \<open>Which of the graphics output and UGA draw protocols the splitter publishes.\<close>

definition graphics_protocols :: "to_env \<Rightarrow> bool \<times> bool" where
  "graphics_protocols env =
     (if \<not> PcdConOutGopSupport env then (False, True) else if \<not> PcdConOutUgaSupport env then (True, False) else (True, True))"

definition find_console :: "TEXT_OUT_SPLITTER_PRIVATE_DATA \<Rightarrow> nat \<Rightarrow> nat option" where
  "find_console P dev =
     List.find (\<lambda>i. TextOutDevice (TextOutList P ! i) = dev) [0..<CurrentNumberOfConsoles P]"

text \<open>The rest of the list moves down by one; the consoles that stay are added again.\<close>

definition remove_console :: "nat \<Rightarrow> TEXT_OUT_SPLITTER_PRIVATE_DATA \<Rightarrow> TEXT_OUT_SPLITTER_PRIVATE_DATA" where
  "remove_console p P =
     (let d = TextOutList P ! p; n = CurrentNumberOfConsoles P in
      P\<lparr>CurrentNumberOfUgaDraw := (if UgaDevice d \<noteq> None then pred64 (CurrentNumberOfUgaDraw P) else CurrentNumberOfUgaDraw P),
        CurrentNumberOfGraphicsOutput :=
          (if GopDevice d \<noteq> None then pred64 (CurrentNumberOfGraphicsOutput P) else CurrentNumberOfGraphicsOutput P),
        TextOutList := array_put p (array_slice (p + 1) (n - 1 - p) (TextOutList P)) (TextOutList P)\<rparr>)"

definition resync :: "to_env \<Rightarrow> splitter \<Rightarrow> nat \<Rightarrow> splitter_state \<Rightarrow> splitter_state" where
  "resync env k Index s =
     (let s1 = ConSplitterSyncOutputMode env k (console k Index s) s
      in set_priv k ((priv k s1)\<lparr>CurrentNumberOfConsoles := CurrentNumberOfConsoles (priv k s1) + 1\<rparr>) s1)"

definition ConSplitterTextOutDeleteDevice :: "to_env \<Rightarrow> splitter \<Rightarrow> nat \<Rightarrow> splitter_state \<Rightarrow> efi_status \<times> splitter_state" where
  "ConSplitterTextOutDeleteDevice env k dev s =
     (case find_console (priv k s) dev of None \<Rightarrow> (EFI_NOT_FOUND, s)
      | Some p \<Rightarrow>
          let P = remove_console p (priv k s);
              n = CurrentNumberOfConsoles P - 1;
              s1 = set_priv k P s;
              s2 = (if CurrentNumberOfGraphicsOutput P = 0 \<and> CurrentNumberOfUgaDraw P = 0
                    then snd (call_console env 0 (case graphics_protocols env of (gop, uga) \<Rightarrow> CUninstallGraphics gop uga) s1) else s1)
          in if n = 0
             then (EFI_SUCCESS, TextOutSetMode k 0 (set_priv k
                     (P\<lparr>CurrentNumberOfConsoles := 0, TextOutMode := (TextOutMode P)\<lparr>MaxMode := 1\<rparr>,
                        TextOutQueryData := (TextOutQueryData P)[0 := \<lparr>QColumns = 80, QRows = 25\<rparr>]\<rparr>) s2))
             else let s3 = set_priv k
                        (P\<lparr>TextOutQueryData := replicate (TextOutQueryDataCount P) \<lparr>QColumns = 0, QRows = 0\<rparr>,
                           TextOutModeMap := None\<rparr>) s2;
                      (Status, s4) = ConSplitterAddOutputMode env k (console k 0 s3) s3;
                      s5 = set_priv k ((priv k s4)\<lparr>CurrentNumberOfConsoles := 1\<rparr>) s4;
                      s6 = fold (resync env k) [1..<n] s5;
                      (_, s7) = ConSplitterGetIntersectionBetweenConOutAndStrErr env s6
                  in (Status, s7))"

end
