(* ===== verification/SplitterOutCorrect.thy ===== *)
theory SplitterOutCorrect
  imports SplitterOut
begin

text \<open>
  The text output splitter: the mode table keeps exactly the rows every console supports, the
  operations reach every console once and in order, and the cursor of a splitter without
  consoles stays on its screen.
\<close>

section \<open>Dropping rows\<close>

text \<open>The rows that stay: the first two always, a later one when its entry is set.\<close>

definition kept_rows :: "map_column \<Rightarrow> int list \<Rightarrow> nat \<Rightarrow> nat \<Rightarrow> nat list" where
  "kept_rows col m NewStep n = [0, 1] @ filter (\<lambda>i. column_entry col m (i * NewStep) \<noteq> - 1) [2..<n]"

definition cell :: "nat \<Rightarrow> int list \<Rightarrow> nat \<Rightarrow> nat \<Rightarrow> int" where
  "cell Step m i c = m ! (i * Step + c)"

lemma kept_rows_Suc:
  "2 \<le> n \<Longrightarrow> kept_rows col m k (Suc n) =
    (if column_entry col m (n * k) = - 1 then kept_rows col m k n else kept_rows col m k n @ [n])"
  by (simp add: kept_rows_def)

lemma kept_rows_bound: "2 \<le> n \<Longrightarrow> j \<in> set (kept_rows col m k n) \<Longrightarrow> j < n"
  by (auto simp: kept_rows_def)

lemma length_kept_rows: "2 \<le> n \<Longrightarrow> length (kept_rows col m k n) \<le> n"
  using length_filter_le[of "\<lambda>i. column_entry col m (i * k) \<noteq> - 1" "[2..<n]"] by (simp add: kept_rows_def)

text \<open>The new number of a current mode.\<close>

definition new_mode :: "map_column \<Rightarrow> int list \<Rightarrow> nat \<Rightarrow> nat \<Rightarrow> int \<Rightarrow> int" where
  "new_mode col m k n Mode =
     (if 2 \<le> Mode \<and> Mode < int n
      then if column_entry col m (nat Mode * k) = - 1 then - 1 else int (length (kept_rows col m k (nat Mode)))
      else if int n \<le> Mode then Mode - int (n - length (kept_rows col m k n)) else Mode)"

text \<open>The column is not disturbed by moving rows up: it is a separate array, or a column of the
  map itself.\<close>

definition column_ok :: "map_column \<Rightarrow> nat \<Rightarrow> nat \<Rightarrow> bool" where
  "column_ok col Step NewStep = (case col of InMap off \<Rightarrow> off < Step \<and> NewStep = Step | OwnArray a \<Rightarrow> True)"

definition rows_state ::
  "map_column \<Rightarrow> nat \<Rightarrow> nat \<Rightarrow> int list \<Rightarrow> int \<Rightarrow> int \<Rightarrow> nat \<Rightarrow> int list \<times> int \<times> int \<Rightarrow> bool" where
  "rows_state col Step k m mx Mode i = (\<lambda>(m', mx', Mode').
     length m' = length m \<and> mx' = mx - int (i - length (kept_rows col m k i)) \<and>
     Mode' = new_mode col m k i Mode \<and>
     (\<forall>j c. j < length (kept_rows col m k i) \<longrightarrow> c < Step \<longrightarrow> cell Step m' j c = cell Step m (kept_rows col m k i ! j) c) \<and>
     (\<forall>a. i * Step \<le> a \<longrightarrow> m' ! a = m ! a))"

lemma intersect_rows_state:
  assumes Step: "0 < Step" "column_ok col Step k"
  shows "2 \<le> i \<Longrightarrow> (i + n) * Step \<le> length m \<Longrightarrow> rows_state col Step k m mx Mode i st \<Longrightarrow>
    rows_state col Step k m mx Mode (i + n)
      (intersect_rows col Step k Mode n i (length (kept_rows col m k i) * Step) st)"
proof (induction n arbitrary: i st)
  case (Suc n)
  obtain m1 mx1 Mode1 where st: "st = (m1, mx1, Mode1)" by (metis prod_cases3)
  let ?K = "kept_rows col m k i"
  have K: "length ?K \<le> i" using Suc.prems(1) by (rule length_kept_rows)
  have fit: "i * Step + Step \<le> length m" using Suc.prems(2) by (simp add: algebra_simps)
  have len: "length m1 = length m" using Suc.prems(3) st by (simp add: rows_state_def)
  have entry: "column_entry col m1 (i * k) = column_entry col m (i * k)"
    using Suc.prems(3) Step(2) st
    by (auto simp: rows_state_def column_ok_def column_entry_def split: map_column.splits)
  show ?case
  proof (cases "column_entry col m (i * k) = - 1")
    case True
    then have Ks: "kept_rows col m k (Suc i) = ?K" using Suc.prems(1) by (simp add: kept_rows_Suc)
    let ?st = "(m1, mx1 - 1, if int i = Mode then - 1 else if int i < Mode then Mode1 - 1 else Mode1)"
    have "rows_state col Step k m mx Mode (Suc i) ?st"
      using Suc.prems(1,3) st K True Ks by (auto simp: rows_state_def new_mode_def)
    from Suc.IH[OF _ _ this] show ?thesis using Suc.prems st entry True Ks by simp
  next
    case False
    then have Ks: "kept_rows col m k (Suc i) = ?K @ [i]" using Suc.prems(1) by (simp add: kept_rows_Suc)
    let ?N = "length ?K * Step"
    define m2 where "m2 = (if i * Step \<noteq> ?N then array_put ?N (array_slice (i * Step) Step m1) m1 else m1)"
    have N: "?N \<le> i * Step" using K by simp
    have at: "m2 ! a = (if ?N \<le> a \<and> a < ?N + Step then m1 ! (i * Step + (a - ?N)) else m1 ! a)" for a
    proof -
      have "?N + Step \<le> length m1" "i * Step + Step \<le> length m1" using N fit len by linarith+
      then show ?thesis using nth_move_slice[of ?N Step m1 "i * Step" a] by (auto simp: m2_def)
    qed
    have "?N + Step \<le> length m1" "i * Step + Step \<le> length m1" using N fit len by linarith+
    then have len2: "length m2 = length m" using len by (auto simp: m2_def)
    have "rows_state col Step k m mx Mode (Suc i) (m2, mx1, Mode1)"
      unfolding rows_state_def prod.case
    proof (intro conjI allI impI)
      show "length m2 = length m" by (rule len2)
      show "mx1 = mx - int (Suc i - length (kept_rows col m k (Suc i)))"
        using Suc.prems(3) st K Ks by (simp add: rows_state_def)
      show "Mode1 = new_mode col m k (Suc i) Mode"
        using Suc.prems(1,3) st K False Ks
        by (cases "Mode = int i") (auto simp: rows_state_def new_mode_def)
      show "m2 ! a = m ! a" if "Suc i * Step \<le> a" for a
        using that at[of a] N Suc.prems(3) st by (simp add: rows_state_def)
      fix j c assume j: "j < length (kept_rows col m k (Suc i))" and c: "c < Step"
      show "cell Step m2 j c = cell Step m (kept_rows col m k (Suc i) ! j) c"
      proof (cases "j = length ?K")
        case True
        then have "cell Step m2 j c = m1 ! (i * Step + c)" using at[of "?N + c"] c by (simp add: cell_def)
        also have "\<dots> = m ! (i * Step + c)" using Suc.prems(3) st by (simp add: rows_state_def)
        finally show ?thesis using True Ks by (simp add: cell_def)
      next
        case False
        then have jK: "j < length ?K" using j Ks by simp
        then have "Suc j * Step \<le> ?N" by (intro mult_le_mono1) simp
        then have "j * Step + c < ?N" using c by simp
        then have "cell Step m2 j c = cell Step m1 j c" using at[of "j * Step + c"] by (simp add: cell_def)
        then show ?thesis using Suc.prems(3) st jK c Ks by (simp add: rows_state_def nth_append)
      qed
    qed
    from Suc.IH[OF _ _ this] have "rows_state col Step k m mx Mode (Suc i + n)
        (intersect_rows col Step k Mode n (Suc i) (?N + Step) (m2, mx1, Mode1))"
      using Suc.prems(1,2) Ks by (simp add: add.commute)
    moreover have "intersect_rows col Step k Mode (Suc n) i ?N st
        = intersect_rows col Step k Mode n (Suc i) (?N + Step) (m2, mx1, Mode1)"
      using st entry False by (simp add: m2_def)
    ultimately show ?thesis by simp
  qed
qed simp


lemma kept_rows_split:
  assumes "2 \<le> i" "i < n" "column_entry col m (i * k) \<noteq> - 1"
  shows "kept_rows col m k n = kept_rows col m k i @ i # filter (\<lambda>j. column_entry col m (j * k) \<noteq> - 1) [Suc i..<n]"
proof -
  have "[2..<n] = [2..<i] @ [i] @ [Suc i..<n]"
    using upt_add_eq_append[of 2 i "n - i"] upt_conv_Cons[of i n] assms(1,2) by simp
  then show ?thesis using assms(3) by (simp add: kept_rows_def)
qed

lemma in_kept_rows:
  "j \<in> set (kept_rows col m k n) \<longleftrightarrow> j < 2 \<or> j < n \<and> column_entry col m (j * k) \<noteq> - 1"
  by (auto simp: kept_rows_def)

lemma new_mode_position:
  assumes n: "2 \<le> n" and Mode: "0 \<le> Mode" "Mode < int n"
  shows "if nat Mode \<in> set (kept_rows col m k n)
    then 0 \<le> new_mode col m k n Mode \<and> nat (new_mode col m k n Mode) < length (kept_rows col m k n)
      \<and> kept_rows col m k n ! nat (new_mode col m k n Mode) = nat Mode
    else new_mode col m k n Mode = - 1"
proof (cases "Mode < 2")
  case True
  then have "Mode = 0 \<or> Mode = 1" using Mode by linarith
  then show ?thesis by (auto simp: new_mode_def kept_rows_def)
next
  case False
  show ?thesis
  proof (cases "column_entry col m (nat Mode * k) = - 1")
    case True
    moreover have "\<not> nat Mode < 2" using False by linarith
    ultimately show ?thesis using False Mode by (simp add: in_kept_rows new_mode_def)
  next
    case kept: False
    have "2 \<le> nat Mode" "nat Mode < n" using False Mode by linarith+
    from kept_rows_split[OF this kept] show ?thesis
      using False Mode kept by (simp add: in_kept_rows new_mode_def nth_append)
  qed
qed

lemma intersection_rows:
  assumes Step: "0 < Step" "column_ok col Step k" and mx: "2 \<le> mx" and fit: "nat mx * Step \<le> length m"
  defines "K \<equiv> kept_rows col m k (nat mx)"
  shows "\<exists>m'. ConSplitterGetIntersection m col Step k mx Mode = (m', int (length K), new_mode col m k (nat mx) Mode) \<and>
    length m' = length m \<and> (\<forall>j c. j < length K \<longrightarrow> c < Step \<longrightarrow> cell Step m' j c = cell Step m (K ! j) c)"
proof -
  define n where "n = nat mx"
  have n: "2 \<le> n" "mx = int n" "2 + (n - 2) = n" using mx by (auto simp: n_def)
  have K2: "kept_rows col m k 2 = [0, 1]" by (simp add: kept_rows_def)
  have "rows_state col Step k m mx Mode 2 (m, mx, Mode)"
  proof -
    have "cell Step m j c = cell Step m ([0, 1] ! j) c" if "j < length [0, 1 :: nat]" for j c
    proof -
      have "j = 0 \<or> j = 1" using that by auto
      then show ?thesis by auto
    qed
    then show ?thesis unfolding rows_state_def K2 by (simp add: new_mode_def K2)
  qed
  moreover have "(2 + (n - 2)) * Step \<le> length m" using fit unfolding n_def[symmetric] by (simp only: n(3))
  moreover have "length (kept_rows col m k 2) = 2" by (simp add: kept_rows_def)
  moreover have "nat (mx - 2) = n - 2" by (simp add: n_def nat_diff_distrib')
  ultimately have st: "rows_state col Step k m mx Mode n (ConSplitterGetIntersection m col Step k mx Mode)"
    using intersect_rows_state[OF Step order.refl, of "n - 2" m mx Mode "(m, mx, Mode)"] n(3)
    by (simp only: ConSplitterGetIntersection_def)
  obtain m' mx' Mode' where r: "ConSplitterGetIntersection m col Step k mx Mode = (m', mx', Mode')"
    by (metis prod_cases3)
  have K: "K = kept_rows col m k n" "length K \<le> n" using length_kept_rows[OF n(1)] by (simp_all add: K_def n_def)
  have "mx' = int (length K)" using st K n(2) unfolding r rows_state_def by simp
  moreover have "length m' = length m" "\<forall>j c. j < length K \<longrightarrow> c < Step \<longrightarrow> cell Step m' j c = cell Step m (K ! j) c"
    using st unfolding r rows_state_def K(1) by simp_all
  moreover have "Mode' = new_mode col m k (nat mx) Mode" using st unfolding r rows_state_def n_def by simp
  ultimately show ?thesis using r by blast
qed

lemma mode_intersection_core:
  assumes Step: "0 < Step" "column_ok col Step k" and mx: "2 \<le> mx" and fit: "nat mx * Step \<le> length m"
    and Mode: "0 \<le> Mode" "Mode < mx"
  defines "K \<equiv> kept_rows col m k (nat mx)"
  shows "\<exists>m' Mode'. ConSplitterGetIntersection m col Step k mx Mode = (m', int (length K), Mode') \<and>
    length m' = length m \<and>
    (\<forall>j c. j < length K \<longrightarrow> c < Step \<longrightarrow> cell Step m' j c = cell Step m (K ! j) c) \<and>
    (if nat Mode \<in> set K then 0 \<le> Mode' \<and> nat Mode' < length K \<and> K ! nat Mode' = nat Mode else Mode' = - 1)"
proof -
  have "2 \<le> nat mx" "Mode < int (nat mx)" using mx Mode(2) by auto
  from intersection_rows [OF Step mx fit, of Mode] new_mode_position [OF this(1) Mode(1) this(2), of col m k]
  show ?thesis unfolding K_def by blast
qed


text \<open>The intersection keeps exactly the rows whose entry in the new column is set (and
  always the first two), in their order and with all their columns, counts them, and renumbers
  the current mode to the place its row moved to, or to -1 when its row is dropped.\<close>

theorem mode_intersection_exact:
  assumes Step: "0 < Step" "column_ok col Step k" and mx: "2 \<le> mx" and fit: "nat mx * Step \<le> length m"
    and Mode: "0 \<le> Mode" "Mode < mx"
  defines "K \<equiv> kept_rows col m k (nat mx)"
  shows "\<exists>m' Mode'. ConSplitterGetIntersection m col Step k mx Mode = (m', int (length K), Mode') \<and>
    length m' = length m \<and>
    (\<forall>j c. j < length K \<longrightarrow> c < Step \<longrightarrow> cell Step m' j c = cell Step m (K ! j) c) \<and>
    (if nat Mode \<in> set K then 0 \<le> Mode' \<and> nat Mode' < length K \<and> K ! nat Mode' = nat Mode else Mode' = - 1)"
  unfolding K_def by (rule mode_intersection_core[OF assms(1-6)])

definition ex_map :: "int list" where
  "ex_map = [0, 0, 1, 1, 2, - 1, 3, 2]"

theorem mode_intersection_exact_witness:
  "\<exists>m' Mode'. ConSplitterGetIntersection ex_map (InMap 1) 2 2 4 3
      = (m', int (length (kept_rows (InMap 1) ex_map 2 (nat 4))), Mode') \<and>
    length m' = length ex_map \<and>
    (\<forall>j c. j < length (kept_rows (InMap 1) ex_map 2 (nat 4)) \<longrightarrow> c < 2 \<longrightarrow>
      cell 2 m' j c = cell 2 ex_map (kept_rows (InMap 1) ex_map 2 (nat 4) ! j) c) \<and>
    (if nat 3 \<in> set (kept_rows (InMap 1) ex_map 2 (nat 4))
     then 0 \<le> Mode' \<and> nat Mode' < length (kept_rows (InMap 1) ex_map 2 (nat 4))
       \<and> kept_rows (InMap 1) ex_map 2 (nat 4) ! nat Mode' = nat 3
     else Mode' = - 1)"
  by (rule mode_intersection_exact) (simp_all add: ex_map_def column_ok_def)

section \<open>Forwarding\<close>

lemma priv_set_priv [simp]: "priv k (set_priv k P s) = P"
  by (cases k) (simp_all add: priv_def set_priv_def)

lemma priv_to_calls [simp]: "priv k (s\<lparr>to_calls := l\<rparr>) = priv k s"
  by (cases k) (simp_all add: priv_def)

lemma set_priv_calls [simp]:
  "to_calls (set_priv k P s) = to_calls s" "to_allocs (set_priv k P s) = to_allocs s"
  "pcdConOutColumn (set_priv k P s) = pcdConOutColumn s" "pcdConOutRow (set_priv k P s) = pcdConOutRow s"
  by (cases k; simp add: set_priv_def)+

lemma set_mode_data_simps [simp]:
  "priv k (set_mode_data k f s) = (priv k s)\<lparr>TextOutMode := f (TextOutMode (priv k s))\<rparr>"
  "to_calls (set_mode_data k f s) = to_calls s"
  by (simp_all add: set_mode_data_def)

lemma console_calls [simp]:
  "console k i (s\<lparr>to_calls := l\<rparr>) = console k i s" "console k i (set_mode_data k f s) = console k i s"
  by (simp_all add: console_def)

text \<open>The result of a list of calls: the last error, if any.\<close>

fun last_error :: "to_env \<Rightarrow> to_log \<Rightarrow> (nat \<times> to_call) list \<Rightarrow> efi_status \<Rightarrow> efi_status" where
  "last_error env log [] st = st"
| "last_error env log ((d, c) # xs) st =
     last_error env (log @ [(d, c)]) xs (let r = to_status env log d c in if EFI_ERROR r then r else st)"

lemma last_error_append:
  "last_error env log (xs @ ys) st = last_error env (log @ xs) ys (last_error env log xs st)"
  by (induction env log xs st rule: last_error.induct) simp_all

definition to_all :: "splitter \<Rightarrow> splitter_state \<Rightarrow> (nat \<Rightarrow> to_call) \<Rightarrow> nat \<Rightarrow> (nat \<times> to_call) list" where
  "to_all k s g n = map (\<lambda>i. (console k i s, g i)) [0..<n]"

lemma for_consoles_all:
  "for_consoles env k (\<lambda>i _. Some (g i)) s =
    (last_error env (to_calls s) (to_all k s g (CurrentNumberOfConsoles (priv k s))) EFI_SUCCESS,
     s\<lparr>to_calls := to_calls s @ to_all k s g (CurrentNumberOfConsoles (priv k s))\<rparr>)"
proof -
  have "fold (\<lambda>Index (ReturnStatus, s). case Some (g Index) of
              None \<Rightarrow> (ReturnStatus, s)
            | Some c \<Rightarrow> (let (Status, s') = call_console env (console k Index s) c s
                         in (if EFI_ERROR Status then Status else ReturnStatus, s'))) [0..<n] (EFI_SUCCESS, s)
    = (last_error env (to_calls s) (to_all k s g n) EFI_SUCCESS, s\<lparr>to_calls := to_calls s @ to_all k s g n\<rparr>)" for n
  proof (induction n)
    case (Suc n)
    then show ?case by (simp add: call_console_def Let_def last_error_append to_all_def)
  qed (simp add: to_all_def)
  then show ?thesis by (simp add: for_consoles_def)
qed

text \<open>C37: A string goes to every attached console exactly once, in the order of attachment, after
  the current attribute has gone to each; the result is the last error any console reported
  for the string, and the virtual cursor is the first console's.\<close>

theorem splitter_output_broadcast:
  assumes n: "0 < CurrentNumberOfConsoles (priv k s)" "n = CurrentNumberOfConsoles (priv k s)"
  defines "attr \<equiv> uintn (Attribute (TextOutMode (priv k s)))"
  defines "pre \<equiv> (if attr OR 0x7f = 0x7f then to_all k s (\<lambda>_. CSetAttribute attr) n else [])"
  shows "case ConSplitterTextOutOutputString env k WString s of (st, s') \<Rightarrow>
    to_calls s' = to_calls s @ pre @ to_all k s (\<lambda>_. COutputString WString) n \<and>
    st = last_error env (to_calls s @ pre) (to_all k s (\<lambda>_. COutputString WString) n) EFI_SUCCESS \<and>
    CursorColumn (TextOutMode (priv k s')) = CursorColumn (to_mode env (to_calls s') (console k 0 s)) \<and>
    CursorRow (TextOutMode (priv k s')) = CursorRow (to_mode env (to_calls s') (console k 0 s)) \<and>
    CurMode (TextOutMode (priv k s')) = CurMode (TextOutMode (priv k s))"
proof -
  obtain st0 s0 where s0: "ConSplitterTextOutSetAttribute env k attr s = (st0, s0)" by force
  have pre: "to_calls s0 = to_calls s @ pre" "\<And>i. console k i s0 = console k i s"
    "CurrentNumberOfConsoles (priv k s0) = n" "CurMode (TextOutMode (priv k s0)) = CurMode (TextOutMode (priv k s))"
    using s0 n(2)
    by (auto simp: ConSplitterTextOutSetAttribute_def for_consoles_all pre_def split: if_splits)
  then have "to_all k s0 (\<lambda>_. COutputString WString) n = to_all k s (\<lambda>_. COutputString WString) n" by (simp add: to_all_def)
  then show ?thesis
    using s0 pre n by (simp add: ConSplitterTextOutOutputString_def for_consoles_all Let_def flip: attr_def)
qed


definition ex_text_mode :: EFI_SIMPLE_TEXT_OUTPUT_MODE where
  "ex_text_mode = \<lparr>MaxMode = 2, CurMode = 0, Attribute = 7, CursorColumn = 3, CursorRow = 4, CursorVisible = True\<rparr>"

definition ex_console :: "nat \<Rightarrow> TEXT_OUT_AND_GOP_DATA" where
  "ex_console d = \<lparr>GopDevice = None, UgaDevice = None, TextOutDevice = d\<rparr>"

definition ex_info :: "nat \<Rightarrow> nat \<Rightarrow> EFI_GRAPHICS_OUTPUT_MODE_INFORMATION" where
  "ex_info h v = \<lparr>InfoVersion = 0, HorizontalResolution = h, VerticalResolution = v, InfoPixelFormat = PixelBltOnly,
     PixelInformation = \<lparr>RedMask = 0, GreenMask = 0, BlueMask = 0, ReservedMask = 0\<rparr>, InfoPixelsPerScanLine = h\<rparr>"

definition ex_priv :: "nat list \<Rightarrow> TEXT_OUT_SPLITTER_PRIVATE_DATA" where
  "ex_priv ds = \<lparr>TextOutMode = ex_text_mode, UgaHorizontalResolution = 800, UgaVerticalResolution = 600, UgaColorDepth = 32, UgaRefreshRate = 60,
     GraphicsOutputMode = None, GraphicsOutputModeBuffer = [], CurrentNumberOfGraphicsOutput = 0, CurrentNumberOfUgaDraw = 0,
     CurrentNumberOfConsoles = length ds, TextOutList = map ex_console (ds @ replicate (4 - length ds) 99), TextOutListCount = 4,
     TextOutQueryData = [\<lparr>QColumns = 80, QRows = 25\<rparr>, \<lparr>QColumns = 80, QRows = 50\<rparr>], TextOutQueryDataCount = 2,
     TextOutModeMap = Some [0, 0, -1, -1, 1, 1, -1, -1], AddingConOutDevice = False\<rparr>"

definition ex_env :: to_env where
  "ex_env = \<lparr>to_status = (\<lambda>_ d _. if d = 8 then EFI_DEVICE_ERROR else EFI_SUCCESS), to_mode = (\<lambda>_ _. ex_text_mode),
     to_query = (\<lambda>_ _ m. (EFI_SUCCESS, \<lparr>QColumns = 80, QRows = 25 * nat (m + 1)\<rparr>)), alloc_ok = (\<lambda>_. True),
     junk_query = \<lparr>QColumns = 0, QRows = 0\<rparr>, junk_console = ex_console 99,
     PcdConOutGopSupport = True, PcdConOutUgaSupport = False, PcdUgaConsumeSupport = True,
     gop_mode = (\<lambda>_ _. \<lparr>DisplayMaxMode = 0, DisplayMode = 0, ModeInfo = None, SizeOfInfo = 0, FrameBufferBase = 0, FrameBufferSize = 0\<rparr>),
     gop_info = (\<lambda>_ _. ex_info 0 0), gop_query = (\<lambda>_ _ _. (EFI_UNSUPPORTED, ex_info 0 0)),
     uga_get_mode = (\<lambda>_ _. (EFI_UNSUPPORTED, 0, 0, 0, 0)), junk_info = ex_info 0 0\<rparr>"

definition ex_splitter :: splitter_state where
  "ex_splitter = \<lparr>mConOut = ex_priv [7, 8], mStdErr = ex_priv [8], to_calls = [], to_allocs = 0,
     pcdConOutColumn = 0, pcdConOutRow = 0\<rparr>"

lemmas ex_out_simps = ex_splitter_def ex_priv_def ex_text_mode_def ex_console_def priv_def

theorem splitter_output_broadcast_witness:
  "case ConSplitterTextOutOutputString ex_env ConOut [72, 105] ex_splitter of (st, s') \<Rightarrow>
    to_calls s' = to_calls ex_splitter
      @ (if uintn (Attribute (TextOutMode (priv ConOut ex_splitter))) OR 0x7f = 0x7f
         then to_all ConOut ex_splitter (\<lambda>_. CSetAttribute (uintn (Attribute (TextOutMode (priv ConOut ex_splitter))))) 2 else [])
      @ to_all ConOut ex_splitter (\<lambda>_. COutputString [72, 105]) 2 \<and>
    st = last_error ex_env (to_calls ex_splitter
      @ (if uintn (Attribute (TextOutMode (priv ConOut ex_splitter))) OR 0x7f = 0x7f
         then to_all ConOut ex_splitter (\<lambda>_. CSetAttribute (uintn (Attribute (TextOutMode (priv ConOut ex_splitter))))) 2 else []))
      (to_all ConOut ex_splitter (\<lambda>_. COutputString [72, 105]) 2) EFI_SUCCESS \<and>
    CursorColumn (TextOutMode (priv ConOut s')) = CursorColumn (to_mode ex_env (to_calls s') (console ConOut 0 ex_splitter)) \<and>
    CursorRow (TextOutMode (priv ConOut s')) = CursorRow (to_mode ex_env (to_calls s') (console ConOut 0 ex_splitter)) \<and>
    CurMode (TextOutMode (priv ConOut s')) = CurMode (TextOutMode (priv ConOut ex_splitter))"
  by (rule splitter_output_broadcast) (simp_all add: ex_out_simps)

section \<open>The cursor without consoles\<close>

definition on_screen :: "TEXT_OUT_SPLITTER_QUERY_DATA \<Rightarrow> EFI_SIMPLE_TEXT_OUTPUT_MODE \<Rightarrow> bool" where
  "on_screen q t \<longleftrightarrow> 0 \<le> CursorColumn t \<and> CursorColumn t < int (QColumns q) \<and> 0 \<le> CursorRow t \<and> CursorRow t < int (QRows q)"

lemma move_cursor_on_screen:
  assumes "QColumns q < 2 ^ 31" "QRows q < 2 ^ 31" "on_screen q t"
  shows "on_screen q (move_cursor (QColumns q) (QRows q) c t)"
proof -
  have pos: "0 < QColumns q" "0 < QRows q" using assms(3) by (auto simp: on_screen_def)
  show ?thesis using assms(3)
    unfolding move_cursor_def Let_def wrap_pred[OF pos(1) assms(1)] wrap_pred[OF pos(2) assms(2)]
    by (auto simp: on_screen_def)
qed

lemma fold_move_cursor:
  assumes "QColumns q < 2 ^ 31" "QRows q < 2 ^ 31" "on_screen q t"
  shows "on_screen q (fold (move_cursor (QColumns q) (QRows q)) cs t)"
  using assms by (induction cs arbitrary: t) (simp_all add: move_cursor_on_screen)

lemma move_cursor_mode [simp]:
  "CurMode (move_cursor a b c t) = CurMode t" "MaxMode (move_cursor a b c t) = MaxMode t"
  by (simp_all add: move_cursor_def Let_def)

lemma fold_move_cursor_mode [simp]:
  "CurMode (fold (move_cursor a b) cs t) = CurMode t" "MaxMode (fold (move_cursor a b) cs t) = MaxMode t"
  by (induction cs arbitrary: t) simp_all

text \<open>What a mode query depends on.\<close>

lemma query_mode_cong:
  "MaxMode (TextOutMode (priv k s')) = MaxMode (TextOutMode (priv k s)) \<Longrightarrow>
   TextOutModeMap (priv k s') = TextOutModeMap (priv k s) \<Longrightarrow> TextOutQueryData (priv k s') = TextOutQueryData (priv k s) \<Longrightarrow>
   TextOutListCount (priv k s') = TextOutListCount (priv k s) \<Longrightarrow>
   ConSplitterTextOutQueryMode k n s' = ConSplitterTextOutQueryMode k n s"
  by (simp add: ConSplitterTextOutQueryMode_def Let_def cong: option.case_cong)

text \<open>With no console attached, a string moves the virtual cursor like a console would and
  never off the screen of the current mode; nothing is called.\<close>

theorem splitter_cursor_stays:
  assumes none: "CurrentNumberOfConsoles (priv k s) = 0"
    and q: "snd (ConSplitterTextOutQueryMode k (uintn (CurMode (TextOutMode (priv k s)))) s) = Some q"
    and size: "QColumns q < 2 ^ 31" "QRows q < 2 ^ 31" and cur: "on_screen q (TextOutMode (priv k s))"
  shows "case ConSplitterTextOutOutputString env k WString s of (st, s') \<Rightarrow>
    st = EFI_SUCCESS \<and> to_calls s' = to_calls s \<and> on_screen q (TextOutMode (priv k s')) \<and>
    snd (ConSplitterTextOutQueryMode k (uintn (CurMode (TextOutMode (priv k s')))) s') = Some q"
proof -
  obtain st0 s0 where s0: "ConSplitterTextOutSetAttribute env k (uintn (Attribute (TextOutMode (priv k s)))) s = (st0, s0)"
    by force
  have same: "to_calls s0 = to_calls s" "CurrentNumberOfConsoles (priv k s0) = 0"
    "CurMode (TextOutMode (priv k s0)) = CurMode (TextOutMode (priv k s))"
    "MaxMode (TextOutMode (priv k s0)) = MaxMode (TextOutMode (priv k s))"
    "CursorColumn (TextOutMode (priv k s0)) = CursorColumn (TextOutMode (priv k s))"
    "CursorRow (TextOutMode (priv k s0)) = CursorRow (TextOutMode (priv k s))"
    "TextOutModeMap (priv k s0) = TextOutModeMap (priv k s)" "TextOutQueryData (priv k s0) = TextOutQueryData (priv k s)"
    "TextOutListCount (priv k s0) = TextOutListCount (priv k s)"
    using s0 none by (auto simp: ConSplitterTextOutSetAttribute_def for_consoles_all to_all_def split: if_splits)
  have q0: "ConSplitterTextOutQueryMode k n s0 = ConSplitterTextOutQueryMode k n s" for n
    using same by (intro query_mode_cong) simp_all
  have keep: "s0\<lparr>to_calls := to_calls s\<rparr> = s0" by (simp flip: same(1))
  let ?f = "fold (move_cursor (QColumns q) (QRows q)) WString"
  have res: "ConSplitterTextOutOutputString env k WString s = (EFI_SUCCESS, set_mode_data k ?f s0)"
    using s0 same q q0 by (simp add: ConSplitterTextOutOutputString_def for_consoles_all to_all_def Let_def keep)
  have "on_screen q (TextOutMode (priv k s0))" using cur same by (simp add: on_screen_def)
  then have "on_screen q (?f (TextOutMode (priv k s0)))" by (rule fold_move_cursor[OF size])
  moreover have "ConSplitterTextOutQueryMode k n (set_mode_data k ?f s0) = ConSplitterTextOutQueryMode k n s" for n
    using same by (intro query_mode_cong) simp_all
  ultimately show ?thesis using res same q by simp
qed


theorem splitter_cursor_stays_witness:
  "case ConSplitterTextOutOutputString ex_env ConOut [72, 10, 8] (ex_splitter\<lparr>mConOut := ex_priv []\<rparr>) of (st, s') \<Rightarrow>
    st = EFI_SUCCESS \<and> to_calls s' = to_calls (ex_splitter\<lparr>mConOut := ex_priv []\<rparr>) \<and>
    on_screen \<lparr>QColumns = 80, QRows = 25\<rparr> (TextOutMode (priv ConOut s')) \<and>
    snd (ConSplitterTextOutQueryMode ConOut (uintn (CurMode (TextOutMode (priv ConOut s')))) s') = Some \<lparr>QColumns = 80, QRows = 25\<rparr>"
  by (rule splitter_cursor_stays)
    (simp_all add: ex_out_simps ConSplitterTextOutQueryMode_def uintn_def int32_small on_screen_def)

section \<open>Consoles shared by the two splitters\<close>

text \<open>The search for a shared console does not rewind the list of the error splitter: with one
  error console that is the second output console, it compares that console with the unused
  list entry behind it, finds nothing shared, and the two mode tables are not reconciled.\<close>

theorem shared_console_missed:
  assumes C: "CurrentNumberOfConsoles (mConOut s) = 2" "TextOutDevice (TextOutList (mConOut s) ! 0) = a"
      "TextOutDevice (TextOutList (mConOut s) ! 1) = b"
    and E: "CurrentNumberOfConsoles (mStdErr s) = 1" "TextOutDevice (TextOutList (mStdErr s) ! 0) = b"
      "TextOutDevice (TextOutList (mStdErr s) ! 1) \<noteq> b"
    and "a \<noteq> b"
  shows "ConSplitterGetIntersectionBetweenConOutAndStrErr env s = (EFI_SUCCESS, s)"
proof -
  have "[0..<2] = [0, 1 :: nat]" by (simp add: upt_rec)
  then have "\<not> find_common s" using assms by (simp add: find_common_def Let_def)
  then show ?thesis by (simp add: ConSplitterGetIntersectionBetweenConOutAndStrErr_def)
qed

theorem shared_console_missed_witness:
  "ConSplitterGetIntersectionBetweenConOutAndStrErr ex_env ex_splitter = (EFI_SUCCESS, ex_splitter)"
  by (rule shared_console_missed[where a = 7 and b = 8]) (simp_all add: ex_out_simps)

section \<open>The fallback mode\<close>

text \<open>When no mode of the table has the configured size, the fallback looks for 90 columns by
  80 rows; without such a mode both mode settings fail, no console is called, the mode stays
  what it was, and the configured size becomes 90 by 80 all the same.\<close>

theorem console_mode_fallback:
  assumes pcd: "pcdConOutColumn s \<noteq> 0" "pcdConOutRow s \<noteq> 0"
    and mx: "0 \<le> MaxMode (TextOutMode (priv k s))" "MaxMode (TextOutMode (priv k s)) \<le> 255"
    and no: "\<And>n q. int n < MaxMode (TextOutMode (priv k s)) \<Longrightarrow> ConSplitterTextOutQueryMode k n s = (EFI_SUCCESS, Some q) \<Longrightarrow>
      \<not> (QColumns q = pcdConOutColumn s \<and> QRows q = pcdConOutRow s) \<and> \<not> (QColumns q = 90 \<and> QRows q = 80)"
  shows "ConsplitterSetConsoleOutMode env k s = s\<lparr>pcdConOutColumn := 90, pcdConOutRow := 80\<rparr>"
proof -
  have keep: "prefer_mode k s n (0xff, 0xff, 0, 0) = (0xff, 0xff, 0, 0)" if "int n < MaxMode (TextOutMode (priv k s))" for n
    using no[OF that] pcd
    by (auto simp: prefer_mode_def Let_def split: prod.splits option.splits efi_status.splits if_splits)
  have "fold (prefer_mode k s) [0..<j] (0xff, 0xff, 0, 0) = (0xff, 0xff, 0, 0)"
    if "int j \<le> MaxMode (TextOutMode (priv k s))" for j
    using that
  proof (induction j)
    case (Suc j)
    then show ?case using keep[of j] by simp
  qed simp
  moreover have "uintn (MaxMode (TextOutMode (priv k s))) = nat (MaxMode (TextOutMode (priv k s)))"
    using mx by (simp add: uintn_def)
  ultimately have "fold (prefer_mode k s) [0..<uintn (MaxMode (TextOutMode (priv k s)))] (0xff, 0xff, 0, 0) = (0xff, 0xff, 0, 0)"
    using mx by simp
  moreover have "ConSplitterTextOutSetMode env k 0xff s = (EFI_UNSUPPORTED, s)"
    using mx int32_small[of 255] by (simp add: ConSplitterTextOutSetMode_def Let_def)
  ultimately show ?thesis by (simp add: ConsplitterSetConsoleOutMode_def EFI_ERROR_def)
qed

theorem console_mode_fallback_witness:
  "ConsplitterSetConsoleOutMode ex_env ConOut (ex_splitter\<lparr>pcdConOutColumn := 100, pcdConOutRow := 31\<rparr>)
     = (ex_splitter\<lparr>pcdConOutColumn := 100, pcdConOutRow := 31\<rparr>)\<lparr>pcdConOutColumn := 90, pcdConOutRow := 80\<rparr>"
proof (rule console_mode_fallback, goal_cases)
  case (5 n q)
  then have "n = 0 \<or> n = 1" by (auto simp: ex_out_simps)
  then show ?case using 5 by (auto simp: ex_out_simps ConSplitterTextOutQueryMode_def uintn_def int32_small Let_def)
qed (simp_all add: ex_out_simps)


section \<open>Adding a console to the mode table\<close>

text \<open>\<open>supports\<close>: the console has a mode of its own with the size of row \<open>i\<close>.\<close>

definition mode_matches :: "to_env \<Rightarrow> to_log \<Rightarrow> nat \<Rightarrow> TEXT_OUT_SPLITTER_QUERY_DATA \<Rightarrow> nat \<Rightarrow> bool" where
  "mode_matches env log dev d Mode =
     (case to_query env log dev (int Mode) of (st, q) \<Rightarrow> \<not> EFI_ERROR st \<and> same_size d q)"

definition supports :: "to_env \<Rightarrow> to_log \<Rightarrow> nat \<Rightarrow> TEXT_OUT_SPLITTER_QUERY_DATA \<Rightarrow> bool" where
  "supports env log dev d = list_ex (mode_matches env log dev d) [0..<nat (MaxMode (to_mode env log dev))]"

text \<open>A mode table before a console is added: rows of different sizes, no row but the second one
  based on mode 1, and the new column not set yet.\<close>

definition table_ok :: "TEXT_OUT_SPLITTER_PRIVATE_DATA \<Rightarrow> int list \<Rightarrow> bool" where
  "table_ok P m \<longleftrightarrow> TextOutModeMap P = Some m \<and> 2 \<le> MaxMode (TextOutMode P) \<and>
     0 < CurrentNumberOfConsoles P \<and> CurrentNumberOfConsoles P < TextOutListCount P \<and>
     nat (MaxMode (TextOutMode P)) * TextOutListCount P \<le> length m \<and>
     (\<forall>i. 2 \<le> i \<and> i < nat (MaxMode (TextOutMode P)) \<longrightarrow>
        cell (TextOutListCount P) m i 0 \<noteq> 1 \<and> 0 \<le> cell (TextOutListCount P) m i 0 \<and>
        cell (TextOutListCount P) m i (CurrentNumberOfConsoles P) = - 1 \<and> QColumns (row_size P i) \<noteq> 0 \<and>
        (\<forall>j < nat (MaxMode (TextOutMode P)). same_size (row_size P i) (row_size P j) \<longrightarrow> i = j))"

lemma find_unique:
  assumes "i < n" "\<And>r. r < n \<Longrightarrow> Q r \<Longrightarrow> r = i"
  shows "List.find Q [0..<n] = (if Q i then Some i else None)"
proof (cases "Q i")
  case True
  have "List.find Q [0..<n] \<noteq> None" using True assms(1) by (auto simp: find_None_iff)
  then obtain r where "List.find Q [0..<n] = Some r" by blast
  moreover from this have "r < n" "Q r" by (auto simp: find_Some_iff)
  ultimately show ?thesis using assms(2) True by auto
next
  case False
  then show ?thesis using assms(2) by (auto simp: find_None_iff)
qed

definition sync_state ::
  "to_env \<Rightarrow> to_log \<Rightarrow> nat \<Rightarrow> TEXT_OUT_SPLITTER_PRIVATE_DATA \<Rightarrow> int list \<Rightarrow> nat \<Rightarrow> TEXT_OUT_SPLITTER_PRIVATE_DATA \<Rightarrow> bool" where
  "sync_state env log dev P m j P' \<longleftrightarrow>
     (let Step = TextOutListCount P; off = CurrentNumberOfConsoles P; n = nat (MaxMode (TextOutMode P)) in
      TextOutMode P' = TextOutMode P \<and> TextOutListCount P' = Step \<and> CurrentNumberOfConsoles P' = off \<and>
      (\<forall>e. e \<noteq> 1 \<longrightarrow> TextOutQueryData P' ! e = TextOutQueryData P ! e) \<and>
      (TextOutQueryData P' ! 1 = TextOutQueryData P ! 1 \<or> QColumns (TextOutQueryData P' ! 1) = 0) \<and>
      (\<exists>m'. TextOutModeMap P' = Some m' \<and> length m' = length m \<and>
         (\<forall>i c. c < Step \<longrightarrow> c \<noteq> off \<longrightarrow> cell Step m' i c = cell Step m i c) \<and>
         (\<forall>i. 2 \<le> i \<longrightarrow> i < n \<longrightarrow>
            (if \<exists>Mode<j. mode_matches env log dev (row_size P i) Mode
             then \<exists>Mode<j. mode_matches env log dev (row_size P i) Mode \<and> cell Step m' i off = int Mode
             else cell Step m' i off = - 1))))"

lemma cell_position:
  "c < Step \<Longrightarrow> off < Step \<Longrightarrow> off + r * Step = i * Step + c \<longleftrightarrow> i = r \<and> c = (off :: nat)"
proof
  assume A: "c < Step" "off < Step" "off + r * Step = i * Step + c"
  have "(off + r * Step) div Step = r" "(i * Step + c) div Step = i" using A(1,2) by simp_all
  then have "r = i" using A(3) by simp
  then show "i = r \<and> c = off" using A by simp
qed auto

lemma cell_update_other:
  "c < Step \<Longrightarrow> off < Step \<Longrightarrow> i \<noteq> r \<or> c \<noteq> off \<Longrightarrow> cell Step (m[off + r * Step := v]) i c = cell Step m i c"
  using cell_position[of c Step off r i] by (simp add: cell_def)

lemma cell_update_same:
  "i * Step + off < length m \<Longrightarrow> cell Step (m[off + i * Step := v]) i off = v"
  by (simp add: cell_def add.commute)

lemma table_fits:
  assumes "table_ok P m" "i < nat (MaxMode (TextOutMode P))" "c < TextOutListCount P"
  shows "i * TextOutListCount P + c < length m"
proof -
  have "Suc i * TextOutListCount P \<le> nat (MaxMode (TextOutMode P)) * TextOutListCount P"
    using assms(2) by (intro mult_le_mono1) simp
  then show ?thesis using assms by (simp add: table_ok_def)
qed

lemma sync_stateD:
  assumes "sync_state env log dev P m j P'" "TextOutModeMap P' = Some m'"
  shows "length m' = length m"
    and "c < TextOutListCount P \<Longrightarrow> c \<noteq> CurrentNumberOfConsoles P \<Longrightarrow>
      cell (TextOutListCount P) m' i c = cell (TextOutListCount P) m i c"
    and "2 \<le> i \<Longrightarrow> i < nat (MaxMode (TextOutMode P)) \<Longrightarrow>
      (if \<exists>Mode<j. mode_matches env log dev (row_size P i) Mode
       then \<exists>Mode<j. mode_matches env log dev (row_size P i) Mode
              \<and> cell (TextOutListCount P) m' i (CurrentNumberOfConsoles P) = int Mode
       else cell (TextOutListCount P) m' i (CurrentNumberOfConsoles P) = - 1)"
  using assms unfolding sync_state_def Let_def by (auto simp only: option.inject)

text \<open>In every intermediate state a row from the third on keeps its size and no other row has it.\<close>

lemma sync_find_row:
  assumes t: "table_ok P m" and st: "sync_state env log dev P m j P'" and m': "TextOutModeMap P' = Some m'"
    and i: "2 \<le> i" "i < nat (MaxMode (TextOutMode P))" and q: "same_size (row_size P i) q"
  shows "find_row P' m' (nat (MaxMode (TextOutMode P))) q = Some i"
proof -
  let ?n = "nat (MaxMode (TextOutMode P))" and ?Step = "TextOutListCount P"
  have cells: "cell ?Step m' r 0 = cell ?Step m r 0" for r
    using st m' t by (auto simp: sync_state_def Let_def table_ok_def)
  have size: "row_size P' r = (TextOutQueryData P') ! nat (cell ?Step m r 0)"
    "row_size P r = (TextOutQueryData P) ! nat (cell ?Step m r 0)" for r
    using st m' t cells[of r] by (simp_all add: row_size_def sync_state_def Let_def table_ok_def cell_def)
  have cur: "row_size P' r = row_size P r \<or> QColumns (row_size P' r) = 0" for r
    using st size[of r] by (cases "nat (cell ?Step m r 0) = 1") (auto simp: sync_state_def Let_def)
  have "cell ?Step m i 0 \<noteq> 1 \<and> 0 \<le> cell ?Step m i 0" using t i by (auto simp: table_ok_def)
  then have "nat (cell ?Step m i 0) \<noteq> 1" by linarith
  then have same: "row_size P' i = row_size P i" using st size[of i] by (simp add: sync_state_def Let_def)
  have pos: "QColumns (row_size P i) \<noteq> 0" using t i by (auto simp: table_ok_def)
  have uniq: "r = i" if "r < ?n" "same_size (row_size P' r) q" for r
  proof -
    have "QColumns (row_size P' r) \<noteq> 0" using that q pos by (simp add: same_size_def)
    then have "same_size (row_size P i) (row_size P r)" using cur[of r] that(2) q by (simp add: same_size_def)
    then show ?thesis using t i that(1) unfolding table_ok_def by metis
  qed
  have eq: "find_row P' m' ?n q = List.find (\<lambda>r. same_size (row_size P' r) q) [0..<?n]"
    using st m' by (simp add: find_row_def row_size_def same_size_def sync_state_def Let_def)
  show ?thesis using find_unique[OF i(2) uniq] same q by (simp add: eq)
qed

lemma sync_find_row_size:
  assumes t: "table_ok P m" and st: "sync_state env log dev P m j P'" and m': "TextOutModeMap P' = Some m'"
    and r: "find_row P' m' (nat (MaxMode (TextOutMode P))) q = Some r" "2 \<le> r"
  shows "r < nat (MaxMode (TextOutMode P)) \<and> same_size (row_size P r) q"
proof -
  let ?n = "nat (MaxMode (TextOutMode P))" and ?Step = "TextOutListCount P"
  have eq: "find_row P' m' ?n q = List.find (\<lambda>r. same_size (row_size P' r) q) [0..<?n]"
    using st m' by (simp add: find_row_def row_size_def same_size_def sync_state_def Let_def)
  then have rn: "r < ?n" "same_size (row_size P' r) q" using r(1) by (auto simp: find_Some_iff find_Some_iff2)
  have "cell ?Step m r 0 \<noteq> 1 \<and> 0 \<le> cell ?Step m r 0" using t r(2) rn(1) by (auto simp: table_ok_def)
  then have "nat (cell ?Step m r 0) \<noteq> 1" by linarith
  moreover have "cell ?Step m' r 0 = cell ?Step m r 0"
    using st m' t by (auto simp: sync_state_def Let_def table_ok_def)
  ultimately have "row_size P' r = row_size P r"
    using st m' t by (simp add: row_size_def sync_state_def Let_def table_ok_def cell_def)
  then show ?thesis using rn by simp
qed

text \<open>A step that gives no row from the third on a new mode, and one that gives row \<open>r\<close> one.\<close>

lemma sync_state_skip:
  assumes st: "sync_state env log dev P m j P'" and off: "CurrentNumberOfConsoles P < TextOutListCount P"
    and m': "TextOutModeMap P' = Some m'"
    and none: "\<And>i. 2 \<le> i \<Longrightarrow> i < nat (MaxMode (TextOutMode P)) \<Longrightarrow> \<not> mode_matches env log dev (row_size P i) j"
    and Q: "TextOutQueryData Q = TextOutQueryData P' \<or> TextOutQueryData Q = (TextOutQueryData P')[1 := \<lparr>QColumns = 0, QRows = 0\<rparr>]"
    and M: "TextOutModeMap Q = Some m' \<or>
      (\<exists>r v. r < 2 \<and> TextOutModeMap Q = Some (m'[CurrentNumberOfConsoles P + r * TextOutListCount P := v]))"
    and rest: "TextOutMode Q = TextOutMode P'" "TextOutListCount Q = TextOutListCount P'"
      "CurrentNumberOfConsoles Q = CurrentNumberOfConsoles P'"
  shows "sync_state env log dev P m (Suc j) Q"
proof -
  let ?Step = "TextOutListCount P" and ?off = "CurrentNumberOfConsoles P"
  obtain m2 where m2: "TextOutModeMap Q = Some m2" "length m2 = length m'"
    "\<And>i c. c < ?Step \<Longrightarrow> c \<noteq> ?off \<or> 2 \<le> i \<Longrightarrow> cell ?Step m2 i c = cell ?Step m' i c"
  proof (cases "TextOutModeMap Q = Some m'")
    case True
    then show ?thesis using that by blast
  next
    case False
    then obtain r v where r: "r < 2" "TextOutModeMap Q = Some (m'[?off + r * ?Step := v])" using M by blast
    show ?thesis
    proof (rule that[OF r(2)])
      fix i c :: nat assume "c < ?Step" "c \<noteq> ?off \<or> 2 \<le> i"
      then show "cell ?Step (m'[?off + r * ?Step := v]) i c = cell ?Step m' i c"
        using r(1) off by (intro cell_update_other) auto
    qed simp
  qed
  have ex: "(\<exists>Mode<Suc j. mode_matches env log dev (row_size P i) Mode \<and> R Mode) \<longleftrightarrow>
      (\<exists>Mode<j. mode_matches env log dev (row_size P i) Mode \<and> R Mode)"
    if "2 \<le> i" "i < nat (MaxMode (TextOutMode P))" for i R
    using none[OF that] by (auto simp: less_Suc_eq)
  have ex1: "(\<exists>Mode<Suc j. mode_matches env log dev (row_size P i) Mode) \<longleftrightarrow>
      (\<exists>Mode<j. mode_matches env log dev (row_size P i) Mode)"
    if "2 \<le> i" "i < nat (MaxMode (TextOutMode P))" for i
    using ex[OF that, of "\<lambda>_. True"] by simp
  have qd: "(\<forall>e. e \<noteq> 1 \<longrightarrow> TextOutQueryData Q ! e = TextOutQueryData P ! e) \<and>
      (TextOutQueryData Q ! 1 = TextOutQueryData P ! 1 \<or> QColumns (TextOutQueryData Q ! 1) = 0)"
  proof (cases "1 < length (TextOutQueryData P')")
    case True
    then show ?thesis using Q st by (auto simp: sync_state_def Let_def)
  next
    case False
    then have "TextOutQueryData Q = TextOutQueryData P'" using Q by (auto simp: list_update_beyond)
    then show ?thesis using st by (simp add: sync_state_def Let_def)
  qed
  show ?thesis
    using st m' m2 rest qd off unfolding sync_state_def Let_def by (simp add: ex ex1)
qed

lemma sync_state_set:
  assumes st: "sync_state env log dev P m j P'" and t: "table_ok P m" and m': "TextOutModeMap P' = Some m'"
    and r: "2 \<le> r" "r < nat (MaxMode (TextOutMode P))" "mode_matches env log dev (row_size P r) j"
    and only: "\<And>i. 2 \<le> i \<Longrightarrow> i < nat (MaxMode (TextOutMode P)) \<Longrightarrow> mode_matches env log dev (row_size P i) j \<Longrightarrow> i = r"
  shows "sync_state env log dev P m (Suc j)
    (P'\<lparr>TextOutModeMap := Some (m'[CurrentNumberOfConsoles P + r * TextOutListCount P := int j])\<rparr>)"
proof -
  let ?Step = "TextOutListCount P" and ?off = "CurrentNumberOfConsoles P"
  have off: "?off < ?Step" and len: "length m' = length m" using t st m' by (auto simp: table_ok_def sync_state_def Let_def)
  have new: "cell ?Step (m'[?off + r * ?Step := int j]) r ?off = int j"
    using table_fits[OF t r(2) off] len by (intro cell_update_same) simp
  have old: "cell ?Step (m'[?off + r * ?Step := int j]) i c = cell ?Step m' i c" if "c < ?Step" "i \<noteq> r \<or> c \<noteq> ?off" for i c
    using that off by (intro cell_update_other) auto
  have cells: "if \<exists>Mode<Suc j. mode_matches env log dev (row_size P i) Mode
     then \<exists>Mode<Suc j. mode_matches env log dev (row_size P i) Mode \<and> cell ?Step (m'[?off + r * ?Step := int j]) i ?off = int Mode
     else cell ?Step (m'[?off + r * ?Step := int j]) i ?off = - 1"
    if i: "2 \<le> i" "i < nat (MaxMode (TextOutMode P))" for i
  proof (cases "i = r")
    case True
    then show ?thesis using new r(3) by auto
  next
    case False
    then have "\<not> mode_matches env log dev (row_size P i) j" using only[OF i] by blast
    then have ex: "(\<exists>Mode<Suc j. mode_matches env log dev (row_size P i) Mode \<and> R Mode) \<longleftrightarrow>
        (\<exists>Mode<j. mode_matches env log dev (row_size P i) Mode \<and> R Mode)" for R
      by (auto simp: less_Suc_eq)
    show ?thesis using sync_stateD(3)[OF st m' i] old[of ?off i] False off ex[of "\<lambda>_. True"] ex by simp
  qed
  show ?thesis using st m' len cells old unfolding sync_state_def Let_def by simp
qed

lemma sync_mode_step:
  assumes t: "table_ok P m" and st: "sync_state env log dev P m j P'"
  shows "sync_state env log dev P m (Suc j) (sync_mode env log dev (nat (MaxMode (TextOutMode P))) j P')"
proof -
  let ?n = "nat (MaxMode (TextOutMode P))"
  obtain m' where m': "TextOutModeMap P' = Some m'" using st by (auto simp: sync_state_def Let_def)
  obtain Status q where q: "to_query env log dev (int j) = (Status, q)" by force
  have same: "TextOutListCount P' = TextOutListCount P" "CurrentNumberOfConsoles P' = CurrentNumberOfConsoles P"
    using st by (simp_all add: sync_state_def Let_def)
  have off: "CurrentNumberOfConsoles P < TextOutListCount P" using t by (simp add: table_ok_def)
  show ?thesis
  proof (cases "EFI_ERROR Status")
    case True
    then have none: "\<not> mode_matches env log dev (row_size P i) j" for i using q by (simp add: mode_matches_def)
    show ?thesis
    proof (intro sync_state_skip[OF st off m' none])
      have "\<exists>r v. r < 2 \<and> m'[CurrentNumberOfConsoles P + TextOutListCount P := 1]
          = m'[CurrentNumberOfConsoles P + r * TextOutListCount P := v]"
        by (intro exI[of _ "1 :: nat"] exI[of _ "1 :: int"]) simp
      then show "TextOutModeMap (sync_mode env log dev ?n j P') = Some m' \<or>
          (\<exists>r v. r < 2 \<and> TextOutModeMap (sync_mode env log dev ?n j P')
            = Some (m'[CurrentNumberOfConsoles P + r * TextOutListCount P := v]))"
        using True q m' same by (auto simp: sync_mode_def Let_def)
    qed (use True q m' in \<open>auto simp: sync_mode_def Let_def\<close>)
  next
    case False
    have matches: "mode_matches env log dev d j \<longleftrightarrow> same_size d q" for d using q False by (simp add: mode_matches_def)
    show ?thesis
    proof (cases "find_row P' m' ?n q")
      case None
      then have none: "\<not> mode_matches env log dev (row_size P i) j" if "2 \<le> i" "i < ?n" for i
        using sync_find_row[OF t st m' that] matches by force
      show ?thesis
        using None False q m' by (intro sync_state_skip[OF st off m' none]) (auto simp: sync_mode_def Let_def)
    next
      case (Some r)
      have only: "i = r" if "2 \<le> i" "i < ?n" "mode_matches env log dev (row_size P i) j" for i
        using sync_find_row[OF t st m' that(1,2)] matches that(3) Some by force
      have eq: "sync_mode env log dev ?n j P'
          = P'\<lparr>TextOutModeMap := Some (m'[CurrentNumberOfConsoles P + r * TextOutListCount P := int j])\<rparr>"
        using Some False q m' same by (simp add: sync_mode_def Let_def)
      show ?thesis
      proof (cases "2 \<le> r")
        case True
        then show ?thesis
          using sync_state_set[OF st t m' True _ _ only] sync_find_row_size[OF t st m' Some True] matches eq by auto
      next
        case False
        then have none: "\<not> mode_matches env log dev (row_size P i) j" if "2 \<le> i" "i < ?n" for i
          using only that by auto
        have "\<exists>ra v. ra < 2 \<and> m'[CurrentNumberOfConsoles P + r * TextOutListCount P := int j]
            = m'[CurrentNumberOfConsoles P + ra * TextOutListCount P := v]"
          using False by (intro exI[of _ r] exI[of _ "int j"]) simp
        then show ?thesis unfolding eq by (intro sync_state_skip[OF st off m' none]) auto
      qed
    qed
  qed
qed


lemma sync_modes_state:
  assumes t: "table_ok P m"
  shows "sync_state env log dev P m j (fold (sync_mode env log dev (nat (MaxMode (TextOutMode P)))) [0..<j] P)"
proof (induction j)
  case 0
  then show ?case using t by (auto simp: sync_state_def table_ok_def Let_def)
next
  case (Suc j)
  then show ?case using sync_mode_step[OF t Suc] by simp
qed

lemma supports_iff:
  "supports env log dev d \<longleftrightarrow> (\<exists>Mode<nat (MaxMode (to_mode env log dev)). mode_matches env log dev d Mode)"
  by (auto simp: supports_def list_ex_iff)

text \<open>C6: Adding a console to a mode table keeps, from the third row on, exactly the rows of a
  size the new console also offers, in order; every kept row records a mode of the new console
  with exactly the size of the row, and the entries of the other consoles move along unchanged.\<close>

theorem sync_keeps_common_modes:
  fixes env :: to_env and dev :: nat
  assumes t: "table_ok (priv k s) m"
    and Mode: "0 \<le> CurMode (TextOutMode (priv k s))" "CurMode (TextOutMode (priv k s)) < MaxMode (TextOutMode (priv k s))"
  defines "P \<equiv> priv k s"
  defines "K \<equiv> [0, 1] @ filter (\<lambda>i. supports env (to_calls s) dev (row_size P i)) [2..<nat (MaxMode (TextOutMode P))]"
  defines "P' \<equiv> priv k (ConSplitterSyncOutputMode env k dev s)"
  shows "\<exists>m'. TextOutModeMap P' = Some m' \<and> MaxMode (TextOutMode P') = int (length K) \<and>
    (\<forall>j c. j < length K \<longrightarrow> c < TextOutListCount P \<longrightarrow> c \<noteq> CurrentNumberOfConsoles P \<longrightarrow>
       cell (TextOutListCount P) m' j c = cell (TextOutListCount P) m (K ! j) c) \<and>
    (\<forall>j. 2 \<le> j \<longrightarrow> j < length K \<longrightarrow>
       (\<exists>Mode. cell (TextOutListCount P) m' j (CurrentNumberOfConsoles P) = int Mode \<and>
          mode_matches env (to_calls s) dev (row_size P (K ! j)) Mode)) \<and>
    (if nat (CurMode (TextOutMode P)) \<in> set K
     then K ! nat (CurMode (TextOutMode P')) = nat (CurMode (TextOutMode P)) \<and> nat (CurMode (TextOutMode P')) < length K
     else CurMode (TextOutMode P') = - 1)"
proof -
  let ?n = "nat (MaxMode (TextOutMode P))" and ?Step = "TextOutListCount P" and ?off = "CurrentNumberOfConsoles P"
  let ?dn = "nat (MaxMode (to_mode env (to_calls s) dev))"
  define P1 where "P1 = fold (sync_mode env (to_calls s) dev ?n) [0..<?dn] P"
  have tP: "table_ok P m" using t by (simp add: P_def)
  note st = sync_modes_state[OF tP, of env "to_calls s" dev ?dn, folded P1_def]
  obtain m1 where m1: "TextOutModeMap P1 = Some m1" using st by (auto simp: sync_state_def Let_def)
  note D = sync_stateD[OF st m1]
  have mode: "TextOutMode P1 = TextOutMode P" using st by (simp add: sync_state_def Let_def)
  have entry: "column_entry (InMap ?off) m1 (i * ?Step) = cell ?Step m1 i ?off" for i
    by (simp add: column_entry_def cell_def add.commute)
  have sup: "cell ?Step m1 i ?off \<noteq> - 1 \<longleftrightarrow> supports env (to_calls s) dev (row_size P i)" if "2 \<le> i" "i < ?n" for i
    using D(3)[OF that] by (auto simp: supports_iff split: if_splits)
  have "filter (\<lambda>i. cell ?Step m1 i ?off \<noteq> - 1) [2..<?n] = filter (\<lambda>i. supports env (to_calls s) dev (row_size P i)) [2..<?n]"
    using sup by (intro filter_cong) auto
  then have K: "kept_rows (InMap ?off) m1 ?Step ?n = K" by (simp add: kept_rows_def entry K_def)
  have pre: "0 < ?Step" "column_ok (InMap ?off) ?Step ?Step" "2 \<le> MaxMode (TextOutMode P)" "?n * ?Step \<le> length m1"
    using tP D(1) by (auto simp: table_ok_def column_ok_def)
  obtain m' Mode' where r: "ConSplitterGetIntersection m1 (InMap ?off) ?Step ?Step (MaxMode (TextOutMode P)) (CurMode (TextOutMode P))
      = (m', int (length K), Mode')"
    and cells: "\<forall>j c. j < length K \<longrightarrow> c < ?Step \<longrightarrow> cell ?Step m' j c = cell ?Step m1 (K ! j) c"
    and cur: "if nat (CurMode (TextOutMode P)) \<in> set K
       then 0 \<le> Mode' \<and> nat Mode' < length K \<and> K ! nat Mode' = nat (CurMode (TextOutMode P)) else Mode' = - 1"
    using mode_intersection_core[OF pre, of "CurMode (TextOutMode P)"] Mode unfolding K P_def[symmetric] by blast
  have P': "TextOutModeMap P' = Some m'" "MaxMode (TextOutMode P') = int (length K)" "CurMode (TextOutMode P') = Mode'"
    using r m1 mode by (simp_all add: P'_def ConSplitterSyncOutputMode_def Let_def flip: P_def P1_def)
  have Kj: "2 \<le> K ! j \<and> K ! j < ?n \<and> supports env (to_calls s) dev (row_size P (K ! j))" if "2 \<le> j" "j < length K" for j
  proof -
    obtain i where i: "j = Suc (Suc i)" using \<open>2 \<le> j\<close> by (metis add_2_eq_Suc le_Suc_ex)
    then have "K ! j = filter (\<lambda>i. supports env (to_calls s) dev (row_size P i)) [2..<?n] ! i" by (simp add: K_def)
    moreover have "i < length (filter (\<lambda>i. supports env (to_calls s) dev (row_size P i)) [2..<?n])" using that i by (simp add: K_def)
    ultimately have "K ! j \<in> set (filter (\<lambda>i. supports env (to_calls s) dev (row_size P i)) [2..<?n])" by (metis nth_mem)
    then show ?thesis by auto
  qed
  have other: "cell ?Step m' j c = cell ?Step m (K ! j) c" if "j < length K" "c < ?Step" "c \<noteq> ?off" for j c
    using cells that D(2)[of c "K ! j"] by simp
  have own: "\<exists>Mode. cell ?Step m' j ?off = int Mode \<and> mode_matches env (to_calls s) dev (row_size P (K ! j)) Mode"
    if "2 \<le> j" "j < length K" for j
  proof -
    have "cell ?Step m' j ?off = cell ?Step m1 (K ! j) ?off" using cells that tP by (simp add: table_ok_def)
    then show ?thesis using D(3)[of "K ! j"] Kj[OF that] by (auto simp: supports_iff split: if_splits)
  qed
  show ?thesis
    using P' other own cur by (intro exI[of _ m'] conjI allI impI) (simp_all split: if_splits)
qed

definition ex_env3 :: to_env where
  "ex_env3 = ex_env\<lparr>to_mode := (\<lambda>_ _. ex_text_mode\<lparr>MaxMode := 3\<rparr>)\<rparr>"

definition ex_map4 :: "int list" where
  "ex_map4 = [0, -1, 1, -1, 2, -1, 3, -1]"

definition ex_one :: splitter_state where
  "ex_one = ex_splitter\<lparr>mConOut := (ex_priv [7])\<lparr>TextOutListCount := 2, TextOutMode := ex_text_mode\<lparr>MaxMode := 4, CurMode := 3\<rparr>,
     TextOutQueryData := [\<lparr>QColumns = 80, QRows = 25\<rparr>, \<lparr>QColumns = 80, QRows = 50\<rparr>,
       \<lparr>QColumns = 80, QRows = 75\<rparr>, \<lparr>QColumns = 100, QRows = 31\<rparr>], TextOutModeMap := Some ex_map4\<rparr>\<rparr>"

lemma less_four: "(j :: nat) < 4 \<Longrightarrow> j = 0 \<or> j = 1 \<or> j = 2 \<or> j = 3"
  by linarith

lemma ex_one_table: "table_ok (priv ConOut ex_one) ex_map4"
  unfolding table_ok_def
  by (auto simp: ex_one_def ex_map4_def ex_out_simps cell_def row_size_def same_size_def dest!: less_four)

theorem sync_keeps_common_modes_witness:
  "MaxMode (TextOutMode (priv ConOut (ConSplitterSyncOutputMode ex_env3 ConOut 8 ex_one))) = 3 \<and>
   CurMode (TextOutMode (priv ConOut (ConSplitterSyncOutputMode ex_env3 ConOut 8 ex_one))) = - 1"
proof -
  have rows: "[2..<4] = [2, 3 :: nat]" "[0..<3] = [0, 1, 2 :: nat]" by (simp_all add: upt_rec)
  have K: "[0, 1] @ filter (\<lambda>i. supports ex_env3 (to_calls ex_one) 8 (row_size (priv ConOut ex_one) i))
      [2..<nat (MaxMode (TextOutMode (priv ConOut ex_one)))] = [0, 1, 2]"
    by (simp add: ex_one_def ex_map4_def ex_out_simps rows supports_def mode_matches_def ex_env3_def ex_env_def row_size_def same_size_def)
  have cur: "CurMode (TextOutMode (priv ConOut ex_one)) = 3" "MaxMode (TextOutMode (priv ConOut ex_one)) = 4"
    by (simp_all add: ex_one_def ex_out_simps)
  show ?thesis
    using sync_keeps_common_modes[OF ex_one_table, of ex_env3 8, unfolded K] by (auto simp: cur)
qed

end
