(* ===== verification/SplitterIn.thy ===== *)
theory SplitterIn
  imports SplitterBase Keypad
begin

text \<open>
  The text input half of the console splitter (\<open>Drivers/ConSplitterDxe/ConSplitter.c\<close>): the
  virtual keyboard that collects the keys of the attached ones, keeps their toggle states in
  step and passes key notifications on to them.

  An attached keyboard (or pointer) is a number; its protocols are the functions of an environment
  record, which act on a device world \<open>'w\<close> that the splitter never inspects.  A buffer that
  a device fills is passed in and comes back.  The same record has the pool (the outcome
  of the n-th allocation), the configuration and the handler of the connect event, which may
  attach devices and so acts on the whole state.  A device call does not re-enter the
  splitter otherwise.  The pool buffers are the lists of their allocated entries.
\<close>

section \<open>Data\<close>

definition KEY_STATE_VALID_EXPOSED :: u8 where
  "KEY_STATE_VALID_EXPOSED = EFI_TOGGLE_STATE_VALID OR EFI_KEY_STATE_EXPOSED"

definition EFI_SHIFT_STATE_VALID :: u32 where
  "EFI_SHIFT_STATE_VALID = 0x80000000"

record TEXT_IN_EX_SPLITTER_NOTIFY =
  NotifyAddress :: ptr
  NotifyHandleList :: "ptr option list"
  SplitterKeyData :: EFI_KEY_DATA
  SplitterNotificationFn :: notify_fn

record EFI_SIMPLE_POINTER_MODE =
  ResolutionX :: u64
  ResolutionY :: u64
  ResolutionZ :: u64

record EFI_ABSOLUTE_POINTER_MODE =
  AbsoluteMinX :: u64
  AbsoluteMinY :: u64
  AbsoluteMinZ :: u64
  AbsoluteMaxX :: u64
  AbsoluteMaxY :: u64
  AbsoluteMaxZ :: u64

record EFI_SIMPLE_POINTER_STATE =
  RelativeMovementX :: "32 word"
  RelativeMovementY :: "32 word"
  RelativeMovementZ :: "32 word"
  LeftButton :: bool
  RightButton :: bool

record EFI_ABSOLUTE_POINTER_STATE =
  CurrentX :: u64
  CurrentY :: u64
  CurrentZ :: u64
  ActiveButtons :: u32

record TEXT_IN_SPLITTER_PRIVATE_DATA =
  CurrentNumberOfConsoles :: nat
  TextInList :: "nat list"
  TextInListCount :: nat
  CurrentNumberOfExConsoles :: nat
  TextInExList :: "nat list"
  TextInExListCount :: nat
  SplitterNotifyList :: "TEXT_IN_EX_SPLITTER_NOTIFY list"
  KeyQueue :: "EFI_KEY_DATA list"
  CurrentNumberOfKeys :: nat
  PhysicalKeyToggleState :: u8
  VirtualKeyStateExported :: bool
  SimplePointerMode :: EFI_SIMPLE_POINTER_MODE
  CurrentNumberOfPointers :: nat
  PointerList :: "nat list"
  PointerListCount :: nat
  AbsolutePointerMode :: EFI_ABSOLUTE_POINTER_MODE
  CurrentNumberOfAbsolutePointers :: nat
  AbsolutePointerList :: "nat list"
  AbsolutePointerListCount :: nat
  AbsoluteInputEventSignalState :: bool
  KeyEventSignalState :: bool
  InputEventSignalState :: bool

record 'w conin_state =
  mConIn :: TEXT_IN_SPLITTER_PRIVATE_DATA
  mConInIsConnect :: bool
  in_allocs :: nat
  signals :: "efi_event list"
  in_devices :: 'w

record 'w in_env =
  in_reset :: "nat \<Rightarrow> bool \<Rightarrow> 'w \<Rightarrow> efi_status \<times> 'w"
  in_read :: "nat \<Rightarrow> EFI_INPUT_KEY \<Rightarrow> 'w \<Rightarrow> efi_status \<times> EFI_INPUT_KEY \<times> 'w"
  in_check :: "nat \<Rightarrow> 'w \<Rightarrow> efi_status \<times> 'w"
  ex_reset :: "nat \<Rightarrow> bool \<Rightarrow> 'w \<Rightarrow> efi_status \<times> 'w"
  ex_read :: "nat \<Rightarrow> EFI_KEY_DATA \<Rightarrow> 'w \<Rightarrow> efi_status \<times> EFI_KEY_DATA \<times> 'w"
  ex_check :: "nat \<Rightarrow> 'w \<Rightarrow> efi_status \<times> 'w"
  ex_set_state :: "nat \<Rightarrow> u8 \<Rightarrow> 'w \<Rightarrow> efi_status \<times> 'w"
  ex_register :: "nat \<Rightarrow> EFI_KEY_DATA \<Rightarrow> notify_fn \<Rightarrow> ptr option \<Rightarrow> 'w \<Rightarrow> efi_status \<times> ptr option \<times> 'w"
  ex_unregister :: "nat \<Rightarrow> ptr option \<Rightarrow> 'w \<Rightarrow> efi_status \<times> 'w"
  sp_reset :: "nat \<Rightarrow> bool \<Rightarrow> 'w \<Rightarrow> efi_status \<times> 'w"
  sp_state :: "nat \<Rightarrow> EFI_SIMPLE_POINTER_STATE \<Rightarrow> 'w \<Rightarrow> efi_status \<times> EFI_SIMPLE_POINTER_STATE \<times> 'w"
  sp_mode :: "nat \<Rightarrow> 'w \<Rightarrow> EFI_SIMPLE_POINTER_MODE"
  sp_check :: "nat \<Rightarrow> 'w \<Rightarrow> efi_status \<times> 'w"
  ap_reset :: "nat \<Rightarrow> bool \<Rightarrow> 'w \<Rightarrow> efi_status \<times> 'w"
  ap_state :: "nat \<Rightarrow> EFI_ABSOLUTE_POINTER_STATE \<Rightarrow> 'w \<Rightarrow> efi_status \<times> EFI_ABSOLUTE_POINTER_STATE \<times> 'w"
  ap_mode :: "nat \<Rightarrow> 'w \<Rightarrow> EFI_ABSOLUTE_POINTER_MODE"
  ap_check :: "nat \<Rightarrow> 'w \<Rightarrow> efi_status \<times> 'w"
  in_alloc :: "nat \<Rightarrow> ptr option"
  in_create_event :: efi_status
  in_connect :: "'w conin_state \<Rightarrow> 'w conin_state"
  pcdConInConnectOnDemand :: bool
  junk_handle :: "ptr option"
  junk_key :: EFI_KEY_DATA
  junk_device :: nat
  junk_sp :: EFI_SIMPLE_POINTER_STATE
  junk_ap :: EFI_ABSOLUTE_POINTER_STATE

definition upd_in ::
  "(TEXT_IN_SPLITTER_PRIVATE_DATA \<Rightarrow> TEXT_IN_SPLITTER_PRIVATE_DATA) \<Rightarrow> 'w conin_state \<Rightarrow> 'w conin_state" where
  "upd_in f s = s\<lparr>mConIn := f (mConIn s)\<rparr>"

definition upd_dev :: "('w \<Rightarrow> 'w) \<Rightarrow> 'w conin_state \<Rightarrow> 'w conin_state" where
  "upd_dev f s = s\<lparr>in_devices := f (in_devices s)\<rparr>"

text \<open>The attached devices: the entries of the two lists in use.\<close>

definition text_in_devices :: "'w conin_state \<Rightarrow> nat list" where
  "text_in_devices s = take (CurrentNumberOfConsoles (mConIn s)) (TextInList (mConIn s))"

definition ex_devices :: "'w conin_state \<Rightarrow> nat list" where
  "ex_devices s = take (CurrentNumberOfExConsoles (mConIn s)) (TextInExList (mConIn s))"

definition grow_in ::
  "'w in_env \<Rightarrow> 'a \<Rightarrow> nat \<Rightarrow> 'a list \<Rightarrow> 'w conin_state \<Rightarrow> efi_status \<times> nat \<times> 'a list \<times> 'w conin_state" where
  "grow_in env junk n0 buf s =
     (let (Status, n, b) = ConSplitterGrowBuffer (in_alloc env (in_allocs s) \<noteq> None) junk n0 buf
      in (Status, n, b, s\<lparr>in_allocs := Suc (in_allocs s)\<rparr>))"

section \<open>Toggle states\<close>

text \<open>The loop over \<open>SetState\<close> that drops the results.\<close>

definition sync_toggle :: "'w in_env \<Rightarrow> u8 \<Rightarrow> 'w conin_state \<Rightarrow> 'w conin_state" where
  "sync_toggle env t s = upd_dev (fold (\<lambda>d w. snd (ex_set_state env d t w)) (ex_devices s)) s"

definition ToggleStateSyncKeyNotify :: "'w in_env \<Rightarrow> EFI_KEY_DATA \<Rightarrow> 'w conin_state \<Rightarrow> efi_status \<times> 'w conin_state" where
  "ToggleStateSyncKeyNotify env Key_Data s =
     (let t = KeyToggleState (KeyState Key_Data) in
      if t AND KEY_STATE_VALID_EXPOSED = KEY_STATE_VALID_EXPOSED \<and> t \<noteq> PhysicalKeyToggleState (mConIn s)
      then (EFI_SUCCESS, upd_in (\<lambda>P. P\<lparr>PhysicalKeyToggleState := t\<rparr>) (sync_toggle env t s))
      else (EFI_SUCCESS, s))"

definition ToggleStateSyncReInitialization :: "'w in_env \<Rightarrow> 'w conin_state \<Rightarrow> 'w conin_state" where
  "ToggleStateSyncReInitialization env s =
     sync_toggle env KEY_STATE_VALID_EXPOSED
       (upd_in (\<lambda>P. P\<lparr>PhysicalKeyToggleState := KEY_STATE_VALID_EXPOSED, VirtualKeyStateExported := False\<rparr>) s)"

section \<open>Reset\<close>

text \<open>The loop of the two resets: all devices are reset, the last error is the result.\<close>

definition reset_all ::
  "(nat \<Rightarrow> bool \<Rightarrow> 'w \<Rightarrow> efi_status \<times> 'w) \<Rightarrow> bool \<Rightarrow> nat list \<Rightarrow> 'w \<Rightarrow> efi_status \<times> 'w" where
  "reset_all f ExtendedVerification ds w =
     fold (\<lambda>d (ReturnStatus, w). let (Status, w') = f d ExtendedVerification w
                                 in (if EFI_ERROR Status then Status else ReturnStatus, w')) ds (EFI_SUCCESS, w)"

definition reset_done :: "'w in_env \<Rightarrow> efi_status \<Rightarrow> 'w conin_state \<Rightarrow> efi_status \<times> 'w conin_state" where
  "reset_done env ReturnStatus s =
     (ReturnStatus,
      if EFI_ERROR ReturnStatus then s
      else upd_in (\<lambda>P. P\<lparr>CurrentNumberOfKeys := 0\<rparr>) (ToggleStateSyncReInitialization env s))"

definition ConSplitterTextInReset :: "'w in_env \<Rightarrow> bool \<Rightarrow> 'w conin_state \<Rightarrow> efi_status \<times> 'w conin_state" where
  "ConSplitterTextInReset env ExtendedVerification s0 =
     (let s = upd_in (\<lambda>P. P\<lparr>KeyEventSignalState := False\<rparr>) s0;
          (ReturnStatus, w) = reset_all (in_reset env) ExtendedVerification (text_in_devices s) (in_devices s)
      in reset_done env ReturnStatus (s\<lparr>in_devices := w\<rparr>))"

definition ConSplitterTextInResetEx :: "'w in_env \<Rightarrow> bool \<Rightarrow> 'w conin_state \<Rightarrow> efi_status \<times> 'w conin_state" where
  "ConSplitterTextInResetEx env ExtendedVerification s0 =
     (let s = upd_in (\<lambda>P. P\<lparr>KeyEventSignalState := False\<rparr>) s0;
          (ReturnStatus, w) = reset_all (ex_reset env) ExtendedVerification (ex_devices s) (in_devices s)
      in reset_done env ReturnStatus (s\<lparr>in_devices := w\<rparr>))"

section \<open>Reading keys\<close>

text \<open>The key is \<open>None\<close> when \<open>KeyData\<close> is not written.\<close>

definition ConSplitterTextInExDequeueKey ::
  "TEXT_IN_SPLITTER_PRIVATE_DATA \<Rightarrow> efi_status \<times> EFI_KEY_DATA option \<times> TEXT_IN_SPLITTER_PRIVATE_DATA" where
  "ConSplitterTextInExDequeueKey P =
     (if CurrentNumberOfKeys P = 0 then (EFI_NOT_FOUND, None, P)
      else let n = CurrentNumberOfKeys P - 1
           in (EFI_SUCCESS, Some (KeyQueue P ! 0),
               P\<lparr>CurrentNumberOfKeys := n, KeyQueue := array_put 0 (array_slice 1 n (KeyQueue P)) (KeyQueue P)\<rparr>))"

text \<open>The first loop of \<open>ConSplitterTextInPrivateReadKeyStroke\<close>: partial keys in the queue are
  dropped.  The second component is the last key taken out, which stays in the buffer.\<close>

function dequeue_real ::
  "EFI_KEY_DATA \<Rightarrow> TEXT_IN_SPLITTER_PRIVATE_DATA \<Rightarrow> bool \<times> EFI_KEY_DATA \<times> TEXT_IN_SPLITTER_PRIVATE_DATA" where
  "dequeue_real buf P =
     (case ConSplitterTextInExDequeueKey P of
        (Status, Some k, P') \<Rightarrow> if \<not> is_null_key k then (True, k, P') else dequeue_real k P'
      | (Status, None, P') \<Rightarrow> (False, buf, P'))"
  by pat_completeness auto
termination
  by (relation "measure (\<lambda>(buf, P). CurrentNumberOfKeys P)")
    (auto simp: ConSplitterTextInExDequeueKey_def Let_def split: if_splits)

declare dequeue_real.simps [simp del]

text \<open>The second loop: a device is asked again as long as it returns partial keys, so it ends
  only if every device runs out of them.\<close>

partial_function (option) read_consoles ::
  "'w in_env \<Rightarrow> nat list \<Rightarrow> EFI_INPUT_KEY \<Rightarrow> 'w \<Rightarrow> (efi_status \<times> EFI_INPUT_KEY option \<times> 'w) option" where
  "read_consoles env ds buf w =
     (case ds of
        [] \<Rightarrow> Some (EFI_NOT_READY, None, w)
      | d # ds' \<Rightarrow>
          (case in_read env d buf w of (Status, k, w') \<Rightarrow>
             if EFI_ERROR Status then read_consoles env ds' k w'
             else if ScanCode k \<noteq> SCAN_NULL \<or> UnicodeChar k \<noteq> CHAR_NULL then Some (Status, Some k, w')
             else read_consoles env ds k w'))"

definition ConSplitterTextInPrivateReadKeyStroke ::
  "'w in_env \<Rightarrow> 'w conin_state \<Rightarrow> (efi_status \<times> EFI_INPUT_KEY \<times> 'w conin_state) option" where
  "ConSplitterTextInPrivateReadKeyStroke env s =
     (let (found, k, P) = dequeue_real (junk_key env) (mConIn s);
          s1 = s\<lparr>mConIn := P\<rparr>
      in if found then Some (EFI_SUCCESS, Key k, s1)
         else map_option (\<lambda>(Status, r, w).
                (Status, case r of Some k \<Rightarrow> k | None \<Rightarrow> \<lparr>ScanCode = SCAN_NULL, UnicodeChar = 0\<rparr>, s1\<lparr>in_devices := w\<rparr>))
              (read_consoles env (text_in_devices s1) (Key k) (in_devices s1)))"

definition connect_on_demand :: "'w in_env \<Rightarrow> 'w conin_state \<Rightarrow> 'w conin_state" where
  "connect_on_demand env s =
     (if \<not> mConInIsConnect s \<and> pcdConInConnectOnDemand env
      then (in_connect env s)\<lparr>mConInIsConnect := True\<rparr> else s)"

definition ConSplitterTextInReadKeyStroke ::
  "'w in_env \<Rightarrow> 'w conin_state \<Rightarrow> (efi_status \<times> EFI_INPUT_KEY \<times> 'w conin_state) option" where
  "ConSplitterTextInReadKeyStroke env s =
     ConSplitterTextInPrivateReadKeyStroke env
       (connect_on_demand env (upd_in (\<lambda>P. P\<lparr>KeyEventSignalState := False\<rparr>) s))"

definition wait_console :: "'w in_env \<Rightarrow> efi_event \<Rightarrow> nat \<Rightarrow> 'w conin_state \<Rightarrow> 'w conin_state" where
  "wait_console env Event d s =
     (let (Status, w) = in_check env d (in_devices s); s1 = s\<lparr>in_devices := w\<rparr>
      in if EFI_ERROR Status then s1
         else upd_in (\<lambda>P. P\<lparr>KeyEventSignalState := True\<rparr>) (s1\<lparr>signals := signals s1 @ [Event]\<rparr>))"

definition ConSplitterTextInWaitForKey :: "'w in_env \<Rightarrow> efi_event \<Rightarrow> 'w conin_state \<Rightarrow> 'w conin_state" where
  "ConSplitterTextInWaitForKey env Event s =
     (if KeyEventSignalState (mConIn s) then s\<lparr>signals := signals s @ [Event]\<rparr>
      else fold (wait_console env Event) (text_in_devices s) s)"

text \<open>One round of the polling loop of \<open>ConSplitterTextInReadKeyStrokeEx\<close>: the state of the
  device joins the merged state, its key the queue.\<close>

definition merge_state :: "EFI_KEY_STATE \<Rightarrow> EFI_KEY_STATE \<Rightarrow> EFI_KEY_STATE" where
  "merge_state cur ks =
     \<lparr>KeyShiftState = (if KeyShiftState cur AND EFI_SHIFT_STATE_VALID \<noteq> 0
                       then KeyShiftState ks OR KeyShiftState cur else KeyShiftState ks),
      KeyToggleState = (if KeyToggleState cur AND EFI_TOGGLE_STATE_VALID \<noteq> 0
                        then KeyToggleState ks OR KeyToggleState cur else KeyToggleState ks)\<rparr>"

definition queue_key :: "EFI_KEY_DATA \<Rightarrow> TEXT_IN_SPLITTER_PRIVATE_DATA \<Rightarrow> TEXT_IN_SPLITTER_PRIVATE_DATA" where
  "queue_key k P = P\<lparr>KeyQueue := (KeyQueue P)[CurrentNumberOfKeys P := k],
                     CurrentNumberOfKeys := CurrentNumberOfKeys P + 1\<rparr>"

definition poll_console ::
  "'w in_env \<Rightarrow> nat \<Rightarrow> EFI_KEY_STATE \<times> 'w conin_state \<Rightarrow> EFI_KEY_STATE \<times> 'w conin_state" where
  "poll_console env d = (\<lambda>(Key_State, s).
     let (Status, k, w) = ex_read env d null_key (in_devices s);
         s1 = s\<lparr>in_devices := w\<rparr>
     in if EFI_ERROR Status \<and> Status \<noteq> EFI_NOT_READY then (Key_State, s1)
        else (merge_state (KeyState k) Key_State,
              if \<not> EFI_ERROR Status \<and> (VirtualKeyStateExported (mConIn s1) \<or> \<not> is_null_key k)
              then upd_in (queue_key k) s1 else s1))"

text \<open>The merged state replaces the state of all queued keys.\<close>

definition set_key_states :: "EFI_KEY_STATE \<Rightarrow> TEXT_IN_SPLITTER_PRIVATE_DATA \<Rightarrow> TEXT_IN_SPLITTER_PRIVATE_DATA" where
  "set_key_states ks P =
     P\<lparr>KeyQueue := fold (\<lambda>i q. q[i := (q ! i)\<lparr>KeyState := ks\<rparr>]) [0..<CurrentNumberOfKeys P] (KeyQueue P)\<rparr>"

definition ConSplitterTextInReadKeyStrokeEx ::
  "'w in_env \<Rightarrow> bool \<Rightarrow> 'w conin_state \<Rightarrow> efi_status \<times> EFI_KEY_DATA option \<times> 'w conin_state" where
  "ConSplitterTextInReadKeyStrokeEx env KeyDataNull s0 =
     (if KeyDataNull then (EFI_INVALID_PARAMETER, None, s0)
      else let s = connect_on_demand env (upd_in (\<lambda>P. P\<lparr>KeyEventSignalState := False\<rparr>) s0)
           in (case ConSplitterTextInExDequeueKey (mConIn s) of
                 (EFI_SUCCESS, k, P) \<Rightarrow> (EFI_SUCCESS, k, s\<lparr>mConIn := P\<rparr>)
               | _ \<Rightarrow>
                   let (ks, s1) = fold (poll_console env) (ex_devices s) (KeyState null_key, s);
                       s2 = upd_in (set_key_states ks) s1
                   in (case ConSplitterTextInExDequeueKey (mConIn s2) of
                         (EFI_SUCCESS, k, P) \<Rightarrow> (EFI_SUCCESS, k, s2\<lparr>mConIn := P\<rparr>)
                       | _ \<Rightarrow> (EFI_NOT_READY, Some (null_key\<lparr>KeyState := ks\<rparr>), s2))))"

section \<open>Setting the toggle state\<close>

text \<open>The loop that stops at the first error.\<close>

fun set_state_all :: "'w in_env \<Rightarrow> u8 \<Rightarrow> nat list \<Rightarrow> 'w \<Rightarrow> efi_status \<times> 'w" where
  "set_state_all env t [] w = (EFI_SUCCESS, w)"
| "set_state_all env t (d # ds) w =
     (let (Status, w') = ex_set_state env d t w
      in if EFI_ERROR Status then (Status, w') else set_state_all env t ds w')"

definition ConSplitterTextInSetState :: "'w in_env \<Rightarrow> u8 option \<Rightarrow> 'w conin_state \<Rightarrow> efi_status \<times> 'w conin_state" where
  "ConSplitterTextInSetState env ToggleStateP s =
     (case ToggleStateP of None \<Rightarrow> (EFI_INVALID_PARAMETER, s)
      | Some t \<Rightarrow>
          let physical = t OR EFI_KEY_STATE_EXPOSED;
              (Status, w) = set_state_all env physical (ex_devices s) (in_devices s);
              s1 = s\<lparr>in_devices := w\<rparr>
          in if EFI_ERROR Status then (Status, s1)
             else (EFI_SUCCESS, upd_in (\<lambda>P. P\<lparr>PhysicalKeyToggleState := physical,
                     VirtualKeyStateExported := (t AND EFI_KEY_STATE_EXPOSED \<noteq> 0)\<rparr>) s1))"

section \<open>Key notifications\<close>

definition find_splitter_notify ::
  "EFI_KEY_DATA \<Rightarrow> notify_fn \<Rightarrow> TEXT_IN_EX_SPLITTER_NOTIFY list \<Rightarrow> TEXT_IN_EX_SPLITTER_NOTIFY option" where
  "find_splitter_notify k f ns =
     List.find (\<lambda>n. IsKeyRegistered (SplitterKeyData n) k \<and> SplitterNotificationFn n = f) ns"

text \<open>Registering with the devices \<open>Index, Index + 1, ...\<close>; an error stops the loop, and its
  position is returned with the handles obtained so far.\<close>

fun register_all ::
  "'w in_env \<Rightarrow> EFI_KEY_DATA \<Rightarrow> notify_fn \<Rightarrow> nat list \<Rightarrow> nat \<Rightarrow> ptr option list \<Rightarrow> 'w \<Rightarrow>
   efi_status \<times> nat \<times> ptr option list \<times> 'w" where
  "register_all env k f [] Index hs w = (EFI_SUCCESS, Index, hs, w)"
| "register_all env k f (d # ds) Index hs w =
     (let (Status, h, w') = ex_register env d k f (hs ! Index) w; hs' = hs[Index := h]
      in if EFI_ERROR Status then (Status, Index, hs', w')
         else register_all env k f ds (Suc Index) hs' w')"

text \<open>\<open>while (Index-- != 0)\<close>: the devices before the failing one, from the last to the first.\<close>

fun unregister_down :: "'w in_env \<Rightarrow> nat list \<Rightarrow> ptr option list \<Rightarrow> nat \<Rightarrow> 'w \<Rightarrow> 'w" where
  "unregister_down env ds hs 0 w = w"
| "unregister_down env ds hs (Suc Index) w =
     unregister_down env ds hs Index (snd (ex_unregister env (ds ! Index) (hs ! Index) w))"

definition ConSplitterTextInRegisterKeyNotify ::
  "'w in_env \<Rightarrow> EFI_KEY_DATA option \<Rightarrow> notify_fn option \<Rightarrow> bool \<Rightarrow> 'w conin_state \<Rightarrow>
   efi_status \<times> ptr option \<times> 'w conin_state" where
  "ConSplitterTextInRegisterKeyNotify env KeyDataP Fn HandleNull s =
     (case (KeyDataP, Fn) of
        (Some k, Some f) \<Rightarrow>
          if HandleNull then (EFI_INVALID_PARAMETER, None, s)
          else (case find_splitter_notify k f (SplitterNotifyList (mConIn s)) of
                  Some n \<Rightarrow> (EFI_SUCCESS, Some (NotifyAddress n), s)
                | None \<Rightarrow>
                    let s1 = s\<lparr>in_allocs := Suc (in_allocs s)\<rparr>; s2 = s\<lparr>in_allocs := Suc (Suc (in_allocs s))\<rparr>
                    in (case in_alloc env (in_allocs s) of
                          None \<Rightarrow> (EFI_OUT_OF_RESOURCES, None, s1)
                        | Some a \<Rightarrow>
                            if in_alloc env (in_allocs s1) = None then (EFI_OUT_OF_RESOURCES, None, s2)
                            else let (Status, Index, hs, w) = register_all env k f (ex_devices s) 0
                                       (replicate (TextInExListCount (mConIn s)) None) (in_devices s)
                                 in if EFI_ERROR Status
                                    then (Status, None, s2\<lparr>in_devices := unregister_down env (ex_devices s) hs Index w\<rparr>)
                                    else (EFI_SUCCESS, Some a, upd_in (\<lambda>P. P\<lparr>SplitterNotifyList := SplitterNotifyList P @
                                       [\<lparr>NotifyAddress = a, NotifyHandleList = hs, SplitterKeyData = k, SplitterNotificationFn = f\<rparr>]\<rparr>)
                                       (s2\<lparr>in_devices := w\<rparr>))))
      | _ \<Rightarrow> (EFI_INVALID_PARAMETER, None, s))"

definition unregister_all :: "'w in_env \<Rightarrow> nat list \<Rightarrow> ptr option list \<Rightarrow> 'w \<Rightarrow> 'w" where
  "unregister_all env ds hs w = fold (\<lambda>i w. snd (ex_unregister env (ds ! i) (hs ! i) w)) [0..<length ds] w"

definition ConSplitterTextInUnregisterKeyNotify ::
  "'w in_env \<Rightarrow> ptr option \<Rightarrow> 'w conin_state \<Rightarrow> efi_status \<times> 'w conin_state" where
  "ConSplitterTextInUnregisterKeyNotify env NotificationHandle s =
     (case NotificationHandle of None \<Rightarrow> (EFI_INVALID_PARAMETER, s)
      | Some h \<Rightarrow>
          (case List.find (\<lambda>n. NotifyAddress n = h) (SplitterNotifyList (mConIn s)) of
             None \<Rightarrow> (EFI_INVALID_PARAMETER, s)
           | Some n \<Rightarrow>
               (EFI_SUCCESS, upd_in (\<lambda>P. P\<lparr>SplitterNotifyList := remove1 n (SplitterNotifyList P)\<rparr>)
                  (upd_dev (unregister_all env (ex_devices s) (NotifyHandleList n)) s))))"

text \<open>The registration of the toggle notification; its handle is dropped, as is the status.\<close>

definition ToggleStateSyncInitialization :: "'w in_env \<Rightarrow> notify_fn \<Rightarrow> 'w conin_state \<Rightarrow> 'w conin_state" where
  "ToggleStateSyncInitialization env NotifyFn s =
     snd (snd (ConSplitterTextInRegisterKeyNotify env (Some null_key) (Some NotifyFn) False
       (upd_in (\<lambda>P. P\<lparr>PhysicalKeyToggleState := KEY_STATE_VALID_EXPOSED, VirtualKeyStateExported := False\<rparr>) s)))"

section \<open>Attaching and removing keyboards\<close>

definition ConSplitterTextInAddDevice :: "'w in_env \<Rightarrow> nat \<Rightarrow> 'w conin_state \<Rightarrow> efi_status \<times> 'w conin_state" where
  "ConSplitterTextInAddDevice env TextIn s =
     (let P = mConIn s;
          (Status, n, b, s1) = (if TextInListCount P \<le> CurrentNumberOfConsoles P
             then grow_in env (junk_device env) (TextInListCount P) (TextInList P) s
             else (EFI_SUCCESS, TextInListCount P, TextInList P, s))
      in if EFI_ERROR Status then (EFI_OUT_OF_RESOURCES, s1)
         else (EFI_SUCCESS, upd_dev (\<lambda>w. snd (in_check env TextIn w))
                (upd_in (\<lambda>P. P\<lparr>TextInListCount := n, TextInList := b[CurrentNumberOfConsoles P := TextIn],
                              CurrentNumberOfConsoles := CurrentNumberOfConsoles P + 1\<rparr>) s1)))"

definition ConSplitterTextInDeleteDevice :: "nat \<Rightarrow> 'w conin_state \<Rightarrow> efi_status \<times> 'w conin_state" where
  "ConSplitterTextInDeleteDevice TextIn s =
     (case delete_entry TextIn (CurrentNumberOfConsoles (mConIn s)) (TextInList (mConIn s)) of
        None \<Rightarrow> (EFI_NOT_FOUND, s)
      | Some b \<Rightarrow> (EFI_SUCCESS, upd_in (\<lambda>P. P\<lparr>TextInList := b, CurrentNumberOfConsoles := CurrentNumberOfConsoles P - 1\<rparr>) s))"

text \<open>The handle lists of all notifications grow first, and stay grown when a later
  allocation fails.\<close>

fun grow_handle_lists ::
  "'w in_env \<Rightarrow> nat \<Rightarrow> TEXT_IN_EX_SPLITTER_NOTIFY list \<Rightarrow> 'w conin_state \<Rightarrow>
   efi_status \<times> TEXT_IN_EX_SPLITTER_NOTIFY list \<times> 'w conin_state" where
  "grow_handle_lists env Count [] s = (EFI_SUCCESS, [], s)"
| "grow_handle_lists env Count (n # ns) s =
     (case grow_in env (junk_handle env) Count (NotifyHandleList n) s of (Status, _, b, s1) \<Rightarrow>
        if EFI_ERROR Status then (EFI_OUT_OF_RESOURCES, n # ns, s1)
        else (case grow_handle_lists env Count ns s1 of (Status, ns', s2) \<Rightarrow>
                (Status, n\<lparr>NotifyHandleList := b\<rparr> # ns', s2)))"

definition grow_ex_tables :: "'w in_env \<Rightarrow> 'w conin_state \<Rightarrow> efi_status \<times> 'w conin_state" where
  "grow_ex_tables env s =
     (let P = mConIn s; Count = TextInExListCount P;
          (Status, ns, s1) = grow_handle_lists env Count (SplitterNotifyList P) s;
          s1 = upd_in (\<lambda>P. P\<lparr>SplitterNotifyList := ns\<rparr>) s1
      in if EFI_ERROR Status then (EFI_OUT_OF_RESOURCES, s1)
         else let (Status, _, q, s2) = grow_in env (junk_key env) Count (KeyQueue P) s1
              in if EFI_ERROR Status then (EFI_OUT_OF_RESOURCES, s2)
                 else let s2 = upd_in (\<lambda>P. P\<lparr>KeyQueue := q\<rparr>) s2;
                          (Status, n, b, s3) = grow_in env (junk_device env) Count (TextInExList P) s2
                      in if EFI_ERROR Status then (EFI_OUT_OF_RESOURCES, s3)
                         else (EFI_SUCCESS, upd_in (\<lambda>P. P\<lparr>TextInExListCount := n, TextInExList := b\<rparr>) s3))"

text \<open>All notifications are registered with the new device; \<open>done\<close> are those before the
  current one.  After an error they are unregistered, from the last to the first.\<close>

fun register_notifies ::
  "'w in_env \<Rightarrow> nat \<Rightarrow> nat \<Rightarrow> TEXT_IN_EX_SPLITTER_NOTIFY list \<Rightarrow> TEXT_IN_EX_SPLITTER_NOTIFY list \<Rightarrow> 'w \<Rightarrow>
   efi_status \<times> TEXT_IN_EX_SPLITTER_NOTIFY list \<times> 'w" where
  "register_notifies env dev pos registered [] w = (EFI_SUCCESS, registered, w)"
| "register_notifies env dev pos registered (n # ns) w =
     (let (Status, h, w') = ex_register env dev (SplitterKeyData n) (SplitterNotificationFn n) (NotifyHandleList n ! pos) w;
          n' = n\<lparr>NotifyHandleList := (NotifyHandleList n)[pos := h]\<rparr>
      in if EFI_ERROR Status
         then (Status, registered @ n' # ns,
               fold (\<lambda>n w. snd (ex_unregister env dev (NotifyHandleList n ! pos) w)) (rev registered) w')
         else register_notifies env dev pos (registered @ [n']) ns w')"

definition ConSplitterTextInExAddDevice :: "'w in_env \<Rightarrow> nat \<Rightarrow> 'w conin_state \<Rightarrow> efi_status \<times> 'w conin_state" where
  "ConSplitterTextInExAddDevice env TextInEx s =
     (let (Status, s1) = (if TextInExListCount (mConIn s) \<le> CurrentNumberOfExConsoles (mConIn s)
                          then grow_ex_tables env s else (EFI_SUCCESS, s))
      in if EFI_ERROR Status then (EFI_OUT_OF_RESOURCES, s1)
         else let pos = CurrentNumberOfExConsoles (mConIn s1);
                  (Status, ns, w) = register_notifies env TextInEx pos [] (SplitterNotifyList (mConIn s1)) (in_devices s1);
                  s2 = upd_in (\<lambda>P. P\<lparr>SplitterNotifyList := ns\<rparr>) (s1\<lparr>in_devices := w\<rparr>)
              in if EFI_ERROR Status then (Status, s2)
                 else let s3 = upd_in (\<lambda>P. P\<lparr>TextInExList := (TextInExList P)[pos := TextInEx],
                                             CurrentNumberOfExConsoles := pos + 1\<rparr>) s2;
                          w1 = snd (ex_set_state env TextInEx (PhysicalKeyToggleState (mConIn s3)) (in_devices s3))
                      in (EFI_SUCCESS, s3\<lparr>in_devices := snd (ex_check env TextInEx w1)\<rparr>))"

definition ConSplitterTextInExDeleteDevice :: "nat \<Rightarrow> 'w conin_state \<Rightarrow> efi_status \<times> 'w conin_state" where
  "ConSplitterTextInExDeleteDevice TextInEx s =
     (case delete_entry TextInEx (CurrentNumberOfExConsoles (mConIn s)) (TextInExList (mConIn s)) of
        None \<Rightarrow> (EFI_NOT_FOUND, s)
      | Some b \<Rightarrow> (EFI_SUCCESS, upd_in (\<lambda>P. P\<lparr>TextInExList := b, CurrentNumberOfExConsoles := CurrentNumberOfExConsoles P - 1\<rparr>) s))"

section \<open>Construction\<close>

text \<open>The static initial value of \<open>mConIn\<close>.\<close>

definition mConIn_template :: TEXT_IN_SPLITTER_PRIVATE_DATA where
  "mConIn_template = \<lparr>CurrentNumberOfConsoles = 0, TextInList = [], TextInListCount = 0,
     CurrentNumberOfExConsoles = 0, TextInExList = [], TextInExListCount = 0,
     SplitterNotifyList = [], KeyQueue = [], CurrentNumberOfKeys = 0,
     PhysicalKeyToggleState = 0, VirtualKeyStateExported = False,
     SimplePointerMode = \<lparr>ResolutionX = 0x10000, ResolutionY = 0x10000, ResolutionZ = 0x10000\<rparr>,
     CurrentNumberOfPointers = 0, PointerList = [], PointerListCount = 0,
     AbsolutePointerMode = \<lparr>AbsoluteMinX = 0, AbsoluteMinY = 0, AbsoluteMinZ = 0,
        AbsoluteMaxX = 0x10000, AbsoluteMaxY = 0x10000, AbsoluteMaxZ = 0x10000\<rparr>,
     CurrentNumberOfAbsolutePointers = 0, AbsolutePointerList = [], AbsolutePointerListCount = 0,
     AbsoluteInputEventSignalState = False, KeyEventSignalState = False, InputEventSignalState = False\<rparr>"

text \<open>The wait events are created with asserted success and are not part of the state; the
  creation of the connect event gives the result.\<close>

definition construct_keyboard :: "'w in_env \<Rightarrow> notify_fn \<Rightarrow> 'w conin_state \<Rightarrow> efi_status \<times> 'w conin_state" where
  "construct_keyboard env SyncFn s0 =
     (case grow_in env (junk_device env) (TextInListCount (mConIn s0)) (TextInList (mConIn s0)) s0 of (Status, n, b, s1) \<Rightarrow>
      if EFI_ERROR Status then (EFI_OUT_OF_RESOURCES, s1)
      else let s1 = upd_in (\<lambda>P. P\<lparr>TextInListCount := n, TextInList := b\<rparr>) s1 in
      (case grow_in env (junk_key env) (TextInExListCount (mConIn s1)) (KeyQueue (mConIn s1)) s1 of (Status, _, q, s2) \<Rightarrow>
       if EFI_ERROR Status then (EFI_OUT_OF_RESOURCES, s2)
       else let s2 = upd_in (\<lambda>P. P\<lparr>KeyQueue := q\<rparr>) s2 in
       (case grow_in env (junk_device env) (TextInExListCount (mConIn s2)) (TextInExList (mConIn s2)) s2 of (Status, n, b, s3) \<Rightarrow>
        if EFI_ERROR Status then (EFI_OUT_OF_RESOURCES, s3)
        else (EFI_SUCCESS, ToggleStateSyncInitialization env SyncFn
                (upd_in (\<lambda>P. P\<lparr>TextInExListCount := n, TextInExList := b, SplitterNotifyList := []\<rparr>) s3)))))"

definition construct_pointers :: "'w in_env \<Rightarrow> 'w conin_state \<Rightarrow> efi_status \<times> 'w conin_state" where
  "construct_pointers env s4 =
     (case grow_in env (junk_device env) (AbsolutePointerListCount (mConIn s4)) (AbsolutePointerList (mConIn s4)) s4 of (Status, n, b, s5) \<Rightarrow>
      if EFI_ERROR Status then (EFI_OUT_OF_RESOURCES, s5)
      else let s5 = upd_in (\<lambda>P. P\<lparr>AbsolutePointerListCount := n, AbsolutePointerList := b\<rparr>) s5 in
      (case grow_in env (junk_device env) (PointerListCount (mConIn s5)) (PointerList (mConIn s5)) s5 of (Status, n, b, s6) \<Rightarrow>
       if EFI_ERROR Status then (EFI_OUT_OF_RESOURCES, s6)
       else (in_create_event env, upd_in (\<lambda>P. P\<lparr>PointerListCount := n, PointerList := b\<rparr>) s6)))"

definition ConSplitterTextInConstructor :: "'w in_env \<Rightarrow> notify_fn \<Rightarrow> 'w conin_state \<Rightarrow> efi_status \<times> 'w conin_state" where
  "ConSplitterTextInConstructor env SyncFn s0 =
     (let (Status, s4) = construct_keyboard env SyncFn s0
      in if EFI_ERROR Status then (Status, s4) else construct_pointers env s4)"

end
