(* ===== verification/SplitterPointer.thy ===== *)
theory SplitterPointer
  imports SplitterIn "HOL-Library.Signed_Division"
begin

text \<open>
  The pointer half of the console splitter's input (\<open>Drivers/ConSplitterDxe/ConSplitter.c\<close>):
  the virtual mouse, which adds up the movements of the attached mice scaled to its own
  resolution, and the virtual absolute pointer, which maps the coordinates of the attached
  ones into its own range.  Both live in the state of \<open>SplitterIn\<close>.  \<open>None\<close> is a division by
  zero.
\<close>

definition pointer_devices :: "'w conin_state \<Rightarrow> nat list" where
  "pointer_devices s = take (CurrentNumberOfPointers (mConIn s)) (PointerList (mConIn s))"

definition absolute_devices :: "'w conin_state \<Rightarrow> nat list" where
  "absolute_devices s = take (CurrentNumberOfAbsolutePointers (mConIn s)) (AbsolutePointerList (mConIn s))"

section \<open>Attaching and removing pointers\<close>

definition ConSplitterSimplePointerAddDevice :: "'w in_env \<Rightarrow> nat \<Rightarrow> 'w conin_state \<Rightarrow> efi_status \<times> 'w conin_state" where
  "ConSplitterSimplePointerAddDevice env SimplePointer s =
     (let P = mConIn s;
          (Status, n, b, s1) = (if PointerListCount P \<le> CurrentNumberOfPointers P
             then grow_in env (junk_device env) (PointerListCount P) (PointerList P) s
             else (EFI_SUCCESS, PointerListCount P, PointerList P, s))
      in if EFI_ERROR Status then (EFI_OUT_OF_RESOURCES, s1)
         else (EFI_SUCCESS,
                upd_in (\<lambda>P. P\<lparr>PointerListCount := n, PointerList := b[CurrentNumberOfPointers P := SimplePointer],
                              CurrentNumberOfPointers := CurrentNumberOfPointers P + 1\<rparr>) s1))"

definition ConSplitterSimplePointerDeleteDevice :: "nat \<Rightarrow> 'w conin_state \<Rightarrow> efi_status \<times> 'w conin_state" where
  "ConSplitterSimplePointerDeleteDevice SimplePointer s =
     (case delete_entry SimplePointer (CurrentNumberOfPointers (mConIn s)) (PointerList (mConIn s)) of
        None \<Rightarrow> (EFI_NOT_FOUND, s)
      | Some b \<Rightarrow> (EFI_SUCCESS, upd_in (\<lambda>P. P\<lparr>PointerList := b, CurrentNumberOfPointers := CurrentNumberOfPointers P - 1\<rparr>) s))"

definition ConSplitterAbsolutePointerAddDevice :: "'w in_env \<Rightarrow> nat \<Rightarrow> 'w conin_state \<Rightarrow> efi_status \<times> 'w conin_state" where
  "ConSplitterAbsolutePointerAddDevice env AbsolutePointer s =
     (let P = mConIn s;
          (Status, n, b, s1) = (if AbsolutePointerListCount P \<le> CurrentNumberOfAbsolutePointers P
             then grow_in env (junk_device env) (AbsolutePointerListCount P) (AbsolutePointerList P) s
             else (EFI_SUCCESS, AbsolutePointerListCount P, AbsolutePointerList P, s))
      in if EFI_ERROR Status then (EFI_OUT_OF_RESOURCES, s1)
         else (EFI_SUCCESS,
                upd_in (\<lambda>P. P\<lparr>AbsolutePointerListCount := n,
                              AbsolutePointerList := b[CurrentNumberOfAbsolutePointers P := AbsolutePointer],
                              CurrentNumberOfAbsolutePointers := CurrentNumberOfAbsolutePointers P + 1\<rparr>) s1))"

definition ConSplitterAbsolutePointerDeleteDevice :: "nat \<Rightarrow> 'w conin_state \<Rightarrow> efi_status \<times> 'w conin_state" where
  "ConSplitterAbsolutePointerDeleteDevice AbsolutePointer s =
     (case delete_entry AbsolutePointer (CurrentNumberOfAbsolutePointers (mConIn s)) (AbsolutePointerList (mConIn s)) of
        None \<Rightarrow> (EFI_NOT_FOUND, s)
      | Some b \<Rightarrow> (EFI_SUCCESS, upd_in (\<lambda>P. P\<lparr>AbsolutePointerList := b,
                      CurrentNumberOfAbsolutePointers := CurrentNumberOfAbsolutePointers P - 1\<rparr>) s))"

section \<open>The virtual mouse\<close>

definition ConSplitterSimplePointerReset :: "'w in_env \<Rightarrow> bool \<Rightarrow> 'w conin_state \<Rightarrow> efi_status \<times> 'w conin_state" where
  "ConSplitterSimplePointerReset env ExtendedVerification s0 =
     (let s = upd_in (\<lambda>P. P\<lparr>InputEventSignalState := False\<rparr>) s0 in
      if CurrentNumberOfPointers (mConIn s) = 0 then (EFI_SUCCESS, s)
      else let (ReturnStatus, w) = reset_all (sp_reset env) ExtendedVerification (pointer_devices s) (in_devices s)
           in (ReturnStatus, s\<lparr>in_devices := w\<rparr>))"

text \<open>One axis: the products and the quotient are \<open>INT32\<close>.\<close>

definition scale_axis :: "32 word \<Rightarrow> u64 \<Rightarrow> u64 \<Rightarrow> 32 word \<Rightarrow> 32 word option" where
  "scale_axis Movement VirtualRes DeviceRes acc =
     (if Movement \<noteq> 0 \<and> DeviceRes \<noteq> 0
      then if (ucast DeviceRes :: 32 word) = 0 then None
           else Some (acc + word_of_int (sint (Movement * ucast VirtualRes) sdiv sint (ucast DeviceRes :: 32 word)))
      else Some acc)"

definition add_movement ::
  "EFI_SIMPLE_POINTER_MODE \<Rightarrow> EFI_SIMPLE_POINTER_MODE \<Rightarrow> EFI_SIMPLE_POINTER_STATE \<Rightarrow> EFI_SIMPLE_POINTER_STATE \<Rightarrow>
   EFI_SIMPLE_POINTER_STATE option" where
  "add_movement V D Cur S =
     (case scale_axis (RelativeMovementX Cur) (ResolutionX V) (ResolutionX D) (RelativeMovementX S) of None \<Rightarrow> None | Some x \<Rightarrow>
      (case scale_axis (RelativeMovementY Cur) (ResolutionY V) (ResolutionY D) (RelativeMovementY S) of None \<Rightarrow> None | Some y \<Rightarrow>
       (case scale_axis (RelativeMovementZ Cur) (ResolutionZ V) (ResolutionZ D) (RelativeMovementZ S) of None \<Rightarrow> None | Some z \<Rightarrow>
        Some \<lparr>RelativeMovementX = x, RelativeMovementY = y, RelativeMovementZ = z,
              LeftButton = (LeftButton S \<or> LeftButton Cur), RightButton = (RightButton S \<or> RightButton Cur)\<rparr>)))"

text \<open>The status of a poll: the first success replaces \<open>EFI_NOT_READY\<close>, a device error
  is kept to the end.\<close>

definition poll_status :: "efi_status \<Rightarrow> efi_status \<Rightarrow> efi_status" where
  "poll_status Status ReturnStatus =
     (if \<not> EFI_ERROR Status then if ReturnStatus = EFI_NOT_READY then EFI_SUCCESS else ReturnStatus
      else if Status = EFI_DEVICE_ERROR then EFI_DEVICE_ERROR else ReturnStatus)"

fun merge_pointers ::
  "'w in_env \<Rightarrow> EFI_SIMPLE_POINTER_MODE \<Rightarrow> nat list \<Rightarrow> EFI_SIMPLE_POINTER_STATE \<Rightarrow>
   efi_status \<times> EFI_SIMPLE_POINTER_STATE \<times> 'w \<Rightarrow> (efi_status \<times> EFI_SIMPLE_POINTER_STATE \<times> 'w) option" where
  "merge_pointers env V [] buf r = Some r"
| "merge_pointers env V (d # ds) buf (ReturnStatus, S, w) =
     (let (Status, Cur, w') = sp_state env d buf w; R = poll_status Status ReturnStatus
      in if EFI_ERROR Status then merge_pointers env V ds Cur (R, S, w')
         else (case add_movement V (sp_mode env d w') Cur S of None \<Rightarrow> None
               | Some S' \<Rightarrow> merge_pointers env V ds Cur (R, S', w')))"

definition no_movement :: EFI_SIMPLE_POINTER_STATE where
  "no_movement = \<lparr>RelativeMovementX = 0, RelativeMovementY = 0, RelativeMovementZ = 0,
                  LeftButton = False, RightButton = False\<rparr>"

definition ConSplitterSimplePointerPrivateGetState ::
  "'w in_env \<Rightarrow> 'w conin_state \<Rightarrow> (efi_status \<times> EFI_SIMPLE_POINTER_STATE \<times> 'w conin_state) option" where
  "ConSplitterSimplePointerPrivateGetState env s =
     map_option (\<lambda>(R, S, w). (R, S, s\<lparr>in_devices := w\<rparr>))
       (merge_pointers env (SimplePointerMode (mConIn s)) (pointer_devices s) (junk_sp env)
          (EFI_NOT_READY, no_movement, in_devices s))"

definition ConSplitterSimplePointerGetState ::
  "'w in_env \<Rightarrow> 'w conin_state \<Rightarrow> (efi_status \<times> EFI_SIMPLE_POINTER_STATE \<times> 'w conin_state) option" where
  "ConSplitterSimplePointerGetState env s =
     ConSplitterSimplePointerPrivateGetState env (upd_in (\<lambda>P. P\<lparr>InputEventSignalState := False\<rparr>) s)"

text \<open>The wait loops of the two pointers.\<close>

definition wait_pointer ::
  "(nat \<Rightarrow> 'w \<Rightarrow> efi_status \<times> 'w) \<Rightarrow> (TEXT_IN_SPLITTER_PRIVATE_DATA \<Rightarrow> TEXT_IN_SPLITTER_PRIVATE_DATA) \<Rightarrow>
   efi_event \<Rightarrow> nat \<Rightarrow> 'w conin_state \<Rightarrow> 'w conin_state" where
  "wait_pointer check flag Event d s =
     (let (Status, w) = check d (in_devices s); s1 = s\<lparr>in_devices := w\<rparr>
      in if EFI_ERROR Status then s1 else upd_in flag (s1\<lparr>signals := signals s1 @ [Event]\<rparr>))"

definition ConSplitterSimplePointerWaitForInput :: "'w in_env \<Rightarrow> efi_event \<Rightarrow> 'w conin_state \<Rightarrow> 'w conin_state" where
  "ConSplitterSimplePointerWaitForInput env Event s =
     (if InputEventSignalState (mConIn s) then s\<lparr>signals := signals s @ [Event]\<rparr>
      else fold (wait_pointer (sp_check env) (\<lambda>P. P\<lparr>InputEventSignalState := True\<rparr>) Event) (pointer_devices s) s)"

section \<open>The virtual absolute pointer\<close>

definition ConSplitterAbsolutePointerReset :: "'w in_env \<Rightarrow> bool \<Rightarrow> 'w conin_state \<Rightarrow> efi_status \<times> 'w conin_state" where
  "ConSplitterAbsolutePointerReset env ExtendedVerification s0 =
     (let s = upd_in (\<lambda>P. P\<lparr>AbsoluteInputEventSignalState := False\<rparr>) s0 in
      if CurrentNumberOfAbsolutePointers (mConIn s) = 0 then (EFI_SUCCESS, s)
      else let (ReturnStatus, w) = reset_all (ap_reset env) ExtendedVerification (absolute_devices s) (in_devices s)
           in (ReturnStatus, s\<lparr>in_devices := w\<rparr>))"

definition map_axis :: "u64 \<Rightarrow> u64 \<Rightarrow> u64 \<Rightarrow> u64 \<Rightarrow> u64 \<Rightarrow> u64 \<Rightarrow> u64 option" where
  "map_axis VirtualMin VirtualMax DevMin DevMax Current old =
     (if \<not> (DevMin = 0 \<and> DevMax = 0)
      then if DevMax - DevMin = 0 then None
           else Some (VirtualMin + (Current * (VirtualMax - VirtualMin)) div (DevMax - DevMin))
      else Some old)"

definition map_position ::
  "EFI_ABSOLUTE_POINTER_MODE \<Rightarrow> EFI_ABSOLUTE_POINTER_MODE \<Rightarrow> EFI_ABSOLUTE_POINTER_STATE \<Rightarrow> EFI_ABSOLUTE_POINTER_STATE \<Rightarrow>
   EFI_ABSOLUTE_POINTER_STATE option" where
  "map_position V D Cur S =
     (case map_axis (AbsoluteMinX V) (AbsoluteMaxX V) (AbsoluteMinX D) (AbsoluteMaxX D) (CurrentX Cur) (CurrentX S) of None \<Rightarrow> None | Some x \<Rightarrow>
      (case map_axis (AbsoluteMinY V) (AbsoluteMaxY V) (AbsoluteMinY D) (AbsoluteMaxY D) (CurrentY Cur) (CurrentY S) of None \<Rightarrow> None | Some y \<Rightarrow>
       (case map_axis (AbsoluteMinZ V) (AbsoluteMaxZ V) (AbsoluteMinZ D) (AbsoluteMaxZ D) (CurrentZ Cur) (CurrentZ S) of None \<Rightarrow> None | Some z \<Rightarrow>
        Some \<lparr>CurrentX = x, CurrentY = y, CurrentZ = z, ActiveButtons = ActiveButtons Cur\<rparr>)))"

fun merge_positions ::
  "'w in_env \<Rightarrow> EFI_ABSOLUTE_POINTER_MODE \<Rightarrow> nat list \<Rightarrow> EFI_ABSOLUTE_POINTER_STATE \<Rightarrow>
   efi_status \<times> EFI_ABSOLUTE_POINTER_STATE \<times> 'w \<Rightarrow> (efi_status \<times> EFI_ABSOLUTE_POINTER_STATE \<times> 'w) option" where
  "merge_positions env V [] buf r = Some r"
| "merge_positions env V (d # ds) buf (ReturnStatus, S, w) =
     (let (Status, Cur, w') = ap_state env d buf w; R = poll_status Status ReturnStatus
      in if EFI_ERROR Status then merge_positions env V ds Cur (R, S, w')
         else (case map_position V (ap_mode env d w') Cur S of None \<Rightarrow> None
               | Some S' \<Rightarrow> merge_positions env V ds Cur (R, S', w')))"

definition ConSplitterAbsolutePointerGetState ::
  "'w in_env \<Rightarrow> 'w conin_state \<Rightarrow> (efi_status \<times> EFI_ABSOLUTE_POINTER_STATE \<times> 'w conin_state) option" where
  "ConSplitterAbsolutePointerGetState env s0 =
     (let s = upd_in (\<lambda>P. P\<lparr>AbsoluteInputEventSignalState := False\<rparr>) s0
      in map_option (\<lambda>(R, S, w). (R, S, s\<lparr>in_devices := w\<rparr>))
           (merge_positions env (AbsolutePointerMode (mConIn s)) (absolute_devices s) (junk_ap env)
              (EFI_NOT_READY, \<lparr>CurrentX = 0, CurrentY = 0, CurrentZ = 0, ActiveButtons = 0\<rparr>, in_devices s)))"

definition ConSplitterAbsolutePointerWaitForInput :: "'w in_env \<Rightarrow> efi_event \<Rightarrow> 'w conin_state \<Rightarrow> 'w conin_state" where
  "ConSplitterAbsolutePointerWaitForInput env Event s =
     (if AbsoluteInputEventSignalState (mConIn s) then s\<lparr>signals := signals s @ [Event]\<rparr>
      else fold (wait_pointer (ap_check env) (\<lambda>P. P\<lparr>AbsoluteInputEventSignalState := True\<rparr>) Event) (absolute_devices s) s)"

end
