(* ===== verification/SplitterInCorrect.thy ===== *)
theory SplitterInCorrect
  imports SplitterPointer
begin

text \<open>
  The text input splitter: its tables stay within their allocations whatever is called in
  whatever order, the device lists keep the contract of \<open>device_list\<close>, and a read delivers
  the keys of all consoles in order with the merged key state.
\<close>

section \<open>The tables stay within their allocations\<close>

definition handles_ok :: "nat \<Rightarrow> TEXT_IN_EX_SPLITTER_NOTIFY list \<Rightarrow> bool" where
  "handles_ok n ns \<longleftrightarrow> list_all (\<lambda>x. n \<le> length (NotifyHandleList x)) ns"

definition conin_inv :: "'w conin_state \<Rightarrow> bool" where
  "conin_inv s \<longleftrightarrow> (let P = mConIn s in
     length (TextInList P) = TextInListCount P \<and> CurrentNumberOfConsoles P \<le> TextInListCount P
     \<and> length (TextInExList P) = TextInExListCount P \<and> CurrentNumberOfExConsoles P \<le> TextInExListCount P
     \<and> TextInExListCount P \<le> length (KeyQueue P) \<and> CurrentNumberOfKeys P \<le> TextInExListCount P
     \<and> handles_ok (TextInExListCount P) (SplitterNotifyList P)
     \<and> length (PointerList P) = PointerListCount P \<and> CurrentNumberOfPointers P \<le> PointerListCount P
     \<and> length (AbsolutePointerList P) = AbsolutePointerListCount P
     \<and> CurrentNumberOfAbsolutePointers P \<le> AbsolutePointerListCount P)"

lemmas in_upd_defs = upd_in_def upd_dev_def

lemma conin_inv_devices [simp]:
  "conin_inv (s\<lparr>in_devices := w\<rparr>) = conin_inv s" "conin_inv (s\<lparr>signals := sg\<rparr>) = conin_inv s"
  "conin_inv (s\<lparr>in_allocs := n\<rparr>) = conin_inv s" "conin_inv (s\<lparr>mConInIsConnect := b\<rparr>) = conin_inv s"
  "conin_inv (upd_dev f s) = conin_inv s"
  by (simp_all add: conin_inv_def upd_dev_def)

lemma conin_inv_flags [simp]:
  "conin_inv (upd_in (\<lambda>P. P\<lparr>KeyEventSignalState := b\<rparr>) s) = conin_inv s"
  "conin_inv (upd_in (\<lambda>P. P\<lparr>PhysicalKeyToggleState := t\<rparr>) s) = conin_inv s"
  "conin_inv (upd_in (\<lambda>P. P\<lparr>InputEventSignalState := b\<rparr>) s) = conin_inv s"
  "conin_inv (upd_in (\<lambda>P. P\<lparr>AbsoluteInputEventSignalState := b\<rparr>) s) = conin_inv s"
  "conin_inv (upd_in (\<lambda>P. P\<lparr>PhysicalKeyToggleState := t, VirtualKeyStateExported := b\<rparr>) s) = conin_inv s"
  "conin_inv s \<Longrightarrow> conin_inv (upd_in (\<lambda>P. P\<lparr>CurrentNumberOfKeys := 0\<rparr>) s)"
  by (simp_all add: conin_inv_def upd_in_def Let_def)

lemma sync_toggle_inv [simp]: "conin_inv (sync_toggle env t s) = conin_inv s"
  by (simp add: sync_toggle_def)

lemma sync_notify_inv: "conin_inv s \<Longrightarrow> conin_inv (snd (ToggleStateSyncKeyNotify env k s))"
  by (simp add: ToggleStateSyncKeyNotify_def Let_def)

lemma reinit_inv: "conin_inv s \<Longrightarrow> conin_inv (ToggleStateSyncReInitialization env s)"
  by (simp add: ToggleStateSyncReInitialization_def)

lemma reset_inv:
  "conin_inv s \<Longrightarrow> conin_inv (snd (ConSplitterTextInReset env b s))"
  "conin_inv s \<Longrightarrow> conin_inv (snd (ConSplitterTextInResetEx env b s))"
  by (simp_all add: ConSplitterTextInReset_def ConSplitterTextInResetEx_def Let_def split_beta reset_done_def reinit_inv)

section \<open>The key queue\<close>

definition keys_of :: "TEXT_IN_SPLITTER_PRIVATE_DATA \<Rightarrow> EFI_KEY_DATA list" where
  "keys_of P = take (CurrentNumberOfKeys P) (KeyQueue P)"

definition queued :: "'w conin_state \<Rightarrow> EFI_KEY_DATA list" where
  "queued s = keys_of (mConIn s)"

definition queue_ok :: "TEXT_IN_SPLITTER_PRIVATE_DATA \<Rightarrow> bool" where
  "queue_ok P \<longleftrightarrow> CurrentNumberOfKeys P \<le> length (KeyQueue P)"

text \<open>Taking a key out changes the queue only.\<close>

definition queue_only :: "TEXT_IN_SPLITTER_PRIVATE_DATA \<Rightarrow> TEXT_IN_SPLITTER_PRIVATE_DATA \<Rightarrow> bool" where
  "queue_only P P' \<longleftrightarrow>
     (\<exists>q n. length q = length (KeyQueue P) \<and> P' = P\<lparr>CurrentNumberOfKeys := n, KeyQueue := q\<rparr>)"

lemma queue_onlyI [intro]:
  "length q = length (KeyQueue P) \<Longrightarrow> queue_only P (P\<lparr>CurrentNumberOfKeys := n, KeyQueue := q\<rparr>)"
  "length q = length (KeyQueue P) \<Longrightarrow> queue_only P (P\<lparr>KeyQueue := q, CurrentNumberOfKeys := n\<rparr>)"
  "length q = length (KeyQueue P) \<Longrightarrow> queue_only P (P\<lparr>KeyQueue := q\<rparr>)"
proof -
  show *: "length q = length (KeyQueue P) \<Longrightarrow> queue_only P (P\<lparr>CurrentNumberOfKeys := n, KeyQueue := q\<rparr>)" for n
    unfolding queue_only_def by blast
  have "P\<lparr>KeyQueue := q, CurrentNumberOfKeys := n\<rparr> = P\<lparr>CurrentNumberOfKeys := n, KeyQueue := q\<rparr>" by (cases P) simp
  with * show "length q = length (KeyQueue P) \<Longrightarrow> queue_only P (P\<lparr>KeyQueue := q, CurrentNumberOfKeys := n\<rparr>)"
    by metis
  from * [of "CurrentNumberOfKeys P"]
  show "length q = length (KeyQueue P) \<Longrightarrow> queue_only P (P\<lparr>KeyQueue := q\<rparr>)" by simp
qed

lemma queue_only_refl [simp]: "queue_only P P"
  by (auto simp: queue_only_def intro!: exI [of _ "KeyQueue P"] exI [of _ "CurrentNumberOfKeys P"])

lemma queue_only_trans: "queue_only P Q \<Longrightarrow> queue_only Q R \<Longrightarrow> queue_only P R"
proof -
  assume "queue_only P Q" "queue_only Q R"
  then obtain q n q' n' where "length q = length (KeyQueue P)" "Q = P\<lparr>CurrentNumberOfKeys := n, KeyQueue := q\<rparr>"
      "length q' = length (KeyQueue P)" "R = P\<lparr>CurrentNumberOfKeys := n', KeyQueue := q'\<rparr>"
    by (auto simp: queue_only_def)
  then show ?thesis by auto
qed

lemma queue_onlyD:
  "queue_only P Q \<Longrightarrow> length (KeyQueue Q) = length (KeyQueue P) \<and> TextInList Q = TextInList P
     \<and> TextInListCount Q = TextInListCount P \<and> CurrentNumberOfConsoles Q = CurrentNumberOfConsoles P
     \<and> TextInExList Q = TextInExList P \<and> TextInExListCount Q = TextInExListCount P
     \<and> CurrentNumberOfExConsoles Q = CurrentNumberOfExConsoles P \<and> SplitterNotifyList Q = SplitterNotifyList P
     \<and> PointerList Q = PointerList P \<and> PointerListCount Q = PointerListCount P
     \<and> CurrentNumberOfPointers Q = CurrentNumberOfPointers P
     \<and> AbsolutePointerList Q = AbsolutePointerList P \<and> AbsolutePointerListCount Q = AbsolutePointerListCount P
     \<and> CurrentNumberOfAbsolutePointers Q = CurrentNumberOfAbsolutePointers P
     \<and> VirtualKeyStateExported Q = VirtualKeyStateExported P \<and> PhysicalKeyToggleState Q = PhysicalKeyToggleState P"
  by (auto simp: queue_only_def)

lemma dequeue_spec:
  assumes "queue_ok P"
  shows "case keys_of P of
      [] \<Rightarrow> ConSplitterTextInExDequeueKey P = (EFI_NOT_FOUND, None, P)
    | k # ks \<Rightarrow> \<exists>P'. ConSplitterTextInExDequeueKey P = (EFI_SUCCESS, Some k, P')
         \<and> queue_ok P' \<and> keys_of P' = ks \<and> queue_only P P' \<and> CurrentNumberOfKeys P' = CurrentNumberOfKeys P - 1"
proof (cases "CurrentNumberOfKeys P")
  case 0
  then show ?thesis by (simp add: keys_of_def ConSplitterTextInExDequeueKey_def)
next
  case (Suc n)
  then obtain q qs where q: "KeyQueue P = q # qs" "n \<le> length qs"
    using assms by (cases "KeyQueue P") (auto simp: queue_ok_def)
  then show ?thesis using Suc
    by (auto simp: keys_of_def ConSplitterTextInExDequeueKey_def queue_ok_def array_put_def array_slice_def)
qed

lemma queue_only_inv:
  "conin_inv s \<Longrightarrow> queue_only (mConIn s) P \<Longrightarrow> CurrentNumberOfKeys P \<le> TextInExListCount P \<Longrightarrow> conin_inv (s\<lparr>mConIn := P\<rparr>)"
  by (auto dest!: queue_onlyD simp: conin_inv_def Let_def)

lemma dequeue_real_spec:
  "queue_ok P \<Longrightarrow> \<exists>P'. queue_ok P' \<and> queue_only P P' \<and> CurrentNumberOfKeys P' \<le> CurrentNumberOfKeys P
     \<and> (case dropWhile is_null_key (keys_of P) of
          [] \<Rightarrow> (\<exists>k. dequeue_real buf P = (False, k, P')) \<and> keys_of P' = []
        | k # ks \<Rightarrow> dequeue_real buf P = (True, k, P') \<and> keys_of P' = ks)"
proof (induction buf P rule: dequeue_real.induct)
  case (1 buf P)
  show ?case
  proof (cases "keys_of P")
    case Nil
    then show ?thesis using dequeue_spec [OF 1(2)] 1(2)
      by (intro exI [of _ P]) (auto simp: dequeue_real.simps [of buf P])
  next
    case (Cons k ks)
    then obtain Q where Q: "ConSplitterTextInExDequeueKey P = (EFI_SUCCESS, Some k, Q)" "queue_ok Q"
        "keys_of Q = ks" "queue_only P Q" "CurrentNumberOfKeys Q = CurrentNumberOfKeys P - 1"
      using dequeue_spec [OF 1(2)] by auto
    note step = dequeue_real.simps [of buf P]
    show ?thesis
    proof (cases "is_null_key k")
      case True
      from 1(1) [OF Q(1) [symmetric] refl refl _ Q(2)] True obtain R where
        R: "queue_ok R" "queue_only Q R" "CurrentNumberOfKeys R \<le> CurrentNumberOfKeys Q"
          "case dropWhile is_null_key (keys_of Q) of
             [] \<Rightarrow> (\<exists>k'. dequeue_real k Q = (False, k', R)) \<and> keys_of R = []
           | k' # ks' \<Rightarrow> dequeue_real k Q = (True, k', R) \<and> keys_of R = ks'" by auto
      moreover have "queue_only P R" using Q(4) R(2) by (rule queue_only_trans)
      moreover have "dequeue_real buf P = dequeue_real k Q" using True Q(1) step by simp
      moreover have "dropWhile is_null_key (keys_of P) = dropWhile is_null_key (keys_of Q)"
        using True Cons Q(3) by simp
      ultimately show ?thesis using Q(5) by (intro exI [of _ R]) (simp cong: list.case_cong)
    next
      case False
      then show ?thesis using Q Cons step by (intro exI [of _ Q]) auto
    qed
  qed
qed

section \<open>One poll of all consoles\<close>

text \<open>What the devices deliver, as a list: the merged key state and the keys to be queued.\<close>

fun polled_keys ::
  "'w in_env \<Rightarrow> bool \<Rightarrow> nat list \<Rightarrow> EFI_KEY_STATE \<Rightarrow> 'w \<Rightarrow> EFI_KEY_STATE \<times> EFI_KEY_DATA list \<times> 'w" where
  "polled_keys env exported [] ks w = (ks, [], w)"
| "polled_keys env exported (d # ds) ks w =
     (let (Status, k, w') = ex_read env d null_key w in
      if Status = EFI_SUCCESS
      then let (ks', keys, w'') = polled_keys env exported ds (merge_state (KeyState k) ks) w'
           in (ks', if exported \<or> \<not> is_null_key k then k # keys else keys, w'')
      else if Status = EFI_NOT_READY then polled_keys env exported ds (merge_state (KeyState k) ks) w'
      else polled_keys env exported ds ks w')"

definition with_state :: "EFI_KEY_STATE \<Rightarrow> EFI_KEY_DATA \<Rightarrow> EFI_KEY_DATA" where
  "with_state ks k = k\<lparr>KeyState := ks\<rparr>"

lemma length_polled_keys: "length (fst (snd (polled_keys env e ds ks w))) \<le> length ds"
  by (induction ds arbitrary: ks w) (auto simp: Let_def split_beta le_SucI)

lemma queue_key_spec:
  "CurrentNumberOfKeys P < length (KeyQueue P) \<Longrightarrow>
   keys_of (queue_key k P) = keys_of P @ [k] \<and> queue_only P (queue_key k P)"
  by (auto simp: keys_of_def queue_key_def take_Suc_conv_app_nth)

lemma poll_fold:
  "CurrentNumberOfKeys (mConIn s) + length ds \<le> length (KeyQueue (mConIn s)) \<Longrightarrow>
   \<exists>P. fold (poll_console env) ds (ks, s) =
        (fst (polled_keys env (VirtualKeyStateExported (mConIn s)) ds ks (in_devices s)),
         s\<lparr>mConIn := P, in_devices := snd (snd (polled_keys env (VirtualKeyStateExported (mConIn s)) ds ks (in_devices s)))\<rparr>)
     \<and> queue_only (mConIn s) P
     \<and> CurrentNumberOfKeys P \<le> CurrentNumberOfKeys (mConIn s) + length ds
     \<and> keys_of P = keys_of (mConIn s) @ fst (snd (polled_keys env (VirtualKeyStateExported (mConIn s)) ds ks (in_devices s)))"
proof (induction ds arbitrary: ks s)
  case Nil
  show ?case by (intro exI [of _ "mConIn s"]) simp
next
  case (Cons d ds)
  obtain st k w where r: "ex_read env d null_key (in_devices s) = (st, k, w)" by (cases "ex_read env d null_key (in_devices s)")
  define ks1 where "ks1 = (if EFI_ERROR st \<and> st \<noteq> EFI_NOT_READY then ks else merge_state (KeyState k) ks)"
  define P1 where "P1 = (if st = EFI_SUCCESS \<and> (VirtualKeyStateExported (mConIn s) \<or> \<not> is_null_key k)
     then queue_key k (mConIn s) else mConIn s)"
  define s1 where "s1 = s\<lparr>in_devices := w, mConIn := P1\<rparr>"
  have step: "poll_console env d (ks, s) = (ks1, s1)"
    by (auto simp: poll_console_def r ks1_def s1_def P1_def upd_in_def status_simps)
  have room: "CurrentNumberOfKeys (mConIn s) < length (KeyQueue (mConIn s))" using Cons.prems by simp
  have P1: "queue_only (mConIn s) P1" "CurrentNumberOfKeys P1 \<le> Suc (CurrentNumberOfKeys (mConIn s))"
      "keys_of P1 = keys_of (mConIn s) @ (if st = EFI_SUCCESS \<and> (VirtualKeyStateExported (mConIn s) \<or> \<not> is_null_key k) then [k] else [])"
    using queue_key_spec [OF room, of k] by (auto simp: P1_def queue_key_def)
  have "CurrentNumberOfKeys (mConIn s1) + length ds \<le> length (KeyQueue (mConIn s1))"
    using Cons.prems P1(2) queue_onlyD [OF P1(1)] by (simp add: s1_def)
  from Cons.IH [OF this, of ks1] obtain P where P:
    "fold (poll_console env) ds (ks1, s1) =
        (fst (polled_keys env (VirtualKeyStateExported P1) ds ks1 w),
         s1\<lparr>mConIn := P, in_devices := snd (snd (polled_keys env (VirtualKeyStateExported P1) ds ks1 w))\<rparr>)"
    "queue_only P1 P" "CurrentNumberOfKeys P \<le> CurrentNumberOfKeys P1 + length ds"
    "keys_of P = keys_of P1 @ fst (snd (polled_keys env (VirtualKeyStateExported P1) ds ks1 w))"
    by (auto simp: s1_def)
  have vis: "VirtualKeyStateExported P1 = VirtualKeyStateExported (mConIn s)" using queue_onlyD [OF P1(1)] by simp
  show ?case
    using P P1 queue_only_trans [OF P1(1) P(2)] step vis
    by (intro exI [of _ P]) (auto simp: r ks1_def s1_def status_simps Let_def split_beta)
qed

lemma set_states_fold:
  "n \<le> length q \<Longrightarrow> fold (\<lambda>i q. q[i := (q ! i)\<lparr>KeyState := ks\<rparr>]) [0..<n] q = map (with_state ks) (take n q) @ drop n q"
proof (induction n)
  case (Suc n)
  then have "drop n q = q ! n # drop (Suc n) q" by (simp add: Cons_nth_drop_Suc)
  with Suc show ?case
    by (simp add: take_Suc_conv_app_nth nth_append list_update_append with_state_def)
qed simp

lemma set_key_states_spec:
  "queue_ok P \<Longrightarrow> keys_of (set_key_states ks P) = map (with_state ks) (keys_of P) \<and> queue_only P (set_key_states ks P)
     \<and> CurrentNumberOfKeys (set_key_states ks P) = CurrentNumberOfKeys P"
  by (auto simp: set_key_states_def queue_ok_def keys_of_def set_states_fold)

section \<open>Reading with the extended protocol\<close>

definition connect_ok :: "'w in_env \<Rightarrow> bool" where
  "connect_ok env \<longleftrightarrow> (\<forall>s. conin_inv s \<longrightarrow> conin_inv (in_connect env s))"

lemma connect_inv: "connect_ok env \<Longrightarrow> conin_inv s \<Longrightarrow> conin_inv (connect_on_demand env s)"
  by (simp add: connect_ok_def connect_on_demand_def)

lemma conin_queue_ok: "conin_inv s \<Longrightarrow> queue_ok (mConIn s)"
  by (auto simp: conin_inv_def queue_ok_def Let_def)

text \<open>A read at the state the connect event leaves: saved keys first, else one poll.\<close>

definition read_point :: "'w in_env \<Rightarrow> 'w conin_state \<Rightarrow> 'w conin_state" where
  "read_point env s = connect_on_demand env (upd_in (\<lambda>P. P\<lparr>KeyEventSignalState := False\<rparr>) s)"

lemma read_point_inv: "connect_ok env \<Longrightarrow> conin_inv s \<Longrightarrow> conin_inv (read_point env s)"
  by (simp add: read_point_def connect_inv)

lemma read_ex_saved:
  assumes "conin_inv (read_point env s)" "queued (read_point env s) = k # ks"
  shows "\<exists>s'. ConSplitterTextInReadKeyStrokeEx env False s = (EFI_SUCCESS, Some k, s')
     \<and> queued s' = ks \<and> in_devices s' = in_devices (read_point env s) \<and> conin_inv s'
     \<and> mConInIsConnect s' = mConInIsConnect (read_point env s)"
proof -
  let ?s = "read_point env s"
  obtain P where P: "ConSplitterTextInExDequeueKey (mConIn ?s) = (EFI_SUCCESS, Some k, P)" "keys_of P = ks"
      "queue_only (mConIn ?s) P" "CurrentNumberOfKeys P = CurrentNumberOfKeys (mConIn ?s) - 1"
    using dequeue_spec [OF conin_queue_ok [OF assms(1)]] assms(2) by (auto simp: queued_def)
  have "CurrentNumberOfKeys P \<le> TextInExListCount P"
    using P(3,4) assms(1) queue_onlyD by (fastforce simp: conin_inv_def Let_def)
  then have "conin_inv (?s\<lparr>mConIn := P\<rparr>)" using queue_only_inv assms(1) P(3) by blast
  then show ?thesis
    using P by (simp add: ConSplitterTextInReadKeyStrokeEx_def read_point_def queued_def)
qed

lemma read_ex_poll:
  assumes inv: "conin_inv (read_point env s)" and empty: "queued (read_point env s) = []"
    and pk: "polled_keys env (VirtualKeyStateExported (mConIn (read_point env s))) (ex_devices (read_point env s))
        (KeyState null_key) (in_devices (read_point env s)) = (ks, keys, w)"
  shows "\<exists>s'. ConSplitterTextInReadKeyStrokeEx env False s =
        (if keys = [] then EFI_NOT_READY else EFI_SUCCESS,
         Some (if keys = [] then with_state ks null_key else with_state ks (hd keys)), s')
     \<and> queued s' = map (with_state ks) (tl keys) \<and> in_devices s' = w \<and> conin_inv s'
     \<and> mConInIsConnect s' = mConInIsConnect (read_point env s)"
proof -
  let ?s = "read_point env s"
  have none: "ConSplitterTextInExDequeueKey (mConIn ?s) = (EFI_NOT_FOUND, None, mConIn ?s)"
    using dequeue_spec [OF conin_queue_ok [OF inv]] empty by (simp add: queued_def)
  then have zero: "CurrentNumberOfKeys (mConIn ?s) = 0"
    by (auto simp: ConSplitterTextInExDequeueKey_def Let_def split: if_splits)
  have len: "length (ex_devices ?s) \<le> TextInExListCount (mConIn ?s)" "TextInExListCount (mConIn ?s) \<le> length (KeyQueue (mConIn ?s))"
    using inv by (auto simp: conin_inv_def ex_devices_def Let_def)
  obtain P where P: "fold (poll_console env) (ex_devices ?s) (KeyState null_key, ?s) = (ks, ?s\<lparr>mConIn := P, in_devices := w\<rparr>)"
      "queue_only (mConIn ?s) P" "CurrentNumberOfKeys P \<le> length (ex_devices ?s)" "keys_of P = keys"
    using poll_fold [of ?s "ex_devices ?s" env "KeyState null_key"] zero len pk empty
    by (auto simp: queued_def)
  define Q where "Q = set_key_states ks P"
  have room: "CurrentNumberOfKeys P \<le> TextInExListCount P" "queue_ok P"
    using P(3) len queue_onlyD [OF P(2)] by (simp_all add: queue_ok_def)
  have Q: "keys_of Q = map (with_state ks) keys" "queue_only (mConIn ?s) Q" "CurrentNumberOfKeys Q \<le> TextInExListCount Q" "queue_ok Q"
  proof -
    have S: "keys_of Q = map (with_state ks) (keys_of P)" "queue_only P Q" "CurrentNumberOfKeys Q = CurrentNumberOfKeys P"
      using set_key_states_spec [OF room(2), of ks] by (simp_all add: Q_def)
    show "keys_of Q = map (with_state ks) keys" using S(1) P(4) by simp
    show "queue_only (mConIn ?s) Q" using P(2) S(2) by (rule queue_only_trans)
    show "CurrentNumberOfKeys Q \<le> TextInExListCount Q" "queue_ok Q"
      using S(3) room queue_onlyD [OF S(2)] by (simp_all add: queue_ok_def)
  qed
  let ?t = "?s\<lparr>mConIn := Q, in_devices := w\<rparr>"
  have code: "ConSplitterTextInReadKeyStrokeEx env False s =
      (case ConSplitterTextInExDequeueKey Q of
         (EFI_SUCCESS, k, P) \<Rightarrow> (EFI_SUCCESS, k, ?t\<lparr>mConIn := P\<rparr>)
       | _ \<Rightarrow> (EFI_NOT_READY, Some (with_state ks null_key), ?t))"
  proof -
    have "upd_in (set_key_states ks) (?s\<lparr>mConIn := P, in_devices := w\<rparr>) = ?t" by (simp add: upd_in_def Q_def)
    then show ?thesis
      using none P(1)
      by (simp add: ConSplitterTextInReadKeyStrokeEx_def read_point_def [symmetric] with_state_def Let_def split: prod.split efi_status.split)
  qed
  have tinv: "conin_inv ?t"
    using queue_only_inv [OF inv Q(2,3)] conin_inv_devices(1) by simp
  show ?thesis
  proof (cases keys)
    case Nil
    then show ?thesis using dequeue_spec [OF Q(4)] Q(1) tinv code by (simp add: queued_def)
  next
    case (Cons k rest)
    then obtain R where R: "ConSplitterTextInExDequeueKey Q = (EFI_SUCCESS, Some (with_state ks k), R)"
        "keys_of R = map (with_state ks) rest" "queue_only Q R" "CurrentNumberOfKeys R = CurrentNumberOfKeys Q - 1"
      using dequeue_spec [OF Q(4)] Q(1) by auto
    have "CurrentNumberOfKeys R \<le> TextInExListCount R" using R(4) Q(3) queue_onlyD [OF R(3)] by simp
    then have "conin_inv (?t\<lparr>mConIn := R\<rparr>)" using queue_only_inv [OF tinv, of R] R(3) by simp
    then show ?thesis using code R Cons by (simp add: queued_def)
  qed
qed

section \<open>The lists of keyboards\<close>

lemma grow_in_cases:
  obtains (ok) a where "in_alloc env (in_allocs s) = Some a"
      "grow_in env junk m xs s = (EFI_SUCCESS, m + CONSOLE_SPLITTER_ALLOC_UNIT,
         take m xs @ replicate CONSOLE_SPLITTER_ALLOC_UNIT junk, s\<lparr>in_allocs := Suc (in_allocs s)\<rparr>)"
  | (fail) "in_alloc env (in_allocs s) = None"
      "grow_in env junk m xs s = (EFI_OUT_OF_RESOURCES, m, xs, s\<lparr>in_allocs := Suc (in_allocs s)\<rparr>)"
  by (cases "in_alloc env (in_allocs s)") (auto simp: grow_in_def ConSplitterGrowBuffer_def)

lemma ALLOC_UNIT_pos [simp]: "0 < CONSOLE_SPLITTER_ALLOC_UNIT" "Suc 0 \<le> CONSOLE_SPLITTER_ALLOC_UNIT"
  by (simp_all add: CONSOLE_SPLITTER_ALLOC_UNIT_def)

lemma text_in_add:
  assumes "conin_inv s"
  shows "conin_inv (snd (ConSplitterTextInAddDevice env d s))"
    and "text_in_devices (snd (ConSplitterTextInAddDevice env d s)) =
      (if EFI_ERROR (fst (ConSplitterTextInAddDevice env d s)) then text_in_devices s else text_in_devices s @ [d])"
proof -
  let ?P = "mConIn s"
  have inv: "length (TextInList ?P) = TextInListCount ?P" "CurrentNumberOfConsoles ?P \<le> TextInListCount ?P"
    using assms by (auto simp: conin_inv_def Let_def)
  have "conin_inv (snd (ConSplitterTextInAddDevice env d s)) \<and>
    text_in_devices (snd (ConSplitterTextInAddDevice env d s)) =
      (if EFI_ERROR (fst (ConSplitterTextInAddDevice env d s)) then text_in_devices s else text_in_devices s @ [d])"
  proof (cases "TextInListCount ?P \<le> CurrentNumberOfConsoles ?P")
    case True
    then show ?thesis using assms inv
      by (cases rule: grow_in_cases [where env = env and s = s and junk = "junk_device env"
            and m = "TextInListCount ?P" and xs = "TextInList ?P"])
        (auto simp: ConSplitterTextInAddDevice_def Let_def conin_inv_def text_in_devices_def in_upd_defs
          status_simps take_Suc_conv_app_nth list_update_append nth_append)
  next
    case False
    then show ?thesis using assms inv
      by (auto simp: ConSplitterTextInAddDevice_def Let_def conin_inv_def text_in_devices_def in_upd_defs
          take_Suc_conv_app_nth)
  qed
  then show "conin_inv (snd (ConSplitterTextInAddDevice env d s))"
    "text_in_devices (snd (ConSplitterTextInAddDevice env d s)) =
      (if EFI_ERROR (fst (ConSplitterTextInAddDevice env d s)) then text_in_devices s else text_in_devices s @ [d])"
    by simp_all
qed

lemma text_in_del:
  assumes "conin_inv s"
  shows "conin_inv (snd (ConSplitterTextInDeleteDevice d s))"
    "text_in_devices (snd (ConSplitterTextInDeleteDevice d s)) = remove1 d (text_in_devices s)"
    "fst (ConSplitterTextInDeleteDevice d s) = (if d \<in> set (text_in_devices s) then EFI_SUCCESS else EFI_NOT_FOUND)"
proof -
  let ?P = "mConIn s"
  have inv: "CurrentNumberOfConsoles ?P \<le> length (TextInList ?P)"
    using assms by (auto simp: conin_inv_def Let_def)
  note some = delete_entry_some [OF inv, of d] and none = delete_entry_none [OF inv, of d]
  show "conin_inv (snd (ConSplitterTextInDeleteDevice d s))"
    "text_in_devices (snd (ConSplitterTextInDeleteDevice d s)) = remove1 d (text_in_devices s)"
    "fst (ConSplitterTextInDeleteDevice d s) = (if d \<in> set (text_in_devices s) then EFI_SUCCESS else EFI_NOT_FOUND)"
    using assms some none
    by (auto simp: ConSplitterTextInDeleteDevice_def text_in_devices_def conin_inv_def upd_in_def Let_def
        remove1_idem split: option.splits)
qed

interpretation text_in_list: device_list "ConSplitterTextInAddDevice env" ConSplitterTextInDeleteDevice
    text_in_devices conin_inv for env :: "'w in_env"
  by unfold_locales (auto simp: text_in_add text_in_del)

lemma handles_ok_update:
  "handles_ok n (xs @ y # ys) \<Longrightarrow> handles_ok n (xs @ y\<lparr>NotifyHandleList := (NotifyHandleList y)[i := h]\<rparr> # ys)"
  by (auto simp: handles_ok_def)

lemma register_notifies_lengths:
  "handles_ok n (done @ ns) \<Longrightarrow> handles_ok n (fst (snd (register_notifies env dev pos done ns w)))"
proof (induction ns arbitrary: "done" w)
  case (Cons x ns)
  then show ?case
    using handles_ok_update [OF Cons.prems, of pos]
    by (auto simp: Let_def split_beta intro!: Cons.IH)
qed simp

lemma grow_handles_spec:
  assumes "handles_ok Count ns" and "grow_handle_lists env Count ns s = (st, ns', s')"
  shows "handles_ok Count ns' \<and> (st = EFI_SUCCESS \<longrightarrow> handles_ok (Count + CONSOLE_SPLITTER_ALLOC_UNIT) ns')
     \<and> (\<exists>n. s' = s\<lparr>in_allocs := n\<rparr>)"
  using assms
proof (induction ns arbitrary: s ns' s' st)
  case Nil
  then show ?case by (auto simp: handles_ok_def intro!: exI [of _ "in_allocs s"])
next
  case (Cons x ns)
  show ?case
  proof (cases rule: grow_in_cases [where env = env and s = s and junk = "junk_handle env" and m = Count and xs = "NotifyHandleList x"])
    case (ok a)
    obtain st1 ns1 s1 where g: "grow_handle_lists env Count ns (s\<lparr>in_allocs := Suc (in_allocs s)\<rparr>) = (st1, ns1, s1)"
      by (metis prod_cases3)
    have "handles_ok Count ns" using Cons.prems by (simp add: handles_ok_def)
    from Cons.IH [OF this g] show ?thesis
      using Cons.prems ok(2) g by (auto simp: handles_ok_def)
  next
    case fail
    then show ?thesis using Cons.prems by (auto simp: status_simps)
  qed
qed

lemma grow_ex_spec:
  assumes inv: "conin_inv s"
  shows "conin_inv (snd (grow_ex_tables env s)) \<and> ex_devices (snd (grow_ex_tables env s)) = ex_devices s
     \<and> CurrentNumberOfExConsoles (mConIn (snd (grow_ex_tables env s))) = CurrentNumberOfExConsoles (mConIn s)
     \<and> (fst (grow_ex_tables env s) = EFI_SUCCESS \<longrightarrow>
          CurrentNumberOfExConsoles (mConIn s) < TextInExListCount (mConIn (snd (grow_ex_tables env s))))"
proof -
  let ?P = "mConIn s" and ?n = "TextInExListCount (mConIn s)"
  have P: "length (TextInList ?P) = TextInListCount ?P" "CurrentNumberOfConsoles ?P \<le> TextInListCount ?P"
     "length (TextInExList ?P) = ?n" "CurrentNumberOfExConsoles ?P \<le> ?n"
     "?n \<le> length (KeyQueue ?P)" "CurrentNumberOfKeys ?P \<le> ?n" "handles_ok ?n (SplitterNotifyList ?P)"
     "length (PointerList ?P) = PointerListCount ?P" "CurrentNumberOfPointers ?P \<le> PointerListCount ?P"
     "length (AbsolutePointerList ?P) = AbsolutePointerListCount ?P"
     "CurrentNumberOfAbsolutePointers ?P \<le> AbsolutePointerListCount ?P"
    using inv by (auto simp: conin_inv_def Let_def)
  have room: "CurrentNumberOfExConsoles ?P < ?n + CONSOLE_SPLITTER_ALLOC_UNIT"
    using P(4) ALLOC_UNIT_pos(1) by linarith
  obtain st ns s1 where g: "grow_handle_lists env ?n (SplitterNotifyList ?P) s = (st, ns, s1)" by (metis prod_cases3)
  obtain n where h: "handles_ok ?n ns" "st = EFI_SUCCESS \<longrightarrow> handles_ok (?n + CONSOLE_SPLITTER_ALLOC_UNIT) ns" "s1 = s\<lparr>in_allocs := n\<rparr>"
    using grow_handles_spec [OF P(7) g] by blast
  show ?thesis
  proof (cases "st = EFI_SUCCESS")
    case False
    then show ?thesis using P h g
      by (simp add: grow_ex_tables_def upd_in_def conin_inv_def ex_devices_def Let_def status_simps)
  next
    case True
    let ?s = "upd_in (\<lambda>P. P\<lparr>SplitterNotifyList := ns\<rparr>) s1"
    show ?thesis
    proof (cases rule: grow_in_cases [where env = env and s = ?s and junk = "junk_key env" and m = ?n and xs = "KeyQueue ?P"])
      case fail
      then show ?thesis using P h g True
        by (simp add: grow_ex_tables_def upd_in_def conin_inv_def ex_devices_def Let_def status_simps)
    next
      case (ok a)
      note q = ok
      let ?t = "upd_in (\<lambda>P. P\<lparr>KeyQueue := take ?n (KeyQueue ?P) @ replicate CONSOLE_SPLITTER_ALLOC_UNIT (junk_key env)\<rparr>)
          (?s\<lparr>in_allocs := Suc (in_allocs ?s)\<rparr>)"
      show ?thesis
        by (cases rule: grow_in_cases [where env = env and s = ?t and junk = "junk_device env" and m = ?n and xs = "TextInExList ?P"])
          (use P h g True q room in \<open>simp_all add: grow_ex_tables_def upd_in_def conin_inv_def ex_devices_def Let_def status_simps\<close>)
    qed
  qed
qed

lemma ex_add:
  assumes "conin_inv s"
  shows "conin_inv (snd (ConSplitterTextInExAddDevice env d s)) \<and>
    ex_devices (snd (ConSplitterTextInExAddDevice env d s)) =
      (if EFI_ERROR (fst (ConSplitterTextInExAddDevice env d s)) then ex_devices s else ex_devices s @ [d])"
proof -
  obtain st s1 where g: "(if TextInExListCount (mConIn s) \<le> CurrentNumberOfExConsoles (mConIn s)
      then grow_ex_tables env s else (EFI_SUCCESS, s)) = (st, s1)" by fastforce
  let ?P = "mConIn s1"
  have s1: "conin_inv s1" "ex_devices s1 = ex_devices s"
      "st = EFI_SUCCESS \<Longrightarrow> CurrentNumberOfExConsoles ?P < TextInExListCount ?P"
    using g grow_ex_spec [OF assms, of env] assms by (auto split: if_splits)
  show ?thesis
  proof (cases "st = EFI_SUCCESS")
    case False
    then show ?thesis using g s1 by (simp add: ConSplitterTextInExAddDevice_def status_simps)
  next
    case True
    define pos where "pos = CurrentNumberOfExConsoles ?P"
    obtain st2 ns w where r: "register_notifies env d pos [] (SplitterNotifyList ?P) (in_devices s1) = (st2, ns, w)"
      by (metis prod_cases3)
    have P: "handles_ok (TextInExListCount ?P) (SplitterNotifyList ?P)" "pos < length (TextInExList ?P)"
      using s1 True by (auto simp: conin_inv_def Let_def pos_def)
    have ns: "handles_ok (TextInExListCount ?P) ns"
      using register_notifies_lengths [of "TextInExListCount ?P" "[]" "SplitterNotifyList ?P" env d pos "in_devices s1"] P r
      by simp
    have code: "ConSplitterTextInExAddDevice env d s =
       (let s2 = upd_in (\<lambda>P. P\<lparr>SplitterNotifyList := ns\<rparr>) (s1\<lparr>in_devices := w\<rparr>)
        in if EFI_ERROR st2 then (st2, s2)
           else let s3 = upd_in (\<lambda>P. P\<lparr>TextInExList := (TextInExList P)[pos := d], CurrentNumberOfExConsoles := pos + 1\<rparr>) s2;
                    w1 = snd (ex_set_state env d (PhysicalKeyToggleState (mConIn s3)) (in_devices s3))
                in (EFI_SUCCESS, s3\<lparr>in_devices := snd (ex_check env d w1)\<rparr>))"
      using g True r by (simp add: ConSplitterTextInExAddDevice_def pos_def Let_def)
    show ?thesis
    proof (cases "EFI_ERROR st2")
      case True
      then show ?thesis using code s1(1,2) ns
        by (simp add: upd_in_def conin_inv_def ex_devices_def Let_def)
    next
      case False
      then show ?thesis using code s1(1,2) s1(3) [OF True] ns P(2)
        by (simp add: upd_in_def conin_inv_def ex_devices_def Let_def pos_def take_Suc_conv_app_nth)
    qed
  qed
qed

lemma ex_del:
  assumes "conin_inv s"
  shows "conin_inv (snd (ConSplitterTextInExDeleteDevice d s))"
    "ex_devices (snd (ConSplitterTextInExDeleteDevice d s)) = remove1 d (ex_devices s)"
    "fst (ConSplitterTextInExDeleteDevice d s) = (if d \<in> set (ex_devices s) then EFI_SUCCESS else EFI_NOT_FOUND)"
proof -
  let ?P = "mConIn s"
  have inv: "CurrentNumberOfExConsoles ?P \<le> length (TextInExList ?P)"
    using assms by (auto simp: conin_inv_def Let_def)
  note some = delete_entry_some [OF inv, of d] and none = delete_entry_none [OF inv, of d]
  show "conin_inv (snd (ConSplitterTextInExDeleteDevice d s))"
    "ex_devices (snd (ConSplitterTextInExDeleteDevice d s)) = remove1 d (ex_devices s)"
    "fst (ConSplitterTextInExDeleteDevice d s) = (if d \<in> set (ex_devices s) then EFI_SUCCESS else EFI_NOT_FOUND)"
    using assms some none
    by (auto simp: ConSplitterTextInExDeleteDevice_def ex_devices_def conin_inv_def upd_in_def Let_def
        remove1_idem split: option.splits)
qed

interpretation ex_list: device_list "ConSplitterTextInExAddDevice env" ConSplitterTextInExDeleteDevice
    ex_devices conin_inv for env :: "'w in_env"
  by unfold_locales (auto simp: ex_add ex_del)

section \<open>Every operation keeps the tables in shape\<close>

lemma private_read_inv:
  assumes "conin_inv s" "ConSplitterTextInPrivateReadKeyStroke env s = Some (st, k, s')"
  shows "conin_inv s'"
proof -
  obtain P where P: "queue_only (mConIn s) P" "CurrentNumberOfKeys P \<le> CurrentNumberOfKeys (mConIn s)"
      "snd (snd (dequeue_real (junk_key env) (mConIn s))) = P"
    using dequeue_real_spec [OF conin_queue_ok [OF assms(1)], of "junk_key env"]
    by (cases "dropWhile is_null_key (keys_of (mConIn s))") auto
  have "CurrentNumberOfKeys P \<le> TextInExListCount P"
    using P(2) assms(1) queue_onlyD [OF P(1)] by (auto simp: conin_inv_def Let_def)
  then have "conin_inv (s\<lparr>mConIn := P\<rparr>)" using queue_only_inv assms(1) P(1) by blast
  moreover have "(\<exists>w. s' = s\<lparr>mConIn := P, in_devices := w\<rparr>) \<or> s' = s\<lparr>mConIn := P\<rparr>"
    using assms(2) P(3) by (auto simp: ConSplitterTextInPrivateReadKeyStroke_def Let_def split_beta split: if_splits)
  ultimately show ?thesis using conin_inv_devices(1) by metis
qed

lemma read_inv:
  "connect_ok env \<Longrightarrow> conin_inv s \<Longrightarrow> ConSplitterTextInReadKeyStroke env s = Some (st, k, s') \<Longrightarrow> conin_inv s'"
  using private_read_inv [OF read_point_inv, of env s] by (simp add: ConSplitterTextInReadKeyStroke_def read_point_def)

lemma read_ex_inv:
  assumes "connect_ok env" "conin_inv s"
  shows "conin_inv (snd (snd (ConSplitterTextInReadKeyStrokeEx env b s)))"
proof (cases b)
  case True
  then show ?thesis using assms by (simp add: ConSplitterTextInReadKeyStrokeEx_def)
next
  case False
  have inv: "conin_inv (read_point env s)" using assms by (rule read_point_inv)
  show ?thesis
  proof (cases "queued (read_point env s)")
    case Nil
    obtain ks keys w where "polled_keys env (VirtualKeyStateExported (mConIn (read_point env s))) (ex_devices (read_point env s))
        (KeyState null_key) (in_devices (read_point env s)) = (ks, keys, w)" by (metis prod_cases3)
    from read_ex_poll [OF inv Nil this] False show ?thesis by auto
  next
    case (Cons k ks)
    from read_ex_saved [OF inv Cons] False show ?thesis by auto
  qed
qed

lemma wait_fold_inv: "conin_inv s \<Longrightarrow> conin_inv (fold (wait_console env e) ds s)"
  by (induction ds arbitrary: s) (simp_all add: wait_console_def Let_def split_beta)

lemma wait_inv: "conin_inv s \<Longrightarrow> conin_inv (ConSplitterTextInWaitForKey env e s)"
  by (simp add: ConSplitterTextInWaitForKey_def wait_fold_inv)

lemma set_state_inv: "conin_inv s \<Longrightarrow> conin_inv (snd (ConSplitterTextInSetState env t s))"
  by (cases t) (simp_all add: ConSplitterTextInSetState_def Let_def split_beta)

lemma register_all_length: "length (fst (snd (snd (register_all env k f ds i hs w)))) = length hs"
  by (induction ds arbitrary: i hs w) (simp_all add: Let_def split_beta)

lemma handles_ok_append [simp]: "handles_ok n (xs @ ys) \<longleftrightarrow> handles_ok n xs \<and> handles_ok n ys"
  by (simp add: handles_ok_def)

lemma handles_ok_remove1: "handles_ok n ns \<Longrightarrow> handles_ok n (remove1 x ns)"
  using set_remove1_subset [of x ns] by (auto simp: handles_ok_def list_all_iff)

lemma register_inv:
  assumes "conin_inv s"
  shows "conin_inv (snd (snd (ConSplitterTextInRegisterKeyNotify env k f b s)))"
proof -
  have "handles_ok (TextInExListCount (mConIn s)) [\<lparr>NotifyAddress = a, NotifyHandleList = fst (snd (snd
      (register_all env kd fn (ex_devices s) 0 (replicate (TextInExListCount (mConIn s)) None) w))),
      SplitterKeyData = kd, SplitterNotificationFn = fn\<rparr>]" for a kd fn w
    by (simp add: handles_ok_def register_all_length)
  then show ?thesis using assms
    by (auto simp: ConSplitterTextInRegisterKeyNotify_def Let_def split_beta upd_in_def conin_inv_def
        split: option.splits)
qed

lemma unregister_inv: "conin_inv s \<Longrightarrow> conin_inv (snd (ConSplitterTextInUnregisterKeyNotify env h s))"
  by (auto simp: ConSplitterTextInUnregisterKeyNotify_def in_upd_defs conin_inv_def Let_def handles_ok_remove1
      split: option.splits)

lemma pointer_add:
  assumes "conin_inv s"
  shows "conin_inv (snd (ConSplitterSimplePointerAddDevice env d s)) \<and>
    pointer_devices (snd (ConSplitterSimplePointerAddDevice env d s)) =
      (if EFI_ERROR (fst (ConSplitterSimplePointerAddDevice env d s)) then pointer_devices s else pointer_devices s @ [d])"
proof -
  let ?P = "mConIn s"
  have inv: "length (PointerList ?P) = PointerListCount ?P" "CurrentNumberOfPointers ?P \<le> PointerListCount ?P"
    using assms by (auto simp: conin_inv_def Let_def)
  show ?thesis
  proof (cases "PointerListCount ?P \<le> CurrentNumberOfPointers ?P")
    case True
    then show ?thesis using assms inv
      by (cases rule: grow_in_cases [where env = env and s = s and junk = "junk_device env"
            and m = "PointerListCount ?P" and xs = "PointerList ?P"])
        (auto simp: ConSplitterSimplePointerAddDevice_def Let_def conin_inv_def pointer_devices_def in_upd_defs
          status_simps take_Suc_conv_app_nth list_update_append nth_append)
  next
    case False
    then show ?thesis using assms inv
      by (auto simp: ConSplitterSimplePointerAddDevice_def Let_def conin_inv_def pointer_devices_def in_upd_defs
          take_Suc_conv_app_nth)
  qed
qed

lemma absolute_add:
  assumes "conin_inv s"
  shows "conin_inv (snd (ConSplitterAbsolutePointerAddDevice env d s)) \<and>
    absolute_devices (snd (ConSplitterAbsolutePointerAddDevice env d s)) =
      (if EFI_ERROR (fst (ConSplitterAbsolutePointerAddDevice env d s)) then absolute_devices s else absolute_devices s @ [d])"
proof -
  let ?P = "mConIn s"
  have inv: "length (AbsolutePointerList ?P) = AbsolutePointerListCount ?P"
      "CurrentNumberOfAbsolutePointers ?P \<le> AbsolutePointerListCount ?P"
    using assms by (auto simp: conin_inv_def Let_def)
  show ?thesis
  proof (cases "AbsolutePointerListCount ?P \<le> CurrentNumberOfAbsolutePointers ?P")
    case True
    then show ?thesis using assms inv
      by (cases rule: grow_in_cases [where env = env and s = s and junk = "junk_device env"
            and m = "AbsolutePointerListCount ?P" and xs = "AbsolutePointerList ?P"])
        (auto simp: ConSplitterAbsolutePointerAddDevice_def Let_def conin_inv_def absolute_devices_def in_upd_defs
          status_simps take_Suc_conv_app_nth list_update_append nth_append)
  next
    case False
    then show ?thesis using assms inv
      by (auto simp: ConSplitterAbsolutePointerAddDevice_def Let_def conin_inv_def absolute_devices_def in_upd_defs
          take_Suc_conv_app_nth)
  qed
qed

lemma pointer_del:
  assumes "conin_inv s"
  shows "conin_inv (snd (ConSplitterSimplePointerDeleteDevice d s))"
    "pointer_devices (snd (ConSplitterSimplePointerDeleteDevice d s)) = remove1 d (pointer_devices s)"
    "fst (ConSplitterSimplePointerDeleteDevice d s) = (if d \<in> set (pointer_devices s) then EFI_SUCCESS else EFI_NOT_FOUND)"
proof -
  have inv: "CurrentNumberOfPointers (mConIn s) \<le> length (PointerList (mConIn s))"
    using assms by (auto simp: conin_inv_def Let_def)
  show "conin_inv (snd (ConSplitterSimplePointerDeleteDevice d s))"
    "pointer_devices (snd (ConSplitterSimplePointerDeleteDevice d s)) = remove1 d (pointer_devices s)"
    "fst (ConSplitterSimplePointerDeleteDevice d s) = (if d \<in> set (pointer_devices s) then EFI_SUCCESS else EFI_NOT_FOUND)"
    using assms delete_entry_some [OF inv, of d] delete_entry_none [OF inv, of d]
    by (auto simp: ConSplitterSimplePointerDeleteDevice_def pointer_devices_def conin_inv_def upd_in_def Let_def
        remove1_idem split: option.splits)
qed

lemma absolute_del:
  assumes "conin_inv s"
  shows "conin_inv (snd (ConSplitterAbsolutePointerDeleteDevice d s))"
    "absolute_devices (snd (ConSplitterAbsolutePointerDeleteDevice d s)) = remove1 d (absolute_devices s)"
    "fst (ConSplitterAbsolutePointerDeleteDevice d s) = (if d \<in> set (absolute_devices s) then EFI_SUCCESS else EFI_NOT_FOUND)"
proof -
  have inv: "CurrentNumberOfAbsolutePointers (mConIn s) \<le> length (AbsolutePointerList (mConIn s))"
    using assms by (auto simp: conin_inv_def Let_def)
  show "conin_inv (snd (ConSplitterAbsolutePointerDeleteDevice d s))"
    "absolute_devices (snd (ConSplitterAbsolutePointerDeleteDevice d s)) = remove1 d (absolute_devices s)"
    "fst (ConSplitterAbsolutePointerDeleteDevice d s) = (if d \<in> set (absolute_devices s) then EFI_SUCCESS else EFI_NOT_FOUND)"
    using assms delete_entry_some [OF inv, of d] delete_entry_none [OF inv, of d]
    by (auto simp: ConSplitterAbsolutePointerDeleteDevice_def absolute_devices_def conin_inv_def upd_in_def Let_def
        remove1_idem split: option.splits)
qed

interpretation pointer_list: device_list "ConSplitterSimplePointerAddDevice env" ConSplitterSimplePointerDeleteDevice
    pointer_devices conin_inv for env :: "'w in_env"
  by unfold_locales (auto simp: pointer_add pointer_del)

interpretation absolute_list: device_list "ConSplitterAbsolutePointerAddDevice env" ConSplitterAbsolutePointerDeleteDevice
    absolute_devices conin_inv for env :: "'w in_env"
  by unfold_locales (auto simp: absolute_add absolute_del)

lemma pointer_ops_inv:
  "conin_inv s \<Longrightarrow> conin_inv (snd (ConSplitterSimplePointerReset env b s))"
  "conin_inv s \<Longrightarrow> conin_inv (snd (ConSplitterAbsolutePointerReset env b s))"
  "conin_inv s \<Longrightarrow> ConSplitterSimplePointerGetState env s = Some (st, S, s') \<Longrightarrow> conin_inv s'"
  "conin_inv s \<Longrightarrow> ConSplitterAbsolutePointerGetState env s = Some (st, A, s') \<Longrightarrow> conin_inv s'"
  by (auto simp: ConSplitterSimplePointerReset_def ConSplitterAbsolutePointerReset_def
      ConSplitterSimplePointerGetState_def ConSplitterSimplePointerPrivateGetState_def
      ConSplitterAbsolutePointerGetState_def Let_def split_beta)

lemma wait_pointer_inv:
  fixes s :: "'w conin_state"
  assumes "\<And>s :: 'w conin_state. conin_inv (upd_in flag s) = conin_inv s"
  shows "conin_inv s \<Longrightarrow> conin_inv (fold (wait_pointer check flag e) ds s)"
  by (induction ds arbitrary: s) (simp_all add: wait_pointer_def assms Let_def split_beta)

lemma pointer_wait_inv:
  "conin_inv s \<Longrightarrow> conin_inv (ConSplitterSimplePointerWaitForInput env e s)"
  "conin_inv s \<Longrightarrow> conin_inv (ConSplitterAbsolutePointerWaitForInput env e s)"
  by (simp_all add: ConSplitterSimplePointerWaitForInput_def ConSplitterAbsolutePointerWaitForInput_def wait_pointer_inv)

lemma template_inv: "mConIn s = mConIn_template \<Longrightarrow> conin_inv s"
  by (simp add: conin_inv_def mConIn_template_def handles_ok_def)

text \<open>The constructor leaves the tables in shape, whichever allocation fails.\<close>

lemma toggle_init_inv: "conin_inv s \<Longrightarrow> conin_inv (ToggleStateSyncInitialization env f s)"
  by (simp add: ToggleStateSyncInitialization_def register_inv)

lemma grow_in_expand:
  "grow_in env junk m xs s = (let ok = in_alloc env (in_allocs s) \<noteq> None in
     (if ok then EFI_SUCCESS else EFI_OUT_OF_RESOURCES,
      if ok then m + CONSOLE_SPLITTER_ALLOC_UNIT else m,
      if ok then take m xs @ replicate CONSOLE_SPLITTER_ALLOC_UNIT junk else xs, s\<lparr>in_allocs := Suc (in_allocs s)\<rparr>))"
  by (auto simp: grow_in_def ConSplitterGrowBuffer_def Let_def)

lemma construct_keyboard_inv:
  assumes "mConIn s = mConIn_template"
  shows "conin_inv (snd (construct_keyboard env f s))"
proof -
  let ?G = CONSOLE_SPLITTER_ALLOC_UNIT and ?T = "\<lambda>j. replicate CONSOLE_SPLITTER_ALLOC_UNIT j"
  let ?P1 = "mConIn_template\<lparr>TextInListCount := ?G, TextInList := ?T (junk_device env)\<rparr>"
  let ?P2 = "?P1\<lparr>KeyQueue := ?T (junk_key env)\<rparr>"
  let ?P3 = "?P2\<lparr>TextInExListCount := ?G, TextInExList := ?T (junk_device env), SplitterNotifyList := []\<rparr>"
  have shape: "conin_inv (s\<lparr>in_allocs := n\<rparr>)" "conin_inv (s\<lparr>in_allocs := n, mConIn := ?P1\<rparr>)"
      "conin_inv (s\<lparr>mConIn := ?P1\<rparr>)" "conin_inv (s\<lparr>mConIn := ?P2\<rparr>)"
      "conin_inv (s\<lparr>in_allocs := n, mConIn := ?P3\<rparr>)" for n
    by (simp_all add: conin_inv_def assms mConIn_template_def handles_ok_def)
  have zero: "TextInListCount mConIn_template = 0" "TextInExListCount mConIn_template = 0"
    by (simp_all add: mConIn_template_def)
  show ?thesis
    using shape toggle_init_inv [OF shape(5)]
    by (simp add: construct_keyboard_def grow_in_expand Let_def upd_in_def assms zero status_simps)
qed

lemma construct_pointers_inv:
  "conin_inv s \<Longrightarrow> conin_inv (snd (construct_pointers env s))"
  by (simp add: construct_pointers_def grow_in_expand Let_def upd_in_def conin_inv_def status_simps)

lemma constructor_inv:
  "mConIn s = mConIn_template \<Longrightarrow> conin_inv (snd (ConSplitterTextInConstructor env f s))"
  by (simp add: ConSplitterTextInConstructor_def Let_def split_beta construct_keyboard_inv construct_pointers_inv)

section \<open>Any sequence of operations\<close>

inductive in_step :: "'w in_env \<Rightarrow> 'w conin_state \<Rightarrow> 'w conin_state \<Rightarrow> bool" for env where
  Reset: "in_step env s (snd (ConSplitterTextInReset env b s))"
| ResetEx: "in_step env s (snd (ConSplitterTextInResetEx env b s))"
| ReadKeyStroke: "ConSplitterTextInReadKeyStroke env s = Some (st, k, s') \<Longrightarrow> in_step env s s'"
| ReadKeyStrokeEx: "in_step env s (snd (snd (ConSplitterTextInReadKeyStrokeEx env b s)))"
| WaitForKey: "in_step env s (ConSplitterTextInWaitForKey env e s)"
| SetState: "in_step env s (snd (ConSplitterTextInSetState env t s))"
| Register: "in_step env s (snd (snd (ConSplitterTextInRegisterKeyNotify env k f b s)))"
| Unregister: "in_step env s (snd (ConSplitterTextInUnregisterKeyNotify env h s))"
| Notify: "in_step env s (snd (ToggleStateSyncKeyNotify env kd s))"
| AddTextIn: "in_step env s (snd (ConSplitterTextInAddDevice env d s))"
| DeleteTextIn: "in_step env s (snd (ConSplitterTextInDeleteDevice d s))"
| AddTextInEx: "in_step env s (snd (ConSplitterTextInExAddDevice env d s))"
| DeleteTextInEx: "in_step env s (snd (ConSplitterTextInExDeleteDevice d s))"
| AddPointer: "in_step env s (snd (ConSplitterSimplePointerAddDevice env d s))"
| DeletePointer: "in_step env s (snd (ConSplitterSimplePointerDeleteDevice d s))"
| AddAbsolute: "in_step env s (snd (ConSplitterAbsolutePointerAddDevice env d s))"
| DeleteAbsolute: "in_step env s (snd (ConSplitterAbsolutePointerDeleteDevice d s))"
| PointerReset: "in_step env s (snd (ConSplitterSimplePointerReset env b s))"
| AbsoluteReset: "in_step env s (snd (ConSplitterAbsolutePointerReset env b s))"
| PointerGetState: "ConSplitterSimplePointerGetState env s = Some (st, S, s') \<Longrightarrow> in_step env s s'"
| AbsoluteGetState: "ConSplitterAbsolutePointerGetState env s = Some (st, A, s') \<Longrightarrow> in_step env s s'"
| PointerWait: "in_step env s (ConSplitterSimplePointerWaitForInput env e s)"
| AbsoluteWait: "in_step env s (ConSplitterAbsolutePointerWaitForInput env e s)"

inductive in_reachable :: "'w in_env \<Rightarrow> notify_fn \<Rightarrow> 'w conin_state \<Rightarrow> bool" for env f where
  constructed: "mConIn s = mConIn_template \<Longrightarrow> in_reachable env f (snd (ConSplitterTextInConstructor env f s))"
| step: "in_reachable env f s \<Longrightarrow> in_step env s s' \<Longrightarrow> in_reachable env f s'"

lemma in_step_inv: "in_step env s s' \<Longrightarrow> connect_ok env \<Longrightarrow> conin_inv s \<Longrightarrow> conin_inv s'"
  by (induction rule: in_step.induct)
    (auto intro: reset_inv read_inv read_ex_inv wait_inv set_state_inv register_inv unregister_inv sync_notify_inv
      text_in_list.add_inv text_in_list.del_inv ex_list.add_inv ex_list.del_inv
      pointer_list.add_inv pointer_list.del_inv absolute_list.add_inv absolute_list.del_inv pointer_ops_inv pointer_wait_inv)

text \<open>C2: whatever operations are called in whatever order after the constructor, and whichever
  allocations fail, every table of the input splitter stays within its allocation: the four
  device lists, the key queue (which has room for one key of every keyboard, so that no poll
  writes behind it) and the handle list of every notification (which has an entry for every
  keyboard that can be added before the next growth).\<close>

theorem conin_reachable_in_bounds:
  assumes "connect_ok env" and "in_reachable env f s"
  shows "length (ex_devices s) \<le> length (KeyQueue (mConIn s))
     \<and> length (queued s) = CurrentNumberOfKeys (mConIn s)
     \<and> length (ex_devices s) = CurrentNumberOfExConsoles (mConIn s)
     \<and> length (text_in_devices s) = CurrentNumberOfConsoles (mConIn s)
     \<and> length (pointer_devices s) = CurrentNumberOfPointers (mConIn s)
     \<and> length (absolute_devices s) = CurrentNumberOfAbsolutePointers (mConIn s)
     \<and> (\<forall>n \<in> set (SplitterNotifyList (mConIn s)). TextInExListCount (mConIn s) \<le> length (NotifyHandleList n))
     \<and> CurrentNumberOfExConsoles (mConIn s) \<le> TextInExListCount (mConIn s)"
proof -
  from assms(2) have "conin_inv s"
    by induction (auto intro: constructor_inv in_step_inv [OF _ assms(1)])
  then show ?thesis
    by (auto simp: conin_inv_def Let_def ex_devices_def text_in_devices_def pointer_devices_def
        absolute_devices_def queued_def keys_of_def handles_ok_def list_all_iff)
qed

section \<open>A concrete world of keyboards\<close>

text \<open>Keyboards with a list of pending keys, which answer every other call with success.\<close>

definition ex_in_env :: "(nat \<Rightarrow> EFI_KEY_DATA list) in_env" where
  "ex_in_env = \<lparr>in_reset = (\<lambda>d b w. (EFI_SUCCESS, w)), in_read = (\<lambda>d k w. (EFI_NOT_READY, k, w)),
     in_check = (\<lambda>d w. (EFI_NOT_READY, w)), ex_reset = (\<lambda>d b w. (EFI_SUCCESS, w)),
     ex_read = (\<lambda>d k w. case w d of [] \<Rightarrow> (EFI_NOT_READY, k, w) | x # xs \<Rightarrow> (EFI_SUCCESS, x, w(d := xs))),
     ex_check = (\<lambda>d w. (EFI_NOT_READY, w)), ex_set_state = (\<lambda>d t w. (EFI_SUCCESS, w)),
     ex_register = (\<lambda>d k f h w. (EFI_SUCCESS, Some d, w)), ex_unregister = (\<lambda>d h w. (EFI_SUCCESS, w)),
     sp_reset = (\<lambda>d b w. (EFI_SUCCESS, w)), sp_state = (\<lambda>d S w. (EFI_NOT_READY, S, w)),
     sp_mode = (\<lambda>d w. \<lparr>ResolutionX = 1, ResolutionY = 1, ResolutionZ = 1\<rparr>), sp_check = (\<lambda>d w. (EFI_NOT_READY, w)),
     ap_reset = (\<lambda>d b w. (EFI_SUCCESS, w)), ap_state = (\<lambda>d S w. (EFI_NOT_READY, S, w)),
     ap_mode = (\<lambda>d w. AbsolutePointerMode mConIn_template), ap_check = (\<lambda>d w. (EFI_NOT_READY, w)),
     in_alloc = Some, in_create_event = EFI_SUCCESS, in_connect = (\<lambda>s. s), pcdConInConnectOnDemand = False,
     junk_handle = None, junk_key = null_key, junk_device = 0, junk_sp = no_movement,
     junk_ap = \<lparr>CurrentX = 0, CurrentY = 0, CurrentZ = 0, ActiveButtons = 0\<rparr>\<rparr>"

definition ex_in_state :: "(nat \<Rightarrow> EFI_KEY_DATA list) conin_state" where
  "ex_in_state = \<lparr>mConIn = mConIn_template, mConInIsConnect = False, in_allocs = 0, signals = [], in_devices = (\<lambda>_. [])\<rparr>"

lemma ex_connect_ok [simp]: "connect_ok ex_in_env"
  by (simp add: connect_ok_def ex_in_env_def)

theorem conin_reachable_in_bounds_witness:
  "\<exists>s. s = snd (ConSplitterTextInExAddDevice ex_in_env 7 (snd (ConSplitterTextInConstructor ex_in_env 1 ex_in_state)))
     \<and> length (ex_devices s) \<le> length (KeyQueue (mConIn s))"
proof -
  let ?c = "snd (ConSplitterTextInConstructor ex_in_env 1 ex_in_state)"
  have "in_reachable ex_in_env 1 ?c" by (rule constructed) (simp add: ex_in_state_def)
  then have "in_reachable ex_in_env 1 (snd (ConSplitterTextInExAddDevice ex_in_env 7 ?c))"
    by (rule in_reachable.step) (rule AddTextInEx)
  from conin_reachable_in_bounds [OF ex_connect_ok this] show ?thesis by blast
qed

section \<open>Keys come out in order\<close>

fun read_many ::
  "'w in_env \<Rightarrow> nat \<Rightarrow> 'w conin_state \<Rightarrow> (efi_status \<times> EFI_KEY_DATA option) list \<times> 'w conin_state" where
  "read_many env 0 s = ([], s)"
| "read_many env (Suc n) s =
     (let (Status, k, s1) = ConSplitterTextInReadKeyStrokeEx env False s; (rs, s2) = read_many env n s1
      in ((Status, k) # rs, s2))"

definition connected :: "'w in_env \<Rightarrow> 'w conin_state \<Rightarrow> bool" where
  "connected env s \<longleftrightarrow> (pcdConInConnectOnDemand env \<longrightarrow> mConInIsConnect s)"

lemma connected_read_point: "connected env (read_point env s)"
  by (simp add: connected_def read_point_def connect_on_demand_def)

lemma read_point_connected:
  assumes "connected env s"
  shows "queued (read_point env s) = queued s" "in_devices (read_point env s) = in_devices s"
    "conin_inv (read_point env s) = conin_inv s" "mConInIsConnect (read_point env s) = mConInIsConnect s"
    "ex_devices (read_point env s) = ex_devices s"
    "VirtualKeyStateExported (mConIn (read_point env s)) = VirtualKeyStateExported (mConIn s)"
proof -
  have "read_point env s = upd_in (\<lambda>P. P\<lparr>KeyEventSignalState := False\<rparr>) s"
    using assms by (auto simp: connected_def read_point_def connect_on_demand_def upd_in_def)
  then show "queued (read_point env s) = queued s" "in_devices (read_point env s) = in_devices s"
    "conin_inv (read_point env s) = conin_inv s" "mConInIsConnect (read_point env s) = mConInIsConnect s"
    "ex_devices (read_point env s) = ex_devices s"
    "VirtualKeyStateExported (mConIn (read_point env s)) = VirtualKeyStateExported (mConIn s)"
    by simp_all (simp_all add: upd_in_def queued_def keys_of_def ex_devices_def)
qed

text \<open>Saved keys come out one by one, without a call to a device.\<close>

lemma read_many_saved:
  "connected env s \<Longrightarrow> conin_inv s \<Longrightarrow> queued s = ks \<Longrightarrow>
   fst (read_many env (length ks) s) = map (\<lambda>k. (EFI_SUCCESS, Some k)) ks
   \<and> in_devices (snd (read_many env (length ks) s)) = in_devices s \<and> queued (snd (read_many env (length ks) s)) = []"
proof (induction ks arbitrary: s)
  case (Cons k ks)
  obtain s' where s': "ConSplitterTextInReadKeyStrokeEx env False s = (EFI_SUCCESS, Some k, s')" "queued s' = ks"
      "in_devices s' = in_devices s" "conin_inv s'" "mConInIsConnect s' = mConInIsConnect s"
    using read_ex_saved [of env s k ks] Cons.prems by (auto simp: read_point_connected)
  then have "connected env s'" using Cons.prems by (simp add: connected_def)
  from Cons.IH [OF this s'(4,2)] s' show ?case by (auto simp: Let_def split_beta)
qed simp

text \<open>C5: when no key is saved, one read polls every keyboard once, in the order they were
  added; the keys they have (partial ones only if the exported state asks for them) come out of
  this and the following reads in that order, each exactly once and each with the key state
  merged from all keyboards, and the reads after the first do not touch the devices.\<close>

theorem splitter_keys_in_order:
  assumes "connect_ok env" and "conin_inv s" and "queued (read_point env s) = []"
    and "polled_keys env (VirtualKeyStateExported (mConIn (read_point env s))) (ex_devices (read_point env s))
           (KeyState null_key) (in_devices (read_point env s)) = (ks, keys, w)"
    and "keys \<noteq> []"
  shows "fst (read_many env (length keys) s) = map (\<lambda>k. (EFI_SUCCESS, Some (with_state ks k))) keys
     \<and> in_devices (snd (read_many env (length keys) s)) = w \<and> queued (snd (read_many env (length keys) s)) = []"
proof -
  obtain s1 where s1: "ConSplitterTextInReadKeyStrokeEx env False s = (EFI_SUCCESS, Some (with_state ks (hd keys)), s1)"
      "queued s1 = map (with_state ks) (tl keys)" "in_devices s1 = w" "conin_inv s1"
      "mConInIsConnect s1 = mConInIsConnect (read_point env s)"
    using read_ex_poll [OF read_point_inv [OF assms(1,2)] assms(3,4)] assms(5) by auto
  then have "connected env s1" using connected_read_point [of env s] by (simp add: connected_def)
  from read_many_saved [OF this s1(4) s1(2)] s1(1,3) assms(5) show ?thesis
    by (cases keys) (auto simp: Let_def split_beta)
qed

definition ex_two_keyboards :: "(nat \<Rightarrow> EFI_KEY_DATA list) conin_state" where
  "ex_two_keyboards = ex_in_state\<lparr>mConIn := mConIn_template\<lparr>TextInExList := [3, 5], TextInExListCount := 2,
     CurrentNumberOfExConsoles := 2, KeyQueue := [null_key, null_key]\<rparr>,
     in_devices := (\<lambda>_. [])(3 := [scan_key SCAN_UP], 5 := [scan_key SCAN_DOWN])\<rparr>"

lemma ex_two_keyboards_facts:
  "conin_inv ex_two_keyboards" "queued ex_two_keyboards = []" "connected ex_in_env ex_two_keyboards"
  "ex_devices ex_two_keyboards = [3, 5]" "\<not> VirtualKeyStateExported (mConIn ex_two_keyboards)"
  "in_devices ex_two_keyboards = (\<lambda>_. [])(3 := [scan_key SCAN_UP], 5 := [scan_key SCAN_DOWN])"
  by (simp_all add: ex_two_keyboards_def conin_inv_def mConIn_template_def handles_ok_def queued_def keys_of_def
      connected_def ex_in_env_def ex_devices_def)

theorem splitter_keys_in_order_witness:
  "fst (read_many ex_in_env 2 ex_two_keyboards) =
     [(EFI_SUCCESS, Some (scan_key SCAN_UP)), (EFI_SUCCESS, Some (scan_key SCAN_DOWN))]"
proof -
  let ?s = ex_two_keyboards
  note facts = ex_two_keyboards_facts
  note rp = read_point_connected [OF facts(3)]
  have keys: "\<not> is_null_key (scan_key SCAN_UP)" "\<not> is_null_key (scan_key SCAN_DOWN)"
      "KeyState (scan_key SCAN_UP) = KeyState null_key" "KeyState (scan_key SCAN_DOWN) = KeyState null_key"
      "merge_state (KeyState null_key) (KeyState null_key) = KeyState null_key"
    by (simp_all add: is_null_key_def scan_key_def scan_defs merge_state_def null_key_def)
  have read: "ex_read ex_in_env d k w = (case w d of [] \<Rightarrow> (EFI_NOT_READY, k, w) | x # xs \<Rightarrow> (EFI_SUCCESS, x, w(d := xs)))"
    for d k w by (simp add: ex_in_env_def)
  obtain w where "polled_keys ex_in_env (VirtualKeyStateExported (mConIn (read_point ex_in_env ?s))) (ex_devices (read_point ex_in_env ?s))
           (KeyState null_key) (in_devices (read_point ex_in_env ?s)) = (KeyState null_key, [scan_key SCAN_UP, scan_key SCAN_DOWN], w)"
    by (simp add: rp facts read keys Let_def)
  from splitter_keys_in_order [OF ex_connect_ok facts(1) _ this] keys
  show ?thesis by (simp add: rp facts with_state_def del: read_many.simps flip: numeral_2_eq_2)
qed

end
