(* ===== verification/SplitterKeypads.thy ===== *)
theory SplitterKeypads
  imports SplitterInCorrect KeypadCorrect
begin

text \<open>
  The console splitter over keypad drivers: the protocols that \<open>Drivers/KeypadDxe\<close> installs are
  the devices of \<open>SplitterIn\<close>.  The two contracts the splitter relies on are locales, each
  interpreted on the keypad driver: keyboards whose reads cannot return partial keys for ever,
  and keyboards that keep a list of registrations.
\<close>

section \<open>Keypads as devices\<close>

type_synonym 'b keypads = "nat \<Rightarrow> 'b keypad_lib \<times> kp_world"

definition keypad_read_key ::
  "(nat \<Rightarrow> kp_env) \<Rightarrow> 'b BitmapLib \<Rightarrow> nat \<Rightarrow> EFI_INPUT_KEY \<Rightarrow> 'b keypads \<Rightarrow> efi_status \<times> EFI_INPUT_KEY \<times> 'b keypads" where
  "keypad_read_key E bl d buf w =
     (case KeypadReadKeyStroke (E d) (mInternalKeypadDevice bl) (w d) of
        None \<Rightarrow> (EFI_DEVICE_ERROR, buf, w)
      | Some (st, k, s) \<Rightarrow> (st, case k of None \<Rightarrow> buf | Some k \<Rightarrow> k, w(d := s)))"

definition keypad_read_ex ::
  "(nat \<Rightarrow> kp_env) \<Rightarrow> 'b BitmapLib \<Rightarrow> nat \<Rightarrow> EFI_KEY_DATA \<Rightarrow> 'b keypads \<Rightarrow> efi_status \<times> EFI_KEY_DATA \<times> 'b keypads" where
  "keypad_read_ex E bl d buf w =
     (case KeypadReadKeyStrokeEx (E d) (mInternalKeypadDevice bl) False (w d) of
        (st, k, s) \<Rightarrow> (st, case k of None \<Rightarrow> buf | Some k \<Rightarrow> k, w(d := s)))"

text \<open>\<open>CheckEvent\<close> runs the wait handler of the event and succeeds when that signals it.\<close>

definition keypad_check ::
  "(nat \<Rightarrow> kp_env) \<Rightarrow> 'b BitmapLib \<Rightarrow> (KEYPAD_CONSOLE_IN_DEV \<Rightarrow> efi_event option) \<Rightarrow> nat \<Rightarrow> 'b keypads \<Rightarrow> efi_status \<times> 'b keypads" where
  "keypad_check E bl ev d w =
     (case ev (con (snd (w d))) of None \<Rightarrow> (EFI_INVALID_PARAMETER, w)
      | Some e \<Rightarrow>
          (case KeypadWaitForKey (E d) (mInternalKeypadDevice bl) e (w d) of
             None \<Rightarrow> (EFI_NOT_READY, w)
           | Some s \<Rightarrow> (if cSignalEvent (Some e) \<in> set (drop (length (log (snd (w d)))) (log (snd s)))
                        then EFI_SUCCESS else EFI_NOT_READY, w(d := s))))"

definition keypad_reset ::
  "(nat \<Rightarrow> kp_env) \<Rightarrow> 'b BitmapLib \<Rightarrow> nat \<Rightarrow> bool \<Rightarrow> 'b keypads \<Rightarrow> efi_status \<times> 'b keypads" where
  "keypad_reset E bl d ext w =
     (case KeypadEfiResetEx (E d) (mInternalKeypadDevice bl) ext (w d) of (st, s) \<Rightarrow> (st, w(d := s)))"

definition keypad_set_state :: "(nat \<Rightarrow> kp_env) \<Rightarrow> nat \<Rightarrow> u8 \<Rightarrow> 'b keypads \<Rightarrow> efi_status \<times> 'b keypads" where
  "keypad_set_state E d t w =
     (case KeypadSetState (E d) (Some t) (snd (w d)) of (st, k) \<Rightarrow> (st, w(d := (fst (w d), k))))"

definition keypad_register ::
  "(nat \<Rightarrow> kp_env) \<Rightarrow> nat \<Rightarrow> EFI_KEY_DATA \<Rightarrow> notify_fn \<Rightarrow> ptr option \<Rightarrow> 'b keypads \<Rightarrow> efi_status \<times> ptr option \<times> 'b keypads" where
  "keypad_register E d kd f h w =
     (case KeypadRegisterKeyNotify (E d) (Some kd) (Some f) False (snd (w d)) of
        (st, a, k) \<Rightarrow> (st, case a of None \<Rightarrow> h | Some a \<Rightarrow> Some a, w(d := (fst (w d), k))))"

definition keypad_unregister :: "(nat \<Rightarrow> kp_env) \<Rightarrow> nat \<Rightarrow> ptr option \<Rightarrow> 'b keypads \<Rightarrow> efi_status \<times> 'b keypads" where
  "keypad_unregister E d h w =
     (case KeypadUnregisterKeyNotify (E d) h (snd (w d)) of (st, k) \<Rightarrow> (st, w(d := (fst (w d), k))))"

definition keypads_env :: "(nat \<Rightarrow> kp_env) \<Rightarrow> 'b BitmapLib \<Rightarrow> 'b keypads in_env \<Rightarrow> 'b keypads in_env" where
  "keypads_env E bl env = env\<lparr>in_reset := keypad_reset E bl, in_read := keypad_read_key E bl,
     in_check := keypad_check E bl ConIn_WaitForKey, ex_reset := keypad_reset E bl, ex_read := keypad_read_ex E bl,
     ex_check := keypad_check E bl ConInEx_WaitForKeyEx, ex_set_state := keypad_set_state E,
     ex_register := keypad_register E, ex_unregister := keypad_unregister E\<rparr>"

lemma keypads_env_simps [simp]:
  "in_reset (keypads_env E bl env) = keypad_reset E bl" "in_read (keypads_env E bl env) = keypad_read_key E bl"
  "in_check (keypads_env E bl env) = keypad_check E bl ConIn_WaitForKey"
  "ex_reset (keypads_env E bl env) = keypad_reset E bl" "ex_read (keypads_env E bl env) = keypad_read_ex E bl"
  "ex_check (keypads_env E bl env) = keypad_check E bl ConInEx_WaitForKeyEx"
  "ex_set_state (keypads_env E bl env) = keypad_set_state E" "ex_register (keypads_env E bl env) = keypad_register E"
  "ex_unregister (keypads_env E bl env) = keypad_unregister E" "in_alloc (keypads_env E bl env) = in_alloc env"
  "junk_key (keypads_env E bl env) = junk_key env" "in_connect (keypads_env E bl env) = in_connect env"
  "pcdConInConnectOnDemand (keypads_env E bl env) = pcdConInConnectOnDemand env"
  by (simp_all add: keypads_env_def)

section \<open>Reads return\<close>

definition real_key :: "EFI_INPUT_KEY \<Rightarrow> bool" where
  "real_key k \<longleftrightarrow> ScanCode k \<noteq> SCAN_NULL \<or> UnicodeChar k \<noteq> CHAR_NULL"

text \<open>Keyboards that return at most \<open>pending\<close> partial keys in a row.\<close>

locale key_sources =
  fixes rd :: "nat \<Rightarrow> EFI_INPUT_KEY \<Rightarrow> 'w \<Rightarrow> efi_status \<times> EFI_INPUT_KEY \<times> 'w"
    and pending :: "'w \<Rightarrow> nat"
    and ok :: "'w \<Rightarrow> bool"
  assumes read_ok: "ok w \<Longrightarrow> rd d buf w = (st, k, w') \<Longrightarrow> ok w' \<and> pending w' \<le> pending w"
    and partial_less: "ok w \<Longrightarrow> rd d buf w = (EFI_SUCCESS, k, w') \<Longrightarrow> \<not> real_key k \<Longrightarrow> pending w' < pending w"
begin

lemma read_consoles_total:
  assumes "in_read env = rd"
  shows "ok w \<Longrightarrow> \<exists>st r w'. read_consoles env ds buf w = Some (st, r, w') \<and> ok w'
     \<and> (case r of None \<Rightarrow> st = EFI_NOT_READY | Some k \<Rightarrow> st = EFI_SUCCESS \<and> real_key k)"
proof (induction "length ds + pending w" arbitrary: ds buf w rule: less_induct)
  case less
  note step = read_consoles.simps [of env ds buf w]
  show ?case
  proof (cases ds)
    case Nil
    then show ?thesis using less.prems step by simp
  next
    case (Cons d ds')
    obtain st k w' where r: "rd d buf w = (st, k, w')" by (cases "rd d buf w")
    have ok': "ok w'" "pending w' \<le> pending w" using read_ok [OF less.prems r] by simp_all
    consider "EFI_ERROR st" | "st = EFI_SUCCESS" "real_key k" | "st = EFI_SUCCESS" "\<not> real_key k"
      by (auto simp: EFI_ERROR_def)
    then show ?thesis
    proof cases
      case 1
      then show ?thesis using less.hyps [of ds' w' k] ok' step r Cons assms by simp
    next
      case 2
      then show ?thesis using ok' step r Cons assms by (simp add: real_key_def)
    next
      case 3
      have "pending w' < pending w" using partial_less [OF less.prems, of d buf k w'] r 3 by simp
      then show ?thesis using less.hyps [of ds w' k] ok' step r Cons assms 3 by (simp add: real_key_def)
    qed
  qed
qed

lemma private_read_total:
  assumes "in_read env = rd" "queue_ok (mConIn s)" "ok (in_devices s)"
  shows "\<exists>st k s'. ConSplitterTextInPrivateReadKeyStroke env s = Some (st, k, s') \<and> ok (in_devices s')
     \<and> (if st = EFI_SUCCESS then real_key k else st = EFI_NOT_READY \<and> \<not> real_key k)"
proof -
  obtain P k where P: "dequeue_real (junk_key env) (mConIn s) = (True, k, P) \<and> \<not> is_null_key k
      \<or> dequeue_real (junk_key env) (mConIn s) = (False, k, P)"
    using dequeue_real_spec [OF assms(2), of "junk_key env"]
    by (cases "dropWhile is_null_key (keys_of (mConIn s))") (auto dest: dropWhile_eq_Cons_conv [THEN iffD1])
  then show ?thesis
  proof
    assume "dequeue_real (junk_key env) (mConIn s) = (True, k, P) \<and> \<not> is_null_key k"
    then show ?thesis using assms(3)
      by (simp add: ConSplitterTextInPrivateReadKeyStroke_def is_null_key_def real_key_def)
  next
    assume "dequeue_real (junk_key env) (mConIn s) = (False, k, P)"
    then show ?thesis
      using read_consoles_total [OF assms(1,3), of "text_in_devices (s\<lparr>mConIn := P\<rparr>)" "Key k"]
      by (auto simp: ConSplitterTextInPrivateReadKeyStroke_def real_key_def SCAN_NULL_def CHAR_NULL_def
          split: option.splits)
  qed
qed

end

definition keypads_ready :: "'b keypads \<Rightarrow> bool" where
  "keypads_ready w \<longleftrightarrow> (\<forall>d. kp_inv (snd (w d)) \<and> keys_ready (fst (w d)))"

lemma ctrl_key_real: "\<not> is_null_key k \<Longrightarrow> real_key (ctrl_key k)"
proof -
  assume k: "\<not> is_null_key k"
  have "x - 0x61 + 1 \<noteq> 0" if "0x61 \<le> x" for x :: u16
  proof
    assume "x - 0x61 + 1 = 0"
    moreover have "x = (x - 0x61 + 1) + 0x60" by simp
    ultimately have "x = 0x60" by simp
    with that show False by simp
  qed
  moreover have "x - 0x41 + 1 \<noteq> 0" if "0x41 \<le> x" for x :: u16
  proof
    assume "x - 0x41 + 1 = 0"
    moreover have "x = (x - 0x41 + 1) + 0x40" by simp
    ultimately have "x = 0x40" by simp
    with that show False by simp
  qed
  ultimately show ?thesis using k
    by (simp add: ctrl_key_def real_key_def is_null_key_def CHAR_NULL_def)
qed

interpretation keypad_keys: key_sources "keypad_read_key E bl" "\<lambda>_. 0" keypads_ready
  for E :: "nat \<Rightarrow> kp_env" and bl :: "'b BitmapLib"
proof unfold_locales
  fix w :: "'b keypads" and d buf st k w'
  assume w: "keypads_ready w" and r: "keypad_read_key E bl d buf w = (st, k, w')"
  then have "kp_inv (snd (w d))" "keys_ready (fst (w d))" by (simp_all add: keypads_ready_def)
  from kpd.read_key_total [OF this, of "E d" bl] r w
  show "keypads_ready w' \<and> (0::nat) \<le> 0"
    by (auto simp: keypad_read_key_def keypads_ready_def)
next
  fix w :: "'b keypads" and d buf k w'
  assume w: "keypads_ready w" and r: "keypad_read_key E bl d buf w = (EFI_SUCCESS, k, w')" and n: "\<not> real_key k"
  then have "kp_inv (snd (w d))" "keys_ready (fst (w d))" by (simp_all add: keypads_ready_def)
  from kpd.read_key_total [OF this, of "E d" bl] r n ctrl_key_real
  show "(0::nat) < 0"
    by (auto simp: keypad_read_key_def read_result_ok_def split: option.splits if_splits)
qed

section \<open>Keyboards with a list of registrations\<close>

type_synonym registration = "ptr \<times> EFI_KEY_DATA \<times> notify_fn"

text \<open>\<open>regs d w\<close> is what keyboard \<open>d\<close> has registered.  A registration that fails changes none
  of the lists; one that succeeds answers the handle of an older one that covers it, or appends an entry under a
  fresh handle; unregistering drops the entry of the handle.\<close>

definition first_registered :: "EFI_KEY_DATA \<Rightarrow> notify_fn \<Rightarrow> registration list \<Rightarrow> ptr option" where
  "first_registered k f rs = map_option fst (List.find (\<lambda>(_, k', f'). IsKeyRegistered k' k \<and> f' = f) rs)"

text \<open>What registering leaves in a list, under which handle, and what taking the registration back leaves.\<close>

definition entered :: "EFI_KEY_DATA \<Rightarrow> notify_fn \<Rightarrow> ptr option \<Rightarrow> registration list \<Rightarrow> registration list \<Rightarrow> bool" where
  "entered k f h rs rs' \<longleftrightarrow> (case first_registered k f rs of
       Some a \<Rightarrow> h = Some a \<and> rs' = rs
     | None \<Rightarrow> \<exists>a. h = Some a \<and> a \<notin> fst ` set rs \<and> rs' = rs @ [(a, k, f)])"

definition taken_back :: "EFI_KEY_DATA \<Rightarrow> notify_fn \<Rightarrow> registration list \<Rightarrow> registration list" where
  "taken_back k f rs = (case first_registered k f rs of None \<Rightarrow> rs | Some a \<Rightarrow> filter (\<lambda>r. fst r \<noteq> a) rs)"

lemma entered_back: "entered k f h rs rs' \<Longrightarrow> filter (\<lambda>r. Some (fst r) \<noteq> h) rs' = taken_back k f rs"
  by (auto simp: entered_def taken_back_def filter_id_conv rev_image_eqI split: option.splits)

locale notify_devices =
  fixes reg :: "nat \<Rightarrow> EFI_KEY_DATA \<Rightarrow> notify_fn \<Rightarrow> ptr option \<Rightarrow> 'w \<Rightarrow> efi_status \<times> ptr option \<times> 'w"
    and unreg :: "nat \<Rightarrow> ptr option \<Rightarrow> 'w \<Rightarrow> efi_status \<times> 'w"
    and regs :: "nat \<Rightarrow> 'w \<Rightarrow> registration list"
    and ok :: "'w \<Rightarrow> bool"
  assumes reg_ok: "ok w \<Longrightarrow> reg d k f h w = (st, h', w') \<Longrightarrow> ok w'"
    and reg_fail: "ok w \<Longrightarrow> reg d k f h w = (st, h', w') \<Longrightarrow> EFI_ERROR st \<Longrightarrow> regs d' w' = regs d' w"
    and reg_enters: "ok w \<Longrightarrow> reg d k f h w = (EFI_SUCCESS, h', w') \<Longrightarrow>
      entered k f h' (regs d w) (regs d w') \<and> (\<forall>d'. d' \<noteq> d \<longrightarrow> regs d' w' = regs d' w)"
    and unreg_ok: "ok w \<Longrightarrow> unreg d h w = (st, w') \<Longrightarrow> ok w'"
    and unreg_regs: "ok w \<Longrightarrow> unreg d h w = (st, w') \<Longrightarrow>
      regs d' w' = (if d' = d then filter (\<lambda>r. Some (fst r) \<noteq> h) (regs d w) else regs d' w)"
begin

text \<open>Between \<open>w0\<close> and \<open>w\<close>, exactly the keyboards at the positions \<open>I\<close> of the list got the
  registration, under the handles in the handle list, and those at the positions \<open>J\<close> got it and lost it again.\<close>

definition added :: "EFI_KEY_DATA \<Rightarrow> notify_fn \<Rightarrow> nat list \<Rightarrow> ptr option list \<Rightarrow> 'w \<Rightarrow> nat set \<Rightarrow> nat set \<Rightarrow> 'w \<Rightarrow> bool" where
  "added k f ds hs w0 I J w \<longleftrightarrow> ok w
     \<and> (\<forall>i\<in>I. entered k f (hs ! i) (regs (ds ! i) w0) (regs (ds ! i) w))
     \<and> (\<forall>i\<in>J. regs (ds ! i) w = taken_back k f (regs (ds ! i) w0))
     \<and> (\<forall>d. d \<notin> (!) ds ` (I \<union> J) \<longrightarrow> regs d w = regs d w0)"

lemma unreg_added:
  assumes "added k f ds hs w0 I J w" "i \<in> I" "distinct ds" "I \<union> J \<subseteq> {..<length ds}" "i \<notin> J"
  shows "added k f ds hs w0 (I - {i}) (insert i J) (snd (unreg (ds ! i) (hs ! i) w))"
proof -
  obtain st w' where u: "unreg (ds ! i) (hs ! i) w = (st, w')" by fastforce
  have ok: "ok w" using assms(1) by (simp add: added_def)
  have at: "regs d w' = (if d = ds ! i then taken_back k f (regs (ds ! i) w0) else regs d w)" for d
    using unreg_regs [OF ok u, of d] entered_back assms(1,2) by (simp add: added_def)
  have inj: "ds ! j = ds ! i \<longleftrightarrow> j = i" if "j \<in> I \<union> J" for j
  proof -
    have "i < length ds" "j < length ds" using assms(2,4) that by auto
    then show ?thesis using nth_eq_iff_index_eq [OF assms(3)] by auto
  qed
  have "I - {i} \<union> insert i J = I \<union> J" using assms(2) by auto
  then show ?thesis
    using assms(1,2,5) unreg_ok [OF ok u] at inj u unfolding added_def by auto
qed

lemma unreg_fold:
  "added k f ds hs w0 (set is) J w \<Longrightarrow> distinct is \<Longrightarrow> distinct ds \<Longrightarrow> set is \<union> J \<subseteq> {..<length ds} \<Longrightarrow> set is \<inter> J = {} \<Longrightarrow>
   added k f ds hs w0 {} (set is \<union> J) (fold (\<lambda>i w. snd (unreg (ds ! i) (hs ! i) w)) is w)"
proof (induction "is" arbitrary: w J)
  case (Cons i "is")
  have "added k f ds hs w0 (set (i # is) - {i}) (insert i J) (snd (unreg (ds ! i) (hs ! i) w))"
    using Cons.prems by (intro unreg_added) auto
  moreover have "set (i # is) - {i} = set is" "set (i # is) \<union> J = set is \<union> insert i J" using Cons.prems(2) by auto
  ultimately show ?case using Cons.IH [of "insert i J"] Cons.prems by simp
qed simp

lemma unregister_down_fold:
  assumes "ex_unregister env = unreg"
  shows "unregister_down env ds hs n w = fold (\<lambda>i w. snd (unreg (ds ! i) (hs ! i) w)) (rev [0..<n]) w"
  by (induction n arbitrary: w) (simp_all add: assms)

lemma register_all_added:
  assumes "ex_register env = reg"
  shows "added k f ds hs w0 {..<i} {} w \<Longrightarrow> ds = ds1 @ ds2 \<Longrightarrow> i = length ds1 \<Longrightarrow> distinct ds \<Longrightarrow> length ds \<le> length hs \<Longrightarrow>
    register_all env k f ds2 i hs w = (st, j, hs', w') \<Longrightarrow>
    j \<le> length ds \<and> added k f ds hs' w0 {..<j} {} w' \<and> (st = EFI_SUCCESS \<longrightarrow> j = length ds)"
proof (induction ds2 arbitrary: ds1 i hs w)
  case Nil
  then show ?case by auto
next
  case (Cons d ds2)
  obtain st1 h1 w1 where r: "reg d k f (hs ! i) w = (st1, h1, w1)" by (metis prod_cases3)
  have ok: "ok w" using Cons.prems(1) by (simp add: added_def)
  have d: "ds ! i = d" "i < length ds" "d \<notin> set ds1" using Cons.prems by (auto simp: nth_append)
  have notin: "d \<notin> (!) ds ` {..<i}"
    using d(3) Cons.prems(2,3) by (auto simp: nth_append)
  have same: "regs d w = regs d w0" using Cons.prems(1) notin by (auto simp: added_def)
  show ?case
  proof (cases "EFI_ERROR st1")
    case True
    then have "register_all env k f (d # ds2) i hs w = (st1, i, hs[i := h1], w1)" using r assms by simp
    moreover have "added k f ds (hs[i := h1]) w0 {..<i} {} w1"
      using Cons.prems(1) reg_ok [OF ok r] reg_fail [OF ok r True] by (auto simp: added_def)
    ultimately show ?thesis using Cons.prems(6) d(2) True by auto
  next
    case False
    then have [simp]: "st1 = EFI_SUCCESS" by auto
    have a: "entered k f h1 (regs d w0) (regs d w1)" "\<And>d'. d' \<noteq> d \<Longrightarrow> regs d' w1 = regs d' w"
      using reg_enters [OF ok, of d k f "hs ! i" h1 w1] r same by auto
    have inj: "ds ! j \<noteq> d" if "j < i" for j
      using notin that by auto
    have img: "(!) ds ` ({..<Suc i} \<union> {}) = insert d ((!) ds ` {..<i})" using d(1) by (simp add: lessThan_Suc)
    have len: "i < length hs" using d(2) Cons.prems(5) by simp
    have old: "entered k f (hs ! j) (regs (ds ! j) w0) (regs (ds ! j) w)" if "j < i" for j
      using Cons.prems(1) that by (simp add: added_def)
    have step: "added k f ds (hs[i := h1]) w0 {..<Suc i} {} w1"
      unfolding added_def img
    proof (intro conjI ballI allI impI)
      show "ok w1" using reg_ok [OF ok r] .
      fix j assume "j \<in> {..<Suc i}"
      then show "entered k f ((hs[i := h1]) ! j) (regs (ds ! j) w0) (regs (ds ! j) w1)"
        using a d(1) len old [of j] inj [of j] by (cases "j = i") auto
    next
      fix d' assume "d' \<notin> insert d ((!) ds ` {..<i})"
      then show "regs d' w1 = regs d' w0" using a(2) Cons.prems(1) by (auto simp: added_def)
    qed simp
    have "register_all env k f ds2 (Suc i) (hs[i := h1]) w1 = (st, j, hs', w')"
      using Cons.prems(6) r assms by simp
    from Cons.IH [OF step _ _ Cons.prems(4) _ this, of "ds1 @ [d]"] Cons.prems(2,3,5)
    show ?thesis by simp
  qed
qed

lemma added_none: "ok w \<Longrightarrow> added k f ds hs w {} {} w"
  by (simp add: added_def)

text \<open>Unregistering a list of handles does to each keyboard what its own handle says.\<close>

lemma unregister_frame:
  "ok w \<Longrightarrow> d \<notin> (!) ds ` set is \<Longrightarrow> regs d (fold (\<lambda>i w. snd (unreg (ds ! i) (hs ! i) w)) is w) = regs d w
     \<and> ok (fold (\<lambda>i w. snd (unreg (ds ! i) (hs ! i) w)) is w)"
proof (induction "is" arbitrary: w)
  case (Cons i "is")
  obtain st w' where u: "unreg (ds ! i) (hs ! i) w = (st, w')" by fastforce
  then show ?case using Cons unreg_ok [OF Cons.prems(1) u] unreg_regs [OF Cons.prems(1) u, of d] by auto
qed simp

lemma unregister_all_at:
  assumes "ex_unregister env = unreg" "ok w" "distinct ds" "i < length ds"
  shows "regs (ds ! i) (unregister_all env ds hs w) = filter (\<lambda>r. Some (fst r) \<noteq> hs ! i) (regs (ds ! i) w)"
proof -
  let ?f = "\<lambda>i w. snd (unreg (ds ! i) (hs ! i) w)"
  have split: "[0..<length ds] = [0..<i] @ i # [Suc i..<length ds]"
    using assms(4) upt_add_eq_append [of 0 i "length ds - i"] by (simp add: upt_conv_Cons)
  have notin: "ds ! i \<notin> (!) ds ` set [0..<i]" "ds ! i \<notin> (!) ds ` set [Suc i..<length ds]"
    using assms(3,4) by (auto simp: nth_eq_iff_index_eq)
  let ?w1 = "fold ?f [0..<i] w"
  have w1: "regs (ds ! i) ?w1 = regs (ds ! i) w" "ok ?w1"
    using unregister_frame [OF assms(2) notin(1)] by simp_all
  obtain st w2 where u: "unreg (ds ! i) (hs ! i) ?w1 = (st, w2)" by fastforce
  have w2: "regs (ds ! i) w2 = filter (\<lambda>r. Some (fst r) \<noteq> hs ! i) (regs (ds ! i) w)" "ok w2"
    using unreg_regs [OF w1(2) u, of "ds ! i"] unreg_ok [OF w1(2) u] w1(1) by simp_all
  show ?thesis
    unfolding unregister_all_def assms(1) split
    using unregister_frame [OF w2(2) notin(2), of hs] w2(1) u by simp
qed

text \<open>A registration that fails at one keyboard is taken back at those before it.\<close>

lemma register_rolls_back:
  assumes env: "ex_register env = reg" "ex_unregister env = unreg" and ok: "ok (in_devices s)"
    and inv: "conin_inv s" "distinct (ex_devices s)"
    and run: "ConSplitterTextInRegisterKeyNotify env (Some k) (Some f) False s = (st, h, s')" and err: "EFI_ERROR st"
  shows "h = None \<and> mConIn s' = mConIn s \<and> ok (in_devices s') \<and>
    (\<exists>j \<le> length (ex_devices s). \<forall>d. regs d (in_devices s') =
       (if d \<in> set (take j (ex_devices s)) then taken_back k f (regs d (in_devices s)) else regs d (in_devices s)))"
proof -
  let ?ds = "ex_devices s" and ?hs = "replicate (TextInExListCount (mConIn s)) None"
  obtain st1 j hs w where r: "register_all env k f ?ds 0 ?hs (in_devices s) = (st1, j, hs, w)" by (metis prod_cases4)
  have len: "length ?ds \<le> length ?hs" using inv(1) by (auto simp: conin_inv_def ex_devices_def Let_def)
  have a: "j \<le> length ?ds" "added k f ?ds hs (in_devices s) {..<j} {} w"
    using register_all_added [OF env(1) _ _ _ inv(2) len r, where ?w0.0 = "in_devices s" and ?ds1.0 = "[]"] added_none [OF ok] by simp_all
  let ?w = "unregister_down env ?ds hs j w"
  have "added k f ?ds hs (in_devices s) {} (set (rev [0..<j]) \<union> {}) ?w"
    unfolding unregister_down_fold [OF env(2)] using a inv(2)
    by (intro unreg_fold) (auto simp: atLeast0LessThan [symmetric])
  then have "ok ?w" "\<And>i. i < j \<Longrightarrow> regs (?ds ! i) ?w = taken_back k f (regs (?ds ! i) (in_devices s))"
    "\<And>d. d \<notin> (!) ?ds ` {..<j} \<Longrightarrow> regs d ?w = regs d (in_devices s)"
    by (simp_all add: added_def lessThan_atLeast0)
  moreover have "set (take j ?ds) = (!) ?ds ` {..<j}" using a(1) nth_image [of j ?ds] by (simp add: lessThan_atLeast0)
  ultimately have result: "ok ?w" "regs d ?w = (if d \<in> set (take j ?ds) then taken_back k f (regs d (in_devices s)) else regs d (in_devices s))" for d
    by auto
  have zero: "\<exists>i \<le> length ?ds. \<forall>d. regs d (in_devices s) =
      (if d \<in> set (take i ?ds) then taken_back k f (regs d (in_devices s)) else regs d (in_devices s))"
    by (intro exI [of _ 0]) simp
  from run err r ok show ?thesis
    using result a(1) zero
    by (auto simp: ConSplitterTextInRegisterKeyNotify_def upd_in_def Let_def status_simps split: option.splits if_splits)
qed

lemma find_append_None: "List.find P xs = None \<Longrightarrow> List.find P (xs @ ys) = List.find P ys"
  by (induction xs) (auto split: if_splits)

text \<open>Registering and then unregistering restores the splitter and all keyboards.\<close>

lemma register_unregister:
  assumes env: "ex_register env = reg" "ex_unregister env = unreg" and ok: "ok (in_devices s)"
    and inv: "conin_inv s" "distinct (ex_devices s)"
    and new: "\<forall>d\<in>set (ex_devices s). first_registered k f (regs d (in_devices s)) = None"
    and first: "find_splitter_notify k f (SplitterNotifyList (mConIn s)) = None"
    and fresh: "\<And>a. in_alloc env (in_allocs s) = Some a \<Longrightarrow> a \<notin> NotifyAddress ` set (SplitterNotifyList (mConIn s))"
    and run: "ConSplitterTextInRegisterKeyNotify env (Some k) (Some f) False s = (EFI_SUCCESS, h, s1)"
  shows "(\<forall>d\<in>set (ex_devices s). \<exists>a. regs d (in_devices s1) = regs d (in_devices s) @ [(a, k, f)])
     \<and> (\<exists>s2. ConSplitterTextInUnregisterKeyNotify env h s1 = (EFI_SUCCESS, s2) \<and> mConIn s2 = mConIn s
          \<and> (\<forall>d. regs d (in_devices s2) = regs d (in_devices s)))"
proof -
  let ?ds = "ex_devices s" and ?hs = "replicate (TextInExListCount (mConIn s)) None"
  obtain st1 j hs w where r: "register_all env k f ?ds 0 ?hs (in_devices s) = (st1, j, hs, w)" by (metis prod_cases4)
  obtain a where al: "in_alloc env (in_allocs s) = Some a" "in_alloc env (Suc (in_allocs s)) \<noteq> None" "st1 = EFI_SUCCESS"
    using run r first by (auto simp: ConSplitterTextInRegisterKeyNotify_def Let_def split: option.splits if_splits)
  have len: "length ?ds \<le> length ?hs" using inv(1) by (auto simp: conin_inv_def ex_devices_def Let_def)
  have added: "added k f ?ds hs (in_devices s) {..<length ?ds} {} w"
    using register_all_added [OF env(1) _ _ _ inv(2) len r, where ?w0.0 = "in_devices s" and ?ds1.0 = "[]"] added_none [OF ok] al(3) by auto
  define n where "n = \<lparr>NotifyAddress = a, NotifyHandleList = hs, SplitterKeyData = k, SplitterNotificationFn = f\<rparr>"
  have s1: "h = Some a" "mConIn s1 = (mConIn s)\<lparr>SplitterNotifyList := SplitterNotifyList (mConIn s) @ [n]\<rparr>" "in_devices s1 = w"
    using run r first al by (auto simp: ConSplitterTextInRegisterKeyNotify_def Let_def upd_in_def n_def status_simps)
  have ds: "ex_devices s1 = ?ds" by (simp add: ex_devices_def s1)
  have notin: "n \<notin> set (SplitterNotifyList (mConIn s))" 
  proof
    assume "n \<in> set (SplitterNotifyList (mConIn s))"
    then have "NotifyAddress n \<in> NotifyAddress ` set (SplitterNotifyList (mConIn s))" by (rule imageI)
    with fresh [OF al(1)] show False by (simp add: n_def)
  qed
  have "List.find (\<lambda>m. NotifyAddress m = a) (SplitterNotifyList (mConIn s)) = None"
    using fresh [OF al(1)] by (auto simp: find_None_iff)
  then have find: "List.find (\<lambda>m. NotifyAddress m = a) (SplitterNotifyList (mConIn s1)) = Some n"
    by (simp add: s1 find_append_None n_def)
  have gone: "added k f ?ds hs (in_devices s) {} (set [0..<length ?ds] \<union> {}) (unregister_all env ?ds hs w)"
    unfolding unregister_all_def env(2) using added inv(2)
    by (intro unreg_fold) (auto simp: atLeast0LessThan)
  have same: "regs d (unregister_all env ?ds hs w) = regs d (in_devices s)" for d
  proof (cases "d \<in> set ?ds")
    case True
    then obtain i where i: "i \<in> set [0..<length ?ds] \<union> {}" "d = ?ds ! i" by (auto simp: in_set_conv_nth)
    have "taken_back k f (regs d (in_devices s)) = regs d (in_devices s)" using new True by (simp add: taken_back_def)
    then show ?thesis using gone i unfolding added_def by metis
  next
    case False
    then have "d \<notin> (!) ?ds ` ({} \<union> (set [0..<length ?ds] \<union> {}))" by auto
    then show ?thesis using gone unfolding added_def by blast
  qed
  have "ConSplitterTextInUnregisterKeyNotify env h s1 =
      (EFI_SUCCESS, upd_in (\<lambda>P. P\<lparr>SplitterNotifyList := remove1 n (SplitterNotifyList P)\<rparr>)
         (upd_dev (unregister_all env ?ds hs) s1))"
    by (simp add: ConSplitterTextInUnregisterKeyNotify_def s1(1) find ds) (simp add: n_def)
  moreover have "(mConIn s1)\<lparr>SplitterNotifyList := remove1 n (SplitterNotifyList (mConIn s1))\<rparr> = mConIn s"
    using notin by (simp add: s1(2) remove1_append)
  moreover have "\<exists>a. regs d w = regs d (in_devices s) @ [(a, k, f)]" if d: "d \<in> set ?ds" for d
  proof -
    obtain i where "i \<in> {..<length ?ds}" "d = ?ds ! i" using d by (auto simp: in_set_conv_nth)
    then have "entered k f (hs ! i) (regs d (in_devices s)) (regs d w)" using added by (simp add: added_def)
    moreover have "first_registered k f (regs d (in_devices s)) = None" using new d by blast
    ultimately show ?thesis by (auto simp: entered_def)
  qed
  ultimately show ?thesis
    using same s1(3) by (auto simp: in_upd_defs)
qed

end

text \<open>The keypad driver keeps the contract.\<close>

definition keypad_regs :: "nat \<Rightarrow> 'b keypads \<Rightarrow> registration list" where
  "keypad_regs d w = map (\<lambda>n. (NodeAddress n, NotifyKeyData n, KeyNotificationFn n)) (NotifyList (con (snd (w d))))"

definition keypads_pool :: "(nat \<Rightarrow> kp_env) \<Rightarrow> 'b keypads \<Rightarrow> bool" where
  "keypads_pool E w \<longleftrightarrow> (\<forall>d. pool_env (E d) \<and> nodes_ok (snd (w d)))"

lemma first_keypad: "first_registered k f (keypad_regs d w) = map_option NodeAddress (find_registered k f (NotifyList (con (snd (w d)))))"
proof -
  have "first_registered k f (map (\<lambda>n. (NodeAddress n, NotifyKeyData n, KeyNotificationFn n)) ns) = map_option NodeAddress (find_registered k f ns)" for ns
    by (induction ns) (simp_all add: first_registered_def find_registered_def notify_matches_def)
  then show ?thesis by (simp add: keypad_regs_def)
qed

lemma keypad_register_old:
  assumes "KeypadRegisterKeyNotify E (Some k) (Some f) False w = (EFI_SUCCESS, h, w')" "find_registered k f (NotifyList (con w)) = Some n"
  shows "h = Some (NodeAddress n) \<and> NotifyList (con w') = NotifyList (con w)"
  using assms by (auto simp: KeypadRegisterKeyNotify_def Let_def split_beta)

lemma keypad_register_new:
  assumes "KeypadRegisterKeyNotify E (Some k) (Some f) False w = (EFI_SUCCESS, h, w')"
    and "find_registered k f (NotifyList (con w)) = None" and "pool_env E" and "nodes_ok w"
  shows "\<exists>a. h = Some a \<and> a \<notin> NodeAddress ` set (NotifyList (con w))
    \<and> NotifyList (con w') = NotifyList (con w) @ [\<lparr>NodeAddress = a, NotifyKeyData = k, KeyNotificationFn = f\<rparr>]"
proof -
  let ?p = "eAllocateZeroPool E (log (snd (RaiseTPL E TPL_NOTIFY w)))"
  have "?p \<noteq> None"
    using assms(1,2) by (intro notI) (simp add: KeypadRegisterKeyNotify_def Let_def split_beta)
  then obtain a where p: "?p = Some a" by blast
  have a: "h = Some a"
      "NotifyList (con w') = NotifyList (con w) @ [\<lparr>NodeAddress = a, NotifyKeyData = k, KeyNotificationFn = f\<rparr>]"
    using assms(1,2) by (auto simp: KeypadRegisterKeyNotify_def Let_def split_beta p)
  have "nodes_ok w'" using register_good [OF assms(1,3,4)] by simp
  then show ?thesis using a by (auto simp: nodes_ok_def)
qed

lemma keypad_register_fail:
  "KeypadRegisterKeyNotify E k f b w = (st, h, w') \<Longrightarrow> EFI_ERROR st \<Longrightarrow> NotifyList (con w') = NotifyList (con w)"
  by (auto simp: KeypadRegisterKeyNotify_def Let_def split_beta split: option.splits if_splits)

lemma keypad_unregister_list:
  assumes "KeypadUnregisterKeyNotify E (Some h) w = (st, w')" "nodes_ok w"
  shows "NotifyList (con w') = filter (\<lambda>n. NodeAddress n \<noteq> h) (NotifyList (con w))"
proof -
  have dist: "distinct (map NodeAddress (NotifyList (con w)))" using assms(2) by (simp add: nodes_ok_def)
  have none: "h \<notin> NodeAddress ` set ns \<Longrightarrow> filter (\<lambda>n. NodeAddress n \<noteq> h) ns = ns" for ns
    by (auto simp: filter_id_conv rev_image_eqI)
  show ?thesis
    using assms(1) remove_node_spec [OF dist, of h] none [of "NotifyList (con w)"]
    by (auto simp: KeypadUnregisterKeyNotify_def Let_def split_beta split: option.splits if_splits)
qed

interpretation keypad_notify: notify_devices "keypad_register E" "keypad_unregister E" keypad_regs "keypads_pool E"
  for E :: "nat \<Rightarrow> kp_env"
proof unfold_locales
  fix w :: "'b keypads" and d k f h st h' w'
  assume w: "keypads_pool E w" and r: "keypad_register E d k f h w = (st, h', w')"
  obtain a v where v: "KeypadRegisterKeyNotify (E d) (Some k) (Some f) False (snd (w d)) = (st, a, v)"
      "h' = (case a of None \<Rightarrow> h | Some a \<Rightarrow> Some a)" "w' = w(d := (fst (w d), v))"
    using r by (auto simp: keypad_register_def split: prod.splits)
  have pool: "pool_env (E d)" "nodes_ok (snd (w d))" using w by (simp_all add: keypads_pool_def)
  show "keypads_pool E w'" using w v register_good [OF v(1) pool] by (auto simp: keypads_pool_def)
  show "EFI_ERROR st \<Longrightarrow> keypad_regs d' w' = keypad_regs d' w" for d'
    using keypad_register_fail [OF v(1)] v(3) by (auto simp: keypad_regs_def)
next
  fix w :: "'b keypads" and d k f h h' w'
  assume w: "keypads_pool E w" and r: "keypad_register E d k f h w = (EFI_SUCCESS, h', w')"
  obtain a v where v: "KeypadRegisterKeyNotify (E d) (Some k) (Some f) False (snd (w d)) = (EFI_SUCCESS, a, v)"
      "h' = (case a of None \<Rightarrow> h | Some a \<Rightarrow> Some a)" "w' = w(d := (fst (w d), v))"
    using r by (auto simp: keypad_register_def split: prod.splits)
  have pool: "pool_env (E d)" "nodes_ok (snd (w d))" using w by (simp_all add: keypads_pool_def)
  have "entered k f h' (keypad_regs d w) (keypad_regs d w')"
  proof (cases "find_registered k f (NotifyList (con (snd (w d))))")
    case None
    then have none: "first_registered k f (keypad_regs d w) = None" by (simp add: first_keypad)
    from keypad_register_new [OF v(1) None pool] v(2,3) show ?thesis
      unfolding entered_def none by (auto simp: keypad_regs_def image_image)
  next
    case (Some n)
    then have some: "first_registered k f (keypad_regs d w) = Some (NodeAddress n)" by (simp add: first_keypad)
    from keypad_register_old [OF v(1) Some] v(2,3) show ?thesis
      unfolding entered_def some by (simp add: keypad_regs_def)
  qed
  then show "entered k f h' (keypad_regs d w) (keypad_regs d w') \<and> (\<forall>d'. d' \<noteq> d \<longrightarrow> keypad_regs d' w' = keypad_regs d' w)"
    using v(3) by (simp add: keypad_regs_def)
next
  fix w :: "'b keypads" and d h st w'
  assume w: "keypads_pool E w" and r: "keypad_unregister E d h w = (st, w')"
  obtain v where v: "KeypadUnregisterKeyNotify (E d) h (snd (w d)) = (st, v)" "w' = w(d := (fst (w d), v))"
    using r by (auto simp: keypad_unregister_def split: prod.splits)
  then show "keypads_pool E w'" using w unregister_good [OF v(1)] by (auto simp: keypads_pool_def)
next
  fix w :: "'b keypads" and d h st w' d'
  assume w: "keypads_pool E w" and r: "keypad_unregister E d h w = (st, w')"
  obtain v where v: "KeypadUnregisterKeyNotify (E d) h (snd (w d)) = (st, v)" "w' = w(d := (fst (w d), v))"
    using r by (auto simp: keypad_unregister_def split: prod.splits)
  have nodes: "nodes_ok (snd (w d))" using w by (simp add: keypads_pool_def)
  have "NotifyList (con v) = filter (\<lambda>n. Some (NodeAddress n) \<noteq> h) (NotifyList (con (snd (w d))))"
  proof (cases h)
    case None
    then show ?thesis using v(1) by (auto simp: KeypadUnregisterKeyNotify_def)
  next
    case (Some a)
    then show ?thesis using keypad_unregister_list [of "E d" a "snd (w d)" st v] v(1) nodes by simp
  qed
  then show "keypad_regs d' w' = (if d' = d then filter (\<lambda>r. Some (fst r) \<noteq> h) (keypad_regs d w) else keypad_regs d' w)"
    using v(2) by (simp add: keypad_regs_def filter_map comp_def)
qed

section \<open>Properties of the splitter over keypads\<close>

text \<open>C34: with keypads attached, reading a key through the splitter always returns, although its
  loop asks a keyboard again after every partial key: with a real key, saved or fresh, or with
  EFI_NOT_READY and no key.\<close>

theorem splitter_read_returns:
  assumes "connect_ok (keypads_env E bl env)" and "conin_inv s"
    and "keypads_ready (in_devices (read_point (keypads_env E bl env) s))"
  shows "\<exists>st k s'. ConSplitterTextInReadKeyStroke (keypads_env E bl env) s = Some (st, k, s')
     \<and> conin_inv s' \<and> keypads_ready (in_devices s')
     \<and> (if st = EFI_SUCCESS then real_key k else st = EFI_NOT_READY \<and> \<not> real_key k)"
proof -
  let ?env = "keypads_env E bl env"
  let ?s = "read_point ?env s"
  have inv: "conin_inv ?s" using assms(1,2) by (rule read_point_inv)
  obtain st k s' where r: "ConSplitterTextInPrivateReadKeyStroke ?env ?s = Some (st, k, s')" "keypads_ready (in_devices s')"
      "if st = EFI_SUCCESS then real_key k else st = EFI_NOT_READY \<and> \<not> real_key k"
    using keypad_keys.private_read_total [of ?env E bl ?s] conin_queue_ok [OF inv] assms(3) by auto
  then show ?thesis
    using private_read_inv [OF inv r(1)] by (simp add: ConSplitterTextInReadKeyStroke_def read_point_def)
qed

definition two_keypads :: "(u16 \<Rightarrow> bool) keypads conin_state" where
  "two_keypads = \<lparr>mConIn = mConIn_template\<lparr>TextInList := [0, 1], TextInListCount := 2, CurrentNumberOfConsoles := 2,
       TextInExList := [0, 1], TextInExListCount := 2, CurrentNumberOfExConsoles := 2, KeyQueue := [null_key, null_key],
       PhysicalKeyToggleState := KEY_STATE_VALID_EXPOSED\<rparr>,
     mConInIsConnect = False, in_allocs = 0, signals = [], in_devices = (\<lambda>_. (ex_device, ex_world))\<rparr>"

text \<open>The environment of \<open>two_keypads\<close>; the pool of the second keypad may be empty.\<close>

definition keypad_worlds :: "bool \<Rightarrow> nat \<Rightarrow> kp_env" where
  "keypad_worlds full d = (if d = 1 \<and> full then ex_env\<lparr>eAllocateZeroPool := (\<lambda>l. None)\<rparr> else ex_env)"

definition base_env :: "(u16 \<Rightarrow> bool) keypads in_env" where
  "base_env = \<lparr>in_reset = (\<lambda>d b w. (EFI_SUCCESS, w)), in_read = (\<lambda>d k w. (EFI_NOT_READY, k, w)),
     in_check = (\<lambda>d w. (EFI_NOT_READY, w)), ex_reset = (\<lambda>d b w. (EFI_SUCCESS, w)),
     ex_read = (\<lambda>d k w. (EFI_NOT_READY, k, w)),
     ex_check = (\<lambda>d w. (EFI_NOT_READY, w)), ex_set_state = (\<lambda>d t w. (EFI_SUCCESS, w)),
     ex_register = (\<lambda>d k f h w. (EFI_SUCCESS, Some d, w)), ex_unregister = (\<lambda>d h w. (EFI_SUCCESS, w)),
     sp_reset = (\<lambda>d b w. (EFI_SUCCESS, w)), sp_state = (\<lambda>d S w. (EFI_NOT_READY, S, w)),
     sp_mode = (\<lambda>d w. SimplePointerMode mConIn_template), sp_check = (\<lambda>d w. (EFI_NOT_READY, w)),
     ap_reset = (\<lambda>d b w. (EFI_SUCCESS, w)), ap_state = (\<lambda>d S w. (EFI_NOT_READY, S, w)),
     ap_mode = (\<lambda>d w. AbsolutePointerMode mConIn_template), ap_check = (\<lambda>d w. (EFI_NOT_READY, w)),
     in_alloc = Some, in_create_event = EFI_SUCCESS, in_connect = (\<lambda>s. s), pcdConInConnectOnDemand = True,
     junk_handle = None, junk_key = null_key, junk_device = 0, junk_sp = no_movement,
     junk_ap = \<lparr>CurrentX = 0, CurrentY = 0, CurrentZ = 0, ActiveButtons = 0\<rparr>\<rparr>"

abbreviation keypads_example :: "bool \<Rightarrow> (u16 \<Rightarrow> bool) keypads in_env" where
  "keypads_example full \<equiv> keypads_env (keypad_worlds full) ex_bitmaps base_env"

lemma base_env_simps [simp]:
  "in_alloc base_env = Some" "in_connect base_env = (\<lambda>s. s)" "pcdConInConnectOnDemand base_env"
  "junk_handle base_env = None"
  by (simp_all add: base_env_def)

lemma keypads_example_connect [simp]: "connect_ok (keypads_example full)"
  by (simp add: connect_ok_def)

lemma two_keypads_facts [simp]:
  "conin_inv two_keypads" "ex_devices two_keypads = [0, 1]" "in_devices two_keypads = (\<lambda>_. (ex_device, ex_world))"
  "SplitterNotifyList (mConIn two_keypads) = []" "in_allocs two_keypads = 0"
  "PhysicalKeyToggleState (mConIn two_keypads) = KEY_STATE_VALID_EXPOSED"
  by (simp_all add: two_keypads_def conin_inv_def mConIn_template_def handles_ok_def ex_devices_def)

lemma two_keypads_ready [simp]: "keypads_ready (\<lambda>_. (ex_device, ex_world))" "keypads_pool (keypad_worlds full) (\<lambda>_. (ex_device, ex_world))"
  using ex_pool_env by (auto simp: keypads_ready_def keypads_pool_def keypad_worlds_def pool_env_def)

theorem splitter_read_returns_witness:
  "\<exists>st k s'. ConSplitterTextInReadKeyStroke (keypads_example False) two_keypads = Some (st, k, s') \<and> keypads_ready (in_devices s')"
proof -
  have "in_devices (read_point (keypads_example False) two_keypads) = (\<lambda>_. (ex_device, ex_world))"
    by (simp add: read_point_def connect_on_demand_def two_keypads_def upd_in_def)
  then have "keypads_ready (in_devices (read_point (keypads_example False) two_keypads))" by simp
  from splitter_read_returns [OF keypads_example_connect two_keypads_facts(1) this] show ?thesis by blast
qed


text \<open>Two keypads that have the toggle notification under different addresses.\<close>

definition registered_keypad :: "ptr \<Rightarrow> (u16 \<Rightarrow> bool) keypad_lib \<times> kp_world" where
  "registered_keypad a = (ex_device, ex_world\<lparr>con := ex_con\<lparr>NotifyList :=
     [\<lparr>NodeAddress = a, NotifyKeyData = null_key, KeyNotificationFn = 1\<rparr>]\<rparr>, log := [cAllocateZeroPool (Some a)]\<rparr>)"


text \<open>A registration that succeeds is entered in every attached keypad, and unregistering
  the handle it returned takes exactly these entries out again and restores the splitter.\<close>

theorem splitter_register_roundtrip:
  assumes "keypads_pool E (in_devices s)" and "conin_inv s" and "distinct (ex_devices s)"
    and "\<forall>d\<in>set (ex_devices s). find_registered k f (NotifyList (con (snd (in_devices s d)))) = None"
    and "find_splitter_notify k f (SplitterNotifyList (mConIn s)) = None"
    and "\<forall>a. in_alloc env (in_allocs s) = Some a \<longrightarrow> a \<notin> NotifyAddress ` set (SplitterNotifyList (mConIn s))"
    and "ConSplitterTextInRegisterKeyNotify (keypads_env E bl env) (Some k) (Some f) False s = (EFI_SUCCESS, h, s1)"
  shows "(\<forall>d\<in>set (ex_devices s). \<exists>a. keypad_regs d (in_devices s1) = keypad_regs d (in_devices s) @ [(a, k, f)])
     \<and> (\<exists>s2. ConSplitterTextInUnregisterKeyNotify (keypads_env E bl env) h s1 = (EFI_SUCCESS, s2) \<and> mConIn s2 = mConIn s
          \<and> (\<forall>d. keypad_regs d (in_devices s2) = keypad_regs d (in_devices s)))"
  using keypad_notify.register_unregister [of "keypads_env E bl env" E s k f h s1] assms
  by (simp add: first_keypad)

theorem splitter_register_roundtrip_witness:
  "\<exists>h s1 s2. ConSplitterTextInRegisterKeyNotify (keypads_example False) (Some (scan_key SCAN_UP)) (Some 7) False two_keypads
          = (EFI_SUCCESS, h, s1)
     \<and> ConSplitterTextInUnregisterKeyNotify (keypads_example False) h s1 = (EFI_SUCCESS, s2)
     \<and> keypad_regs 1 (in_devices s1) \<noteq> [] \<and> keypad_regs 1 (in_devices s2) = []"
proof -
  let ?r = "ConSplitterTextInRegisterKeyNotify (keypads_example False) (Some (scan_key SCAN_UP)) (Some 7) False two_keypads"
  obtain st h s1 where r: "?r = (st, h, s1)" by (metis prod_cases3)
  have st: "st = EFI_SUCCESS"
    using r by (auto simp: ConSplitterTextInRegisterKeyNotify_def find_splitter_notify_def keypad_register_def Let_def
        KeypadRegisterKeyNotify_def find_registered_def split_beta keypad_worlds_def ex_env_def status_simps)
  have none: "\<forall>d\<in>set (ex_devices two_keypads). find_registered (scan_key SCAN_UP) 7 (NotifyList (con (snd (in_devices two_keypads d)))) = None"
     "find_splitter_notify (scan_key SCAN_UP) 7 (SplitterNotifyList (mConIn two_keypads)) = None"
     "\<forall>a. in_alloc base_env (in_allocs two_keypads) = Some a \<longrightarrow> a \<notin> NotifyAddress ` set (SplitterNotifyList (mConIn two_keypads))"
    by (simp_all add: find_registered_def find_splitter_notify_def)
  have start: "keypads_pool (keypad_worlds False) (in_devices two_keypads)" "distinct (ex_devices two_keypads)" by simp_all
  from splitter_register_roundtrip [OF start(1) two_keypads_facts(1) start(2) none r [unfolded st]] r st show ?thesis
    by (auto simp: keypad_regs_def)
qed

text \<open>Removing a keyboard moves the keyboards behind it down in the list but leaves the handle
  lists of the notifications as they are.  Unregistering a notification afterwards succeeds, but
  the keyboard that took the place gets the handle of the removed one: it keeps its
  registration, and so does the removed keyboard.\<close>

theorem splitter_delete_misaligns_handles:
  assumes "keypads_pool E (in_devices s)" and "conin_inv s" and "distinct (ex_devices s)"
    and "ex_devices s = ds1 @ d # e # ds2"
    and "List.find (\<lambda>m. NotifyAddress m = h) (SplitterNotifyList (mConIn s)) = Some n"
    and "NotifyHandleList n ! length ds1 = Some a" and "a \<notin> fst ` set (keypad_regs e (in_devices s))"
  shows "\<exists>s1 s2. ConSplitterTextInExDeleteDevice d s = (EFI_SUCCESS, s1)
     \<and> ConSplitterTextInUnregisterKeyNotify (keypads_env E bl env) (Some h) s1 = (EFI_SUCCESS, s2)
     \<and> keypad_regs e (in_devices s2) = keypad_regs e (in_devices s)
     \<and> keypad_regs d (in_devices s2) = keypad_regs d (in_devices s)"
proof -
  let ?ds = "ds1 @ e # ds2"
  obtain s1 where s1: "ConSplitterTextInExDeleteDevice d s = (EFI_SUCCESS, s1)" "ex_devices s1 = ?ds"
    using ex_del(2,3) [OF assms(2), of d] assms(3,4)
    by (metis (no_types, lifting) distinct_append distinct.simps(2) in_set_conv_decomp prod.collapse remove1_split
        Int_iff empty_iff insert_iff list.simps(15))
  have same: "SplitterNotifyList (mConIn s1) = SplitterNotifyList (mConIn s)" "in_devices s1 = in_devices s"
    using s1(1) by (auto simp: ConSplitterTextInExDeleteDevice_def upd_in_def split: option.splits)
  have dist: "distinct ?ds" and i: "length ds1 < length ?ds" and at: "?ds ! length ds1 = e" and d: "d \<notin> set ?ds"
    using assms(3,4) by auto
  let ?w = "unregister_all (keypads_env E bl env) ?ds (NotifyHandleList n) (in_devices s)"
  have "keypad_regs e ?w = filter (\<lambda>r. Some (fst r) \<noteq> Some a) (keypad_regs e (in_devices s))"
    using keypad_notify.unregister_all_at [of "keypads_env E bl env" E "in_devices s", OF _ assms(1) dist i,
      of "NotifyHandleList n"] assms(6) at by simp
  moreover have "keypad_regs d ?w = keypad_regs d (in_devices s)"
  proof -
    have "d \<notin> (!) ?ds ` set [0..<length ?ds]" using d by (metis (no_types) atLeastLessThan_iff imageE nth_mem set_upt)
    from keypad_notify.unregister_frame [OF assms(1) this] show ?thesis by (simp add: unregister_all_def)
  qed
  ultimately show ?thesis
    using s1 same assms(5,7)
    by (auto simp: ConSplitterTextInUnregisterKeyNotify_def in_upd_defs filter_id_conv rev_image_eqI)
qed

theorem splitter_delete_misaligns_handles_witness:
  "\<exists>s. ex_devices s = [0, 1] \<and> (\<exists>s1 s2. ConSplitterTextInExDeleteDevice 0 s = (EFI_SUCCESS, s1)
     \<and> ConSplitterTextInUnregisterKeyNotify (keypads_example False) (Some 9) s1 = (EFI_SUCCESS, s2)
     \<and> keypad_regs 1 (in_devices s2) = [(6, null_key, 1)])"
proof -
  let ?n = "\<lparr>NotifyAddress = 9, NotifyHandleList = [Some 5, Some 6], SplitterKeyData = null_key, SplitterNotificationFn = 1\<rparr>"
  let ?s = "(upd_in (\<lambda>P. P\<lparr>SplitterNotifyList := [?n]\<rparr>) two_keypads)\<lparr>in_devices := (\<lambda>d. registered_keypad (5 + d))\<rparr>"
  have pool: "keypads_pool (keypad_worlds False) (in_devices ?s)"
    using ex_pool_env by (auto simp: keypads_pool_def keypad_worlds_def registered_keypad_def nodes_ok_def live_pool_def live_step_def)
  have inv: "conin_inv ?s" by (simp add: upd_in_def conin_inv_def two_keypads_def mConIn_template_def handles_ok_def)
  have devs: "ex_devices ?s = [] @ 0 # 1 # []" by (simp add: upd_in_def ex_devices_def two_keypads_def)
  have dist: "distinct (ex_devices ?s)" unfolding devs by simp
  have find: "List.find (\<lambda>m. NotifyAddress m = 9) (SplitterNotifyList (mConIn ?s)) = Some ?n" by (simp add: upd_in_def)
  have handle: "NotifyHandleList ?n ! length ([] :: nat list) = Some 5" by simp
  have other: "5 \<notin> fst ` set (keypad_regs 1 (in_devices ?s))" by (simp add: keypad_regs_def registered_keypad_def)
  have regs: "keypad_regs 1 (in_devices ?s) = [(6, null_key, 1)]"
    by (simp add: keypad_regs_def registered_keypad_def)
  from splitter_delete_misaligns_handles [OF pool inv dist devs find handle other, of ex_bitmaps base_env] regs devs
  show ?thesis by (intro exI [of _ ?s]) auto
qed

section \<open>Toggle states\<close>

text \<open>What a keypad's \<open>SetState\<close> makes of a toggle state: it looks at the lock bits in an else-if chain.\<close>

definition set_to :: "u8 \<Rightarrow> KEYPAD_CONSOLE_IN_DEV \<Rightarrow> bool" where
  "set_to t c \<longleftrightarrow> ScrollLock c = bit t 0 \<and> NumLock c = (\<not> bit t 0 \<and> bit t 1)
     \<and> CapsLock c = (\<not> bit t 0 \<and> \<not> bit t 1 \<and> bit t 2)"

definition toggled :: "u8 \<Rightarrow> KEYPAD_CONSOLE_IN_DEV \<Rightarrow> KEYPAD_CONSOLE_IN_DEV" where
  "toggled t c = c\<lparr>ScrollLock := bit t 0, NumLock := \<not> bit t 0 \<and> bit t 1,
     CapsLock := \<not> bit t 0 \<and> \<not> bit t 1 \<and> bit t 2,
     IsSupportPartialKey := \<not> bit t 0 \<and> \<not> bit t 1 \<and> \<not> bit t 2 \<and> bit t 6\<rparr>"

definition keypad_con :: "'b keypads \<Rightarrow> nat \<Rightarrow> KEYPAD_CONSOLE_IN_DEV" where
  "keypad_con w d = con (snd (w d))"

definition working :: "'b keypads \<Rightarrow> bool" where
  "working w \<longleftrightarrow> (\<forall>d. \<not> KeypadErr (keypad_con w d))"

lemma toggled_simps [simp]:
  "set_to t (toggled t c)" "KeypadErr (toggled t c) = KeypadErr c" "toggled t (toggled t c) = toggled t c"
  by (simp_all add: set_to_def toggled_def)

lemma keypad_set_state_spec:
  assumes "working w"
  shows "fst (keypad_set_state E d t w) = (if bit t 7 then EFI_SUCCESS else EFI_UNSUPPORTED)"
    and "keypad_con (snd (keypad_set_state E d t w)) d' =
      (if d' = d \<and> bit t 7 then toggled t (keypad_con w d) else keypad_con w d')"
  using keypad_set_state_cases [of "E d" "Some t" "snd (w d)"] assms
  by (auto simp: keypad_set_state_def keypad_con_def working_def toggled_def split: prod.splits)

lemma set_state_working: "working w \<Longrightarrow> working (snd (keypad_set_state E d t w))"
  by (simp add: working_def keypad_set_state_spec [unfolded working_def])

text \<open>The loop over all keypads, with and without the valid bit.\<close>

lemma set_state_all_keypads:
  "working w \<Longrightarrow> set_state_all (keypads_env E bl env) t ds w = (st, w') \<Longrightarrow>
   st = (if bit t 7 \<or> ds = [] then EFI_SUCCESS else EFI_UNSUPPORTED) \<and> working w'
   \<and> (\<forall>d. keypad_con w' d = (if d \<in> set ds \<and> bit t 7 then toggled t (keypad_con w d) else keypad_con w d))"
proof (induction ds arbitrary: w)
  case (Cons d ds)
  let ?r = "keypad_set_state E d t w"
  have r: "fst ?r = (if bit t 7 then EFI_SUCCESS else EFI_UNSUPPORTED)" "working (snd ?r)"
      "\<And>d'. keypad_con (snd ?r) d' = (if d' = d \<and> bit t 7 then toggled t (keypad_con w d) else keypad_con w d')"
    using keypad_set_state_spec [OF Cons.prems(1)] set_state_working [OF Cons.prems(1)] by simp_all
  show ?case
  proof (cases "bit t 7")
    case True
    then have "set_state_all (keypads_env E bl env) t ds (snd ?r) = (st, w')"
      using Cons.prems(2) r(1) by (simp add: Let_def split_beta)
    from Cons.IH [OF r(2) this] r(3) True show ?thesis by auto
  next
    case False
    then show ?thesis using Cons.prems r by (auto simp: Let_def split_beta status_simps)
  qed
qed simp


definition locks :: "KEYPAD_CONSOLE_IN_DEV \<Rightarrow> bool \<times> bool \<times> bool \<times> bool" where
  "locks c = (ScrollLock c, NumLock c, CapsLock c, KeypadErr c)"

definition locks_same :: "'b keypads \<Rightarrow> 'b keypads \<Rightarrow> bool" where
  "locks_same w w' \<longleftrightarrow> (\<forall>d. locks (keypad_con w' d) = locks (keypad_con w d))"

lemma locks_sameI [intro]: "(\<And>d. locks (con (snd (w' d))) = locks (con (snd (w d)))) \<Longrightarrow> locks_same w w'"
  by (simp add: locks_same_def keypad_con_def)


lemma locks_same_refl [simp]: "locks_same w w"
  by (simp add: locks_same_def)









text \<open>Every keypad is as its \<open>SetState\<close> leaves it for the recorded state.\<close>

definition in_toggle_step :: "'b keypads conin_state \<Rightarrow> bool" where
  "in_toggle_step s \<longleftrightarrow> working (in_devices s) \<and> bit (PhysicalKeyToggleState (mConIn s)) 7
     \<and> (\<forall>d\<in>set (ex_devices s). set_to (PhysicalKeyToggleState (mConIn s)) (keypad_con (in_devices s) d))"

lemma bit_toggle [simp]:
  "bit (t OR EFI_KEY_STATE_EXPOSED) i = (bit t i \<or> i = 6)" "bit KEY_STATE_VALID_EXPOSED 7"
proof -
  have "EFI_KEY_STATE_EXPOSED = 2 ^ 6" by (simp add: EFI_KEY_STATE_EXPOSED_def)
  moreover have "bit (2 ^ 6 :: u8) i = (i = 6)" by (subst bit_exp_iff) auto
  ultimately show "bit (t OR EFI_KEY_STATE_EXPOSED) i = (bit t i \<or> i = 6)"
    by (simp only: bit_or_iff)
  show "bit KEY_STATE_VALID_EXPOSED 7"
    by (simp add: KEY_STATE_VALID_EXPOSED_def EFI_TOGGLE_STATE_VALID_def EFI_KEY_STATE_EXPOSED_def)
qed









lemma set_state_keypads:
  assumes "working (in_devices s)" "ConSplitterTextInSetState (keypads_env E bl env) (Some t) s = (st, s')"
  shows "st = (if bit t 7 \<or> ex_devices s = [] then EFI_SUCCESS else EFI_UNSUPPORTED)
    \<and> mConIn s' = (if st = EFI_SUCCESS then (mConIn s)\<lparr>PhysicalKeyToggleState := t OR EFI_KEY_STATE_EXPOSED,
         VirtualKeyStateExported := bit t 6\<rparr> else mConIn s) \<and> working (in_devices s')
    \<and> (\<forall>d. keypad_con (in_devices s') d = (if d \<in> set (ex_devices s) \<and> bit t 7
         then toggled (t OR EFI_KEY_STATE_EXPOSED) (keypad_con (in_devices s) d) else keypad_con (in_devices s) d))"
proof -
  let ?p = "t OR EFI_KEY_STATE_EXPOSED"
  obtain st1 w where r: "set_state_all (keypads_env E bl env) ?p (ex_devices s) (in_devices s) = (st1, w)" by fastforce
  have "(t AND EFI_KEY_STATE_EXPOSED \<noteq> 0) = bit t 6"
  proof -
    have "t AND EFI_KEY_STATE_EXPOSED = (if bit t 6 then EFI_KEY_STATE_EXPOSED else 0)"
    proof (rule bit_word_eqI)
      fix i
      have "bit EFI_KEY_STATE_EXPOSED i = (i = 6)" using bit_toggle(1) [of 0 i] by simp
      then show "bit (t AND EFI_KEY_STATE_EXPOSED) i = bit (if bit t 6 then EFI_KEY_STATE_EXPOSED else 0) i"
        by (auto simp: bit_and_iff)
    qed
    then show ?thesis by (simp add: EFI_KEY_STATE_EXPOSED_def)
  qed
  with set_state_all_keypads [OF assms(1) r] assms(2) r show ?thesis
    by (cases "bit t 7"; cases "ex_devices s = []")
      (auto simp: ConSplitterTextInSetState_def Let_def upd_in_def status_simps)
qed


definition one_lock :: "u8 \<Rightarrow> bool" where
  "one_lock t \<longleftrightarrow> \<not> (bit t 0 \<and> bit t 1) \<and> \<not> (bit t 0 \<and> bit t 2) \<and> \<not> (bit t 1 \<and> bit t 2)"




lemma one_lock_simps [simp]: "one_lock (t OR EFI_KEY_STATE_EXPOSED) = one_lock t" "one_lock KEY_STATE_VALID_EXPOSED"
  unfolding one_lock_def bit_toggle(1) by (simp_all add: KEY_STATE_VALID_EXPOSED_def EFI_TOGGLE_STATE_VALID_def EFI_KEY_STATE_EXPOSED_def)




lemma ex_toggle_step: "in_toggle_step two_keypads"
proof -
  have bits: "\<not> bit KEY_STATE_VALID_EXPOSED 0" "\<not> bit KEY_STATE_VALID_EXPOSED 1" "\<not> bit KEY_STATE_VALID_EXPOSED 2"
    by (simp_all add: KEY_STATE_VALID_EXPOSED_def EFI_TOGGLE_STATE_VALID_def EFI_KEY_STATE_EXPOSED_def)
  show ?thesis
    using bits by (auto simp: in_toggle_step_def working_def keypad_con_def set_to_def ex_con_def)
qed


text \<open>Setting the toggle state over keypads, on every branch: a state without the valid bit is
  refused and changes nothing, unless no keypad is attached, where it is recorded all the same;
  any other state reaches every keypad and is recorded with the exposed bit.  Although the
  splitter sets that bit to have partial keys reported, a keypad reports them only when
  no lock is active.\<close>

theorem splitter_set_state_cases:
  assumes "working (in_devices s)"
    and "ConSplitterTextInSetState (keypads_env E bl env) (Some t) s = (st, s')"
  shows "st = (if bit t 7 \<or> ex_devices s = [] then EFI_SUCCESS else EFI_UNSUPPORTED)
    \<and> PhysicalKeyToggleState (mConIn s') = (if st = EFI_SUCCESS then t OR EFI_KEY_STATE_EXPOSED else PhysicalKeyToggleState (mConIn s))
    \<and> VirtualKeyStateExported (mConIn s') = (if st = EFI_SUCCESS then bit t 6 else VirtualKeyStateExported (mConIn s))
    \<and> (\<forall>d. keypad_con (in_devices s') d = (if d \<in> set (ex_devices s) \<and> bit t 7
         then (keypad_con (in_devices s) d)\<lparr>ScrollLock := bit t 0, NumLock := \<not> bit t 0 \<and> bit t 1,
                CapsLock := \<not> bit t 0 \<and> \<not> bit t 1 \<and> bit t 2,
                IsSupportPartialKey := \<not> bit t 0 \<and> \<not> bit t 1 \<and> \<not> bit t 2\<rparr>
         else keypad_con (in_devices s) d))"
  using set_state_keypads [OF assms] by (simp add: toggled_def)

theorem splitter_set_state_cases_witness:
  "\<exists>s'. ConSplitterTextInSetState (keypads_example False) (Some 0x84) two_keypads = (EFI_SUCCESS, s')
     \<and> CapsLock (keypad_con (in_devices s') 1) \<and> \<not> IsSupportPartialKey (keypad_con (in_devices s') 1)"
proof -
  obtain st s' where r: "ConSplitterTextInSetState (keypads_example False) (Some 0x84) two_keypads = (st, s')" by fastforce
  have "working (in_devices two_keypads)" using ex_toggle_step by (simp add: in_toggle_step_def)
  from splitter_set_state_cases [OF this r] r show ?thesis by simp
qed

end
