(* ===== verification/SplitterPointerCorrect.thy ===== *)
theory SplitterPointerCorrect
  imports SplitterInCorrect
begin

text \<open>
  The virtual pointers: what a poll of the mice reports as a function of what they answer, the
  range of the virtual absolute pointer over devices whose range starts at zero, and where a
  device with another range puts it.
\<close>

section \<open>The virtual mouse\<close>

text \<open>The answers of the mice, in order.\<close>

fun mouse_answers ::
  "'w in_env \<Rightarrow> nat list \<Rightarrow> EFI_SIMPLE_POINTER_STATE \<Rightarrow> 'w \<Rightarrow>
   (efi_status \<times> EFI_SIMPLE_POINTER_STATE \<times> EFI_SIMPLE_POINTER_MODE) list \<times> 'w" where
  "mouse_answers env [] buf w = ([], w)"
| "mouse_answers env (d # ds) buf w =
     (let (st, Cur, w') = sp_state env d buf w; (rs, w'') = mouse_answers env ds Cur w'
      in ((st, Cur, sp_mode env d w') # rs, w''))"

definition answered :: "(efi_status \<times> 'a) list \<Rightarrow> 'a list" where
  "answered rs = map snd (filter (\<lambda>r. fst r = EFI_SUCCESS) rs)"

lemma answered_simps [simp]:
  "answered [] = []" "answered ((st, x) # rs) = (if st = EFI_SUCCESS then x # answered rs else answered rs)"
  by (simp_all add: answered_def)

text \<open>A resolution that is not zero but a multiple of 2^32 is a division by zero in the code.\<close>

definition axis_ok :: "u64 \<Rightarrow> bool" where
  "axis_ok r \<longleftrightarrow> r = 0 \<or> (ucast r :: 32 word) \<noteq> 0"

definition mode_ok :: "EFI_SIMPLE_POINTER_MODE \<Rightarrow> bool" where
  "mode_ok D \<longleftrightarrow> axis_ok (ResolutionX D) \<and> axis_ok (ResolutionY D) \<and> axis_ok (ResolutionZ D)"

definition axis_part :: "u64 \<Rightarrow> u64 \<Rightarrow> 32 word \<Rightarrow> 32 word" where
  "axis_part VirtualRes DeviceRes m =
     (if DeviceRes = 0 then 0 else word_of_int (sint (m * ucast VirtualRes) sdiv sint (ucast DeviceRes :: 32 word)))"

lemma scale_axis_ok: "axis_ok r \<Longrightarrow> scale_axis m v r acc = Some (acc + axis_part v r m)"
  by (auto simp: scale_axis_def axis_ok_def axis_part_def signed_divide_int_def)

definition merged_status :: "efi_status list \<Rightarrow> efi_status" where
  "merged_status sts = (if EFI_DEVICE_ERROR \<in> set sts then EFI_DEVICE_ERROR
     else if EFI_SUCCESS \<in> set sts then EFI_SUCCESS else EFI_NOT_READY)"

lemma fold_poll_status:
  "fold poll_status sts R = (if R = EFI_NOT_READY then merged_status sts
     else if EFI_DEVICE_ERROR \<in> set sts then EFI_DEVICE_ERROR else R)"
  by (induction sts arbitrary: R) (auto simp: poll_status_def merged_status_def status_simps)

lemma merge_pointers_answers:
  "\<forall>(st, Cur, D) \<in> set (fst (mouse_answers env ds buf w)). mode_ok D \<Longrightarrow>
   \<exists>S'. merge_pointers env V ds buf (R, S, w) =
       Some (fold poll_status (map fst (fst (mouse_answers env ds buf w))) R, S', snd (mouse_answers env ds buf w))
     \<and> LeftButton S' = (LeftButton S \<or> list_ex (LeftButton \<circ> fst) (answered (fst (mouse_answers env ds buf w))))
     \<and> RightButton S' = (RightButton S \<or> list_ex (RightButton \<circ> fst) (answered (fst (mouse_answers env ds buf w))))
     \<and> RelativeMovementX S' = RelativeMovementX S
         + (\<Sum>(Cur, D) \<leftarrow> answered (fst (mouse_answers env ds buf w)). axis_part (ResolutionX V) (ResolutionX D) (RelativeMovementX Cur))
     \<and> RelativeMovementY S' = RelativeMovementY S
         + (\<Sum>(Cur, D) \<leftarrow> answered (fst (mouse_answers env ds buf w)). axis_part (ResolutionY V) (ResolutionY D) (RelativeMovementY Cur))
     \<and> RelativeMovementZ S' = RelativeMovementZ S
         + (\<Sum>(Cur, D) \<leftarrow> answered (fst (mouse_answers env ds buf w)). axis_part (ResolutionZ V) (ResolutionZ D) (RelativeMovementZ Cur))"
proof (induction ds arbitrary: buf R S w)
  case (Cons d ds)
  obtain st Cur w' where r: "sp_state env d buf w = (st, Cur, w')" by (metis prod_cases3)
  obtain rs w'' where rs: "mouse_answers env ds Cur w' = (rs, w'')" by fastforce
  have ok: "mode_ok (sp_mode env d w')" "\<forall>(st, Cur, D) \<in> set (fst (mouse_answers env ds Cur w')). mode_ok D"
    using Cons.prems by (auto simp: r rs)
  show ?case
  proof (cases "st = EFI_SUCCESS")
    case True
    let ?S = "\<lparr>RelativeMovementX = RelativeMovementX S + axis_part (ResolutionX V) (ResolutionX (sp_mode env d w')) (RelativeMovementX Cur),
       RelativeMovementY = RelativeMovementY S + axis_part (ResolutionY V) (ResolutionY (sp_mode env d w')) (RelativeMovementY Cur),
       RelativeMovementZ = RelativeMovementZ S + axis_part (ResolutionZ V) (ResolutionZ (sp_mode env d w')) (RelativeMovementZ Cur),
       LeftButton = (LeftButton S \<or> LeftButton Cur), RightButton = (RightButton S \<or> RightButton Cur)\<rparr>"
    have "add_movement V (sp_mode env d w') Cur S = Some ?S"
      using ok(1) by (simp add: add_movement_def mode_ok_def scale_axis_ok)
    then show ?thesis
      using Cons.IH [OF ok(2), of "poll_status st R" ?S] True by (simp add: r rs add.assoc)
  next
    case False
    then show ?thesis
      using Cons.IH [OF ok(2), of "poll_status st R" S] by (simp add: r rs status_simps)
  qed
qed simp

text \<open>The virtual mouse asks every mouse once; it reports a button when any mouse that
  answered does, a movement that is the 32-bit sum of the scaled movements, EFI_DEVICE_ERROR
  when any mouse failed that way, and otherwise success exactly when some mouse answered.\<close>

theorem splitter_mouse_merges:
  assumes "mouse_answers env (pointer_devices s) (junk_sp env) (in_devices s) = (rs, w)"
    and "\<forall>(st, Cur, D) \<in> set rs. mode_ok D"
  shows "\<exists>S s'. ConSplitterSimplePointerGetState env s = Some (merged_status (map fst rs), S, s') \<and> in_devices s' = w
     \<and> (LeftButton S \<longleftrightarrow> list_ex (LeftButton \<circ> fst) (answered rs))
     \<and> (RightButton S \<longleftrightarrow> list_ex (RightButton \<circ> fst) (answered rs))
     \<and> RelativeMovementX S = (\<Sum>(Cur, D) \<leftarrow> answered rs.
          axis_part (ResolutionX (SimplePointerMode (mConIn s))) (ResolutionX D) (RelativeMovementX Cur))
     \<and> \<not> InputEventSignalState (mConIn s')"
proof -
  let ?s = "upd_in (\<lambda>P. P\<lparr>InputEventSignalState := False\<rparr>) s"
  have same: "pointer_devices ?s = pointer_devices s" "in_devices ?s = in_devices s"
      "SimplePointerMode (mConIn ?s) = SimplePointerMode (mConIn s)"
    by (simp_all add: upd_in_def pointer_devices_def)
  have "\<forall>(st, Cur, D) \<in> set (fst (mouse_answers env (pointer_devices s) (junk_sp env) (in_devices s))). mode_ok D"
    using assms by simp
  from merge_pointers_answers [OF this, of "SimplePointerMode (mConIn s)" EFI_NOT_READY no_movement] assms(1) same
  show ?thesis
    by (auto simp: ConSplitterSimplePointerGetState_def ConSplitterSimplePointerPrivateGetState_def fold_poll_status
        no_movement_def upd_in_def)
qed

definition ex_mice :: "(nat \<Rightarrow> EFI_KEY_DATA list) conin_state" where
  "ex_mice = ex_in_state\<lparr>mConIn := mConIn_template\<lparr>PointerList := [1, 2], PointerListCount := 2, CurrentNumberOfPointers := 2\<rparr>\<rparr>"

theorem splitter_mouse_merges_witness:
  "\<exists>S s'. ConSplitterSimplePointerGetState (ex_in_env\<lparr>sp_state := (\<lambda>d S w. (EFI_SUCCESS, no_movement\<lparr>LeftButton := (d = 2)\<rparr>, w))\<rparr>) ex_mice
      = Some (EFI_SUCCESS, S, s') \<and> LeftButton S"
proof -
  let ?env = "ex_in_env\<lparr>sp_state := (\<lambda>d S w. (EFI_SUCCESS, no_movement\<lparr>LeftButton := (d = 2)\<rparr>, w))\<rparr>"
  let ?D = "\<lparr>ResolutionX = 1, ResolutionY = 1, ResolutionZ = 1\<rparr> :: EFI_SIMPLE_POINTER_MODE"
  let ?rs = "[(EFI_SUCCESS, no_movement\<lparr>LeftButton := False\<rparr>, ?D), (EFI_SUCCESS, no_movement\<lparr>LeftButton := True\<rparr>, ?D)]"
  have mode: "sp_mode ex_in_env d w = ?D" for d w by (simp add: ex_in_env_def)
  have run: "mouse_answers ?env (pointer_devices ex_mice) (junk_sp ?env) (in_devices ex_mice) = (?rs, \<lambda>_. [])"
    by (simp add: ex_mice_def ex_in_state_def pointer_devices_def mode mConIn_template_def)
  have ok: "\<forall>(st, Cur, D) \<in> set ?rs. mode_ok D" by (simp add: mode_ok_def axis_ok_def)
  from splitter_mouse_merges [OF run ok] show ?thesis by (auto simp: merged_status_def)
qed

section \<open>The virtual absolute pointer\<close>

text \<open>A device whose X range starts at zero, and the position it reports.\<close>

definition zero_based :: "EFI_ABSOLUTE_POINTER_MODE \<Rightarrow> EFI_ABSOLUTE_POINTER_STATE \<Rightarrow> bool" where
  "zero_based D Cur \<longleftrightarrow>
     (AbsoluteMinX D = 0 \<and> 0 < AbsoluteMaxX D \<and> AbsoluteMaxX D < 2 ^ 47 \<and> CurrentX Cur \<le> AbsoluteMaxX D)
     \<and> (AbsoluteMinY D = 0 \<and> 0 < AbsoluteMaxY D \<and> AbsoluteMaxY D < 2 ^ 47 \<and> CurrentY Cur \<le> AbsoluteMaxY D)
     \<and> (AbsoluteMinZ D = 0 \<and> AbsoluteMaxZ D = 0)"

lemma map_axis_range:
  assumes "0 < m" "m < 2 ^ 47" "c \<le> m"
  shows "\<exists>x. map_axis 0 0x10000 0 m c old = Some x \<and> x \<le> 0x10000 \<and> unat x = unat c * 0x10000 div unat m"
proof -
  have m: "0 < unat m" "unat m < 2 ^ 47" using assms(1,2) by (simp_all add: word_less_nat_alt)
  have c: "unat c \<le> unat m" using assms(3) by (simp add: word_le_nat_alt)
  have "unat c * 0x10000 < 2 ^ 64" using c m(2) by simp
  then have prod: "unat (c * 0x10000) = unat c * 0x10000" by (subst unat_mult_lem [THEN iffD1]) simp_all
  have q: "unat ((c * 0x10000) div m) = unat c * 0x10000 div unat m" by (simp add: unat_div prod)
  have "unat c * 0x10000 div unat m \<le> 0x10000"
    using c m(1) by (metis div_le_mono mult_le_mono1 nonzero_mult_div_cancel_left not_gr_zero)
  then have "(c * 0x10000) div m \<le> 0x10000" by (simp add: word_le_nat_alt q)
  moreover have "m \<noteq> 0" using assms(1) by (simp add: word_gt_0)
  ultimately show ?thesis using q by (simp add: map_axis_def)
qed

text \<open>The answers of the absolute pointers, in order.\<close>

fun position_answers ::
  "'w in_env \<Rightarrow> nat list \<Rightarrow> EFI_ABSOLUTE_POINTER_STATE \<Rightarrow> 'w \<Rightarrow>
   (efi_status \<times> EFI_ABSOLUTE_POINTER_STATE \<times> EFI_ABSOLUTE_POINTER_MODE) list \<times> 'w" where
  "position_answers env [] buf w = ([], w)"
| "position_answers env (d # ds) buf w =
     (let (st, Cur, w') = ap_state env d buf w; (rs, w'') = position_answers env ds Cur w'
      in ((st, Cur, ap_mode env d w') # rs, w''))"

lemma length_position_answers: "length (fst (position_answers env ds buf w)) = length ds"
  by (induction ds arbitrary: buf w) (simp_all add: Let_def split_beta)

lemma merge_positions_range:
  assumes V: "V = AbsolutePointerMode mConIn_template"
  shows "\<forall>(Cur, D) \<in> set (answered (fst (position_answers env ds buf w))). zero_based D Cur \<Longrightarrow>
   CurrentX S \<le> 0x10000 \<Longrightarrow> CurrentY S \<le> 0x10000 \<Longrightarrow>
   \<exists>S'. merge_positions env V ds buf (R, S, w) =
       Some (fold poll_status (map fst (fst (position_answers env ds buf w))) R, S', snd (position_answers env ds buf w))
     \<and> CurrentX S' \<le> 0x10000 \<and> CurrentY S' \<le> 0x10000
     \<and> ActiveButtons S' = last (ActiveButtons S # map (ActiveButtons \<circ> fst) (answered (fst (position_answers env ds buf w))))"
proof (induction ds arbitrary: buf R S w)
  case (Cons d ds)
  obtain st Cur w' where r: "ap_state env d buf w = (st, Cur, w')" by (metis prod_cases3)
  obtain rs w'' where rs: "position_answers env ds Cur w' = (rs, w'')" by fastforce
  let ?D = "ap_mode env d w'"
  show ?case
  proof (cases "st = EFI_SUCCESS")
    case True
    have z: "zero_based ?D Cur" "\<forall>(Cur, D) \<in> set (answered (fst (position_answers env ds Cur w'))). zero_based D Cur"
      using Cons.prems(1) True by (auto simp: r rs)
    obtain x y where xy: "map_axis 0 0x10000 0 (AbsoluteMaxX ?D) (CurrentX Cur) (CurrentX S) = Some x" "x \<le> 0x10000"
        "map_axis 0 0x10000 0 (AbsoluteMaxY ?D) (CurrentY Cur) (CurrentY S) = Some y" "y \<le> 0x10000"
      using map_axis_range z(1) unfolding zero_based_def by metis
    have "map_position V ?D Cur S = Some \<lparr>CurrentX = x, CurrentY = y, CurrentZ = CurrentZ S, ActiveButtons = ActiveButtons Cur\<rparr>"
      using xy z(1) by (simp add: map_position_def V mConIn_template_def zero_based_def) (simp add: map_axis_def)
    then show ?thesis
      using Cons.IH [OF z(2), of "\<lparr>CurrentX = x, CurrentY = y, CurrentZ = CurrentZ S, ActiveButtons = ActiveButtons Cur\<rparr>"
          "poll_status st R"] xy True by (simp add: r rs)
  next
    case False
    then have "\<forall>(Cur, D) \<in> set (answered (fst (position_answers env ds Cur w'))). zero_based D Cur"
      using Cons.prems(1) by (simp add: r rs)
    from Cons.IH [OF this Cons.prems(2,3), of "poll_status st R"] False show ?thesis by (simp add: r rs status_simps)
  qed
qed simp

text \<open>Over absolute pointers whose ranges start at zero, the virtual absolute pointer always
  answers, stays within its own range of 0 to 65536 on both axes, and shows the buttons of
  the last device that answered.\<close>

theorem splitter_absolute_in_range:
  assumes "AbsolutePointerMode (mConIn s) = AbsolutePointerMode mConIn_template"
    and "position_answers env (absolute_devices s) (junk_ap env) (in_devices s) = (rs, w)"
    and "\<forall>(Cur, D) \<in> set (answered rs). zero_based D Cur"
  shows "\<exists>S s'. ConSplitterAbsolutePointerGetState env s = Some (merged_status (map fst rs), S, s') \<and> in_devices s' = w
     \<and> CurrentX S \<le> 0x10000 \<and> CurrentY S \<le> 0x10000
     \<and> ActiveButtons S = last (0 # map (ActiveButtons \<circ> fst) (answered rs))"
proof -
  let ?s = "upd_in (\<lambda>P. P\<lparr>AbsoluteInputEventSignalState := False\<rparr>) s"
  let ?z = "\<lparr>CurrentX = 0, CurrentY = 0, CurrentZ = 0, ActiveButtons = 0\<rparr> :: EFI_ABSOLUTE_POINTER_STATE"
  have same: "absolute_devices ?s = absolute_devices s" "in_devices ?s = in_devices s"
      "AbsolutePointerMode (mConIn ?s) = AbsolutePointerMode mConIn_template"
    using assms(1) by (simp_all add: upd_in_def absolute_devices_def)
  have "\<forall>(Cur, D) \<in> set (answered (fst (position_answers env (absolute_devices s) (junk_ap env) (in_devices s)))). zero_based D Cur"
    using assms(2,3) by simp
  from merge_positions_range [OF refl this, of ?z EFI_NOT_READY] assms(2) same
  show ?thesis by (auto simp: ConSplitterAbsolutePointerGetState_def fold_poll_status Let_def)
qed

definition ex_tablet :: "(nat \<Rightarrow> EFI_KEY_DATA list) conin_state" where
  "ex_tablet = ex_in_state\<lparr>mConIn := mConIn_template\<lparr>AbsolutePointerList := [4], AbsolutePointerListCount := 1,
     CurrentNumberOfAbsolutePointers := 1\<rparr>\<rparr>"

definition tablet_env :: "u64 \<Rightarrow> u64 \<Rightarrow> u64 \<Rightarrow> (nat \<Rightarrow> EFI_KEY_DATA list) in_env" where
  "tablet_env low high x = ex_in_env\<lparr>
     ap_state := (\<lambda>d S w. (EFI_SUCCESS, \<lparr>CurrentX = x, CurrentY = 0, CurrentZ = 0, ActiveButtons = 1\<rparr>, w)),
     ap_mode := (\<lambda>d w. \<lparr>AbsoluteMinX = low, AbsoluteMinY = 0, AbsoluteMinZ = 0,
                        AbsoluteMaxX = high, AbsoluteMaxY = 100, AbsoluteMaxZ = 0\<rparr>)\<rparr>"

lemma tablet_answers:
  "position_answers (tablet_env low high x) (absolute_devices ex_tablet) buf (in_devices ex_tablet) =
     ([(EFI_SUCCESS, \<lparr>CurrentX = x, CurrentY = 0, CurrentZ = 0, ActiveButtons = 1\<rparr>,
        \<lparr>AbsoluteMinX = low, AbsoluteMinY = 0, AbsoluteMinZ = 0, AbsoluteMaxX = high, AbsoluteMaxY = 100, AbsoluteMaxZ = 0\<rparr>)],
      in_devices ex_tablet)"
  by (simp add: ex_tablet_def absolute_devices_def mConIn_template_def ex_in_state_def tablet_env_def)

theorem splitter_absolute_in_range_witness:
  "\<exists>S s'. ConSplitterAbsolutePointerGetState (tablet_env 0 200 150) ex_tablet = Some (EFI_SUCCESS, S, s')
     \<and> CurrentX S \<le> 0x10000 \<and> ActiveButtons S = 1"
proof -
  have mode: "AbsolutePointerMode (mConIn ex_tablet) = AbsolutePointerMode mConIn_template" by (simp add: ex_tablet_def)
  have z: "\<forall>(Cur, D) \<in> set (answered (fst (position_answers (tablet_env 0 200 150) (absolute_devices ex_tablet)
      (junk_ap (tablet_env 0 200 150)) (in_devices ex_tablet)))). zero_based D Cur"
    by (simp add: tablet_answers zero_based_def)
  from splitter_absolute_in_range [OF mode surjective_pairing z] show ?thesis
    by (auto simp: tablet_answers merged_status_def)
qed

text \<open>With one absolute pointer whose X range starts above zero, the position is scaled
  without subtracting the start: at the right edge of the device the virtual pointer is past its
  own range.  With an empty range above zero the code divides by zero.\<close>

theorem splitter_absolute_offset:
  assumes "AbsolutePointerMode (mConIn s) = AbsolutePointerMode mConIn_template"
    and "position_answers env (absolute_devices s) (junk_ap env) (in_devices s) = ([(EFI_SUCCESS, Cur, D)], w)"
    and "0 < AbsoluteMinX D" and "AbsoluteMinX D \<le> AbsoluteMaxX D" and "AbsoluteMaxX D < 2 ^ 47"
    and "unat (AbsoluteMaxX D) - unat (AbsoluteMinX D) \<le> unat (AbsoluteMinX D) * 0x10000"
    and "CurrentX Cur = AbsoluteMaxX D"
    and "0 < AbsoluteMaxY D" and "AbsoluteMinY D = 0" and "AbsoluteMinZ D = 0" and "AbsoluteMaxZ D = 0"
  shows "if AbsoluteMinX D = AbsoluteMaxX D then ConSplitterAbsolutePointerGetState env s = None
     else \<exists>S s'. ConSplitterAbsolutePointerGetState env s = Some (EFI_SUCCESS, S, s') \<and> 0x10000 < CurrentX S"
proof -
  let ?s = "upd_in (\<lambda>P. P\<lparr>AbsoluteInputEventSignalState := False\<rparr>) s"
  let ?z = "\<lparr>CurrentX = 0, CurrentY = 0, CurrentZ = 0, ActiveButtons = 0\<rparr> :: EFI_ABSOLUTE_POINTER_STATE"
  obtain d where d: "absolute_devices s = [d]"
    using length_position_answers [of env "absolute_devices s" "junk_ap env" "in_devices s"] assms(2)
    by (cases "absolute_devices s") auto
  have one: "ap_state env d (junk_ap env) (in_devices s) = (EFI_SUCCESS, Cur, w)" "ap_mode env d w = D"
    using assms(2) by (auto simp: d Let_def split_beta prod_eq_iff)
  have same: "absolute_devices ?s = [d]" "in_devices ?s = in_devices s"
      "AbsolutePointerMode (mConIn ?s) = AbsolutePointerMode mConIn_template"
    using assms(1) d by (simp_all add: upd_in_def absolute_devices_def)
  have run: "ConSplitterAbsolutePointerGetState env s =
      map_option (\<lambda>S. (EFI_SUCCESS, S, ?s\<lparr>in_devices := w\<rparr>)) (map_position (AbsolutePointerMode mConIn_template) D Cur ?z)"
    by (simp add: ConSplitterAbsolutePointerGetState_def same one poll_status_def Let_def split: option.split)
  let ?m = "AbsoluteMinX D" and ?M = "AbsoluteMaxX D"
  have ne: "?m \<noteq> 0" "AbsoluteMaxY D \<noteq> 0" using assms(3,8) by (simp_all add: word_gt_0)
  show ?thesis
  proof (cases "?m = ?M")
    case True
    then show ?thesis using ne by (simp add: run map_position_def map_axis_def)
  next
    case False
    have M: "unat ?m < unat ?M" "unat ?M < 2 ^ 47" "0 < unat ?m"
      using assms(3,4,5) False by (auto simp: word_less_nat_alt word_le_nat_alt le_less word_unat_eq_iff)
    have prod: "unat (?M * 0x10000) = unat ?M * 0x10000"
      using M(2) by (subst unat_mult_lem [THEN iffD1]) simp_all
    have diff: "unat (?M - ?m) = unat ?M - unat ?m" using assms(4) by (rule unat_sub)
    have "0x10001 * (unat ?M - unat ?m) \<le> unat ?M * 0x10000"
      using assms(6) M(1) by (simp add: algebra_simps)
    then have "0x10001 \<le> (unat ?M * 0x10000) div (unat ?M - unat ?m)"
      using M(1) by (simp add: less_eq_div_iff_mult_less_eq)
    then have "0x10000 < (?M * 0x10000) div (?M - ?m)"
      by (simp add: word_less_nat_alt unat_div prod diff)
    moreover have "?M - ?m \<noteq> 0" using False by simp
    ultimately show ?thesis using False ne assms(7,9,10,11)
      by (simp add: run map_position_def map_axis_def mConIn_template_def)
  qed
qed

theorem splitter_absolute_offset_witness:
  "\<exists>S s'. ConSplitterAbsolutePointerGetState (tablet_env 100 200 200) ex_tablet = Some (EFI_SUCCESS, S, s') \<and> 0x10000 < CurrentX S"
proof -
  have mode: "AbsolutePointerMode (mConIn ex_tablet) = AbsolutePointerMode mConIn_template" by (simp add: ex_tablet_def)
  from splitter_absolute_offset [OF mode tablet_answers, of 100 200 200] show ?thesis by simp
qed

end
