(* ===== verification/GraphicsConsole.thy ===== *)
theory GraphicsConsole
  imports TextOut FrameBufferBlt
begin

text \<open>
  The graphics console (\<open>Drivers/GraphicsConsoleDxe/GraphicsConsole.c\<close>): a text console drawn
  on a graphics output, one driver instance per screen.  It derives a table of text modes from the
  resolution, and serves the simple text output protocol by drawing strings, scrolling and an
  XORed cursor.

  The graphics output (or UGA draw) protocol, the HII font protocol, the pool and the protocol
  services are not part of this driver.  What they answer comes from the environment
  record \<open>gc_env\<close>, whose fields see the calls made so far; every call is logged, so what is on
  the screen is a function of the log.  Pixels are the 32-bit little-endian words of
  \<open>EFI_GRAPHICS_OUTPUT_BLT_PIXEL\<close>.  The operations of the two draw protocols have the same
  arguments and names that differ in the prefix; they share one datatype.
\<close>

section \<open>Data\<close>

record GRAPHICS_CONSOLE_MODE_DATA =
  Columns :: nat
  Rows :: nat
  DeltaX :: int
  DeltaY :: int
  GopWidth :: nat
  GopHeight :: nat
  GopModeNumber :: nat

text \<open>Protocol pointers are only tested against NULL.  \<open>ModeDataP\<close> is the address of the array
  \<open>ModeData\<close>.\<close>

record GRAPHICS_CONSOLE_DEV =
  GraphicsOutput :: bool
  UgaDraw :: bool
  SimpleTextOutputMode :: EFI_SIMPLE_TEXT_OUTPUT_MODE
  ModeData :: "GRAPHICS_CONSOLE_MODE_DATA list"
  ModeDataP :: "ptr option"
  GcLineBuffer :: "ptr option"

definition EFI_GLYPH_WIDTH :: nat where "EFI_GLYPH_WIDTH = 8"
definition EFI_GLYPH_HEIGHT :: nat where "EFI_GLYPH_HEIGHT = 19"

definition mGraphicsConsoleDevTemplate :: GRAPHICS_CONSOLE_DEV where
  "mGraphicsConsoleDevTemplate =
     \<lparr>GraphicsOutput = False, UgaDraw = False,
      SimpleTextOutputMode = \<lparr>MaxMode = 0, CurMode = - 1, Attribute = 7, CursorColumn = 0, CursorRow = 0,
        CursorVisible = False\<rparr>,
      ModeData = [], ModeDataP = None, GcLineBuffer = None\<rparr>"

definition mGraphicsConsoleModeData :: "(nat \<times> nat) list" where
  "mGraphicsConsoleModeData = [(100, 31), (128, 40), (160, 42), (240, 56), (0, 0)]"

definition mGraphicsEfiColors :: "u32 list" where
  "mGraphicsEfiColors =
     [0x000000, 0x000098, 0x009800, 0x009898, 0x980000, 0x980098, 0x989800, 0x989898,
      0x303030, 0x0000ff, 0x00ff00, 0x00ffff, 0xff0000, 0xff00ff, 0xffff00, 0xffffff]"

text \<open>The bit rows of the cursor's glyph, an underline.\<close>

definition mCursorGlyph :: "u8 list" where
  "mCursorGlyph = replicate 16 0 @ [0xff, 0xff, 0xff]"

definition SpaceStr :: "u16 list" where
  "SpaceStr = [NARROW_CHAR, 0x20]"

definition mCrLfString :: "u16 list" where
  "mCrLfString = [CHAR_CARRIAGE_RETURN, CHAR_LINEFEED]"

section \<open>The world of the driver\<close>

datatype gc_guid = gEfiGraphicsOutputProtocolGuid | gEfiUgaDrawProtocolGuid
  | gEfiDevicePathProtocolGuid | gEfiSimpleTextOutProtocolGuid

record blt_args =
  BltOperation :: EFI_GRAPHICS_OUTPUT_BLT_OPERATION
  BltBuffer :: "u32 list"
  SrcX :: nat
  SrcY :: nat
  DstX :: nat
  DstY :: nat
  BltW :: nat
  BltH :: nat
  BltDelta :: nat

text \<open>The arguments of \<open>StringToImage\<close>: the string, its colours, the size of the image and the
  position in it.\<close>

record string_args =
  ImageString :: "u16 list"
  ForegroundColor :: u32
  BackgroundColor :: u32
  ImageWidth :: nat
  ImageHeight :: nat
  ImageX :: nat
  ImageY :: nat

datatype gc_block = PrivateBlock | ModeBlock nat | LineBlock nat | ImageBlock | StringBlock nat
  | FontInfoBlock | BitmapBlock nat

datatype gc_call =
    gBlt gc_guid blt_args
  | gQueryMode nat efi_status
  | gSetMode nat
  | gUgaGetMode
  | gUgaSetMode nat nat
  | gStringToScreen string_args
  | gStringToBitmap string_args
  | gGetGlyph u16
  | gAllocate gc_block "ptr option"
  | gFree "ptr option"
  | gRaiseTPL efi_tpl efi_tpl  \<comment> \<open>new level, level returned\<close>
  | gRestoreTPL efi_tpl
  | gOpenProtocol gc_guid efi_status
  | gCloseProtocol gc_guid
  | gInstall efi_status
  | gUninstall efi_status

type_synonym gc_log = "gc_call list"

text \<open>The mode structure a graphics output shows, with the resolution of its \<open>Info\<close>.\<close>

record gop_mode =
  GopMaxMode :: nat
  GopMode :: nat
  GopInfoH :: nat
  GopInfoV :: nat

record gc_env =
  gc_Blt :: "gc_log \<Rightarrow> gc_guid \<Rightarrow> blt_args \<Rightarrow> efi_status \<times> u32 list"
  gc_GopMode :: "gc_log \<Rightarrow> gop_mode"
  gc_QueryMode :: "gc_log \<Rightarrow> nat \<Rightarrow> efi_status \<times> ptr \<times> nat \<times> nat"
  gc_SetMode :: "gc_log \<Rightarrow> nat \<Rightarrow> efi_status"
  gc_UgaGetMode :: "gc_log \<Rightarrow> efi_status \<times> nat \<times> nat"
  gc_UgaSetMode :: "gc_log \<Rightarrow> nat \<Rightarrow> nat \<Rightarrow> efi_status"
  gc_StringToScreen :: "gc_log \<Rightarrow> string_args \<Rightarrow> efi_status"
  gc_StringToBitmap :: "gc_log \<Rightarrow> string_args \<Rightarrow> efi_status \<times> ptr option \<times> u32 list \<times> nat \<times> nat"
  gc_GetGlyph :: "gc_log \<Rightarrow> u16 \<Rightarrow> efi_status \<times> ptr option"
  gc_Allocate :: "gc_log \<Rightarrow> gc_block \<Rightarrow> ptr option"
  gc_RaiseTPL :: "gc_log \<Rightarrow> efi_tpl"
  gc_OpenProtocol :: "gc_log \<Rightarrow> gc_guid \<Rightarrow> efi_status"
  gc_Install :: "gc_log \<Rightarrow> efi_status"
  gc_Uninstall :: "gc_log \<Rightarrow> efi_status"
  gc_LocateHii :: "efi_status \<times> efi_status"
  gc_stack_pixels :: "u32 list"  \<comment> \<open>what an uninitialised glyph buffer holds\<close>
  UgaConsumeSupport :: bool
  VideoHorizontalResolution :: nat
  VideoVerticalResolution :: nat
  ConOutColumn :: nat
  ConOutRow :: nat

record gc_state =
  gcDev :: GRAPHICS_CONSOLE_DEV
  gcLog :: gc_log

definition gemit :: "gc_call \<Rightarrow> gc_state \<Rightarrow> gc_state" where
  "gemit c s = s\<lparr>gcLog := gcLog s @ [c]\<rparr>"

definition text_mode :: "gc_state \<Rightarrow> EFI_SIMPLE_TEXT_OUTPUT_MODE" where
  "text_mode s = SimpleTextOutputMode (gcDev s)"

definition upd_mode :: "(EFI_SIMPLE_TEXT_OUTPUT_MODE \<Rightarrow> EFI_SIMPLE_TEXT_OUTPUT_MODE) \<Rightarrow> gc_state \<Rightarrow> gc_state" where
  "upd_mode f s = s\<lparr>gcDev := (gcDev s)\<lparr>SimpleTextOutputMode := f (text_mode s)\<rparr>\<rparr>"

definition mode_data :: "gc_state \<Rightarrow> GRAPHICS_CONSOLE_MODE_DATA" where
  "mode_data s = ModeData (gcDev s) ! nat (CurMode (text_mode s))"

definition gRaise :: "gc_env \<Rightarrow> gc_state \<Rightarrow> efi_tpl \<times> gc_state" where
  "gRaise e s = (let old = gc_RaiseTPL e (gcLog s) in (old, gemit (gRaiseTPL TPL_NOTIFY old) s))"

definition gAlloc :: "gc_env \<Rightarrow> gc_block \<Rightarrow> gc_state \<Rightarrow> ptr option \<times> gc_state" where
  "gAlloc e b s = (let p = gc_Allocate e (gcLog s) b in (p, gemit (gAllocate b p) s))"

text \<open>Drawing through whichever protocol the device has; no protocol, no result.\<close>

definition screen_blt :: "gc_env \<Rightarrow> blt_args \<Rightarrow> gc_state \<Rightarrow> (efi_status \<times> u32 list) option \<times> gc_state" where
  "screen_blt e a s =
     (if GraphicsOutput (gcDev s)
      then (Some (gc_Blt e (gcLog s) gEfiGraphicsOutputProtocolGuid a), gemit (gBlt gEfiGraphicsOutputProtocolGuid a) s)
      else if UgaConsumeSupport e
      then (Some (gc_Blt e (gcLog s) gEfiUgaDrawProtocolGuid a), gemit (gBlt gEfiUgaDrawProtocolGuid a) s)
      else (None, s))"

definition video_fill :: "u32 \<Rightarrow> nat \<Rightarrow> nat \<Rightarrow> nat \<Rightarrow> nat \<Rightarrow> nat \<Rightarrow> blt_args" where
  "video_fill c x y w h delta =
     \<lparr>BltOperation = EfiBltVideoFill, BltBuffer = [c], SrcX = 0, SrcY = 0, DstX = x, DstY = y,
      BltW = w, BltH = h, BltDelta = delta\<rparr>"

section \<open>Text modes\<close>

text \<open>The margin that centres \<open>n\<close> cells of the given size: unsigned 64-bit subtraction and shift.\<close>

definition mode_delta :: "nat \<Rightarrow> nat \<Rightarrow> nat \<Rightarrow> int" where
  "mode_delta Resolution n cell = int (wrap (Resolution + 2 ^ 64 - wrap (n * cell)) div 2)"

definition mode_entry :: "nat \<Rightarrow> nat \<Rightarrow> nat \<Rightarrow> nat \<Rightarrow> nat \<Rightarrow> GRAPHICS_CONSOLE_MODE_DATA" where
  "mode_entry H V ModeNumber c r =
     \<lparr>Columns = c, Rows = r, DeltaX = mode_delta H c EFI_GLYPH_WIDTH, DeltaY = mode_delta V r EFI_GLYPH_HEIGHT,
      GopWidth = H, GopHeight = V, GopModeNumber = ModeNumber\<rparr>"

definition zero_mode :: GRAPHICS_CONSOLE_MODE_DATA where
  "zero_mode = \<lparr>Columns = 0, Rows = 0, DeltaX = 0, DeltaY = 0, GopWidth = 0, GopHeight = 0, GopModeNumber = 0\<rparr>"

text \<open>One round of the loop over the wanted sizes: the valid modes found so far are the first
  \<open>ValidCount\<close> entries of the buffer.\<close>

definition add_text_mode ::
  "nat \<Rightarrow> nat \<Rightarrow> nat \<Rightarrow> nat \<times> nat \<Rightarrow> nat \<times> GRAPHICS_CONSOLE_MODE_DATA list \<Rightarrow> nat \<times> GRAPHICS_CONSOLE_MODE_DATA list" where
  "add_text_mode H V ModeNumber = (\<lambda>(c, r) (ValidCount, buf).
     if c = 0 \<or> r = 0 \<or> H div EFI_GLYPH_WIDTH < c \<or> V div EFI_GLYPH_HEIGHT < r then (ValidCount, buf)
     else if list_ex (\<lambda>d. c = Columns d \<and> r = Rows d) (take ValidCount buf) then (ValidCount, buf)
     else (Suc ValidCount, buf[ValidCount := mode_entry H V ModeNumber c r]))"

text \<open>Mode 0 is always there; mode 1 (80 by 50) is switched off by a constant false condition, and its
  entry keeps zero columns and rows.\<close>

definition InitializeGraphicsConsoleTextMode :: "nat \<Rightarrow> nat \<Rightarrow> nat \<Rightarrow> nat \<times> GRAPHICS_CONSOLE_MODE_DATA list" where
  "InitializeGraphicsConsoleTextMode H V ModeNumber =
     (let Count = length mGraphicsConsoleModeData;
          MaxColumns = H div EFI_GLYPH_WIDTH;
          MaxRows = V div EFI_GLYPH_HEIGHT;
          wanted = mGraphicsConsoleModeData[Count - 1 := (MaxColumns, MaxRows)];
          buf0 = replicate (Count + 2) zero_mode;
          buf1 = buf0[0 := mode_entry H V ModeNumber 50 120];
          buf2 = buf1[1 := zero_mode\<lparr>GopWidth := H, GopHeight := V, GopModeNumber := ModeNumber\<rparr>]
      in fold (add_text_mode H V ModeNumber) wanted (2, buf2))"

section \<open>Drawing\<close>

definition GetTextColors :: "EFI_SIMPLE_TEXT_OUTPUT_MODE \<Rightarrow> u32 \<times> u32" where
  "GetTextColors t =
     (let Attr = Attribute t AND 0x7f
      in (mGraphicsEfiColors ! nat (Attr AND 0x0f), mGraphicsEfiColors ! nat (drop_bit 4 Attr)))"

text \<open>The glyph buffer of the cursor, row by row; the cursor's bits are inverted with the
  foreground colour.\<close>

definition toggle_pixel :: "u32 \<Rightarrow> nat \<Rightarrow> nat \<Rightarrow> u32 list \<Rightarrow> u32 list" where
  "toggle_pixel Foreground PosY PosX BltChar =
     (if bit (mCursorGlyph ! PosY) PosX
      then (let i = PosY * EFI_GLYPH_WIDTH + (EFI_GLYPH_WIDTH - PosX - 1)
            in BltChar[i := BltChar ! i XOR Foreground])
      else BltChar)"

definition toggle_glyph :: "u32 \<Rightarrow> u32 list \<Rightarrow> u32 list" where
  "toggle_glyph Foreground =
     fold (\<lambda>PosY. fold (toggle_pixel Foreground PosY) [0..<EFI_GLYPH_WIDTH]) [0..<EFI_GLYPH_HEIGHT]"

text \<open>The position of the cursor's cell on the screen, as the unsigned value that is passed on.\<close>

definition cursor_x :: "gc_state \<Rightarrow> nat" where
  "cursor_x s = uintn (CursorColumn (text_mode s) * int EFI_GLYPH_WIDTH + DeltaX (mode_data s))"

definition cursor_y :: "gc_state \<Rightarrow> nat" where
  "cursor_y s = uintn (CursorRow (text_mode s) * int EFI_GLYPH_HEIGHT + DeltaY (mode_data s))"

definition read_glyph :: "nat \<Rightarrow> nat \<Rightarrow> u32 list \<Rightarrow> blt_args" where
  "read_glyph x y BltChar =
     \<lparr>BltOperation = EfiBltVideoToBltBuffer, BltBuffer = BltChar, SrcX = x, SrcY = y, DstX = 0, DstY = 0,
      BltW = EFI_GLYPH_WIDTH, BltH = EFI_GLYPH_HEIGHT, BltDelta = EFI_GLYPH_WIDTH * 4\<rparr>"

definition write_glyph :: "nat \<Rightarrow> nat \<Rightarrow> u32 list \<Rightarrow> blt_args" where
  "write_glyph x y BltChar =
     \<lparr>BltOperation = EfiBltBufferToVideo, BltBuffer = BltChar, SrcX = 0, SrcY = 0, DstX = x, DstY = y,
      BltW = EFI_GLYPH_WIDTH, BltH = EFI_GLYPH_HEIGHT, BltDelta = EFI_GLYPH_WIDTH * 4\<rparr>"

definition FlushCursor :: "gc_env \<Rightarrow> gc_state \<Rightarrow> gc_state" where
  "FlushCursor e s =
     (if \<not> CursorVisible (text_mode s) then s
      else let GlyphX = cursor_x s; GlyphY = cursor_y s;
               (r, s1) = screen_blt e (read_glyph GlyphX GlyphY (gc_stack_pixels e)) s;
               BltChar = (case r of Some (_, buf) \<Rightarrow> buf | None \<Rightarrow> gc_stack_pixels e);
               (Foreground, _) = GetTextColors (text_mode s1)
           in snd (screen_blt e (write_glyph GlyphX GlyphY (toggle_glyph Foreground BltChar)) s1))"

text \<open>The scroll of the text area by one line, and the blanking of the last line.\<close>

definition video_scroll :: "nat \<Rightarrow> nat \<Rightarrow> nat \<Rightarrow> nat \<Rightarrow> nat \<Rightarrow> blt_args" where
  "video_scroll x y w h delta =
     \<lparr>BltOperation = EfiBltVideoToVideo, BltBuffer = [], SrcX = x, SrcY = wrap (y + EFI_GLYPH_HEIGHT),
      DstX = x, DstY = y, BltW = w, BltH = h, BltDelta = delta\<rparr>"

definition string_args_of :: "gc_state \<Rightarrow> u16 list \<Rightarrow> string_args" where
  "string_args_of s String =
     (let (fg, bg) = GetTextColors (text_mode s)
      in \<lparr>ImageString = String, ForegroundColor = fg, BackgroundColor = bg,
          ImageWidth = GopWidth (mode_data s) mod 2 ^ 16, ImageHeight = GopHeight (mode_data s) mod 2 ^ 16,
          ImageX = cursor_x s, ImageY = cursor_y s\<rparr>)"

text \<open>The UGA half draws the string into a bitmap and transfers its first row.\<close>

definition draw_bitmap :: "gc_env \<Rightarrow> string_args \<Rightarrow> gc_state \<Rightarrow> efi_status \<times> gc_state" where
  "draw_bitmap e a s =
     (let (Status, RowInfoArray, Bitmap, LineWidth, LineHeight) = gc_StringToBitmap e (gcLog s) a;
          s1 = gemit (gStringToBitmap a) s;
          (Status', s2) =
            (if \<not> EFI_ERROR Status
             then let b = \<lparr>BltOperation = EfiBltBufferToVideo, BltBuffer = Bitmap, SrcX = ImageX a, SrcY = ImageY a,
                           DstX = ImageX a, DstY = ImageY a, BltW = LineWidth, BltH = LineHeight,
                           BltDelta = ImageWidth a * 4\<rparr>
                  in (fst (gc_Blt e (gcLog s1) gEfiUgaDrawProtocolGuid b), gemit (gBlt gEfiUgaDrawProtocolGuid b) s1)
             else (Status, s1))
      in (Status', gemit (gFree RowInfoArray) s2))"

definition DrawUnicodeWeightAtCursorN :: "gc_env \<Rightarrow> u16 list \<Rightarrow> nat \<Rightarrow> gc_state \<Rightarrow> efi_status \<times> gc_state" where
  "DrawUnicodeWeightAtCursorN e UnicodeWeight Count s =
     (case gAlloc e ImageBlock s of
        (None, s1) \<Rightarrow> (EFI_OUT_OF_RESOURCES, s1)
      | (Some Blt, s1) \<Rightarrow>
     (case gAlloc e (StringBlock (Count + 1)) s1 of
        (None, s2) \<Rightarrow> (EFI_OUT_OF_RESOURCES, gemit (gFree (Some Blt)) s2)
      | (Some String, s2) \<Rightarrow>
     (case gAlloc e FontInfoBlock s2 of
        (None, s3) \<Rightarrow> (EFI_OUT_OF_RESOURCES, gemit (gFree (Some String)) (gemit (gFree (Some Blt)) s3))
      | (Some FontInfo, s3) \<Rightarrow>
         let a = string_args_of s3 (take Count UnicodeWeight);
             free_all = (\<lambda>s. gemit (gFree (Some FontInfo)) (gemit (gFree (Some String)) (gemit (gFree (Some Blt)) s)))
         in if GraphicsOutput (gcDev s3)
            then (gc_StringToScreen e (gcLog s3) a, free_all (gemit (gStringToScreen a) s3))
            else if UgaConsumeSupport e
            then (case gAlloc e (BitmapBlock (ImageWidth a * ImageHeight a)) s3 of
                    (None, s4) \<Rightarrow> (EFI_OUT_OF_RESOURCES, gemit (gFree (Some String)) (gemit (gFree (Some Blt)) s4))
                  | (Some Bitmap, s4) \<Rightarrow>
                      let (Status, s5) = draw_bitmap e a s4
                      in (Status, free_all (gemit (gFree (Some Bitmap)) s5)))
            else (EFI_UNSUPPORTED, free_all s3))))"

section \<open>Output\<close>

text \<open>The locals that \<open>OutputString\<close> computes on entry.\<close>

record out_locals =
  oMaxColumn :: nat
  oMaxRow :: nat
  oDeltaX :: nat
  oDeltaY :: nat
  oWidth :: nat
  oHeight :: nat
  oDelta :: nat
  oBackground :: u32

definition out_locals_of :: "gc_state \<Rightarrow> out_locals" where
  "out_locals_of s =
     (let d = mode_data s; W = wrap (Columns d * EFI_GLYPH_WIDTH)
      in \<lparr>oMaxColumn = Columns d, oMaxRow = Rows d, oDeltaX = uintn (DeltaX d), oDeltaY = uintn (DeltaY d),
          oWidth = W, oHeight = wrap (wrap (Rows d + 2 ^ 64 - 1) * EFI_GLYPH_HEIGHT), oDelta = wrap (W * 4),
          oBackground = snd (GetTextColors (text_mode s))\<rparr>)"

text \<open>On entry: raise the priority level, take the cursor off the screen, remember the attribute; on
  return the attribute and the cursor are put back.\<close>

definition output_enter :: "gc_env \<Rightarrow> gc_state \<Rightarrow> out_locals \<times> efi_tpl \<times> int \<times> gc_state" where
  "output_enter e s =
     (let (OldTpl, s1) = gRaise e s; s2 = FlushCursor e s1
      in (out_locals_of s1, OldTpl, Attribute (text_mode s2), s2))"

definition output_leave :: "gc_env \<Rightarrow> efi_tpl \<Rightarrow> int \<Rightarrow> gc_state \<Rightarrow> gc_state" where
  "output_leave e OldTpl OriginAttribute s =
     gemit (gRestoreTPL OldTpl) (FlushCursor e (upd_mode (\<lambda>t. t\<lparr>Attribute := OriginAttribute\<rparr>) s))"

text \<open>\<open>output_call\<close> is a call of \<open>OutputString\<close> from within its own loop, with the loop as an argument;
  the callers ignore the status.\<close>

type_synonym loop_state = "efi_status \<times> bool \<times> gc_state"

definition output_call ::
  "(gc_env \<times> out_locals \<times> u16 list \<times> loop_state \<Rightarrow> loop_state option) \<Rightarrow> gc_env \<Rightarrow> u16 list \<Rightarrow> gc_state \<Rightarrow> gc_state option" where
  "output_call output_loop e WString s =
     (if CurMode (text_mode s) = - 1 then Some s
      else let (L, OldTpl, OriginAttribute, s1) = output_enter e s
           in map_option (\<lambda>(Status, Warning, s2). output_leave e OldTpl OriginAttribute s2)
                (output_loop (e, L, WString, EFI_SUCCESS, False, s1)))"

lemma output_call_mono [partial_function_mono]:
  assumes "\<And>x. mono_option (\<lambda>f. B f x)"
  shows "mono_option (\<lambda>f. output_call (B f) e WString s)"
proof (cases "CurMode (text_mode s) = - 1")
  case True
  then show ?thesis by (simp add: output_call_def monotone_def option.leq_refl)
next
  case False
  obtain L OldTpl Attr s1 where enter: "output_enter e s = (L, OldTpl, Attr, s1)" by (metis prod_cases4)
  have "monotone (fun_ord option_ord) option_ord (\<lambda>f. B f (e, L, WString, EFI_SUCCESS, False, s1))"
    by (rule assms)
  then show ?thesis
    using False by (fastforce simp: output_call_def enter monotone_def flat_ord_def map_option_case split: option.splits)
qed

definition move_to :: "int \<Rightarrow> int \<Rightarrow> gc_state \<Rightarrow> gc_state" where
  "move_to column row = upd_mode (\<lambda>t. t\<lparr>CursorColumn := column, CursorRow := row\<rparr>)"

text \<open>The column before the first of the next line, as the code's cast has it.\<close>

definition last_cell :: "nat \<Rightarrow> int" where
  "last_cell n = int32 (wrap (n + 2 ^ 64 - 1))"

definition output_linefeed :: "gc_env \<Rightarrow> out_locals \<Rightarrow> gc_state \<Rightarrow> gc_state" where
  "output_linefeed e L s =
     (let t = text_mode s in
      if CursorRow t = last_cell (oMaxRow L)
      then let (_, s1) = screen_blt e (video_scroll (oDeltaX L) (oDeltaY L) (oWidth L) (oHeight L) (oDelta L)) s;
               (_, s2) = screen_blt e (video_fill (oBackground L) (oDeltaX L) (wrap (oDeltaY L + oHeight L)) (oWidth L)
                           EFI_GLYPH_HEIGHT (oDelta L)) s1
           in s2
      else move_to (CursorColumn t) (CursorRow t + 1) s)"

definition is_control :: "u16 \<Rightarrow> bool" where
  "is_control c \<longleftrightarrow> c \<in> {0, CHAR_BACKSPACE, CHAR_LINEFEED, CHAR_CARRIAGE_RETURN, WIDE_CHAR, NARROW_CHAR}"

text \<open>How many characters of the string fit on the line (\<open>Count\<close>) and the cells they take
  (\<open>Index\<close>).  Past the end of the list is the terminating null character.\<close>

fun scan_run :: "bool \<Rightarrow> nat \<Rightarrow> nat \<Rightarrow> u16 list \<Rightarrow> nat \<Rightarrow> nat \<Rightarrow> nat \<times> nat" where
  "scan_run wide MaxColumn Column [] Count Index = (Count, Index)"
| "scan_run wide MaxColumn Column (c # cs) Count Index =
     (if \<not> wrap (Column + Index) < MaxColumn \<or> is_control c then (Count, Index)
      else if wide
      then (if MaxColumn < wrap (Column + Suc Index + 1) then (Count, Suc (Suc Index))
            else scan_run wide MaxColumn Column cs (Suc Count) (Suc (Suc Index)))
      else scan_run wide MaxColumn Column cs (Suc Count) (Suc Index))"

definition is_wide :: "EFI_SIMPLE_TEXT_OUTPUT_MODE \<Rightarrow> bool" where
  "is_wide t \<longleftrightarrow> Attribute t AND EFI_WIDE_ATTRIBUTE \<noteq> 0"

partial_function (option) output_loop :: "gc_env \<times> out_locals \<times> u16 list \<times> loop_state \<Rightarrow> loop_state option" where
  "output_loop args =
     (case args of (e, L, WString, Status, Warning, s) \<Rightarrow>
     (case WString of [] \<Rightarrow> Some (Status, Warning, s)
      | c # rest \<Rightarrow>
     (let t = text_mode s in
      if c = 0 then Some (Status, Warning, s)
      else if c = CHAR_BACKSPACE then
        (if CursorColumn t = 0 \<and> 0 < CursorRow t
         then Option.bind (output_call output_loop e SpaceStr (move_to (last_cell (oMaxColumn L)) (CursorRow t - 1) s))
                (\<lambda>s1. let s2 = FlushCursor e s1 in
                   output_loop (e, L, rest, Status, Warning, move_to (last_cell (oMaxColumn L)) (CursorRow (text_mode s2) - 1) s2))
         else if 0 < CursorColumn t
         then Option.bind (output_call output_loop e SpaceStr (move_to (CursorColumn t - 1) (CursorRow t) s))
                (\<lambda>s1. let s2 = FlushCursor e s1 in
                   output_loop (e, L, rest, Status, Warning, move_to (CursorColumn (text_mode s2) - 1) (CursorRow (text_mode s2)) s2))
         else output_loop (e, L, rest, Status, Warning, s))
      else if c = CHAR_LINEFEED then
        output_loop (e, L, rest, Status, Warning, output_linefeed e L s)
      else if c = CHAR_CARRIAGE_RETURN then
        output_loop (e, L, rest, Status, Warning, move_to 0 (CursorRow t) s)
      else if c = WIDE_CHAR then
        output_loop (e, L, rest, Status, Warning, upd_mode (\<lambda>t. t\<lparr>Attribute := Attribute t OR EFI_WIDE_ATTRIBUTE\<rparr>) s)
      else if c = NARROW_CHAR then
        output_loop (e, L, rest, Status, Warning, upd_mode (\<lambda>t. t\<lparr>Attribute := Attribute t AND NOT EFI_WIDE_ATTRIBUTE\<rparr>) s)
      else
        (let (Count, Index) = scan_run (is_wide t) (oMaxColumn L) (uintn (CursorColumn t)) WString 0 0;
             (Status', s1) = DrawUnicodeWeightAtCursorN e WString Count s;
             Warning' = (Warning \<or> EFI_ERROR Status');
             Column = CursorColumn t + int32 Index;
             s2 = move_to Column (CursorRow t) s1
         in Option.bind
              (if int32 (oMaxColumn L) < Column
               then output_call output_loop e SpaceStr (move_to (Column - 2) (CursorRow t) s2)
               else Some s2)
              (\<lambda>s3. Option.bind
                (if int32 (oMaxColumn L) \<le> CursorColumn (text_mode s3)
                 then Option.bind (output_call output_loop e mCrLfString (FlushCursor e s3)) (\<lambda>s'. Some (FlushCursor e s'))
                 else Some s3)
                (\<lambda>s4. output_loop (e, L, drop Count WString, Status', Warning', s4)))))))"

declare output_loop.simps [code]

text \<open>A warning is not an error; it has a type of its own here.\<close>

datatype gc_status = Plain efi_status | EFI_WARN_UNKNOWN_GLYPH

definition GraphicsConsoleConOutOutputString :: "gc_env \<Rightarrow> u16 list \<Rightarrow> gc_state \<Rightarrow> (gc_status \<times> gc_state) option" where
  "GraphicsConsoleConOutOutputString e WString s =
     (if CurMode (text_mode s) = - 1 then Some (Plain EFI_UNSUPPORTED, s)
      else let (L, OldTpl, OriginAttribute, s1) = output_enter e s
           in map_option
                (\<lambda>(st, Warning, s2). (if Warning then EFI_WARN_UNKNOWN_GLYPH else Plain st,
                                      output_leave e OldTpl OriginAttribute s2))
                (output_loop (e, L, WString, EFI_SUCCESS, False, s1)))"

section \<open>Queries\<close>

text \<open>\<open>Count\<close> is 16 bits wide, so on a string of 65536 characters or more it starts over and the loop
  ends only at a character without a glyph.\<close>

definition char_at :: "u16 list \<Rightarrow> u16 \<Rightarrow> u16" where
  "char_at WString Count = (if unat Count < length WString then WString ! unat Count else 0)"

partial_function (option) test_loop :: "gc_env \<Rightarrow> u16 list \<Rightarrow> u16 \<Rightarrow> gc_state \<Rightarrow> (efi_status \<times> gc_state) option" where
  "test_loop e WString Count s =
     (if char_at WString Count = 0 then Some (EFI_SUCCESS, s)
      else let c = char_at WString Count;
               (Status, Blt) = gc_GetGlyph e (gcLog s) c;
               s1 = gemit (gGetGlyph c) s;
               s2 = (if Blt \<noteq> None then gemit (gFree Blt) s1 else s1)
           in if EFI_ERROR Status then Some (EFI_UNSUPPORTED, s2)
              else test_loop e WString (Count + 1) s2)"

definition GraphicsConsoleConOutTestString :: "gc_env \<Rightarrow> u16 list \<Rightarrow> gc_state \<Rightarrow> (efi_status \<times> gc_state) option" where
  "GraphicsConsoleConOutTestString e WString s = test_loop e WString 0 s"

text \<open>The two outputs are \<open>None\<close> when they are not written.\<close>

definition GraphicsConsoleConOutQueryMode ::
  "gc_env \<Rightarrow> nat \<Rightarrow> gc_state \<Rightarrow> efi_status \<times> (nat \<times> nat) option \<times> gc_state" where
  "GraphicsConsoleConOutQueryMode e ModeNumber s =
     (if uintn (MaxMode (text_mode s)) \<le> ModeNumber then (EFI_UNSUPPORTED, None, s)
      else let (OldTpl, s1) = gRaise e s;
               d = ModeData (gcDev s1) ! ModeNumber
           in (if Columns d \<le> 0 \<or> Rows d \<le> 0 then EFI_UNSUPPORTED else EFI_SUCCESS,
               Some (Columns d, Rows d), gemit (gRestoreTPL OldTpl) s1))"

section \<open>Modes, attributes and the cursor\<close>

definition GraphicsConsoleConOutClearScreen :: "gc_env \<Rightarrow> gc_state \<Rightarrow> efi_status \<times> gc_state" where
  "GraphicsConsoleConOutClearScreen e s =
     (if CurMode (text_mode s) = - 1 then (EFI_UNSUPPORTED, s)
      else let (OldTpl, s1) = gRaise e s;
               d = mode_data s1;
               (_, Background) = GetTextColors (text_mode s1);
               (r, s2) = screen_blt e (video_fill Background 0 0 (GopWidth d) (GopHeight d) 0) s1
           in (case r of Some (Status, _) \<Rightarrow> Status | None \<Rightarrow> EFI_UNSUPPORTED,
               gemit (gRestoreTPL OldTpl) (FlushCursor e (move_to 0 0 s2))))"

text \<open>Bringing the screen to the resolution of a mode; an error is returned to the caller.\<close>

definition set_resolution :: "gc_env \<Rightarrow> GRAPHICS_CONSOLE_MODE_DATA \<Rightarrow> gc_state \<Rightarrow> efi_status \<times> gc_state" where
  "set_resolution e d s =
     (let black = video_fill (mGraphicsEfiColors ! 0) 0 0 (GopWidth d) (GopHeight d) 0 in
      if GraphicsOutput (gcDev s)
      then (if GopModeNumber d \<noteq> GopMode (gc_GopMode e (gcLog s))
            then (gc_SetMode e (gcLog s) (GopModeNumber d), gemit (gSetMode (GopModeNumber d)) s)
            else (EFI_SUCCESS, snd (screen_blt e black s)))
      else if UgaConsumeSupport e
      then (let (Status, H, V) = gc_UgaGetMode e (gcLog s); s1 = gemit gUgaGetMode s
            in if EFI_ERROR Status \<or> H \<noteq> GopWidth d \<or> V \<noteq> GopHeight d
               then (gc_UgaSetMode e (gcLog s1) (GopWidth d) (GopHeight d), gemit (gUgaSetMode (GopWidth d) (GopHeight d)) s1)
               else (EFI_SUCCESS, snd (screen_blt e black s1)))
      else (EFI_SUCCESS, s))"

definition set_line_buffer :: "ptr option \<Rightarrow> gc_state \<Rightarrow> gc_state" where
  "set_line_buffer p s = s\<lparr>gcDev := (gcDev s)\<lparr>GcLineBuffer := p\<rparr>\<rparr>"

text \<open>From the allocation of the line buffer on.  A failed allocation leaves the pointer to the
  buffer just freed in place.\<close>

definition change_mode :: "gc_env \<Rightarrow> nat \<Rightarrow> GRAPHICS_CONSOLE_MODE_DATA \<Rightarrow> gc_state \<Rightarrow> efi_status \<times> gc_state" where
  "change_mode e ModeNumber d s =
     (case gAlloc e (LineBlock (Columns d)) s of
        (None, s1) \<Rightarrow> (EFI_OUT_OF_RESOURCES, s1)
      | (Some NewLineBuffer, s1) \<Rightarrow>
          let (Status, s2) = set_resolution e d (set_line_buffer (Some NewLineBuffer) s1)
          in if EFI_ERROR Status then (Status, s2)
             else (EFI_SUCCESS, FlushCursor e (upd_mode (\<lambda>t. t\<lparr>CurMode := int32 ModeNumber, CursorColumn := 0, CursorRow := 0\<rparr>) s2)))"

definition GraphicsConsoleConOutSetMode :: "gc_env \<Rightarrow> nat \<Rightarrow> gc_state \<Rightarrow> efi_status \<times> gc_state" where
  "GraphicsConsoleConOutSetMode e ModeNumber s =
     (let (OldTpl, s1) = gRaise e s;
          d = ModeData (gcDev s1) ! ModeNumber;
          finish = (\<lambda>(Status, s). (Status, gemit (gRestoreTPL OldTpl) s))
      in if uintn (MaxMode (text_mode s1)) \<le> ModeNumber then finish (EFI_UNSUPPORTED, s1)
         else if Columns d \<le> 0 \<and> Rows d \<le> 0 then finish (EFI_UNSUPPORTED, s1)
         else if GcLineBuffer (gcDev s1) = None then finish (change_mode e ModeNumber d s1)
         else if int32 ModeNumber = CurMode (text_mode s1)
         then finish (EFI_SUCCESS, snd (GraphicsConsoleConOutClearScreen e s1))
         else let s2 = FlushCursor e s1
              in finish (change_mode e ModeNumber d (gemit (gFree (GcLineBuffer (gcDev s2))) s2)))"

definition GraphicsConsoleConOutSetAttribute :: "gc_env \<Rightarrow> nat \<Rightarrow> gc_state \<Rightarrow> efi_status \<times> gc_state" where
  "GraphicsConsoleConOutSetAttribute e Attr s =
     (if Attr OR 0x7f \<noteq> 0x7f then (EFI_UNSUPPORTED, s)
      else if int32 Attr = Attribute (text_mode s) then (EFI_SUCCESS, s)
      else let (OldTpl, s1) = gRaise e s;
               s2 = FlushCursor e s1;
               s3 = upd_mode (\<lambda>t. t\<lparr>Attribute := int32 Attr\<rparr>) s2
           in (EFI_SUCCESS, gemit (gRestoreTPL OldTpl) (FlushCursor e s3)))"

definition GraphicsConsoleConOutReset :: "gc_env \<Rightarrow> bool \<Rightarrow> gc_state \<Rightarrow> efi_status \<times> gc_state" where
  "GraphicsConsoleConOutReset e ExtendedVerification s =
     (let (Status, s1) = GraphicsConsoleConOutSetMode e 0 s
      in if EFI_ERROR Status then (Status, s1)
         else GraphicsConsoleConOutSetAttribute e (uintn (Attribute (text_mode s1) AND 0x0f)) s1)"

definition GraphicsConsoleConOutSetCursorPosition :: "gc_env \<Rightarrow> nat \<Rightarrow> nat \<Rightarrow> gc_state \<Rightarrow> efi_status \<times> gc_state" where
  "GraphicsConsoleConOutSetCursorPosition e Column Row s =
     (if CurMode (text_mode s) = - 1 then (EFI_UNSUPPORTED, s)
      else let (OldTpl, s1) = gRaise e s; d = mode_data s1; t = text_mode s1
           in if Columns d \<le> Column \<or> Rows d \<le> Row then (EFI_UNSUPPORTED, gemit (gRestoreTPL OldTpl) s1)
              else if CursorColumn t = int32 Column \<and> CursorRow t = int32 Row
              then (EFI_SUCCESS, gemit (gRestoreTPL OldTpl) s1)
              else (EFI_SUCCESS, gemit (gRestoreTPL OldTpl)
                     (FlushCursor e (move_to (int32 Column) (int32 Row) (FlushCursor e s1)))))"

definition GraphicsConsoleConOutEnableCursor :: "gc_env \<Rightarrow> bool \<Rightarrow> gc_state \<Rightarrow> efi_status \<times> gc_state" where
  "GraphicsConsoleConOutEnableCursor e Visible s =
     (if CurMode (text_mode s) = - 1 then (EFI_UNSUPPORTED, s)
      else let (OldTpl, s1) = gRaise e s;
               s2 = upd_mode (\<lambda>t. t\<lparr>CursorVisible := Visible\<rparr>) (FlushCursor e s1)
           in (EFI_SUCCESS, gemit (gRestoreTPL OldTpl) (FlushCursor e s2)))"

end
