(* ===== verification/GraphicsConsoleText.thy ===== *)
theory GraphicsConsoleText
  imports GraphicsConsole
begin

text \<open>
  What \<open>OutputString\<close> of the graphics console means, one character at a time: a terminal with a
  cursor, a width flag and a grid of cells (\<open>tty_char\<close>).  The code works on runs of
  characters and calls itself for blanks and line ends; here its loop is shown to
  return, to move the cursor as the terminal does, and to issue the drawing calls that paint the
  terminal's grid, with the cursor's inversion cancelled wherever it was put in between.
\<close>

section \<open>The terminal\<close>

datatype cell_content = Glyph u16 nat u32 u32 | Blank u32

text \<open>A cell is its content and whether the cursor has inverted it.\<close>

type_synonym grid = "nat \<Rightarrow> nat \<Rightarrow> cell_content \<times> bool"
type_synonym tty = "nat \<times> nat \<times> bool \<times> grid"  \<comment> \<open>column, row, wide, cells\<close>

definition set_cell :: "nat \<Rightarrow> nat \<Rightarrow> cell_content \<times> bool \<Rightarrow> grid \<Rightarrow> grid" where
  "set_cell r c v g = (\<lambda>r' c'. if r' = r \<and> c' = c then v else g r' c')"

definition toggle_cell :: "nat \<Rightarrow> nat \<Rightarrow> grid \<Rightarrow> grid" where
  "toggle_cell r c g = set_cell r c (fst (g r c), \<not> snd (g r c)) g"

definition put_char :: "u32 \<Rightarrow> u32 \<Rightarrow> nat \<Rightarrow> nat \<Rightarrow> bool \<Rightarrow> u16 \<Rightarrow> grid \<Rightarrow> grid" where
  "put_char fg bg r c wide ch g =
     (let g1 = set_cell r c (Glyph ch 0 fg bg, False) g
      in if wide then set_cell r (Suc c) (Glyph ch 1 fg bg, False) g1 else g1)"

definition scroll_grid :: "nat \<Rightarrow> nat \<Rightarrow> u32 \<Rightarrow> grid \<Rightarrow> grid" where
  "scroll_grid M R bg g =
     (\<lambda>r c. if M \<le> c \<or> R \<le> r then g r c else if Suc r < R then g (Suc r) c else (Blank bg, False))"

definition char_cells :: "bool \<Rightarrow> nat" where
  "char_cells wide = (if wide then 2 else 1)"

definition tty_linefeed :: "nat \<Rightarrow> nat \<Rightarrow> u32 \<Rightarrow> tty \<Rightarrow> tty" where
  "tty_linefeed M R bg = (\<lambda>(c, r, w, g).
     if Suc r = R then (c, r, w, scroll_grid M R bg g) else (c, Suc r, w, g))"

definition tty_newline :: "nat \<Rightarrow> nat \<Rightarrow> u32 \<Rightarrow> tty \<Rightarrow> tty" where
  "tty_newline M R bg = (\<lambda>(c, r, w, g). tty_linefeed M R bg (0, r, w, g))"

text \<open>A character that does not fit on the line leaves a blank behind and goes to the next one.\<close>

definition tty_print :: "nat \<Rightarrow> nat \<Rightarrow> u32 \<Rightarrow> u32 \<Rightarrow> u16 \<Rightarrow> tty \<Rightarrow> tty" where
  "tty_print M R fg bg ch = (\<lambda>(c, r, w, g).
     let (c, r, w, g) = (if M < c + char_cells w then tty_newline M R bg (c, r, w, put_char fg bg r c False 0x20 g) else (c, r, w, g));
         c' = c + char_cells w; g' = put_char fg bg r c w ch g
     in if c' = M then tty_newline M R bg (c', r, w, g') else (c', r, w, g'))"

definition tty_char :: "nat \<Rightarrow> nat \<Rightarrow> u32 \<Rightarrow> u32 \<Rightarrow> u16 \<Rightarrow> tty \<Rightarrow> tty" where
  "tty_char M R fg bg ch = (\<lambda>(c, r, w, g).
     if ch = CHAR_BACKSPACE then
       (if c = 0 \<and> 0 < r then (M - 1, r - 1, w, put_char fg bg (r - 1) (M - 1) False 0x20 g)
        else if 0 < c then (c - 1, r, w, put_char fg bg r (c - 1) False 0x20 g)
        else (c, r, w, g))
     else if ch = CHAR_LINEFEED then tty_linefeed M R bg (c, r, w, g)
     else if ch = CHAR_CARRIAGE_RETURN then (0, r, w, g)
     else if ch = WIDE_CHAR then (c, r, True, g)
     else if ch = NARROW_CHAR then (c, r, False, g)
     else tty_print M R fg bg ch (c, r, w, g))"

text \<open>A string ends at its first null character.\<close>

definition tty_string :: "nat \<Rightarrow> nat \<Rightarrow> u32 \<Rightarrow> u32 \<Rightarrow> u16 list \<Rightarrow> tty \<Rightarrow> tty" where
  "tty_string M R fg bg WString = fold (tty_char M R fg bg) (takeWhile (\<lambda>c. c \<noteq> 0) WString)"

lemmas tty_defs = tty_print_def tty_newline_def tty_linefeed_def char_cells_def

text \<open>The actions the driver issues on the cells.\<close>

datatype tty_action = Put nat nat bool "u16 list" | Scroll | Toggle nat nat

fun put_string :: "u32 \<Rightarrow> u32 \<Rightarrow> nat \<Rightarrow> nat \<Rightarrow> bool \<Rightarrow> u16 list \<Rightarrow> grid \<Rightarrow> grid" where
  "put_string fg bg r c w [] g = g"
| "put_string fg bg r c w (ch # cs) g = put_string fg bg r (c + char_cells w) w cs (put_char fg bg r c w ch g)"

fun act :: "nat \<Rightarrow> nat \<Rightarrow> u32 \<Rightarrow> u32 \<Rightarrow> tty_action \<Rightarrow> grid \<Rightarrow> grid" where
  "act M R fg bg (Put r c w cs) g = put_string fg bg r c w cs g"
| "act M R fg bg Scroll g = scroll_grid M R bg g"
| "act M R fg bg (Toggle r c) g = toggle_cell r c g"

definition paint :: "nat \<Rightarrow> nat \<Rightarrow> u32 \<Rightarrow> u32 \<Rightarrow> tty_action list \<Rightarrow> grid \<Rightarrow> grid" where
  "paint M R fg bg = fold (act M R fg bg)"

lemma paint_Nil [simp]: "paint M R fg bg [] g = g"
  by (simp add: paint_def)

lemma paint_Cons [simp]: "paint M R fg bg (a # A) g = paint M R fg bg A (act M R fg bg a g)"
  by (simp add: paint_def)

lemma paint_append [simp]: "paint M R fg bg (A @ B) g = paint M R fg bg B (paint M R fg bg A g)"
  by (simp add: paint_def)

lemma toggle_toggle [simp]: "toggle_cell r c (toggle_cell r c g) = g"
  by (intro ext) (simp add: toggle_cell_def set_cell_def)

lemma put_toggle [simp]: "put_char fg bg r c w ch (toggle_cell r c g) = put_char fg bg r c w ch g"
  by (intro ext) (simp add: put_char_def toggle_cell_def set_cell_def Let_def)

section \<open>The driver's calls\<close>

definition cell_x :: "GRAPHICS_CONSOLE_MODE_DATA \<Rightarrow> nat \<Rightarrow> nat" where
  "cell_x d c = uintn (int c * int EFI_GLYPH_WIDTH + DeltaX d)"

definition cell_y :: "GRAPHICS_CONSOLE_MODE_DATA \<Rightarrow> nat \<Rightarrow> nat" where
  "cell_y d r = uintn (int r * int EFI_GLYPH_HEIGHT + DeltaY d)"

definition quiet :: "gc_call \<Rightarrow> bool" where
  "quiet c = (case c of gAllocate _ _ \<Rightarrow> True | gFree _ \<Rightarrow> True | gRaiseTPL _ _ \<Rightarrow> True | gRestoreTPL _ \<Rightarrow> True
     | gGetGlyph _ \<Rightarrow> True | gQueryMode _ _ \<Rightarrow> True | _ \<Rightarrow> False)"

definition string_call :: "GRAPHICS_CONSOLE_MODE_DATA \<Rightarrow> u32 \<Rightarrow> u32 \<Rightarrow> nat \<Rightarrow> nat \<Rightarrow> u16 list \<Rightarrow> gc_call" where
  "string_call d fg bg r c cs = gStringToScreen
     \<lparr>ImageString = cs, ForegroundColor = fg, BackgroundColor = bg, ImageWidth = GopWidth d mod 2 ^ 16,
      ImageHeight = GopHeight d mod 2 ^ 16, ImageX = cell_x d c, ImageY = cell_y d r\<rparr>"

text \<open>The calls, in the order of a log, that carry out a sequence of actions.\<close>

inductive performs :: "gc_env \<Rightarrow> GRAPHICS_CONSOLE_MODE_DATA \<Rightarrow> u32 \<Rightarrow> u32 \<Rightarrow> tty_action list \<Rightarrow> gc_log \<Rightarrow> gc_log \<Rightarrow> bool"
  for e d fg bg where
  performs_nil: "performs e d fg bg [] l l"
| performs_quiet: "performs e d fg bg A l l' \<Longrightarrow> quiet c \<Longrightarrow> performs e d fg bg A l (l' @ [c])"
| performs_put: "performs e d fg bg A l l' \<Longrightarrow>
    performs e d fg bg (A @ [Put r c w cs]) l (l' @ [string_call d fg bg r c cs])"
| performs_scroll: "performs e d fg bg A l l' \<Longrightarrow>
    W = wrap (Columns d * EFI_GLYPH_WIDTH) \<Longrightarrow> H = wrap (wrap (Rows d + 2 ^ 64 - 1) * EFI_GLYPH_HEIGHT) \<Longrightarrow>
    performs e d fg bg (A @ [Scroll]) l
      (l' @ [gBlt gEfiGraphicsOutputProtocolGuid (video_scroll (cell_x d 0) (cell_y d 0) W H (wrap (W * 4))),
             gBlt gEfiGraphicsOutputProtocolGuid (video_fill bg (cell_x d 0) (wrap (cell_y d 0 + H)) W EFI_GLYPH_HEIGHT (wrap (W * 4)))])"
| performs_toggle: "performs e d fg bg A l l' \<Longrightarrow>
    rd = read_glyph (cell_x d c) (cell_y d r) (gc_stack_pixels e) \<Longrightarrow>
    performs e d fg bg (A @ [Toggle r c]) l
      (l' @ [gBlt gEfiGraphicsOutputProtocolGuid rd,
             gBlt gEfiGraphicsOutputProtocolGuid (write_glyph (cell_x d c) (cell_y d r)
               (toggle_glyph fg (snd (gc_Blt e l' gEfiGraphicsOutputProtocolGuid rd))))])"

lemma performs_trans:
  assumes "performs e d fg bg B l' l''" "performs e d fg bg A l l'"
  shows "performs e d fg bg (A @ B) l l''"
  using assms
proof (induction rule: performs.induct)
  case (performs_quiet B l1 l2 c)
  then show ?case by (blast intro: performs.performs_quiet)
next
  case (performs_put B l1 l2 r c w cs)
  then show ?case using performs.performs_put [of e d fg bg "A @ B" l l2] by simp
next
  case (performs_scroll B l1 l2 W H)
  then show ?case using performs.performs_scroll [of e d fg bg "A @ B" l l2 W H] by simp
next
  case (performs_toggle B l1 l2 rd c r)
  then show ?case using performs.performs_toggle [of e d fg bg "A @ B" l l2 rd c r] by simp
qed simp

section \<open>What the parts of the loop keep\<close>

text \<open>The device without its cursor and its width flag.\<close>

definition outline :: "gc_state \<Rightarrow> GRAPHICS_CONSOLE_DEV" where
  "outline s = (gcDev s)\<lparr>SimpleTextOutputMode := (text_mode s)\<lparr>CursorColumn := 0, CursorRow := 0,
                 Attribute := Attribute (text_mode s) AND NOT EFI_WIDE_ATTRIBUTE\<rparr>\<rparr>"

definition cursor_at :: "gc_state \<Rightarrow> nat \<Rightarrow> nat \<Rightarrow> bool \<Rightarrow> bool" where
  "cursor_at s c r w \<longleftrightarrow> CursorColumn (text_mode s) = int c \<and> CursorRow (text_mode s) = int r \<and> is_wide (text_mode s) = w"

definition pool_ok :: "gc_env \<Rightarrow> bool" where
  "pool_ok e \<longleftrightarrow> (\<forall>l b. gc_Allocate e l b \<noteq> None)"

lemma mode_upd [simp]:
  "text_mode (upd_mode f s) = f (text_mode s)" "gcLog (upd_mode f s) = gcLog s"
  "GraphicsOutput (gcDev (upd_mode f s)) = GraphicsOutput (gcDev s)"
  "ModeData (gcDev (upd_mode f s)) = ModeData (gcDev s)"
  by (simp_all add: upd_mode_def text_mode_def)

lemma gemit_simps [simp]:
  "text_mode (gemit c s) = text_mode s" "gcDev (gemit c s) = gcDev s" "gcLog (gemit c s) = gcLog s @ [c]"
  "mode_data (gemit c s) = mode_data s"
  by (simp_all add: gemit_def text_mode_def mode_data_def)

lemma gAlloc_dev: "gAlloc e b s = (p, s') \<Longrightarrow> gcDev s' = gcDev s"
  by (auto simp: gAlloc_def Let_def)

lemma screen_blt_dev [simp]: "gcDev (snd (screen_blt e a s)) = gcDev s"
  by (simp add: screen_blt_def)

lemma FlushCursor_dev [simp]: "gcDev (FlushCursor e s) = gcDev s"
  by (simp add: FlushCursor_def Let_def split: prod.splits) (metis screen_blt_dev snd_conv)

lemma FlushCursor_mode [simp]: "text_mode (FlushCursor e s) = text_mode s" "mode_data (FlushCursor e s) = mode_data s"
  by (simp_all add: text_mode_def mode_data_def)

lemma outline_eqD:
  assumes "outline s' = outline s"
  shows "GraphicsOutput (gcDev s') = GraphicsOutput (gcDev s)" "CursorVisible (text_mode s') = CursorVisible (text_mode s)"
    "CurMode (text_mode s') = CurMode (text_mode s)" "mode_data s' = mode_data s"
    "ModeData (gcDev s') = ModeData (gcDev s)" "MaxMode (text_mode s') = MaxMode (text_mode s)"
    "GcLineBuffer (gcDev s') = GcLineBuffer (gcDev s)"
    "Attribute (text_mode s') AND NOT EFI_WIDE_ATTRIBUTE = Attribute (text_mode s) AND NOT EFI_WIDE_ATTRIBUTE"
proof -
  have 1: "GraphicsOutput (outline x) = GraphicsOutput (gcDev x)" "CursorVisible (SimpleTextOutputMode (outline x)) = CursorVisible (text_mode x)"
    "CurMode (SimpleTextOutputMode (outline x)) = CurMode (text_mode x)" "ModeData (outline x) = ModeData (gcDev x)"
    "MaxMode (SimpleTextOutputMode (outline x)) = MaxMode (text_mode x)" "GcLineBuffer (outline x) = GcLineBuffer (gcDev x)"
    "Attribute (SimpleTextOutputMode (outline x)) = Attribute (text_mode x) AND NOT EFI_WIDE_ATTRIBUTE" for x
    by (simp_all add: outline_def)
  show "GraphicsOutput (gcDev s') = GraphicsOutput (gcDev s)" "CursorVisible (text_mode s') = CursorVisible (text_mode s)"
    "ModeData (gcDev s') = ModeData (gcDev s)" "MaxMode (text_mode s') = MaxMode (text_mode s)"
    "GcLineBuffer (gcDev s') = GcLineBuffer (gcDev s)"
    "Attribute (text_mode s') AND NOT EFI_WIDE_ATTRIBUTE = Attribute (text_mode s) AND NOT EFI_WIDE_ATTRIBUTE"
    using 1 [of s] 1 [of s'] assms by simp_all
  show c: "CurMode (text_mode s') = CurMode (text_mode s)" using 1 [of s] 1 [of s'] assms by simp
  show "mode_data s' = mode_data s" using 1 [of s] 1 [of s'] assms by (simp add: mode_data_def c)
qed

lemma outline_dev: "gcDev s' = gcDev s \<Longrightarrow> outline s' = outline s"
  by (simp add: outline_def text_mode_def)

lemma wide_bits:
  fixes a :: int
  shows   "(a OR EFI_WIDE_ATTRIBUTE) AND EFI_WIDE_ATTRIBUTE \<noteq> 0"
  "(a AND NOT EFI_WIDE_ATTRIBUTE) AND EFI_WIDE_ATTRIBUTE = 0"
  "(a OR EFI_WIDE_ATTRIBUTE) AND NOT EFI_WIDE_ATTRIBUTE = a AND NOT EFI_WIDE_ATTRIBUTE"
  "(a AND NOT EFI_WIDE_ATTRIBUTE) AND NOT EFI_WIDE_ATTRIBUTE = a AND NOT EFI_WIDE_ATTRIBUTE"
  "(a AND NOT EFI_WIDE_ATTRIBUTE) AND 0x7f = a AND 0x7f"
proof -
  have w: "bit EFI_WIDE_ATTRIBUTE n \<longleftrightarrow> n = 7" for n
    using bit_exp_iff [where 'a = int, of 7 n] by (auto simp: EFI_WIDE_ATTRIBUTE_def)
  have m: "bit (0x7f :: int) n \<longleftrightarrow> n < 7" for n
    using bit_mask_iff [where 'a = int, of 7 n] by (simp add: mask_eq_exp_minus_1)
  have "bit ((a OR EFI_WIDE_ATTRIBUTE) AND EFI_WIDE_ATTRIBUTE) 7" by (simp add: w bit_simps)
  then show "(a OR EFI_WIDE_ATTRIBUTE) AND EFI_WIDE_ATTRIBUTE \<noteq> 0" by (metis bit_0_eq bot_apply bot_bool_def)
  show "(a AND NOT EFI_WIDE_ATTRIBUTE) AND EFI_WIDE_ATTRIBUTE = 0"
    "(a OR EFI_WIDE_ATTRIBUTE) AND NOT EFI_WIDE_ATTRIBUTE = a AND NOT EFI_WIDE_ATTRIBUTE"
    "(a AND NOT EFI_WIDE_ATTRIBUTE) AND NOT EFI_WIDE_ATTRIBUTE = a AND NOT EFI_WIDE_ATTRIBUTE"
    "(a AND NOT EFI_WIDE_ATTRIBUTE) AND 0x7f = a AND 0x7f"
    by (auto intro!: bit_eqI simp: bit_simps w m)
qed

text \<open>An action inside the text area; the cursor may be one column behind it.  \<open>P w ch\<close> is what is known of
  the characters drawn with width flag \<open>w\<close>.\<close>

definition act_ok :: "(bool \<Rightarrow> u16 \<Rightarrow> bool) \<Rightarrow> GRAPHICS_CONSOLE_MODE_DATA \<Rightarrow> tty_action \<Rightarrow> bool" where
  "act_ok P d a = (case a of
     Put r c w cs \<Rightarrow> r < Rows d \<and> c + char_cells w * length cs \<le> Columns d \<and> (\<forall>ch \<in> set cs. P w ch)
   | Scroll \<Rightarrow> True
   | Toggle r c \<Rightarrow> r < Rows d \<and> c \<le> Columns d)"

text \<open>From \<open>s\<close> to \<open>s'\<close> the terminal, whose cells are only known to the screen, goes through \<open>T\<close>.\<close>

definition outcome ::
  "gc_env \<Rightarrow> (bool \<Rightarrow> u16 \<Rightarrow> bool) \<Rightarrow> GRAPHICS_CONSOLE_MODE_DATA \<Rightarrow> u32 \<Rightarrow> u32 \<Rightarrow> gc_state \<Rightarrow> (grid \<Rightarrow> tty) \<Rightarrow> gc_state \<Rightarrow> bool" where
  "outcome e P d fg bg s T s' \<longleftrightarrow> outline s' = outline s \<and>
     (\<exists>A c r w. cursor_at s' c r w \<and> (\<forall>a \<in> set A. act_ok P d a) \<and> (\<forall>g. T g = (c, r, w, paint (Columns d) (Rows d) fg bg A g)) \<and>
        (pool_ok e \<and> GraphicsOutput (gcDev s) \<longrightarrow> performs e d fg bg A (gcLog s) (gcLog s')))"

lemma outcomeI:
  assumes "outline s' = outline s" "cursor_at s' c r w" "\<And>a. a \<in> set A \<Longrightarrow> act_ok P d a"
    "\<And>g. T g = (c, r, w, paint (Columns d) (Rows d) fg bg A g)"
    "pool_ok e \<Longrightarrow> GraphicsOutput (gcDev s) \<Longrightarrow> performs e d fg bg A (gcLog s) (gcLog s')"
  shows "outcome e P d fg bg s T s'"
  using assms unfolding outcome_def by blast

lemma outcome_cong: "outcome e P d fg bg s T s' \<Longrightarrow> (\<And>g. T g = T' g) \<Longrightarrow> outcome e P d fg bg s T' s'"
  by (simp add: outcome_def)

lemma outcome_outline: "outcome e P d fg bg s T s' \<Longrightarrow> outline s' = outline s"
  by (simp add: outcome_def)

lemma outcome_trans:
  assumes 1: "outcome e P d fg bg s T s1"
    and 2: "\<And>c r w F. cursor_at s1 c r w \<Longrightarrow> T = (\<lambda>g. (c, r, w, F g)) \<Longrightarrow> outcome e P d fg bg s1 (\<lambda>g. U (c, r, w, g)) s2"
  shows "outcome e P d fg bg s (\<lambda>g. U (T g)) s2"
proof -
  obtain A c r w where A: "outline s1 = outline s" "cursor_at s1 c r w" "\<forall>a \<in> set A. act_ok P d a"
      "\<forall>g. T g = (c, r, w, paint (Columns d) (Rows d) fg bg A g)"
      "pool_ok e \<and> GraphicsOutput (gcDev s) \<longrightarrow> performs e d fg bg A (gcLog s) (gcLog s1)"
    using 1 unfolding outcome_def by blast
  have "T = (\<lambda>g. (c, r, w, paint (Columns d) (Rows d) fg bg A g))" using A(4) by blast
  from 2 [OF A(2) this]
  obtain B c' r' w' where B: "outline s2 = outline s1" "cursor_at s2 c' r' w'" "\<forall>a \<in> set B. act_ok P d a"
      "\<forall>g. U (c, r, w, g) = (c', r', w', paint (Columns d) (Rows d) fg bg B g)"
      "pool_ok e \<and> GraphicsOutput (gcDev s1) \<longrightarrow> performs e d fg bg B (gcLog s1) (gcLog s2)"
    unfolding outcome_def by blast
  show ?thesis
  proof (rule outcomeI [where A = "A @ B"])
    show "outline s2 = outline s" using A(1) B(1) by simp
    show "cursor_at s2 c' r' w'" by (rule B(2))
    show "\<And>a. a \<in> set (A @ B) \<Longrightarrow> act_ok P d a" using A(3) B(3) by auto
    show "U (T g) = (c', r', w', paint (Columns d) (Rows d) fg bg (A @ B) g)" for g using A(4) B(4) by simp
    show "performs e d fg bg (A @ B) (gcLog s) (gcLog s2)" if "pool_ok e" "GraphicsOutput (gcDev s)"
      using that A B(5) outline_eqD(1) [OF A(1)] by (blast intro: performs_trans)
  qed
qed

lemma outcome_seq:
  assumes 1: "outcome e P d fg bg s (\<lambda>g. (c, r, w, F g)) s1" and 2: "outcome e P d fg bg s1 T s2"
  shows "outcome e P d fg bg s (\<lambda>g. T (F g)) s2"
proof -
  have "outcome e P d fg bg s (\<lambda>g. (\<lambda>(_, _, _, g). T g) (c, r, w, F g)) s2"
    by (rule outcome_trans [OF 1]) (use 2 in simp)
  then show ?thesis by simp
qed

lemma outcome_here: "cursor_at s c r w \<Longrightarrow> outcome e P d fg bg s (\<lambda>g. (c, r, w, g)) s"
  by (rule outcomeI [where A = "[]"]) (auto intro: performs_nil)

lemma outcome_emit:
  assumes "outcome e P d fg bg s T s'" "quiet c"
  shows "outcome e P d fg bg s T (gemit c s')"
proof -
  obtain A c' r w where A: "outline s' = outline s" "cursor_at s' c' r w"
      "\<forall>g. T g = (c', r, w, paint (Columns d) (Rows d) fg bg A g)"
      "pool_ok e \<and> GraphicsOutput (gcDev s) \<longrightarrow> performs e d fg bg A (gcLog s) (gcLog s')" "\<forall>a \<in> set A. act_ok P d a"
    using assms(1) unfolding outcome_def by blast
  show ?thesis
  proof (rule outcomeI [where A = A])
    show "outline (gemit c s') = outline s" using outline_dev [of "gemit c s'" s'] A(1) by simp
    show "cursor_at (gemit c s') c' r w" using A(2) by (simp add: cursor_at_def)
    show "\<And>a. a \<in> set A \<Longrightarrow> act_ok P d a" using A(5) by blast
    show "T g = (c', r, w, paint (Columns d) (Rows d) fg bg A g)" for g using A(3) by blast
    show "performs e d fg bg A (gcLog s) (gcLog (gemit c s'))" if "pool_ok e" "GraphicsOutput (gcDev s)"
      using A(4) that performs_quiet [OF _ assms(2)] by simp
  qed
qed

lemma outline_upd: "outline (upd_mode f s) = (gcDev s)\<lparr>SimpleTextOutputMode := (f (text_mode s))\<lparr>CursorColumn := 0,
    CursorRow := 0, Attribute := Attribute (f (text_mode s)) AND NOT EFI_WIDE_ATTRIBUTE\<rparr>\<rparr>"
  by (simp add: outline_def upd_mode_def text_mode_def)

lemma mode_record_eqI:
  fixes t u :: EFI_SIMPLE_TEXT_OUTPUT_MODE
  assumes "MaxMode t = MaxMode u" "CurMode t = CurMode u" "CursorVisible t = CursorVisible u" "a = b"
  shows "t\<lparr>CursorColumn := 0, CursorRow := 0, Attribute := a\<rparr> = u\<lparr>CursorColumn := 0, CursorRow := 0, Attribute := b\<rparr>"
  using assms by (cases t; cases u) simp

lemma outline_same:
  assumes "MaxMode (f (text_mode s)) = MaxMode (text_mode s)" "CurMode (f (text_mode s)) = CurMode (text_mode s)"
    "CursorVisible (f (text_mode s)) = CursorVisible (text_mode s)"
    "Attribute (f (text_mode s)) AND NOT EFI_WIDE_ATTRIBUTE = Attribute (text_mode s) AND NOT EFI_WIDE_ATTRIBUTE"
  shows "outline (upd_mode f s) = outline s"
  unfolding outline_upd [of f s] outline_def [of s] by (simp only: mode_record_eqI [OF assms])

lemma move_to_mode [simp]:
  "text_mode (move_to c r s) = (text_mode s)\<lparr>CursorColumn := c, CursorRow := r\<rparr>" "gcLog (move_to c r s) = gcLog s"
  "GraphicsOutput (gcDev (move_to c r s)) = GraphicsOutput (gcDev s)"
  by (simp_all add: move_to_def)

lemma outline_move [simp]: "outline (move_to c r s) = outline s"
  unfolding move_to_def by (rule outline_same) simp_all

lemma outcome_move:
  assumes "cursor_at s c r w"
  shows "outcome e P d fg bg s (\<lambda>g. (c', r', w, g)) (move_to (int c') (int r') s)"
proof (rule outcomeI [where A = "[]"])
  show "cursor_at (move_to (int c') (int r') s) c' r' w" using assms by (simp add: cursor_at_def is_wide_def)
qed (simp_all add: performs_nil)

lemma outcome_wide:
  assumes "cursor_at s c r w"
  shows "outcome e P d fg bg s (\<lambda>g. (c, r, True, g)) (upd_mode (\<lambda>t. t\<lparr>Attribute := Attribute t OR EFI_WIDE_ATTRIBUTE\<rparr>) s)" (is "outcome e P d fg bg s _ ?on")
    and "outcome e P d fg bg s (\<lambda>g. (c, r, False, g)) (upd_mode (\<lambda>t. t\<lparr>Attribute := Attribute t AND NOT EFI_WIDE_ATTRIBUTE\<rparr>) s)" (is "outcome e P d fg bg s _ ?off")
proof -
  have "cursor_at ?on c r True" "cursor_at ?off c r False" using assms by (simp_all add: cursor_at_def is_wide_def wide_bits)
  moreover have "outline ?on = outline s" "outline ?off = outline s" by (rule outline_same; simp add: wide_bits)+
  ultimately show "outcome e P d fg bg s (\<lambda>g. (c, r, True, g)) ?on" "outcome e P d fg bg s (\<lambda>g. (c, r, False, g)) ?off"
    by (auto intro!: outcomeI [where A = "[]"] performs_nil)
qed

text \<open>The state the loop works in: a valid mode, the colours, and a screen.\<close>

definition on_mode :: "GRAPHICS_CONSOLE_MODE_DATA \<Rightarrow> u32 \<Rightarrow> u32 \<Rightarrow> gc_state \<Rightarrow> bool" where
  "on_mode d fg bg s \<longleftrightarrow> CurMode (text_mode s) \<noteq> - 1 \<and> mode_data s = d \<and> GetTextColors (text_mode s) = (fg, bg)
     \<and> 2 \<le> Columns d \<and> Columns d < 2 ^ 30 \<and> 0 < Rows d \<and> Rows d < 2 ^ 31"

lemma GetTextColors_cong:
  "Attribute t AND NOT EFI_WIDE_ATTRIBUTE = Attribute u AND NOT EFI_WIDE_ATTRIBUTE \<Longrightarrow> GetTextColors t = GetTextColors u"
proof -
  assume "Attribute t AND NOT EFI_WIDE_ATTRIBUTE = Attribute u AND NOT EFI_WIDE_ATTRIBUTE"
  then have "Attribute t AND 0x7f = Attribute u AND 0x7f"
    using wide_bits(5) [of "Attribute t"] wide_bits(5) [of "Attribute u"] by metis
  then show ?thesis by (simp add: GetTextColors_def)
qed

lemma on_mode_outline: "outline s' = outline s \<Longrightarrow> on_mode d fg bg s' = on_mode d fg bg s"
  by (simp add: on_mode_def outline_eqD(3,4) [of s' s] GetTextColors_cong [OF outline_eqD(8), of s' s])

lemma on_mode_outcome: "outcome e P d fg bg s T s' \<Longrightarrow> on_mode d fg bg s' = on_mode d fg bg s"
  by (rule on_mode_outline) (rule outcome_outline)

text \<open>The cursor is drawn and taken away by the same inversion.\<close>

definition tog :: "bool \<Rightarrow> nat \<Rightarrow> nat \<Rightarrow> grid \<Rightarrow> grid" where
  "tog v r c g = (if v then toggle_cell r c g else g)"

lemma tog_tog [simp]: "tog v r c (tog v r c g) = g"
  by (simp add: tog_def)

lemma put_tog [simp]: "put_char fg bg r c w ch (tog v r c g) = put_char fg bg r c w ch g"
  by (simp add: tog_def)

lemma cursor_xy: "cursor_at s c r w \<Longrightarrow> mode_data s = d \<Longrightarrow> cursor_x s = cell_x d c \<and> cursor_y s = cell_y d r"
  by (simp add: cursor_at_def cursor_x_def cursor_y_def cell_x_def cell_y_def)

lemma screen_blt_gop:
  "GraphicsOutput (gcDev s) \<Longrightarrow>
   screen_blt e a s = (Some (gc_Blt e (gcLog s) gEfiGraphicsOutputProtocolGuid a), gemit (gBlt gEfiGraphicsOutputProtocolGuid a) s)"
  by (simp add: screen_blt_def)

lemma outcome_flush:
  assumes "cursor_at s c r w" "on_mode d fg bg s" "c \<le> Columns d" "r < Rows d"
  shows "outcome e P d fg bg s (\<lambda>g. (c, r, w, tog (CursorVisible (text_mode s)) r c g)) (FlushCursor e s)"
proof (cases "CursorVisible (text_mode s)")
  case False
  then show ?thesis using assms outcome_here by (simp add: FlushCursor_def tog_def)
next
  case True
  have m: "mode_data s = d" "fst (GetTextColors (text_mode s)) = fg" using assms by (simp_all add: on_mode_def)
  show ?thesis
  proof (rule outcomeI [where A = "[Toggle r c]"])
    show "outline (FlushCursor e s) = outline s" by (rule outline_dev) simp
    show "cursor_at (FlushCursor e s) c r w" using assms by (simp add: cursor_at_def)
    show "\<And>a. a \<in> set [Toggle r c] \<Longrightarrow> act_ok P d a" using assms by (simp add: act_ok_def)
    show "(c, r, w, tog (CursorVisible (text_mode s)) r c g) = (c, r, w, paint (Columns d) (Rows d) fg bg [Toggle r c] g)" for g
      using True by (simp add: tog_def)
    show "performs e d fg bg [Toggle r c] (gcLog s) (gcLog (FlushCursor e s))" if g: "GraphicsOutput (gcDev s)"
    proof -
      let ?rd = "read_glyph (cell_x d c) (cell_y d r) (gc_stack_pixels e)"
      let ?buf = "snd (gc_Blt e (gcLog s) gEfiGraphicsOutputProtocolGuid ?rd)"
      have "gcLog (FlushCursor e s) = gcLog s @ [gBlt gEfiGraphicsOutputProtocolGuid ?rd,
          gBlt gEfiGraphicsOutputProtocolGuid (write_glyph (cell_x d c) (cell_y d r) (toggle_glyph fg ?buf))]"
        using True g m(2) cursor_xy [OF assms(1) m(1)]
        by (simp add: FlushCursor_def screen_blt_gop split_beta Let_def)
      then show ?thesis using performs_toggle [OF performs_nil refl, of e d fg bg r c "gcLog s"] by simp
    qed
  qed
qed

lemma draw_bitmap_dev: "draw_bitmap e a s = (st, s') \<Longrightarrow> gcDev s' = gcDev s"
  by (auto simp: draw_bitmap_def Let_def split: prod.splits if_splits)

lemma Draw_dev: "DrawUnicodeWeightAtCursorN e cs n s = (st, s') \<Longrightarrow> gcDev s' = gcDev s"
  unfolding DrawUnicodeWeightAtCursorN_def
  by (auto simp: Let_def gAlloc_dev draw_bitmap_dev split: prod.splits option.splits if_splits
      dest!: gAlloc_dev draw_bitmap_dev)

lemma string_args_of_eq:
  assumes "cursor_at s c r w" "on_mode d fg bg s"
  shows "gStringToScreen (string_args_of s cs) = string_call d fg bg r c cs"
  using assms cursor_xy [OF assms(1)] by (simp add: string_args_of_def string_call_def on_mode_def)

lemma outcome_draw:
  assumes "cursor_at s c r w" "on_mode d fg bg s" "DrawUnicodeWeightAtCursorN e cs n s = (st, s')"
    and ok: "act_ok P d (Put r c w (take n cs))"
  shows "outcome e P d fg bg s (\<lambda>g. (c, r, w, put_string fg bg r c w (take n cs) g)) s'"
proof (rule outcomeI [where A = "[Put r c w (take n cs)]"])
  have dev: "gcDev s' = gcDev s" by (rule Draw_dev [OF assms(3)])
  show "outline s' = outline s" by (rule outline_dev [OF dev])
  show "cursor_at s' c r w" using assms(1) dev by (simp add: cursor_at_def text_mode_def)
  show "\<And>a. a \<in> set [Put r c w (take n cs)] \<Longrightarrow> act_ok P d a" using ok by simp
  show "performs e d fg bg [Put r c w (take n cs)] (gcLog s) (gcLog s')" if "pool_ok e" "GraphicsOutput (gcDev s)"
  proof -
    have alloc: "\<exists>p. gAlloc e b x = (Some p, gemit (gAllocate b (Some p)) x)" for b x
    proof -
      have "gc_Allocate e (gcLog x) b \<noteq> None" using \<open>pool_ok e\<close> unfolding pool_ok_def by blast
      then obtain p where "gc_Allocate e (gcLog x) b = Some p" by blast
      then show ?thesis by (simp add: gAlloc_def Let_def)
    qed
    obtain p1 where 1: "gAlloc e ImageBlock s = (Some p1, gemit (gAllocate ImageBlock (Some p1)) s)" using alloc by blast
    let ?s1 = "gemit (gAllocate ImageBlock (Some p1)) s"
    obtain p2 where 2: "gAlloc e (StringBlock (n + 1)) ?s1 = (Some p2, gemit (gAllocate (StringBlock (n + 1)) (Some p2)) ?s1)" using alloc by blast
    let ?s2 = "gemit (gAllocate (StringBlock (n + 1)) (Some p2)) ?s1"
    obtain p3 where 3: "gAlloc e FontInfoBlock ?s2 = (Some p3, gemit (gAllocate FontInfoBlock (Some p3)) ?s2)" using alloc by blast
    let ?s3 = "gemit (gAllocate FontInfoBlock (Some p3)) ?s2"
    have c3: "cursor_at ?s3 c r w" "on_mode d fg bg ?s3" using assms(1,2) by (simp_all add: cursor_at_def on_mode_def)
    have log: "gcLog s' = ((((((gcLog s @ [gAllocate ImageBlock (Some p1)]) @ [gAllocate (StringBlock (n + 1)) (Some p2)])
        @ [gAllocate FontInfoBlock (Some p3)]) @ [string_call d fg bg r c (take n cs)]) @ [gFree (Some p1)]) @ [gFree (Some p2)]) @ [gFree (Some p3)]"
      using assms(3) that(2) string_args_of_eq [OF c3, of "take n cs"]
      unfolding DrawUnicodeWeightAtCursorN_def 1 2 3 Let_def prod.case option.case
      by (auto simp: gemit_simps)
    have "performs e d fg bg [] (gcLog s) (((gcLog s @ [gAllocate ImageBlock (Some p1)])
        @ [gAllocate (StringBlock (n + 1)) (Some p2)]) @ [gAllocate FontInfoBlock (Some p3)])"
      by (intro performs_quiet performs_nil) (simp_all add: quiet_def)
    note put = performs_put [OF this, of r c w "take n cs"]
    have q: "quiet (gFree x)" for x by (simp add: quiet_def)
    show ?thesis
      using log performs_quiet [OF performs_quiet [OF performs_quiet [OF put q] q] q, of "Some p1" "Some p2" "Some p3"] by simp
  qed
qed simp

definition loc_of :: "GRAPHICS_CONSOLE_MODE_DATA \<Rightarrow> u32 \<Rightarrow> out_locals" where
  "loc_of d bg = \<lparr>oMaxColumn = Columns d, oMaxRow = Rows d, oDeltaX = cell_x d 0, oDeltaY = cell_y d 0,
     oWidth = wrap (Columns d * EFI_GLYPH_WIDTH), oHeight = wrap (wrap (Rows d + 2 ^ 64 - 1) * EFI_GLYPH_HEIGHT),
     oDelta = wrap (wrap (Columns d * EFI_GLYPH_WIDTH) * 4), oBackground = bg\<rparr>"

lemma out_locals_loc: "on_mode d fg bg s \<Longrightarrow> out_locals_of s = loc_of d bg"
  by (simp add: on_mode_def out_locals_of_def loc_of_def cell_x_def cell_y_def Let_def)

lemma last_cell_eq: "0 < n \<Longrightarrow> n < 2 ^ 31 \<Longrightarrow> last_cell n = int n - 1"
  unfolding last_cell_def by (rule wrap_pred)

lemma outcome_linefeed:
  assumes "cursor_at s c r w" "on_mode d fg bg s" "r < Rows d"
  shows "outcome e P d fg bg s (\<lambda>g. tty_linefeed (Columns d) (Rows d) bg (c, r, w, g)) (output_linefeed e (loc_of d bg) s)"
proof (cases "Suc r = Rows d")
  case False
  have "output_linefeed e (loc_of d bg) s = move_to (int c) (int (Suc r)) s"
    using False assms by (auto simp: output_linefeed_def loc_of_def last_cell_eq on_mode_def cursor_at_def Let_def add.commute)
  then show ?thesis using outcome_move [OF assms(1), of e P d fg bg c "Suc r"] False by (simp add: tty_linefeed_def)
next
  case True
  let ?L = "loc_of d bg"
  let ?a = "video_scroll (oDeltaX ?L) (oDeltaY ?L) (oWidth ?L) (oHeight ?L) (oDelta ?L)"
  let ?b = "video_fill (oBackground ?L) (oDeltaX ?L) (wrap (oDeltaY ?L + oHeight ?L)) (oWidth ?L) EFI_GLYPH_HEIGHT (oDelta ?L)"
  let ?s' = "snd (screen_blt e ?b (snd (screen_blt e ?a s)))"
  have eq: "output_linefeed e ?L s = ?s'"
    using True assms by (auto simp: output_linefeed_def loc_of_def last_cell_eq on_mode_def cursor_at_def Let_def split_beta)
  show ?thesis unfolding eq
  proof (rule outcomeI [where A = "[Scroll]"])
    have dev: "gcDev ?s' = gcDev s" by simp
    show "outline ?s' = outline s" by (rule outline_dev [OF dev])
    show "cursor_at ?s' c r w" using assms(1) dev by (simp add: cursor_at_def text_mode_def)
    show "\<And>a. a \<in> set [Scroll] \<Longrightarrow> act_ok P d a" by (simp add: act_ok_def)
    show "tty_linefeed (Columns d) (Rows d) bg (c, r, w, g) = (c, r, w, paint (Columns d) (Rows d) fg bg [Scroll] g)" for g
      using True by (simp add: tty_linefeed_def)
    show "performs e d fg bg [Scroll] (gcLog s) (gcLog ?s')" if "GraphicsOutput (gcDev s)"
      using performs_scroll [OF performs_nil refl refl, of e d fg bg "gcLog s"] that
      by (simp add: screen_blt_gop loc_of_def)
  qed
qed

section \<open>The loop, one round at a time\<close>

lemmas char_defs = CHAR_BACKSPACE_def CHAR_LINEFEED_def CHAR_CARRIAGE_RETURN_def WIDE_CHAR_def NARROW_CHAR_def

lemma loop_nil: "output_loop (e, L, [], st, wn, s) = Some (st, wn, s)"
  by (subst output_loop.simps) simp

lemma loop_null: "output_loop (e, L, 0 # cs, st, wn, s) = Some (st, wn, s)"
  by (subst output_loop.simps) simp

lemma loop_linefeed:
  "output_loop (e, L, CHAR_LINEFEED # cs, st, wn, s) = output_loop (e, L, cs, st, wn, output_linefeed e L s)"
  by (subst output_loop.simps) (simp add: char_defs)

lemma loop_return:
  "output_loop (e, L, CHAR_CARRIAGE_RETURN # cs, st, wn, s) = output_loop (e, L, cs, st, wn, move_to 0 (CursorRow (text_mode s)) s)"
  by (subst output_loop.simps) (simp add: char_defs)

lemma loop_wide:
  "output_loop (e, L, WIDE_CHAR # cs, st, wn, s) =
   output_loop (e, L, cs, st, wn, upd_mode (\<lambda>t. t\<lparr>Attribute := Attribute t OR EFI_WIDE_ATTRIBUTE\<rparr>) s)"
  by (subst output_loop.simps) (simp add: char_defs)

lemma loop_narrow:
  "output_loop (e, L, NARROW_CHAR # cs, st, wn, s) =
   output_loop (e, L, cs, st, wn, upd_mode (\<lambda>t. t\<lparr>Attribute := Attribute t AND NOT EFI_WIDE_ATTRIBUTE\<rparr>) s)"
  by (subst output_loop.simps) (simp add: char_defs)

lemma loop_backspace:
  "output_loop (e, L, CHAR_BACKSPACE # cs, st, wn, s) =
     (let t = text_mode s in
      if CursorColumn t = 0 \<and> 0 < CursorRow t
      then Option.bind (output_call output_loop e SpaceStr (move_to (last_cell (oMaxColumn L)) (CursorRow t - 1) s))
             (\<lambda>s1. output_loop (e, L, cs, st, wn, move_to (last_cell (oMaxColumn L)) (CursorRow (text_mode s1) - 1) (FlushCursor e s1)))
      else if 0 < CursorColumn t
      then Option.bind (output_call output_loop e SpaceStr (move_to (CursorColumn t - 1) (CursorRow t) s))
             (\<lambda>s1. output_loop (e, L, cs, st, wn, move_to (CursorColumn (text_mode s1) - 1) (CursorRow (text_mode s1)) (FlushCursor e s1)))
      else output_loop (e, L, cs, st, wn, s))"
  by (subst output_loop.simps) (simp add: char_defs Let_def)

lemma loop_print:
  assumes "\<not> is_control ch" "scan_run (is_wide (text_mode s)) (oMaxColumn L) (uintn (CursorColumn (text_mode s))) (ch # cs) 0 0 = (Count, Index)"
    "DrawUnicodeWeightAtCursorN e (ch # cs) Count s = (st', s1)"
  shows "output_loop (e, L, ch # cs, st, wn, s) =
    (let t = text_mode s; Column = CursorColumn t + int32 Index; s2 = move_to Column (CursorRow t) s1
     in Option.bind
          (if int32 (oMaxColumn L) < Column then output_call output_loop e SpaceStr (move_to (Column - 2) (CursorRow t) s2) else Some s2)
          (\<lambda>s3. Option.bind
            (if int32 (oMaxColumn L) \<le> CursorColumn (text_mode s3)
             then Option.bind (output_call output_loop e mCrLfString (FlushCursor e s3)) (\<lambda>s'. Some (FlushCursor e s'))
             else Some s3)
            (\<lambda>s4. output_loop (e, L, drop Count (ch # cs), st', wn \<or> EFI_ERROR st', s4))))"
  using assms by (subst output_loop.simps) (simp add: is_control_def Let_def)

section \<open>Calls from within the loop\<close>

lemma loop_crlf:
  assumes "cursor_at s c r w" "on_mode d fg bg s" "r < Rows d"
  shows "\<exists>s'. output_loop (e, loc_of d bg, mCrLfString, st, wn, s) = Some (st, wn, s')
      \<and> outcome e P d fg bg s (\<lambda>g. tty_newline (Columns d) (Rows d) bg (c, r, w, g)) s'"
proof -
  let ?s1 = "move_to 0 (CursorRow (text_mode s)) s"
  let ?s2 = "output_linefeed e (loc_of d bg) ?s1"
  have 1: "outcome e P d fg bg s (\<lambda>g. (0, r, w, g)) ?s1"
    using outcome_move [OF assms(1), of e P d fg bg 0 r] assms(1) by (simp add: cursor_at_def)
  have c1: "cursor_at ?s1 0 r w" using assms(1) by (simp add: cursor_at_def is_wide_def)
  have "outcome e P d fg bg ?s1 (\<lambda>g. tty_linefeed (Columns d) (Rows d) bg (0, r, w, g)) ?s2"
    using c1 assms(2,3) on_mode_outcome [OF 1] by (intro outcome_linefeed) simp_all
  then have "outcome e P d fg bg s (\<lambda>g. tty_linefeed (Columns d) (Rows d) bg (0, r, w, g)) ?s2"
    using outcome_trans [OF 1, of "tty_linefeed (Columns d) (Rows d) bg" ?s2] c1 by (auto simp: cursor_at_def)
  moreover have "output_loop (e, loc_of d bg, mCrLfString, st, wn, s) = Some (st, wn, ?s2)"
    by (simp add: mCrLfString_def loop_return loop_linefeed loop_nil)
  ultimately show ?thesis by (auto simp: tty_newline_def)
qed

text \<open>The cursor on the text area or just behind a line.\<close>

definition tty_near :: "nat \<Rightarrow> nat \<Rightarrow> tty \<Rightarrow> bool" where
  "tty_near M R = (\<lambda>(c, r, w, g). c \<le> M \<and> r < R)"

text \<open>A call puts the attribute back, and draws the cursor before and after.\<close>

lemma outcome_restore:
  assumes "outcome e P d fg bg s T s'" "cursor_at s c w0 w" 
  shows "outcome e P d fg bg s (\<lambda>g. case T g of (c, r, _, g) \<Rightarrow> (c, r, w, g)) (upd_mode (\<lambda>t. t\<lparr>Attribute := Attribute (text_mode s)\<rparr>) s')"
    (is "outcome e P d fg bg s ?U ?s")
proof -
  obtain A c' r' w' where A: "outline s' = outline s" "cursor_at s' c' r' w'"
      "\<forall>g. T g = (c', r', w', paint (Columns d) (Rows d) fg bg A g)"
      "pool_ok e \<and> GraphicsOutput (gcDev s) \<longrightarrow> performs e d fg bg A (gcLog s) (gcLog s')" "\<forall>a \<in> set A. act_ok P d a"
    using assms(1) unfolding outcome_def by blast
  show ?thesis
  proof (rule outcomeI [where A = A])
    have "outline ?s = outline s'" by (rule outline_same) (simp_all add: outline_eqD(8) [OF A(1)])
    then show "outline ?s = outline s" using A(1) by simp
    show "cursor_at ?s c' r' w" using A(2) assms(2) by (simp add: cursor_at_def is_wide_def)
    show "\<And>a. a \<in> set A \<Longrightarrow> act_ok P d a" using A(5) by blast
    show "?U g = (c', r', w, paint (Columns d) (Rows d) fg bg A g)" for g using A(3) by simp
    show "performs e d fg bg A (gcLog s) (gcLog ?s)" if "pool_ok e" "GraphicsOutput (gcDev s)" using A(4) that by simp
  qed
qed

lemma output_call_outcome:
  assumes at: "cursor_at s c r w" and on: "on_mode d fg bg s"
    and loop: "\<And>s1. cursor_at s1 c r w \<Longrightarrow> on_mode d fg bg s1 \<Longrightarrow>
      \<exists>st wn s2. output_loop (e, loc_of d bg, WString, EFI_SUCCESS, False, s1) = Some (st, wn, s2)
        \<and> outcome e P d fg bg s1 (\<lambda>g. U (c, r, w, g)) s2"
    and bounds: "c \<le> Columns d" "r < Rows d" "\<And>g. tty_near (Columns d) (Rows d) (U (c, r, w, g))"
  shows "\<exists>s'. output_call output_loop e WString s = Some s' \<and>
    outcome e P d fg bg s (\<lambda>g. case U (c, r, w, tog (CursorVisible (text_mode s)) r c g) of
      (c', r', _, g') \<Rightarrow> (c', r', w, tog (CursorVisible (text_mode s)) r' c' g')) s'"
proof -
  define v where "v = CursorVisible (text_mode s)"
  obtain tpl s0 where s0: "gRaise e s = (tpl, s0)" by force
  have q: "quiet (gRaiseTPL a b)" "quiet (gRestoreTPL b)" for a b by (simp_all add: quiet_def)
  have emit: "s0 = gemit (gRaiseTPL TPL_NOTIFY tpl) s" using s0 by (auto simp: gRaise_def Let_def)
  have o0: "outcome e P d fg bg s (\<lambda>g. (c, r, w, g)) s0" unfolding emit by (rule outcome_emit [OF outcome_here [OF at] q(1)])
  have at0: "cursor_at s0 c r w" using at by (simp add: emit cursor_at_def)
  have on0: "on_mode d fg bg s0" using on_mode_outcome [OF o0] on by simp
  let ?s1 = "FlushCursor e s0"
  have o1: "outcome e P d fg bg s0 (\<lambda>g. (c, r, w, tog v r c g)) ?s1"
    using outcome_flush [OF at0 on0 bounds(1,2)] by (simp add: emit v_def)
  have at1: "cursor_at ?s1 c r w" using at0 by (simp add: cursor_at_def)
  have on1: "on_mode d fg bg ?s1" using on_mode_outcome [OF o1] on0 by simp
  obtain st wn s2 where s2: "output_loop (e, loc_of d bg, WString, EFI_SUCCESS, False, ?s1) = Some (st, wn, s2)"
      "outcome e P d fg bg ?s1 (\<lambda>g. U (c, r, w, g)) s2"
    using loop [OF at1 on1] by blast
  let ?s3 = "upd_mode (\<lambda>t. t\<lparr>Attribute := Attribute (text_mode ?s1)\<rparr>) s2"
  let ?s4 = "FlushCursor e ?s3"
  let ?s5 = "gemit (gRestoreTPL tpl) ?s4"
  have o3: "outcome e P d fg bg ?s1 (\<lambda>g. case U (c, r, w, g) of (c', r', _, g') \<Rightarrow> (c', r', w, g')) ?s3"
    by (rule outcome_restore [OF s2(2) at1])
  have vis: "CursorVisible (text_mode ?s3) = v"
    using outline_eqD(2) [OF outcome_outline [OF s2(2)]] by (simp add: emit v_def)
  have on3: "on_mode d fg bg ?s3" using on_mode_outcome [OF o3] on1 by simp
  have o4: "outcome e P d fg bg ?s3 (\<lambda>g. (c', r', w', tog v r' c' g)) ?s4" if "cursor_at ?s3 c' r' w'" "c' \<le> Columns d" "r' < Rows d" for c' r' w'
    using outcome_flush [OF that(1) on3 that(2,3)] vis by simp
  have "outcome e P d fg bg s (\<lambda>g. case U (c, r, w, tog v r c g) of (c', r', _, g') \<Rightarrow> (c', r', w, g')) ?s3"
    using outcome_seq [OF outcome_seq [OF o0 o1] o3] by simp
  then have "outcome e P d fg bg s (\<lambda>g. (\<lambda>(c', r', w', g'). (c', r', w', tog v r' c' g'))
      (case U (c, r, w, tog v r c g) of (c', r', _, g') \<Rightarrow> (c', r', w, g'))) ?s4"
  proof (rule outcome_trans)
    fix c' r' w' F assume at3: "cursor_at ?s3 c' r' w'"
      and eq: "(\<lambda>g. case U (c, r, w, tog v r c g) of (c', r', _, g') \<Rightarrow> (c', r', w, g')) = (\<lambda>g. (c', r', w', F g))"
    have "c' \<le> Columns d \<and> r' < Rows d"
      using bounds(3) [of "tog v r c undefined"] fun_cong [OF eq, of undefined] by (auto simp: tty_near_def split: prod.splits)
    then show "outcome e P d fg bg ?s3 (\<lambda>g. (\<lambda>(c', r', w', g'). (c', r', w', tog v r' c' g')) (c', r', w', g)) ?s4"
      using o4 [OF at3] by simp
  qed
  then have "outcome e P d fg bg s (\<lambda>g. case U (c, r, w, tog v r c g) of (c', r', _, g') \<Rightarrow> (c', r', w, tog v r' c' g')) ?s5"
    by (intro outcome_emit q(2)) (auto elim!: outcome_cong split: prod.splits)
  moreover have "output_call output_loop e WString s = Some ?s5"
    using on s2(1) out_locals_loc [OF on0]
    by (simp add: output_call_def on_mode_def output_enter_def s0 output_leave_def Let_def)
  ultimately show ?thesis by (simp add: v_def)
qed

lemma outcome_cases:
  assumes "outcome e P d fg bg s T s'"
  obtains c r w F where "cursor_at s' c r w" "T = (\<lambda>g. (c, r, w, F g))"
  using assms unfolding outcome_def by blast

lemma tty_newline_near: "r < R \<Longrightarrow> tty_near M R (tty_newline M R bg (c, r, w, g))"
  by (auto simp: tty_near_def tty_newline_def tty_linefeed_def)

lemma newline_step:
  assumes "cursor_at s c r w" "on_mode d fg bg s" "r < Rows d" "c \<le> Columns d"
  shows "\<exists>s1. output_call output_loop e mCrLfString (FlushCursor e s) = Some s1
    \<and> outcome e P d fg bg s (\<lambda>g. tty_newline (Columns d) (Rows d) bg (c, r, w, g)) (FlushCursor e s1)"
proof -
  define v where "v = CursorVisible (text_mode s)"
  let ?s0 = "FlushCursor e s"
  have o0: "outcome e P d fg bg s (\<lambda>g. (c, r, w, tog v r c g)) ?s0" using outcome_flush [OF assms(1,2,4,3)] by (simp add: v_def)
  have at0: "cursor_at ?s0 c r w" using assms(1) by (simp add: cursor_at_def)
  have on0: "on_mode d fg bg ?s0" using on_mode_outcome [OF o0] assms(2) by simp
  obtain s1 where s1: "output_call output_loop e mCrLfString ?s0 = Some s1"
      "outcome e P d fg bg ?s0 (\<lambda>g. case tty_newline (Columns d) (Rows d) bg (c, r, w, tog v r c g) of
         (c', r', _, g') \<Rightarrow> (c', r', w, tog v r' c' g')) s1"
    using output_call_outcome [OF at0 on0, of e mCrLfString P "tty_newline (Columns d) (Rows d) bg"] loop_crlf [OF _ _ assms(3)]
      tty_newline_near [OF assms(3)] assms(3,4)
    by (fastforce simp: v_def)
  have on1: "on_mode d fg bg s1" using on_mode_outcome [OF s1(2)] on0 by simp
  have vis: "CursorVisible (text_mode s1) = v" using outline_eqD(2) [OF outcome_outline [OF s1(2)]] by (simp add: v_def)
  have "outcome e P d fg bg s (\<lambda>g. case tty_newline (Columns d) (Rows d) bg (c, r, w, g) of
         (c', r', _, g') \<Rightarrow> (c', r', w, tog v r' c' g')) s1"
    using outcome_seq [OF o0 s1(2)] by simp
  then have "outcome e P d fg bg s (\<lambda>g. (\<lambda>(c, r, w, g). (c, r, w, tog v r c g)) (case tty_newline (Columns d) (Rows d) bg (c, r, w, g) of
         (c', r', _, g') \<Rightarrow> (c', r', w, tog v r' c' g'))) (FlushCursor e s1)"
  proof (rule outcome_trans)
    fix c' r' w' F assume at': "cursor_at s1 c' r' w'"
      and eq: "(\<lambda>g. case tty_newline (Columns d) (Rows d) bg (c, r, w, g) of (c', r', _, g') \<Rightarrow> (c', r', w, tog v r' c' g'))
        = (\<lambda>g. (c', r', w', F g))"
    have "c' \<le> Columns d" "r' < Rows d"
      using tty_newline_near [OF assms(3), of "Columns d" bg c w undefined] fun_cong [OF eq, of undefined]
      by (auto simp: tty_near_def split: prod.splits)
    then show "outcome e P d fg bg s1 (\<lambda>g. (\<lambda>(c, r, w, g). (c, r, w, tog v r c g)) (c', r', w', g)) (FlushCursor e s1)"
      using outcome_flush [OF at' on1] vis by simp
  qed
  then have "outcome e P d fg bg s (\<lambda>g. tty_newline (Columns d) (Rows d) bg (c, r, w, g)) (FlushCursor e s1)"
    by (rule outcome_cong) (auto simp: tty_newline_def tty_linefeed_def)
  then show ?thesis using s1(1) by blast
qed

text \<open>At the end of the line the code goes to the next one.\<close>

definition wrap_line :: "gc_env \<Rightarrow> out_locals \<Rightarrow> gc_state \<Rightarrow> gc_state option" where
  "wrap_line e L s =
     (if int32 (oMaxColumn L) \<le> CursorColumn (text_mode s)
      then Option.bind (output_call output_loop e mCrLfString (FlushCursor e s)) (\<lambda>s'. Some (FlushCursor e s'))
      else Some s)"

definition tty_wrap :: "nat \<Rightarrow> nat \<Rightarrow> u32 \<Rightarrow> tty \<Rightarrow> tty" where
  "tty_wrap M R bg = (\<lambda>(c, r, w, g). if c = M then tty_newline M R bg (c, r, w, g) else (c, r, w, g))"

lemma loc_columns [simp]: "oMaxColumn (loc_of d bg) = Columns d" "oMaxRow (loc_of d bg) = Rows d"
  by (simp_all add: loc_of_def)

lemma on_mode_bounds: "on_mode d fg bg s \<Longrightarrow> 2 \<le> Columns d \<and> Columns d < 2 ^ 30 \<and> 0 < Rows d \<and> int32 (Columns d) = int (Columns d)
    \<and> last_cell (Columns d) = int (Columns d) - 1"
  by (simp add: on_mode_def int32_small last_cell_eq)

lemma wrap_line_step:
  assumes "cursor_at s c r w" "on_mode d fg bg s" "r < Rows d" "c \<le> Columns d"
  shows "\<exists>s'. wrap_line e (loc_of d bg) s = Some s' \<and> outcome e P d fg bg s (\<lambda>g. tty_wrap (Columns d) (Rows d) bg (c, r, w, g)) s'"
proof (cases "c = Columns d")
  case True
  then show ?thesis
    using newline_step [OF assms(1-4), where e = e and P = P] on_mode_bounds [OF assms(2)] assms(1)
    by (auto simp: wrap_line_def tty_wrap_def cursor_at_def)
next
  case False
  then have "wrap_line e (loc_of d bg) s = Some s"
    using on_mode_bounds [OF assms(2)] assms(1,4) by (simp add: wrap_line_def cursor_at_def)
  then show ?thesis using outcome_here [OF assms(1)] False by (simp add: tty_wrap_def)
qed

lemma tty_print_narrow:
  "c < M \<Longrightarrow> tty_print M R fg bg ch (c, r, False, g) = tty_wrap M R bg (Suc c, r, False, put_char fg bg r c False ch g)"
  by (simp add: tty_print_def char_cells_def tty_wrap_def)

lemma space_not_control: "\<not> is_control 0x20"
  by (simp add: is_control_def char_defs)

lemma loop_space:
  assumes "cursor_at s c r w" "on_mode d fg bg s" "r < Rows d" "c < Columns d" "P False 0x20"
  shows "\<exists>st' wn' s'. output_loop (e, loc_of d bg, SpaceStr, st, wn, s) = Some (st', wn', s')
      \<and> outcome e P d fg bg s (\<lambda>g. tty_print (Columns d) (Rows d) fg bg 0x20 (c, r, False, g)) s'"
proof -
  note b = on_mode_bounds [OF assms(2)]
  let ?L = "loc_of d bg"
  let ?s0 = "upd_mode (\<lambda>t. t\<lparr>Attribute := Attribute t AND NOT EFI_WIDE_ATTRIBUTE\<rparr>) s"
  have o0: "outcome e P d fg bg s (\<lambda>g. (c, r, False, g)) ?s0" by (rule outcome_wide(2) [OF assms(1)])
  have at0: "cursor_at ?s0 c r False" using assms(1) by (simp add: cursor_at_def is_wide_def wide_bits)
  have on0: "on_mode d fg bg ?s0" using on_mode_outcome [OF o0] assms(2) by simp
  obtain st' s1 where draw: "DrawUnicodeWeightAtCursorN e [0x20] 1 ?s0 = (st', s1)" by force
  have o1: "outcome e P d fg bg ?s0 (\<lambda>g. (c, r, False, put_char fg bg r c False 0x20 g)) s1"
    using outcome_draw [OF at0 on0 draw, of P] assms(3-5) by (simp add: act_ok_def char_cells_def)
  have at1: "cursor_at s1 c r False" using at0 Draw_dev [OF draw] by (simp add: cursor_at_def text_mode_def)
  let ?s2 = "move_to (int (Suc c)) (int r) s1"
  have o2: "outcome e P d fg bg s1 (\<lambda>g. (Suc c, r, False, g)) ?s2" by (rule outcome_move [OF at1])
  have at2: "cursor_at ?s2 (Suc c) r False" using at1 by (simp add: cursor_at_def is_wide_def)
  have o02: "outcome e P d fg bg s (\<lambda>g. (Suc c, r, False, put_char fg bg r c False 0x20 g)) ?s2"
    using outcome_seq [OF outcome_seq [OF o0 o1] o2] by simp
  have on2: "on_mode d fg bg ?s2" using on_mode_outcome [OF o02] assms(2) by simp
  obtain s3 where s3: "wrap_line e ?L ?s2 = Some s3"
      "outcome e P d fg bg ?s2 (\<lambda>g. tty_wrap (Columns d) (Rows d) bg (Suc c, r, False, g)) s3"
    using wrap_line_step [OF at2 on2 assms(3), where e = e and P = P] assms(4) by auto
  have scan: "scan_run (is_wide (text_mode ?s0)) (oMaxColumn ?L) (uintn (CursorColumn (text_mode ?s0))) [0x20] 0 0 = (1, 1)"
    using at0 assms(4) b by (simp add: cursor_at_def space_not_control)
  have "output_loop (e, ?L, SpaceStr, st, wn, s) = Some (st', wn \<or> EFI_ERROR st', s3)"
    unfolding SpaceStr_def loop_narrow
    using at0 at1 assms(4) b s3(1)
    by (subst loop_print [OF space_not_control scan draw])
      (auto simp: cursor_at_def Let_def loop_nil wrap_line_def int32_small add.commute split: if_splits)
  moreover have "outcome e P d fg bg s (\<lambda>g. tty_print (Columns d) (Rows d) fg bg 0x20 (c, r, False, g)) s3"
    using outcome_seq [OF o02 s3(2)] assms(4) by (simp add: tty_print_narrow)
  ultimately show ?thesis by blast
qed

lemma tty_print_near: "c < M \<Longrightarrow> r < R \<Longrightarrow> tty_near M R (tty_print M R fg bg ch (c, r, False, g))"
  by (auto simp: tty_print_narrow tty_wrap_def tty_near_def tty_newline_def tty_linefeed_def)

lemma call_space:
  assumes "cursor_at s c r w" "on_mode d fg bg s" "r < Rows d" "c < Columns d" "P False 0x20"
  shows "\<exists>s'. output_call output_loop e SpaceStr s = Some s' \<and>
    outcome e P d fg bg s (\<lambda>g. case tty_print (Columns d) (Rows d) fg bg 0x20 (c, r, False, g) of
      (c', r', _, g') \<Rightarrow> (c', r', w, tog (CursorVisible (text_mode s)) r' c' g')) s'"
proof -
  let ?U = "\<lambda>(c, r, w, g). tty_print (Columns d) (Rows d) fg bg 0x20 (c, r, False, g)"
  obtain s' where s': "output_call output_loop e SpaceStr s = Some s'"
     "outcome e P d fg bg s (\<lambda>g. case ?U (c, r, w, tog (CursorVisible (text_mode s)) r c g) of
      (c', r', _, g') \<Rightarrow> (c', r', w, tog (CursorVisible (text_mode s)) r' c' g')) s'"
    using output_call_outcome [OF assms(1,2), of e SpaceStr P ?U] loop_space [where P = P, OF _ _ assms(3-5)]
      tty_print_near [OF assms(4,3)] assms(3,4) by fastforce
  have "tty_print (Columns d) (Rows d) fg bg 0x20 (c, r, False, tog v r c g) = tty_print (Columns d) (Rows d) fg bg 0x20 (c, r, False, g)" for v g
    using assms(4) by (simp add: tty_print_narrow)
  then show ?thesis using s' by auto
qed

text \<open>A blank at some cell, with the cursor taken off again: what a backspace leaves.\<close>

lemma blank_step:
  assumes "cursor_at s c0 r0 w" "on_mode d fg bg s" "r < Rows d" "c < Columns d" "P False 0x20"
  shows "\<exists>s'. output_call output_loop e SpaceStr (move_to (int c) (int r) s) = Some s' \<and>
    outcome e P d fg bg s (\<lambda>g. case tty_print (Columns d) (Rows d) fg bg 0x20 (c, r, False, g) of (c', r', _, g') \<Rightarrow> (c', r', w, g'))
      (FlushCursor e s')"
proof -
  define v where "v = CursorVisible (text_mode s)"
  let ?s0 = "move_to (int c) (int r) s"
  have o0: "outcome e P d fg bg s (\<lambda>g. (c, r, w, g)) ?s0" by (rule outcome_move [OF assms(1)])
  have at0: "cursor_at ?s0 c r w" using assms(1) by (simp add: cursor_at_def is_wide_def)
  have on0: "on_mode d fg bg ?s0" using on_mode_outcome [OF o0] assms(2) by simp
  obtain s1 where s1: "output_call output_loop e SpaceStr ?s0 = Some s1"
     "outcome e P d fg bg ?s0 (\<lambda>g. case tty_print (Columns d) (Rows d) fg bg 0x20 (c, r, False, g) of
      (c', r', _, g') \<Rightarrow> (c', r', w, tog v r' c' g')) s1"
    using call_space [OF at0 on0 assms(3,4), where P = P and e = e] assms(5) by (auto simp: v_def)
  have on1: "on_mode d fg bg s1" using on_mode_outcome [OF s1(2)] on0 by simp
  have vis: "CursorVisible (text_mode s1) = v" using outline_eqD(2) [OF outcome_outline [OF s1(2)]] by (simp add: v_def)
  have "outcome e P d fg bg s (\<lambda>g. (\<lambda>(c, r, w, g). (c, r, w, tog v r c g))
      (case tty_print (Columns d) (Rows d) fg bg 0x20 (c, r, False, g) of (c', r', _, g') \<Rightarrow> (c', r', w, tog v r' c' g'))) (FlushCursor e s1)"
  proof (rule outcome_trans [OF outcome_seq [OF o0 s1(2)]])
    fix c' r' w' F assume at': "cursor_at s1 c' r' w'"
      and eq: "(\<lambda>g. case tty_print (Columns d) (Rows d) fg bg 0x20 (c, r, False, g) of (c', r', _, g') \<Rightarrow> (c', r', w, tog v r' c' g'))
        = (\<lambda>g. (c', r', w', F g))"
    have "c' \<le> Columns d" "r' < Rows d"
      using tty_print_near [OF assms(4,3), where fg = fg and bg = bg and ch = "0x20" and g = undefined] fun_cong [OF eq, of undefined]
      by (auto simp: tty_near_def split: prod.splits)
    then show "outcome e P d fg bg s1 (\<lambda>g. (\<lambda>(c, r, w, g). (c, r, w, tog v r c g)) (c', r', w', g)) (FlushCursor e s1)"
      using outcome_flush [OF at' on1] vis by simp
  qed
  then have "outcome e P d fg bg s (\<lambda>g. case tty_print (Columns d) (Rows d) fg bg 0x20 (c, r, False, g) of (c', r', _, g') \<Rightarrow> (c', r', w, g'))
      (FlushCursor e s1)"
    by (rule outcome_cong) (auto split: prod.splits)
  then show ?thesis using s1(1) by blast
qed

section \<open>Runs of characters\<close>

lemma char_cells_simps [simp]: "char_cells True = 2" "char_cells False = 1"
  by (simp_all add: char_cells_def)

lemma not_controlD:
  "\<not> is_control ch \<Longrightarrow> ch \<noteq> 0 \<and> tty_char M R fg bg ch t = tty_print M R fg bg ch t"
  by (cases t) (auto simp: is_control_def tty_char_def)

lemma tty_print_fits:
  "c + char_cells w \<le> M \<Longrightarrow>
   tty_print M R fg bg ch (c, r, w, g) = tty_wrap M R bg (c + char_cells w, r, w, put_char fg bg r c w ch g)"
  by (simp add: tty_print_def tty_wrap_def Let_def)

lemma tty_run:
  assumes "\<forall>x \<in> set cs. \<not> is_control x" "cs \<noteq> []" "c + char_cells w * length cs \<le> M"
  shows "fold (tty_char M R fg bg) cs (c, r, w, g) =
    tty_wrap M R bg (c + char_cells w * length cs, r, w, put_string fg bg r c w cs g)"
  using assms
proof (induction cs arbitrary: c g)
  case (Cons ch cs)
  have fits: "c + char_cells w \<le> M" using Cons.prems(3) by (simp add: add_mult_distrib2)
  have step: "tty_char M R fg bg ch (c, r, w, g) = tty_wrap M R bg (c + char_cells w, r, w, put_char fg bg r c w ch g)"
    using not_controlD [of ch] Cons.prems(1) tty_print_fits [OF fits] by simp
  show ?case
  proof (cases "cs = []")
    case False
    have "0 < char_cells w * length cs" using False by (simp add: char_cells_def)
    then have "c + char_cells w \<noteq> M" using Cons.prems(3) by (auto simp only: length_Cons mult_Suc_right)
    then have "tty_char M R fg bg ch (c, r, w, g) = (c + char_cells w, r, w, put_char fg bg r c w ch g)"
      unfolding step by (simp add: tty_wrap_def)
    then show ?thesis using Cons.IH [of "c + char_cells w"] Cons.prems False by (simp add: add_mult_distrib2 add.assoc)
  qed (simp add: step)
qed simp

text \<open>The scan stops at the end of the line, at a control character, or in front of a wide
  character with one cell left, which it counts as if it overlapped the edge.\<close>

lemma scan_run_cases:
  assumes "col + i \<le> M" "M < 2 ^ 30"
  obtains m where "m \<le> length ws" "\<forall>x \<in> set (take m ws). \<not> is_control x" "col + i + char_cells w * m \<le> M"
      "scan_run w M col ws k i = (k + m, i + char_cells w * m)"
      "\<And>ch cs. ws = ch # cs \<Longrightarrow> \<not> is_control ch \<Longrightarrow> col + i + char_cells w \<le> M \<Longrightarrow> 0 < m"
    | m where w "m < length ws" "\<forall>x \<in> set (take (Suc m) ws). \<not> is_control x" "col + i + 2 * m + 1 = M"
      "scan_run w M col ws k i = (k + m, i + 2 * m + 2)"
proof -
  have "(\<exists>m. m \<le> length ws \<and> (\<forall>x \<in> set (take m ws). \<not> is_control x) \<and> col + i + char_cells w * m \<le> M \<and>
      scan_run w M col ws k i = (k + m, i + char_cells w * m) \<and>
      (\<forall>ch cs. ws = ch # cs \<longrightarrow> \<not> is_control ch \<longrightarrow> col + i + char_cells w \<le> M \<longrightarrow> 0 < m)) \<or>
    (\<exists>m. w \<and> m < length ws \<and> (\<forall>x \<in> set (take (Suc m) ws). \<not> is_control x) \<and> col + i + 2 * m + 1 = M \<and>
      scan_run w M col ws k i = (k + m, i + 2 * m + 2))"
    using assms(1)
  proof (induction ws arbitrary: k i)
    case Nil
    then show ?case by simp
  next
    case (Cons ch cs)
    show ?case
    proof (cases "col + i < M \<and> \<not> is_control ch")
      case False
      then have s: "scan_run w M col (ch # cs) k i = (k, i)" using assms(2) Cons.prems by (auto simp: wrap_def)
      have "\<not> is_control ch \<Longrightarrow> \<not> col + i + char_cells w \<le> M" using False by (simp add: char_cells_def)
      then show ?thesis using s Cons.prems by (intro disjI1 exI [of _ 0]) auto
    next
      case True
      show ?thesis
      proof (cases "w \<and> M < col + i + 2")
        case True': True
        then have "scan_run w M col (ch # cs) k i = (k, i + 2)" using True assms(2) by (simp add: wrap_def)
        then show ?thesis using True True' by (intro disjI2 exI [of _ 0]) auto
      next
        case False
        have s: "scan_run w M col (ch # cs) k i = scan_run w M col cs (Suc k) (i + char_cells w)"
          using True False assms(2) by (cases w) (simp_all add: wrap_def char_cells_def)
        have "col + (i + char_cells w) \<le> M" using True False by (auto simp: char_cells_def)
        from Cons.IH [OF this, of "Suc k"] show ?thesis
        proof (elim disjE exE conjE)
          fix m assume m: "m \<le> length cs" "\<forall>x \<in> set (take m cs). \<not> is_control x" "col + (i + char_cells w) + char_cells w * m \<le> M"
            "scan_run w M col cs (Suc k) (i + char_cells w) = (Suc k + m, i + char_cells w + char_cells w * m)"
          then show ?thesis using True s by (intro disjI1 exI [of _ "Suc m"]) auto
        next
          fix m assume m: w "m < length cs" "\<forall>x \<in> set (take (Suc m) cs). \<not> is_control x" "col + (i + char_cells w) + 2 * m + 1 = M"
            "scan_run w M col cs (Suc k) (i + char_cells w) = (Suc k + m, i + char_cells w + 2 * m + 2)"
          then show ?thesis using True s by (intro disjI2 exI [of _ "Suc m"]) auto
        qed
      qed
    qed
  qed
  then show ?thesis using that by blast
qed

section \<open>The whole string\<close>

definition tty_in :: "nat \<Rightarrow> nat \<Rightarrow> tty \<Rightarrow> bool" where
  "tty_in M R = (\<lambda>(c, r, w, g). c < M \<and> r < R)"

lemma tty_char_in: "2 \<le> M \<Longrightarrow> tty_in M R t \<Longrightarrow> tty_in M R (tty_char M R fg bg ch t)"
  by (cases t) (auto simp: tty_in_def tty_char_def tty_defs Let_def split: prod.splits if_splits)

lemma tty_fold_in: "2 \<le> M \<Longrightarrow> tty_in M R t \<Longrightarrow> tty_in M R (fold (tty_char M R fg bg) cs t)"
  by (induction cs arbitrary: t) (simp_all add: tty_char_in)

lemma tty_string_Cons: "ch \<noteq> 0 \<Longrightarrow> tty_string M R fg bg (ch # cs) t = tty_string M R fg bg cs (tty_char M R fg bg ch t)"
  by (simp add: tty_string_def)

lemma tty_string_run:
  "\<forall>x \<in> set (take m cs). x \<noteq> 0 \<Longrightarrow>
   tty_string M R fg bg cs t = tty_string M R fg bg (drop m cs) (fold (tty_char M R fg bg) (take m cs) t)"
proof (induction cs arbitrary: m t)
  case (Cons ch cs)
  then show ?case by (cases m) (simp_all add: tty_string_Cons)
qed simp

text \<open>The loop's result on a string, and the composition of one round with the rest.\<close>

fun widths_ok :: "(bool \<Rightarrow> u16 \<Rightarrow> bool) \<Rightarrow> bool \<Rightarrow> u16 list \<Rightarrow> bool" where
  "widths_ok P w [] = True"
| "widths_ok P w (ch # cs) =
     (if ch = 0 then True
      else if ch = WIDE_CHAR then widths_ok P True cs
      else if ch = NARROW_CHAR then widths_ok P False cs
      else if is_control ch then widths_ok P w cs
      else P w ch \<and> widths_ok P w cs)"

lemma widths_ok_any: "widths_ok (\<lambda>_ _. True) w cs"
  by (induction cs arbitrary: w) simp_all

lemma widths_ok_print: "\<not> is_control ch \<Longrightarrow> widths_ok P w (ch # cs) \<longleftrightarrow> P w ch \<and> widths_ok P w cs"
  by (auto simp: is_control_def)

lemma widths_ok_run:
  "\<forall>x \<in> set (take m cs). \<not> is_control x \<Longrightarrow> widths_ok P w cs \<Longrightarrow>
   (\<forall>x \<in> set (take m cs). P w x) \<and> widths_ok P w (drop m cs)"
proof (induction cs arbitrary: m)
  case (Cons ch cs)
  show ?case
  proof (cases m)
    case (Suc n)
    then show ?thesis using Cons.prems Cons.IH [of n] by (auto simp: widths_ok_print simp del: widths_ok.simps(2))
  qed (use Cons.prems in simp)
qed simp

text \<open>\<open>widths_ok P w cs\<close>: every character of the string is one \<open>P\<close> knows with the width flag it is drawn with.\<close>

definition loop_does :: "gc_env \<Rightarrow> (bool \<Rightarrow> u16 \<Rightarrow> bool) \<Rightarrow> GRAPHICS_CONSOLE_MODE_DATA \<Rightarrow> u32 \<Rightarrow> u32 \<Rightarrow> u16 list \<Rightarrow> nat \<times> nat \<times> bool \<Rightarrow> bool" where
  "loop_does e P d fg bg cs = (\<lambda>(c, r, w). \<forall>s st wn. widths_ok P w cs \<longrightarrow> cursor_at s c r w \<longrightarrow> on_mode d fg bg s \<longrightarrow>
     (\<exists>st' wn' s'. output_loop (e, loc_of d bg, cs, st, wn, s) = Some (st', wn', s') \<and>
        outcome e P d fg bg s (\<lambda>g. tty_string (Columns d) (Rows d) fg bg cs (c, r, w, g)) s'))"

lemma loop_does_next:
  assumes out: "outcome e P d fg bg s T s1" and on: "on_mode d fg bg s"
    and in1: "\<And>g. tty_in (Columns d) (Rows d) (T g) \<and> (case T g of (_, _, w, _) \<Rightarrow> widths_ok P w cs)"
    and rest: "\<And>c r w. c < Columns d \<Longrightarrow> r < Rows d \<Longrightarrow> cursor_at s1 c r w \<Longrightarrow> loop_does e P d fg bg cs (c, r, w)"
    and eq: "\<And>g. T' g = tty_string (Columns d) (Rows d) fg bg cs (T g)"
  shows "\<exists>st' wn' s'. output_loop (e, loc_of d bg, cs, st, wn, s1) = Some (st', wn', s') \<and> outcome e P d fg bg s T' s'"
proof -
  obtain c r w F where at1: "cursor_at s1 c r w" and T: "T = (\<lambda>g. (c, r, w, F g))" by (rule outcome_cases [OF out])
  have "c < Columns d" "r < Rows d" and wid: "widths_ok P w cs" using in1 by (simp_all add: T tty_in_def)
  from rest [OF this(1,2) at1] obtain st' wn' s' where s':
      "output_loop (e, loc_of d bg, cs, st, wn, s1) = Some (st', wn', s')"
      "outcome e P d fg bg s1 (\<lambda>g. tty_string (Columns d) (Rows d) fg bg cs (c, r, w, g)) s'"
    using at1 on wid on_mode_outcome [OF out] unfolding loop_does_def by fastforce
  have "outcome e P d fg bg s T' s'"
    using outcome_seq [OF out [unfolded T] s'(2)] by (rule outcome_cong) (simp add: eq T)
  then show ?thesis using s'(1) by blast
qed

lemma loop_backspace_does:
  assumes at: "cursor_at s c r w" and on: "on_mode d fg bg s" and c: "c < Columns d" and r: "r < Rows d"
    and rest: "\<And>c r w. c < Columns d \<Longrightarrow> r < Rows d \<Longrightarrow> loop_does e P d fg bg cs (c, r, w)"
    and sp: "P False 0x20" and wid: "widths_ok P w cs"
  shows "\<exists>st' wn' s'. output_loop (e, loc_of d bg, CHAR_BACKSPACE # cs, st, wn, s) = Some (st', wn', s') \<and>
    outcome e P d fg bg s (\<lambda>g. tty_string (Columns d) (Rows d) fg bg (CHAR_BACKSPACE # cs) (c, r, w, g)) s'"
proof -
  let ?M = "Columns d" and ?R = "Rows d"
  note b = on_mode_bounds [OF on]
  have nz: "CHAR_BACKSPACE \<noteq> 0" by (simp add: char_defs)
  have blank: "\<exists>s1. output_call output_loop e SpaceStr (move_to (int c') (int r') s) = Some s1 \<and>
      CursorRow (text_mode s1) = (if Suc c' = ?M then int (Suc r') else int r') \<and>
      CursorColumn (text_mode s1) = (if Suc c' = ?M then 0 else int (Suc c')) \<and>
      outcome e P d fg bg s (\<lambda>g. (c', r', w, put_char fg bg r' c' False 0x20 g)) (move_to (int c') (int r') (FlushCursor e s1))"
    if c': "c' < ?M" "r' < ?R" "Suc c' = ?M \<longrightarrow> Suc r' < ?R" for c' r'
  proof -
    obtain s1 where s1: "output_call output_loop e SpaceStr (move_to (int c') (int r') s) = Some s1"
      "outcome e P d fg bg s (\<lambda>g. case tty_print ?M ?R fg bg 0x20 (c', r', False, g) of (a, b, _, g') \<Rightarrow> (a, b, w, g')) (FlushCursor e s1)"
      using blank_step [OF at on c'(2,1)] sp by blast
    let ?c = "if Suc c' = ?M then 0 else Suc c'" and ?r = "if Suc c' = ?M then Suc r' else r'"
    have p: "tty_print ?M ?R fg bg 0x20 (c', r', False, g) = (?c, ?r, False, put_char fg bg r' c' False 0x20 g)" for g
      using c' by (auto simp: tty_print_narrow tty_wrap_def tty_newline_def tty_linefeed_def)
    have o: "outcome e P d fg bg s (\<lambda>g. (?c, ?r, w, put_char fg bg r' c' False 0x20 g)) (FlushCursor e s1)"
      using s1(2) unfolding p by simp
    then have at1: "cursor_at (FlushCursor e s1) ?c ?r w"
      by (elim outcome_cases) (metis prod.inject)
    have "outcome e P d fg bg s (\<lambda>g. (c', r', w, put_char fg bg r' c' False 0x20 g)) (move_to (int c') (int r') (FlushCursor e s1))"
      using outcome_seq [OF o outcome_move [OF at1, of e P d fg bg c' r']] by simp
    then show ?thesis using s1(1) at1 by (auto simp: cursor_at_def)
  qed
  consider (up) "c = 0" "0 < r" | (left) "0 < c" | (home) "c = 0" "r = 0" by auto
  moreover have "r - 1 < ?R" "c - 1 < ?M" using r c by simp_all
  ultimately show ?thesis
  proof cases
    case up
    obtain s1 where s1: "output_call output_loop e SpaceStr (move_to (int (?M - 1)) (int (r - 1)) s) = Some s1"
      "CursorRow (text_mode s1) = int r"
      "outcome e P d fg bg s (\<lambda>g. (?M - 1, r - 1, w, put_char fg bg (r - 1) (?M - 1) False 0x20 g))
         (move_to (int (?M - 1)) (int (r - 1)) (FlushCursor e s1))"
      using blank [of "?M - 1" "r - 1"] up b r \<open>r - 1 < ?R\<close> by auto
    have "output_loop (e, loc_of d bg, CHAR_BACKSPACE # cs, st, wn, s) =
        output_loop (e, loc_of d bg, cs, st, wn, move_to (int (?M - 1)) (int (r - 1)) (FlushCursor e s1))"
      using at up b s1(1,2) by (simp add: loop_backspace cursor_at_def of_nat_diff Let_def)
    then show ?thesis
      using loop_does_next [OF s1(3) on _ rest, where T' = "\<lambda>g. tty_string ?M ?R fg bg (CHAR_BACKSPACE # cs) (c, r, w, g)" and st = st and wn = wn] up b r
      wid by (simp add: tty_in_def tty_string_Cons [OF nz] tty_char_def)
  next
    case left
    obtain s1 where s1: "output_call output_loop e SpaceStr (move_to (int (c - 1)) (int r) s) = Some s1"
      "CursorRow (text_mode s1) = int r" "CursorColumn (text_mode s1) = int c"
      "outcome e P d fg bg s (\<lambda>g. (c - 1, r, w, put_char fg bg r (c - 1) False 0x20 g))
         (move_to (int (c - 1)) (int r) (FlushCursor e s1))"
      using blank [of "c - 1" r] left c r \<open>c - 1 < ?M\<close> by auto
    have "output_loop (e, loc_of d bg, CHAR_BACKSPACE # cs, st, wn, s) =
        output_loop (e, loc_of d bg, cs, st, wn, move_to (int (c - 1)) (int r) (FlushCursor e s1))"
      using at left s1(1-3) by (simp add: loop_backspace cursor_at_def of_nat_diff Let_def)
    then show ?thesis
      using loop_does_next [OF s1(4) on _ rest, where T' = "\<lambda>g. tty_string ?M ?R fg bg (CHAR_BACKSPACE # cs) (c, r, w, g)" and st = st and wn = wn] left c r
      wid by (simp add: tty_in_def tty_string_Cons [OF nz] tty_char_def)
  next
    case home
    have "output_loop (e, loc_of d bg, CHAR_BACKSPACE # cs, st, wn, s) = output_loop (e, loc_of d bg, cs, st, wn, s)"
      using at home by (simp add: loop_backspace cursor_at_def Let_def)
    then show ?thesis
      using loop_does_next [OF outcome_here [OF at] on _ rest, where T' = "\<lambda>g. tty_string ?M ?R fg bg (CHAR_BACKSPACE # cs) (c, r, w, g)" and st = st and wn = wn] home c r
      wid by (simp add: tty_in_def tty_string_Cons [OF nz] tty_char_def)
  qed
qed

lemma tty_wrap_flag: "fst (snd (snd (tty_wrap M R bg (c, r, w, g)))) = w"
  by (simp add: tty_wrap_def tty_newline_def tty_linefeed_def)

lemma tty_wrap_in: "2 \<le> M \<Longrightarrow> c \<le> M \<Longrightarrow> r < R \<Longrightarrow> tty_in M R (tty_wrap M R bg (c, r, w, g))"
  by (auto simp: tty_wrap_def tty_in_def tty_newline_def tty_linefeed_def)

lemma not_control_nz: "\<forall>x \<in> set cs. \<not> is_control x \<Longrightarrow> \<forall>x \<in> set cs. x \<noteq> 0"
  by (auto simp: is_control_def)

text \<open>Drawing a run and moving the cursor behind it.\<close>

lemma draw_run:
  assumes at: "cursor_at s c r w" and on: "on_mode d fg bg s" and draw: "DrawUnicodeWeightAtCursorN e cs n s = (st', s1)"
    and ok: "act_ok P d (Put r c w (take n cs))"
  shows "outcome e P d fg bg s (\<lambda>g. (c', r, w, put_string fg bg r c w (take n cs) g)) (move_to (int c') (int r) s1)"
    "cursor_at (move_to (int c') (int r) s1) c' r w" "on_mode d fg bg (move_to (int c') (int r) s1)"
proof -
  have at1: "cursor_at s1 c r w" using at Draw_dev [OF draw] by (simp add: cursor_at_def text_mode_def)
  show "outcome e P d fg bg s (\<lambda>g. (c', r, w, put_string fg bg r c w (take n cs) g)) (move_to (int c') (int r) s1)"
    using outcome_seq [OF outcome_draw [OF at on draw ok] outcome_move [OF at1]] by simp
  then show "on_mode d fg bg (move_to (int c') (int r) s1)" using on_mode_outcome on by blast
  show "cursor_at (move_to (int c') (int r) s1) c' r w" using at1 by (simp add: cursor_at_def is_wide_def)
qed

lemma loop_print_eq:
  assumes "\<not> is_control ch" "cursor_at s c r w" "on_mode d fg bg s" "c < Columns d"
    "scan_run w (Columns d) c (ch # cs) 0 0 = (Count, Index)" "Index < 2 ^ 31"
    "DrawUnicodeWeightAtCursorN e (ch # cs) Count s = (st', s1)"
  shows "output_loop (e, loc_of d bg, ch # cs, st, wn, s) =
    (let s2 = move_to (int (c + Index)) (int r) s1
     in Option.bind
          (if Columns d < c + Index then output_call output_loop e SpaceStr (move_to (int (c + Index) - 2) (int r) s2) else Some s2)
          (\<lambda>s3. Option.bind (wrap_line e (loc_of d bg) s3)
            (\<lambda>s4. output_loop (e, loc_of d bg, drop Count (ch # cs), st', wn \<or> EFI_ERROR st', s4))))"
proof -
  have "scan_run (is_wide (text_mode s)) (oMaxColumn (loc_of d bg)) (uintn (CursorColumn (text_mode s))) (ch # cs) 0 0 = (Count, Index)"
    using assms(2-5) on_mode_bounds [OF assms(3)] by (simp add: cursor_at_def del: scan_run.simps)
  from loop_print [OF assms(1) this assms(7)] show ?thesis
    using assms(2,6) on_mode_bounds [OF assms(3)]
    by (simp add: cursor_at_def wrap_line_def int32_small Let_def del: drop_Suc_Cons of_nat_add add: of_nat_add [symmetric])
qed

lemma tty_wide_at_edge:
  assumes "\<not> is_control ch" "Suc c = M" "2 \<le> M"
  shows "tty_char M R fg bg ch (c, r, True, g) =
    (case tty_print M R fg bg 0x20 (c, r, False, g) of (c', r', _, g') \<Rightarrow> tty_char M R fg bg ch (c', r', True, tog v r' c' g'))"
proof -
  have "tty_print M R fg bg 0x20 (c, r, False, g) = tty_newline M R bg (M, r, False, put_char fg bg r c False 0x20 g)"
    using assms by (simp add: tty_print_narrow tty_wrap_def)
  then show ?thesis
    using assms by (simp add: not_controlD tty_print_def tty_newline_def tty_linefeed_def Let_def)
qed

lemma loop_print_does:
  assumes ch: "\<not> is_control ch" and at: "cursor_at s c r w" and on: "on_mode d fg bg s" and c: "c < Columns d" and r: "r < Rows d"
    and rest: "\<And>m c' r' w'. c' < Columns d \<Longrightarrow> r' < Rows d \<Longrightarrow> 0 < m \<or> w' \<and> c' = 0 \<and> \<not> c + char_cells w \<le> Columns d \<Longrightarrow>
        loop_does e P d fg bg (drop m (ch # cs)) (c', r', w')"
    and sp: "P False 0x20" and wid: "widths_ok P w (ch # cs)"
  shows "\<exists>st' wn' s'. output_loop (e, loc_of d bg, ch # cs, st, wn, s) = Some (st', wn', s') \<and>
    outcome e P d fg bg s (\<lambda>g. tty_string (Columns d) (Rows d) fg bg (ch # cs) (c, r, w, g)) s'"
proof -
  let ?M = "Columns d" and ?R = "Rows d" and ?L = "loc_of d bg"
  note b = on_mode_bounds [OF on]
  have le: "c + 0 \<le> ?M" "?M < 2 ^ 30" using c b by simp_all
  show ?thesis
  proof (cases rule: scan_run_cases [OF le, of "ch # cs" w 0])
    case (1 m)
    let ?c = "c + char_cells w * m" and ?xs = "take m (ch # cs)"
    have m: "0 < m"
    proof (rule ccontr)
      assume "\<not> 0 < m"
      then have "\<not> c + char_cells w \<le> ?M" using 1(5) ch by auto
      then show False using 1(4) \<open>\<not> 0 < m\<close> c b ch by (simp add: char_cells_def wrap_def split: if_splits)
    qed
    obtain st' s1 where draw: "DrawUnicodeWeightAtCursorN e (ch # cs) m s = (st', s1)" by force
    have "?c \<le> ?M" using 1(3) by simp
    have wd: "\<forall>x \<in> set ?xs. P w x" "widths_ok P w (drop m (ch # cs))" using widths_ok_run [OF 1(2) wid] by blast+
    have "length ?xs = m" using 1(1) by simp
    then have ok: "act_ok P d (Put r c w ?xs)" using r 1(3) wd(1) by (simp add: act_ok_def del: take_Suc_Cons)
    note run = draw_run [OF at on draw ok, of ?c]
    obtain s3 where s3: "wrap_line e ?L (move_to (int ?c) (int r) s1) = Some s3"
        "outcome e P d fg bg (move_to (int ?c) (int r) s1) (\<lambda>g. tty_wrap ?M ?R bg (?c, r, w, g)) s3"
      using wrap_line_step [OF run(2,3) r \<open>?c \<le> ?M\<close>, where e = e and P = P] by blast
    have o: "outcome e P d fg bg s (\<lambda>g. tty_wrap ?M ?R bg (?c, r, w, put_string fg bg r c w ?xs g)) s3"
      using outcome_seq [OF run(1) s3(2)] by simp
    have ne: "?xs \<noteq> []" "length ?xs = m" using m 1(1) by auto
    have T: "tty_wrap ?M ?R bg (?c, r, w, put_string fg bg r c w ?xs g) = fold (tty_char ?M ?R fg bg) ?xs (c, r, w, g)" for g
      using tty_run [OF 1(2) ne(1), of c w ?M ?R fg bg r g] ne(2) \<open>?c \<le> ?M\<close> by simp
    have "char_cells w * m < 2 ^ 31" using \<open>?c \<le> ?M\<close> le(2) by simp
    then have eq: "output_loop (e, ?L, ch # cs, st, wn, s) =
        output_loop (e, ?L, drop m (ch # cs), st', wn \<or> EFI_ERROR st', s3)"
      using loop_print_eq [OF ch at on c _ _ draw, of "char_cells w * m" st wn] 1(4) \<open>?c \<le> ?M\<close> s3(1)
      by (simp add: Let_def del: drop_Suc_Cons)
    show ?thesis unfolding eq
    proof (rule loop_does_next [OF o on])
      show "tty_in ?M ?R (tty_wrap ?M ?R bg (?c, r, w, put_string fg bg r c w ?xs g)) \<and>
          (case tty_wrap ?M ?R bg (?c, r, w, put_string fg bg r c w ?xs g) of (_, _, w, _) \<Rightarrow> widths_ok P w (drop m (ch # cs)))" for g
        using \<open>?c \<le> ?M\<close> b r tty_wrap_flag [of ?M ?R bg ?c r w "put_string fg bg r c w ?xs g"] wd(2)
        by (auto simp: tty_wrap_in split: prod.splits)
      show "loop_does e P d fg bg (drop m (ch # cs)) (c', r', w')" if "c' < ?M" "r' < ?R" for c' r' w'
        using rest [OF that] m by blast
      show "tty_string ?M ?R fg bg (ch # cs) (c, r, w, g) =
          tty_string ?M ?R fg bg (drop m (ch # cs)) (tty_wrap ?M ?R bg (?c, r, w, put_string fg bg r c w ?xs g))" for g
        unfolding T by (rule tty_string_run) (rule not_control_nz [OF 1(2)])
    qed
  next
    case (2 m)
    let ?c = "c + 2 * m" and ?xs = "take m (ch # cs)"
    have edge: "Suc ?c = ?M" using 2(4) by simp
    obtain st' s1 where draw: "DrawUnicodeWeightAtCursorN e (ch # cs) m s = (st', s1)" by force
    let ?s2 = "move_to (int (?c + 2)) (int r) s1"
    have sub: "set ?xs \<subseteq> set (take (Suc m) (ch # cs))" by (rule set_take_subset_set_take) simp
    then have "\<forall>x \<in> set ?xs. \<not> is_control x" using 2(3) by blast
    then have wd: "\<forall>x \<in> set ?xs. P w x" "widths_ok P w (drop m (ch # cs))" using widths_ok_run [OF _ wid, of m] by blast+
    have "length ?xs = m" using 2(2) by simp
    then have ok: "act_ok P d (Put r c w ?xs)" using r 2(1,4) wd(1) by (simp add: act_ok_def del: take_Suc_Cons)
    note run = draw_run [OF at on draw ok, of "?c + 2"]
    have mv: "move_to (int (?c + 2) - 2) (int r) ?s2 = move_to (int ?c) (int r) ?s2" by simp
    let ?s3 = "move_to (int ?c) (int r) ?s2"
    have o3: "outcome e P d fg bg s (\<lambda>g. (?c, r, True, put_string fg bg r c True ?xs g)) ?s3"
      using outcome_seq [OF run(1) outcome_move [OF run(2), of e P d fg bg ?c r]] 2(1) by simp
    have at3: "cursor_at ?s3 ?c r True" using run(2) 2(1) by (simp add: cursor_at_def is_wide_def)
    have on3: "on_mode d fg bg ?s3" using on_mode_outcome [OF o3] on by simp
    define v where "v = CursorVisible (text_mode s)"
    have vis: "CursorVisible (text_mode ?s3) = v" using outline_eqD(2) [OF outcome_outline [OF o3]] by (simp add: v_def)
    have cM: "?c < ?M" using edge by simp
    obtain s4 where s4: "output_call output_loop e SpaceStr ?s3 = Some s4"
        "outcome e P d fg bg ?s3 (\<lambda>g. case tty_print ?M ?R fg bg 0x20 (?c, r, False, g) of
           (c', r', _, g') \<Rightarrow> (c', r', True, tog v r' c' g')) s4"
      using call_space [OF at3 on3 r cM, where P = P and e = e] sp unfolding vis by blast
    let ?T = "\<lambda>g. case tty_print ?M ?R fg bg 0x20 (?c, r, False, put_string fg bg r c True ?xs g) of
           (c', r', _, g') \<Rightarrow> (c', r', True, tog v r' c' g')"
    have o4: "outcome e P d fg bg s ?T s4" using outcome_seq [OF o3 s4(2)] by simp
    have T0: "\<exists>r' g'. r' < ?R \<and> ?T g = (0, r', True, g')" for g
      using edge b r by (auto simp: tty_print_narrow tty_wrap_def tty_newline_def tty_linefeed_def)
    obtain c4 r4 w4 F where T4: "cursor_at s4 c4 r4 w4" "?T = (\<lambda>g. (c4, r4, w4, F g))" by (rule outcome_cases [OF o4])
    have Tg: "?T g = (c4, r4, w4, F g)" for g by (rule fun_cong [OF T4(2)])
    obtain r' g' where "r' < ?R" "?T undefined = (0, r', True, g')" using T0 by blast
    with Tg [of undefined] have "c4 = 0 \<and> r4 < ?R \<and> w4" by simp
    then have w4: "c4 = 0" "r4 < ?R" w4 by simp_all
    have "wrap_line e ?L s4 = Some s4" using T4(1) w4(1) b by (simp add: wrap_line_def cursor_at_def)
    moreover have "2 * m + 2 < (2 :: nat) ^ 31" using edge le(2) by simp
    ultimately have eq: "output_loop (e, ?L, ch # cs, st, wn, s) =
        output_loop (e, ?L, drop m (ch # cs), st', wn \<or> EFI_ERROR st', s4)"
      using loop_print_eq [OF ch at on c _ _ draw, of "2 * m + 2" st wn] 2(5) edge s4(1) mv
      by (simp add: Let_def add.assoc del: drop_Suc_Cons)
    have run_eq: "fold (tty_char ?M ?R fg bg) ?xs (c, r, True, g) = (?c, r, True, put_string fg bg r c True ?xs g)" for g
    proof (cases "m = 0")
      case False
      have "length ?xs = m" using 2(2) by simp
      moreover have "\<forall>x\<in>set ?xs. \<not> is_control x" using 2(3) set_take_subset_set_take [of m "Suc m" "ch # cs"] by auto
      ultimately show ?thesis using tty_run [of ?xs c True ?M ?R fg bg r g] False edge by (simp add: tty_wrap_def)
    qed simp
    show ?thesis unfolding eq
    proof (rule loop_does_next [OF o4 on])
      show "tty_in ?M ?R (?T g) \<and> (case ?T g of (_, _, w, _) \<Rightarrow> widths_ok P w (drop m (ch # cs)))" for g
      proof -
        obtain r' g' where "r' < ?R" "?T g = (0, r', True, g')" using T0 [of g] by blast
        then show ?thesis using b wd(2) 2(1) by (simp only: tty_in_def prod.case) simp
      qed
      show "loop_does e P d fg bg (drop m (ch # cs)) (c', r', w')" if "c' < ?M" "r' < ?R" "cursor_at s4 c' r' w'" for c' r' w'
      proof (rule rest [OF that(1,2)])
        show "0 < m \<or> w' \<and> c' = 0 \<and> \<not> c + char_cells w \<le> ?M"
          using that(3) T4(1) w4 edge 2(1) by (auto simp: cursor_at_def)
      qed
      show "tty_string ?M ?R fg bg (ch # cs) (c, r, w, g) = tty_string ?M ?R fg bg (drop m (ch # cs)) (?T g)" for g
      proof -
        obtain x ys where x: "drop m (ch # cs) = x # ys" using 2(2) by (metis Cons_nth_drop_Suc)
        have "x = (ch # cs) ! m" using x 2(2) by (metis nth_via_drop)
        moreover have "(ch # cs) ! m \<in> set (take (Suc m) (ch # cs))" using 2(2) by (auto simp only: take_Suc_conv_app_nth set_append list.set)
        ultimately have nx: "\<not> is_control x" using 2(3) by metis
        have nz: "\<forall>y \<in> set ?xs. y \<noteq> 0" using not_control_nz [OF 2(3)] set_take_subset_set_take [of m "Suc m" "ch # cs"] by auto
        have "tty_string ?M ?R fg bg (ch # cs) (c, r, w, g) = tty_string ?M ?R fg bg (x # ys) (?c, r, True, put_string fg bg r c True ?xs g)"
          using tty_string_run [OF nz] run_eq 2(1) x by simp
        also have "\<dots> = tty_string ?M ?R fg bg (x # ys) (?T g)"
          using tty_wide_at_edge [OF nx edge, of ?R fg bg r "put_string fg bg r c True ?xs g" v] not_controlD [OF nx] b
          by (simp add: tty_string_Cons split: prod.splits)
        finally show ?thesis using x by simp
      qed
    qed
  qed
qed

lemma loop_outcome:
  assumes "cursor_at s c r w" "on_mode d fg bg s" "c < Columns d" "r < Rows d" "widths_ok P w cs" and sp: "P False 0x20"
  shows "\<exists>st' wn' s'. output_loop (e, loc_of d bg, cs, st, wn, s) = Some (st', wn', s') \<and>
    outcome e P d fg bg s (\<lambda>g. tty_string (Columns d) (Rows d) fg bg cs (c, r, w, g)) s'"
  using assms(1-5)
proof (induction "2 * length cs + (if c + char_cells w \<le> Columns d then 0 else 1)" arbitrary: cs c r w s st wn rule: less_induct)
  case less
  note b = on_mode_bounds [OF less.prems(2)]
  have IH: "loop_does e P d fg bg cs' (c', r', w')"
    if "c' < Columns d" "r' < Rows d"
      "2 * length cs' + (if c' + char_cells w' \<le> Columns d then 0 else 1) < 2 * length cs + (if c + char_cells w \<le> Columns d then 0 else 1)"
    for cs' c' r' w'
    using less.hyps [OF that(3) _ _ that(1,2)] unfolding loop_does_def by blast
  show ?case
  proof (cases cs)
    case Nil
    then show ?thesis using outcome_here [OF less.prems(1)] by (simp add: loop_nil tty_string_def)
  next
    case (Cons ch cs')
    have rest: "loop_does e P d fg bg cs' (c', r', w')" if "c' < Columns d" "r' < Rows d" for c' r' w'
      using that by (intro IH) (simp_all add: Cons)
    have simple: ?thesis
      if "outcome e P d fg bg s T s1" "\<And>g. tty_in (Columns d) (Rows d) (T g) \<and> (case T g of (_, _, w, _) \<Rightarrow> widths_ok P w cs')" "ch \<noteq> 0"
        "output_loop (e, loc_of d bg, ch # cs', st, wn, s) = output_loop (e, loc_of d bg, cs', st, wn, s1)"
        "\<And>g. T g = tty_char (Columns d) (Rows d) fg bg ch (c, r, w, g)" for T s1
      unfolding Cons that(4) by (rule loop_does_next [OF that(1) less.prems(2) that(2) rest]) (simp_all add: that(3,5) tty_string_Cons)
    consider "ch = 0" | "ch = CHAR_BACKSPACE" | "ch = CHAR_LINEFEED" | "ch = CHAR_CARRIAGE_RETURN" | "ch = WIDE_CHAR"
      | "ch = NARROW_CHAR" | "\<not> is_control ch" by (auto simp: is_control_def)
    then show ?thesis
    proof cases
      case 1
      then show ?thesis using outcome_here [OF less.prems(1)] Cons by (simp add: loop_null tty_string_def)
    next
      case 2
      show ?thesis unfolding Cons 2
        by (rule loop_backspace_does [OF less.prems(1-4) rest sp]) (use less.prems(5) in \<open>simp_all add: Cons 2 char_defs is_control_def\<close>)
    next
      case 3
      show ?thesis
        using less.prems(3-5) b
        by (intro simple [OF outcome_linefeed [OF less.prems(1,2,4)]])
          (auto simp: 3 Cons loop_linefeed tty_in_def tty_linefeed_def tty_char_def, simp_all add: char_defs is_control_def)
    next
      case 4
      have "CursorRow (text_mode s) = int r" using less.prems(1) by (simp add: cursor_at_def)
      then show ?thesis
        using less.prems(3-5) b
        by (intro simple [OF outcome_move [OF less.prems(1), of e P d fg bg 0 r]])
          (auto simp: 4 Cons loop_return tty_in_def tty_char_def, simp_all add: char_defs is_control_def)
    next
      case 5
      show ?thesis
        using less.prems(3-5)
        by (intro simple [OF outcome_wide(1) [OF less.prems(1)]])
          (auto simp: 5 Cons loop_wide tty_in_def tty_char_def, simp_all add: char_defs is_control_def)
    next
      case 6
      show ?thesis
        using less.prems(3-5)
        by (intro simple [OF outcome_wide(2) [OF less.prems(1)]])
          (auto simp: 6 Cons loop_narrow tty_in_def tty_char_def, simp_all add: char_defs is_control_def)
    next
      case 7
      show ?thesis unfolding Cons
      proof (rule loop_print_does [OF 7 less.prems(1-4) _ sp less.prems(5) [unfolded Cons]])
        fix m c' r' :: nat and w'
        assume *: "c' < Columns d" "r' < Rows d" "0 < m \<or> w' \<and> c' = 0 \<and> \<not> c + char_cells w \<le> Columns d"
        show "loop_does e P d fg bg (drop m (ch # cs')) (c', r', w')"
        proof (cases "0 < m")
          case True
          then have "length (drop m (ch # cs')) < length cs" by (simp add: Cons)
          then show ?thesis using * by (intro IH) (auto split: if_splits)
        next
          case False
          then show ?thesis using * b by (intro IH) (auto simp: Cons)
        qed
      qed
    qed
  qed
qed

text \<open>\<open>OutputString\<close> as a whole: it returns; the device has changed in its cursor only; the calls it
  has made paint what the terminal shows.\<close>

lemma dev_eqI:
  assumes "outline s' = outline s" "Attribute (text_mode s') = Attribute (text_mode s)"
  shows "gcDev s' = gcDev (move_to (CursorColumn (text_mode s')) (CursorRow (text_mode s')) s)"
proof -
  have eq: "P = P\<lparr>SimpleTextOutputMode := SimpleTextOutputMode P\<rparr>" for P :: GRAPHICS_CONSOLE_DEV by (cases P) simp
  have split: "P\<lparr>SimpleTextOutputMode := t\<rparr> = Q\<lparr>SimpleTextOutputMode := u\<rparr> \<Longrightarrow> P\<lparr>SimpleTextOutputMode := x\<rparr> = Q\<lparr>SimpleTextOutputMode := x\<rparr>"
    for P Q :: GRAPHICS_CONSOLE_DEV and t u x by (cases P; cases Q) simp
  have mode: "t = u\<lparr>CursorColumn := CursorColumn t, CursorRow := CursorRow t\<rparr>"
    if "t\<lparr>CursorColumn := 0, CursorRow := 0, Attribute := a\<rparr> = u\<lparr>CursorColumn := 0, CursorRow := 0, Attribute := b\<rparr>"
      "Attribute t = Attribute u" for t u :: EFI_SIMPLE_TEXT_OUTPUT_MODE and a b
    using that by (cases t; cases u) simp
  have o: "(gcDev s')\<lparr>SimpleTextOutputMode := (text_mode s')\<lparr>CursorColumn := 0, CursorRow := 0,
          Attribute := Attribute (text_mode s') AND NOT EFI_WIDE_ATTRIBUTE\<rparr>\<rparr> =
      (gcDev s)\<lparr>SimpleTextOutputMode := (text_mode s)\<lparr>CursorColumn := 0, CursorRow := 0,
          Attribute := Attribute (text_mode s) AND NOT EFI_WIDE_ATTRIBUTE\<rparr>\<rparr>"
    using assms(1) by (simp add: outline_def)
  have "gcDev s' = (gcDev s')\<lparr>SimpleTextOutputMode := text_mode s'\<rparr>" unfolding text_mode_def by (rule eq)
  also have "\<dots> = (gcDev s)\<lparr>SimpleTextOutputMode := text_mode s'\<rparr>" by (rule split [OF o])
  also have "text_mode s' = (text_mode s)\<lparr>CursorColumn := CursorColumn (text_mode s'), CursorRow := CursorRow (text_mode s')\<rparr>"
    by (rule mode [OF arg_cong [where f = SimpleTextOutputMode, OF o, simplified] assms(2)])
  finally show ?thesis by (simp add: move_to_def upd_mode_def)
qed

lemma output_terminal:
  assumes on: "on_mode d fg bg s" and at: "cursor_at s c r w" and c: "c < Columns d" and r: "r < Rows d"
    and P: "P False 0x20" "widths_ok P w WString"
  defines "v \<equiv> CursorVisible (text_mode s)"
  obtains st s' c' r' A where "GraphicsConsoleConOutOutputString e WString s = Some (st, s')"
    "gcDev s' = gcDev (move_to (int c') (int r') s)" "c' < Columns d" "r' < Rows d"
    "\<And>g. \<exists>w' g'. tty_string (Columns d) (Rows d) fg bg WString (c, r, w, tog v r c g) = (c', r', w', g') \<and>
        paint (Columns d) (Rows d) fg bg A g = tog v r' c' g'"
    "\<And>a. a \<in> set A \<Longrightarrow> act_ok P d a"
    "pool_ok e \<Longrightarrow> GraphicsOutput (gcDev s) \<Longrightarrow> performs e d fg bg A (gcLog s) (gcLog s')"
proof -
  have near: "c \<le> Columns d" "r < Rows d" using c r by simp_all
  obtain tpl s0 where s0: "gRaise e s = (tpl, s0)" by force
  have q: "quiet (gRaiseTPL a b)" "quiet (gRestoreTPL b)" for a b by (simp_all add: quiet_def)
  have emit: "s0 = gemit (gRaiseTPL TPL_NOTIFY tpl) s" using s0 by (auto simp: gRaise_def Let_def)
  have o0: "outcome e P d fg bg s (\<lambda>g. (c, r, w, g)) s0" unfolding emit by (rule outcome_emit [OF outcome_here [OF at] q(1)])
  have at0: "cursor_at s0 c r w" using at by (simp add: emit cursor_at_def)
  have on0: "on_mode d fg bg s0" using on_mode_outcome [OF o0] on by simp
  let ?s1 = "FlushCursor e s0"
  have o1: "outcome e P d fg bg s0 (\<lambda>g. (c, r, w, tog v r c g)) ?s1" using outcome_flush [OF at0 on0 near] by (simp add: emit v_def)
  have at1: "cursor_at ?s1 c r w" using at0 by (simp add: cursor_at_def)
  have on1: "on_mode d fg bg ?s1" using on_mode_outcome [OF o1] on0 by simp
  obtain st wn s2 where s2: "output_loop (e, loc_of d bg, WString, EFI_SUCCESS, False, ?s1) = Some (st, wn, s2)"
      "outcome e P d fg bg ?s1 (\<lambda>g. tty_string (Columns d) (Rows d) fg bg WString (c, r, w, g)) s2"
    using loop_outcome [OF at1 on1 c r P(2,1)] by blast
  let ?s3 = "upd_mode (\<lambda>t. t\<lparr>Attribute := Attribute (text_mode ?s1)\<rparr>) s2"
  let ?s5 = "gemit (gRestoreTPL tpl) (FlushCursor e ?s3)"
  have o3: "outcome e P d fg bg ?s1 (\<lambda>g. case tty_string (Columns d) (Rows d) fg bg WString (c, r, w, g) of (c', r', _, g') \<Rightarrow> (c', r', w, g')) ?s3"
    by (rule outcome_restore [OF s2(2) at1])
  have vis: "CursorVisible (text_mode ?s3) = v"
    using outline_eqD(2) [OF outcome_outline [OF s2(2)]] by (simp add: emit v_def)
  have on3: "on_mode d fg bg ?s3" using on_mode_outcome [OF o3] on1 by simp
  have "outcome e P d fg bg s (\<lambda>g. case tty_string (Columns d) (Rows d) fg bg WString (c, r, w, tog v r c g) of (c', r', _, g') \<Rightarrow> (c', r', w, g')) ?s3"
    using outcome_seq [OF outcome_seq [OF o0 o1] o3] by simp
  then have "outcome e P d fg bg s (\<lambda>g. (\<lambda>(c', r', w', g'). (c', r', w', tog v r' c' g'))
      (case tty_string (Columns d) (Rows d) fg bg WString (c, r, w, tog v r c g) of (c', r', _, g') \<Rightarrow> (c', r', w, g'))) (FlushCursor e ?s3)"
  proof (rule outcome_trans)
    fix c' r' w' F assume at': "cursor_at ?s3 c' r' w'"
      and eq: "(\<lambda>g. case tty_string (Columns d) (Rows d) fg bg WString (c, r, w, tog v r c g) of (c', r', _, g') \<Rightarrow> (c', r', w, g'))
        = (\<lambda>g. (c', r', w', F g))"
    have "tty_in (Columns d) (Rows d) (tty_string (Columns d) (Rows d) fg bg WString (c, r, w, tog v r c undefined))"
      using on_mode_bounds [OF on] c r unfolding tty_string_def by (intro tty_fold_in) (simp_all add: tty_in_def)
    then have "c' \<le> Columns d" "r' < Rows d" using fun_cong [OF eq, of undefined] by (auto simp: tty_in_def split: prod.splits)
    then show "outcome e P d fg bg ?s3 (\<lambda>g. (\<lambda>(c', r', w', g'). (c', r', w', tog v r' c' g')) (c', r', w', g)) (FlushCursor e ?s3)"
      using outcome_flush [OF at' on3] vis by simp
  qed
  then have o5: "outcome e P d fg bg s (\<lambda>g. case tty_string (Columns d) (Rows d) fg bg WString (c, r, w, tog v r c g) of
      (c', r', _, g') \<Rightarrow> (c', r', w, tog v r' c' g')) ?s5"
    by (intro outcome_emit q(2)) (auto elim!: outcome_cong split: prod.splits)
  then obtain A c' r' w' where A: "cursor_at ?s5 c' r' w'"
      "\<And>g. (case tty_string (Columns d) (Rows d) fg bg WString (c, r, w, tog v r c g) of (c', r', _, g') \<Rightarrow> (c', r', w, tog v r' c' g'))
         = (c', r', w', paint (Columns d) (Rows d) fg bg A g)"
      "pool_ok e \<and> GraphicsOutput (gcDev s) \<longrightarrow> performs e d fg bg A (gcLog s) (gcLog ?s5)" "\<forall>a \<in> set A. act_ok P d a"
    unfolding outcome_def by auto
  show thesis
  proof (rule that)
    show "GraphicsConsoleConOutOutputString e WString s = Some (if wn then EFI_WARN_UNKNOWN_GLYPH else Plain st, ?s5)"
      using on s2(1) out_locals_loc [OF on0]
      by (simp add: GraphicsConsoleConOutOutputString_def on_mode_def output_enter_def s0 output_leave_def Let_def)
    have "Attribute (text_mode ?s5) = Attribute (text_mode s)" by (simp add: emit)
    then show "gcDev ?s5 = gcDev (move_to (int c') (int r') s)"
      using dev_eqI [OF outcome_outline [OF o5]] A(1) by (simp add: cursor_at_def)
    show "\<exists>w' g'. tty_string (Columns d) (Rows d) fg bg WString (c, r, w, tog v r c g) = (c', r', w', g') \<and>
        paint (Columns d) (Rows d) fg bg A g = tog v r' c' g'" for g
      using A(2) [of g] by (auto split: prod.splits)
    obtain w1 g1 where t: "tty_string (Columns d) (Rows d) fg bg WString (c, r, w, tog v r c undefined) = (c', r', w1, g1)"
      using A(2) [of undefined] by (auto split: prod.splits)
    have "tty_in (Columns d) (Rows d) (tty_string (Columns d) (Rows d) fg bg WString (c, r, w, tog v r c undefined))"
      using on_mode_bounds [OF on] c r unfolding tty_string_def by (intro tty_fold_in) (simp_all add: tty_in_def)
    then show "c' < Columns d" "r' < Rows d" unfolding t by (simp_all add: tty_in_def)
    show "\<And>a. a \<in> set A \<Longrightarrow> act_ok P d a" using A(4) by blast
    show "pool_ok e \<Longrightarrow> GraphicsOutput (gcDev s) \<Longrightarrow> performs e d fg bg A (gcLog s) (gcLog ?s5)" using A(3) by blast
  qed
qed

end
