(* ===== verification/GraphicsConsoleBinding.thy ===== *)
theory GraphicsConsoleBinding
  imports GraphicsConsole
begin

text \<open>
  The driver binding of the graphics console (\<open>Drivers/GraphicsConsoleDxe/GraphicsConsole.c\<close>):
  Supported, Start, which chooses the resolution, the mode table and the preferred mode, and Stop.
\<close>

section \<open>Supported\<close>

definition gc_open :: "gc_env \<Rightarrow> gc_guid \<Rightarrow> gc_log \<Rightarrow> efi_status \<times> gc_log" where
  "gc_open e g l = (let st = gc_OpenProtocol e l g in (st, l @ [gOpenProtocol g st]))"

definition EfiLocateHiiProtocol :: "gc_env \<Rightarrow> efi_status" where
  "EfiLocateHiiProtocol e =
     (case gc_LocateHii e of (Status, Status') \<Rightarrow> if EFI_ERROR Status then Status else Status')"

text \<open>Opening the draw protocol: the status and whether each of the two pointers is set.\<close>

definition open_draw :: "gc_env \<Rightarrow> gc_log \<Rightarrow> efi_status \<times> bool \<times> bool \<times> gc_log" where
  "open_draw e l =
     (let (Status, l1) = gc_open e gEfiGraphicsOutputProtocolGuid l
      in if EFI_ERROR Status \<and> UgaConsumeSupport e
         then let (Status', l2) = gc_open e gEfiUgaDrawProtocolGuid l1
              in (Status', False, \<not> EFI_ERROR Status', l2)
         else (Status, \<not> EFI_ERROR Status, False, l1))"

definition close_draw :: "gc_env \<Rightarrow> bool \<Rightarrow> gc_log \<Rightarrow> gc_log" where
  "close_draw e gop l =
     (if gop then l @ [gCloseProtocol gEfiGraphicsOutputProtocolGuid]
      else if UgaConsumeSupport e then l @ [gCloseProtocol gEfiUgaDrawProtocolGuid]
      else l)"

definition GraphicsConsoleControllerDriverSupported :: "gc_env \<Rightarrow> gc_log \<Rightarrow> efi_status \<times> gc_log" where
  "GraphicsConsoleControllerDriverSupported e l =
     (let (Status, gop, _, l1) = open_draw e l
      in if EFI_ERROR Status then (Status, l1)
         else let (Status, l2) = gc_open e gEfiDevicePathProtocolGuid l1
              in if \<not> EFI_ERROR Status
                 then (EfiLocateHiiProtocol e, close_draw e gop (l2 @ [gCloseProtocol gEfiDevicePathProtocolGuid]))
                 else (Status, close_draw e gop l2))"

section \<open>The resolution\<close>

text \<open>\<open>CheckModeSupported\<close>: the rounds from \<open>ModeNumber\<close> to the \<open>MaxMode\<close> read on entry; the
  result carries the mode at which the loop stopped.\<close>

function check_modes ::
  "gc_env \<Rightarrow> nat \<Rightarrow> nat \<Rightarrow> nat \<Rightarrow> nat \<Rightarrow> efi_status \<Rightarrow> gc_log \<Rightarrow> efi_status \<times> nat \<times> gc_log" where
  "check_modes e H V Limit ModeNumber Status l =
     (if ModeNumber < Limit
      then let (Status, Info, h, v) = gc_QueryMode e l ModeNumber; l1 = l @ [gQueryMode ModeNumber Status]
           in if EFI_ERROR Status then check_modes e H V Limit (Suc ModeNumber) Status l1
              else if h = H \<and> v = V
              then (if GopInfoH (gc_GopMode e l1) = H \<and> GopInfoV (gc_GopMode e l1) = V
                    then (Status, ModeNumber, l1 @ [gFree (Some Info)])
                    else let Status' = gc_SetMode e l1 ModeNumber; l2 = l1 @ [gSetMode ModeNumber]
                         in if \<not> EFI_ERROR Status' then (Status', ModeNumber, l2 @ [gFree (Some Info)])
                            else check_modes e H V Limit (Suc ModeNumber) Status' (l2 @ [gFree (Some Info)]))
              else check_modes e H V Limit (Suc ModeNumber) Status (l1 @ [gFree (Some Info)])
      else (Status, ModeNumber, l))"
  by pat_completeness auto
termination
  by (relation "measure (\<lambda>(e, H, V, Limit, ModeNumber, Status, l). Limit - ModeNumber)") auto

declare check_modes.simps [simp del]

definition CheckModeSupported :: "gc_env \<Rightarrow> nat \<Rightarrow> nat \<Rightarrow> gc_log \<Rightarrow> efi_status \<times> nat \<times> gc_log" where
  "CheckModeSupported e H V l =
     (let (Status, ModeNumber, l') = check_modes e H V (GopMaxMode (gc_GopMode e l)) 0 EFI_SUCCESS l
      in (if ModeNumber = GopMaxMode (gc_GopMode e l') then EFI_UNSUPPORTED else Status, ModeNumber, l'))"

text \<open>Without a configured resolution: the widest mode, and the tallest among these.\<close>

definition larger_mode ::
  "gc_env \<Rightarrow> nat \<Rightarrow> efi_status \<times> nat \<times> nat \<times> nat \<times> gc_log \<Rightarrow> efi_status \<times> nat \<times> nat \<times> nat \<times> gc_log" where
  "larger_mode e ModeIndex = (\<lambda>(_, H, V, ModeNumber, l).
     let (Status, Info, h, v) = gc_QueryMode e l ModeIndex; l1 = l @ [gQueryMode ModeIndex Status]
     in if EFI_ERROR Status then (Status, H, V, ModeNumber, l1)
        else if H < h \<or> h = H \<and> V < v then (Status, h, v, ModeIndex, l1 @ [gFree (Some Info)])
        else (Status, H, V, ModeNumber, l1 @ [gFree (Some Info)]))"

definition configured_mode :: "gc_env \<Rightarrow> nat \<Rightarrow> nat \<Rightarrow> gc_log \<Rightarrow> efi_status \<times> nat \<times> nat \<times> nat \<times> gc_log" where
  "configured_mode e H V l =
     (let (Status, ModeNumber, l1) = CheckModeSupported e H V l
      in if \<not> EFI_ERROR Status then (Status, H, V, ModeNumber, l1)
         else let (Status, ModeNumber, l2) = CheckModeSupported e 800 600 l1;
                  M = gc_GopMode e l2
              in if EFI_ERROR Status \<and> GopMaxMode M \<noteq> 0 then (Status, GopInfoH M, GopInfoV M, GopMode M, l2)
                 else (Status, 800, 600, ModeNumber, l2))"

definition choose_gop_mode :: "gc_env \<Rightarrow> gc_log \<Rightarrow> efi_status \<times> nat \<times> nat \<times> nat \<times> gc_log" where
  "choose_gop_mode e l =
     (let H0 = VideoHorizontalResolution e; V0 = VideoVerticalResolution e;
          (Status, H, V, ModeNumber, l1) =
            (if H0 = 0 \<or> V0 = 0
             then fold (larger_mode e) [0..<GopMaxMode (gc_GopMode e l)] (EFI_SUCCESS, H0, V0, 0, l)
             else configured_mode e H0 V0 l)
      in if (H0 = 0 \<or> V0 = 0) \<and> (H = 0 \<or> V = 0) then (EFI_UNSUPPORTED, H, V, ModeNumber, l1)
         else if EFI_ERROR Status \<or> ModeNumber \<noteq> GopMode (gc_GopMode e l1)
         then (gc_SetMode e l1 ModeNumber, H, V, ModeNumber, l1 @ [gSetMode ModeNumber])
         else (Status, H, V, ModeNumber, l1))"

definition choose_uga_mode :: "gc_env \<Rightarrow> gc_log \<Rightarrow> efi_status \<times> nat \<times> nat \<times> nat \<times> gc_log" where
  "choose_uga_mode e l =
     (let H = VideoHorizontalResolution e; V = VideoVerticalResolution e;
          Status = gc_UgaSetMode e l H V; l1 = l @ [gUgaSetMode H V]
      in if \<not> EFI_ERROR Status then (Status, H, V, 0, l1)
         else let Status = gc_UgaSetMode e l1 800 600; l2 = l1 @ [gUgaSetMode 800 600]
              in if \<not> EFI_ERROR Status then (Status, H, V, 0, l2)
                 else let (Status, h, v) = gc_UgaGetMode e l2 in (Status, h, v, 0, l2 @ [gUgaGetMode]))"

section \<open>The preferred text mode\<close>

text \<open>With a configured size, the first mode of that size; otherwise the last that beats all before it in
  both columns and rows.  \<open>-1\<close> if there is none.\<close>

definition larger_text_mode :: "GRAPHICS_CONSOLE_MODE_DATA list \<Rightarrow> nat \<Rightarrow> int \<times> nat \<times> nat \<Rightarrow> int \<times> nat \<times> nat" where
  "larger_text_mode modes Index = (\<lambda>(PreferMode, Column, Row).
     if Column < Columns (modes ! Index) \<and> Row < Rows (modes ! Index)
     then (int Index, Columns (modes ! Index), Rows (modes ! Index))
     else (PreferMode, Column, Row))"

definition prefer_text_mode :: "nat \<Rightarrow> nat \<Rightarrow> nat \<Rightarrow> GRAPHICS_CONSOLE_MODE_DATA list \<Rightarrow> int" where
  "prefer_text_mode DefaultColumn DefaultRow Limit modes =
     (if DefaultColumn \<noteq> 0 \<and> DefaultRow \<noteq> 0
      then (case List.find (\<lambda>i. Columns (modes ! i) = DefaultColumn \<and> Rows (modes ! i) = DefaultRow) [0..<Limit] of
              Some i \<Rightarrow> int i | None \<Rightarrow> - 1)
      else fst (fold (larger_text_mode modes) [0..<Limit] (- 1, 0, 0)))"

section \<open>Start and Stop\<close>

text \<open>Releasing a device: the draw protocol, the two buffers, and the structure itself.\<close>

definition free_buffers :: "GRAPHICS_CONSOLE_DEV \<Rightarrow> ptr \<Rightarrow> gc_log \<Rightarrow> gc_log" where
  "free_buffers P p l =
     l @ (if GcLineBuffer P \<noteq> None then [gFree (GcLineBuffer P)] else [])
       @ (if ModeDataP P \<noteq> None then [gFree (ModeDataP P)] else []) @ [gFree (Some p)]"

definition start_error :: "gc_env \<Rightarrow> GRAPHICS_CONSOLE_DEV \<Rightarrow> ptr \<Rightarrow> gc_log \<Rightarrow> gc_log" where
  "start_error e P p l = free_buffers P p (close_draw e (GraphicsOutput P) l)"

text \<open>The result is \<open>None\<close> when the pool has no room for the mode table: the code then writes
  through a null pointer.\<close>

definition GraphicsConsoleControllerDriverStart ::
  "gc_env \<Rightarrow> gc_log \<Rightarrow> (efi_status \<times> GRAPHICS_CONSOLE_DEV option \<times> gc_log) option" where
  "GraphicsConsoleControllerDriverStart e l =
     (let r = gc_Allocate e l PrivateBlock; l0 = l @ [gAllocate PrivateBlock r] in
      case r of None \<Rightarrow> Some (EFI_OUT_OF_RESOURCES, None, l0)
      | Some p \<Rightarrow>
     (let (Status, gop, uga, l1) = open_draw e l0;
          P = mGraphicsConsoleDevTemplate\<lparr>GraphicsOutput := gop, UgaDraw := uga\<rparr>
      in if EFI_ERROR Status then Some (Status, None, start_error e P p l1)
         else let (Status, H, V, ModeNumber, l2) =
                (if gop then choose_gop_mode e l1
                 else if UgaConsumeSupport e then choose_uga_mode e l1
                 else (Status, VideoHorizontalResolution e, VideoVerticalResolution e, 0, l1))
              in if EFI_ERROR Status then Some (Status, None, start_error e P p l2)
                 else let block = ModeBlock (length mGraphicsConsoleModeData + 2);
                          r = gc_Allocate e l2 block; l3 = l2 @ [gAllocate block r]
                      in case r of None \<Rightarrow> None
                         | Some mp \<Rightarrow>
                        (let (Limit, modes) = InitializeGraphicsConsoleTextMode H V ModeNumber;
                             P1 = P\<lparr>ModeData := modes, ModeDataP := Some mp,
                                    SimpleTextOutputMode := (SimpleTextOutputMode P)
                                      \<lparr>MaxMode := int32 Limit, CurMode := prefer_text_mode (ConOutColumn e) (ConOutRow e) Limit modes\<rparr>\<rparr>;
                             Status = gc_Install e l3; l4 = l3 @ [gInstall Status]
                         in if EFI_ERROR Status then Some (Status, None, start_error e P1 p l4)
                            else Some (Status, Some P1, l4))))"

text \<open>Stop of the device at address \<open>p\<close>; the status of opening its text output protocol is the
  environment's.  \<open>None\<close> in the second component: the device is gone.\<close>

definition GraphicsConsoleControllerDriverStop ::
  "gc_env \<Rightarrow> ptr \<Rightarrow> gc_state \<Rightarrow> efi_status \<times> GRAPHICS_CONSOLE_DEV option \<times> gc_log" where
  "GraphicsConsoleControllerDriverStop e p s =
     (let P = gcDev s; (Status, l1) = gc_open e gEfiSimpleTextOutProtocolGuid (gcLog s)
      in if EFI_ERROR Status then (EFI_NOT_STARTED, Some P, l1)
         else let Status = gc_Uninstall e l1; l2 = l1 @ [gUninstall Status]
              in if EFI_ERROR Status then (Status, Some P, l2)
                 else (Status, None, free_buffers P p (close_draw e (GraphicsOutput P) l2)))"

end
