(* ===== verification/GraphicsConsoleCorrect.thy ===== *)
theory GraphicsConsoleCorrect
  imports GraphicsConsoleText GraphicsConsoleBinding
begin

text \<open>
  The graphics console (\<open>Drivers/GraphicsConsoleDxe/GraphicsConsole.c\<close>): its table of text modes,
  the mode it prefers, the states its operations can reach, and what Start leaves behind.
\<close>

section \<open>The table of text modes\<close>

definition fits :: "nat \<Rightarrow> nat \<Rightarrow> nat \<times> nat \<Rightarrow> bool" where
  "fits H V = (\<lambda>(c, r). c \<noteq> 0 \<and> r \<noteq> 0 \<and> c \<le> H div EFI_GLYPH_WIDTH \<and> r \<le> V div EFI_GLYPH_HEIGHT)"

definition mode_sizes :: "nat \<Rightarrow> GRAPHICS_CONSOLE_MODE_DATA list \<Rightarrow> (nat \<times> nat) list" where
  "mode_sizes n modes = map (\<lambda>d. (Columns d, Rows d)) (take n modes)"

definition add_size :: "nat \<Rightarrow> nat \<Rightarrow> nat \<times> nat \<Rightarrow> (nat \<times> nat) list \<Rightarrow> (nat \<times> nat) list" where
  "add_size H V x acc = (if fits H V x \<and> x \<notin> set acc then acc @ [x] else acc)"

lemma add_text_mode_sizes:
  assumes "n < length buf" "add_text_mode H V k x (n, buf) = (n', buf')"
  shows "mode_sizes n' buf' = add_size H V x (mode_sizes n buf)" "length buf' = length buf" "n \<le> n'" "n' \<le> Suc n"
    "\<forall>i < n. buf' ! i = buf ! i" "\<forall>i. n \<le> i \<longrightarrow> i < n' \<longrightarrow> (\<exists>c r. fits H V (c, r) \<and> buf' ! i = mode_entry H V k c r)"
proof -
  obtain c r where x: "x = (c, r)" by force
  have mem: "list_ex (\<lambda>d. c = Columns d \<and> r = Rows d) (take n buf) \<longleftrightarrow> (c, r) \<in> set (mode_sizes n buf)"
    by (auto simp: list_ex_iff mode_sizes_def)
  have new: "n' = Suc n \<and> buf' = buf[n := mode_entry H V k c r] \<and> fits H V x \<and> x \<notin> set (mode_sizes n buf) \<or>
      n' = n \<and> buf' = buf \<and> add_size H V x (mode_sizes n buf) = mode_sizes n buf"
    using assms(2) by (auto simp: x add_text_mode_def mem add_size_def fits_def split: if_splits)
  then show "mode_sizes n' buf' = add_size H V x (mode_sizes n buf)"
    using assms(1) by (auto simp: x add_size_def mode_sizes_def take_Suc_conv_app_nth mode_entry_def)
  show "length buf' = length buf" "n \<le> n'" "n' \<le> Suc n" "\<forall>i < n. buf' ! i = buf ! i" using new by auto
  show "\<forall>i. n \<le> i \<longrightarrow> i < n' \<longrightarrow> (\<exists>c r. fits H V (c, r) \<and> buf' ! i = mode_entry H V k c r)"
  proof (intro allI impI)
    fix i assume "n \<le> i" "i < n'"
    then have "i = n" "buf' = buf[n := mode_entry H V k c r]" "fits H V (c, r)" using new by (auto simp: x)
    then show "\<exists>c r. fits H V (c, r) \<and> buf' ! i = mode_entry H V k c r" using assms(1) by auto
  qed
qed

lemma fold_text_modes:
  assumes "n + length xs \<le> length buf" "fold (add_text_mode H V k) xs (n, buf) = (n', buf')"
  shows "mode_sizes n' buf' = fold (add_size H V) xs (mode_sizes n buf) \<and> length buf' = length buf \<and> n \<le> n' \<and> n' \<le> n + length xs
    \<and> (\<forall>i < n. buf' ! i = buf ! i) \<and> (\<forall>i. n \<le> i \<longrightarrow> i < n' \<longrightarrow> (\<exists>c r. fits H V (c, r) \<and> buf' ! i = mode_entry H V k c r))"
  using assms
proof (induction xs arbitrary: n buf)
  case (Cons x xs)
  obtain n1 buf1 where 1: "add_text_mode H V k x (n, buf) = (n1, buf1)" by force
  note a = add_text_mode_sizes [OF _ 1]
  have l: "n < length buf" using Cons.prems(1) by simp
  have "n1 + length xs \<le> length buf1" using a(2,4) [OF l] Cons.prems(1) by simp
  from Cons.IH [OF this] Cons.prems(2) 1
  have ih: "mode_sizes n' buf' = fold (add_size H V) xs (mode_sizes n1 buf1)" "length buf' = length buf1" "n1 \<le> n'"
      "n' \<le> n1 + length xs" "\<forall>i < n1. buf' ! i = buf1 ! i"
      "\<forall>i. n1 \<le> i \<longrightarrow> i < n' \<longrightarrow> (\<exists>c r. fits H V (c, r) \<and> buf' ! i = mode_entry H V k c r)" by simp_all
  have "\<exists>c r. fits H V (c, r) \<and> buf' ! i = mode_entry H V k c r" if "n \<le> i" "i < n'" for i
    using that ih(5,6) a(6) [OF l] by (cases "i < n1") auto
  then show ?case using a [OF l] ih by auto
qed simp

lemma fold_add_size_unique:
  assumes "\<not> (\<exists>x \<in> set xs. x \<in> set acc)" "distinct xs"
  shows "fold (add_size H V) xs acc = acc @ filter (fits H V) xs"
  using assms
proof (induction xs arbitrary: acc)
  case (Cons x xs)
  have "\<not> (\<exists>y \<in> set xs. y \<in> set (add_size H V x acc))" using Cons.prems by (auto simp: add_size_def)
  from Cons.IH [OF this] show ?case using Cons.prems by (simp add: add_size_def)
qed simp

definition standard_sizes :: "(nat \<times> nat) list" where
  "standard_sizes = [(100, 31), (128, 40), (160, 42), (240, 56)]"

lemma text_modes:
  assumes "InitializeGraphicsConsoleTextMode H V k = (n, modes)"
  shows "mode_sizes n modes = [(50, 120), (0, 0)] @ filter (fits H V) standard_sizes @
      (let full = (H div EFI_GLYPH_WIDTH, V div EFI_GLYPH_HEIGHT)
       in if fits H V full \<and> full \<notin> set ((50, 120) # standard_sizes) then [full] else [])"
    "n \<le> length modes" "2 \<le> n" "length modes = 7" "modes ! 0 = mode_entry H V k 50 120"
    "modes ! 1 = zero_mode\<lparr>GopWidth := H, GopHeight := V, GopModeNumber := k\<rparr>"
    "\<forall>i. 2 \<le> i \<longrightarrow> i < n \<longrightarrow> (\<exists>c r. fits H V (c, r) \<and> modes ! i = mode_entry H V k c r)"
proof -
  let ?full = "(H div EFI_GLYPH_WIDTH, V div EFI_GLYPH_HEIGHT)"
  let ?buf = "[mode_entry H V k 50 120, zero_mode\<lparr>GopWidth := H, GopHeight := V, GopModeNumber := k\<rparr>,
     zero_mode, zero_mode, zero_mode, zero_mode, zero_mode]"
  have f: "fold (add_text_mode H V k) (standard_sizes @ [?full]) (2, ?buf) = (n, modes)"
    using assms by (simp add: InitializeGraphicsConsoleTextMode_def mGraphicsConsoleModeData_def standard_sizes_def Let_def eval_nat_numeral)
  have l: "2 + length (standard_sizes @ [?full]) \<le> length ?buf" by (simp add: standard_sizes_def)
  note r = fold_text_modes [OF l f]
  have start: "mode_sizes 2 ?buf = [(50, 120), (0, 0)]" by (simp add: mode_sizes_def mode_entry_def zero_mode_def numeral_2_eq_2)
  have "fold (add_size H V) (standard_sizes @ [?full]) [(50, 120), (0, 0)] =
      add_size H V ?full ([(50, 120), (0, 0)] @ filter (fits H V) standard_sizes)"
    using fold_add_size_unique [of standard_sizes "[(50, 120), (0, 0)]"] by (simp add: standard_sizes_def)
  moreover have "\<dots> = [(50, 120), (0, 0)] @ filter (fits H V) standard_sizes @
      (if fits H V ?full \<and> ?full \<notin> set ((50, 120) # standard_sizes) then [?full] else [])"
  proof (cases "fits H V ?full")
    case True
    then have "?full \<noteq> (0, 0)" by (simp add: fits_def)
    moreover have "?full \<in> set (filter (fits H V) standard_sizes) \<longleftrightarrow> ?full \<in> set standard_sizes" using True by simp
    ultimately show ?thesis unfolding add_size_def by (simp only: True simp_thms set_append Un_iff list.set insert_iff empty_iff) auto
  qed (simp add: add_size_def)
  ultimately show "mode_sizes n modes = [(50, 120), (0, 0)] @ filter (fits H V) standard_sizes @
      (let full = ?full in if fits H V full \<and> full \<notin> set ((50, 120) # standard_sizes) then [full] else [])"
    using r by (simp add: start Let_def)
  show "n \<le> length modes" "2 \<le> n" "length modes = 7" using r by (simp_all add: standard_sizes_def)
  show "modes ! 0 = mode_entry H V k 50 120" "modes ! 1 = zero_mode\<lparr>GopWidth := H, GopHeight := V, GopModeNumber := k\<rparr>"
    using r by auto
  show "\<forall>i. 2 \<le> i \<longrightarrow> i < n \<longrightarrow> (\<exists>c r. fits H V (c, r) \<and> modes ! i = mode_entry H V k c r)" using r by blast
qed

text \<open>A mode that fits is centred: both margins, and an odd pixel at the far end.\<close>

lemma mode_delta_fits:
  assumes "n * b \<le> Res" "Res < 2 ^ 32"
  shows "mode_delta Res n b = int ((Res - n * b) div 2)"
proof -
  have "wrap (n * b) = n * b" using assms by (intro wrap_small) simp
  moreover have "Res + 2 ^ 64 - n * b = (Res - n * b) + 2 ^ 64" using assms by simp
  then have "wrap (Res + 2 ^ 64 - n * b) = Res - n * b"
    using assms unfolding wrap_def by (simp only: mod_add_self2) simp
  ultimately show ?thesis by (simp add: mode_delta_def)
qed

lemma fits_cells: "fits H V (c, r) \<Longrightarrow> c * EFI_GLYPH_WIDTH \<le> H \<and> r * EFI_GLYPH_HEIGHT \<le> V"
  by (auto simp: fits_def EFI_GLYPH_WIDTH_def EFI_GLYPH_HEIGHT_def less_eq_div_iff_mult_less_eq)

text \<open>C24: The table of text modes for a screen of H by V pixels is the constant 50 by 120 mode, the
  empty mode 1, the standard sizes that fit the screen in their order, and the largest size
  that fits unless it is one of these.  Every mode but the first two lies on the screen, centred:
  twice the left margin and the cells make up the width, less one pixel when that is odd, and likewise
  for the height.\<close>

theorem gc_text_modes:
  assumes "InitializeGraphicsConsoleTextMode H V k = (n, modes)" "H < 2 ^ 32" "V < 2 ^ 32"
  shows "mode_sizes n modes = [(50, 120), (0, 0)] @ filter (fits H V) standard_sizes @
      (let full = (H div EFI_GLYPH_WIDTH, V div EFI_GLYPH_HEIGHT)
       in if fits H V full \<and> full \<notin> set ((50, 120) # standard_sizes) then [full] else [])
    \<and> (\<forall>i \<in> {2..<n}. \<exists>mx my. DeltaX (modes ! i) = int mx \<and> DeltaY (modes ! i) = int my \<and>
        2 * mx + Columns (modes ! i) * EFI_GLYPH_WIDTH \<in> {H, H - 1} \<and> 2 * my + Rows (modes ! i) * EFI_GLYPH_HEIGHT \<in> {V, V - 1})"
proof (intro conjI ballI)
  note t = text_modes [OF assms(1)]
  show "mode_sizes n modes = [(50, 120), (0, 0)] @ filter (fits H V) standard_sizes @
      (let full = (H div EFI_GLYPH_WIDTH, V div EFI_GLYPH_HEIGHT)
       in if fits H V full \<and> full \<notin> set ((50, 120) # standard_sizes) then [full] else [])" by (rule t(1))
  fix i assume "i \<in> {2..<n}"
  then obtain c r where cr: "fits H V (c, r)" "modes ! i = mode_entry H V k c r" using t(7) by auto
  note f = fits_cells [OF cr(1)]
  have half: "2 * ((Res - x) div 2) + x \<in> {Res, Res - 1}" if "x \<le> Res" for x Res :: nat
    using that by (cases "even (Res - x)") (auto elim!: evenE oddE)
  show "\<exists>mx my. DeltaX (modes ! i) = int mx \<and> DeltaY (modes ! i) = int my \<and>
        2 * mx + Columns (modes ! i) * EFI_GLYPH_WIDTH \<in> {H, H - 1} \<and> 2 * my + Rows (modes ! i) * EFI_GLYPH_HEIGHT \<in> {V, V - 1}"
    using half [of "c * EFI_GLYPH_WIDTH" H] half [of "r * EFI_GLYPH_HEIGHT" V] f
      mode_delta_fits [of c EFI_GLYPH_WIDTH H] mode_delta_fits [of r EFI_GLYPH_HEIGHT V] assms(2,3)
    by (simp add: cr(2) mode_entry_def) 
qed

theorem gc_text_modes_witness:
  "case InitializeGraphicsConsoleTextMode 720 1280 0 of (n, modes) \<Rightarrow>
     mode_sizes n modes = [(50, 120), (0, 0)] @ filter (fits 720 1280) standard_sizes @
      (let full = (720 div EFI_GLYPH_WIDTH, 1280 div EFI_GLYPH_HEIGHT)
       in if fits 720 1280 full \<and> full \<notin> set ((50, 120) # standard_sizes) then [full] else [])"
  using gc_text_modes [of 720 1280 0] by (simp split: prod.splits)

section \<open>The preferred mode\<close>

lemma larger_text_mode_eq:
  "larger_text_mode modes i (p, c, r) = (if c < Columns (modes ! i) \<and> r < Rows (modes ! i)
     then (int i, Columns (modes ! i), Rows (modes ! i)) else (p, c, r))"
  by (simp add: larger_text_mode_def)

lemma prefer_text_mode_range:
  assumes "1 < n" "n \<le> length modes"
    and nz: "0 < Columns (modes ! 0)" "0 < Rows (modes ! 0)"
    and "\<not> (DefaultColumn \<noteq> 0 \<and> DefaultRow \<noteq> 0)"
  shows "\<exists>i < n. prefer_text_mode DefaultColumn DefaultRow n modes = int i \<and> 0 < Columns (modes ! i) \<and> 0 < Rows (modes ! i)"
proof -
  have "\<exists>i < n. fold (larger_text_mode modes) xs (int j, Columns (modes ! j), Rows (modes ! j)) = (int i, Columns (modes ! i), Rows (modes ! i))
      \<and> Columns (modes ! j) \<le> Columns (modes ! i) \<and> Rows (modes ! j) \<le> Rows (modes ! i)"
    if "set xs \<subseteq> {..<n}" "j < n" for xs j
    using that
  proof (induction xs arbitrary: j)
    case (Cons x xs)
    show ?case
    proof (cases "Columns (modes ! j) < Columns (modes ! x) \<and> Rows (modes ! j) < Rows (modes ! x)")
      case True
      have "x < n" "set xs \<subseteq> {..<n}" using Cons.prems by auto
      then obtain i where "i < n" "fold (larger_text_mode modes) xs (int x, Columns (modes ! x), Rows (modes ! x)) =
          (int i, Columns (modes ! i), Rows (modes ! i))" "Columns (modes ! x) \<le> Columns (modes ! i)" "Rows (modes ! x) \<le> Rows (modes ! i)"
        using Cons.IH by blast
      then show ?thesis using True by (intro exI [of _ i]) (simp add: larger_text_mode_eq)
    next
      case False
      then show ?thesis using Cons by (auto simp: larger_text_mode_eq)
    qed
  qed auto
  moreover have "set [1..<n] \<subseteq> {..<n}" "0 < n" using assms(1) by auto
  ultimately obtain i where i: "i < n" "fold (larger_text_mode modes) [1..<n] (int 0, Columns (modes ! 0), Rows (modes ! 0)) =
        (int i, Columns (modes ! i), Rows (modes ! i))" "Columns (modes ! 0) \<le> Columns (modes ! i)" "Rows (modes ! 0) \<le> Rows (modes ! i)"
    by blast
  have "[0..<n] = 0 # [1..<n]" using assms(1) by (simp add: upt_conv_Cons)
  then have "prefer_text_mode DefaultColumn DefaultRow n modes = int i"
    using assms(3-5) i(2) by (auto simp: prefer_text_mode_def larger_text_mode_def)
  then show ?thesis using i nz by (intro exI [of _ i]) auto
qed

lemma fold_larger_none:
  "\<forall>i \<in> set xs. \<not> (c < Columns (modes ! i) \<and> r < Rows (modes ! i)) \<Longrightarrow>
   fold (larger_text_mode modes) xs (p, c, r) = (p, c, r)"
  by (induction xs) (auto simp: larger_text_mode_def)

lemma prefers_first_mode:
  assumes init: "InitializeGraphicsConsoleTextMode H V k = (n, modes)" and V: "V < 120 * EFI_GLYPH_HEIGHT"
    and "\<not> (DefaultColumn \<noteq> 0 \<and> DefaultRow \<noteq> 0)"
  shows "prefer_text_mode DefaultColumn DefaultRow n modes = 0"
proof -
  note t = text_modes [OF init]
  have m0: "Columns (modes ! 0) = 50" "Rows (modes ! 0) = 120" by (simp_all add: t(5) mode_entry_def)
  have "Rows (modes ! i) \<le> 120" if "i \<in> set [1..<n]" for i
  proof (cases "i = 1")
    case True
    then show ?thesis using t(6) by (simp add: zero_mode_def)
  next
    case False
    then have "2 \<le> i" "i < n" using that by auto
    then obtain c r where "fits H V (c, r)" "modes ! i = mode_entry H V k c r" using t(7) by blast
    moreover have "V div EFI_GLYPH_HEIGHT < 120" using V by (simp add: EFI_GLYPH_HEIGHT_def div_less_iff_less_mult mult.commute)
    ultimately show ?thesis by (simp add: fits_def mode_entry_def)
  qed
  then have "fold (larger_text_mode modes) [1..<n] (0, 50, 120) = (0, 50, 120)"
    by (intro fold_larger_none) (auto simp: not_less)
  moreover have "[0..<n] = 0 # [1..<n]" using t(3) by (simp add: upt_conv_Cons)
  ultimately show ?thesis using assms(3) m0 by (auto simp: prefer_text_mode_def larger_text_mode_def)
qed

text \<open>Where the cells of mode 0 are on a screen it does not fit: the margin has wrapped around.\<close>

lemma first_mode_row:
  assumes "V < 120 * EFI_GLYPH_HEIGHT" "r < 120"
  shows "2 ^ 62 \<le> cell_y (mode_entry H V k 50 120) r" "cell_y (mode_entry H V k 50 120) r + EFI_GLYPH_HEIGHT < 2 ^ 64"
proof -
  have "wrap (120 * EFI_GLYPH_HEIGHT) = 2280" by (simp add: EFI_GLYPH_HEIGHT_def)
  moreover have "wrap (V + 2 ^ 64 - 2280) = V + 2 ^ 64 - 2280" using assms by (intro wrap_small) (simp add: EFI_GLYPH_HEIGHT_def)
  ultimately have d: "DeltaY (mode_entry H V k 50 120) = int ((V + 2 ^ 64 - 2280) div 2)"
    by (simp add: mode_entry_def mode_delta_def)
  have "cell_y (mode_entry H V k 50 120) r = r * 19 + (V + 2 ^ 64 - 2280) div 2"
    unfolding cell_y_def d
    using assms uintn_int [of "r * 19 + (V + 2 ^ 64 - 2280) div 2"] by (simp add: EFI_GLYPH_HEIGHT_def)
  then show "2 ^ 62 \<le> cell_y (mode_entry H V k 50 120) r" "cell_y (mode_entry H V k 50 120) r + EFI_GLYPH_HEIGHT < 2 ^ 64"
    using assms by (simp_all add: EFI_GLYPH_HEIGHT_def)
qed

section \<open>Reachable states\<close>

definition entry_ok :: "GRAPHICS_CONSOLE_MODE_DATA \<Rightarrow> bool" where
  "entry_ok d \<longleftrightarrow> Columns d = 0 \<and> Rows d = 0 \<or> 2 \<le> Columns d \<and> Columns d < 2 ^ 30 \<and> 0 < Rows d \<and> Rows d < 2 ^ 31"

definition cursor_ok :: "GRAPHICS_CONSOLE_MODE_DATA \<Rightarrow> EFI_SIMPLE_TEXT_OUTPUT_MODE \<Rightarrow> bool" where
  "cursor_ok d t \<longleftrightarrow> 0 \<le> CursorColumn t \<and> CursorColumn t < int (Columns d) \<and> 0 \<le> CursorRow t \<and> CursorRow t < int (Rows d)"

text \<open>A device between two calls: a sound mode table, no width flag, and no mode and no cursor or a current
  mode of the table with the cursor on its cells.\<close>

definition dev_ok :: "GRAPHICS_CONSOLE_DEV \<Rightarrow> bool" where
  "dev_ok P \<longleftrightarrow> (let t = SimpleTextOutputMode P in
     0 \<le> MaxMode t \<and> MaxMode t < 2 ^ 31 \<and> nat (MaxMode t) \<le> length (ModeData P) \<and>
     (\<forall>i < nat (MaxMode t). entry_ok (ModeData P ! i)) \<and> Attribute t AND 0x7f = Attribute t \<and>
     (CurMode t = - 1 \<and> \<not> CursorVisible t \<or>
      0 \<le> CurMode t \<and> CurMode t < MaxMode t \<and> cursor_ok (ModeData P ! nat (CurMode t)) t))"

lemma wide_of_7f: "(a :: int) AND 0x7f = a \<Longrightarrow> a AND EFI_WIDE_ATTRIBUTE = 0"
proof -
  assume a: "a AND 0x7f = a"
  have "(a AND 0x7f) AND EFI_WIDE_ATTRIBUTE = a AND (0x7f AND EFI_WIDE_ATTRIBUTE)" by (simp only: and.assoc)
  also have "0x7f AND EFI_WIDE_ATTRIBUTE = 0" by (simp add: EFI_WIDE_ATTRIBUTE_def)
  finally show ?thesis unfolding a by simp
qed

lemma dev_ok_on_mode:
  assumes "dev_ok (gcDev s)" "CurMode (text_mode s) \<noteq> - 1"
  obtains d fg bg c r where "on_mode d fg bg s" "cursor_at s c r False" "c < Columns d" "r < Rows d" "d = mode_data s"
proof -
  let ?t = "text_mode s"
  obtain fg bg where fg: "GetTextColors ?t = (fg, bg)" by force
  have m: "0 \<le> CurMode ?t" "CurMode ?t < MaxMode ?t" "cursor_ok (mode_data s) ?t" "entry_ok (mode_data s)"
      "Attribute ?t AND 0x7f = Attribute ?t"
    using assms by (auto simp: dev_ok_def text_mode_def mode_data_def Let_def)
  have "2 \<le> Columns (mode_data s)" "Columns (mode_data s) < 2 ^ 30" "0 < Rows (mode_data s)" "Rows (mode_data s) < 2 ^ 31"
    using m(3,4) by (auto simp: entry_ok_def cursor_ok_def)
  then have on: "on_mode (mode_data s) fg bg s" using assms(2) fg by (simp add: on_mode_def)
  have "cursor_at s (nat (CursorColumn ?t)) (nat (CursorRow ?t)) False"
    using m(3) wide_of_7f [OF m(5)] by (simp add: cursor_at_def cursor_ok_def is_wide_def)
  then show ?thesis using that [OF on] m(3) by (simp add: cursor_ok_def zless_nat_eq_int_zless nat_less_iff)
qed

text \<open>What the operations do to the device.\<close>

lemma text_mode_dev: "gcDev s = gcDev s' \<Longrightarrow> text_mode s = text_mode s'"
  by (simp add: text_mode_def)

lemma gRaise_dev [simp]: "gcDev (snd (gRaise e s)) = gcDev s" "text_mode (snd (gRaise e s)) = text_mode s"
  "mode_data (snd (gRaise e s)) = mode_data s"
  by (simp_all add: gRaise_def Let_def)

lemma upd_mode_dev: "gcDev s = gcDev s' \<Longrightarrow> gcDev (upd_mode f s) = gcDev (upd_mode f s')"
  by (simp add: upd_mode_def text_mode_def)

lemma move_to_dev: "gcDev s = gcDev s' \<Longrightarrow> gcDev (move_to c r s) = gcDev (move_to c r s')"
  unfolding move_to_def by (rule upd_mode_dev)

lemma ClearScreen_dev:
  "gcDev (snd (GraphicsConsoleConOutClearScreen e s)) = (if CurMode (text_mode s) = - 1 then gcDev s else gcDev (move_to 0 0 s))"
proof (cases "CurMode (text_mode s) = - 1")
  case False
  then show ?thesis
    by (auto simp: GraphicsConsoleConOutClearScreen_def Let_def split_beta intro!: move_to_dev)
qed (simp add: GraphicsConsoleConOutClearScreen_def)

lemma SetAttribute_dev:
  "gcDev (snd (GraphicsConsoleConOutSetAttribute e Attr s)) =
   (if Attr OR 0x7f \<noteq> 0x7f then gcDev s else gcDev (upd_mode (\<lambda>t. t\<lparr>Attribute := int32 Attr\<rparr>) s))"
proof -
  have same: "gcDev (upd_mode (\<lambda>t. t\<lparr>Attribute := Attribute (text_mode s)\<rparr>) s) = gcDev s"
  proof -
    have "(text_mode s)\<lparr>Attribute := Attribute (text_mode s)\<rparr> = text_mode s" by simp
    then show ?thesis unfolding upd_mode_def by (simp add: text_mode_def)
  qed
  show ?thesis
    by (auto simp: GraphicsConsoleConOutSetAttribute_def Let_def split_beta same intro!: upd_mode_dev)
qed

lemma EnableCursor_dev:
  "gcDev (snd (GraphicsConsoleConOutEnableCursor e v s)) =
   (if CurMode (text_mode s) = - 1 then gcDev s else gcDev (upd_mode (\<lambda>t. t\<lparr>CursorVisible := v\<rparr>) s))"
  by (auto simp: GraphicsConsoleConOutEnableCursor_def Let_def split_beta intro!: upd_mode_dev)

lemma SetCursorPosition_dev:
  "gcDev (snd (GraphicsConsoleConOutSetCursorPosition e Column Row s)) =
   (if CurMode (text_mode s) = - 1 \<or> Columns (mode_data s) \<le> Column \<or> Rows (mode_data s) \<le> Row then gcDev s
    else gcDev (move_to (int32 Column) (int32 Row) s))"
proof -
  have "gcDev (move_to (CursorColumn (text_mode s)) (CursorRow (text_mode s)) s) = gcDev s"
    by (simp add: move_to_def upd_mode_def text_mode_def)
  then show ?thesis
    by (auto simp: GraphicsConsoleConOutSetCursorPosition_def Let_def split_beta intro!: move_to_dev)
qed

lemma set_resolution_dev [simp]: "gcDev (snd (set_resolution e d s)) = gcDev s"
  by (auto simp: set_resolution_def Let_def split: prod.splits)

lemma set_line_buffer_dev: "gcDev s = gcDev s' \<Longrightarrow> gcDev (set_line_buffer p s) = gcDev (set_line_buffer p s')"
  by (simp add: set_line_buffer_def)

definition enter_mode :: "nat \<Rightarrow> gc_state \<Rightarrow> gc_state" where
  "enter_mode n = upd_mode (\<lambda>t. t\<lparr>CurMode := int32 n, CursorColumn := 0, CursorRow := 0\<rparr>)"

lemma change_mode_dev:
  "\<exists>p. gcDev (snd (change_mode e n d s)) \<in> {gcDev s, gcDev (set_line_buffer (Some p) s), gcDev (enter_mode n (set_line_buffer (Some p) s))}"
proof (cases "gAlloc e (LineBlock (Columns d)) s")
  case (Pair r s1)
  have dev: "gcDev s1 = gcDev s" by (rule gAlloc_dev [OF Pair])
  show ?thesis
  proof (cases r)
    case (Some p)
    have "gcDev (set_line_buffer (Some p) s1) = gcDev (set_line_buffer (Some p) s)" by (rule set_line_buffer_dev [OF dev])
    then show ?thesis
      by (auto simp: change_mode_def Pair Some split_beta Let_def enter_mode_def intro!: exI [of _ p] upd_mode_dev)
  qed (simp add: change_mode_def Pair dev)
qed

lemma SetMode_dev:
  fixes s :: gc_state and e :: gc_env and n :: nat
  defines "s' \<equiv> snd (GraphicsConsoleConOutSetMode e n s)"
  shows "gcDev s' = gcDev s \<or> (\<exists>p. gcDev s' = gcDev (set_line_buffer (Some p) s)) \<or>
    (CurMode (text_mode s) \<noteq> - 1 \<and> gcDev s' = gcDev (move_to 0 0 s)) \<or>
    (n < uintn (MaxMode (text_mode s)) \<and> \<not> (Columns (ModeData (gcDev s) ! n) \<le> 0 \<and> Rows (ModeData (gcDev s) ! n) \<le> 0)
      \<and> (\<exists>p. gcDev s' = gcDev (enter_mode n (set_line_buffer (Some p) s))))"
proof -
  have cm: "gcDev (snd (change_mode e n d s1)) = gcDev s \<or> (\<exists>p. gcDev (snd (change_mode e n d s1)) = gcDev (set_line_buffer (Some p) s)) \<or>
      (\<exists>p. gcDev (snd (change_mode e n d s1)) = gcDev (enter_mode n (set_line_buffer (Some p) s)))" if "gcDev s1 = gcDev s" for d s1
  proof -
    have "gcDev (set_line_buffer p s1) = gcDev (set_line_buffer p s)" for p by (rule set_line_buffer_dev [OF that])
    moreover from this have "gcDev (enter_mode n (set_line_buffer p s1)) = gcDev (enter_mode n (set_line_buffer p s))" for p
      unfolding enter_mode_def by (rule upd_mode_dev)
    ultimately show ?thesis using change_mode_dev [of e n d s1] that by auto
  qed
  have mv: "gcDev (move_to 0 0 (snd (gRaise e s))) = gcDev (move_to 0 0 s)" by (rule move_to_dev) simp
  show ?thesis
    unfolding s'_def GraphicsConsoleConOutSetMode_def
    using cm [of "snd (gRaise e s)"] cm [of "gemit c (FlushCursor e (snd (gRaise e s)))" for c] mv
    by (auto simp: Let_def split_beta ClearScreen_dev not_le)
qed

lemma gcDev_upd_mode: "gcDev (upd_mode f s) = (gcDev s)\<lparr>SimpleTextOutputMode := f (SimpleTextOutputMode (gcDev s))\<rparr>"
  by (simp add: upd_mode_def text_mode_def)

lemma dev_ok_move:
  assumes "dev_ok (gcDev s)" "CurMode (text_mode s) \<noteq> - 1" "0 \<le> c" "c < int (Columns (mode_data s))" "0 \<le> r" "r < int (Rows (mode_data s))"
  shows "dev_ok (gcDev (move_to c r s))"
  using assms by (auto simp: dev_ok_def Let_def move_to_def gcDev_upd_mode cursor_ok_def mode_data_def text_mode_def)

lemma dev_ok_home: "dev_ok (gcDev s) \<Longrightarrow> CurMode (text_mode s) \<noteq> - 1 \<Longrightarrow> dev_ok (gcDev (move_to 0 0 s))"
  by (rule dev_ok_move) (auto simp: dev_ok_def Let_def cursor_ok_def mode_data_def text_mode_def)

lemma dev_ok_attribute:
  assumes "dev_ok (gcDev s)" "\<not> Attr OR 0x7f \<noteq> 0x7f"
  shows "dev_ok (gcDev (upd_mode (\<lambda>t. t\<lparr>Attribute := int32 Attr\<rparr>) s))"
proof -
  have m: "(0x7f :: nat) = mask 7" "(0x7f :: int) = mask 7" by (simp_all add: mask_eq_exp_minus_1)
  have b: "bit (0x7f :: nat) n \<longleftrightarrow> n < 7" for n unfolding m by (simp add: bit_mask_iff)
  have "bit Attr n \<Longrightarrow> n < 7" for n
  proof -
    assume "bit Attr n"
    then have "bit (Attr OR 0x7f) n" by (simp add: bit_or_iff)
    then show "n < 7" using assms(2) b by simp
  qed
  then have "take_bit 7 Attr = Attr" by (intro bit_eqI) (auto simp: bit_take_bit_iff)
  then have lt: "Attr < 2 ^ 7" by (metis take_bit_nat_eq_self_iff)
  then have "int32 Attr = int Attr" by (intro int32_small) simp
  moreover have "int Attr AND 0x7f = int Attr" using lt unfolding m(2) and_mask_dvd_nat
    by (simp add: take_bit_eq_mask [symmetric] take_bit_int_eq_self)
  ultimately show ?thesis using assms(1) by (auto simp: dev_ok_def Let_def gcDev_upd_mode cursor_ok_def)
qed

lemma dev_ok_visible:
  "dev_ok (gcDev s) \<Longrightarrow> CurMode (text_mode s) \<noteq> - 1 \<Longrightarrow> dev_ok (gcDev (upd_mode (\<lambda>t. t\<lparr>CursorVisible := v\<rparr>) s))"
  by (auto simp: dev_ok_def Let_def gcDev_upd_mode cursor_ok_def text_mode_def)

lemma dev_ok_buffer: "dev_ok (gcDev (set_line_buffer p s)) = dev_ok (gcDev s)"
  by (simp add: dev_ok_def set_line_buffer_def)

lemma dev_ok_enter:
  assumes "dev_ok (gcDev s)" "n < uintn (MaxMode (text_mode s))" "\<not> (Columns (ModeData (gcDev s) ! n) \<le> 0 \<and> Rows (ModeData (gcDev s) ! n) \<le> 0)"
  shows "dev_ok (gcDev (enter_mode n s))"
proof -
  have M: "0 \<le> MaxMode (text_mode s)" "MaxMode (text_mode s) < 2 ^ 31" using assms(1) by (auto simp: dev_ok_def text_mode_def Let_def)
  then have n: "n < nat (MaxMode (text_mode s))" using assms(2) by (simp add: uintn_nonneg)
  then have i: "int32 n = int n" using M by (intro int32_small) simp
  have "entry_ok (ModeData (gcDev s) ! n)" using assms(1) n by (auto simp: dev_ok_def text_mode_def Let_def)
  then have "0 < Columns (ModeData (gcDev s) ! n)" "0 < Rows (ModeData (gcDev s) ! n)" using assms(3) by (auto simp: entry_ok_def)
  then show ?thesis
    using assms(1) n M by (auto simp: dev_ok_def Let_def enter_mode_def gcDev_upd_mode i cursor_ok_def text_mode_def)
qed

lemma dev_ok_SetMode: "dev_ok (gcDev s) \<Longrightarrow> dev_ok (gcDev (snd (GraphicsConsoleConOutSetMode e n s)))"
proof -
  assume ok: "dev_ok (gcDev s)"
  have "dev_ok (gcDev (enter_mode n (set_line_buffer p s)))"
    if "n < uintn (MaxMode (text_mode s))" "\<not> (Columns (ModeData (gcDev s) ! n) \<le> 0 \<and> Rows (ModeData (gcDev s) ! n) \<le> 0)" for p
    by (rule dev_ok_enter) (use that ok dev_ok_buffer in \<open>simp_all add: set_line_buffer_def text_mode_def\<close>)
  then show ?thesis
    using SetMode_dev [of e n s] ok dev_ok_home [OF ok] dev_ok_buffer by (elim disjE exE conjE) simp_all
qed

lemma dev_ok_SetAttribute: "dev_ok (gcDev s) \<Longrightarrow> dev_ok (gcDev (snd (GraphicsConsoleConOutSetAttribute e Attr s)))"
  using dev_ok_attribute by (auto simp: SetAttribute_dev)

lemma dev_ok_output:
  assumes "dev_ok (gcDev s)" "GraphicsConsoleConOutOutputString e WString s = Some (st, s')"
  shows "dev_ok (gcDev s')"
proof (cases "CurMode (text_mode s) = - 1")
  case True
  then show ?thesis using assms by (simp add: GraphicsConsoleConOutOutputString_def)
next
  case False
  obtain d fg bg c r where on: "on_mode d fg bg s" "cursor_at s c r False" "c < Columns d" "r < Rows d" "d = mode_data s"
    by (rule dev_ok_on_mode [OF assms(1) False])
  obtain st1 s1 c' r' A where o: "GraphicsConsoleConOutOutputString e WString s = Some (st1, s1)"
      "gcDev s1 = gcDev (move_to (int c') (int r') s)" "c' < Columns d" "r' < Rows d"
    by (rule output_terminal [OF on(1-4), of "\<lambda>_ _. True" WString e]) (simp_all add: widths_ok_any)
  then have "gcDev s' = gcDev (move_to (int c') (int r') s)" using assms(2) by simp
  then show ?thesis using dev_ok_move [OF assms(1) False, of "int c'" "int r'"] o(3,4) on(5) by simp
qed

text \<open>One call of a protocol function.\<close>

inductive gc_step :: "gc_env \<Rightarrow> gc_state \<Rightarrow> gc_state \<Rightarrow> bool" for e where
  step_output: "GraphicsConsoleConOutOutputString e WString s = Some (st, s') \<Longrightarrow> gc_step e s s'"
| step_test: "GraphicsConsoleConOutTestString e WString s = Some (st', s') \<Longrightarrow> gc_step e s s'"
| step_query: "gc_step e s (snd (snd (GraphicsConsoleConOutQueryMode e n s)))"
| step_set_mode: "gc_step e s (snd (GraphicsConsoleConOutSetMode e n s))"
| step_attribute: "gc_step e s (snd (GraphicsConsoleConOutSetAttribute e Attr s))"
| step_clear: "gc_step e s (snd (GraphicsConsoleConOutClearScreen e s))"
| step_position: "gc_step e s (snd (GraphicsConsoleConOutSetCursorPosition e Column Row s))"
| step_cursor: "gc_step e s (snd (GraphicsConsoleConOutEnableCursor e v s))"
| step_reset: "gc_step e s (snd (GraphicsConsoleConOutReset e ext s))"

lemma test_loop_dev: "test_loop e WString n s = Some (st, s') \<Longrightarrow> gcDev s' = gcDev s"
proof -
  have "gcDev (snd y) = gcDev s" if "test_loop e WString n s = Some y" for y
    using that
  proof (rule test_loop.raw_induct [where P = "\<lambda>e WString n s y. gcDev (snd y) = gcDev s", rotated])
    fix f :: "gc_env \<Rightarrow> u16 list \<Rightarrow> u16 \<Rightarrow> gc_state \<Rightarrow> (efi_status \<times> gc_state) option" and e WString n s y
    assume ih: "\<And>e WString n s y. f e WString n s = Some y \<Longrightarrow> gcDev (snd y) = gcDev s"
      and "(if char_at WString n = 0 then Some (EFI_SUCCESS, s)
        else let c = char_at WString n; (Status, Blt) = gc_GetGlyph e (gcLog s) c; s1 = gemit (gGetGlyph c) s;
                 s2 = if Blt \<noteq> None then gemit (gFree Blt) s1 else s1
             in if EFI_ERROR Status then Some (EFI_UNSUPPORTED, s2) else f e WString (n + 1) s2) = Some y"
    then show "gcDev (snd y) = gcDev s" by (auto simp: Let_def dest!: ih split: if_splits prod.splits)
  qed
  then show "test_loop e WString n s = Some (st, s') \<Longrightarrow> gcDev s' = gcDev s" by fastforce
qed

lemma dev_ok_step:
  assumes "gc_step e s s'" "dev_ok (gcDev s)"
  shows "dev_ok (gcDev s')"
  using assms(1)
proof cases
  case (step_output WString st)
  then show ?thesis using dev_ok_output [OF assms(2)] by blast
next
  case (step_test WString st')
  then show ?thesis using test_loop_dev assms(2) by (metis GraphicsConsoleConOutTestString_def)
next
  case (step_query n)
  then show ?thesis using assms(2) by (simp add: GraphicsConsoleConOutQueryMode_def Let_def split_beta)
next
  case (step_set_mode n)
  then show ?thesis using dev_ok_SetMode [OF assms(2)] by simp
next
  case (step_attribute Attr)
  then show ?thesis using dev_ok_SetAttribute [OF assms(2)] by simp
next
  case step_clear
  then show ?thesis using dev_ok_home [OF assms(2)] assms(2) by (simp add: ClearScreen_dev)
next
  case (step_position Column Row)
  have "entry_ok (mode_data s)" if "CurMode (text_mode s) \<noteq> - 1"
    using assms(2) that by (auto simp: dev_ok_def Let_def text_mode_def mode_data_def)
  then have "int32 Column = int Column" "int32 Row = int Row"
    if "CurMode (text_mode s) \<noteq> - 1" "Column < Columns (mode_data s)" "Row < Rows (mode_data s)"
    using that by (auto simp: entry_ok_def intro!: int32_small)
  then show ?thesis using step_position dev_ok_move [OF assms(2), of "int Column" "int Row"] assms(2)
    by (simp add: SetCursorPosition_dev not_le)
next
  case (step_cursor v)
  then show ?thesis using dev_ok_visible [OF assms(2)] assms(2) by (simp add: EnableCursor_dev)
next
  case (step_reset ext)
  then show ?thesis
    using dev_ok_SetMode [OF assms(2), of e 0] dev_ok_SetAttribute
    by (auto simp: GraphicsConsoleConOutReset_def Let_def split: prod.splits)
qed

inductive gc_reachable :: "gc_env \<Rightarrow> gc_state \<Rightarrow> gc_state \<Rightarrow> bool" for e s0 where
  reach_start: "gc_reachable e s0 s0"
| reach_step: "gc_reachable e s0 s \<Longrightarrow> gc_step e s s' \<Longrightarrow> gc_reachable e s0 s'"

lemma dev_ok_reachable: "gc_reachable e s0 s \<Longrightarrow> dev_ok (gcDev s0) \<Longrightarrow> dev_ok (gcDev s)"
  by (induction rule: gc_reachable.induct) (simp_all add: dev_ok_step)

text \<open>The parts of a device that no call changes.\<close>

definition fixed_part :: "GRAPHICS_CONSOLE_DEV \<Rightarrow> GRAPHICS_CONSOLE_MODE_DATA list \<times> bool \<times> int" where
  "fixed_part P = (ModeData P, GraphicsOutput P, MaxMode (SimpleTextOutputMode P))"

lemma fixed_part_move [simp]: "fixed_part (gcDev (move_to c r s)) = fixed_part (gcDev s)"
  by (simp add: fixed_part_def move_to_def gcDev_upd_mode)

lemma fixed_part_SetMode: "fixed_part (gcDev (snd (GraphicsConsoleConOutSetMode e n s))) = fixed_part (gcDev s)"
  using SetMode_dev [of e n s] by (auto simp: fixed_part_def move_to_def enter_mode_def set_line_buffer_def gcDev_upd_mode)

lemma fixed_part_SetAttribute: "fixed_part (gcDev (snd (GraphicsConsoleConOutSetAttribute e Attr s))) = fixed_part (gcDev s)"
  by (simp add: SetAttribute_dev fixed_part_def gcDev_upd_mode)

lemma fixed_part_step:
  assumes "gc_step e s s'" "dev_ok (gcDev s)"
  shows "fixed_part (gcDev s') = fixed_part (gcDev s)"
  using assms(1)
proof cases
  case (step_output WString st)
  show ?thesis
  proof (cases "CurMode (text_mode s) = - 1")
    case True
    then show ?thesis using step_output by (simp add: GraphicsConsoleConOutOutputString_def)
  next
    case False
    obtain d fg bg c r where on: "on_mode d fg bg s" "cursor_at s c r False" "c < Columns d" "r < Rows d" "d = mode_data s"
      by (rule dev_ok_on_mode [OF assms(2) False])
    obtain st1 s1 c' r' A where "GraphicsConsoleConOutOutputString e WString s = Some (st1, s1)"
        "gcDev s1 = gcDev (move_to (int c') (int r') s)"
      by (rule output_terminal [OF on(1-4), of "\<lambda>_ _. True" WString e]) (simp_all add: widths_ok_any)
    then show ?thesis using step_output by simp
  qed
next
  case (step_test WString st')
  then have "gcDev s' = gcDev s" by (intro test_loop_dev) (simp add: GraphicsConsoleConOutTestString_def)
  then show ?thesis by simp
next
  case (step_query n)
  then show ?thesis by (simp add: GraphicsConsoleConOutQueryMode_def Let_def split_beta)
next
  case (step_reset ext)
  then show ?thesis
    using fixed_part_SetMode [of e 0 s] fixed_part_SetAttribute
    by (auto simp: GraphicsConsoleConOutReset_def Let_def split: prod.splits)
next
  case (step_set_mode n)
  then show ?thesis by (simp add: fixed_part_SetMode)
next
  case (step_attribute Attr)
  then show ?thesis by (simp add: fixed_part_SetAttribute)
qed (simp_all add: ClearScreen_dev SetCursorPosition_dev EnableCursor_dev fixed_part_def gcDev_upd_mode move_to_def)

lemma fixed_part_reachable:
  "gc_reachable e s0 s \<Longrightarrow> dev_ok (gcDev s0) \<Longrightarrow> fixed_part (gcDev s) = fixed_part (gcDev s0)"
  by (induction rule: gc_reachable.induct) (simp_all add: fixed_part_step dev_ok_reachable)

section \<open>From Start on\<close>

text \<open>A device that Start has installed, on a screen of at least two columns and one row.\<close>

definition gc_started :: "gc_env \<Rightarrow> gc_state \<Rightarrow> bool" where
  "gc_started e s \<longleftrightarrow>
     (\<exists>l. GraphicsConsoleControllerDriverStart e l = Some (EFI_SUCCESS, Some (gcDev s), gcLog s)) \<and>
     (let d = ModeData (gcDev s) ! 0 in GopWidth d \<in> {16..<2 ^ 32} \<and> GopHeight d \<in> {19..<2 ^ 32})"

lemma start_device:
  assumes "GraphicsConsoleControllerDriverStart e l = Some (EFI_SUCCESS, Some P, l')"
  obtains H V k n where "InitializeGraphicsConsoleTextMode H V k = (n, ModeData P)"
    "SimpleTextOutputMode P = \<lparr>MaxMode = int32 n, CurMode = prefer_text_mode (ConOutColumn e) (ConOutRow e) n (ModeData P),
       Attribute = 7, CursorColumn = 0, CursorRow = 0, CursorVisible = False\<rparr>"
    "GcLineBuffer P = None" "GraphicsOutput P \<or> UgaConsumeSupport e"
proof -
  note S = assms [unfolded GraphicsConsoleControllerDriverStart_def Let_def]
  obtain p where 1: "gc_Allocate e l PrivateBlock = Some p" using S by (cases "gc_Allocate e l PrivateBlock") simp_all
  obtain st gop uga l1 where 2: "open_draw e (l @ [gAllocate PrivateBlock (Some p)]) = (st, gop, uga, l1)" by (metis prod_cases4)
  note S2 = S [unfolded 1 option.case 2 prod.case]
  have ok: "\<not> EFI_ERROR st" using S2 by (cases "EFI_ERROR st") simp_all
  then have draw: "gop \<or> UgaConsumeSupport e"
    using 2 by (auto simp: open_draw_def gc_open_def Let_def split: if_splits)
  define r where "r = (if gop then choose_gop_mode e l1 else if UgaConsumeSupport e then choose_uga_mode e l1
                 else (st, VideoHorizontalResolution e, VideoVerticalResolution e, 0, l1))"
  obtain st2 H V k l2 where 3: "r = (st2, H, V, k, l2)" by (metis prod_cases5)
  note S3 = S2 [folded r_def, unfolded 3 prod.case if_not_P [OF ok]]
  have ok2: "\<not> EFI_ERROR st2"
  proof
    assume "EFI_ERROR st2"
    from S3 [unfolded if_P [OF this]] show False by simp
  qed
  note S3' = S3 [unfolded if_not_P [OF ok2]]
  obtain mp where 4: "gc_Allocate e l2 (ModeBlock (length mGraphicsConsoleModeData + 2)) = Some mp"
  proof (cases "gc_Allocate e l2 (ModeBlock (length mGraphicsConsoleModeData + 2))")
    case None
    from S3' [unfolded None option.case] show thesis by simp
  qed
  obtain n modes where 5: "InitializeGraphicsConsoleTextMode H V k = (n, modes)" by force
  note S4 = S3' [unfolded 4 option.case 5 prod.case]
  have "EFI_ERROR (gc_Install e (l2 @ [gAllocate (ModeBlock (length mGraphicsConsoleModeData + 2)) (Some mp)])) = False"
    using S4 by (auto split: if_splits)
  then have P: "P = mGraphicsConsoleDevTemplate\<lparr>GraphicsOutput := gop, UgaDraw := uga, ModeData := modes, ModeDataP := Some mp,
      SimpleTextOutputMode := (SimpleTextOutputMode (mGraphicsConsoleDevTemplate\<lparr>GraphicsOutput := gop, UgaDraw := uga\<rparr>))
        \<lparr>MaxMode := int32 n, CurMode := prefer_text_mode (ConOutColumn e) (ConOutRow e) n modes\<rparr>\<rparr>"
    using S4 by simp
  show thesis
    by (rule that [of H V k n]) (use 5 draw in \<open>simp_all add: P mGraphicsConsoleDevTemplate_def\<close>)
qed

lemma entry_ok_table:
  assumes "InitializeGraphicsConsoleTextMode H V k = (n, modes)" "16 \<le> H" "H < 2 ^ 32" "V < 2 ^ 32" "i < n"
  shows "entry_ok (modes ! i)"
proof -
  note t = text_modes [OF assms(1)]
  have sub: "set (mode_sizes n modes) \<subseteq> {(50, 120), (0, 0), (H div EFI_GLYPH_WIDTH, V div EFI_GLYPH_HEIGHT)} \<union> set standard_sizes"
    unfolding t(1) by (auto simp: Let_def)
  show ?thesis
  proof (cases "2 \<le> i")
    case True
    then obtain c r where cr: "fits H V (c, r)" "modes ! i = mode_entry H V k c r" using t(7) assms(5) by blast
    have "modes ! i \<in> set (take n modes)" using assms(5) t(2) by (auto simp: in_set_conv_nth)
    then have "(Columns (modes ! i), Rows (modes ! i)) \<in> set (mode_sizes n modes)" by (auto simp: mode_sizes_def)
    then have "(c, r) \<in> {(50, 120), (0, 0), (H div EFI_GLYPH_WIDTH, V div EFI_GLYPH_HEIGHT)} \<union> set standard_sizes"
      using sub cr(2) by (auto simp: mode_entry_def)
    moreover have "2 \<le> H div EFI_GLYPH_WIDTH" "H div EFI_GLYPH_WIDTH < 2 ^ 30" "V div EFI_GLYPH_HEIGHT < 2 ^ 31"
      using assms(2-4) by (simp_all add: EFI_GLYPH_WIDTH_def EFI_GLYPH_HEIGHT_def)
    ultimately show ?thesis using cr by (auto simp: mode_entry_def entry_ok_def fits_def standard_sizes_def)
  next
    case False
    then have "i = 0 \<or> i = 1" by auto
    then show ?thesis by (auto simp: t(5) t(6) [simplified] mode_entry_def zero_mode_def entry_ok_def)
  qed
qed

lemma started_dev_ok:
  assumes "gc_started e s"
  shows "dev_ok (gcDev s)"
proof -
  let ?P = "gcDev s"
  obtain l where "GraphicsConsoleControllerDriverStart e l = Some (EFI_SUCCESS, Some ?P, gcLog s)"
    using assms by (auto simp: gc_started_def)
  then obtain H V k n where P: "InitializeGraphicsConsoleTextMode H V k = (n, ModeData ?P)"
    "SimpleTextOutputMode ?P = \<lparr>MaxMode = int32 n, CurMode = prefer_text_mode (ConOutColumn e) (ConOutRow e) n (ModeData ?P),
       Attribute = 7, CursorColumn = 0, CursorRow = 0, CursorVisible = False\<rparr>" by (rule start_device)
  note t = text_modes [OF P(1)]
  have "H = GopWidth (ModeData ?P ! 0)" "V = GopHeight (ModeData ?P ! 0)" using t(5) by (simp_all add: mode_entry_def)
  then have HV: "16 \<le> H" "H < 2 ^ 32" "V < 2 ^ 32" using assms by (simp_all add: gc_started_def Let_def)
  have n: "int32 n = int n" "n \<le> 7" using t(2,4) by (simp_all add: int32_small)
  let ?pref = "prefer_text_mode (ConOutColumn e) (ConOutRow e) n (ModeData ?P)"
  have e: "entry_ok (ModeData ?P ! i)" if "i < n" for i using entry_ok_table [OF P(1) HV that] .
  have "?pref = - 1 \<or> (\<exists>i < n. ?pref = int i \<and> 0 < Columns (ModeData ?P ! i) \<and> 0 < Rows (ModeData ?P ! i))"
  proof (cases "ConOutColumn e \<noteq> 0 \<and> ConOutRow e \<noteq> 0")
    case True
    then show ?thesis
    proof (cases "List.find (\<lambda>i. Columns (ModeData ?P ! i) = ConOutColumn e \<and> Rows (ModeData ?P ! i) = ConOutRow e) [0..<n]")
      case (Some i)
      then have "i < n" "Columns (ModeData ?P ! i) = ConOutColumn e" "Rows (ModeData ?P ! i) = ConOutRow e"
        by (auto simp: find_Some_iff)
      then show ?thesis using True Some by (auto simp: prefer_text_mode_def)
    qed (use True in \<open>simp add: prefer_text_mode_def\<close>)
  next
    case False
    have "0 < Columns (ModeData ?P ! 0)" "0 < Rows (ModeData ?P ! 0)" by (simp_all add: t(5) mode_entry_def)
    then show ?thesis using prefer_text_mode_range [OF _ t(2) _ _ False] t(3) by simp
  qed
  moreover have "entry_ok (ModeData ?P ! i) \<Longrightarrow> 0 < Columns (ModeData ?P ! i) \<Longrightarrow> 0 < Rows (ModeData ?P ! i) \<Longrightarrow>
      cursor_ok (ModeData ?P ! i) (SimpleTextOutputMode ?P)" for i
    by (simp add: P(2) cursor_ok_def)
  ultimately show ?thesis
    unfolding dev_ok_def Let_def using t(2) n e by (auto simp: P(2))
qed

text \<open>A panel: a graphics output with one mode, a font that knows every glyph, a pool that never runs dry.\<close>

definition panel_env :: "nat \<Rightarrow> nat \<Rightarrow> gc_env" where
  "panel_env H V =
     \<lparr>gc_Blt = \<lambda>_ _ a. (EFI_SUCCESS, BltBuffer a), gc_GopMode = \<lambda>_. \<lparr>GopMaxMode = 1, GopMode = 0, GopInfoH = H, GopInfoV = V\<rparr>,
      gc_QueryMode = \<lambda>_ n. (if n = 0 then EFI_SUCCESS else EFI_INVALID_PARAMETER, 64, H, V), gc_SetMode = \<lambda>_ _. EFI_SUCCESS,
      gc_UgaGetMode = \<lambda>_. (EFI_UNSUPPORTED, 0, 0), gc_UgaSetMode = \<lambda>_ _ _. EFI_UNSUPPORTED,
      gc_StringToScreen = \<lambda>_ _. EFI_SUCCESS, gc_StringToBitmap = \<lambda>_ _. (EFI_UNSUPPORTED, None, [], 0, 0),
      gc_GetGlyph = \<lambda>_ _. (EFI_SUCCESS, Some 128), gc_Allocate = \<lambda>l _. Some (256 + length l), gc_RaiseTPL = \<lambda>_. 4,
      gc_OpenProtocol = \<lambda>_ _. EFI_SUCCESS, gc_Install = \<lambda>_. EFI_SUCCESS, gc_Uninstall = \<lambda>_. EFI_SUCCESS,
      gc_LocateHii = (EFI_SUCCESS, EFI_SUCCESS), gc_stack_pixels = replicate 152 0, UgaConsumeSupport = False,
      VideoHorizontalResolution = 0, VideoVerticalResolution = 0, ConOutColumn = 0, ConOutRow = 0\<rparr>"

text \<open>What Start leaves behind on it.\<close>

definition panel_start :: "nat \<Rightarrow> nat \<Rightarrow> gc_state" where
  "panel_start H V =
     (let (n, modes) = InitializeGraphicsConsoleTextMode H V 0
      in \<lparr>gcDev = mGraphicsConsoleDevTemplate\<lparr>GraphicsOutput := True, ModeData := modes, ModeDataP := Some 260,
            SimpleTextOutputMode := (SimpleTextOutputMode mGraphicsConsoleDevTemplate)
              \<lparr>MaxMode := int32 n, CurMode := prefer_text_mode 0 0 n modes\<rparr>\<rparr>,
          gcLog = [gAllocate PrivateBlock (Some 256), gOpenProtocol gEfiGraphicsOutputProtocolGuid EFI_SUCCESS,
            gQueryMode 0 EFI_SUCCESS, gFree (Some 64), gAllocate (ModeBlock 7) (Some 260), gInstall EFI_SUCCESS]\<rparr>)"

lemma panel_started_over:
  assumes "H \<in> {16..<2 ^ 32}" "V \<in> {19..<2 ^ 32}"
  shows "gc_started ((panel_env H V)\<lparr>gc_Blt := f\<rparr>) (panel_start H V)"
proof -
  obtain n modes where t: "InitializeGraphicsConsoleTextMode H V 0 = (n, modes)" by force
  have "GraphicsConsoleControllerDriverStart ((panel_env H V)\<lparr>gc_Blt := f\<rparr>) [] =
      Some (EFI_SUCCESS, Some (gcDev (panel_start H V)), gcLog (panel_start H V))"
    using assms by (simp add: panel_env_def panel_start_def t GraphicsConsoleControllerDriverStart_def open_draw_def gc_open_def
      choose_gop_mode_def larger_mode_def mGraphicsConsoleDevTemplate_def mGraphicsConsoleModeData_def Let_def)
  moreover have "ModeData (gcDev (panel_start H V)) ! 0 = mode_entry H V 0 50 120"
    using text_modes(5) [OF t] by (simp add: panel_start_def t)
  ultimately show ?thesis using assms unfolding gc_started_def Let_def by (auto simp: mode_entry_def)
qed

lemma panel_started:
  assumes "H \<in> {16..<2 ^ 32}" "V \<in> {19..<2 ^ 32}"
  shows "gc_started (panel_env H V) (panel_start H V)"
  using panel_started_over [OF assms, of "gc_Blt (panel_env H V)"] by simp

lemma panel_720_1280:
  "CurMode (text_mode (panel_start 720 1280)) = 0" "MaxMode (text_mode (panel_start 720 1280)) = 3"
  "ModeData (gcDev (panel_start 720 1280)) ! 2 = mode_entry 720 1280 0 90 67"
  "GcLineBuffer (gcDev (panel_start 720 1280)) = None" "GraphicsOutput (gcDev (panel_start 720 1280))"
proof -
  obtain n modes where t: "InitializeGraphicsConsoleTextMode 720 1280 0 = (n, modes)" by force
  note m = text_modes [OF t]
  have sizes: "mode_sizes n modes = [(50, 120), (0, 0), (90, 67)]"
    by (simp add: m(1) fits_def standard_sizes_def EFI_GLYPH_WIDTH_def EFI_GLYPH_HEIGHT_def)
  moreover have "length (mode_sizes n modes) = n" using m(2) by (simp add: mode_sizes_def)
  ultimately have n3: "n = 3" by simp
  then obtain c r where cr: "modes ! 2 = mode_entry 720 1280 0 c r" using m(7) by auto
  have "(Columns (modes ! 2), Rows (modes ! 2)) = mode_sizes n modes ! 2" using m(2) n3 by (simp add: mode_sizes_def)
  then have "c = 90" "r = 67" by (simp_all add: sizes cr mode_entry_def)
  then have n: "n = 3" "modes ! 2 = mode_entry 720 1280 0 90 67" using n3 cr by simp_all
  show "CurMode (text_mode (panel_start 720 1280)) = 0"
    using prefers_first_mode [OF t, of 0 0] by (simp add: panel_start_def t text_mode_def EFI_GLYPH_HEIGHT_def)
  show "MaxMode (text_mode (panel_start 720 1280)) = 3" "ModeData (gcDev (panel_start 720 1280)) ! 2 = mode_entry 720 1280 0 90 67"
    "GcLineBuffer (gcDev (panel_start 720 1280)) = None" "GraphicsOutput (gcDev (panel_start 720 1280))"
    using n by (simp_all add: panel_start_def t text_mode_def int32_small mGraphicsConsoleDevTemplate_def)
qed

lemma panel_mode_2_over:
  fixes f :: "gc_log \<Rightarrow> gc_guid \<Rightarrow> blt_args \<Rightarrow> efi_status \<times> u32 list"
  defines "s \<equiv> snd (GraphicsConsoleConOutSetMode ((panel_env 720 1280)\<lparr>gc_Blt := f\<rparr>) 2 (panel_start 720 1280))"
  shows "CurMode (text_mode s) = 2" "mode_data s = mode_entry 720 1280 0 90 67" "GetTextColors (text_mode s) = (0x989898, 0)"
    "CursorColumn (text_mode s) = 0" "CursorRow (text_mode s) = 0" "CursorVisible (text_mode s) = False" "GraphicsOutput (gcDev s)"
    "Attribute (text_mode s) = 7"
proof -
  have a: "Attribute (text_mode (panel_start 720 1280)) = 7" "\<not> CursorVisible (text_mode (panel_start 720 1280))"
    by (simp_all add: panel_start_def text_mode_def mGraphicsConsoleDevTemplate_def split: prod.splits)
  show "CurMode (text_mode s) = 2" "mode_data s = mode_entry 720 1280 0 90 67"
    "CursorColumn (text_mode s) = 0" "CursorRow (text_mode s) = 0" "CursorVisible (text_mode s) = False" "GraphicsOutput (gcDev s)"
    using panel_720_1280 a by (simp_all add: s_def GraphicsConsoleConOutSetMode_def gRaise_def gemit_def change_mode_def gAlloc_def
      set_line_buffer_def set_resolution_def screen_blt_def FlushCursor_def Let_def split_beta text_mode_def upd_mode_def mode_data_def
      panel_env_def uintn_def int32_small mode_entry_def)
  show attr: "Attribute (text_mode s) = 7"
    using panel_720_1280 a by (simp add: s_def GraphicsConsoleConOutSetMode_def gRaise_def gemit_def change_mode_def gAlloc_def
      set_line_buffer_def set_resolution_def screen_blt_def FlushCursor_def Let_def split_beta text_mode_def upd_mode_def
      panel_env_def uintn_def int32_small mode_entry_def)
  show "GetTextColors (text_mode s) = (0x989898, 0)" by (simp add: attr GetTextColors_def mGraphicsEfiColors_def eval_nat_numeral(2,3))
qed

lemmas panel_mode_2 = panel_mode_2_over [of "gc_Blt (panel_env 720 1280)", simplified]

text \<open>C15: From Start on, whatever calls follow and whatever the graphics output, the font and the pool
  answer, the current mode is -1 or one of the table with at least two columns and a row, the cursor is
  one of that mode's cells, and the attribute is one of the 128 that can be set.\<close>

theorem gc_reachable_on_screen:
  assumes "gc_started e s0" "gc_reachable e s0 s"
  shows "let t = text_mode s; d = mode_data s in
    Attribute t \<in> {0..0x7f} \<and>
    (CurMode t = - 1 \<or> 0 \<le> CurMode t \<and> CurMode t < MaxMode t \<and> 2 \<le> Columns d \<and> 0 < Rows d \<and>
       CursorColumn t \<in> {0..<int (Columns d)} \<and> CursorRow t \<in> {0..<int (Rows d)})"
proof -
  have ok: "dev_ok (gcDev s)" using dev_ok_reachable [OF assms(2)] started_dev_ok [OF assms(1)] by blast
  have "(a AND 0x7f) \<in> {0..0x7f}" for a :: int
    by (simp add: and_nonnegative_int_iff)
  then have attr: "Attribute (text_mode s) \<in> {0..0x7f}" using ok by (metis dev_ok_def text_mode_def)
  show ?thesis
  proof (cases "CurMode (text_mode s) = - 1")
    case False
    obtain d fg bg c r where "on_mode d fg bg s" "cursor_at s c r False" "c < Columns d" "r < Rows d" "d = mode_data s"
      by (rule dev_ok_on_mode [OF ok False])
    then show ?thesis
      using attr ok False by (simp add: on_mode_def cursor_at_def dev_ok_def text_mode_def Let_def) 
  qed (use attr in \<open>simp add: Let_def\<close>)
qed

theorem gc_reachable_on_screen_witness:
  "let s = snd (GraphicsConsoleConOutSetMode (panel_env 720 1280) 2 (panel_start 720 1280)); t = text_mode s; d = mode_data s in
    CurMode t = 2 \<and> Attribute t \<in> {0..0x7f} \<and> 2 \<le> Columns d \<and> 0 < Rows d \<and>
    CursorColumn t \<in> {0..<int (Columns d)} \<and> CursorRow t \<in> {0..<int (Rows d)}"
proof -
  let ?e = "panel_env 720 1280"
  let ?s = "snd (GraphicsConsoleConOutSetMode ?e 2 (panel_start 720 1280))"
  have "gc_reachable ?e (panel_start 720 1280) ?s" by (rule reach_step [OF reach_start step_set_mode])
  note scr = gc_reachable_on_screen [OF panel_started this]
  have "CurMode (text_mode ?s) = 2" by (rule panel_mode_2)
  then show ?thesis using scr by (simp add: Let_def)
qed

text \<open>The line buffer is released before its replacement is known to exist.\<close>

lemma SetMode_no_room:
  assumes "GcLineBuffer (gcDev s) = Some p" "n < uintn (MaxMode (text_mode s))" "0 < Columns (ModeData (gcDev s) ! n)"
    "int32 n \<noteq> CurMode (text_mode s)" "\<And>l k. gc_Allocate e l (LineBlock k) = None"
  shows "\<exists>l. GraphicsConsoleConOutSetMode e n s = (EFI_OUT_OF_RESOURCES, s\<lparr>gcLog := gcLog s @ l\<rparr>)
    \<and> count_list l (gFree (Some p)) = 1"
proof -
  obtain tpl s1 where 1: "gRaise e s = (tpl, s1)" by force
  have s1: "s1 = s\<lparr>gcLog := gcLog s @ [gRaiseTPL TPL_NOTIFY tpl]\<rparr>" using 1 by (auto simp: gRaise_def gemit_def Let_def)
  obtain lf where lf: "FlushCursor e s1 = s\<lparr>gcLog := gcLog s @ lf\<rparr>" "gFree (Some p) \<notin> set lf"
  proof (cases "CursorVisible (text_mode s1)")
    case False
    then show thesis using that [of "[gRaiseTPL TPL_NOTIFY tpl]"] by (simp add: FlushCursor_def s1)
  next
    case True
    have eq: "\<exists>l. snd (screen_blt e a x) = x\<lparr>gcLog := gcLog x @ l\<rparr> \<and> gFree (Some p) \<notin> set l" for a x
      by (auto simp: screen_blt_def gemit_def intro: exI [of _ "[]"] exI [of _ "[gBlt _ a]"])
    obtain a b where ab: "FlushCursor e s1 = snd (screen_blt e b (snd (screen_blt e a s1)))"
      using True by (auto simp: FlushCursor_def Let_def split_beta)
    obtain la where la: "snd (screen_blt e a s1) = s1\<lparr>gcLog := gcLog s1 @ la\<rparr>" "gFree (Some p) \<notin> set la" using eq by blast
    obtain lb where lb: "snd (screen_blt e b (snd (screen_blt e a s1))) =
        (snd (screen_blt e a s1))\<lparr>gcLog := gcLog (snd (screen_blt e a s1)) @ lb\<rparr>" "gFree (Some p) \<notin> set lb" using eq by blast
    have "FlushCursor e s1 = s\<lparr>gcLog := gcLog s @ [gRaiseTPL TPL_NOTIFY tpl] @ la @ lb\<rparr>"
      using ab lb(1) by (simp only: la(1)) (simp add: s1)
    moreover have "gFree (Some p) \<notin> set ([gRaiseTPL TPL_NOTIFY tpl] @ la @ lb)" using la(2) lb(2) by simp
    ultimately show thesis by (rule that)
  qed
  have "GraphicsConsoleConOutSetMode e n s = (EFI_OUT_OF_RESOURCES, s\<lparr>gcLog := gcLog s @
      (lf @ [gFree (Some p), gAllocate (LineBlock (Columns (ModeData (gcDev s) ! n))) None, gRestoreTPL tpl])\<rparr>)"
    using assms lf(1)
    by (simp add: GraphicsConsoleConOutSetMode_def 1 Let_def change_mode_def gAlloc_def gemit_def s1 text_mode_def)
  moreover have "count_list (lf @ [gFree (Some p), gAllocate (LineBlock (Columns (ModeData (gcDev s) ! n))) None, gRestoreTPL tpl]) (gFree (Some p)) = 1"
    using lf(2) by (simp add: count_list_0_iff)
  ultimately show ?thesis by blast
qed

text \<open>When the pool is exhausted, a change of the text mode fails after freeing the line buffer and keeps
  the pointer to it, so that a second attempt frees the same buffer again.\<close>

theorem gc_set_mode_double_free:
  assumes "GcLineBuffer (gcDev s) = Some p" "n < uintn (MaxMode (text_mode s))" "0 < Columns (ModeData (gcDev s) ! n)"
    "int32 n \<noteq> CurMode (text_mode s)" "\<And>l k. gc_Allocate e l (LineBlock k) = None"
  shows "case GraphicsConsoleConOutSetMode e n s of (st, s1) \<Rightarrow> case GraphicsConsoleConOutSetMode e n s1 of (st', s2) \<Rightarrow>
    st = EFI_OUT_OF_RESOURCES \<and> st' = EFI_OUT_OF_RESOURCES \<and> gcDev s2 = gcDev s \<and>
    count_list (gcLog s2) (gFree (Some p)) = count_list (gcLog s) (gFree (Some p)) + 2"
proof -
  obtain l where l: "GraphicsConsoleConOutSetMode e n s = (EFI_OUT_OF_RESOURCES, s\<lparr>gcLog := gcLog s @ l\<rparr>)" "count_list l (gFree (Some p)) = 1"
    using SetMode_no_room [OF assms] by blast
  let ?s1 = "s\<lparr>gcLog := gcLog s @ l\<rparr>"
  obtain l' where l': "GraphicsConsoleConOutSetMode e n ?s1 = (EFI_OUT_OF_RESOURCES, ?s1\<lparr>gcLog := gcLog ?s1 @ l'\<rparr>)" "count_list l' (gFree (Some p)) = 1"
    using SetMode_no_room [of ?s1 p n e] assms by (auto simp: text_mode_def)
  show ?thesis by (simp add: l l' del: gc_state.update_convs)
qed

theorem gc_set_mode_double_free_witness:
  "let e = (panel_env 720 1280)\<lparr>gc_Allocate := \<lambda>_ _. None\<rparr>;
       s = set_line_buffer (Some 512) (panel_start 720 1280);
       s2 = snd (GraphicsConsoleConOutSetMode e 2 (snd (GraphicsConsoleConOutSetMode e 2 s)))
   in count_list (gcLog s2) (gFree (Some 512)) = count_list (gcLog s) (gFree (Some 512)) + 2"
proof -
  let ?e = "(panel_env 720 1280)\<lparr>gc_Allocate := \<lambda>_ _. None\<rparr>"
  let ?s = "set_line_buffer (Some 512) (panel_start 720 1280)"
  have "GcLineBuffer (gcDev ?s) = Some 512 \<and> 2 < uintn (MaxMode (text_mode ?s)) \<and> 0 < Columns (ModeData (gcDev ?s) ! 2)
      \<and> int32 2 \<noteq> CurMode (text_mode ?s)"
    using panel_720_1280 by (simp add: set_line_buffer_def text_mode_def uintn_def mode_entry_def int32_small)
  then show ?thesis
    using gc_set_mode_double_free [of ?s 512 2 ?e] by (simp add: Let_def split_beta)
qed

end
