(* ===== verification/GraphicsConsoleRuns.thy ===== *)
theory GraphicsConsoleRuns
  imports GraphicsConsoleCorrect
begin

text \<open>
  The graphics console in use: output in the states the driver can reach, the mode it prefers on
  a small screen, the test of a string for glyphs, and what Start and Stop take and give back.
\<close>

section \<open>Output\<close>

text \<open>C14: From Start on, an output of any string in a selected mode returns, however the drawing, the font
  and the pool answer, and leaves the device as it was but for the cursor, which is where a terminal
  of the mode's size puts it.\<close>

theorem gc_output_returns:
  assumes "gc_started e s0" "gc_reachable e s0 s" "CurMode (text_mode s) \<noteq> - 1"
  shows "\<exists>st s' c r w g.
      GraphicsConsoleConOutOutputString e WString s = Some (st, s') \<and>
      (let d = mode_data s; (fg, bg) = GetTextColors (text_mode s)
       in tty_string (Columns d) (Rows d) fg bg WString
            (nat (CursorColumn (text_mode s)), nat (CursorRow (text_mode s)), False, G) = (c, r, w, g) \<and>
          c < Columns d \<and> r < Rows d) \<and>
      gcDev s' = gcDev (move_to (int c) (int r) s)"
proof -
  have "dev_ok (gcDev s)" using dev_ok_reachable [OF assms(2)] started_dev_ok [OF assms(1)] by blast
  then obtain d fg bg c r where on: "on_mode d fg bg s" "cursor_at s c r False" "c < Columns d" "r < Rows d" "d = mode_data s"
    using dev_ok_on_mode assms(3) by blast
  have start: "nat (CursorColumn (text_mode s)) = c" "nat (CursorRow (text_mode s)) = r" using on(2) by (simp_all add: cursor_at_def)
  have col: "GetTextColors (text_mode s) = (fg, bg)" using on(1) by (simp add: on_mode_def)
  let ?v = "CursorVisible (text_mode s)"
  obtain st s' c' r' A where o: "GraphicsConsoleConOutOutputString e WString s = Some (st, s')"
      "gcDev s' = gcDev (move_to (int c') (int r') s)" "c' < Columns d" "r' < Rows d"
    and t: "\<forall>g. \<exists>w' g'. tty_string (Columns d) (Rows d) fg bg WString (c, r, False, tog ?v r c g) = (c', r', w', g') \<and>
        paint (Columns d) (Rows d) fg bg A g = tog ?v r' c' g'"
    by (rule output_terminal [OF on(1-4), of "\<lambda>_ _. True" WString e]) (blast intro: widths_ok_any)+
  obtain w g where "tty_string (Columns d) (Rows d) fg bg WString (c, r, False, G) = (c', r', w, g)"
    using t [rule_format, of "tog ?v r c G"] by auto
  then show ?thesis using o on(5) by (auto simp: start col Let_def)
qed


theorem gc_output_returns_witness:
  "let s = snd (GraphicsConsoleConOutSetMode (panel_env 720 1280) 2 (panel_start 720 1280))
   in \<exists>st s' c r w g. GraphicsConsoleConOutOutputString (panel_env 720 1280) [0x48, CHAR_LINEFEED, 0x49, 0] s = Some (st, s') \<and>
      tty_string 90 67 0x989898 0 [0x48, CHAR_LINEFEED, 0x49, 0] (0, 0, False, \<lambda>_ _. (Blank 0, False)) = (c, r, w, g) \<and>
      gcDev s' = gcDev (move_to (int c) (int r) s)"
proof -
  let ?e = "panel_env 720 1280"
  let ?s = "snd (GraphicsConsoleConOutSetMode ?e 2 (panel_start 720 1280))"
  have "gc_reachable ?e (panel_start 720 1280) ?s" by (rule reach_step [OF reach_start step_set_mode])
  moreover have "CurMode (text_mode ?s) \<noteq> - 1" by (simp add: panel_mode_2)
  moreover have "gc_started ?e (panel_start 720 1280)" by (rule panel_started) simp_all
  ultimately obtain st s' c r w g where
      "GraphicsConsoleConOutOutputString ?e [0x48, CHAR_LINEFEED, 0x49, 0] ?s = Some (st, s')"
      "tty_string 90 67 0x989898 0 [0x48, CHAR_LINEFEED, 0x49, 0] (0, 0, False, \<lambda>_ _. (Blank 0, False)) = (c, r, w, g)"
      "gcDev s' = gcDev (move_to (int c) (int r) ?s)"
    using gc_output_returns [of ?e "panel_start 720 1280" ?s "[0x48, CHAR_LINEFEED, 0x49, 0]" "\<lambda>_ _. (Blank 0, False)"]
    by (auto simp: panel_mode_2 mode_entry_def Let_def)
  then show ?thesis by (auto simp: Let_def)
qed

section \<open>The preferred mode on a small screen\<close>

text \<open>On a screen less than 120 text lines (2280 pixels) high and without a configured text size, Start prefers mode 0,
  which is also the mode a reset selects; none of its 120 lines is on the screen, and
  the frame buffer library refuses every transfer of a glyph to one.\<close>

theorem gc_preferred_mode_off_screen:
  assumes "GraphicsConsoleControllerDriverStart e l = Some (EFI_SUCCESS, Some P, l')"
    and "ConOutColumn e = 0 \<or> ConOutRow e = 0" and "GopHeight (ModeData P ! 0) < 120 * EFI_GLYPH_HEIGHT"
    and "Height Cfg < 2 ^ 32" "r < 120"
  shows "CurMode (SimpleTextOutputMode P) = 0 \<and> Rows (ModeData P ! 0) = 120 \<and> Height Cfg < cell_y (ModeData P ! 0) r \<and>
    FrameBufferBltLibBufferToVideo Cfg GlyphBuf 0 0 x (cell_y (ModeData P ! 0) r) EFI_GLYPH_WIDTH EFI_GLYPH_HEIGHT Delta m
      = (EFI_INVALID_PARAMETER, m)"
proof -
  obtain H V k n where P: "InitializeGraphicsConsoleTextMode H V k = (n, ModeData P)"
    "SimpleTextOutputMode P = \<lparr>MaxMode = int32 n, CurMode = prefer_text_mode (ConOutColumn e) (ConOutRow e) n (ModeData P),
       Attribute = 7, CursorColumn = 0, CursorRow = 0, CursorVisible = False\<rparr>"
    by (rule start_device [OF assms(1)])
  have d: "ModeData P ! 0 = mode_entry H V k 50 120" by (rule text_modes(5) [OF P(1)])
  then have V: "V < 120 * EFI_GLYPH_HEIGHT" using assms(3) by (simp add: mode_entry_def)
  note row = first_mode_row [OF V assms(5), of H k]
  have "wrap (cell_y (mode_entry H V k 50 120) r + EFI_GLYPH_HEIGHT) = cell_y (mode_entry H V k 50 120) r + EFI_GLYPH_HEIGHT"
    by (rule wrap_small [OF row(2)])
  moreover have "Height Cfg < cell_y (mode_entry H V k 50 120) r" using row(1) assms(4) by simp
  moreover have "\<not> (ConOutColumn e \<noteq> 0 \<and> ConOutRow e \<noteq> 0)" using assms(2) by auto
  note prefers_first_mode [OF P(1) V this]
  ultimately show ?thesis by (simp add: P(2) d FrameBufferBltLibBufferToVideo_def) (simp add: mode_entry_def)
qed

theorem gc_preferred_mode_off_screen_witness:
  "let P = gcDev (panel_start 720 1280) in CurMode (SimpleTextOutputMode P) = 0 \<and> 1280 < cell_y (ModeData P ! 0) 119"
proof -
  obtain l where l: "GraphicsConsoleControllerDriverStart (panel_env 720 1280) l =
      Some (EFI_SUCCESS, Some (gcDev (panel_start 720 1280)), gcLog (panel_start 720 1280))"
    using panel_started [of 720 1280] by (auto simp: gc_started_def)
  have e: "ConOutColumn (panel_env 720 1280) = 0" by (simp add: panel_env_def)
  have h: "GopHeight (ModeData (gcDev (panel_start 720 1280)) ! 0) = 1280"
    using text_modes(5) by (simp add: panel_start_def mode_entry_def split: prod.splits)
  show ?thesis
    using gc_preferred_mode_off_screen [OF l disjI1 [OF e], where Cfg = "(undefined :: FRAME_BUFFER_CONFIGURE)\<lparr>Height := 1280\<rparr>" and r = 119]
    by (simp add: h EFI_GLYPH_HEIGHT_def Let_def)
qed

section \<open>The test of a string\<close>

text \<open>\<open>glyphs_known\<close>: the font answers for a character only.\<close>

definition font_of :: "gc_env \<Rightarrow> (u16 \<Rightarrow> bool) \<Rightarrow> bool" where
  "font_of e known \<longleftrightarrow> (\<forall>l c. EFI_ERROR (fst (gc_GetGlyph e l c)) \<longleftrightarrow> \<not> known c)"

lemma char_at_0: "char_at WString n = 0 \<longleftrightarrow> length WString \<le> unat n \<or> WString ! unat n = 0"
  by (auto simp: char_at_def)

lemma test_loop_step:
  "test_loop e WString n s =
     (if char_at WString n = 0 then Some (EFI_SUCCESS, s)
      else if EFI_ERROR (fst (gc_GetGlyph e (gcLog s) (char_at WString n)))
      then Some (EFI_UNSUPPORTED, s\<lparr>gcLog := gcLog s @ gGetGlyph (char_at WString n) #
             (case snd (gc_GetGlyph e (gcLog s) (char_at WString n)) of None \<Rightarrow> [] | p \<Rightarrow> [gFree p])\<rparr>)
      else test_loop e WString (n + 1) (s\<lparr>gcLog := gcLog s @ gGetGlyph (char_at WString n) #
             (case snd (gc_GetGlyph e (gcLog s) (char_at WString n)) of None \<Rightarrow> [] | p \<Rightarrow> [gFree p])\<rparr>))"
  by (subst test_loop.simps) (auto simp: Let_def gemit_def split: option.splits prod.splits)

text \<open>The test of a string shorter than 65536 characters returns, and answers success exactly when the font knows
  every character before the terminating null; it changes nothing of the device.\<close>

theorem gc_test_string:
  assumes "font_of e known" "length (takeWhile (\<lambda>c. c \<noteq> 0) WString) < 2 ^ 16"
  shows "\<exists>s'. GraphicsConsoleConOutTestString e WString s =
      Some (if \<forall>c \<in> set (takeWhile (\<lambda>c. c \<noteq> 0) WString). known c then EFI_SUCCESS else EFI_UNSUPPORTED, s') \<and> gcDev s' = gcDev s"
proof -
  let ?w = "takeWhile (\<lambda>c. c \<noteq> 0) WString"
  have at_in: "char_at WString (of_nat k) = ?w ! k \<and> ?w ! k \<noteq> 0" if "k < length ?w" for k
  proof -
    have "unat (of_nat k :: u16) = k" using that assms(2) by (simp add: unat_of_nat)
    moreover have "?w ! k = WString ! k" using that by (rule takeWhile_nth)
    moreover have "?w ! k \<noteq> 0" using that nth_mem set_takeWhileD by fastforce
    ultimately show ?thesis using that length_takeWhile_le [of "\<lambda>c. c \<noteq> 0" WString] by (simp add: char_at_def)
  qed
  have at_end: "char_at WString (of_nat (length ?w)) = 0"
  proof -
    have "unat (of_nat (length ?w) :: u16) = length ?w" using assms(2) by (simp add: unat_of_nat)
    moreover have "length ?w < length WString \<Longrightarrow> WString ! length ?w = 0" using nth_length_takeWhile by fastforce
    ultimately show ?thesis by (simp add: char_at_def)
  qed
  have "\<exists>s'. test_loop e WString (of_nat k) s =
      Some (if \<forall>c \<in> set (drop k ?w). known c then EFI_SUCCESS else EFI_UNSUPPORTED, s') \<and> gcDev s' = gcDev s"
    if "k + j = length ?w" for k j s
    using that
  proof (induction j arbitrary: k s)
    case 0
    then show ?case using at_end by (subst test_loop_step) simp
  next
    case (Suc j)
    then have k: "k < length ?w" by simp
    have dk: "drop k ?w = ?w ! k # drop (Suc k) ?w" using Cons_nth_drop_Suc [OF k] by simp
    have er: "EFI_ERROR (fst (gc_GetGlyph e l c)) \<longleftrightarrow> \<not> known c" for l c using assms(1) by (simp add: font_of_def)
    define s1 where "s1 = s\<lparr>gcLog := gcLog s @ gGetGlyph (?w ! k) #
        (case snd (gc_GetGlyph e (gcLog s) (?w ! k)) of None \<Rightarrow> [] | p \<Rightarrow> [gFree p])\<rparr>"
    have dev: "gcDev s1 = gcDev s" by (simp add: s1_def)
    have "test_loop e WString (of_nat k) s =
        (if known (?w ! k) then test_loop e WString (of_nat k + 1) s1 else Some (EFI_UNSUPPORTED, s1))"
      using at_in [OF k] by (subst test_loop_step) (simp add: er s1_def)
    then show ?case using Suc.IH [of "Suc k" s1] Suc.prems by (simp add: dev dk add.commute)
  qed
  from this [of 0 "length ?w" s] show ?thesis by (simp add: GraphicsConsoleConOutTestString_def)
qed

theorem gc_test_string_witness:
  "\<exists>s'. GraphicsConsoleConOutTestString (panel_env 720 1280) [0x48, 0x69, 0] (panel_start 720 1280) = Some (EFI_SUCCESS, s')"
  using gc_test_string [of "panel_env 720 1280" "\<lambda>_. True" "[0x48, 0x69, 0]" "panel_start 720 1280"]
  by (auto simp: font_of_def panel_env_def)

text \<open>The counter is 16 bits wide: a string of 65536 characters that the font knows is tested for ever.\<close>

lemma gc_test_long_string:
  assumes "font_of e known" "2 ^ 16 \<le> length WString" "\<forall>c \<in> set WString. c \<noteq> 0 \<and> known c"
  shows "GraphicsConsoleConOutTestString e WString s = None"
proof -
  have nz: "char_at WString n \<noteq> 0 \<and> known (char_at WString n)" for n
  proof -
    have "unat n < length WString" using unsigned_less [of n, where 'a = nat] assms(2) by simp
    then show ?thesis using assms(3) by (simp add: char_at_def)
  qed
  have "False" if "test_loop e WString 0 s = Some y" for y
  proof -
    have "font_of e known \<longrightarrow> (\<forall>n. char_at WString n \<noteq> 0 \<and> known (char_at WString n)) \<longrightarrow> False"
      using that
    proof (rule test_loop.raw_induct [where P = "\<lambda>e WString n s y. font_of e known \<longrightarrow>
        (\<forall>n. char_at WString n \<noteq> 0 \<and> known (char_at WString n)) \<longrightarrow> False", rotated])
      fix f :: "gc_env \<Rightarrow> u16 list \<Rightarrow> u16 \<Rightarrow> gc_state \<Rightarrow> (efi_status \<times> gc_state) option" and e WString n s y
      assume ih: "\<And>e WString n s y. f e WString n s = Some y \<Longrightarrow> font_of e known \<longrightarrow>
          (\<forall>n. char_at WString n \<noteq> 0 \<and> known (char_at WString n)) \<longrightarrow> False"
        and "(if char_at WString n = 0 then Some (EFI_SUCCESS, s)
          else let c = char_at WString n; (Status, Blt) = gc_GetGlyph e (gcLog s) c; s1 = gemit (gGetGlyph c) s;
                   s2 = if Blt \<noteq> None then gemit (gFree Blt) s1 else s1
               in if EFI_ERROR Status then Some (EFI_UNSUPPORTED, s2) else f e WString (n + 1) s2) = Some y"
      note body = this(2)
      show "font_of e known \<longrightarrow> (\<forall>n. char_at WString n \<noteq> 0 \<and> known (char_at WString n)) \<longrightarrow> False"
      proof (intro impI)
        assume F: "font_of e known" and N: "\<forall>n. char_at WString n \<noteq> 0 \<and> known (char_at WString n)"
        obtain st b where g: "gc_GetGlyph e (gcLog s) (char_at WString n) = (st, b)" by force
        have "\<not> EFI_ERROR st" "char_at WString n \<noteq> 0" using F N g unfolding font_of_def by (metis fst_conv)+
        then obtain s2 where "f e WString (n + 1) s2 = Some y" using body by (simp add: g Let_def)
        from ih [OF this] show False using F N by blast
      qed
    qed
    then show False using assms(1) nz by blast
  qed
  then show ?thesis by (cases "test_loop e WString 0 s") (auto simp: GraphicsConsoleConOutTestString_def)
qed

section \<open>What Start takes and Stop gives back\<close>

text \<open>What the driver holds: pool blocks, openings of the draw protocol, installed interfaces.\<close>

datatype holding = Holding int int int

instantiation holding :: comm_monoid_add
begin

definition zero_holding :: holding where
  "0 = Holding 0 0 0"

definition plus_holding :: "holding \<Rightarrow> holding \<Rightarrow> holding" where
  "a + b = (case (a, b) of (Holding p q r, Holding p' q' r') \<Rightarrow> Holding (p + p') (q + q') (r + r'))"

instance
  by standard (auto simp: zero_holding_def plus_holding_def split: holding.splits)

end

lemmas holding_arith = zero_holding_def plus_holding_def

fun held_by :: "gc_call \<Rightarrow> holding" where
  "held_by (gAllocate _ (Some _)) = Holding 1 0 0"
| "held_by (gQueryMode _ st) = (if EFI_ERROR st then 0 else Holding 1 0 0)"
| "held_by (gFree (Some _)) = Holding (- 1) 0 0"
| "held_by (gOpenProtocol g st) = (if g = gEfiGraphicsOutputProtocolGuid \<and> \<not> EFI_ERROR st then Holding 0 1 0 else 0)"
| "held_by (gCloseProtocol g) = (if g = gEfiGraphicsOutputProtocolGuid then Holding 0 (- 1) 0 else 0)"
| "held_by (gInstall st) = (if EFI_ERROR st then 0 else Holding 0 0 1)"
| "held_by (gUninstall st) = (if EFI_ERROR st then 0 else Holding 0 0 (- 1))"
| "held_by _ = 0"

definition held :: "gc_log \<Rightarrow> holding" where
  "held l = (\<Sum>c \<leftarrow> l. held_by c)"

lemma held_simps [simp]: "held [] = 0" "held (c # l) = held_by c + held l" "held (l @ k) = held l + held k"
  by (simp_all add: held_def)

lemma held_taken: "held_by (gQueryMode n EFI_SUCCESS) + held_by (gFree (Some p)) = 0"
  by (simp add: holding_arith)

lemma check_modes_held: "check_modes e H V Limit n st l = (st', n', l') \<Longrightarrow> held l' = held l"
proof (induction "Limit - n" arbitrary: n st l)
  case 0
  then show ?case by (simp add: check_modes.simps)
next
  case (Suc k)
  obtain s Info h v where q: "gc_QueryMode e l n = (s, Info, h, v)" by (metis prod_cases4)
  have k: "k = Limit - Suc n" "n < Limit" using Suc.hyps(2) by simp_all
  have cancel: "Holding 1 0 0 + (Holding (- 1) 0 0 + x) = x" "Holding 1 0 0 + Holding (- 1) 0 0 = 0" for x
    by (simp_all add: holding_arith split: holding.splits)
  show ?case
    using Suc.prems [unfolded check_modes.simps [of e H V Limit n st l] q Let_def prod.case] Suc.hyps(1) [OF k(1)] k(2)
    by (fastforce simp: cancel add.assoc split: if_splits)
qed

lemma CheckModeSupported_held: "CheckModeSupported e H V l = (st, n, l') \<Longrightarrow> held l' = held l"
  by (auto simp: CheckModeSupported_def Let_def dest: check_modes_held split: prod.splits)

lemma larger_mode_held: "larger_mode e i (st, H, V, n, l) = (st', H', V', n', l') \<Longrightarrow> held l' = held l"
  by (auto simp: larger_mode_def Let_def holding_arith split: prod.splits if_splits holding.splits)

lemma fold_larger_mode_held:
  "fold (larger_mode e) xs (st, H, V, n, l) = (st', H', V', n', l') \<Longrightarrow> held l' = held l"
proof (induction xs arbitrary: st H V n l)
  case (Cons x xs)
  obtain st1 H1 V1 n1 l1 where 1: "larger_mode e x (st, H, V, n, l) = (st1, H1, V1, n1, l1)" by (metis prod_cases5)
  then show ?case using Cons larger_mode_held [OF 1] by (metis fold_simps(2))
qed simp

lemma choose_gop_mode_held:
  assumes "choose_gop_mode e l = (st, H, V, n, l')"
  shows "held l' = held l"
proof -
  define r where "r = (if VideoHorizontalResolution e = 0 \<or> VideoVerticalResolution e = 0
      then fold (larger_mode e) [0..<GopMaxMode (gc_GopMode e l)] (EFI_SUCCESS, VideoHorizontalResolution e, VideoVerticalResolution e, 0, l)
      else configured_mode e (VideoHorizontalResolution e) (VideoVerticalResolution e) l)"
  obtain st1 H1 V1 n1 l1 where r1: "r = (st1, H1, V1, n1, l1)" by (metis prod_cases5)
  have "held l1 = held l"
  proof (cases "VideoHorizontalResolution e = 0 \<or> VideoVerticalResolution e = 0")
    case True
    then show ?thesis using r1 fold_larger_mode_held by (simp add: r_def) 
  next
    case False
    then show ?thesis
      using r1 by (auto simp: r_def configured_mode_def Let_def dest!: CheckModeSupported_held split: prod.splits if_splits)
  qed
  then show ?thesis
    using assms [unfolded choose_gop_mode_def Let_def, folded r_def, unfolded r1 prod.case] by (auto split: if_splits)
qed

text \<open>What a device holds besides what its log shows.\<close>

lemma free_buffers_held:
  "held (free_buffers P p l) = held l + Holding (- 1 - (if GcLineBuffer P = None then 0 else 1) - (if ModeDataP P = None then 0 else 1)) 0 0"
  by (auto simp: free_buffers_def holding_arith split: holding.splits)

lemma close_draw_held:
  "\<not> UgaConsumeSupport e \<Longrightarrow> held (close_draw e gop l) = held l + Holding 0 (if gop then - 1 else 0) 0"
  by (auto simp: close_draw_def holding_arith split: holding.splits)

lemma Start_held:
  assumes "GraphicsConsoleControllerDriverStart e l = Some (st, r, l')" "\<not> UgaConsumeSupport e"
  shows "case r of None \<Rightarrow> EFI_ERROR st \<and> held l' = held l
    | Some P \<Rightarrow> st = EFI_SUCCESS \<and> GraphicsOutput P \<and> GcLineBuffer P = None \<and> ModeDataP P \<noteq> None \<and> held l' = held l + Holding 2 1 1"
proof -
  note S = assms(1) [unfolded GraphicsConsoleControllerDriverStart_def Let_def]
  show ?thesis
  proof (cases "gc_Allocate e l PrivateBlock")
    case None
    then show ?thesis using S by (auto simp: holding_arith EFI_ERROR_iff split: holding.splits)
  next
    case (Some p)
    let ?l0 = "l @ [gAllocate PrivateBlock (Some p)]"
    obtain st1 gop uga l1 where 2: "open_draw e ?l0 = (st1, gop, uga, l1)" by (metis prod_cases4)
    have d: "gop \<longleftrightarrow> \<not> EFI_ERROR st1" "held l1 = held l + Holding 1 (if gop then 1 else 0) 0"
      using 2 assms(2) by (auto simp: open_draw_def gc_open_def Let_def holding_arith split: if_splits holding.splits)
    note S2 = S [unfolded Some option.case 2 prod.case]
    show ?thesis
    proof (cases "EFI_ERROR st1")
      case True
      then show ?thesis
        using S2 d assms(2) by (auto simp: start_error_def free_buffers_held close_draw_held mGraphicsConsoleDevTemplate_def holding_arith split: holding.splits)
    next
      case False
      obtain st2 H V k l2 where 3: "choose_gop_mode e l1 = (st2, H, V, k, l2)" by (metis prod_cases5)
      note S3 = S2 [unfolded if_not_P [OF False] if_P [OF d(1) [THEN iffD2, OF False]] 3 prod.case]
      have h2: "held l2 = held l + Holding 1 1 0" using choose_gop_mode_held [OF 3] d False by simp
      show ?thesis
      proof (cases "EFI_ERROR st2")
        case True
        then show ?thesis
          using S3 d h2 assms(2) False
          by (auto simp: start_error_def free_buffers_held close_draw_held mGraphicsConsoleDevTemplate_def holding_arith split: holding.splits)
      next
        case ok: False
        obtain n modes where 5: "InitializeGraphicsConsoleTextMode H V k = (n, modes)" by force
        note S4 = S3 [unfolded if_not_P [OF ok] 5 prod.case]
        show ?thesis
          using S4 d h2 assms(2) False
          by (auto simp: start_error_def free_buffers_held close_draw_held mGraphicsConsoleDevTemplate_def holding_arith
              split: holding.splits option.splits if_splits)
      qed
    qed
  qed
qed

text \<open>C21: Without UGA support, a Start that fails has given back every pool block and the opening of the graphics
  output, and a Start that succeeds holds the device, its mode table and the opening, which a
  Stop that can uninstall the console gives back.\<close>

theorem gc_start_stop_balanced:
  assumes "GraphicsConsoleControllerDriverStart e l = Some (st, r, l')" "\<not> UgaConsumeSupport e"
  shows "case r of None \<Rightarrow> EFI_ERROR st \<and> held l' = held l
    | Some P \<Rightarrow> st = EFI_SUCCESS \<and> held l' = held l + Holding 2 1 1 \<and>
       (case GraphicsConsoleControllerDriverStop e p \<lparr>gcDev = P, gcLog = l'\<rparr> of (st', r', l'') \<Rightarrow>
          if EFI_ERROR st' then r' = Some P \<and> held l'' = held l' else r' = None \<and> held l'' = held l)"
proof (cases r)
  case None
  then show ?thesis using Start_held [OF assms] by simp
next
  case (Some P)
  have h: "st = EFI_SUCCESS" "GraphicsOutput P" "GcLineBuffer P = None" "ModeDataP P \<noteq> None" "held l' = held l + Holding 2 1 1"
    using Start_held [OF assms] by (simp_all add: Some)
  have stop: "held (free_buffers P p (close_draw e True x)) = held x + Holding (- 2) (- 1) 0" for x
    using h assms(2) by (simp add: free_buffers_held close_draw_held holding_arith split: holding.splits)
  obtain st1 l1 where o: "gc_open e gEfiSimpleTextOutProtocolGuid l' = (st1, l1)" by force
  have h1: "held l1 = held l'" using o by (auto simp: gc_open_def Let_def holding_arith split: holding.splits)
  have un: "Holding 2 1 1 + (Holding 0 0 (- 1) + Holding (- 2) (- 1) 0) = 0" by (simp add: holding_arith)
  show ?thesis
    using h(2) by (simp add: Some h(1,5) GraphicsConsoleControllerDriverStop_def Let_def o h1 stop un add.assoc EFI_ERROR_iff)
qed

theorem gc_start_stop_balanced_witness:
  "case GraphicsConsoleControllerDriverStop (panel_env 720 1280) 256 (panel_start 720 1280) of (st, r, l) \<Rightarrow> r = None \<and> held l = 0"
proof -
  obtain l where l: "GraphicsConsoleControllerDriverStart (panel_env 720 1280) l =
      Some (EFI_SUCCESS, Some (gcDev (panel_start 720 1280)), gcLog (panel_start 720 1280))"
    using panel_started [of 720 1280] by (auto simp: gc_started_def)
  have u: "\<not> UgaConsumeSupport (panel_env 720 1280)" by (simp add: panel_env_def)
  have g: "gcLog (panel_start 720 1280) = [gAllocate PrivateBlock (Some 256), gOpenProtocol gEfiGraphicsOutputProtocolGuid EFI_SUCCESS,
      gQueryMode 0 EFI_SUCCESS, gFree (Some 64), gAllocate (ModeBlock 7) (Some 260), gInstall EFI_SUCCESS]"
    by (simp add: panel_start_def split: prod.splits)
  have "held l + Holding 2 1 1 = Holding 2 1 1"
    using gc_start_stop_balanced [OF l u, of 256] by (simp add: g holding_arith)
  then have "held l = 0" by (cases "held l") (simp add: holding_arith)
  moreover have "fst (GraphicsConsoleControllerDriverStop (panel_env 720 1280) 256 (panel_start 720 1280)) = EFI_SUCCESS"
    by (simp add: GraphicsConsoleControllerDriverStop_def gc_open_def panel_env_def Let_def)
  moreover have eta: "\<lparr>gcDev = gcDev (panel_start 720 1280), gcLog = gcLog (panel_start 720 1280)\<rparr> = panel_start 720 1280" by simp
  ultimately show ?thesis
    using gc_start_stop_balanced [OF l u, of 256, unfolded option.case eta] by (cases "GraphicsConsoleControllerDriverStop (panel_env 720 1280) 256 (panel_start 720 1280)") simp
qed

end
