(* ===== verification/SimpleFb.thy ===== *)
theory SimpleFb
  imports FrameBufferBlt
begin

text \<open>
  The simple frame buffer driver (\<open>Drivers/SimpleFbDxe/SimpleFbDxe.c\<close>): the graphics output protocol
  on the frame buffer that the boot loader has set up, with its one mode, over the block transfer
  library.

  The statics of the driver are the record \<open>display\<close>; the pool, the fixed configuration values and the
  installation of the protocol answer from the record \<open>fb_env\<close>.  The task priority level raised around a
  transfer and the cache flush after it have no effect on the memory modelled here.
\<close>

section \<open>Data\<close>

text \<open>\<open>None\<close> is a NULL pointer.  \<open>Published\<close>: the protocol is installed on a handle.\<close>

record display =
  mDisplayMode :: "EFI_GRAPHICS_OUTPUT_PROTOCOL_MODE option"
  mFrameBufferBltLibConfigure :: "FRAME_BUFFER_CONFIGURE option"
  mFrameBufferBltLibConfigureSize :: nat
  Published :: bool

definition unloaded_display :: display where
  "unloaded_display =
     \<lparr>mDisplayMode = None, mFrameBufferBltLibConfigure = None, mFrameBufferBltLibConfigureSize = 0, Published = False\<rparr>"

text \<open>The pool's answers: whether the two structures can be allocated, and the block for the
  library's configuration, by its size.\<close>

record fb_env =
  fbModePool :: bool
  fbInfoPool :: bool
  fbConfigurePool :: "nat \<Rightarrow> FRAME_BUFFER_CONFIGURE option"
  fbInstall :: efi_status
  PcdMipiFrameBufferAddress :: nat
  PcdMipiFrameBufferWidth :: nat
  PcdMipiFrameBufferHeight :: nat

section \<open>The protocol\<close>

text \<open>The caller's block comes from the pool; its \<open>PixelInformation\<close> is not written.  Without memory the
  code writes through a null pointer (\<open>None\<close>).\<close>

definition DisplayQueryMode ::
  "EFI_GRAPHICS_OUTPUT_MODE_INFORMATION \<Rightarrow> EFI_GRAPHICS_OUTPUT_MODE_INFORMATION option \<Rightarrow> nat \<Rightarrow>
   (efi_status \<times> nat \<times> EFI_GRAPHICS_OUTPUT_MODE_INFORMATION) option" where
  "DisplayQueryMode Current Block ModeNumber =
     map_option
       (\<lambda>Info. (EFI_SUCCESS, sizeof_MODE_INFORMATION,
          Info\<lparr>InfoVersion := InfoVersion Current, HorizontalResolution := HorizontalResolution Current, VerticalResolution := VerticalResolution Current,
               InfoPixelFormat := InfoPixelFormat Current, InfoPixelsPerScanLine := InfoPixelsPerScanLine Current\<rparr>))
       Block"

definition DisplaySetMode :: "display \<Rightarrow> nat \<Rightarrow> efi_status \<times> display" where
  "DisplaySetMode d ModeNumber = (EFI_SUCCESS, d)"

definition DisplayBlt ::
  "display \<Rightarrow> nat \<Rightarrow> EFI_GRAPHICS_OUTPUT_BLT_OPERATION \<Rightarrow>
   nat \<Rightarrow> nat \<Rightarrow> nat \<Rightarrow> nat \<Rightarrow> nat \<Rightarrow> nat \<Rightarrow> nat \<Rightarrow> mem \<Rightarrow> efi_status \<times> mem" where
  "DisplayBlt d BltBuffer BltOperation SourceX SourceY DestinationX DestinationY W H Delta m =
     (let (Status, m') = FrameBufferBlt (mFrameBufferBltLibConfigure d) BltBuffer BltOperation
                           SourceX SourceY DestinationX DestinationY W H Delta m
      in (if EFI_ERROR Status then EFI_INVALID_PARAMETER else EFI_SUCCESS, m'))"

section \<open>Initialisation\<close>

text \<open>\<open>VNBYTES\<close> leaves out the outer brackets: the product is taken before the division.\<close>

definition LineLength :: "nat \<Rightarrow> nat" where
  "LineLength W = wrap32 (W * 32) div 8"

definition display_info :: "nat \<Rightarrow> nat \<Rightarrow> EFI_PIXEL_BITMASK \<Rightarrow> EFI_GRAPHICS_OUTPUT_MODE_INFORMATION" where
  "display_info W H masks =
     \<lparr>InfoVersion = 0, HorizontalResolution = W, VerticalResolution = H, InfoPixelFormat = PixelBlueGreenRedReserved8BitPerColor,
      PixelInformation = masks, InfoPixelsPerScanLine = W\<rparr>"

definition zero_masks :: EFI_PIXEL_BITMASK where
  "zero_masks = \<lparr>RedMask = 0, GreenMask = 0, BlueMask = 0, ReservedMask = 0\<rparr>"

text \<open>Creating the configuration of the library: asking for its size and allocating it.\<close>

definition create_configuration :: "fb_env \<Rightarrow> nat \<Rightarrow> EFI_GRAPHICS_OUTPUT_MODE_INFORMATION \<Rightarrow> display \<Rightarrow> display" where
  "create_configuration e Base Info d =
     (let (Status, c, sz) = FrameBufferBltConfigure Base Info (mFrameBufferBltLibConfigure d)
                              (Some (mFrameBufferBltLibConfigureSize d));
          d1 = d\<lparr>mFrameBufferBltLibConfigure := c, mFrameBufferBltLibConfigureSize := the sz\<rparr>
      in if Status = EFI_BUFFER_TOO_SMALL
         then case fbConfigurePool e (the sz) of
                None \<Rightarrow> d1\<lparr>mFrameBufferBltLibConfigure := None\<rparr>
              | Some Block \<Rightarrow>
                  let (_, c', sz') = FrameBufferBltConfigure Base Info (Some Block) sz
                  in d1\<lparr>mFrameBufferBltLibConfigure := c', mFrameBufferBltLibConfigureSize := the sz'\<rparr>
         else d1)"

definition SimpleFbDxeInitialize :: "fb_env \<Rightarrow> display \<Rightarrow> mem \<Rightarrow> efi_status \<times> display \<times> mem" where
  "SimpleFbDxeInitialize e d m =
     (let Addr = PcdMipiFrameBufferAddress e; W = PcdMipiFrameBufferWidth e; H = PcdMipiFrameBufferHeight e
      in if Addr = 0 \<or> W = 0 \<or> H = 0 then (EFI_DEVICE_ERROR, d, m)
         else if mDisplayMode d = None \<and> \<not> fbModePool e then (EFI_OUT_OF_RESOURCES, d, m)
         else let M = (case mDisplayMode d of Some M \<Rightarrow> M
                       | None \<Rightarrow> \<lparr>DisplayMaxMode = 0, DisplayMode = 0, ModeInfo = None, SizeOfInfo = 0,
                                  FrameBufferBase = 0, FrameBufferSize = 0\<rparr>)
         in if ModeInfo M = None \<and> \<not> fbInfoPool e then (EFI_OUT_OF_RESOURCES, d\<lparr>mDisplayMode := Some M\<rparr>, m)
         else let masks = (case ModeInfo M of Some I \<Rightarrow> PixelInformation I | None \<Rightarrow> zero_masks);
                  Info = display_info W H masks;
                  FBSize = wrap32 (LineLength W * H);
                  M' = M\<lparr>DisplayMaxMode := 1, DisplayMode := 0, ModeInfo := Some Info, SizeOfInfo := sizeof_MODE_INFORMATION,
                         FrameBufferBase := Addr, FrameBufferSize := FBSize\<rparr>;
                  d1 = create_configuration e Addr Info (d\<lparr>mDisplayMode := Some M'\<rparr>)
              in (fbInstall e, d1\<lparr>Published := \<not> EFI_ERROR (fbInstall e)\<rparr>, SetMem Addr FBSize 0 m))"

end
