(* ===== verification/TextScreen.thy ===== *)
theory TextScreen
  imports GraphicsConsoleText
begin

text \<open>
  Text on a screen: what the graphics console of \<open>GraphicsConsole\<close> leaves in the pixels.  The locale
  \<open>text_screen\<close> is the contract of the layer below (the five transfers the console uses and the
  drawing of a string); over any screen that keeps it, the output of a string shows the cells of the terminal.
\<close>

section \<open>Cells and pixels\<close>

text \<open>A font says which pixels of a character's glyph are set; a wide glyph is two cells wide.\<close>

type_synonym font = "u16 \<Rightarrow> nat \<Rightarrow> nat \<Rightarrow> bool"

definition cursor_pixel :: "nat \<Rightarrow> nat \<Rightarrow> bool" where
  "cursor_pixel x y = bit (mCursorGlyph ! y) (EFI_GLYPH_WIDTH - x - 1)"

definition cell_pixel :: "font \<Rightarrow> u32 \<Rightarrow> cell_content \<times> bool \<Rightarrow> nat \<Rightarrow> nat \<Rightarrow> u32" where
  "cell_pixel font cur = (\<lambda>(content, inverted) x y.
     (case content of Glyph ch half fg bg \<Rightarrow> if font ch (half * EFI_GLYPH_WIDTH + x) y then fg else bg | Blank bg \<Rightarrow> bg)
     XOR (if inverted \<and> cursor_pixel x y then cur else 0))"

text \<open>The pixels of the text area of a mode show a grid of cells, with \<open>cur\<close> the colour the cursor is inverted with.\<close>

definition shown :: "font \<Rightarrow> u32 \<Rightarrow> GRAPHICS_CONSOLE_MODE_DATA \<Rightarrow> grid \<Rightarrow> (nat \<Rightarrow> nat \<Rightarrow> u32) \<Rightarrow> bool" where
  "shown font cur d g pix \<longleftrightarrow>
     (\<forall>r < Rows d. \<forall>c < Columns d. \<forall>x < EFI_GLYPH_WIDTH. \<forall>y < EFI_GLYPH_HEIGHT.
        pix (cell_x d c + x) (cell_y d r + y) = cell_pixel font cur (g r c) x y)"

text \<open>A mode whose text area is on a screen of \<open>H\<close> by \<open>V\<close> pixels.\<close>

definition on_screen :: "nat \<Rightarrow> nat \<Rightarrow> GRAPHICS_CONSOLE_MODE_DATA \<Rightarrow> bool" where
  "on_screen H V d \<longleftrightarrow> 0 \<le> DeltaX d \<and> 0 \<le> DeltaY d \<and> GopWidth d = H \<and> GopHeight d = V \<and>
     nat (DeltaX d) + Columns d * EFI_GLYPH_WIDTH \<le> H \<and> nat (DeltaY d) + Rows d * EFI_GLYPH_HEIGHT \<le> V"

text \<open>The glyphs of one character after the other.\<close>

definition string_pixel :: "font \<Rightarrow> bool \<Rightarrow> u32 \<Rightarrow> u32 \<Rightarrow> u16 list \<Rightarrow> nat \<Rightarrow> nat \<Rightarrow> u32" where
  "string_pixel font wide fg bg cs x y =
     (let n = EFI_GLYPH_WIDTH * char_cells wide in if font (cs ! (x div n)) (x mod n) y then fg else bg)"

definition within :: "nat \<Rightarrow> nat \<Rightarrow> nat \<Rightarrow> nat \<Rightarrow> nat \<Rightarrow> nat \<Rightarrow> bool" where
  "within x y w h px py \<longleftrightarrow> x \<le> px \<and> px < x + w \<and> y \<le> py \<and> py < y + h"

section \<open>Geometry\<close>

lemma cell_x_eq:
  assumes "0 \<le> DeltaX d" "nat (DeltaX d) + c * EFI_GLYPH_WIDTH < 2 ^ 64"
  shows "cell_x d c = nat (DeltaX d) + c * EFI_GLYPH_WIDTH"
proof -
  have "int c * int EFI_GLYPH_WIDTH + DeltaX d = int (nat (DeltaX d) + c * EFI_GLYPH_WIDTH)" using assms(1) by simp
  then show ?thesis unfolding cell_x_def using assms(2) by (metis uintn_int)
qed

lemma cell_y_eq:
  assumes "0 \<le> DeltaY d" "nat (DeltaY d) + r * EFI_GLYPH_HEIGHT < 2 ^ 64"
  shows "cell_y d r = nat (DeltaY d) + r * EFI_GLYPH_HEIGHT"
proof -
  have "int r * int EFI_GLYPH_HEIGHT + DeltaY d = int (nat (DeltaY d) + r * EFI_GLYPH_HEIGHT)" using assms(1) by simp
  then show ?thesis unfolding cell_y_def using assms(2) by (metis uintn_int)
qed

lemma on_screen_cells:
  assumes "on_screen H V d" "H < 2 ^ 16" "V < 2 ^ 16"
  shows "c \<le> Columns d \<Longrightarrow> cell_x d c = nat (DeltaX d) + c * EFI_GLYPH_WIDTH"
    "r \<le> Rows d \<Longrightarrow> cell_y d r = nat (DeltaY d) + r * EFI_GLYPH_HEIGHT"
    "c \<le> Columns d \<Longrightarrow> nat (DeltaX d) + c * EFI_GLYPH_WIDTH \<le> H" "r \<le> Rows d \<Longrightarrow> nat (DeltaY d) + r * EFI_GLYPH_HEIGHT \<le> V"
proof -
  show cH: "nat (DeltaX d) + c * EFI_GLYPH_WIDTH \<le> H" if "c \<le> Columns d"
    using assms(1) mult_le_mono1 [OF that, of EFI_GLYPH_WIDTH] unfolding on_screen_def by linarith
  show rV: "nat (DeltaY d) + r * EFI_GLYPH_HEIGHT \<le> V" if "r \<le> Rows d"
    using assms(1) mult_le_mono1 [OF that, of EFI_GLYPH_HEIGHT] unfolding on_screen_def by linarith
  show "c \<le> Columns d \<Longrightarrow> cell_x d c = nat (DeltaX d) + c * EFI_GLYPH_WIDTH"
    using cH assms(1,2) by (intro cell_x_eq) (auto simp: on_screen_def)
  show "r \<le> Rows d \<Longrightarrow> cell_y d r = nat (DeltaY d) + r * EFI_GLYPH_HEIGHT"
    using rV assms(1,3) by (intro cell_y_eq) (auto simp: on_screen_def)
qed

text \<open>A pixel of cell \<open>c\<close> lies in the columns from \<open>c0\<close> on, \<open>n\<close> cells wide, exactly if \<open>c\<close> does.\<close>

lemma cell_within:
  assumes "x < (k :: nat)"
  shows "D + c0 * k \<le> D + c * k + x \<longleftrightarrow> c0 \<le> c" "D + c * k + x < D + c0 * k + n * k \<longleftrightarrow> c < c0 + n"
proof -
  show "D + c0 * k \<le> D + c * k + x \<longleftrightarrow> c0 \<le> c"
  proof
    assume "D + c0 * k \<le> D + c * k + x"
    then have "c0 * k < Suc c * k" using assms by simp
    then show "c0 \<le> c" by (metis less_Suc_eq_le mult_less_cancel2)
  qed (simp add: trans_le_add1)
  show "D + c * k + x < D + c0 * k + n * k \<longleftrightarrow> c < c0 + n"
  proof
    assume "D + c * k + x < D + c0 * k + n * k"
    then have "c * k < (c0 + n) * k" by (simp add: add_mult_distrib)
    then show "c < c0 + n" by simp
  next
    assume "c < c0 + n"
    then have "Suc c * k \<le> (c0 + n) * k" by (intro mult_le_mono1) simp
    then show "D + c * k + x < D + c0 * k + n * k" using assms by (simp add: add_mult_distrib)
  qed
qed

section \<open>The cursor's glyph\<close>

lemma fold_toggle_row:
  assumes "y < 19" "set xs \<subseteq> {..<8}" "distinct xs" "length bs = 152"
  shows "length (fold (toggle_pixel fg y) xs bs) = 152 \<and>
    (\<forall>i < 152. fold (toggle_pixel fg y) xs bs ! i =
       bs ! i XOR (if i div 8 = y \<and> 7 - i mod 8 \<in> set xs \<and> bit (mCursorGlyph ! y) (7 - i mod 8) then fg else 0))"
  using assms(2-4)
proof (induction xs arbitrary: bs)
  case (Cons x xs)
  have x: "x < 8" "x \<notin> set xs" using Cons.prems by auto
  have j: "y * 8 + (7 - x) < 152" using assms(1) x by simp
  have eq: "i = y * 8 + (7 - x) \<longleftrightarrow> i div 8 = y \<and> 7 - i mod 8 = x" for i
  proof
    assume "i div 8 = y \<and> 7 - i mod 8 = x"
    moreover have "i = i div 8 * 8 + i mod 8" "i mod 8 < 8" by simp_all
    ultimately show "i = y * 8 + (7 - x)" by linarith
  next
    define k where "k = 7 - x"
    assume "i = y * 8 + (7 - x)"
    then have "i = k + y * 8" "k < 8" by (simp_all add: k_def)
    then have "i div 8 = y" "i mod 8 = k" by simp_all
    then show "i div 8 = y \<and> 7 - i mod 8 = x" using x(1) by (simp add: k_def)
  qed
  have len: "length (toggle_pixel fg y x bs) = 152" using Cons.prems by (simp add: toggle_pixel_def Let_def)
  have at: "toggle_pixel fg y x bs ! i = bs ! i XOR (if i div 8 = y \<and> 7 - i mod 8 = x \<and> bit (mCursorGlyph ! y) x then fg else 0)"
    if "i < 152" for i
  proof (cases "i = y * 8 + (7 - x)")
    case True
    then have "toggle_pixel fg y x bs ! i = bs ! i XOR (if bit (mCursorGlyph ! y) x then fg else 0)"
      using Cons.prems(3) j by (simp add: toggle_pixel_def Let_def EFI_GLYPH_WIDTH_def)
    moreover have "i div 8 = y \<and> 7 - i mod 8 = x" using eq True by blast
    ultimately show ?thesis by simp
  next
    case False
    then have "toggle_pixel fg y x bs ! i = bs ! i" by (simp add: toggle_pixel_def Let_def EFI_GLYPH_WIDTH_def)
    then show ?thesis using eq [of i] False by auto
  qed
  have "set xs \<subseteq> {..<8}" "distinct xs" using Cons.prems by simp_all
  note ih = Cons.IH [OF this len]
  show ?case
  proof (intro conjI allI impI)
    fix i :: nat assume "i < 152"
    then show "fold (toggle_pixel fg y) (x # xs) bs ! i = bs ! i XOR
        (if i div 8 = y \<and> 7 - i mod 8 \<in> set (x # xs) \<and> bit (mCursorGlyph ! y) (7 - i mod 8) then fg else 0)"
      using ih at [of i] x(2) by (cases "7 - i mod 8 = x") auto
  qed (use ih in simp)
qed simp

lemma fold_toggle_rows:
  assumes "set ys \<subseteq> {..<19}" "distinct ys" "length bs = 152"
  shows "length (fold (\<lambda>y. fold (toggle_pixel fg y) [0..<8]) ys bs) = 152 \<and>
    (\<forall>i < 152. fold (\<lambda>y. fold (toggle_pixel fg y) [0..<8]) ys bs ! i =
       bs ! i XOR (if i div 8 \<in> set ys \<and> bit (mCursorGlyph ! (i div 8)) (7 - i mod 8) then fg else 0))"
  using assms
proof (induction ys arbitrary: bs)
  case (Cons y ys)
  have y: "y < 19" "y \<notin> set ys" using Cons.prems by auto
  have r: "length (fold (toggle_pixel fg y) [0..<8] bs) = 152 \<and>
    (\<forall>i < 152. fold (toggle_pixel fg y) [0..<8] bs ! i =
       bs ! i XOR (if i div 8 = y \<and> 7 - i mod 8 \<in> set [0..<8] \<and> bit (mCursorGlyph ! y) (7 - i mod 8) then fg else 0))"
    using Cons.prems y by (intro fold_toggle_row) auto
  then show ?case using Cons.IH [of "fold (toggle_pixel fg y) [0..<8] bs"] Cons.prems y by auto
qed simp

lemma toggle_glyph_at:
  assumes "length bs = EFI_GLYPH_WIDTH * EFI_GLYPH_HEIGHT" "x < EFI_GLYPH_WIDTH" "y < EFI_GLYPH_HEIGHT"
  shows "toggle_glyph fg bs ! (y * EFI_GLYPH_WIDTH + x) = bs ! (y * EFI_GLYPH_WIDTH + x) XOR (if cursor_pixel x y then fg else 0)"
    "length (toggle_glyph fg bs) = EFI_GLYPH_WIDTH * EFI_GLYPH_HEIGHT"
proof -
  have r: "length (toggle_glyph fg bs) = 152 \<and> (\<forall>i < 152. toggle_glyph fg bs ! i =
       bs ! i XOR (if i div 8 \<in> set [0..<19] \<and> bit (mCursorGlyph ! (i div 8)) (7 - i mod 8) then fg else 0))"
    using fold_toggle_rows [of "[0..<19]" bs fg] assms(1)
    by (simp add: toggle_glyph_def EFI_GLYPH_WIDTH_def EFI_GLYPH_HEIGHT_def atLeast0LessThan)
  show "length (toggle_glyph fg bs) = EFI_GLYPH_WIDTH * EFI_GLYPH_HEIGHT"
    using r by (simp add: EFI_GLYPH_WIDTH_def EFI_GLYPH_HEIGHT_def)
  have i: "y * 8 + x < 152" "(y * 8 + x) div 8 = y" "(y * 8 + x) mod 8 = x" using assms(2,3)
    by (simp_all add: EFI_GLYPH_WIDTH_def EFI_GLYPH_HEIGHT_def)
  have "8 - x - 1 = 7 - x" by simp
  then show "toggle_glyph fg bs ! (y * EFI_GLYPH_WIDTH + x) = bs ! (y * EFI_GLYPH_WIDTH + x) XOR (if cursor_pixel x y then fg else 0)"
    using r i assms(3) by (simp add: cursor_pixel_def EFI_GLYPH_WIDTH_def EFI_GLYPH_HEIGHT_def)
qed

section \<open>A line of characters\<close>

lemma put_string_at:
  "put_string fg bg r c w cs g r' c' =
    (if r' = r \<and> c \<le> c' \<and> c' < c + length cs * char_cells w
     then (Glyph (cs ! ((c' - c) div char_cells w)) ((c' - c) mod char_cells w) fg bg, False) else g r' c')"
proof (induction cs arbitrary: c g)
  case (Cons ch cs)
  have step: "put_string fg bg r c w (ch # cs) g r' c' =
     (if r' = r \<and> c + char_cells w \<le> c' \<and> c' < c + char_cells w + length cs * char_cells w
      then (Glyph (cs ! ((c' - (c + char_cells w)) div char_cells w)) ((c' - (c + char_cells w)) mod char_cells w) fg bg, False)
      else put_char fg bg r c w ch g r' c')"
    by (simp add: Cons)
  show ?case
  proof (cases "c' < c + char_cells w")
    case True
    then have "c' < c \<or> c' = c \<or> c' = Suc c \<and> w" by (cases w) (auto simp: char_cells_def)
    then show ?thesis
      unfolding step by (elim disjE conjE) (auto simp: put_char_def set_cell_def char_cells_def Let_def)
  next
    case False
    then have "(c' - c) div char_cells w = Suc ((c' - (c + char_cells w)) div char_cells w)"
      "(c' - c) mod char_cells w = (c' - (c + char_cells w)) mod char_cells w"
      by (cases w; simp add: char_cells_def le_div_geq le_mod_geq numeral_2_eq_2; linarith?)+
    moreover have "put_char fg bg r c w ch g r' c' = g r' c'"
      using False by (auto simp: put_char_def set_cell_def char_cells_def Let_def split: if_splits)
    ultimately show ?thesis using False unfolding step by auto
  qed
qed auto

section \<open>The contract of the screen\<close>

locale text_screen =
  fixes e :: gc_env and pix :: "gc_log \<Rightarrow> nat \<Rightarrow> nat \<Rightarrow> u32" and H V :: nat and font :: font and wide_glyph :: "u16 \<Rightarrow> bool"
  assumes small: "H < 2 ^ 16" "V < 2 ^ 16"
    and pix_quiet: "quiet c \<Longrightarrow> pix (l @ [c]) = pix l"
    and pix_read: "x + EFI_GLYPH_WIDTH \<le> H \<Longrightarrow> y + EFI_GLYPH_HEIGHT \<le> V \<Longrightarrow> dx < EFI_GLYPH_WIDTH \<Longrightarrow> dy < EFI_GLYPH_HEIGHT \<Longrightarrow>
      snd (gc_Blt e l gEfiGraphicsOutputProtocolGuid (read_glyph x y (gc_stack_pixels e))) ! (dy * EFI_GLYPH_WIDTH + dx) = pix l (x + dx) (y + dy)"
    and glyph_length: "length (snd (gc_Blt e l gEfiGraphicsOutputProtocolGuid (read_glyph x y (gc_stack_pixels e)))) = EFI_GLYPH_WIDTH * EFI_GLYPH_HEIGHT"
    and pix_read_keeps: "x < 2 ^ 32 \<Longrightarrow> y < 2 ^ 32 \<Longrightarrow> px < H \<Longrightarrow> py < V \<Longrightarrow>
      pix (l @ [gBlt gEfiGraphicsOutputProtocolGuid (read_glyph x y (gc_stack_pixels e))]) px py = pix l px py"
    and pix_write: "x < 2 ^ 32 \<Longrightarrow> y < 2 ^ 32 \<Longrightarrow> length bs = EFI_GLYPH_WIDTH * EFI_GLYPH_HEIGHT \<Longrightarrow> px < H \<Longrightarrow> py < V \<Longrightarrow>
      pix (l @ [gBlt gEfiGraphicsOutputProtocolGuid (write_glyph x y bs)]) px py =
        (if x + EFI_GLYPH_WIDTH \<le> H \<and> y + EFI_GLYPH_HEIGHT \<le> V \<and> within x y EFI_GLYPH_WIDTH EFI_GLYPH_HEIGHT px py
         then bs ! ((py - y) * EFI_GLYPH_WIDTH + (px - x)) else pix l px py)"
    and pix_scroll: "0 < w \<Longrightarrow> x + w \<le> H \<Longrightarrow> y + EFI_GLYPH_HEIGHT + h \<le> V \<Longrightarrow> px < H \<Longrightarrow> py < V \<Longrightarrow>
      pix (l @ [gBlt gEfiGraphicsOutputProtocolGuid (video_scroll x y w h delta)]) px py =
        (if within x y w h px py then pix l px (py + EFI_GLYPH_HEIGHT) else pix l px py)"
    and pix_fill: "0 < w \<Longrightarrow> 0 < h \<Longrightarrow> x + w \<le> H \<Longrightarrow> y + h \<le> V \<Longrightarrow> bg AND 0xffffff = bg \<Longrightarrow> px < H \<Longrightarrow> py < V \<Longrightarrow>
      pix (l @ [gBlt gEfiGraphicsOutputProtocolGuid (video_fill bg x y w h delta)]) px py = (if within x y w h px py then bg else pix l px py)"
    and pix_string: "x + EFI_GLYPH_WIDTH * char_cells wide * length cs \<le> H \<Longrightarrow> y + EFI_GLYPH_HEIGHT \<le> V \<Longrightarrow>
      \<forall>ch \<in> set cs. wide_glyph ch = wide \<Longrightarrow> px < H \<Longrightarrow> py < V \<Longrightarrow>
      pix (l @ [gStringToScreen \<lparr>ImageString = cs, ForegroundColor = fg, BackgroundColor = bg, ImageWidth = H, ImageHeight = V,
          ImageX = x, ImageY = y\<rparr>]) px py =
        (if within x y (EFI_GLYPH_WIDTH * char_cells wide * length cs) EFI_GLYPH_HEIGHT px py
         then string_pixel font wide fg bg cs (px - x) (py - y) else pix l px py)"

begin

lemma screen_cells:
  assumes "on_screen H V d"
  shows "c \<le> Columns d \<Longrightarrow> cell_x d c = cell_x d 0 + c * EFI_GLYPH_WIDTH \<and> cell_x d 0 + c * EFI_GLYPH_WIDTH \<le> H"
    "r \<le> Rows d \<Longrightarrow> cell_y d r = cell_y d 0 + r * EFI_GLYPH_HEIGHT \<and> cell_y d 0 + r * EFI_GLYPH_HEIGHT \<le> V"
  using on_screen_cells(1,3) [OF assms small, of c] on_screen_cells(1) [OF assms small, of 0]
    on_screen_cells(2,4) [OF assms small, of r] on_screen_cells(2) [OF assms small, of 0] by simp_all

lemma pixel_on_screen:
  assumes "on_screen H V d" "r < Rows d" "c < Columns d" "x < EFI_GLYPH_WIDTH" "y < EFI_GLYPH_HEIGHT"
  shows "cell_x d c + x < H" "cell_y d r + y < V"
proof -
  have "cell_x d (Suc c) \<le> H" "cell_y d (Suc r) \<le> V" using screen_cells(1) [OF assms(1), of "Suc c"] screen_cells(2) [OF assms(1), of "Suc r"] assms(2,3) by simp_all
  moreover have "cell_x d (Suc c) = cell_x d c + EFI_GLYPH_WIDTH" "cell_y d (Suc r) = cell_y d r + EFI_GLYPH_HEIGHT"
    using screen_cells(1) [OF assms(1), of "Suc c"] screen_cells(2) [OF assms(1), of "Suc r"]
      screen_cells(1) [OF assms(1), of c] screen_cells(2) [OF assms(1), of r] assms(2,3) by simp_all
  ultimately show "cell_x d c + x < H" "cell_y d r + y < V" using assms(4,5) by linarith+
qed

text \<open>Whether a pixel of one cell is in a rectangle of cells.\<close>

lemma within_cells:
  assumes "on_screen H V d" "r < Rows d" "c < Columns d" "x < EFI_GLYPH_WIDTH" "y < EFI_GLYPH_HEIGHT" "r0 \<le> Rows d" "c0 \<le> Columns d"
  shows "within (cell_x d c0) (cell_y d r0) (n * EFI_GLYPH_WIDTH) (m * EFI_GLYPH_HEIGHT) (cell_x d c + x) (cell_y d r + y)
    \<longleftrightarrow> c0 \<le> c \<and> c < c0 + n \<and> r0 \<le> r \<and> r < r0 + m"
proof -
  have "cell_x d c0 = cell_x d 0 + c0 * EFI_GLYPH_WIDTH" "cell_x d c = cell_x d 0 + c * EFI_GLYPH_WIDTH"
    "cell_y d r0 = cell_y d 0 + r0 * EFI_GLYPH_HEIGHT" "cell_y d r = cell_y d 0 + r * EFI_GLYPH_HEIGHT"
    using assms by (auto intro!: conjunct1 [OF screen_cells(1)] conjunct1 [OF screen_cells(2)])
  then show ?thesis
    unfolding within_def
    using cell_within(1) [OF assms(4), of "cell_x d 0" c0 c] cell_within(2) [OF assms(4), of "cell_x d 0" c c0 n]
      cell_within(1) [OF assms(5), of "cell_y d 0" r0 r] cell_within(2) [OF assms(5), of "cell_y d 0" r r0 m] by simp
qed

lemma shown_quiet: "shown font cur d g (pix l) \<Longrightarrow> quiet c \<Longrightarrow> shown font cur d g (pix (l @ [c]))"
  by (simp add: pix_quiet)

lemma shown_step:
  assumes "on_screen H V d" "shown font cur d g (pix l)"
    and "\<And>r c x y. r < Rows d \<Longrightarrow> c < Columns d \<Longrightarrow> x < EFI_GLYPH_WIDTH \<Longrightarrow> y < EFI_GLYPH_HEIGHT \<Longrightarrow>
      cell_x d c + x < H \<Longrightarrow> cell_y d r + y < V \<Longrightarrow>
      pix l (cell_x d c + x) (cell_y d r + y) = cell_pixel font cur (g r c) x y \<Longrightarrow>
      pix l' (cell_x d c + x) (cell_y d r + y) = cell_pixel font cur (g' r c) x y"
  shows "shown font cur d g' (pix l')"
  unfolding shown_def
proof (intro allI impI)
  fix r c x y
  assume p: "r < Rows d" "c < Columns d" "x < EFI_GLYPH_WIDTH" "y < EFI_GLYPH_HEIGHT"
  show "pix l' (cell_x d c + x) (cell_y d r + y) = cell_pixel font cur (g' r c) x y"
  proof (rule assms(3) [OF p pixel_on_screen [OF assms(1) p]])
    show "pix l (cell_x d c + x) (cell_y d r + y) = cell_pixel font cur (g r c) x y"
      using assms(2) p by (simp only: shown_def)
  qed
qed

lemma shown_put:
  assumes d: "on_screen H V d" and s: "shown font cur d g (pix l)"
    and a: "act_ok (\<lambda>w ch. wide_glyph ch = w) d (Put r c w cs)"
  shows "shown font cur d (put_string fg bg r c w cs g) (pix (l @ [string_call d fg bg r c cs]))"
proof (rule shown_step [OF d s])
  have n: "r < Rows d" "c + char_cells w * length cs \<le> Columns d" "\<forall>ch \<in> set cs. wide_glyph ch = w" using a by (simp_all add: act_ok_def)
  fix r' c' x y
  assume p: "r' < Rows d" "c' < Columns d" "x < EFI_GLYPH_WIDTH" "y < EFI_GLYPH_HEIGHT" "cell_x d c' + x < H" "cell_y d r' + y < V"
    "pix l (cell_x d c' + x) (cell_y d r' + y) = cell_pixel font cur (g r' c') x y"
  let ?n = "char_cells w * length cs"
  have area: "EFI_GLYPH_WIDTH * char_cells w * length cs = ?n * EFI_GLYPH_WIDTH" by simp
  have fits: "cell_x d c + EFI_GLYPH_WIDTH * char_cells w * length cs \<le> H" "cell_y d r + EFI_GLYPH_HEIGHT \<le> V"
  proof -
    have "cell_x d (c + ?n) = cell_x d c + ?n * EFI_GLYPH_WIDTH" "cell_y d (Suc r) = cell_y d r + EFI_GLYPH_HEIGHT"
      using screen_cells(1) [OF d, of "c + ?n"] screen_cells(1) [OF d, of c] screen_cells(2) [OF d, of "Suc r"] screen_cells(2) [OF d, of r] n
      by (simp_all add: add_mult_distrib)
    moreover have "cell_x d (c + ?n) \<le> H" "cell_y d (Suc r) \<le> V"
      using screen_cells(1) [OF d, of "c + ?n"] screen_cells(2) [OF d, of "Suc r"] n by simp_all
    ultimately show "cell_x d c + EFI_GLYPH_WIDTH * char_cells w * length cs \<le> H" "cell_y d r + EFI_GLYPH_HEIGHT \<le> V"
      unfolding area by simp_all
  qed
  have HV: "GopWidth d mod 2 ^ 16 = H" "GopHeight d mod 2 ^ 16 = V" using d small by (simp_all add: on_screen_def)
  have win: "within (cell_x d c) (cell_y d r) (EFI_GLYPH_WIDTH * char_cells w * length cs) EFI_GLYPH_HEIGHT (cell_x d c' + x) (cell_y d r' + y)
      \<longleftrightarrow> c \<le> c' \<and> c' < c + ?n \<and> r' = r"
    unfolding area using within_cells [OF d p(1-4), of r c ?n 1] n by auto
  have pix: "pix (l @ [string_call d fg bg r c cs]) (cell_x d c' + x) (cell_y d r' + y) =
      (if c \<le> c' \<and> c' < c + ?n \<and> r' = r
       then string_pixel font w fg bg cs (cell_x d c' + x - cell_x d c) (cell_y d r' + y - cell_y d r)
       else pix l (cell_x d c' + x) (cell_y d r' + y))"
    unfolding string_call_def HV by (subst pix_string [OF fits n(3) p(5,6)]) (simp only: win)
  show "pix (l @ [string_call d fg bg r c cs]) (cell_x d c' + x) (cell_y d r' + y) =
      cell_pixel font cur (put_string fg bg r c w cs g r' c') x y"
  proof (cases "c \<le> c' \<and> c' < c + ?n \<and> r' = r")
    case True
    have xs: "cell_x d c' + x - cell_x d c = (c' - c) * EFI_GLYPH_WIDTH + x"
      using screen_cells(1) [OF d, of c'] screen_cells(1) [OF d, of c] True p(2) by (simp add: diff_mult_distrib)
    have "(k * EFI_GLYPH_WIDTH + x) div (EFI_GLYPH_WIDTH * char_cells w) = k div char_cells w"
      "(k * EFI_GLYPH_WIDTH + x) mod (EFI_GLYPH_WIDTH * char_cells w) = (k mod char_cells w) * EFI_GLYPH_WIDTH + x" for k
      using p(3) by (simp_all add: div_mult2_eq mod_mult2_eq mult.commute [of "EFI_GLYPH_WIDTH" "char_cells w"] EFI_GLYPH_WIDTH_def)
    then have "string_pixel font w fg bg cs ((c' - c) * EFI_GLYPH_WIDTH + x) y =
        (if font (cs ! ((c' - c) div char_cells w)) ((c' - c) mod char_cells w * EFI_GLYPH_WIDTH + x) y then fg else bg)"
      by (simp add: string_pixel_def Let_def)
    moreover have "pix (l @ [string_call d fg bg r c cs]) (cell_x d c' + x) (cell_y d r' + y) =
        string_pixel font w fg bg cs ((c' - c) * EFI_GLYPH_WIDTH + x) y"
      using pix [unfolded if_P [OF True] xs] True by simp
    ultimately show ?thesis using True by (simp add: put_string_at cell_pixel_def mult.commute)
  next
    case False
    then show ?thesis using p(7) by (auto simp: pix put_string_at mult.commute)
  qed
qed

lemma shown_scroll:
  assumes d: "on_screen H V d" "0 < Columns d" "0 < Rows d" and s: "shown font cur d g (pix l)" and bg: "bg AND 0xffffff = bg"
    and w: "W = wrap (Columns d * EFI_GLYPH_WIDTH)" "h = wrap (wrap (Rows d + 2 ^ 64 - 1) * EFI_GLYPH_HEIGHT)"
  shows "shown font cur d (scroll_grid (Columns d) (Rows d) bg g)
    (pix (l @ [gBlt gEfiGraphicsOutputProtocolGuid (video_scroll (cell_x d 0) (cell_y d 0) W h delta),
               gBlt gEfiGraphicsOutputProtocolGuid (video_fill bg (cell_x d 0) (wrap (cell_y d 0 + h)) W EFI_GLYPH_HEIGHT delta)]))"
proof (rule shown_step [OF d(1) s])
  fix r c x y
  assume p: "r < Rows d" "c < Columns d" "x < EFI_GLYPH_WIDTH" "y < EFI_GLYPH_HEIGHT" "cell_x d c + x < H" "cell_y d r + y < V"
    "pix l (cell_x d c + x) (cell_y d r + y) = cell_pixel font cur (g r c) x y"
  let ?l1 = "l @ [gBlt gEfiGraphicsOutputProtocolGuid (video_scroll (cell_x d 0) (cell_y d 0) W h delta)]"
  let ?X = "cell_x d c + x" and ?Y = "cell_y d r + y"
  have xr: "cell_x d 0 + Columns d * EFI_GLYPH_WIDTH \<le> H" using screen_cells(1) [OF d(1), of "Columns d"] by simp
  have yr: "cell_y d k = cell_y d 0 + k * EFI_GLYPH_HEIGHT \<and> cell_y d k \<le> V" if "k \<le> Rows d" for k
    using screen_cells(2) [OF d(1) that] by simp
  have W: "W = Columns d * EFI_GLYPH_WIDTH" using xr small w(1) by simp
  have R: "wrap (Rows d + 2 ^ 64 - 1) = Rows d - 1"
  proof -
    have "Rows d \<le> Rows d * EFI_GLYPH_HEIGHT" by (simp add: EFI_GLYPH_HEIGHT_def)
    then have "Rows d < 2 ^ 16" using yr [of "Rows d"] small(2) by linarith
    moreover have "Rows d + 2 ^ 64 - 1 = (Rows d - 1) + 2 ^ 64" using d(3) by simp
    ultimately show ?thesis unfolding wrap_def by (simp only: mod_add_self2) simp
  qed
  have last: "cell_y d (Rows d - 1) = cell_y d 0 + (Rows d - 1) * EFI_GLYPH_HEIGHT" "cell_y d (Rows d - 1) + EFI_GLYPH_HEIGHT \<le> V"
  proof -
    obtain k where "Rows d = Suc k" using d(3) by (cases "Rows d") simp_all
    then show "cell_y d (Rows d - 1) = cell_y d 0 + (Rows d - 1) * EFI_GLYPH_HEIGHT" "cell_y d (Rows d - 1) + EFI_GLYPH_HEIGHT \<le> V"
      using yr [of k] yr [of "Suc k"] by simp_all
  qed
  have h: "h = (Rows d - 1) * EFI_GLYPH_HEIGHT" using last small unfolding w(2) R by (intro wrap_small) simp
  have b: "wrap (cell_y d 0 + h) = cell_y d (Rows d - 1)" using last small by (simp add: h)
  have up: "pix ?l1 ?X ?Y = (if Suc r < Rows d then pix l ?X (?Y + EFI_GLYPH_HEIGHT) else pix l ?X ?Y)"
  proof -
    have "within (cell_x d 0) (cell_y d 0) W h ?X ?Y \<longleftrightarrow> r < Rows d - 1"
      unfolding W h using within_cells [OF d(1) p(1-4), of 0 0 "Columns d" "Rows d - 1"] p(2) by simp
    moreover have "cell_y d 0 + EFI_GLYPH_HEIGHT + h \<le> V" using last by (simp add: h)
    ultimately show ?thesis
      using pix_scroll [OF _ _ _ p(5,6), of W "cell_x d 0" "cell_y d 0" h l delta] xr d(2) W by (auto simp: EFI_GLYPH_WIDTH_def)
  qed
  have "within (cell_x d 0) (cell_y d (Rows d - 1)) W EFI_GLYPH_HEIGHT ?X ?Y \<longleftrightarrow> Rows d - 1 \<le> r"
    unfolding W using within_cells [OF d(1) p(1-4), of "Rows d - 1" 0 "Columns d" 1] p(1,2) by auto
  then have "pix (?l1 @ [gBlt gEfiGraphicsOutputProtocolGuid (video_fill bg (cell_x d 0) (wrap (cell_y d 0 + h)) W EFI_GLYPH_HEIGHT delta)]) ?X ?Y =
      (if Rows d - 1 \<le> r then bg else pix ?l1 ?X ?Y)"
    using pix_fill [OF _ _ _ _ bg p(5,6), of W EFI_GLYPH_HEIGHT "cell_x d 0" "cell_y d (Rows d - 1)" ?l1 delta] xr last(2) d(2) W
    by (simp add: b EFI_GLYPH_WIDTH_def EFI_GLYPH_HEIGHT_def)
  moreover have "pix l ?X (?Y + EFI_GLYPH_HEIGHT) = cell_pixel font cur (g (Suc r) c) x y" if "Suc r < Rows d"
  proof -
    have "cell_y d (Suc r) = cell_y d r + EFI_GLYPH_HEIGHT" using yr [of r] yr [of "Suc r"] that by simp
    moreover have "pix l ?X (cell_y d (Suc r) + y) = cell_pixel font cur (g (Suc r) c) x y"
      using s p(2-4) that by (simp add: shown_def)
    ultimately show ?thesis by (simp add: ac_simps)
  qed
  ultimately show "pix (l @ [gBlt gEfiGraphicsOutputProtocolGuid (video_scroll (cell_x d 0) (cell_y d 0) W h delta),
      gBlt gEfiGraphicsOutputProtocolGuid (video_fill bg (cell_x d 0) (wrap (cell_y d 0 + h)) W EFI_GLYPH_HEIGHT delta)]) ?X ?Y =
      cell_pixel font cur (scroll_grid (Columns d) (Rows d) bg g r c) x y"
    using p(1,2) up by (auto simp: scroll_grid_def cell_pixel_def)
qed

lemma shown_toggle:
  assumes d: "on_screen H V d" and s: "shown font fg d g (pix l)" and rc: "r < Rows d" "c \<le> Columns d"
    and rd: "rd = read_glyph (cell_x d c) (cell_y d r) (gc_stack_pixels e)"
  shows "shown font fg d (toggle_cell r c g)
    (pix (l @ [gBlt gEfiGraphicsOutputProtocolGuid rd,
               gBlt gEfiGraphicsOutputProtocolGuid (write_glyph (cell_x d c) (cell_y d r)
                 (toggle_glyph fg (snd (gc_Blt e l gEfiGraphicsOutputProtocolGuid rd))))]))"
proof (rule shown_step [OF d s])
  fix r' c' x y
  assume p: "r' < Rows d" "c' < Columns d" "x < EFI_GLYPH_WIDTH" "y < EFI_GLYPH_HEIGHT" "cell_x d c' + x < H" "cell_y d r' + y < V"
    "pix l (cell_x d c' + x) (cell_y d r' + y) = cell_pixel font fg (g r' c') x y"
  let ?bs = "snd (gc_Blt e l gEfiGraphicsOutputProtocolGuid rd)"
  let ?l1 = "l @ [gBlt gEfiGraphicsOutputProtocolGuid rd]"
  let ?X = "cell_x d c' + x" and ?Y = "cell_y d r' + y"
  have len: "length ?bs = EFI_GLYPH_WIDTH * EFI_GLYPH_HEIGHT" unfolding rd by (rule glyph_length)
  have xy: "cell_x d c < 2 ^ 32" "cell_y d r < 2 ^ 32"
    using screen_cells(1) [OF d rc(2)] screen_cells(2) [OF d, of r] rc(1) small by simp_all
  have keep: "pix ?l1 ?X ?Y = pix l ?X ?Y" unfolding rd by (rule pix_read_keeps [OF xy p(5,6)])
  have win: "within (cell_x d c) (cell_y d r) EFI_GLYPH_WIDTH EFI_GLYPH_HEIGHT ?X ?Y \<longleftrightarrow> c' = c \<and> r' = r"
    using within_cells [OF d p(1-4), of r c 1 1] rc by auto
  have yr: "cell_y d r + EFI_GLYPH_HEIGHT \<le> V" using screen_cells(2) [OF d, of "Suc r"] screen_cells(2) [OF d, of r] rc by simp
  have xr: "cell_x d c + EFI_GLYPH_WIDTH \<le> H" if "c < Columns d"
    using screen_cells(1) [OF d, of "Suc c"] screen_cells(1) [OF d, of c] that by simp
  have new: "pix (?l1 @ [gBlt gEfiGraphicsOutputProtocolGuid (write_glyph (cell_x d c) (cell_y d r) (toggle_glyph fg ?bs))]) ?X ?Y =
      (if c' = c \<and> r' = r then toggle_glyph fg ?bs ! (y * EFI_GLYPH_WIDTH + x) else pix l ?X ?Y)"
  proof (cases "c' = c \<and> r' = r")
    case True
    have "length (toggle_glyph fg ?bs) = EFI_GLYPH_WIDTH * EFI_GLYPH_HEIGHT" by (rule toggle_glyph_at(2) [OF len p(3,4)])
    from pix_write [OF xy this p(5,6), of ?l1] show ?thesis using True win yr xr p(2) by simp
  next
    case False
    have "length (toggle_glyph fg ?bs) = EFI_GLYPH_WIDTH * EFI_GLYPH_HEIGHT" by (rule toggle_glyph_at(2) [OF len p(3,4)])
    from pix_write [OF xy this p(5,6), of ?l1] show ?thesis unfolding win keep if_not_P [OF False] using False by auto
  qed
  have "toggle_glyph fg ?bs ! (y * EFI_GLYPH_WIDTH + x) = cell_pixel font fg (g r c) x y XOR (if cursor_pixel x y then fg else 0)" if "c' = c \<and> r' = r"
    using toggle_glyph_at(1) [OF len p(3,4), of fg] pix_read [OF xr yr p(3,4), of l, folded rd] p(2,7) that by simp
  moreover have "cell_pixel font fg (fst z, \<not> snd z) x y = cell_pixel font fg z x y XOR (if cursor_pixel x y then fg else 0)" for z
    by (cases z) (simp add: cell_pixel_def xor.assoc)
  ultimately show "pix (l @ [gBlt gEfiGraphicsOutputProtocolGuid rd,
      gBlt gEfiGraphicsOutputProtocolGuid (write_glyph (cell_x d c) (cell_y d r) (toggle_glyph fg ?bs))]) ?X ?Y =
      cell_pixel font fg (toggle_cell r c g r' c') x y"
    using new p(7) by (auto simp: toggle_cell_def set_cell_def)
qed

lemma performs_shown:
  assumes "performs e d fg bg A l l'" "on_screen H V d" "0 < Columns d" "0 < Rows d" "bg AND 0xffffff = bg"
    and "\<And>a. a \<in> set A \<Longrightarrow> act_ok (\<lambda>w ch. wide_glyph ch = w) d a" "shown font fg d g (pix l)"
  shows "shown font fg d (paint (Columns d) (Rows d) fg bg A g) (pix l')"
  using assms(1,6,7)
proof (induction arbitrary: g rule: performs.induct)
  case (performs_put A l l' r c w cs)
  then show ?case using shown_put [OF assms(2), of fg _ l' r c w cs fg bg] by (simp add: performs_put.IH)
next
  case (performs_scroll A l l' W h)
  then show ?case
    using shown_scroll [OF assms(2-4) _ assms(5) performs_scroll.hyps(2,3), of fg _ l'] by (simp add: performs_scroll.IH)
next
  case (performs_toggle A l l' rd c r)
  have "r < Rows d" "c \<le> Columns d" using performs_toggle.prems(1) [of "Toggle r c"] by (simp_all add: act_ok_def)
  then show ?case
    using shown_toggle [OF assms(2) performs_toggle.IH _ _ performs_toggle.hyps(2)] performs_toggle.prems by simp
qed (simp_all add: shown_quiet)

text \<open>The output of a string: the cells of the terminal, with the cursor at its place if it is visible.\<close>

lemma output_shown:
  assumes on: "on_mode d fg bg s" and at: "cursor_at s c r w" and c: "c < Columns d" and r: "r < Rows d"
    and d: "on_screen H V d" and bg: "bg AND 0xffffff = bg" and e: "pool_ok e" "GraphicsOutput (gcDev s)"
    and W: "\<not> wide_glyph 0x20" "widths_ok (\<lambda>w ch. wide_glyph ch = w) w WString"
    and g: "shown font fg d (tog (CursorVisible (text_mode s)) r c g) (pix (gcLog s))"
  shows "\<exists>st s' c' r' w' g'. GraphicsConsoleConOutOutputString e WString s = Some (st, s') \<and>
    gcDev s' = gcDev (move_to (int c') (int r') s) \<and>
    tty_string (Columns d) (Rows d) fg bg WString (c, r, w, g) = (c', r', w', g') \<and>
    shown font fg d (tog (CursorVisible (text_mode s)) r' c' g') (pix (gcLog s'))"
proof -
  let ?v = "CursorVisible (text_mode s)" and ?P = "\<lambda>w ch. wide_glyph ch = w"
  have P: "?P False 0x20" using W(1) by simp
  obtain st s' c' r' A where o: "GraphicsConsoleConOutOutputString e WString s = Some (st, s')"
      "gcDev s' = gcDev (move_to (int c') (int r') s)"
    and t: "\<forall>g. \<exists>w' g'. tty_string (Columns d) (Rows d) fg bg WString (c, r, w, tog ?v r c g) = (c', r', w', g') \<and>
        paint (Columns d) (Rows d) fg bg A g = tog ?v r' c' g'"
    and A: "\<forall>a \<in> set A. act_ok ?P d a" and p: "performs e d fg bg A (gcLog s) (gcLog s')"
    by (rule output_terminal [OF on at c r, of ?P WString e, OF P W(2)]) (use e in blast)
  obtain w' g' where g': "tty_string (Columns d) (Rows d) fg bg WString (c, r, w, g) = (c', r', w', g')"
      "paint (Columns d) (Rows d) fg bg A (tog ?v r c g) = tog ?v r' c' g'"
    using t [rule_format, of "tog ?v r c g"] by auto
  have "shown font fg d (tog ?v r' c' g') (pix (gcLog s'))"
    using performs_shown [OF p d _ _ bg _ g] A c r g'(2) by simp
  then show ?thesis using o g'(1) by blast
qed

text \<open>A cleared screen: blank cells, with the cursor at the home position if it is visible.\<close>

lemma clear_shown:
  assumes on: "on_mode d fg bg s" and d: "on_screen H V d" and bg: "bg AND 0xffffff = bg" and e: "pool_ok e" "GraphicsOutput (gcDev s)"
    and w: "is_wide (text_mode s) = w"
  shows "shown font fg d (tog (CursorVisible (text_mode s)) 0 0 (\<lambda>_ _. (Blank bg, False))) (pix (gcLog (snd (GraphicsConsoleConOutClearScreen e s))))"
proof -
  note b = on_mode_bounds [OF on]
  obtain tpl s1 where s1: "gRaise e s = (tpl, s1)" by force
  have emit: "s1 = gemit (gRaiseTPL TPL_NOTIFY tpl) s" using s1 by (auto simp: gRaise_def Let_def)
  let ?fill = "gBlt gEfiGraphicsOutputProtocolGuid (video_fill bg 0 0 (GopWidth d) (GopHeight d) 0)"
  let ?s2 = "move_to 0 0 (gemit ?fill s1)"
  have q: "quiet (gRestoreTPL tpl)" by (simp add: quiet_def)
  have md: "mode_data s1 = d" "text_mode s1 = text_mode s" "GetTextColors (text_mode s) = (fg, bg)" "CurMode (text_mode s) \<noteq> - 1"
    using on by (simp_all add: emit on_mode_def)
  have "snd (GraphicsConsoleConOutClearScreen e s) = gemit (gRestoreTPL tpl) (FlushCursor e ?s2)"
    using md e(2) by (simp add: GraphicsConsoleConOutClearScreen_def s1 Let_def screen_blt_def emit)
  then have log: "gcLog (snd (GraphicsConsoleConOutClearScreen e s)) = gcLog (FlushCursor e ?s2) @ [gRestoreTPL tpl]" by simp
  have HV: "GopWidth d = H" "GopHeight d = V" using d by (simp_all add: on_screen_def)
  have pos: "0 < H" "0 < V" using d b by (auto simp: on_screen_def EFI_GLYPH_WIDTH_def EFI_GLYPH_HEIGHT_def)
  have "shown font fg d (\<lambda>_ _. (Blank bg, False)) (pix (gcLog s1 @ [?fill]))"
    unfolding shown_def
  proof (intro allI impI)
    fix r c x y
    assume p: "r < Rows d" "c < Columns d" "x < EFI_GLYPH_WIDTH" "y < EFI_GLYPH_HEIGHT"
    note o = pixel_on_screen [OF d p]
    show "pix (gcLog s1 @ [?fill]) (cell_x d c + x) (cell_y d r + y) = cell_pixel font fg (Blank bg, False) x y"
      unfolding HV using pix_fill [of H V 0 0 bg "cell_x d c + x" "cell_y d r + y" "gcLog s1" 0] pos bg o
      by (simp add: within_def cell_pixel_def)
  qed
  then have blank: "shown font fg d (\<lambda>_ _. (Blank bg, False)) (pix (gcLog ?s2))" by (simp add: move_to_def)
  have at: "cursor_at ?s2 0 0 w" using w md(2) by (simp add: cursor_at_def is_wide_def)
  have "outline (gemit ?fill s1) = outline s" by (rule outline_dev) (simp add: emit)
  then have on2: "on_mode d fg bg ?s2" using on_mode_outline [of ?s2 s] on by simp
  have near: "0 \<le> Columns d" "0 < Rows d" using b by simp_all
  let ?v = "CursorVisible (text_mode s)" and ?P = "\<lambda>w ch. wide_glyph ch = w"
  have v: "CursorVisible (text_mode ?s2) = ?v" using md(2) by simp
  have gop: "GraphicsOutput (gcDev ?s2)" using e(2) by (simp add: emit move_to_def)
  obtain A where A: "\<forall>a \<in> set A. act_ok ?P d a" "\<forall>g. tog ?v 0 0 g = paint (Columns d) (Rows d) fg bg A g"
      "performs e d fg bg A (gcLog ?s2) (gcLog (FlushCursor e ?s2))"
    using outcome_flush [OF at on2 near, of e ?P] e(1) gop unfolding outcome_def v by auto
  have "shown font fg d (paint (Columns d) (Rows d) fg bg A (\<lambda>_ _. (Blank bg, False))) (pix (gcLog (FlushCursor e ?s2)))"
    using performs_shown [OF A(3) d _ _ bg _ blank] A(1) b by simp
  then show ?thesis using A(2) by (simp add: log pix_quiet [OF q])
qed

end

end
