(* ===== verification/DisplayPixels.thy ===== *)
theory DisplayPixels
  imports FrameBufferBltCorrect SimpleFb TextScreen
begin

text \<open>
  The simple frame buffer driver as a screen: pixels are the 32-bit words of the frame buffer, and the
  transfers of \<open>FrameBufferBlt\<close> act on them rectangle by rectangle.  Over a font that draws its glyphs,
  the driver keeps the contract \<open>text_screen\<close> of the graphics console.
\<close>

section \<open>Pixels\<close>

definition video_pixel :: "FRAME_BUFFER_CONFIGURE \<Rightarrow> mem \<Rightarrow> nat \<Rightarrow> nat \<Rightarrow> u32" where
  "video_pixel c m x y = read32 m (row_base c x y)"

text \<open>The configuration of a panel: 32-bit blue-green-red pixels without padding, the frame buffer below the top
  of the address space and apart from the line buffer.\<close>

definition panel :: "FRAME_BUFFER_CONFIGURE \<Rightarrow> bool" where
  "panel c \<longleftrightarrow> surface c \<and> BytesPerPixel c = 4 \<and> PixelFormat c = PixelBlueGreenRedReserved8BitPerColor \<and>
     PixelMasks c = mBgrPixelMasks \<and> PixelShl c = [0, 0, 0] \<and> PixelShr c = [0, 0, 0] \<and>
     PixelsPerScanLine c = Width c \<and> 1 < Width c \<and> Width c < 2 ^ 16 \<and> Height c < 2 ^ 16"

lemma panelD:
  assumes "panel c"
  shows "surface c" "BytesPerPixel c = 4" "PixelFormat c = PixelBlueGreenRedReserved8BitPerColor"
    "PixelsPerScanLine c = Width c" "Width c < 2 ^ 16" "Height c < 2 ^ 16" "1 < Width c"
  using assms by (simp_all add: panel_def)

text \<open>The bytes of a stretch of memory apart from the frame buffer and the line buffer.\<close>

definition apart :: "FRAME_BUFFER_CONFIGURE \<Rightarrow> nat \<Rightarrow> nat \<Rightarrow> bool" where
  "apart c B n \<longleftrightarrow> B + n < 2 ^ 64 \<and> (B + n \<le> FrameBuffer c \<or> FrameBuffer c + 4 * (Height c * Width c) \<le> B)"

lemma pixel_byte:
  assumes c: "panel c" and p: "px < Width c" "py < Height c" "k < 4"
  shows "in_rect c x y W H (row_base c px py + k) \<longleftrightarrow> within x y W H px py"
    "byte_row c (row_base c px py + k) = py" "(row_base c px py + k - FrameBuffer c) mod 4 = k"
    "FrameBuffer c \<le> row_base c px py + k" "row_base c px py + k < FrameBuffer c + 4 * (Height c * Width c)"
    "w \<le> Width c \<Longrightarrow> \<not> in_line_buffer c w (row_base c px py + k)"
proof -
  note P = panelD [OF c]
  define q where "q = py * Width c + px"
  have "row_base c px py + k - FrameBuffer c = 4 * q + k" by (simp add: row_base_def P q_def)
  then have d: "(row_base c px py + k - FrameBuffer c) div 4 = py * Width c + px"
      "(row_base c px py + k - FrameBuffer c) mod 4 = k" using p(3) by (simp_all add: q_def [symmetric])
  then show "(row_base c px py + k - FrameBuffer c) mod 4 = k" by simp
  have xy: "(py * Width c + px) div Width c = py" "(py * Width c + px) mod Width c = px" using p(1) by simp_all
  show "FrameBuffer c \<le> row_base c px py + k" by (simp add: row_base_def)
  then show "in_rect c x y W H (row_base c px py + k) \<longleftrightarrow> within x y W H px py"
    using p(1) by (auto simp: in_rect_def P d xy Let_def within_def)
  show "byte_row c (row_base c px py + k) = py" by (simp add: byte_row_def P d xy)
  have "py * Width c + px + 1 \<le> Suc py * Width c" using p(1) by simp
  also have "\<dots> \<le> Height c * Width c" using p(2) by (intro mult_le_mono1) simp
  finally show top: "row_base c px py + k < FrameBuffer c + 4 * (Height c * Width c)" using p(3) by (simp add: row_base_def P)
  show "w \<le> Width c \<Longrightarrow> \<not> in_line_buffer c w (row_base c px py + k)"
    using P(1) top by (auto simp: surface_def in_line_buffer_def P(2,4) row_base_def)
qed

lemma video_pixel_eqI:
  "(\<And>k. k < 4 \<Longrightarrow> m (row_base c px py + k) = byte_of v k) \<Longrightarrow> video_pixel c m px py = v"
  unfolding video_pixel_def by (rule read32_eqI)

lemma byte_of_pixel: "k < 4 \<Longrightarrow> byte_of (video_pixel c m px py) k = m (row_base c px py + k)"
  by (simp add: video_pixel_def byte_of_read32)

lemma video_pixel_cong:
  assumes "panel c" "px < Width c" "py < Height c"
    and "\<And>a. FrameBuffer c \<le> a \<Longrightarrow> a < FrameBuffer c + 4 * (Height c * Width c) \<Longrightarrow> m' a = m a"
  shows "video_pixel c m' px py = video_pixel c m px py"
  using assms(4) pixel_byte(4,5) [OF assms(1-3)] by (intro video_pixel_eqI) (simp add: byte_of_pixel)

section \<open>The caller's buffer\<close>

definition place :: "nat \<Rightarrow> u32 list \<Rightarrow> mem \<Rightarrow> mem" where
  "place B bs m = store_bytes B (concat (map bytes32 bs)) m"

definition pixels_at :: "nat \<Rightarrow> nat \<Rightarrow> mem \<Rightarrow> u32 list" where
  "pixels_at B n m = map (\<lambda>i. read32 m (B + 4 * i)) [0..<n]"

lemma length_concat_bytes: "length (concat (map bytes32 bs)) = 4 * length bs"
  by (induction bs) simp_all

lemma nth_concat_bytes: "i < length bs \<Longrightarrow> k < 4 \<Longrightarrow> concat (map bytes32 bs) ! (4 * i + k) = byte_of (bs ! i) k"
proof (induction bs arbitrary: i)
  case (Cons b bs)
  then show ?case by (cases i) (simp_all add: nth_append)
qed simp

lemma place_at:
  "i < length bs \<Longrightarrow> k < 4 \<Longrightarrow> place B bs m (B + (4 * i + k)) = byte_of (bs ! i) k"
  by (simp add: place_def store_bytes_at length_concat_bytes nth_concat_bytes)

lemma place_out: "a < B \<or> B + 4 * length bs \<le> a \<Longrightarrow> place B bs m a = m a"
  by (auto simp: place_def store_bytes_at length_concat_bytes)

lemma video_pixel_place:
  assumes "panel c" "px < Width c" "py < Height c" "apart c B (4 * length bs)"
  shows "video_pixel c (place B bs m) px py = video_pixel c m px py"
  by (rule video_pixel_cong [OF assms(1-3)]) (use assms(4) in \<open>auto simp: apart_def intro!: place_out\<close>)

section \<open>The transfers\<close>

lemma blt_to_video_panel: "panel c \<Longrightarrow> v AND 0xffffff = v \<Longrightarrow> blt_to_video c v = v"
proof -
  assume c: "panel c" and v: "v AND 0xffffff = v"
  have "blt_to_video c v = v AND 0xff0000 OR v AND 0xff00 OR v AND 0xff"
    using c by (simp add: panel_def blt_to_video_def mBgrPixelMasks_def or.assoc)
  moreover have "v AND 0xff0000 OR v AND 0xff00 OR v AND 0xff = v AND 0xffffff"
    unfolding low_bytes byte_masks by (simp only: ac_simps)
  ultimately show ?thesis using v by simp
qed

lemma fill_pixels:
  assumes c: "panel c" and r: "x + W \<le> Width c" "y + H \<le> Height c" "0 < W" "0 < H"
    and v: "read32 m B AND 0xffffff = read32 m B" and p: "px < Width c" "py < Height c"
  shows "video_pixel c (snd (FrameBufferBltLibVideoFill c B x y W H m)) px py =
    (if within x y W H px py then read32 m B else video_pixel c m px py)"
proof -
  note P = panelD [OF c]
  have tail: "whole_words (BytesPerPixel c) (W * BytesPerPixel c * H)" if "W = PixelsPerScanLine c"
  proof -
    have "2 * 1 \<le> W * H" using that P(4,7) r(4) by (intro mult_le_mono) simp_all
    then show ?thesis by (simp add: whole_words_def P mult.commute)
  qed
  obtain m' where m': "FrameBufferBltLibVideoFill c B x y W H m = (EFI_SUCCESS, m')"
    and at: "\<forall>a. \<not> in_line_buffer c W a \<longrightarrow> m' a = (if in_rect c x y W H a
        then byte_of (blt_to_video c (read32 m B)) ((a - FrameBuffer c) mod BytesPerPixel c) else m a)"
    using fill_exact [OF P(1) r tail] by blast
  have W: "W \<le> Width c" using r(1) by simp
  have "video_pixel c m' px py = (if within x y W H px py then read32 m B else video_pixel c m px py)"
  proof (rule video_pixel_eqI)
    fix k :: nat assume k: "k < 4"
    note b = pixel_byte [OF c p k]
    show "m' (row_base c px py + k) = byte_of (if within x y W H px py then read32 m B else video_pixel c m px py) k"
      using at [rule_format, OF b(6) [OF W]] by (simp add: b(1,3) P(2) blt_to_video_panel [OF c v] byte_of_pixel k)
  qed
  then show ?thesis by (simp add: m')
qed

lemma refused_fill:
  "Height c < y + H \<or> Width c < x + W \<Longrightarrow> y + H < 2 ^ 64 \<Longrightarrow> x + W < 2 ^ 64 \<Longrightarrow>
   snd (FrameBufferBltLibVideoFill c B x y W H m) = m"
  by (auto simp: FrameBufferBltLibVideoFill_def)

lemma scroll_pixels:
  assumes c: "panel c" and r: "x + W \<le> Width c" "y + d + H \<le> Height c" and p: "px < Width c" "py < Height c"
  shows "video_pixel c (snd (FrameBufferBltLibVideoToVideo c x (y + d) x y W H m)) px py =
    (if within x y W H px py then video_pixel c m px (py + d) else video_pixel c m px py)"
proof (cases "W = 0 \<or> H = 0")
  case True
  then show ?thesis by (auto simp: FrameBufferBltLibVideoToVideo_def within_def)
next
  case False
  note P = panelD [OF c]
  have n: "0 < W" "0 < H" using False by simp_all
  have "BytesPerPixel c * PixelsPerScanLine c < 2 ^ 32" using P(2,4,5) by simp
  moreover have le: "row_base c x y \<le> row_base c x (y + d)" by (simp add: row_base_def)
  moreover have "y + H \<le> Height c" using r(2) by simp
  ultimately obtain m' where m': "FrameBufferBltLibVideoToVideo c x (y + d) x y W H m = (EFI_SUCCESS, m')"
    and at: "\<forall>a. m' a = (if in_rect c x y W H a then m (row_base c x (y + d) + (a - row_base c x y)) else m a)"
    using scroll_up_exact [OF P(1) _ r(1,2) r(1) _ n, of y m] by blast
  have "video_pixel c m' px py = (if within x y W H px py then video_pixel c m px (py + d) else video_pixel c m px py)"
  proof (rule video_pixel_eqI)
    fix k :: nat assume k: "k < 4"
    note b = pixel_byte [OF c p k]
    have "row_base c x (y + d) + (row_base c px py + k - row_base c x y) = row_base c px (py + d) + k" if "within x y W H px py"
    proof -
      have "y * Width c + x \<le> py * Width c + px" using that by (intro add_mono mult_le_mono1) (simp_all add: within_def)
      then show ?thesis by (simp add: row_base_def P(2,4) algebra_simps)
    qed
    then show "m' (row_base c px py + k) = byte_of (if within x y W H px py then video_pixel c m px (py + d) else video_pixel c m px py) k"
      by (simp add: at b(1) byte_of_pixel k)
  qed
  then show ?thesis by (simp add: m')
qed

lemma write_pixels:
  assumes c: "panel c" and B: "apart c B (4 * (W * H))" and n: "0 < W" "0 < H" "length bs = W * H"
    and small: "x < 2 ^ 32" "y < 2 ^ 32" "W < 2 ^ 32" "H < 2 ^ 32" and p: "px < Width c" "py < Height c"
  shows "video_pixel c (snd (FrameBufferBltLibBufferToVideo c B 0 0 x y W H (W * 4) (place B bs m))) px py =
    (if x + W \<le> Width c \<and> y + H \<le> Height c \<and> within x y W H px py then bs ! ((py - y) * W + (px - x)) else video_pixel c m px py)"
proof (cases "x + W \<le> Width c \<and> y + H \<le> Height c")
  case False
  then have "snd (FrameBufferBltLibBufferToVideo c B 0 0 x y W H (W * 4) (place B bs m)) = place B bs m"
    using small by (auto simp: FrameBufferBltLibBufferToVideo_def)
  then show ?thesis using False video_pixel_place [OF c p, of B bs m] B by (auto simp: n(3))
next
  case True
  note P = panelD [OF c]
  have D: "real_delta (W * 4) W = W * 4" using n(1) by (simp add: real_delta_def)
  have top: "B + (0 + H) * (W * 4) < 2 ^ 64" and apart: "if FrameBuffer c + BytesPerPixel c * (Height c * PixelsPerScanLine c) \<le> B then True
      else B + (0 + H) * (W * 4) \<le> FrameBuffer c"
    using B by (auto simp: apart_def P(2,4) ac_simps)
  obtain m' where m': "FrameBufferBltLibBufferToVideo c B 0 0 x y W H (W * 4) (place B bs m) = (EFI_SUCCESS, m')"
    and at: "\<forall>a. m' a = (if in_rect c x y W H a
      then place B bs m (B + (0 + (byte_row c a - y)) * (W * 4) + (a - row_base c x (byte_row c a))) else place B bs m a)"
    using buffer_to_video_bgr [OF P(1,3,2) True [THEN conjunct1] True [THEN conjunct2] n(1,2), of "W * 4" B 0] top apart small(4)
    unfolding D by fastforce
  have "video_pixel c m' px py = (if within x y W H px py then bs ! ((py - y) * W + (px - x)) else video_pixel c m px py)"
  proof (rule video_pixel_eqI)
    fix k :: nat assume k: "k < 4"
    note b = pixel_byte [OF c p k]
    let ?i = "(py - y) * W + (px - x)"
    have "place B bs m (B + (py - y) * (W * 4) + (row_base c px py + k - row_base c x py)) = byte_of (bs ! ?i) k" if w: "within x y W H px py"
    proof -
      have "row_base c px py + k - row_base c x py = 4 * (px - x) + k" using w by (simp add: row_base_def P within_def diff_mult_distrib2)
      moreover have "Suc (py - y) * W \<le> H * W" using w by (intro mult_le_mono1) (auto simp: within_def)
      then have "(py - y) * W + W \<le> length bs" by (simp add: n(3) mult.commute)
      moreover have "px - x < W" using w by (auto simp: within_def)
      ultimately have "?i < length bs" "row_base c px py + k - row_base c x py = 4 * (px - x) + k" by linarith+
      then show ?thesis using place_at [of ?i bs k B m] k by (simp add: algebra_simps)
    qed
    moreover have "place B bs m (row_base c px py + k) = m (row_base c px py + k)"
      using b(4,5) B n(3) by (intro place_out) (auto simp: apart_def)
    ultimately show "m' (row_base c px py + k) = byte_of (if within x y W H px py then bs ! ?i else video_pixel c m px py) k"
      by (simp add: at b(1,2) byte_of_pixel k)
  qed
  then show ?thesis using True by (simp add: m')
qed

lemma read_rows_at:
  assumes c: "panel c" and src: "x + W \<le> Width c" "0 < W"
  shows "y + H \<le> Height c \<Longrightarrow> apart c B (4 * (W * H)) \<Longrightarrow>
    fold (\<lambda>i. read_row c B x 0 W (W * 4) (wrap (y + i), i)) [0..<H] m a =
    (if B \<le> a \<and> a < B + H * (W * 4) then m (row_base c x (y + (a - B) div (W * 4)) + (a - B) mod (W * 4)) else m a)"
proof (induction H arbitrary: a)
  case (Suc H)
  note P = panelD [OF c]
  let ?D = "W * 4"
  let ?m1 = "fold (\<lambda>i. read_row c B x 0 W ?D (wrap (y + i), i)) [0..<H] m"
  have ap: "apart c B (4 * (W * H))" using Suc.prems(2) by (auto simp: apart_def)
  have le: "y + H \<le> Height c" using Suc.prems(1) by simp
  note ih = Suc.IH [OF le ap]
  have lt: "y + H < Height c" using Suc.prems(1) by simp
  note s = surface_row [OF P(1) src(1) lt]
  have "wrap (y + H) = y + H" using lt P(6) by (intro wrap_small) simp
  moreover have "blt_address B ?D 0 H = B + H * ?D" using Suc.prems(2) by (auto simp: blt_address_def apart_def ac_simps intro!: wrap_small)
  ultimately have step: "fold (\<lambda>i. read_row c B x 0 W ?D (wrap (y + i), i)) [0..<Suc H] m =
      CopyMem (B + H * ?D) (row_base c x (y + H)) ?D ?m1"
    using s(1,2) by (simp add: read_row_def Let_def P(2,3))
  show ?case
  proof (cases "B + H * ?D \<le> a \<and> a < B + H * ?D + ?D")
    case True
    define j where "j = a - (B + H * ?D)"
    have j: "j < ?D" "a - B = j + H * ?D" using True by (auto simp: j_def)
    then have dm: "(a - B) div ?D = H" "(a - B) mod ?D = j" by simp_all
    let ?b = "row_base c x (y + H) + j"
    have "FrameBuffer c \<le> ?b" by (simp add: row_base_def)
    moreover have "?b < FrameBuffer c + 4 * (Height c * Width c)"
      using surface_bounds [OF P(1) src(1) lt] j(1) by (simp add: row_base_def P(2,4))
    ultimately have "?m1 ?b = m ?b" unfolding ih using ap by (auto simp: apart_def ac_simps)
    then show ?thesis unfolding step using True by (simp add: CopyMem_at dm j_def)
  next
    case False
    then have "CopyMem (B + H * ?D) (row_base c x (y + H)) ?D ?m1 a = ?m1 a" unfolding CopyMem_at by (rule if_not_P)
    moreover have "B + Suc H * ?D = B + H * ?D + ?D" by simp
    ultimately show ?thesis unfolding step ih using False by auto
  qed
qed auto

lemma read_pixels:
  fixes m :: mem
  assumes c: "panel c" and B: "apart c B (4 * (W * H))" and n: "0 < W" "0 < H"
    and small: "x < 2 ^ 32" "y < 2 ^ 32" "W < 2 ^ 32" "H < 2 ^ 32"
  defines "m' \<equiv> snd (FrameBufferBltLibVideoToBltBuffer c B x y 0 0 W H (W * 4) m)"
  shows "px < Width c \<Longrightarrow> py < Height c \<Longrightarrow> video_pixel c m' px py = video_pixel c m px py"
    "x + W \<le> Width c \<Longrightarrow> y + H \<le> Height c \<Longrightarrow> dx < W \<Longrightarrow> dy < H \<Longrightarrow>
      read32 m' (B + 4 * (dy * W + dx)) = video_pixel c m (x + dx) (y + dy)"
proof -
  note P = panelD [OF c]
  have D: "real_delta (W * 4) W = W * 4" using n(1) by (simp add: real_delta_def)
  have wH: "wrap (H + 0) - 0 = H" using small(4) by simp
  have ok: "m' a = (if B \<le> a \<and> a < B + H * (W * 4) then m (row_base c x (y + (a - B) div (W * 4)) + (a - B) mod (W * 4)) else m a)"
    if "x + W \<le> Width c" "y + H \<le> Height c" for a
  proof -
    have g: "\<not> Height c < wrap (y + H)" "\<not> Width c < wrap (x + W)" using fill_guards [OF P(1) that n] by simp_all
    have "m' = fold (\<lambda>i. read_row c B x 0 W (W * 4) (wrap (y + i), i)) [0..<H] m"
      using g n by (simp add: m'_def FrameBufferBltLibVideoToBltBuffer_def D wH [simplified])
    then show ?thesis using read_rows_at [OF c that(1) n(1) that(2) B] by simp
  qed
  have bad: "m' = m" if "\<not> (x + W \<le> Width c \<and> y + H \<le> Height c)"
    using that small by (auto simp: m'_def FrameBufferBltLibVideoToBltBuffer_def)
  show "video_pixel c m' px py = video_pixel c m px py" if "px < Width c" "py < Height c"
  proof (rule video_pixel_cong [OF c that])
    fix a assume "FrameBuffer c \<le> a" "a < FrameBuffer c + 4 * (Height c * Width c)"
    then show "m' a = m a" using B ok [of a] bad
      by (cases "x + W \<le> Width c \<and> y + H \<le> Height c") (auto simp: apart_def ac_simps)
  qed
  show "read32 m' (B + 4 * (dy * W + dx)) = video_pixel c m (x + dx) (y + dy)"
    if "x + W \<le> Width c" "y + H \<le> Height c" "dx < W" "dy < H"
  proof (rule read32_eqI)
    fix k :: nat assume k: "k < 4"
    let ?a = "B + 4 * (dy * W + dx) + k"
    have off: "?a - B = (4 * dx + k) + dy * (W * 4)" "4 * dx + k < W * 4" using that(3) k by simp_all
    have "(j + dy * D) div D = dy" "(j + dy * D) mod D = j" if "j < D" for j D using that by simp_all
    note dm = this [OF off(2), folded off(1)]
    have "Suc dy * (W * 4) \<le> H * (W * 4)" using that(4) by (intro mult_le_mono1) simp
    then have "?a < B + H * (W * 4)" using off(2) by simp
    then have "m' ?a = m (row_base c x (y + dy) + (4 * dx + k))" using ok [OF that(1,2), of ?a] unfolding dm by simp
    then show "m' ?a = byte_of (video_pixel c m (x + dx) (y + dy)) k"
      by (simp add: byte_of_pixel k row_base_def P(2) algebra_simps)
  qed
qed

end
