(* ===== verification/DisplayConsole.thy ===== *)
theory DisplayConsole
  imports DisplayPixels GraphicsConsoleCorrect
begin

text \<open>
  The graphics console on the simple frame buffer driver: the console's transfers are carried out by
  \<open>DisplayBlt\<close> on a memory, with the caller's pixels in a buffer of that memory, and what is on the screen is a
  function of the memory.
\<close>

section \<open>The console over the driver\<close>

type_synonym string_drawer = "string_args \<Rightarrow> mem \<Rightarrow> mem"

text \<open>A transfer of the console through the driver, from or to a buffer at \<open>B\<close>.\<close>

definition console_blt :: "display \<Rightarrow> nat \<Rightarrow> blt_args \<Rightarrow> mem \<Rightarrow> efi_status \<times> mem" where
  "console_blt dp B a m =
     DisplayBlt dp B (BltOperation a) (SrcX a) (SrcY a) (DstX a) (DstY a) (BltW a) (BltH a) (BltDelta a) (place B (BltBuffer a) m)"

definition screen_call :: "display \<Rightarrow> nat \<Rightarrow> string_drawer \<Rightarrow> gc_call \<Rightarrow> mem \<Rightarrow> mem" where
  "screen_call dp B draw c m =
     (case c of gBlt g a \<Rightarrow> if g = gEfiGraphicsOutputProtocolGuid then snd (console_blt dp B a m) else m
      | gStringToScreen a \<Rightarrow> draw a m
      | _ \<Rightarrow> m)"

definition screen_mem :: "display \<Rightarrow> nat \<Rightarrow> string_drawer \<Rightarrow> mem \<Rightarrow> gc_log \<Rightarrow> mem" where
  "screen_mem dp B draw m l = fold (screen_call dp B draw) l m"

text \<open>The environment whose graphics output is the driver.\<close>

definition over_display :: "gc_env \<Rightarrow> display \<Rightarrow> nat \<Rightarrow> string_drawer \<Rightarrow> mem \<Rightarrow> gc_env" where
  "over_display e dp B draw m =
     e\<lparr>gc_Blt := \<lambda>l g a. case console_blt dp B a (screen_mem dp B draw m l) of
         (st, m') \<Rightarrow> (st, pixels_at B (length (BltBuffer a)) m')\<rparr>"

text \<open>What the UEFI specification says of the font protocol: a string drawn directly to the screen puts the glyphs of
  its characters next to each other, from the given position on, if they fit.\<close>

definition hii_font :: "FRAME_BUFFER_CONFIGURE \<Rightarrow> string_drawer \<Rightarrow> font \<Rightarrow> (u16 \<Rightarrow> bool) \<Rightarrow> bool" where
  "hii_font c draw font wide_glyph \<longleftrightarrow>
     (\<forall>m cs wide fg bg x y px py.
        x + EFI_GLYPH_WIDTH * char_cells wide * length cs \<le> Width c \<and> y + EFI_GLYPH_HEIGHT \<le> Height c \<and>
        (\<forall>ch \<in> set cs. wide_glyph ch = wide) \<and> px < Width c \<and> py < Height c \<longrightarrow>
        video_pixel c (draw \<lparr>ImageString = cs, ForegroundColor = fg, BackgroundColor = bg, ImageWidth = Width c,
            ImageHeight = Height c, ImageX = x, ImageY = y\<rparr> m) px py =
          (if within x y (EFI_GLYPH_WIDTH * char_cells wide * length cs) EFI_GLYPH_HEIGHT px py
           then string_pixel font wide fg bg cs (px - x) (py - y) else video_pixel c m px py))"

lemma screen_mem_append: "screen_mem dp B draw m (l @ [c]) = screen_call dp B draw c (screen_mem dp B draw m l)"
  by (simp add: screen_mem_def)

lemma screen_call_quiet: "quiet c \<Longrightarrow> screen_call dp B draw c m = m"
  by (simp add: quiet_def screen_call_def split: gc_call.splits)

lemma screen_call_blt:
  "mFrameBufferBltLibConfigure dp = Some c \<Longrightarrow>
   screen_call dp B draw (gBlt gEfiGraphicsOutputProtocolGuid a) m =
     (case BltOperation a of
        EfiBltVideoToBltBuffer \<Rightarrow> snd (FrameBufferBltLibVideoToBltBuffer c B (SrcX a) (SrcY a) (DstX a) (DstY a) (BltW a) (BltH a) (BltDelta a) (place B (BltBuffer a) m))
      | EfiBltVideoToVideo \<Rightarrow> snd (FrameBufferBltLibVideoToVideo c (SrcX a) (SrcY a) (DstX a) (DstY a) (BltW a) (BltH a) (place B (BltBuffer a) m))
      | EfiBltVideoFill \<Rightarrow> snd (FrameBufferBltLibVideoFill c B (DstX a) (DstY a) (BltW a) (BltH a) (place B (BltBuffer a) m))
      | EfiBltBufferToVideo \<Rightarrow> snd (FrameBufferBltLibBufferToVideo c B (SrcX a) (SrcY a) (DstX a) (DstY a) (BltW a) (BltH a) (BltDelta a) (place B (BltBuffer a) m))
      | EfiGraphicsOutputBltOperationMax \<Rightarrow> place B (BltBuffer a) m)"
  by (auto simp: screen_call_def console_blt_def DisplayBlt_def FrameBufferBlt_def Let_def split_beta
      split: EFI_GRAPHICS_OUTPUT_BLT_OPERATION.splits)

lemma read_placed:
  assumes "i < length bs"
  shows "read32 (place B bs m) (B + 4 * i) = bs ! i"
  using place_at [OF assms] by (intro read32_eqI) (simp add: add.assoc)

section \<open>The contract\<close>

lemma display_text_screen:
  assumes c: "panel c" and dp: "mFrameBufferBltLibConfigure dp = Some c" and B: "apart c B (4 * (EFI_GLYPH_WIDTH * EFI_GLYPH_HEIGHT))"
    and font: "hii_font c draw font wide_glyph" and stack: "length (gc_stack_pixels e) = EFI_GLYPH_WIDTH * EFI_GLYPH_HEIGHT"
  shows "text_screen (over_display e dp B draw m) (\<lambda>l. video_pixel c (screen_mem dp B draw m l)) (Width c) (Height c) font wide_glyph"
proof -
  note P = panelD [OF c]
  let ?M = "screen_mem dp B draw m"
  have g: "0 < EFI_GLYPH_WIDTH" "0 < EFI_GLYPH_HEIGHT" "EFI_GLYPH_WIDTH < 2 ^ 32" "EFI_GLYPH_HEIGHT < 2 ^ 32"
    by (simp_all add: EFI_GLYPH_WIDTH_def EFI_GLYPH_HEIGHT_def)
  have B1: "apart c B (4 * length [v])" "apart c B 0" for v :: u32
    using B by (auto simp: apart_def EFI_GLYPH_WIDTH_def EFI_GLYPH_HEIGHT_def)
  have sp: "gc_stack_pixels (over_display e dp B draw m) = gc_stack_pixels e" by (simp add: over_display_def)
  let ?rd = "\<lambda>x y l. FrameBufferBltLibVideoToBltBuffer c B x y 0 0 EFI_GLYPH_WIDTH EFI_GLYPH_HEIGHT (EFI_GLYPH_WIDTH * 4) (place B (gc_stack_pixels e) (?M l))"
  have read: "snd (gc_Blt (over_display e dp B draw m) l gEfiGraphicsOutputProtocolGuid (read_glyph x y (gc_stack_pixels e)))
      = pixels_at B (EFI_GLYPH_WIDTH * EFI_GLYPH_HEIGHT) (snd (?rd x y l))" for l x y
    by (simp add: over_display_def console_blt_def DisplayBlt_def FrameBufferBlt_def dp read_glyph_def Let_def split_beta stack)
  show ?thesis
  proof (unfold_locales, unfold sp)
    show "Width c < 2 ^ 16" "Height c < 2 ^ 16" using P by simp_all
    show "video_pixel c (?M (l @ [q])) = video_pixel c (?M l)" if "quiet q" for q l
      using that by (simp add: screen_mem_append screen_call_quiet)
    show "snd (gc_Blt (over_display e dp B draw m) l gEfiGraphicsOutputProtocolGuid (read_glyph x y (gc_stack_pixels e))) ! (dy * EFI_GLYPH_WIDTH + dx)
        = video_pixel c (?M l) (x + dx) (y + dy)"
      if "x + EFI_GLYPH_WIDTH \<le> Width c" "y + EFI_GLYPH_HEIGHT \<le> Height c" "dx < EFI_GLYPH_WIDTH" "dy < EFI_GLYPH_HEIGHT" for x y dx dy l
    proof -
      have xy: "x < 2 ^ 32" "y < 2 ^ 32" using that P by simp_all
      have i: "dy * EFI_GLYPH_WIDTH + dx < EFI_GLYPH_WIDTH * EFI_GLYPH_HEIGHT" using that by (simp add: EFI_GLYPH_WIDTH_def EFI_GLYPH_HEIGHT_def)
      have "read32 (snd (?rd x y l)) (B + 4 * (dy * EFI_GLYPH_WIDTH + dx)) = video_pixel c (place B (gc_stack_pixels e) (?M l)) (x + dx) (y + dy)"
        by (rule read_pixels(2) [OF c B g(1,2) xy g(3,4) that])
      also have "\<dots> = video_pixel c (?M l) (x + dx) (y + dy)"
        using that B by (intro video_pixel_place [OF c]) (simp_all add: stack)
      finally show ?thesis using i by (simp add: read pixels_at_def)
    qed
    show "length (snd (gc_Blt (over_display e dp B draw m) l gEfiGraphicsOutputProtocolGuid (read_glyph x y (gc_stack_pixels e))))
        = EFI_GLYPH_WIDTH * EFI_GLYPH_HEIGHT" for l x y
      by (simp add: read pixels_at_def)
    show "video_pixel c (?M (l @ [gBlt gEfiGraphicsOutputProtocolGuid (read_glyph x y (gc_stack_pixels e))])) px py = video_pixel c (?M l) px py"
      if "x < 2 ^ 32" "y < 2 ^ 32" "px < Width c" "py < Height c" for x y px py l
      using read_pixels(1) [OF c B g(1,2) that(1,2) g(3,4) that(3,4)] video_pixel_place [OF c that(3,4), of B "gc_stack_pixels e"] B
      by (simp add: screen_mem_append screen_call_blt [OF dp] read_glyph_def stack)
    show "video_pixel c (?M (l @ [gBlt gEfiGraphicsOutputProtocolGuid (write_glyph x y bs)])) px py =
        (if x + EFI_GLYPH_WIDTH \<le> Width c \<and> y + EFI_GLYPH_HEIGHT \<le> Height c \<and> within x y EFI_GLYPH_WIDTH EFI_GLYPH_HEIGHT px py
         then bs ! ((py - y) * EFI_GLYPH_WIDTH + (px - x)) else video_pixel c (?M l) px py)"
      if "x < 2 ^ 32" "y < 2 ^ 32" "length bs = EFI_GLYPH_WIDTH * EFI_GLYPH_HEIGHT" "px < Width c" "py < Height c" for x y bs px py l
      using write_pixels [OF c B g(1,2) that(3) that(1,2) g(3,4) that(4,5)]
      by (simp add: screen_mem_append screen_call_blt [OF dp] write_glyph_def)
    show "video_pixel c (?M (l @ [gBlt gEfiGraphicsOutputProtocolGuid (video_scroll x y w h delta)])) px py =
        (if within x y w h px py then video_pixel c (?M l) px (py + EFI_GLYPH_HEIGHT) else video_pixel c (?M l) px py)"
      if "0 < w" "x + w \<le> Width c" "y + EFI_GLYPH_HEIGHT + h \<le> Height c" "px < Width c" "py < Height c" for w x y h px py l delta
    proof -
      have "wrap (y + EFI_GLYPH_HEIGHT) = y + EFI_GLYPH_HEIGHT" using that(3) P(6) by (intro wrap_small) simp
      moreover have "py + EFI_GLYPH_HEIGHT < Height c" if "within x y w h px py" using that \<open>y + EFI_GLYPH_HEIGHT + h \<le> Height c\<close> by (simp add: within_def)
      ultimately show ?thesis
        using scroll_pixels [OF c that(2,3,4,5)] video_pixel_place [OF c that(4) _ , of _ B "[]"] B1(2) that(5)
        by (simp add: screen_mem_append screen_call_blt [OF dp] video_scroll_def)
    qed
    show "video_pixel c (?M (l @ [gBlt gEfiGraphicsOutputProtocolGuid (video_fill bg x y w h delta)])) px py =
        (if within x y w h px py then bg else video_pixel c (?M l) px py)"
      if "0 < w" "0 < h" "x + w \<le> Width c" "y + h \<le> Height c" "bg AND 0xffffff = bg" "px < Width c" "py < Height c" for w h x y bg px py l delta
    proof -
      have v: "read32 (place B [bg] (?M l)) B = bg" using read_placed [of 0 "[bg]" B] by simp
      show ?thesis
        using fill_pixels [OF c that(3,4,1,2) _ that(6,7), of "place B [bg] (?M l)" B] that(5) video_pixel_place [OF c that(6,7) B1(1)]
        by (simp add: screen_mem_append screen_call_blt [OF dp] video_fill_def v)
    qed
    show "video_pixel c (?M (l @ [gStringToScreen \<lparr>ImageString = cs, ForegroundColor = fg, BackgroundColor = bg, ImageWidth = Width c,
          ImageHeight = Height c, ImageX = x, ImageY = y\<rparr>])) px py =
        (if within x y (EFI_GLYPH_WIDTH * char_cells wide * length cs) EFI_GLYPH_HEIGHT px py
         then string_pixel font wide fg bg cs (px - x) (py - y) else video_pixel c (?M l) px py)"
      if "x + EFI_GLYPH_WIDTH * char_cells wide * length cs \<le> Width c" "y + EFI_GLYPH_HEIGHT \<le> Height c"
        "\<forall>ch \<in> set cs. wide_glyph ch = wide" "px < Width c" "py < Height c" for x wide cs y px py l fg bg
      using font that by (simp add: screen_mem_append screen_call_def hii_font_def)
  qed
qed

section \<open>Text on the panel\<close>

text \<open>Every mode but the first two lies on the screen.\<close>

lemma started_on_screen:
  assumes "gc_started e s0" "gc_reachable e s0 s" "2 \<le> CurMode (text_mode s)"
  shows "on_screen (GopWidth (mode_data s)) (GopHeight (mode_data s)) (mode_data s)"
proof -
  have ok0: "dev_ok (gcDev s0)" by (rule started_dev_ok [OF assms(1)])
  have fixed: "fixed_part (gcDev s) = fixed_part (gcDev s0)" by (rule fixed_part_reachable [OF assms(2) ok0])
  have ok: "dev_ok (gcDev s)" by (rule dev_ok_reachable [OF assms(2) ok0])
  obtain l where "GraphicsConsoleControllerDriverStart e l = Some (EFI_SUCCESS, Some (gcDev s0), gcLog s0)"
    using assms(1) by (auto simp: gc_started_def)
  then obtain H V k n where t: "InitializeGraphicsConsoleTextMode H V k = (n, ModeData (gcDev s0))"
    and M: "MaxMode (SimpleTextOutputMode (gcDev s0)) = int32 n"
    by (rule start_device) simp
  note m = text_modes [OF t]
  have HV: "H < 2 ^ 32" "V < 2 ^ 32" using assms(1) m(5) by (simp_all add: gc_started_def Let_def mode_entry_def)
  have n: "int32 n = int n" using m(2,4) by (simp add: int32_small)
  have M': "MaxMode (SimpleTextOutputMode (gcDev s)) = int n" "ModeData (gcDev s) = ModeData (gcDev s0)"
    using fixed M n by (simp_all add: fixed_part_def)
  have "CurMode (text_mode s) < int n" using ok assms(3) M'(1) by (auto simp: dev_ok_def Let_def text_mode_def)
  then have "2 \<le> nat (CurMode (text_mode s))" "nat (CurMode (text_mode s)) < n" using assms(3) by linarith+
  then obtain c r where cr: "fits H V (c, r)" "mode_data s = mode_entry H V k c r" using m(7) by (auto simp: mode_data_def M'(2))
  note f = fits_cells [OF cr(1)]
  have half: "(R - x) div 2 + x \<le> R" if "x \<le> R" for x R :: nat using that by linarith
  show ?thesis
    unfolding on_screen_def cr(2)
    using f half mode_delta_fits [of c EFI_GLYPH_WIDTH H] mode_delta_fits [of r EFI_GLYPH_HEIGHT V] HV by (simp add: mode_entry_def)
qed

lemma text_colors_24:
  assumes "Attribute t AND 0x7f = Attribute t" "GetTextColors t = (fg, bg)"
  shows "bg AND 0xffffff = bg"
proof -
  have "list_all (\<lambda>v. v AND 0xffffff = v) mGraphicsEfiColors" by (simp add: mGraphicsEfiColors_def)
  moreover have "length mGraphicsEfiColors = 16" by (simp add: mGraphicsEfiColors_def)
  moreover have "nat (drop_bit 4 (Attribute t AND 0x7f)) < 16"
  proof -
    have "0 \<le> Attribute t AND 0x7f" "Attribute t AND 0x7f \<le> 0x7f" by (simp_all add: and_nonnegative_int_iff)
    then have "(Attribute t AND 0x7f) div 16 \<le> 7" by presburger
    then show ?thesis by (simp add: drop_bit_eq_div)
  qed
  ultimately show ?thesis using assms(2) by (auto simp: GetTextColors_def Let_def list_all_length)
qed

text \<open>The screen as the memory holds it after the calls of a log.\<close>

definition panel_shows ::
  "FRAME_BUFFER_CONFIGURE \<Rightarrow> display \<Rightarrow> nat \<Rightarrow> string_drawer \<Rightarrow> font \<Rightarrow> mem \<Rightarrow> gc_state \<Rightarrow> grid \<Rightarrow> bool" where
  "panel_shows c dp B draw font m s g \<longleftrightarrow>
     shown font (fst (GetTextColors (text_mode s))) (mode_data s)
       (tog (CursorVisible (text_mode s)) (nat (CursorRow (text_mode s))) (nat (CursorColumn (text_mode s))) g)
       (video_pixel c (screen_mem dp B draw m (gcLog s)))"

definition panel_console :: "FRAME_BUFFER_CONFIGURE \<Rightarrow> display \<Rightarrow> nat \<Rightarrow> string_drawer \<Rightarrow> font \<Rightarrow> (u16 \<Rightarrow> bool) \<Rightarrow> gc_env \<Rightarrow> bool" where
  "panel_console c dp B draw font wide_glyph e \<longleftrightarrow>
     panel c \<and> mFrameBufferBltLibConfigure dp = Some c \<and> apart c B (4 * (EFI_GLYPH_WIDTH * EFI_GLYPH_HEIGHT)) \<and>
     hii_font c draw font wide_glyph \<and> \<not> wide_glyph 0x20 \<and> pool_ok e \<and> length (gc_stack_pixels e) = EFI_GLYPH_WIDTH * EFI_GLYPH_HEIGHT"

lemma panel_console_screen:
  assumes "panel_console c dp B draw font wide_glyph e"
  shows "text_screen (over_display e dp B draw m) (\<lambda>l. video_pixel c (screen_mem dp B draw m l)) (Width c) (Height c) font wide_glyph"
    "pool_ok (over_display e dp B draw m)" "\<not> wide_glyph 0x20"
  using assms display_text_screen by (auto simp: panel_console_def over_display_def pool_ok_def)

text \<open>The state of a console on the panel in a mode that lies on the screen.\<close>

lemma panel_state:
  assumes run: "gc_started e s0" "gc_reachable e s0 s" "2 \<le> CurMode (text_mode s)"
    and size: "GopWidth (mode_data s) = Width c" "GopHeight (mode_data s) = Height c"
  obtains fg bg col row where "on_mode (mode_data s) fg bg s" "cursor_at s col row False" "col < Columns (mode_data s)" "row < Rows (mode_data s)"
    "on_screen (Width c) (Height c) (mode_data s)" "bg AND 0xffffff = bg" "GetTextColors (text_mode s) = (fg, bg)"
    "nat (CursorColumn (text_mode s)) = col" "nat (CursorRow (text_mode s)) = row"
proof -
  have ok: "dev_ok (gcDev s)" using dev_ok_reachable [OF run(2)] started_dev_ok [OF run(1)] by blast
  have cur: "CurMode (text_mode s) \<noteq> - 1" using run(3) by simp
  obtain d fg bg col row where on: "on_mode d fg bg s" "cursor_at s col row False" "col < Columns d" "row < Rows d" "d = mode_data s"
    by (rule dev_ok_on_mode [OF ok cur])
  have col: "GetTextColors (text_mode s) = (fg, bg)" using on(1) by (simp add: on_mode_def)
  have "Attribute (text_mode s) AND 0x7f = Attribute (text_mode s)" using ok by (simp add: dev_ok_def Let_def text_mode_def)
  from text_colors_24 [OF this col] have bg: "bg AND 0xffffff = bg" .
  show thesis
    by (rule that [of fg bg col row]) (use on bg col started_on_screen [OF run] size in \<open>simp_all add: cursor_at_def\<close>)
qed

text \<open>C3: Through the console, the driver and the block transfer library down to the bytes of the frame buffer: if the pixels of the
  text area show a grid of cells (and the cursor), then after the output of a string they
  show the grid, and the cursor the position, that a terminal makes of it, scrolling and
  line ends included.  The font protocol draws its glyphs as specified, and the string keeps its wide characters in wide mode.\<close>

theorem console_shows_text:
  assumes "panel_console c dp B draw font wide_glyph e" "widths_ok (\<lambda>w ch. wide_glyph ch = w) False WString"
    and run: "gc_started (over_display e dp B draw m) s0" "gc_reachable (over_display e dp B draw m) s0 s"
      "2 \<le> CurMode (text_mode s)" "GraphicsOutput (gcDev s)"
    and size: "GopWidth (mode_data s) = Width c" "GopHeight (mode_data s) = Height c"
    and before: "panel_shows c dp B draw font m s g"
  shows "\<exists>st s' w g'. GraphicsConsoleConOutOutputString (over_display e dp B draw m) WString s = Some (st, s') \<and>
    (let d = mode_data s; (fg, bg) = GetTextColors (text_mode s)
     in tty_string (Columns d) (Rows d) fg bg WString (nat (CursorColumn (text_mode s)), nat (CursorRow (text_mode s)), False, g) =
          (nat (CursorColumn (text_mode s')), nat (CursorRow (text_mode s')), w, g')) \<and>
    panel_shows c dp B draw font m s' g'"
proof -
  note scr = panel_console_screen(1,2) [OF assms(1), of m] panel_console_screen(3) [OF assms(1)]
  obtain fg bg col row where st: "on_mode (mode_data s) fg bg s" "cursor_at s col row False" "col < Columns (mode_data s)" "row < Rows (mode_data s)"
      "on_screen (Width c) (Height c) (mode_data s)" "bg AND 0xffffff = bg" "GetTextColors (text_mode s) = (fg, bg)"
      "nat (CursorColumn (text_mode s)) = col" "nat (CursorRow (text_mode s)) = row"
    by (rule panel_state [OF run(1-3) size])
  have g: "shown font fg (mode_data s) (tog (CursorVisible (text_mode s)) row col g) (video_pixel c (screen_mem dp B draw m (gcLog s)))"
    using before st by (simp add: panel_shows_def)
  obtain st' s' c' r' w' g' where o: "GraphicsConsoleConOutOutputString (over_display e dp B draw m) WString s = Some (st', s')"
      "gcDev s' = gcDev (move_to (int c') (int r') s)"
      "tty_string (Columns (mode_data s)) (Rows (mode_data s)) fg bg WString (col, row, False, g) = (c', r', w', g')"
      "shown font fg (mode_data s) (tog (CursorVisible (text_mode s)) r' c' g') (video_pixel c (screen_mem dp B draw m (gcLog s')))"
    using text_screen.output_shown [OF scr(1) st(1-6) scr(2) run(4) scr(3) assms(2) g] by blast
  have t: "text_mode s' = text_mode (move_to (int c') (int r') s)" using o(2) by (simp add: text_mode_def)
  have md: "mode_data s' = mode_data s"
    using o(2) by (simp add: mode_data_def t) (simp add: move_to_def upd_mode_def)
  have "GetTextColors (text_mode s') = (fg, bg)" using st(7) by (simp add: t GetTextColors_def)
  then have "panel_shows c dp B draw font m s' g'" using o(4) by (simp add: panel_shows_def md) (simp add: t)
  then show ?thesis using o(1,3) st(7-9) by (auto simp: t)
qed

lemma panel_cleared:
  assumes "panel_console c dp B draw font wide_glyph e"
    and run: "gc_started (over_display e dp B draw m) s0" "gc_reachable (over_display e dp B draw m) s0 s"
      "2 \<le> CurMode (text_mode s)" "GraphicsOutput (gcDev s)"
    and size: "GopWidth (mode_data s) = Width c" "GopHeight (mode_data s) = Height c"
  shows "panel_shows c dp B draw font m (snd (GraphicsConsoleConOutClearScreen (over_display e dp B draw m) s))
    (\<lambda>_ _. (Blank (snd (GetTextColors (text_mode s))), False))"
proof -
  note scr = panel_console_screen(1,2) [OF assms(1), of m] panel_console_screen(3) [OF assms(1)]
  obtain fg bg col row where st: "on_mode (mode_data s) fg bg s" "cursor_at s col row False" "col < Columns (mode_data s)" "row < Rows (mode_data s)"
      "on_screen (Width c) (Height c) (mode_data s)" "bg AND 0xffffff = bg" "GetTextColors (text_mode s) = (fg, bg)"
      "nat (CursorColumn (text_mode s)) = col" "nat (CursorRow (text_mode s)) = row"
    by (rule panel_state [OF run(1-3) size])
  let ?s' = "snd (GraphicsConsoleConOutClearScreen (over_display e dp B draw m) s)"
  have dev: "gcDev ?s' = gcDev (move_to 0 0 s)" using run(3) by (simp add: ClearScreen_dev)
  have t: "text_mode ?s' = text_mode (move_to 0 0 s)" using dev by (simp add: text_mode_def)
  have md: "mode_data ?s' = mode_data s" using dev by (simp add: mode_data_def t) (simp add: move_to_def upd_mode_def)
  have "GetTextColors (text_mode ?s') = (fg, bg)" using st(7) by (simp add: t GetTextColors_def)
  then show ?thesis
    using text_screen.clear_shown [OF scr(1) st(1,5,6) scr(2) run(4) refl]
    unfolding panel_shows_def md by (simp add: t st(7))
qed

text \<open>C23: Clearing the screen on the panel: every pixel of the text area shows the background colour, with the cursor, if it is
  visible, at the home position; the console can be told to clear in any state it can reach in a mode on the screen.\<close>

theorem console_clears_panel:
  assumes "panel_console c dp B draw font wide_glyph e"
    and "gc_started (over_display e dp B draw m) s0" "gc_reachable (over_display e dp B draw m) s0 s"
      "2 \<le> CurMode (text_mode s)" "GraphicsOutput (gcDev s)"
    and "GopWidth (mode_data s) = Width c" "GopHeight (mode_data s) = Height c"
  shows "case GraphicsConsoleConOutClearScreen (over_display e dp B draw m) s of (st, s') \<Rightarrow>
    CursorColumn (text_mode s') = 0 \<and> CursorRow (text_mode s') = 0 \<and>
    (\<not> CursorVisible (text_mode s) \<longrightarrow>
      (\<forall>r < Rows (mode_data s). \<forall>col < Columns (mode_data s). \<forall>x < EFI_GLYPH_WIDTH. \<forall>y < EFI_GLYPH_HEIGHT.
         video_pixel c (screen_mem dp B draw m (gcLog s')) (cell_x (mode_data s) col + x) (cell_y (mode_data s) r + y) =
           snd (GetTextColors (text_mode s)))) \<and>
    panel_shows c dp B draw font m s' (\<lambda>_ _. (Blank (snd (GetTextColors (text_mode s))), False))"
proof -
  obtain st s' where cl: "GraphicsConsoleConOutClearScreen (over_display e dp B draw m) s = (st, s')" by force
  have dev: "gcDev s' = gcDev (move_to 0 0 s)" using assms(4) ClearScreen_dev [of "over_display e dp B draw m" s] by (simp add: cl)
  have t: "text_mode s' = text_mode (move_to 0 0 s)" using dev by (simp add: text_mode_def)
  have md: "mode_data s' = mode_data s" using dev by (simp add: mode_data_def t) (simp add: move_to_def upd_mode_def)
  have sh: "panel_shows c dp B draw font m s' (\<lambda>_ _. (Blank (snd (GetTextColors (text_mode s))), False))"
    using panel_cleared [OF assms] by (simp add: cl)
  moreover have "video_pixel c (screen_mem dp B draw m (gcLog s')) (cell_x (mode_data s) col + x) (cell_y (mode_data s) r + y) =
      snd (GetTextColors (text_mode s))"
    if "\<not> CursorVisible (text_mode s)" "r < Rows (mode_data s)" "col < Columns (mode_data s)" "x < EFI_GLYPH_WIDTH" "y < EFI_GLYPH_HEIGHT" for r col x y
    using sh that by (simp add: panel_shows_def md shown_def t tog_def cell_pixel_def)
  ultimately show ?thesis by (simp add: cl t)
qed

section \<open>A panel\<close>

text \<open>The panel of \<open>Devices/j4lte.dsc\<close>, with the library's configuration above the frame buffer, and a font whose
  glyphs are all narrow blocks, drawn pixel by pixel.\<close>

definition j4_configuration :: FRAME_BUFFER_CONFIGURE where
  "j4_configuration = \<lparr>PixelsPerScanLine = 720, BytesPerPixel = 4, Width = 720, Height = 1280, FrameBuffer = 0x67000000,
     PixelFormat = PixelBlueGreenRedReserved8BitPerColor, PixelMasks = mBgrPixelMasks, PixelShl = [0, 0, 0], PixelShr = [0, 0, 0],
     LineBuffer = 0x90000038\<rparr>"

definition j4_display :: display where
  "j4_display = unloaded_display\<lparr>mFrameBufferBltLibConfigure := Some j4_configuration, Published := True\<rparr>"

definition draw_pixels :: "FRAME_BUFFER_CONFIGURE \<Rightarrow> font \<Rightarrow> string_drawer" where
  "draw_pixels c font a m = (\<lambda>i.
     let o' = i - FrameBuffer c; px = o' div 4 mod Width c; py = o' div 4 div Width c
     in if FrameBuffer c \<le> i \<and> py < Height c \<and> within (ImageX a) (ImageY a) (EFI_GLYPH_WIDTH * length (ImageString a)) EFI_GLYPH_HEIGHT px py
        then byte_of (string_pixel font False (ForegroundColor a) (BackgroundColor a) (ImageString a) (px - ImageX a) (py - ImageY a)) (o' mod 4)
        else m i)"

lemma draw_pixels_font:
  assumes c: "panel c"
  shows "hii_font c (draw_pixels c font) font (\<lambda>_. False)"
  unfolding hii_font_def
proof (intro allI impI)
  fix m :: mem and cs :: "u16 list" and wide and fg bg :: u32 and x y px py :: nat
  assume a: "x + EFI_GLYPH_WIDTH * char_cells wide * length cs \<le> Width c \<and> y + EFI_GLYPH_HEIGHT \<le> Height c \<and>
    (\<forall>ch \<in> set cs. False = wide) \<and> px < Width c \<and> py < Height c"
  let ?a = "\<lparr>ImageString = cs, ForegroundColor = fg, BackgroundColor = bg, ImageWidth = Width c, ImageHeight = Height c, ImageX = x, ImageY = y\<rparr>"
  have w: "cs = [] \<or> wide = False" using a by (cases cs) auto
  show "video_pixel c (draw_pixels c font ?a m) px py =
      (if within x y (EFI_GLYPH_WIDTH * char_cells wide * length cs) EFI_GLYPH_HEIGHT px py
       then string_pixel font wide fg bg cs (px - x) (py - y) else video_pixel c m px py)"
  proof (rule video_pixel_eqI)
    fix k :: nat assume k: "k < 4"
    define q where "q = py * Width c + px"
    have "row_base c px py + k - FrameBuffer c = 4 * q + k" "FrameBuffer c \<le> row_base c px py + k"
      by (simp_all add: row_base_def panelD [OF c] q_def)
    moreover have "(4 * q + k) div 4 = q" "(4 * q + k) mod 4 = k" using k by simp_all
    moreover have "q div Width c = py" "q mod Width c = px" using a by (simp_all add: q_def)
    ultimately have "draw_pixels c font ?a m (row_base c px py + k) =
      (if within x y (EFI_GLYPH_WIDTH * length cs) EFI_GLYPH_HEIGHT px py
       then byte_of (string_pixel font False fg bg cs (px - x) (py - y)) k else m (row_base c px py + k))"
      using a by (simp add: draw_pixels_def)
    then show "draw_pixels c font ?a m (row_base c px py + k) =
      byte_of (if within x y (EFI_GLYPH_WIDTH * char_cells wide * length cs) EFI_GLYPH_HEIGHT px py
       then string_pixel font wide fg bg cs (px - x) (py - y) else video_pixel c m px py) k"
      using w by (auto simp: byte_of_pixel k within_def char_cells_def)
  qed
qed

lemma j4_panel: "panel j4_configuration"
  by (simp add: panel_def surface_def j4_configuration_def)

lemma j4_console: "panel_console j4_configuration j4_display 0x1000 (draw_pixels j4_configuration font) font (\<lambda>_. False) (panel_env 720 1280)"
proof -
  have "apart j4_configuration 0x1000 (4 * (EFI_GLYPH_WIDTH * EFI_GLYPH_HEIGHT))"
    by (simp add: apart_def j4_configuration_def EFI_GLYPH_WIDTH_def EFI_GLYPH_HEIGHT_def)
  then show ?thesis
    using j4_panel draw_pixels_font [OF j4_panel]
    by (simp add: panel_console_def j4_display_def pool_ok_def) (simp add: panel_env_def EFI_GLYPH_WIDTH_def EFI_GLYPH_HEIGHT_def)
qed

text \<open>The contract of the screen, kept by the driver on this panel.\<close>

interpretation j4: text_screen "over_display (panel_env 720 1280) j4_display 0x1000 (draw_pixels j4_configuration font) m"
  "\<lambda>l. video_pixel j4_configuration (screen_mem j4_display 0x1000 (draw_pixels j4_configuration font) m l)"
  "Width j4_configuration" "Height j4_configuration" font "\<lambda>_. False" for font m
  by (rule panel_console_screen(1) [OF j4_console])

definition j4_env :: "font \<Rightarrow> mem \<Rightarrow> gc_env" where
  "j4_env font m = over_display (panel_env 720 1280) j4_display 0x1000 (draw_pixels j4_configuration font) m"

text \<open>The console on the panel after selecting mode 2, and after clearing it.\<close>

definition j4_mode_2 :: "font \<Rightarrow> mem \<Rightarrow> gc_state" where
  "j4_mode_2 font m = snd (GraphicsConsoleConOutSetMode (j4_env font m) 2 (panel_start 720 1280))"

definition j4_clear :: "font \<Rightarrow> mem \<Rightarrow> gc_state" where
  "j4_clear font m = snd (GraphicsConsoleConOutClearScreen (j4_env font m) (j4_mode_2 font m))"

lemma j4_runs:
  "gc_started (j4_env font m) (panel_start 720 1280)" "gc_reachable (j4_env font m) (panel_start 720 1280) (j4_mode_2 font m)"
  "gc_reachable (j4_env font m) (panel_start 720 1280) (j4_clear font m)"
proof -
  show "gc_started (j4_env font m) (panel_start 720 1280)" unfolding j4_env_def over_display_def by (rule panel_started_over) simp_all
  show r: "gc_reachable (j4_env font m) (panel_start 720 1280) (j4_mode_2 font m)"
    unfolding j4_mode_2_def by (rule reach_step [OF reach_start step_set_mode])
  show "gc_reachable (j4_env font m) (panel_start 720 1280) (j4_clear font m)"
    unfolding j4_clear_def by (rule reach_step [OF r step_clear])
qed

lemma j4_mode_2_state:
  "CurMode (text_mode (j4_mode_2 font m)) = 2" "mode_data (j4_mode_2 font m) = mode_entry 720 1280 0 90 67"
  "GetTextColors (text_mode (j4_mode_2 font m)) = (0x989898, 0)" "CursorVisible (text_mode (j4_mode_2 font m)) = False"
  "GraphicsOutput (gcDev (j4_mode_2 font m))"
  unfolding j4_mode_2_def j4_env_def over_display_def by (rule panel_mode_2_over)+

lemma j4_clear_state:
  "CurMode (text_mode (j4_clear font m)) = 2" "mode_data (j4_clear font m) = mode_entry 720 1280 0 90 67"
  "GetTextColors (text_mode (j4_clear font m)) = (0x989898, 0)" "GraphicsOutput (gcDev (j4_clear font m))"
  "CursorColumn (text_mode (j4_clear font m)) = 0" "CursorRow (text_mode (j4_clear font m)) = 0"
proof -
  note s = j4_mode_2_state [of font m]
  have "gcDev (j4_clear font m) = gcDev (move_to 0 0 (j4_mode_2 font m))" using s(1) by (simp add: j4_clear_def ClearScreen_dev)
  then show "CurMode (text_mode (j4_clear font m)) = 2" "mode_data (j4_clear font m) = mode_entry 720 1280 0 90 67"
    "GetTextColors (text_mode (j4_clear font m)) = (0x989898, 0)" "GraphicsOutput (gcDev (j4_clear font m))"
    "CursorColumn (text_mode (j4_clear font m)) = 0" "CursorRow (text_mode (j4_clear font m)) = 0"
    using s by (simp_all add: text_mode_def mode_data_def move_to_def upd_mode_def GetTextColors_def)
qed

lemma j4_size: "Width j4_configuration = 720" "Height j4_configuration = 1280"
  by (simp_all add: j4_configuration_def)

theorem console_clears_panel_witness:
  "video_pixel j4_configuration (screen_mem j4_display 0x1000 (draw_pixels j4_configuration (\<lambda>_ _ _. True)) (\<lambda>_. 7)
     (gcLog (j4_clear (\<lambda>_ _ _. True) (\<lambda>_. 7)))) (cell_x (mode_entry 720 1280 0 90 67) 89 + 7) (cell_y (mode_entry 720 1280 0 90 67) 66 + 18) = 0"
proof -
  let ?f = "\<lambda>_ _ _. True" and ?m = "\<lambda>_. 7 :: u8"
  note r = j4_runs(1,2) [of ?f ?m]
  obtain st where st: "GraphicsConsoleConOutClearScreen (j4_env ?f ?m) (j4_mode_2 ?f ?m) = (st, j4_clear ?f ?m)"
    unfolding j4_clear_def by (metis prod.collapse)
  have "2 \<le> CurMode (text_mode (j4_mode_2 ?f ?m))" "GraphicsOutput (gcDev (j4_mode_2 ?f ?m))"
    "GopWidth (mode_data (j4_mode_2 ?f ?m)) = Width j4_configuration" "GopHeight (mode_data (j4_mode_2 ?f ?m)) = Height j4_configuration"
    by (simp_all add: j4_mode_2_state j4_size mode_entry_def)
  from console_clears_panel [OF j4_console r [unfolded j4_env_def] this, folded j4_env_def, unfolded st prod.case]
  have "\<forall>r < Rows (mode_entry 720 1280 0 90 67). \<forall>col < Columns (mode_entry 720 1280 0 90 67). \<forall>x < EFI_GLYPH_WIDTH. \<forall>y < EFI_GLYPH_HEIGHT.
      video_pixel j4_configuration (screen_mem j4_display 0x1000 (draw_pixels j4_configuration ?f) ?m (gcLog (j4_clear ?f ?m)))
        (cell_x (mode_entry 720 1280 0 90 67) col + x) (cell_y (mode_entry 720 1280 0 90 67) r + y) = 0"
    by (simp add: j4_mode_2_state)
  then show ?thesis by (simp add: mode_entry_def EFI_GLYPH_WIDTH_def EFI_GLYPH_HEIGHT_def)
qed

theorem console_shows_text_witness:
  "\<exists>st s' w g'. GraphicsConsoleConOutOutputString (j4_env (\<lambda>_ _ _. True) (\<lambda>_. 7)) [0x48, CHAR_LINEFEED, 0x49, 0] (j4_clear (\<lambda>_ _ _. True) (\<lambda>_. 7)) = Some (st, s') \<and>
    tty_string 90 67 0x989898 0 [0x48, CHAR_LINEFEED, 0x49, 0] (0, 0, False, \<lambda>_ _. (Blank 0, False)) =
      (nat (CursorColumn (text_mode s')), nat (CursorRow (text_mode s')), w, g') \<and>
    panel_shows j4_configuration j4_display 0x1000 (draw_pixels j4_configuration (\<lambda>_ _ _. True)) (\<lambda>_ _ _. True) (\<lambda>_. 7) s' g'"
proof -
  let ?f = "\<lambda>_ _ _. True" and ?m = "\<lambda>_. 7 :: u8"
  note r = j4_runs [of ?f ?m]
  have w: "widths_ok (\<lambda>w ch. False = w) False [0x48, CHAR_LINEFEED, 0x49, 0]" by (simp add: is_control_def char_defs)
  have s: "2 \<le> CurMode (text_mode (j4_mode_2 ?f ?m))" "GraphicsOutput (gcDev (j4_mode_2 ?f ?m))"
    "GopWidth (mode_data (j4_mode_2 ?f ?m)) = Width j4_configuration" "GopHeight (mode_data (j4_mode_2 ?f ?m)) = Height j4_configuration"
    by (simp_all add: j4_mode_2_state j4_size mode_entry_def)
  have t: "2 \<le> CurMode (text_mode (j4_clear ?f ?m))" "GraphicsOutput (gcDev (j4_clear ?f ?m))"
    "GopWidth (mode_data (j4_clear ?f ?m)) = Width j4_configuration" "GopHeight (mode_data (j4_clear ?f ?m)) = Height j4_configuration"
    by (simp_all add: j4_clear_state j4_size mode_entry_def)
  have blank: "panel_shows j4_configuration j4_display 0x1000 (draw_pixels j4_configuration ?f) ?f ?m (j4_clear ?f ?m) (\<lambda>_ _. (Blank 0, False))"
    using panel_cleared [OF j4_console r(1,2) [unfolded j4_env_def] s, folded j4_env_def, folded j4_clear_def] by (simp add: j4_mode_2_state)
  show ?thesis
    using console_shows_text [OF j4_console w r(1,3) [unfolded j4_env_def] t blank, folded j4_env_def]
    by (simp add: j4_clear_state mode_entry_def)
qed

end
