(* ===== verification/SimpleFbCorrect.thy ===== *)
theory SimpleFbCorrect
  imports DisplayPixels
begin

text \<open>
  What the initialisation of the simple frame buffer driver leaves behind: the configuration of a panel and a
  black screen, or, without memory for the configuration, a display that refuses every transfer.
\<close>

lemma configure_steps:
  assumes "W * 4 < 2 ^ 32"
  shows "FrameBufferBltConfigure A (display_info W H masks) None (Some 0) = (EFI_BUFFER_TOO_SMALL, None, Some (56 + W * 4))"
    "FrameBufferBltConfigure A (display_info W H masks) (Some blk) (Some (56 + W * 4)) =
       (EFI_SUCCESS, Some (blk\<lparr>PixelMasks := mBgrPixelMasks, PixelShl := [0, 0, 0], PixelShr := [0, 0, 0], BytesPerPixel := 4,
          PixelFormat := PixelBlueGreenRedReserved8BitPerColor, FrameBuffer := A, Width := W, Height := H, PixelsPerScanLine := W\<rparr>),
        Some (56 + W * 4))"
  using assms by (simp_all add: FrameBufferBltConfigure_def display_info_def configure_bgr sizeof_FRAME_BUFFER_CONFIGURE_def)

text \<open>The environment of a driver that gets all it asks for, and the configuration it ends up with.\<close>

definition fb_env_ok :: "fb_env \<Rightarrow> bool" where
  "fb_env_ok e \<longleftrightarrow> fbModePool e \<and> fbInfoPool e \<and> PcdMipiFrameBufferAddress e \<noteq> 0 \<and>
     1 < PcdMipiFrameBufferWidth e \<and> PcdMipiFrameBufferWidth e < 2 ^ 16 \<and>
     0 < PcdMipiFrameBufferHeight e \<and> PcdMipiFrameBufferHeight e < 2 ^ 16 \<and>
     4 * (PcdMipiFrameBufferHeight e * PcdMipiFrameBufferWidth e) < 2 ^ 32 \<and> PcdMipiFrameBufferAddress e < 2 ^ 32"

lemma Initialize_eq:
  assumes "fb_env_ok e"
  shows "SimpleFbDxeInitialize e unloaded_display m =
    (let A = PcdMipiFrameBufferAddress e; W = PcdMipiFrameBufferWidth e; H = PcdMipiFrameBufferHeight e; Info = display_info W H zero_masks;
         M = \<lparr>DisplayMaxMode = 1, DisplayMode = 0, ModeInfo = Some Info, SizeOfInfo = sizeof_MODE_INFORMATION,
              FrameBufferBase = A, FrameBufferSize = 4 * (H * W)\<rparr>
     in (fbInstall e,
         (create_configuration e A Info (unloaded_display\<lparr>mDisplayMode := Some M\<rparr>))\<lparr>Published := \<not> EFI_ERROR (fbInstall e)\<rparr>,
         SetMem A (4 * (H * W)) 0 m))"
proof -
  let ?W = "PcdMipiFrameBufferWidth e" and ?H = "PcdMipiFrameBufferHeight e"
  have "LineLength ?W = 4 * ?W" using assms by (simp add: LineLength_def fb_env_ok_def)
  moreover have "wrap32 (4 * ?W * ?H) = 4 * (?H * ?W)" using assms by (simp add: fb_env_ok_def mult.commute mult.left_commute)
  ultimately show ?thesis
    using assms by (simp add: SimpleFbDxeInitialize_def unloaded_display_def Let_def fb_env_ok_def mult.assoc mult.commute mult.left_commute)
qed

text \<open>C22: With the memory it asks for, the driver's initialisation answers the status of the installation, leaves the
  library configured for the panel (32-bit blue-green-red pixels, its size, its address), turns every pixel black, and
  changes no byte outside the frame buffer.\<close>

theorem fb_initialize_panel:
  assumes "fb_env_ok e" and blk: "fbConfigurePool e (56 + PcdMipiFrameBufferWidth e * 4) = Some blk"
    and far: "if LineBuffer blk + PcdMipiFrameBufferWidth e * 4 \<le> PcdMipiFrameBufferAddress e then True
      else PcdMipiFrameBufferAddress e + 4 * (PcdMipiFrameBufferHeight e * PcdMipiFrameBufferWidth e) \<le> LineBuffer blk"
  shows "case SimpleFbDxeInitialize e unloaded_display m of (st, dp, m') \<Rightarrow>
    st = fbInstall e \<and> (Published dp \<longleftrightarrow> \<not> EFI_ERROR st) \<and>
    (case mFrameBufferBltLibConfigure dp of None \<Rightarrow> False
     | Some c \<Rightarrow> panel c \<and> Width c = PcdMipiFrameBufferWidth e \<and> Height c = PcdMipiFrameBufferHeight e \<and>
         FrameBuffer c = PcdMipiFrameBufferAddress e \<and> LineBuffer c = LineBuffer blk \<and>
         (\<forall>x < Width c. \<forall>y < Height c. video_pixel c m' x y = 0) \<and>
         (\<forall>a. a < FrameBuffer c \<or> FrameBuffer c + 4 * (Height c * Width c) \<le> a \<longrightarrow> m' a = m a))"
proof -
  let ?W = "PcdMipiFrameBufferWidth e" and ?H = "PcdMipiFrameBufferHeight e" and ?A = "PcdMipiFrameBufferAddress e"
  note ok = assms(1) [unfolded fb_env_ok_def]
  have W4: "?W * 4 < 2 ^ 32" using ok by simp
  let ?c = "blk\<lparr>PixelMasks := mBgrPixelMasks, PixelShl := [0, 0, 0], PixelShr := [0, 0, 0], BytesPerPixel := 4,
          PixelFormat := PixelBlueGreenRedReserved8BitPerColor, FrameBuffer := ?A, Width := ?W, Height := ?H, PixelsPerScanLine := ?W\<rparr>"
  have c: "panel ?c" using ok far by (auto simp: panel_def surface_def split: if_splits)
  have "video_pixel ?c (SetMem ?A (4 * (?H * ?W)) 0 m) x y = 0" if "x < ?W" "y < ?H" for x y
  proof (rule video_pixel_eqI)
    fix k :: nat assume "k < 4"
    then show "SetMem ?A (4 * (?H * ?W)) 0 m (row_base ?c x y + k) = byte_of 0 k"
      using pixel_byte(4,5) [OF c, of x y k] that by (simp add: SetMem_at byte_of_def)
  qed
  moreover have "SetMem ?A (4 * (?H * ?W)) 0 m a = m a" if "a < ?A \<or> ?A + 4 * (?H * ?W) \<le> a" for a
    using that by (auto simp: SetMem_at)
  moreover have "create_configuration e ?A (display_info ?W ?H zero_masks) (unloaded_display\<lparr>mDisplayMode := Some M\<rparr>) =
      \<lparr>mDisplayMode = Some M, mFrameBufferBltLibConfigure = Some ?c, mFrameBufferBltLibConfigureSize = 56 + ?W * 4, Published = False\<rparr>" for M
    by (simp add: create_configuration_def unloaded_display_def configure_steps [OF W4] blk Let_def)
  ultimately show ?thesis using c by (simp add: Initialize_eq [OF assms(1)] Let_def)
qed

definition j4_fb_env :: fb_env where
  "j4_fb_env = \<lparr>fbModePool = True, fbInfoPool = True,
     fbConfigurePool = \<lambda>n. Some \<lparr>PixelsPerScanLine = 0, BytesPerPixel = 0, Width = 0, Height = 0, FrameBuffer = 0, PixelFormat = PixelBltOnly,
        PixelMasks = zero_masks, PixelShl = [], PixelShr = [], LineBuffer = 0x90000038\<rparr>,
     fbInstall = EFI_SUCCESS, PcdMipiFrameBufferAddress = 0x67000000, PcdMipiFrameBufferWidth = 720, PcdMipiFrameBufferHeight = 1280\<rparr>"

theorem fb_initialize_panel_witness:
  "case SimpleFbDxeInitialize j4_fb_env unloaded_display (\<lambda>_. 7) of (st, dp, m') \<Rightarrow> st = EFI_SUCCESS \<and> Published dp \<and>
    (case mFrameBufferBltLibConfigure dp of None \<Rightarrow> False | Some c \<Rightarrow> panel c \<and> Width c = 720 \<and> Height c = 1280 \<and> video_pixel c m' 719 1279 = 0)"
proof -
  have "fb_env_ok j4_fb_env" by (simp add: fb_env_ok_def j4_fb_env_def)
  from fb_initialize_panel [OF this, where m = "\<lambda>_. 7"] show ?thesis
    by (auto simp: j4_fb_env_def split: prod.splits option.splits)
qed

text \<open>Without memory for the library's configuration the driver installs its protocol all the same; every transfer through it is then
  refused and writes nothing.\<close>

theorem fb_without_configuration:
  assumes "fb_env_ok e" "fbConfigurePool e (56 + PcdMipiFrameBufferWidth e * 4) = None" "fbInstall e = EFI_SUCCESS"
  shows "case SimpleFbDxeInitialize e unloaded_display m of (st, dp, m') \<Rightarrow>
    st = EFI_SUCCESS \<and> Published dp \<and> (\<forall>B op sx sy dx dy W H Delta q. DisplayBlt dp B op sx sy dx dy W H Delta q = (EFI_INVALID_PARAMETER, q))"
proof -
  let ?W = "PcdMipiFrameBufferWidth e" and ?H = "PcdMipiFrameBufferHeight e" and ?A = "PcdMipiFrameBufferAddress e"
  have W4: "?W * 4 < 2 ^ 32" using assms(1) by (simp add: fb_env_ok_def)
  have "mFrameBufferBltLibConfigure (create_configuration e ?A (display_info ?W ?H zero_masks) (unloaded_display\<lparr>mDisplayMode := Some M\<rparr>)) = None" for M
    by (simp add: create_configuration_def unloaded_display_def configure_steps [OF W4] assms(2) Let_def)
  then show ?thesis
    by (simp add: Initialize_eq [OF assms(1)] assms(3) Let_def DisplayBlt_def FrameBufferBlt_def EFI_ERROR_iff)
qed

theorem fb_without_configuration_witness:
  "case SimpleFbDxeInitialize (j4_fb_env\<lparr>fbConfigurePool := \<lambda>_. None\<rparr>) unloaded_display (\<lambda>_. 7) of (st, dp, m') \<Rightarrow>
    st = EFI_SUCCESS \<and> Published dp \<and> DisplayBlt dp 64 EfiBltVideoFill 0 0 0 0 1 1 0 (\<lambda>_. 7) = (EFI_INVALID_PARAMETER, \<lambda>_. 7)"
proof -
  have "fb_env_ok (j4_fb_env\<lparr>fbConfigurePool := \<lambda>_. None\<rparr>)" by (simp add: fb_env_ok_def j4_fb_env_def)
  from fb_without_configuration [OF this, where m = "\<lambda>_. 7"] show ?thesis by (auto simp: j4_fb_env_def split: prod.splits)
qed

end
