(* ===== verification/MmcHost.thy ===== *)
theory MmcHost
  imports Memory
begin

text \<open>
  The DesignWare MMC host controller driver, lowest layer (\<open>Drivers/DwMmcHcDxe/DwMmcHci.c\<close> up to
  \<open>DwMmcHcStopDma\<close>, \<open>DwMmcHcReset\<close> of \<open>DwMmcHcDxe.c\<close>, the constants of \<open>DwMmcHci.h\<close>, the types of
  \<open>Include/Protocol/PlatformDwMmc.h\<close>).

  The controller is outside the code: a register read is answered by the environment \<open>mmc_env\<close> from the
  log of everything the driver has done so far, so that a read can depend on any earlier write, read or delay.
  An operation takes the log and returns it extended.  A loop that polls the controller without a limit is a
  \<open>partial_function\<close>: \<open>None\<close> says that it does not return.
\<close>

section \<open>Registers\<close>

abbreviation (input) DW_MMC_CTRL :: nat where "DW_MMC_CTRL \<equiv> 0x000"
abbreviation (input) DW_MMC_PWREN :: nat where "DW_MMC_PWREN \<equiv> 0x004"
abbreviation (input) DW_MMC_CLKDIV :: nat where "DW_MMC_CLKDIV \<equiv> 0x008"
abbreviation (input) DW_MMC_CLKSRC :: nat where "DW_MMC_CLKSRC \<equiv> 0x00c"
abbreviation (input) DW_MMC_CLKENA :: nat where "DW_MMC_CLKENA \<equiv> 0x010"
abbreviation (input) DW_MMC_TMOUT :: nat where "DW_MMC_TMOUT \<equiv> 0x014"
abbreviation (input) DW_MMC_CTYPE :: nat where "DW_MMC_CTYPE \<equiv> 0x018"
abbreviation (input) DW_MMC_BLKSIZ :: nat where "DW_MMC_BLKSIZ \<equiv> 0x01c"
abbreviation (input) DW_MMC_BYTCNT :: nat where "DW_MMC_BYTCNT \<equiv> 0x020"
abbreviation (input) DW_MMC_INTMASK :: nat where "DW_MMC_INTMASK \<equiv> 0x024"
abbreviation (input) DW_MMC_CMDARG :: nat where "DW_MMC_CMDARG \<equiv> 0x028"
abbreviation (input) DW_MMC_CMD :: nat where "DW_MMC_CMD \<equiv> 0x02c"
abbreviation (input) DW_MMC_RESP0 :: nat where "DW_MMC_RESP0 \<equiv> 0x030"
abbreviation (input) DW_MMC_RESP1 :: nat where "DW_MMC_RESP1 \<equiv> 0x034"
abbreviation (input) DW_MMC_RESP2 :: nat where "DW_MMC_RESP2 \<equiv> 0x038"
abbreviation (input) DW_MMC_RESP3 :: nat where "DW_MMC_RESP3 \<equiv> 0x03c"
abbreviation (input) DW_MMC_RINTSTS :: nat where "DW_MMC_RINTSTS \<equiv> 0x044"
abbreviation (input) DW_MMC_STATUS :: nat where "DW_MMC_STATUS \<equiv> 0x048"
abbreviation (input) DW_MMC_DEBNCE :: nat where "DW_MMC_DEBNCE \<equiv> 0x064"
abbreviation (input) DW_MMC_UHSREG :: nat where "DW_MMC_UHSREG \<equiv> 0x074"
abbreviation (input) DW_MMC_BMOD :: nat where "DW_MMC_BMOD \<equiv> 0x080"
abbreviation (input) DW_MMC_DBADDR :: nat where "DW_MMC_DBADDR \<equiv> 0x088"
abbreviation (input) DW_MMC_IDSTS :: nat where "DW_MMC_IDSTS \<equiv> 0x08c"
abbreviation (input) DW_MMC_IDINTEN :: nat where "DW_MMC_IDINTEN \<equiv> 0x090"
abbreviation (input) DW_MMC_FIFO_START :: nat where "DW_MMC_FIFO_START \<equiv> 0x200"

section \<open>Bits\<close>

definition BIT_CMD_RESPONSE_EXPECT :: u32 where "BIT_CMD_RESPONSE_EXPECT = push_bit 6 1"
definition BIT_CMD_LONG_RESPONSE :: u32 where "BIT_CMD_LONG_RESPONSE = push_bit 7 1"
definition BIT_CMD_CHECK_RESPONSE_CRC :: u32 where "BIT_CMD_CHECK_RESPONSE_CRC = push_bit 8 1"
definition BIT_CMD_DATA_EXPECTED :: u32 where "BIT_CMD_DATA_EXPECTED = push_bit 9 1"
definition BIT_CMD_READ :: u32 where "BIT_CMD_READ = push_bit 10 0"
definition BIT_CMD_WRITE :: u32 where "BIT_CMD_WRITE = push_bit 10 1"
definition BIT_CMD_SEND_AUTO_STOP :: u32 where "BIT_CMD_SEND_AUTO_STOP = push_bit 12 1"
definition BIT_CMD_WAIT_PRVDATA_COMPLETE :: u32 where "BIT_CMD_WAIT_PRVDATA_COMPLETE = push_bit 13 1"
definition BIT_CMD_STOP_ABORT_CMD :: u32 where "BIT_CMD_STOP_ABORT_CMD = push_bit 14 1"
definition BIT_CMD_SEND_INIT :: u32 where "BIT_CMD_SEND_INIT = push_bit 15 1"
definition BIT_CMD_UPDATE_CLOCK_ONLY :: u32 where "BIT_CMD_UPDATE_CLOCK_ONLY = push_bit 21 1"
definition BIT_CMD_USE_HOLD_REG :: u32 where "BIT_CMD_USE_HOLD_REG = push_bit 29 1"
definition BIT_CMD_START :: u32 where "BIT_CMD_START = push_bit 31 1"
definition CMD_START_BIT :: u32 where "CMD_START_BIT = push_bit 31 1"

definition CMD_INDEX :: "nat \<Rightarrow> u32" where "CMD_INDEX x = of_nat x AND 0x3F"

definition DW_MMC_INT_EBE :: u32 where "DW_MMC_INT_EBE = push_bit 15 1"
definition DW_MMC_INT_ACD :: u32 where "DW_MMC_INT_ACD = push_bit 14 1"
definition DW_MMC_INT_SBE :: u32 where "DW_MMC_INT_SBE = push_bit 13 1"
definition DW_MMC_INT_HLE :: u32 where "DW_MMC_INT_HLE = push_bit 12 1"
definition DW_MMC_INT_FRUN :: u32 where "DW_MMC_INT_FRUN = push_bit 11 1"
definition DW_MMC_INT_HTO :: u32 where "DW_MMC_INT_HTO = push_bit 10 1"
definition DW_MMC_INT_DRT :: u32 where "DW_MMC_INT_DRT = push_bit 9 1"
definition DW_MMC_INT_RTO :: u32 where "DW_MMC_INT_RTO = push_bit 8 1"
definition DW_MMC_INT_DCRC :: u32 where "DW_MMC_INT_DCRC = push_bit 7 1"
definition DW_MMC_INT_RCRC :: u32 where "DW_MMC_INT_RCRC = push_bit 6 1"
definition DW_MMC_INT_RXDR :: u32 where "DW_MMC_INT_RXDR = push_bit 5 1"
definition DW_MMC_INT_TXDR :: u32 where "DW_MMC_INT_TXDR = push_bit 4 1"
definition DW_MMC_INT_DTO :: u32 where "DW_MMC_INT_DTO = push_bit 3 1"
definition DW_MMC_INT_CMD_DONE :: u32 where "DW_MMC_INT_CMD_DONE = push_bit 2 1"
definition DW_MMC_INT_RE :: u32 where "DW_MMC_INT_RE = push_bit 1 1"

definition DW_MMC_INT_DATA_ERR :: u32 where
  "DW_MMC_INT_DATA_ERR = DW_MMC_INT_EBE OR DW_MMC_INT_SBE OR DW_MMC_INT_HLE OR DW_MMC_INT_FRUN OR DW_MMC_INT_DCRC OR
     DW_MMC_INT_HTO OR DW_MMC_INT_DRT"

definition DW_MMC_CTRL_RESET :: u32 where "DW_MMC_CTRL_RESET = push_bit 0 1"
definition DW_MMC_CTRL_FIFO_RESET :: u32 where "DW_MMC_CTRL_FIFO_RESET = push_bit 1 1"
definition DW_MMC_CTRL_DMA_RESET :: u32 where "DW_MMC_CTRL_DMA_RESET = push_bit 2 1"
definition DW_MMC_CTRL_INT_EN :: u32 where "DW_MMC_CTRL_INT_EN = push_bit 4 1"
definition DW_MMC_CTRL_IDMAC_EN :: u32 where "DW_MMC_CTRL_IDMAC_EN = push_bit 25 1"
definition DW_MMC_CTRL_RESET_ALL :: u32 where
  "DW_MMC_CTRL_RESET_ALL = DW_MMC_CTRL_RESET OR DW_MMC_CTRL_FIFO_RESET OR DW_MMC_CTRL_DMA_RESET"

definition DW_MMC_STS_DATA_BUSY :: u32 where "DW_MMC_STS_DATA_BUSY = push_bit 9 1"
definition GET_STS_FIFO_COUNT :: "u32 \<Rightarrow> nat" where "GET_STS_FIFO_COUNT x = unat (drop_bit 17 x AND 0x1fff)"
definition DW_MMC_STS_FIFO_FULL :: "u32 \<Rightarrow> bool" where "DW_MMC_STS_FIFO_FULL x \<longleftrightarrow> drop_bit 3 x AND 1 \<noteq> 0"

definition DW_MMC_IDMAC_SWRESET :: u32 where "DW_MMC_IDMAC_SWRESET = push_bit 0 1"
definition DW_MMC_IDMAC_FB :: u32 where "DW_MMC_IDMAC_FB = push_bit 1 1"
definition DW_MMC_IDMAC_ENABLE :: u32 where "DW_MMC_IDMAC_ENABLE = push_bit 7 1"
definition DW_MMC_BMOD_SWR :: u32 where "DW_MMC_BMOD_SWR = push_bit 0 1"
definition DW_MMC_BMOD_FB :: u32 where "DW_MMC_BMOD_FB = push_bit 1 1"
definition DW_MMC_BMOD_DE :: u32 where "DW_MMC_BMOD_DE = push_bit 7 1"
definition DW_MMC_IDSTS_TI :: u32 where "DW_MMC_IDSTS_TI = push_bit 0 1"
definition DW_MMC_IDSTS_RI :: u32 where "DW_MMC_IDSTS_RI = push_bit 1 1"
definition UHS_DDR_MODE :: u32 where "UHS_DDR_MODE = push_bit 16 1"
definition MMC_8BIT_MODE :: u32 where "MMC_8BIT_MODE = push_bit 16 1"
definition MMC_4BIT_MODE :: u32 where "MMC_4BIT_MODE = push_bit 0 1"
definition MMC_1BIT_MODE :: u32 where "MMC_1BIT_MODE = 0"

abbreviation (input) DW_MMC_BLOCK_SIZE :: nat where "DW_MMC_BLOCK_SIZE \<equiv> 512"
abbreviation (input) DWMMC_DMA_BUF_SIZE :: nat where "DWMMC_DMA_BUF_SIZE \<equiv> 512 * 8"
definition DWMMC_INIT_CLOCK_FREQ :: nat where "DWMMC_INIT_CLOCK_FREQ = 400"
definition DW_MMC_HC_GENERIC_TIMEOUT :: nat where "DW_MMC_HC_GENERIC_TIMEOUT = 1000 * 1000"

section \<open>The platform's description of the slot\<close>

datatype SD_MMC_SLOT_TYPE = RemovableSlot | EmbeddedSlot | SharedBusSlot | UnknownSlot

datatype SD_MMC_CARD_TYPE = UnknownCardType | SdCardType | SdioCardType | MmcCardType | EmmcCardType

record DW_MMC_HC_SLOT_CAP =
  CapHighSpeed :: bool
  CapSdr50 :: bool
  CapSdr104 :: bool
  CapDdr50 :: bool
  CapBusWidth :: nat
  CapSlotType :: SD_MMC_SLOT_TYPE
  CapCardType :: SD_MMC_CARD_TYPE
  Voltage18 :: bool
  Voltage30 :: bool
  Voltage33 :: bool
  BaseClkFreq :: nat

section \<open>The log and the environment\<close>

text \<open>What is mapped: the data of a request, with whether the device is to write it, or the descriptors.\<close>

datatype mmc_map = mmData bool | mmDescriptors

datatype mmc_guid = gEfiDevicePath | gNonDiscoverableDevice | gSdMmcPassThru | gEfiPciIo

datatype mmc_timer = AsyncTimer | ConnectTimer

text \<open>The calls of the driver binding: protocols, the private data, the two events.\<close>

datatype mmc_binding =
    Opened mmc_guid efi_status
  | Closed mmc_guid
  | PrivateAllocated "ptr option"
  | PrivateFreed
  | EventCreated mmc_timer efi_status
  | TimerSet mmc_timer efi_status
  | EventClosed mmc_timer
  | PassThruInstalled efi_status
  | PassThruUninstalled efi_status

datatype mmc_call =
    Read32 nat
  | Write32 nat u32
  | Delay nat
  | TrbAllocate "ptr option"
  | TrbFree ptr
  | DmaAllocate nat "ptr option"
  | DmaMapped mmc_map "ptr option"
  | DmaUnmapped ptr
  | SignalMmc efi_event
  | PassThruReinstalled
  | Binding mmc_binding

type_synonym mmc_log = "mmc_call list"

text \<open>\<open>mmDmaMap\<close>: for the address and the length to map, the status, the length mapped, the bus address and the
  mapping.\<close>

record mmc_env =
  mmRead :: "mmc_log \<Rightarrow> nat \<Rightarrow> u32"
  mmTrbAllocate :: "mmc_log \<Rightarrow> ptr option"
  mmDmaAllocate :: "mmc_log \<Rightarrow> nat \<Rightarrow> ptr option"
  mmDmaMap :: "mmc_log \<Rightarrow> mmc_map \<Rightarrow> nat \<Rightarrow> nat \<Rightarrow> efi_status \<times> nat \<times> nat \<times> ptr"
  mmCardDetect :: "mmc_log \<Rightarrow> bool"
  mmLocatePlatform :: "mmc_log \<Rightarrow> efi_status"
  mmCapability :: "mmc_log \<Rightarrow> efi_status \<times> DW_MMC_HC_SLOT_CAP"
  mmStackBool :: bool  \<comment> \<open>what an uninitialised local variable holds\<close>

definition MmioRead32 :: "mmc_env \<Rightarrow> nat \<Rightarrow> mmc_log \<Rightarrow> u32 \<times> mmc_log" where
  "MmioRead32 e r l = (mmRead e l r, l @ [Read32 r])"

definition MmioWrite32 :: "nat \<Rightarrow> u32 \<Rightarrow> mmc_log \<Rightarrow> mmc_log" where
  "MmioWrite32 r v l = l @ [Write32 r v]"

definition MicroSecondDelay :: "nat \<Rightarrow> mmc_log \<Rightarrow> mmc_log" where
  "MicroSecondDelay n l = l @ [Delay n]"

section \<open>Interrupts, the slot, the card\<close>

text \<open>The mask register is written with zeros.\<close>

definition DwMmcHcEnableInterrupt :: "mmc_log \<Rightarrow> efi_status \<times> mmc_log" where
  "DwMmcHcEnableInterrupt l =
     (EFI_SUCCESS,
      MmioWrite32 DW_MMC_IDSTS (NOT 0) (MmioWrite32 DW_MMC_IDINTEN (NOT 0)
        (MmioWrite32 DW_MMC_RINTSTS (NOT 0) (MmioWrite32 DW_MMC_INTMASK 0 l))))"

text \<open>The second component is what the caller's buffer holds afterwards; \<open>None\<close> is a NULL pointer.\<close>

definition DwMmcHcGetCapability ::
  "mmc_env \<Rightarrow> DW_MMC_HC_SLOT_CAP option \<Rightarrow> mmc_log \<Rightarrow> efi_status \<times> DW_MMC_HC_SLOT_CAP option" where
  "DwMmcHcGetCapability e Capacity l =
     (if Capacity = None then (EFI_INVALID_PARAMETER, None)
      else if EFI_ERROR (mmLocatePlatform e l) then (mmLocatePlatform e l, Capacity)
      else let (Status, c) = mmCapability e l in (Status, Some c))"

definition DwMmcHcCardDetect :: "mmc_env \<Rightarrow> bool option \<Rightarrow> mmc_log \<Rightarrow> efi_status \<times> bool option" where
  "DwMmcHcCardDetect e MediaPresent l =
     (if MediaPresent = None then (EFI_INVALID_PARAMETER, None)
      else if EFI_ERROR (mmLocatePlatform e l) then (mmLocatePlatform e l, MediaPresent)
      else (EFI_SUCCESS, Some (mmCardDetect e l)))"

section \<open>The clock\<close>

partial_function (option) update_clock_loop :: "mmc_env \<Rightarrow> mmc_log \<Rightarrow> (efi_status \<times> mmc_log) option" where
  "update_clock_loop e l =
     (let (Cmd, l1) = MmioRead32 e DW_MMC_CMD l
      in if Cmd AND CMD_START_BIT = 0 then Some (EFI_SUCCESS, l1)
         else let (IntStatus, l2) = MmioRead32 e DW_MMC_RINTSTS l1
              in if IntStatus AND DW_MMC_INT_HLE \<noteq> 0 then Some (EFI_DEVICE_ERROR, l2) else update_clock_loop e l2)"

definition clock_command :: u32 where
  "clock_command = BIT_CMD_WAIT_PRVDATA_COMPLETE OR BIT_CMD_UPDATE_CLOCK_ONLY OR BIT_CMD_START"

definition DwMmcHcUpdateClock :: "mmc_env \<Rightarrow> mmc_log \<Rightarrow> (efi_status \<times> mmc_log) option" where
  "DwMmcHcUpdateClock e l = update_clock_loop e (MmioWrite32 DW_MMC_CMD clock_command l)"

definition DwMmcHcStopClock :: "mmc_env \<Rightarrow> mmc_log \<Rightarrow> (efi_status \<times> mmc_log) option" where
  "DwMmcHcStopClock e l = DwMmcHcUpdateClock e (MmioWrite32 DW_MMC_CLKENA 0 l)"

text \<open>The divisor: 32-bit variables, a 64-bit requested frequency.  \<open>None\<close> also stands for the division by zero.\<close>

partial_function (option) divisor_loop :: "nat \<Rightarrow> nat \<Rightarrow> nat \<Rightarrow> nat \<Rightarrow> nat option" where
  "divisor_loop ClockFreq Base Divisor SettingFreq =
     (if ClockFreq < SettingFreq
      then let D = wrap32 (Divisor + 1); q = wrap32 (2 * D)
           in if q = 0 then None
              else let Setting = Base div q; Remainder = Base mod q
                   in if ClockFreq = Setting \<and> Remainder = 0 then Some D
                      else divisor_loop ClockFreq Base D
                             (if ClockFreq = Setting \<and> Remainder \<noteq> 0 then wrap32 (Setting + 1) else Setting)
      else Some Divisor)"

partial_function (option) wait_idle :: "mmc_env \<Rightarrow> mmc_log \<Rightarrow> mmc_log option" where
  "wait_idle e l =
     (let (MmcStatus, l1) = MmioRead32 e DW_MMC_STATUS l
      in if MmcStatus AND DW_MMC_STS_DATA_BUSY \<noteq> 0 then wait_idle e l1 else Some l1)"

partial_function (option) stop_clock_loop :: "mmc_env \<Rightarrow> mmc_log \<Rightarrow> mmc_log option" where
  "stop_clock_loop e l =
     Option.bind (DwMmcHcStopClock e l) (\<lambda>(Status, l1). if EFI_ERROR Status then stop_clock_loop e l1 else Some l1)"

definition set_clock :: "nat \<Rightarrow> mmc_log \<Rightarrow> mmc_log" where
  "set_clock Divisor l =
     MmioWrite32 DW_MMC_CLKENA 1 (MmioWrite32 DW_MMC_CLKDIV (of_nat Divisor) (MmioWrite32 DW_MMC_CLKSRC 0 l))"

partial_function (option) start_clock_loop :: "mmc_env \<Rightarrow> nat \<Rightarrow> mmc_log \<Rightarrow> mmc_log option" where
  "start_clock_loop e Divisor l =
     Option.bind (DwMmcHcUpdateClock e (set_clock Divisor l))
       (\<lambda>(Status, l1). if EFI_ERROR Status then start_clock_loop e Divisor l1 else Some l1)"

definition DwMmcHcClockSupply ::
  "mmc_env \<Rightarrow> nat \<Rightarrow> DW_MMC_HC_SLOT_CAP \<Rightarrow> mmc_log \<Rightarrow> (efi_status \<times> mmc_log) option" where
  "DwMmcHcClockSupply e ClockFreq Capability l =
     (if ClockFreq = 0 then Some (EFI_INVALID_PARAMETER, l)
      else let Base = BaseClkFreq Capability
      in Option.bind (divisor_loop (min ClockFreq Base) Base 0 Base) (\<lambda>Divisor.
         Option.bind (wait_idle e l) (\<lambda>l1.
         Option.bind (stop_clock_loop e l1) (\<lambda>l2.
         map_option (Pair EFI_SUCCESS) (start_clock_loop e Divisor l2)))))"

definition DwMmcHcInitClockFreq :: "mmc_env \<Rightarrow> DW_MMC_HC_SLOT_CAP \<Rightarrow> mmc_log \<Rightarrow> (efi_status \<times> mmc_log) option" where
  "DwMmcHcInitClockFreq e Capability l =
     (if BaseClkFreq Capability = 0 then Some (EFI_UNSUPPORTED, l)
      else map_option (\<lambda>(Status, l1). (Status, if EFI_ERROR Status then l1 else MicroSecondDelay 100 l1))
             (DwMmcHcClockSupply e DWMMC_INIT_CLOCK_FREQ Capability l))"

section \<open>Bus width, reset, power\<close>

definition DwMmcHcSetBusWidth :: "mmc_env \<Rightarrow> bool \<Rightarrow> nat \<Rightarrow> mmc_log \<Rightarrow> efi_status \<times> mmc_log" where
  "DwMmcHcSetBusWidth e IsDdr BusWidth l =
     (case (if BusWidth = 1 then Some MMC_1BIT_MODE else if BusWidth = 4 then Some MMC_4BIT_MODE
            else if BusWidth = 8 then Some MMC_8BIT_MODE else None) of
        None \<Rightarrow> (EFI_INVALID_PARAMETER, l)
      | Some Ctype \<Rightarrow>
          let (Uhs, l1) = MmioRead32 e DW_MMC_UHSREG (MmioWrite32 DW_MMC_CTYPE Ctype l)
          in (EFI_SUCCESS, MmioWrite32 DW_MMC_UHSREG (if IsDdr then Uhs OR UHS_DDR_MODE else Uhs AND NOT UHS_DDR_MODE) l1))"

fun wait_reset_loop :: "mmc_env \<Rightarrow> nat \<Rightarrow> mmc_log \<Rightarrow> efi_status \<times> mmc_log" where
  "wait_reset_loop e 0 l = (EFI_TIMEOUT, l)"
| "wait_reset_loop e (Suc Timeout) l =
     (let (Data, l1) = MmioRead32 e DW_MMC_CTRL l
      in if Data AND DW_MMC_CTRL_RESET_ALL = 0 then (EFI_SUCCESS, l1)
         else wait_reset_loop e Timeout (MicroSecondDelay 1 l1))"

definition DwMmcHcWaitReset :: "mmc_env \<Rightarrow> u32 \<Rightarrow> mmc_log \<Rightarrow> efi_status \<times> mmc_log" where
  "DwMmcHcWaitReset e ResetValue l = wait_reset_loop e DW_MMC_HC_GENERIC_TIMEOUT (MmioWrite32 DW_MMC_CTRL ResetValue l)"

definition DwMmcHcInitPowerVoltage :: "mmc_env \<Rightarrow> mmc_log \<Rightarrow> efi_status \<times> mmc_log" where
  "DwMmcHcInitPowerVoltage e l =
     (let (Status, l1) = DwMmcHcWaitReset e DW_MMC_CTRL_RESET_ALL (MmioWrite32 DW_MMC_PWREN 1 l)
      in if EFI_ERROR Status then (Status, l1) else (EFI_SUCCESS, MmioWrite32 DW_MMC_CTRL DW_MMC_CTRL_INT_EN l1))"

definition DwMmcHcInitTimeoutCtrl :: "mmc_log \<Rightarrow> efi_status \<times> mmc_log" where
  "DwMmcHcInitTimeoutCtrl l = (EFI_SUCCESS, MmioWrite32 DW_MMC_DEBNCE 0x00FFFFFF (MmioWrite32 DW_MMC_TMOUT (NOT 0) l))"

definition DwMmcHcInitHost :: "mmc_env \<Rightarrow> mmc_log \<Rightarrow> efi_status \<times> mmc_log" where
  "DwMmcHcInitHost e l = DwMmcHcInitPowerVoltage e l"

definition DwMmcHcReset :: "mmc_env \<Rightarrow> DW_MMC_HC_SLOT_CAP \<Rightarrow> mmc_log \<Rightarrow> (efi_status \<times> mmc_log) option" where
  "DwMmcHcReset e Capability l =
     (let (Status, l1) = DwMmcHcEnableInterrupt l
      in if EFI_ERROR Status then Some (Status, l1)
         else let (Status, l2) = DwMmcHcInitTimeoutCtrl l1
         in if EFI_ERROR Status then Some (Status, l2)
         else map_option (\<lambda>(Status, l3). if EFI_ERROR Status then (Status, l3) else DwMmcHcSetBusWidth e False 1 l3)
                (DwMmcHcInitClockFreq e Capability (MmioWrite32 DW_MMC_BLKSIZ (of_nat DW_MMC_BLOCK_SIZE) l2)))"

section \<open>The DMA engine\<close>

definition DwMmcHcStartDma :: "mmc_env \<Rightarrow> mmc_log \<Rightarrow> efi_status \<times> mmc_log" where
  "DwMmcHcStartDma e l =
     (let (Status, l1) = DwMmcHcWaitReset e DW_MMC_CTRL_DMA_RESET l
      in if EFI_ERROR Status then (Status, l1)
         else let (Bmod, l2) = MmioRead32 e DW_MMC_BMOD l1;
                  l3 = MmioWrite32 DW_MMC_BMOD (DW_MMC_IDMAC_SWRESET OR Bmod) l2;
                  (Ctrl, l4) = MmioRead32 e DW_MMC_CTRL l3;
                  l5 = MmioWrite32 DW_MMC_CTRL (DW_MMC_CTRL_IDMAC_EN OR Ctrl) l4;
                  (Bmod, l6) = MmioRead32 e DW_MMC_BMOD l5
              in (EFI_SUCCESS, MmioWrite32 DW_MMC_BMOD (DW_MMC_IDMAC_ENABLE OR DW_MMC_IDMAC_FB OR Bmod) l6))"

definition DwMmcHcStopDma :: "mmc_env \<Rightarrow> mmc_log \<Rightarrow> efi_status \<times> mmc_log" where
  "DwMmcHcStopDma e l =
     (let (Ctrl, l1) = MmioRead32 e DW_MMC_CTRL l;
          l2 = MmioWrite32 DW_MMC_CTRL ((Ctrl AND NOT DW_MMC_CTRL_IDMAC_EN) OR DW_MMC_CTRL_DMA_RESET) l1;
          (Bmod, l3) = MmioRead32 e DW_MMC_BMOD l2
      in (EFI_SUCCESS, MmioWrite32 DW_MMC_BMOD ((Bmod AND NOT (DW_MMC_BMOD_FB OR DW_MMC_BMOD_DE)) OR DW_MMC_BMOD_SWR) l3))"

end
