(* ===== verification/MmcTransfer.thy ===== *)
theory MmcTransfer
  imports MmcHost
begin

text \<open>
  Transfer requests of the MMC host controller driver (\<open>Drivers/DwMmcHcDxe/DwMmcHci.c\<close> from
  \<open>BuildDmaDescTable\<close> on): building a request, moving its data through the FIFO or handing it to the DMA
  engine, sending the command and waiting for its completion.

  A request refers to its command packet by address; the functions below take the packet it points to and
  return it with the response.  What the DMA engine itself writes to memory is not part of the code and not
  modelled; the descriptors the code writes for it are.
\<close>

section \<open>Commands\<close>

datatype EFI_SD_MMC_COMMAND_TYPE =
  SdMmcCommandTypeBc | SdMmcCommandTypeBcr | SdMmcCommandTypeAc | SdMmcCommandTypeAdtc

datatype EFI_SD_MMC_RESPONSE_TYPE =
  SdMmcResponseTypeR1 | SdMmcResponseTypeR1b | SdMmcResponseTypeR2 | SdMmcResponseTypeR3 | SdMmcResponseTypeR4
| SdMmcResponseTypeR5 | SdMmcResponseTypeR5b | SdMmcResponseTypeR6 | SdMmcResponseTypeR7

text \<open>The packet with its command and status blocks, which may be missing; a buffer address 0 is NULL.\<close>

record EFI_SD_MMC_PACKET =
  SdMmcCmdBlk :: bool
  SdMmcStatusBlk :: bool
  CommandIndex :: nat
  CommandArgument :: u32
  CommandType :: EFI_SD_MMC_COMMAND_TYPE
  ResponseType :: EFI_SD_MMC_RESPONSE_TYPE
  Resp0 :: u32
  Resp1 :: u32
  Resp2 :: u32
  Resp3 :: u32
  InDataBuffer :: ptr
  OutDataBuffer :: ptr
  InTransferLength :: nat
  OutTransferLength :: nat
  PacketTimeout :: nat
  TransactionStatus :: efi_status

abbreviation (input) SD_GO_IDLE_STATE :: nat where "SD_GO_IDLE_STATE \<equiv> 0"
abbreviation (input) SD_SET_RELATIVE_ADDR :: nat where "SD_SET_RELATIVE_ADDR \<equiv> 3"
abbreviation (input) SD_SEND_CSD :: nat where "SD_SEND_CSD \<equiv> 9"
abbreviation (input) SD_SEND_CID :: nat where "SD_SEND_CID \<equiv> 10"
abbreviation (input) SD_STOP_TRANSMISSION :: nat where "SD_STOP_TRANSMISSION \<equiv> 12"
abbreviation (input) SD_SEND_TUNING_BLOCK :: nat where "SD_SEND_TUNING_BLOCK \<equiv> 19"
abbreviation (input) SD_SEND_SCR :: nat where "SD_SEND_SCR \<equiv> 51"
abbreviation (input) EMMC_GO_IDLE_STATE :: nat where "EMMC_GO_IDLE_STATE \<equiv> 0"
abbreviation (input) EMMC_SEND_OP_COND :: nat where "EMMC_SEND_OP_COND \<equiv> 1"
abbreviation (input) EMMC_ALL_SEND_CID :: nat where "EMMC_ALL_SEND_CID \<equiv> 2"
abbreviation (input) EMMC_SET_RELATIVE_ADDR :: nat where "EMMC_SET_RELATIVE_ADDR \<equiv> 3"
abbreviation (input) EMMC_SEND_CSD :: nat where "EMMC_SEND_CSD \<equiv> 9"
abbreviation (input) EMMC_STOP_TRANSMISSION :: nat where "EMMC_STOP_TRANSMISSION \<equiv> 12"
abbreviation (input) EMMC_SEND_STATUS :: nat where "EMMC_SEND_STATUS \<equiv> 13"
abbreviation (input) EMMC_SEND_TUNING_BLOCK :: nat where "EMMC_SEND_TUNING_BLOCK \<equiv> 21"

section \<open>Transfer requests\<close>

text \<open>\<open>TrbBlock\<close> is the request's own address.  \<open>BlockSize\<close> and \<open>DmaDescPages\<close> are written and never read.\<close>

record DW_MMC_HC_TRB =
  TrbBlock :: ptr
  TrbSlot :: nat
  TrbPacket :: ptr
  TrbData :: nat
  TrbDataLen :: nat
  TrbRead :: bool
  DataPhy :: nat
  DataMap :: "ptr option"
  TrbEvent :: "efi_event option"
  Started :: bool
  TrbTimeout :: nat
  DmaDesc :: nat
  DmaDescPhy :: nat
  DmaMap :: "ptr option"
  UseFifo :: bool
  UseBE :: bool

section \<open>DMA descriptors\<close>

definition DW_MMC_IDMAC_DES0_DIC :: u32 where "DW_MMC_IDMAC_DES0_DIC = push_bit 1 1"
definition DW_MMC_IDMAC_DES0_LD :: u32 where "DW_MMC_IDMAC_DES0_LD = push_bit 2 1"
definition DW_MMC_IDMAC_DES0_FS :: u32 where "DW_MMC_IDMAC_DES0_FS = push_bit 3 1"
definition DW_MMC_IDMAC_DES0_CH :: u32 where "DW_MMC_IDMAC_DES0_CH = push_bit 4 1"
definition DW_MMC_IDMAC_DES0_OWN :: u32 where "DW_MMC_IDMAC_DES0_OWN = push_bit 31 1"
definition DW_MMC_IDMAC_DES1_BS1 :: "nat \<Rightarrow> u32" where "DW_MMC_IDMAC_DES1_BS1 x = of_nat x AND 0x1fff"

definition sizeof_DMA_DESC_LINE :: nat where "sizeof_DMA_DESC_LINE = 16"

definition des_addr :: "nat \<Rightarrow> nat \<Rightarrow> nat \<Rightarrow> nat" where
  "des_addr Desc Index k = Desc + sizeof_DMA_DESC_LINE * Index + 4 * k"

definition update32 :: "nat \<Rightarrow> (u32 \<Rightarrow> u32) \<Rightarrow> mem \<Rightarrow> mem" where
  "update32 a f m = write32 a (f (read32 m a)) m"

text \<open>One turn of the loop over the descriptors: the line and the bytes left, a 64-bit number that may wrap.\<close>

definition describe :: "DW_MMC_HC_TRB \<Rightarrow> nat \<Rightarrow> mem \<times> nat \<Rightarrow> mem \<times> nat" where
  "describe Trb Index = (\<lambda>(m, Remaining).
     (write32 (des_addr (DmaDesc Trb) Index 3) (of_nat (DmaDescPhy Trb + sizeof_DMA_DESC_LINE * (Index + 1)))
       (write32 (des_addr (DmaDesc Trb) Index 2) (of_nat (DataPhy Trb + DWMMC_DMA_BUF_SIZE * Index))
         (write32 (des_addr (DmaDesc Trb) Index 1) (DW_MMC_IDMAC_DES1_BS1 DWMMC_DMA_BUF_SIZE)
           (write32 (des_addr (DmaDesc Trb) Index 0)
              (DW_MMC_IDMAC_DES0_OWN OR DW_MMC_IDMAC_DES0_CH OR DW_MMC_IDMAC_DES0_DIC) m))),
      wrap (Remaining + 2 ^ 64 - DWMMC_DMA_BUF_SIZE)))"

definition describe_ends :: "DW_MMC_HC_TRB \<Rightarrow> nat \<Rightarrow> nat \<Rightarrow> mem \<Rightarrow> mem" where
  "describe_ends Trb Entries Remaining m =
     (let m1 = update32 (des_addr (DmaDesc Trb) 0 0) (\<lambda>d. d OR DW_MMC_IDMAC_DES0_FS) m;
          final = Entries - 1;
          m2 = update32 (des_addr (DmaDesc Trb) final 0) (\<lambda>d. d AND NOT (DW_MMC_IDMAC_DES0_CH OR DW_MMC_IDMAC_DES0_DIC)) m1;
          m3 = update32 (des_addr (DmaDesc Trb) final 0) (\<lambda>d. d OR (DW_MMC_IDMAC_DES0_OWN OR DW_MMC_IDMAC_DES0_LD)) m2;
          m4 = write32 (des_addr (DmaDesc Trb) final 1) (DW_MMC_IDMAC_DES1_BS1 (wrap (Remaining + DWMMC_DMA_BUF_SIZE))) m3
      in write32 (des_addr (DmaDesc Trb) final 3) 0 m4)"

text \<open>The number of bytes the controller is told to move: whole blocks from 512 bytes on.\<close>

definition transfer_bytes :: "nat \<Rightarrow> nat" where
  "transfer_bytes DataLen =
     (if DataLen < DW_MMC_BLOCK_SIZE then DataLen
      else DW_MMC_BLOCK_SIZE * ((DataLen + DW_MMC_BLOCK_SIZE - 1) div DW_MMC_BLOCK_SIZE))"

definition BuildDmaDescTable ::
  "mmc_env \<Rightarrow> DW_MMC_HC_TRB \<Rightarrow> mmc_log \<Rightarrow> mem \<Rightarrow> efi_status \<times> DW_MMC_HC_TRB \<times> mmc_log \<times> mem" where
  "BuildDmaDescTable e Trb l m =
     (let Data = DataPhy Trb; DataLen = TrbDataLen Trb
      in if 0x100000000 \<le> Data \<or> 0x100000000 < Data + DataLen then (EFI_INVALID_PARAMETER, Trb, l, m)
         else let Entries = (DataLen + DWMMC_DMA_BUF_SIZE - 1) div DWMMC_DMA_BUF_SIZE;
                  TableSize = Entries * sizeof_DMA_DESC_LINE;
                  Desc = mmDmaAllocate e l TableSize;
                  l1 = l @ [DmaAllocate TableSize Desc]
         in case Desc of None \<Rightarrow> (EFI_OUT_OF_RESOURCES, Trb, l1, m)
         | Some D \<Rightarrow>
             let m1 = SetMem D TableSize 0 m;
                 (Status, Bytes, Phy, M) = mmDmaMap e l1 mmDescriptors D TableSize;
                 l2 = l1 @ [DmaMapped mmDescriptors (if EFI_ERROR Status then None else Some M)];
                 Trb1 = Trb\<lparr>DmaDesc := D\<rparr>
             in if EFI_ERROR Status \<or> Bytes \<noteq> TableSize then (EFI_OUT_OF_RESOURCES, Trb1, l2, m1)
                else let Trb2 = Trb1\<lparr>DmaDescPhy := Phy, DmaMap := Some M\<rparr>
                in if 0x100000000 < Phy then (EFI_DEVICE_ERROR, Trb2, l2 @ [DmaUnmapped M], m1)
                   else let BlkSize = min DataLen DW_MMC_BLOCK_SIZE; BytCnt = transfer_bytes DataLen;
                            l3 = MmioWrite32 DW_MMC_BYTCNT (of_nat BytCnt) (MmioWrite32 DW_MMC_BLKSIZ (of_nat BlkSize) l2);
                            (m2, Remaining) = fold (describe Trb2) [0..<Entries] (m1, BytCnt);
                            m3 = describe_ends Trb2 Entries Remaining m2
                        in (EFI_SUCCESS, Trb2, MmioWrite32 DW_MMC_IDSTS (NOT 0) (MmioWrite32 DW_MMC_DBADDR (of_nat Phy) l3), m3))"

section \<open>The FIFO\<close>

definition SwapBytes32 :: "u32 \<Rightarrow> u32" where
  "SwapBytes32 v = ucast (byte_of v 3) OR push_bit 8 (ucast (byte_of v 2)) OR push_bit 16 (ucast (byte_of v 1)) OR
     push_bit 24 (ucast (byte_of v 0))"

text \<open>The local variables of the transfer that live across its turns.\<close>

record fifo_state =
  Received :: nat
  Ascending :: nat
  Descending :: nat
  FifoTimeout :: nat
  FifoLog :: mmc_log
  FifoMem :: mem

definition fifo_step :: "bool \<Rightarrow> fifo_state \<Rightarrow> fifo_state" where
  "fifo_step BE s =
     (if BE then s\<lparr>Descending := wrap32 (Descending s + 2 ^ 32 - 4), Received := wrap32 (Received s + 4)\<rparr>
      else s\<lparr>Ascending := wrap32 (Ascending s + 4), Received := wrap32 (Received s + 4)\<rparr>)"

definition fifo_addr :: "DW_MMC_HC_TRB \<Rightarrow> fifo_state \<Rightarrow> nat" where
  "fifo_addr Trb s = wrap (TrbData Trb + (if UseBE Trb then Descending s else Ascending s))"

definition fifo_read_word :: "mmc_env \<Rightarrow> DW_MMC_HC_TRB \<Rightarrow> fifo_state \<Rightarrow> fifo_state" where
  "fifo_read_word e Trb s =
     (let (Data, l) = MmioRead32 e DW_MMC_FIFO_START (FifoLog s);
          Word = (if UseBE Trb then SwapBytes32 Data else Data)
      in fifo_step (UseBE Trb) (s\<lparr>FifoLog := l, FifoMem := write32 (fifo_addr Trb s) Word (FifoMem s)\<rparr>))"

fun fifo_read_words :: "mmc_env \<Rightarrow> DW_MMC_HC_TRB \<Rightarrow> nat \<Rightarrow> fifo_state \<Rightarrow> fifo_state" where
  "fifo_read_words e Trb 0 s = s"
| "fifo_read_words e Trb (Suc n) s = fifo_read_words e Trb n (fifo_read_word e Trb s)"

definition fifo_write_word :: "mmc_env \<Rightarrow> DW_MMC_HC_TRB \<Rightarrow> fifo_state \<Rightarrow> fifo_state" where
  "fifo_write_word e Trb s =
     (let Word = read32 (FifoMem s) (fifo_addr Trb s);
          Data = (if UseBE Trb then SwapBytes32 Word else Word)
      in fifo_step (UseBE Trb)
           (s\<lparr>FifoLog := MmioWrite32 DW_MMC_RINTSTS DW_MMC_INT_TXDR (MmioWrite32 DW_MMC_FIFO_START Data (FifoLog s))\<rparr>))"

text \<open>Filling the FIFO while it has room and asks for data.\<close>

partial_function (option) fifo_fill :: "mmc_env \<Rightarrow> DW_MMC_HC_TRB \<Rightarrow> u32 \<Rightarrow> u32 \<Rightarrow> fifo_state \<Rightarrow> (u32 \<times> fifo_state) option" where
  "fifo_fill e Trb Intsts Sts s =
     (if \<not> DW_MMC_STS_FIFO_FULL Sts \<and> Received s < TrbDataLen Trb \<and> Intsts AND DW_MMC_INT_TXDR \<noteq> 0
      then let s1 = fifo_write_word e Trb s;
               (Intsts', l1) = MmioRead32 e DW_MMC_RINTSTS (FifoLog s1);
               (Sts', l2) = MmioRead32 e DW_MMC_STATUS l1
           in fifo_fill e Trb Intsts' Sts' (s1\<lparr>FifoLog := l2\<rparr>)
      else Some (Intsts, s))"

text \<open>One turn up to the label \<open>Verify\<close>, with the interrupt status it arrives there with.\<close>

definition fifo_turn :: "mmc_env \<Rightarrow> DW_MMC_HC_TRB \<Rightarrow> fifo_state \<Rightarrow> (u32 \<times> fifo_state) option" where
  "fifo_turn e Trb s =
     (let (Intsts, l1) = MmioRead32 e DW_MMC_RINTSTS (FifoLog s); s1 = s\<lparr>FifoLog := l1\<rparr>
      in if \<not> TrbRead Trb \<and> Intsts AND DW_MMC_INT_TXDR \<noteq> 0
         then let (Sts, l2) = MmioRead32 e DW_MMC_STATUS l1
              in map_option (apsnd (\<lambda>s2. s2\<lparr>FifoTimeout := DW_MMC_HC_GENERIC_TIMEOUT\<rparr>))
                   (fifo_fill e Trb Intsts Sts (s1\<lparr>FifoLog := l2\<rparr>))
         else if TrbRead Trb \<and> (Intsts AND DW_MMC_INT_RXDR \<noteq> 0 \<or> Intsts AND DW_MMC_INT_DTO \<noteq> 0)
         then let (Sts, l2) = MmioRead32 e DW_MMC_STATUS l1; s2 = s1\<lparr>FifoLog := l2\<rparr>;
                  FifoCount = GET_STS_FIFO_COUNT Sts * 4
              in if FifoCount = 0 \<and> Received s < TrbDataLen Trb then Some (Intsts, s2)
                 else Some (Intsts, (fifo_read_words e Trb ((min FifoCount (TrbDataLen Trb) + 3) div 4) s2)
                                      \<lparr>FifoTimeout := DW_MMC_HC_GENERIC_TIMEOUT\<rparr>)
         else Some (Intsts, s1))"

definition fifo_start :: "DW_MMC_HC_TRB \<Rightarrow> mmc_log \<Rightarrow> mem \<Rightarrow> fifo_state" where
  "fifo_start Trb l m =
     \<lparr>Received = 0, Ascending = 0, Descending = wrap32 (4 * ((TrbDataLen Trb + 3) div 4) + 2 ^ 32 - 4),
      FifoTimeout = DW_MMC_HC_GENERIC_TIMEOUT, FifoLog = l, FifoMem = m\<rparr>"

partial_function (option) fifo_loop :: "mmc_env \<Rightarrow> DW_MMC_HC_TRB \<Rightarrow> fifo_state \<Rightarrow> (efi_status \<times> fifo_state) option" where
  "fifo_loop e Trb s =
     Option.bind (fifo_turn e Trb s) (\<lambda>(Intsts, s1).
       if Intsts AND DW_MMC_INT_DATA_ERR \<noteq> 0 then Some (EFI_DEVICE_ERROR, s1)
       else let s2 = (if FifoTimeout s1 < DW_MMC_HC_GENERIC_TIMEOUT then s1\<lparr>FifoLog := MicroSecondDelay 1 (FifoLog s1)\<rparr> else s1);
                s3 = s2\<lparr>FifoTimeout := FifoTimeout s2 - 1\<rparr>
            in if FifoTimeout s3 = 0 then Some (EFI_TIMEOUT, s3)
               else if Received s3 < TrbDataLen Trb then fifo_loop e Trb s3 else Some (EFI_SUCCESS, s3))"

definition TransferFifo :: "mmc_env \<Rightarrow> DW_MMC_HC_TRB \<Rightarrow> mmc_log \<Rightarrow> mem \<Rightarrow> (efi_status \<times> mmc_log \<times> mem) option" where
  "TransferFifo e Trb l m =
     map_option (\<lambda>(Status, s). (Status, FifoLog s, FifoMem s)) (fifo_loop e Trb (fifo_start Trb l m))"

end
