(* ===== verification/MmcHostCorrect.thy ===== *)
theory MmcHostCorrect
  imports MmcHost
begin

text \<open>
  The lowest layer of the MMC host controller driver: the clock divisor, the order in which the clock is
  changed, and the bounded and unbounded waits for the controller.
\<close>

section \<open>Writes\<close>

text \<open>The register writes of a log, in order.\<close>

fun write_of :: "mmc_call \<Rightarrow> (nat \<times> u32) list" where
  "write_of (Write32 r v) = [(r, v)]"
| "write_of _ = []"

definition reg_writes :: "mmc_log \<Rightarrow> (nat \<times> u32) list" where
  "reg_writes l = concat (map write_of l)"

named_theorems mmc_simps \<open>the register accesses as log entries\<close>

lemma reg_writes_simps [simp]:
  "reg_writes [] = []" "reg_writes (c # l) = write_of c @ reg_writes l" "reg_writes (l @ l') = reg_writes l @ reg_writes l'"
  by (simp_all add: reg_writes_def)

lemma MmioRead32_simps [simp, mmc_simps]: "MmioRead32 e r l = (mmRead e l r, l @ [Read32 r])"
  by (simp add: MmioRead32_def)

lemma MmioWrite32_simps [simp, mmc_simps]: "MmioWrite32 r v l = l @ [Write32 r v]"
  by (simp add: MmioWrite32_def)

lemma MicroSecondDelay_simps [simp, mmc_simps]: "MicroSecondDelay n l = l @ [Delay n]"
  by (simp add: MicroSecondDelay_def)

section \<open>Polling\<close>

text \<open>From whatever log on, after some number of turns of a polling loop a register satisfies a predicate.\<close>

definition settles :: "mmc_env \<Rightarrow> mmc_log \<Rightarrow> nat \<Rightarrow> (u32 \<Rightarrow> bool) \<Rightarrow> bool" where
  "settles e turn r P \<longleftrightarrow> (\<forall>l. \<exists>n. P (mmRead e (l @ concat (replicate n turn)) r))"

definition turns :: "nat \<Rightarrow> mmc_log \<Rightarrow> mmc_log" where
  "turns n turn = concat (replicate n turn)"

lemma turns_simps [simp]: "turns 0 t = []" "turns (Suc n) t = t @ turns n t"
  by (simp_all add: turns_def)

lemma reg_writes_turns: "reg_writes t = [] \<Longrightarrow> reg_writes (turns n t) = []"
  by (induction n) simp_all

lemma settlesE:
  assumes "settles e turn r P"
  obtains n where "P (mmRead e (l @ turns n turn) r)"
  using assms by (auto simp: settles_def turns_def)

lemma wait_idle_returns:
  assumes "mmRead e (l @ turns n [Read32 DW_MMC_STATUS]) DW_MMC_STATUS AND DW_MMC_STS_DATA_BUSY = 0"
  shows "\<exists>k. wait_idle e l = Some (l @ turns k [Read32 DW_MMC_STATUS])"
  using assms
proof (induction n arbitrary: l)
  case 0
  then show ?case by (subst wait_idle.simps) (auto intro: exI [where x = 1])
next
  case (Suc n)
  show ?case
  proof (cases "mmRead e l DW_MMC_STATUS AND DW_MMC_STS_DATA_BUSY = 0")
    case True
    then show ?thesis by (subst wait_idle.simps) (auto intro: exI [where x = 1])
  next
    case False
    from Suc.IH [of "l @ [Read32 DW_MMC_STATUS]"] Suc.prems obtain k where
      "wait_idle e (l @ [Read32 DW_MMC_STATUS]) = Some ((l @ [Read32 DW_MMC_STATUS]) @ turns k [Read32 DW_MMC_STATUS])"
      by auto
    with False show ?thesis by (subst wait_idle.simps) (auto intro: exI [where x = "Suc k"])
  qed
qed

abbreviation clock_turn :: mmc_log where
  "clock_turn \<equiv> [Read32 DW_MMC_CMD, Read32 DW_MMC_RINTSTS]"

lemma update_clock_returns:
  assumes "mmRead e (l @ turns n clock_turn) DW_MMC_CMD AND CMD_START_BIT = 0"
    and "\<And>l. mmRead e l DW_MMC_RINTSTS AND DW_MMC_INT_HLE = 0"
  shows "\<exists>k. update_clock_loop e l = Some (EFI_SUCCESS, l @ turns k clock_turn @ [Read32 DW_MMC_CMD])"
  using assms(1)
proof (induction n arbitrary: l)
  case 0
  then show ?case by (subst update_clock_loop.simps) (auto intro: exI [where x = 0])
next
  case (Suc n)
  show ?case
  proof (cases "mmRead e l DW_MMC_CMD AND CMD_START_BIT = 0")
    case True
    then show ?thesis by (subst update_clock_loop.simps) (auto intro: exI [where x = 0])
  next
    case False
    from Suc.IH [of "l @ clock_turn"] Suc.prems obtain k where
      "update_clock_loop e (l @ clock_turn) = Some (EFI_SUCCESS, (l @ clock_turn) @ turns k clock_turn @ [Read32 DW_MMC_CMD])"
      by auto
    with False show ?thesis by (subst update_clock_loop.simps) (auto simp: assms(2) intro: exI [where x = "Suc k"])
  qed
qed

text \<open>A controller that becomes idle and takes the clock commands without a lock error.\<close>

definition takes_clock :: "mmc_env \<Rightarrow> bool" where
  "takes_clock e \<longleftrightarrow>
     settles e [Read32 DW_MMC_STATUS] DW_MMC_STATUS (\<lambda>v. v AND DW_MMC_STS_DATA_BUSY = 0) \<and>
     settles e clock_turn DW_MMC_CMD (\<lambda>v. v AND CMD_START_BIT = 0) \<and>
     (\<forall>l. mmRead e l DW_MMC_RINTSTS AND DW_MMC_INT_HLE = 0)"

lemma takes_clock_update:
  assumes "takes_clock e"
  shows "\<exists>k. DwMmcHcUpdateClock e l = Some (EFI_SUCCESS, l @ [Write32 DW_MMC_CMD clock_command] @ turns k clock_turn @ [Read32 DW_MMC_CMD])"
proof -
  from assms have "settles e clock_turn DW_MMC_CMD (\<lambda>v. v AND CMD_START_BIT = 0)" by (simp add: takes_clock_def)
  from settlesE [OF this, of "l @ [Write32 DW_MMC_CMD clock_command]"] obtain n where
    "mmRead e ((l @ [Write32 DW_MMC_CMD clock_command]) @ turns n clock_turn) DW_MMC_CMD AND CMD_START_BIT = 0" .
  moreover have "mmRead e l DW_MMC_RINTSTS AND DW_MMC_INT_HLE = 0" for l using assms by (simp add: takes_clock_def)
  ultimately show ?thesis using update_clock_returns by (fastforce simp: DwMmcHcUpdateClock_def)
qed

section \<open>The divisor\<close>

text \<open>The loop stops at the first divisor whose clock is not above the requested one.\<close>

lemma divisor_loop_least:
  assumes "0 < F" "B + 2 < 2 ^ 32" "F < S \<longleftrightarrow> 2 * D * F < B" "D = 0 \<or> 2 * (D - 1) * F < B"
  shows "\<exists>D'. divisor_loop F B D S = Some D' \<and> B \<le> 2 * D' * F \<and> (D' = 0 \<or> 2 * (D' - 1) * F < B)"
  using assms(3,4)
proof (induction "B - 2 * D * F" arbitrary: D S rule: less_induct)
  case less
  show ?case
  proof (cases "F < S")
    case False
    then show ?thesis using less.prems by (subst divisor_loop.simps) auto
  next
    case True
    then have below: "2 * D * F < B" using less.prems(1) by simp
    have "2 * D * 1 \<le> 2 * D * F" using assms(1) by (intro mult_le_mono) auto
    then have "2 * D < B" using below by (metis le_less_trans mult.right_neutral)
    then have "2 * (D + 1) < B + 2" by simp
    then have range: "2 * (D + 1) < 2 ^ 32" using assms(2) by (rule less_trans)
    then have range1: "D + 1 < 2 ^ 32" by simp
    define q where "q = 2 * (D + 1)"
    define S1 where "S1 = (if F = B div q \<and> B mod q \<noteq> 0 then B div q + 1 else B div q)"
    have q: "0 < q" "q < 2 ^ 32" using range by (auto simp: q_def)
    have B: "B = q * (B div q) + B mod q" "B mod q < q" using q by auto
    have small: "B div q + 1 < 2 ^ 32" using div_le_dividend [of B q] assms(2) by linarith
    show ?thesis
    proof (cases "F = B div q \<and> B mod q = 0")
      case exact: True
      then have "B = 2 * Suc D * F" using B(1) by (simp add: q_def mult.commute)
      then show ?thesis using True below range range1 exact q
        by (subst divisor_loop.simps) (auto simp: Let_def q_def)
    next
      case inexact: False
      have next_iff: "F < S1 \<longleftrightarrow> q * F < B"
      proof
        assume "F < S1"
        then consider "F < B div q" | "F = B div q" "B mod q \<noteq> 0" by (auto simp: S1_def split: if_splits)
        then show "q * F < B"
        proof cases
          case 1
          then have "q * (F + 1) \<le> q * (B div q)" by (intro mult_le_mono) auto
          also have "q * (B div q) \<le> B" by simp
          finally show ?thesis using q(1) by (simp add: distrib_left)
        next
          case 2
          moreover have "q * (B div q) + B mod q = B" by simp
          ultimately show ?thesis by (metis add_cancel_left_right le_add1 le_neq_implies_less)
        qed
      next
        assume less: "q * F < B"
        show "F < S1"
        proof (rule ccontr)
          assume "\<not> F < S1"
          then have "B div q < F \<or> F = B div q \<and> B mod q = 0" by (auto simp: S1_def split: if_splits)
          with inexact have "B div q + 1 \<le> F" by auto
          then have "q * (B div q + 1) \<le> q * F" by (intro mult_le_mono) auto
          then show False using less B by (simp add: algebra_simps)
        qed
      qed
      have "B - 2 * Suc D * F < B - 2 * D * F"
      proof -
        have "2 * Suc D * F = 2 * D * F + 2 * F" by (simp add: algebra_simps)
        then show ?thesis using below assms(1) by linarith
      qed
      from less.hyps [OF this, of S1] next_iff below
      have "\<exists>D'. divisor_loop F B (Suc D) S1 = Some D' \<and> B \<le> 2 * D' * F \<and> (D' = 0 \<or> 2 * (D' - 1) * F < B)"
        by (simp add: q_def)
      moreover have "divisor_loop F B D S = divisor_loop F B (Suc D) S1"
        using True inexact range range1 small q by (subst divisor_loop.simps) (auto simp: Let_def S1_def q_def)
      ultimately show ?thesis by simp
    qed
  qed
qed

lemma least_divisor:
  assumes "0 < F" "F < B" "(B :: nat) \<le> 2 * D * F" "D = 0 \<or> 2 * (D - 1) * F < B"
  shows "D = (B + 2 * F - 1) div (2 * F)"
proof -
  obtain d where D: "D = Suc d" using assms(2,3) by (cases D) auto
  have "2 * d * F < B" "B \<le> 2 * Suc d * F" using assms(3,4) D by auto
  then have "(2 * F) * Suc d \<le> B + 2 * F - 1" "B + 2 * F - 1 < (2 * F) * Suc (Suc d)"
    using assms(1) by (auto simp: algebra_simps)
  then show ?thesis unfolding D by (intro div_nat_eqI [symmetric]) auto
qed

lemma clock_divisor:
  assumes "0 < F" "0 < B" "B + 2 < 2 ^ 32"
  shows "divisor_loop (min F B) B 0 B = Some (if B \<le> F then 0 else (B + 2 * F - 1) div (2 * F))"
proof (cases "B \<le> F")
  case True
  then show ?thesis by (subst divisor_loop.simps) (simp add: min_def)
next
  case False
  then have "min F B = F" "F < B" by auto
  then show ?thesis
    using divisor_loop_least [OF assms(1,3), of B 0] least_divisor [OF assms(1)] False assms(2) by auto
qed

lemma clock_divisor_least:
  assumes "0 < F" "0 < (B :: nat)"
  defines "D \<equiv> if B \<le> F then 0 else (B + 2 * F - 1) div (2 * F)"
  shows "(D = 0 \<or> B \<le> F * (2 * D)) \<and> (\<forall>d < D. \<not> (if d = 0 then B \<le> F else B \<le> F * (2 * d)))"
proof (cases "B \<le> F")
  case True
  then show ?thesis by (simp add: D_def)
next
  case False
  then have D: "D = (B + 2 * F - 1) div (2 * F)" by (simp add: D_def)
  define q where "q = 2 * F"
  have q: "0 < q" using assms(1) by (simp add: q_def)
  have D': "D = (B + q - 1) div q" using D by (simp add: q_def)
  have "B + q - 1 < q * D + q" unfolding D' using q by (metis add.commute dividend_less_times_div)
  then have "B \<le> q * D" by linarith
  moreover have "\<not> B \<le> q * d" if "d < D" for d
  proof
    assume "B \<le> q * d"
    have "q * Suc d \<le> q * D" using that by (intro mult_le_mono) auto
    also have "q * D \<le> B + q - 1" unfolding D' by simp
    finally show False using \<open>B \<le> q * d\<close> assms(2) q by simp
  qed
  ultimately show ?thesis using False by (auto simp: q_def mult.assoc mult.left_commute)
qed

lemma clock_supply_returns:
  assumes "takes_clock e" "0 < ClockFreq" "0 < BaseClkFreq C" "BaseClkFreq C + 2 < 2 ^ 32"
  shows "\<exists>l' D. DwMmcHcClockSupply e ClockFreq C l = Some (EFI_SUCCESS, l') \<and>
    reg_writes l' = reg_writes l @
      [(DW_MMC_CLKENA, 0), (DW_MMC_CMD, clock_command),
       (DW_MMC_CLKSRC, 0), (DW_MMC_CLKDIV, of_nat D), (DW_MMC_CLKENA, 1), (DW_MMC_CMD, clock_command)] \<and>
    D = (if BaseClkFreq C \<le> ClockFreq then 0 else (BaseClkFreq C + 2 * ClockFreq - 1) div (2 * ClockFreq)) \<and>
    (D = 0 \<or> BaseClkFreq C \<le> ClockFreq * (2 * D)) \<and>
    (\<forall>d < D. \<not> (if d = 0 then BaseClkFreq C \<le> ClockFreq else BaseClkFreq C \<le> ClockFreq * (2 * d)))"
proof -
  define B where "B = BaseClkFreq C"
  define D where "D = (if B \<le> ClockFreq then 0 else (B + 2 * ClockFreq - 1) div (2 * ClockFreq))"
  from assms(1) have "settles e [Read32 DW_MMC_STATUS] DW_MMC_STATUS (\<lambda>v. v AND DW_MMC_STS_DATA_BUSY = 0)" by (simp add: takes_clock_def)
  from settlesE [OF this, of l] obtain n where
    "mmRead e (l @ turns n [Read32 DW_MMC_STATUS]) DW_MMC_STATUS AND DW_MMC_STS_DATA_BUSY = 0" .
  from wait_idle_returns [OF this] obtain k where k: "wait_idle e l = Some (l @ turns k [Read32 DW_MMC_STATUS])" by blast
  define l1 where "l1 = l @ turns k [Read32 DW_MMC_STATUS]"
  from takes_clock_update [OF assms(1), of "l1 @ [Write32 DW_MMC_CLKENA 0]"] obtain k2 where
    "DwMmcHcStopClock e l1 = Some (EFI_SUCCESS, (l1 @ [Write32 DW_MMC_CLKENA 0]) @ [Write32 DW_MMC_CMD clock_command]
       @ turns k2 clock_turn @ [Read32 DW_MMC_CMD])"
    by (auto simp: DwMmcHcStopClock_def)
  then obtain l2 where l2: "stop_clock_loop e l1 = Some l2"
      "reg_writes l2 = reg_writes l1 @ [(DW_MMC_CLKENA, 0), (DW_MMC_CMD, clock_command)]"
    by (simp add: stop_clock_loop.simps [of e l1] reg_writes_turns)
  from takes_clock_update [OF assms(1), of "set_clock D l2"] obtain k3 where
    "DwMmcHcUpdateClock e (set_clock D l2) = Some (EFI_SUCCESS, set_clock D l2 @ [Write32 DW_MMC_CMD clock_command]
       @ turns k3 clock_turn @ [Read32 DW_MMC_CMD])" by blast
  then obtain l3 where l3: "start_clock_loop e D l2 = Some l3"
      "reg_writes l3 = reg_writes l2 @ [(DW_MMC_CLKSRC, 0), (DW_MMC_CLKDIV, of_nat D), (DW_MMC_CLKENA, 1), (DW_MMC_CMD, clock_command)]"
    by (simp add: start_clock_loop.simps [of e D l2] reg_writes_turns set_clock_def)
  have "DwMmcHcClockSupply e ClockFreq C l = Some (EFI_SUCCESS, l3)"
    using assms(2) k l2(1) l3(1) clock_divisor [OF assms(2-4)] unfolding l1_def D_def B_def
    by (simp add: DwMmcHcClockSupply_def)
  moreover have "reg_writes l1 = reg_writes l" by (simp add: l1_def reg_writes_turns)
  ultimately show ?thesis using l2(2) l3(2) clock_divisor_least [OF assms(2,3)] unfolding D_def B_def by fastforce
qed

text \<open>C13: Setting a clock: on a controller that takes the clock commands the call returns success, after exactly
  these register writes: the clock is off while the source and the divisor change, and on afterwards. The divisor is the
  smallest whose clock (the base clock over twice the divisor, or the base clock itself) is not above the requested one.\<close>

theorem mmc_clock_supply:
  assumes "takes_clock e" "0 < ClockFreq" "0 < BaseClkFreq C" "BaseClkFreq C + 2 < 2 ^ 32"
  shows "\<exists>l' D. DwMmcHcClockSupply e ClockFreq C l = Some (EFI_SUCCESS, l') \<and>
    reg_writes l' = reg_writes l @
      [(DW_MMC_CLKENA, 0), (DW_MMC_CMD, clock_command),
       (DW_MMC_CLKSRC, 0), (DW_MMC_CLKDIV, of_nat D), (DW_MMC_CLKENA, 1), (DW_MMC_CMD, clock_command)] \<and>
    D = (if BaseClkFreq C \<le> ClockFreq then 0 else (BaseClkFreq C + 2 * ClockFreq - 1) div (2 * ClockFreq)) \<and>
    (D = 0 \<or> BaseClkFreq C \<le> ClockFreq * (2 * D)) \<and>
    (\<forall>d < D. \<not> (if d = 0 then BaseClkFreq C \<le> ClockFreq else BaseClkFreq C \<le> ClockFreq * (2 * d)))"
  by (rule clock_supply_returns [OF assms])

text \<open>A controller that is always idle and takes every command at once.\<close>

definition quiet_env :: mmc_env where
  "quiet_env = \<lparr>mmRead = \<lambda>l r. 0, mmTrbAllocate = \<lambda>l. Some 0x4000, mmDmaAllocate = \<lambda>l n. Some 0x8000,
     mmDmaMap = \<lambda>l k a n. (EFI_SUCCESS, n, a, 0x77), mmCardDetect = \<lambda>l. True, mmLocatePlatform = \<lambda>l. EFI_SUCCESS,
     mmCapability = \<lambda>l. (EFI_SUCCESS, \<lparr>CapHighSpeed = True, CapSdr50 = False, CapSdr104 = False, CapDdr50 = False, CapBusWidth = 4,
       CapSlotType = RemovableSlot, CapCardType = SdCardType, Voltage18 = False, Voltage30 = False, Voltage33 = True, BaseClkFreq = 50000\<rparr>),
     mmStackBool = False\<rparr>"

definition ex_cap :: DW_MMC_HC_SLOT_CAP where
  "ex_cap = snd (mmCapability quiet_env [])"

theorem mmc_clock_supply_witness:
  "\<exists>l'. DwMmcHcClockSupply quiet_env 400 ex_cap [] = Some (EFI_SUCCESS, l') \<and>
    reg_writes l' = [(DW_MMC_CLKENA, 0), (DW_MMC_CMD, clock_command), (DW_MMC_CLKSRC, 0), (DW_MMC_CLKDIV, 63), (DW_MMC_CLKENA, 1),
      (DW_MMC_CMD, clock_command)]"
proof -
  have "takes_clock quiet_env" by (simp add: takes_clock_def settles_def quiet_env_def)
  from mmc_clock_supply [OF this, of 400 ex_cap "[]"] show ?thesis by (auto simp: ex_cap_def quiet_env_def)
qed

section \<open>Reset\<close>

text \<open>The register as the controller answers at the \<open>k\<close>-th look of the wait for a reset.\<close>

abbreviation reset_turn :: mmc_log where
  "reset_turn \<equiv> [Read32 DW_MMC_CTRL, Delay 1]"

definition in_reset :: "mmc_env \<Rightarrow> mmc_log \<Rightarrow> nat \<Rightarrow> bool" where
  "in_reset e l k \<longleftrightarrow> mmRead e (l @ turns k reset_turn) DW_MMC_CTRL AND DW_MMC_CTRL_RESET_ALL \<noteq> 0"

lemma in_reset_Suc: "in_reset e l (Suc k) = in_reset e (l @ reset_turn) k"
  by (simp add: in_reset_def)

lemma wait_reset_loop_cases:
  "wait_reset_loop e n l =
     (if \<exists>k < n. \<not> in_reset e l k
      then (EFI_SUCCESS, l @ turns (LEAST k. \<not> in_reset e l k) reset_turn @ [Read32 DW_MMC_CTRL])
      else (EFI_TIMEOUT, l @ turns n reset_turn))"
proof (induction n arbitrary: l)
  case 0
  then show ?case by simp
next
  case (Suc n)
  show ?case
  proof (cases "in_reset e l 0")
    case False
    then have "(LEAST k. \<not> in_reset e l k) = 0" by (intro Least_equality) auto
    then show ?thesis using False by (auto simp: in_reset_def)
  next
    case True
    have ex: "(\<exists>k < Suc n. \<not> in_reset e l k) \<longleftrightarrow> (\<exists>k < n. \<not> in_reset e (l @ reset_turn) k)"
      using True unfolding in_reset_Suc [symmetric] by (metis Suc_less_eq not0_implies_Suc)
    have least: "(LEAST k. \<not> in_reset e l k) = Suc (LEAST k. \<not> in_reset e (l @ reset_turn) k)"
      if "\<exists>k < n. \<not> in_reset e (l @ reset_turn) k"
    proof -
      from that obtain k where "\<not> in_reset e l (Suc k)" by (auto simp: in_reset_Suc)
      from Least_Suc [where P = "\<lambda>k. \<not> in_reset e l k", OF this] True show ?thesis by (simp add: in_reset_Suc)
    qed
    have "wait_reset_loop e (Suc n) l = wait_reset_loop e n (l @ reset_turn)" using True by (simp add: in_reset_def)
    then show ?thesis unfolding Suc.IH ex using least by auto
  qed
qed

text \<open>C28: A reset writes the control register once and then looks at it at most a million times, a microsecond apart: it succeeds at
  the first look that shows no reset bit and times out when there is none.\<close>

theorem mmc_reset_bounded:
  "case DwMmcHcWaitReset e v l of (Status, l') \<Rightarrow>
    \<exists>n \<le> 1000000. (Status = EFI_SUCCESS \<and> n < 1000000 \<and> \<not> in_reset e (l @ [Write32 DW_MMC_CTRL v]) n \<and>
         (\<forall>k < n. in_reset e (l @ [Write32 DW_MMC_CTRL v]) k) \<and>
         l' = l @ [Write32 DW_MMC_CTRL v] @ turns n reset_turn @ [Read32 DW_MMC_CTRL]) \<or>
       (Status = EFI_TIMEOUT \<and> n = 1000000 \<and> (\<forall>k < n. in_reset e (l @ [Write32 DW_MMC_CTRL v]) k) \<and>
         l' = l @ [Write32 DW_MMC_CTRL v] @ turns n reset_turn)"
proof (cases "\<exists>k < 1000000. \<not> in_reset e (l @ [Write32 DW_MMC_CTRL v]) k")
  case True
  define n where "n = (LEAST k. \<not> in_reset e (l @ [Write32 DW_MMC_CTRL v]) k)"
  from True obtain k where k: "k < 1000000" "\<not> in_reset e (l @ [Write32 DW_MMC_CTRL v]) k" by blast
  have "n \<le> k" unfolding n_def using k(2) by (rule Least_le)
  moreover have "\<not> in_reset e (l @ [Write32 DW_MMC_CTRL v]) n" unfolding n_def using k(2) by (rule LeastI)
  moreover have "\<forall>i < n. in_reset e (l @ [Write32 DW_MMC_CTRL v]) i" unfolding n_def by (auto dest: not_less_Least)
  ultimately show ?thesis using True k(1) unfolding DwMmcHcWaitReset_def DW_MMC_HC_GENERIC_TIMEOUT_def
    by (auto simp: wait_reset_loop_cases n_def [symmetric] intro!: exI [where x = n])
next
  case False
  then show ?thesis unfolding DwMmcHcWaitReset_def DW_MMC_HC_GENERIC_TIMEOUT_def
    by (auto simp: wait_reset_loop_cases intro!: exI [where x = 1000000])
qed

theorem mmc_reset_bounded_witness:
  "DwMmcHcWaitReset quiet_env 7 [] = (EFI_SUCCESS, [Write32 DW_MMC_CTRL 7, Read32 DW_MMC_CTRL])"
proof -
  have quiet: "in_reset quiet_env l k \<longleftrightarrow> False" for l k by (simp add: in_reset_def quiet_env_def)
  have none: "(\<forall>k < n. False) \<longleftrightarrow> n = (0 :: nat)" for n by auto
  show ?thesis using mmc_reset_bounded [where e = quiet_env and v = 7 and l = "[]"]
    unfolding quiet none by (auto split: prod.splits)
qed

end
