(* ===== verification/MmcTransferCorrect.thy ===== *)
theory MmcTransferCorrect
  imports MmcTransfer MmcHostCorrect
begin

text \<open>
  Moving data: what a transfer from the FIFO leaves in memory, that it always ends, when a transfer to the FIFO
  does not, and the table of descriptors for the DMA engine.
\<close>

section \<open>The words read from the FIFO\<close>

text \<open>The answers to the reads of the FIFO in the calls \<open>cs\<close> made after the log \<open>l\<close>.\<close>

fun fifo_words :: "mmc_env \<Rightarrow> mmc_log \<Rightarrow> mmc_log \<Rightarrow> u32 list" where
  "fifo_words e l [] = []"
| "fifo_words e l (c # cs) = (if c = Read32 DW_MMC_FIFO_START then [mmRead e l DW_MMC_FIFO_START] else []) @ fifo_words e (l @ [c]) cs"

lemma fifo_words_append [simp]: "fifo_words e l (cs @ ds) = fifo_words e l cs @ fifo_words e (l @ cs) ds"
  by (induction cs arbitrary: l) simp_all

text \<open>The buffer in whole words, and where its \<open>i\<close>-th word goes: from the end if bytes are swapped.\<close>

definition buffer_words :: "DW_MMC_HC_TRB \<Rightarrow> nat" where
  "buffer_words Trb = (TrbDataLen Trb + 3) div 4"

definition word_place :: "DW_MMC_HC_TRB \<Rightarrow> nat \<Rightarrow> nat" where
  "word_place Trb i = (if UseBE Trb then buffer_words Trb - 1 - i else i)"

definition put_words :: "DW_MMC_HC_TRB \<Rightarrow> u32 list \<Rightarrow> mem \<Rightarrow> mem" where
  "put_words Trb ws m =
     fold (\<lambda>i. write32 (TrbData Trb + 4 * word_place Trb i) (if UseBE Trb then SwapBytes32 (ws ! i) else ws ! i)) [0..<length ws] m"

lemma put_words_Nil [simp]: "put_words Trb [] m = m"
  by (simp add: put_words_def)

lemma put_words_snoc:
  "put_words Trb (ws @ [w]) m =
     write32 (TrbData Trb + 4 * word_place Trb (length ws)) (if UseBE Trb then SwapBytes32 w else w) (put_words Trb ws m)"
proof -
  have "fold (\<lambda>i. write32 (TrbData Trb + 4 * word_place Trb i) (if UseBE Trb then SwapBytes32 ((ws @ [w]) ! i) else (ws @ [w]) ! i)) [0..<length ws] m
      = put_words Trb ws m"
    unfolding put_words_def by (intro fold_cong) (auto simp: nth_append)
  then show ?thesis by (simp add: put_words_def)
qed

lemma byte_of_SwapBytes32: "k < 4 \<Longrightarrow> byte_of (SwapBytes32 v) k = byte_of v (3 - k)"
proof -
  assume k: "k < 4"
  have "SwapBytes32 v = read32 (\<lambda>a. byte_of v (3 - a)) 0"
    by (simp add: SwapBytes32_def read32_def)
  then show ?thesis using byte_of_read32 [OF k, of "\<lambda>a. byte_of v (3 - a)" 0] by simp
qed

text \<open>The byte of the buffer at offset \<open>j\<close> when the words \<open>ws\<close> have arrived.\<close>

lemma put_words_at:
  assumes "length ws \<le> buffer_words Trb"
  shows "put_words Trb ws m a =
    (let j = a - TrbData Trb; i = word_place Trb (j div 4)
     in if TrbData Trb \<le> a \<and> j < 4 * buffer_words Trb \<and> i < length ws
        then byte_of (ws ! i) (if UseBE Trb then 3 - j mod 4 else j mod 4) else m a)"
  using assms
proof (induction ws rule: rev_induct)
  case Nil
  then show ?case by (simp add: Let_def)
next
  case (snoc w ws)
  define j where "j = a - TrbData Trb"
  define n where "n = length ws"
  have n: "n < buffer_words Trb" using snoc.prems by (simp add: n_def)
  have hit: "TrbData Trb + 4 * word_place Trb n \<le> a \<and> a < TrbData Trb + 4 * word_place Trb n + 4
      \<longleftrightarrow> TrbData Trb \<le> a \<and> j < 4 * buffer_words Trb \<and> word_place Trb (j div 4) = n"
    using n unfolding j_def word_place_def by (cases "UseBE Trb") (simp_all, auto)
  have inv: "word_place Trb (word_place Trb n) = n" using n by (auto simp: word_place_def)
  show ?case
  proof (cases "TrbData Trb \<le> a \<and> j < 4 * buffer_words Trb \<and> word_place Trb (j div 4) = n")
    case True
    then have "j div 4 = word_place Trb n" using inv by (auto simp: word_place_def split: if_splits)
    then have "a - (TrbData Trb + 4 * word_place Trb n) = j mod 4"
      unfolding j_def using True by (metis diff_diff_left minus_mult_div_eq_mod)
    moreover have "j mod 4 < 4" by simp
    moreover have "(ws @ [w]) ! word_place Trb (j div 4) = w" "word_place Trb (j div 4) < Suc (length ws)"
      using True by (simp_all add: n_def)
    moreover have "TrbData Trb + 4 * word_place Trb (length ws) \<le> a" "a < TrbData Trb + 4 * word_place Trb (length ws) + 4"
      using True hit by (simp_all add: n_def)
    ultimately show ?thesis using True
      by (simp add: put_words_snoc write32_at n_def j_def [symmetric] byte_of_SwapBytes32)
  next
    case False
    then have "put_words Trb (ws @ [w]) m a = put_words Trb ws m a"
      using hit by (auto simp: put_words_snoc write32_at n_def [symmetric])
    also have "\<dots> = (let i = word_place Trb (j div 4)
       in if TrbData Trb \<le> a \<and> j < 4 * buffer_words Trb \<and> i < length ws
          then byte_of (ws ! i) (if UseBE Trb then 3 - j mod 4 else j mod 4) else m a)"
      using snoc by (simp add: j_def Let_def)
    finally show ?thesis using False by (auto simp: Let_def j_def [symmetric] n_def nth_append less_Suc_eq)
  qed
qed

section \<open>Reading\<close>

text \<open>The state of a transfer that has made the calls \<open>cs\<close>.\<close>

definition fifo_at :: "mmc_env \<Rightarrow> DW_MMC_HC_TRB \<Rightarrow> mmc_log \<Rightarrow> mem \<Rightarrow> mmc_log \<Rightarrow> fifo_state \<Rightarrow> bool" where
  "fifo_at e Trb l m cs s \<longleftrightarrow>
     (let ws = fifo_words e l cs; n = length ws
      in n \<le> buffer_words Trb \<and> FifoLog s = l @ cs \<and> Received s = 4 * n \<and> FifoMem s = put_words Trb ws m \<and>
         (if UseBE Trb then Descending s = wrap32 (4 * (buffer_words Trb - n) + 2 ^ 32 - 4) else Ascending s = 4 * n))"

definition fits :: "DW_MMC_HC_TRB \<Rightarrow> bool" where
  "fits Trb \<longleftrightarrow> 4 * buffer_words Trb < 2 ^ 32 \<and> TrbData Trb + 4 * buffer_words Trb \<le> 2 ^ 64"

text \<open>The controller never holds more than what is left of the transfer.\<close>

definition fifo_honest :: "mmc_env \<Rightarrow> DW_MMC_HC_TRB \<Rightarrow> mmc_log \<Rightarrow> bool" where
  "fifo_honest e Trb l \<longleftrightarrow>
     (\<forall>cs. length (fifo_words e l cs) \<le> buffer_words Trb \<longrightarrow>
        GET_STS_FIFO_COUNT (mmRead e (l @ cs) DW_MMC_STATUS) + length (fifo_words e l cs) \<le> buffer_words Trb)"

lemma fifo_at_read_word:
  assumes "fifo_at e Trb l m cs s" "fits Trb" "length (fifo_words e l cs) < buffer_words Trb"
  shows "fifo_at e Trb l m (cs @ [Read32 DW_MMC_FIFO_START]) (fifo_read_word e Trb s)"
proof -
  define n where "n = length (fifo_words e l cs)"
  have n: "n < buffer_words Trb" using assms(3) by (simp add: n_def)
  have bounds: "4 * n + 4 < 2 ^ 32" "TrbData Trb + 4 * buffer_words Trb \<le> 2 ^ 64" "4 * buffer_words Trb < 2 ^ 32"
    using assms(2) n by (auto simp: fits_def)
  have at: "FifoLog s = l @ cs" "Received s = 4 * n" "FifoMem s = put_words Trb (fifo_words e l cs) m"
      "if UseBE Trb then Descending s = wrap32 (4 * (buffer_words Trb - n) + 2 ^ 32 - 4) else Ascending s = 4 * n"
    using assms(1) by (auto simp: fifo_at_def Let_def n_def)
  have desc: "wrap32 (4 * (buffer_words Trb - n) + 2 ^ 32 - 4) = 4 * (buffer_words Trb - 1 - n)"
  proof -
    have "4 * (buffer_words Trb - n) + 2 ^ 32 - 4 = 4 * (buffer_words Trb - 1 - n) + 2 ^ 32" using n by simp
    then show ?thesis using bounds(3) by (simp add: wrap32_def)
  qed
  have "TrbData Trb + 4 * word_place Trb n < 2 ^ 64" using n bounds(2) by (auto simp: word_place_def)
  then have "fifo_addr Trb s = TrbData Trb + 4 * word_place Trb n"
    using at(4) desc by (auto simp: fifo_addr_def word_place_def)
  moreover have "wrap32 (4 * (buffer_words Trb - 1 - n) + 2 ^ 32 - 4) = wrap32 (4 * (buffer_words Trb - Suc n) + 2 ^ 32 - 4)" by simp
  ultimately show ?thesis using at n bounds desc
    by (auto simp: fifo_at_def Let_def fifo_read_word_def fifo_step_def put_words_snoc n_def [symmetric])
qed

lemma fifo_at_read_words:
  assumes "fifo_at e Trb l m cs s" "fits Trb" "length (fifo_words e l cs) + k \<le> buffer_words Trb"
  shows "fifo_at e Trb l m (cs @ replicate k (Read32 DW_MMC_FIFO_START)) (fifo_read_words e Trb k s)"
    "length (fifo_words e l (cs @ replicate k (Read32 DW_MMC_FIFO_START))) = length (fifo_words e l cs) + k"
  using assms
proof (induction k arbitrary: cs s)
  case 0
  { case 1 then show ?case by simp } { case 2 then show ?case by simp }
next
  case (Suc k)
  have step: "fifo_at e Trb l m (cs @ [Read32 DW_MMC_FIFO_START]) (fifo_read_word e Trb s)"
    if "fifo_at e Trb l m cs s" "fits Trb" "length (fifo_words e l cs) + Suc k \<le> buffer_words Trb" for cs s
    using fifo_at_read_word that by simp
  { case 1
    from Suc.IH(1) [OF step [OF 1] 1(2)] 1(3) show ?case by simp }
  { case 2
    from Suc.IH(2) [OF step [OF 2] 2(2)] 2(3) show ?case by simp }
qed

lemma fifo_at_log:
  assumes "fifo_at e Trb l m cs s" "fifo_words e (l @ cs) ds = []"
  shows "fifo_at e Trb l m (cs @ ds) (s\<lparr>FifoLog := l @ cs @ ds\<rparr>)"
  using assms by (simp add: fifo_at_def Let_def)

lemma fifo_at_timeout [simp]: "fifo_at e Trb l m cs (s\<lparr>FifoTimeout := t\<rparr>) = fifo_at e Trb l m cs s"
  by (simp add: fifo_at_def Let_def)

lemma fifo_read_words_timeout [simp]: "FifoTimeout (fifo_read_words e Trb k s) = FifoTimeout s"
  by (induction k arbitrary: s) (simp_all add: fifo_read_word_def fifo_step_def)

text \<open>A turn of a read either makes no progress and leaves the counter alone, or takes words and sets it.\<close>

lemma fifo_turn_reads:
  assumes "fifo_at e Trb l m cs s" "fits Trb" "fifo_honest e Trb l" "TrbRead Trb" "Received s < TrbDataLen Trb"
  shows "\<exists>Intsts s1 ds. fifo_turn e Trb s = Some (Intsts, s1) \<and> fifo_at e Trb l m (cs @ ds) s1 \<and>
    (fifo_words e (l @ cs) ds = [] \<and> FifoTimeout s1 = FifoTimeout s \<or>
     fifo_words e (l @ cs) ds \<noteq> [] \<and> FifoTimeout s1 = DW_MMC_HC_GENERIC_TIMEOUT)"
proof -
  let ?I = "mmRead e (l @ cs) DW_MMC_RINTSTS" and ?S = "mmRead e (l @ cs @ [Read32 DW_MMC_RINTSTS]) DW_MMC_STATUS"
  have log: "FifoLog s = l @ cs" using assms(1) by (simp add: fifo_at_def Let_def)
  let ?s1 = "s\<lparr>FifoLog := l @ cs @ [Read32 DW_MMC_RINTSTS]\<rparr>"
  let ?s2 = "s\<lparr>FifoLog := l @ cs @ [Read32 DW_MMC_RINTSTS, Read32 DW_MMC_STATUS]\<rparr>"
  have s1: "fifo_at e Trb l m (cs @ [Read32 DW_MMC_RINTSTS]) ?s1" by (rule fifo_at_log [OF assms(1)]) simp
  have s2: "fifo_at e Trb l m (cs @ [Read32 DW_MMC_RINTSTS, Read32 DW_MMC_STATUS]) ?s2" by (rule fifo_at_log [OF assms(1)]) simp
  define k where "k = (min (GET_STS_FIFO_COUNT ?S * 4) (TrbDataLen Trb) + 3) div 4"
  consider "?I AND DW_MMC_INT_RXDR = 0 \<and> ?I AND DW_MMC_INT_DTO = 0"
    | "?I AND DW_MMC_INT_RXDR \<noteq> 0 \<or> ?I AND DW_MMC_INT_DTO \<noteq> 0" "GET_STS_FIFO_COUNT ?S = 0"
    | "?I AND DW_MMC_INT_RXDR \<noteq> 0 \<or> ?I AND DW_MMC_INT_DTO \<noteq> 0" "GET_STS_FIFO_COUNT ?S \<noteq> 0" by blast
  then show ?thesis
  proof cases
    case 1
    then have "fifo_turn e Trb s = Some (?I, ?s1)" using assms(4) log by (simp add: fifo_turn_def Let_def)
    then show ?thesis using s1 by (intro exI [of _ ?I] exI [of _ ?s1] exI [of _ "[Read32 DW_MMC_RINTSTS]"]) simp
  next
    case 2
    then have "fifo_turn e Trb s = Some (?I, ?s2)" using assms(4,5) log by (auto simp: fifo_turn_def Let_def)
    then show ?thesis using s2
      by (intro exI [of _ ?I] exI [of _ ?s2] exI [of _ "[Read32 DW_MMC_RINTSTS, Read32 DW_MMC_STATUS]"]) simp
  next
    case 3
    then have turn: "fifo_turn e Trb s = Some (?I, (fifo_read_words e Trb k ?s2)\<lparr>FifoTimeout := DW_MMC_HC_GENERIC_TIMEOUT\<rparr>)"
      using assms(4) log by (auto simp: fifo_turn_def Let_def k_def)
    have "k \<le> (GET_STS_FIFO_COUNT ?S * 4 + 3) div 4" unfolding k_def by (intro div_le_mono) simp
    then have "k \<le> GET_STS_FIFO_COUNT ?S" by simp
    moreover have "GET_STS_FIFO_COUNT ?S + length (fifo_words e l (cs @ [Read32 DW_MMC_RINTSTS])) \<le> buffer_words Trb"
      using assms(3) [unfolded fifo_honest_def, rule_format, of "cs @ [Read32 DW_MMC_RINTSTS]"] assms(1)
      by (simp add: fifo_at_def Let_def)
    ultimately have room: "length (fifo_words e l (cs @ [Read32 DW_MMC_RINTSTS, Read32 DW_MMC_STATUS])) + k \<le> buffer_words Trb" by simp
    have "0 < TrbDataLen Trb" using assms(5) by simp
    then have "0 < k" using 3(2) by (auto simp: k_def div_greater_zero_iff)
    then have "fifo_words e (l @ cs @ [Read32 DW_MMC_RINTSTS, Read32 DW_MMC_STATUS]) (replicate k (Read32 DW_MMC_FIFO_START)) \<noteq> []"
      by (cases k) simp_all
    then show ?thesis using turn fifo_at_read_words(1) [OF s2 assms(2) room]
      by (intro exI [of _ ?I] exI [of _ "(fifo_read_words e Trb k ?s2)\<lparr>FifoTimeout := DW_MMC_HC_GENERIC_TIMEOUT\<rparr>"]
             exI [of _ "[Read32 DW_MMC_RINTSTS, Read32 DW_MMC_STATUS] @ replicate k (Read32 DW_MMC_FIFO_START)"]) simp
  qed
qed

lemma fifo_loop_reads:
  assumes "fits Trb" "fifo_honest e Trb l" "TrbRead Trb"
    and "fifo_at e Trb l m cs s" "Received s < TrbDataLen Trb" "0 < FifoTimeout s" "FifoTimeout s \<le> DW_MMC_HC_GENERIC_TIMEOUT"
  shows "\<exists>Status s' ds. fifo_loop e Trb s = Some (Status, s') \<and> fifo_at e Trb l m (cs @ ds) s' \<and>
    Status \<in> {EFI_SUCCESS, EFI_DEVICE_ERROR, EFI_TIMEOUT} \<and> (Status = EFI_SUCCESS \<longrightarrow> TrbDataLen Trb \<le> Received s')"
  using assms(4-7)
proof (induction "(TrbDataLen Trb - Received s) * (DW_MMC_HC_GENERIC_TIMEOUT + 1) + FifoTimeout s" arbitrary: s cs rule: less_induct)
  case less
  from fifo_turn_reads [OF less.prems(1) assms(1-3) less.prems(2)] obtain Intsts s1 ds where
    turn: "fifo_turn e Trb s = Some (Intsts, s1)" and at1: "fifo_at e Trb l m (cs @ ds) s1" and
    progress: "fifo_words e (l @ cs) ds = [] \<and> FifoTimeout s1 = FifoTimeout s \<or>
      fifo_words e (l @ cs) ds \<noteq> [] \<and> FifoTimeout s1 = DW_MMC_HC_GENERIC_TIMEOUT" by blast
  have T: "1 < DW_MMC_HC_GENERIC_TIMEOUT" by (simp add: DW_MMC_HC_GENERIC_TIMEOUT_def)
  define ds' where "ds' = ds @ (if FifoTimeout s1 < DW_MMC_HC_GENERIC_TIMEOUT then [Delay 1] else [])"
  define s3 where "s3 = (if FifoTimeout s1 < DW_MMC_HC_GENERIC_TIMEOUT then s1\<lparr>FifoLog := MicroSecondDelay 1 (FifoLog s1)\<rparr> else s1)
     \<lparr>FifoTimeout := FifoTimeout s1 - 1\<rparr>"
  have at3: "fifo_at e Trb l m (cs @ ds') s3"
  proof -
    have "FifoLog s1 = l @ cs @ ds" using at1 by (simp add: fifo_at_def Let_def)
    then show ?thesis using at1 fifo_at_log [OF at1, of "[Delay 1]"] by (auto simp: s3_def ds'_def)
  qed
  have unfold: "fifo_loop e Trb s =
      (if Intsts AND DW_MMC_INT_DATA_ERR \<noteq> 0 then Some (EFI_DEVICE_ERROR, s1)
       else if FifoTimeout s3 = 0 then Some (EFI_TIMEOUT, s3)
       else if Received s3 < TrbDataLen Trb then fifo_loop e Trb s3 else Some (EFI_SUCCESS, s3))"
    by (subst fifo_loop.simps) (simp add: turn s3_def Let_def)
  have received: "Received s3 = Received s + 4 * length (fifo_words e (l @ cs) ds)"
    using at1 less.prems(1) by (simp add: s3_def fifo_at_def Let_def)
  consider "Intsts AND DW_MMC_INT_DATA_ERR \<noteq> 0" | "Intsts AND DW_MMC_INT_DATA_ERR = 0" "FifoTimeout s3 = 0"
    | "Intsts AND DW_MMC_INT_DATA_ERR = 0" "FifoTimeout s3 \<noteq> 0" "\<not> Received s3 < TrbDataLen Trb"
    | "Intsts AND DW_MMC_INT_DATA_ERR = 0" "FifoTimeout s3 \<noteq> 0" "Received s3 < TrbDataLen Trb" by blast
  then show ?case
  proof cases
    case 1
    then show ?thesis using unfold at1 by auto
  next
    case 2
    then show ?thesis using unfold at3 by (intro exI [of _ EFI_TIMEOUT]) auto
  next
    case 3
    then show ?thesis using unfold at3 by (intro exI [of _ EFI_SUCCESS]) auto
  next
    case 4
    have bound: "FifoTimeout s3 \<le> DW_MMC_HC_GENERIC_TIMEOUT" "FifoTimeout s3 = FifoTimeout s1 - 1"
      using progress less.prems(4) by (auto simp: s3_def)
    have "(TrbDataLen Trb - Received s3) * (DW_MMC_HC_GENERIC_TIMEOUT + 1) + FifoTimeout s3 <
       (TrbDataLen Trb - Received s) * (DW_MMC_HC_GENERIC_TIMEOUT + 1) + FifoTimeout s"
    proof (cases "fifo_words e (l @ cs) ds = []")
      case True
      then show ?thesis using progress received bound less.prems(3) by simp
    next
      case False
      then have "Received s < Received s3" using received by simp
      then have "Suc (TrbDataLen Trb - Received s3) \<le> TrbDataLen Trb - Received s" using 4 by linarith
      then have "Suc (TrbDataLen Trb - Received s3) * (DW_MMC_HC_GENERIC_TIMEOUT + 1) \<le> (TrbDataLen Trb - Received s) * (DW_MMC_HC_GENERIC_TIMEOUT + 1)"
        by (rule mult_le_mono1)
      then show ?thesis using bound(1) by simp
    qed
    from less.hyps [OF this at3 4(3)] 4(2) bound(1) obtain Status s' ds2 where
      "fifo_loop e Trb s3 = Some (Status, s')" "fifo_at e Trb l m ((cs @ ds') @ ds2) s'"
      "Status \<in> {EFI_SUCCESS, EFI_DEVICE_ERROR, EFI_TIMEOUT}" "Status = EFI_SUCCESS \<longrightarrow> TrbDataLen Trb \<le> Received s'" by blast
    then show ?thesis using unfold 4 by (intro exI [of _ Status] exI [of _ s'] exI [of _ "ds' @ ds2"]) simp
  qed
qed

text \<open>C11: Reading a buffer through the FIFO always ends, whatever the controller answers, with success, a device error or a timeout; nothing
  outside the buffer, rounded up to whole words, is written; after a success every word of the buffer has been read
  from the FIFO, in order, or with all bytes reversed where the command asks for it.\<close>

theorem mmc_fifo_read:
  assumes "TrbRead Trb" "0 < TrbDataLen Trb" "fits Trb" "fifo_honest e Trb l"
  shows "\<exists>Status cs m'. TransferFifo e Trb l m = Some (Status, l @ cs, m') \<and>
    Status \<in> {EFI_SUCCESS, EFI_DEVICE_ERROR, EFI_TIMEOUT} \<and>
    (\<forall>a. a < TrbData Trb \<or> TrbData Trb + 4 * buffer_words Trb \<le> a \<longrightarrow> m' a = m a) \<and>
    (Status = EFI_SUCCESS \<longrightarrow> length (fifo_words e l cs) = buffer_words Trb \<and>
      (\<forall>i < buffer_words Trb. \<forall>k < 4. m' (TrbData Trb + 4 * i + k) =
         (if UseBE Trb then byte_of (fifo_words e l cs ! (buffer_words Trb - 1 - i)) (3 - k)
          else byte_of (fifo_words e l cs ! i) k)))"
proof -
  have start: "fifo_at e Trb l m [] (fifo_start Trb l m)"
    by (simp add: fifo_at_def fifo_start_def buffer_words_def)
  have "Received (fifo_start Trb l m) < TrbDataLen Trb" "0 < FifoTimeout (fifo_start Trb l m)"
      "FifoTimeout (fifo_start Trb l m) \<le> DW_MMC_HC_GENERIC_TIMEOUT"
    using assms(2) by (simp_all add: fifo_start_def DW_MMC_HC_GENERIC_TIMEOUT_def)
  from fifo_loop_reads [OF assms(3,4,1) start this] obtain Status s' cs where
    loop: "fifo_loop e Trb (fifo_start Trb l m) = Some (Status, s')" and at: "fifo_at e Trb l m cs s'" and
    st: "Status \<in> {EFI_SUCCESS, EFI_DEVICE_ERROR, EFI_TIMEOUT}" "Status = EFI_SUCCESS \<longrightarrow> TrbDataLen Trb \<le> Received s'" by auto
  let ?ws = "fifo_words e l cs"
  have s': "FifoLog s' = l @ cs" "Received s' = 4 * length ?ws" "FifoMem s' = put_words Trb ?ws m" "length ?ws \<le> buffer_words Trb"
    using at by (simp_all add: fifo_at_def Let_def)
  have "put_words Trb ?ws m a = m a" if "a < TrbData Trb \<or> TrbData Trb + 4 * buffer_words Trb \<le> a" for a
    using that by (auto simp: put_words_at [OF s'(4)] Let_def)
  moreover have "length ?ws = buffer_words Trb" if "Status = EFI_SUCCESS"
    using st(2) that s'(2,4) by (auto simp: buffer_words_def)
  moreover have "put_words Trb ?ws m (TrbData Trb + 4 * i + k) =
      (if UseBE Trb then byte_of (?ws ! (buffer_words Trb - 1 - i)) (3 - k) else byte_of (?ws ! i) k)"
    if "length ?ws = buffer_words Trb" "i < buffer_words Trb" "k < 4" for i k
  proof -
    have "TrbData Trb + 4 * i + k - TrbData Trb = 4 * i + k" "(4 * i + k) div 4 = i" "(4 * i + k) mod 4 = k" "4 * i + k < 4 * buffer_words Trb"
      using that by auto
    then show ?thesis using that unfolding put_words_at [OF s'(4)] by (simp add: Let_def word_place_def)
  qed
  ultimately show ?thesis using loop s' st(1) by (auto simp: TransferFifo_def)
qed

text \<open>A controller with two words in its FIFO, ready to be read.\<close>

definition two_words_env :: mmc_env where
  "two_words_env = quiet_env\<lparr>mmRead := \<lambda>l r.
     let n = count_list l (Read32 DW_MMC_FIFO_START)
     in if r = DW_MMC_RINTSTS then DW_MMC_INT_RXDR
        else if r = DW_MMC_STATUS then push_bit 17 (of_nat (2 - n))
        else if r = DW_MMC_FIFO_START then [0x11223344, 0x55667788, 0] ! min n 2 else 0\<rparr>"

definition scr_trb :: DW_MMC_HC_TRB where
  "scr_trb = \<lparr>TrbBlock = 0x4000, TrbSlot = 0, TrbPacket = 0, TrbData = 0x1000, TrbDataLen = 8, TrbRead = True, DataPhy = 0, DataMap = None,
     TrbEvent = None, Started = False, TrbTimeout = 0, DmaDesc = 0, DmaDescPhy = 0, DmaMap = None, UseFifo = True, UseBE = True\<rparr>"

lemma length_fifo_words: "length (fifo_words e l cs) = count_list cs (Read32 DW_MMC_FIFO_START)"
  by (induction cs arbitrary: l) auto

lemma two_words_count: "GET_STS_FIFO_COUNT (push_bit 17 (of_nat (2 - n))) = 2 - n"
proof -
  have "2 - n = 0 \<or> 2 - n = 1 \<or> 2 - n = (2 :: nat)" by linarith
  then show ?thesis by (auto simp: GET_STS_FIFO_COUNT_def)
qed

lemma two_words_honest: "fifo_honest two_words_env scr_trb []"
proof -
  have "GET_STS_FIFO_COUNT (mmRead two_words_env cs DW_MMC_STATUS) = 2 - count_list cs (Read32 DW_MMC_FIFO_START)" for cs
    by (simp add: two_words_env_def two_words_count)
  then show ?thesis by (simp add: fifo_honest_def length_fifo_words buffer_words_def scr_trb_def)
qed

lemma two_words_run: "\<exists>m'. TransferFifo two_words_env scr_trb [] m =
     Some (EFI_SUCCESS, [Read32 DW_MMC_RINTSTS, Read32 DW_MMC_STATUS, Read32 DW_MMC_FIFO_START, Read32 DW_MMC_FIFO_START], m')"
proof -
  let ?s = "fifo_start scr_trb [] m"
  let ?s2 = "?s\<lparr>FifoLog := [Read32 DW_MMC_RINTSTS, Read32 DW_MMC_STATUS]\<rparr>"
  have two: "fifo_read_words e T 2 s = fifo_read_word e T (fifo_read_word e T s)" for e T s
    by (simp add: numeral_2_eq_2)
  have status: "mmRead two_words_env l DW_MMC_RINTSTS = DW_MMC_INT_RXDR" for l by (simp add: two_words_env_def)
  have "GET_STS_FIFO_COUNT (mmRead two_words_env [Read32 DW_MMC_RINTSTS] DW_MMC_STATUS) = 2"
    using two_words_count [of 0] by (simp add: two_words_env_def)
  then have "fifo_turn two_words_env scr_trb ?s =
      Some (DW_MMC_INT_RXDR, (fifo_read_words two_words_env scr_trb 2 ?s2)\<lparr>FifoTimeout := DW_MMC_HC_GENERIC_TIMEOUT\<rparr>)"
    by (simp add: fifo_turn_def fifo_start_def scr_trb_def status DW_MMC_INT_RXDR_def)
  moreover have "FifoLog (fifo_read_words two_words_env scr_trb 2 ?s2) =
        [Read32 DW_MMC_RINTSTS, Read32 DW_MMC_STATUS, Read32 DW_MMC_FIFO_START, Read32 DW_MMC_FIFO_START]"
      "Received (fifo_read_words two_words_env scr_trb 2 ?s2) = 8"
    by (simp_all add: two fifo_read_word_def fifo_step_def fifo_start_def wrap32_def)
  moreover have "DW_MMC_INT_RXDR AND DW_MMC_INT_DATA_ERR = 0"
    by (simp add: DW_MMC_INT_RXDR_def DW_MMC_INT_DATA_ERR_def DW_MMC_INT_EBE_def DW_MMC_INT_SBE_def DW_MMC_INT_HLE_def DW_MMC_INT_FRUN_def
        DW_MMC_INT_DCRC_def DW_MMC_INT_HTO_def DW_MMC_INT_DRT_def)
  ultimately show ?thesis unfolding TransferFifo_def
    by (subst fifo_loop.simps) (simp add: DW_MMC_HC_GENERIC_TIMEOUT_def scr_trb_def Let_def)
qed

theorem mmc_fifo_read_witness:
  "\<exists>cs m'. TransferFifo two_words_env scr_trb [] (\<lambda>_. 7) = Some (EFI_SUCCESS, cs, m') \<and>
     m' 0x0fff = 7 \<and> m' 0x1000 = 0x55 \<and> m' 0x1007 = 0x44 \<and> m' 0x1008 = 7"
proof -
  have hyps: "TrbRead scr_trb" "0 < TrbDataLen scr_trb" "fits scr_trb" by (simp_all add: scr_trb_def fits_def buffer_words_def)
  obtain m' where run: "TransferFifo two_words_env scr_trb [] (\<lambda>_. 7) =
     Some (EFI_SUCCESS, [Read32 DW_MMC_RINTSTS, Read32 DW_MMC_STATUS, Read32 DW_MMC_FIFO_START, Read32 DW_MMC_FIFO_START], m')"
    using two_words_run by blast
  have ws: "fifo_words two_words_env [] [Read32 DW_MMC_RINTSTS, Read32 DW_MMC_STATUS, Read32 DW_MMC_FIFO_START, Read32 DW_MMC_FIFO_START] =
      [0x11223344, 0x55667788]"
    by (simp add: two_words_env_def)
  from mmc_fifo_read [OF hyps two_words_honest, where m = "\<lambda>_. 7"] run ws have
    out: "\<forall>a. a < 0x1000 \<or> 0x1008 \<le> a \<longrightarrow> m' a = 7" and
    bytes: "\<forall>i < 2. \<forall>k < 4. m' (0x1000 + 4 * i + k) = byte_of ([0x11223344, 0x55667788] ! (1 - i)) (3 - k)"
    by (simp_all add: scr_trb_def buffer_words_def)
  have "m' 0x1000 = 0x55" "m' 0x1007 = 0x44"
    using bytes [rule_format, of 0 0] bytes [rule_format, of 1 3] by (simp_all add: byte_of_def)
  then show ?thesis using run out by auto
qed

section \<open>Writing\<close>

text \<open>A controller that asks for data while its FIFO is full, and reports no error.\<close>

definition fifo_stuck :: "mmc_env \<Rightarrow> bool" where
  "fifo_stuck e \<longleftrightarrow>
     (\<forall>l. mmRead e l DW_MMC_RINTSTS AND DW_MMC_INT_TXDR \<noteq> 0 \<and> mmRead e l DW_MMC_RINTSTS AND DW_MMC_INT_DATA_ERR = 0 \<and>
          DW_MMC_STS_FIFO_FULL (mmRead e l DW_MMC_STATUS))"

lemma fifo_turn_stuck:
  assumes "fifo_stuck e" "\<not> TrbRead Trb"
  shows "fifo_turn e Trb s = Some (mmRead e (FifoLog s) DW_MMC_RINTSTS,
    s\<lparr>FifoLog := FifoLog s @ [Read32 DW_MMC_RINTSTS, Read32 DW_MMC_STATUS], FifoTimeout := DW_MMC_HC_GENERIC_TIMEOUT\<rparr>)"
proof -
  have "fifo_fill e Trb I (mmRead e l DW_MMC_STATUS) s1 = Some (I, s1)" for I l s1
    using assms(1) by (subst fifo_fill.simps) (simp add: fifo_stuck_def)
  then show ?thesis using assms by (simp add: fifo_turn_def fifo_stuck_def Let_def)
qed

text \<open>Writing through the FIFO sets the counter of the timeout anew in every turn in which the controller asks for data, even if its
  FIFO takes none: against a controller that stays so the call never returns.\<close>

theorem mmc_fifo_write_hangs:
  assumes "fifo_stuck e" "\<not> TrbRead Trb" "0 < TrbDataLen Trb"
  shows "TransferFifo e Trb l m = None"
proof -
  have "False" if "fifo_loop e Trb s = Some y" "Received s < TrbDataLen Trb" for s y
  proof -
    have "fifo_stuck e \<longrightarrow> \<not> TrbRead Trb \<longrightarrow> Received s < TrbDataLen Trb \<longrightarrow> False"
      using that(1)
    proof (rule fifo_loop.raw_induct [where P = "\<lambda>e Trb s y. fifo_stuck e \<longrightarrow> \<not> TrbRead Trb \<longrightarrow> Received s < TrbDataLen Trb \<longrightarrow> False", rotated])
      fix f :: "mmc_env \<Rightarrow> DW_MMC_HC_TRB \<Rightarrow> fifo_state \<Rightarrow> (efi_status \<times> fifo_state) option" and e Trb s y
      assume ih: "\<And>e Trb s y. f e Trb s = Some y \<Longrightarrow> fifo_stuck e \<longrightarrow> \<not> TrbRead Trb \<longrightarrow> Received s < TrbDataLen Trb \<longrightarrow> False"
        and body: "Option.bind (fifo_turn e Trb s) (\<lambda>(Intsts, s1).
           if Intsts AND DW_MMC_INT_DATA_ERR \<noteq> 0 then Some (EFI_DEVICE_ERROR, s1)
           else let s2 = (if FifoTimeout s1 < DW_MMC_HC_GENERIC_TIMEOUT then s1\<lparr>FifoLog := MicroSecondDelay 1 (FifoLog s1)\<rparr> else s1);
                    s3 = s2\<lparr>FifoTimeout := FifoTimeout s2 - 1\<rparr>
                in if FifoTimeout s3 = 0 then Some (EFI_TIMEOUT, s3)
                   else if Received s3 < TrbDataLen Trb then f e Trb s3 else Some (EFI_SUCCESS, s3)) = Some y"
      show "fifo_stuck e \<longrightarrow> \<not> TrbRead Trb \<longrightarrow> Received s < TrbDataLen Trb \<longrightarrow> False"
      proof (intro impI)
        assume stuck: "fifo_stuck e" "\<not> TrbRead Trb" "Received s < TrbDataLen Trb"
        then have "mmRead e (FifoLog s) DW_MMC_RINTSTS AND DW_MMC_INT_DATA_ERR = 0" by (simp add: fifo_stuck_def)
        with body stuck show False
          unfolding fifo_turn_stuck [OF stuck(1,2)] by (auto simp: Let_def DW_MMC_HC_GENERIC_TIMEOUT_def dest!: ih)
      qed
    qed
    then show False using assms(1,2) that(2) by blast
  qed
  moreover have "Received (fifo_start Trb l m) < TrbDataLen Trb" using assms(3) by (simp add: fifo_start_def)
  ultimately have "fifo_loop e Trb (fifo_start Trb l m) = None" by (cases "fifo_loop e Trb (fifo_start Trb l m)") blast+
  then show ?thesis by (simp add: TransferFifo_def)
qed

theorem mmc_fifo_write_hangs_witness:
  "TransferFifo (quiet_env\<lparr>mmRead := \<lambda>l r. if r = DW_MMC_RINTSTS then DW_MMC_INT_TXDR else 8\<rparr>) (scr_trb\<lparr>TrbRead := False\<rparr>) [] (\<lambda>_. 7) = None"
proof (rule mmc_fifo_write_hangs)
  show "fifo_stuck (quiet_env\<lparr>mmRead := \<lambda>l r. if r = DW_MMC_RINTSTS then DW_MMC_INT_TXDR else 8\<rparr>)"
    by (simp add: fifo_stuck_def DW_MMC_INT_TXDR_def DW_MMC_INT_DATA_ERR_def DW_MMC_INT_EBE_def DW_MMC_INT_SBE_def DW_MMC_INT_HLE_def
        DW_MMC_INT_FRUN_def DW_MMC_INT_DCRC_def DW_MMC_INT_HTO_def DW_MMC_INT_DRT_def DW_MMC_STS_FIFO_FULL_def)
qed (simp_all add: scr_trb_def)

end
