(* ===== verification/MmcDmaCorrect.thy ===== *)
theory MmcDmaCorrect
  imports MmcTransfer MmcHostCorrect
begin

text \<open>
  The table of descriptors that a transfer hands to the DMA engine: what its lines say, which bytes they
  make the engine move, and that building it writes nothing else.
\<close>

section \<open>Reading what was written\<close>

lemma read32_cong: "(\<And>k. k < 4 \<Longrightarrow> m (a + k) = m' (a + k)) \<Longrightarrow> read32 m a = read32 m' a"
  by (rule read32_eqI) (simp add: byte_of_read32)

lemma read32_write32_other: "a + 4 \<le> b \<or> b + 4 \<le> a \<Longrightarrow> read32 (write32 b v m) a = read32 m a"
  by (rule read32_cong) (auto simp: write32_at)

text \<open>Line \<open>k\<close> of a table and the words the code puts there.\<close>

definition desc_word :: "mem \<Rightarrow> nat \<Rightarrow> nat \<Rightarrow> nat \<Rightarrow> u32" where
  "desc_word m D k i = read32 m (des_addr D k i)"

lemma desc_word_write32:
  assumes "i < 4" "j < 4"
  shows "desc_word (write32 (des_addr D n j) v m) D k i = (if k = n \<and> i = j then v else desc_word m D k i)"
proof (cases "k = n \<and> i = j")
  case True
  then show ?thesis by (simp add: desc_word_def)
next
  case False
  have "des_addr D k i + 4 \<le> des_addr D n j \<or> des_addr D n j + 4 \<le> des_addr D k i"
  proof (cases "k = n")
    case True
    then show ?thesis using False by (auto simp: des_addr_def)
  next
    case False
    then have "k + 1 \<le> n \<or> n + 1 \<le> k" by auto
    then show ?thesis using assms unfolding des_addr_def sizeof_DMA_DESC_LINE_def by linarith
  qed
  then show ?thesis using False by (auto simp: desc_word_def read32_write32_other)
qed

lemma write32_line_outside:
  assumes "n < E" "j < 4" "a < D \<or> D + sizeof_DMA_DESC_LINE * E \<le> a"
  shows "write32 (des_addr D n j) v m a = m a"
  using assms by (auto simp: write32_at des_addr_def sizeof_DMA_DESC_LINE_def)

lemma update32_eq: "update32 (des_addr D n j) f m = write32 (des_addr D n j) (f (desc_word m D n j)) m"
  by (simp add: update32_def desc_word_def)

section \<open>The lines\<close>

definition desc_flags :: u32 where
  "desc_flags = DW_MMC_IDMAC_DES0_OWN OR DW_MMC_IDMAC_DES0_CH OR DW_MMC_IDMAC_DES0_DIC"

definition plain_line :: "DW_MMC_HC_TRB \<Rightarrow> nat \<Rightarrow> nat \<Rightarrow> u32" where
  "plain_line Trb k i =
     (if i = 0 then desc_flags else if i = 1 then DW_MMC_IDMAC_DES1_BS1 DWMMC_DMA_BUF_SIZE
      else if i = 2 then of_nat (DataPhy Trb + DWMMC_DMA_BUF_SIZE * k)
      else of_nat (DmaDescPhy Trb + sizeof_DMA_DESC_LINE * (k + 1)))"

lemma less_4_cases: "i < (4 :: nat) \<Longrightarrow> i = 0 \<or> i = 1 \<or> i = 2 \<or> i = 3"
  by linarith

lemma desc_word_describe:
  assumes "i < 4"
  shows "desc_word (fst (describe Trb n (m, R))) (DmaDesc Trb) k i = (if k = n then plain_line Trb n i else desc_word m (DmaDesc Trb) k i)"
  using less_4_cases [OF assms] by (auto simp: describe_def desc_word_write32 plain_line_def desc_flags_def)

lemma describe_outside:
  assumes "n < E" "a < DmaDesc Trb \<or> DmaDesc Trb + sizeof_DMA_DESC_LINE * E \<le> a"
  shows "fst (describe Trb n (m, R)) a = m a"
  using write32_line_outside [OF assms(1) _ assms(2)] by (simp add: describe_def)

lemma describe_remaining: "(of_nat (snd (describe Trb n (m, R))) :: u64) = of_nat R - of_nat DWMMC_DMA_BUF_SIZE"
proof -
  have wrap: "(of_nat (wrap y) :: u64) = of_nat y" for y by (simp only: wrap_def word_unat_eq_iff unat_of_nat len_num1) simp
  have "R + 2 ^ 64 - DWMMC_DMA_BUF_SIZE = R + (2 ^ 64 - 4096)" by simp
  then show ?thesis by (simp only: describe_def wrap case_prod_conv snd_conv of_nat_add) simp
qed

lemma describe_loop:
  "\<And>k i. i < 4 \<Longrightarrow> desc_word (fst (fold (describe Trb) [0..<n] (m, B))) (DmaDesc Trb) k i =
     (if k < n then plain_line Trb k i else desc_word m (DmaDesc Trb) k i)"
  "\<And>a E. n \<le> E \<Longrightarrow> a < DmaDesc Trb \<or> DmaDesc Trb + sizeof_DMA_DESC_LINE * E \<le> a \<Longrightarrow> fst (fold (describe Trb) [0..<n] (m, B)) a = m a"
  "(of_nat (snd (fold (describe Trb) [0..<n] (m, B))) :: u64) = of_nat B - of_nat (DWMMC_DMA_BUF_SIZE * n)"
proof (induction n)
  case (Suc n)
  obtain m1 R1 where st: "fold (describe Trb) [0..<n] (m, B) = (m1, R1)" by (metis surj_pair)
  { case 1 then show ?case using Suc.IH(1) [OF 1] by (auto simp: st desc_word_describe less_Suc_eq) }
  { case 2 then show ?case using Suc.IH(2) [of E a] by (auto simp: st describe_outside [where E = E]) }
  { case 3 then show ?case using Suc.IH(3) by (simp add: st describe_remaining algebra_simps) }
qed simp_all

lemma wrap_of_word: "(of_nat x :: u64) = of_nat y \<Longrightarrow> y < 2 ^ 64 \<Longrightarrow> wrap x = y"
  by (drule arg_cong [of _ _ unat]) (simp add: unat_of_nat wrap_def)

section \<open>The table\<close>

text \<open>The line \<open>k\<close> of a finished table of \<open>E\<close> lines for a transfer of \<open>B\<close> bytes.\<close>

definition bytes_in_line :: "nat \<Rightarrow> nat \<Rightarrow> nat \<Rightarrow> nat" where
  "bytes_in_line E B k = (if Suc k = E then B - DWMMC_DMA_BUF_SIZE * (E - 1) else DWMMC_DMA_BUF_SIZE)"

definition table_line :: "DW_MMC_HC_TRB \<Rightarrow> nat \<Rightarrow> nat \<Rightarrow> nat \<Rightarrow> nat \<Rightarrow> u32" where
  "table_line Trb E B k i =
     (if i = 0 then (DW_MMC_IDMAC_DES0_OWN OR (if k = 0 then DW_MMC_IDMAC_DES0_FS else 0) OR
          (if Suc k = E then DW_MMC_IDMAC_DES0_LD else DW_MMC_IDMAC_DES0_CH OR DW_MMC_IDMAC_DES0_DIC))
      else if i = 1 then DW_MMC_IDMAC_DES1_BS1 (bytes_in_line E B k)
      else if i = 2 then of_nat (DataPhy Trb + DWMMC_DMA_BUF_SIZE * k)
      else if Suc k = E then 0 else of_nat (DmaDescPhy Trb + sizeof_DMA_DESC_LINE * (k + 1)))"

lemmas des0_defs = desc_flags_def DW_MMC_IDMAC_DES0_OWN_def DW_MMC_IDMAC_DES0_CH_def DW_MMC_IDMAC_DES0_DIC_def
  DW_MMC_IDMAC_DES0_LD_def DW_MMC_IDMAC_DES0_FS_def

lemma describe_ends_lines:
  assumes "0 < E" "k < E" "i < 4" "wrap (R + DWMMC_DMA_BUF_SIZE) = B - DWMMC_DMA_BUF_SIZE * (E - 1)"
    and lines: "\<And>k i. k < E \<Longrightarrow> i < 4 \<Longrightarrow> desc_word m (DmaDesc Trb) k i = plain_line Trb k i"
  shows "desc_word (describe_ends Trb E R m) (DmaDesc Trb) k i = table_line Trb E B k i"
proof -
  have last: "E - 1 < E" "Suc k = E \<longleftrightarrow> k = E - 1" using assms(1,2) by auto
  note at = desc_word_write32 update32_eq lines plain_line_def
  from less_4_cases [OF assms(3)] consider "i = 0" | "i = 1" | "i = 2" | "i = 3" by blast
  then show ?thesis
  proof cases
    case 1
    then show ?thesis using assms(1,2,4) last
      by (auto simp: describe_ends_def Let_def at table_line_def des0_defs)
  next
    case 2
    then show ?thesis using assms(1,2,4) last
      by (auto simp: describe_ends_def Let_def at table_line_def bytes_in_line_def)
  qed (use assms(1,2) last in \<open>auto simp: describe_ends_def Let_def at table_line_def\<close>)
qed

lemma describe_ends_outside:
  assumes "0 < E" "a < DmaDesc Trb \<or> DmaDesc Trb + sizeof_DMA_DESC_LINE * E \<le> a"
  shows "describe_ends Trb E R m a = m a"
  using write32_line_outside [of _ E _ a, OF _ _ assms(2)] assms(1)
  by (simp add: describe_ends_def Let_def update32_eq)

text \<open>Whole blocks: at least the length asked for, fewer than a block more, and never past the last line.\<close>

lemma transfer_bytes_bounds:
  assumes "0 < n"
  defines "E \<equiv> (n + DWMMC_DMA_BUF_SIZE - 1) div DWMMC_DMA_BUF_SIZE"
  shows "0 < E" "n \<le> transfer_bytes n" "transfer_bytes n < n + 512" "DWMMC_DMA_BUF_SIZE * (E - 1) < n" "transfer_bytes n \<le> DWMMC_DMA_BUF_SIZE * E"
    "transfer_bytes n = n \<longleftrightarrow> n < 512 \<or> 512 dvd n"
proof -
  have E: "E = (n + 4095) div 4096" by (simp add: E_def)
  have T: "transfer_bytes n = (if n < 512 then n else 512 * ((n + 511) div 512))" by (simp add: transfer_bytes_def add.commute)
  show "0 < E" using assms(1) by (simp add: E div_greater_zero_iff)
  have "(n + 511) mod 512 + 512 * ((n + 511) div 512) = n + 511" "(n + 511) mod 512 < 512" by simp_all
  then show "n \<le> transfer_bytes n" "transfer_bytes n < n + 512" unfolding T by auto
  have "(n + 4095) mod 4096 + 4096 * E = n + 4095" "(n + 4095) mod 4096 < 4096" unfolding E by simp_all
  then have full: "n \<le> 4096 * E" and "4096 * E \<le> n + 4095" by linarith+
  then show "DWMMC_DMA_BUF_SIZE * (E - 1) < n" using assms(1) by (cases E) auto
  have "(n + 511) div 512 \<le> (512 * (8 * E) + 511) div 512" using full by (intro div_le_mono) simp
  then have "(n + 511) div 512 \<le> 8 * E" by simp
  then show "transfer_bytes n \<le> DWMMC_DMA_BUF_SIZE * E" using full unfolding T by auto
  have "512 * ((n + 511) div 512) = n \<longleftrightarrow> 512 dvd n"
  proof
    assume "512 dvd n"
    then obtain q where "n = 512 * q" by blast
    then show "512 * ((n + 511) div 512) = n" by simp
  qed (metis dvd_triv_left)
  then show "transfer_bytes n = n \<longleftrightarrow> n < 512 \<or> 512 dvd n" unfolding T by auto
qed

text \<open>C26: With the memory it asks for, the table of descriptors is a chain of lines of 4096 bytes that starts at the buffer and ends with
  the line marked last; the lines say to move exactly the number of bytes written to the byte counter, which is the length
  rounded up to whole blocks of 512 from 512 bytes on, and so more than the buffer holds where the length is not a multiple; nothing outside the
  table is written.\<close>

theorem mmc_dma_table:
  assumes "0 < TrbDataLen Trb" "DataPhy Trb + TrbDataLen Trb \<le> 2 ^ 32"
    and E: "E = (TrbDataLen Trb + DWMMC_DMA_BUF_SIZE - 1) div DWMMC_DMA_BUF_SIZE" and B: "B = transfer_bytes (TrbDataLen Trb)"
    and pool: "mmDmaAllocate e l (E * sizeof_DMA_DESC_LINE) = Some D"
      "mmDmaMap e (l @ [DmaAllocate (E * sizeof_DMA_DESC_LINE) (Some D)]) mmDescriptors D (E * sizeof_DMA_DESC_LINE) =
         (EFI_SUCCESS, E * sizeof_DMA_DESC_LINE, Phy, M)" "Phy \<le> 2 ^ 32"
  defines "Trb' \<equiv> Trb\<lparr>DmaDesc := D, DmaDescPhy := Phy, DmaMap := Some M\<rparr>"
  shows "case BuildDmaDescTable e Trb l m of (Status, T, l', m') \<Rightarrow>
    Status = EFI_SUCCESS \<and> T = Trb' \<and>
    reg_writes l' = reg_writes l @ [(DW_MMC_BLKSIZ, of_nat (min (TrbDataLen Trb) 512)), (DW_MMC_BYTCNT, of_nat B),
      (DW_MMC_DBADDR, of_nat Phy), (DW_MMC_IDSTS, NOT 0)] \<and>
    (\<forall>k < E. \<forall>i < 4. desc_word m' D k i = table_line Trb' E B k i) \<and>
    (\<forall>a. a < D \<or> D + sizeof_DMA_DESC_LINE * E \<le> a \<longrightarrow> m' a = m a) \<and>
    (\<Sum>k < E. bytes_in_line E B k) = B \<and> TrbDataLen Trb \<le> B \<and> (B = TrbDataLen Trb \<longleftrightarrow> TrbDataLen Trb < 512 \<or> 512 dvd TrbDataLen Trb)"
proof -
  let ?T = "E * sizeof_DMA_DESC_LINE"
  note bounds = transfer_bytes_bounds [OF assms(1), folded E B]
  obtain m2 R where loop: "fold (describe Trb') [0..<E] (SetMem D ?T 0 m, B) = (m2, R)" by (metis surj_pair)
  note L = describe_loop [where Trb = Trb' and n = E and m = "SetMem D ?T 0 m" and B = B, unfolded loop fst_conv snd_conv]
  note O = L(2) [where E = E, OF order_refl]
  have D: "DmaDesc Trb' = D" by (simp add: Trb'_def)
  have "B < 2 ^ 64" using bounds(3) assms(2) by simp
  then have R: "wrap (R + DWMMC_DMA_BUF_SIZE) = B - DWMMC_DMA_BUF_SIZE * (E - 1)"
  proof (intro wrap_of_word)
    have "of_nat (DWMMC_DMA_BUF_SIZE * E) = (of_nat (DWMMC_DMA_BUF_SIZE * (E - 1)) + of_nat DWMMC_DMA_BUF_SIZE :: u64)"
      using bounds(1) by (cases E) (simp_all add: algebra_simps)
    then show "(of_nat (R + DWMMC_DMA_BUF_SIZE) :: u64) = of_nat (B - DWMMC_DMA_BUF_SIZE * (E - 1))"
      using L(3) bounds(2,4) by (simp add: of_nat_diff)
  qed simp
  let ?m3 = "describe_ends Trb' E R m2"
  have build: "BuildDmaDescTable e Trb l m = (EFI_SUCCESS, Trb',
      l @ [DmaAllocate ?T (Some D), DmaMapped mmDescriptors (Some M), Write32 DW_MMC_BLKSIZ (of_nat (min (TrbDataLen Trb) 512)),
           Write32 DW_MMC_BYTCNT (of_nat B), Write32 DW_MMC_DBADDR (of_nat Phy), Write32 DW_MMC_IDSTS (NOT 0)], ?m3)"
    using assms(1,2) pool loop unfolding BuildDmaDescTable_def Let_def E [symmetric] B [symmetric] by (simp add: Trb'_def)
  have "desc_word ?m3 D k i = table_line Trb' E B k i" if "k < E" "i < 4" for k i
    using describe_ends_lines [OF bounds(1) that R, of m2 Trb'] L(1) that by (simp add: D)
  moreover have "?m3 a = m a" if "a < D \<or> D + sizeof_DMA_DESC_LINE * E \<le> a" for a
  proof -
    have "?m3 a = m2 a" using describe_ends_outside [OF bounds(1), of a Trb'] that by (simp add: D)
    also have "\<dots> = SetMem D ?T 0 m a" using O [of a] that by (simp add: D)
    also have "\<dots> = m a" using that by (auto simp: SetMem_at mult.commute)
    finally show ?thesis .
  qed
  moreover have "(\<Sum>k < E. bytes_in_line E B k) = B"
  proof -
    obtain n where n: "E = Suc n" using bounds(1) by (cases E) auto
    have "(\<Sum>k < n. bytes_in_line E B k) = (\<Sum>k < n. DWMMC_DMA_BUF_SIZE)" by (intro sum.cong) (auto simp: bytes_in_line_def n)
    then show ?thesis using bounds(2,4) by (simp add: n bytes_in_line_def)
  qed
  ultimately show ?thesis using bounds(2,6) unfolding build B by auto
qed

definition ex_dma_trb :: DW_MMC_HC_TRB where
  "ex_dma_trb = \<lparr>TrbBlock = 0x4000, TrbSlot = 0, TrbPacket = 0, TrbData = 0x100000, TrbDataLen = 5000, TrbRead = True, DataPhy = 0x100000,
     DataMap = Some 0x66, TrbEvent = None, Started = False, TrbTimeout = 0, DmaDesc = 0, DmaDescPhy = 0, DmaMap = None, UseFifo = False, UseBE = False\<rparr>"

theorem mmc_dma_table_witness:
  "case BuildDmaDescTable quiet_env ex_dma_trb [] (\<lambda>_. 7) of (Status, T, l', m') \<Rightarrow> Status = EFI_SUCCESS \<and>
     desc_word m' 0x8000 0 1 = 4096 \<and> desc_word m' 0x8000 0 3 = 0x8010 \<and> desc_word m' 0x8000 1 1 = 1024 \<and> desc_word m' 0x8000 1 2 = 0x101000 \<and>
     desc_word m' 0x8000 1 3 = 0 \<and> m' 0x8020 = 7"
proof -
  have hyps: "0 < TrbDataLen ex_dma_trb" "DataPhy ex_dma_trb + TrbDataLen ex_dma_trb \<le> 2 ^ 32"
      "2 = (TrbDataLen ex_dma_trb + DWMMC_DMA_BUF_SIZE - 1) div DWMMC_DMA_BUF_SIZE" "5120 = transfer_bytes (TrbDataLen ex_dma_trb)"
    by (simp_all add: ex_dma_trb_def transfer_bytes_def)
  have env: "mmDmaAllocate quiet_env [] (2 * sizeof_DMA_DESC_LINE) = Some 0x8000"
      "mmDmaMap quiet_env ([] @ [DmaAllocate (2 * sizeof_DMA_DESC_LINE) (Some 0x8000)]) mmDescriptors 0x8000 (2 * sizeof_DMA_DESC_LINE) =
        (EFI_SUCCESS, 2 * sizeof_DMA_DESC_LINE, 0x8000, 0x77)" "(0x8000 :: nat) \<le> 2 ^ 32"
    by (simp_all add: quiet_env_def)
  obtain st T l' m' where b: "BuildDmaDescTable quiet_env ex_dma_trb [] (\<lambda>_. 7) = (st, T, l', m')" by (metis prod_cases4)
  from mmc_dma_table [OF hyps env, where m = "\<lambda>_. 7"] have
    "st = EFI_SUCCESS" and lines: "\<forall>k < 2. \<forall>i < 4. desc_word m' 0x8000 k i =
       table_line (ex_dma_trb\<lparr>DmaDesc := 0x8000, DmaDescPhy := 0x8000, DmaMap := Some 0x77\<rparr>) 2 5120 k i" and
    "\<forall>a. a < 0x8000 \<or> 0x8000 + sizeof_DMA_DESC_LINE * 2 \<le> a \<longrightarrow> m' a = 7"
    by (simp_all add: b)
  then show ?thesis unfolding b
    using lines [rule_format, of 0 1] lines [rule_format, of 0 3] lines [rule_format, of 1 1] lines [rule_format, of 1 2] lines [rule_format, of 1 3]
    by (simp add: table_line_def bytes_in_line_def DW_MMC_IDMAC_DES1_BS1_def ex_dma_trb_def sizeof_DMA_DESC_LINE_def)
qed

end
