(* ===== verification/MmcExec.thy ===== *)
theory MmcExec
  imports MmcTransfer
begin

text \<open>
  Executing a transfer request (\<open>Drivers/DwMmcHcDxe/DwMmcHci.c\<close> from \<open>DwMmcCreateTrb\<close> on): making and freeing
  it, the command word, sending the command, the response, waiting for the result.  Barriers have no
  counterpart: the log is in program order.
\<close>

section \<open>Making a request\<close>

text \<open>The request for a packet without its buffers mapped; \<open>None\<close> where the packet names no buffer for its data.\<close>

definition trb_buffers :: "EFI_SD_MMC_PACKET \<Rightarrow> DW_MMC_HC_TRB \<Rightarrow> mem \<Rightarrow> (DW_MMC_HC_TRB \<times> mem) option" where
  "trb_buffers Packet Trb m =
     (if InTransferLength Packet \<noteq> 0 \<and> InDataBuffer Packet \<noteq> 0
      then Some (Trb\<lparr>TrbData := InDataBuffer Packet, TrbDataLen := InTransferLength Packet, TrbRead := True\<rparr>,
                 SetMem (InDataBuffer Packet) (InTransferLength Packet) 0 m)
      else if OutTransferLength Packet \<noteq> 0 \<and> OutDataBuffer Packet \<noteq> 0
      then Some (Trb\<lparr>TrbData := OutDataBuffer Packet, TrbDataLen := OutTransferLength Packet, TrbRead := False\<rparr>, m)
      else if InTransferLength Packet = 0 \<and> OutTransferLength Packet = 0
      then Some (Trb\<lparr>TrbData := 0, TrbDataLen := 0\<rparr>, m)
      else None)"

definition is_tuning :: "SD_MMC_CARD_TYPE \<Rightarrow> EFI_SD_MMC_PACKET \<Rightarrow> bool" where
  "is_tuning CardType Packet \<longleftrightarrow>
     CardType = EmmcCardType \<and> CommandIndex Packet = EMMC_SEND_TUNING_BLOCK \<or>
     CardType = SdCardType \<and> CommandIndex Packet = SD_SEND_TUNING_BLOCK"

text \<open>Mapping the data, for the device to write (\<open>EfiBusMasterWrite\<close>) where the request reads, and starting the DMA engine.  A request that
  fails here is not freed.\<close>

definition map_data :: "mmc_env \<Rightarrow> DW_MMC_HC_TRB \<Rightarrow> mmc_log \<Rightarrow> mem \<Rightarrow> DW_MMC_HC_TRB option \<times> mmc_log \<times> mem" where
  "map_data e Trb l m =
     (let (Status, MapLength, Phy, M) = mmDmaMap e l (mmData (TrbRead Trb)) (TrbData Trb) (TrbDataLen Trb);
          l1 = l @ [DmaMapped (mmData (TrbRead Trb)) (if EFI_ERROR Status then None else Some M)]
      in if EFI_ERROR Status \<or> TrbDataLen Trb \<noteq> MapLength then (None, l1, m)
         else let (Status, Trb1, l2, m1) = BuildDmaDescTable e (Trb\<lparr>DataPhy := Phy, DataMap := Some M\<rparr>) l1 m
              in if EFI_ERROR Status then (None, l2 @ [DmaUnmapped M], m1)
                 else let (Status, l3) = DwMmcHcStartDma e l2
                      in if EFI_ERROR Status then (None, l3 @ [DmaUnmapped M], m1) else (Some Trb1, l3, m1))"

text \<open>\<open>DwMmcCreateTrb\<close> without the insertion of the new request in the queue, which its caller in \<open>MmcQueue\<close> adds.
  \<open>At\<close> is the packet's address.\<close>

definition DwMmcCreateTrb ::
  "mmc_env \<Rightarrow> SD_MMC_CARD_TYPE \<Rightarrow> nat \<Rightarrow> ptr \<Rightarrow> EFI_SD_MMC_PACKET \<Rightarrow> efi_event option \<Rightarrow> mmc_log \<Rightarrow> mem \<Rightarrow>
   DW_MMC_HC_TRB option \<times> mmc_log \<times> mem" where
  "DwMmcCreateTrb e CardType Slot At Packet Event l m =
     (let Block = mmTrbAllocate e l; l1 = l @ [TrbAllocate Block]
      in case Block of None \<Rightarrow> (None, l1, m)
      | Some B \<Rightarrow>
          let Trb = \<lparr>TrbBlock = B, TrbSlot = Slot, TrbPacket = At, TrbData = 0, TrbDataLen = 0, TrbRead = False, DataPhy = 0,
                     DataMap = None, TrbEvent = Event, Started = False, TrbTimeout = PacketTimeout Packet, DmaDesc = 0,
                     DmaDescPhy = 0, DmaMap = None, UseFifo = False, UseBE = False\<rparr>
          in case trb_buffers Packet Trb m of None \<Rightarrow> (None, l1, m)
             | Some (Trb1, m1) \<Rightarrow>
                 if is_tuning CardType Packet then (Some Trb1, l1, m1)
                 else if CardType = SdCardType then (Some (Trb1\<lparr>UseFifo := True\<rparr>), l1, m1)
                 else if TrbDataLen Trb1 \<noteq> 0 then map_data e Trb1 l1 m1
                 else (Some Trb1, l1, m1))"

definition DwMmcFreeTrb :: "DW_MMC_HC_TRB \<Rightarrow> mmc_log \<Rightarrow> mmc_log" where
  "DwMmcFreeTrb Trb l =
     l @ (case DmaMap Trb of None \<Rightarrow> [] | Some M \<Rightarrow> [DmaUnmapped M])
       @ (case DataMap Trb of None \<Rightarrow> [] | Some M \<Rightarrow> [DmaUnmapped M]) @ [TrbFree (TrbBlock Trb)]"

definition DwMmcCheckTrbEnv :: efi_status where
  "DwMmcCheckTrbEnv = EFI_SUCCESS"

partial_function (option) wait_env_loop :: "bool \<Rightarrow> nat \<Rightarrow> mmc_log \<Rightarrow> (efi_status \<times> mmc_log) option" where
  "wait_env_loop InfiniteWait Timeout l =
     (if InfiniteWait \<or> 0 < Timeout
      then if DwMmcCheckTrbEnv \<noteq> EFI_NOT_READY then Some (DwMmcCheckTrbEnv, l)
           else wait_env_loop InfiniteWait (wrap (Timeout + 2 ^ 64 - 1)) (MicroSecondDelay 1 l)
      else Some (EFI_TIMEOUT, l))"

definition DwMmcWaitTrbEnv :: "EFI_SD_MMC_PACKET \<Rightarrow> mmc_log \<Rightarrow> (efi_status \<times> mmc_log) option" where
  "DwMmcWaitTrbEnv Packet l = wait_env_loop (PacketTimeout Packet = 0) (PacketTimeout Packet) l"

section \<open>The command word\<close>

definition data_bits :: "EFI_SD_MMC_PACKET \<Rightarrow> u32" where
  "data_bits Packet =
     (if InTransferLength Packet \<noteq> 0 then BIT_CMD_WAIT_PRVDATA_COMPLETE OR BIT_CMD_DATA_EXPECTED OR BIT_CMD_READ
      else if OutTransferLength Packet \<noteq> 0 then BIT_CMD_WAIT_PRVDATA_COMPLETE OR BIT_CMD_DATA_EXPECTED OR BIT_CMD_WRITE
      else 0)"

definition addressed :: "EFI_SD_MMC_PACKET \<Rightarrow> bool" where
  "addressed Packet \<longleftrightarrow> CommandType Packet = SdMmcCommandTypeAc \<or> CommandType Packet = SdMmcCommandTypeAdtc"

definition emmc_command :: "EFI_SD_MMC_PACKET \<Rightarrow> u32" where
  "emmc_command Packet =
     (let Cmd = CMD_INDEX (CommandIndex Packet);
          Cmd1 =
            (if addressed Packet
             then (Cmd OR
                   (if CommandIndex Packet = EMMC_SET_RELATIVE_ADDR then BIT_CMD_SEND_INIT
                    else if CommandIndex Packet = EMMC_SEND_STATUS then BIT_CMD_WAIT_PRVDATA_COMPLETE
                    else if CommandIndex Packet = EMMC_STOP_TRANSMISSION then BIT_CMD_STOP_ABORT_CMD else 0))
                  OR data_bits Packet OR (BIT_CMD_RESPONSE_EXPECT OR BIT_CMD_CHECK_RESPONSE_CRC)
             else Cmd OR
                  (if CommandIndex Packet = EMMC_GO_IDLE_STATE then BIT_CMD_SEND_INIT
                   else if CommandIndex Packet = EMMC_SEND_OP_COND then BIT_CMD_RESPONSE_EXPECT
                   else if CommandIndex Packet = EMMC_ALL_SEND_CID
                   then BIT_CMD_RESPONSE_EXPECT OR BIT_CMD_LONG_RESPONSE OR BIT_CMD_CHECK_RESPONSE_CRC OR BIT_CMD_SEND_INIT
                   else 0));
          Cmd2 = Cmd1 OR
            (case ResponseType Packet of
               SdMmcResponseTypeR2 \<Rightarrow> BIT_CMD_RESPONSE_EXPECT OR BIT_CMD_CHECK_RESPONSE_CRC OR BIT_CMD_LONG_RESPONSE
             | SdMmcResponseTypeR3 \<Rightarrow> BIT_CMD_RESPONSE_EXPECT
             | _ \<Rightarrow> 0)
      in Cmd2 OR (BIT_CMD_USE_HOLD_REG OR BIT_CMD_START))"

definition sd_command :: "EFI_SD_MMC_PACKET \<Rightarrow> u32" where
  "sd_command Packet =
     (let Cmd = CMD_INDEX (CommandIndex Packet);
          Cmd1 =
            (if addressed Packet
             then (Cmd OR
                   (if CommandIndex Packet = SD_SET_RELATIVE_ADDR then BIT_CMD_SEND_INIT
                    else if CommandIndex Packet = SD_STOP_TRANSMISSION then BIT_CMD_STOP_ABORT_CMD else 0))
                  OR data_bits Packet
                  OR (BIT_CMD_RESPONSE_EXPECT OR BIT_CMD_CHECK_RESPONSE_CRC OR BIT_CMD_SEND_AUTO_STOP)
             else Cmd OR (if CommandIndex Packet = SD_GO_IDLE_STATE then BIT_CMD_SEND_INIT else 0));
          Cmd2 = Cmd1 OR
            (case ResponseType Packet of
               SdMmcResponseTypeR2 \<Rightarrow> BIT_CMD_RESPONSE_EXPECT OR BIT_CMD_CHECK_RESPONSE_CRC OR BIT_CMD_LONG_RESPONSE
             | SdMmcResponseTypeR3 \<Rightarrow> BIT_CMD_RESPONSE_EXPECT
             | SdMmcResponseTypeR1b \<Rightarrow> BIT_CMD_RESPONSE_EXPECT OR BIT_CMD_CHECK_RESPONSE_CRC
             | SdMmcResponseTypeR4 \<Rightarrow> BIT_CMD_RESPONSE_EXPECT OR BIT_CMD_CHECK_RESPONSE_CRC
             | SdMmcResponseTypeR6 \<Rightarrow> BIT_CMD_RESPONSE_EXPECT OR BIT_CMD_CHECK_RESPONSE_CRC
             | SdMmcResponseTypeR7 \<Rightarrow> BIT_CMD_RESPONSE_EXPECT OR BIT_CMD_CHECK_RESPONSE_CRC
             | _ \<Rightarrow> 0)
      in Cmd2 OR (BIT_CMD_USE_HOLD_REG OR BIT_CMD_START))"

section \<open>The response\<close>

definition read_resp0 :: "mmc_env \<Rightarrow> EFI_SD_MMC_PACKET \<Rightarrow> mmc_log \<Rightarrow> EFI_SD_MMC_PACKET \<times> mmc_log" where
  "read_resp0 e Packet l = (let (r0, l1) = MmioRead32 e DW_MMC_RESP0 l in (Packet\<lparr>Resp0 := r0\<rparr>, l1))"

definition read_long_response :: "mmc_env \<Rightarrow> EFI_SD_MMC_PACKET \<Rightarrow> mmc_log \<Rightarrow> EFI_SD_MMC_PACKET \<times> mmc_log" where
  "read_long_response e Packet l =
     (let (r0, l1) = MmioRead32 e DW_MMC_RESP0 l; (r1, l2) = MmioRead32 e DW_MMC_RESP1 l1;
          (r2, l3) = MmioRead32 e DW_MMC_RESP2 l2; (r3, l4) = MmioRead32 e DW_MMC_RESP3 l3
      in (Packet\<lparr>Resp0 := r0, Resp1 := r1, Resp2 := r2, Resp3 := r3\<rparr>, l4))"

definition emmc_response :: "mmc_env \<Rightarrow> EFI_SD_MMC_PACKET \<Rightarrow> mmc_log \<Rightarrow> EFI_SD_MMC_PACKET \<times> mmc_log" where
  "emmc_response e Packet l =
     (if ResponseType Packet \<in> {SdMmcResponseTypeR1, SdMmcResponseTypeR1b, SdMmcResponseTypeR3, SdMmcResponseTypeR4, SdMmcResponseTypeR5}
      then read_resp0 e Packet l
      else if ResponseType Packet = SdMmcResponseTypeR2 then read_long_response e Packet l else (Packet, l))"

definition sd_response :: "mmc_env \<Rightarrow> EFI_SD_MMC_PACKET \<Rightarrow> mmc_log \<Rightarrow> EFI_SD_MMC_PACKET \<times> mmc_log" where
  "sd_response e Packet l =
     (if ResponseType Packet \<in> {SdMmcResponseTypeR1, SdMmcResponseTypeR1b, SdMmcResponseTypeR3, SdMmcResponseTypeR4, SdMmcResponseTypeR5,
           SdMmcResponseTypeR6, SdMmcResponseTypeR7}
      then read_resp0 e Packet l
      else if ResponseType Packet = SdMmcResponseTypeR2 then read_long_response e Packet l else (Packet, l))"

text \<open>The workaround for the card-specific data: the sixteen bytes of the response as a list, fifteen of them moved one down.\<close>

definition response_bytes :: "EFI_SD_MMC_PACKET \<Rightarrow> u8 list" where
  "response_bytes Packet = bytes32 (Resp0 Packet) @ bytes32 (Resp1 Packet) @ bytes32 (Resp2 Packet) @ bytes32 (Resp3 Packet)"

definition word_of_bytes :: "u8 list \<Rightarrow> u32" where
  "word_of_bytes bs = read32 (\<lambda>a. bs ! a) 0"

definition shift_response :: "EFI_SD_MMC_PACKET \<Rightarrow> EFI_SD_MMC_PACKET" where
  "shift_response Packet =
     (let Resp = response_bytes Packet; Buf = take 15 (drop 1 Resp); New = Buf @ drop 15 Resp
      in Packet\<lparr>Resp0 := word_of_bytes New, Resp1 := word_of_bytes (drop 4 New), Resp2 := word_of_bytes (drop 8 New),
                Resp3 := word_of_bytes (drop 12 New)\<rparr>)"

section \<open>Executing a request\<close>

definition emmc_err_mask :: u32 where
  "emmc_err_mask = (DW_MMC_INT_EBE OR DW_MMC_INT_HLE OR DW_MMC_INT_RTO OR DW_MMC_INT_RCRC OR DW_MMC_INT_RE)
     OR (DW_MMC_INT_DCRC OR DW_MMC_INT_DRT OR DW_MMC_INT_SBE)"

text \<open>The counter is set to 10000 in every turn and never runs out; the \<open>continue\<close> of a transfer that is not done
  goes to the loop's condition, like the end of the body.\<close>

partial_function (option) emmc_wait :: "mmc_env \<Rightarrow> mmc_log \<Rightarrow> (efi_status \<times> mmc_log) option" where
  "emmc_wait e l =
     (let Timeout = 10000 - 1 :: nat
      in if Timeout = 0 then Some (EFI_SUCCESS, l)
         else let (IntStatus, l1) = MmioRead32 e DW_MMC_RINTSTS l
              in if IntStatus AND emmc_err_mask \<noteq> 0 then Some (EFI_DEVICE_ERROR, l1)
                 else let l2 = MicroSecondDelay 10 l1
                      in if IntStatus AND DW_MMC_INT_CMD_DONE \<noteq> 0 then Some (EFI_SUCCESS, l2) else emmc_wait e l2)"

definition send_command :: "u32 \<Rightarrow> EFI_SD_MMC_PACKET \<Rightarrow> mmc_log \<Rightarrow> mmc_log" where
  "send_command Cmd Packet l = MmioWrite32 DW_MMC_CMD Cmd (MmioWrite32 DW_MMC_CMDARG (CommandArgument Packet) l)"

definition DwEmmcExecTrb ::
  "mmc_env \<Rightarrow> EFI_SD_MMC_PACKET \<Rightarrow> mmc_log \<Rightarrow> (efi_status \<times> EFI_SD_MMC_PACKET \<times> mmc_log) option" where
  "DwEmmcExecTrb e Packet l =
     Option.bind (wait_idle e l) (\<lambda>l1.
     map_option (\<lambda>(Status, l2).
       if EFI_ERROR Status then (Status, Packet, l2)
       else let (P, l3) = emmc_response e Packet l2
            in (EFI_SUCCESS, if CommandIndex P = EMMC_SEND_CSD then shift_response P else P, l3))
       (emmc_wait e (send_command (emmc_command Packet) Packet (MmioWrite32 DW_MMC_RINTSTS (NOT 0) l1))))"

fun sd_wait :: "mmc_env \<Rightarrow> nat \<Rightarrow> u32 \<Rightarrow> mmc_log \<Rightarrow> u32 \<times> mmc_log" where
  "sd_wait e 0 IntStatus l = (IntStatus, l)"
| "sd_wait e (Suc n) IntStatus l =
     (if n = 0 then (IntStatus, l)
      else let (IntStatus', l1) = MmioRead32 e DW_MMC_RINTSTS l; l2 = MicroSecondDelay 1 l1
           in if IntStatus' AND DW_MMC_INT_CMD_DONE \<noteq> 0 then (IntStatus', l2) else sd_wait e n IntStatus' l2)"

definition sd_err_mask :: "EFI_SD_MMC_PACKET \<Rightarrow> u32" where
  "sd_err_mask Packet =
     ((DW_MMC_INT_EBE OR DW_MMC_INT_HLE OR DW_MMC_INT_RTO OR DW_MMC_INT_RCRC OR DW_MMC_INT_RE) OR (DW_MMC_INT_DRT OR DW_MMC_INT_SBE))
     OR (if InTransferLength Packet \<noteq> 0 \<or> OutTransferLength Packet \<noteq> 0 then DW_MMC_INT_DCRC else 0)"

partial_function (option) wait_idsts :: "mmc_env \<Rightarrow> u32 \<Rightarrow> mmc_log \<Rightarrow> mmc_log option" where
  "wait_idsts e Mask l =
     (let (Idsts, l1) = MmioRead32 e DW_MMC_IDSTS l in if Idsts AND Mask = 0 then wait_idsts e Mask l1 else Some l1)"

text \<open>The sizes and the FIFO reset before a FIFO transfer; a reset that times out is only reported.\<close>

definition sd_fifo_setup :: "mmc_env \<Rightarrow> DW_MMC_HC_TRB \<Rightarrow> EFI_SD_MMC_PACKET \<Rightarrow> mmc_log \<Rightarrow> mmc_log" where
  "sd_fifo_setup e Trb Packet l =
     (if UseFifo Trb
      then let n = (if TrbRead Trb then InTransferLength Packet else OutTransferLength Packet);
               l1 = MmioWrite32 DW_MMC_BLKSIZ (of_nat (min n DW_MMC_BLOCK_SIZE)) (MmioWrite32 DW_MMC_BYTCNT (of_nat n) l)
           in if TrbDataLen Trb \<noteq> 0 then snd (DwMmcHcWaitReset e DW_MMC_CTRL_FIFO_RESET l1) else l1
      else l)"

definition sd_data ::
  "mmc_env \<Rightarrow> DW_MMC_HC_TRB \<Rightarrow> EFI_SD_MMC_PACKET \<Rightarrow> mmc_log \<Rightarrow> mem \<Rightarrow> (efi_status \<times> mmc_log \<times> mem) option" where
  "sd_data e Trb Packet l m =
     (if TrbDataLen Trb = 0 then Some (EFI_SUCCESS, l, m)
      else if UseFifo Trb then TransferFifo e Trb l m
      else if InTransferLength Packet \<noteq> 0
      then map_option (\<lambda>l1. let (Status, l2) = DwMmcHcStopDma e l1 in (Status, l2, m)) (wait_idsts e DW_MMC_IDSTS_RI l)
      else if OutTransferLength Packet \<noteq> 0
      then map_option (\<lambda>l1. let (Status, l2) = DwMmcHcStopDma e l1 in (Status, l2, m)) (wait_idsts e DW_MMC_IDSTS_TI l)
      else Some (EFI_SUCCESS, l, m))"

definition DwSdExecTrb ::
  "mmc_env \<Rightarrow> DW_MMC_HC_TRB \<Rightarrow> EFI_SD_MMC_PACKET \<Rightarrow> mmc_log \<Rightarrow> mem \<Rightarrow> (efi_status \<times> EFI_SD_MMC_PACKET \<times> mmc_log \<times> mem) option" where
  "DwSdExecTrb e Trb Packet l m =
     Option.bind (wait_idle e l) (\<lambda>l1.
     let l2 = MmioWrite32 DW_MMC_RINTSTS (NOT 0) l1;
         Trb1 = (if addressed Packet \<and> CommandIndex Packet = SD_SEND_SCR then Trb\<lparr>UseBE := True\<rparr> else Trb);
         l3 = send_command (sd_command Packet) Packet (sd_fifo_setup e Trb1 Packet l2);
         (IntStatus, l4) = sd_wait e 10000 (NOT 0) l3
     in if IntStatus AND sd_err_mask Packet \<noteq> 0 then Some (EFI_DEVICE_ERROR, Packet, l4, m)
        else map_option (\<lambda>(Status, l5, m1).
               if EFI_ERROR Status then (Status, Packet, l5, m1)
               else let (P, l6) = sd_response e Packet l5
                    in (EFI_SUCCESS, if CommandIndex P = SD_SEND_CSD \<or> CommandIndex P = SD_SEND_CID then shift_response P else P, l6, m1))
             (sd_data e Trb1 Packet l4 m))"

definition DwMmcExecTrb ::
  "mmc_env \<Rightarrow> SD_MMC_CARD_TYPE \<Rightarrow> DW_MMC_HC_TRB \<Rightarrow> EFI_SD_MMC_PACKET \<Rightarrow> mmc_log \<Rightarrow> mem \<Rightarrow>
   (efi_status \<times> EFI_SD_MMC_PACKET \<times> mmc_log \<times> mem) option" where
  "DwMmcExecTrb e CardType Trb Packet l m =
     (if CardType = EmmcCardType then map_option (\<lambda>(Status, P, l1). (Status, P, l1, m)) (DwEmmcExecTrb e Packet l)
      else if CardType = SdCardType then DwSdExecTrb e Trb Packet l m
      else Some (EFI_SUCCESS, Packet, l, m))"

section \<open>The result\<close>

definition DwMmcCheckTrbResult ::
  "mmc_env \<Rightarrow> DW_MMC_HC_TRB \<Rightarrow> EFI_SD_MMC_PACKET \<Rightarrow> mmc_log \<Rightarrow> (efi_status \<times> mmc_log) option" where
  "DwMmcCheckTrbResult e Trb Packet l =
     (if UseFifo Trb
      then if TrbDataLen Trb \<noteq> 0
           then let (IntStatus, l1) = MmioRead32 e DW_MMC_RINTSTS l
                in Some (if IntStatus AND DW_MMC_INT_ACD = 0 then EFI_NOT_READY
                         else if IntStatus AND DW_MMC_INT_DTO = 0 then EFI_NOT_READY else EFI_SUCCESS, l1)
           else Some (EFI_SUCCESS, l)
      else if InTransferLength Packet \<noteq> 0
      then map_option (\<lambda>l1. (EFI_SUCCESS, MmioWrite32 DW_MMC_IDSTS (NOT 0) l1)) (wait_idsts e (push_bit 1 1) l)
      else if OutTransferLength Packet \<noteq> 0
      then map_option (\<lambda>l1. (EFI_SUCCESS, MmioWrite32 DW_MMC_IDSTS (NOT 0) l1)) (wait_idsts e (push_bit 0 1) l)
      else Some (EFI_SUCCESS, l))"

partial_function (option) wait_result_loop ::
  "mmc_env \<Rightarrow> DW_MMC_HC_TRB \<Rightarrow> EFI_SD_MMC_PACKET \<Rightarrow> bool \<Rightarrow> nat \<Rightarrow> mmc_log \<Rightarrow> (efi_status \<times> mmc_log) option" where
  "wait_result_loop e Trb Packet InfiniteWait Timeout l =
     (if InfiniteWait \<or> 0 < Timeout
      then Option.bind (DwMmcCheckTrbResult e Trb Packet l) (\<lambda>(Status, l1).
             if Status \<noteq> EFI_NOT_READY then Some (Status, l1)
             else wait_result_loop e Trb Packet InfiniteWait (wrap (Timeout + 2 ^ 64 - 1)) (MicroSecondDelay 1 l1))
      else Some (EFI_TIMEOUT, l))"

definition DwMmcWaitTrbResult ::
  "mmc_env \<Rightarrow> DW_MMC_HC_TRB \<Rightarrow> EFI_SD_MMC_PACKET \<Rightarrow> mmc_log \<Rightarrow> (efi_status \<times> mmc_log) option" where
  "DwMmcWaitTrbResult e Trb Packet l = wait_result_loop e Trb Packet (PacketTimeout Packet = 0) (PacketTimeout Packet) l"

end
