(* ===== verification/CardCommands.thy ===== *)
theory CardCommands
  imports MmcExec
begin

text \<open>
  The commands of the SD and eMMC card drivers (\<open>Drivers/DwMmcHcDxe/SdDevice.c\<close>, \<open>EmmcDevice.c\<close>): each builds a
  packet on its stack and hands it to the pass-thru protocol.

  The protocol is an argument, as it is in the code: \<open>PassThru\<close> takes a packet and the state \<open>'w\<close> behind it
  and returns the status, the packet as the call leaves it and the new state, or \<open>None\<close> if it does not return.
  A command returns the same without the packet, with the value it reads from the response where it
  writes one to the caller.
\<close>

type_synonym 'w pass_thru = "EFI_SD_MMC_PACKET \<Rightarrow> 'w \<Rightarrow> (efi_status \<times> EFI_SD_MMC_PACKET \<times> 'w) option"

abbreviation (input) SD_ALL_SEND_CID :: nat where "SD_ALL_SEND_CID \<equiv> 2"
abbreviation (input) SDIO_SEND_OP_COND :: nat where "SDIO_SEND_OP_COND \<equiv> 5"
abbreviation (input) SD_SET_BUS_WIDTH :: nat where "SD_SET_BUS_WIDTH \<equiv> 6"
abbreviation (input) SD_SWITCH_FUNC :: nat where "SD_SWITCH_FUNC \<equiv> 6"
abbreviation (input) SD_SELECT_DESELECT_CARD :: nat where "SD_SELECT_DESELECT_CARD \<equiv> 7"
abbreviation (input) SD_SEND_IF_COND :: nat where "SD_SEND_IF_COND \<equiv> 8"
abbreviation (input) SD_VOLTAGE_SWITCH :: nat where "SD_VOLTAGE_SWITCH \<equiv> 11"
abbreviation (input) SD_SEND_STATUS :: nat where "SD_SEND_STATUS \<equiv> 13"
abbreviation (input) SD_SEND_OP_COND :: nat where "SD_SEND_OP_COND \<equiv> 41"
abbreviation (input) SD_APP_CMD :: nat where "SD_APP_CMD \<equiv> 55"
abbreviation (input) EMMC_SWITCH :: nat where "EMMC_SWITCH \<equiv> 6"
abbreviation (input) EMMC_SELECT_DESELECT_CARD :: nat where "EMMC_SELECT_DESELECT_CARD \<equiv> 7"
abbreviation (input) EMMC_SEND_EXT_CSD :: nat where "EMMC_SEND_EXT_CSD \<equiv> 8"

text \<open>The zeroed packet with its two blocks and the generic timeout; the zero of the two enumerations is their first member.\<close>

definition new_packet :: EFI_SD_MMC_PACKET where
  "new_packet =
     \<lparr>SdMmcCmdBlk = True, SdMmcStatusBlk = True, CommandIndex = 0, CommandArgument = 0, CommandType = SdMmcCommandTypeBc,
      ResponseType = SdMmcResponseTypeR1, Resp0 = 0, Resp1 = 0, Resp2 = 0, Resp3 = 0, InDataBuffer = 0, OutDataBuffer = 0,
      InTransferLength = 0, OutTransferLength = 0, PacketTimeout = DW_MMC_HC_GENERIC_TIMEOUT, TransactionStatus = EFI_SUCCESS\<rparr>"

definition with_command ::
  "nat \<Rightarrow> EFI_SD_MMC_COMMAND_TYPE \<Rightarrow> EFI_SD_MMC_RESPONSE_TYPE \<Rightarrow> u32 \<Rightarrow> EFI_SD_MMC_PACKET \<Rightarrow> EFI_SD_MMC_PACKET" where
  "with_command Index Type Response Argument P =
     P\<lparr>CommandIndex := Index, CommandType := Type, ResponseType := Response, CommandArgument := Argument\<rparr>"

text \<open>A call whose packet is not looked at any more, and one whose first response word is returned.\<close>

definition issue :: "'w pass_thru \<Rightarrow> EFI_SD_MMC_PACKET \<Rightarrow> 'w \<Rightarrow> (efi_status \<times> 'w) option" where
  "issue PassThru P w = map_option (\<lambda>(Status, P', w'). (Status, w')) (PassThru P w)"

definition issue_resp :: "'w pass_thru \<Rightarrow> EFI_SD_MMC_PACKET \<Rightarrow> u32 \<Rightarrow> 'w \<Rightarrow> (efi_status \<times> u32 \<times> 'w) option" where
  "issue_resp PassThru P Old w =
     map_option (\<lambda>(Status, P', w'). (Status, if EFI_ERROR Status then Old else Resp0 P', w')) (PassThru P w)"

definition rca_argument :: "u16 \<Rightarrow> u32" where
  "rca_argument Rca = push_bit 16 (ucast Rca)"

section \<open>SD cards\<close>

definition SdCardReset :: "'w pass_thru \<Rightarrow> 'w \<Rightarrow> (efi_status \<times> 'w) option" where
  "SdCardReset PassThru w =
     issue PassThru (new_packet\<lparr>CommandIndex := SD_GO_IDLE_STATE, CommandType := SdMmcCommandTypeBc\<rparr>) w"

definition SdCardVoltageCheck :: "'w pass_thru \<Rightarrow> u8 \<Rightarrow> u8 \<Rightarrow> 'w \<Rightarrow> (efi_status \<times> 'w) option" where
  "SdCardVoltageCheck PassThru SupplyVoltage CheckPattern w =
     (let Argument = push_bit 8 (ucast SupplyVoltage) OR ucast CheckPattern
      in map_option
           (\<lambda>(Status, P, w'). (if \<not> EFI_ERROR Status \<and> Resp0 P \<noteq> Argument then EFI_DEVICE_ERROR else Status, w'))
           (PassThru (with_command SD_SEND_IF_COND SdMmcCommandTypeBcr SdMmcResponseTypeR7 Argument new_packet) w))"

definition SdioSendOpCond :: "'w pass_thru \<Rightarrow> u32 \<Rightarrow> bool \<Rightarrow> 'w \<Rightarrow> (efi_status \<times> 'w) option" where
  "SdioSendOpCond PassThru VoltageWindow S18R w =
     issue PassThru (with_command SDIO_SEND_OP_COND SdMmcCommandTypeBcr SdMmcResponseTypeR4
       ((VoltageWindow AND 0xFFFFFF) OR (if S18R then push_bit 24 1 else 0)) new_packet) w"

text \<open>Announcing an application command; what follows reuses the packet.\<close>

definition app_command ::
  "'w pass_thru \<Rightarrow> u16 \<Rightarrow> (EFI_SD_MMC_PACKET \<Rightarrow> 'w \<Rightarrow> 'r option) \<Rightarrow> (efi_status \<Rightarrow> 'w \<Rightarrow> 'r) \<Rightarrow> 'w \<Rightarrow> 'r option" where
  "app_command PassThru Rca go fail w =
     Option.bind (PassThru (with_command SD_APP_CMD SdMmcCommandTypeAc SdMmcResponseTypeR1 (rca_argument Rca) new_packet) w)
       (\<lambda>(Status, P, w1). if EFI_ERROR Status then Some (fail Status w1) else go P w1)"

definition SdCardSendOpCond ::
  "'w pass_thru \<Rightarrow> u16 \<Rightarrow> u32 \<Rightarrow> bool \<Rightarrow> bool \<Rightarrow> bool \<Rightarrow> u32 \<Rightarrow> 'w \<Rightarrow> (efi_status \<times> u32 \<times> 'w) option" where
  "SdCardSendOpCond PassThru Rca VoltageWindow S18R Xpc Hcs Ocr w =
     app_command PassThru Rca
       (\<lambda>P. issue_resp PassThru (with_command SD_SEND_OP_COND SdMmcCommandTypeBcr SdMmcResponseTypeR3
          ((VoltageWindow AND 0xFFFFFF) OR (if S18R then push_bit 24 1 else 0) OR (if Xpc then push_bit 28 1 else 0)
            OR (if Hcs then push_bit 30 1 else 0)) P) Ocr)
       (\<lambda>Status w1. (Status, Ocr, w1)) w"

definition SdCardAllSendCid :: "'w pass_thru \<Rightarrow> 'w \<Rightarrow> (efi_status \<times> 'w) option" where
  "SdCardAllSendCid PassThru w =
     issue PassThru (with_command SD_ALL_SEND_CID SdMmcCommandTypeBcr SdMmcResponseTypeR2 0 new_packet) w"

definition SdCardSetRca :: "'w pass_thru \<Rightarrow> u16 \<Rightarrow> 'w \<Rightarrow> (efi_status \<times> u16 \<times> 'w) option" where
  "SdCardSetRca PassThru Rca w =
     map_option (\<lambda>(Status, P, w'). (Status, if EFI_ERROR Status then Rca else ucast (drop_bit 16 (Resp0 P)), w'))
       (PassThru (with_command SD_SET_RELATIVE_ADDR SdMmcCommandTypeBcr SdMmcResponseTypeR6 0 new_packet) w)"

text \<open>The card-specific data: fifteen bytes of the response, from the second byte of the structure on.\<close>

definition SdCardGetCsd :: "'w pass_thru \<Rightarrow> u16 \<Rightarrow> u8 list \<Rightarrow> 'w \<Rightarrow> (efi_status \<times> u8 list \<times> 'w) option" where
  "SdCardGetCsd PassThru Rca Csd w =
     map_option (\<lambda>(Status, P, w'). (Status, if EFI_ERROR Status then Csd else take 1 Csd @ take 15 (response_bytes P), w'))
       (PassThru (with_command SD_SEND_CSD SdMmcCommandTypeAc SdMmcResponseTypeR2 (rca_argument Rca) new_packet) w)"

definition SdCardGetScr :: "'w pass_thru \<Rightarrow> u16 \<Rightarrow> ptr \<Rightarrow> 'w \<Rightarrow> (efi_status \<times> 'w) option" where
  "SdCardGetScr PassThru Rca Scr w =
     app_command PassThru Rca
       (\<lambda>P. issue PassThru (P\<lparr>CommandIndex := SD_SEND_SCR, CommandType := SdMmcCommandTypeAdtc, ResponseType := SdMmcResponseTypeR1,
          InDataBuffer := Scr, InTransferLength := 8\<rparr>))
       Pair w"

definition SdCardSelect :: "'w pass_thru \<Rightarrow> u16 \<Rightarrow> 'w \<Rightarrow> (efi_status \<times> 'w) option" where
  "SdCardSelect PassThru Rca w =
     issue PassThru (with_command SD_SELECT_DESELECT_CARD SdMmcCommandTypeAc
       (if Rca \<noteq> 0 then SdMmcResponseTypeR1b else SdMmcResponseTypeR1) (rca_argument Rca) new_packet) w"

definition SdCardVoltageSwitch :: "'w pass_thru \<Rightarrow> 'w \<Rightarrow> (efi_status \<times> 'w) option" where
  "SdCardVoltageSwitch PassThru w =
     issue PassThru (with_command SD_VOLTAGE_SWITCH SdMmcCommandTypeAc SdMmcResponseTypeR1 0 new_packet) w"

definition SdCardSetBusWidth :: "'w pass_thru \<Rightarrow> u16 \<Rightarrow> nat \<Rightarrow> 'w \<Rightarrow> (efi_status \<times> 'w) option" where
  "SdCardSetBusWidth PassThru Rca BusWidth w =
     app_command PassThru Rca
       (\<lambda>P w1. case (if BusWidth = 1 then Some 0 else if BusWidth = 4 then Some 2 else None) of
            None \<Rightarrow> Some (EFI_INVALID_PARAMETER, w1)
          | Some Value \<Rightarrow>
              issue PassThru (with_command SD_SET_BUS_WIDTH SdMmcCommandTypeAc SdMmcResponseTypeR1 (Value AND 0x3) P) w1)
       Pair w"

text \<open>The parameters are those of the code; the command system is not used.\<close>

definition SdCardSwitch ::
  "'w pass_thru \<Rightarrow> u8 \<Rightarrow> u8 \<Rightarrow> u8 \<Rightarrow> u8 \<Rightarrow> bool \<Rightarrow> ptr \<Rightarrow> 'w \<Rightarrow> (efi_status \<times> 'w) option" where
  "SdCardSwitch PassThru AccessMode CommandSystem DriveStrength PowerLimit Mode SwitchResp w =
     issue PassThru
       ((with_command SD_SWITCH_FUNC SdMmcCommandTypeAdtc SdMmcResponseTypeR1
          ((ucast AccessMode AND 0xF) OR push_bit 4 (ucast PowerLimit AND 0xF) OR push_bit 8 (ucast DriveStrength AND 0xF)
            OR push_bit 12 (ucast DriveStrength AND 0xF) OR (if Mode then push_bit 31 1 else 0)) new_packet)
        \<lparr>InDataBuffer := SwitchResp, InTransferLength := 64\<rparr>) w"

definition SdCardSendStatus :: "'w pass_thru \<Rightarrow> u16 \<Rightarrow> u32 \<Rightarrow> 'w \<Rightarrow> (efi_status \<times> u32 \<times> 'w) option" where
  "SdCardSendStatus PassThru Rca DevStatus w =
     issue_resp PassThru (with_command SD_SEND_STATUS SdMmcCommandTypeAc SdMmcResponseTypeR1 (rca_argument Rca) new_packet) DevStatus w"

definition SdCardSendTuningBlk :: "'w pass_thru \<Rightarrow> ptr \<Rightarrow> 'w \<Rightarrow> (efi_status \<times> 'w) option" where
  "SdCardSendTuningBlk PassThru TuningBlock w =
     issue PassThru ((with_command SD_SEND_TUNING_BLOCK SdMmcCommandTypeAdtc SdMmcResponseTypeR1 0 new_packet)
        \<lparr>InDataBuffer := TuningBlock, InTransferLength := 64\<rparr>) w"

section \<open>eMMC\<close>

definition EmmcReset :: "'w pass_thru \<Rightarrow> (nat \<Rightarrow> 'w \<Rightarrow> 'w) \<Rightarrow> 'w \<Rightarrow> (efi_status \<times> 'w) option" where
  "EmmcReset PassThru Stall w =
     issue PassThru (with_command EMMC_GO_IDLE_STATE SdMmcCommandTypeBc SdMmcResponseTypeR1 0 new_packet) (Stall 1000 w)"

definition EmmcGetOcr :: "'w pass_thru \<Rightarrow> u32 \<Rightarrow> 'w \<Rightarrow> (efi_status \<times> u32 \<times> 'w) option" where
  "EmmcGetOcr PassThru Argument w =
     issue_resp PassThru (with_command EMMC_SEND_OP_COND SdMmcCommandTypeBcr SdMmcResponseTypeR3 Argument new_packet) Argument w"

definition EmmcGetAllCid :: "'w pass_thru \<Rightarrow> 'w \<Rightarrow> (efi_status \<times> 'w) option" where
  "EmmcGetAllCid PassThru w =
     issue PassThru (with_command EMMC_ALL_SEND_CID SdMmcCommandTypeBcr SdMmcResponseTypeR2 0 new_packet) w"

definition EmmcSetRca :: "'w pass_thru \<Rightarrow> u16 \<Rightarrow> 'w \<Rightarrow> (efi_status \<times> 'w) option" where
  "EmmcSetRca PassThru Rca w =
     issue PassThru (with_command EMMC_SET_RELATIVE_ADDR SdMmcCommandTypeAc SdMmcResponseTypeR1 (rca_argument Rca) new_packet) w"

definition EmmcGetCsd :: "'w pass_thru \<Rightarrow> u16 \<Rightarrow> u8 list \<Rightarrow> 'w \<Rightarrow> (efi_status \<times> u8 list \<times> 'w) option" where
  "EmmcGetCsd PassThru Rca Csd w =
     map_option (\<lambda>(Status, P, w'). (Status, if EFI_ERROR Status then Csd else take 1 Csd @ take 15 (response_bytes P), w'))
       (PassThru (with_command EMMC_SEND_CSD SdMmcCommandTypeAc SdMmcResponseTypeR2 (rca_argument Rca) new_packet) w)"

definition EmmcSelect :: "'w pass_thru \<Rightarrow> u16 \<Rightarrow> 'w \<Rightarrow> (efi_status \<times> 'w) option" where
  "EmmcSelect PassThru Rca w =
     issue PassThru (with_command EMMC_SELECT_DESELECT_CARD SdMmcCommandTypeAc SdMmcResponseTypeR1 (rca_argument Rca) new_packet) w"

definition EmmcGetExtCsd :: "'w pass_thru \<Rightarrow> ptr \<Rightarrow> 'w \<Rightarrow> (efi_status \<times> 'w) option" where
  "EmmcGetExtCsd PassThru ExtCsd w =
     issue PassThru ((with_command EMMC_SEND_EXT_CSD SdMmcCommandTypeAdtc SdMmcResponseTypeR1 0 new_packet)
        \<lparr>InDataBuffer := ExtCsd, InTransferLength := 512\<rparr>) w"

definition EmmcSwitch :: "'w pass_thru \<Rightarrow> u8 \<Rightarrow> u8 \<Rightarrow> u8 \<Rightarrow> u8 \<Rightarrow> 'w \<Rightarrow> (efi_status \<times> 'w) option" where
  "EmmcSwitch PassThru Access Index Val CmdSet w =
     issue PassThru (with_command EMMC_SWITCH SdMmcCommandTypeAc SdMmcResponseTypeR1b
       (push_bit 24 (ucast Access) OR push_bit 16 (ucast Index) OR push_bit 8 (ucast Val) OR ucast CmdSet) new_packet) w"

definition EmmcSendStatus :: "'w pass_thru \<Rightarrow> u16 \<Rightarrow> u32 \<Rightarrow> 'w \<Rightarrow> (efi_status \<times> u32 \<times> 'w) option" where
  "EmmcSendStatus PassThru Rca DevStatus w =
     issue_resp PassThru (with_command EMMC_SEND_STATUS SdMmcCommandTypeAc SdMmcResponseTypeR1 (rca_argument Rca) new_packet) DevStatus w"

definition EmmcSendTuningBlk :: "'w pass_thru \<Rightarrow> nat \<Rightarrow> ptr \<Rightarrow> 'w \<Rightarrow> (efi_status \<times> 'w) option" where
  "EmmcSendTuningBlk PassThru BusWidth TuningBlock w =
     issue PassThru ((with_command EMMC_SEND_TUNING_BLOCK SdMmcCommandTypeAdtc SdMmcResponseTypeR1 0 new_packet)
        \<lparr>InDataBuffer := TuningBlock, InTransferLength := if BusWidth = 8 then 128 else 64\<rparr>) w"

end
