(* ===== verification/MmcQueue.thy ===== *)
theory MmcQueue
  imports MmcExec
begin

text \<open>
  The SD/MMC pass-thru protocol of the MMC host controller driver and its queue of non-blocking requests
  (\<open>Drivers/DwMmcHcDxe/DwMmcHcDxe.c\<close>).

  The driver's private data is a record, with the array of slots a list; the caller's packets are a map from
  their addresses.  The task priority level raised around the queue keeps the timer out; here every operation
  runs without interruption, except where it waits for the timer.  \<open>None\<close> as a result says that the call does not
  return, or indexes the array of slots outside its bounds.
\<close>

section \<open>State\<close>

record DW_MMC_HC_SLOT =
  Enable :: bool
  SlotType :: SD_MMC_SLOT_TYPE
  MediaPresent :: bool
  Initialized :: bool
  CardType :: SD_MMC_CARD_TYPE

record DW_MMC_HC_PRIVATE_DATA =
  PreviousSlot :: nat
  TimerEvent :: bool
  ConnectEvent :: bool
  RequestQueue :: "DW_MMC_HC_TRB list"
  MmcSlots :: "DW_MMC_HC_SLOT list"
  Capability :: DW_MMC_HC_SLOT_CAP
  MaxCurrent :: nat

record mmc_world =
  mmcDev :: DW_MMC_HC_PRIVATE_DATA
  mmcLog :: mmc_log
  mmcMem :: mem
  mmcPackets :: "ptr \<Rightarrow> EFI_SD_MMC_PACKET"

abbreviation (input) DW_MMC_HC_MAX_SLOT :: nat where "DW_MMC_HC_MAX_SLOT \<equiv> 1"

text \<open>The slot with a number that the caller gives; the code does not check it, and \<open>None\<close> is its access behind the array, whose
  outcome C leaves open.\<close>

definition slot_at :: "nat \<Rightarrow> mmc_world \<Rightarrow> DW_MMC_HC_SLOT option" where
  "slot_at Slot w = (if Slot < length (MmcSlots (mmcDev w)) then Some (MmcSlots (mmcDev w) ! Slot) else None)"

definition set_queue :: "DW_MMC_HC_TRB list \<Rightarrow> mmc_world \<Rightarrow> mmc_world" where
  "set_queue q w = w\<lparr>mmcDev := (mmcDev w)\<lparr>RequestQueue := q\<rparr>\<rparr>"

abbreviation queue_of :: "mmc_world \<Rightarrow> DW_MMC_HC_TRB list" where
  "queue_of w \<equiv> RequestQueue (mmcDev w)"

definition set_status :: "ptr \<Rightarrow> efi_status \<Rightarrow> mmc_world \<Rightarrow> mmc_world" where
  "set_status At Status w =
     w\<lparr>mmcPackets := (mmcPackets w)(At := (mmcPackets w At)\<lparr>TransactionStatus := Status\<rparr>)\<rparr>"

definition signal_event :: "efi_event option \<Rightarrow> mmc_log \<Rightarrow> mmc_log" where
  "signal_event Event l = (case Event of None \<Rightarrow> l | Some ev \<Rightarrow> l @ [SignalMmc ev])"

section \<open>The queue\<close>

text \<open>Taking the first request out: its status, its event after it is freed.\<close>

definition finish_head :: "DW_MMC_HC_TRB \<Rightarrow> efi_status \<Rightarrow> mmc_world \<Rightarrow> mmc_world" where
  "finish_head Trb Status w =
     (let w1 = set_status (TrbPacket Trb) Status (set_queue (tl (queue_of w)) w)
      in w1\<lparr>mmcLog := signal_event (TrbEvent Trb) (DwMmcFreeTrb Trb (mmcLog w1))\<rparr>)"

text \<open>Starting the first request unless it is started, and asking for its result: up to the label \<open>Done\<close>.\<close>

definition run_head :: "mmc_env \<Rightarrow> DW_MMC_HC_TRB \<Rightarrow> mmc_world \<Rightarrow> (efi_status \<times> DW_MMC_HC_TRB \<times> mmc_world) option" where
  "run_head e Trb w =
     Option.bind (slot_at (TrbSlot Trb) w) (\<lambda>S.
       if \<not> MediaPresent S then Some (EFI_NO_MEDIA, Trb, w)
       else let Check = (\<lambda>Trb w. map_option (\<lambda>(Status, l). (Status, Trb, w\<lparr>mmcLog := l\<rparr>))
                           (DwMmcCheckTrbResult e Trb (mmcPackets w (TrbPacket Trb)) (mmcLog w)))
            in if Started Trb then Check Trb w
               else if EFI_ERROR DwMmcCheckTrbEnv then Some (DwMmcCheckTrbEnv, Trb, w)
               else let Trb1 = Trb\<lparr>Started := True\<rparr>
                    in Option.bind (DwMmcExecTrb e (CardType S) Trb1 (mmcPackets w (TrbPacket Trb)) (mmcLog w) (mmcMem w))
                         (\<lambda>(Status, P, l, m).
                            let w1 = w\<lparr>mmcLog := l, mmcMem := m, mmcPackets := (mmcPackets w)(TrbPacket Trb := P)\<rparr>
                            in if EFI_ERROR Status then Some (Status, Trb1, w1) else Check Trb1 w1))"

definition ProcessAsyncTaskList :: "mmc_env \<Rightarrow> mmc_world \<Rightarrow> mmc_world option" where
  "ProcessAsyncTaskList e w =
     (case queue_of w of [] \<Rightarrow> Some w
      | Trb # rest \<Rightarrow>
          map_option
            (\<lambda>(Status, Trb1, w1).
               if Status = EFI_NOT_READY
               then if PacketTimeout (mmcPackets w1 (TrbPacket Trb1)) \<noteq> 0
                    then if TrbTimeout Trb1 = 0 then finish_head Trb1 EFI_TIMEOUT w1
                         else set_queue (Trb1\<lparr>TrbTimeout := TrbTimeout Trb1 - 1\<rparr> # rest) w1
                    else set_queue (Trb1 # rest) w1
               else finish_head Trb1 Status w1)
            (run_head e Trb w))"

text \<open>Giving up every request of the queue with a status; the event is signalled before the request is freed.\<close>

definition abort_one :: "efi_status \<Rightarrow> DW_MMC_HC_TRB \<Rightarrow> mmc_world \<Rightarrow> mmc_world" where
  "abort_one Status Trb w =
     (let w1 = set_status (TrbPacket Trb) Status w
      in w1\<lparr>mmcLog := DwMmcFreeTrb Trb (signal_event (TrbEvent Trb) (mmcLog w1))\<rparr>)"

definition abort_queue :: "efi_status \<Rightarrow> mmc_world \<Rightarrow> mmc_world" where
  "abort_queue Status w = set_queue [] (fold (abort_one Status) (queue_of w) w)"

section \<open>The protocol\<close>

text \<open>Waiting for an empty queue: between two looks that differ the polling timer has fired; that the timer of the enumeration also does
  is not modelled.\<close>

partial_function (option) wait_queue :: "mmc_env \<Rightarrow> mmc_world \<Rightarrow> mmc_world option" where
  "wait_queue e w = (if queue_of w = [] then Some w else Option.bind (ProcessAsyncTaskList e w) (wait_queue e))"

text \<open>A blocking request once it is made, with the packet it is for.\<close>

definition run_request ::
  "mmc_env \<Rightarrow> DW_MMC_HC_SLOT \<Rightarrow> DW_MMC_HC_TRB \<Rightarrow> EFI_SD_MMC_PACKET \<Rightarrow> mmc_world \<Rightarrow>
   (efi_status \<times> EFI_SD_MMC_PACKET \<times> mmc_world) option" where
  "run_request e S Trb Packet w =
     (let Done = (\<lambda>Status P w. (Status, P, w\<lparr>mmcLog := DwMmcFreeTrb Trb (mmcLog w)\<rparr>))
      in Option.bind (wait_queue e w) (\<lambda>w1.
         Option.bind (DwMmcWaitTrbEnv Packet (mmcLog w1)) (\<lambda>(Status, l1).
           if EFI_ERROR Status then Some (Done Status Packet (w1\<lparr>mmcLog := l1\<rparr>))
           else Option.bind (DwMmcExecTrb e (CardType S) Trb Packet l1 (mmcMem w1)) (\<lambda>(Status, P, l2, m2).
             if EFI_ERROR Status then Some (Done Status P (w1\<lparr>mmcLog := l2, mmcMem := m2\<rparr>))
             else map_option (\<lambda>(Status, l3). Done Status P (w1\<lparr>mmcLog := l3, mmcMem := m2\<rparr>))
                    (DwMmcWaitTrbResult e Trb P l2)))))"

text \<open>The call with the packet it points to, returned as the call leaves it; \<open>At\<close> is its address.\<close>

definition pass_thru ::
  "mmc_env \<Rightarrow> nat \<Rightarrow> ptr \<Rightarrow> EFI_SD_MMC_PACKET \<Rightarrow> efi_event option \<Rightarrow> mmc_world \<Rightarrow>
   (efi_status \<times> EFI_SD_MMC_PACKET \<times> mmc_world) option" where
  "pass_thru e Slot At Packet Event w =
     (if \<not> SdMmcCmdBlk Packet \<or> \<not> SdMmcStatusBlk Packet then Some (EFI_INVALID_PARAMETER, Packet, w)
      else if OutDataBuffer Packet = 0 \<and> OutTransferLength Packet \<noteq> 0 then Some (EFI_INVALID_PARAMETER, Packet, w)
      else if InDataBuffer Packet = 0 \<and> InTransferLength Packet \<noteq> 0 then Some (EFI_INVALID_PARAMETER, Packet, w)
      else Option.bind (slot_at Slot w) (\<lambda>S.
        if \<not> Enable S then Some (EFI_INVALID_PARAMETER, Packet, w)
        else if \<not> MediaPresent S then Some (EFI_NO_MEDIA, Packet, w)
        else let (Trb, l, m) = DwMmcCreateTrb e (CardType S) Slot At Packet Event (mmcLog w) (mmcMem w);
                 w1 = w\<lparr>mmcLog := l, mmcMem := m\<rparr>
             in case Trb of None \<Rightarrow> Some (EFI_OUT_OF_RESOURCES, Packet, w1)
                | Some Trb \<Rightarrow>
                    if Event \<noteq> None then Some (EFI_SUCCESS, Packet, set_queue (queue_of w1 @ [Trb]) w1)
                    else run_request e S Trb Packet w1))"

definition DwMmcPassThruPassThru ::
  "mmc_env \<Rightarrow> nat \<Rightarrow> ptr option \<Rightarrow> efi_event option \<Rightarrow> mmc_world \<Rightarrow> (efi_status \<times> mmc_world) option" where
  "DwMmcPassThruPassThru e Slot Packet Event w =
     (case Packet of None \<Rightarrow> Some (EFI_INVALID_PARAMETER, w)
      | Some At \<Rightarrow>
          map_option (\<lambda>(Status, P, w1). (Status, if Event = None then w1\<lparr>mmcPackets := (mmcPackets w1)(At := P)\<rparr> else w1))
            (pass_thru e Slot At (mmcPackets w At) Event w))"

text \<open>The status and the slot number the caller's variable holds; \<open>None\<close> for a NULL pointer.\<close>

definition DwMmcPassThruGetNextSlot :: "nat option \<Rightarrow> mmc_world \<Rightarrow> efi_status \<times> nat option \<times> mmc_world" where
  "DwMmcPassThruGetNextSlot Slot w =
     (case Slot of None \<Rightarrow> (EFI_INVALID_PARAMETER, None, w)
      | Some n \<Rightarrow>
          if n = 0xFF
          then if Enable (MmcSlots (mmcDev w) ! 0) then (EFI_SUCCESS, Some 0, w\<lparr>mmcDev := (mmcDev w)\<lparr>PreviousSlot := 0\<rparr>\<rparr>)
               else (EFI_NOT_FOUND, Slot, w)
          else if n = PreviousSlot (mmcDev w) then (EFI_NOT_FOUND, Slot, w)
          else (EFI_INVALID_PARAMETER, Slot, w))"

record sd_device_path =
  PathType :: nat
  PathSubType :: nat
  PathLength :: nat
  SlotNumber :: nat

abbreviation (input) MESSAGING_DEVICE_PATH :: nat where "MESSAGING_DEVICE_PATH \<equiv> 3"
abbreviation (input) MSG_SD_DP :: nat where "MSG_SD_DP \<equiv> 0x1A"
abbreviation (input) MSG_EMMC_DP :: nat where "MSG_EMMC_DP \<equiv> 0x1D"

definition mSdDpTemplate :: sd_device_path where
  "mSdDpTemplate = \<lparr>PathType = MESSAGING_DEVICE_PATH, PathSubType = MSG_SD_DP, PathLength = 5, SlotNumber = 0\<rparr>"

definition mEmmcDpTemplate :: sd_device_path where
  "mEmmcDpTemplate = \<lparr>PathType = MESSAGING_DEVICE_PATH, PathSubType = MSG_EMMC_DP, PathLength = 5, SlotNumber = 0\<rparr>"

text \<open>\<open>Node\<close>: whether the pool has room for the node.\<close>

definition DwMmcPassThruBuildDevicePath :: "bool \<Rightarrow> nat \<Rightarrow> mmc_world \<Rightarrow> efi_status \<times> sd_device_path option" where
  "DwMmcPassThruBuildDevicePath Node Slot w =
     (if DW_MMC_HC_MAX_SLOT \<le> Slot then (EFI_INVALID_PARAMETER, None)
      else let S = MmcSlots (mmcDev w) ! Slot
      in if \<not> Enable S \<or> \<not> MediaPresent S then (EFI_NOT_FOUND, None)
         else if CardType S = SdCardType
         then if Node then (EFI_SUCCESS, Some (mSdDpTemplate\<lparr>SlotNumber := Slot\<rparr>)) else (EFI_OUT_OF_RESOURCES, None)
         else if CardType S = EmmcCardType
         then if Node then (EFI_SUCCESS, Some (mEmmcDpTemplate\<lparr>SlotNumber := Slot\<rparr>)) else (EFI_OUT_OF_RESOURCES, None)
         else (EFI_NOT_FOUND, None))"

definition DwMmcPassThruGetSlotNumber :: "sd_device_path option \<Rightarrow> mmc_world \<Rightarrow> efi_status \<times> nat option" where
  "DwMmcPassThruGetSlotNumber DevicePath w =
     (case DevicePath of None \<Rightarrow> (EFI_INVALID_PARAMETER, None)
      | Some P \<Rightarrow>
          if PathType P \<noteq> MESSAGING_DEVICE_PATH \<or> PathSubType P \<noteq> MSG_SD_DP \<and> PathSubType P \<noteq> MSG_EMMC_DP
             \<or> PathLength P \<noteq> PathLength mSdDpTemplate \<or> PathLength P \<noteq> PathLength mEmmcDpTemplate
          then (EFI_UNSUPPORTED, None)
          else if DW_MMC_HC_MAX_SLOT \<le> SlotNumber P then (EFI_NOT_FOUND, None)
          else if Enable (MmcSlots (mmcDev w) ! SlotNumber P) then (EFI_SUCCESS, Some (SlotNumber P))
          else (EFI_NOT_FOUND, None))"

definition DwMmcPassThruResetDevice :: "nat \<Rightarrow> mmc_world \<Rightarrow> (efi_status \<times> mmc_world) option" where
  "DwMmcPassThruResetDevice Slot w =
     map_option (\<lambda>S. if \<not> Enable S then (EFI_INVALID_PARAMETER, w)
                     else if \<not> MediaPresent S then (EFI_NO_MEDIA, w)
                     else (EFI_SUCCESS, abort_queue EFI_ABORTED w))
       (slot_at Slot w)"

end
