(* ===== verification/CardIdentify.thy ===== *)
theory CardIdentify
  imports CardCommands MmcQueue
begin

text \<open>
  The identification of a card (\<open>Drivers/DwMmcHcDxe/SdDevice.c\<close> and \<open>EmmcDevice.c\<close>, from
  \<open>SdCardSwitchBusWidth\<close> and \<open>EmmcSwitchBusWidth\<close> on), over the driver's own pass-thru protocol and host
  controller.  The buffers that the procedures keep on their stack are at the addresses the environment
  gives; their contents before a command fills them are what memory holds there.  What the DMA engine has put into memory
  is seen through \<open>idEngine\<close>.
\<close>

section \<open>Sequences of operations\<close>

record ident_env =
  idHost :: mmc_env
  idEngine :: "mmc_log \<Rightarrow> mem \<Rightarrow> mem"
  idScr :: ptr
  idSwitchResp :: ptr
  idExtCsd :: ptr

type_synonym mmc_result = "(efi_status \<times> mmc_world) option"

text \<open>The packet is on the stack, its address kept nowhere.\<close>

definition send_packet :: "ident_env \<Rightarrow> mmc_world pass_thru" where
  "send_packet E Packet w = pass_thru (idHost E) 0 0 Packet None w"

definition and_then :: "mmc_result \<Rightarrow> (mmc_world \<Rightarrow> mmc_result) \<Rightarrow> mmc_result" where
  "and_then r go = Option.bind r (\<lambda>(Status, w). if EFI_ERROR Status then Some (Status, w) else go w)"

definition and_get :: "(efi_status \<times> 'a \<times> mmc_world) option \<Rightarrow> ('a \<Rightarrow> mmc_world \<Rightarrow> mmc_result) \<Rightarrow> mmc_result" where
  "and_get r go = Option.bind r (\<lambda>(Status, x, w). if EFI_ERROR Status then Some (Status, w) else go x w)"

text \<open>Errors replaced by \<open>EFI_DEVICE_ERROR\<close>.\<close>

definition as_device_error :: "(efi_status \<times> 'a \<times> mmc_world) option \<Rightarrow> (efi_status \<times> 'a \<times> mmc_world) option" where
  "as_device_error = map_option (\<lambda>(Status, x). (if EFI_ERROR Status then EFI_DEVICE_ERROR else Status, x))"

text \<open>The accesses to the controller's registers.\<close>

definition on_host :: "(mmc_log \<Rightarrow> (efi_status \<times> mmc_log) option) \<Rightarrow> mmc_world \<Rightarrow> mmc_result" where
  "on_host f w = map_option (\<lambda>(Status, l). (Status, w\<lparr>mmcLog := l\<rparr>)) (f (mmcLog w))"

definition stall :: "nat \<Rightarrow> mmc_world \<Rightarrow> mmc_world" where
  "stall n w = w\<lparr>mmcLog := MicroSecondDelay n (mmcLog w)\<rparr>"

definition set_slot :: "(DW_MMC_HC_SLOT \<Rightarrow> DW_MMC_HC_SLOT) \<Rightarrow> mmc_world \<Rightarrow> mmc_world" where
  "set_slot f w = w\<lparr>mmcDev := (mmcDev w)\<lparr>MmcSlots := (MmcSlots (mmcDev w))[0 := f (MmcSlots (mmcDev w) ! 0)]\<rparr>\<rparr>"

abbreviation capability :: "mmc_world \<Rightarrow> DW_MMC_HC_SLOT_CAP" where
  "capability w \<equiv> Capability (mmcDev w)"

definition buffer_byte :: "ident_env \<Rightarrow> ptr \<Rightarrow> nat \<Rightarrow> mmc_world \<Rightarrow> u8" where
  "buffer_byte E At i w = idEngine E (mmcLog w) (mmcMem w) (At + i)"

section \<open>SD cards\<close>

definition SdCardSwitchBusWidth :: "ident_env \<Rightarrow> u16 \<Rightarrow> bool \<Rightarrow> nat \<Rightarrow> mmc_world \<Rightarrow> mmc_result" where
  "SdCardSwitchBusWidth E Rca IsDdr BusWidth w =
     and_then (SdCardSetBusWidth (send_packet E) Rca BusWidth w) (\<lambda>w1.
     and_get (SdCardSendStatus (send_packet E) Rca 0 w1) (\<lambda>DevStatus w2.
       if drop_bit 16 DevStatus \<noteq> 0 then Some (EFI_DEVICE_ERROR, w2)
       else on_host (\<lambda>l. Some (DwMmcHcSetBusWidth (idHost E) IsDdr BusWidth l)) w2))"

text \<open>The frequency in MHz and the access mode, for the byte 13 of the answer to the function switch.\<close>

definition sd_access_mode :: "bool \<Rightarrow> DW_MMC_HC_SLOT_CAP \<Rightarrow> u8 \<Rightarrow> nat \<times> u8" where
  "sd_access_mode S18A Cap Byte13 =
     (if S18A \<and> CapSdr104 Cap \<and> Byte13 AND 8 \<noteq> 0 then (208, 3)
      else if S18A \<and> CapSdr50 Cap \<and> Byte13 AND 4 \<noteq> 0 then (100, 2)
      else if S18A \<and> CapDdr50 Cap \<and> Byte13 AND 16 \<noteq> 0 then (50, 4)
      else if Byte13 AND 2 \<noteq> 0 then (50, 1)
      else (25, 0))"

definition SdCardSetBusMode :: "ident_env \<Rightarrow> u16 \<Rightarrow> bool \<Rightarrow> nat \<Rightarrow> bool \<Rightarrow> mmc_world \<Rightarrow> mmc_result" where
  "SdCardSetBusMode E Rca S18A BusWidths SdVersion1 w =
     (let Cap = capability w;
          Switch = (\<lambda>Mode Set w. if SdVersion1 then Some (EFI_SUCCESS, w)
                      else SdCardSwitch (send_packet E) Mode 0xF 0xF 0xF Set (idSwitchResp E) w)
      in if CapBusWidth Cap \<noteq> 1 \<and> CapBusWidth Cap \<noteq> 4 then Some (EFI_INVALID_PARAMETER, w)
         else let Widths = BusWidths AND CapBusWidth Cap
         in if Widths = 0 then Some (EFI_INVALID_PARAMETER, w)
            else and_then (SdCardSwitchBusWidth E Rca (CapDdr50 Cap) Widths w) (\<lambda>w1.
                 and_then (Switch 0xF False w1) (\<lambda>w2.
                 let (ClockFreq, AccessMode) = sd_access_mode S18A Cap (buffer_byte E (idSwitchResp E) 13 w2)
                 in and_then (Switch AccessMode True w2) (\<lambda>w3.
                      if buffer_byte E (idSwitchResp E) 16 w3 AND 0xF \<noteq> AccessMode then Some (EFI_DEVICE_ERROR, w3)
                      else on_host (DwMmcHcClockSupply (idHost E) (ClockFreq * 1000) Cap) w3))))"

text \<open>The current and whether the signalling voltage is switched, by the supply voltage the slot has.\<close>

definition sd_supply :: "DW_MMC_HC_SLOT_CAP \<Rightarrow> nat \<Rightarrow> (nat \<times> bool) option" where
  "sd_supply Cap Current =
     (if Voltage33 Cap then Some (Current mod 256 * 4, False)
      else if Voltage30 Cap then Some (wrap32 Current div 2 ^ 8 mod 256 * 4, False)
      else if Voltage18 Cap then Some (wrap32 Current div 2 ^ 16 mod 256 * 4, True)
      else None)"

partial_function (option) sd_ready_loop ::
  "ident_env \<Rightarrow> bool \<Rightarrow> bool \<Rightarrow> u32 \<Rightarrow> mmc_world \<Rightarrow> (efi_status \<times> u32 \<times> mmc_world) option" where
  "sd_ready_loop E S18r Xpc Ocr w =
     Option.bind (as_device_error (SdCardSendOpCond (send_packet E) 0 Ocr S18r Xpc True Ocr w)) (\<lambda>(Status, Ocr1, w1).
       if EFI_ERROR Status then Some (Status, Ocr1, w1)
       else if Ocr1 AND push_bit 31 1 = 0 then sd_ready_loop E S18r Xpc Ocr1 w1 else Some (EFI_SUCCESS, Ocr1, w1))"

text \<open>The bus widths are the low half of the register's byte 6 (SD Physical Layer Specification 5.6).\<close>

definition sd_found :: "ident_env \<Rightarrow> u16 \<Rightarrow> bool \<Rightarrow> bool \<Rightarrow> mmc_world \<Rightarrow> mmc_result" where
  "sd_found E Rca S18r SdVersion1 w =
     and_get (SdCardGetCsd (send_packet E) Rca [] w) (\<lambda>Csd w1.
     and_then (SdCardSelect (send_packet E) Rca w1) (\<lambda>w2.
     and_then (SdCardGetScr (send_packet E) Rca (idScr E) w2) (\<lambda>w3.
     let Widths = unat (buffer_byte E (idScr E) 6 w3 AND 0xF)
     in and_then (SdCardSetBusMode E Rca S18r Widths SdVersion1 (set_slot (CardType_update (\<lambda>_. SdCardType)) w3)) (\<lambda>w4.
        Some (EFI_SUCCESS, set_slot (Initialized_update (\<lambda>_. True)) w4)))))"

definition SdCardIdentification :: "ident_env \<Rightarrow> mmc_world \<Rightarrow> mmc_result" where
  "SdCardIdentification E w =
     and_then (SdCardReset (send_packet E) w) (\<lambda>w1.
     Option.bind (SdCardVoltageCheck (send_packet E) 1 0xFF (stall 10000 w1)) (\<lambda>(Check, w2).
     and_get (as_device_error (SdCardSendOpCond (send_packet E) 0 0 False False False 0 w2)) (\<lambda>Ocr w3.
     case sd_supply (capability w3) (MaxCurrent (mmcDev w3)) of None \<Rightarrow> Some (EFI_DEVICE_ERROR, w3)
     | Some (Current, S18r) \<Rightarrow>
         and_get (sd_ready_loop E S18r (150 \<le> Current) Ocr w3) (\<lambda>Ocr1 w4.
         and_then (SdCardAllSendCid (send_packet E) w4) (\<lambda>w5.
         and_get (SdCardSetRca (send_packet E) 0 w5) (\<lambda>Rca. sd_found E Rca S18r (EFI_ERROR Check)))))))"

section \<open>eMMC\<close>

abbreviation (input) EXT_CSD_BusWidth :: u8 where "EXT_CSD_BusWidth \<equiv> 183"
abbreviation (input) EXT_CSD_HsTiming :: u8 where "EXT_CSD_HsTiming \<equiv> 185"
abbreviation (input) EXT_CSD_DeviceType :: nat where "EXT_CSD_DeviceType \<equiv> 196"

definition EMMC_GET_STATE :: "u32 \<Rightarrow> u32" where "EMMC_GET_STATE x = drop_bit 9 x AND 0xF"
abbreviation (input) EMMC_STATE_TRAN :: u32 where "EMMC_STATE_TRAN \<equiv> 4"
abbreviation (input) EMMC_STATE_DATA :: u32 where "EMMC_STATE_DATA \<equiv> 5"
abbreviation (input) EMMC_STATE_PRG :: u32 where "EMMC_STATE_PRG \<equiv> 7"
abbreviation (input) EMMC_CMD1_CAPACITY_GREATER_THAN_2GB :: u32 where "EMMC_CMD1_CAPACITY_GREATER_THAN_2GB \<equiv> 0x40FF8080"

text \<open>The loops that ask for the card's status while a condition holds of it.\<close>

partial_function (option) emmc_poll :: "ident_env \<Rightarrow> u16 \<Rightarrow> (u32 \<Rightarrow> bool) \<Rightarrow> mmc_world \<Rightarrow> mmc_result" where
  "emmc_poll E Rca Busy w =
     Option.bind (EmmcSendStatus (send_packet E) Rca 0 w) (\<lambda>(Status, DevStatus, w1).
       if EFI_ERROR Status then Some (Status, w1)
       else if Busy DevStatus then emmc_poll E Rca Busy w1 else Some (EFI_SUCCESS, w1))"

definition emmc_width_value :: "bool \<Rightarrow> nat \<Rightarrow> u8 option" where
  "emmc_width_value IsDdr BusWidth =
     (if BusWidth = 1 then Some 0
      else map_option (\<lambda>Value. if IsDdr then Value + 4 else Value)
             (if BusWidth = 4 then Some 1 else if BusWidth = 8 then Some 2 else None))"

definition EmmcSwitchBusWidth :: "ident_env \<Rightarrow> u16 \<Rightarrow> bool \<Rightarrow> nat \<Rightarrow> mmc_world \<Rightarrow> mmc_result" where
  "EmmcSwitchBusWidth E Rca IsDdr BusWidth w =
     (case emmc_width_value IsDdr BusWidth of None \<Rightarrow> Some (EFI_INVALID_PARAMETER, w)
      | Some Value \<Rightarrow>
          and_then (EmmcSwitch (send_packet E) 3 EXT_CSD_BusWidth Value 0 w) (\<lambda>w1.
          and_then (emmc_poll E Rca (\<lambda>DevStatus. DevStatus AND 0xF = EMMC_STATE_PRG) w1)
            (on_host (\<lambda>l. Some (DwMmcHcSetBusWidth (idHost E) IsDdr BusWidth l)))))"

definition EmmcSwitchClockFreq :: "ident_env \<Rightarrow> u16 \<Rightarrow> u8 \<Rightarrow> nat \<Rightarrow> mmc_world \<Rightarrow> mmc_result" where
  "EmmcSwitchClockFreq E Rca HsTiming ClockFreq w =
     and_then (EmmcSwitch (send_packet E) 3 EXT_CSD_HsTiming HsTiming 0 w) (\<lambda>w1.
     and_get (EmmcSendStatus (send_packet E) Rca 0 w1) (\<lambda>DevStatus w2.
       if DevStatus AND 0x80 \<noteq> 0 then Some (EFI_DEVICE_ERROR, w2)
       else on_host (DwMmcHcClockSupply (idHost E) (ClockFreq * 1000) (capability w2)) w2))"

definition EmmcSwitchToHighSpeed :: "ident_env \<Rightarrow> u16 \<Rightarrow> nat \<Rightarrow> bool \<Rightarrow> nat \<Rightarrow> mmc_world \<Rightarrow> mmc_result" where
  "EmmcSwitchToHighSpeed E Rca ClockFreq IsDdr BusWidth w =
     and_then (EmmcSwitchClockFreq E Rca 1 ClockFreq w) (EmmcSwitchBusWidth E Rca IsDdr BusWidth)"

definition EmmcTuningClkForHs200 :: "nat \<Rightarrow> efi_status" where
  "EmmcTuningClkForHs200 BusWidth = EFI_SUCCESS"

definition EmmcSwitchToHS200 :: "u16 \<Rightarrow> nat \<Rightarrow> nat \<Rightarrow> mmc_world \<Rightarrow> mmc_result" where
  "EmmcSwitchToHS200 Rca ClockFreq BusWidth w = Some (EFI_SUCCESS, w)"

text \<open>The timing, the data rate and the frequency in MHz for a device type.\<close>

definition emmc_timing :: "DW_MMC_HC_SLOT_CAP \<Rightarrow> u8 \<Rightarrow> u8 \<times> bool \<times> nat" where
  "emmc_timing Cap DeviceType =
     (if DeviceType AND 0x30 \<noteq> 0 \<and> CapSdr104 Cap then (2, False, 200)
      else if DeviceType AND 0x0C \<noteq> 0 \<and> CapDdr50 Cap then (1, True, 52)
      else if DeviceType AND 0x02 \<noteq> 0 \<and> CapHighSpeed Cap then (1, False, 52)
      else if DeviceType AND 0x01 \<noteq> 0 \<and> CapHighSpeed Cap then (1, False, 26)
      else (0, False, 0))"

definition EmmcSetBusMode :: "ident_env \<Rightarrow> u16 \<Rightarrow> mmc_world \<Rightarrow> mmc_result" where
  "EmmcSetBusMode E Rca w =
     and_get (EmmcGetCsd (send_packet E) Rca [] w) (\<lambda>Csd w1.
     and_then (EmmcSelect (send_packet E) Rca w1) (\<lambda>w2.
     and_then (emmc_poll E Rca (\<lambda>DevStatus. EMMC_GET_STATE DevStatus \<noteq> EMMC_STATE_TRAN) w2) (\<lambda>w3.
     and_then (EmmcSwitchBusWidth E Rca False 1 w3) (\<lambda>w4.
     and_then (EmmcGetExtCsd (send_packet E) (idExtCsd E) w4) (\<lambda>w5.
     let Cap = capability w5; BusWidth = CapBusWidth Cap;
         (HsTiming, IsDdr, ClockFreq) = emmc_timing Cap (buffer_byte E (idExtCsd E) EXT_CSD_DeviceType w5)
     in if ClockFreq = 0 \<or> HsTiming = 0 then Some (EFI_SUCCESS, w5)
        else if HsTiming = 2 then EmmcSwitchToHS200 Rca ClockFreq BusWidth w5
        else EmmcSwitchToHighSpeed E Rca ClockFreq IsDdr BusWidth w5)))))"

fun emmc_ready_loop :: "ident_env \<Rightarrow> nat \<Rightarrow> mmc_world \<Rightarrow> mmc_result" where
  "emmc_ready_loop E 0 w = Some (EFI_DEVICE_ERROR, w)"
| "emmc_ready_loop E (Suc Timeout) w =
     and_get (EmmcGetOcr (send_packet E) EMMC_CMD1_CAPACITY_GREATER_THAN_2GB w) (\<lambda>Ocr w1.
       if Timeout = 0 then Some (EFI_DEVICE_ERROR, w1)
       else let w2 = stall 100 w1
            in if Ocr AND push_bit 31 1 = 0 then emmc_ready_loop E Timeout w2 else Some (EFI_SUCCESS, w2))"

definition EmmcIdentification :: "ident_env \<Rightarrow> mmc_world \<Rightarrow> mmc_result" where
  "EmmcIdentification E w =
     and_then (EmmcReset (send_packet E) stall w) (\<lambda>w1.
     and_then (emmc_ready_loop E 100 w1) (\<lambda>w2.
     and_then (EmmcGetAllCid (send_packet E) w2) (\<lambda>w3.
     and_then (EmmcSetRca (send_packet E) 1 w3) (\<lambda>w4.
     and_then (EmmcSetBusMode E 1 (set_slot (CardType_update (\<lambda>_. EmmcCardType)) w4))
       (emmc_poll E 1 (\<lambda>DevStatus. DevStatus AND 0xF = EMMC_STATE_DATA))))))"

end
