(* ===== verification/MmcDriver.thy ===== *)
theory MmcDriver
  imports CardIdentify
begin

text \<open>
  The driver binding of the MMC host controller driver and its removable card enumeration
  (\<open>Drivers/DwMmcHcDxe/DwMmcHcDxe.c\<close>).

  The private data is the record of \<open>MmcQueue\<close>, from the template once it is allocated; its two events are
  kept as whether their handle is set.  The answers of the boot services come from the environment.
\<close>

record mmc_bind_env =
  bdIdent :: ident_env
  bdOpen :: "mmc_log \<Rightarrow> mmc_guid \<Rightarrow> efi_status"
  bdIsDwMmc :: bool  \<comment> \<open>whether the type of the device is \<open>gDwMmcHcNonDiscoverableDeviceGuid\<close>\<close>
  bdPrivate :: "mmc_log \<Rightarrow> ptr option"
  bdCreateEvent :: "mmc_log \<Rightarrow> mmc_timer \<Rightarrow> efi_status"
  bdSetTimer :: "mmc_log \<Rightarrow> mmc_timer \<Rightarrow> efi_status"
  bdInstall :: "mmc_log \<Rightarrow> efi_status"
  bdUninstall :: "mmc_log \<Rightarrow> efi_status"

abbreviation bdHost :: "mmc_bind_env \<Rightarrow> mmc_env" where
  "bdHost B \<equiv> idHost (bdIdent B)"

definition note_call :: "mmc_binding \<Rightarrow> mmc_world \<Rightarrow> mmc_world" where
  "note_call b w = w\<lparr>mmcLog := mmcLog w @ [Binding b]\<rparr>"

definition upd_dev :: "(DW_MMC_HC_PRIVATE_DATA \<Rightarrow> DW_MMC_HC_PRIVATE_DATA) \<Rightarrow> mmc_world \<Rightarrow> mmc_world" where
  "upd_dev f w = w\<lparr>mmcDev := f (mmcDev w)\<rparr>"

section \<open>Identifying the card\<close>

text \<open>The table of routines is \<open>EmmcIdentification\<close>, \<open>SdCardIdentification\<close> and a NULL entry, which is passed over; the result
  is the status of the last routine called.\<close>

definition detect_card :: "ident_env \<Rightarrow> mmc_world \<Rightarrow> mmc_result" where
  "detect_card E w =
     Option.bind (EmmcIdentification E w)
       (\<lambda>(Status, w1). if \<not> EFI_ERROR Status then Some (Status, w1) else SdCardIdentification E w1)"

section \<open>Enumeration\<close>

text \<open>Giving up the requests of slot 0.\<close>

definition abort_slot0 :: "efi_status \<Rightarrow> mmc_world \<Rightarrow> mmc_world" where
  "abort_slot0 Status w =
     (let (gone, kept) = partition (\<lambda>Trb. TrbSlot Trb = 0) (queue_of w)
      in set_queue kept (fold (abort_one Status) gone w))"

definition reinstall :: "mmc_world \<Rightarrow> mmc_world" where
  "reinstall w = w\<lparr>mmcLog := mmcLog w @ [PassThruReinstalled]\<rparr>"

definition card_removed :: "mmc_world \<Rightarrow> mmc_world" where
  "card_removed w = reinstall (abort_slot0 EFI_NO_MEDIA (set_slot (MediaPresent_update (\<lambda>_. False)) w))"

definition card_inserted :: "ident_env \<Rightarrow> mmc_world \<Rightarrow> mmc_world option" where
  "card_inserted E w =
     Option.bind (on_host (\<lambda>l. Some (DwMmcHcInitHost (idHost E) l)) w) (\<lambda>(Status, w1).
       if EFI_ERROR Status then Some w1
       else Option.bind (on_host (DwMmcHcReset (idHost E) (capability w1)) w1) (\<lambda>(Status, w2).
         if EFI_ERROR Status then Some w2
         else map_option (\<lambda>(Status, w3). if EFI_ERROR Status then w3 else reinstall w3)
                (detect_card E (set_slot (MediaPresent_update (\<lambda>_. True)) w2))))"

text \<open>The variable for the answer is not initialised, and the status of the detection not looked at.\<close>

definition DwMmcHcEnumerateDevice :: "ident_env \<Rightarrow> mmc_world \<Rightarrow> mmc_world option" where
  "DwMmcHcEnumerateDevice E w =
     (let S = MmcSlots (mmcDev w) ! 0
      in if Enable S \<and> SlotType S = RemovableSlot
         then let Present = the (snd (DwMmcHcCardDetect (idHost E) (Some (mmStackBool (idHost E))) (mmcLog w)));
                  Changed = (MediaPresent S \<noteq> Present)
              in if Changed \<and> \<not> Present then Some (card_removed w)
                 else if Changed \<and> Present then card_inserted E w else Some w
         else Some w)"

section \<open>Testing, starting, stopping\<close>

definition open_protocol :: "mmc_bind_env \<Rightarrow> mmc_guid \<Rightarrow> mmc_world \<Rightarrow> efi_status \<times> mmc_world" where
  "open_protocol B g w = (let st = bdOpen B (mmcLog w) g in (st, note_call (Opened g st) w))"

definition DwMmcHcDriverBindingSupported :: "mmc_bind_env \<Rightarrow> mmc_world \<Rightarrow> efi_status \<times> mmc_world" where
  "DwMmcHcDriverBindingSupported B w =
     (let Status = mmLocatePlatform (bdHost B) (mmcLog w)
      in if EFI_ERROR Status then (Status, w)
         else let (Status, w1) = open_protocol B gEfiDevicePath w
         in if EFI_ERROR Status then (Status, w1)
         else let (Status, w2) = open_protocol B gNonDiscoverableDevice (note_call (Closed gEfiDevicePath) w1)
         in if EFI_ERROR Status then (Status, w2)
         else (if bdIsDwMmc B then EFI_SUCCESS else EFI_UNSUPPORTED, note_call (Closed gNonDiscoverableDevice) w2))"

definition zero_cap :: DW_MMC_HC_SLOT_CAP where
  "zero_cap = \<lparr>CapHighSpeed = False, CapSdr50 = False, CapSdr104 = False, CapDdr50 = False, CapBusWidth = 0,
     CapSlotType = RemovableSlot, CapCardType = UnknownCardType, Voltage18 = False, Voltage30 = False, Voltage33 = False, BaseClkFreq = 0\<rparr>"

definition gDwMmcHcTemplate :: DW_MMC_HC_PRIVATE_DATA where
  "gDwMmcHcTemplate = \<lparr>PreviousSlot = 0, TimerEvent = False, ConnectEvent = False, RequestQueue = [],
     MmcSlots = [\<lparr>Enable = False, SlotType = UnknownSlot, MediaPresent = False, Initialized = False, CardType = UnknownCardType\<rparr>],
     Capability = zero_cap, MaxCurrent = 0\<rparr>"

text \<open>The label \<open>Done\<close> once the private data is allocated.\<close>

definition start_done :: "efi_status \<Rightarrow> mmc_world \<Rightarrow> efi_status \<times> mmc_world" where
  "start_done Status w =
     (if EFI_ERROR Status
      then let w1 = (if TimerEvent (mmcDev w) then note_call (EventClosed AsyncTimer) w else w);
               w2 = (if ConnectEvent (mmcDev w1) then note_call (EventClosed ConnectTimer) w1 else w1)
           in (Status, note_call PrivateFreed w2)
      else (Status, w))"

definition create_event :: "mmc_bind_env \<Rightarrow> mmc_timer \<Rightarrow> mmc_world \<Rightarrow> efi_status \<times> mmc_world" where
  "create_event B t w =
     (let st = bdCreateEvent B (mmcLog w) t; w1 = note_call (EventCreated t st) w
      in (st, if EFI_ERROR st then w1
              else upd_dev (case t of AsyncTimer \<Rightarrow> TimerEvent_update (\<lambda>_. True) | ConnectTimer \<Rightarrow> ConnectEvent_update (\<lambda>_. True)) w1))"

definition set_timer :: "mmc_bind_env \<Rightarrow> mmc_timer \<Rightarrow> mmc_world \<Rightarrow> efi_status \<times> mmc_world" where
  "set_timer B t w = (let st = bdSetTimer B (mmcLog w) t in (st, note_call (TimerSet t st) w))"

text \<open>The part after identification: the two timers and the protocol.\<close>

definition start_timers :: "mmc_bind_env \<Rightarrow> mmc_world \<Rightarrow> efi_status \<times> mmc_world" where
  "start_timers B w =
     (let (Status, w1) = create_event B AsyncTimer w
      in if EFI_ERROR Status then start_done Status w1
         else let (Status, w2) = set_timer B AsyncTimer w1
         in if EFI_ERROR Status then start_done Status w2
         else let (Status, w3) = create_event B ConnectTimer w2
         in if EFI_ERROR Status then start_done Status w3
         else let (Status, w4) = set_timer B ConnectTimer w3
         in if EFI_ERROR Status then start_done Status w4
         else let Status = bdInstall B (mmcLog w4) in start_done Status (note_call (PassThruInstalled Status) w4))"

definition start_slot :: "mmc_world \<Rightarrow> mmc_world" where
  "start_slot w =
     set_slot (\<lambda>S. S\<lparr>SlotType := CapSlotType (capability w), CardType := CapCardType (capability w), Enable := True, MediaPresent := True\<rparr>) w"

definition DwMmcHcDriverBindingStart :: "mmc_bind_env \<Rightarrow> mmc_world \<Rightarrow> mmc_result" where
  "DwMmcHcDriverBindingStart B w =
     (let Status = mmLocatePlatform (bdHost B) (mmcLog w)
      in if EFI_ERROR Status then Some (Status, w)
      else let (Status, w1) = open_protocol B gNonDiscoverableDevice w
      in if EFI_ERROR Status then Some (Status, w1)
      else let Private = bdPrivate B (mmcLog w1); w2 = note_call (PrivateAllocated Private) w1
      in if Private = None then Some (EFI_OUT_OF_RESOURCES, w2)
      else let (Status, Cap) = mmCapability (bdHost B) (mmcLog w2);
               w3 = w2\<lparr>mmcDev := gDwMmcHcTemplate\<lparr>Capability := Cap\<rparr>\<rparr>
      in if EFI_ERROR Status then Some (start_done Status w3)
      else if BaseClkFreq Cap = 0 then Some (start_done Status w3)
      else let (Status, Present) = DwMmcHcCardDetect (bdHost B) (Some False) (mmcLog w3)
      in if Present = Some False then Some (start_done Status w3)
      else Option.bind (on_host (\<lambda>l. Some (DwMmcHcInitHost (bdHost B) l)) w3) (\<lambda>(Status, w4).
        if EFI_ERROR Status then Some (start_done Status w4)
        else Option.bind (on_host (DwMmcHcReset (bdHost B) Cap) w4) (\<lambda>(Status, w5).
          if EFI_ERROR Status then Some (start_done Status w5)
          else map_option (\<lambda>(Status, w6). start_timers B w6) (detect_card (bdIdent B) (start_slot w5)))))"

definition DwMmcHcDriverBindingStop :: "mmc_bind_env \<Rightarrow> mmc_world \<Rightarrow> efi_status \<times> mmc_world" where
  "DwMmcHcDriverBindingStop B w =
     (let (Status, w1) = open_protocol B gSdMmcPassThru w
      in if EFI_ERROR Status then (Status, w1)
         else let w2 = (if TimerEvent (mmcDev w1) then upd_dev (TimerEvent_update (\<lambda>_. False)) (note_call (EventClosed AsyncTimer) w1) else w1);
                  w3 = (if ConnectEvent (mmcDev w2) then upd_dev (ConnectEvent_update (\<lambda>_. False)) (note_call (EventClosed ConnectTimer) w2) else w2);
                  w4 = abort_queue EFI_ABORTED w3;
                  Status = bdUninstall B (mmcLog w4); w5 = note_call (PassThruUninstalled Status) w4
              in if EFI_ERROR Status then (Status, w5)
                 else (Status, note_call PrivateFreed (note_call (Closed gEfiPciIo) w5)))"

end
