(* ===== verification/CardBus.thy ===== *)
theory CardBus
  imports CardCommands
begin

text \<open>
  What the card commands promise of the protocol they use: each sends the command indices of its packets, in
  order.  The contract of the protocol is the locale \<open>card_bus\<close>; what it keeps of the state behind it is a
  relation \<open>Sent\<close> of the indices sent with the states before and after.
\<close>

section \<open>Sequences of command indices\<close>

definition conc :: "nat list set \<Rightarrow> nat list set \<Rightarrow> nat list set" where
  "conc A B = {cs @ ds | cs ds. cs \<in> A \<and> ds \<in> B}"

inductive_set iter :: "nat list set \<Rightarrow> nat list set" for A :: "nat list set" where
  iter_nil: "[] \<in> iter A"
| iter_cons: "cs \<in> A \<Longrightarrow> ds \<in> iter A \<Longrightarrow> cs @ ds \<in> iter A"

definition prefixes :: "nat list set \<Rightarrow> nat list set" where
  "prefixes A = {cs. \<exists>ds. cs @ ds \<in> A}"

lemma conc_eq [simp]: "conc {cs} {ds} = {cs @ ds}" "conc {[]} A = A" "conc A {[]} = A"
  by (auto simp: conc_def)

lemma conc_assoc: "conc (conc A B) C = conc A (conc B C)"
proof -
  have left: "conc (conc A B) C = {(cs @ ds) @ es | cs ds es. cs \<in> A \<and> ds \<in> B \<and> es \<in> C}" unfolding conc_def by blast
  have right: "conc A (conc B C) = {cs @ ds @ es | cs ds es. cs \<in> A \<and> ds \<in> B \<and> es \<in> C}" unfolding conc_def by blast
  show ?thesis unfolding left right append_assoc ..
qed

lemma concI: "cs \<in> A \<Longrightarrow> ds \<in> B \<Longrightarrow> cs @ ds \<in> conc A B"
  by (auto simp: conc_def)

lemma prefixesI [intro]: "cs \<in> A \<Longrightarrow> cs \<in> prefixes A"
  by (auto simp: prefixes_def intro: exI [of _ "[]"])

lemma prefixes_conc1: "cs \<in> prefixes A \<Longrightarrow> B \<noteq> {} \<Longrightarrow> cs \<in> prefixes (conc A B)"
proof -
  assume "cs \<in> prefixes A" "B \<noteq> {}"
  then obtain ds b where "cs @ ds \<in> A" "b \<in> B" by (auto simp: prefixes_def)
  then have "cs @ (ds @ b) \<in> conc A B" using concI by fastforce
  then show ?thesis unfolding prefixes_def by blast
qed

lemma prefixes_conc2: "cs \<in> A \<Longrightarrow> ds \<in> prefixes B \<Longrightarrow> cs @ ds \<in> prefixes (conc A B)"
  by (auto simp: prefixes_def conc_def)

lemma iter_power: "cs \<in> iter {ds} \<longleftrightarrow> (\<exists>n. cs = concat (replicate n ds))"
proof
  show "cs \<in> iter {ds} \<Longrightarrow> \<exists>n. cs = concat (replicate n ds)"
  proof (induction rule: iter.induct)
    case iter_nil
    show ?case by (rule exI [of _ 0]) simp
  next
    case (iter_cons cs es)
    then obtain n where "cs = ds" "es = concat (replicate n ds)" by auto
    then show ?case by (intro exI [of _ "Suc n"]) simp
  qed
next
  have "concat (replicate n ds) \<in> iter {ds}" for n
    by (induction n) (auto intro: iter.intros)
  then show "\<exists>n. cs = concat (replicate n ds) \<Longrightarrow> cs \<in> iter {ds}" by blast
qed

text \<open>An operation that, if it succeeds, sends a sequence of a language, and otherwise the beginning of one.\<close>

definition runs :: "(nat list \<Rightarrow> 'w \<Rightarrow> 'w \<Rightarrow> bool) \<Rightarrow> nat list set \<Rightarrow> efi_status \<Rightarrow> 'w \<Rightarrow> 'w \<Rightarrow> bool" where
  "runs Sent L st w w' \<longleftrightarrow> (\<exists>cs \<in> (if EFI_ERROR st then prefixes L else L). Sent cs w w')"

lemma runs_success: "runs Sent L EFI_SUCCESS w w' \<longleftrightarrow> (\<exists>cs \<in> L. Sent cs w w')"
  by (simp add: runs_def)

lemma runs_any: "runs Sent L EFI_SUCCESS w w' \<Longrightarrow> runs Sent L st w w'"
  by (auto simp: runs_def)

lemma runs_mono: "runs Sent A st w w' \<Longrightarrow> A \<subseteq> B \<Longrightarrow> runs Sent B st w w'"
  unfolding runs_def prefixes_def by (cases "EFI_ERROR st") (simp, blast)+

lemma runs_fail: "runs Sent A st w w' \<Longrightarrow> EFI_ERROR st \<Longrightarrow> B \<noteq> {} \<Longrightarrow> runs Sent (conc A B) st w w'"
  unfolding runs_def by (auto intro: prefixes_conc1)

section \<open>The contract and its clients\<close>

locale card_bus =
  fixes PassThru :: "'w pass_thru"
    and Sent :: "nat list \<Rightarrow> 'w \<Rightarrow> 'w \<Rightarrow> bool"
  assumes Sent_nil: "Sent [] w w"
    and Sent_append: "Sent cs w w1 \<Longrightarrow> Sent ds w1 w2 \<Longrightarrow> Sent (cs @ ds) w w2"
    and PassThru_Sent: "PassThru P w = Some (st, P', w') \<Longrightarrow> Sent [CommandIndex P mod 64] w w' \<or> EFI_ERROR st \<and> Sent [] w w'"
begin

lemma runs_seq: "runs Sent A EFI_SUCCESS w w1 \<Longrightarrow> runs Sent B st w1 w2 \<Longrightarrow> runs Sent (conc A B) st w w2"
  unfolding runs_def by (cases "EFI_ERROR st") (simp_all, meson Sent_append concI prefixes_conc2, meson Sent_append concI)

lemma runs_nil [intro]: "runs Sent {[]} st w w"
  unfolding runs_def using Sent_nil by auto

lemma runs_start: "EFI_ERROR st \<Longrightarrow> A \<noteq> {} \<Longrightarrow> runs Sent A st w w"
  unfolding runs_def prefixes_def using Sent_nil by (intro bexI [of _ "[]"]) auto

lemma PassThru_runs:
  assumes "PassThru P w = Some (st, P', w')"
  shows "runs Sent {[CommandIndex P mod 64]} st w w'"
  using PassThru_Sent [OF assms] by (auto simp: runs_def prefixes_def)

lemma issue_runs: "issue PassThru P w = Some (st, w') \<Longrightarrow> runs Sent {[CommandIndex P mod 64]} st w w'"
  by (auto simp: issue_def dest: PassThru_runs)

lemma issue_resp_runs: "issue_resp PassThru P Old w = Some (st, x, w') \<Longrightarrow> runs Sent {[CommandIndex P mod 64]} st w w'"
  by (auto simp: issue_resp_def dest: PassThru_runs)

lemma app_command_runs:
  assumes "app_command PassThru Rca go fail w = Some r"
    and "\<And>P w1. go P w1 = Some r \<Longrightarrow> runs Sent {[c]} (fst r) w1 (out r)"
    and "\<And>st w1. r = fail st w1 \<Longrightarrow> fst r = st \<and> out r = w1"
  shows "runs Sent {[55, c]} (fst r) w (out r)"
proof -
  from assms(1) obtain st P w1 where app: "PassThru (with_command SD_APP_CMD SdMmcCommandTypeAc SdMmcResponseTypeR1 (rca_argument Rca) new_packet) w =
      Some (st, P, w1)" and r: "if EFI_ERROR st then r = fail st w1 else go P w1 = Some r"
    by (auto simp: app_command_def bind_eq_Some_conv split: if_splits)
  have app: "runs Sent {[55]} st w w1" using PassThru_runs [OF app] by (simp add: with_command_def)
  show ?thesis
  proof (cases "EFI_ERROR st")
    case True
    with r assms(3) have "fst r = st" "out r = w1" by auto
    then show ?thesis using runs_fail [OF app True, of "{[c]}"] by simp
  next
    case False
    with r assms(2) have "runs Sent {[c]} (fst r) w1 (out r)" by simp
    with app False show ?thesis using runs_seq [of "{[55]}"] by (fastforce simp: EFI_ERROR_iff)
  qed
qed

lemmas command_simps = with_command_def new_packet_def

lemma sd_commands:
  "SdCardReset PassThru w = Some (st, w') \<Longrightarrow> runs Sent {[0]} st w w'"
  "SdCardAllSendCid PassThru w = Some (st, w') \<Longrightarrow> runs Sent {[2]} st w w'"
  "SdioSendOpCond PassThru V S w = Some (st, w') \<Longrightarrow> runs Sent {[5]} st w w'"
  "SdCardSelect PassThru Rca w = Some (st, w') \<Longrightarrow> runs Sent {[7]} st w w'"
  "SdCardVoltageSwitch PassThru w = Some (st, w') \<Longrightarrow> runs Sent {[11]} st w w'"
  "SdCardSwitch PassThru A B C D M R w = Some (st, w') \<Longrightarrow> runs Sent {[6]} st w w'"
  "SdCardSendStatus PassThru Rca DevStatus w = Some (st, x, w') \<Longrightarrow> runs Sent {[13]} st w w'"
  "SdCardSendTuningBlk PassThru R w = Some (st, w') \<Longrightarrow> runs Sent {[19]} st w w'"
  unfolding SdCardReset_def SdCardAllSendCid_def SdioSendOpCond_def SdCardSelect_def SdCardVoltageSwitch_def SdCardSwitch_def
    SdCardSendStatus_def SdCardSendTuningBlk_def
  by (drule issue_runs issue_resp_runs; simp add: command_simps)+

lemma emmc_commands:
  "EmmcReset PassThru Stall w = Some (st, w') \<Longrightarrow> runs Sent {[0]} st (Stall 1000 w) w'"
  "EmmcGetOcr PassThru Argument w = Some (st, x, w') \<Longrightarrow> runs Sent {[1]} st w w'"
  "EmmcGetAllCid PassThru w = Some (st, w') \<Longrightarrow> runs Sent {[2]} st w w'"
  "EmmcSetRca PassThru Rca w = Some (st, w') \<Longrightarrow> runs Sent {[3]} st w w'"
  "EmmcSelect PassThru Rca w = Some (st, w') \<Longrightarrow> runs Sent {[7]} st w w'"
  "EmmcGetExtCsd PassThru R w = Some (st, w') \<Longrightarrow> runs Sent {[8]} st w w'"
  "EmmcSwitch PassThru A I V C w = Some (st, w') \<Longrightarrow> runs Sent {[6]} st w w'"
  "EmmcSendStatus PassThru Rca DevStatus w = Some (st, x, w') \<Longrightarrow> runs Sent {[13]} st w w'"
  "EmmcSendTuningBlk PassThru B R w = Some (st, w') \<Longrightarrow> runs Sent {[21]} st w w'"
  unfolding EmmcReset_def EmmcGetOcr_def EmmcGetAllCid_def EmmcSetRca_def EmmcSelect_def EmmcGetExtCsd_def EmmcSwitch_def
    EmmcSendStatus_def EmmcSendTuningBlk_def
  by (drule issue_runs issue_resp_runs; simp add: command_simps)+

lemma csd_commands:
  "SdCardSetRca PassThru Rca w = Some (st, x, w') \<Longrightarrow> runs Sent {[3]} st w w'"
  "SdCardGetCsd PassThru Rca C w = Some (st, y, w') \<Longrightarrow> runs Sent {[9]} st w w'"
  "EmmcGetCsd PassThru Rca C w = Some (st, y, w') \<Longrightarrow> runs Sent {[9]} st w w'"
  by (auto simp: SdCardSetRca_def SdCardGetCsd_def EmmcGetCsd_def command_simps dest!: PassThru_runs)

lemma SdCardVoltageCheck_runs:
  assumes "SdCardVoltageCheck PassThru V C w = Some (st, w')"
  shows "runs Sent {[8]} st w w'"
proof -
  from assms obtain st' P where "runs Sent {[8]} st' w w'" "st = st' \<or> \<not> EFI_ERROR st'"
    by (auto simp: SdCardVoltageCheck_def Let_def command_simps dest!: PassThru_runs)
  then show ?thesis by (auto simp: EFI_ERROR_iff intro: runs_any)
qed

lemma app_commands:
  "SdCardSendOpCond PassThru Rca V S X H Ocr w = Some (st, x, w') \<Longrightarrow> runs Sent {[55, 41]} st w w'"
  "SdCardGetScr PassThru Rca R w = Some (st, w') \<Longrightarrow> runs Sent {[55, 51]} st w w'"
  "SdCardSetBusWidth PassThru Rca B w = Some (st, w') \<Longrightarrow> runs Sent {[55, 6]} st w w'"
proof -
  show "runs Sent {[55, 41]} st w w'" if "SdCardSendOpCond PassThru Rca V S X H Ocr w = Some (st, x, w')"
    by (rule app_command_runs [OF that [unfolded SdCardSendOpCond_def], of 41 "\<lambda>r. snd (snd r)", simplified])
      (auto simp: command_simps dest!: issue_resp_runs)
  show "runs Sent {[55, 51]} st w w'" if "SdCardGetScr PassThru Rca R w = Some (st, w')"
    by (rule app_command_runs [OF that [unfolded SdCardGetScr_def], of 51 snd, simplified])
      (auto simp: command_simps dest!: issue_runs)
  show "runs Sent {[55, 6]} st w w'" if "SdCardSetBusWidth PassThru Rca B w = Some (st, w')"
    by (rule app_command_runs [OF that [unfolded SdCardSetBusWidth_def], of 6 snd, simplified])
      (auto simp: command_simps EFI_ERROR_iff runs_start split: option.splits if_splits dest!: issue_runs)
qed

end

end
