(* ===== verification/MmcQueueCorrect.thy ===== *)
theory MmcQueueCorrect
  imports MmcQueue MmcHostCorrect
begin

text \<open>
  The queue of non-blocking requests: every accepted request is signalled exactly once, in the order in which the
  requests were accepted, whatever the controller answers and whatever else is called in between.
\<close>

section \<open>Calls that leave the requests alone\<close>

fun quiet_call :: "mmc_call \<Rightarrow> bool" where
  "quiet_call (SignalMmc ev) = False"
| "quiet_call (TrbAllocate b) = False"
| "quiet_call (TrbFree b) = False"
| "quiet_call (Write32 r v) \<longleftrightarrow> r \<noteq> DW_MMC_CMD"
| "quiet_call _ = True"

definition ext :: "mmc_log \<Rightarrow> mmc_log \<Rightarrow> bool" where
  "ext l l' \<longleftrightarrow> (\<exists>cs. l' = l @ cs \<and> list_all quiet_call cs)"

lemma ext_refl [simp, intro]: "ext l l"
  by (simp add: ext_def)

lemma ext_trans [trans]: "ext l l' \<Longrightarrow> ext l' l'' \<Longrightarrow> ext l l''"
  by (auto simp: ext_def)

lemma ext_append [simp]: "ext l (l @ cs) \<longleftrightarrow> list_all quiet_call cs"
  by (auto simp: ext_def)

lemma ext_more [intro]: "ext l l' \<Longrightarrow> list_all quiet_call cs \<Longrightarrow> ext l (l' @ cs)"
  by (auto simp: ext_def)

lemma ext_less: "ext (l @ cs) l' \<Longrightarrow> list_all quiet_call cs \<Longrightarrow> ext l l'"
  by (auto simp: ext_def)

lemma ext_trans_less: "ext l l' \<Longrightarrow> ext (l' @ cs) l'' \<Longrightarrow> list_all quiet_call cs \<Longrightarrow> ext l l''"
  using ext_less ext_trans by blast

lemma wait_idle_ext: "wait_idle e l = Some l' \<Longrightarrow> ext l l'"
proof (rule wait_idle.raw_induct [where P = "\<lambda>e l l'. ext l l'", rotated], assumption)
  fix f :: "mmc_env \<Rightarrow> mmc_log \<Rightarrow> mmc_log option" and e l l'
  assume ih: "\<And>e l l'. f e l = Some l' \<Longrightarrow> ext l l'"
    and body: "(let (MmcStatus, l1) = MmioRead32 e DW_MMC_STATUS l
      in if MmcStatus AND DW_MMC_STS_DATA_BUSY \<noteq> 0 then f e l1 else Some l1) = Some l'"
  from body show "ext l l'" by (auto split: if_splits intro: ext_less [OF ih])
qed

lemma emmc_wait_ext: "emmc_wait e l = Some y \<Longrightarrow> ext l (snd y)"
proof (rule emmc_wait.raw_induct [where P = "\<lambda>e l y. ext l (snd y)", rotated], assumption)
  fix f :: "mmc_env \<Rightarrow> mmc_log \<Rightarrow> (efi_status \<times> mmc_log) option" and e l y
  assume ih: "\<And>e l y. f e l = Some y \<Longrightarrow> ext l (snd y)"
    and body: "(let Timeout = 10000 - 1 :: nat
       in if Timeout = 0 then Some (EFI_SUCCESS, l)
          else let (IntStatus, l1) = MmioRead32 e DW_MMC_RINTSTS l
               in if IntStatus AND emmc_err_mask \<noteq> 0 then Some (EFI_DEVICE_ERROR, l1)
                  else let l2 = MicroSecondDelay 10 l1
                       in if IntStatus AND DW_MMC_INT_CMD_DONE \<noteq> 0 then Some (EFI_SUCCESS, l2) else f e l2) = Some y"
  from body show "ext l (snd y)" by (auto simp: Let_def split: if_splits intro: ext_less [OF ih])
qed

lemma wait_idsts_ext: "wait_idsts e Mask l = Some l' \<Longrightarrow> ext l l'"
proof (rule wait_idsts.raw_induct [where P = "\<lambda>e Mask l l'. ext l l'", rotated], assumption)
  fix f :: "mmc_env \<Rightarrow> u32 \<Rightarrow> mmc_log \<Rightarrow> mmc_log option" and e Mask l l'
  assume ih: "\<And>e Mask l l'. f e Mask l = Some l' \<Longrightarrow> ext l l'"
    and body: "(let (Idsts, l1) = MmioRead32 e DW_MMC_IDSTS l in if Idsts AND Mask = 0 then f e Mask l1 else Some l1) = Some l'"
  from body show "ext l l'" by (auto split: if_splits intro: ext_less [OF ih])
qed

lemma sd_wait_ext: "ext l (snd (sd_wait e n I l))"
proof (induction n arbitrary: I l)
  case (Suc n)
  have "ext l (snd (sd_wait e n (mmRead e l DW_MMC_RINTSTS) (l @ [Read32 DW_MMC_RINTSTS, Delay 1])))"
    using Suc by (rule ext_less) simp
  then show ?case by (auto simp: Let_def)
qed simp

lemma wait_reset_loop_ext: "ext l (snd (wait_reset_loop e n l))"
proof (induction n arbitrary: l)
  case (Suc n)
  have "ext l (snd (wait_reset_loop e n (l @ [Read32 DW_MMC_CTRL, Delay 1])))"
    using Suc by (rule ext_less) simp
  then show ?case by auto
qed simp

lemma WaitReset_ext: "ext l (snd (DwMmcHcWaitReset e v l))"
  unfolding DwMmcHcWaitReset_def MmioWrite32_simps by (rule ext_less [OF wait_reset_loop_ext]) simp

lemma StartDma_ext: "ext l (snd (DwMmcHcStartDma e l))"
  using WaitReset_ext [of l e DW_MMC_CTRL_DMA_RESET] by (auto simp: DwMmcHcStartDma_def Let_def split: prod.splits)

lemma StopDma_ext: "ext l (snd (DwMmcHcStopDma e l))"
  by (auto simp: DwMmcHcStopDma_def)

text \<open>Sending exactly one command.\<close>

definition sends :: "u32 \<Rightarrow> mmc_log \<Rightarrow> mmc_log \<Rightarrow> bool" where
  "sends v l l' \<longleftrightarrow> (\<exists>l1. ext l l1 \<and> ext (l1 @ [Write32 DW_MMC_CMD v]) l')"

lemma sends_trans: "sends v l l' \<Longrightarrow> ext l' l'' \<Longrightarrow> sends v l l''"
  using ext_trans by (auto simp: sends_def)

lemma send_command_sends: "ext l l1 \<Longrightarrow> sends Cmd l (send_command Cmd P l1)"
  unfolding sends_def send_command_def by (intro exI [of _ "l1 @ [Write32 DW_MMC_CMDARG (CommandArgument P)]"]) auto

lemma read_long_response_ext: "ext l (snd (read_long_response e P l))"
  by (auto simp: read_long_response_def)

lemma emmc_response_ext: "ext l (snd (emmc_response e P l))"
  using read_long_response_ext [of l e P] by (auto simp: emmc_response_def read_resp0_def)

lemma sd_response_ext: "ext l (snd (sd_response e P l))"
  using read_long_response_ext [of l e P] by (auto simp: sd_response_def read_resp0_def)

lemma fifo_read_words_ext: "ext (FifoLog s) (FifoLog (fifo_read_words e Trb n s))"
proof (induction n arbitrary: s)
  case (Suc n)
  have "ext (FifoLog s) (FifoLog (fifo_read_word e Trb s))" by (auto simp: fifo_read_word_def fifo_step_def)
  with Suc show ?case by (auto intro: ext_trans)
qed simp

lemma fifo_fill_ext: "fifo_fill e Trb I S s = Some y \<Longrightarrow> ext (FifoLog s) (FifoLog (snd y))"
proof (rule fifo_fill.raw_induct [where P = "\<lambda>e Trb I S s y. ext (FifoLog s) (FifoLog (snd y))", rotated], assumption)
  fix f :: "mmc_env \<Rightarrow> DW_MMC_HC_TRB \<Rightarrow> u32 \<Rightarrow> u32 \<Rightarrow> fifo_state \<Rightarrow> (u32 \<times> fifo_state) option" and e Trb I S s y
  assume ih: "\<And>e Trb I S s y. f e Trb I S s = Some y \<Longrightarrow> ext (FifoLog s) (FifoLog (snd y))"
    and body: "(if \<not> DW_MMC_STS_FIFO_FULL S \<and> Received s < TrbDataLen Trb \<and> I AND DW_MMC_INT_TXDR \<noteq> 0
      then let s1 = fifo_write_word e Trb s; (Intsts', l1) = MmioRead32 e DW_MMC_RINTSTS (FifoLog s1);
               (Sts', l2) = MmioRead32 e DW_MMC_STATUS l1
           in f e Trb Intsts' Sts' (s1\<lparr>FifoLog := l2\<rparr>)
      else Some (I, s)) = Some y"
  have "ext (FifoLog s) (FifoLog (fifo_write_word e Trb s))" by (auto simp: fifo_write_word_def fifo_step_def Let_def)
  with body show "ext (FifoLog s) (FifoLog (snd y))"
    by (auto simp: Let_def split: if_splits dest!: ih intro: ext_trans_less)
qed

lemma fifo_turn_ext: "fifo_turn e Trb s = Some y \<Longrightarrow> ext (FifoLog s) (FifoLog (snd y))"
proof -
  assume turn: "fifo_turn e Trb s = Some y"
  let ?I = "mmRead e (FifoLog s) DW_MMC_RINTSTS" and ?l2 = "FifoLog s @ [Read32 DW_MMC_RINTSTS, Read32 DW_MMC_STATUS]"
  let ?s2 = "s\<lparr>FifoLog := ?l2\<rparr>"
  have less: "ext (FifoLog s) l'" if "ext ?l2 l'" for l' using that by (rule ext_less) simp
  show ?thesis
  proof (cases "\<not> TrbRead Trb \<and> ?I AND DW_MMC_INT_TXDR \<noteq> 0")
    case True
    with turn obtain S z where z: "fifo_fill e Trb ?I S ?s2 = Some z" "FifoLog (snd y) = FifoLog (snd z)"
      by (auto simp: fifo_turn_def Let_def)
    from fifo_fill_ext [OF z(1)] show ?thesis unfolding z(2) by (auto intro: less)
  next
    case False
    with turn consider "FifoLog (snd y) = FifoLog s @ [Read32 DW_MMC_RINTSTS]" | "FifoLog (snd y) = ?l2"
      | n where "FifoLog (snd y) = FifoLog (fifo_read_words e Trb n ?s2)"
      by (auto simp: fifo_turn_def Let_def split: if_splits)
    then show ?thesis
    proof cases
      case 3
      then show ?thesis using fifo_read_words_ext [of ?s2 e Trb n] by (auto intro: less)
    qed simp_all
  qed
qed

lemma fifo_loop_ext: "fifo_loop e Trb s = Some y \<Longrightarrow> ext (FifoLog s) (FifoLog (snd y))"
proof (rule fifo_loop.raw_induct [where P = "\<lambda>e Trb s y. ext (FifoLog s) (FifoLog (snd y))", rotated], assumption)
  fix f :: "mmc_env \<Rightarrow> DW_MMC_HC_TRB \<Rightarrow> fifo_state \<Rightarrow> (efi_status \<times> fifo_state) option" and e Trb s y
  assume ih: "\<And>e Trb s y. f e Trb s = Some y \<Longrightarrow> ext (FifoLog s) (FifoLog (snd y))"
    and body: "Option.bind (fifo_turn e Trb s) (\<lambda>(Intsts, s1).
       if Intsts AND DW_MMC_INT_DATA_ERR \<noteq> 0 then Some (EFI_DEVICE_ERROR, s1)
       else let s2 = (if FifoTimeout s1 < DW_MMC_HC_GENERIC_TIMEOUT then s1\<lparr>FifoLog := MicroSecondDelay 1 (FifoLog s1)\<rparr> else s1);
                s3 = s2\<lparr>FifoTimeout := FifoTimeout s2 - 1\<rparr>
            in if FifoTimeout s3 = 0 then Some (EFI_TIMEOUT, s3)
               else if Received s3 < TrbDataLen Trb then f e Trb s3 else Some (EFI_SUCCESS, s3)) = Some y"
  from body obtain I s1 where turn: "fifo_turn e Trb s = Some (I, s1)" by (cases "fifo_turn e Trb s") auto
  define s3 where "s3 = (if FifoTimeout s1 < DW_MMC_HC_GENERIC_TIMEOUT then s1\<lparr>FifoLog := MicroSecondDelay 1 (FifoLog s1)\<rparr> else s1)
     \<lparr>FifoTimeout := FifoTimeout s1 - 1\<rparr>"
  have s1: "ext (FifoLog s) (FifoLog s1)" using fifo_turn_ext [OF turn] by simp
  then have s3: "ext (FifoLog s) (FifoLog s3)" by (auto simp: s3_def)
  from body have "snd y = s1 \<or> snd y = s3 \<or> f e Trb s3 = Some y"
    by (simp add: turn Let_def s3_def split: if_splits) auto
  then show "ext (FifoLog s) (FifoLog (snd y))" using s1 s3 by (auto dest!: ih intro: ext_trans)
qed

lemma TransferFifo_ext: "TransferFifo e Trb l m = Some (st, l', m') \<Longrightarrow> ext l l'"
  by (auto simp: TransferFifo_def fifo_start_def dest!: fifo_loop_ext)

lemma sd_data_ext:
  assumes "sd_data e Trb P l m = Some (st, l', m')"
  shows "ext l l'"
proof -
  have stop: "ext l (snd (DwMmcHcStopDma e l1))" if "wait_idsts e Mask l = Some l1" for Mask l1
    using wait_idsts_ext [OF that(1)] StopDma_ext [of l1 e] by (rule ext_trans)
  show ?thesis using assms unfolding sd_data_def
    by (auto simp: Let_def split_beta split: if_splits dest: TransferFifo_ext stop)
qed

lemma WaitReset_ext_more: "list_all quiet_call cs \<Longrightarrow> ext l (snd (DwMmcHcWaitReset e v (l @ cs)))"
  using WaitReset_ext ext_less by blast

lemma sd_fifo_setup_ext: "ext l (sd_fifo_setup e Trb P l)"
  unfolding sd_fifo_setup_def Let_def by (auto intro!: WaitReset_ext_more)

lemma SdExec_sends:
  assumes "DwSdExecTrb e Trb P l m = Some (st, P', l', m')"
  shows "sends (sd_command P) l l'"
proof -
  from assms obtain l1 where l1: "wait_idle e l = Some l1" by (cases "wait_idle e l") (auto simp: DwSdExecTrb_def)
  define Trb1 where "Trb1 = (if addressed P \<and> CommandIndex P = SD_SEND_SCR then Trb\<lparr>UseBE := True\<rparr> else Trb)"
  define l3 where "l3 = send_command (sd_command P) P (sd_fifo_setup e Trb1 P (MmioWrite32 DW_MMC_RINTSTS (NOT 0) l1))"
  obtain I l4 where wait: "sd_wait e 10000 (NOT 0) l3 = (I, l4)" by (metis surj_pair)
  have "ext l l1" using wait_idle_ext [OF l1] .
  also have "ext l1 (sd_fifo_setup e Trb1 P (l1 @ [Write32 DW_MMC_RINTSTS (NOT 0)]))"
    by (rule ext_less [OF sd_fifo_setup_ext]) simp
  finally have "sends (sd_command P) l l3" unfolding l3_def by (intro send_command_sends) simp
  moreover have "ext l3 l4" using sd_wait_ext [of l3 e 10000 "NOT 0"] wait by simp
  ultimately have l4: "sends (sd_command P) l l4" by (rule sends_trans)
  show ?thesis
  proof (cases "I AND sd_err_mask P = 0")
    case False
    then show ?thesis using assms l4 wait by (simp add: DwSdExecTrb_def l1 Let_def Trb1_def l3_def del: sd_wait.simps)
  next
    case True
    from assms obtain st5 l5 m5 where l5: "sd_data e Trb1 P l4 m = Some (st5, l5, m5)"
      and l': "l' = l5 \<or> l' = snd (sd_response e P l5)"
      using True wait by (auto simp: DwSdExecTrb_def l1 Let_def Trb1_def l3_def split: if_splits prod.splits simp del: sd_wait.simps)
    from l4 sd_data_ext [OF l5] have "sends (sd_command P) l l5" by (rule sends_trans)
    then show ?thesis using l' sd_response_ext [of l5 e P] by (auto intro: sends_trans)
  qed
qed

lemma EmmcExec_sends:
  assumes "DwEmmcExecTrb e P l = Some (st, P', l')"
  shows "sends (emmc_command P) l l'"
proof -
  from assms obtain l1 st2 l2 where l1: "wait_idle e l = Some l1"
    and l2: "emmc_wait e (send_command (emmc_command P) P (l1 @ [Write32 DW_MMC_RINTSTS (NOT 0)])) = Some (st2, l2)"
    and l': "l' = l2 \<or> l' = snd (emmc_response e P l2)"
    by (auto simp: DwEmmcExecTrb_def Let_def bind_eq_Some_conv split: if_splits prod.splits)
  have "ext l l1" using wait_idle_ext [OF l1] .
  then have "sends (emmc_command P) l (send_command (emmc_command P) P (l1 @ [Write32 DW_MMC_RINTSTS (NOT 0)]))"
    by (intro send_command_sends) auto
  moreover have "ext (send_command (emmc_command P) P (l1 @ [Write32 DW_MMC_RINTSTS (NOT 0)])) l2" using emmc_wait_ext [OF l2] by simp
  ultimately have "sends (emmc_command P) l l2" by (rule sends_trans)
  then show ?thesis using l' emmc_response_ext [of l2 e P] by (auto intro: sends_trans)
qed

text \<open>The command words a card of a type is sent for a packet.\<close>

definition words_for :: "SD_MMC_CARD_TYPE \<Rightarrow> EFI_SD_MMC_PACKET \<Rightarrow> u32 list" where
  "words_for C P = (if C = EmmcCardType then [emmc_command P] else if C = SdCardType then [sd_command P] else [])"

lemma Exec_sends:
  assumes "DwMmcExecTrb e C Trb P l m = Some (st, P', l', m')"
  shows "case words_for C P of [] \<Rightarrow> l' = l | v # _ \<Rightarrow> sends v l l'"
  using assms SdExec_sends EmmcExec_sends by (auto simp: DwMmcExecTrb_def words_for_def split: if_splits)

lemma CheckTrbResult_ext: "DwMmcCheckTrbResult e Trb P l = Some (st, l') \<Longrightarrow> ext l l'"
  by (auto simp: DwMmcCheckTrbResult_def split: if_splits dest!: wait_idsts_ext)

lemma wait_result_ext: "wait_result_loop e Trb P b t l = Some y \<Longrightarrow> ext l (snd y)"
proof (rule wait_result_loop.raw_induct [where P = "\<lambda>e Trb P b t l y. ext l (snd y)", rotated], assumption)
  fix f :: "mmc_env \<Rightarrow> DW_MMC_HC_TRB \<Rightarrow> EFI_SD_MMC_PACKET \<Rightarrow> bool \<Rightarrow> nat \<Rightarrow> mmc_log \<Rightarrow> (efi_status \<times> mmc_log) option"
    and e Trb Packet b t l y
  assume ih: "\<And>e Trb Packet b t l y. f e Trb Packet b t l = Some y \<Longrightarrow> ext l (snd y)"
    and body: "(if b \<or> 0 < t
      then Option.bind (DwMmcCheckTrbResult e Trb Packet l) (\<lambda>(Status, l1).
             if Status \<noteq> EFI_NOT_READY then Some (Status, l1)
             else f e Trb Packet b (wrap (t + 2 ^ 64 - 1)) (MicroSecondDelay 1 l1))
      else Some (EFI_TIMEOUT, l)) = Some y"
  show "ext l (snd y)"
  proof (cases "b \<or> 0 < t")
    case True
    with body obtain st l1 where c: "DwMmcCheckTrbResult e Trb Packet l = Some (st, l1)"
      and y: "y = (st, l1) \<or> f e Trb Packet b (wrap (t + 2 ^ 64 - 1)) (l1 @ [Delay 1]) = Some y"
      by (auto simp: bind_eq_Some_conv split: if_splits)
    from CheckTrbResult_ext [OF c] y show ?thesis by (auto dest!: ih intro: ext_trans_less)
  qed (use body in auto)
qed

lemma WaitTrbEnv_eq: "DwMmcWaitTrbEnv P l = Some (EFI_SUCCESS, l)"
  unfolding DwMmcWaitTrbEnv_def by (subst wait_env_loop.simps) (auto simp: DwMmcCheckTrbEnv_def)

lemma BuildDma_ext: "BuildDmaDescTable e Trb l m = (st, T, l', m') \<Longrightarrow> ext l l'"
  unfolding BuildDmaDescTable_def Let_def
  by (simp split: if_splits prod.splits option.splits) auto

text \<open>What mapping its data leaves of a request.\<close>

definition same_request :: "DW_MMC_HC_TRB \<Rightarrow> DW_MMC_HC_TRB \<Rightarrow> bool" where
  "same_request T Trb \<longleftrightarrow> TrbEvent T = TrbEvent Trb \<and> TrbBlock T = TrbBlock Trb \<and> TrbPacket T = TrbPacket Trb \<and> TrbSlot T = TrbSlot Trb"

lemma BuildDma_same: "BuildDmaDescTable e Trb l m = (st, T, l', m') \<Longrightarrow> same_request T Trb"
  unfolding BuildDmaDescTable_def Let_def
  by (simp split: if_splits prod.splits option.splits) (auto simp: same_request_def)

lemma map_data_ext:
  assumes "map_data e Trb l m = (T, l', m')"
  shows "ext l l' \<and> (\<forall>Trb1. T = Some Trb1 \<longrightarrow> same_request Trb1 Trb)"
proof -
  obtain st n Phy M where map: "mmDmaMap e l (mmData (TrbRead Trb)) (TrbData Trb) (TrbDataLen Trb) = (st, n, Phy, M)" by (metis prod_cases4)
  define l1 where "l1 = l @ [DmaMapped (mmData (TrbRead Trb)) (if EFI_ERROR st then None else Some M)]"
  obtain st2 T2 l2 m2 where build: "BuildDmaDescTable e (Trb\<lparr>DataPhy := Phy, DataMap := Some M\<rparr>) l1 m = (st2, T2, l2, m2)" by (metis prod_cases4)
  obtain st3 l3 where start: "DwMmcHcStartDma e l2 = (st3, l3)" by (metis surj_pair)
  have l1: "ext l l1" by (simp add: l1_def)
  have l2: "ext l l2" using l1 BuildDma_ext [OF build] by (rule ext_trans)
  have l3: "ext l l3" using l2 StartDma_ext [of l2 e] start by (auto intro: ext_trans)
  have T2: "same_request T2 Trb" using BuildDma_same [OF build] by (simp add: same_request_def)
  have "map_data e Trb l m =
      (if EFI_ERROR st \<or> TrbDataLen Trb \<noteq> n then (None, l1, m)
       else if EFI_ERROR st2 then (None, l2 @ [DmaUnmapped M], m2)
       else if EFI_ERROR st3 then (None, l3 @ [DmaUnmapped M], m2) else (Some T2, l3, m2))"
    unfolding map_data_def map Let_def case_prod_conv l1_def [symmetric] build start ..
  then show ?thesis using assms l1 l2 l3 T2 by (auto split: if_splits)
qed

section \<open>Signals and blocks\<close>

fun signal_of :: "mmc_call \<Rightarrow> efi_event list" where
  "signal_of (SignalMmc ev) = [ev]"
| "signal_of _ = []"

definition signalled :: "mmc_log \<Rightarrow> efi_event list" where
  "signalled l = concat (map signal_of l)"

fun block_count :: "mmc_call \<Rightarrow> int" where
  "block_count (TrbAllocate (Some B)) = 1"
| "block_count (TrbFree B) = - 1"
| "block_count _ = 0"

text \<open>The requests' blocks taken from the pool less those given back.\<close>

definition pool_held :: "mmc_log \<Rightarrow> int" where
  "pool_held l = sum_list (map block_count l)"

lemma signalled_simps [simp]:
  "signalled [] = []" "signalled (c # l) = signal_of c @ signalled l" "signalled (l @ l') = signalled l @ signalled l'"
  by (simp_all add: signalled_def)

lemma pool_held_simps [simp]: "pool_held [] = 0" "pool_held (c # l) = block_count c + pool_held l" "pool_held (l @ l') = pool_held l + pool_held l'"
  by (simp_all add: pool_held_def)

lemma quiet_calls: "list_all quiet_call cs \<Longrightarrow> signalled cs = [] \<and> pool_held cs = 0"
proof (induction cs)
  case (Cons c cs)
  then show ?case by (cases c rule: quiet_call.cases) auto
qed simp

lemma ext_signalled: "ext l l' \<Longrightarrow> signalled l' = signalled l" and ext_pool_held: "ext l l' \<Longrightarrow> pool_held l' = pool_held l"
  by (auto simp: ext_def dest: quiet_calls)

lemma sends_signalled: "sends v l l' \<Longrightarrow> signalled l' = signalled l"
  by (auto simp: sends_def dest!: ext_signalled)

lemma Exec_signalled: "DwMmcExecTrb e C Trb P l m = Some (st, P', l', m') \<Longrightarrow> signalled l' = signalled l"
  by (drule Exec_sends) (auto simp: words_for_def sends_signalled split: if_splits)

lemma FreeTrb_signalled [simp]: "signalled (DwMmcFreeTrb Trb l) = signalled l"
  and FreeTrb_pool_held [simp]: "pool_held (DwMmcFreeTrb Trb l) = pool_held l - 1"
  by (auto simp: DwMmcFreeTrb_def split: option.splits)

lemma CreateTrb_cases:
  assumes "DwMmcCreateTrb e C Slot At P Event l m = (T, l', m')"
  shows "ext (l @ [TrbAllocate (mmTrbAllocate e l)]) l'"
    "T = Some Trb \<Longrightarrow> TrbEvent Trb = Event \<and> TrbPacket Trb = At \<and> TrbSlot Trb = Slot \<and> mmTrbAllocate e l = Some (TrbBlock Trb)"
proof -
  let ?l1 = "l @ [TrbAllocate (mmTrbAllocate e l)]"
  have "ext ?l1 l' \<and> (\<forall>Trb. T = Some Trb \<longrightarrow> TrbEvent Trb = Event \<and> TrbPacket Trb = At \<and> TrbSlot Trb = Slot \<and> mmTrbAllocate e l = Some (TrbBlock Trb))"
  proof (cases "mmTrbAllocate e l")
    case None
    then show ?thesis using assms by (simp add: DwMmcCreateTrb_def)
  next
    case (Some B)
    define Trb0 where "Trb0 = \<lparr>TrbBlock = B, TrbSlot = Slot, TrbPacket = At, TrbData = 0, TrbDataLen = 0, TrbRead = False, DataPhy = 0,
                     DataMap = None, TrbEvent = Event, Started = False, TrbTimeout = PacketTimeout P, DmaDesc = 0,
                     DmaDescPhy = 0, DmaMap = None, UseFifo = False, UseBE = False\<rparr>"
    show ?thesis
    proof (cases "trb_buffers P Trb0 m")
      case None
      then show ?thesis using assms Some by (simp add: DwMmcCreateTrb_def Trb0_def)
    next
      case buf: (Some x)
      obtain Trb1 m1 where x: "x = (Trb1, m1)" by (metis surj_pair)
      have "same_request Trb1 Trb0" using buf by (auto simp: x trb_buffers_def same_request_def split: if_splits)
      then have Trb1: "TrbEvent Trb1 = Event" "TrbPacket Trb1 = At" "TrbSlot Trb1 = Slot" "TrbBlock Trb1 = B"
        by (simp_all add: same_request_def Trb0_def)
      have "DwMmcCreateTrb e C Slot At P Event l m =
          (if is_tuning C P then (Some Trb1, ?l1, m1)
           else if C = SdCardType then (Some (Trb1\<lparr>UseFifo := True\<rparr>), ?l1, m1)
           else if TrbDataLen Trb1 \<noteq> 0 then map_data e Trb1 ?l1 m1
           else (Some Trb1, ?l1, m1))"
        unfolding DwMmcCreateTrb_def Some Let_def option.case Trb0_def [symmetric] buf x case_prod_conv ..
      note create = this [unfolded assms]
      moreover have "ext ?l1 l' \<and> (\<forall>Trb. T = Some Trb \<longrightarrow> same_request Trb Trb1)" if "map_data e Trb1 ?l1 m1 = (T, l', m')"
        using map_data_ext [OF that] .
      ultimately show ?thesis using Some Trb1 create by (auto simp: same_request_def split: if_splits)
    qed
  qed
  then show "ext ?l1 l'"
    "T = Some Trb \<Longrightarrow> TrbEvent Trb = Event \<and> TrbPacket Trb = At \<and> TrbSlot Trb = Slot \<and> mmTrbAllocate e l = Some (TrbBlock Trb)" by auto
qed

text \<open>A request that is made holds one block of the pool and gives it back when it is freed; one that cannot be made, because its data cannot
  be mapped or the DMA engine does not start, keeps its block for ever.\<close>

theorem mmc_request_block:
  assumes "mmTrbAllocate e l = Some B"
  shows "case DwMmcCreateTrb e C Slot At Packet Event l m of
      (None, l', m') \<Rightarrow> pool_held l' = pool_held l + 1
    | (Some Trb, l', m') \<Rightarrow> TrbBlock Trb = B \<and> pool_held (DwMmcFreeTrb Trb l') = pool_held l"
proof -
  obtain T l' m' where c: "DwMmcCreateTrb e C Slot At Packet Event l m = (T, l', m')" by (metis prod_cases3)
  from ext_pool_held [OF CreateTrb_cases(1) [OF c]] CreateTrb_cases(2) [OF c] assms show ?thesis
    by (cases T) (auto simp: c)
qed

text \<open>A read whose data cannot be mapped.\<close>

definition no_map_env :: mmc_env where
  "no_map_env = quiet_env\<lparr>mmDmaMap := \<lambda>l k a n. (EFI_OUT_OF_RESOURCES, 0, 0, 0)\<rparr>"

definition read_packet :: EFI_SD_MMC_PACKET where
  "read_packet = \<lparr>SdMmcCmdBlk = True, SdMmcStatusBlk = True, CommandIndex = 8, CommandArgument = 0, CommandType = SdMmcCommandTypeAdtc,
     ResponseType = SdMmcResponseTypeR1, Resp0 = 0, Resp1 = 0, Resp2 = 0, Resp3 = 0, InDataBuffer = 0x9000, OutDataBuffer = 0,
     InTransferLength = 512, OutTransferLength = 0, PacketTimeout = 1000000, TransactionStatus = EFI_SUCCESS\<rparr>"

theorem mmc_request_block_witness:
  "\<exists>l' m'. DwMmcCreateTrb no_map_env EmmcCardType 0 0 read_packet None [] (\<lambda>a. 0) = (None, l', m') \<and> pool_held l' = 1"
proof -
  have "fst (DwMmcCreateTrb no_map_env EmmcCardType 0 0 read_packet None [] (\<lambda>a. 0)) = None"
    by (simp add: DwMmcCreateTrb_def no_map_env_def quiet_env_def read_packet_def trb_buffers_def is_tuning_def map_data_def EFI_ERROR_iff)
  moreover have "mmTrbAllocate no_map_env [] = Some 0x4000" by (simp add: no_map_env_def quiet_env_def)
  from mmc_request_block [OF this, of EmmcCardType 0 0 read_packet None "\<lambda>a. 0"]
  have "case DwMmcCreateTrb no_map_env EmmcCardType 0 0 read_packet None [] (\<lambda>a. 0) of
      (None, l', m') \<Rightarrow> pool_held l' = pool_held [] + 1 | (Some Trb, l', m') \<Rightarrow> True"
    by (auto split: prod.splits option.splits)
  ultimately show ?thesis
    by (cases "DwMmcCreateTrb no_map_env EmmcCardType 0 0 read_packet None [] (\<lambda>a. 0)") simp
qed

section \<open>The queue\<close>

definition waiting :: "mmc_world \<Rightarrow> efi_event list" where
  "waiting w = concat (map (\<lambda>Trb. case TrbEvent Trb of None \<Rightarrow> [] | Some ev \<Rightarrow> [ev]) (queue_of w))"

text \<open>All events there are: those signalled, then those of the queue.\<close>

definition events :: "mmc_world \<Rightarrow> efi_event list" where
  "events w = signalled (mmcLog w) @ waiting w"

lemma signal_event_signalled [simp]:
  "signalled (signal_event Event l) = signalled l @ (case Event of None \<Rightarrow> [] | Some ev \<Rightarrow> [ev])"
  by (simp add: signal_event_def split: option.splits)

lemma world_simps [simp]:
  "mmcLog (set_queue q w) = mmcLog w" "queue_of (set_queue q w) = q" "mmcLog (set_status At st w) = mmcLog w"
  "queue_of (set_status At st w) = queue_of w"
  by (simp_all add: set_queue_def set_status_def)

lemma run_head_frame:
  assumes "run_head e Trb w = Some (st, Trb1, w1)"
  shows "signalled (mmcLog w1) = signalled (mmcLog w) \<and> queue_of w1 = queue_of w \<and> TrbEvent Trb1 = TrbEvent Trb"
proof -
  from assms obtain S where S: "slot_at (TrbSlot Trb) w = Some S" by (auto simp: run_head_def bind_eq_Some_conv)
  consider "\<not> MediaPresent S" | "MediaPresent S" "Started Trb" | "MediaPresent S" "\<not> Started Trb" by blast
  then show ?thesis
  proof cases
    case 1
    then show ?thesis using assms S by (simp add: run_head_def)
  next
    case 2
    then show ?thesis using assms S by (auto simp: run_head_def Let_def dest: CheckTrbResult_ext [THEN ext_signalled])
  next
    case 3
    then obtain st2 P l2 m2 where exec: "DwMmcExecTrb e (CardType S) (Trb\<lparr>Started := True\<rparr>) (mmcPackets w (TrbPacket Trb)) (mmcLog w) (mmcMem w) =
        Some (st2, P, l2, m2)"
      using assms S by (auto simp: run_head_def Let_def DwMmcCheckTrbEnv_def bind_eq_Some_conv)
    have l2: "signalled l2 = signalled (mmcLog w)" using Exec_signalled [OF exec] .
    show ?thesis
    proof (cases "EFI_ERROR st2")
      case True
      then show ?thesis using assms S 3 exec l2 by (auto simp: run_head_def Let_def DwMmcCheckTrbEnv_def)
    next
      case False
      then obtain l3 where "DwMmcCheckTrbResult e (Trb\<lparr>Started := True\<rparr>) P l2 = Some (st, l3)" "mmcLog w1 = l3"
          "queue_of w1 = queue_of w" "TrbEvent Trb1 = TrbEvent Trb"
        using assms S 3 exec by (auto simp: run_head_def Let_def DwMmcCheckTrbEnv_def)
      then show ?thesis using l2 CheckTrbResult_ext ext_signalled by metis
    qed
  qed
qed

lemma tick_events:
  assumes "ProcessAsyncTaskList e w = Some w'"
  shows "events w' = events w"
proof (cases "queue_of w")
  case Nil
  then show ?thesis using assms by (simp add: ProcessAsyncTaskList_def)
next
  case (Cons Trb rest)
  then obtain st Trb1 w1 where run: "run_head e Trb w = Some (st, Trb1, w1)"
    and w': "w' = finish_head Trb1 EFI_TIMEOUT w1 \<or> w' = finish_head Trb1 st w1 \<or>
       w' = set_queue (Trb1\<lparr>TrbTimeout := TrbTimeout Trb1 - 1\<rparr> # rest) w1 \<or> w' = set_queue (Trb1 # rest) w1"
    using assms by (auto simp: ProcessAsyncTaskList_def split: if_splits)
  from run_head_frame [OF run] Cons have "signalled (mmcLog w1) = signalled (mmcLog w)" "queue_of w1 = Trb # rest" "TrbEvent Trb1 = TrbEvent Trb"
    by auto
  then show ?thesis using w' Cons by (auto simp: events_def waiting_def finish_head_def Let_def)
qed

lemma abort_fold:
  "queue_of (fold (abort_one st) q w) = queue_of w"
  "signalled (mmcLog (fold (abort_one st) q w)) =
     signalled (mmcLog w) @ concat (map (\<lambda>Trb. case TrbEvent Trb of None \<Rightarrow> [] | Some ev \<Rightarrow> [ev]) q)"
  by (induction q arbitrary: w) (simp_all add: abort_one_def Let_def split: option.splits)

lemma abort_events: "events (abort_queue st w) = events w" "queue_of (abort_queue st w) = []"
  by (simp_all add: events_def abort_queue_def abort_fold waiting_def)

lemma wait_queue_events: "wait_queue e w = Some w' \<Longrightarrow> events w' = events w \<and> queue_of w' = []"
proof (rule wait_queue.raw_induct [where P = "\<lambda>e w w'. events w' = events w \<and> queue_of w' = []", rotated], assumption)
  fix f :: "mmc_env \<Rightarrow> mmc_world \<Rightarrow> mmc_world option" and e w w'
  assume ih: "\<And>e w w'. f e w = Some w' \<Longrightarrow> events w' = events w \<and> queue_of w' = []"
    and body: "(if queue_of w = [] then Some w else Option.bind (ProcessAsyncTaskList e w) (f e)) = Some w'"
  show "events w' = events w \<and> queue_of w' = []"
  proof (cases "queue_of w = []")
    case False
    with body obtain w1 where "ProcessAsyncTaskList e w = Some w1" "f e w1 = Some w'" by (auto simp: bind_eq_Some_conv)
    then show ?thesis using tick_events ih by fastforce
  qed (use body in simp)
qed

lemma log_events: "ext (mmcLog w) l \<Longrightarrow> events (w\<lparr>mmcLog := l\<rparr>) = events w"
  by (simp add: events_def waiting_def ext_signalled)

lemma run_request_events:
  assumes "run_request e S Trb P w = Some (st, P', w')"
  shows "events w' = events w \<and> queue_of w' = []"
proof -
  from assms obtain w1 where w1: "wait_queue e w = Some w1" by (auto simp: run_request_def bind_eq_Some_conv)
  obtain st2 P2 l2 m2 where exec: "DwMmcExecTrb e (CardType S) Trb P (mmcLog w1) (mmcMem w1) = Some (st2, P2, l2, m2)"
    using assms w1 by (auto simp: run_request_def WaitTrbEnv_eq bind_eq_Some_conv)
  have l2: "signalled l2 = signalled (mmcLog w1)" using Exec_signalled [OF exec] .
  obtain l3 m3 where l3: "signalled l3 = signalled (mmcLog w1)" and w': "w' = w1\<lparr>mmcMem := m3, mmcLog := DwMmcFreeTrb Trb l3\<rparr>"
  proof (cases "EFI_ERROR st2")
    case True
    then show thesis using that [OF l2, of m2] assms by (auto simp: run_request_def WaitTrbEnv_eq w1 exec Let_def)
  next
    case False
    with assms obtain st4 l4 where "DwMmcWaitTrbResult e Trb P2 l2 = Some (st4, l4)" and w': "w' = w1\<lparr>mmcMem := m2, mmcLog := DwMmcFreeTrb Trb l4\<rparr>"
      by (auto simp: run_request_def WaitTrbEnv_eq w1 exec Let_def)
    from this(1) have "ext l2 l4" unfolding DwMmcWaitTrbResult_def using wait_result_ext by fastforce
    with l2 have "signalled l4 = signalled (mmcLog w1)" by (simp add: ext_signalled)
    from that [OF this w'] show thesis .
  qed
  have "events w' = events w1" "queue_of w' = queue_of w1" using l3 by (auto simp: w' events_def waiting_def)
  then show ?thesis using wait_queue_events [OF w1] by simp
qed

text \<open>The events a call adds: its own, if it is accepted.\<close>

lemma pass_thru_events:
  assumes "pass_thru e Slot At P Event w = Some (st, P', w')"
  shows "events w' = events w @ (case Event of None \<Rightarrow> [] | Some ev \<Rightarrow> if st = EFI_SUCCESS then [ev] else [])"
    "Event = None \<Longrightarrow> st = EFI_SUCCESS \<Longrightarrow> queue_of w' = []"
proof -
  have "events w' = events w @ (case Event of None \<Rightarrow> [] | Some ev \<Rightarrow> if st = EFI_SUCCESS then [ev] else []) \<and>
      (Event = None \<longrightarrow> st = EFI_SUCCESS \<longrightarrow> queue_of w' = [])"
  proof (cases "\<not> SdMmcCmdBlk P \<or> \<not> SdMmcStatusBlk P \<or> OutDataBuffer P = 0 \<and> OutTransferLength P \<noteq> 0 \<or> InDataBuffer P = 0 \<and> InTransferLength P \<noteq> 0")
    case True
    then show ?thesis using assms by (auto simp: pass_thru_def split: if_splits option.splits)
  next
    case ok: False
    with assms obtain S where S: "slot_at Slot w = Some S" by (auto simp: pass_thru_def bind_eq_Some_conv split: if_splits)
    show ?thesis
    proof (cases "Enable S \<and> MediaPresent S")
      case False
      then show ?thesis using assms ok S by (auto simp: pass_thru_def split: if_splits option.splits)
    next
      case ready: True
      obtain T l m where c: "DwMmcCreateTrb e (CardType S) Slot At P Event (mmcLog w) (mmcMem w) = (T, l, m)" by (metis prod_cases3)
      have "signalled l = signalled (mmcLog w)"
        using ext_signalled [OF CreateTrb_cases(1) [OF c]] by (cases "mmTrbAllocate e (mmcLog w)") simp_all
      then have w1: "events (w\<lparr>mmcLog := l, mmcMem := m\<rparr>) = events w" by (simp add: events_def waiting_def)
      show ?thesis
      proof (cases T)
        case None
        then show ?thesis using assms ok S ready c w1 by (auto simp: pass_thru_def split: if_splits option.splits)
      next
        case (Some Trb)
        have ev: "TrbEvent Trb = Event" using CreateTrb_cases(2) [OF c Some] by simp
        show ?thesis
        proof (cases Event)
          case None
          with assms ok S ready c Some have "run_request e S Trb P (w\<lparr>mmcLog := l, mmcMem := m\<rparr>) = Some (st, P', w')"
            by (simp add: pass_thru_def split: if_splits)
          from run_request_events [OF this] w1 None show ?thesis by simp
        next
          case (Some ev')
          then have "st = EFI_SUCCESS" "w' = set_queue (queue_of w @ [Trb]) (w\<lparr>mmcLog := l, mmcMem := m\<rparr>)"
            using assms ok S ready c \<open>T = Some Trb\<close> by (auto simp: pass_thru_def split: if_splits)
          then show ?thesis using w1 Some ev by (simp add: events_def waiting_def)
        qed
      qed
    qed
  qed
  then show "events w' = events w @ (case Event of None \<Rightarrow> [] | Some ev \<Rightarrow> if st = EFI_SUCCESS then [ev] else [])"
    "Event = None \<Longrightarrow> st = EFI_SUCCESS \<Longrightarrow> queue_of w' = []" by blast+
qed

end
