(* ===== verification/MmcExecCorrect.thy ===== *)
theory MmcExecCorrect
  imports MmcExec MmcHostCorrect
begin

text \<open>
  Sending commands: what the command word says, and how the waits for a command's completion end or do not.
\<close>

section \<open>The command word\<close>

lemma bit_flag: "bit (push_bit k 1 :: u32) n \<longleftrightarrow> k < 32 \<and> n = k"
  by (auto simp: bit_simps)

lemma cmd_bits:
  "bit BIT_CMD_RESPONSE_EXPECT n \<longleftrightarrow> n = 6" "bit BIT_CMD_LONG_RESPONSE n \<longleftrightarrow> n = 7" "bit BIT_CMD_CHECK_RESPONSE_CRC n \<longleftrightarrow> n = 8"
  "bit BIT_CMD_DATA_EXPECTED n \<longleftrightarrow> n = 9" "\<not> bit BIT_CMD_READ n" "bit BIT_CMD_WRITE n \<longleftrightarrow> n = 10" "bit BIT_CMD_SEND_AUTO_STOP n \<longleftrightarrow> n = 12"
  "bit BIT_CMD_WAIT_PRVDATA_COMPLETE n \<longleftrightarrow> n = 13" "bit BIT_CMD_STOP_ABORT_CMD n \<longleftrightarrow> n = 14" "bit BIT_CMD_SEND_INIT n \<longleftrightarrow> n = 15"
  "bit BIT_CMD_USE_HOLD_REG n \<longleftrightarrow> n = 29" "bit BIT_CMD_START n \<longleftrightarrow> n = 31"
  unfolding BIT_CMD_RESPONSE_EXPECT_def BIT_CMD_LONG_RESPONSE_def BIT_CMD_CHECK_RESPONSE_CRC_def BIT_CMD_DATA_EXPECTED_def
    BIT_CMD_READ_def BIT_CMD_WRITE_def BIT_CMD_SEND_AUTO_STOP_def BIT_CMD_WAIT_PRVDATA_COMPLETE_def BIT_CMD_STOP_ABORT_CMD_def
    BIT_CMD_SEND_INIT_def BIT_CMD_USE_HOLD_REG_def BIT_CMD_START_def bit_flag push_bit_of_0
  by simp_all

lemma bit_low_mask: "bit (0x3F :: u32) n \<longleftrightarrow> n < 6"
proof -
  have m: "(0x3F :: u32) = Bit_Operations.mask 6" by (simp add: mask_eq_exp_minus_1)
  show ?thesis unfolding m bit_mask_iff by auto
qed

definition has_data :: "EFI_SD_MMC_PACKET \<Rightarrow> bool" where
  "has_data P \<longleftrightarrow> InTransferLength P \<noteq> 0 \<or> OutTransferLength P \<noteq> 0"

lemma CMD_INDEX_bits: "bit (CMD_INDEX i) n \<longleftrightarrow> n < 6 \<and> bit (of_nat i :: u32) n"
  unfolding CMD_INDEX_def bit_and_iff bit_low_mask by blast

lemma bit_if: "bit (if b then x else y) n \<longleftrightarrow> (if b then bit x n else bit y n)"
  by simp

lemma bit_data_bits:
  "bit (data_bits P) n \<longleftrightarrow> (n = 13 \<or> n = 9) \<and> has_data P \<or> n = 10 \<and> InTransferLength P = 0 \<and> OutTransferLength P \<noteq> 0"
  by (auto simp: data_bits_def has_data_def cmd_bits bit_or_iff)

lemmas word_bits = CMD_INDEX_bits bit_data_bits cmd_bits bit_or_iff bit_and_iff bit_if bit_0_eq bot_apply

lemma sd_command_index: "sd_command P AND 0x3F = of_nat (CommandIndex P) AND 0x3F"
proof -
  have "bit (sd_command P) n \<longleftrightarrow> bit (of_nat (CommandIndex P) :: u32) n" if "n < 6" for n
    using that by (cases "ResponseType P"; simp add: sd_command_def Let_def word_bits)
  then show ?thesis
    by (intro bit_word_eqI) (unfold bit_and_iff bit_low_mask, blast)
qed

text \<open>C27: The word that starts a command of an SD card, bit by bit: the low six bits are the command's index; bit 6 expects a response,
  for every addressed command and otherwise by the type of the response, bit 7 a long one; bit 8 asks for its CRC to be checked, for every
  addressed command and otherwise by the type, where R3 has none; bits 9 and 13 announce data and wait for earlier data, exactly for an
  addressed command with a transfer length; bit 10 makes it a write if there is nothing to read; bit 12 asks every addressed command for an
  automatic stop; bit 14 marks an addressed STOP_TRANSMISSION as an abort; bit 15 sends the initialisation before an addressed
  SET_RELATIVE_ADDR and an unaddressed GO_IDLE_STATE; bits 29 and 31 are always set, and no other bit ever is.\<close>

theorem mmc_sd_command_word:
  "bit (sd_command P) n \<longleftrightarrow>
     n < 6 \<and> bit (of_nat (CommandIndex P) :: u32) n \<or>
     n = 6 \<and> (addressed P \<or> ResponseType P \<in> {SdMmcResponseTypeR1b, SdMmcResponseTypeR2, SdMmcResponseTypeR3, SdMmcResponseTypeR4, SdMmcResponseTypeR6, SdMmcResponseTypeR7}) \<or>
     n = 7 \<and> ResponseType P = SdMmcResponseTypeR2 \<or>
     n = 8 \<and> (addressed P \<or> ResponseType P \<in> {SdMmcResponseTypeR1b, SdMmcResponseTypeR2, SdMmcResponseTypeR4, SdMmcResponseTypeR6, SdMmcResponseTypeR7}) \<or>
     n \<in> {9, 13} \<and> addressed P \<and> has_data P \<or>
     n = 10 \<and> addressed P \<and> InTransferLength P = 0 \<and> OutTransferLength P \<noteq> 0 \<or>
     n = 12 \<and> addressed P \<or>
     n = 14 \<and> addressed P \<and> CommandIndex P = SD_STOP_TRANSMISSION \<or>
     n = 15 \<and> (if addressed P then CommandIndex P = SD_SET_RELATIVE_ADDR else CommandIndex P = SD_GO_IDLE_STATE) \<or>
     n \<in> {29, 31}"
proof (cases "addressed P")
  case True
  then show ?thesis by (cases "ResponseType P"; simp add: sd_command_def Let_def word_bits; blast)
next
  case False
  then show ?thesis by (cases "ResponseType P"; simp add: sd_command_def Let_def word_bits; blast)
qed

section \<open>Waiting for the command\<close>

text \<open>A controller that reports neither the end of the command nor an error in \<open>Errors\<close>.\<close>

definition silent :: "mmc_env \<Rightarrow> u32 \<Rightarrow> bool" where
  "silent e Errors \<longleftrightarrow>
     (\<forall>l. mmRead e l DW_MMC_RINTSTS AND Errors = 0 \<and> mmRead e l DW_MMC_RINTSTS AND DW_MMC_INT_CMD_DONE = 0)"

text \<open>C32: The wait for a command of an eMMC sets its counter in every turn, so it has no timeout: while the controller stays silent, executing
  the command does not return.\<close>

theorem mmc_emmc_command_hangs:
  assumes "silent e emmc_err_mask"
  shows "DwEmmcExecTrb e Packet l = None"
proof -
  have "False" if "emmc_wait e l = Some y" for l y
  proof -
    have "silent e emmc_err_mask \<longrightarrow> False"
      using that
    proof (rule emmc_wait.raw_induct [where P = "\<lambda>e l y. silent e emmc_err_mask \<longrightarrow> False", rotated])
      fix f :: "mmc_env \<Rightarrow> mmc_log \<Rightarrow> (efi_status \<times> mmc_log) option" and e l y
      assume ih: "\<And>e l y. f e l = Some y \<Longrightarrow> silent e emmc_err_mask \<longrightarrow> False"
        and body: "(let Timeout = 10000 - 1 :: nat
           in if Timeout = 0 then Some (EFI_SUCCESS, l)
              else let (IntStatus, l1) = MmioRead32 e DW_MMC_RINTSTS l
                   in if IntStatus AND emmc_err_mask \<noteq> 0 then Some (EFI_DEVICE_ERROR, l1)
                      else let l2 = MicroSecondDelay 10 l1
                           in if IntStatus AND DW_MMC_INT_CMD_DONE \<noteq> 0 then Some (EFI_SUCCESS, l2) else f e l2) = Some y"
      show "silent e emmc_err_mask \<longrightarrow> False"
      proof
        assume silent: "silent e emmc_err_mask"
        then have "f e (l @ [Read32 DW_MMC_RINTSTS, Delay 10]) = Some y" using body by (simp add: silent_def Let_def)
        then show False using ih silent by blast
      qed
    qed
    then show False using assms by blast
  qed
  then have "emmc_wait e l = None" for l by (cases "emmc_wait e l") blast+
  then show ?thesis by (cases "wait_idle e l") (simp_all add: DwEmmcExecTrb_def)
qed

definition ex_packet :: EFI_SD_MMC_PACKET where
  "ex_packet = \<lparr>SdMmcCmdBlk = True, SdMmcStatusBlk = True, CommandIndex = 13, CommandArgument = 0x10000, CommandType = SdMmcCommandTypeAc,
     ResponseType = SdMmcResponseTypeR1, Resp0 = 0, Resp1 = 0, Resp2 = 0, Resp3 = 0, InDataBuffer = 0, OutDataBuffer = 0, InTransferLength = 0,
     OutTransferLength = 0, PacketTimeout = 1000000, TransactionStatus = EFI_SUCCESS\<rparr>"

theorem mmc_emmc_command_hangs_witness: "DwEmmcExecTrb quiet_env ex_packet [] = None"
  by (rule mmc_emmc_command_hangs) (simp add: silent_def quiet_env_def)

abbreviation sd_turn :: mmc_log where
  "sd_turn \<equiv> [Read32 DW_MMC_RINTSTS, Delay 1]"

lemma sd_wait_silent:
  assumes "silent e Errors" "I AND Errors = 0 \<or> 0 < n"
  shows "\<exists>J. sd_wait e (Suc n) I l = (J, l @ turns n sd_turn) \<and> J AND Errors = 0"
  using assms(2)
proof (induction n arbitrary: I l)
  case (Suc n)
  have quiet: "mmRead e l DW_MMC_RINTSTS AND Errors = 0" "mmRead e l DW_MMC_RINTSTS AND DW_MMC_INT_CMD_DONE = 0" for l
    using assms(1) by (simp_all add: silent_def)
  from Suc.IH [of "mmRead e l DW_MMC_RINTSTS" "l @ sd_turn"] show ?case
    using quiet by (subst sd_wait.simps) (simp del: sd_wait.simps)
qed simp

text \<open>C33: A command of an SD card without data (no transfer length, so no buffer in the request), whatever its response type and whether or
  not the request is one for the FIFO, to which the controller never answers and reports no error, ends after 9999 looks as a success, with
  whatever the response registers hold as its response; a command with data is not in question here.\<close>

theorem mmc_sd_timeout_succeeds:
  assumes "silent e (sd_err_mask Packet)" "takes_clock e" "TrbDataLen Trb = 0"
  shows "\<exists>k l1 P l2. l1 = send_command (sd_command Packet) Packet
        (sd_fifo_setup e Trb Packet (l @ turns k [Read32 DW_MMC_STATUS] @ [Write32 DW_MMC_RINTSTS (NOT 0)])) \<and>
    sd_response e Packet (l1 @ turns 9999 sd_turn) = (P, l2) \<and>
    DwSdExecTrb e Trb Packet l m =
      Some (EFI_SUCCESS, if CommandIndex P = SD_SEND_CSD \<or> CommandIndex P = SD_SEND_CID then shift_response P else P, l2, m)"
proof -
  from assms(2) have "settles e [Read32 DW_MMC_STATUS] DW_MMC_STATUS (\<lambda>v. v AND DW_MMC_STS_DATA_BUSY = 0)" by (simp add: takes_clock_def)
  from settlesE [OF this, of l] obtain n where
    "mmRead e (l @ turns n [Read32 DW_MMC_STATUS]) DW_MMC_STATUS AND DW_MMC_STS_DATA_BUSY = 0" .
  from wait_idle_returns [OF this] obtain k where idle: "wait_idle e l = Some (l @ turns k [Read32 DW_MMC_STATUS])" by blast
  define l1 where "l1 = send_command (sd_command Packet) Packet
      (sd_fifo_setup e Trb Packet (l @ turns k [Read32 DW_MMC_STATUS] @ [Write32 DW_MMC_RINTSTS (NOT 0)]))"
  from sd_wait_silent [OF assms(1), of "NOT 0" 9999 l1] obtain J where
    wait: "sd_wait e 10000 (NOT 0) l1 = (J, l1 @ turns 9999 sd_turn)" and J: "J AND sd_err_mask Packet = 0"
    by (auto simp del: sd_wait.simps)
  have sizes: "sd_fifo_setup e (Trb\<lparr>UseBE := True\<rparr>) Packet = sd_fifo_setup e Trb Packet"
    by (simp add: fun_eq_iff sd_fifo_setup_def)
  obtain P l2 where resp: "sd_response e Packet (l1 @ turns 9999 sd_turn) = (P, l2)" by force
  have "DwSdExecTrb e Trb Packet l m =
      Some (EFI_SUCCESS, if CommandIndex P = SD_SEND_CSD \<or> CommandIndex P = SD_SEND_CID then shift_response P else P, l2, m)"
    using assms(3) idle wait [unfolded l1_def] J resp unfolding l1_def
    by (simp add: DwSdExecTrb_def sd_data_def sizes)
  then show ?thesis using l1_def resp by blast
qed

text \<open>SEND_IF_COND, a request for the FIFO as every request of an SD card but for the tuning block, with no card that answers.\<close>

definition if_cond_packet :: EFI_SD_MMC_PACKET where
  "if_cond_packet = ex_packet\<lparr>CommandIndex := 8, CommandArgument := 0x1AA, CommandType := SdMmcCommandTypeBcr, ResponseType := SdMmcResponseTypeR7\<rparr>"

definition no_data_trb :: DW_MMC_HC_TRB where
  "no_data_trb = \<lparr>TrbBlock = 0x4000, TrbSlot = 0, TrbPacket = 0, TrbData = 0, TrbDataLen = 0, TrbRead = False, DataPhy = 0,
     DataMap = None, TrbEvent = None, Started = False, TrbTimeout = 0, DmaDesc = 0, DmaDescPhy = 0, DmaMap = None, UseFifo = True, UseBE = False\<rparr>"

theorem mmc_sd_timeout_succeeds_witness:
  "UseFifo no_data_trb \<and> (\<exists>l2. DwSdExecTrb quiet_env no_data_trb if_cond_packet [] (\<lambda>_. 0) = Some (EFI_SUCCESS, if_cond_packet, l2, \<lambda>_. 0))"
proof -
  have "silent quiet_env (sd_err_mask if_cond_packet)" "takes_clock quiet_env" "TrbDataLen no_data_trb = 0" "UseFifo no_data_trb"
    by (simp_all add: silent_def quiet_env_def takes_clock_def settles_def no_data_trb_def)
  moreover from mmc_sd_timeout_succeeds [OF this(1-3), of "[]" "\<lambda>_. 0"] obtain l1 P l2 where
    r: "sd_response quiet_env if_cond_packet l1 = (P, l2)"
    and "DwSdExecTrb quiet_env no_data_trb if_cond_packet [] (\<lambda>_. 0) =
      Some (EFI_SUCCESS, if CommandIndex P = SD_SEND_CSD \<or> CommandIndex P = SD_SEND_CID then shift_response P else P, l2, \<lambda>_. 0)" by blast
  moreover from r have "P = if_cond_packet"
    by (auto simp: sd_response_def read_resp0_def quiet_env_def if_cond_packet_def ex_packet_def)
  ultimately show ?thesis by (simp add: if_cond_packet_def)
qed

end
