(* ===== verification/MmcCommands.thy ===== *)
theory MmcCommands
  imports MmcQueueCorrect MmcExecCorrect
begin

text \<open>
  The indices of the commands the controller is told to send, read off the log: what a blocking call of the
  pass-thru protocol adds, and that the other operations of the host controller add none.
\<close>

fun command_of :: "mmc_call \<Rightarrow> nat list" where
  "command_of (Write32 r v) = (if r = DW_MMC_CMD \<and> \<not> bit v 21 then [unat (v AND 0x3F)] else [])"
| "command_of _ = []"

definition commands :: "mmc_log \<Rightarrow> nat list" where
  "commands l = concat (map command_of l)"

lemma commands_simps [simp]:
  "commands [] = []" "commands (c # l) = command_of c @ commands l" "commands (l @ l') = commands l @ commands l'"
  by (simp_all add: commands_def)

section \<open>The two command words\<close>

lemma index_mask: "unat (of_nat n AND 0x3F :: u32) = n mod 64"
proof -
  have m: "(0x3F :: u32) = Bit_Operations.mask 6" by (simp add: mask_eq_exp_minus_1)
  have "take_bit 6 (n mod 2 ^ 32) = n mod 64" by (simp add: take_bit_eq_mod mod_mod_cancel)
  then show ?thesis unfolding m take_bit_eq_mask [symmetric] unsigned_take_bit_eq unat_of_nat by simp
qed

lemma sd_command_sent: "command_of (Write32 DW_MMC_CMD (sd_command P)) = [CommandIndex P mod 64]"
proof -
  have "\<not> bit (sd_command P) 21"
    by (cases "ResponseType P"; simp add: sd_command_def Let_def word_bits)
  then show ?thesis by (simp add: sd_command_index index_mask)
qed

lemma emmc_command_sent: "command_of (Write32 DW_MMC_CMD (emmc_command P)) = [CommandIndex P mod 64]"
proof -
  have "\<not> bit (emmc_command P) 21"
    by (cases "ResponseType P"; simp add: emmc_command_def Let_def word_bits)
  moreover have "bit (emmc_command P) n \<longleftrightarrow> bit (of_nat (CommandIndex P) :: u32) n" if "n < 6" for n
    using that by (cases "ResponseType P"; simp add: emmc_command_def Let_def word_bits)
  then have "emmc_command P AND 0x3F = of_nat (CommandIndex P) AND 0x3F"
    by (intro bit_word_eqI) (unfold bit_and_iff bit_low_mask, blast)
  ultimately show ?thesis by (simp add: index_mask)
qed

section \<open>What is sent\<close>

lemma quiet_commands: "list_all quiet_call cs \<Longrightarrow> commands cs = []"
proof (induction cs)
  case (Cons c cs)
  then show ?case by (cases c rule: quiet_call.cases) auto
qed simp

lemma ext_commands: "ext l l' \<Longrightarrow> commands l' = commands l"
  by (auto simp: ext_def quiet_commands)

lemma sends_commands: "sends v l l' \<Longrightarrow> commands l' = commands l @ command_of (Write32 DW_MMC_CMD v)"
  unfolding sends_def by (auto dest!: ext_commands simp del: command_of.simps)

lemma FreeTrb_commands [simp]: "commands (DwMmcFreeTrb Trb l) = commands l"
  by (auto simp: DwMmcFreeTrb_def split: option.splits)

definition card_known :: "SD_MMC_CARD_TYPE \<Rightarrow> bool" where
  "card_known C \<longleftrightarrow> C = SdCardType \<or> C = EmmcCardType"

lemma Exec_commands:
  assumes "DwMmcExecTrb e C Trb P l m = Some (st, P', l', m')" "card_known C"
  shows "commands l' = commands l @ [CommandIndex P mod 64]"
  using Exec_sends [OF assms(1)] assms(2)
  by (auto simp: card_known_def words_for_def sends_commands sd_command_sent emmc_command_sent simp del: command_of.simps)

lemma CreateTrb_commands:
  assumes "DwMmcCreateTrb e C Slot At P Event l m = (T, l', m')"
  shows "commands l' = commands l"
  using ext_commands [OF CreateTrb_cases(1) [OF assms]] by simp

lemma run_request_sent:
  assumes "run_request e S Trb P w = Some (st, P', w')" "queue_of w = []" "card_known (CardType S)"
  shows "mmcDev w' = mmcDev w \<and> commands (mmcLog w') = commands (mmcLog w) @ [CommandIndex P mod 64]"
proof -
  have w1: "wait_queue e w = Some w" using assms(2) by (subst wait_queue.simps) simp
  obtain st2 P2 l2 m2 where exec: "DwMmcExecTrb e (CardType S) Trb P (mmcLog w) (mmcMem w) = Some (st2, P2, l2, m2)"
    using assms(1) by (auto simp: run_request_def w1 WaitTrbEnv_eq bind_eq_Some_conv)
  have l2: "commands l2 = commands (mmcLog w) @ [CommandIndex P mod 64]" using Exec_commands [OF exec assms(3)] .
  show ?thesis
  proof (cases "EFI_ERROR st2")
    case True
    then show ?thesis using assms(1) l2 by (auto simp: run_request_def WaitTrbEnv_eq w1 exec Let_def)
  next
    case False
    with assms(1) obtain st4 l4 where wait: "DwMmcWaitTrbResult e Trb P2 l2 = Some (st4, l4)"
      and w': "w' = w\<lparr>mmcMem := m2, mmcLog := DwMmcFreeTrb Trb l4\<rparr>"
      by (auto simp: run_request_def WaitTrbEnv_eq w1 exec Let_def)
    from wait have "ext l2 l4" unfolding DwMmcWaitTrbResult_def using wait_result_ext by fastforce
    then show ?thesis using l2 w' by (simp add: ext_commands)
  qed
qed

lemma pass_thru_sent:
  assumes "pass_thru e Slot At P None w = Some (st, P', w')" "queue_of w = []"
    and "\<And>S. slot_at Slot w = Some S \<Longrightarrow> card_known (CardType S)"
  shows "mmcDev w' = mmcDev w \<and>
    (commands (mmcLog w') = commands (mmcLog w) @ [CommandIndex P mod 64] \<or> EFI_ERROR st \<and> commands (mmcLog w') = commands (mmcLog w))"
proof (cases "\<not> SdMmcCmdBlk P \<or> \<not> SdMmcStatusBlk P \<or> OutDataBuffer P = 0 \<and> OutTransferLength P \<noteq> 0 \<or> InDataBuffer P = 0 \<and> InTransferLength P \<noteq> 0")
  case True
  then show ?thesis using assms(1) by (auto simp: pass_thru_def EFI_ERROR_iff split: if_splits)
next
  case ok: False
  with assms(1) obtain S where S: "slot_at Slot w = Some S" by (auto simp: pass_thru_def bind_eq_Some_conv split: if_splits)
  show ?thesis
  proof (cases "Enable S \<and> MediaPresent S")
    case False
    then show ?thesis using assms(1) ok S by (auto simp: pass_thru_def EFI_ERROR_iff split: if_splits)
  next
    case ready: True
    obtain T l m where c: "DwMmcCreateTrb e (CardType S) Slot At P None (mmcLog w) (mmcMem w) = (T, l, m)" by (metis prod_cases3)
    note l = CreateTrb_commands [OF c]
    show ?thesis
    proof (cases T)
      case None
      then show ?thesis using assms(1) ok S ready c l by (auto simp: pass_thru_def EFI_ERROR_iff split: if_splits)
    next
      case (Some Trb)
      then have "run_request e S Trb P (w\<lparr>mmcLog := l, mmcMem := m\<rparr>) = Some (st, P', w')"
        using assms(1) ok S ready c by (simp add: pass_thru_def split: if_splits)
      from run_request_sent [OF this] assms(2,3) S l show ?thesis by simp
    qed
  qed
qed

end
