(* ===== verification/CardIdentifyCorrect.thy ===== *)
theory CardIdentifyCorrect
  imports CardBus CardIdentify MmcCommands
begin

text \<open>
  What identification sends.  The contract of the protocol under the card commands is extended by the
  operations on the host controller, the identification procedures are followed once over that contract,
  and it is met twice by the driver: for the events of the requests in the queue, and for the commands the
  controller is told to send.
\<close>

section \<open>Operations on the host controller\<close>

definition calm :: "mmc_call \<Rightarrow> bool" where
  "calm c \<longleftrightarrow> command_of c = [] \<and> signal_of c = [] \<and> block_count c = 0"

definition calm_ext :: "mmc_log \<Rightarrow> mmc_log \<Rightarrow> bool" where
  "calm_ext l l' \<longleftrightarrow> (\<exists>cs. l' = l @ cs \<and> list_all calm cs)"

lemma calm_simps [simp]:
  "calm (Read32 r)" "calm (Delay n)" "calm (Write32 r v) \<longleftrightarrow> r \<noteq> DW_MMC_CMD \<or> bit v 21" "calm PassThruReinstalled" "calm (Binding b)"
  by (auto simp: calm_def)

lemma clock_command_calm [simp]: "bit clock_command 21"
  unfolding clock_command_def BIT_CMD_WAIT_PRVDATA_COMPLETE_def BIT_CMD_UPDATE_CLOCK_ONLY_def BIT_CMD_START_def bit_or_iff bit_flag by simp

lemma calm_ext_refl [simp, intro]: "calm_ext l l"
  by (simp add: calm_ext_def)

lemma calm_ext_trans: "calm_ext l l' \<Longrightarrow> calm_ext l' l'' \<Longrightarrow> calm_ext l l''"
  by (auto simp: calm_ext_def)

lemma calm_ext_append [simp]: "calm_ext l (l @ cs) \<longleftrightarrow> list_all calm cs"
  by (auto simp: calm_ext_def)

lemma calm_ext_more [intro]: "calm_ext l l' \<Longrightarrow> list_all calm cs \<Longrightarrow> calm_ext l (l' @ cs)"
  by (auto simp: calm_ext_def)

lemma calm_ext_less: "calm_ext (l @ cs) l' \<Longrightarrow> list_all calm cs \<Longrightarrow> calm_ext l l'"
  by (auto simp: calm_ext_def)

lemma calm_calls: "list_all calm cs \<Longrightarrow> commands cs = [] \<and> signalled cs = [] \<and> pool_held cs = 0"
  by (induction cs) (auto simp: calm_def)

lemma update_clock_calm: "update_clock_loop e l = Some y \<Longrightarrow> calm_ext l (snd y)"
proof (rule update_clock_loop.raw_induct [where P = "\<lambda>e l y. calm_ext l (snd y)", rotated], assumption)
  fix f :: "mmc_env \<Rightarrow> mmc_log \<Rightarrow> (efi_status \<times> mmc_log) option" and e l y
  assume ih: "\<And>e l y. f e l = Some y \<Longrightarrow> calm_ext l (snd y)"
    and body: "(let (Cmd, l1) = MmioRead32 e DW_MMC_CMD l
      in if Cmd AND CMD_START_BIT = 0 then Some (EFI_SUCCESS, l1)
         else let (IntStatus, l2) = MmioRead32 e DW_MMC_RINTSTS l1
              in if IntStatus AND DW_MMC_INT_HLE \<noteq> 0 then Some (EFI_DEVICE_ERROR, l2) else f e l2) = Some y"
  from body show "calm_ext l (snd y)" by (auto split: if_splits intro: calm_ext_less [OF ih])
qed

lemma UpdateClock_calm: "DwMmcHcUpdateClock e l = Some y \<Longrightarrow> calm_ext l (snd y)"
  unfolding DwMmcHcUpdateClock_def by (rule calm_ext_less [where cs = "[Write32 DW_MMC_CMD clock_command]"]) (auto dest: update_clock_calm)

lemma StopClock_calm: "DwMmcHcStopClock e l = Some y \<Longrightarrow> calm_ext l (snd y)"
  unfolding DwMmcHcStopClock_def by (rule calm_ext_less [where cs = "[Write32 DW_MMC_CLKENA 0]"]) (auto dest: UpdateClock_calm)

lemma wait_idle_calm: "wait_idle e l = Some l' \<Longrightarrow> calm_ext l l'"
proof (rule wait_idle.raw_induct [where P = "\<lambda>e l l'. calm_ext l l'", rotated], assumption)
  fix f :: "mmc_env \<Rightarrow> mmc_log \<Rightarrow> mmc_log option" and e l l'
  assume ih: "\<And>e l l'. f e l = Some l' \<Longrightarrow> calm_ext l l'"
    and body: "(let (MmcStatus, l1) = MmioRead32 e DW_MMC_STATUS l
      in if MmcStatus AND DW_MMC_STS_DATA_BUSY \<noteq> 0 then f e l1 else Some l1) = Some l'"
  from body show "calm_ext l l'" by (auto split: if_splits intro: calm_ext_less [OF ih])
qed

lemma stop_clock_calm: "stop_clock_loop e l = Some l' \<Longrightarrow> calm_ext l l'"
proof (rule stop_clock_loop.raw_induct [where P = "\<lambda>e l l'. calm_ext l l'", rotated], assumption)
  fix f :: "mmc_env \<Rightarrow> mmc_log \<Rightarrow> mmc_log option" and e l l'
  assume ih: "\<And>e l l'. f e l = Some l' \<Longrightarrow> calm_ext l l'"
    and body: "Option.bind (DwMmcHcStopClock e l) (\<lambda>(Status, l1). if EFI_ERROR Status then f e l1 else Some l1) = Some l'"
  from body show "calm_ext l l'"
    by (auto simp: bind_eq_Some_conv split: if_splits dest!: StopClock_calm ih intro: calm_ext_trans)
qed

lemma set_clock_calm: "list_all calm cs \<Longrightarrow> calm_ext l (set_clock D (l @ cs))" "calm_ext l (set_clock D l)"
  by (simp_all add: set_clock_def)

lemma start_clock_calm: "start_clock_loop e D l = Some l' \<Longrightarrow> calm_ext l l'"
proof (rule start_clock_loop.raw_induct [where P = "\<lambda>e D l l'. calm_ext l l'", rotated], assumption)
  fix f :: "mmc_env \<Rightarrow> nat \<Rightarrow> mmc_log \<Rightarrow> mmc_log option" and e D l l'
  assume ih: "\<And>e D l l'. f e D l = Some l' \<Longrightarrow> calm_ext l l'"
    and body: "Option.bind (DwMmcHcUpdateClock e (set_clock D l)) (\<lambda>(Status, l1). if EFI_ERROR Status then f e D l1 else Some l1) = Some l'"
  from body show "calm_ext l l'" using set_clock_calm(2) [of l D]
    by (auto simp: bind_eq_Some_conv split: if_splits dest!: UpdateClock_calm ih intro: calm_ext_trans)
qed

lemma ClockSupply_calm: "DwMmcHcClockSupply e F C l = Some y \<Longrightarrow> calm_ext l (snd y)"
  by (auto simp: DwMmcHcClockSupply_def Let_def bind_eq_Some_conv split: if_splits
      dest!: wait_idle_calm stop_clock_calm start_clock_calm intro: calm_ext_trans)

lemma SetBusWidth_calm: "calm_ext l (snd (DwMmcHcSetBusWidth e D B l))"
  by (auto simp: DwMmcHcSetBusWidth_def split: option.splits)

lemma InitClockFreq_calm: "DwMmcHcInitClockFreq e C l = Some y \<Longrightarrow> calm_ext l (snd y)"
  by (auto simp: DwMmcHcInitClockFreq_def split: if_splits dest!: ClockSupply_calm intro!: calm_ext_more)

lemma wait_reset_calm: "calm_ext l (snd (wait_reset_loop e n l))"
proof (induction n arbitrary: l)
  case (Suc n)
  have "calm_ext l (snd (wait_reset_loop e n (l @ [Read32 DW_MMC_CTRL, Delay 1])))"
    using Suc by (rule calm_ext_less) simp
  then show ?case by auto
qed simp

lemma InitHost_calm: "calm_ext l (snd (DwMmcHcInitHost e l))"
proof -
  have "calm_ext l (snd (DwMmcHcWaitReset e DW_MMC_CTRL_RESET_ALL (l @ [Write32 DW_MMC_PWREN 1])))"
    unfolding DwMmcHcWaitReset_def MmioWrite32_simps
    by (rule calm_ext_less [where cs = "[Write32 DW_MMC_PWREN 1, Write32 DW_MMC_CTRL DW_MMC_CTRL_RESET_ALL]"])
      (auto intro: wait_reset_calm)
  then show ?thesis unfolding DwMmcHcInitHost_def DwMmcHcInitPowerVoltage_def by (auto split: prod.splits)
qed

lemma Reset_calm: "DwMmcHcReset e C l = Some y \<Longrightarrow> calm_ext l (snd y)"
proof -
  assume r: "DwMmcHcReset e C l = Some y"
  define l2 where "l2 = MmioWrite32 DW_MMC_BLKSIZ (of_nat DW_MMC_BLOCK_SIZE) (snd (DwMmcHcInitTimeoutCtrl (snd (DwMmcHcEnableInterrupt l))))"
  have l2: "calm_ext l l2" by (simp add: l2_def DwMmcHcInitTimeoutCtrl_def DwMmcHcEnableInterrupt_def)
  from r obtain st l3 where "DwMmcHcInitClockFreq e C l2 = Some (st, l3)" and y: "snd y = l3 \<or> snd y = snd (DwMmcHcSetBusWidth e False 1 l3)"
    by (auto simp: DwMmcHcReset_def DwMmcHcEnableInterrupt_def DwMmcHcInitTimeoutCtrl_def l2_def split: if_splits)
  from InitClockFreq_calm [OF this(1)] l2 have "calm_ext l l3" by (auto intro: calm_ext_trans)
  then show ?thesis using y SetBusWidth_calm [of l3 e False 1] by (auto intro: calm_ext_trans)
qed

text \<open>A change of the world that is none of the requests' and keeps the type of the card one of the two.\<close>

definition card_ready :: "mmc_world \<Rightarrow> bool" where
  "card_ready w \<longleftrightarrow> (\<forall>S. slot_at 0 w = Some S \<longrightarrow> card_known (CardType S))"

definition host_step :: "mmc_world \<Rightarrow> mmc_world \<Rightarrow> bool" where
  "host_step w w' \<longleftrightarrow>
     calm_ext (mmcLog w) (mmcLog w') \<and> queue_of w' = queue_of w \<and> length (MmcSlots (mmcDev w')) = length (MmcSlots (mmcDev w)) \<and>
     PreviousSlot (mmcDev w') = PreviousSlot (mmcDev w) \<and> (card_ready w \<longrightarrow> card_ready w')"

lemma on_host_step:
  assumes "on_host f w = Some (st, w')" and "\<And>y. f (mmcLog w) = Some y \<Longrightarrow> calm_ext (mmcLog w) (snd y)"
  shows "host_step w w'"
  using assms by (auto simp: on_host_def host_step_def card_ready_def slot_at_def)

lemma stall_step: "host_step w (stall n w)"
  by (simp add: host_step_def stall_def card_ready_def slot_at_def)

lemma set_slot_step:
  assumes "\<And>S. card_known (CardType S) \<Longrightarrow> card_known (CardType (f S))"
  shows "host_step w (set_slot f w)"
  using assms by (cases "MmcSlots (mmcDev w)") (auto simp: host_step_def set_slot_def card_ready_def slot_at_def)

section \<open>The procedures over the contract\<close>

definition polls :: "nat list \<Rightarrow> nat list set" where
  "polls c = conc {c} (iter {c})"

lemma polls_simps: "polls c \<noteq> {}" "conc {c} (polls c) \<subseteq> polls c" "c \<in> polls c"
proof -
  have "c @ [] \<in> polls c" unfolding polls_def by (intro concI) (auto intro: iter.intros)
  then show "polls c \<noteq> {}" "c \<in> polls c" by auto
  show "conc {c} (polls c) \<subseteq> polls c" by (auto simp: polls_def conc_def intro: iter.intros)
qed

lemma polls_eq: "cs \<in> polls c \<longleftrightarrow> (\<exists>n. cs = concat (replicate (Suc n) c))"
  by (auto simp: polls_def conc_def iter_power)

lemma polls_one: "cs \<in> polls [x] \<longleftrightarrow> (\<exists>n. cs = replicate (Suc n) x)"
proof -
  have "concat (replicate n [x]) = replicate n x" for n by (induction n) simp_all
  then show ?thesis by (simp add: polls_eq del: replicate_Suc)
qed

lemma conc_nonempty [simp]: "conc A B = {} \<longleftrightarrow> A = {} \<or> B = {}"
  by (auto simp: conc_def)

definition clock_width :: "nat list set" where
  "clock_width = conc {[6]} (polls [13])"

definition emmc_speed :: "nat list set" where
  "emmc_speed = {[]} \<union> conc {[6, 13]} clock_width"

definition emmc_mode :: "nat list set" where
  "emmc_mode = conc {[9]} (conc {[7]} (conc (polls [13]) (conc clock_width (conc {[8]} emmc_speed))))"

definition ones :: "nat \<Rightarrow> nat list set" where
  "ones n = {replicate k 1 |k. 0 < k \<and> k \<le> n}"

definition emmc_identification :: "nat list set" where
  "emmc_identification = conc {[0]} (conc (ones 100) (conc {[2]} (conc {[3]} (conc emmc_mode (polls [13])))))"

definition sd_mode :: "bool \<Rightarrow> nat list set" where
  "sd_mode v1 = {[55, 6, 13] @ (if v1 then [] else [6, 6])}"

definition sd_identification :: "nat list set" where
  "sd_identification = conc {[0]} (\<Union>(c, v1) \<in> {([], True), ([8], True), ([8], False)}.
     conc {c} (conc {[55, 41]} (conc (polls [55, 41]) (conc {[2]} (conc {[3]} (conc {[9]} (conc {[7]} (conc {[55, 51]} (sd_mode v1)))))))))"

lemma languages_nonempty [simp]:
  "polls c \<noteq> {}" "clock_width \<noteq> {}" "emmc_speed \<noteq> {}" "emmc_mode \<noteq> {}" "0 < n \<Longrightarrow> ones n \<noteq> {}" "sd_mode v1 \<noteq> {}"
  by (auto simp: polls_simps clock_width_def emmc_speed_def emmc_mode_def ones_def sd_mode_def conc_nonempty)

locale card_host = card_bus "send_packet E" Sent for E :: ident_env and Sent :: "nat list \<Rightarrow> mmc_world \<Rightarrow> mmc_world \<Rightarrow> bool" +
  assumes host_Sent: "host_step w w' \<Longrightarrow> Sent [] w w'"
begin

lemma host_runs: "host_step w w' \<Longrightarrow> runs Sent {[]} st w w'"
  unfolding runs_def using host_Sent by auto

lemma after_host:
  assumes "host_step w w1" "runs Sent A st w1 w'"
  shows "runs Sent A st w w'"
  using runs_seq [OF host_runs [OF assms(1)] assms(2)] by simp

lemma and_then_runs:
  assumes "and_then r go = Some (st, w')"
    and "\<And>st1 w1. r = Some (st1, w1) \<Longrightarrow> runs Sent A st1 w w1"
    and "\<And>w1. go w1 = Some (st, w') \<Longrightarrow> runs Sent B st w1 w'"
    and "B \<noteq> {}"
  shows "runs Sent (conc A B) st w w'"
proof -
  from assms(1) obtain st1 w1 where r: "r = Some (st1, w1)"
    and go: "if EFI_ERROR st1 then st = st1 \<and> w' = w1 else go w1 = Some (st, w')"
    by (auto simp: and_then_def bind_eq_Some_conv split: if_splits)
  from go assms(2) [OF r] assms(3,4) show ?thesis
    by (cases "EFI_ERROR st1") (auto intro: runs_fail runs_seq dest!: not_EFI_ERRORD)
qed

lemma and_get_runs:
  assumes "and_get r go = Some (st, w')"
    and "\<And>st1 x w1. r = Some (st1, x, w1) \<Longrightarrow> runs Sent A st1 w w1"
    and "\<And>x w1. go x w1 = Some (st, w') \<Longrightarrow> runs Sent B st w1 w'"
    and "B \<noteq> {}"
  shows "runs Sent (conc A B) st w w'"
proof -
  from assms(1) obtain st1 x w1 where r: "r = Some (st1, x, w1)"
    and go: "if EFI_ERROR st1 then st = st1 \<and> w' = w1 else go x w1 = Some (st, w')"
    by (auto simp: and_get_def bind_eq_Some_conv split: if_splits)
  from go assms(2) [OF r] assms(3,4) show ?thesis
    by (cases "EFI_ERROR st1") (auto intro: runs_fail runs_seq dest!: not_EFI_ERRORD)
qed

lemma as_device_error_runs:
  assumes "as_device_error r = Some (st, x, w')" "\<And>st1. r = Some (st1, x, w') \<Longrightarrow> runs Sent A st1 w w'"
  shows "runs Sent A st w w'"
proof -
  from assms(1) obtain st1 where "r = Some (st1, x, w')" and st: "st = (if EFI_ERROR st1 then EFI_DEVICE_ERROR else st1)"
    by (auto simp: as_device_error_def)
  from assms(2) [OF this(1)] st show ?thesis by (auto simp: runs_def EFI_ERROR_iff split: if_splits)
qed

lemma SetBusWidth_host: "on_host (\<lambda>l. Some (DwMmcHcSetBusWidth e D B l)) w = Some (st, w') \<Longrightarrow> runs Sent {[]} st w w'"
  by (rule host_runs [OF on_host_step]) (auto, metis SetBusWidth_calm snd_conv)

lemma ClockSupply_host: "on_host (DwMmcHcClockSupply e F C) w = Some (st, w') \<Longrightarrow> runs Sent {[]} st w w'"
  by (rule host_runs [OF on_host_step]) (auto dest: ClockSupply_calm)

lemmas command_runs = sd_commands(1-6) emmc_commands(2-8) csd_commands app_commands SetBusWidth_host ClockSupply_host
lemmas seq_runs = and_then_runs and_get_runs

lemma sd_status_runs: "SdCardSendStatus (send_packet E) Rca D w = Some (st, x, w') \<Longrightarrow> runs Sent {[13]} st w w'"
  by (rule sd_commands)

lemma SdSwitchBusWidth_runs: "SdCardSwitchBusWidth E Rca D B w = Some (st, w') \<Longrightarrow> runs Sent {[55, 6, 13]} st w w'"
proof -
  assume "SdCardSwitchBusWidth E Rca D B w = Some (st, w')"
  then have "runs Sent (conc {[55, 6]} (conc {[13]} {[]})) st w w'"
    unfolding SdCardSwitchBusWidth_def
    by - (erule seq_runs app_commands sd_status_runs SetBusWidth_host | auto split: if_splits dest: SetBusWidth_host)+
  then show ?thesis by simp
qed

lemma EmmcSwitchClockFreq_runs: "EmmcSwitchClockFreq E Rca H F w = Some (st, w') \<Longrightarrow> runs Sent {[6, 13]} st w w'"
proof -
  assume "EmmcSwitchClockFreq E Rca H F w = Some (st, w')"
  then have "runs Sent (conc {[6]} (conc {[13]} {[]})) st w w'"
    unfolding EmmcSwitchClockFreq_def
    by - (erule seq_runs emmc_commands | auto split: if_splits dest: ClockSupply_host)+
  then show ?thesis by simp
qed

lemma polls_again: "runs Sent {c} EFI_SUCCESS w w1 \<Longrightarrow> runs Sent (polls c) st w1 w' \<Longrightarrow> runs Sent (polls c) st w w'"
  by (rule runs_mono [OF runs_seq polls_simps(2)])

lemma polls_once: "runs Sent {c} st w w' \<Longrightarrow> runs Sent (polls c) st w w'"
  using polls_simps(3) by (auto intro: runs_mono)

lemma emmc_poll_runs: "emmc_poll E Rca Busy w = Some (st, w') \<Longrightarrow> runs Sent (polls [13]) st w w'"
proof -
  assume "emmc_poll E Rca Busy w = Some (st, w')"
  then have "E = E \<longrightarrow> runs Sent (polls [13]) (fst (st, w')) w (snd (st, w'))"
  proof (rule emmc_poll.raw_induct [where P = "\<lambda>E' Rca Busy w y. E' = E \<longrightarrow> runs Sent (polls [13]) (fst y) w (snd y)", rotated])
    fix f :: "ident_env \<Rightarrow> u16 \<Rightarrow> (u32 \<Rightarrow> bool) \<Rightarrow> mmc_world \<Rightarrow> mmc_result" and E' Rca Busy w y
    assume ih: "\<And>E' Rca Busy w y. f E' Rca Busy w = Some y \<Longrightarrow> E' = E \<longrightarrow> runs Sent (polls [13]) (fst y) w (snd y)"
      and body: "Option.bind (EmmcSendStatus (send_packet E') Rca 0 w) (\<lambda>(Status, DevStatus, w1).
       if EFI_ERROR Status then Some (Status, w1)
       else if Busy DevStatus then f E' Rca Busy w1 else Some (EFI_SUCCESS, w1)) = Some y"
    show "E' = E \<longrightarrow> runs Sent (polls [13]) (fst y) w (snd y)"
    proof
      assume E': "E' = E"
      from body obtain st1 D w1 where s: "EmmcSendStatus (send_packet E) Rca 0 w = Some (st1, D, w1)"
        and y: "y = (st1, w1) \<or> st1 = EFI_SUCCESS \<and> f E Rca Busy w1 = Some y"
        by (auto simp: bind_eq_Some_conv E' split: if_splits dest!: not_EFI_ERRORD)
      from emmc_commands(8) [OF s] y ih show "runs Sent (polls [13]) (fst y) w (snd y)"
        by (auto intro: polls_once polls_again)
    qed
  qed
  then show ?thesis by simp
qed

lemma sd_ready_runs: "sd_ready_loop E S X Ocr w = Some (st, x, w') \<Longrightarrow> runs Sent (polls [55, 41]) st w w'"
proof -
  assume "sd_ready_loop E S X Ocr w = Some (st, x, w')"
  then have "E = E \<longrightarrow> runs Sent (polls [55, 41]) (fst (st, x, w')) w (snd (snd (st, x, w')))"
  proof (rule sd_ready_loop.raw_induct [where P = "\<lambda>E' S X Ocr w y. E' = E \<longrightarrow> runs Sent (polls [55, 41]) (fst y) w (snd (snd y))", rotated])
    fix f :: "ident_env \<Rightarrow> bool \<Rightarrow> bool \<Rightarrow> u32 \<Rightarrow> mmc_world \<Rightarrow> (efi_status \<times> u32 \<times> mmc_world) option" and E' S X Ocr w y
    assume ih: "\<And>E' S X Ocr w y. f E' S X Ocr w = Some y \<Longrightarrow> E' = E \<longrightarrow> runs Sent (polls [55, 41]) (fst y) w (snd (snd y))"
      and body: "Option.bind (as_device_error (SdCardSendOpCond (send_packet E') 0 Ocr S X True Ocr w)) (\<lambda>(Status, Ocr1, w1).
       if EFI_ERROR Status then Some (Status, Ocr1, w1)
       else if Ocr1 AND push_bit 31 1 = 0 then f E' S X Ocr1 w1 else Some (EFI_SUCCESS, Ocr1, w1)) = Some y"
    show "E' = E \<longrightarrow> runs Sent (polls [55, 41]) (fst y) w (snd (snd y))"
    proof
      assume E': "E' = E"
      from body obtain st1 O1 w1 where s: "as_device_error (SdCardSendOpCond (send_packet E) 0 Ocr S X True Ocr w) = Some (st1, O1, w1)"
        and y: "y = (st1, O1, w1) \<or> st1 = EFI_SUCCESS \<and> f E S X O1 w1 = Some y"
        unfolding E' bind_eq_Some_conv by (auto simp del: push_bit_of_1 split: if_splits dest!: not_EFI_ERRORD)
      have "runs Sent {[55, 41]} st1 w w1" using s by (rule as_device_error_runs) (rule app_commands)
      then show "runs Sent (polls [55, 41]) (fst y) w (snd (snd y))"
        using y ih [of E S X O1 w1 y] by (auto intro: polls_once polls_again)
    qed
  qed
  then show ?thesis by simp
qed

lemma EmmcSwitchBusWidth_runs: "EmmcSwitchBusWidth E Rca D B w = Some (st, w') \<Longrightarrow> runs Sent clock_width st w w'"
proof (cases "emmc_width_value D B")
  case None
  then show "EmmcSwitchBusWidth E Rca D B w = Some (st, w') \<Longrightarrow> runs Sent clock_width st w w'"
    by (auto simp: EmmcSwitchBusWidth_def EFI_ERROR_iff intro: runs_start)
next
  case (Some V)
  assume "EmmcSwitchBusWidth E Rca D B w = Some (st, w')"
  then have "runs Sent (conc {[6]} (conc (polls [13]) {[]})) st w w'"
    unfolding EmmcSwitchBusWidth_def Some option.case
    by - (erule seq_runs emmc_commands emmc_poll_runs SetBusWidth_host | simp)+
  then show "runs Sent clock_width st w w'" by (simp add: clock_width_def)
qed

lemma EmmcSwitchToHighSpeed_runs: "EmmcSwitchToHighSpeed E Rca F D B w = Some (st, w') \<Longrightarrow> runs Sent emmc_speed st w w'"
proof -
  assume "EmmcSwitchToHighSpeed E Rca F D B w = Some (st, w')"
  then have "runs Sent (conc {[6, 13]} clock_width) st w w'"
    unfolding EmmcSwitchToHighSpeed_def by - (erule seq_runs EmmcSwitchClockFreq_runs EmmcSwitchBusWidth_runs | simp)+
  then show ?thesis by (rule runs_mono) (auto simp: emmc_speed_def)
qed

lemma no_speed: "runs Sent emmc_speed st w w"
  by (rule runs_mono [OF runs_nil]) (simp add: emmc_speed_def)

lemma EmmcSetBusMode_runs: "EmmcSetBusMode E Rca w = Some (st, w') \<Longrightarrow> runs Sent emmc_mode st w w'"
  unfolding EmmcSetBusMode_def emmc_mode_def
  by (erule seq_runs csd_commands emmc_commands emmc_poll_runs EmmcSwitchBusWidth_runs
    | auto simp: Let_def EmmcSwitchToHS200_def split: if_splits prod.splits intro: no_speed dest: EmmcSwitchToHighSpeed_runs)+

lemma emmc_ready_runs:
  assumes "emmc_ready_loop E n w = Some (st, w')" "0 < n"
  shows "runs Sent (ones n) st w w'"
  using assms
proof (induction n arbitrary: w)
  case (Suc n)
  have one: "{[1]} \<subseteq> ones (Suc n)" and more: "conc {[1]} (ones n) \<subseteq> ones (Suc n)"
    by (auto simp: ones_def conc_def intro: exI [of _ "Suc 0"] exI [of _ "Suc k" for k])
  from Suc.prems obtain st1 Ocr w1 where s: "EmmcGetOcr (send_packet E) EMMC_CMD1_CAPACITY_GREATER_THAN_2GB w = Some (st1, Ocr, w1)"
    and cont: "if EFI_ERROR st1 then st = st1 \<and> w' = w1
      else if n = 0 then st = EFI_DEVICE_ERROR \<and> w' = w1
      else if Ocr AND push_bit 31 1 = 0 then emmc_ready_loop E n (stall 100 w1) = Some (st, w') else st = EFI_SUCCESS \<and> w' = stall 100 w1"
    by (auto simp: and_get_def bind_eq_Some_conv Let_def simp del: push_bit_of_1 split: if_splits)
  note first = emmc_commands(2) [OF s]
  consider "st = st1 \<and> w' = w1" | "st1 = EFI_SUCCESS" "w' = w1" | "st1 = EFI_SUCCESS" "w' = stall 100 w1"
    | "st1 = EFI_SUCCESS" "n \<noteq> 0" "emmc_ready_loop E n (stall 100 w1) = Some (st, w')"
    using cont by (metis not_EFI_ERRORD)
  then show ?case
  proof cases
    case 1
    then show ?thesis using runs_mono [OF first one] by simp
  next
    case 2
    then show ?thesis using runs_any [OF first [unfolded 2]] one by (auto intro: runs_mono)
  next
    case 3
    have "runs Sent {[1]} st w w'" using runs_seq [OF first [unfolded 3(1)] host_runs [OF stall_step]] 3(2) by simp
    then show ?thesis using one by (auto intro: runs_mono)
  next
    case 4
    have "runs Sent (ones n) st w1 w'" using after_host [OF stall_step Suc.IH [OF 4(3)]] 4(2) by simp
    then show ?thesis using runs_mono [OF runs_seq more] first 4(1) by blast
  qed
qed simp

lemma set_mode_runs:
  assumes switch: "\<And>M Set w st w'. Switch M Set w = Some (st, w') \<Longrightarrow> runs Sent L st w w'" "L \<noteq> {}"
    and r: "and_then (SdCardSwitchBusWidth E Rca D Widths w) (\<lambda>w1. and_then (Switch 0xF False w1) (\<lambda>w2.
      case mode w2 of (F, M) \<Rightarrow>
      and_then (Switch M True w2) (\<lambda>w3.
        if bad M w3 then Some (EFI_DEVICE_ERROR, w3) else on_host (DwMmcHcClockSupply e (F * 1000) Cap) w3))) = Some (st, w')"
  shows "runs Sent (conc {[55, 6, 13]} (conc L (conc L {[]}))) st w w'"
  using r
proof (rule and_then_runs)
  fix w1
  assume "and_then (Switch 0xF False w1) (\<lambda>w2.
      case mode w2 of (F, M) \<Rightarrow>
      and_then (Switch M True w2) (\<lambda>w3.
        if bad M w3 then Some (EFI_DEVICE_ERROR, w3) else on_host (DwMmcHcClockSupply e (F * 1000) Cap) w3)) = Some (st, w')"
  then show "runs Sent (conc L (conc L {[]})) st w1 w'"
  proof (rule and_then_runs)
    fix w2
    obtain F M where mode: "mode w2 = (F, M)" by (metis surj_pair)
    assume "(case mode w2 of (F, M) \<Rightarrow>
      and_then (Switch M True w2) (\<lambda>w3.
        if bad M w3 then Some (EFI_DEVICE_ERROR, w3) else on_host (DwMmcHcClockSupply e (F * 1000) Cap) w3)) = Some (st, w')"
    then have "and_then (Switch M True w2) (\<lambda>w3.
        if bad M w3 then Some (EFI_DEVICE_ERROR, w3) else on_host (DwMmcHcClockSupply e (F * 1000) Cap) w3) = Some (st, w')"
      by (simp add: mode)
    then show "runs Sent (conc L {[]}) st w2 w'"
      by (rule and_then_runs) (auto split: if_splits dest: switch(1) ClockSupply_host)
  qed (auto dest: switch(1) simp: switch(2))
qed (auto simp: switch(2) dest: SdSwitchBusWidth_runs)

lemma SdCardSetBusMode_runs: "SdCardSetBusMode E Rca S Widths v1 w = Some (st, w') \<Longrightarrow> runs Sent (sd_mode v1) st w w'"
proof -
  assume mode: "SdCardSetBusMode E Rca S Widths v1 w = Some (st, w')"
  let ?Cap = "capability w" and ?switch = "if v1 then {[]} else {[6]}"
  have switch: "runs Sent ?switch st w w'"
    if "(if v1 then Some (EFI_SUCCESS, w) else SdCardSwitch (send_packet E) M 0xF 0xF 0xF Set (idSwitchResp E) w) = Some (st, w')" for M Set st w w'
    using that by (auto split: if_splits dest: sd_commands)
  have nonempty: "?switch \<noteq> {}" by simp
  have sd_mode: "sd_mode v1 = conc {[55, 6, 13]} (conc ?switch (conc ?switch {[]}))" by (simp add: sd_mode_def)
  consider "CapBusWidth ?Cap \<noteq> 1 \<and> CapBusWidth ?Cap \<noteq> 4 \<or> Widths AND CapBusWidth ?Cap = 0"
    | "(CapBusWidth ?Cap = 1 \<or> CapBusWidth ?Cap = 4) \<and> Widths AND CapBusWidth ?Cap \<noteq> 0" by blast
  then show ?thesis
  proof cases
    case 1
    then have "st = EFI_INVALID_PARAMETER" "w' = w" using mode by (auto simp: SdCardSetBusMode_def Let_def split: if_splits)
    then show ?thesis by (simp add: runs_start EFI_ERROR_iff)
  next
    case 2
    then have good: "\<not> (CapBusWidth ?Cap \<noteq> 1 \<and> CapBusWidth ?Cap \<noteq> 4)" "Widths AND CapBusWidth ?Cap \<noteq> 0" by auto
    show ?thesis unfolding sd_mode
      by (rule set_mode_runs [OF switch nonempty mode [unfolded SdCardSetBusMode_def Let_def if_not_P [OF good(1)] if_not_P [OF good(2)]]])
  qed
qed

lemma sd_found_runs:
  assumes "sd_found E Rca S v1 w = Some (st, w')"
  shows "runs Sent (conc {[9]} (conc {[7]} (conc {[55, 51]} (sd_mode v1)))) st w w'"
proof -
  have last: "runs Sent (sd_mode v1) st w w'"
    if "and_then (SdCardSetBusMode E Rca S Widths v1 (set_slot (CardType_update (\<lambda>_. SdCardType)) w))
      (\<lambda>w4. Some (EFI_SUCCESS, set_slot (Initialized_update (\<lambda>_. True)) w4)) = Some (st, w')" for w Widths
  proof -
    from that have "runs Sent (conc (sd_mode v1) {[]}) st (set_slot (CardType_update (\<lambda>_. SdCardType)) w) w'"
      by (rule and_then_runs) (auto intro: SdCardSetBusMode_runs intro!: host_runs set_slot_step)
    then show ?thesis by - (rule after_host [OF set_slot_step], auto simp: card_known_def)
  qed
  from assms show ?thesis
    unfolding sd_found_def Let_def by - (erule seq_runs csd_commands sd_commands app_commands last | simp)+
qed

lemma SdCardIdentification_runs: "SdCardIdentification E w = Some (st, w') \<Longrightarrow> runs Sent sd_identification st w w'"
proof -
  let ?rest = "\<lambda>v1. conc {[55, 41]} (conc (polls [55, 41]) (conc {[2]} (conc {[3]} (conc {[9]} (conc {[7]} (conc {[55, 51]} (sd_mode v1)))))))"
  have rest: "runs Sent (?rest v1) st w w'"
    if "and_get (as_device_error (SdCardSendOpCond (send_packet E) 0 0 False False False 0 w)) (\<lambda>Ocr w3.
       case sd_supply (capability w3) (MaxCurrent (mmcDev w3)) of None \<Rightarrow> Some (EFI_DEVICE_ERROR, w3)
       | Some (Current, S18r) \<Rightarrow>
         and_get (sd_ready_loop E S18r (150 \<le> Current) Ocr w3) (\<lambda>Ocr1 w4.
         and_then (SdCardAllSendCid (send_packet E) w4) (\<lambda>w5.
         and_get (SdCardSetRca (send_packet E) 0 w5) (\<lambda>Rca. sd_found E Rca S18r v1)))) = Some (st, w')" for w v1
    using that
  proof (rule and_get_runs)
    fix Ocr w3
    assume go: "(case sd_supply (capability w3) (MaxCurrent (mmcDev w3)) of None \<Rightarrow> Some (EFI_DEVICE_ERROR, w3)
       | Some (Current, S18r) \<Rightarrow>
         and_get (sd_ready_loop E S18r (150 \<le> Current) Ocr w3) (\<lambda>Ocr1 w4.
         and_then (SdCardAllSendCid (send_packet E) w4) (\<lambda>w5.
         and_get (SdCardSetRca (send_packet E) 0 w5) (\<lambda>Rca. sd_found E Rca S18r v1)))) = Some (st, w')"
    show "runs Sent (conc (polls [55, 41]) (conc {[2]} (conc {[3]} (conc {[9]} (conc {[7]} (conc {[55, 51]} (sd_mode v1))))))) st w3 w'"
    proof (cases "sd_supply (capability w3) (MaxCurrent (mmcDev w3))")
      case None
      with go show ?thesis by (auto simp: EFI_ERROR_iff intro: runs_start)
    next
      case (Some p)
      with go show ?thesis
        by (cases p) (simp, (erule seq_runs sd_ready_runs sd_commands csd_commands sd_found_runs | simp)+)
    qed
  qed (auto intro: as_device_error_runs app_commands)
  assume "SdCardIdentification E w = Some (st, w')"
  then show ?thesis
    unfolding SdCardIdentification_def sd_identification_def
  proof (rule and_then_runs)
    let ?langs = "\<Union>(c, v1) \<in> {([], True), ([8], True), ([8], False)}. conc {c} (?rest v1)"
    fix w1
    assume go: "Option.bind (SdCardVoltageCheck (send_packet E) 1 0xFF (stall 10000 w1)) (\<lambda>(Check, w2).
     and_get (as_device_error (SdCardSendOpCond (send_packet E) 0 0 False False False 0 w2)) (\<lambda>Ocr w3.
     case sd_supply (capability w3) (MaxCurrent (mmcDev w3)) of None \<Rightarrow> Some (EFI_DEVICE_ERROR, w3)
     | Some (Current, S18r) \<Rightarrow>
         and_get (sd_ready_loop E S18r (150 \<le> Current) Ocr w3) (\<lambda>Ocr1 w4.
         and_then (SdCardAllSendCid (send_packet E) w4) (\<lambda>w5.
         and_get (SdCardSetRca (send_packet E) 0 w5) (\<lambda>Rca. sd_found E Rca S18r (EFI_ERROR Check)))))) = Some (st, w')"
    then obtain Check w2 where check: "SdCardVoltageCheck (send_packet E) 1 0xFF (stall 10000 w1) = Some (Check, w2)"
      and after: "runs Sent (?rest (EFI_ERROR Check)) st w2 w'"
      by (auto simp: bind_eq_Some_conv intro: rest)
    have "runs Sent {[8]} Check w1 w2" using after_host [OF stall_step SdCardVoltageCheck_runs [OF check]] .
    then obtain c where c: "Sent c w1 w2" "if EFI_ERROR Check then c = [] \<or> c = [8] else c = [8]"
      by (auto simp: runs_def prefixes_def append_eq_Cons_conv split: if_splits)
    then have "runs Sent (conc {c} (?rest (EFI_ERROR Check))) st w1 w'" using after by (rule_tac runs_seq) (simp add: runs_def)
    then show "runs Sent ?langs st w1 w'" using c(2) by (rule_tac runs_mono) (auto split: if_splits)
  qed (auto dest: sd_commands)
qed

lemma EmmcIdentification_runs: "EmmcIdentification E w = Some (st, w') \<Longrightarrow> runs Sent emmc_identification st w w'"
proof -
  assume "EmmcIdentification E w = Some (st, w')"
  moreover have "runs Sent {[0]} st1 w w1" if "EmmcReset (send_packet E) stall w = Some (st1, w1)" for st1 w1
    using after_host [OF stall_step emmc_commands(1) [OF that]] .
  moreover have "runs Sent emmc_mode st1 w4 w5" if "EmmcSetBusMode E 1 (set_slot (CardType_update (\<lambda>_. EmmcCardType)) w4) = Some (st1, w5)" for st1 w4 w5
    using after_host [OF set_slot_step EmmcSetBusMode_runs [OF that]] by (simp add: card_known_def)
  ultimately show ?thesis
    unfolding EmmcIdentification_def emmc_identification_def
    by - (erule seq_runs emmc_commands emmc_poll_runs | (erule emmc_ready_runs, simp) | simp)+
qed

end

section \<open>The driver meets the contract\<close>

definition keeps_events :: "nat list \<Rightarrow> mmc_world \<Rightarrow> mmc_world \<Rightarrow> bool" where
  "keeps_events cs w w' \<longleftrightarrow> events w' = events w"

interpretation frame: card_host E keeps_events for E
proof unfold_locales
  show "keeps_events [CommandIndex P mod 64] w w' \<or> EFI_ERROR st \<and> keeps_events [] w w'"
    if "send_packet E P w = Some (st, P', w')" for P w st P' w'
    using pass_thru_events(1) [OF that [unfolded send_packet_def]] by (simp add: keeps_events_def)
  show "keeps_events [] w w'" if "host_step w w'" for w w'
    using that calm_calls by (auto simp: keeps_events_def host_step_def calm_ext_def events_def waiting_def)
qed (simp_all add: keeps_events_def)

definition idle :: "mmc_world \<Rightarrow> bool" where
  "idle w \<longleftrightarrow> queue_of w = [] \<and> card_ready w"

definition sends_commands :: "nat list \<Rightarrow> mmc_world \<Rightarrow> mmc_world \<Rightarrow> bool" where
  "sends_commands cs w w' \<longleftrightarrow> (idle w \<longrightarrow> idle w' \<and> commands (mmcLog w') = commands (mmcLog w) @ cs)"

interpretation trace: card_host E sends_commands for E
proof unfold_locales
  show "sends_commands [CommandIndex P mod 64] w w' \<or> EFI_ERROR st \<and> sends_commands [] w w'"
    if "send_packet E P w = Some (st, P', w')" for P w st P' w'
  proof (cases "idle w")
    case True
    then have "queue_of w = []" "\<And>S. slot_at 0 w = Some S \<Longrightarrow> card_known (CardType S)" by (auto simp: idle_def card_ready_def)
    from pass_thru_sent [OF that [unfolded send_packet_def] this] True show ?thesis
      by (auto simp: sends_commands_def idle_def card_ready_def slot_at_def)
  qed (simp add: sends_commands_def)
  show "sends_commands [] w w'" if "host_step w w'" for w w'
    using that calm_calls by (auto simp: sends_commands_def idle_def host_step_def calm_ext_def)
qed (simp_all add: sends_commands_def)

text \<open>The languages written out.\<close>

lemma in_conc: "cs \<in> conc A B \<longleftrightarrow> (\<exists>as bs. as \<in> A \<and> bs \<in> B \<and> cs = as @ bs)"
  by (auto simp: conc_def)

lemma in_conc_one: "cs \<in> conc {as} B \<longleftrightarrow> (\<exists>bs. bs \<in> B \<and> cs = as @ bs)"
  by (auto simp: conc_def)

lemma sd_sequence:
  assumes "cs \<in> sd_identification"
  obtains n c s where "cs = [0] @ c @ [55, 41] @ concat (replicate (Suc n) [55, 41]) @ [2, 3, 9, 7, 55, 51, 55, 6, 13] @ s"
    "(c, s) \<in> {([8], [6, 6]), ([8], []), ([], [])}"
proof -
  let ?rest = "\<lambda>(c, v1). conc {c} (conc {[55, 41]} (conc (polls [55, 41]) (conc {[2]} (conc {[3]} (conc {[9]} (conc {[7]}
      (conc {[55, 51]} (sd_mode v1))))))))"
  from assms obtain bs where bs: "bs \<in> (\<Union>x \<in> {([], True), ([8], True), ([8], False)}. ?rest x)" "cs = [0] @ bs"
    unfolding sd_identification_def in_conc_one by blast
  from bs(1) obtain c v1 where c: "(c, v1) \<in> {([], True), ([8], True), ([8], False)}" and rest: "bs \<in> ?rest (c, v1)"
    by (metis (no_types, lifting) UN_E surj_pair)
  from rest obtain ps where ps: "ps \<in> polls [55, 41]"
    and "bs = c @ [55, 41] @ ps @ [2] @ [3] @ [9] @ [7] @ [55, 51] @ [55, 6, 13] @ (if v1 then [] else [6, 6])"
    unfolding sd_mode_def case_prod_conv in_conc_one in_conc by blast
  with bs(2) have cs: "cs = [0] @ c @ [55, 41] @ ps @ [2] @ [3] @ [9] @ [7] @ [55, 51] @ [55, 6, 13] @ (if v1 then [] else [6, 6])" by simp
  from ps obtain n where n: "ps = concat (replicate (Suc n) [55, 41])" unfolding polls_eq by blast
  from that [of c n "if v1 then [] else [6, 6]"] show thesis using c cs n by auto
qed

lemma emmc_speed_cases:
  assumes "hs \<in> emmc_speed"
  shows "hs = [] \<or> (\<exists>s. hs = [6, 13, 6] @ replicate (Suc s) 13)"
  using assms unfolding emmc_speed_def clock_width_def Un_iff in_conc_one polls_one by (simp del: replicate_Suc) blast

lemma emmc_sequence:
  assumes "cs \<in> emmc_identification"
  obtains k p q r hs where "cs = [0] @ replicate k 1 @ [2, 3, 9, 7] @ replicate (Suc p) 13 @ [6] @ replicate (Suc q) 13 @ [8] @ hs @
      replicate (Suc r) 13" "0 < k" "k \<le> 100" "hs = [] \<or> (\<exists>s. hs = [6, 13, 6] @ replicate (Suc s) 13)"
proof -
  from assms obtain os ps qs rs hs where os: "os \<in> ones 100" and ps: "ps \<in> polls [13]" and qs: "qs \<in> polls [13]" and rs: "rs \<in> polls [13]"
    and hs: "hs \<in> emmc_speed" and cs: "cs = [0] @ os @ [2] @ [3] @ ([9] @ [7] @ ps @ ([6] @ qs) @ [8] @ hs) @ rs"
    unfolding emmc_identification_def emmc_mode_def clock_width_def in_conc_one in_conc by blast
  from os obtain k where k: "os = replicate k 1" "0 < k" "k \<le> 100" by (auto simp: ones_def)
  from ps qs rs obtain p q r where pqr: "ps = replicate (Suc p) 13" "qs = replicate (Suc q) 13" "rs = replicate (Suc r) 13"
    unfolding polls_one by blast
  show thesis by (rule that [OF _ k(2,3) emmc_speed_cases [OF hs]]) (simp add: cs k(1) pqr del: replicate_Suc)
qed

text \<open>With no request queued and a slot set up for one of the two kinds of card, a successful identification of an SD card has sent exactly:
  CMD0, CMD8, the application command 41 at least twice, CMD2, CMD3, CMD9, CMD7, the application commands 51 and 6, CMD13, and, unless CMD8
  failed, CMD6 twice.\<close>

theorem sd_identification_commands:
  assumes "SdCardIdentification E w = Some (EFI_SUCCESS, w')" "idle w"
  shows "\<exists>n c s. commands (mmcLog w') = commands (mmcLog w) @ [0] @ c @ [55, 41] @ concat (replicate (Suc n) [55, 41]) @
      [2, 3, 9, 7, 55, 51, 55, 6, 13] @ s \<and> (c, s) \<in> {([8], [6, 6]), ([8], []), ([], [])}"
proof -
  from trace.SdCardIdentification_runs [OF assms(1)] assms(2)
  obtain cs where "cs \<in> sd_identification" "commands (mmcLog w') = commands (mmcLog w) @ cs"
    by (auto simp: runs_success sends_commands_def)
  moreover from this(1) obtain n c s where "cs = [0] @ c @ [55, 41] @ concat (replicate (Suc n) [55, 41]) @ [2, 3, 9, 7, 55, 51, 55, 6, 13] @ s"
      "(c, s) \<in> {([8], [6, 6]), ([8], []), ([], [])}"
    by (rule sd_sequence)
  ultimately show ?thesis by blast
qed

text \<open>With no request queued and a slot set up for one of the two kinds of card, a successful identification of an eMMC has sent exactly:
  CMD0, CMD1 up to a hundred times, CMD2, CMD3, CMD9, CMD7, CMD13 until the card is in the transfer state, the switch of the bus width and
  CMD13, CMD8 for the extended register, then, unless the default timing is kept, the switch of the timing, CMD13, the switch of the bus width
  and CMD13, and at last CMD13 until the card has left the data state.\<close>

theorem emmc_identification_commands:
  assumes "EmmcIdentification E w = Some (EFI_SUCCESS, w')" "idle w"
  shows "\<exists>k p q r hs. commands (mmcLog w') = commands (mmcLog w) @ [0] @ replicate k 1 @ [2, 3, 9, 7] @ replicate (Suc p) 13 @
      [6] @ replicate (Suc q) 13 @ [8] @ hs @ replicate (Suc r) 13 \<and> 0 < k \<and> k \<le> 100 \<and>
      (hs = [] \<or> (\<exists>s. hs = [6, 13, 6] @ replicate (Suc s) 13))"
proof -
  from trace.EmmcIdentification_runs [OF assms(1)] assms(2)
  obtain cs where cs: "cs \<in> emmc_identification" "commands (mmcLog w') = commands (mmcLog w) @ cs"
    by (auto simp: runs_success sends_commands_def)
  from cs(1) obtain k p q r hs where "cs = [0] @ replicate k 1 @ [2, 3, 9, 7] @ replicate (Suc p) 13 @ [6] @ replicate (Suc q) 13 @ [8] @ hs @
      replicate (Suc r) 13" "0 < k" "k \<le> 100" "hs = [] \<or> (\<exists>s. hs = [6, 13, 6] @ replicate (Suc s) 13)"
    by (rule emmc_sequence)
  with cs(2) show ?thesis by blast
qed

end
