(* ===== verification/MmcQueueRuns.thy ===== *)
theory MmcQueueRuns
  imports MmcDriver CardIdentifyCorrect
begin

text \<open>
  The driver as a transition system: calls of the protocol, blocking or not, the polling timer, the enumeration of
  the card, the end of the driver, in any order.  Its state stays well formed, and every request that is accepted is
  signalled once, in the order of acceptance.
\<close>

section \<open>Well-formed states\<close>

definition queue_ok :: "DW_MMC_HC_TRB list \<Rightarrow> bool" where
  "queue_ok q \<longleftrightarrow> list_all (\<lambda>Trb. TrbSlot Trb = 0 \<and> TrbEvent Trb \<noteq> None) q"

definition mmc_ok :: "mmc_world \<Rightarrow> bool" where
  "mmc_ok w \<longleftrightarrow> length (MmcSlots (mmcDev w)) = DW_MMC_HC_MAX_SLOT \<and> PreviousSlot (mmcDev w) = 0 \<and> queue_ok (queue_of w)"

lemma queue_ok_simps [simp]:
  "queue_ok []" "queue_ok (Trb # q) \<longleftrightarrow> TrbSlot Trb = 0 \<and> TrbEvent Trb \<noteq> None \<and> queue_ok q" "queue_ok (q @ q') \<longleftrightarrow> queue_ok q \<and> queue_ok q'"
  by (auto simp: queue_ok_def)

lemma mmc_ok_queue: "mmc_ok w \<Longrightarrow> mmc_ok (set_queue q w) \<longleftrightarrow> queue_ok q"
  by (simp add: mmc_ok_def set_queue_def)

lemma mmc_ok_cong: "mmcDev w' = mmcDev w \<Longrightarrow> mmc_ok w' \<longleftrightarrow> mmc_ok w"
  by (simp add: mmc_ok_def)

lemma set_status_dev [simp]: "mmcDev (set_status At st w) = mmcDev w"
  by (simp add: set_status_def)

lemma run_head_dev:
  assumes "run_head e Trb w = Some (st, Trb1, w1)"
  shows "mmcDev w1 = mmcDev w \<and> TrbSlot Trb1 = TrbSlot Trb"
proof -
  from assms obtain S where S: "slot_at (TrbSlot Trb) w = Some S" by (auto simp: run_head_def bind_eq_Some_conv)
  show ?thesis
    using assms by (auto simp: run_head_def S Let_def DwMmcCheckTrbEnv_def bind_eq_Some_conv split: if_splits)
qed

lemma tick_ok:
  assumes "ProcessAsyncTaskList e w = Some w'" "mmc_ok w"
  shows "mmc_ok w'" "queue_of w = [] \<Longrightarrow> w' = w"
proof -
  have "mmc_ok w' \<and> (queue_of w = [] \<longrightarrow> w' = w)"
  proof (cases "queue_of w")
    case Nil
    then show ?thesis using assms by (simp add: ProcessAsyncTaskList_def)
  next
    case (Cons Trb rest)
    then obtain st Trb1 w1 where run: "run_head e Trb w = Some (st, Trb1, w1)"
      and w': "w' = finish_head Trb1 EFI_TIMEOUT w1 \<or> w' = finish_head Trb1 st w1 \<or>
         w' = set_queue (Trb1\<lparr>TrbTimeout := TrbTimeout Trb1 - 1\<rparr> # rest) w1 \<or> w' = set_queue (Trb1 # rest) w1"
      using assms by (auto simp: ProcessAsyncTaskList_def split: if_splits)
    from run_head_dev [OF run] run_head_frame [OF run] Cons assms(2)
    have w1: "mmc_ok w1" "queue_of w1 = Trb # rest" "TrbSlot Trb1 = 0" "TrbEvent Trb1 \<noteq> None" "queue_ok rest"
      by (auto simp: mmc_ok_def)
    have "mmc_ok (finish_head Trb1 s w1)" for s
      using w1 by (simp add: finish_head_def Let_def mmc_ok_def set_queue_def)
    then show ?thesis using w' w1 Cons by (auto simp: mmc_ok_queue)
  qed
  then show "mmc_ok w'" "queue_of w = [] \<Longrightarrow> w' = w" by blast+
qed

lemma wait_queue_ok: "wait_queue e w = Some w' \<Longrightarrow> mmc_ok w \<Longrightarrow> mmc_ok w'"
proof -
  assume "wait_queue e w = Some w'"
  then have "mmc_ok w \<longrightarrow> mmc_ok w'"
  proof (rule wait_queue.raw_induct [where P = "\<lambda>e w w'. mmc_ok w \<longrightarrow> mmc_ok w'", rotated])
    fix f :: "mmc_env \<Rightarrow> mmc_world \<Rightarrow> mmc_world option" and e w w'
    assume ih: "\<And>e w w'. f e w = Some w' \<Longrightarrow> mmc_ok w \<longrightarrow> mmc_ok w'"
      and body: "(if queue_of w = [] then Some w else Option.bind (ProcessAsyncTaskList e w) (f e)) = Some w'"
    show "mmc_ok w \<longrightarrow> mmc_ok w'"
      using body ih by (auto simp: bind_eq_Some_conv split: if_splits dest: tick_ok(1))
  qed
  then show "mmc_ok w \<Longrightarrow> mmc_ok w'" by simp
qed

lemma run_request_ok:
  assumes "run_request e S Trb P w = Some (st, P', w')" "mmc_ok w"
  shows "mmc_ok w'"
proof -
  from assms(1) obtain w1 where w1: "wait_queue e w = Some w1" by (auto simp: run_request_def bind_eq_Some_conv)
  obtain st2 P2 l2 m2 where exec: "DwMmcExecTrb e (CardType S) Trb P (mmcLog w1) (mmcMem w1) = Some (st2, P2, l2, m2)"
    using assms(1) w1 by (auto simp: run_request_def WaitTrbEnv_eq bind_eq_Some_conv)
  have "mmcDev w' = mmcDev w1"
  proof (cases "EFI_ERROR st2")
    case True
    then show ?thesis using assms(1) by (auto simp: run_request_def WaitTrbEnv_eq w1 exec Let_def)
  next
    case False
    with assms(1) obtain l4 where "w' = w1\<lparr>mmcMem := m2, mmcLog := DwMmcFreeTrb Trb l4\<rparr>"
      by (auto simp: run_request_def WaitTrbEnv_eq w1 exec Let_def)
    then show ?thesis by simp
  qed
  with wait_queue_ok [OF w1 assms(2)] show ?thesis using mmc_ok_cong by blast
qed

lemma pass_thru_ok:
  assumes "pass_thru e Slot At P Event w = Some (st, P', w')" "mmc_ok w"
  shows "mmc_ok w'" "Event = None \<Longrightarrow> queue_of w = [] \<Longrightarrow> queue_of w' = []"
proof -
  have "mmc_ok w' \<and> (Event = None \<longrightarrow> queue_of w = [] \<longrightarrow> queue_of w' = [])"
  proof (cases "\<not> SdMmcCmdBlk P \<or> \<not> SdMmcStatusBlk P \<or> OutDataBuffer P = 0 \<and> OutTransferLength P \<noteq> 0 \<or> InDataBuffer P = 0 \<and> InTransferLength P \<noteq> 0")
    case True
    then show ?thesis using assms by (auto simp: pass_thru_def split: if_splits)
  next
    case ok: False
    with assms obtain S where S: "slot_at Slot w = Some S" by (auto simp: pass_thru_def bind_eq_Some_conv split: if_splits)
    then have slot: "Slot = 0" using assms(2) by (auto simp: slot_at_def mmc_ok_def split: if_splits)
    show ?thesis
    proof (cases "Enable S \<and> MediaPresent S")
      case False
      then show ?thesis using assms ok S by (auto simp: pass_thru_def split: if_splits)
    next
      case ready: True
      obtain T l m where c: "DwMmcCreateTrb e (CardType S) Slot At P Event (mmcLog w) (mmcMem w) = (T, l, m)" by (metis prod_cases3)
      let ?w1 = "w\<lparr>mmcLog := l, mmcMem := m\<rparr>"
      have w1: "mmc_ok ?w1" using assms(2) by (simp add: mmc_ok_def)
      show ?thesis
      proof (cases T)
        case None
        then show ?thesis using assms ok S ready c w1 by (auto simp: pass_thru_def split: if_splits)
      next
        case (Some Trb)
        have Trb: "TrbEvent Trb = Event" "TrbSlot Trb = 0" using CreateTrb_cases(2) [OF c Some] slot by simp_all
        show ?thesis
        proof (cases Event)
          case None
          with assms ok S ready c Some have "run_request e S Trb P ?w1 = Some (st, P', w')"
            by (simp add: pass_thru_def split: if_splits)
          with run_request_ok [OF this w1] run_request_events [OF this] show ?thesis by simp
        next
          case (Some ev)
          then have "w' = set_queue (queue_of w @ [Trb]) ?w1"
            using assms ok S ready c \<open>T = Some Trb\<close> by (auto simp: pass_thru_def split: if_splits)
          then show ?thesis using w1 Trb Some assms(2) by (simp add: mmc_ok_queue) (simp add: mmc_ok_def)
        qed
      qed
    qed
  qed
  then show "mmc_ok w'" "Event = None \<Longrightarrow> queue_of w = [] \<Longrightarrow> queue_of w' = []" by blast+
qed

text \<open>The contract of the card procedures met a third time.\<close>

definition keeps_ok :: "nat list \<Rightarrow> mmc_world \<Rightarrow> mmc_world \<Rightarrow> bool" where
  "keeps_ok cs w w' \<longleftrightarrow> (mmc_ok w \<longrightarrow> mmc_ok w' \<and> (queue_of w = [] \<longrightarrow> queue_of w' = []))"

interpretation typed: card_host E keeps_ok for E
proof unfold_locales
  show "keeps_ok [CommandIndex P mod 64] w w' \<or> EFI_ERROR st \<and> keeps_ok [] w w'"
    if "send_packet E P w = Some (st, P', w')" for P w st P' w'
    using pass_thru_ok [OF that [unfolded send_packet_def]] by (simp add: keeps_ok_def)
  show "keeps_ok [] w w'" if "host_step w w'" for w w'
    using that by (auto simp: keeps_ok_def host_step_def mmc_ok_def)
qed (auto simp: keeps_ok_def)

section \<open>The other operations\<close>

lemma abort_fold_dev: "mmcDev (fold (abort_one st) q w) = mmcDev w"
  by (induction q arbitrary: w) (simp_all add: abort_one_def Let_def)

lemma abort_queue_ok: "mmc_ok w \<Longrightarrow> mmc_ok (abort_queue st w)"
  by (simp add: abort_queue_def mmc_ok_def set_queue_def abort_fold_dev)

lemma abort_slot0_eq: "mmc_ok w \<Longrightarrow> abort_slot0 st w = abort_queue st w"
  by (simp add: abort_slot0_def abort_queue_def mmc_ok_def queue_ok_def list_all_iff filter_id_conv filter_empty_conv o_def
      cong: filter_cong)

lemma set_slot_queue [simp]: "queue_of (set_slot f w) = queue_of w" "mmcLog (set_slot f w) = mmcLog w"
  "length (MmcSlots (mmcDev (set_slot f w))) = length (MmcSlots (mmcDev w))" "PreviousSlot (mmcDev (set_slot f w)) = PreviousSlot (mmcDev w)"
  by (simp_all add: set_slot_def)

lemma set_slot_ok [simp]: "mmc_ok (set_slot f w) = mmc_ok w"
  by (simp add: mmc_ok_def)

lemma set_slot_events [simp]: "events (set_slot f w) = events w"
  by (simp add: events_def waiting_def)

lemma note_call_simps [simp]:
  "mmc_ok (note_call b w) = mmc_ok w" "events (note_call b w) = events w" "queue_of (note_call b w) = queue_of w"
  "mmcDev (note_call b w) = mmcDev w"
  by (simp_all add: note_call_def mmc_ok_def events_def waiting_def)

lemma reinstall_simps [simp]: "mmc_ok (reinstall w) = mmc_ok w" "events (reinstall w) = events w" "queue_of (reinstall w) = queue_of w"
  by (simp_all add: reinstall_def mmc_ok_def events_def waiting_def)

lemma runs_keeps:
  "runs keeps_events L st w w' \<Longrightarrow> events w' = events w"
  "runs keeps_ok L st w w' \<Longrightarrow> mmc_ok w \<Longrightarrow> mmc_ok w' \<and> (queue_of w = [] \<longrightarrow> queue_of w' = [])"
  by (auto simp: runs_def keeps_events_def keeps_ok_def)

text \<open>What holds of a change of the world that takes no request away unsignalled.\<close>

definition sound :: "mmc_world \<Rightarrow> mmc_world \<Rightarrow> bool" where
  "sound w w' \<longleftrightarrow> (mmc_ok w \<longrightarrow> mmc_ok w' \<and> events w' = events w \<and> (queue_of w = [] \<longrightarrow> queue_of w' = []))"

lemma sound_refl [simp, intro]: "sound w w"
  by (simp add: sound_def)

lemma sound_trans: "sound w w1 \<Longrightarrow> sound w1 w2 \<Longrightarrow> sound w w2"
  by (auto simp: sound_def)

lemma host_step_sound: "host_step w w' \<Longrightarrow> sound w w'"
  using frame.host_runs typed.host_runs runs_keeps unfolding sound_def by meson

lemma identification_sound:
  "EmmcIdentification E w = Some (st, w') \<Longrightarrow> sound w w'"
  "SdCardIdentification E w = Some (st, w') \<Longrightarrow> sound w w'"
  using frame.EmmcIdentification_runs typed.EmmcIdentification_runs frame.SdCardIdentification_runs typed.SdCardIdentification_runs
    runs_keeps unfolding sound_def by meson+

lemma detect_card_sound: "detect_card E w = Some (st, w') \<Longrightarrow> sound w w'"
  by (auto simp: detect_card_def bind_eq_Some_conv split: if_splits dest!: identification_sound intro: sound_trans)

lemma on_host_sound: "on_host f w = Some (st, w') \<Longrightarrow> (\<And>y. f (mmcLog w) = Some y \<Longrightarrow> calm_ext (mmcLog w) (snd y)) \<Longrightarrow> sound w w'"
  by (rule host_step_sound [OF on_host_step])

lemma InitHost_sound: "on_host (\<lambda>l. Some (DwMmcHcInitHost e l)) w = Some (st, w') \<Longrightarrow> sound w w'"
  by (erule on_host_sound) (auto, metis InitHost_calm snd_conv)

lemma Reset_sound: "on_host (DwMmcHcReset e C) w = Some (st, w') \<Longrightarrow> sound w w'"
  by (erule on_host_sound) (auto dest: Reset_calm)

lemma set_slot_sound [simp, intro]: "sound w (set_slot f w)"
  by (simp add: sound_def)

lemma reinstall_sound [simp, intro]: "sound w (reinstall w)"
  by (simp add: sound_def)

lemma abort_sound: "mmc_ok w \<Longrightarrow> sound w (abort_queue st w)"
  by (simp add: sound_def abort_queue_ok abort_events)

lemma card_inserted_sound:
  assumes "card_inserted E w = Some w'"
  shows "sound w w'"
proof -
  from assms obtain st1 w1 where w1: "on_host (\<lambda>l. Some (DwMmcHcInitHost (idHost E) l)) w = Some (st1, w1)"
    and go: "if EFI_ERROR st1 then w' = w1 else
      Option.bind (on_host (DwMmcHcReset (idHost E) (capability w1)) w1) (\<lambda>(Status, w2).
         if EFI_ERROR Status then Some w2
         else map_option (\<lambda>(Status, w3). if EFI_ERROR Status then w3 else reinstall w3)
                (detect_card E (set_slot (MediaPresent_update (\<lambda>_. True)) w2))) = Some w'"
    by (auto simp: card_inserted_def bind_eq_Some_conv split: if_splits)
  note s1 = InitHost_sound [OF w1]
  show ?thesis
  proof (cases "EFI_ERROR st1")
    case True
    with go s1 show ?thesis by simp
  next
    case False
    with go obtain st2 w2 where w2: "on_host (DwMmcHcReset (idHost E) (capability w1)) w1 = Some (st2, w2)"
      and go2: "if EFI_ERROR st2 then w' = w2 else map_option (\<lambda>(Status, w3). if EFI_ERROR Status then w3 else reinstall w3)
                (detect_card E (set_slot (MediaPresent_update (\<lambda>_. True)) w2)) = Some w'"
      by (auto simp: bind_eq_Some_conv split: if_splits)
    have s2: "sound w w2" using s1 Reset_sound [OF w2] by (rule sound_trans)
    show ?thesis
    proof (cases "EFI_ERROR st2")
      case True
      with go2 s2 show ?thesis by simp
    next
      case False
      with go2 obtain st3 w3 where w3: "detect_card E (set_slot (MediaPresent_update (\<lambda>_. True)) w2) = Some (st3, w3)"
        and "w' = w3 \<or> w' = reinstall w3" by (auto split: if_splits)
      moreover have "sound w w3" using sound_trans [OF sound_trans [OF s2 set_slot_sound] detect_card_sound [OF w3]] .
      ultimately show ?thesis by (auto intro: sound_trans)
    qed
  qed
qed

lemma enumerate_sound:
  assumes "DwMmcHcEnumerateDevice E w = Some w'" "mmc_ok w"
  shows "sound w w'"
proof -
  consider "w' = w" | "w' = card_removed w" | "card_inserted E w = Some w'"
    using assms(1) unfolding DwMmcHcEnumerateDevice_def Let_def by (metis option.inject)
  then show ?thesis
  proof cases
    case 2
    have "sound (set_slot (MediaPresent_update (\<lambda>_. False)) w) (abort_queue EFI_NO_MEDIA (set_slot (MediaPresent_update (\<lambda>_. False)) w))"
      using assms(2) by (intro abort_sound) simp
    then show ?thesis unfolding 2 card_removed_def using assms(2)
      by (simp add: abort_slot0_eq) (rule sound_trans [OF set_slot_sound sound_trans [OF _ reinstall_sound]], assumption)
  qed (simp, rule card_inserted_sound)
qed

section \<open>Starting\<close>

definition started :: "mmc_world \<Rightarrow> bool" where
  "started w \<longleftrightarrow> mmc_ok w \<and> queue_of w = []"

lemma sound_started: "sound w w' \<Longrightarrow> started w \<Longrightarrow> started w'"
  by (auto simp: sound_def started_def)

lemma started_note [simp]: "started (note_call b w) = started w"
  by (simp add: started_def)

lemma create_event_started: "create_event B t w = (st, w') \<Longrightarrow> started w \<Longrightarrow> started w'"
  by (auto simp: create_event_def Let_def started_def mmc_ok_def note_call_def upd_dev_def split: mmc_timer.splits if_splits)

lemma set_timer_started: "set_timer B t w = (st, w') \<Longrightarrow> started w \<Longrightarrow> started w'"
  by (auto simp: set_timer_def Let_def)

lemma start_done_started: "start_done st w = (st', w') \<Longrightarrow> started w \<Longrightarrow> started w'"
  by (auto simp: start_done_def Let_def split: if_splits)

lemma start_timers_started: "start_timers B w = (st, w') \<Longrightarrow> started w \<Longrightarrow> started w'"
  unfolding start_timers_def Let_def
  by (auto split: prod.splits if_splits dest!: create_event_started set_timer_started start_done_started)

lemma template_started: "started (w\<lparr>mmcDev := gDwMmcHcTemplate\<lparr>Capability := C\<rparr>\<rparr>)"
  by (simp add: started_def mmc_ok_def gDwMmcHcTemplate_def)

lemma start_started:
  assumes "DwMmcHcDriverBindingStart B w = Some (EFI_SUCCESS, w')"
  shows "started w'"
proof -
  define w2 where "w2 = note_call (PrivateAllocated (bdPrivate B (mmcLog (snd (open_protocol B gNonDiscoverableDevice w)))))
    (snd (open_protocol B gNonDiscoverableDevice w))"
  obtain st Cap where cap: "mmCapability (bdHost B) (mmcLog w2) = (st, Cap)" by (metis surj_pair)
  define w3 where "w3 = w2\<lparr>mmcDev := gDwMmcHcTemplate\<lparr>Capability := Cap\<rparr>\<rparr>"
  have w3: "started w3" unfolding w3_def by (rule template_started)
  from assms consider st1 where "start_done st1 w3 = (EFI_SUCCESS, w')"
    | st4 w4 where "on_host (\<lambda>l. Some (DwMmcHcInitHost (bdHost B) l)) w3 = Some (st4, w4)"
        "(if EFI_ERROR st4 then Some (start_done st4 w4)
          else Option.bind (on_host (DwMmcHcReset (bdHost B) Cap) w4) (\<lambda>(Status, w5).
          if EFI_ERROR Status then Some (start_done Status w5)
          else map_option (\<lambda>(Status, w6). start_timers B w6) (detect_card (bdIdent B) (start_slot w5)))) = Some (EFI_SUCCESS, w')"
    unfolding DwMmcHcDriverBindingStart_def w3_def w2_def
    using cap [unfolded w2_def] by (auto simp: Let_def bind_eq_Some_conv split: if_splits prod.splits)
  then show ?thesis
  proof cases
    case 1
    then show ?thesis using w3 by (auto dest: start_done_started)
  next
    case 2
    have w4: "started w4" using sound_started [OF InitHost_sound [OF 2(1)] w3] .
    show ?thesis
    proof (cases "EFI_ERROR st4")
      case True
      then show ?thesis using 2(2) w4 by (auto dest: start_done_started)
    next
      case False
      with 2(2) obtain st5 w5 where w5: "on_host (DwMmcHcReset (bdHost B) Cap) w4 = Some (st5, w5)"
        and go: "(if EFI_ERROR st5 then Some (start_done st5 w5)
          else map_option (\<lambda>(Status, w6). start_timers B w6) (detect_card (bdIdent B) (start_slot w5))) = Some (EFI_SUCCESS, w')"
        by (auto simp: bind_eq_Some_conv)
      have s5: "started w5" using sound_started [OF Reset_sound [OF w5] w4] .
      show ?thesis
      proof (cases "EFI_ERROR st5")
        case True
        then show ?thesis using go s5 by (auto dest: start_done_started)
      next
        case False
        with go obtain st6 w6 where w6: "detect_card (bdIdent B) (start_slot w5) = Some (st6, w6)"
          and "start_timers B w6 = (EFI_SUCCESS, w')" by auto
        moreover have "started w6"
          using sound_started [OF detect_card_sound [OF w6] sound_started [OF _ s5]] by (simp add: start_slot_def)
        ultimately show ?thesis by (auto dest: start_timers_started)
      qed
    qed
  qed
qed

section \<open>Runs of the driver\<close>

definition accepted :: "efi_event option \<Rightarrow> efi_status \<Rightarrow> efi_event list" where
  "accepted Event st = (case Event of None \<Rightarrow> [] | Some ev \<Rightarrow> if st = EFI_SUCCESS then [ev] else [])"

text \<open>A step with the event it accepts; the callers change their packets and the memory at will.  A call for a slot outside the array
  (\<open>slot_at\<close> is \<open>None\<close>) is not a step: the code would read behind the array, without a check.\<close>

inductive mmc_step :: "mmc_bind_env \<Rightarrow> mmc_world \<Rightarrow> efi_event list \<Rightarrow> mmc_world \<Rightarrow> bool" for B where
  step_call: "DwMmcPassThruPassThru (bdHost B) Slot Packet Event w = Some (st, w') \<Longrightarrow> mmc_step B w (accepted Event st) w'"
| step_timer: "ProcessAsyncTaskList (bdHost B) w = Some w' \<Longrightarrow> mmc_step B w [] w'"
| step_enumerate: "DwMmcHcEnumerateDevice (bdIdent B) w = Some w' \<Longrightarrow> mmc_step B w [] w'"
| step_reset: "DwMmcPassThruResetDevice Slot w = Some (st, w') \<Longrightarrow> mmc_step B w [] w'"
| step_next: "DwMmcPassThruGetNextSlot Slot' w = (st, Slot'', w') \<Longrightarrow> mmc_step B w [] w'"
| step_stop: "DwMmcHcDriverBindingStop B w = (st, w') \<Longrightarrow> mmc_step B w [] w'"
| step_outside: "mmc_step B w [] (w\<lparr>mmcPackets := p, mmcMem := m\<rparr>)"

inductive mmc_runs :: "mmc_bind_env \<Rightarrow> mmc_world \<Rightarrow> efi_event list \<Rightarrow> mmc_world \<Rightarrow> bool" for B where
  run_nil: "mmc_runs B w [] w"
| run_step: "mmc_runs B w evs w1 \<Longrightarrow> mmc_step B w1 new w2 \<Longrightarrow> mmc_runs B w (evs @ new) w2"

lemma pass_thru_call_sound:
  assumes "DwMmcPassThruPassThru e Slot Packet Event w = Some (st, w')" "mmc_ok w"
  shows "mmc_ok w' \<and> events w' = events w @ accepted Event st"
proof (cases Packet)
  case None
  then show ?thesis using assms by (auto simp: DwMmcPassThruPassThru_def accepted_def split: option.splits)
next
  case (Some At)
  then obtain P w1 where p: "pass_thru e Slot At (mmcPackets w At) Event w = Some (st, P, w1)"
    and w': "w' = (if Event = None then w1\<lparr>mmcPackets := (mmcPackets w1)(At := P)\<rparr> else w1)"
    using assms(1) by (auto simp: DwMmcPassThruPassThru_def)
  have "mmc_ok w' = mmc_ok w1" "events w' = events w1" by (simp_all add: w' mmc_ok_def events_def waiting_def)
  then show ?thesis using pass_thru_ok(1) [OF p assms(2)] pass_thru_events(1) [OF p] by (simp add: accepted_def)
qed

lemma next_slot_ok: "DwMmcPassThruGetNextSlot Slot w = (st, S, w') \<Longrightarrow> mmc_ok w \<Longrightarrow> mmc_ok w' \<and> events w' = events w"
  by (auto simp: DwMmcPassThruGetNextSlot_def mmc_ok_def events_def waiting_def split: option.splits if_splits)

lemma stop_sound:
  assumes "DwMmcHcDriverBindingStop B w = (st, w')" "mmc_ok w"
  shows "mmc_ok w' \<and> events w' = events w"
proof -
  define w1 where "w1 = snd (open_protocol B gSdMmcPassThru w)"
  define w2 where "w2 = (if TimerEvent (mmcDev w1) then upd_dev (TimerEvent_update (\<lambda>_. False)) (note_call (EventClosed AsyncTimer) w1) else w1)"
  define w3 where "w3 = (if ConnectEvent (mmcDev w2) then upd_dev (ConnectEvent_update (\<lambda>_. False)) (note_call (EventClosed ConnectTimer) w2) else w2)"
  have upd: "mmc_ok (upd_dev f w) = mmc_ok w \<and> events (upd_dev f w) = events w"
    if "\<And>d. MmcSlots (f d) = MmcSlots d \<and> RequestQueue (f d) = RequestQueue d \<and> PreviousSlot (f d) = PreviousSlot d" for f w
    using that by (simp add: upd_dev_def mmc_ok_def events_def waiting_def)
  have w1: "mmc_ok w1 \<and> events w1 = events w" using assms(2) by (simp add: w1_def open_protocol_def Let_def)
  have w3: "mmc_ok w3 \<and> events w3 = events w" using w1 by (simp add: w3_def w2_def upd)
  then have "mmc_ok (abort_queue EFI_ABORTED w3) \<and> events (abort_queue EFI_ABORTED w3) = events w"
    by (simp add: abort_queue_ok abort_events)
  moreover have "w' = w1 \<or> (\<exists>s. w' = note_call (PassThruUninstalled s) (abort_queue EFI_ABORTED w3) \<or>
      w' = note_call PrivateFreed (note_call (Closed gEfiPciIo) (note_call (PassThruUninstalled s) (abort_queue EFI_ABORTED w3))))"
    using assms(1) unfolding DwMmcHcDriverBindingStop_def w3_def w2_def w1_def by (auto simp: Let_def split_beta split: if_splits)
  ultimately show ?thesis using w1 by auto
qed

lemma step_sound: "mmc_step B w new w' \<Longrightarrow> mmc_ok w \<Longrightarrow> mmc_ok w' \<and> events w' = events w @ new"
proof (induction rule: mmc_step.induct)
  case (step_reset Slot w st w')
  then have "w' = w \<or> w' = abort_queue EFI_ABORTED w" by (auto simp: DwMmcPassThruResetDevice_def split: if_splits)
  with step_reset(2) show ?case by (auto simp: abort_queue_ok abort_events)
next
  case (step_enumerate w w')
  then show ?case using enumerate_sound by (auto simp: sound_def)
next
  case (step_outside w p m)
  then show ?case by (simp add: mmc_ok_def events_def waiting_def)
qed (auto dest: pass_thru_call_sound tick_ok tick_events next_slot_ok stop_sound)

lemma runs_sound: "mmc_runs B w evs w' \<Longrightarrow> mmc_ok w \<Longrightarrow> mmc_ok w' \<and> events w' = events w @ evs"
  by (induction rule: mmc_runs.induct) (auto dest: step_sound)

end
