(* ===== verification/MmcDriverCorrect.thy ===== *)
theory MmcDriverCorrect
  imports MmcQueueRuns
begin

text \<open>
  What becomes of the requests of the MMC driver, and what a start without a card leaves.
\<close>

section \<open>An example slot\<close>

definition ex_ident :: "mmc_env \<Rightarrow> ident_env" where
  "ex_ident e = \<lparr>idHost = e, idEngine = \<lambda>l m. m, idScr = 0x100, idSwitchResp = 0x200, idExtCsd = 0x400\<rparr>"

definition ex_bind :: "mmc_env \<Rightarrow> mmc_bind_env" where
  "ex_bind e = \<lparr>bdIdent = ex_ident e, bdOpen = \<lambda>l g. EFI_SUCCESS, bdIsDwMmc = True, bdPrivate = \<lambda>l. Some 0x7000,
     bdCreateEvent = \<lambda>l t. EFI_SUCCESS, bdSetTimer = \<lambda>l t. EFI_SUCCESS, bdInstall = \<lambda>l. EFI_SUCCESS, bdUninstall = \<lambda>l. EFI_SUCCESS\<rparr>"

definition ex_mmc :: "SD_MMC_CARD_TYPE \<Rightarrow> mmc_world" where
  "ex_mmc C = \<lparr>mmcDev = gDwMmcHcTemplate\<lparr>MmcSlots := [\<lparr>Enable = True, SlotType = EmbeddedSlot, MediaPresent = True, Initialized = True, CardType = C\<rparr>],
       Capability := ex_cap\<rparr>,
     mmcLog = [], mmcMem = \<lambda>a. 0, mmcPackets = \<lambda>a. ex_packet\<rparr>"

definition empty_slot_env :: mmc_env where
  "empty_slot_env = quiet_env\<lparr>mmCardDetect := \<lambda>l. False\<rparr>"

section \<open>Requests\<close>

text \<open>C8: Every non-blocking request that the driver accepts is signalled exactly once and in the order of acceptance: at any time the
  events signalled so far, followed by those of the requests still queued, are those signalled before the run, followed by the accepted ones.
  The calls are for slot 0, the only one: the driver does not check the number, and what it does with the memory behind the array of slots
  is not modelled.\<close>

theorem mmc_requests_signalled_once:
  assumes "mmc_ok w" "queue_of w = []" "mmc_runs B w evs w'"
  shows "signalled (mmcLog w') @ waiting w' = signalled (mmcLog w) @ evs"
  using runs_sound [OF assms(3,1)] assms(2) by (simp add: events_def waiting_def)

section \<open>A start without a card\<close>

text \<open>C31: With no card in the slot, Start reports success but has installed no protocol and set no timer; the device's protocol stays open
  and the private data allocated, with nothing that refers to it: nothing will ever look for a card.\<close>

theorem mmc_start_without_card:
  assumes "\<And>l. bdOpen B l gNonDiscoverableDevice = EFI_SUCCESS" "\<And>l. bdPrivate B l = Some p"
    and "\<And>l. mmLocatePlatform (bdHost B) l = EFI_SUCCESS" "\<And>l. mmCapability (bdHost B) l = (EFI_SUCCESS, Cap)" "\<And>l. \<not> mmCardDetect (bdHost B) l"
  shows "\<exists>w'. DwMmcHcDriverBindingStart B w = Some (EFI_SUCCESS, w') \<and>
    mmcLog w' = mmcLog w @ [Binding (Opened gNonDiscoverableDevice EFI_SUCCESS), Binding (PrivateAllocated (Some p))]"
  using assms by (simp add: DwMmcHcDriverBindingStart_def open_protocol_def note_call_def start_done_def DwMmcHcCardDetect_def Let_def)

theorem mmc_start_without_card_witness:
  "\<exists>w'. DwMmcHcDriverBindingStart (ex_bind empty_slot_env) (ex_mmc SdCardType) = Some (EFI_SUCCESS, w') \<and> length (mmcLog w') = 2"
proof -
  have "\<exists>w'. DwMmcHcDriverBindingStart (ex_bind empty_slot_env) (ex_mmc SdCardType) = Some (EFI_SUCCESS, w') \<and>
      mmcLog w' = mmcLog (ex_mmc SdCardType) @ [Binding (Opened gNonDiscoverableDevice EFI_SUCCESS), Binding (PrivateAllocated (Some 0x7000))]"
    by (rule mmc_start_without_card [where Cap = ex_cap])
      (simp_all add: ex_bind_def ex_ident_def empty_slot_env_def quiet_env_def ex_cap_def)
  then show ?thesis by (auto simp: ex_mmc_def)
qed

text \<open>A request for an event is accepted and a reset of the slot gives it up.\<close>

theorem mmc_requests_signalled_once_witness:
  "\<exists>w'. mmc_runs (ex_bind quiet_env) (ex_mmc EmmcCardType) [7] w' \<and> signalled (mmcLog w') = [7] \<and> waiting w' = []"
proof -
  let ?w = "ex_mmc EmmcCardType"
  obtain w1 where call: "DwMmcPassThruPassThru quiet_env 0 (Some 0x900) (Some 7) ?w = Some (EFI_SUCCESS, w1)"
    and w1: "MmcSlots (mmcDev w1) = MmcSlots (mmcDev ?w)"
    by (simp add: DwMmcPassThruPassThru_def pass_thru_def ex_mmc_def ex_packet_def slot_at_def gDwMmcHcTemplate_def DwMmcCreateTrb_def
        trb_buffers_def is_tuning_def quiet_env_def set_queue_def)
  have reset: "DwMmcPassThruResetDevice 0 w1 = Some (EFI_SUCCESS, abort_queue EFI_ABORTED w1)"
    using w1 by (simp add: DwMmcPassThruResetDevice_def slot_at_def ex_mmc_def gDwMmcHcTemplate_def)
  have host: "bdHost (ex_bind quiet_env) = quiet_env" by (simp add: ex_bind_def ex_ident_def)
  have "mmc_runs (ex_bind quiet_env) ?w ([] @ accepted (Some 7) EFI_SUCCESS) w1"
    using call by (intro run_step [OF run_nil] step_call) (simp add: host)
  then have run: "mmc_runs (ex_bind quiet_env) ?w (([] @ accepted (Some 7) EFI_SUCCESS) @ []) (abort_queue EFI_ABORTED w1)"
    using reset by (rule_tac run_step) (auto intro: step_reset)
  have ok: "mmc_ok ?w" "queue_of ?w = []" by (simp_all add: mmc_ok_def ex_mmc_def gDwMmcHcTemplate_def)
  from mmc_requests_signalled_once [OF ok run] run show ?thesis
    by (auto simp: accepted_def ex_mmc_def waiting_def abort_events(2))
qed

end
