(* ===== verification/SplitterGraphics.thy ===== *)
theory SplitterGraphics
  imports SplitterOut
begin

text \<open>
  The graphics half of the console splitter (\<open>Drivers/ConSplitterDxe/ConSplitterGraphics.c\<close>): one virtual graphics output
  protocol and one virtual UGA draw protocol in front of those of the attached consoles.

  The mode structures of the attached devices and what their \<open>QueryMode\<close> answers come from the environment; a mode
  information that they hand out has the size of the structure.  A result \<open>None\<close> stands for the use of a null pointer (the
  mode structure exists once the constructor has succeeded) or of an entry outside an array.
\<close>

definition same_resolution :: "EFI_GRAPHICS_OUTPUT_MODE_INFORMATION \<Rightarrow> EFI_GRAPHICS_OUTPUT_MODE_INFORMATION \<Rightarrow> bool" where
  "same_resolution I J \<longleftrightarrow> HorizontalResolution I = HorizontalResolution J \<and> VerticalResolution I = VerticalResolution J"

definition attached :: "TEXT_OUT_SPLITTER_PRIVATE_DATA \<Rightarrow> TEXT_OUT_AND_GOP_DATA list" where
  "attached P = take (CurrentNumberOfConsoles P) (TextOutList P)"

section \<open>The mode number of a device\<close>

text \<open>The loop that looks for the mode of a device with a resolution: an error of \<open>QueryMode\<close> or the number, which is
  the number of modes when no mode has it.\<close>

fun search_mode :: "to_env \<Rightarrow> to_log \<Rightarrow> nat \<Rightarrow> nat \<Rightarrow> nat \<Rightarrow> nat \<Rightarrow> nat \<Rightarrow> efi_status + nat" where
  "search_mode env log d h v 0 NumberIndex = Inr NumberIndex"
| "search_mode env log d h v (Suc n) NumberIndex =
     (case gop_query env log d NumberIndex of (Status, Info) \<Rightarrow>
        if EFI_ERROR Status then Inl Status
        else if HorizontalResolution Info = h \<and> VerticalResolution Info = v then Inr NumberIndex
        else search_mode env log d h v n (Suc NumberIndex))"

definition find_gop_mode :: "to_env \<Rightarrow> to_log \<Rightarrow> nat \<Rightarrow> nat \<Rightarrow> nat \<Rightarrow> efi_status + nat" where
  "find_gop_mode env log d h v = search_mode env log d h v (DisplayMaxMode (gop_mode env log d)) 0"

section \<open>Setting a mode\<close>

text \<open>The loop over the consoles: each graphics output is set to its own mode of the resolution, each UGA draw protocol to
  the resolution.  An error of \<open>QueryMode\<close> ends it (\<open>Inl\<close>).  Kept are the last error and the last graphics output.\<close>

fun switch_all ::
  "to_env \<Rightarrow> nat \<Rightarrow> nat \<Rightarrow> nat \<Rightarrow> nat \<Rightarrow> TEXT_OUT_AND_GOP_DATA list \<Rightarrow> efi_status \<Rightarrow> nat option \<Rightarrow> splitter_state \<Rightarrow>
   (efi_status \<times> splitter_state) + (efi_status \<times> nat option \<times> splitter_state)" where
  "switch_all env h v Depth Rate [] ReturnStatus Physical s = Inr (ReturnStatus, Physical, s)"
| "switch_all env h v Depth Rate (d # ds) ReturnStatus Physical s =
     (case GopDevice d of
        Some GraphicsOutput \<Rightarrow>
          (case find_gop_mode env (to_calls s) GraphicsOutput h v of
             Inl Status \<Rightarrow> Inl (Status, s)
           | Inr NumberIndex \<Rightarrow>
               (let (Status, s1) = call_console env GraphicsOutput (GSetMode NumberIndex) s
                in switch_all env h v Depth Rate ds (if EFI_ERROR Status then Status else ReturnStatus) (Some GraphicsOutput) s1))
      | None \<Rightarrow>
          (case (if PcdUgaConsumeSupport env then UgaDevice d else None) of
             Some UgaDraw \<Rightarrow>
               (let (Status, s1) = call_console env UgaDraw (USetMode h v Depth Rate) s
                in switch_all env h v Depth Rate ds (if EFI_ERROR Status then Status else ReturnStatus) Physical s1)
           | None \<Rightarrow> switch_all env h v Depth Rate ds ReturnStatus Physical s))"

text \<open>The mode structure afterwards: that of the only physical graphics output, or the entry of the mode buffer.\<close>

definition mode_shown ::
  "to_env \<Rightarrow> to_log \<Rightarrow> TEXT_OUT_SPLITTER_PRIVATE_DATA \<Rightarrow> nat option \<Rightarrow> nat \<Rightarrow> EFI_GRAPHICS_OUTPUT_PROTOCOL_MODE \<Rightarrow>
   EFI_GRAPHICS_OUTPUT_PROTOCOL_MODE" where
  "mode_shown env log P Physical ModeNumber M =
     (case Physical of
        Some g \<Rightarrow>
          if CurrentNumberOfGraphicsOutput P = 1
          then M\<lparr>DisplayMode := ModeNumber, ModeInfo := Some (gop_info env log g), SizeOfInfo := SizeOfInfo (gop_mode env log g),
                 FrameBufferBase := FrameBufferBase (gop_mode env log g), FrameBufferSize := FrameBufferSize (gop_mode env log g)\<rparr>
          else M\<lparr>DisplayMode := ModeNumber, ModeInfo := Some (GraphicsOutputModeBuffer P ! ModeNumber)\<rparr>
      | None \<Rightarrow> M\<lparr>DisplayMode := ModeNumber, ModeInfo := Some (GraphicsOutputModeBuffer P ! ModeNumber)\<rparr>)"

definition set_graphics_mode :: "splitter \<Rightarrow> EFI_GRAPHICS_OUTPUT_PROTOCOL_MODE \<Rightarrow> splitter_state \<Rightarrow> splitter_state" where
  "set_graphics_mode k M s = set_priv k ((priv k s)\<lparr>GraphicsOutputMode := Some M\<rparr>) s"

definition ConSplitterGraphicsOutputSetMode ::
  "to_env \<Rightarrow> splitter \<Rightarrow> nat \<Rightarrow> splitter_state \<Rightarrow> (efi_status \<times> splitter_state) option" where
  "ConSplitterGraphicsOutputSetMode env k ModeNumber s =
     (let P = priv k s in
      Option.bind (GraphicsOutputMode P) (\<lambda>M.
        if DisplayMaxMode M \<le> ModeNumber then Some (EFI_UNSUPPORTED, s)
        else if length (GraphicsOutputModeBuffer P) \<le> ModeNumber then None
        else let I = GraphicsOutputModeBuffer P ! ModeNumber in
             case switch_all env (HorizontalResolution I) (VerticalResolution I) 32 60 (attached P) EFI_SUCCESS None s of
               Inl r \<Rightarrow> Some r
             | Inr (ReturnStatus, Physical, s1) \<Rightarrow>
                 if ModeInfo M = None then None
                 else Some (ReturnStatus, set_graphics_mode k (mode_shown env (to_calls s1) P Physical ModeNumber M) s1)))"

section \<open>Asking for a mode\<close>

definition only_gop :: "TEXT_OUT_SPLITTER_PRIVATE_DATA \<Rightarrow> nat option" where
  "only_gop P =
     (if CurrentNumberOfGraphicsOutput P = 1
      then Option.bind (List.find (\<lambda>d. GopDevice d \<noteq> None) (attached P)) GopDevice
      else None)"

text \<open>\<open>Valid\<close>: none of the three pointers is null.\<close>

definition ConSplitterGraphicsOutputQueryMode ::
  "to_env \<Rightarrow> splitter \<Rightarrow> bool \<Rightarrow> nat \<Rightarrow> splitter_state \<Rightarrow>
   (efi_status \<times> EFI_GRAPHICS_OUTPUT_MODE_INFORMATION option \<times> splitter_state) option" where
  "ConSplitterGraphicsOutputQueryMode env k Valid ModeNumber s =
     (let P = priv k s; s1 = s\<lparr>to_allocs := Suc (to_allocs s)\<rparr> in
      if \<not> Valid then Some (EFI_INVALID_PARAMETER, None, s)
      else Option.bind (GraphicsOutputMode P) (\<lambda>M.
        if DisplayMaxMode M \<le> ModeNumber then Some (EFI_INVALID_PARAMETER, None, s)
        else case only_gop P of
               Some g \<Rightarrow> (case gop_query env (to_calls s) g ModeNumber of
                   (Status, Info) \<Rightarrow> Some (Status, if EFI_ERROR Status then None else Some Info, s))
             | None \<Rightarrow>
                 if \<not> alloc_ok env (to_allocs s) then Some (EFI_OUT_OF_RESOURCES, None, s1)
                 else if length (GraphicsOutputModeBuffer P) \<le> ModeNumber then None
                 else Some (EFI_SUCCESS, Some (GraphicsOutputModeBuffer P ! ModeNumber), s1)))"

section \<open>Block transfers\<close>

definition EfiBltVideoToBltBuffer :: nat where
  "EfiBltVideoToBltBuffer = 1"

definition EfiGraphicsOutputBltOperationMax :: nat where
  "EfiGraphicsOutputBltOperationMax = 4"

text \<open>The transfer on one protocol of a console, if it has it: whether the data of a read is there, so that the loop ends,
  the status for the caller, and the state.\<close>

definition blt_on ::
  "to_env \<Rightarrow> nat option \<Rightarrow> to_call \<Rightarrow> nat \<Rightarrow> efi_status \<Rightarrow> splitter_state \<Rightarrow> bool \<times> efi_status \<times> splitter_state" where
  "blt_on env dev c BltOperation ReturnStatus s =
     (case dev of
        None \<Rightarrow> (False, ReturnStatus, s)
      | Some d \<Rightarrow> (let (Status, s1) = call_console env d c s in
          if EFI_ERROR Status then (False, Status, s1)
          else if BltOperation = EfiBltVideoToBltBuffer then (True, EFI_SUCCESS, s1)
          else (False, ReturnStatus, s1)))"

fun blt_all ::
  "to_env \<Rightarrow> nat \<Rightarrow> nat list \<Rightarrow> TEXT_OUT_AND_GOP_DATA list \<Rightarrow> efi_status \<Rightarrow> splitter_state \<Rightarrow> efi_status \<times> splitter_state" where
  "blt_all env BltOperation args [] ReturnStatus s = (ReturnStatus, s)"
| "blt_all env BltOperation args (d # ds) ReturnStatus s =
     (case blt_on env (GopDevice d) (GBlt BltOperation args) BltOperation ReturnStatus s of
        (True, Status, s1) \<Rightarrow> (Status, s1)
      | (False, Status, s1) \<Rightarrow>
          (case blt_on env (if PcdUgaConsumeSupport env then UgaDevice d else None) (UBlt BltOperation args) BltOperation Status s1 of
             (True, Status, s2) \<Rightarrow> (Status, s2)
           | (False, Status, s2) \<Rightarrow> blt_all env BltOperation args ds Status s2))"

text \<open>The arguments besides the operation: the buffer, the source, the destination, the size and the row length of the buffer.
  \<open>Valid\<close>: the protocol pointer is not null.\<close>

definition ConSplitterGraphicsOutputBlt ::
  "to_env \<Rightarrow> splitter \<Rightarrow> bool \<Rightarrow> nat \<Rightarrow> nat list \<Rightarrow> splitter_state \<Rightarrow> efi_status \<times> splitter_state" where
  "ConSplitterGraphicsOutputBlt env k Valid BltOperation args s =
     (if \<not> Valid \<or> EfiGraphicsOutputBltOperationMax \<le> BltOperation then (EFI_INVALID_PARAMETER, s)
      else blt_all env BltOperation args (attached (priv k s)) EFI_SUCCESS s)"

section \<open>The UGA draw protocol\<close>

definition ConSplitterUgaDrawGetMode :: "splitter \<Rightarrow> bool \<Rightarrow> splitter_state \<Rightarrow> efi_status \<times> (nat \<times> nat \<times> nat \<times> nat) option" where
  "ConSplitterUgaDrawGetMode k Valid s =
     (let P = priv k s in
      if \<not> Valid then (EFI_INVALID_PARAMETER, None)
      else (EFI_SUCCESS, Some (UgaHorizontalResolution P, UgaVerticalResolution P, UgaColorDepth P, UgaRefreshRate P)))"

definition set_uga_mode :: "splitter \<Rightarrow> nat \<times> nat \<times> nat \<times> nat \<Rightarrow> splitter_state \<Rightarrow> splitter_state" where
  "set_uga_mode k = (\<lambda>(h, v, Depth, Rate) s. set_priv k ((priv k s)\<lparr>UgaHorizontalResolution := h, UgaVerticalResolution := v,
     UgaColorDepth := Depth, UgaRefreshRate := Rate\<rparr>) s)"

definition ConSplitterUgaDrawSetMode ::
  "to_env \<Rightarrow> splitter \<Rightarrow> nat \<times> nat \<times> nat \<times> nat \<Rightarrow> splitter_state \<Rightarrow> efi_status \<times> splitter_state" where
  "ConSplitterUgaDrawSetMode env k = (\<lambda>(h, v, Depth, Rate) s.
     case switch_all env h v Depth Rate (attached (priv k s)) EFI_SUCCESS None (set_uga_mode k (h, v, Depth, Rate) s) of
       Inl r \<Rightarrow> r
     | Inr (ReturnStatus, _, s1) \<Rightarrow> (ReturnStatus, s1))"

definition ConSplitterUgaDrawBlt ::
  "to_env \<Rightarrow> splitter \<Rightarrow> nat \<Rightarrow> nat list \<Rightarrow> splitter_state \<Rightarrow> efi_status \<times> splitter_state" where
  "ConSplitterUgaDrawBlt env k BltOperation args s = blt_all env BltOperation args (attached (priv k s)) EFI_SUCCESS s"

end
