(* ===== verification/SplitterAttach.thy ===== *)
theory SplitterAttach
  imports SplitterGraphics
begin

text \<open>
  Attaching a console to one of the two output splitters (\<open>Drivers/ConSplitterDxe/ConSplitter.c\<close>): the common table of
  graphics modes (\<open>ConSplitterAddGraphicsOutputMode\<close>), the attachment itself (\<open>ConSplitterTextOutAddDevice\<close>) and the
  splitter without consoles (\<open>ConSplitterTextOutConstructor\<close>).

  As in \<open>SplitterGraphics\<close>, \<open>None\<close> is the use of a null pointer or of an entry outside an array.
\<close>

section \<open>The graphics modes of the first device\<close>

definition next_alloc :: "splitter_state \<Rightarrow> splitter_state" where
  "next_alloc s = s\<lparr>to_allocs := Suc (to_allocs s)\<rparr>"

fun fill_modes ::
  "to_env \<Rightarrow> to_log \<Rightarrow> nat \<Rightarrow> nat \<Rightarrow> nat \<Rightarrow> EFI_GRAPHICS_OUTPUT_MODE_INFORMATION list \<Rightarrow>
   efi_status \<times> EFI_GRAPHICS_OUTPUT_MODE_INFORMATION list" where
  "fill_modes env log g 0 Index buf = (EFI_SUCCESS, buf)"
| "fill_modes env log g (Suc n) Index buf =
     (case gop_query env log g Index of (Status, Info) \<Rightarrow>
        if EFI_ERROR Status then (Status, buf) else fill_modes env log g n (Suc Index) (buf[Index := Info]))"

definition first_gop ::
  "to_env \<Rightarrow> splitter \<Rightarrow> nat \<Rightarrow> EFI_GRAPHICS_OUTPUT_PROTOCOL_MODE \<Rightarrow> splitter_state \<Rightarrow> (efi_status \<times> splitter_state) option" where
  "first_gop env k g M s =
     (let D = gop_mode env (to_calls s) g;
          P1 = (priv k s)\<lparr>GraphicsOutputMode := Some (M\<lparr>DisplayMaxMode := DisplayMaxMode D, DisplayMode := DisplayMode D,
                 ModeInfo := Some (gop_info env (to_calls s) g), SizeOfInfo := SizeOfInfo D,
                 FrameBufferBase := FrameBufferBase D, FrameBufferSize := FrameBufferSize D\<rparr>)\<rparr>;
          s1 = next_alloc (set_priv k P1 s);
          (Status, buf) = fill_modes env (to_calls s) g (DisplayMaxMode D) 0 (replicate (DisplayMaxMode D) (junk_info env))
      in if ModeInfo M = None then None
         else if \<not> alloc_ok env (to_allocs s) then Some (EFI_OUT_OF_RESOURCES, s1)
         else Some (Status, set_priv k (P1\<lparr>GraphicsOutputModeBuffer := buf\<rparr>) s1))"

section \<open>The modes common to all devices\<close>

definition blt_only :: "EFI_GRAPHICS_OUTPUT_MODE_INFORMATION \<Rightarrow> EFI_GRAPHICS_OUTPUT_MODE_INFORMATION" where
  "blt_only I = I\<lparr>InfoPixelFormat := PixelBltOnly,
     PixelInformation := \<lparr>RedMask = 0, GreenMask = 0, BlueMask = 0, ReservedMask = 0\<rparr>\<rparr>"

text \<open>The modes of the table that the new device has too, each resolution once.\<close>

fun match_modes ::
  "to_env \<Rightarrow> to_log \<Rightarrow> nat \<Rightarrow> EFI_GRAPHICS_OUTPUT_MODE_INFORMATION list \<Rightarrow> EFI_GRAPHICS_OUTPUT_MODE_INFORMATION list \<Rightarrow>
   efi_status + EFI_GRAPHICS_OUTPUT_MODE_INFORMATION list" where
  "match_modes env log g [] matched = Inr matched"
| "match_modes env log g (Mode # Modes) matched =
     (case find_gop_mode env log g (HorizontalResolution Mode) (VerticalResolution Mode) of
        Inl Status \<Rightarrow> Inl Status
      | Inr i \<Rightarrow> match_modes env log g Modes
          (if i < DisplayMaxMode (gop_mode env log g) \<and> \<not> list_ex (same_resolution Mode) matched
           then matched @ [(blt_only Mode)\<lparr>InfoVersion := 0\<rparr>] else matched))"

definition next_gop ::
  "to_env \<Rightarrow> splitter \<Rightarrow> nat \<Rightarrow> EFI_GRAPHICS_OUTPUT_PROTOCOL_MODE \<Rightarrow> splitter_state \<Rightarrow> (efi_status \<times> splitter_state) option" where
  "next_gop env k g M s =
     (let P = priv k s; s1 = next_alloc s in
      if \<not> alloc_ok env (to_allocs s) then Some (EFI_OUT_OF_RESOURCES, s1)
      else case match_modes env (to_calls s) g (take (DisplayMaxMode M) (GraphicsOutputModeBuffer P)) [] of
             Inl Status \<Rightarrow> Some (Status, s1)
           | Inr matched \<Rightarrow> map_option (\<lambda>Info. (EFI_SUCCESS, set_priv k
               (P\<lparr>GraphicsOutputModeBuffer := matched @ replicate (DisplayMaxMode M - length matched) (junk_info env),
                  GraphicsOutputMode := Some (M\<lparr>DisplayMaxMode := length matched, ModeInfo := Some (blt_only Info),
                    SizeOfInfo := sizeof_MODE_INFORMATION, FrameBufferBase := 0, FrameBufferSize := 0\<rparr>)\<rparr>) s1)) (ModeInfo M))"

text \<open>The number of the mode the new device shows, or of 800 by 600, or 0.\<close>

definition current_index :: "to_env \<Rightarrow> splitter \<Rightarrow> nat \<Rightarrow> splitter_state \<Rightarrow> nat" where
  "current_index env k g s =
     (let buf = GraphicsOutputModeBuffer (priv k s); n = (case GraphicsOutputMode (priv k s) of None \<Rightarrow> 0 | Some M \<Rightarrow> DisplayMaxMode M);
          D = gop_info env (to_calls s) g
      in case List.find (\<lambda>i. same_resolution (buf ! i) D) [0..<n] of
           Some i \<Rightarrow> i
         | None \<Rightarrow> (case List.find (\<lambda>i. HorizontalResolution (buf ! i) = 800 \<and> VerticalResolution (buf ! i) = 600) [0..<n] of
               Some i \<Rightarrow> i | None \<Rightarrow> 0))"

section \<open>The only mode with a UGA draw protocol\<close>

definition uga_only ::
  "to_env \<Rightarrow> splitter \<Rightarrow> nat \<Rightarrow> EFI_GRAPHICS_OUTPUT_PROTOCOL_MODE \<Rightarrow> splitter_state \<Rightarrow> splitter_state option" where
  "uga_only env k u M s =
     (let P = priv k s; (_, h, v, _, _) = uga_get_mode env (to_calls s) u in
      Option.bind (ModeInfo M) (\<lambda>I.
        let Info = I\<lparr>InfoVersion := 0, HorizontalResolution := h, VerticalResolution := v, InfoPixelFormat := PixelBltOnly,
              InfoPixelsPerScanLine := h\<rparr>
        in if GraphicsOutputModeBuffer P = [] then None
           else Some (set_priv k (P\<lparr>GraphicsOutputModeBuffer := (GraphicsOutputModeBuffer P)[0 := Info],
             GraphicsOutputMode := Some (M\<lparr>DisplayMaxMode := 1, ModeInfo := Some Info, SizeOfInfo := sizeof_MODE_INFORMATION,
               FrameBufferBase := 0, FrameBufferSize := 0\<rparr>)\<rparr>) s)))"

section \<open>Setting the common mode\<close>

text \<open>The label \<open>Done\<close>: when the splitter's mode is the chosen one, only the new device is switched; otherwise all are.\<close>

definition switch_new ::
  "to_env \<Rightarrow> splitter \<Rightarrow> nat \<Rightarrow> nat \<Rightarrow> EFI_GRAPHICS_OUTPUT_PROTOCOL_MODE \<Rightarrow> splitter_state \<Rightarrow> efi_status \<times> splitter_state" where
  "switch_new env k g CurrentIndex M s =
     (let I = GraphicsOutputModeBuffer (priv k s) ! CurrentIndex;
          s1 = set_graphics_mode k (M\<lparr>DisplayMode := CurrentIndex\<rparr>) s
      in if same_resolution I (gop_info env (to_calls s1) g) then (EFI_SUCCESS, s1)
         else case find_gop_mode env (to_calls s1) g (HorizontalResolution I) (VerticalResolution I) of
                Inl Status \<Rightarrow> (Status, s1)
              | Inr NumberIndex \<Rightarrow> call_console env g (GSetMode NumberIndex) s1)"

definition switch_or_default ::
  "to_env \<Rightarrow> splitter \<Rightarrow> nat \<Rightarrow> EFI_GRAPHICS_OUTPUT_PROTOCOL_MODE \<Rightarrow> splitter_state \<Rightarrow> (efi_status \<times> splitter_state) option" where
  "switch_or_default env k CurrentIndex M s =
     Option.bind (ConSplitterGraphicsOutputSetMode env k CurrentIndex (set_graphics_mode k (M\<lparr>DisplayMode := 0xffff\<rparr>) s))
       (\<lambda>(Status, s1).
         if \<not> EFI_ERROR Status then Some (Status, s1)
         else let P = priv k s1; buf = GraphicsOutputModeBuffer P
              in if buf = [] then None
                 else ConSplitterGraphicsOutputSetMode env k 0
                        (set_priv k (P\<lparr>GraphicsOutputModeBuffer := buf[0 := (buf ! 0)\<lparr>HorizontalResolution := 800, VerticalResolution := 600\<rparr>]\<rparr>) s1))"

definition force_mode ::
  "to_env \<Rightarrow> splitter \<Rightarrow> nat option \<Rightarrow> nat option \<Rightarrow> nat \<Rightarrow> splitter_state \<Rightarrow> (efi_status \<times> splitter_state) option" where
  "force_mode env k GraphicsOutput UgaDraw CurrentIndex s =
     (let P = (priv k s)\<lparr>
            CurrentNumberOfGraphicsOutput := wrap (CurrentNumberOfGraphicsOutput (priv k s) + (if GraphicsOutput \<noteq> None then 1 else 0)),
            CurrentNumberOfUgaDraw := wrap (CurrentNumberOfUgaDraw (priv k s) + (if UgaDraw \<noteq> None then 1 else 0))\<rparr>;
          s1 = set_priv k P s
      in Option.bind (GraphicsOutputMode P) (\<lambda>M.
           case GraphicsOutput of
             None \<Rightarrow> switch_or_default env k CurrentIndex M s1
           | Some g \<Rightarrow>
               if length (GraphicsOutputModeBuffer P) \<le> CurrentIndex then None
               else Option.bind (ModeInfo M) (\<lambda>I.
                 if same_resolution (GraphicsOutputModeBuffer P ! CurrentIndex) I then Some (switch_new env k g CurrentIndex M s1)
                 else switch_or_default env k CurrentIndex M s1)))"

definition ConSplitterAddGraphicsOutputMode ::
  "to_env \<Rightarrow> splitter \<Rightarrow> nat option \<Rightarrow> nat option \<Rightarrow> splitter_state \<Rightarrow> (efi_status \<times> splitter_state) option" where
  "ConSplitterAddGraphicsOutputMode env k GraphicsOutput UgaDraw s =
     (let P = priv k s; finish = force_mode env k GraphicsOutput UgaDraw in
      Option.bind (GraphicsOutputMode P) (\<lambda>M.
        if CurrentNumberOfUgaDraw P \<noteq> 0 then finish 0 s
        else case GraphicsOutput of
          Some g \<Rightarrow> Option.bind ((if CurrentNumberOfGraphicsOutput P = 0 then first_gop else next_gop) env k g M s)
              (\<lambda>(Status, s1). if EFI_ERROR Status then Some (Status, s1) else finish (current_index env k g s1) s1)
        | None \<Rightarrow> (case UgaDraw of
            Some u \<Rightarrow> Option.bind (uga_only env k u M s) (finish 0)
          | None \<Rightarrow> finish 0 s)))"

section \<open>Attaching a console\<close>

text \<open>The list of consoles and the mode map grow while the list is full.\<close>

function grow_consoles :: "to_env \<Rightarrow> splitter \<Rightarrow> splitter_state \<Rightarrow> efi_status \<times> splitter_state" where
  "grow_consoles env k s =
     (let P = priv k s in
      if TextOutListCount P \<le> CurrentNumberOfConsoles P
      then (case ConSplitterGrowBuffer (alloc_ok env (to_allocs s)) (junk_console env) (TextOutListCount P) (TextOutList P) of
              (st, n, list) \<Rightarrow>
                let s1 = next_alloc s in
                if EFI_ERROR st then (EFI_OUT_OF_RESOURCES, s1)
                else case ConSplitterGrowMapTable env k (set_priv k ((priv k s1)\<lparr>TextOutListCount := n, TextOutList := list\<rparr>) s1) of
                  (st, s2) \<Rightarrow> if EFI_ERROR st then (EFI_OUT_OF_RESOURCES, s2) else grow_consoles env k s2)
      else (EFI_SUCCESS, s))"
  by pat_completeness auto
termination
proof (relation "measure (\<lambda>(env, k, s). Suc (CurrentNumberOfConsoles (priv k s)) - TextOutListCount (priv k s))")
qed (auto simp: ConSplitterGrowBuffer_def ConSplitterGrowMapTable_def CONSOLE_SPLITTER_ALLOC_UNIT_def priv_def set_priv_def next_alloc_def Let_def
      split: splitter.splits if_splits)

declare grow_consoles.simps [simp del]

text \<open>The mode of the UGA draw protocol that the splitter publishes: the status replaces that of the attachment, and an error
  of \<open>QueryMode\<close> ends it (\<open>Inl\<close>).\<close>

definition update_uga ::
  "to_env \<Rightarrow> splitter \<Rightarrow> nat option \<Rightarrow> nat option \<Rightarrow> efi_status \<Rightarrow> splitter_state \<Rightarrow>
   (efi_status \<times> splitter_state) + (efi_status \<times> splitter_state)" where
  "update_uga env k GraphicsOutput UgaDraw DeviceStatus s =
     (if \<not> PcdConOutUgaSupport env then Inr (EFI_DEVICE_ERROR, s)
      else case GraphicsOutput of
        Some g \<Rightarrow>
          (let Status = fst (gop_query env (to_calls s) g (DisplayMode (gop_mode env (to_calls s) g)))
           in if EFI_ERROR Status then Inl (Status, s) else Inr (Status, s))
      | None \<Rightarrow>
          (case UgaDraw of
             None \<Rightarrow> Inr (EFI_DEVICE_ERROR, s)
           | Some u \<Rightarrow>
               (let (Status, mode) = uga_get_mode env (to_calls s) u;
                    (Status, s1) = (if \<not> EFI_ERROR Status \<and> EFI_ERROR DeviceStatus
                                    then ConSplitterUgaDrawSetMode env k mode s else (Status, s))
                in Inr (if EFI_ERROR Status then ConSplitterUgaDrawSetMode env k (800, 600, 32, 60) s1 else (Status, s1)))))"

text \<open>The protocols are published with the first device, on the handle of \<open>mConOut\<close>.\<close>

definition publish_graphics ::
  "to_env \<Rightarrow> splitter \<Rightarrow> efi_status \<Rightarrow> efi_status \<Rightarrow> splitter_state \<Rightarrow> efi_status \<times> splitter_state" where
  "publish_graphics env k DeviceStatus Status s =
     (if (\<not> EFI_ERROR DeviceStatus \<or> \<not> EFI_ERROR Status) \<and>
         wrap (CurrentNumberOfGraphicsOutput (priv k s) + CurrentNumberOfUgaDraw (priv k s)) = 1
      then call_console env 0 (case graphics_protocols env of (gop, uga) \<Rightarrow> CInstallGraphics gop uga) s
      else (Status, s))"

definition set_adding :: "splitter \<Rightarrow> bool \<Rightarrow> splitter_state \<Rightarrow> splitter_state" where
  "set_adding k b s = set_priv k ((priv k s)\<lparr>AddingConOutDevice := b\<rparr>) s"

text \<open>The new entry behind the list; the modes of the first console make the table, those of a further one are matched
  with it.\<close>

definition add_console :: "to_env \<Rightarrow> splitter \<Rightarrow> TEXT_OUT_AND_GOP_DATA \<Rightarrow> splitter_state \<Rightarrow> splitter_state" where
  "add_console env k d s =
     (let P = priv k s; n = CurrentNumberOfConsoles P;
          s1 = set_priv k (P\<lparr>TextOutList := (TextOutList P)[n := d]\<rparr>) s;
          s2 = (if n = 0 then snd (ConSplitterAddOutputMode env k (TextOutDevice d) s1)
                else ConSplitterSyncOutputMode env k (TextOutDevice d) s1)
      in set_priv k ((priv k s2)\<lparr>CurrentNumberOfConsoles := n + 1\<rparr>) s2)"

definition ConSplitterTextOutAddDevice ::
  "to_env \<Rightarrow> splitter \<Rightarrow> nat \<Rightarrow> nat option \<Rightarrow> nat option \<Rightarrow> splitter_state \<Rightarrow> (efi_status \<times> splitter_state) option" where
  "ConSplitterTextOutAddDevice env k TextOut GraphicsOutput UgaDraw s =
     (let (Status, s1) = grow_consoles env k (set_adding k True s) in
      if EFI_ERROR Status then Some (EFI_OUT_OF_RESOURCES, s1)
      else let s2 = add_console env k \<lparr>GopDevice = GraphicsOutput, UgaDevice = UgaDraw, TextOutDevice = TextOut\<rparr> s1;
               s3 = snd (ConSplitterGetIntersectionBetweenConOutAndStrErr env s2)
      in Option.bind (if GraphicsOutput \<noteq> None \<or> UgaDraw \<noteq> None
                      then ConSplitterAddGraphicsOutputMode env k GraphicsOutput UgaDraw s3 else Some (EFI_DEVICE_ERROR, s3))
           (\<lambda>(DeviceStatus, s4).
             case update_uga env k GraphicsOutput UgaDraw DeviceStatus s4 of
               Inl r \<Rightarrow> Some r
             | Inr (Status, s5) \<Rightarrow>
                 let (Status, s6) = publish_graphics env k DeviceStatus Status s5
                 in Some (Status, set_adding k False (ConsplitterSetConsoleOutMode env k s6))))"

section \<open>The splitter without consoles\<close>

definition sized_info :: "nat \<Rightarrow> nat \<Rightarrow> EFI_GRAPHICS_OUTPUT_MODE_INFORMATION" where
  "sized_info h v = \<lparr>InfoVersion = 0, HorizontalResolution = h, VerticalResolution = v, InfoPixelFormat = PixelRedGreenBlueReserved8BitPerColor,
     PixelInformation = \<lparr>RedMask = 0, GreenMask = 0, BlueMask = 0, ReservedMask = 0\<rparr>, InfoPixelsPerScanLine = h\<rparr>"

definition zero_mode :: EFI_GRAPHICS_OUTPUT_PROTOCOL_MODE where
  "zero_mode = \<lparr>DisplayMaxMode = 0, DisplayMode = 0, ModeInfo = None, SizeOfInfo = 0, FrameBufferBase = 0, FrameBufferSize = 0\<rparr>"

text \<open>The graphics output half of the constructor; the result of the last \<open>SetMode\<close> is not looked at.\<close>

definition construct_graphics :: "to_env \<Rightarrow> splitter \<Rightarrow> splitter_state \<Rightarrow> (efi_status \<times> splitter_state) option" where
  "construct_graphics env k s =
     (let s1 = next_alloc s;
          s2 = next_alloc (set_graphics_mode k zero_mode s1);
          Zero = sized_info 0 0;
          s3 = next_alloc (set_graphics_mode k (zero_mode\<lparr>ModeInfo := Some Zero\<rparr>) s2);
          Info = (sized_info 800 600)\<lparr>InfoPixelFormat := PixelBltOnly\<rparr>;
          M = zero_mode\<lparr>ModeInfo := Some Info, SizeOfInfo := sizeof_MODE_INFORMATION, DisplayMaxMode := 1, DisplayMode := 0xffff\<rparr>;
          s4 = set_graphics_mode k M (set_priv k ((priv k s3)\<lparr>GraphicsOutputModeBuffer := [Info]\<rparr>) s3)
      in if \<not> alloc_ok env (to_allocs s) then Some (EFI_OUT_OF_RESOURCES, s1)
         else if \<not> alloc_ok env (to_allocs s1) then Some (EFI_OUT_OF_RESOURCES, s2)
         else if \<not> alloc_ok env (to_allocs s2) then Some (EFI_OUT_OF_RESOURCES, s3)
         else map_option (\<lambda>(_, s5). (EFI_SUCCESS, s5)) (ConSplitterGraphicsOutputSetMode env k 0 s4))"

definition ConSplitterTextOutConstructor :: "to_env \<Rightarrow> splitter \<Rightarrow> splitter_state \<Rightarrow> (efi_status \<times> splitter_state) option" where
  "ConSplitterTextOutConstructor env k s =
     (let s0 = set_mode_data k (\<lambda>t. t\<lparr>CurMode := 0xff\<rparr>) s; P = priv k s0;
          (st, n, list) = ConSplitterGrowBuffer (alloc_ok env (to_allocs s0)) (junk_console env) (TextOutListCount P) (TextOutList P);
          P1 = P\<lparr>TextOutListCount := n, TextOutList := list\<rparr>; s1 = next_alloc (set_priv k P1 s0);
          (st', n', data) = ConSplitterGrowBuffer (alloc_ok env (to_allocs s1)) (junk_query env) (TextOutQueryDataCount P1) (TextOutQueryData P1);
          P2 = P1\<lparr>TextOutQueryDataCount := n', TextOutQueryData := data\<rparr>; s2 = next_alloc (set_priv k P2 s1);
          s3 = TextOutSetMode k 0 (set_priv k (P2\<lparr>TextOutQueryData := (TextOutQueryData P2)[0 := \<lparr>QColumns = 80, QRows = 25\<rparr>]\<rparr>) s2);
          s4 = (if PcdConOutUgaSupport env then snd (ConSplitterUgaDrawSetMode env k (800, 600, 32, 60) s3) else s3)
      in if EFI_ERROR st then Some (EFI_OUT_OF_RESOURCES, s1)
         else if EFI_ERROR st' then Some (EFI_OUT_OF_RESOURCES, s2)
         else if PcdConOutGopSupport env then construct_graphics env k s4 else Some (EFI_SUCCESS, s4))"

text \<open>The initial values of \<open>mConOut\<close> and \<open>mStdErr\<close>.\<close>

definition fresh_splitter :: TEXT_OUT_SPLITTER_PRIVATE_DATA where
  "fresh_splitter = \<lparr>TextOutMode = \<lparr>MaxMode = 1, CurMode = 0, Attribute = 0, CursorColumn = 0, CursorRow = 0, CursorVisible = False\<rparr>,
     UgaHorizontalResolution = 0, UgaVerticalResolution = 0, UgaColorDepth = 0, UgaRefreshRate = 0,
     GraphicsOutputMode = None, GraphicsOutputModeBuffer = [], CurrentNumberOfGraphicsOutput = 0, CurrentNumberOfUgaDraw = 0,
     CurrentNumberOfConsoles = 0, TextOutList = [], TextOutListCount = 0, TextOutQueryData = [], TextOutQueryDataCount = 0,
     TextOutModeMap = None, AddingConOutDevice = False\<rparr>"

end
