(* ===== verification/SplitterGraphicsCorrect.thy ===== *)
theory SplitterGraphicsCorrect
  imports SplitterOutCorrect SplitterAttach SimpleFb "HOL-Library.Sublist"
begin

text \<open>
  The graphics half of the console splitter over graphics outputs that keep to their protocol: the common table of
  modes, setting a mode on all devices, block transfers.
\<close>

section \<open>Graphics outputs\<close>

text \<open>What the splitter relies on: the number of modes and what \<open>QueryMode\<close> answers for them do not depend on the calls made
  so far, and a query for a mode succeeds.\<close>

definition modes_of :: "to_env \<Rightarrow> nat \<Rightarrow> EFI_GRAPHICS_OUTPUT_MODE_INFORMATION list" where
  "modes_of env g = map (\<lambda>i. snd (gop_query env [] g i)) [0..<DisplayMaxMode (gop_mode env [] g)]"

definition resolution :: "EFI_GRAPHICS_OUTPUT_MODE_INFORMATION \<Rightarrow> nat \<times> nat" where
  "resolution I = (HorizontalResolution I, VerticalResolution I)"

definition offers :: "to_env \<Rightarrow> nat \<Rightarrow> nat \<times> nat \<Rightarrow> bool" where
  "offers env g r \<longleftrightarrow> r \<in> set (map resolution (modes_of env g))"

definition mode_number :: "to_env \<Rightarrow> nat \<Rightarrow> nat \<times> nat \<Rightarrow> nat" where
  "mode_number env g r = length (takeWhile (\<lambda>I. resolution I \<noteq> r) (modes_of env g))"

lemma same_resolution_iff: "same_resolution I J \<longleftrightarrow> resolution I = resolution J"
  by (simp add: same_resolution_def resolution_def)

lemma resolution_blt_only [simp]: "resolution (blt_only I) = resolution I" "resolution (I\<lparr>InfoVersion := n\<rparr>) = resolution I"
  by (simp_all add: resolution_def blt_only_def)

lemma length_takeWhile_less: "\<exists>x\<in>set xs. \<not> P x \<Longrightarrow> length (takeWhile P xs) < length xs"
  by (induction xs) auto

lemma mode_number_offered:
  assumes "offers env g r"
  shows "mode_number env g r < length (modes_of env g)" "resolution (modes_of env g ! mode_number env g r) = r"
proof -
  let ?P = "\<lambda>I. resolution I \<noteq> r" and ?xs = "modes_of env g"
  show less: "mode_number env g r < length ?xs"
    using assms by (auto simp: mode_number_def offers_def intro!: length_takeWhile_less)
  show "resolution (?xs ! mode_number env g r) = r"
    using nth_length_takeWhile [of ?P ?xs] less by (simp add: mode_number_def)
qed

lemma mode_number_not_offered: "\<not> offers env g r \<Longrightarrow> mode_number env g r = length (modes_of env g)"
  by (auto simp: mode_number_def offers_def intro!: arg_cong [where f = length])

text \<open>The calls that set all devices to a resolution, in the order of the consoles, and the last graphics output.\<close>

definition switch_calls :: "to_env \<Rightarrow> nat \<Rightarrow> nat \<Rightarrow> nat \<Rightarrow> nat \<Rightarrow> TEXT_OUT_AND_GOP_DATA list \<Rightarrow> (nat \<times> to_call) list" where
  "switch_calls env h v Depth Rate ds = concat (map (\<lambda>d. case GopDevice d of
       Some g \<Rightarrow> [(g, GSetMode (mode_number env g (h, v)))]
     | None \<Rightarrow> (case (if PcdUgaConsumeSupport env then UgaDevice d else None) of
         Some u \<Rightarrow> [(u, USetMode h v Depth Rate)] | None \<Rightarrow> [])) ds)"

definition last_gop :: "TEXT_OUT_AND_GOP_DATA list \<Rightarrow> nat option \<Rightarrow> nat option" where
  "last_gop ds g = fold (\<lambda>d g. if GopDevice d = None then g else GopDevice d) ds g"

locale graphics_outputs =
  fixes env :: to_env
  assumes same_number: "DisplayMaxMode (gop_mode env log g) = DisplayMaxMode (gop_mode env [] g)"
    and same_modes: "i < DisplayMaxMode (gop_mode env [] g) \<Longrightarrow> gop_query env log g i = gop_query env [] g i"
    and query_succeeds: "i < DisplayMaxMode (gop_mode env [] g) \<Longrightarrow> fst (gop_query env [] g i) = EFI_SUCCESS"
begin

lemma query:
  assumes "i < DisplayMaxMode (gop_mode env [] g)"
  shows "gop_query env log g i = (EFI_SUCCESS, modes_of env g ! i)"
  using same_modes [OF assms, of log] query_succeeds [OF assms] assms by (simp add: modes_of_def prod_eq_iff)

lemma search:
  assumes "j + n = DisplayMaxMode (gop_mode env [] g)"
  shows "search_mode env log g h v n j = Inr (j + length (takeWhile (\<lambda>I. resolution I \<noteq> (h, v)) (drop j (modes_of env g))))"
  using assms
proof (induction n arbitrary: j)
  case 0
  then show ?case by (simp add: modes_of_def)
next
  case (Suc n)
  have "j < length (modes_of env g)" using Suc.prems by (simp add: modes_of_def)
  then have drop: "drop j (modes_of env g) = modes_of env g ! j # drop (Suc j) (modes_of env g)"
    by (simp add: Cons_nth_drop_Suc)
  have "gop_query env log g j = (EFI_SUCCESS, modes_of env g ! j)" using Suc.prems by (intro query) simp
  then show ?case using Suc.IH [of "Suc j"] Suc.prems by (simp add: drop resolution_def)
qed

lemma find: "find_gop_mode env log g h v = Inr (mode_number env g (h, v))"
  by (simp add: find_gop_mode_def same_number [of log] search mode_number_def)

lemma modes_length: "length (modes_of env g) = DisplayMaxMode (gop_mode env log g)"
  by (simp add: modes_of_def same_number [of log])

lemma fill:
  assumes "j + n = DisplayMaxMode (gop_mode env [] g)" "length buf = j + n"
  shows "fill_modes env log g n j buf = (EFI_SUCCESS, take j buf @ drop j (modes_of env g))"
  using assms
proof (induction n arbitrary: j buf)
  case 0
  then show ?case by (simp add: modes_of_def)
next
  case (Suc n)
  have j: "j < length (modes_of env g)" "j < length buf" using Suc.prems by (simp_all add: modes_of_def)
  have q: "gop_query env log g j = (EFI_SUCCESS, modes_of env g ! j)" using Suc.prems by (intro query) simp
  have "take (Suc j) (buf[j := modes_of env g ! j]) @ drop (Suc j) (modes_of env g) = take j buf @ drop j (modes_of env g)"
    using j by (simp add: take_Suc_conv_app_nth Cons_nth_drop_Suc)
  with q Suc.IH [of "Suc j" "buf[j := modes_of env g ! j]"] Suc.prems show ?case by simp
qed

lemma fill_all: "fill_modes env log g (DisplayMaxMode (gop_mode env log' g)) 0 (replicate (DisplayMaxMode (gop_mode env log' g)) x) =
    (EFI_SUCCESS, modes_of env g)"
  using fill [of 0 "DisplayMaxMode (gop_mode env log' g)" g "replicate (DisplayMaxMode (gop_mode env log' g)) x" log]
  by (simp add: same_number [of log'])

lemma switch: "switch_all env h v Depth Rate ds st p s =
    Inr (last_error env (to_calls s) (switch_calls env h v Depth Rate ds) st, last_gop ds p,
      s\<lparr>to_calls := to_calls s @ switch_calls env h v Depth Rate ds\<rparr>)"
proof (induction ds arbitrary: st p s)
  case Nil
  then show ?case by (simp add: switch_calls_def last_gop_def)
next
  case (Cons d ds)
  then show ?case
    by (cases "GopDevice d"; cases "if PcdUgaConsumeSupport env then UgaDevice d else None")
      (simp_all add: switch_calls_def last_gop_def find call_console_def Let_def)
qed

lemma match:
  assumes "match_modes env log g Modes matched = r"
  shows "\<exists>new. r = Inr (matched @ new) \<and> subseq (map resolution new) (map resolution Modes) \<and>
    (distinct (map resolution matched) \<longrightarrow> distinct (map resolution (matched @ new))) \<and>
    set (map resolution (matched @ new)) = set (map resolution matched) \<union> {q \<in> set (map resolution Modes). offers env g q} \<and>
    (\<forall>I\<in>set new. InfoPixelFormat I = PixelBltOnly)"
  using assms
proof (induction Modes arbitrary: matched r)
  case Nil
  then show ?case by auto
next
  case (Cons Mode Modes)
  let ?q = "resolution Mode" and ?I = "(blt_only Mode)\<lparr>InfoVersion := 0\<rparr>"
  let ?take = "offers env g ?q \<and> ?q \<notin> set (map resolution matched)"
  have found: "find_gop_mode env log g (HorizontalResolution Mode) (VerticalResolution Mode) = Inr (mode_number env g ?q)"
    by (simp add: find resolution_def)
  have "mode_number env g ?q < DisplayMaxMode (gop_mode env log g) \<longleftrightarrow> offers env g ?q"
    using mode_number_offered(1) mode_number_not_offered [of env g ?q] modes_length [of g log] by (metis less_irrefl)
  moreover have "list_ex (same_resolution Mode) matched \<longleftrightarrow> ?q \<in> set (map resolution matched)"
    by (auto simp: list_ex_iff same_resolution_iff)
  ultimately have step: "match_modes env log g (Mode # Modes) matched = match_modes env log g Modes (if ?take then matched @ [?I] else matched)"
    by (simp add: found)
  show ?case
  proof (cases ?take)
    case True
    with step Cons.prems have "match_modes env log g Modes (matched @ [?I]) = r" by simp
    from Cons.IH [OF this] obtain new where new: "r = Inr ((matched @ [?I]) @ new)" "subseq (map resolution new) (map resolution Modes)"
        "distinct (map resolution (matched @ [?I])) \<longrightarrow> distinct (map resolution ((matched @ [?I]) @ new))"
        "set (map resolution ((matched @ [?I]) @ new)) = set (map resolution (matched @ [?I])) \<union> {q \<in> set (map resolution Modes). offers env g q}"
        "\<forall>I\<in>set new. InfoPixelFormat I = PixelBltOnly" by blast
    show ?thesis
    proof (intro exI [of _ "?I # new"] conjI)
      show "distinct (map resolution matched) \<longrightarrow> distinct (map resolution (matched @ ?I # new))" using new(3) True by auto
      show "set (map resolution (matched @ ?I # new)) =
          set (map resolution matched) \<union> {q \<in> set (map resolution (Mode # Modes)). offers env g q}"
        using new(4) True by auto
      show "subseq (map resolution (?I # new)) (map resolution (Mode # Modes))" using new(2) by simp
      show "\<forall>I\<in>set (?I # new). InfoPixelFormat I = PixelBltOnly" using new(5) by (simp add: blt_only_def)
      show "r = Inr (matched @ ?I # new)" using new(1) by simp
    qed
  next
    case False
    have "match_modes env log g Modes matched = r" using Cons.prems unfolding step if_not_P [OF False] .
    from Cons.IH [OF this] obtain new where new: "r = Inr (matched @ new)" "subseq (map resolution new) (map resolution Modes)"
        "distinct (map resolution matched) \<longrightarrow> distinct (map resolution (matched @ new))"
        "set (map resolution (matched @ new)) = set (map resolution matched) \<union> {q \<in> set (map resolution Modes). offers env g q}"
        "\<forall>I\<in>set new. InfoPixelFormat I = PixelBltOnly" by blast
    show ?thesis
    proof (intro exI [of _ new] conjI)
      show "set (map resolution (matched @ new)) =
          set (map resolution matched) \<union> {q \<in> set (map resolution (Mode # Modes)). offers env g q}"
        using new(4) False by auto
    qed (use new in auto)
  qed
qed

end

section \<open>The common modes\<close>

definition gops :: "TEXT_OUT_SPLITTER_PRIVATE_DATA \<Rightarrow> nat list" where
  "gops P = List.map_filter GopDevice (attached P)"

text \<open>The table of a splitter: the used part of its mode buffer.\<close>

definition mode_table :: "TEXT_OUT_SPLITTER_PRIVATE_DATA \<Rightarrow> EFI_GRAPHICS_OUTPUT_MODE_INFORMATION list" where
  "mode_table P = (case GraphicsOutputMode P of None \<Rightarrow> [] | Some M \<Rightarrow> take (DisplayMaxMode M) (GraphicsOutputModeBuffer P))"

section \<open>Setting a mode on all devices\<close>

definition set_mode_calls :: "to_env \<Rightarrow> nat \<times> nat \<Rightarrow> nat list \<Rightarrow> (nat \<times> to_call) list" where
  "set_mode_calls env r gs = map (\<lambda>g. (g, GSetMode (mode_number env g r))) gs"

lemma switch_calls_gops:
  "list_all (\<lambda>d. UgaDevice d = None) ds \<Longrightarrow> switch_calls env h v Depth Rate ds = set_mode_calls env (h, v) (List.map_filter GopDevice ds)"
proof (induction ds)
  case (Cons d ds)
  then show ?case by (cases "GopDevice d") (simp_all add: switch_calls_def set_mode_calls_def List.map_filter_simps)
qed (simp add: switch_calls_def set_mode_calls_def List.map_filter_simps)

lemma last_gop_None: "last_gop ds p = None \<longleftrightarrow> p = None \<and> List.map_filter GopDevice ds = []"
proof (induction ds arbitrary: p)
  case (Cons d ds)
  from Cons.IH [of "if GopDevice d = None then p else GopDevice d"] show ?case
    by (cases "GopDevice d") (auto simp: last_gop_def List.map_filter_simps)
qed (simp add: last_gop_def List.map_filter_simps)

text \<open>Setting a mode that every attached graphics output has switches each of them exactly once, in the order of attachment, to a
  mode of its own with the resolution that the table lists; the result is the last error of a device, and the mode becomes the
  current one in any case.\<close>

lemma set_mode_all:
  assumes "graphics_outputs env" "GraphicsOutputMode (priv k s) = Some M" "ModeInfo M \<noteq> None"
    and n: "n < length (mode_table (priv k s))" "n < DisplayMaxMode M"
    and uga: "list_all (\<lambda>d. UgaDevice d = None) (attached (priv k s))"
    and common: "\<forall>g\<in>set (gops (priv k s)). offers env g (resolution (mode_table (priv k s) ! n))"
  shows "\<exists>s' ms. ConSplitterGraphicsOutputSetMode env k n s =
      Some (last_error env (to_calls s) (map2 (\<lambda>g m. (g, GSetMode m)) (gops (priv k s)) ms) EFI_SUCCESS, s') \<and>
    to_calls s' = to_calls s @ map2 (\<lambda>g m. (g, GSetMode m)) (gops (priv k s)) ms \<and>
    list_all2 (\<lambda>g m. m < length (modes_of env g) \<and> same_resolution (modes_of env g ! m) (mode_table (priv k s) ! n)) (gops (priv k s)) ms \<and>
    map_option DisplayMode (GraphicsOutputMode (priv k s')) = Some n"
proof -
  let ?P = "priv k s"
  let ?I = "GraphicsOutputModeBuffer ?P ! n"
  have entry: "mode_table ?P ! n = ?I" "n < length (GraphicsOutputModeBuffer ?P)" using assms(2) n by (auto simp: mode_table_def)
  let ?ms = "map (\<lambda>g. mode_number env g (resolution ?I)) (gops ?P)"
  let ?cs = "set_mode_calls env (resolution ?I) (gops ?P)"
  have cs: "?cs = map2 (\<lambda>g m. (g, GSetMode m)) (gops ?P) ?ms"
    by (simp add: set_mode_calls_def zip_map2 zip_same_conv_map)
  have calls: "switch_calls env (HorizontalResolution ?I) (VerticalResolution ?I) 32 60 (attached ?P) = ?cs"
    using switch_calls_gops [OF uga] by (simp add: gops_def resolution_def)
  let ?M = "mode_shown env (to_calls s @ ?cs) ?P (last_gop (attached ?P) None) n M"
  have "ConSplitterGraphicsOutputSetMode env k n s =
      Some (last_error env (to_calls s) ?cs EFI_SUCCESS, set_graphics_mode k ?M (s\<lparr>to_calls := to_calls s @ ?cs\<rparr>))"
    using assms(2,3) n(2) entry
    by (simp add: ConSplitterGraphicsOutputSetMode_def graphics_outputs.switch [OF assms(1)] calls Let_def)
  moreover have "DisplayMode ?M = n" by (simp add: mode_shown_def split: option.split)
  moreover have "list_all2 (\<lambda>g m. m < length (modes_of env g) \<and> same_resolution (modes_of env g ! m) (mode_table ?P ! n)) (gops ?P) ?ms"
    using common mode_number_offered unfolding entry(1) by (auto simp: list_all2_conv_all_nth same_resolution_iff)
  ultimately show ?thesis unfolding cs by (intro exI [of _ "set_graphics_mode k ?M (s\<lparr>to_calls := to_calls s @ ?cs\<rparr>)"] exI [of _ ?ms])
    (simp add: set_graphics_mode_def cs)
qed

end
