(* ===== verification/SplitterTables.thy ===== *)
theory SplitterTables
  imports SplitterGraphicsCorrect
begin

text \<open>
  The tables of an output splitter: what an operation may change of them, and their well-formedness, which every step of
  attaching and detaching a console keeps.
\<close>

section \<open>Operations that leave the tables alone\<close>

text \<open>The private data without the current mode, the attribute, the cursor and the flag of an attachment.\<close>

definition core :: "TEXT_OUT_SPLITTER_PRIVATE_DATA \<Rightarrow> TEXT_OUT_SPLITTER_PRIVATE_DATA" where
  "core P = P\<lparr>TextOutMode := \<lparr>MaxMode = MaxMode (TextOutMode P), CurMode = 0, Attribute = 0, CursorColumn = 0, CursorRow = 0,
     CursorVisible = False\<rparr>, AddingConOutDevice := False\<rparr>"

definition quiet :: "splitter_state \<Rightarrow> splitter_state \<Rightarrow> bool" where
  "quiet s s' \<longleftrightarrow> (\<forall>k. core (priv k s') = core (priv k s))"

lemma coreD:
  assumes "core P = core Q"
  shows "MaxMode (TextOutMode P) = MaxMode (TextOutMode Q)" "GraphicsOutputMode P = GraphicsOutputMode Q"
    "GraphicsOutputModeBuffer P = GraphicsOutputModeBuffer Q" "CurrentNumberOfGraphicsOutput P = CurrentNumberOfGraphicsOutput Q"
    "CurrentNumberOfUgaDraw P = CurrentNumberOfUgaDraw Q" "CurrentNumberOfConsoles P = CurrentNumberOfConsoles Q"
    "TextOutList P = TextOutList Q" "TextOutListCount P = TextOutListCount Q" "TextOutQueryData P = TextOutQueryData Q"
    "TextOutQueryDataCount P = TextOutQueryDataCount Q" "TextOutModeMap P = TextOutModeMap Q"
  using assms by (cases P; cases Q; simp add: core_def)+

lemma quiet_refl [simp, intro]: "quiet s s"
  by (simp add: quiet_def)

lemma quiet_trans [trans]: "quiet s s1 \<Longrightarrow> quiet s1 s2 \<Longrightarrow> quiet s s2"
  by (simp add: quiet_def)

lemma priv_set_priv_if: "priv j (set_priv k P s) = (if j = k then P else priv j s)"
  by (cases j; cases k) (simp_all add: priv_def set_priv_def)

lemma quiet_set_priv: "core P = core (priv k s) \<Longrightarrow> quiet s (set_priv k P s)"
  by (simp add: quiet_def priv_set_priv_if)

lemma quiet_mode_data: "(\<And>t. MaxMode (f t) = MaxMode t) \<Longrightarrow> quiet s (set_mode_data k f s)"
  unfolding set_mode_data_def by (intro quiet_set_priv) (simp add: core_def)

lemma quiet_logged [simp]: "quiet s (s\<lparr>to_calls := l\<rparr>)" "quiet s (s\<lparr>to_allocs := n\<rparr>)" "quiet s (s\<lparr>pcdConOutColumn := c, pcdConOutRow := r\<rparr>)"
    "quiet s (next_alloc s)"
  by (simp_all add: quiet_def priv_def next_alloc_def split: splitter.split)

lemma call_console_eq: "call_console env dev c s = (to_status env (to_calls s) dev c, s\<lparr>to_calls := to_calls s @ [(dev, c)]\<rparr>)"
  by (simp add: call_console_def)

lemma for_consoles_only_calls: "\<exists>l. snd (for_consoles env k f s) = s\<lparr>to_calls := l\<rparr>"
proof -
  have "\<exists>l. snd (fold (\<lambda>Index (ReturnStatus, s). case f Index s of
              None \<Rightarrow> (ReturnStatus, s)
            | Some c \<Rightarrow> (let (Status, s') = call_console env (console k Index s) c s
                         in (if EFI_ERROR Status then Status else ReturnStatus, s'))) xs (st, s)) = s\<lparr>to_calls := l\<rparr>" for xs st s
  proof (induction xs arbitrary: st s)
    case Nil
    show ?case by (rule exI [of _ "to_calls s"]) simp
  next
    case (Cons i xs)
    show ?case
    proof (cases "f i s")
      case None
      then show ?thesis using Cons.IH [of st s] by simp
    next
      case (Some c)
      then show ?thesis
        using Cons.IH [of "if EFI_ERROR (to_status env (to_calls s) (console k i s) c) then to_status env (to_calls s) (console k i s) c else st"
            "s\<lparr>to_calls := to_calls s @ [(console k i s, c)]\<rparr>"]
        by (simp add: call_console_eq)
    qed
  qed
  then show ?thesis by (simp add: for_consoles_def)
qed

lemma quiet_for_consoles: "quiet s (snd (for_consoles env k f s))"
  using for_consoles_only_calls [of env k f s] by force

lemma quiet_for_consolesD: "for_consoles env k f s = (st, s') \<Longrightarrow> quiet s s'"
  using quiet_for_consoles [of s env k f] by simp

lemma quiet_TextOutSetMode [simp]: "quiet s (TextOutSetMode k n s)"
  unfolding TextOutSetMode_def by (rule quiet_mode_data) simp

lemma quiet_ClearScreen: "quiet s (snd (ConSplitterTextOutClearScreen env k s))"
  unfolding ConSplitterTextOutClearScreen_def
  by (auto split: prod.split intro!: quiet_trans [OF quiet_for_consolesD quiet_mode_data])

lemma quiet_SetMode: "quiet s (snd (ConSplitterTextOutSetMode env k n s))"
  by (auto simp: ConSplitterTextOutSetMode_def Let_def quiet_ClearScreen split: prod.split
      intro: quiet_trans [OF quiet_for_consolesD quiet_TextOutSetMode])

lemma quiet_SetAttribute: "quiet s (snd (ConSplitterTextOutSetAttribute env k a s))"
  by (auto simp: ConSplitterTextOutSetAttribute_def split: prod.split
      intro!: quiet_trans [OF quiet_for_consolesD quiet_mode_data])

lemma quiet_Reset: "quiet s (snd (ConSplitterTextOutReset env k x s))"
proof -
  obtain st s1 where s1: "for_consoles env k (\<lambda>_ _. Some (CReset x)) s = (st, s1)" by force
  show ?thesis
    by (simp add: ConSplitterTextOutReset_def s1 split_def)
      (rule quiet_trans [OF quiet_for_consolesD [OF s1] quiet_trans [OF quiet_SetAttribute quiet_TextOutSetMode]])
qed

lemma fold_move_cursor_max: "MaxMode (fold (move_cursor c r) cs t) = MaxMode t"
  by (induction cs arbitrary: t) (simp_all add: move_cursor_def Let_def)

lemma quiet_OutputString: "quiet s (snd (ConSplitterTextOutOutputString env k cs s))"
proof -
  obtain st0 s0 where s0: "ConSplitterTextOutSetAttribute env k (uintn (Attribute (TextOutMode (priv k s)))) s = (st0, s0)" by force
  obtain st1 s1 where s1: "for_consoles env k (\<lambda>_ _. Some (COutputString cs)) s0 = (st1, s1)" by force
  have "quiet s s1" using quiet_trans [OF _ quiet_for_consolesD [OF s1]] quiet_SetAttribute [of s env k] s0 by (metis snd_conv)
  moreover have "quiet s1 (snd (ConSplitterTextOutOutputString env k cs s))"
    by (auto simp: ConSplitterTextOutOutputString_def s0 s1 Let_def fold_move_cursor_max intro!: quiet_mode_data)
  ultimately show ?thesis by (rule quiet_trans)
qed

lemma quiet_SetCursorPosition: "ConSplitterTextOutSetCursorPosition env k c r s = Some (st, s') \<Longrightarrow> quiet s s'"
  by (auto simp: ConSplitterTextOutSetCursorPosition_def Let_def split: if_splits prod.splits
      intro!: quiet_trans [OF quiet_for_consolesD quiet_mode_data])

lemma quiet_EnableCursor: "quiet s (snd (ConSplitterTextOutEnableCursor env k v s))"
  by (auto simp: ConSplitterTextOutEnableCursor_def split: prod.split intro!: quiet_trans [OF quiet_for_consolesD quiet_mode_data])

lemma quiet_ConsoleOutMode: "quiet s (ConsplitterSetConsoleOutMode env k s)"
proof -
  obtain p b c d where f: "fold (prefer_mode k s) [0..<uintn (MaxMode (TextOutMode (priv k s)))] (0xff, 0xff, 0, 0) = (p, b, c, d)"
    by (metis prod_cases4)
  obtain st s1 where s1: "ConSplitterTextOutSetMode env k p s = (st, s1)" by force
  have "quiet s s1" using quiet_SetMode [of s env k p] s1 by simp
  moreover have "quiet s1 (ConsplitterSetConsoleOutMode env k s)"
    using quiet_SetMode [of s1 env k b] by (auto simp: ConsplitterSetConsoleOutMode_def f s1 intro: quiet_trans)
  ultimately show ?thesis by (rule quiet_trans)
qed

lemmas quiet_operations = quiet_ClearScreen quiet_SetMode quiet_SetAttribute quiet_Reset quiet_OutputString quiet_EnableCursor
  quiet_for_consoles quiet_ConsoleOutMode

section \<open>Well-formed tables of text modes\<close>

text \<open>The arrays have their counted sizes, every row in use has a mode of the first console that the query data knows.\<close>

definition map_ok :: "TEXT_OUT_SPLITTER_PRIVATE_DATA \<Rightarrow> int list \<Rightarrow> bool" where
  "map_ok P m \<longleftrightarrow> length m = TextOutListCount P * TextOutQueryDataCount P \<and>
     (\<forall>i < nat (MaxMode (TextOutMode P)). 0 \<le> cell (TextOutListCount P) m i 0 \<and>
        nat (cell (TextOutListCount P) m i 0) < TextOutQueryDataCount P)"

definition text_ok :: "TEXT_OUT_SPLITTER_PRIVATE_DATA \<Rightarrow> bool" where
  "text_ok P \<longleftrightarrow> 0 < TextOutListCount P \<and> CurrentNumberOfConsoles P \<le> TextOutListCount P \<and>
     length (TextOutList P) = TextOutListCount P \<and> length (TextOutQueryData P) = TextOutQueryDataCount P \<and>
     2 \<le> TextOutQueryDataCount P \<and> 1 \<le> MaxMode (TextOutMode P) \<and> nat (MaxMode (TextOutMode P)) \<le> TextOutQueryDataCount P \<and>
     (0 < CurrentNumberOfConsoles P \<longrightarrow> (\<exists>m. TextOutModeMap P = Some m \<and> map_ok P m))"

lemma text_ok_core:
  assumes "core P = core Q"
  shows "text_ok P \<longleftrightarrow> text_ok Q"
  by (simp add: text_ok_def map_ok_def coreD [OF assms])

lemma quiet_text_ok: "quiet s s' \<Longrightarrow> text_ok (priv k s') \<longleftrightarrow> text_ok (priv k s)"
  by (rule text_ok_core) (simp add: quiet_def)

text \<open>An operation on one splitter leaves the other one's data alone.\<close>

definition other :: "splitter \<Rightarrow> splitter" where
  "other k = (case k of ConOut \<Rightarrow> StdErr | StdErr \<Rightarrow> ConOut)"

lemma priv_set_other [simp]: "priv (other k) (set_priv k P s) = priv (other k) s"
  by (cases k) (simp_all add: other_def priv_def set_priv_def)

lemma priv_allocs [simp]: "priv j (s\<lparr>to_allocs := n\<rparr>) = priv j s" "priv j (next_alloc s) = priv j s"
  by (simp_all add: priv_def next_alloc_def split: splitter.split)

lemma next_alloc_simps [simp]: "to_calls (next_alloc s) = to_calls s"
  by (simp add: next_alloc_def)

lemma set_priv_allocs [simp]: "set_priv k P (s\<lparr>to_allocs := n\<rparr>) = (set_priv k P s)\<lparr>to_allocs := n\<rparr>"
  by (cases k) (simp_all add: set_priv_def)

subsection \<open>Growing\<close>

lemma grow_query_data_ok:
  assumes "\<And>n. alloc_ok env n" "length (TextOutQueryData (priv k s)) = TextOutQueryDataCount (priv k s)"
  shows "\<exists>s' n buf. grow_query_data env k NewMax s = (EFI_SUCCESS, s') \<and>
    priv k s' = (priv k s)\<lparr>TextOutQueryDataCount := n, TextOutQueryData := buf\<rparr> \<and> priv (other k) s' = priv (other k) s \<and>
    to_calls s' = to_calls s \<and> length buf = n \<and> nat NewMax \<le> n \<and> TextOutQueryDataCount (priv k s) \<le> n"
  using assms(2)
proof (induction "nat (NewMax - int (TextOutQueryDataCount (priv k s)))" arbitrary: s rule: less_induct)
  case less
  let ?P = "priv k s"
  show ?case
  proof (cases "int (TextOutQueryDataCount ?P) < NewMax")
    case False
    then show ?thesis using less.prems
      by (intro exI [of _ s] exI [of _ "TextOutQueryDataCount ?P"] exI [of _ "TextOutQueryData ?P"])
        (simp add: grow_query_data.simps [of _ k NewMax s])
  next
    case True
    let ?n = "TextOutQueryDataCount ?P + CONSOLE_SPLITTER_ALLOC_UNIT"
    let ?buf = "take (TextOutQueryDataCount ?P) (TextOutQueryData ?P) @ replicate CONSOLE_SPLITTER_ALLOC_UNIT (junk_query env)"
    let ?s = "set_priv k (?P\<lparr>TextOutQueryDataCount := ?n, TextOutQueryData := ?buf\<rparr>) (next_alloc s)"
    have G: "ConSplitterGrowBuffer (alloc_ok env (to_allocs s)) (junk_query env) (TextOutQueryDataCount ?P) (TextOutQueryData ?P) =
        (EFI_SUCCESS, ?n, ?buf)"
      by (simp add: ConSplitterGrowBuffer_def assms(1))
    then have step: "grow_query_data env k NewMax s = grow_query_data env k NewMax ?s"
      using True by (subst grow_query_data.simps) (simp add: Let_def next_alloc_def)
    have "length ?buf = ?n" using less.prems by simp
    moreover have "nat (NewMax - int (TextOutQueryDataCount (priv k ?s))) < nat (NewMax - int (TextOutQueryDataCount ?P))"
      using True by (simp add: CONSOLE_SPLITTER_ALLOC_UNIT_def)
    ultimately have "\<exists>s' n buf. grow_query_data env k NewMax ?s = (EFI_SUCCESS, s') \<and>
        priv k s' = (priv k ?s)\<lparr>TextOutQueryDataCount := n, TextOutQueryData := buf\<rparr> \<and> priv (other k) s' = priv (other k) ?s \<and>
        to_calls s' = to_calls ?s \<and> length buf = n \<and> nat NewMax \<le> n \<and> TextOutQueryDataCount (priv k ?s) \<le> n"
      by (intro less.hyps) simp_all
    then obtain s' n buf where R: "grow_query_data env k NewMax ?s = (EFI_SUCCESS, s')"
        "priv k s' = (priv k ?s)\<lparr>TextOutQueryDataCount := n, TextOutQueryData := buf\<rparr>" "priv (other k) s' = priv (other k) ?s"
        "to_calls s' = to_calls ?s" "length buf = n" "nat NewMax \<le> n" "TextOutQueryDataCount (priv k ?s) \<le> n"
      by blast
    show ?thesis unfolding step using R by (intro exI [of _ s'] exI [of _ n] exI [of _ buf]) simp
  qed
qed

text \<open>The rows of the old map are copied, \<open>c\<close> cells each.\<close>

lemma copy_rows:
  fixes old new :: "int list"
  assumes "c \<le> New" "n * New \<le> length new" "\<And>i. i < n \<Longrightarrow> i * Old + c \<le> length old"
  shows "length (fold (\<lambda>i. array_put (i * New) (array_slice (i * Old) c old)) [0..<n] new) = length new \<and>
    (\<forall>i<n. \<forall>j<c. fold (\<lambda>i. array_put (i * New) (array_slice (i * Old) c old)) [0..<n] new ! (i * New + j) = old ! (i * Old + j))"
  using assms(2,3)
proof (induction n)
  case (Suc n)
  let ?m = "fold (\<lambda>i. array_put (i * New) (array_slice (i * Old) c old)) [0..<n] new"
  have IH: "length ?m = length new" "\<And>i j. i < n \<Longrightarrow> j < c \<Longrightarrow> ?m ! (i * New + j) = old ! (i * Old + j)"
    using Suc.IH Suc.prems by auto
  have slice: "length (array_slice (n * Old) c old) = c" using Suc.prems(2) [of n] by simp
  have fit: "n * New + c \<le> length ?m" using Suc.prems(1) assms(1) IH(1) by simp
  have at: "array_put (n * New) (array_slice (n * Old) c old) ?m ! a =
      (if n * New \<le> a \<and> a < n * New + c then old ! (n * Old + (a - n * New)) else ?m ! a)" for a
    using nth_array_put [of "n * New" "array_slice (n * Old) c old" ?m a] fit slice Suc.prems(2) [of n] by auto
  have "array_put (n * New) (array_slice (n * Old) c old) ?m ! (i * New + j) = old ! (i * Old + j)" if "i < Suc n" "j < c" for i j
  proof (cases "i = n")
    case True
    then show ?thesis using that(2) by (simp add: at)
  next
    case False
    then have "Suc i * New \<le> n * New" using that(1) by (intro mult_le_mono1) simp
    then have "i * New + j < n * New" using that(2) assms(1) by simp
    then show ?thesis using False that IH(2) by (simp add: at)
  qed
  moreover have "length (array_put (n * New) (array_slice (n * Old) c old) ?m) = length new" using fit slice IH(1) by simp
  ultimately show ?case by simp
qed simp

lemma array_put_nothing [simp]: "array_put i [] xs = xs" "array_slice i 0 xs = []"
  by (simp_all add: array_put_def array_slice_def)

lemma fold_nothing: "fold (\<lambda>i. array_put (f i) []) is xs = xs"
  by (induction "is") simp_all

text \<open>Without consoles the map starts empty; otherwise the cells of the consoles are kept.\<close>

lemma GrowMapTable_fresh:
  assumes "\<And>n. alloc_ok env n" "CurrentNumberOfConsoles (priv k s) = 0 \<or> TextOutModeMap (priv k s) = None"
  shows "ConSplitterGrowMapTable env k s = (EFI_SUCCESS, set_priv k ((priv k s)\<lparr>TextOutModeMap :=
    Some (replicate (TextOutListCount (priv k s) * TextOutQueryDataCount (priv k s)) (- 1))\<rparr>) (next_alloc s))"
  using assms(2) by (cases "TextOutModeMap (priv k s)") (auto simp: ConSplitterGrowMapTable_def Let_def next_alloc_def fold_nothing assms(1))

lemma GrowMapTable_copy:
  assumes "\<And>n. alloc_ok env n" "TextOutModeMap (priv k s) = Some old" "TextOutListCount (priv k s) = Old + CONSOLE_SPLITTER_ALLOC_UNIT"
    and "CurrentNumberOfConsoles (priv k s) \<le> Old" "length old = Old * TextOutQueryDataCount (priv k s)"
    and "nat (MaxMode (TextOutMode (priv k s))) \<le> TextOutQueryDataCount (priv k s)"
  shows "\<exists>m. ConSplitterGrowMapTable env k s = (EFI_SUCCESS, set_priv k ((priv k s)\<lparr>TextOutModeMap := Some m\<rparr>) (next_alloc s)) \<and>
    length m = TextOutListCount (priv k s) * TextOutQueryDataCount (priv k s) \<and>
    (\<forall>i < nat (MaxMode (TextOutMode (priv k s))). \<forall>j < CurrentNumberOfConsoles (priv k s).
       cell (TextOutListCount (priv k s)) m i j = cell Old old i j)"
proof -
  let ?P = "priv k s"
  let ?New = "TextOutListCount ?P" and ?n = "nat (MaxMode (TextOutMode ?P))" and ?c = "CurrentNumberOfConsoles ?P"
  let ?fresh = "replicate (?New * TextOutQueryDataCount ?P) (- 1) :: int list"
  let ?m = "fold (\<lambda>i. array_put (i * ?New) (array_slice (i * Old) ?c old)) [0..<?n] ?fresh"
  have "i * Old + ?c \<le> length old" if "i < ?n" for i
  proof -
    have "Suc i * Old \<le> TextOutQueryDataCount ?P * Old" using that assms(6) by (intro mult_le_mono1) simp
    then show ?thesis using assms(4,5) by (simp add: mult.commute)
  qed
  moreover have "?n * ?New \<le> length ?fresh" using assms(6) by (simp add: mult.commute)
  ultimately have "length ?m = length ?fresh \<and> (\<forall>i<?n. \<forall>j<?c. ?m ! (i * ?New + j) = old ! (i * Old + j))"
    using assms(3,4) by (intro copy_rows) simp_all
  moreover have "ConSplitterGrowMapTable env k s = (EFI_SUCCESS, set_priv k (?P\<lparr>TextOutModeMap := Some ?m\<rparr>) (next_alloc s))"
    using assms(1,2,3) by (simp add: ConSplitterGrowMapTable_def Let_def next_alloc_def)
  ultimately show ?thesis by (intro exI [of _ ?m]) (simp add: cell_def)
qed

lemma set_priv_set_priv [simp]: "set_priv k P (set_priv k Q s) = set_priv k P s" "set_priv k (priv k s) s = s"
  by (cases k; simp add: set_priv_def priv_def)+

lemma next_alloc_set_priv [simp]: "next_alloc (set_priv k P s) = set_priv k P (next_alloc s)"
  by (cases k) (simp_all add: set_priv_def next_alloc_def)

subsection \<open>The first console\<close>

lemma add_modes:
  assumes "TextOutModeMap (priv k s) = Some m" "0 < TextOutListCount (priv k s)" "n * TextOutListCount (priv k s) \<le> length m"
  shows "\<exists>q' m'. fold (add_mode env k dev) [0..<n] s = set_priv k ((priv k s)\<lparr>TextOutQueryData := q', TextOutModeMap := Some m'\<rparr>) s \<and>
    length q' = length (TextOutQueryData (priv k s)) \<and> length m' = length m \<and>
    (\<forall>i<n. cell (TextOutListCount (priv k s)) m' i 0 = int i)"
  using assms(3)
proof (induction n)
  case 0
  have "(priv k s)\<lparr>TextOutQueryData := TextOutQueryData (priv k s), TextOutModeMap := Some m\<rparr> = priv k s"
    using assms(1) by (cases "priv k s") simp
  then show ?case by (intro exI [of _ "TextOutQueryData (priv k s)"] exI [of _ m]) simp
next
  case (Suc n)
  let ?P = "priv k s" and ?Step = "TextOutListCount (priv k s)"
  obtain q1 m1 where IH: "fold (add_mode env k dev) [0..<n] s = set_priv k (?P\<lparr>TextOutQueryData := q1, TextOutModeMap := Some m1\<rparr>) s"
      "length q1 = length (TextOutQueryData ?P)" "length m1 = length m" "\<And>i. i < n \<Longrightarrow> cell ?Step m1 i 0 = int i"
    using Suc by auto
  obtain st q where q: "to_query env (to_calls s) dev (int n) = (st, q)" by force
  let ?q = "if EFI_ERROR st \<and> n = 1 then \<lparr>QColumns = 0, QRows = 0\<rparr> else q"
  have "fold (add_mode env k dev) [0..<Suc n] s =
      set_priv k (?P\<lparr>TextOutQueryData := q1[n := ?q], TextOutModeMap := Some (m1[n * ?Step := int n])\<rparr>) s"
    using q by (simp add: IH(1) add_mode_def Let_def)
  moreover have "cell ?Step (m1[n * ?Step := int n]) i 0 = int i" if "i < Suc n" for i
  proof (cases "i = n")
    case True
    have "n * ?Step < length m1" using Suc.prems assms(2) IH(3) by simp
    then show ?thesis using True by (simp add: cell_def)
  next
    case False
    then show ?thesis using that IH(4) [of i] assms(2) by (simp add: cell_def)
  qed
  ultimately show ?case using IH(2,3) by (intro exI [of _ "q1[n := ?q]"] exI [of _ "m1[n * ?Step := int n]"]) simp
qed

lemma AddOutputMode_ok:
  assumes ok: "\<And>n. alloc_ok env n" "\<And>l d. 1 \<le> MaxMode (to_mode env l d)"
    and P: "text_ok ((priv k s)\<lparr>CurrentNumberOfConsoles := 0\<rparr>)" "CurrentNumberOfConsoles (priv k s) = 0 \<or> TextOutModeMap (priv k s) = None"
  shows "\<exists>s' P'. ConSplitterAddOutputMode env k dev s = (EFI_SUCCESS, s') \<and> priv k s' = P' \<and> priv (other k) s' = priv (other k) s \<and>
    to_calls s' = to_calls s \<and> (\<exists>mx n q m. P' = (priv k s)\<lparr>TextOutMode := (TextOutMode (priv k s))\<lparr>MaxMode := mx\<rparr>,
      TextOutQueryDataCount := n, TextOutQueryData := q, TextOutModeMap := Some m\<rparr> \<and> map_ok P' m \<and> length q = n \<and>
      2 \<le> n \<and> 1 \<le> mx \<and> nat mx \<le> n)"
proof -
  let ?P = "priv k s" and ?mx = "MaxMode (to_mode env (to_calls s) dev)"
  let ?P1 = "?P\<lparr>TextOutMode := (TextOutMode ?P)\<lparr>MaxMode := ?mx\<rparr>\<rparr>"
  let ?s1 = "set_mode_data k (\<lambda>t. t\<lparr>MaxMode := ?mx\<rparr>) s"
  have P1: "priv k ?s1 = ?P1" "priv (other k) ?s1 = priv (other k) s" by (simp_all add: set_mode_data_def)
  from P(1) have len: "length (TextOutQueryData (priv k ?s1)) = TextOutQueryDataCount (priv k ?s1)" by (simp add: P1 text_ok_def)
  from grow_query_data_ok [OF ok(1) this, of ?mx, unfolded P1] obtain s2 n buf where s2: "grow_query_data env k ?mx ?s1 = (EFI_SUCCESS, s2)"
      "priv k s2 = ?P1\<lparr>TextOutQueryDataCount := n, TextOutQueryData := buf\<rparr>" "priv (other k) s2 = priv (other k) s"
      "to_calls s2 = to_calls s" "length buf = n" "nat ?mx \<le> n" "TextOutQueryDataCount ?P \<le> n"
    by auto
  let ?fresh = "replicate (TextOutListCount ?P * n) (- 1) :: int list"
  let ?s3 = "set_priv k ((priv k s2)\<lparr>TextOutModeMap := Some ?fresh\<rparr>) (next_alloc s2)"
  have s3: "ConSplitterGrowMapTable env k s2 = (EFI_SUCCESS, ?s3)"
    using GrowMapTable_fresh [OF ok(1), of k s2] s2(2) P(2) by simp
  have "nat ?mx * TextOutListCount ?P \<le> n * TextOutListCount ?P" using s2(6) by (rule mult_le_mono1)
  then have fit: "nat ?mx * TextOutListCount ?P \<le> length ?fresh" by (simp add: mult.commute)
  have "0 < TextOutListCount (priv k ?s3)" "TextOutModeMap (priv k ?s3) = Some ?fresh" "TextOutListCount (priv k ?s3) = TextOutListCount ?P"
    using P(1) s2(2) by (simp_all add: text_ok_def)
  from add_modes [OF this(2,1), of "nat ?mx" env dev, unfolded this(3), OF fit]
  obtain q' m' where m: "fold (add_mode env k dev) [0..<nat ?mx] ?s3 = set_priv k ((priv k ?s3)\<lparr>TextOutQueryData := q', TextOutModeMap := Some m'\<rparr>) ?s3"
      "length q' = n" "length m' = TextOutListCount ?P * n" "\<And>i. i < nat ?mx \<Longrightarrow> cell (TextOutListCount ?P) m' i 0 = int i"
    using s2(2,5) by auto
  let ?s4 = "set_priv k ((priv k ?s3)\<lparr>TextOutQueryData := q', TextOutModeMap := Some m'\<rparr>) ?s3"
  let ?P4 = "?P\<lparr>TextOutMode := (TextOutMode ?P)\<lparr>MaxMode := ?mx\<rparr>, TextOutQueryDataCount := n, TextOutQueryData := q', TextOutModeMap := Some m'\<rparr>"
  have "ConSplitterAddOutputMode env k dev s = (EFI_SUCCESS, ?s4)"
    using s2(1) s3 m(1) by (simp add: ConSplitterAddOutputMode_def Let_def)
  moreover have "priv k ?s4 = ?P4" "priv (other k) ?s4 = priv (other k) s" using s2(2,3) by simp_all
  moreover have "map_ok ?P4 m'" using m(3,4) s2(6) by (auto simp: map_ok_def)
  moreover have "2 \<le> n" using P(1) s2(7) by (simp add: text_ok_def)
  ultimately show ?thesis using ok(2) s2(4,6) m(2)
    by (intro exI [of _ ?s4] exI [of _ ?P4] conjI exI [of _ ?mx] exI [of _ n] exI [of _ q'] exI [of _ m']) simp_all
qed

subsection \<open>Dropping rows\<close>

lemma intersection_ok:
  assumes "0 < TextOutListCount P" "column_ok col (TextOutListCount P) NewStep" "map_ok P m" "1 \<le> MaxMode (TextOutMode P)"
    and "nat (MaxMode (TextOutMode P)) \<le> TextOutQueryDataCount P"
  shows "\<exists>m' mx Mode. ConSplitterGetIntersection m col (TextOutListCount P) NewStep (MaxMode (TextOutMode P)) (CurMode (TextOutMode P)) =
      (m', mx, Mode) \<and> 1 \<le> mx \<and> mx \<le> MaxMode (TextOutMode P) \<and>
    length m' = length m \<and> (\<forall>i < nat mx. 0 \<le> cell (TextOutListCount P) m' i 0 \<and> nat (cell (TextOutListCount P) m' i 0) < TextOutQueryDataCount P)"
proof (cases "2 \<le> MaxMode (TextOutMode P)")
  case False
  then show ?thesis using assms(3,4)
    by (simp add: ConSplitterGetIntersection_def map_ok_def)
next
  case True
  let ?Step = "TextOutListCount P" and ?mx = "MaxMode (TextOutMode P)"
  let ?K = "kept_rows col m NewStep (nat ?mx)"
  have "nat ?mx * ?Step \<le> TextOutQueryDataCount P * ?Step" using assms(5) by (rule mult_le_mono1)
  then have fit: "nat ?mx * ?Step \<le> length m" using assms(3) by (simp add: map_ok_def mult.commute)
  obtain m' where m': "ConSplitterGetIntersection m col ?Step NewStep ?mx (CurMode (TextOutMode P)) =
      (m', int (length ?K), new_mode col m NewStep (nat ?mx) (CurMode (TextOutMode P)))" "length m' = length m"
      "\<And>j c. j < length ?K \<Longrightarrow> c < ?Step \<Longrightarrow> cell ?Step m' j c = cell ?Step m (?K ! j) c"
    using intersection_rows [OF assms(1,2) True fit] by blast
  have "2 \<le> nat ?mx" using True by simp
  note K = kept_rows_bound [OF this] length_kept_rows [OF this]
  have "0 \<le> cell ?Step m' i 0 \<and> nat (cell ?Step m' i 0) < TextOutQueryDataCount P" if "i < length ?K" for i
  proof -
    have "?K ! i < nat ?mx" using nth_mem [OF that] by (rule K(1))
    then show ?thesis using assms(1,3) m'(3) [OF that] by (simp add: map_ok_def)
  qed
  moreover have "2 \<le> length ?K" by (simp add: kept_rows_def)
  moreover have "int (length ?K) \<le> ?mx" using K(2) [of col m NewStep] True by linarith
  ultimately show ?thesis using m'(1,2)
    by (intro exI [of _ m'] exI [of _ "int (length ?K)"] exI [of _ "new_mode col m NewStep (nat ?mx) (CurMode (TextOutMode P))"]) simp
qed

lemma sync_modes_cells:
  assumes "TextOutModeMap P = Some m" "0 < CurrentNumberOfConsoles P" "CurrentNumberOfConsoles P < TextOutListCount P"
  shows "\<exists>q' m'. fold (sync_mode env log dev n) xs P = P\<lparr>TextOutQueryData := q', TextOutModeMap := Some m'\<rparr> \<and>
    length q' = length (TextOutQueryData P) \<and> length m' = length m \<and>
    (\<forall>i. cell (TextOutListCount P) m' i 0 = cell (TextOutListCount P) m i 0)"
proof (induction xs rule: rev_induct)
  case Nil
  have "P\<lparr>TextOutQueryData := TextOutQueryData P, TextOutModeMap := Some m\<rparr> = P" using assms(1) by (cases P) simp
  then show ?case by (intro exI [of _ "TextOutQueryData P"] exI [of _ m]) simp
next
  case (snoc x xs)
  let ?Step = "TextOutListCount P" and ?off = "CurrentNumberOfConsoles P"
  obtain q1 m1 where IH: "fold (sync_mode env log dev n) xs P = P\<lparr>TextOutQueryData := q1, TextOutModeMap := Some m1\<rparr>"
      "length q1 = length (TextOutQueryData P)" "length m1 = length m" "\<And>i. cell ?Step m1 i 0 = cell ?Step m i 0"
    using snoc by blast
  let ?P1 = "P\<lparr>TextOutQueryData := q1, TextOutModeMap := Some m1\<rparr>"
  have keep: "cell ?Step (m1[?off + r * ?Step := v]) i 0 = cell ?Step m i 0" for r v i
    using cell_update_other [of 0 ?Step ?off i r m1 v] assms(2,3) IH(4) by simp
  have keep1: "cell ?Step (m1[?off + ?Step := v]) i 0 = cell ?Step m i 0" for v i using keep [of 1 v i] by simp
  obtain st q where q: "to_query env log dev (int x) = (st, q)" by force
  have "\<exists>q' m'. sync_mode env log dev n x ?P1 = ?P1\<lparr>TextOutQueryData := q', TextOutModeMap := Some m'\<rparr> \<and>
      length q' = length q1 \<and> length m' = length m1 \<and> (\<forall>i. cell ?Step m' i 0 = cell ?Step m i 0)"
  proof (cases "EFI_ERROR st")
    case True
    show ?thesis
    proof (cases "x = 1")
      case one: True
      then have "sync_mode env log dev n x ?P1 =
          ?P1\<lparr>TextOutQueryData := q1[1 := \<lparr>QColumns = 0, QRows = 0\<rparr>], TextOutModeMap := Some (m1[?off + ?Step := 1])\<rparr>"
        using True q by (simp add: sync_mode_def)
      then show ?thesis using keep1
        by (intro exI [of _ "q1[1 := \<lparr>QColumns = 0, QRows = 0\<rparr>]"] exI [of _ "m1[?off + ?Step := 1]"]) simp
    next
      case False
      then show ?thesis using True q IH(4) by (intro exI [of _ q1] exI [of _ m1]) (simp add: sync_mode_def)
    qed
  next
    case False
    show ?thesis
    proof (cases "find_row ?P1 m1 n q")
      case None
      then show ?thesis using False q IH(4) by (intro exI [of _ q1] exI [of _ m1]) (simp add: sync_mode_def)
    next
      case (Some r)
      then show ?thesis using False q keep by (intro exI [of _ q1] exI [of _ "m1[?off + r * ?Step := int x]"]) (simp add: sync_mode_def)
    qed
  qed
  then obtain q' m' where "sync_mode env log dev n x ?P1 = ?P1\<lparr>TextOutQueryData := q', TextOutModeMap := Some m'\<rparr>"
      "length q' = length q1" "length m' = length m1" "\<forall>i. cell ?Step m' i 0 = cell ?Step m i 0" by blast
  then show ?case using IH by (intro exI [of _ q'] exI [of _ m']) simp
qed

subsection \<open>A further console\<close>

lemma SyncOutputMode_ok:
  assumes P: "text_ok (priv k s)" "0 < CurrentNumberOfConsoles (priv k s)" "CurrentNumberOfConsoles (priv k s) < TextOutListCount (priv k s)"
  shows "\<exists>t q m. let P' = (priv k s)\<lparr>TextOutMode := t, TextOutQueryData := q, TextOutModeMap := Some m\<rparr> in
    ConSplitterSyncOutputMode env k dev s = set_priv k P' s \<and> map_ok P' m \<and> length q = TextOutQueryDataCount (priv k s) \<and>
    1 \<le> MaxMode t \<and> MaxMode t \<le> MaxMode (TextOutMode (priv k s))"
proof -
  let ?P = "priv k s" and ?Step = "TextOutListCount (priv k s)" and ?off = "CurrentNumberOfConsoles (priv k s)"
  obtain m where m: "TextOutModeMap ?P = Some m" "map_ok ?P m" using P(1,2) by (auto simp: text_ok_def)
  from sync_modes_cells [OF m(1) P(2,3), of env "to_calls s" dev "nat (MaxMode (TextOutMode ?P))" "[0..<nat (MaxMode (to_mode env (to_calls s) dev))]"]
  obtain q1 m1 where sync: "fold (sync_mode env (to_calls s) dev (nat (MaxMode (TextOutMode ?P)))) [0..<nat (MaxMode (to_mode env (to_calls s) dev))] ?P =
        ?P\<lparr>TextOutQueryData := q1, TextOutModeMap := Some m1\<rparr>"
      "length q1 = length (TextOutQueryData ?P)" "length m1 = length m" "\<And>i. cell ?Step m1 i 0 = cell ?Step m i 0"
    by auto
  let ?P1 = "?P\<lparr>TextOutQueryData := q1, TextOutModeMap := Some m1\<rparr>"
  have "map_ok ?P1 m1" using m(2) sync(3,4) by (simp add: map_ok_def)
  with P have "\<exists>m' mx Mode. ConSplitterGetIntersection m1 (InMap ?off) (TextOutListCount ?P1) ?Step (MaxMode (TextOutMode ?P1)) (CurMode (TextOutMode ?P1)) =
      (m', mx, Mode) \<and> 1 \<le> mx \<and> mx \<le> MaxMode (TextOutMode ?P1) \<and> length m' = length m1 \<and>
      (\<forall>i < nat mx. 0 \<le> cell (TextOutListCount ?P1) m' i 0 \<and> nat (cell (TextOutListCount ?P1) m' i 0) < TextOutQueryDataCount ?P1)"
    by (intro intersection_ok) (simp_all add: text_ok_def column_ok_def)
  then obtain m' mx Mode where I: "ConSplitterGetIntersection m1 (InMap ?off) ?Step ?Step (MaxMode (TextOutMode ?P)) (CurMode (TextOutMode ?P)) = (m', mx, Mode)"
      "1 \<le> mx" "mx \<le> MaxMode (TextOutMode ?P)" "length m' = length m1"
      "\<forall>i < nat mx. 0 \<le> cell ?Step m' i 0 \<and> nat (cell ?Step m' i 0) < TextOutQueryDataCount ?P"
    by auto
  let ?t = "(TextOutMode ?P)\<lparr>MaxMode := mx, CurMode := Mode\<rparr>"
  have eq: "?P1\<lparr>TextOutModeMap := Some m', TextOutMode := ?t\<rparr> = ?P\<lparr>TextOutMode := ?t, TextOutQueryData := q1, TextOutModeMap := Some m'\<rparr>"
    by (rule TEXT_OUT_SPLITTER_PRIVATE_DATA.equality) simp_all
  have "ConSplitterSyncOutputMode env k dev s = set_priv k (?P1\<lparr>TextOutModeMap := Some m', TextOutMode := ?t\<rparr>) s"
    using sync(1) I(1) by (simp add: ConSplitterSyncOutputMode_def Let_def)
  note this [unfolded eq]
  with I m(2) sync P(1) show ?thesis
    by (intro exI [of _ "(TextOutMode ?P)\<lparr>MaxMode := mx, CurMode := Mode\<rparr>"] exI [of _ q1] exI [of _ m']) (simp add: map_ok_def text_ok_def Let_def)
qed

subsection \<open>A console that both splitters have\<close>

text \<open>The part of the private data that the operations on text modes leave alone.\<close>

definition gfx :: "TEXT_OUT_SPLITTER_PRIVATE_DATA \<Rightarrow>
    EFI_GRAPHICS_OUTPUT_PROTOCOL_MODE option \<times> EFI_GRAPHICS_OUTPUT_MODE_INFORMATION list \<times> nat \<times> nat \<times> nat \<times> TEXT_OUT_AND_GOP_DATA list \<times> nat" where
  "gfx P = (GraphicsOutputMode P, GraphicsOutputModeBuffer P, CurrentNumberOfGraphicsOutput P, CurrentNumberOfUgaDraw P,
     CurrentNumberOfConsoles P, TextOutList P, TextOutListCount P)"

lemma gfx_simps [simp]:
  "gfx (P\<lparr>TextOutMode := t\<rparr>) = gfx P" "gfx (P\<lparr>TextOutQueryData := q\<rparr>) = gfx P" "gfx (P\<lparr>TextOutModeMap := m\<rparr>) = gfx P"
  "gfx (P\<lparr>TextOutQueryDataCount := n\<rparr>) = gfx P" "gfx (P\<lparr>AddingConOutDevice := b\<rparr>) = gfx P"
  by (simp_all add: gfx_def)

lemma gfxD:
  assumes "gfx P = gfx Q"
  shows "GraphicsOutputMode P = GraphicsOutputMode Q" "GraphicsOutputModeBuffer P = GraphicsOutputModeBuffer Q"
    "CurrentNumberOfGraphicsOutput P = CurrentNumberOfGraphicsOutput Q" "CurrentNumberOfUgaDraw P = CurrentNumberOfUgaDraw Q"
    "CurrentNumberOfConsoles P = CurrentNumberOfConsoles Q" "TextOutList P = TextOutList Q" "TextOutListCount P = TextOutListCount Q"
  using assms by (simp_all add: gfx_def)

lemma gfx_core:
  assumes "core P = core Q"
  shows "gfx P = gfx Q"
  by (simp add: gfx_def coreD [OF assms])

text \<open>Both splitters are well formed after a step, and the graphics sides as before.\<close>

definition tables_ok :: "splitter_state \<Rightarrow> bool" where
  "tables_ok s \<longleftrightarrow> (\<forall>k. text_ok (priv k s))"

definition same_gfx :: "splitter_state \<Rightarrow> splitter_state \<Rightarrow> bool" where
  "same_gfx s s' \<longleftrightarrow> (\<forall>k. gfx (priv k s') = gfx (priv k s))"

lemma same_gfx_trans [trans]: "same_gfx s s1 \<Longrightarrow> same_gfx s1 s2 \<Longrightarrow> same_gfx s s2"
  by (simp add: same_gfx_def)

lemma quiet_tables: "quiet s s' \<Longrightarrow> tables_ok s' \<longleftrightarrow> tables_ok s"
  by (simp add: tables_ok_def quiet_text_ok)

lemma quiet_same_gfx: "quiet s s' \<Longrightarrow> same_gfx s s'"
  unfolding same_gfx_def quiet_def by (blast intro: gfx_core)

lemma tables_set_priv: "tables_ok s \<Longrightarrow> text_ok P \<Longrightarrow> tables_ok (set_priv k P s)"
  by (simp add: tables_ok_def priv_set_priv_if)

lemma same_gfx_set_priv: "gfx P = gfx (priv k s) \<Longrightarrow> same_gfx s (set_priv k P s)"
  by (simp add: same_gfx_def priv_set_priv_if)

lemma intersect_splitter_ok:
  assumes s: "tables_ok s" and n: "0 < CurrentNumberOfConsoles (priv k s)"
  shows "tables_ok (intersect_splitter env k col s) \<and> same_gfx s (intersect_splitter env k col s)"
proof -
  let ?P = "priv k s"
  have P: "text_ok ?P" using s by (simp add: tables_ok_def)
  then obtain m where m: "TextOutModeMap ?P = Some m" "map_ok ?P m" using n by (auto simp: text_ok_def)
  have "\<exists>m' mx Mode. ConSplitterGetIntersection m (OwnArray col) (TextOutListCount ?P) 1 (MaxMode (TextOutMode ?P)) (CurMode (TextOutMode ?P)) =
      (m', mx, Mode) \<and> 1 \<le> mx \<and> mx \<le> MaxMode (TextOutMode ?P) \<and> length m' = length m \<and>
      (\<forall>i < nat mx. 0 \<le> cell (TextOutListCount ?P) m' i 0 \<and> nat (cell (TextOutListCount ?P) m' i 0) < TextOutQueryDataCount ?P)"
    using P m(2) by (intro intersection_ok) (simp_all add: text_ok_def column_ok_def)
  then obtain m' mx Mode where I: "ConSplitterGetIntersection m (OwnArray col) (TextOutListCount ?P) 1 (MaxMode (TextOutMode ?P)) (CurMode (TextOutMode ?P)) =
        (m', mx, Mode)" "1 \<le> mx" "mx \<le> MaxMode (TextOutMode ?P)" "length m' = length m"
      "\<forall>i < nat mx. 0 \<le> cell (TextOutListCount ?P) m' i 0 \<and> nat (cell (TextOutListCount ?P) m' i 0) < TextOutQueryDataCount ?P"
    by blast
  let ?P' = "?P\<lparr>TextOutModeMap := Some m', TextOutMode := (TextOutMode ?P)\<lparr>MaxMode := mx, CurMode := Mode\<rparr>\<rparr>"
  have eq: "intersect_splitter env k col s = (if Mode < 0 then snd (ConSplitterTextOutSetMode env k 0 (set_priv k ?P' s)) else set_priv k ?P' s)"
    using I(1) m(1) by (simp add: intersect_splitter_def Let_def)
  have "quiet (set_priv k ?P' s) (intersect_splitter env k col s)" unfolding eq using quiet_SetMode by auto
  moreover have "text_ok ?P'" using P m(2) I nat_mono [OF I(3)] by (simp add: text_ok_def map_ok_def)
  ultimately show ?thesis
    using s tables_set_priv [of s ?P' k] same_gfx_set_priv [of ?P' k s] by (auto simp: quiet_tables intro: same_gfx_trans quiet_same_gfx)
qed

lemma BetweenConOutAndStrErr_ok:
  assumes "tables_ok s"
  shows "tables_ok (snd (ConSplitterGetIntersectionBetweenConOutAndStrErr env s)) \<and>
    same_gfx s (snd (ConSplitterGetIntersectionBetweenConOutAndStrErr env s))"
proof -
  have q: "quiet s (s\<lparr>to_allocs := n\<rparr>)" for n by simp
  have calm: "tables_ok s' \<and> same_gfx s s'" if "quiet s s'" for s' using that assms by (simp add: quiet_tables quiet_same_gfx)
  show ?thesis
  proof (cases "find_common s")
    case False
    then show ?thesis using calm [of s] by (simp add: ConSplitterGetIntersectionBetweenConOutAndStrErr_def)
  next
    case True
    then obtain i j where "i < CurrentNumberOfConsoles (mConOut s)" "j < CurrentNumberOfConsoles (mStdErr s)"
      by (auto simp: find_common_def Let_def list_ex_iff)
    then have n: "0 < CurrentNumberOfConsoles (priv k s)" for k by (cases k) (simp_all add: priv_def)
    have both: "tables_ok s3 \<and> same_gfx s s3" if s3: "s3 = intersect_splitter env StdErr em (intersect_splitter env ConOut cm (s\<lparr>to_allocs := a\<rparr>))"
      for s3 em cm a
    proof -
      let ?s = "s\<lparr>to_allocs := a\<rparr>" and ?t = "intersect_splitter env ConOut cm (s\<lparr>to_allocs := a\<rparr>)"
      have t: "tables_ok ?t" "same_gfx ?s ?t" using intersect_splitter_ok [of ?s ConOut env cm] calm [OF q] n by auto
      then have "0 < CurrentNumberOfConsoles (priv StdErr ?t)" using n [of StdErr] by (simp add: same_gfx_def gfx_def)
      with t have "tables_ok s3" "same_gfx ?t s3" using intersect_splitter_ok [of ?t StdErr env em] by (auto simp: s3)
      then show ?thesis using t(2) calm [OF q, of a] by (blast intro: same_gfx_trans)
    qed
    show ?thesis
      using True calm [OF q] both by (auto simp: ConSplitterGetIntersectionBetweenConOutAndStrErr_def Let_def split: prod.splits)
  qed
qed

end
