(* ===== verification/SplitterRuns.thy ===== *)
theory SplitterRuns
  imports SplitterTables
begin

text \<open>
  The output splitters as a transition system: consoles with a graphics output are attached and detached in any order, text
  and graphics operations are called in between.  The tables stay well formed, and every graphics mode of a splitter can be
  set on every graphics output attached to it.
\<close>

section \<open>Attaching to the table of text modes\<close>

lemma grow_consoles_ok:
  assumes alloc: "\<And>n. alloc_ok env n" and P: "text_ok (priv k s)"
  shows "\<exists>s' n list m. grow_consoles env k s = (EFI_SUCCESS, s') \<and>
    priv k s' = (priv k s)\<lparr>TextOutListCount := n, TextOutList := list, TextOutModeMap := m\<rparr> \<and> priv (other k) s' = priv (other k) s \<and>
    to_calls s' = to_calls s \<and> text_ok (priv k s') \<and> CurrentNumberOfConsoles (priv k s) < n \<and>
    take (CurrentNumberOfConsoles (priv k s)) list = take (CurrentNumberOfConsoles (priv k s)) (TextOutList (priv k s))"
proof -
  let ?P = "priv k s" and ?c = "CurrentNumberOfConsoles (priv k s)"
  show ?thesis
  proof (cases "TextOutListCount ?P \<le> ?c")
    case False
    then have "grow_consoles env k s = (EFI_SUCCESS, s)" by (simp add: grow_consoles.simps [of env k s])
    then show ?thesis using False P
      by (intro exI [of _ s] exI [of _ "TextOutListCount ?P"] exI [of _ "TextOutList ?P"] exI [of _ "TextOutModeMap ?P"]) simp
  next
    case True
    let ?Old = "TextOutListCount ?P"
    have c: "?c = ?Old" "0 < ?c" using P True by (auto simp: text_ok_def)
    then obtain old where old: "TextOutModeMap ?P = Some old" "map_ok ?P old" using P by (auto simp: text_ok_def)
    let ?n = "?Old + CONSOLE_SPLITTER_ALLOC_UNIT"
    let ?list = "take ?Old (TextOutList ?P) @ replicate CONSOLE_SPLITTER_ALLOC_UNIT (junk_console env)"
    let ?P1 = "?P\<lparr>TextOutListCount := ?n, TextOutList := ?list\<rparr>"
    let ?s1 = "set_priv k ?P1 (next_alloc s)"
    have "\<exists>m. ConSplitterGrowMapTable env k ?s1 = (EFI_SUCCESS, set_priv k ((priv k ?s1)\<lparr>TextOutModeMap := Some m\<rparr>) (next_alloc ?s1)) \<and>
        length m = TextOutListCount (priv k ?s1) * TextOutQueryDataCount (priv k ?s1) \<and>
        (\<forall>i < nat (MaxMode (TextOutMode (priv k ?s1))). \<forall>j < CurrentNumberOfConsoles (priv k ?s1). cell (TextOutListCount (priv k ?s1)) m i j = cell ?Old old i j)"
      using alloc old P c by (intro GrowMapTable_copy) (simp_all add: map_ok_def text_ok_def)
    then obtain m where m: "ConSplitterGrowMapTable env k ?s1 = (EFI_SUCCESS, set_priv k (?P1\<lparr>TextOutModeMap := Some m\<rparr>) (next_alloc ?s1))"
        "length m = ?n * TextOutQueryDataCount ?P"
        "\<And>i j. i < nat (MaxMode (TextOutMode ?P)) \<Longrightarrow> j < ?c \<Longrightarrow> cell ?n m i j = cell ?Old old i j"
      by auto
    let ?P2 = "?P1\<lparr>TextOutModeMap := Some m\<rparr>"
    let ?s2 = "set_priv k ?P2 (next_alloc ?s1)"
    have "grow_consoles env k s = grow_consoles env k ?s2"
      using True m(1) alloc by (subst grow_consoles.simps) (simp add: ConSplitterGrowBuffer_def Let_def)
    also have "\<dots> = (EFI_SUCCESS, ?s2)"
      using c by (subst grow_consoles.simps) (simp add: CONSOLE_SPLITTER_ALLOC_UNIT_def)
    finally have "grow_consoles env k s = (EFI_SUCCESS, ?s2)" .
    moreover have "map_ok ?P2 m" using old(2) m(2,3) c by (simp add: map_ok_def)
    then have "text_ok ?P2" using P c by (simp add: text_ok_def CONSOLE_SPLITTER_ALLOC_UNIT_def)
    ultimately show ?thesis using c P
      by (intro exI [of _ ?s2] exI [of _ ?n] exI [of _ ?list] exI [of _ "Some m"]) (simp add: CONSOLE_SPLITTER_ALLOC_UNIT_def text_ok_def)
  qed
qed

lemma add_console_ok:
  assumes ok: "\<And>n. alloc_ok env n" "\<And>l d. 1 \<le> MaxMode (to_mode env l d)"
    and P: "text_ok (priv k s)" "CurrentNumberOfConsoles (priv k s) < TextOutListCount (priv k s)"
  shows "text_ok (priv k (add_console env k d s)) \<and> priv (other k) (add_console env k d s) = priv (other k) s \<and>
    gfx (priv k (add_console env k d s)) = gfx ((priv k s)\<lparr>CurrentNumberOfConsoles := CurrentNumberOfConsoles (priv k s) + 1,
      TextOutList := (TextOutList (priv k s))[CurrentNumberOfConsoles (priv k s) := d]\<rparr>)"
proof -
  let ?P = "priv k s" and ?c = "CurrentNumberOfConsoles (priv k s)"
  let ?P1 = "?P\<lparr>TextOutList := (TextOutList ?P)[?c := d]\<rparr>"
  let ?s1 = "set_priv k ?P1 s"
  have P1: "text_ok ?P1" using P(1) by (simp add: text_ok_def map_ok_def)
  show ?thesis
  proof (cases "?c = 0")
    case True
    have pre: "text_ok ((priv k ?s1)\<lparr>CurrentNumberOfConsoles := 0\<rparr>)"
        "CurrentNumberOfConsoles (priv k ?s1) = 0 \<or> TextOutModeMap (priv k ?s1) = None"
      using P1 True by (simp_all add: text_ok_def)
    from AddOutputMode_ok [OF ok pre, of "TextOutDevice d"] obtain s' mx n q m where s': "ConSplitterAddOutputMode env k (TextOutDevice d) ?s1 = (EFI_SUCCESS, s')"
        "priv (other k) s' = priv (other k) s"
        "priv k s' = ?P1\<lparr>TextOutMode := (TextOutMode ?P)\<lparr>MaxMode := mx\<rparr>, TextOutQueryDataCount := n, TextOutQueryData := q, TextOutModeMap := Some m\<rparr>"
        "map_ok (priv k s') m" "length q = n" "2 \<le> n" "1 \<le> mx" "nat mx \<le> n"
      by auto
    have eq: "add_console env k d s = set_priv k ((priv k s')\<lparr>CurrentNumberOfConsoles := 1\<rparr>) s'"
      using True s'(1) by (simp add: add_console_def Let_def)
    show ?thesis using True P s'(2-) by (simp add: eq text_ok_def map_ok_def gfx_def)
  next
    case False
    have pre: "text_ok (priv k ?s1)" "0 < CurrentNumberOfConsoles (priv k ?s1)" "CurrentNumberOfConsoles (priv k ?s1) < TextOutListCount (priv k ?s1)"
      using P1 False P(2) by simp_all
    from SyncOutputMode_ok [OF pre, of env "TextOutDevice d"] obtain t q m where s': "ConSplitterSyncOutputMode env k (TextOutDevice d) ?s1 =
          set_priv k (?P1\<lparr>TextOutMode := t, TextOutQueryData := q, TextOutModeMap := Some m\<rparr>) ?s1"
        "map_ok (?P1\<lparr>TextOutMode := t, TextOutQueryData := q, TextOutModeMap := Some m\<rparr>) m" "length q = TextOutQueryDataCount ?P"
        "1 \<le> MaxMode t" "MaxMode t \<le> MaxMode (TextOutMode ?P)"
      by (auto simp: Let_def)
    have eq: "add_console env k d s = set_priv k (?P1\<lparr>TextOutMode := t, TextOutQueryData := q, TextOutModeMap := Some m, CurrentNumberOfConsoles := ?c + 1\<rparr>) s"
      using False s'(1) by (simp add: add_console_def Let_def)
    have "text_ok (?P1\<lparr>TextOutMode := t, TextOutQueryData := q, TextOutModeMap := Some m, CurrentNumberOfConsoles := ?c + 1\<rparr>)"
      using P s'(2-) nat_mono [OF s'(5)] by (simp add: text_ok_def map_ok_def)
    then show ?thesis unfolding eq by (simp add: gfx_def)
  qed
qed

section \<open>Attaching to the table of graphics modes\<close>

text \<open>The graphics side of a splitter with \<open>n\<close> counted graphics outputs: the devices \<open>gs\<close> have every mode of the table.\<close>

definition gfx_with :: "to_env \<Rightarrow> nat set \<Rightarrow> nat \<Rightarrow> TEXT_OUT_SPLITTER_PRIVATE_DATA \<Rightarrow> bool" where
  "gfx_with env gs n P \<longleftrightarrow>
     (\<exists>M. GraphicsOutputMode P = Some M \<and> ModeInfo M \<noteq> None \<and> DisplayMaxMode M \<le> length (GraphicsOutputModeBuffer P)) \<and>
     CurrentNumberOfUgaDraw P = 0 \<and> CurrentNumberOfGraphicsOutput P = n \<and> list_all (\<lambda>d. UgaDevice d = None) (attached P) \<and>
     (\<forall>g\<in>gs. \<forall>I\<in>set (mode_table P). offers env g (resolution I))"

definition gfx_ok :: "to_env \<Rightarrow> TEXT_OUT_SPLITTER_PRIVATE_DATA \<Rightarrow> bool" where
  "gfx_ok env P \<longleftrightarrow> gfx_with env (set (gops P)) (length (gops P)) P"

lemma gfx_attached:
  assumes "gfx P = gfx Q"
  shows "attached P = attached Q" "gops P = gops Q" "mode_table P = mode_table Q"
  using gfxD [OF assms] by (simp_all add: attached_def gops_def mode_table_def split: option.split)

lemma gfx_with_cong:
  assumes "gfx P = gfx Q"
  shows "gfx_with env gs n P \<longleftrightarrow> gfx_with env gs n Q"
  by (simp add: gfx_with_def gfxD [OF assms] gfx_attached [OF assms])

lemma gfx_ok_cong:
  assumes "gfx P = gfx Q"
  shows "gfx_ok env P \<longleftrightarrow> gfx_ok env Q"
  unfolding gfx_ok_def gfx_attached [OF assms] by (rule gfx_with_cong [OF assms])

lemma attached_simps [simp]:
  "attached (P\<lparr>GraphicsOutputMode := M\<rparr>) = attached P" "attached (P\<lparr>GraphicsOutputModeBuffer := buf\<rparr>) = attached P"
  "attached (P\<lparr>CurrentNumberOfGraphicsOutput := n\<rparr>) = attached P" "attached (P\<lparr>CurrentNumberOfUgaDraw := n\<rparr>) = attached P"
  by (simp_all add: attached_def)

lemma last_error_success:
  "(\<And>d c log. (d, c) \<in> set cs \<Longrightarrow> to_status env log d c = EFI_SUCCESS) \<Longrightarrow> last_error env log cs EFI_SUCCESS = EFI_SUCCESS"
proof (induction cs arbitrary: log)
  case (Cons x cs)
  then show ?case by (cases x) simp
qed simp

lemma set_priv_other_calls [simp]: "set_priv k P (s\<lparr>to_calls := l\<rparr>) = (set_priv k P s)\<lparr>to_calls := l\<rparr>"
  by (cases k) (simp_all add: set_priv_def)

text \<open>What the label \<open>Done\<close> leaves: the table as before, one graphics output more.\<close>

definition forced :: "splitter \<Rightarrow> nat \<Rightarrow> splitter_state \<Rightarrow> splitter_state \<Rightarrow> bool" where
  "forced k n s s' \<longleftrightarrow> (\<exists>M M' buf. GraphicsOutputMode (priv k s) = Some M \<and> DisplayMaxMode M' = DisplayMaxMode M \<and> ModeInfo M' \<noteq> None \<and>
     length buf = length (GraphicsOutputModeBuffer (priv k s)) \<and>
     take (DisplayMaxMode M) buf = take (DisplayMaxMode M) (GraphicsOutputModeBuffer (priv k s)) \<and>
     priv k s' = (priv k s)\<lparr>CurrentNumberOfGraphicsOutput := n, GraphicsOutputMode := Some M', GraphicsOutputModeBuffer := buf\<rparr> \<and>
     priv (other k) s' = priv (other k) s)"

lemma forcedI:
  assumes "GraphicsOutputMode (priv k s) = Some M" "DisplayMaxMode M' = DisplayMaxMode M" "ModeInfo M' \<noteq> None"
    "length buf = length (GraphicsOutputModeBuffer (priv k s))"
    "take (DisplayMaxMode M) buf = take (DisplayMaxMode M) (GraphicsOutputModeBuffer (priv k s))"
    "priv k s' = (priv k s)\<lparr>CurrentNumberOfGraphicsOutput := n, GraphicsOutputMode := Some M', GraphicsOutputModeBuffer := buf\<rparr>"
    "priv (other k) s' = priv (other k) s"
  shows "forced k n s s'"
  using assms unfolding forced_def by blast

lemma text_ok_graphics [simp]:
  "text_ok (P\<lparr>CurrentNumberOfGraphicsOutput := n\<rparr>) \<longleftrightarrow> text_ok P" "text_ok (P\<lparr>GraphicsOutputModeBuffer := buf\<rparr>) \<longleftrightarrow> text_ok P"
  "text_ok (P\<lparr>GraphicsOutputMode := M\<rparr>) \<longleftrightarrow> text_ok P"
  by (simp_all add: text_ok_def map_ok_def)

text \<open>A step on the graphics side of a splitter.\<close>

definition graphics_step :: "splitter \<Rightarrow> splitter_state \<Rightarrow> splitter_state \<Rightarrow> bool" where
  "graphics_step k s s' \<longleftrightarrow> attached (priv k s') = attached (priv k s) \<and> (text_ok (priv k s') \<longleftrightarrow> text_ok (priv k s)) \<and>
     priv (other k) s' = priv (other k) s"

lemma graphics_step_trans [trans]: "graphics_step k s s1 \<Longrightarrow> graphics_step k s1 s2 \<Longrightarrow> graphics_step k s s2"
  by (simp add: graphics_step_def)

lemma forced_gfx:
  assumes "forced k m s s'" "gfx_with env gs n (priv k s)"
  shows "gfx_with env gs m (priv k s') \<and> graphics_step k s s' \<and> mode_table (priv k s') = mode_table (priv k s)"
proof -
  from assms(1) obtain M M' buf where f: "GraphicsOutputMode (priv k s) = Some M" "DisplayMaxMode M' = DisplayMaxMode M" "ModeInfo M' \<noteq> None"
      "length buf = length (GraphicsOutputModeBuffer (priv k s))"
      "take (DisplayMaxMode M) buf = take (DisplayMaxMode M) (GraphicsOutputModeBuffer (priv k s))"
      "priv k s' = (priv k s)\<lparr>CurrentNumberOfGraphicsOutput := m, GraphicsOutputMode := Some M', GraphicsOutputModeBuffer := buf\<rparr>"
      "priv (other k) s' = priv (other k) s"
    unfolding forced_def by blast
  have "mode_table (priv k s') = mode_table (priv k s)" using f by (simp add: mode_table_def)
  then show ?thesis using f assms(2) by (auto simp: gfx_with_def graphics_step_def)
qed

text \<open>Graphics outputs that have a mode and set each of their modes.\<close>

locale settable_outputs = graphics_outputs +
  assumes some_mode: "0 < DisplayMaxMode (gop_mode env [] g)"
    and set_succeeds: "i < DisplayMaxMode (gop_mode env [] g) \<Longrightarrow> to_status env log g (GSetMode i) = EFI_SUCCESS"
begin

lemma set_mode_result:
  assumes M: "GraphicsOutputMode (priv k s) = Some M" "ModeInfo M \<noteq> None" "n < DisplayMaxMode M"
      "DisplayMaxMode M \<le> length (GraphicsOutputModeBuffer (priv k s))"
    and uga: "list_all (\<lambda>d. UgaDevice d = None) (attached (priv k s))"
    and common: "\<And>g. g \<in> set (gops (priv k s)) \<Longrightarrow> offers env g (resolution (GraphicsOutputModeBuffer (priv k s) ! n))"
  shows "\<exists>M' l. ConSplitterGraphicsOutputSetMode env k n s =
      Some (EFI_SUCCESS, set_priv k ((priv k s)\<lparr>GraphicsOutputMode := Some M'\<rparr>) (s\<lparr>to_calls := l\<rparr>)) \<and>
    DisplayMaxMode M' = DisplayMaxMode M \<and> ModeInfo M' \<noteq> None"
proof -
  let ?P = "priv k s"
  let ?I = "GraphicsOutputModeBuffer ?P ! n"
  let ?cs = "set_mode_calls env (resolution ?I) (gops ?P)"
  have calls: "switch_calls env (HorizontalResolution ?I) (VerticalResolution ?I) 32 60 (attached ?P) = ?cs"
    using switch_calls_gops [OF uga] by (simp add: gops_def resolution_def)
  have "last_error env (to_calls s) ?cs EFI_SUCCESS = EFI_SUCCESS"
  proof (rule last_error_success)
    fix d c log assume "(d, c) \<in> set ?cs"
    then have d: "d \<in> set (gops ?P)" "c = GSetMode (mode_number env d (resolution ?I))" by (auto simp: set_mode_calls_def)
    from mode_number_offered(1) [OF common [OF d(1)]] show "to_status env log d c = EFI_SUCCESS"
      unfolding d(2) by (intro set_succeeds) (simp add: modes_of_def)
  qed
  then have eq: "ConSplitterGraphicsOutputSetMode env k n s = Some (EFI_SUCCESS,
      set_graphics_mode k (mode_shown env (to_calls s @ ?cs) ?P (last_gop (attached ?P) None) n M) (s\<lparr>to_calls := to_calls s @ ?cs\<rparr>))"
    using M by (simp add: ConSplitterGraphicsOutputSetMode_def switch calls Let_def)
  have "DisplayMaxMode (mode_shown env (to_calls s @ ?cs) ?P (last_gop (attached ?P) None) n M) = DisplayMaxMode M"
    "ModeInfo (mode_shown env (to_calls s @ ?cs) ?P (last_gop (attached ?P) None) n M) \<noteq> None"
    by (simp_all add: mode_shown_def split: option.split)
  then show ?thesis unfolding eq set_graphics_mode_def
    by (intro exI [of _ "mode_shown env (to_calls s @ ?cs) ?P (last_gop (attached ?P) None) n M"] exI [of _ "to_calls s @ ?cs"]) simp
qed

lemma force_mode_result:
  assumes "force_mode env k (Some g) None ci s = Some (st, s')"
    and P: "gfx_with env gs n (priv k s)" "set (gops (priv k s)) \<subseteq> gs" "Suc n < 2 ^ 64"
    and ci: "mode_table (priv k s) = [] \<or> ci < length (mode_table (priv k s))"
  shows "forced k (Suc n) s s'"
proof -
  let ?P = "priv k s"
  obtain M where M: "GraphicsOutputMode ?P = Some M" "ModeInfo M \<noteq> None" "DisplayMaxMode M \<le> length (GraphicsOutputModeBuffer ?P)"
    using P(1) by (auto simp: gfx_with_def)
  let ?P1 = "?P\<lparr>CurrentNumberOfGraphicsOutput := Suc n\<rparr>" and ?buf = "GraphicsOutputModeBuffer ?P"
  let ?s1 = "set_priv k ?P1 s"
  have counts: "?P\<lparr>CurrentNumberOfGraphicsOutput := wrap (Suc (CurrentNumberOfGraphicsOutput ?P)), CurrentNumberOfUgaDraw := wrap (CurrentNumberOfUgaDraw ?P)\<rparr> = ?P1"
  proof -
    have "wrap (Suc (CurrentNumberOfGraphicsOutput ?P)) = Suc n" "wrap (CurrentNumberOfUgaDraw ?P) = 0" "CurrentNumberOfUgaDraw ?P = 0"
      using P(1,3) by (simp_all add: gfx_with_def wrap_def)
    then show ?thesis by (cases ?P) simp
  qed
  have table: "mode_table ?P = take (DisplayMaxMode M) ?buf" using M(1) by (simp add: mode_table_def)
  have new: "forced k (Suc n) s (snd (switch_new env k g ci M ?s1))"
  proof -
    have "\<exists>l. snd (switch_new env k g ci M ?s1) = set_priv k (?P1\<lparr>GraphicsOutputMode := Some (M\<lparr>DisplayMode := ci\<rparr>)\<rparr>) (s\<lparr>to_calls := l\<rparr>)"
      by (auto simp: switch_new_def set_graphics_mode_def find call_console_eq Let_def intro: exI [of _ "to_calls s"])
    then obtain l where eq: "snd (switch_new env k g ci M ?s1) = set_priv k (?P1\<lparr>GraphicsOutputMode := Some (M\<lparr>DisplayMode := ci\<rparr>)\<rparr>) (s\<lparr>to_calls := l\<rparr>)" ..
    have same: "?P1\<lparr>GraphicsOutputMode := Some (M\<lparr>DisplayMode := ci\<rparr>)\<rparr> =
        ?P\<lparr>CurrentNumberOfGraphicsOutput := Suc n, GraphicsOutputMode := Some (M\<lparr>DisplayMode := ci\<rparr>), GraphicsOutputModeBuffer := ?buf\<rparr>"
      by (rule TEXT_OUT_SPLITTER_PRIVATE_DATA.equality) simp_all
    show ?thesis
      by (rule forcedI [OF M(1), of "M\<lparr>DisplayMode := ci\<rparr>" ?buf]) (simp_all add: M eq same [symmetric])
  qed
  have all: "forced k (Suc n) s s2" if "switch_or_default env k ci M ?s1 = Some (st2, s2)" for st2 s2
  proof (cases "ci < DisplayMaxMode M")
    case True
    let ?M = "M\<lparr>DisplayMode := 0xffff\<rparr>"
    let ?s2 = "set_graphics_mode k ?M ?s1"
    have "offers env h (resolution (?buf ! ci))" if "h \<in> set (gops ?P)" for h
    proof -
      have "?buf ! ci \<in> set (mode_table ?P)" using True M(3) unfolding table by (auto simp: in_set_conv_nth intro!: exI [of _ ci])
      then show ?thesis using P(1,2) that by (auto simp: gfx_with_def)
    qed
    moreover have "priv k ?s2 = ?P1\<lparr>GraphicsOutputMode := Some ?M\<rparr>" by (simp add: set_graphics_mode_def)
    ultimately have "\<exists>M' l. ConSplitterGraphicsOutputSetMode env k ci ?s2 =
        Some (EFI_SUCCESS, set_priv k ((priv k ?s2)\<lparr>GraphicsOutputMode := Some M'\<rparr>) (?s2\<lparr>to_calls := l\<rparr>)) \<and>
        DisplayMaxMode M' = DisplayMaxMode ?M \<and> ModeInfo M' \<noteq> None"
      using True M P(1) by (intro set_mode_result) (simp_all add: gfx_with_def gops_def)
    then obtain M' l where M': "ConSplitterGraphicsOutputSetMode env k ci ?s2 =
        Some (EFI_SUCCESS, set_priv k ((priv k ?s2)\<lparr>GraphicsOutputMode := Some M'\<rparr>) (?s2\<lparr>to_calls := l\<rparr>))"
        "DisplayMaxMode M' = DisplayMaxMode M" "ModeInfo M' \<noteq> None" by auto
    then have s2: "s2 = set_priv k ((priv k ?s2)\<lparr>GraphicsOutputMode := Some M'\<rparr>) (?s2\<lparr>to_calls := l\<rparr>)"
      using that by (simp add: switch_or_default_def)
    have same: "(priv k ?s2)\<lparr>GraphicsOutputMode := Some M'\<rparr> =
        ?P\<lparr>CurrentNumberOfGraphicsOutput := Suc n, GraphicsOutputMode := Some M', GraphicsOutputModeBuffer := ?buf\<rparr>"
      by (rule TEXT_OUT_SPLITTER_PRIVATE_DATA.equality) (simp_all add: set_graphics_mode_def)
    show ?thesis unfolding s2 same
      by (rule forcedI [OF M(1) M'(2,3), of ?buf]) (simp_all add: set_graphics_mode_def)
  next
    case False
    then have empty: "DisplayMaxMode M = 0" using ci M(3) unfolding table by auto
    let ?M = "M\<lparr>DisplayMode := 0xffff\<rparr>" and ?new = "?buf[0 := (?buf ! 0)\<lparr>HorizontalResolution := 800, VerticalResolution := 600\<rparr>]"
    have s2: "s2 = set_priv k (?P1\<lparr>GraphicsOutputMode := Some ?M, GraphicsOutputModeBuffer := ?new\<rparr>) s"
      using that empty by (auto simp: switch_or_default_def ConSplitterGraphicsOutputSetMode_def set_graphics_mode_def Let_def EFI_ERROR_def split: if_splits)
    show ?thesis by (rule forcedI [OF M(1), of ?M ?new]) (simp_all add: M s2 empty)
  qed
  show ?thesis
    using assms(1) M new all by (auto simp: force_mode_def counts Let_def split: if_splits)
qed

lemma current_index_bound:
  assumes "GraphicsOutputMode (priv k s) = Some M" "DisplayMaxMode M \<le> length (GraphicsOutputModeBuffer (priv k s))"
  shows "mode_table (priv k s) = [] \<or> current_index env k g s < length (mode_table (priv k s))"
  using assms by (auto simp: current_index_def mode_table_def Let_def find_first split: option.split)

text \<open>The table with the new device: its own modes, or the common ones.\<close>

lemma new_table:
  assumes alloc: "\<And>n. alloc_ok env n" and P: "gfx_with env gs n (priv k s)" "n = 0 \<Longrightarrow> gs = {}" and M: "GraphicsOutputMode (priv k s) = Some M"
  shows "\<exists>s1. (if n = 0 then first_gop else next_gop) env k g M s = Some (EFI_SUCCESS, s1) \<and>
    gfx_with env (insert g gs) n (priv k s1) \<and> graphics_step k s s1 \<and>
    (if n = 0 then mode_table (priv k s1) = modes_of env g
     else match_modes env (to_calls s) g (mode_table (priv k s)) [] = Inr (mode_table (priv k s1)))"
proof -
  let ?P = "priv k s"
  obtain I where M: "GraphicsOutputMode ?P = Some M" "ModeInfo M = Some I" "DisplayMaxMode M \<le> length (GraphicsOutputModeBuffer ?P)"
    using P(1) M by (auto simp: gfx_with_def)
  show ?thesis
  proof (cases "n = 0")
    case True
    let ?D = "gop_mode env (to_calls s) g"
    let ?M = "M\<lparr>DisplayMaxMode := DisplayMaxMode ?D, DisplayMode := DisplayMode ?D, ModeInfo := Some (gop_info env (to_calls s) g),
        SizeOfInfo := SizeOfInfo ?D, FrameBufferBase := FrameBufferBase ?D, FrameBufferSize := FrameBufferSize ?D\<rparr>"
    let ?P1 = "?P\<lparr>GraphicsOutputMode := Some ?M, GraphicsOutputModeBuffer := modes_of env g\<rparr>"
    let ?s1 = "set_priv k ?P1 (next_alloc s)"
    have "first_gop env k g M s = Some (EFI_SUCCESS, ?s1)"
      using M(2) alloc by (simp add: first_gop_def fill_all Let_def)
    moreover have "mode_table ?P1 = modes_of env g" using modes_length [of g "to_calls s"] by (simp add: mode_table_def)
    moreover have "offers env g (resolution J)" if "J \<in> set (modes_of env g)" for J using that by (simp add: offers_def)
    moreover have "text_ok ?P1 \<longleftrightarrow> text_ok ?P" by (simp add: text_ok_def map_ok_def)
    ultimately show ?thesis using True P(1,2) modes_length [of g "to_calls s"]
      by (intro exI [of _ ?s1]) (auto simp: gfx_with_def graphics_step_def)
  next
    case False
    obtain new where new: "match_modes env (to_calls s) g (mode_table ?P) [] = Inr new"
        "set (map resolution new) = {r \<in> set (map resolution (mode_table ?P)). offers env g r}"
      using match [OF refl, of "to_calls s" g "mode_table ?P" "[]"] by auto
    have table: "mode_table ?P = take (DisplayMaxMode M) (GraphicsOutputModeBuffer ?P)" using M(1) by (simp add: mode_table_def)
    let ?M = "M\<lparr>DisplayMaxMode := length new, ModeInfo := Some (blt_only I), SizeOfInfo := sizeof_MODE_INFORMATION,
        FrameBufferBase := 0, FrameBufferSize := 0\<rparr>"
    let ?P1 = "?P\<lparr>GraphicsOutputModeBuffer := new @ replicate (DisplayMaxMode M - length new) (junk_info env), GraphicsOutputMode := Some ?M\<rparr>"
    let ?s1 = "set_priv k ?P1 (next_alloc s)"
    have "next_gop env k g M s = Some (EFI_SUCCESS, ?s1)"
      using M(2) alloc new(1) by (simp add: next_gop_def table Let_def)
    moreover have "mode_table ?P1 = new" by (simp add: mode_table_def)
    moreover have "offers env h (resolution J)" if "h \<in> insert g gs" "J \<in> set new" for h J
    proof -
      have "resolution J \<in> set (map resolution new)" using that(2) by simp
      then have "resolution J \<in> set (map resolution (mode_table ?P))" "offers env g (resolution J)" unfolding new(2) by simp_all
      then show ?thesis using that(1) P(1) by (auto simp: gfx_with_def)
    qed
    ultimately show ?thesis using False P(1) new(1)
      by (intro exI [of _ ?s1]) (auto simp: gfx_with_def graphics_step_def)
  qed
qed

lemma AddGraphicsOutputMode_eq:
  assumes "gfx_with env gs n (priv k s)" "GraphicsOutputMode (priv k s) = Some M" "(if n = 0 then first_gop else next_gop) env k g M s = Some (EFI_SUCCESS, s1)"
  shows "ConSplitterAddGraphicsOutputMode env k (Some g) None s = force_mode env k (Some g) None (current_index env k g s1) s1"
  using assms by (auto simp: ConSplitterAddGraphicsOutputMode_def Let_def gfx_with_def split: if_splits)

lemma AddGraphicsOutputMode_ok:
  assumes add: "ConSplitterAddGraphicsOutputMode env k (Some g) None s = Some (st, s')" and alloc: "\<And>n. alloc_ok env n"
    and P: "gfx_with env gs n (priv k s)" "set (gops (priv k s)) = insert g gs" "n = 0 \<Longrightarrow> gs = {}" "Suc n < 2 ^ 64"
  shows "gfx_with env (insert g gs) (Suc n) (priv k s') \<and> graphics_step k s s' \<and>
    (if n = 0 then mode_table (priv k s') = modes_of env g
     else match_modes env (to_calls s) g (mode_table (priv k s)) [] = Inr (mode_table (priv k s')))"
proof -
  obtain M where M: "GraphicsOutputMode (priv k s) = Some M" using P(1) by (auto simp: gfx_with_def)
  from new_table [OF alloc P(1,3) M, of g] obtain s1 where s1: "(if n = 0 then first_gop else next_gop) env k g M s = Some (EFI_SUCCESS, s1)"
      "gfx_with env (insert g gs) n (priv k s1)" "graphics_step k s s1"
      "if n = 0 then mode_table (priv k s1) = modes_of env g else match_modes env (to_calls s) g (mode_table (priv k s)) [] = Inr (mode_table (priv k s1))"
    by blast
  have "force_mode env k (Some g) None (current_index env k g s1) s1 = Some (st, s')"
    using add unfolding AddGraphicsOutputMode_eq [OF P(1) M s1(1)] .
  moreover have "gops (priv k s1) = gops (priv k s)" using s1(3) by (simp add: graphics_step_def gops_def)
  moreover obtain M1 where M1: "GraphicsOutputMode (priv k s1) = Some M1" "DisplayMaxMode M1 \<le> length (GraphicsOutputModeBuffer (priv k s1))"
    using s1(2) by (auto simp: gfx_with_def)
  note current_index_bound [OF M1, of g]
  ultimately have "forced k (Suc n) s1 s'"
    using s1(2) P(2,4) by (intro force_mode_result) auto
  from forced_gfx [OF this s1(2)] s1(3,4) show ?thesis by (auto intro: graphics_step_trans)
qed

text \<open>A device with a mode that the table has can be attached.\<close>

lemma force_mode_total:
  assumes "gfx_with env gs n (priv k s)" "set (gops (priv k s)) \<subseteq> gs" "ci < length (mode_table (priv k s))"
  shows "\<exists>st s'. force_mode env k (Some g) None ci s = Some (st, s')"
proof -
  let ?P = "priv k s"
  obtain M where M: "GraphicsOutputMode ?P = Some M" "ModeInfo M \<noteq> None" "DisplayMaxMode M \<le> length (GraphicsOutputModeBuffer ?P)"
    using assms(1) by (auto simp: gfx_with_def)
  have ci: "ci < DisplayMaxMode M" "ci < length (GraphicsOutputModeBuffer ?P)" "mode_table ?P ! ci = GraphicsOutputModeBuffer ?P ! ci"
    using assms(3) M by (auto simp: mode_table_def)
  have "\<exists>st2 s2. switch_or_default env k ci M (set_priv k Q s) = Some (st2, s2)"
    if Q: "GraphicsOutputModeBuffer Q = GraphicsOutputModeBuffer ?P" "attached Q = attached ?P" for Q
  proof -
    let ?s2 = "set_graphics_mode k (M\<lparr>DisplayMode := 0xffff\<rparr>) (set_priv k Q s)"
    have "offers env h (resolution (GraphicsOutputModeBuffer ?P ! ci))" if "h \<in> set (gops ?P)" for h
      using assms(1,2) that nth_mem [OF assms(3)] ci(3) by (auto simp: gfx_with_def)
    then have "\<exists>M' l. ConSplitterGraphicsOutputSetMode env k ci ?s2 =
        Some (EFI_SUCCESS, set_priv k ((priv k ?s2)\<lparr>GraphicsOutputMode := Some M'\<rparr>) (?s2\<lparr>to_calls := l\<rparr>)) \<and>
        DisplayMaxMode M' = DisplayMaxMode (M\<lparr>DisplayMode := 0xffff\<rparr>) \<and> ModeInfo M' \<noteq> None"
      using M ci assms(1) Q by (intro set_mode_result) (simp_all add: set_graphics_mode_def gfx_with_def gops_def)
    then show ?thesis by (auto simp: switch_or_default_def)
  qed
  then show ?thesis using M ci by (auto simp: force_mode_def Let_def)
qed

end

section \<open>Attaching\<close>

definition out_ok :: "to_env \<Rightarrow> splitter_state \<Rightarrow> bool" where
  "out_ok env s \<longleftrightarrow> tables_ok s \<and> (\<forall>k. gfx_ok env (priv k s))"

lemma out_ok_same: "tables_ok s' \<Longrightarrow> same_gfx s s' \<Longrightarrow> out_ok env s \<Longrightarrow> out_ok env s'"
  unfolding out_ok_def same_gfx_def using gfx_ok_cong by blast

lemma out_ok_quiet: "quiet s s' \<Longrightarrow> out_ok env s \<Longrightarrow> out_ok env s'"
  by (rule out_ok_same) (auto simp: out_ok_def quiet_tables quiet_same_gfx)

lemma attached_quiet:
  assumes "quiet s s'"
  shows "attached (priv k s') = attached (priv k s)"
  using gfx_attached(1) [of "priv k s'" "priv k s"] quiet_same_gfx [OF assms] by (simp add: same_gfx_def)

lemma quiet_set_adding [simp]: "quiet s (set_adding k b s)"
  unfolding set_adding_def by (rule quiet_set_priv) (simp add: core_def)

lemma splitter_cases: "(\<forall>j. Q j) \<longleftrightarrow> Q k \<and> Q (other k)"
  by (cases k) (auto simp: other_def split: splitter.split intro: splitter.induct [of Q])

lemma out_ok_split: "out_ok env s \<longleftrightarrow> (text_ok (priv k s) \<and> gfx_ok env (priv k s)) \<and> text_ok (priv (other k) s) \<and> gfx_ok env (priv (other k) s)"
  unfolding out_ok_def tables_ok_def splitter_cases [of _ k] by blast

text \<open>The states after the growth of the list and after the new entry: the new console is behind the others, but not counted
  among the graphics outputs yet.\<close>

lemma entered:
  assumes ok: "\<And>n. alloc_ok env n" "\<And>l d. 1 \<le> MaxMode (to_mode env l d)" and s: "out_ok env s" and d: "UgaDevice d = None"
  shows "\<exists>s1. grow_consoles env k s = (EFI_SUCCESS, s1) \<and>
    (let s3 = snd (ConSplitterGetIntersectionBetweenConOutAndStrErr env (add_console env k d s1)) in
       tables_ok s3 \<and> gfx_with env (set (gops (priv k s))) (length (gops (priv k s))) (priv k s3) \<and>
       attached (priv k s3) = attached (priv k s) @ [d] \<and> gfx_ok env (priv (other k) s3) \<and> mode_table (priv k s3) = mode_table (priv k s))"
proof -
  let ?P = "priv k s" and ?c = "CurrentNumberOfConsoles (priv k s)"
  have P: "text_ok ?P" "gfx_ok env ?P" "text_ok (priv (other k) s)" "gfx_ok env (priv (other k) s)"
    using s unfolding out_ok_split [of _ _ k] by simp_all
  obtain s1 n list m where s1: "grow_consoles env k s = (EFI_SUCCESS, s1)"
      "priv k s1 = ?P\<lparr>TextOutListCount := n, TextOutList := list, TextOutModeMap := m\<rparr>" "priv (other k) s1 = priv (other k) s"
      "text_ok (priv k s1)" "?c < n" "take ?c list = take ?c (TextOutList ?P)"
    using grow_consoles_ok [OF ok(1) P(1)] by blast
  let ?s2 = "add_console env k d s1"
  have c: "CurrentNumberOfConsoles (priv k s1) = ?c" "CurrentNumberOfConsoles (priv k s1) < TextOutListCount (priv k s1)"
    "?c < length list" using s1 by (simp_all add: text_ok_def)
  note s2 = add_console_ok [OF ok s1(4) c(2), of d]
  let ?Q = "(priv k s1)\<lparr>CurrentNumberOfConsoles := ?c + 1, TextOutList := list[?c := d]\<rparr>"
  have Q: "gfx (priv k ?s2) = gfx ?Q" using s2 s1(2) c(1) by simp
  have att: "attached ?Q = attached ?P @ [d]"
    using s1(6) c(3) by (simp add: attached_def take_Suc_conv_app_nth)
  have same: "GraphicsOutputMode ?Q = GraphicsOutputMode ?P" "GraphicsOutputModeBuffer ?Q = GraphicsOutputModeBuffer ?P"
      "CurrentNumberOfGraphicsOutput ?Q = CurrentNumberOfGraphicsOutput ?P" "CurrentNumberOfUgaDraw ?Q = CurrentNumberOfUgaDraw ?P"
    using s1(2) by simp_all
  then have table: "mode_table ?Q = mode_table ?P" by (simp add: mode_table_def split: option.split)
  with same have "gfx_with env (set (gops ?P)) (length (gops ?P)) ?Q"
    using P(2) d unfolding gfx_ok_def gfx_with_def att by simp
  then have W: "gfx_with env (set (gops ?P)) (length (gops ?P)) (priv k ?s2)" unfolding gfx_with_cong [OF Q] .
  have t2: "tables_ok ?s2" using s2 s1(3) P(3) unfolding tables_ok_def splitter_cases [of _ k] by simp
  let ?s3 = "snd (ConSplitterGetIntersectionBetweenConOutAndStrErr env ?s2)"
  from BetweenConOutAndStrErr_ok [OF t2] have t3: "tables_ok ?s3" "same_gfx ?s2 ?s3" by simp_all
  then have g3: "gfx (priv k ?s3) = gfx (priv k ?s2)" "gfx (priv (other k) ?s3) = gfx (priv (other k) s)"
    using s2 s1(3) by (simp_all add: same_gfx_def)
  show ?thesis using s1(1) t3(1) W P(4) att table
    by (intro exI [of _ s1]) (simp add: Let_def gfx_with_cong [OF g3(1)] gfx_ok_cong [OF g3(2)] gfx_attached(1,3) [OF g3(1)] gfx_attached(1,3) [OF Q])
qed

lemma quiet_publish: "publish_graphics env k D st s = (st', s') \<Longrightarrow> quiet s s'"
  by (auto simp: publish_graphics_def call_console_eq split: if_splits)

lemma update_uga_None:
  "update_uga env k g None D s = r \<Longrightarrow> \<exists>st. r = Inl (st, s) \<or> r = Inr (st, s)"
  by (auto simp: update_uga_def Let_def split: option.splits if_splits)

lemma length_gops: "length (gops P) \<le> CurrentNumberOfConsoles P"
proof -
  have "length (List.map_filter f xs) \<le> length xs" for f :: "TEXT_OUT_AND_GOP_DATA \<Rightarrow> nat option" and xs
    by (simp add: List.map_filter_def)
  from this [of GopDevice "attached P"] show ?thesis by (simp add: gops_def attached_def)
qed

text \<open>Behind the table of graphics modes only the current mode and the cursor change.\<close>

lemma AddDevice_split:
  assumes "ConSplitterTextOutAddDevice env k dev g None s = Some (st, s')" "grow_consoles env k (set_adding k True s) = (EFI_SUCCESS, s1)"
  defines "s3 \<equiv> snd (ConSplitterGetIntersectionBetweenConOutAndStrErr env (add_console env k \<lparr>GopDevice = g, UgaDevice = None, TextOutDevice = dev\<rparr> s1))"
  shows "\<exists>D s4. (if g \<noteq> None then ConSplitterAddGraphicsOutputMode env k g None s3 else Some (EFI_DEVICE_ERROR, s3)) = Some (D, s4) \<and> quiet s4 s' \<and>
    (\<not> PcdConOutUgaSupport env \<longrightarrow> EFI_ERROR D \<or> wrap (CurrentNumberOfGraphicsOutput (priv k s4) + CurrentNumberOfUgaDraw (priv k s4)) \<noteq> 1 \<longrightarrow>
      st = EFI_DEVICE_ERROR)"
proof -
  let ?X = "if g \<noteq> None then ConSplitterAddGraphicsOutputMode env k g None s3 else Some (EFI_DEVICE_ERROR, s3)"
  let ?F = "\<lambda>(DeviceStatus, s4). case update_uga env k g None DeviceStatus s4 of Inl r \<Rightarrow> Some r
      | Inr (Status, s5) \<Rightarrow> (let (Status, s6) = publish_graphics env k DeviceStatus Status s5
                 in Some (Status, set_adding k False (ConsplitterSetConsoleOutMode env k s6)))"
  have "Option.bind ?X ?F = Some (st, s')" using assms(1,2) by (cases g) (simp_all add: ConSplitterTextOutAddDevice_def s3_def)
  then obtain D s4 where X: "?X = Some (D, s4)" and F: "?F (D, s4) = Some (st, s')" unfolding bind_eq_Some_conv by force
  from update_uga_None [OF refl, of env k g D s4] obtain st4 where
    "update_uga env k g None D s4 = Inl (st4, s4) \<or> update_uga env k g None D s4 = Inr (st4, s4)" by blast
  then have "quiet s4 s' \<and> (\<not> PcdConOutUgaSupport env \<longrightarrow>
      EFI_ERROR D \<or> wrap (CurrentNumberOfGraphicsOutput (priv k s4) + CurrentNumberOfUgaDraw (priv k s4)) \<noteq> 1 \<longrightarrow> st = EFI_DEVICE_ERROR)"
  proof
    assume U: "update_uga env k g None D s4 = Inl (st4, s4)"
    then have "PcdConOutUgaSupport env" by (cases "PcdConOutUgaSupport env") (simp_all add: update_uga_def)
    then show ?thesis using F U by simp
  next
    assume U: "update_uga env k g None D s4 = Inr (st4, s4)"
    obtain st6 s6 where s6: "publish_graphics env k D st4 s4 = (st6, s6)" by force
    have "s' = set_adding k False (ConsplitterSetConsoleOutMode env k s6)" and st: "st = st6" using F U s6 by (simp_all add: Let_def)
    then have "quiet s4 s'" using quiet_trans [OF quiet_trans [OF quiet_publish [OF s6] quiet_ConsoleOutMode] quiet_set_adding] by simp
    moreover have "st = EFI_DEVICE_ERROR" if "\<not> PcdConOutUgaSupport env"
      and "EFI_ERROR D \<or> wrap (CurrentNumberOfGraphicsOutput (priv k s4) + CurrentNumberOfUgaDraw (priv k s4)) \<noteq> 1"
    proof -
      have "st4 = EFI_DEVICE_ERROR" using U that(1) by (simp add: update_uga_def)
      then show ?thesis using s6 that(2) by (auto simp: publish_graphics_def st EFI_ERROR_def split: if_splits)
    qed
    ultimately show ?thesis by blast
  qed
  with X show ?thesis by blast
qed

text \<open>The table of graphics modes after an attachment.\<close>

definition table_after :: "to_env \<Rightarrow> nat option \<Rightarrow> TEXT_OUT_SPLITTER_PRIVATE_DATA \<Rightarrow> TEXT_OUT_SPLITTER_PRIVATE_DATA \<Rightarrow> bool" where
  "table_after env g P P' \<longleftrightarrow> (case g of None \<Rightarrow> mode_table P' = mode_table P
     | Some h \<Rightarrow> if gops P = [] then mode_table P' = modes_of env h
                 else \<exists>log. match_modes env log h (mode_table P) [] = Inr (mode_table P'))"

context settable_outputs
begin

lemma attach_start:
  assumes ok: "\<And>n. alloc_ok env n" "\<And>l d. 1 \<le> MaxMode (to_mode env l d)" and s: "out_ok env s"
    and n: "CurrentNumberOfConsoles (priv k s) < 2 ^ 32"
  obtains s1 s3 where "grow_consoles env k (set_adding k True s) = (EFI_SUCCESS, s1)"
    "s3 = snd (ConSplitterGetIntersectionBetweenConOutAndStrErr env (add_console env k \<lparr>GopDevice = g, UgaDevice = None, TextOutDevice = dev\<rparr> s1))"
    "tables_ok s3" "gfx_with env (set (gops (priv k s))) (length (gops (priv k s))) (priv k s3)"
    "attached (priv k s3) = attached (priv k s) @ [\<lparr>GopDevice = g, UgaDevice = None, TextOutDevice = dev\<rparr>]"
    "gops (priv k s3) = gops (priv k s) @ (case g of None \<Rightarrow> [] | Some h \<Rightarrow> [h])"
    "gfx_ok env (priv (other k) s3)" "mode_table (priv k s3) = mode_table (priv k s)" "Suc (length (gops (priv k s))) < 2 ^ 64"
proof -
  let ?d = "\<lparr>GopDevice = g, UgaDevice = None, TextOutDevice = dev\<rparr>" and ?s0 = "set_adding k True s"
  have s0: "out_ok env ?s0" using s by (rule out_ok_quiet [OF quiet_set_adding])
  have "gfx (priv k ?s0) = gfx (priv k s)" using quiet_same_gfx [OF quiet_set_adding] by (simp add: same_gfx_def)
  note same = gfx_attached [OF this]
  obtain s1 where s1: "grow_consoles env k ?s0 = (EFI_SUCCESS, s1)"
    and "(let s3 = snd (ConSplitterGetIntersectionBetweenConOutAndStrErr env (add_console env k ?d s1)) in
       tables_ok s3 \<and> gfx_with env (set (gops (priv k ?s0))) (length (gops (priv k ?s0))) (priv k s3) \<and>
       attached (priv k s3) = attached (priv k ?s0) @ [?d] \<and> gfx_ok env (priv (other k) s3) \<and> mode_table (priv k s3) = mode_table (priv k ?s0))"
    using entered [OF ok s0, of ?d k] by auto
  note this(2) [unfolded same Let_def]
  moreover from this have "gops (priv k (snd (ConSplitterGetIntersectionBetweenConOutAndStrErr env (add_console env k ?d s1)))) =
      gops (priv k s) @ (case g of None \<Rightarrow> [] | Some h \<Rightarrow> [h])"
    by (simp add: gops_def List.map_filter_def split: option.split)
  moreover have "Suc (length (gops (priv k s))) < 2 ^ 64" using length_gops [of "priv k s"] n by simp
  ultimately show ?thesis using that [OF s1 refl] by blast
qed

lemma AddDevice_ok:
  assumes ok: "\<And>n. alloc_ok env n" "\<And>l d. 1 \<le> MaxMode (to_mode env l d)" and s: "out_ok env s"
    and n: "CurrentNumberOfConsoles (priv k s) < 2 ^ 32"
    and add: "ConSplitterTextOutAddDevice env k dev g None s = Some (st, s')"
  shows "out_ok env s' \<and> attached (priv k s') = attached (priv k s) @ [\<lparr>GopDevice = g, UgaDevice = None, TextOutDevice = dev\<rparr>] \<and>
    table_after env g (priv k s) (priv k s') \<and>
    (\<not> PcdConOutUgaSupport env \<longrightarrow> g = None \<or> gops (priv k s) \<noteq> [] \<longrightarrow> st = EFI_DEVICE_ERROR)"
proof -
  let ?d = "\<lparr>GopDevice = g, UgaDevice = None, TextOutDevice = dev\<rparr>" and ?P = "priv k s"
  obtain s1 s3 where s1: "grow_consoles env k (set_adding k True s) = (EFI_SUCCESS, s1)"
    and s3: "s3 = snd (ConSplitterGetIntersectionBetweenConOutAndStrErr env (add_console env k ?d s1))" "tables_ok s3"
      "gfx_with env (set (gops ?P)) (length (gops ?P)) (priv k s3)" "attached (priv k s3) = attached ?P @ [?d]"
      "gops (priv k s3) = gops ?P @ (case g of None \<Rightarrow> [] | Some h \<Rightarrow> [h])" "gfx_ok env (priv (other k) s3)"
      "mode_table (priv k s3) = mode_table ?P" "Suc (length (gops ?P)) < 2 ^ 64"
    by (rule attach_start [OF ok s n])
  obtain D s4 where s4: "(if g \<noteq> None then ConSplitterAddGraphicsOutputMode env k g None s3 else Some (EFI_DEVICE_ERROR, s3)) = Some (D, s4)"
    and tail: "quiet s4 s'" and status: "\<not> PcdConOutUgaSupport env \<Longrightarrow>
      EFI_ERROR D \<or> wrap (CurrentNumberOfGraphicsOutput (priv k s4) + CurrentNumberOfUgaDraw (priv k s4)) \<noteq> 1 \<Longrightarrow> st = EFI_DEVICE_ERROR"
    using AddDevice_split [OF add s1] unfolding s3(1) by blast
  have step: "gfx_ok env (priv k s4) \<and> graphics_step k s3 s4 \<and> table_after env g ?P (priv k s4)"
  proof (cases g)
    case None
    then have "s4 = s3" "gops (priv k s3) = gops ?P" using s4 s3(5) by simp_all
    then show ?thesis using s3(3,7) None by (simp add: gfx_ok_def graphics_step_def table_after_def)
  next
    case (Some h)
    then have A: "ConSplitterAddGraphicsOutputMode env k (Some h) None s3 = Some (D, s4)" and h: "gops (priv k s3) = gops ?P @ [h]"
      using s4 s3(5) by simp_all
    from AddGraphicsOutputMode_ok [OF A ok(1) s3(3) _ _ s3(8)] h
    have r: "gfx_with env (insert h (set (gops ?P))) (Suc (length (gops ?P))) (priv k s4)" "graphics_step k s3 s4"
      "if gops ?P = [] then mode_table (priv k s4) = modes_of env h
       else match_modes env (to_calls s3) h (mode_table (priv k s3)) [] = Inr (mode_table (priv k s4))" by simp_all
    then have "gops (priv k s4) = gops ?P @ [h]" using h by (simp add: gops_def graphics_step_def)
    then show ?thesis using r Some s3(7) by (auto simp: gfx_ok_def table_after_def)
  qed
  then have ok4: "out_ok env s4" "attached (priv k s4) = attached ?P @ [?d]"
    using s3 unfolding out_ok_split [of _ _ k] by (auto simp: graphics_step_def tables_ok_def)
  have "gfx (priv k s') = gfx (priv k s4)" using quiet_same_gfx [OF tail] by (simp add: same_gfx_def)
  then have "table_after env g ?P (priv k s')" using step unfolding table_after_def gfx_attached(3) [OF \<open>gfx (priv k s') = gfx (priv k s4)\<close>] by blast
  moreover have "st = EFI_DEVICE_ERROR" if "\<not> PcdConOutUgaSupport env" "g = None \<or> gops ?P \<noteq> []"
  proof (rule status [OF that(1)])
    show "EFI_ERROR D \<or> wrap (CurrentNumberOfGraphicsOutput (priv k s4) + CurrentNumberOfUgaDraw (priv k s4)) \<noteq> 1"
    proof (cases g)
      case None
      then show ?thesis using s4 by (simp add: EFI_ERROR_def)
    next
      case (Some h)
      have "attached (priv k s4) = attached (priv k s3)" using step by (simp add: graphics_step_def)
      then have "gops (priv k s4) = gops ?P @ [h]" using s3(5) Some by (simp add: gops_def)
      then have "CurrentNumberOfGraphicsOutput (priv k s4) = Suc (length (gops ?P))" "CurrentNumberOfUgaDraw (priv k s4) = 0"
        using step by (simp_all add: gfx_ok_def gfx_with_def)
      then show ?thesis using that(2) Some s3(8) by simp
    qed
  qed
  ultimately show ?thesis using ok4(2) out_ok_quiet [OF tail ok4(1)] attached_quiet [OF tail, of k] by simp
qed

lemma AddDevice_total:
  assumes ok: "\<And>n. alloc_ok env n" "\<And>l d. 1 \<le> MaxMode (to_mode env l d)" and s: "out_ok env s"
    and n: "CurrentNumberOfConsoles (priv k s) < 2 ^ 32"
    and common: "\<And>h. g = Some h \<Longrightarrow> gops (priv k s) = [] \<or> (\<exists>I\<in>set (mode_table (priv k s)). offers env h (resolution I))"
  shows "\<exists>st s'. ConSplitterTextOutAddDevice env k dev g None s = Some (st, s')"
proof -
  let ?d = "\<lparr>GopDevice = g, UgaDevice = None, TextOutDevice = dev\<rparr>" and ?P = "priv k s"
  obtain s1 s3 where s1: "grow_consoles env k (set_adding k True s) = (EFI_SUCCESS, s1)"
    and s3: "s3 = snd (ConSplitterGetIntersectionBetweenConOutAndStrErr env (add_console env k ?d s1))" "tables_ok s3"
      "gfx_with env (set (gops ?P)) (length (gops ?P)) (priv k s3)" "attached (priv k s3) = attached ?P @ [?d]"
      "gops (priv k s3) = gops ?P @ (case g of None \<Rightarrow> [] | Some h \<Rightarrow> [h])" "gfx_ok env (priv (other k) s3)"
      "mode_table (priv k s3) = mode_table ?P" "Suc (length (gops ?P)) < 2 ^ 64"
    by (rule attach_start [OF ok s n])
  have "\<exists>D s4. (if g \<noteq> None then ConSplitterAddGraphicsOutputMode env k g None s3 else Some (EFI_DEVICE_ERROR, s3)) = Some (D, s4)"
  proof (cases g)
    case (Some h)
    obtain M where M: "GraphicsOutputMode (priv k s3) = Some M" using s3(3) by (auto simp: gfx_with_def)
    from new_table [OF ok(1) s3(3) _ M, of h] obtain s5 where s5:
        "(if length (gops ?P) = 0 then first_gop else next_gop) env k h M s3 = Some (EFI_SUCCESS, s5)"
        "gfx_with env (insert h (set (gops ?P))) (length (gops ?P)) (priv k s5)" "graphics_step k s3 s5"
        "if length (gops ?P) = 0 then mode_table (priv k s5) = modes_of env h
         else match_modes env (to_calls s3) h (mode_table (priv k s3)) [] = Inr (mode_table (priv k s5))"
      by auto
    have "mode_table (priv k s5) \<noteq> []"
    proof (cases "gops ?P = []")
      case True
      then show ?thesis using s5(4) some_mode [of h] by (simp add: modes_of_def)
    next
      case False
      then obtain I where "I \<in> set (mode_table ?P)" "offers env h (resolution I)" using common [OF Some] by blast
      moreover have "match_modes env (to_calls s3) h (mode_table ?P) [] = Inr (mode_table (priv k s5))" using s5(4) False s3(7) by simp
      ultimately show ?thesis using match [of "to_calls s3" h "mode_table ?P" "[]"] by fastforce
    qed
    moreover obtain M5 where M5: "GraphicsOutputMode (priv k s5) = Some M5" "DisplayMaxMode M5 \<le> length (GraphicsOutputModeBuffer (priv k s5))"
      using s5(2) by (auto simp: gfx_with_def)
    note current_index_bound [OF M5, of h]
    ultimately have ci: "current_index env k h s5 < length (mode_table (priv k s5))" by simp
    have sub: "set (gops (priv k s5)) \<subseteq> insert h (set (gops ?P))" using s5(3) s3(5) Some by (auto simp: graphics_step_def gops_def)
    from force_mode_total [OF s5(2) sub ci] show ?thesis using Some AddGraphicsOutputMode_eq [OF s3(3) M s5(1)] by auto
  qed simp
  then obtain D s4 where X: "(if g \<noteq> None then ConSplitterAddGraphicsOutputMode env k g None s3 else Some (EFI_DEVICE_ERROR, s3)) = Some (D, s4)" by blast
  show ?thesis using s1 X unfolding s3(1)
    by (cases g) (auto simp: ConSplitterTextOutAddDevice_def split: sum.split prod.split)
qed

end

section \<open>Detaching\<close>

lemma take_removed:
  assumes "p < c" "c \<le> length xs"
  shows "take (c - 1) (array_put p (array_slice (p + 1) (c - 1 - p) xs) xs) = take p xs @ drop (Suc p) (take c xs)"
proof -
  have "take (c - 1 - p) (drop (Suc p) xs) = drop (Suc p) (take c xs)" by (simp add: drop_take)
  then show ?thesis using assms by (simp add: array_put_def array_slice_def)
qed

lemma resync_ok:
  assumes "text_ok (priv k s)" "0 < CurrentNumberOfConsoles (priv k s)" "CurrentNumberOfConsoles (priv k s) + n \<le> TextOutListCount (priv k s)"
  shows "\<exists>s'. fold (resync env k) [CurrentNumberOfConsoles (priv k s)..<CurrentNumberOfConsoles (priv k s) + n] s = s' \<and> text_ok (priv k s') \<and>
    gfx (priv k s') = gfx ((priv k s)\<lparr>CurrentNumberOfConsoles := CurrentNumberOfConsoles (priv k s) + n\<rparr>) \<and> priv (other k) s' = priv (other k) s"
  using assms
proof (induction n arbitrary: s)
  case 0
  then show ?case by simp
next
  case (Suc n)
  let ?P = "priv k s" and ?c = "CurrentNumberOfConsoles (priv k s)"
  have "?c < TextOutListCount ?P" using Suc.prems(3) by simp
  from SyncOutputMode_ok [OF Suc.prems(1,2) this, of env "console k ?c s"] obtain t q m where sync:
      "ConSplitterSyncOutputMode env k (console k ?c s) s = set_priv k (?P\<lparr>TextOutMode := t, TextOutQueryData := q, TextOutModeMap := Some m\<rparr>) s"
      "map_ok (?P\<lparr>TextOutMode := t, TextOutQueryData := q, TextOutModeMap := Some m\<rparr>) m" "length q = TextOutQueryDataCount ?P"
      "1 \<le> MaxMode t" "MaxMode t \<le> MaxMode (TextOutMode ?P)"
    by (auto simp: Let_def)
  let ?Q = "?P\<lparr>TextOutMode := t, TextOutQueryData := q, TextOutModeMap := Some m, CurrentNumberOfConsoles := Suc ?c\<rparr>"
  have one: "resync env k ?c s = set_priv k ?Q s" by (simp add: resync_def sync(1) Let_def)
  have Q: "text_ok ?Q" using Suc.prems sync(2-) nat_mono [OF sync(5)] by (simp add: text_ok_def map_ok_def)
  have "[?c..<?c + Suc n] = ?c # [Suc ?c..<Suc ?c + n]" by (simp add: upt_conv_Cons)
  then have fold: "fold (resync env k) [?c..<?c + Suc n] s = fold (resync env k) [Suc ?c..<Suc ?c + n] (set_priv k ?Q s)" by (simp add: one)
  have "\<exists>s'. fold (resync env k) [CurrentNumberOfConsoles (priv k (set_priv k ?Q s))..<CurrentNumberOfConsoles (priv k (set_priv k ?Q s)) + n] (set_priv k ?Q s) = s' \<and>
      text_ok (priv k s') \<and> gfx (priv k s') = gfx ((priv k (set_priv k ?Q s))\<lparr>CurrentNumberOfConsoles := CurrentNumberOfConsoles (priv k (set_priv k ?Q s)) + n\<rparr>) \<and>
      priv (other k) s' = priv (other k) (set_priv k ?Q s)"
    using Suc.prems Q by (intro Suc.IH) simp_all
  then show ?case unfolding fold by (auto simp: gfx_def)
qed

lemma gops_removed:
  assumes "p < CurrentNumberOfConsoles P" "CurrentNumberOfConsoles P \<le> length (TextOutList P)"
  shows "gops P = List.map_filter GopDevice (take p (TextOutList P)) @ (case GopDevice (TextOutList P ! p) of None \<Rightarrow> [] | Some g \<Rightarrow> [g]) @
    List.map_filter GopDevice (drop (Suc p) (attached P))"
proof -
  have eq: "attached P = take p (TextOutList P) @ (TextOutList P ! p) # drop (Suc p) (attached P)"
    using assms id_take_nth_drop [of p "attached P"] by (simp add: attached_def min_def)
  have "List.map_filter f (xs @ y # zs) = List.map_filter f xs @ (case f y of None \<Rightarrow> [] | Some g \<Rightarrow> [g]) @ List.map_filter f zs"
    for f :: "TEXT_OUT_AND_GOP_DATA \<Rightarrow> nat option" and xs y zs
    by (simp add: List.map_filter_def split: option.split)
  then show ?thesis unfolding gops_def by (subst eq)
qed

lemma DeleteDevice_ok:
  assumes ok: "\<And>n. alloc_ok env n" "\<And>l d. 1 \<le> MaxMode (to_mode env l d)" and s: "out_ok env s"
    and n: "CurrentNumberOfConsoles (priv k s) < 2 ^ 32"
  shows "out_ok env (snd (ConSplitterTextOutDeleteDevice env k dev s)) \<and>
    mode_table (priv k (snd (ConSplitterTextOutDeleteDevice env k dev s))) = mode_table (priv k s) \<and>
    attached (priv k (snd (ConSplitterTextOutDeleteDevice env k dev s))) = (case find_console (priv k s) dev of None \<Rightarrow> attached (priv k s)
      | Some p \<Rightarrow> take p (attached (priv k s)) @ drop (Suc p) (attached (priv k s)))"
proof (cases "find_console (priv k s) dev")
  case None
  then show ?thesis using s by (simp add: ConSplitterTextOutDeleteDevice_def)
next
  case (Some p)
  let ?P = "priv k s" and ?c = "CurrentNumberOfConsoles (priv k s)"
  have p: "p < ?c" using Some by (simp add: find_console_def find_first)
  have P: "text_ok ?P" "gfx_ok env ?P" "text_ok (priv (other k) s)" "gfx_ok env (priv (other k) s)"
    using s unfolding out_ok_split [of _ _ k] by simp_all
  then have len: "?c \<le> length (TextOutList ?P)" by (simp add: text_ok_def)
  let ?R = "remove_console p ?P" and ?d = "TextOutList ?P ! p"
  let ?g = "GopDevice ?d"
  let ?Q = "?R\<lparr>CurrentNumberOfConsoles := ?c - 1\<rparr>"
  have d: "UgaDevice ?d = None"
  proof -
    have "?d \<in> set (attached ?P)" using p len by (auto simp: attached_def in_set_conv_nth intro!: exI [of _ p])
    then show ?thesis using P(2) by (auto simp: gfx_ok_def gfx_with_def list_all_iff)
  qed
  have att: "attached ?Q = take p (TextOutList ?P) @ drop (Suc p) (attached ?P)"
    using take_removed [OF p len] by (simp add: remove_console_def Let_def attached_def)
  have gs: "gops ?Q = List.map_filter GopDevice (take p (TextOutList ?P)) @ List.map_filter GopDevice (drop (Suc p) (attached ?P))"
    unfolding gops_def att by (simp add: List.map_filter_def)
  note gP = gops_removed [OF p len]
  have number: "CurrentNumberOfGraphicsOutput ?Q = length (gops ?Q)"
  proof -
    have "CurrentNumberOfGraphicsOutput ?P = length (gops ?P)" "length (gops ?P) < 2 ^ 64"
      using P(2) length_gops [of ?P] n by (simp_all add: gfx_ok_def gfx_with_def)
    then show ?thesis unfolding gP gs by (cases ?g) (simp_all add: remove_console_def Let_def pred64_def wrap_def)
  qed
  have "set (gops ?Q) \<subseteq> set (gops ?P)" unfolding gP gs by auto
  moreover have "list_all (\<lambda>d. UgaDevice d = None) (attached ?Q)"
  proof -
    have "list_all (\<lambda>d. UgaDevice d = None) (attached ?P)" using P(2) by (simp add: gfx_ok_def gfx_with_def)
    moreover have "set (take p (TextOutList ?P)) \<subseteq> set (attached ?P)" using p by (simp add: attached_def set_take_subset_set_take)
    ultimately show ?thesis unfolding att list_all_iff by (auto dest: in_set_dropD)
  qed
  moreover have "GraphicsOutputMode ?Q = GraphicsOutputMode ?P" "GraphicsOutputModeBuffer ?Q = GraphicsOutputModeBuffer ?P"
      "CurrentNumberOfUgaDraw ?Q = CurrentNumberOfUgaDraw ?P"
    using d by (simp_all add: remove_console_def Let_def)
  ultimately have Q: "gfx_ok env ?Q"
    using P(2) number unfolding gfx_ok_def gfx_with_def by (simp add: mode_table_def split: option.splits) blast
  define s2 where "s2 = (if CurrentNumberOfGraphicsOutput ?R = 0 \<and> CurrentNumberOfUgaDraw ?R = 0
      then snd (call_console env 0 (case graphics_protocols env of (gop, uga) \<Rightarrow> CUninstallGraphics gop uga) (set_priv k ?R s)) else set_priv k ?R s)"
  have s2: "priv k s2 = ?R" "priv (other k) s2 = priv (other k) s" by (auto simp: s2_def call_console_eq)
  have "length (array_put p (array_slice (Suc p) (?c - Suc p) (TextOutList ?P)) (TextOutList ?P)) = length (TextOutList ?P)"
    using p len by simp
  then have R: "text_ok (?R\<lparr>CurrentNumberOfConsoles := 0\<rparr>)" "CurrentNumberOfConsoles ?R = ?c"
    using P(1) p by (simp_all add: remove_console_def Let_def text_ok_def)
  let ?s' = "snd (ConSplitterTextOutDeleteDevice env k dev s)"
  have "out_ok env ?s' \<and> gfx (priv k ?s') = gfx ?Q"
  proof (cases "?c - 1 = 0")
    case True
    let ?F = "?R\<lparr>CurrentNumberOfConsoles := 0, TextOutMode := (TextOutMode ?R)\<lparr>MaxMode := 1\<rparr>,
        TextOutQueryData := (TextOutQueryData ?R)[0 := \<lparr>QColumns = 80, QRows = 25\<rparr>]\<rparr>"
    have "snd (ConSplitterTextOutDeleteDevice env k dev s) = TextOutSetMode k 0 (set_priv k ?F s2)"
      using Some True by (simp add: ConSplitterTextOutDeleteDevice_def Let_def R(2) s2_def)
    moreover have "text_ok ?F" using R(1) by (auto simp: text_ok_def)
    moreover have F: "gfx ?F = gfx ?Q" using True by (simp add: gfx_def)
    then have "gfx_ok env ?F" using Q gfx_ok_cong by blast
    moreover have "gfx (priv k (TextOutSetMode k 0 (set_priv k ?F s2))) = gfx ?Q"
      using quiet_same_gfx [OF quiet_TextOutSetMode, of "set_priv k ?F s2" k 0] F by (simp add: same_gfx_def)
    ultimately show ?thesis
      using P(3,4) s2(2) out_ok_quiet [OF quiet_TextOutSetMode, of env "set_priv k ?F s2" k 0] unfolding out_ok_split [of _ _ k] by simp
  next
    case False
    let ?P3 = "?R\<lparr>TextOutQueryData := replicate (TextOutQueryDataCount ?R) \<lparr>QColumns = 0, QRows = 0\<rparr>, TextOutModeMap := None\<rparr>"
    let ?s3 = "set_priv k ?P3 s2"
    have pre: "text_ok ((priv k ?s3)\<lparr>CurrentNumberOfConsoles := 0\<rparr>)" "CurrentNumberOfConsoles (priv k ?s3) = 0 \<or> TextOutModeMap (priv k ?s3) = None"
      using R(1) by (simp_all add: text_ok_def)
    from AddOutputMode_ok [OF ok pre, of "console k 0 ?s3"] obtain s4 mx q n' m where s4:
        "ConSplitterAddOutputMode env k (console k 0 ?s3) ?s3 = (EFI_SUCCESS, s4)" "priv (other k) s4 = priv (other k) s"
        "priv k s4 = ?P3\<lparr>TextOutMode := (TextOutMode ?P3)\<lparr>MaxMode := mx\<rparr>, TextOutQueryDataCount := n', TextOutQueryData := q, TextOutModeMap := Some m\<rparr>"
        "map_ok (priv k s4) m" "length q = n'" "2 \<le> n'" "1 \<le> mx" "nat mx \<le> n'"
      using s2(2) by auto
    let ?s5 = "set_priv k ((priv k s4)\<lparr>CurrentNumberOfConsoles := 1\<rparr>) s4"
    have s5: "text_ok (priv k ?s5)" "gfx (priv k ?s5) = gfx (?Q\<lparr>CurrentNumberOfConsoles := 1\<rparr>)"
      using R(1) s4(3-) by (simp_all add: text_ok_def map_ok_def gfx_def)
    have count: "CurrentNumberOfConsoles (priv k ?s5) = 1" "TextOutListCount (priv k ?s5) = TextOutListCount ?P" "?c \<le> TextOutListCount ?P"
      using s4(3) P(1) by (simp_all add: remove_console_def Let_def text_ok_def)
    have "\<exists>s6. fold (resync env k) [CurrentNumberOfConsoles (priv k ?s5)..<CurrentNumberOfConsoles (priv k ?s5) + (?c - 2)] ?s5 = s6 \<and> text_ok (priv k s6) \<and>
        gfx (priv k s6) = gfx ((priv k ?s5)\<lparr>CurrentNumberOfConsoles := CurrentNumberOfConsoles (priv k ?s5) + (?c - 2)\<rparr>) \<and> priv (other k) s6 = priv (other k) ?s5"
      using s5(1) count p by (intro resync_ok) auto
    note this [unfolded count(1)]
    moreover have eq: "1 + (?c - 2) = ?c - 1" using False by simp
    ultimately obtain s6 where s6: "fold (resync env k) [1..<?c - 1] ?s5 = s6" "text_ok (priv k s6)"
        "gfx (priv k s6) = gfx ((priv k ?s5)\<lparr>CurrentNumberOfConsoles := ?c - 1\<rparr>)" "priv (other k) s6 = priv (other k) s"
      unfolding eq using s4(2) by (metis priv_set_other)
    have g6: "gfx (priv k s6) = gfx ?Q" using s6(3) s5(2) by (simp add: gfx_def)
    have "snd (ConSplitterTextOutDeleteDevice env k dev s) = snd (ConSplitterGetIntersectionBetweenConOutAndStrErr env s6)"
      using Some False s4(1) s6(1) by (simp add: ConSplitterTextOutDeleteDevice_def Let_def R(2) flip: s2_def) (simp add: split_def)
    moreover have "out_ok env s6" using s6(2,4) P(3,4) Q gfx_ok_cong [OF g6] unfolding out_ok_split [of _ _ k] by simp
    ultimately show ?thesis using BetweenConOutAndStrErr_ok [of s6 env] out_ok_same g6 by (metis out_ok_def same_gfx_def)
  qed
  moreover from this have "attached (priv k ?s') = attached ?Q" "mode_table (priv k ?s') = mode_table ?Q" using gfx_attached by blast+
  moreover have "take p (TextOutList ?P) = take p (attached ?P)" using p by (simp add: attached_def min_def)
  moreover have "mode_table ?Q = mode_table ?P" using d by (simp add: mode_table_def remove_console_def Let_def split: option.split)
  ultimately show ?thesis using Some att by simp
qed

end
