(* ===== verification/SplitterConsoles.thy ===== *)
theory SplitterConsoles
  imports SplitterRuns
begin

text \<open>
  The output splitters from their construction on: the tables in every state that can be reached, what the graphics modes
  of a splitter are good for there, and where attaching and detaching go wrong, a failing allocation included.
\<close>

section \<open>Construction\<close>

definition fresh_state :: splitter_state where
  "fresh_state = \<lparr>mConOut = fresh_splitter, mStdErr = fresh_splitter, to_calls = [], to_allocs = 0, pcdConOutColumn = 100, pcdConOutRow = 31\<rparr>"

lemma gfx_ok_empty:
  "attached P = [] \<Longrightarrow> GraphicsOutputMode P = Some M \<Longrightarrow> ModeInfo M \<noteq> None \<Longrightarrow> DisplayMaxMode M \<le> length (GraphicsOutputModeBuffer P) \<Longrightarrow>
    CurrentNumberOfUgaDraw P = 0 \<Longrightarrow> CurrentNumberOfGraphicsOutput P = 0 \<Longrightarrow> gfx_ok env P"
  by (simp add: gfx_ok_def gfx_with_def gops_def List.map_filter_def)

lemma Constructor_ok:
  assumes "priv k s = fresh_splitter" "\<And>n. alloc_ok env n" "PcdConOutGopSupport env"
  shows "\<exists>s'. ConSplitterTextOutConstructor env k s = Some (EFI_SUCCESS, s') \<and> text_ok (priv k s') \<and> gfx_ok env (priv k s') \<and>
    CurrentNumberOfConsoles (priv k s') = 0 \<and> priv (other k) s' = priv (other k) s"
proof -
  have uga: "ConSplitterUgaDrawSetMode env k (h, v, d, r) t = (EFI_SUCCESS, set_uga_mode k (h, v, d, r) t)"
    if "CurrentNumberOfConsoles (priv k t) = 0" for h v d r t
    using that by (simp add: ConSplitterUgaDrawSetMode_def attached_def set_uga_mode_def)
  show ?thesis
    using assms
    by (auto simp: ConSplitterTextOutConstructor_def ConSplitterGrowBuffer_def construct_graphics_def Let_def fresh_splitter_def uga
        TextOutSetMode_def set_graphics_mode_def set_uga_mode_def ConSplitterGraphicsOutputSetMode_def attached_def mode_shown_def zero_mode_def
        set_mode_data_def text_ok_def CONSOLE_SPLITTER_ALLOC_UNIT_def intro!: gfx_ok_empty)
qed

text \<open>The two splitters after the entry point has constructed both.\<close>

definition constructed :: "to_env \<Rightarrow> splitter_state \<Rightarrow> bool" where
  "constructed env s \<longleftrightarrow> (case ConSplitterTextOutConstructor env ConOut fresh_state of
       Some (EFI_SUCCESS, s1) \<Rightarrow> ConSplitterTextOutConstructor env StdErr s1 = Some (EFI_SUCCESS, s) | _ \<Rightarrow> False)"

lemma constructed_states:
  assumes "\<And>n. alloc_ok env n" "PcdConOutGopSupport env"
  shows "\<exists>s. constructed env s \<and> out_ok env s \<and> (\<forall>k. CurrentNumberOfConsoles (priv k s) = 0)"
proof -
  have other: "other ConOut = StdErr" "other StdErr = ConOut" by (simp_all add: other_def)
  have fresh: "priv k fresh_state = fresh_splitter" for k by (cases k) (simp_all add: fresh_state_def priv_def)
  obtain s1 where s1: "ConSplitterTextOutConstructor env ConOut fresh_state = Some (EFI_SUCCESS, s1)" "text_ok (priv ConOut s1)"
      "gfx_ok env (priv ConOut s1)" "CurrentNumberOfConsoles (priv ConOut s1) = 0" "priv StdErr s1 = fresh_splitter"
    using Constructor_ok [OF fresh assms, of ConOut] by (auto simp: fresh other)
  obtain s2 where s2: "ConSplitterTextOutConstructor env StdErr s1 = Some (EFI_SUCCESS, s2)" "text_ok (priv StdErr s2)"
      "gfx_ok env (priv StdErr s2)" "CurrentNumberOfConsoles (priv StdErr s2) = 0" "priv ConOut s2 = priv ConOut s1"
    using Constructor_ok [OF s1(5) assms] by (auto simp: other)
  have "constructed env s2" using s1(1) s2(1) by (simp add: constructed_def)
  moreover have "out_ok env s2" using s1 s2 unfolding out_ok_split [of _ _ ConOut] by (simp add: other)
  moreover have "\<forall>k. CurrentNumberOfConsoles (priv k s2) = 0" unfolding splitter_cases [of _ ConOut] using s1 s2 by (simp add: other)
  ultimately show ?thesis by blast
qed

lemma constructed_ok: "constructed env s \<Longrightarrow> (\<And>n. alloc_ok env n) \<Longrightarrow> PcdConOutGopSupport env \<Longrightarrow> out_ok env s"
  using constructed_states [of env] by (auto simp: constructed_def split: option.splits prod.splits efi_status.splits)

section \<open>Steps\<close>

text \<open>Consoles without a UGA draw protocol come and go, in numbers that fit the memory; text and graphics operations are called
  in between; \<open>forget\<close> is what the driver's Start does to the current mode before it attaches.\<close>

inductive out_step :: "to_env \<Rightarrow> splitter_state \<Rightarrow> splitter_state \<Rightarrow> bool" for env where
  attach: "CurrentNumberOfConsoles (priv k s) < 2 ^ 32 \<Longrightarrow> ConSplitterTextOutAddDevice env k dev g None s = Some (st, s') \<Longrightarrow> out_step env s s'"
| detach: "CurrentNumberOfConsoles (priv k s) < 2 ^ 32 \<Longrightarrow> out_step env s (snd (ConSplitterTextOutDeleteDevice env k dev s))"
| forget: "out_step env s (set_mode_data k (\<lambda>t. t\<lparr>CurMode := 0xff\<rparr>) s)"
| set_graphics: "ConSplitterGraphicsOutputSetMode env k n s = Some (st, s') \<Longrightarrow> out_step env s s'"
| query_graphics: "ConSplitterGraphicsOutputQueryMode env k v n s = Some (st, I, s') \<Longrightarrow> out_step env s s'"
| blt: "out_step env s (snd (ConSplitterGraphicsOutputBlt env k v op args s))"
| reset: "out_step env s (snd (ConSplitterTextOutReset env k x s))"
| output_string: "out_step env s (snd (ConSplitterTextOutOutputString env k cs s))"
| test_string: "out_step env s (snd (ConSplitterTextOutTestString env k cs s))"
| set_mode: "out_step env s (snd (ConSplitterTextOutSetMode env k n s))"
| set_attribute: "out_step env s (snd (ConSplitterTextOutSetAttribute env k a s))"
| clear_screen: "out_step env s (snd (ConSplitterTextOutClearScreen env k s))"
| set_cursor: "ConSplitterTextOutSetCursorPosition env k c r s = Some (st, s') \<Longrightarrow> out_step env s s'"
| enable_cursor: "out_step env s (snd (ConSplitterTextOutEnableCursor env k b s))"

abbreviation out_runs :: "to_env \<Rightarrow> splitter_state \<Rightarrow> splitter_state \<Rightarrow> bool" where
  "out_runs env \<equiv> (out_step env)\<^sup>*\<^sup>*"

lemma blt_on_calls: "\<exists>l. snd (snd (blt_on env d c op st s)) = s\<lparr>to_calls := l\<rparr>"
  by (cases d) (auto simp: blt_on_def call_console_eq Let_def intro: exI [of _ "to_calls s"])

lemma blt_all_calls: "\<exists>l. snd (blt_all env op args ds st s) = s\<lparr>to_calls := l\<rparr>"
proof (induction ds arbitrary: st s)
  case Nil
  show ?case by (rule exI [of _ "to_calls s"]) simp
next
  case (Cons d ds)
  obtain b1 st1 s1 where 1: "blt_on env (GopDevice d) (GBlt op args) op st s = (b1, st1, s1)" by (metis prod_cases3)
  obtain b2 st2 s2 where 2: "blt_on env (if PcdUgaConsumeSupport env then UgaDevice d else None) (UBlt op args) op st1 s1 = (b2, st2, s2)"
    by (metis prod_cases3)
  have "\<exists>l. s1 = s\<lparr>to_calls := l\<rparr>" "\<exists>l. s2 = s1\<lparr>to_calls := l\<rparr>"
    using blt_on_calls [of env "GopDevice d" "GBlt op args" op st s] 1
      blt_on_calls [of env "if PcdUgaConsumeSupport env then UgaDevice d else None" "UBlt op args" op st1 s1] 2 by simp_all
  then show ?case using Cons.IH [of st2 s2] by (cases b1; cases b2) (auto simp: 1 2)
qed

lemma quiet_blt: "quiet s (snd (ConSplitterGraphicsOutputBlt env k v op args s))"
  using blt_all_calls [of env op args "attached (priv k s)" EFI_SUCCESS s] by (auto simp: ConSplitterGraphicsOutputBlt_def)

lemma quiet_query: "ConSplitterGraphicsOutputQueryMode env k v n s = Some (st, I, s') \<Longrightarrow> quiet s s'"
  by (auto simp: ConSplitterGraphicsOutputQueryMode_def Let_def bind_eq_Some_conv split: if_splits option.splits prod.splits)

context graphics_outputs
begin

lemma set_graphics_ok:
  assumes "ConSplitterGraphicsOutputSetMode env k n s = Some (st, s')" "out_ok env s"
  shows "out_ok env s'"
proof -
  let ?P = "priv k s"
  obtain M where M: "GraphicsOutputMode ?P = Some M" using assms(1)
    by (cases "GraphicsOutputMode ?P") (simp_all add: ConSplitterGraphicsOutputSetMode_def)
  let ?I = "GraphicsOutputModeBuffer ?P ! n"
  let ?cs = "switch_calls env (HorizontalResolution ?I) (VerticalResolution ?I) 32 60 (attached ?P)"
  let ?M = "mode_shown env (to_calls s @ ?cs) ?P (last_gop (attached ?P) None) n M"
  have s': "s' = s \<or> s' = set_graphics_mode k ?M (s\<lparr>to_calls := to_calls s @ ?cs\<rparr>)"
    using assms(1) M by (auto simp: ConSplitterGraphicsOutputSetMode_def switch Let_def split: if_splits)
  have "DisplayMaxMode ?M = DisplayMaxMode M" "ModeInfo ?M \<noteq> None" by (simp_all add: mode_shown_def split: option.split)
  moreover from this have "mode_table (?P\<lparr>GraphicsOutputMode := Some ?M\<rparr>) = mode_table ?P" using M by (simp add: mode_table_def)
  ultimately have "gfx_ok env (?P\<lparr>GraphicsOutputMode := Some ?M\<rparr>)"
    using assms(2) M unfolding out_ok_split [of _ _ k] gfx_ok_def gfx_with_def gops_def by auto
  then show ?thesis using s' assms(2) unfolding out_ok_split [of _ _ k] by (auto simp: set_graphics_mode_def)
qed

end

context settable_outputs
begin

lemma out_step_ok:
  assumes "out_step env s s'" "\<And>n. alloc_ok env n" "\<And>l d. 1 \<le> MaxMode (to_mode env l d)" "out_ok env s"
  shows "out_ok env s'"
  using assms(1)
proof cases
  case (attach k dev g st)
  then show ?thesis using AddDevice_ok [OF assms(2,3,4)] by blast
next
  case (detach k dev)
  then show ?thesis using DeleteDevice_ok [OF assms(2,3,4)] by blast
next
  case (set_graphics k n st)
  then show ?thesis using set_graphics_ok assms(4) by blast
next
  case (forget k)
  then show ?thesis using out_ok_quiet [OF quiet_mode_data assms(4)] by simp
qed (use assms(4) in \<open>auto intro: out_ok_quiet quiet_operations quiet_blt quiet_query quiet_SetCursorPosition simp: ConSplitterTextOutTestString_def\<close>)

lemma out_runs_ok:
  assumes "out_runs env s s'" "\<And>n. alloc_ok env n" "\<And>l d. 1 \<le> MaxMode (to_mode env l d)" "out_ok env s"
  shows "out_ok env s'"
  using assms(1)
proof (induction rule: rtranclp_induct)
  case base
  then show ?case by (rule assms(4))
next
  case (step s1 s2)
  then show ?case using out_step_ok [OF step(2) assms(2,3)] by blast
qed

end

section \<open>Reachable states\<close>

text \<open>The driver's environment in the runs below: no allocation fails; the devices attached answer for their modes as the protocols say
  (\<open>settable_outputs\<close>) and have at least one text mode; the splitter publishes a graphics output protocol.  What a failing
  allocation does is the subject of the last section.\<close>

definition good_env :: "to_env \<Rightarrow> bool" where
  "good_env env \<longleftrightarrow> settable_outputs env \<and> PcdConOutGopSupport env \<and> (\<forall>n. alloc_ok env n) \<and> (\<forall>l d. 1 \<le> MaxMode (to_mode env l d))"

definition reachable :: "to_env \<Rightarrow> splitter_state \<Rightarrow> bool" where
  "reachable env s \<longleftrightarrow> (\<exists>s0. constructed env s0 \<and> out_runs env s0 s)"

lemma reachable_ok: "good_env env \<Longrightarrow> reachable env s \<Longrightarrow> out_ok env s"
  using constructed_ok settable_outputs.out_runs_ok unfolding good_env_def reachable_def by metis

lemma reachable_step: "reachable env s \<Longrightarrow> out_step env s s' \<Longrightarrow> reachable env s'"
  unfolding reachable_def by (meson rtranclp.rtrancl_into_rtrancl)

lemma reachable_attach:
  assumes env: "good_env env" and s: "reachable env s" and n: "CurrentNumberOfConsoles (priv k s) < 2 ^ 32"
    and common: "\<And>h. g = Some h \<Longrightarrow> gops (priv k s) = [] \<or> (\<exists>I\<in>set (mode_table (priv k s)). offers env h (resolution I))"
  shows "\<exists>st s'. ConSplitterTextOutAddDevice env k dev g None s = Some (st, s') \<and> reachable env s' \<and>
    attached (priv k s') = attached (priv k s) @ [\<lparr>GopDevice = g, UgaDevice = None, TextOutDevice = dev\<rparr>] \<and>
    gops (priv k s') = gops (priv k s) @ (case g of None \<Rightarrow> [] | Some h \<Rightarrow> [h]) \<and> table_after env g (priv k s) (priv k s')"
proof -
  have out: "settable_outputs env" and ok: "\<And>n. alloc_ok env n" "\<And>l d. 1 \<le> MaxMode (to_mode env l d)" using env by (simp_all add: good_env_def)
  note o = reachable_ok [OF env s]
  obtain st s' where add: "ConSplitterTextOutAddDevice env k dev g None s = Some (st, s')"
    using settable_outputs.AddDevice_total [OF out ok o n, of g dev] common by blast
  then have "reachable env s'" by (rule reachable_step [OF s out_step.attach [OF n]])
  with settable_outputs.AddDevice_ok [OF out ok o n add] add show ?thesis
    by (auto simp: gops_def List.map_filter_def split: option.split)
qed

section \<open>Two panels\<close>

text \<open>Graphics outputs with given tables of modes.\<close>

definition with_modes :: "(nat \<Rightarrow> EFI_GRAPHICS_OUTPUT_MODE_INFORMATION list) \<Rightarrow> to_env \<Rightarrow> to_env" where
  "with_modes ms env = env\<lparr>to_status := (\<lambda>_ _ _. EFI_SUCCESS),
     gop_mode := (\<lambda>_ g. \<lparr>DisplayMaxMode = length (ms g), DisplayMode = 0, ModeInfo = Some (ms g ! 0), SizeOfInfo = sizeof_MODE_INFORMATION,
       FrameBufferBase = 0, FrameBufferSize = 0\<rparr>),
     gop_info := (\<lambda>_ g. ms g ! 0),
     gop_query := (\<lambda>_ g i. if i < length (ms g) then (EFI_SUCCESS, ms g ! i) else (EFI_INVALID_PARAMETER, junk_info env))\<rparr>"

lemma with_modes_settable:
  assumes "\<And>g. ms g \<noteq> []"
  shows "settable_outputs (with_modes ms env)"
  by unfold_locales (use assms in \<open>simp_all add: with_modes_def\<close>)

lemma modes_of_with_modes: "modes_of (with_modes ms env) g = ms g"
  by (rule nth_equalityI) (simp_all add: modes_of_def with_modes_def)

definition two_panels :: to_env where
  "two_panels = with_modes (\<lambda>g. if g = 11 then [ex_info 1024 768, ex_info 800 600, ex_info 640 480] else [ex_info 640 480, ex_info 1024 768]) ex_env"

lemma two_panels_good: "good_env two_panels"
  using with_modes_settable [of "\<lambda>g. if g = 11 then [ex_info 1024 768, ex_info 800 600, ex_info 640 480] else [ex_info 640 480, ex_info 1024 768]" ex_env]
  by (simp add: good_env_def two_panels_def) (simp add: with_modes_def ex_env_def ex_text_mode_def)

lemma two_panels_modes:
  "modes_of two_panels 11 = [ex_info 1024 768, ex_info 800 600, ex_info 640 480]" "modes_of two_panels 12 = [ex_info 640 480, ex_info 1024 768]"
  by (simp_all add: two_panels_def modes_of_with_modes)

lemma two_panels_offers:
  "offers two_panels 11 r \<longleftrightarrow> r \<in> {(1024, 768), (800, 600), (640, 480)}" "offers two_panels 12 r \<longleftrightarrow> r \<in> {(640, 480), (1024, 768)}"
  by (auto simp: offers_def two_panels_modes resolution_def ex_info_def)

text \<open>One panel attached, and both.\<close>

lemma one_attached:
  "\<exists>s. reachable two_panels s \<and> CurrentNumberOfConsoles (priv ConOut s) < 2 ^ 32 \<and>
    attached (priv ConOut s) = [\<lparr>GopDevice = Some 11, UgaDevice = None, TextOutDevice = 7\<rparr>] \<and>
    gops (priv ConOut s) = [11] \<and> mode_table (priv ConOut s) = modes_of two_panels 11"
proof -
  have env: "\<And>n. alloc_ok two_panels n" "PcdConOutGopSupport two_panels" using two_panels_good by (simp_all add: good_env_def)
  from constructed_states [OF env] obtain s0 where s0: "constructed two_panels s0" "CurrentNumberOfConsoles (priv ConOut s0) = 0" by blast
  have r0: "reachable two_panels s0" using s0(1) by (auto simp: reachable_def)
  have none: "attached (priv ConOut s0) = []" "gops (priv ConOut s0) = []" using s0(2) by (simp_all add: attached_def gops_def List.map_filter_def)
  from reachable_attach [OF two_panels_good r0, of ConOut "Some 11" 7] s0(2) none obtain st s where
      s: "reachable two_panels s" "attached (priv ConOut s) = [\<lparr>GopDevice = Some 11, UgaDevice = None, TextOutDevice = 7\<rparr>]"
      "gops (priv ConOut s) = [11]" "mode_table (priv ConOut s) = modes_of two_panels 11"
    by (auto simp: table_after_def)
  have "text_ok (priv ConOut s)" using reachable_ok [OF two_panels_good s(1)] by (simp add: out_ok_def tables_ok_def)
  then have "CurrentNumberOfConsoles (priv ConOut s) = length (attached (priv ConOut s))" by (simp add: attached_def text_ok_def)
  then show ?thesis using s by auto
qed

lemma both_attached:
  "\<exists>s. reachable two_panels s \<and> CurrentNumberOfConsoles (priv ConOut s) = 2 \<and> map TextOutDevice (attached (priv ConOut s)) = [7, 9] \<and>
    gops (priv ConOut s) = [11, 12] \<and> map resolution (mode_table (priv ConOut s)) = [(1024, 768), (640, 480)]"
proof -
  obtain s1 where s1: "reachable two_panels s1" "CurrentNumberOfConsoles (priv ConOut s1) < 2 ^ 32"
      "attached (priv ConOut s1) = [\<lparr>GopDevice = Some 11, UgaDevice = None, TextOutDevice = 7\<rparr>]"
      "gops (priv ConOut s1) = [11]" "mode_table (priv ConOut s1) = modes_of two_panels 11"
    using one_attached by blast
  have "\<exists>I\<in>set (mode_table (priv ConOut s1)). offers two_panels 12 (resolution I)"
    unfolding s1(5) by (simp add: two_panels_offers two_panels_modes resolution_def ex_info_def)
  with reachable_attach [OF two_panels_good s1(1,2), of "Some 12" 9] s1 obtain st s log where
      s: "reachable two_panels s" "map TextOutDevice (attached (priv ConOut s)) = [7, 9]" "gops (priv ConOut s) = [11, 12]"
      and m: "match_modes two_panels log 12 (modes_of two_panels 11) [] = Inr (mode_table (priv ConOut s))"
    by (auto simp: table_after_def)
  have "graphics_outputs two_panels" using two_panels_good by (simp add: good_env_def settable_outputs_def)
  note find = graphics_outputs.find [OF this] and number = graphics_outputs.modes_length [OF this, symmetric]
  have "map resolution (mode_table (priv ConOut s)) = [(1024, 768), (640, 480)]"
    using m by (auto simp: two_panels_modes find number mode_number_def ex_info_def resolution_def blt_only_def same_resolution_def split: if_splits dest!: sym [of _ "mode_table _"])
  moreover have "text_ok (priv ConOut s)" using reachable_ok [OF two_panels_good s(1)] by (simp add: out_ok_def tables_ok_def)
  then have "CurrentNumberOfConsoles (priv ConOut s) = length (map TextOutDevice (attached (priv ConOut s)))" by (simp add: attached_def text_ok_def)
  ultimately show ?thesis using s by (intro exI [of _ s]) (simp add: s)
qed

section \<open>What the tables are good for\<close>

text \<open>C10: As long as no allocation fails (and with devices that answer as the protocols say and have a text mode), in every reachable state
  each splitter's list of consoles lies within its array, the mode map has an entry for every text mode and console, and the entry of the first
  console names query data that exist: no text operation reads outside a table.  Without the condition this is false: when the list of
  consoles has grown and the mode map then cannot, the two no longer fit (attach_leaves_short_map below).\<close>

theorem splitter_out_in_bounds:
  assumes "good_env env" "reachable env s"
  shows "CurrentNumberOfConsoles (priv k s) \<le> length (TextOutList (priv k s)) \<and>
    (0 < CurrentNumberOfConsoles (priv k s) \<longrightarrow> (\<exists>m. TextOutModeMap (priv k s) = Some m \<and>
       (\<forall>i < nat (MaxMode (TextOutMode (priv k s))). \<forall>c < CurrentNumberOfConsoles (priv k s).
          i * TextOutListCount (priv k s) + c < length m \<and> 0 \<le> m ! (i * TextOutListCount (priv k s)) \<and>
          nat (m ! (i * TextOutListCount (priv k s))) < length (TextOutQueryData (priv k s)))))"
proof -
  let ?P = "priv k s"
  have P: "text_ok ?P" using reachable_ok [OF assms] by (simp add: out_ok_def tables_ok_def)
  have fits: "i * TextOutListCount ?P + c < TextOutListCount ?P * TextOutQueryDataCount ?P"
    if "i < nat (MaxMode (TextOutMode ?P))" "c < CurrentNumberOfConsoles ?P" for i c
  proof -
    have "Suc i * TextOutListCount ?P \<le> TextOutQueryDataCount ?P * TextOutListCount ?P" using that P by (intro mult_le_mono1) (simp add: text_ok_def)
    then show ?thesis using that(2) P by (simp add: text_ok_def mult.commute)
  qed
  then show ?thesis using P by (fastforce simp: text_ok_def map_ok_def cell_def)
qed

theorem splitter_out_in_bounds_witness:
  "\<exists>s m. reachable two_panels s \<and> CurrentNumberOfConsoles (priv ConOut s) = 2 \<and> 2 \<le> length (TextOutList (priv ConOut s)) \<and>
    TextOutModeMap (priv ConOut s) = Some m"
proof -
  obtain s where s: "reachable two_panels s" "CurrentNumberOfConsoles (priv ConOut s) = 2" using both_attached by blast
  from splitter_out_in_bounds [OF two_panels_good s(1), of ConOut] s show ?thesis by auto
qed

lemma table_settable:
  assumes "good_env env" "reachable env s" "n < length (mode_table (priv k s))"
  shows "\<exists>s' ms. ConSplitterGraphicsOutputSetMode env k n s = Some (EFI_SUCCESS, s') \<and>
    to_calls s' = to_calls s @ map2 (\<lambda>g m. (g, GSetMode m)) (gops (priv k s)) ms \<and>
    list_all2 (\<lambda>g m. m < length (modes_of env g) \<and> same_resolution (modes_of env g ! m) (mode_table (priv k s) ! n)) (gops (priv k s)) ms \<and>
    map_option DisplayMode (GraphicsOutputMode (priv k s')) = Some n"
proof -
  let ?P = "priv k s"
  have out: "settable_outputs env" using assms(1) by (simp add: good_env_def)
  then have gr: "graphics_outputs env" by (simp add: settable_outputs_def)
  have P: "gfx_ok env ?P" using reachable_ok [OF assms(1,2)] by (simp add: out_ok_def)
  then obtain M where M: "GraphicsOutputMode ?P = Some M" "ModeInfo M \<noteq> None" "DisplayMaxMode M \<le> length (GraphicsOutputModeBuffer ?P)"
    and uga: "list_all (\<lambda>d. UgaDevice d = None) (attached ?P)"
    by (auto simp: gfx_ok_def gfx_with_def)
  have n: "n < DisplayMaxMode M" and entry: "mode_table ?P ! n = GraphicsOutputModeBuffer ?P ! n" using assms(3) M by (auto simp: mode_table_def)
  have common: "\<forall>g\<in>set (gops ?P). offers env g (resolution (mode_table ?P ! n))"
    using P nth_mem [OF assms(3)] by (auto simp: gfx_ok_def gfx_with_def)
  from settable_outputs.set_mode_result [OF out M(1,2) n M(3) uga] common
  obtain s1 where "ConSplitterGraphicsOutputSetMode env k n s = Some (EFI_SUCCESS, s1)" unfolding entry by blast
  with set_mode_all [OF gr M(1,2) assms(3) n uga common] show ?thesis by auto
qed

lemma panel_numbers:
  "m < 3 \<Longrightarrow> resolution (modes_of two_panels 11 ! m) = (640, 480) \<Longrightarrow> m = 2" "m < 2 \<Longrightarrow> resolution (modes_of two_panels 12 ! m) = (640, 480) \<Longrightarrow> m = 0"
  by (auto simp: two_panels_modes resolution_def ex_info_def less_Suc_eq numeral_3_eq_3 numeral_2_eq_2)

text \<open>C7: In every state reachable while no allocation fails, with graphics outputs that answer for their modes as the protocol says, each
  graphics mode in a splitter's table can be set: every attached graphics output is switched exactly
  once, in the order of attachment, to a mode of its own with exactly the resolution the table lists, and the mode becomes current.\<close>

theorem gop_table_settable:
  assumes "good_env env" "reachable env s" "n < length (mode_table (priv k s))"
  shows "\<exists>s' ms. ConSplitterGraphicsOutputSetMode env k n s = Some (EFI_SUCCESS, s') \<and>
    to_calls s' = to_calls s @ map2 (\<lambda>g m. (g, GSetMode m)) (gops (priv k s)) ms \<and>
    list_all2 (\<lambda>g m. m < length (modes_of env g) \<and> same_resolution (modes_of env g ! m) (mode_table (priv k s) ! n)) (gops (priv k s)) ms \<and>
    map_option DisplayMode (GraphicsOutputMode (priv k s')) = Some n"
  by (rule table_settable [OF assms])

theorem gop_table_settable_witness:
  "\<exists>s s'. reachable two_panels s \<and> gops (priv ConOut s) = [11, 12] \<and>
    ConSplitterGraphicsOutputSetMode two_panels ConOut 1 s = Some (EFI_SUCCESS, s') \<and>
    to_calls s' = to_calls s @ [(11, GSetMode 2), (12, GSetMode 0)]"
proof -
  obtain s where s: "reachable two_panels s" "gops (priv ConOut s) = [11, 12]"
      "map resolution (mode_table (priv ConOut s)) = [(1024, 768), (640, 480)]" using both_attached by (elim exE conjE, intro that)
  let ?T = "mode_table (priv ConOut s)"
  have n: "1 < length ?T" "resolution (?T ! 1) = (640, 480)" using s(3) by (auto simp: map_eq_Cons_conv)
  from gop_table_settable [OF two_panels_good s(1) n(1)] s(2) obtain s' a b where
      "ConSplitterGraphicsOutputSetMode two_panels ConOut 1 s = Some (EFI_SUCCESS, s')"
      "to_calls s' = to_calls s @ [(11, GSetMode a), (12, GSetMode b)]"
      and a: "a < 3" "resolution (modes_of two_panels 11 ! a) = (640, 480)" and b: "b < 2" "resolution (modes_of two_panels 12 ! b) = (640, 480)"
    by (auto simp: list_all2_Cons1 same_resolution_iff n(2) [unfolded One_nat_def] two_panels_modes)
  moreover note panel_numbers(1) [OF a] panel_numbers(2) [OF b]
  ultimately show ?thesis using s(1,2) by blast
qed

text \<open>C9: In every state with a graphics output that is reachable while no allocation fails, with graphics outputs that answer for their modes as
  the protocol says, a further console whose graphics output shares a resolution with the table can be
  attached; it is the last in the list, and the new table has the common resolutions, in the order of the old table and each once.\<close>

theorem gop_attach_common:
  assumes "good_env env" "reachable env s" "CurrentNumberOfConsoles (priv k s) < 2 ^ 32" "gops (priv k s) \<noteq> []"
    and "I \<in> set (mode_table (priv k s))" "offers env g (resolution I)"
  shows "\<exists>st s'. ConSplitterTextOutAddDevice env k dev (Some g) None s = Some (st, s') \<and> gops (priv k s') = gops (priv k s) @ [g] \<and>
    set (map resolution (mode_table (priv k s'))) = {r \<in> set (map resolution (mode_table (priv k s))). offers env g r} \<and>
    distinct (map resolution (mode_table (priv k s'))) \<and>
    subseq (map resolution (mode_table (priv k s'))) (map resolution (mode_table (priv k s)))"
proof -
  let ?P = "priv k s"
  have out: "settable_outputs env" and ok: "\<And>n. alloc_ok env n" "\<And>l d. 1 \<le> MaxMode (to_mode env l d)" using assms(1) by (simp_all add: good_env_def)
  note s = reachable_ok [OF assms(1,2)]
  obtain st s' where add: "ConSplitterTextOutAddDevice env k dev (Some g) None s = Some (st, s')"
    using settable_outputs.AddDevice_total [OF out ok s assms(3), of "Some g" dev] assms(5,6) by auto
  from settable_outputs.AddDevice_ok [OF out ok s assms(3) add]
  have att: "gops (priv k s') = gops ?P @ [g]" and "table_after env (Some g) ?P (priv k s')"
    by (simp_all add: gops_def List.map_filter_def)
  then obtain log where "match_modes env log g (mode_table ?P) [] = Inr (mode_table (priv k s'))" using assms(4) by (auto simp: table_after_def)
  from graphics_outputs.match [OF _ this] out add att show ?thesis
    by (intro exI [of _ st] exI [of _ s']) (auto simp: settable_outputs_def)
qed

theorem gop_attach_common_witness:
  "\<exists>s st s'. reachable two_panels s \<and> ConSplitterTextOutAddDevice two_panels ConOut 9 (Some 12) None s = Some (st, s') \<and>
    gops (priv ConOut s') = [11, 12] \<and> map resolution (mode_table (priv ConOut s)) = [(1024, 768), (800, 600), (640, 480)] \<and>
    set (map resolution (mode_table (priv ConOut s'))) = {(640, 480), (1024, 768)}"
proof -
  obtain s where s: "reachable two_panels s" "CurrentNumberOfConsoles (priv ConOut s) < 2 ^ 32" "gops (priv ConOut s) = [11]"
      "mode_table (priv ConOut s) = modes_of two_panels 11" using one_attached by blast
  have T: "map resolution (mode_table (priv ConOut s)) = [(1024, 768), (800, 600), (640, 480)]"
    unfolding s(4) by (simp add: two_panels_modes resolution_def ex_info_def)
  have "gops (priv ConOut s) \<noteq> []" "ex_info 640 480 \<in> set (mode_table (priv ConOut s))" "offers two_panels 12 (resolution (ex_info 640 480))"
    unfolding s by (simp_all add: two_panels_modes two_panels_offers resolution_def ex_info_def)
  from gop_attach_common [OF two_panels_good s(1,2) this, of 9] obtain st s' where
      s': "ConSplitterTextOutAddDevice two_panels ConOut 9 (Some 12) None s = Some (st, s')" "gops (priv ConOut s') = [11, 12]"
      "set (map resolution (mode_table (priv ConOut s'))) = {r \<in> {(1024, 768), (800, 600), (640, 480)}. offers two_panels 12 r}"
    unfolding T s(3) by auto
  have "{r \<in> {(1024, 768), (800, 600), (640, 480)}. offers two_panels 12 r} = {(640, 480), (1024, 768)}" by (auto simp: two_panels_offers)
  note set = s'(3) [unfolded this]
  show ?thesis by (intro exI conjI) (rule s(1) s'(1,2) T set)+
qed

text \<open>C29: As the platform builds it, without a UGA draw protocol of its own, and while no allocation fails, the splitter attaches every console without a graphics output, and
  every one after the first with a graphics output, but reports EFI_DEVICE_ERROR for it.\<close>

theorem splitter_attach_reports_error:
  assumes "good_env env" "reachable env s" "CurrentNumberOfConsoles (priv k s) < 2 ^ 32" "\<not> PcdConOutUgaSupport env"
    and "g = None \<or> gops (priv k s) \<noteq> []" "ConSplitterTextOutAddDevice env k dev g None s = Some (st, s')"
  shows "st = EFI_DEVICE_ERROR \<and> map TextOutDevice (attached (priv k s')) = map TextOutDevice (attached (priv k s)) @ [dev]"
proof -
  have out: "settable_outputs env" and ok: "\<And>n. alloc_ok env n" "\<And>l d. 1 \<le> MaxMode (to_mode env l d)" using assms(1) by (simp_all add: good_env_def)
  from settable_outputs.AddDevice_ok [OF out ok reachable_ok [OF assms(1,2)] assms(3,6)] assms(4,5) show ?thesis by auto
qed

theorem splitter_attach_reports_error_witness:
  "\<exists>s s'. reachable two_panels s \<and> ConSplitterTextOutAddDevice two_panels ConOut 9 (Some 12) None s = Some (EFI_DEVICE_ERROR, s') \<and>
    map TextOutDevice (attached (priv ConOut s')) = [7, 9]"
proof -
  obtain s where s: "reachable two_panels s" "CurrentNumberOfConsoles (priv ConOut s) < 2 ^ 32" "gops (priv ConOut s) = [11]"
      "attached (priv ConOut s) = [\<lparr>GopDevice = Some 11, UgaDevice = None, TextOutDevice = 7\<rparr>]"
      "mode_table (priv ConOut s) = modes_of two_panels 11" using one_attached by blast
  have "\<exists>I\<in>set (mode_table (priv ConOut s)). offers two_panels 12 (resolution I)"
    unfolding s(5) by (simp add: two_panels_offers two_panels_modes resolution_def ex_info_def)
  with reachable_attach [OF two_panels_good s(1,2), of "Some 12" 9] obtain st s' where
      add: "ConSplitterTextOutAddDevice two_panels ConOut 9 (Some 12) None s = Some (st, s')" by auto
  have "\<not> PcdConOutUgaSupport two_panels" by (simp add: two_panels_def with_modes_def ex_env_def)
  from splitter_attach_reports_error [OF two_panels_good s(1,2) this _ add] s add show ?thesis by auto
qed

text \<open>The splitter with one graphics output passes QueryMode on.\<close>

lemma only_gop_one:
  assumes "gops P = [g]" "CurrentNumberOfGraphicsOutput P = 1"
  shows "only_gop P = Some g"
proof -
  have "List.map_filter GopDevice ds = [g] \<Longrightarrow> Option.bind (List.find (\<lambda>d. GopDevice d \<noteq> None) ds) GopDevice = Some g" for ds
    by (induction ds) (auto simp: List.map_filter_simps split: option.splits)
  then show ?thesis using assms by (simp add: only_gop_def gops_def)
qed

lemma query_one:
  assumes "good_env env" "reachable env s" "gops (priv k s) = [g]" "n < length (mode_table (priv k s))" "n < length (modes_of env g)"
  shows "ConSplitterGraphicsOutputQueryMode env k True n s = Some (EFI_SUCCESS, Some (modes_of env g ! n), s)"
proof -
  have "gfx_ok env (priv k s)" using reachable_ok [OF assms(1,2)] by (simp add: out_ok_def)
  then obtain M where M: "GraphicsOutputMode (priv k s) = Some M" "CurrentNumberOfGraphicsOutput (priv k s) = 1"
    using assms(3) by (auto simp: gfx_ok_def gfx_with_def)
  have n: "n < DisplayMaxMode M" using assms(4) M(1) by (simp add: mode_table_def)
  have gr: "graphics_outputs env" using assms(1) by (simp add: good_env_def settable_outputs_def)
  have "n < DisplayMaxMode (gop_mode env [] g)" using assms(5) by (simp add: graphics_outputs.modes_length [OF gr, of g "[]"])
  from graphics_outputs.query [OF gr this] show ?thesis
    using n by (simp add: ConSplitterGraphicsOutputQueryMode_def M(1) only_gop_one [OF assms(3) M(2)] EFI_ERROR_def)
qed

text \<open>C30: After any detach that leaves a splitter with one graphics output, in any state reachable while no allocation fails, a mode number means two things: the table
  of modes stays as it was, common to the outputs that were attached, and SetMode looks the number up there and switches the output to a mode
  of its own with that resolution; QueryMode passes the number on to the output and answers with the output's own mode of that number.  The
  witness shows them differ.\<close>

theorem gop_numbers_disagree:
  assumes "good_env env" "reachable env s" "CurrentNumberOfConsoles (priv k s) < 2 ^ 32"
    and "s' = snd (ConSplitterTextOutDeleteDevice env k dev s)" "gops (priv k s') = [g]"
    and "n < length (mode_table (priv k s))" "n < length (modes_of env g)"
  shows "mode_table (priv k s') = mode_table (priv k s) \<and>
    ConSplitterGraphicsOutputQueryMode env k True n s' = Some (EFI_SUCCESS, Some (modes_of env g ! n), s') \<and>
    (\<exists>s'' m. ConSplitterGraphicsOutputSetMode env k n s' = Some (EFI_SUCCESS, s'') \<and> to_calls s'' = to_calls s' @ [(g, GSetMode m)] \<and>
       m < length (modes_of env g) \<and> resolution (modes_of env g ! m) = resolution (mode_table (priv k s) ! n) \<and>
       map_option DisplayMode (GraphicsOutputMode (priv k s'')) = Some n)"
proof -
  have ok: "\<And>n. alloc_ok env n" "\<And>l d. 1 \<le> MaxMode (to_mode env l d)" using assms(1) by (simp_all add: good_env_def)
  have table: "mode_table (priv k s') = mode_table (priv k s)"
    using DeleteDevice_ok [OF ok reachable_ok [OF assms(1,2)] assms(3), of dev] assms(4) by simp
  have s': "reachable env s'" unfolding assms(4) by (rule reachable_step [OF assms(2) out_step.detach [OF assms(3)]])
  have n: "n < length (mode_table (priv k s'))" using assms(6) table by simp
  from table_settable [OF assms(1) s' n] assms(5) table show ?thesis
    using query_one [OF assms(1) s' assms(5) n assms(7)] by (auto simp: list_all2_Cons1 same_resolution_iff)
qed

text \<open>Of two panels the second is detached: mode 1 is 800 by 600 to QueryMode, and SetMode of mode 1 sets 640 by 480.\<close>

theorem gop_numbers_disagree_witness:
  "\<exists>s' s'' I. ConSplitterGraphicsOutputQueryMode two_panels ConOut True 1 s' = Some (EFI_SUCCESS, Some I, s') \<and> resolution I = (800, 600) \<and>
    ConSplitterGraphicsOutputSetMode two_panels ConOut 1 s' = Some (EFI_SUCCESS, s'') \<and>
    to_calls s'' = to_calls s' @ [(11, GSetMode 2)] \<and> resolution (modes_of two_panels 11 ! 2) = (640, 480)"
proof -
  obtain s where s: "reachable two_panels s" "CurrentNumberOfConsoles (priv ConOut s) = 2"
      "map TextOutDevice (attached (priv ConOut s)) = [7, 9]" "gops (priv ConOut s) = [11, 12]"
      "map resolution (mode_table (priv ConOut s)) = [(1024, 768), (640, 480)]" using both_attached by (elim exE conjE, intro that)
  define s' where s': "s' = snd (ConSplitterTextOutDeleteDevice two_panels ConOut 9 s)"
  have few: "CurrentNumberOfConsoles (priv ConOut s) < 2 ^ 32" using s(2) by simp
  have ok: "\<And>n. alloc_ok two_panels n" "\<And>l d. 1 \<le> MaxMode (to_mode two_panels l d)" using two_panels_good by (simp_all add: good_env_def)
  obtain c7 c9 where att: "attached (priv ConOut s) = [c7, c9]" "TextOutDevice c7 = 7" "TextOutDevice c9 = 9"
    using s(3) by (auto simp: map_eq_Cons_conv)
  then have "TextOutList (priv ConOut s) ! 0 = c7" "TextOutList (priv ConOut s) ! 1 = c9"
    using s(2) nth_take [of 0 2 "TextOutList (priv ConOut s)"] nth_take [of 1 2 "TextOutList (priv ConOut s)"] by (simp_all add: attached_def)
  then have find: "find_console (priv ConOut s) 9 = Some 1" using s(2) att by (simp add: find_console_def upt_rec)
  have "attached (priv ConOut s') = [c7]"
    using DeleteDevice_ok [OF ok reachable_ok [OF two_panels_good s(1)] few, of 9] att find by (simp add: s')
  then have gs: "gops (priv ConOut s') = [11]" using s(4) att(1) by (auto simp: gops_def List.map_filter_def split: if_splits)
  have n: "1 < length (mode_table (priv ConOut s))" "resolution (mode_table (priv ConOut s) ! 1) = (640, 480)" "1 < length (modes_of two_panels 11)"
    using s(5) by (auto simp: map_eq_Cons_conv two_panels_modes)
  from gop_numbers_disagree [OF two_panels_good s(1) few s' gs n(1,3)] n(2) obtain s'' m where
      q: "ConSplitterGraphicsOutputQueryMode two_panels ConOut True 1 s' = Some (EFI_SUCCESS, Some (modes_of two_panels 11 ! 1), s')"
      and set: "ConSplitterGraphicsOutputSetMode two_panels ConOut 1 s' = Some (EFI_SUCCESS, s'')" "to_calls s'' = to_calls s' @ [(11, GSetMode m)]"
      and m: "m < 3" "resolution (modes_of two_panels 11 ! m) = (640, 480)"
    by (auto simp: two_panels_modes)
  from q set m(2) show ?thesis unfolding panel_numbers(1) [OF m]
    by (intro exI conjI) (assumption | simp add: two_panels_modes resolution_def ex_info_def)+
qed

section \<open>When an allocation fails\<close>

text \<open>The list of consoles and the mode map grow by two allocations.\<close>

lemma grow_map_fails:
  assumes "CurrentNumberOfConsoles (priv k s) = TextOutListCount (priv k s)" "alloc_ok env (to_allocs s)" "\<not> alloc_ok env (Suc (to_allocs s))"
  shows "\<exists>s'. grow_consoles env k s = (EFI_OUT_OF_RESOURCES, s') \<and>
    priv k s' = (priv k s)\<lparr>TextOutListCount := TextOutListCount (priv k s) + CONSOLE_SPLITTER_ALLOC_UNIT,
      TextOutList := take (TextOutListCount (priv k s)) (TextOutList (priv k s)) @ replicate CONSOLE_SPLITTER_ALLOC_UNIT (junk_console env)\<rparr>"
  using assms
  by (subst grow_consoles.simps)
    (simp add: ConSplitterGrowBuffer_def ConSplitterGrowMapTable_def Let_def next_alloc_def EFI_ERROR_def)

text \<open>C12: A splitter's list of consoles is full, its tables are in order, and the list can grow but the mode map cannot: attaching a further
  console reports EFI_OUT_OF_RESOURCES and attaches nothing, yet the list keeps its new length and the map its old size.  The tables do not fit
  each other any more: counted with the new length, the map's last row lies beyond its end; and as the list now has room, the next attachment
  will not enlarge the map.\<close>

theorem attach_leaves_short_map:
  assumes "text_ok (priv k s)" "CurrentNumberOfConsoles (priv k s) = TextOutListCount (priv k s)"
    and "alloc_ok env (to_allocs s)" "\<not> alloc_ok env (Suc (to_allocs s))"
  shows "\<exists>s' m. ConSplitterTextOutAddDevice env k dev g u s = Some (EFI_OUT_OF_RESOURCES, s') \<and>
    attached (priv k s') = attached (priv k s) \<and>
    TextOutListCount (priv k s') = TextOutListCount (priv k s) + CONSOLE_SPLITTER_ALLOC_UNIT \<and>
    TextOutModeMap (priv k s) = Some m \<and> TextOutModeMap (priv k s') = Some m \<and> \<not> map_ok (priv k s') m \<and>
    length m \<le> (TextOutQueryDataCount (priv k s') - 1) * TextOutListCount (priv k s') + (CurrentNumberOfConsoles (priv k s') - 1) \<and>
    grow_consoles env' k (set_adding k True s') = (EFI_SUCCESS, set_adding k True s')"
proof -
  let ?P = "priv k s" and ?t = "set_adding k True s"
  have t: "priv k ?t = ?P\<lparr>AddingConOutDevice := True\<rparr>" "to_allocs ?t = to_allocs s"
    by (simp_all add: set_adding_def)
  from grow_map_fails [of k ?t env] assms(2-4) t obtain s' where
      s': "grow_consoles env k ?t = (EFI_OUT_OF_RESOURCES, s')"
        "priv k s' = ?P\<lparr>AddingConOutDevice := True, TextOutListCount := TextOutListCount ?P + CONSOLE_SPLITTER_ALLOC_UNIT,
           TextOutList := take (TextOutListCount ?P) (TextOutList ?P) @ replicate CONSOLE_SPLITTER_ALLOC_UNIT (junk_console env)\<rparr>"
    by auto
  obtain m where m: "TextOutModeMap ?P = Some m" "length m = TextOutListCount ?P * TextOutQueryDataCount ?P"
    and P: "0 < TextOutListCount ?P" "2 \<le> TextOutQueryDataCount ?P" "length (TextOutList ?P) = TextOutListCount ?P"
    using assms(1,2) by (auto simp: text_ok_def map_ok_def)
  obtain q where q: "TextOutQueryDataCount ?P = Suc (Suc q)" using P(2) by (metis add_2_eq_Suc le_Suc_ex)
  have add: "ConSplitterTextOutAddDevice env k dev g u s = Some (EFI_OUT_OF_RESOURCES, s')"
    by (simp add: ConSplitterTextOutAddDevice_def s'(1) EFI_ERROR_def)
  have roomy: "grow_consoles env' k (set_adding k True s') = (EFI_SUCCESS, set_adding k True s')"
    by (subst grow_consoles.simps) (simp add: set_adding_def s'(2) assms(2) CONSOLE_SPLITTER_ALLOC_UNIT_def)
  have short: "length m \<le> (TextOutQueryDataCount ?P - 1) * (TextOutListCount ?P + CONSOLE_SPLITTER_ALLOC_UNIT) + (TextOutListCount ?P - 1)"
    using P(1) by (simp add: m(2) q CONSOLE_SPLITTER_ALLOC_UNIT_def algebra_simps)
  have "\<not> map_ok (priv k s') m"
    using m(2) by (simp add: map_ok_def s'(2) q CONSOLE_SPLITTER_ALLOC_UNIT_def distrib_right)
  then show ?thesis using add roomy short m(1) assms(2) P(3)
    by (intro exI [of _ s'] exI [of _ m]) (simp add: s'(2) attached_def)
qed

text \<open>A full list of 32 consoles with two text modes; the second allocation fails.\<close>

definition full_splitter :: TEXT_OUT_SPLITTER_PRIVATE_DATA where
  "full_splitter = fresh_splitter\<lparr>CurrentNumberOfConsoles := 32, TextOutList := map ex_console [0..<32], TextOutListCount := 32,
     TextOutQueryData := [\<lparr>QColumns = 80, QRows = 25\<rparr>, \<lparr>QColumns = 80, QRows = 50\<rparr>], TextOutQueryDataCount := 2,
     TextOutModeMap := Some (replicate 64 0)\<rparr>"

definition full_state :: splitter_state where
  "full_state = fresh_state\<lparr>mConOut := full_splitter\<rparr>"

theorem attach_leaves_short_map_witness:
  "\<exists>s' m. ConSplitterTextOutAddDevice (ex_env\<lparr>alloc_ok := (\<lambda>n. n = 0)\<rparr>) ConOut 99 None None full_state = Some (EFI_OUT_OF_RESOURCES, s') \<and>
    TextOutListCount (priv ConOut s') = 64 \<and> TextOutModeMap (priv ConOut s') = Some m \<and> length m = 64 \<and> \<not> map_ok (priv ConOut s') m"
proof -
  let ?env = "ex_env\<lparr>alloc_ok := (\<lambda>n. n = 0)\<rparr>"
  have P: "priv ConOut full_state = full_splitter" by (simp add: priv_def full_state_def)
  have "text_ok (priv ConOut full_state)"
    by (simp add: P full_splitter_def fresh_splitter_def text_ok_def map_ok_def cell_def)
  moreover have "CurrentNumberOfConsoles (priv ConOut full_state) = TextOutListCount (priv ConOut full_state)"
    by (simp add: P full_splitter_def)
  moreover have "alloc_ok ?env (to_allocs full_state)" "\<not> alloc_ok ?env (Suc (to_allocs full_state))"
    by (simp_all add: full_state_def fresh_state_def)
  ultimately obtain s' m where "ConSplitterTextOutAddDevice ?env ConOut 99 None None full_state = Some (EFI_OUT_OF_RESOURCES, s')"
      "TextOutListCount (priv ConOut s') = TextOutListCount (priv ConOut full_state) + CONSOLE_SPLITTER_ALLOC_UNIT"
      "TextOutModeMap (priv ConOut full_state) = Some m" "TextOutModeMap (priv ConOut s') = Some m" "\<not> map_ok (priv ConOut s') m"
    using attach_leaves_short_map by blast
  then show ?thesis by (auto simp: P full_splitter_def CONSOLE_SPLITTER_ALLOC_UNIT_def)
qed

text \<open>Nor is the status of the first console's modes looked at: without memory for the mode map the console is attached all the same, with
  no map.\<close>

lemma first_console_without_map:
  assumes "CurrentNumberOfConsoles (priv k s) = 0" "TextOutModeMap (priv k s) = None" "\<not> alloc_ok env (to_allocs s)"
    and "MaxMode (to_mode env (to_calls s) (TextOutDevice d)) \<le> int (TextOutQueryDataCount (priv k s))"
  shows "CurrentNumberOfConsoles (priv k (add_console env k d s)) = 1 \<and> TextOutModeMap (priv k (add_console env k d s)) = None"
proof -
  let ?s1 = "set_priv k ((priv k s)\<lparr>TextOutList := (TextOutList (priv k s))[0 := d]\<rparr>) s"
  have s1: "to_calls ?s1 = to_calls s" "to_allocs ?s1 = to_allocs s" by (cases k; simp add: set_priv_def)+
  show ?thesis using assms
    by (simp add: add_console_def Let_def ConSplitterAddOutputMode_def grow_query_data.simps s1 set_mode_data_def ConSplitterGrowMapTable_def EFI_ERROR_def)
qed

end
