(* ===== verification/SplitterPanels.thy ===== *)
theory SplitterPanels
  imports SplitterConsoles SimpleFbCorrect
begin

text \<open>
  The simple frame buffer driver as the provider of the splitter's graphics outputs: the protocol on the panel keeps the
  laws that the locales \<open>graphics_outputs\<close> and \<open>settable_outputs\<close> ask for.
\<close>

section \<open>The protocol on a panel\<close>

definition panel_mode :: "display \<Rightarrow> EFI_GRAPHICS_OUTPUT_PROTOCOL_MODE" where
  "panel_mode d = (case mDisplayMode d of Some M \<Rightarrow> M
     | None \<Rightarrow> \<lparr>DisplayMaxMode = 0, DisplayMode = 0, ModeInfo = None, SizeOfInfo = 0, FrameBufferBase = 0, FrameBufferSize = 0\<rparr>)"

text \<open>The splitter's environment with every graphics output answered by the driver's functions; \<open>block\<close> is what the pool returns
  for \<open>QueryMode\<close>.\<close>

definition panel_outputs :: "display \<Rightarrow> EFI_GRAPHICS_OUTPUT_MODE_INFORMATION \<Rightarrow> to_env \<Rightarrow> to_env" where
  "panel_outputs d block env = env\<lparr>
     to_status := (\<lambda>log c op. case op of GSetMode n \<Rightarrow> fst (DisplaySetMode d n) | _ \<Rightarrow> to_status env log c op),
     gop_mode := (\<lambda>_ _. panel_mode d),
     gop_info := (\<lambda>_ _. case ModeInfo (panel_mode d) of Some I \<Rightarrow> I | None \<Rightarrow> block),
     gop_query := (\<lambda>_ _ n. case Option.bind (ModeInfo (panel_mode d)) (\<lambda>I. DisplayQueryMode I (Some block) n) of
        Some (Status, _, Info) \<Rightarrow> (Status, Info) | None \<Rightarrow> (EFI_DEVICE_ERROR, block))\<rparr>"

lemma panel_outputs_settable:
  assumes "DisplayMaxMode (panel_mode d) = 1" "ModeInfo (panel_mode d) \<noteq> None"
  shows "settable_outputs (panel_outputs d block env)"
  by unfold_locales (use assms in \<open>auto simp: panel_outputs_def DisplayQueryMode_def DisplaySetMode_def\<close>)

section \<open>The initialised driver\<close>

definition initialised_display :: "fb_env \<Rightarrow> display" where
  "initialised_display e = fst (snd (SimpleFbDxeInitialize e unloaded_display (\<lambda>_. 0)))"

lemma configuration_keeps_mode: "mDisplayMode (create_configuration e A I d) = mDisplayMode d"
  by (simp add: create_configuration_def Let_def split: prod.split option.split)

lemma initialised_mode:
  assumes "fb_env_ok e"
  shows "panel_mode (initialised_display e) =
    \<lparr>DisplayMaxMode = 1, DisplayMode = 0, ModeInfo = Some (display_info (PcdMipiFrameBufferWidth e) (PcdMipiFrameBufferHeight e) zero_masks),
     SizeOfInfo = sizeof_MODE_INFORMATION, FrameBufferBase = PcdMipiFrameBufferAddress e,
     FrameBufferSize = 4 * (PcdMipiFrameBufferHeight e * PcdMipiFrameBufferWidth e)\<rparr>"
  by (simp add: initialised_display_def Initialize_eq [OF assms] Let_def panel_mode_def configuration_keeps_mode)

definition panel_env :: "fb_env \<Rightarrow> to_env \<Rightarrow> to_env" where
  "panel_env e env = panel_outputs (initialised_display e) (junk_info env) env"

lemma panel_env_settable: "fb_env_ok e \<Longrightarrow> settable_outputs (panel_env e env)"
  unfolding panel_env_def by (rule panel_outputs_settable) (simp_all add: initialised_mode)

lemma panel_env_good: "fb_env_ok e \<Longrightarrow> (\<And>n. alloc_ok env n) \<Longrightarrow> PcdConOutGopSupport env \<Longrightarrow> (\<And>l d. 1 \<le> MaxMode (to_mode env l d)) \<Longrightarrow> good_env (panel_env e env)"
  using panel_env_settable [of e env] by (simp add: good_env_def panel_env_def panel_outputs_def)

lemma panel_offers:
  assumes "fb_env_ok e"
  shows "offers (panel_env e env) g r \<longleftrightarrow> r = (PcdMipiFrameBufferWidth e, PcdMipiFrameBufferHeight e)"
  by (auto simp: offers_def modes_of_def panel_env_def panel_outputs_def initialised_mode [OF assms] DisplayQueryMode_def display_info_def resolution_def)

text \<open>Every mode a splitter lists while a panel is attached to it is the panel's one mode.\<close>

lemma panel_table:
  assumes e: "fb_env_ok e" and env: "\<And>n. alloc_ok env n" "PcdConOutGopSupport env" "\<And>l d. 1 \<le> MaxMode (to_mode env l d)"
    and s: "reachable (panel_env e env) s" "gops (priv k s) \<noteq> []" "I \<in> set (mode_table (priv k s))"
  shows "resolution I = (PcdMipiFrameBufferWidth e, PcdMipiFrameBufferHeight e)"
proof -
  have "gfx_ok (panel_env e env) (priv k s)" using reachable_ok [OF panel_env_good [OF e env] s(1)] by (simp add: out_ok_def)
  moreover obtain g where "g \<in> set (gops (priv k s))" using s(2) by (cases "gops (priv k s)") auto
  ultimately show ?thesis using s(3) panel_offers [OF e] unfolding gfx_ok_def gfx_with_def by blast
qed

section \<open>The platform's panel\<close>

definition j4_outputs :: to_env where
  "j4_outputs = panel_env j4_fb_env ex_env"

lemma j4_ok: "fb_env_ok j4_fb_env"
  by (simp add: fb_env_ok_def j4_fb_env_def)

interpretation j4_graphics: settable_outputs j4_outputs
  unfolding j4_outputs_def by (rule panel_env_settable [OF j4_ok])

interpretation j4_gop: graphics_outputs j4_outputs
  by unfold_locales

lemma j4_modes: "map resolution (modes_of j4_outputs g) = [(720, 1280)]"
  by (simp add: modes_of_def j4_outputs_def panel_env_def panel_outputs_def initialised_mode [OF j4_ok] DisplayQueryMode_def display_info_def resolution_def)
    (simp add: j4_fb_env_def)

lemma j4_set_mode: "find_gop_mode j4_outputs log g 720 1280 = Inr 0"
proof -
  obtain I where "modes_of j4_outputs g = [I]" "resolution I = (720, 1280)" using j4_modes [of g] by (auto simp: map_eq_Cons_conv)
  then show ?thesis using j4_graphics.find [of log g 720 1280] by (simp add: mode_number_def)
qed

end
