(* ===== verification/Spec2Isabelle.thy ===== *)
theory Spec2Isabelle
  imports KeypadBinding FrameBufferBltCorrect FbConsoleCorrect InMemSerial SplitterOutCorrect SplitterKeypads SplitterPointerCorrect GraphicsConsoleRuns DisplayConsole SimpleFbCorrect MmcTransferCorrect MmcDmaCorrect MmcDriverCorrect SplitterPanels
begin

text \<open>
  Verification of the console, display and MMC code of the EXYNOS 7885 UEFI firmware.

  The repository is an EDK2 platform package (\<open>src/EXYNOS7885Pkg\<close>): libraries and DXE drivers
  that EDK2's core links and calls.  This development models the parts that carry the
  package's own logic as HOL functions over explicit states, one group of definitions per
  source file, and proves what they guarantee.  The parts and how they meet:

  \<^item> The keypad.  \<open>GenericKeypadDeviceDxe\<close> publishes the key device of
    \<open>Library/KeypadDeviceImplLib\<close>; \<open>Drivers/KeypadDxe\<close> polls it from a timer and from its
    readers, queues the keys in two rings and serves the UEFI text input protocols.
  \<^item> The screen.  \<open>Library/FrameBufferBltLib\<close> moves pixels for \<open>Drivers/SimpleFbDxe\<close>;
    \<open>Library/FrameBufferSerialPortLib\<close> draws the debug output as characters, and
    \<open>Library/InMemorySerialPortLib\<close> is the other implementation of the same serial port class.
  \<^item> The console splitter.  \<open>Drivers/ConSplitterDxe\<close> forwards one virtual console to all
    attached ones and keeps the table of text modes they share; it merges the keys and the
    pointer movements of all attached input devices into one, and on this platform those
    keyboards are the instances of the keypad driver.
  \<^item> The graphics console.  \<open>Drivers/GraphicsConsoleDxe\<close> is a text console drawn through the graphics
    output that \<open>SimpleFbDxe\<close> publishes; the console splitter attaches it.
  \<^item> The MMC host controller.  \<open>Drivers/DwMmcHcDxe\<close> drives a DesignWare SD/MMC controller: it executes commands with
    their data (by FIFO or DMA), queues the non-blocking ones for a timer, publishes them as the SD/MMC pass-thru protocol, and
    identifies the SD or eMMC card in its slot with commands of its own.

  \<^bold>\<open>Theories\<close>

  \<^item> \<open>Prelude\<close>: C widths, status codes, list, ring and word lemmas, the collections
    \<open>status_simps\<close> and \<open>frame_simps\<close>.
  \<^item> \<open>KeyQueue\<close> (\<open>Drivers/KeypadDxe/KeypadTextIn.c\<close>, \<open>Keypad.h\<close>): the 256-slot key ring, the locale
    \<open>bounded_fifo\<close> (push, pop and what a queue keeps of a sequence of keys) and its
    interpretation on the ring, which holds the newest 255 keys.
  \<^item> \<open>KeypadDevice\<close> (\<open>Library/KeypadDeviceImplLib\<close>): the press/repeat state machine of a key and the
    polling of the keys; the locale \<open>keypad_device\<close> of what a driver may assume of the device.
  \<^item> \<open>Keypad\<close>, \<open>KeypadCorrect\<close> (\<open>Drivers/KeypadDxe/KeypadTextIn.c\<close>, \<open>KeypadController.c\<close>, \<open>Keypad.c\<close>): one
    definition per protocol function over the world of device, queues, registrations, events
    and task priority level; the step relation \<open>kp_step\<close> of the handlers and its invariant.
  \<^item> \<open>KeypadBinding\<close> (\<open>Keypad.c\<close>): Supported, Start with all its error exits, and Stop.
  \<^item> \<open>Memory\<close>: byte memory, \<open>CopyMem\<close> and \<open>SetMem\<close> (the C library's memmove and memset, as the UEFI
    specification has them), little-endian words, the \<open>UINTN\<close> wrap-around \<open>wrap\<close>.
  \<^item> \<open>FrameBufferBlt\<close>, \<open>FrameBufferBltCorrect\<close> (\<open>Library/FrameBufferBltLib/FrameBufferBltLib.c\<close>).
  \<^item> \<open>SerialPort\<close>: the locale \<open>serial_port\<close> of the serial port class, interpreted on both libraries
    in \<open>InMemSerial\<close> (\<open>InMemorySerialPortLib.c\<close>) and \<open>FbConsoleCorrect\<close>; \<open>FbConsole\<close>
    (\<open>FrameBufferSerialPortLib.c\<close>, \<open>Include/Resources/font5x12.h\<close>) has the definitions.
  \<^item> \<open>SplitterBase\<close> (\<open>Drivers/ConSplitterDxe/ConSplitter.c\<close>, as the next six where no other file is named): growing an array and
    taking an entry out of it; the locale \<open>device_list\<close> of an operation pair that keeps an array
    of devices, interpreted on every device array of the splitter.
  \<^item> \<open>SplitterOut\<close>, \<open>SplitterOutCorrect\<close>: the mode table and the text output operations.
  \<^item> \<open>GraphicsMode\<close>: the mode structures of the graphics output protocol.  \<open>SplitterGraphics\<close>
    (\<open>ConSplitterGraphics.c\<close>): the virtual graphics output and UGA draw protocols; \<open>SplitterAttach\<close>: attaching a console
    with its graphics output, and the construction.  \<open>SplitterGraphicsCorrect\<close>: the locale \<open>graphics_outputs\<close> of what the
    splitter relies on in the attached outputs; \<open>SplitterTables\<close>, \<open>SplitterRuns\<close>: what each operation keeps of the tables, and the
    locale \<open>settable_outputs\<close>, which extends the former; \<open>SplitterConsoles\<close>: the step relation \<open>out_step\<close> and the reachable
    states; \<open>SplitterPanels\<close>: both locales interpreted on the simple frame buffer driver of the platform's panel.
  \<^item> \<open>SplitterIn\<close>, \<open>SplitterInCorrect\<close>: the text input operations over the splitter's private data, and the
    step relation \<open>in_step\<close> of the calls that change them.
  \<^item> \<open>SplitterPointer\<close>, \<open>SplitterPointerCorrect\<close>: the simple and the absolute pointer.
  \<^item> \<open>SplitterKeypads\<close>: the splitter over the keypad driver; the locales \<open>key_sources\<close> (devices to read
    a key from) and \<open>notify_devices\<close> (devices that register key notifications), interpreted
    on instances of the driver of \<open>Keypad\<close>.
  \<^item> \<open>TextOut\<close>: the mode record and the control characters of the simple text output protocol.
  \<^item> \<open>GraphicsConsole\<close>, \<open>GraphicsConsoleBinding\<close> (\<open>Drivers/GraphicsConsoleDxe/GraphicsConsole.c\<close>, as the next
    three): the protocol functions and the driver binding over one device and a log of its calls.
  \<^item> \<open>GraphicsConsoleText\<close>: a terminal, one character at a time, and the output loop's agreement with it.
  \<^item> \<open>GraphicsConsoleCorrect\<close>, \<open>GraphicsConsoleRuns\<close>: the table of text modes, the states that can be reached
    from Start (\<open>gc_step\<close>), output in them, what Start and Stop take and give back.
  \<^item> \<open>SimpleFb\<close>, \<open>SimpleFbCorrect\<close> (\<open>Drivers/SimpleFbDxe/SimpleFbDxe.c\<close>): the graphics output driver over the
    block transfer library.
  \<^item> \<open>MmcHost\<close>, \<open>MmcHostCorrect\<close> (\<open>Drivers/DwMmcHcDxe/DwMmcHci.c\<close>, \<open>DwMmcHci.h\<close>): registers, clock, reset, bus width;
    \<open>MmcTransfer\<close>, \<open>MmcTransferCorrect\<close>, \<open>MmcDmaCorrect\<close>: FIFO transfers and the DMA descriptors; \<open>MmcExec\<close>,
    \<open>MmcExecCorrect\<close>: executing one request and waiting for it.
  \<^item> \<open>MmcQueue\<close>, \<open>MmcQueueCorrect\<close> (\<open>DwMmcHcDxe.c\<close>): the pass-thru protocol and its queue; \<open>MmcDriver\<close>,
    \<open>MmcDriverCorrect\<close>: the driver binding and the enumeration of the card; \<open>MmcQueueRuns\<close>: the step relation
    \<open>mmc_step\<close> of all of these.
  \<^item> \<open>CardCommands\<close> (\<open>SdDevice.c\<close>, \<open>EmmcDevice.c\<close>): the commands over any pass-thru; \<open>CardIdentify\<close>: the identification
    over the driver's.  \<open>CardBus\<close>: the locale \<open>card_bus\<close> of what a command may assume of the pass-thru; \<open>MmcCommands\<close>: the
    commands that a log shows; \<open>CardIdentifyCorrect\<close>: the locale \<open>card_host\<close> of a relation that all operations of the
    driver keep, interpreted there on the state and on the sequence of commands, in \<open>MmcQueueRuns\<close> on well-formed states.
  \<^item> \<open>TextScreen\<close>: the locale \<open>text_screen\<close>, what the graphics console needs of the layer below to show text;
    \<open>DisplayPixels\<close>: the transfers of the driver as pixels; \<open>DisplayConsole\<close>: the console on the driver,
    with the interpretation of the locale on the panel of \<open>Devices/j4lte.dsc\<close>.

  \<^bold>\<open>How state and code correspond\<close>

  A structure is a record with the fields of the source (a private-data structure with its
  protocol members left out, since these only hold function pointers), a module's statics are
  record fields, an operation takes the state and returns the status and the new state.
  Early returns are branches.  Code that is not in the repository, namely boot services, timers, MMIO,
  the attached consoles and the pool, is an argument (\<open>kp_env\<close>, \<open>to_env\<close>, \<open>in_env\<close>, \<open>gc_env\<close>, \<open>mmc_env\<close>, the bitmap library
  record)
  that answers from the calls made so far; calls with an outside effect are logged.  A loop that
  the code can run forever is a \<open>partial_function\<close>: the keypad reader's loop, the
  splitter's reading loop over its keyboards, the graphics console's output and test loops, the
  \<open>paint\<close>/\<open>newline\<close> jumps of the frame buffer console, and the loops of the MMC driver that look at a register
  (clock update, idle wait, FIFO, end of a command) or ask a card; that it returns is a theorem where it does.
  No definition uses fuel.  Machine integers are words where bits matter and numbers with the
  wrap-around written out (\<open>wrap\<close>, \<open>wrap32\<close>, \<open>int32\<close>, \<open>uintn\<close>) elsewhere.

  \<^bold>\<open>What is shown\<close>

  \<^item> Keypad: every reachable state has well-formed queues, the task priority level restored and live
    registrations; reading terminates and refines a bounded FIFO; waiting signals exactly
    when a key is there; registering and unregistering is the identity; taps, repeats and the
    power chord; Start leaves a ready driver or undoes its protocol opening; and where it does not:
    the null dereference, the timer left running, the events left open, the squared
    notifications, the shared Unicode bit.
  \<^item> Screen: fills are exact whichever strategy runs, conversions are inverse, scrolling up is exact;
    scrolling down is off by one line, the range check wraps, the odd tail of a 16-bit
    fill and the byte count of some pixel masks are wrong.  The character console writes
    only inside the frame buffer, draws exactly the font's pixels and always returns on a screen
    of three lines or more, whatever the unset variable holds that a newline reads and that may leave interrupts enabled; a newline
    skips a line.
  \<^item> Splitter: the intersection of mode tables keeps exactly the common modes in order and follows
    the current mode; strings reach all consoles once and in order; the virtual
    cursor stays on the screen; while no allocation fails and the attached devices answer for their modes as their protocols say
    (\<open>good_env\<close>), in every state reached from the constructors no operation reads outside a table and
    each graphics mode in the table can be set on all attached outputs; a further output leaves the common modes.  And where it
    does not hold: an allocation that fails between the list of consoles and the mode map leaves tables that do not fit, the search
    for shared consoles misses some, the fallback mode is not the documented one, an
    attachment reports an error although the console is attached, and after a detachment a mode number means two modes.
  \<^item> Splitter, input: in every reachable state each device count is within its array; keys are
    handed over in device order and reading returns; a notification that one keypad refuses is taken back at
    the others, and unregistering a handle restores the devices; keypads show the recorded lock bits while states with at most
    one lock are set and reported; pointer movements are summed and rescaled.  And where it does not hold: taking back also takes
    away a keypad's own older registration, a state with several locks is recorded but not shown, removing a
    device leaves the handles of the notifications misaligned, the absolute position
    ignores the minimum of the splitter's own range.
  \<^item> Graphics console: the output of any string returns and does what a terminal of the mode's size
    does; in every state reached from Start the cursor is on the screen of the mode; the modes of
    the table are centred; Start and Stop are balanced; a string is tested exactly.  And where it does not
    hold: mode 0 lies outside a screen under 2280 pixels high, where Start and a reset select it; a mode change
    without memory frees the line buffer twice; the test of a very long string does not end.
  \<^item> The whole output path: initialisation leaves a configured, black panel and touches no other byte; text
    output and clearing through console, driver and transfer library leave in the frame buffer the
    pixels of the terminal's cells.  The HII font protocol, which draws the glyphs, is assumed to behave as
    the UEFI specification says (\<open>hii_font\<close>); \<open>draw_pixels\<close> is a drawer that does.

  \<^item> MMC: whatever is called for its slot, the state stays well formed and every accepted request is signalled once, in
    order; supplying a clock returns and writes the smallest divisor that does not exceed the frequency; a FIFO read leaves
    the words received, the descriptor table covers the data; every bit of a command word; a successful identification has sent
    exactly the documented commands (\<open>sd_identification_commands\<close>, \<open>emmc_identification_commands\<close>).  And where it
    does not hold: the wait for an eMMC command has no timeout, that of an SD command reports success; a FIFO write can hang; Start
    without a card reports success and leaks.

  \<^bold>\<open>Bounds\<close>

  The frame buffer theorems assume a surface (\<open>surface\<close>) below the top of the address space, the
  character console at least two columns and three lines (\<open>fb_ok\<close>); both hold for the panels
  configured under \<open>Devices\<close>.  The splitter theorems assume a table whose arrays have the size the
  code allocates (\<open>table_ok\<close>).  The memory that the MMC controller's DMA engine writes is seen through a parameter of the
  identification (\<open>idEngine\<close>); its registers answer from the log of the accesses made so far.

  \<^bold>\<open>Not modelled\<close>

  ASSERT and DEBUG (a release build); cache maintenance beyond its occurrence; the component name
  tables, constant tables (ACPI, SMBIOS, logo, the glyphs of the graphics console and their registration), PEI and SEC code that only
  calls EDK2.  The splitter's driver binding and entry point are calls of protocols in sequence around the operations modelled
  here.  An access of the MMC driver behind its array of slots, which it makes for a slot number that does not exist, has no
  result (\<open>slot_at\<close>); a blocking request waits with the polling timer alone; statuses are success and errors, without warnings.
  The buttons library and driver and the GPIO driver are left out.
\<close>

end
